(* ===== verification/Prelude.thy ===== *)
theory Prelude
  imports Main "HOL-Library.List_Lexorder" "HOL-Library.Char_ord"
begin

text \<open>
  Shared vocabulary of the development.
  \<^item> \<open>'a res\<close>: the result of an operation that may throw; \<open>Inl code\<close> is the exception with
    its message, \<open>Inr x\<close> a normal return. \<open>res_bind\<close> sequences, \<open>map_res\<close> is
    \<open>Array.prototype.map\<close> with a callback that may throw.
  \<^item> \<open>uniq\<close> is \<open>[...new Set(xs)]\<close> (first occurrences, in order), \<open>set_add\<close> is
    \<open>Set.prototype.add\<close>, \<open>at_last\<close> is \<open>xs.at(-1)\<close>, \<open>find_last\<close> the downward index loop.
  \<^item> Strings are ordered by code unit (\<open>List_Lexorder\<close> over \<open>Char_ord\<close>), as
    \<open>Array.prototype.sort\<close> without a comparator orders them.
  The collections \<open>res_simps\<close> and \<open>model_simps\<close> gather the rewrite rules the component
  proofs use.
\<close>

named_theorems res_simps "rewrite rules for results that may be exceptions"
named_theorems model_simps "rewrite rules of the value model"

subsection \<open>Results that may be exceptions\<close>

type_synonym 'a res = "string + 'a"

definition res_bind :: "'a res \<Rightarrow> ('a \<Rightarrow> 'b res) \<Rightarrow> 'b res" where
  "res_bind m f = (case m of Inl e \<Rightarrow> Inl e | Inr x \<Rightarrow> f x)"

lemma res_bind_simps [simp]:
  "res_bind (Inl e) f = Inl e"
  "res_bind (Inr x) f = f x"
  by (simp_all add: res_bind_def)

lemma res_bind_Inr_iff [res_simps]:
  "res_bind m f = Inr y \<longleftrightarrow> (\<exists>x. m = Inr x \<and> f x = Inr y)"
  by (cases m) simp_all

lemma res_bind_Inl_iff [res_simps]:
  "res_bind m f = Inl e \<longleftrightarrow> m = Inl e \<or> (\<exists>x. m = Inr x \<and> f x = Inl e)"
  by (cases m) auto

lemma res_if_Inr_iff [res_simps]:
  "(if b then Inl e else r) = Inr y \<longleftrightarrow> \<not> b \<and> r = Inr y"
  "(if b then r else Inl e) = Inr y \<longleftrightarrow> b \<and> r = Inr y"
  by auto

lemma res_bind_cong [fundef_cong]:
  "m = m' \<Longrightarrow> (\<And>x. m' = Inr x \<Longrightarrow> f x = f' x) \<Longrightarrow> res_bind m f = res_bind m' f'"
  by (cases m') simp_all

fun map_res :: "('a \<Rightarrow> 'b res) \<Rightarrow> 'a list \<Rightarrow> 'b list res" where
  "map_res f [] = Inr []"
| "map_res f (x # xs) =
     res_bind (f x) (\<lambda>y. res_bind (map_res f xs) (\<lambda>ys. Inr (y # ys)))"

lemma map_res_cong [fundef_cong]:
  "xs = ys \<Longrightarrow> (\<And>x. x \<in> set ys \<Longrightarrow> f x = g x) \<Longrightarrow> map_res f xs = map_res g ys"
proof (induction ys arbitrary: xs)
  case (Cons y ys)
  then have "f y = g y" and "map_res f ys = map_res g ys" by simp_all
  with Cons.prems(1) show ?case by (simp only: map_res.simps)
qed simp

lemma map_res_Cons_Inr [res_simps]:
  "map_res f (x # xs) = Inr zs \<longleftrightarrow>
    (\<exists>y ys. f x = Inr y \<and> map_res f xs = Inr ys \<and> zs = y # ys)"
  by (auto simp: res_simps)

lemma map_res_Inr_iff:
  "map_res f xs = Inr ys \<longleftrightarrow> list_all2 (\<lambda>x y. f x = Inr y) xs ys"
proof (induction xs arbitrary: ys)
  case (Cons x xs)
  have "map_res f (x # xs) = Inr ys \<longleftrightarrow>
    (\<exists>y zs. f x = Inr y \<and> list_all2 (\<lambda>x y. f x = Inr y) xs zs \<and> ys = y # zs)"
    by (simp only: map_res_Cons_Inr Cons.IH)
  also have "\<dots> \<longleftrightarrow> list_all2 (\<lambda>x y. f x = Inr y) (x # xs) ys"
    by (auto simp: list_all2_Cons1)
  finally show ?case .
qed auto

lemma map_res_Inr_map:
  "(\<And>x. x \<in> set xs \<Longrightarrow> f x = Inr (g x)) \<Longrightarrow> map_res f xs = Inr (map g xs)"
  by (induction xs) auto

lemma map_res_ex_iff: "(\<exists>ys. map_res f xs = Inr ys) \<longleftrightarrow> (\<forall>x \<in> set xs. \<exists>y. f x = Inr y)"
proof (induction xs)
  case (Cons x xs)
  have "(\<exists>ys. map_res f (x # xs) = Inr ys) \<longleftrightarrow>
    (\<exists>y. f x = Inr y) \<and> (\<exists>ys. map_res f xs = Inr ys)"
    by (auto simp only: map_res_Cons_Inr)
  with Cons show ?case by simp
qed simp

lemma map_res_Inl: "map_res f xs = Inl e \<Longrightarrow> \<exists>x \<in> set xs. f x = Inl e"
  by (induction xs) (auto simp: res_simps)

subsection \<open>Sets as insertion-ordered lists\<close>

fun uniq :: "'a list \<Rightarrow> 'a list" where
  "uniq [] = []"
| "uniq (x # xs) = x # filter (\<lambda>y. y \<noteq> x) (uniq xs)"

definition set_add :: "'a \<Rightarrow> 'a list \<Rightarrow> 'a list" where
  "set_add x s = (if x \<in> set s then s else s @ [x])"

definition set_add_if :: "bool \<Rightarrow> 'a \<Rightarrow> 'a list \<Rightarrow> 'a list" where
  "set_add_if b x s = (if b then set_add x s else s)"

lemma set_uniq [simp]: "set (uniq xs) = set xs"
  by (induction xs) auto

lemma distinct_uniq [simp]: "distinct (uniq xs)"
  by (induction xs) auto

lemma uniq_distinct: "distinct xs \<Longrightarrow> uniq xs = xs"
proof (induction xs)
  case (Cons x xs)
  then have "filter (\<lambda>y. y \<noteq> x) xs = xs" by (auto simp: filter_id_conv)
  with Cons show ?case by simp
qed simp

lemma length_uniq_le: "length (uniq xs) \<le> length xs"
  by (induction xs) (auto intro: le_trans [OF length_filter_le])

lemma length_uniq_iff: "length (uniq xs) = length xs \<longleftrightarrow> distinct xs"
proof
  assume "length (uniq xs) = length xs"
  then have "card (set xs) = length xs"
    using distinct_card [OF distinct_uniq, of xs] by simp
  then show "distinct xs" by (rule card_distinct)
next
  assume "distinct xs"
  then show "length (uniq xs) = length xs" by (simp add: uniq_distinct)
qed

lemma set_set_add [simp]: "set (set_add x s) = insert x (set s)"
  by (auto simp: set_add_def)

lemma set_add_nonempty [simp]: "set_add x s \<noteq> []"
  by (auto simp: set_add_def)

lemma distinct_set_add [simp]: "distinct (set_add x s) = distinct s"
  by (auto simp: set_add_def)

lemma set_set_add_if [simp]: "set (set_add_if b x s) = (if b then insert x (set s) else set s)"
  by (simp add: set_add_if_def)

lemma distinct_set_add_if [simp]: "distinct (set_add_if b x s) = distinct s"
  by (simp add: set_add_if_def)

lemma set_add_if_Nil_iff [simp]: "set_add_if b x s = [] \<longleftrightarrow> \<not> b \<and> s = []"
  by (simp add: set_add_if_def)

subsection \<open>Ends of lists\<close>

definition at_last :: "'a list \<Rightarrow> 'a option" where
  "at_last xs = (if xs = [] then None else Some (last xs))"

lemma at_last_simps [simp]:
  "at_last [] = None"
  "at_last (xs @ [x]) = Some x"
  by (simp_all add: at_last_def)

lemma at_last_None_iff [simp]: "at_last xs = None \<longleftrightarrow> xs = []"
  by (simp add: at_last_def)

lemma at_last_in: "at_last xs = Some x \<Longrightarrow> x \<in> set xs"
  by (auto simp: at_last_def split: if_splits)

definition find_last :: "('a \<Rightarrow> bool) \<Rightarrow> 'a list \<Rightarrow> 'a option" where
  "find_last P xs = List.find P (rev xs)"

lemma find_last_Nil [simp]: "find_last P [] = None"
  by (simp add: find_last_def)

lemma find_last_snoc [simp]:
  "find_last P (xs @ [x]) = (if P x then Some x else find_last P xs)"
  by (simp add: find_last_def)

lemma find_Some_in: "List.find P xs = Some x \<Longrightarrow> x \<in> set xs \<and> P x"
  by (auto simp: find_Some_iff)

lemma find_None_all: "List.find P xs = None \<longleftrightarrow> (\<forall>x \<in> set xs. \<not> P x)"
  by (induction xs) auto

lemma find_last_Some: "find_last P xs = Some x \<Longrightarrow> x \<in> set xs \<and> P x"
  by (auto simp: find_last_def dest: find_Some_in)

lemma find_last_None: "find_last P xs = None \<longleftrightarrow> (\<forall>x \<in> set xs. \<not> P x)"
  by (simp add: find_last_def find_None_all)

lemma find_last_filter: "find_last P xs = at_last (filter P xs)"
  by (induction xs rule: rev_induct) auto

lemma find_append: "List.find P (xs @ ys) =
  (case List.find P xs of None \<Rightarrow> List.find P ys | Some x \<Rightarrow> Some x)"
  by (induction xs) auto

subsection \<open>Decimal text of numbers\<close>

definition digit_char :: "nat \<Rightarrow> char" where
  "digit_char d = char_of (48 + d)"

fun nat_text :: "nat \<Rightarrow> string" where
  "nat_text n = (if n < 10 then [digit_char n] else nat_text (n div 10) @ [digit_char (n mod 10)])"

declare nat_text.simps [simp del]

definition int_text :: "int \<Rightarrow> string" where
  "int_text i = (if i < 0 then CHR ''-'' # nat_text (nat (- i)) else nat_text (nat i))"

definition digit_chars :: "char list" where
  "digit_chars = map digit_char [0..<10]"

lemma digit_char_inj: "d < 10 \<Longrightarrow> e < 10 \<Longrightarrow> digit_char d = digit_char e \<Longrightarrow> d = e"
proof -
  assume a: "d < 10" "e < 10" "digit_char d = digit_char e"
  then have "of_char (char_of (48 + d) :: char) = (of_char (char_of (48 + e) :: char) :: nat)"
    by (simp add: digit_char_def)
  with a show "d = e" by simp
qed

lemma digit_char_in: "d < 10 \<Longrightarrow> digit_char d \<in> set digit_chars"
  by (auto simp: digit_chars_def)

lemma nat_text_nonempty [simp]: "nat_text n \<noteq> []"
  by (subst nat_text.simps) simp

lemma set_nat_text: "set (nat_text n) \<subseteq> set digit_chars"
proof (induction n rule: nat_text.induct)
  case (1 n)
  then show ?case by (subst nat_text.simps) (auto simp: digit_char_in)
qed

lemma nat_text_small: "n < 10 \<Longrightarrow> nat_text n = [digit_char n]"
  by (subst nat_text.simps) simp

lemma nat_text_big: "\<not> n < 10 \<Longrightarrow> nat_text n = nat_text (n div 10) @ [digit_char (n mod 10)]"
  by (subst nat_text.simps) simp

lemma nat_text_inj: "nat_text m = nat_text n \<Longrightarrow> m = n"
proof (induction m arbitrary: n rule: nat_text.induct)
  case (1 m)
  show ?case
  proof (cases "m < 10")
    case True
    have "n < 10"
      using "1.prems" True nat_text_nonempty [of "n div 10"]
      by (cases "n < 10") (simp_all add: nat_text_small nat_text_big)
    with True "1.prems" have "digit_char m = digit_char n" by (simp add: nat_text_small)
    with True \<open>n < 10\<close> show ?thesis by (intro digit_char_inj)
  next
    case False
    have "\<not> n < 10"
      using "1.prems" False nat_text_nonempty [of "m div 10"]
      by (cases "n < 10") (simp_all add: nat_text_small nat_text_big)
    with False "1.prems" have eq: "nat_text (m div 10) = nat_text (n div 10)"
      and d: "digit_char (m mod 10) = digit_char (n mod 10)"
      by (simp_all add: nat_text_big)
    from False eq have "m div 10 = n div 10" by (rule "1.IH")
    moreover from d have "m mod 10 = n mod 10" by (intro digit_char_inj) simp_all
    ultimately show ?thesis by (metis div_mult_mod_eq)
  qed
qed

lemma minus_notin_digits: "CHR ''-'' \<notin> set digit_chars"
  by code_simp

lemma int_text_inj: "int_text i = int_text j \<Longrightarrow> i = j"
proof -
  assume eq: "int_text i = int_text j"
  have nd: "\<And>n xs. CHR ''-'' # xs \<noteq> nat_text n"
    using set_nat_text minus_notin_digits by (metis list.set_intros(1) subsetD)
  from eq nd nd [symmetric] show "i = j"
    by (auto simp: int_text_def split: if_splits dest: nat_text_inj)
qed

lemma int_text_nonempty [simp]: "int_text i \<noteq> []"
  by (simp add: int_text_def)

lemma set_int_text: "set (int_text i) \<subseteq> insert (CHR ''-'') (set digit_chars)"
  using set_nat_text by (auto simp: int_text_def)

end
