(* ===== verification/Patterns.thy ===== *)
theory Patterns
  imports Prelude
begin

text \<open>
  The anchored regular expressions of the source (\<open>/^...$/.test(s)\<close>). A pattern is a value of
  \<open>rx\<close>; \<open>rx_test\<close> is an executable derivative matcher and \<open>rx_test_lang\<close> its correctness
  against the language \<open>rx_lang\<close>. Every pattern constant of the components is written with
  these constructors, class by class, as the source writes it. \<open>Cls\<close> is a character class
  given by ranges, \<open>Rep r lo hi\<close> the quantifier \<open>r{lo,hi}\<close> (\<open>hi = None\<close>: unbounded).
\<close>

datatype rx =
    Void
  | Eps
  | Cls "(char \<times> char) list"
  | Seq rx rx
  | Alt rx rx
  | Rep rx nat "nat option"

definition in_class :: "(char \<times> char) list \<Rightarrow> char \<Rightarrow> bool" where
  "in_class rs c = list_ex (\<lambda>(a, b). a \<le> c \<and> c \<le> b) rs"

fun pow_lang :: "string set \<Rightarrow> nat \<Rightarrow> string set" where
  "pow_lang L 0 = {[]}"
| "pow_lang L (Suc n) = {u @ v | u v. u \<in> L \<and> v \<in> pow_lang L n}"

fun upto_opt :: "nat \<Rightarrow> nat option \<Rightarrow> bool" where
  "upto_opt n None = True"
| "upto_opt n (Some h) = (n \<le> h)"

fun rx_lang :: "rx \<Rightarrow> string set" where
  "rx_lang Void = {}"
| "rx_lang Eps = {[]}"
| "rx_lang (Cls rs) = {[c] | c. in_class rs c}"
| "rx_lang (Seq r q) = {u @ v | u v. u \<in> rx_lang r \<and> v \<in> rx_lang q}"
| "rx_lang (Alt r q) = rx_lang r \<union> rx_lang q"
| "rx_lang (Rep r lo hi) = {w. \<exists>n. lo \<le> n \<and> upto_opt n hi \<and> w \<in> pow_lang (rx_lang r) n}"

fun rx_null :: "rx \<Rightarrow> bool" where
  "rx_null Void = False"
| "rx_null Eps = True"
| "rx_null (Cls rs) = False"
| "rx_null (Seq r q) = (rx_null r \<and> rx_null q)"
| "rx_null (Alt r q) = (rx_null r \<or> rx_null q)"
| "rx_null (Rep r lo hi) = (upto_opt lo hi \<and> (lo = 0 \<or> rx_null r))"

fun mk_seq :: "rx \<Rightarrow> rx \<Rightarrow> rx" where
  "mk_seq Void q = Void"
| "mk_seq Eps q = q"
| "mk_seq r q = Seq r q"

fun mk_alt :: "rx \<Rightarrow> rx \<Rightarrow> rx" where
  "mk_alt Void q = q"
| "mk_alt r Void = r"
| "mk_alt r q = Alt r q"

fun rx_deriv :: "char \<Rightarrow> rx \<Rightarrow> rx" where
  "rx_deriv c Void = Void"
| "rx_deriv c Eps = Void"
| "rx_deriv c (Cls rs) = (if in_class rs c then Eps else Void)"
| "rx_deriv c (Seq r q) =
     (if rx_null r then mk_alt (mk_seq (rx_deriv c r) q) (rx_deriv c q)
      else mk_seq (rx_deriv c r) q)"
| "rx_deriv c (Alt r q) = mk_alt (rx_deriv c r) (rx_deriv c q)"
| "rx_deriv c (Rep r lo hi) =
     (case hi of
        None \<Rightarrow> mk_seq (rx_deriv c r) (Rep r (lo - 1) None)
      | Some h \<Rightarrow> if h = 0 then Void
                 else mk_seq (rx_deriv c r) (Rep r (lo - 1) (Some (h - 1))))"

fun rx_test :: "rx \<Rightarrow> string \<Rightarrow> bool" where
  "rx_test r [] = rx_null r"
| "rx_test r (c # s) = rx_test (rx_deriv c r) s"

subsection \<open>Correctness of the matcher\<close>

lemma lang_mk_seq [simp]: "rx_lang (mk_seq r q) = rx_lang (Seq r q)"
  by (cases r) auto

lemma lang_mk_alt [simp]: "rx_lang (mk_alt r q) = rx_lang (Alt r q)"
  by (cases r; cases q) auto

lemma pow_lang_Nil: "[] \<in> pow_lang L n \<longleftrightarrow> n = 0 \<or> [] \<in> L"
  by (induction n) auto

lemma rx_null_lang: "rx_null r \<longleftrightarrow> [] \<in> rx_lang r"
proof (induction r)
  case (Rep r lo hi)
  have "upto_opt lo hi" if "lo \<le> n" "upto_opt n hi" for n
    using that by (cases hi) auto
  with Rep show ?case by (auto simp: pow_lang_Nil)
qed auto

lemma pow_lang_mono: "[] \<in> L \<Longrightarrow> m \<le> n \<Longrightarrow> w \<in> pow_lang L m \<Longrightarrow> w \<in> pow_lang L n"
proof (induction n arbitrary: m w)
  case (Suc n)
  show ?case
  proof (cases "m = Suc n")
    case False
    with Suc.prems have "w \<in> pow_lang L n" by (intro Suc.IH [of m]) auto
    then have "w = [] @ w \<and> [] \<in> L \<and> w \<in> pow_lang L n" using Suc.prems(1) by simp
    then show ?thesis unfolding pow_lang.simps by blast
  qed (use Suc.prems in simp)
qed simp

lemma pow_lang_Cons:
  "c # w \<in> pow_lang L n \<longleftrightarrow>
    n > 0 \<and> (\<exists>u v. w = u @ v \<and> c # u \<in> L \<and> v \<in> pow_lang L (n - 1))"
proof (induction n)
  case (Suc n)
  show ?case
  proof
    assume "c # w \<in> pow_lang L (Suc n)"
    then obtain x v where x: "c # w = x @ v" "x \<in> L" "v \<in> pow_lang L n" by auto
    show "Suc n > 0 \<and> (\<exists>u v. w = u @ v \<and> c # u \<in> L \<and> v \<in> pow_lang L (Suc n - 1))"
    proof (cases x)
      case Nil
      with x have "c # w \<in> pow_lang L n" and nil: "[] \<in> L" by simp_all
      then obtain u v' where uv: "n > 0" "w = u @ v'" "c # u \<in> L" "v' \<in> pow_lang L (n - 1)"
        using Suc.IH by blast
      then have "v' \<in> pow_lang L n"
        using pow_lang_mono [OF nil, of "n - 1" n v'] by simp
      with uv show ?thesis by auto
    qed (use x in auto)
  next
    assume "Suc n > 0 \<and> (\<exists>u v. w = u @ v \<and> c # u \<in> L \<and> v \<in> pow_lang L (Suc n - 1))"
    then obtain u v where "w = u @ v" "c # u \<in> L" "v \<in> pow_lang L n" by auto
    then have "c # w = (c # u) @ v \<and> c # u \<in> L \<and> v \<in> pow_lang L n" by simp
    then show "c # w \<in> pow_lang L (Suc n)" unfolding pow_lang.simps by blast
  qed
qed simp

lemma rx_deriv_lang: "w \<in> rx_lang (rx_deriv c r) \<longleftrightarrow> c # w \<in> rx_lang r"
proof (induction r arbitrary: w)
  case (Seq r q)
  have "c # w \<in> rx_lang (Seq r q) \<longleftrightarrow>
    (\<exists>u v. w = u @ v \<and> c # u \<in> rx_lang r \<and> v \<in> rx_lang q) \<or>
    ([] \<in> rx_lang r \<and> c # w \<in> rx_lang q)"
    by (auto simp: Cons_eq_append_conv)
  with Seq show ?case by (auto simp: rx_null_lang)
next
  case (Rep r lo hi)
  have split: "(\<exists>n. lo \<le> n \<and> upto_opt n hi \<and> n > 0 \<and> P (n - 1)) \<longleftrightarrow>
    hi \<noteq> Some 0 \<and> (\<exists>m. lo - 1 \<le> m \<and> upto_opt m (map_option (\<lambda>h. h - 1) hi) \<and> P m)" for P
  proof -
    have "(\<exists>n. lo \<le> n \<and> upto_opt n hi \<and> n > 0 \<and> P (n - 1)) \<longleftrightarrow>
      (\<exists>m. lo \<le> Suc m \<and> upto_opt (Suc m) hi \<and> P m)"
      by (metis Suc_pred diff_Suc_1 zero_less_Suc)
    also have "\<dots> \<longleftrightarrow>
      hi \<noteq> Some 0 \<and> (\<exists>m. lo - 1 \<le> m \<and> upto_opt m (map_option (\<lambda>h. h - 1) hi) \<and> P m)"
      by (cases hi) (auto simp: le_diff_conv Suc_le_eq)
    finally show ?thesis .
  qed
  have "c # w \<in> rx_lang (Rep r lo hi) \<longleftrightarrow>
    (\<exists>n. lo \<le> n \<and> upto_opt n hi \<and> n > 0 \<and>
      (\<exists>u v. w = u @ v \<and> c # u \<in> rx_lang r \<and> v \<in> pow_lang (rx_lang r) (n - 1)))"
    by (simp add: pow_lang_Cons)
  also have "\<dots> \<longleftrightarrow> hi \<noteq> Some 0 \<and>
    (\<exists>m. lo - 1 \<le> m \<and> upto_opt m (map_option (\<lambda>h. h - 1) hi) \<and>
      (\<exists>u v. w = u @ v \<and> c # u \<in> rx_lang r \<and> v \<in> pow_lang (rx_lang r) m))"
    by (rule split)
  also have "\<dots> \<longleftrightarrow> w \<in> rx_lang (rx_deriv c (Rep r lo hi))"
    by (cases hi) (auto simp: Rep.IH)
  finally show ?case by simp
qed auto

theorem rx_test_lang: "rx_test r s \<longleftrightarrow> s \<in> rx_lang r"
  by (induction s arbitrary: r) (simp_all add: rx_null_lang rx_deriv_lang)

subsection \<open>Building blocks of the pattern constants\<close>

definition one :: "char \<Rightarrow> rx" where
  "one c = Cls [(c, c)]"

definition lit :: "string \<Rightarrow> rx" where
  "lit s = foldr (\<lambda>c r. Seq (one c) r) s Eps"

definition a_z :: "char \<times> char" where "a_z = (CHR ''a'', CHR ''z'')"
definition A_Z :: "char \<times> char" where "A_Z = (CHR ''A'', CHR ''Z'')"
definition d0_9 :: "char \<times> char" where "d0_9 = (CHR ''0'', CHR ''9'')"

definition chars :: "string \<Rightarrow> (char \<times> char) list" where
  "chars s = map (\<lambda>c. (c, c)) s"

definition rx_opt :: "rx \<Rightarrow> rx" where "rx_opt r = Rep r 0 (Some 1)"
definition rx_star :: "rx \<Rightarrow> rx" where "rx_star r = Rep r 0 None"
definition rx_plus :: "rx \<Rightarrow> rx" where "rx_plus r = Rep r 1 None"

lemmas rx_defs = one_def lit_def a_z_def A_Z_def d0_9_def chars_def
  rx_opt_def rx_star_def rx_plus_def

lemma lit_simps [simp]:
  "lit [] = Eps"
  "lit (c # s) = Seq (one c) (lit s)"
  by (simp_all add: lit_def)

lemma lang_one [simp]: "rx_lang (one c) = {[c]}"
  by (auto simp: one_def in_class_def)

lemma lang_lit [simp]: "rx_lang (lit s) = {s}"
  by (induction s) simp_all

lemma pow_lang_class_length:
  "w \<in> pow_lang (rx_lang (Cls rs)) n \<longleftrightarrow> length w = n \<and> list_all (in_class rs) w"
proof (induction n arbitrary: w)
  case (Suc n)
  have "w \<in> pow_lang (rx_lang (Cls rs)) (Suc n) \<longleftrightarrow>
    (\<exists>u v. w = u @ v \<and> (\<exists>c. u = [c] \<and> in_class rs c) \<and> v \<in> pow_lang (rx_lang (Cls rs)) n)"
    by simp
  also have "\<dots> \<longleftrightarrow>
    (\<exists>c v. w = c # v \<and> in_class rs c \<and> v \<in> pow_lang (rx_lang (Cls rs)) n)"
    by (metis append_Cons append_Nil)
  also have "\<dots> \<longleftrightarrow> length w = Suc n \<and> list_all (in_class rs) w"
    by (cases w) (auto simp: Suc.IH simp del: rx_lang.simps)
  finally show ?case .
qed auto

text \<open>A repeated character class is a length bound and a check of every character.\<close>

lemma rx_test_class_rep:
  "rx_test (Rep (Cls rs) lo hi) s \<longleftrightarrow>
    lo \<le> length s \<and> upto_opt (length s) hi \<and> list_all (in_class rs) s"
  using pow_lang_class_length by (auto simp: rx_test_lang)

lemma rx_test_class_Seq:
  "rx_test (Seq (Cls rs) r) (c # s) \<longleftrightarrow> in_class rs c \<and> rx_test r s"
proof -
  have "c # s \<in> rx_lang (Seq (Cls rs) r) \<longleftrightarrow> in_class rs c \<and> s \<in> rx_lang r"
    by (auto intro: exI [of _ "[c]"])
  then show ?thesis by (simp add: rx_test_lang)
qed

text \<open>The digest pattern \<open>/^[a-f0-9]{64}$/\<close>, used by every component.\<close>

definition DIGEST_PATTERN :: rx where
  "DIGEST_PATTERN = Rep (Cls [(CHR ''a'', CHR ''f''), d0_9]) 64 (Some 64)"

definition hex64 :: "string \<Rightarrow> bool" where
  "hex64 s = rx_test DIGEST_PATTERN s"

lemma hex64_iff:
  "hex64 s \<longleftrightarrow> length s = 64 \<and> list_all (in_class [(CHR ''a'', CHR ''f''), d0_9]) s"
  by (auto simp: hex64_def DIGEST_PATTERN_def rx_test_class_rep)

end
