(* ===== verification/JsValue.thy ===== *)
theory JsValue
  imports Patterns
begin

text \<open>
  The JavaScript values the contracts receive as \<open>unknown\<close>.
  \<^item> A number is \<open>NInt i\<close> (an integral double, whose \<open>Number::toString\<close> text is its decimal
    numeral), \<open>NDec t\<close> (any other finite double, named by its \<open>Number::toString\<close> text
    \<open>t\<close>) or \<open>NNonFinite\<close> (\<open>NaN\<close> and the infinities).
  \<^item> A string is the list of its code units, restricted to units below 256.
  \<^item> \<open>JArr i vs\<close> is an ordinary dense array and \<open>JObj i kvs\<close> an object whose prototype is
    \<open>Object.prototype\<close> with enumerable data properties \<open>kvs\<close> in the order of
    \<open>Object.keys\<close>; \<open>i\<close> is the
    identity of the object, which \<open>WeakSet\<close> membership depends on. \<open>JOdd i\<close> is any other
    non-primitive value (a class instance, a null-prototype object, a function, a symbol).
  Values are finite trees: a cyclic object graph has no representation.
\<close>

datatype jsnum = NInt int | NDec string | NNonFinite

datatype js =
    JUndef
  | JNull
  | JBool bool
  | JNum jsnum
  | JStr string
  | JArr nat "js list"
  | JObj nat "(string \<times> js) list"
  | JOdd nat

type_synonym fields = "(string \<times> js) list"

text \<open>Object and array literals whose identity does not matter.\<close>

abbreviation obj :: "fields \<Rightarrow> js" where "obj kvs \<equiv> JObj 0 kvs"
abbreviation arr :: "js list \<Rightarrow> js" where "arr vs \<equiv> JArr 0 vs"
abbreviation jint :: "int \<Rightarrow> js" where "jint i \<equiv> JNum (NInt i)"

definition jnat :: "nat \<Rightarrow> js" where "jnat n = JNum (NInt (int n))"

definition str_or_null :: "string option \<Rightarrow> js" where
  "str_or_null x = (case x of None \<Rightarrow> JNull | Some s \<Rightarrow> JStr s)"

text \<open>A property read \<open>record.key\<close>: \<open>undefined\<close> where there is no such property.\<close>

definition getf :: "fields \<Rightarrow> string \<Rightarrow> js" where
  "getf kvs k = (case map_of kvs k of None \<Rightarrow> JUndef | Some v \<Rightarrow> v)"

lemma getf_simps [simp]:
  "getf [] k = JUndef"
  "getf ((k', v) # kvs) k = (if k = k' then v else getf kvs k)"
  by (simp_all add: getf_def)

fun is_record :: "js \<Rightarrow> bool" where
  "is_record (JObj i kvs) = True"
| "is_record _ = False"

fun fields_of :: "js \<Rightarrow> fields" where
  "fields_of (JObj i kvs) = kvs"
| "fields_of _ = []"

lemma is_record_iff: "is_record v \<longleftrightarrow> (\<exists>i kvs. v = JObj i kvs)"
  by (cases v) simp_all

text \<open>\<open>Number.isSafeInteger\<close> and the comparisons the code makes on safe integers.\<close>

definition max_safe :: int where "max_safe = 9007199254740991"

fun is_safe_integer :: "js \<Rightarrow> bool" where
  "is_safe_integer (JNum (NInt i)) = (- max_safe \<le> i \<and> i \<le> max_safe)"
| "is_safe_integer _ = False"

fun int_of_js :: "js \<Rightarrow> int" where
  "int_of_js (JNum (NInt i)) = i"
| "int_of_js _ = 0"

lemma is_safe_integerE:
  assumes "is_safe_integer v"
  obtains i where "v = jint i" and "- max_safe \<le> i" and "i \<le> max_safe"
  using assms by (cases v rule: is_safe_integer.cases) auto

text \<open>\<open>typeof v === "string"\<close> and a test of the string.\<close>

definition str_test :: "(string \<Rightarrow> bool) \<Rightarrow> js \<Rightarrow> bool" where
  "str_test P v = (case v of JStr s \<Rightarrow> P s | _ \<Rightarrow> False)"

lemma str_test_simps [simp]:
  "str_test P (JStr s) = P s"
  "str_test P JUndef = False" "str_test P JNull = False" "str_test P (JBool b) = False"
  "str_test P (JNum n) = False" "str_test P (JArr i vs) = False"
  "str_test P (JObj i kvs) = False" "str_test P (JOdd i) = False"
  by (simp_all add: str_test_def)

lemma str_test_iff: "str_test P v \<longleftrightarrow> (\<exists>s. v = JStr s \<and> P s)"
  by (cases v) auto

fun str_of :: "js \<Rightarrow> string" where
  "str_of (JStr s) = s"
| "str_of _ = []"

fun is_array :: "js \<Rightarrow> bool" where
  "is_array (JArr i vs) = True"
| "is_array _ = False"

fun elems_of :: "js \<Rightarrow> js list" where
  "elems_of (JArr i vs) = vs"
| "elems_of _ = []"

lemma is_array_iff: "is_array v \<longleftrightarrow> (\<exists>i vs. v = JArr i vs)"
  by (cases v) simp_all

subsection \<open>Well-formed and plain values\<close>

text \<open>
  \<open>js_wf\<close>: what every JavaScript value satisfies by construction, distinct property names and
  number texts that are those of a non-integral double.
\<close>

definition num_chars :: "char list" where
  "num_chars = digit_chars @ ''-+.e''"

definition dec_text :: "string \<Rightarrow> bool" where
  "dec_text t \<longleftrightarrow> t \<noteq> [] \<and> list_all (\<lambda>c. c \<in> set num_chars) t
     \<and> list_ex (\<lambda>c. c \<in> set ''.e'') t \<and> hd t \<in> set (CHR ''-'' # digit_chars)"

fun num_wf :: "jsnum \<Rightarrow> bool" where
  "num_wf (NDec t) = dec_text t"
| "num_wf _ = True"

fun js_wf :: "js \<Rightarrow> bool" where
  "js_wf (JNum n) = num_wf n"
| "js_wf (JArr i vs) = list_all js_wf vs"
| "js_wf (JObj i kvs) = (distinct (map fst kvs) \<and> list_all (\<lambda>(k, v). js_wf v) kvs)"
| "js_wf _ = True"

text \<open>\<open>plain\<close>: the values \<open>JSON.stringify\<close> and \<open>JSON.parse\<close> carry without loss.\<close>

fun plain :: "js \<Rightarrow> bool" where
  "plain JUndef = False"
| "plain (JOdd i) = False"
| "plain (JNum n) = (n \<noteq> NNonFinite)"
| "plain (JArr i vs) = list_all plain vs"
| "plain (JObj i kvs) = list_all (\<lambda>(k, v). plain v) kvs"
| "plain _ = True"

lemma plain_not_undef: "plain v \<Longrightarrow> v \<noteq> JUndef"
  by auto

lemma plain_basic [simp]: "plain (jnat n)" "plain (str_or_null x)"
  by (simp_all add: jnat_def str_or_null_def split: option.splits)

lemma js_wf_basic [simp]: "js_wf (jnat n)" "js_wf (str_or_null x)"
  by (simp_all add: jnat_def str_or_null_def split: option.splits)

lemma jnat_inj [simp]: "jnat m = jnat n \<longleftrightarrow> m = n"
  by (simp add: jnat_def)

lemma str_or_null_inj [simp]: "str_or_null x = str_or_null y \<longleftrightarrow> x = y"
  by (simp add: str_or_null_def split: option.splits)

text \<open>
  \<open>js_norm\<close> forgets what serialisation forgets: object identities and the order in which the
  properties were created.
\<close>

lemma size_field [termination_simp]:
  "(k, v) \<in> set kvs \<Longrightarrow> size v < Suc (size_list (size_prod (\<lambda>x. 0) size) kvs)"
  by (induction kvs) auto

fun js_norm :: "js \<Rightarrow> js" where
  "js_norm (JArr i vs) = JArr 0 (map js_norm vs)"
| "js_norm (JObj i kvs) = JObj 0 (map (\<lambda>(k, v). (k, js_norm v)) (sort_key fst kvs))"
| "js_norm v = v"

end
