(* ===== verification/CanonicalJson.thy ===== *)
theory CanonicalJson
  imports JsValue "HOL-Library.Multiset"
begin

text \<open>
  \<open>packages/contracts/src/canonical-json.ts\<close>: the canonical text every digest is taken over,
  and the fact the digests rest on: two well-formed values with the same canonical text are
  the same value up to the creation order of object properties
  (\<open>canonicalJson_decode\<close>, \<open>canonicalJson_norm\<close>).
\<close>

subsection \<open>String literals: \<open>JSON.stringify\<close> of a string\<close>

definition dquote :: char where "dquote = CHR 0x22"
definition backslash :: char where "backslash = CHR 0x5C"

definition hex_char :: "nat \<Rightarrow> char" where
  "hex_char d = (if d < 10 then char_of (48 + d) else char_of (87 + d))"

definition esc :: "char \<Rightarrow> string" where
  "esc c =
     (let n = (of_char c :: nat) in
      if n = 34 then [backslash, dquote]
      else if n = 92 then [backslash, backslash]
      else if n = 8 then [backslash, CHR ''b'']
      else if n = 9 then [backslash, CHR ''t'']
      else if n = 10 then [backslash, CHR ''n'']
      else if n = 12 then [backslash, CHR ''f'']
      else if n = 13 then [backslash, CHR ''r'']
      else if n < 32 then
        [backslash, CHR ''u'', CHR ''0'', CHR ''0'', hex_char (n div 16), hex_char (n mod 16)]
      else [c])"

definition quote :: "string \<Rightarrow> string" where
  "quote s = dquote # concat (map esc s) @ [dquote]"

fun join :: "string \<Rightarrow> string list \<Rightarrow> string" where
  "join sep [] = []"
| "join sep [t] = t"
| "join sep (t # ts) = t @ sep @ join sep ts"

fun num_text :: "jsnum \<Rightarrow> string" where
  "num_text (NInt i) = int_text i"
| "num_text (NDec t) = t"
| "num_text NNonFinite = ''null''"

subsection \<open>The serialiser\<close>

definition rejects_non_finite :: string where
  "rejects_non_finite = ''Canonical JSON rejects non-finite numbers''"
definition plain_objects_only :: string where
  "plain_objects_only = ''Canonical JSON accepts plain JSON objects only''"
definition rejects_undefined :: string where
  "rejects_undefined = ''Canonical JSON rejects undefined object values''"

function canonicalJson :: "js \<Rightarrow> string res" where
  "canonicalJson JNull = Inr ''null''"
| "canonicalJson (JBool b) = Inr (if b then ''true'' else ''false'')"
| "canonicalJson (JStr s) = Inr (quote s)"
| "canonicalJson (JNum n) =
     (if n = NNonFinite then Inl rejects_non_finite else Inr (num_text n))"
| "canonicalJson (JArr i vs) =
     res_bind (map_res canonicalJson vs) (\<lambda>ts. Inr (''['' @ join '','' ts @ '']''))"
| "canonicalJson (JObj i kvs) =
     res_bind
       (map_res (\<lambda>(k, v).
          if v = JUndef then Inl rejects_undefined
          else res_bind (canonicalJson v) (\<lambda>t. Inr (quote k @ '':'' @ t))) (sort_key fst kvs))
       (\<lambda>es. Inr (''{'' @ join '','' es @ ''}''))"
| "canonicalJson JUndef = Inl plain_objects_only"
| "canonicalJson (JOdd i) = Inl plain_objects_only"
  by pat_completeness auto
termination
proof (relation "measure size", goal_cases)
  case (2 i vs x)
  then show ?case by (induction vs) auto
next
  case (3 i kvs x k v)
  then have "(k, v) \<in> set kvs" by simp
  then show ?case by (simp add: size_field)
qed simp

subsection \<open>Which values have a canonical text\<close>

lemma map_res_fst_ok:
  "(\<exists>ts. map_res f (sort_key g xs) = Inr ts) \<longleftrightarrow> (\<forall>x \<in> set xs. \<exists>t. f x = Inr t)"
  by (simp add: map_res_ex_iff)

text \<open>The serialiser throws exactly on values that are not plain.\<close>

lemma canonicalJson_plain: "(\<exists>t. canonicalJson v = Inr t) \<longleftrightarrow> plain v"
proof (induction v rule: canonicalJson.induct)
  case (5 i vs)
  have "(\<exists>t. canonicalJson (JArr i vs) = Inr t) \<longleftrightarrow> (\<exists>ts. map_res canonicalJson vs = Inr ts)"
    by (auto simp: res_simps)
  with 5 show ?case by (auto simp: map_res_ex_iff list_all_iff)
next
  case (6 i kvs)
  let ?f = "\<lambda>(k, v). if v = JUndef then Inl rejects_undefined
          else res_bind (canonicalJson v) (\<lambda>t. Inr (quote k @ '':'' @ t))"
  have f: "(\<exists>t. ?f (k, v) = Inr t) \<longleftrightarrow> plain v" if "(k, v) \<in> set kvs" for k v
    using 6 [of "(k, v)" k v] that plain_not_undef by (auto simp: res_simps)
  have "(\<exists>t. canonicalJson (JObj i kvs) = Inr t) \<longleftrightarrow> (\<exists>ts. map_res ?f (sort_key fst kvs) = Inr ts)"
    by (auto simp: res_bind_Inr_iff)
  also have "\<dots> \<longleftrightarrow> (\<forall>x \<in> set kvs. \<exists>t. ?f x = Inr t)" by (rule map_res_fst_ok)
  also have "\<dots> \<longleftrightarrow> (\<forall>(k, v) \<in> set kvs. plain v)" using f by (simp add: Ball_def)
  finally show ?case by (simp add: list_all_iff)
qed auto

text \<open>The text of a value, where the code relies on there being one.\<close>

definition canonText :: "js \<Rightarrow> string" where
  "canonText v = (case canonicalJson v of Inr t \<Rightarrow> t | Inl e \<Rightarrow> [])"

lemma canonText_plain: "plain v \<Longrightarrow> canonicalJson v = Inr (canonText v)"
  using canonicalJson_plain [of v] by (auto simp: canonText_def)

subsection \<open>Decoding string literals\<close>

lemma of_char_marks [simp]:
  "of_char dquote = (34 :: nat)" "of_char backslash = (92 :: nat)"
  by (simp_all add: dquote_def backslash_def)

lemma of_char_eq: "of_char c = (of_char d :: nat) \<Longrightarrow> c = d"
  by simp

lemma hex_char_inj: "d < 16 \<Longrightarrow> e < 16 \<Longrightarrow> hex_char d = hex_char e \<Longrightarrow> d = e"
proof -
  assume a: "d < 16" "e < 16" "hex_char d = hex_char e"
  then have "of_char (hex_char d) = (of_char (hex_char e) :: nat)" by simp
  with a(1,2) show "d = e" by (simp add: hex_char_def split: if_splits)
qed

text \<open>
  An ordinary character stands for itself; every other one is a backslash and a tail, and no
  tail is the beginning of another.
\<close>

definition esc_tail :: "nat \<Rightarrow> string" where
  "esc_tail n =
     (if n = 34 then [dquote]
      else if n = 92 then [backslash]
      else if n = 8 then ''b''
      else if n = 9 then ''t''
      else if n = 10 then ''n''
      else if n = 12 then ''f''
      else if n = 13 then ''r''
      else [CHR ''u'', CHR ''0'', CHR ''0'', hex_char (n div 16), hex_char (n mod 16)])"

definition is_special :: "nat \<Rightarrow> bool" where
  "is_special n \<longleftrightarrow> n < 32 \<or> n = 34 \<or> n = 92"

lemma esc_split:
  "esc c = (if is_special (of_char c) then backslash # esc_tail (of_char c) else [c])"
  by (simp add: esc_def esc_tail_def is_special_def Let_def)

lemma hex_pair_inj:
  assumes "n < 32" "m < 32" "hex_char (n div 16) = hex_char (m div 16)"
    "hex_char (n mod 16) = hex_char (m mod 16)"
  shows "n = m"
proof -
  have "n div 16 = m div 16" using assms by (intro hex_char_inj) auto
  moreover have "n mod 16 = m mod 16" using assms by (intro hex_char_inj) auto
  ultimately show ?thesis by (metis div_mult_mod_eq)
qed

lemma esc_tail_decode:
  assumes "is_special n" "is_special m" "esc_tail n @ x = esc_tail m @ y"
  shows "n = m \<and> x = y"
proof -
  have ne: "dquote \<noteq> backslash" "dquote \<notin> set ''btnfru''" "backslash \<notin> set ''btnfru''"
    by (simp_all add: dquote_def backslash_def)
  from assms(3) have "n = m"
    using assms(1,2) hex_pair_inj [of n m] ne
    by (auto simp: esc_tail_def is_special_def split: if_splits)
  with assms(3) show ?thesis by simp
qed

lemma esc_nonempty [simp]: "esc c \<noteq> []"
  by (simp add: esc_split)

lemma esc_decode:
  assumes eq: "esc c @ x = esc d @ y"
  shows "c = d \<and> x = y"
proof (cases "is_special (of_char c)"; cases "is_special (of_char d)")
  assume sp: "is_special (of_char c)" "is_special (of_char d)"
  with eq have "esc_tail (of_char c) @ x = esc_tail (of_char d) @ y" by (simp add: esc_split)
  with sp have "(of_char c :: nat) = of_char d \<and> x = y" by (intro esc_tail_decode)
  then show ?thesis by simp
next
  assume sp: "is_special (of_char c)" "\<not> is_special (of_char d)"
  with eq have "d = backslash" by (simp add: esc_split)
  with sp show ?thesis by (simp add: is_special_def)
next
  assume sp: "\<not> is_special (of_char c)" "is_special (of_char d)"
  with eq have "c = backslash" by (simp add: esc_split)
  with sp show ?thesis by (simp add: is_special_def)
next
  assume "\<not> is_special (of_char c)" "\<not> is_special (of_char d)"
  with eq show ?thesis by (simp add: esc_split)
qed

lemma esc_dquote_clash: "esc c @ x \<noteq> dquote # y"
proof
  assume eq: "esc c @ x = dquote # y"
  show False
  proof (cases "is_special (of_char c)")
    case True
    with eq show False by (simp add: esc_split dquote_def backslash_def)
  next
    case False
    with eq have "c = dquote" by (simp add: esc_split)
    with False show False by (simp add: is_special_def)
  qed
qed

lemma quote_body_decode:
  "concat (map esc s) @ dquote # r = concat (map esc s') @ dquote # r' \<Longrightarrow> s = s' \<and> r = r'"
proof (induction s arbitrary: s')
  case Nil
  then show ?case
    using esc_dquote_clash [of "hd s'" "concat (map esc (tl s')) @ dquote # r'" r]
    by (cases s') (auto dest: sym)
next
  case (Cons c s)
  show ?case
  proof (cases s')
    case Nil
    with Cons.prems show ?thesis by (simp add: esc_dquote_clash)
  next
    case (Cons d s2)
    with \<open>concat (map esc (c # s)) @ dquote # r = _\<close>
    have "c = d \<and> concat (map esc s) @ dquote # r = concat (map esc s2) @ dquote # r'"
      by (intro esc_decode) simp
    with Cons Cons.IH [of s2] show ?thesis by simp
  qed
qed

lemma quote_decode: "quote s @ r = quote s' @ r' \<Longrightarrow> s = s' \<and> r = r'"
  using quote_body_decode [of s r s' r'] by (simp add: quote_def)

lemma quote_inj [simp]: "quote s = quote s' \<longleftrightarrow> s = s'"
  using quote_decode [of s "[]" s' "[]"] by auto

subsection \<open>Decoding numbers\<close>

text \<open>\<open>stop r\<close>: the rest \<open>r\<close> of a text begins where a value may end.\<close>

definition stop :: "string \<Rightarrow> bool" where
  "stop r \<longleftrightarrow> r = [] \<or> hd r \<in> set '',]}''"

lemma stop_simps [simp]:
  "stop []"
  "stop (c # r) \<longleftrightarrow> c \<in> set '',]}''"
  by (simp_all add: stop_def)

lemma num_chars_no_stop: "list_all (\<lambda>c. c \<notin> set num_chars) '',]}''"
  by code_simp

lemma digits_no_dot: "list_all (\<lambda>c. c \<notin> set ''.e'') (CHR ''-'' # digit_chars)"
  by code_simp

lemma set_num_text:
  assumes "num_wf n" and "n \<noteq> NNonFinite"
  shows "set (num_text n) \<subseteq> set num_chars"
proof (cases n)
  case (NInt i)
  have "insert (CHR ''-'') (set digit_chars) \<subseteq> set num_chars" by (auto simp: num_chars_def)
  with NInt set_int_text [of i] show ?thesis by auto
next
  case (NDec t)
  with assms show ?thesis by (auto simp: dec_text_def list_all_iff)
qed (use assms in simp)

lemma int_text_not_dec: "dec_text t \<Longrightarrow> int_text i \<noteq> t"
proof
  assume "dec_text t" and "int_text i = t"
  then have "list_ex (\<lambda>c. c \<in> set ''.e'') (int_text i)" by (simp add: dec_text_def)
  then obtain c where "c \<in> set (int_text i)" and "c \<in> set ''.e''"
    by (auto simp: list_ex_iff)
  with set_int_text [of i] digits_no_dot show False by (auto simp: list_all_iff)
qed

lemma num_text_inj:
  assumes "num_wf m" "num_wf n" "m \<noteq> NNonFinite" "n \<noteq> NNonFinite" "num_text m = num_text n"
  shows "m = n"
  using assms int_text_not_dec
  by (cases m; cases n) (auto dest: int_text_inj sym)

lemma prefix_stop_unique:
  assumes "set t \<subseteq> A" "set t' \<subseteq> A" "t @ r = t' @ r'"
    and "r = [] \<or> hd r \<notin> A" "r' = [] \<or> hd r' \<notin> A"
  shows "t = t' \<and> r = r'"
  using assms
proof (induction t arbitrary: t')
  case Nil
  then show ?case by (cases t') auto
next
  case (Cons c t)
  then show ?case by (cases t') auto
qed

lemma num_decode:
  assumes "num_wf m" "num_wf n" "m \<noteq> NNonFinite" "n \<noteq> NNonFinite"
    and eq: "num_text m @ r = num_text n @ r'" and "stop r" "stop r'"
  shows "m = n \<and> r = r'"
proof -
  have nostop: "x = [] \<or> hd x \<notin> set num_chars" if "stop x" for x
    using that num_chars_no_stop by (auto simp: stop_def list_all_iff)
  have "num_text m = num_text n \<and> r = r'"
    using assms by (intro prefix_stop_unique [where A = "set num_chars"] set_num_text nostop)
  with assms num_text_inj show ?thesis by blast
qed

subsection \<open>Decoding separated sequences\<close>

lemma join_Cons:
  "join sep (t # ts) = t @ (if ts = [] then [] else sep @ join sep ts)"
  by (cases ts) simp_all

text \<open>
  \<open>decodes E n x\<close>: a text of \<open>x\<close> (in the relation \<open>E\<close>), followed by the end of a value,
  determines \<open>n x\<close> and the rest.
\<close>

definition decodes :: "('a \<Rightarrow> string \<Rightarrow> bool) \<Rightarrow> ('a \<Rightarrow> 'b) \<Rightarrow> 'a \<Rightarrow> 'a \<Rightarrow> bool" where
  "decodes E n x y \<longleftrightarrow> (\<forall>t t' r r'. E x t \<longrightarrow> E y t' \<longrightarrow> t @ r = t' @ r' \<longrightarrow>
     stop r \<longrightarrow> stop r' \<longrightarrow> n x = n y \<and> r = r')"

lemma decodesD:
  "decodes E n x y \<Longrightarrow> E x t \<Longrightarrow> E y t' \<Longrightarrow> t @ r = t' @ r' \<Longrightarrow> stop r \<Longrightarrow> stop r' \<Longrightarrow>
    n x = n y \<and> r = r'"
  unfolding decodes_def by blast

lemma join_decode:
  assumes "list_all2 E xs ts" and "list_all2 E ys us"
    and dec: "\<And>x y. x \<in> set xs \<Longrightarrow> y \<in> set ys \<Longrightarrow> decodes E n x y"
    and start: "\<And>x t. x \<in> set xs \<union> set ys \<Longrightarrow> E x t \<Longrightarrow> t \<noteq> [] \<and> hd t \<noteq> cl"
    and cl: "cl \<in> set '']}''"
    and eq: "join '','' ts @ cl # r = join '','' us @ cl # r'"
  shows "map n xs = map n ys \<and> r = r'"
  using assms(1,2) dec start eq
proof (induction xs ts arbitrary: ys us rule: list_all2_induct)
  case Nil
  show ?case
  proof (cases ys)
    case (Cons y ys')
    with Nil.prems(1) obtain u us' where us: "us = u # us'" "E y u"
      by (auto simp: list_all2_Cons1)
    then have "u \<noteq> [] \<and> hd u \<noteq> cl" using Nil.prems(3) [of y u] Cons by simp
    with Nil.prems(4) us show ?thesis by (cases u) (simp_all add: join_Cons)
  qed (use Nil in simp)
next
  case (Cons x xs t ts)
  show ?case
  proof (cases ys)
    case Nil
    then have "t \<noteq> [] \<and> hd t \<noteq> cl" using Cons.prems(3) [of x t] Cons.hyps by simp
    with Nil Cons.prems(1,4) show ?thesis by (cases t) (simp_all add: join_Cons)
  next
    case ys: (Cons y ys')
    with Cons.prems(1) obtain u us' where us: "us = u # us'" "E y u" "list_all2 E ys' us'"
      by (auto simp: list_all2_Cons1)
    let ?r = "if ts = [] then cl # r else CHR '','' # join '','' ts @ cl # r"
    let ?r' = "if us' = [] then cl # r' else CHR '','' # join '','' us' @ cl # r'"
    have "t @ ?r = u @ ?r'" using Cons.prems(4) us(1) by (simp add: join_Cons split: if_splits)
    moreover have "stop ?r" "stop ?r'" using cl by auto
    ultimately have x: "n x = n y" and r: "?r = ?r'"
      using decodesD [of E n x y t u ?r ?r'] Cons.prems(2) [of x y] Cons.hyps us ys by auto
    from r cl have "join '','' ts @ cl # r = join '','' us' @ cl # r'"
      by (auto split: if_splits)
    then have "map n xs = map n ys' \<and> r = r'"
      using Cons.prems ys us by (intro Cons.IH [of ys' us']) auto
    with x ys show ?thesis by simp
  qed
qed

subsection \<open>Decoding values\<close>

text \<open>The first character of a canonical text tells the kind of the value.\<close>

fun js_kind :: "js \<Rightarrow> nat" where
  "js_kind JNull = 0"
| "js_kind (JBool b) = (if b then 1 else 2)"
| "js_kind (JStr s) = 3"
| "js_kind (JArr i vs) = 4"
| "js_kind (JObj i kvs) = 5"
| "js_kind _ = 6"

definition char_kind :: "char \<Rightarrow> nat" where
  "char_kind c =
     (if c = CHR ''n'' then 0 else if c = CHR ''t'' then 1 else if c = CHR ''f'' then 2
      else if c = dquote then 3 else if c = CHR ''['' then 4 else if c = CHR ''{'' then 5 else 6)"

lemma char_kind_num: "list_all (\<lambda>c. char_kind c = 6) (CHR ''-'' # digit_chars)"
  by code_simp

lemma char_kind_num_hd:
  assumes "num_wf n" "n \<noteq> NNonFinite"
  shows "num_text n \<noteq> [] \<and> char_kind (hd (num_text n)) = 6"
proof -
  have k: "char_kind c = 6" if "c \<in> insert (CHR ''-'') (set digit_chars)" for c
    using that char_kind_num by (auto simp: list_all_iff)
  show ?thesis
  proof (cases n)
    case (NInt i)
    then show ?thesis using k set_int_text [of i] by (auto intro!: k simp: subset_iff)
  next
    case (NDec t)
    with assms have "t \<noteq> []" "hd t \<in> set (CHR ''-'' # digit_chars)" by (simp_all add: dec_text_def)
    with NDec k show ?thesis by simp
  qed (use assms in simp)
qed

lemma canonicalJson_kind:
  assumes "canonicalJson v = Inr t" and "js_wf v"
  shows "t \<noteq> [] \<and> char_kind (hd t) = js_kind v"
proof (cases "\<exists>n. v = JNum n")
  case True
  then obtain n where "v = JNum n" ..
  with assms char_kind_num_hd [of n] show ?thesis by (auto split: if_splits)
next
  case False
  with assms(1) show ?thesis
    by (cases v) (auto simp: res_simps char_kind_def quote_def dquote_def split: if_splits)
qed

lemma canonicalJson_start:
  assumes "canonicalJson v = Inr t" and "js_wf v"
  shows "t \<noteq> [] \<and> hd t \<noteq> CHR '']''"
proof -
  have "js_kind v \<noteq> 6 \<or> (\<exists>n. v = JNum n \<and> n \<noteq> NNonFinite)"
    using assms by (cases v) (auto split: if_splits)
  moreover have "hd (num_text n) \<noteq> CHR '']''" if "num_wf n" "n \<noteq> NNonFinite" for n
  proof -
    have "hd (num_text n) \<in> set num_chars"
      using set_num_text [OF that] char_kind_num_hd [OF that] by auto
    then show ?thesis using num_chars_no_stop by (auto simp: list_all_iff)
  qed
  ultimately show ?thesis
    using canonicalJson_kind [OF assms] assms
    by (auto simp: char_kind_def dquote_def split: if_splits)
qed

lemma quote_start: "quote s \<noteq> [] \<and> hd (quote s) \<notin> set '']}''"
  by (simp add: quote_def dquote_def)

text \<open>The canonical text of a property, and of a value, as relations.\<close>

definition value_text :: "js \<Rightarrow> string \<Rightarrow> bool" where
  "value_text v t \<longleftrightarrow> canonicalJson v = Inr t"

definition field_text :: "string \<times> js \<Rightarrow> string \<Rightarrow> bool" where
  "field_text p e \<longleftrightarrow> (\<exists>t. canonicalJson (snd p) = Inr t \<and> e = quote (fst p) @ '':'' @ t)"

lemma canonicalJson_Arr_iff:
  "canonicalJson (JArr i vs) = Inr t \<longleftrightarrow>
    (\<exists>ts. list_all2 value_text vs ts \<and> t = CHR ''['' # join '','' ts @ '']'')"
  by (auto simp: res_bind_Inr_iff map_res_Inr_iff value_text_def [abs_def])

lemma canonicalJson_Obj_iff:
  "canonicalJson (JObj i kvs) = Inr t \<longleftrightarrow>
    (\<exists>es. list_all2 field_text (sort_key fst kvs) es \<and> t = CHR ''{'' # join '','' es @ ''}'')"
proof -
  let ?f = "\<lambda>(k, v). if v = JUndef then Inl rejects_undefined
          else res_bind (canonicalJson v) (\<lambda>t. Inr (quote k @ '':'' @ t))"
  have "?f p = Inr e \<longleftrightarrow> field_text p e" for p e
    by (cases p) (auto simp: field_text_def res_simps)
  then have "(\<lambda>p e. ?f p = Inr e) = field_text" by blast
  then have "map_res ?f ps = Inr es \<longleftrightarrow> list_all2 field_text ps es" for ps es
    by (simp add: map_res_Inr_iff)
  then show ?thesis by (auto simp: res_bind_Inr_iff)
qed

lemma js_kind_eq:
  assumes "canonicalJson v = Inr t" "canonicalJson w = Inr t'" "js_wf v" "js_wf w"
    and "t @ r = t' @ r'"
  shows "js_kind v = js_kind w"
proof -
  have v: "t \<noteq> []" "char_kind (hd t) = js_kind v" using canonicalJson_kind assms by blast+
  have w: "t' \<noteq> []" "char_kind (hd t') = js_kind w" using canonicalJson_kind assms by blast+
  have "hd t = hd t'" using v(1) w(1) assms(5) by (metis hd_append2)
  with v w show ?thesis by simp
qed

lemma field_decodes:
  assumes "decodes value_text js_norm (snd p) (snd q)"
  shows "decodes field_text (\<lambda>(k, v). (k, js_norm v)) p q"
  unfolding decodes_def
proof (intro allI impI)
  fix t t' r r'
  assume "field_text p t" "field_text q t'" and eq: "t @ r = t' @ r'" and st: "stop r" "stop r'"
  then obtain u u' where u: "value_text (snd p) u" "value_text (snd q) u'"
    and t: "t = quote (fst p) @ '':'' @ u" "t' = quote (fst q) @ '':'' @ u'"
    by (auto simp: field_text_def value_text_def)
  from eq t have "quote (fst p) @ CHR '':'' # u @ r = quote (fst q) @ CHR '':'' # u' @ r'" by simp
  then have "fst p = fst q \<and> CHR '':'' # u @ r = CHR '':'' # u' @ r'" by (rule quote_decode)
  moreover from this have "js_norm (snd p) = js_norm (snd q) \<and> r = r'"
    using decodesD [OF assms u _ st] by simp
  ultimately show "(\<lambda>(k, v). (k, js_norm v)) p = (\<lambda>(k, v). (k, js_norm v)) q \<and> r = r'"
    by (simp add: case_prod_beta)
qed

lemma arr_decodes:
  assumes IH: "\<And>x y. x \<in> set vs \<Longrightarrow> js_wf x \<Longrightarrow> js_wf y \<Longrightarrow> decodes value_text js_norm x y"
    and wf: "js_wf (JArr i vs)" "js_wf (JArr j ws)"
  shows "decodes value_text js_norm (JArr i vs) (JArr j ws)"
  unfolding decodes_def
proof (intro allI impI)
  fix t t' r r'
  assume "value_text (JArr i vs) t" "value_text (JArr j ws) t'" and eq: "t @ r = t' @ r'"
  then obtain ts us where ts: "list_all2 value_text vs ts" "t = CHR ''['' # join '','' ts @ '']''"
    and us: "list_all2 value_text ws us" "t' = CHR ''['' # join '','' us @ '']''"
    unfolding value_text_def [of "JArr _ _"] canonicalJson_Arr_iff by blast
  have "map js_norm vs = map js_norm ws \<and> r = r'"
  proof (rule join_decode [where E = value_text and cl = "CHR '']''"])
    show "list_all2 value_text vs ts" "list_all2 value_text ws us" by (fact ts us)+
    show "decodes value_text js_norm x y" if "x \<in> set vs" "y \<in> set ws" for x y
      using that wf by (intro IH) (auto simp: list_all_iff)
    show "t \<noteq> [] \<and> hd t \<noteq> CHR '']''" if "x \<in> set vs \<union> set ws" "value_text x t" for x t
      using that wf canonicalJson_start [of x t] by (auto simp: list_all_iff value_text_def)
    show "join '','' ts @ CHR '']'' # r = join '','' us @ CHR '']'' # r'"
      using eq ts us by simp
  qed simp
  then show "js_norm (JArr i vs) = js_norm (JArr j ws) \<and> r = r'" by simp
qed

lemma obj_decodes:
  assumes IH: "\<And>k x y. (k, x) \<in> set kvs \<Longrightarrow> js_wf x \<Longrightarrow> js_wf y \<Longrightarrow> decodes value_text js_norm x y"
    and wf: "js_wf (JObj i kvs)" "js_wf (JObj j lws)"
  shows "decodes value_text js_norm (JObj i kvs) (JObj j lws)"
  unfolding decodes_def
proof (intro allI impI)
  fix t t' r r'
  assume "value_text (JObj i kvs) t" "value_text (JObj j lws) t'" and eq: "t @ r = t' @ r'"
  then obtain ts us
    where ts: "list_all2 field_text (sort_key fst kvs) ts" "t = CHR ''{'' # join '','' ts @ ''}''"
      and us: "list_all2 field_text (sort_key fst lws) us" "t' = CHR ''{'' # join '','' us @ ''}''"
    unfolding value_text_def canonicalJson_Obj_iff by blast
  have "map (\<lambda>(k, v). (k, js_norm v)) (sort_key fst kvs)
    = map (\<lambda>(k, v). (k, js_norm v)) (sort_key fst lws) \<and> r = r'"
  proof (rule join_decode [where E = field_text and cl = "CHR ''}''"])
    show "list_all2 field_text (sort_key fst kvs) ts" "list_all2 field_text (sort_key fst lws) us"
      by (fact ts us)+
    show "decodes field_text (\<lambda>(k, v). (k, js_norm v)) x y"
      if "x \<in> set (sort_key fst kvs)" "y \<in> set (sort_key fst lws)" for x y
      using that wf IH [of "fst x" "snd x" "snd y"]
      by (intro field_decodes) (auto simp: list_all_iff case_prod_beta)
    show "t \<noteq> [] \<and> hd t \<noteq> CHR ''}''" if "field_text x t" for x t
      using that quote_start [of "fst x"] by (auto simp: field_text_def)
    show "join '','' ts @ CHR ''}'' # r = join '','' us @ CHR ''}'' # r'"
      using eq ts us by simp
  qed simp
  then show "js_norm (JObj i kvs) = js_norm (JObj j lws) \<and> r = r'" by simp
qed

lemma value_decodes: "js_wf v \<Longrightarrow> js_wf w \<Longrightarrow> decodes value_text js_norm v w"
proof (induction v arbitrary: w)
  case (JArr i vs)
  show ?case
  proof (cases "js_kind w = 4")
    case True
    then obtain j ws where w: "w = JArr j ws" by (cases w) (auto split: if_splits)
    show ?thesis unfolding w
      using JArr w by (intro arr_decodes) auto
  next
    case False
    with JArr.prems show ?thesis
      using js_kind_eq [of "JArr i vs" _ w] by (auto simp: decodes_def value_text_def)
  qed
next
  case (JObj i kvs)
  show ?case
  proof (cases "js_kind w = 5")
    case True
    then obtain j lws where w: "w = JObj j lws" by (cases w) (auto split: if_splits)
    show ?thesis unfolding w
    proof (rule obj_decodes)
      fix k x y assume "(k, x) \<in> set kvs" "js_wf x" "js_wf y"
      then show "decodes value_text js_norm x y"
        by (intro JObj.IH [of "(k, x)"]) (auto simp: snds.intros)
    qed (use JObj.prems w in auto)
  next
    case False
    with JObj.prems show ?thesis
      using js_kind_eq [of "JObj i kvs" _ w] by (auto simp: decodes_def value_text_def)
  qed
next
  case (JNum n)
  show ?case unfolding decodes_def
  proof (intro allI impI)
    fix t t' r r'
    assume a: "value_text (JNum n) t" "value_text w t'" "t @ r = t' @ r'" "stop r" "stop r'"
    then have "js_kind w = 6"
      using js_kind_eq [of "JNum n" t w t' r r'] JNum by (simp add: value_text_def)
    with a(2) obtain m where w: "w = JNum m"
      by (cases w) (auto simp: value_text_def split: if_splits)
    with a JNum show "js_norm (JNum n) = js_norm w \<and> r = r'"
      using num_decode [of n m r r'] by (auto simp: value_text_def split: if_splits)
  qed
next
  case (JStr s)
  show ?case unfolding decodes_def
  proof (intro allI impI)
    fix t t' r r'
    assume a: "value_text (JStr s) t" "value_text w t'" "t @ r = t' @ r'"
    then have "js_kind w = 3"
      using js_kind_eq [of "JStr s" t w t' r r'] JStr by (simp add: value_text_def)
    then obtain s' where w: "w = JStr s'" by (cases w) (auto split: if_splits)
    with a show "js_norm (JStr s) = js_norm w \<and> r = r'"
      using quote_decode [of s r s' r'] by (auto simp: value_text_def)
  qed
next
  case (JBool b)
  show ?case unfolding decodes_def
  proof (intro allI impI)
    fix t t' r r'
    assume a: "value_text (JBool b) t" "value_text w t'" "t @ r = t' @ r'"
    then have "js_kind w = js_kind (JBool b)"
      using js_kind_eq [of "JBool b" t w t' r r'] JBool by (simp add: value_text_def)
    then have w: "w = JBool b" by (cases w) (auto split: if_splits)
    with a show "js_norm (JBool b) = js_norm w \<and> r = r'"
      by (auto simp: value_text_def)
  qed
next
  case JNull
  show ?case unfolding decodes_def
  proof (intro allI impI)
    fix t t' r r'
    assume a: "value_text JNull t" "value_text w t'" "t @ r = t' @ r'"
    then have "js_kind w = js_kind JNull"
      using js_kind_eq [of JNull t w t' r r'] JNull by (simp add: value_text_def)
    then have w: "w = JNull" by (cases w) (auto split: if_splits)
    with a show "js_norm JNull = js_norm w \<and> r = r'" by (auto simp: value_text_def)
  qed
qed (auto simp: decodes_def value_text_def)

theorem canonicalJson_norm:
  assumes "js_wf v" "js_wf w" "canonicalJson v = Inr t" "canonicalJson w = Inr t"
  shows "js_norm v = js_norm w"
  using decodesD [OF value_decodes [OF assms(1,2)], of t t "[]" "[]"] assms(3,4)
  by (simp add: value_text_def)

lemma canonText_norm:
  assumes "js_wf v" "js_wf w" "plain v" "plain w" "canonText v = canonText w"
  shows "js_norm v = js_norm w"
  using canonicalJson_norm assms canonText_plain by metis

subsection \<open>The text of a value is the text of its normal form\<close>

lemma map_res_map: "map_res f (map g xs) = map_res (\<lambda>x. f (g x)) xs"
  by (induction xs) simp_all

lemma js_norm_undef [simp]: "js_norm v = JUndef \<longleftrightarrow> v = JUndef"
  by (cases v) simp_all

lemma canonicalJson_js_norm: "canonicalJson (js_norm v) = canonicalJson v"
proof (induction v rule: canonicalJson.induct)
  case (5 i vs)
  then have "map_res (\<lambda>v. canonicalJson (js_norm v)) vs = map_res canonicalJson vs"
    by (intro map_res_cong) simp_all
  then show ?case by (simp add: map_res_map)
next
  case (6 i kvs)
  let ?g = "\<lambda>(k, v). (k, js_norm v)"
  have s: "sort_key fst (map ?g (sort_key fst kvs)) = map ?g (sort_key fst kvs)"
  proof (rule sort_key_id_if_sorted)
    have "map fst (map ?g xs) = map fst xs" for xs :: fields by (induction xs) auto
    then show "sorted (map fst (map ?g (sort_key fst kvs)))" by (simp only: sorted_sort_key)
  qed
  have "map_res (\<lambda>x. case ?g x of (k, v) \<Rightarrow> if v = JUndef then Inl rejects_undefined
          else res_bind (canonicalJson v) (\<lambda>t. Inr (quote k @ '':'' @ t))) (sort_key fst kvs)
    = map_res (\<lambda>(k, v). if v = JUndef then Inl rejects_undefined
          else res_bind (canonicalJson v) (\<lambda>t. Inr (quote k @ '':'' @ t))) (sort_key fst kvs)"
    by (rule map_res_cong [OF refl]) (auto simp: 6)
  then show ?case unfolding js_norm.simps canonicalJson.simps s map_res_map by simp
qed simp_all

lemma canonText_js_norm: "canonText (js_norm v) = canonText v"
  by (simp add: canonText_def canonicalJson_js_norm)

lemma canonText_normI: "js_norm v = js_norm w \<Longrightarrow> canonText v = canonText w"
  by (metis canonText_js_norm)

lemma plain_js_norm: "js_norm v = js_norm w \<Longrightarrow> plain v \<longleftrightarrow> plain w"
  by (metis canonicalJson_js_norm canonicalJson_plain)

subsection \<open>Reading equal values field by field\<close>

lemma getf_sort: "distinct (map fst kvs) \<Longrightarrow> getf (sort_key fst kvs) k = getf kvs k"
proof -
  assume d: "distinct (map fst kvs)"
  have "map_of (sort_key fst kvs) = map_of kvs"
  proof (rule map_of_eqI)
    show "set (map fst (sort_key fst kvs)) = set (map fst kvs)" by simp
    have "mset (map fst (sort_key fst kvs)) = mset (map fst kvs)" by simp
    then have d': "distinct (map fst (sort_key fst kvs))" using d mset_eq_imp_distinct_iff by blast
    then show "\<forall>x \<in> set (map fst (sort_key fst kvs)).
        map_of (sort_key fst kvs) x = map_of kvs x"
      using d d' by (auto simp: map_of_eq_Some_iff)
  qed
  then show ?thesis by (simp add: getf_def)
qed

lemma getf_norm: "getf (map (\<lambda>(k, v). (k, js_norm v)) kvs) k = js_norm (getf kvs k)"
  by (induction kvs) auto

text \<open>Equal up to property order means equal property by property.\<close>

lemma js_norm_obj_getf:
  assumes "js_norm (JObj i kvs) = js_norm (JObj j lws)"
    and "distinct (map fst kvs)" "distinct (map fst lws)"
  shows "js_norm (getf kvs k) = js_norm (getf lws k)"
proof -
  have "map (\<lambda>(k, v). (k, js_norm v)) (sort_key fst kvs)
    = map (\<lambda>(k, v). (k, js_norm v)) (sort_key fst lws)"
    using assms(1) by simp
  then have "js_norm (getf (sort_key fst kvs) k) = js_norm (getf (sort_key fst lws) k)"
    by (metis getf_norm)
  with assms show ?thesis by (simp add: getf_sort)
qed

lemma js_norm_objI:
  assumes "distinct (map fst kvs)" "distinct (map fst kvs')" "set (map fst kvs) = set (map fst kvs')"
    and vals: "\<And>k. k \<in> set (map fst kvs') \<Longrightarrow> js_norm (getf kvs k) = js_norm (getf kvs' k)"
  shows "js_norm (JObj i kvs) = js_norm (JObj j kvs')"
proof -
  have pairs: "map (\<lambda>(k, v). (k, js_norm v)) (sort_key fst ps)
      = map (\<lambda>k. (k, js_norm (getf ps k))) (map fst (sort_key fst ps))"
    if "distinct (map fst ps)" for ps
    using that by (auto simp: getf_def)
  have keys: "map fst (sort_key fst kvs) = map fst (sort_key fst kvs')"
  proof (rule sorted_distinct_set_unique)
    have "distinct (map fst (sort_key fst ps))" if "distinct (map fst ps)" for ps :: fields
      using that by (metis distinct_map distinct_sort inj_on_def set_sort)
    with assms(1,2) show "distinct (map fst (sort_key fst kvs))" "distinct (map fst (sort_key fst kvs'))"
      by blast+
  qed (use assms(3) in simp_all)
  have "map (\<lambda>k. (k, js_norm (getf kvs k))) (map fst (sort_key fst kvs))
      = map (\<lambda>k. (k, js_norm (getf kvs' k))) (map fst (sort_key fst kvs))"
    unfolding keys using vals by auto
  with pairs [OF assms(1)] pairs [OF assms(2)] keys show ?thesis by simp
qed

lemma getf_nth:
  assumes "distinct (map fst kvs)" "n < length kvs"
  shows "getf kvs (fst (kvs ! n)) = snd (kvs ! n)"
proof -
  have "map_of kvs (fst (kvs ! n)) = Some (snd (kvs ! n))"
    using assms by (intro map_of_is_SomeI) simp_all
  then show ?thesis by (simp add: getf_def)
qed

text \<open>Two object literals with the same distinct keys: equal values, position by position.\<close>

lemma js_norm_obj_vals:
  assumes "js_norm (JObj i kvs) = js_norm (JObj j lws)"
    and keys: "map fst kvs = map fst lws" and d: "distinct (map fst kvs)"
  shows "map (\<lambda>p. js_norm (snd p)) kvs = map (\<lambda>p. js_norm (snd p)) lws"
proof (rule nth_equalityI)
  show len: "length (map (\<lambda>p. js_norm (snd p)) kvs) = length (map (\<lambda>p. js_norm (snd p)) lws)"
    using keys by (metis length_map)
  fix n assume "n < length (map (\<lambda>p. js_norm (snd p)) kvs)"
  then have n: "n < length kvs" "n < length lws" using len by simp_all
  have "fst (kvs ! n) = fst (lws ! n)" using keys n by (metis nth_map)
  moreover have "js_norm (getf kvs (fst (kvs ! n))) = js_norm (getf lws (fst (kvs ! n)))"
    using assms by (intro js_norm_obj_getf [OF assms(1)]) simp_all
  ultimately have "js_norm (snd (kvs ! n)) = js_norm (snd (lws ! n))"
    using getf_nth [of kvs n] getf_nth [of lws n] keys d n by simp
  with n show "map (\<lambda>p. js_norm (snd p)) kvs ! n = map (\<lambda>p. js_norm (snd p)) lws ! n" by simp
qed

lemma js_norm_scalar [simp]:
  "js_norm (jnat n) = jnat n" "js_norm (str_or_null x) = str_or_null x"
  by (simp_all add: jnat_def str_or_null_def split: option.splits)

subsection \<open>Closed key sets\<close>

text \<open>
  \<open>exactKeys(value, expected)\<close> of the components: a record whose sorted keys have the canonical
  text of the sorted expected keys.
\<close>

definition keys_js :: "string list \<Rightarrow> js" where
  "keys_js ks = arr (map JStr (sort ks))"

definition exactKeys :: "js \<Rightarrow> string list \<Rightarrow> bool" where
  "exactKeys v expected \<longleftrightarrow> is_record v
     \<and> canonicalJson (keys_js (map fst (fields_of v))) = canonicalJson (keys_js expected)"

lemma plain_keys_js: "plain (keys_js ks)" "js_wf (keys_js ks)"
  by (simp_all add: keys_js_def list_all_iff)

lemma exactKeys_iff:
  "exactKeys v expected \<longleftrightarrow>
    (\<exists>i kvs. v = JObj i kvs \<and> sort (map fst kvs) = sort expected)"
proof -
  have "sort ks = sort ls" if "canonicalJson (keys_js ks) = canonicalJson (keys_js ls)" for ks ls
  proof -
    have "js_norm (keys_js ks) = js_norm (keys_js ls)"
      using that canonicalJson_norm [of "keys_js ks" "keys_js ls"]
        canonText_plain [OF plain_keys_js(1)] plain_keys_js by metis
    then have "map JStr (sort ks) = map JStr (sort ls)" by (simp add: keys_js_def comp_def)
    then show ?thesis by (simp add: inj_map_eq_map inj_def)
  qed
  then show ?thesis
    by (auto simp: exactKeys_def is_record_iff keys_js_def)
qed

lemma exactKeysE:
  assumes "exactKeys v expected"
  obtains i kvs where "v = JObj i kvs" and "set (map fst kvs) = set expected"
    and "distinct expected \<Longrightarrow> distinct (map fst kvs)"
proof -
  from assms obtain i kvs where v: "v = JObj i kvs" and s: "sort (map fst kvs) = sort expected"
    by (auto simp: exactKeys_iff)
  from s have "mset (map fst kvs) = mset expected" by (metis mset_sort)
  then have "set (map fst kvs) = set expected" "distinct expected \<Longrightarrow> distinct (map fst kvs)"
    by (metis set_mset_mset, metis mset_eq_imp_distinct_iff)
  with v that show ?thesis by blast
qed

lemma exactKeys_mset:
  "mset (map fst kvs) = mset expected \<Longrightarrow> exactKeys (JObj i kvs) expected"
  by (auto simp: exactKeys_iff intro: properties_for_sort)

end
