(* ===== verification/Digests.thy ===== *)
theory Digests
  imports CanonicalJson
begin

text \<open>
  Digests over canonical text. \<open>createHash("sha256")...digest("hex")\<close> of \<open>node:crypto\<close> is a
  parameter \<open>H\<close> of every definition that hashes; what a theorem needs of it is a hypothesis:
  that its outputs are 64 hexadecimal digits, or that it is injective on a named finite set of
  texts (no collision among them).

  \<open>codec\<close> is the interface between the digests and the record types they cover: an encoding
  into plain values that loses nothing. Its clients are the digest laws below, proved once; the
  component theories interpret it on the encodings of the code.
\<close>

type_synonym hash = "string \<Rightarrow> string"

text \<open>\<open>digest(value)\<close> on a value that may have no canonical text.\<close>

definition digest_js :: "hash \<Rightarrow> js \<Rightarrow> string res" where
  "digest_js H v = res_bind (canonicalJson v) (\<lambda>t. Inr (H t))"

text \<open>\<open>digest(value)\<close> on the encoding of a typed record, which always has one.\<close>

definition digest_of :: "hash \<Rightarrow> js \<Rightarrow> string" where
  "digest_of H v = H (canonText v)"

definition domain_js :: "string \<Rightarrow> js \<Rightarrow> js" where
  "domain_js domain v = obj [(''domain'', JStr domain), (''value'', v)]"

definition digestDomain :: "hash \<Rightarrow> string \<Rightarrow> js \<Rightarrow> string" where
  "digestDomain H domain v = digest_of H (domain_js domain v)"

lemma digest_js_plain: "plain v \<Longrightarrow> digest_js H v = Inr (digest_of H v)"
  by (simp add: digest_js_def digest_of_def canonText_plain)

lemma digest_js_Inr_iff: "digest_js H v = Inr d \<longleftrightarrow> plain v \<and> d = digest_of H v"
  using canonicalJson_plain [of v] canonText_plain [of v]
  by (auto simp: digest_js_def digest_of_def res_simps)

lemma domain_js_plain [simp]: "plain (domain_js d v) = plain v" "js_wf (domain_js d v) = js_wf v"
  by (simp_all add: domain_js_def)

text \<open>Domain separation: texts hashed under different domains are different.\<close>

lemma domain_text_inj:
  assumes "plain v" "plain w" "js_wf v" "js_wf w"
    and "canonText (domain_js d v) = canonText (domain_js e w)"
  shows "d = e \<and> js_norm v = js_norm w"
proof -
  have "js_norm (domain_js d v) = js_norm (domain_js e w)"
    using assms by (intro canonText_norm) simp_all
  then show ?thesis
    unfolding domain_js_def by (drule_tac js_norm_obj_vals) simp_all
qed

text \<open>
  \<open>codec enc core\<close>: the encoding \<open>enc\<close> of a record is plain and well formed, and covers exactly
  the part \<open>core\<close> of it.
\<close>

locale codec =
  fixes enc :: "'a \<Rightarrow> js" and core :: "'a \<Rightarrow> 'b"
  assumes enc_plain: "plain (enc a)"
    and enc_wf: "js_wf (enc a)"
    and enc_inj: "js_norm (enc a) = js_norm (enc b) \<Longrightarrow> core a = core b"
    and enc_core: "core a = core b \<Longrightarrow> enc a = enc b"
begin

lemma text_inj: "canonText (enc a) = canonText (enc b) \<longleftrightarrow> core a = core b"
proof
  assume "canonText (enc a) = canonText (enc b)"
  then show "core a = core b"
    by (intro enc_inj canonText_norm enc_wf enc_plain)
next
  assume "core a = core b"
  then have "enc a = enc b" by (rule enc_core)
  then show "canonText (enc a) = canonText (enc b)" by (rule arg_cong)
qed

lemma digest_total: "digest_js H (enc a) = Inr (digest_of H (enc a))"
  by (rule digest_js_plain) (rule enc_plain)

text \<open>A digest determines the record, unless \<open>H\<close> collides on the two texts compared.\<close>

lemma digest_binds:
  assumes "inj_on H {canonText (enc a), canonText (enc b)}"
  shows "digest_of H (enc a) = digest_of H (enc b) \<longleftrightarrow> core a = core b"
  using inj_on_eq_iff [OF assms, of "canonText (enc a)" "canonText (enc b)"] text_inj [of a b]
  by (simp add: digest_of_def)

lemma domain_text_binds:
  "canonText (domain_js d (enc a)) = canonText (domain_js e (enc b)) \<longleftrightarrow> d = e \<and> core a = core b"
proof
  assume "canonText (domain_js d (enc a)) = canonText (domain_js e (enc b))"
  with enc_inj domain_text_inj [OF enc_plain enc_plain enc_wf enc_wf]
  show "d = e \<and> core a = core b" by blast
next
  assume a: "d = e \<and> core a = core b"
  then have "enc a = enc b" by (intro enc_core) (rule conjunct2)
  with a show "canonText (domain_js d (enc a)) = canonText (domain_js e (enc b))"
    by (simp only:)
qed

lemma domain_digest_binds:
  assumes "inj_on H {canonText (domain_js d (enc a)), canonText (domain_js e (enc b))}"
  shows "digestDomain H d (enc a) = digestDomain H e (enc b) \<longleftrightarrow> d = e \<and> core a = core b"
  using inj_on_eq_iff [OF assms, of "canonText (domain_js d (enc a))"
      "canonText (domain_js e (enc b))"] domain_text_binds [of d a e b]
  by (simp add: digestDomain_def digest_of_def)

end

end
