(* ===== verification/IntakeTypes.thy ===== *)
theory IntakeTypes
  imports Digests
begin

text \<open>
  The data of the contribution-intake ledger
  (\<open>packages/contracts/src/contribution-intake-ledger.ts\<close>): its enumerations, records and
  patterns, and the encodings its digests cover.

  Every interface of the module carries the same eight fields (schema version and submitted or
  trusted identity), so the records extend \<open>identified\<close>. Membership in the module's
  \<open>WeakSet\<close>s is decided when an object is created and the objects are frozen, so it is a
  field of the context (\<open>verifiedContext\<close>) and of the ledger (\<open>verifiedLedger\<close>): only the
  module's own constructors set it.
\<close>

subsection \<open>Enumerations\<close>

datatype scope = READ | TRIAGE | WRITE | ADMIN

datatype disposition = APPENDED | SEMANTIC_DUPLICATE | TRANSPORT_DUPLICATE | STALE | REJECTED

datatype reason =
    NEW_CONTRIBUTION | PR_HEAD_SUPERSESSION | PR_HEAD_FORCE_PUSH | UNKNOWN_ANCESTOR
  | TRANSPORT_REDELIVERY | DELIVERY_ID_REUSE_TAMPER | HEAD_ALREADY_CURRENT
  | SUPERSEDED_HEAD_REPLAY | INVALIDATED_HEAD_REPLAY | TRUST_CONTEXT_MISMATCH
  | R_AUTHORITY_WIDENING | R_AUTHORITY_CHANGE | STALE_HEAD_TIMESTAMP

datatype head_status = CURRENT | SUPERSEDED | INVALIDATED | UNKNOWN

datatype binding = CONTEXT_MATCH | SCOPE_MISMATCH | AUTHORITY_WIDENING | AUTHORITY_CHANGE

definition CONTRIBUTION_AUTHORITY_SCOPES_V1 :: "scope list" where
  "CONTRIBUTION_AUTHORITY_SCOPES_V1 = [READ, TRIAGE, WRITE, ADMIN]"

definition CONTRIBUTION_INTAKE_ENTRY_DISPOSITIONS_V1 :: "disposition list" where
  "CONTRIBUTION_INTAKE_ENTRY_DISPOSITIONS_V1 = [APPENDED, SEMANTIC_DUPLICATE, STALE, REJECTED]"

definition CONTRIBUTION_INTAKE_REASON_CODES_V1 :: "reason list" where
  "CONTRIBUTION_INTAKE_REASON_CODES_V1 =
     [NEW_CONTRIBUTION, PR_HEAD_SUPERSESSION, PR_HEAD_FORCE_PUSH, UNKNOWN_ANCESTOR,
      TRANSPORT_REDELIVERY, DELIVERY_ID_REUSE_TAMPER, HEAD_ALREADY_CURRENT,
      SUPERSEDED_HEAD_REPLAY, INVALIDATED_HEAD_REPLAY, TRUST_CONTEXT_MISMATCH,
      R_AUTHORITY_WIDENING, R_AUTHORITY_CHANGE, STALE_HEAD_TIMESTAMP]"

definition CONTRIBUTION_SUBMITTED_IDENTITY_BINDINGS_V1 :: "binding list" where
  "CONTRIBUTION_SUBMITTED_IDENTITY_BINDINGS_V1 =
     [CONTEXT_MATCH, SCOPE_MISMATCH, AUTHORITY_WIDENING, AUTHORITY_CHANGE]"

fun scope_text :: "scope \<Rightarrow> string" where
  "scope_text READ = ''READ''"
| "scope_text TRIAGE = ''TRIAGE''"
| "scope_text WRITE = ''WRITE''"
| "scope_text ADMIN = ''ADMIN''"

fun disposition_text :: "disposition \<Rightarrow> string" where
  "disposition_text APPENDED = ''APPENDED''"
| "disposition_text SEMANTIC_DUPLICATE = ''SEMANTIC_DUPLICATE''"
| "disposition_text TRANSPORT_DUPLICATE = ''TRANSPORT_DUPLICATE''"
| "disposition_text STALE = ''STALE''"
| "disposition_text REJECTED = ''REJECTED''"

fun reason_text :: "reason \<Rightarrow> string" where
  "reason_text NEW_CONTRIBUTION = ''NEW_CONTRIBUTION''"
| "reason_text PR_HEAD_SUPERSESSION = ''PR_HEAD_SUPERSESSION''"
| "reason_text PR_HEAD_FORCE_PUSH = ''PR_HEAD_FORCE_PUSH''"
| "reason_text UNKNOWN_ANCESTOR = ''UNKNOWN_ANCESTOR''"
| "reason_text TRANSPORT_REDELIVERY = ''TRANSPORT_REDELIVERY''"
| "reason_text DELIVERY_ID_REUSE_TAMPER = ''DELIVERY_ID_REUSE_TAMPER''"
| "reason_text HEAD_ALREADY_CURRENT = ''HEAD_ALREADY_CURRENT''"
| "reason_text SUPERSEDED_HEAD_REPLAY = ''SUPERSEDED_HEAD_REPLAY''"
| "reason_text INVALIDATED_HEAD_REPLAY = ''INVALIDATED_HEAD_REPLAY''"
| "reason_text TRUST_CONTEXT_MISMATCH = ''TRUST_CONTEXT_MISMATCH''"
| "reason_text R_AUTHORITY_WIDENING = ''AUTHORITY_WIDENING''"
| "reason_text R_AUTHORITY_CHANGE = ''AUTHORITY_CHANGE''"
| "reason_text STALE_HEAD_TIMESTAMP = ''STALE_HEAD_TIMESTAMP''"

fun binding_text :: "binding \<Rightarrow> string" where
  "binding_text CONTEXT_MATCH = ''CONTEXT_MATCH''"
| "binding_text SCOPE_MISMATCH = ''SCOPE_MISMATCH''"
| "binding_text AUTHORITY_WIDENING = ''AUTHORITY_WIDENING''"
| "binding_text AUTHORITY_CHANGE = ''AUTHORITY_CHANGE''"

lemma scope_text_inj [simp]: "scope_text a = scope_text b \<longleftrightarrow> a = b"
  by (cases a; cases b) simp_all

lemma disposition_text_inj [simp]: "disposition_text a = disposition_text b \<longleftrightarrow> a = b"
  by (cases a; cases b) simp_all

lemma reason_text_inj [simp]: "reason_text a = reason_text b \<longleftrightarrow> a = b"
  by (cases a; cases b) simp_all

lemma binding_text_inj [simp]: "binding_text a = binding_text b \<longleftrightarrow> a = b"
  by (cases a; cases b) simp_all

text \<open>\<open>SCOPE_RANK\<close>: authority scopes are linearly ordered.\<close>

fun SCOPE_RANK :: "scope \<Rightarrow> nat" where
  "SCOPE_RANK READ = 0"
| "SCOPE_RANK TRIAGE = 1"
| "SCOPE_RANK WRITE = 2"
| "SCOPE_RANK ADMIN = 3"

lemma SCOPE_RANK_inj: "SCOPE_RANK a = SCOPE_RANK b \<Longrightarrow> a = b"
  by (cases a; cases b) simp_all

instantiation scope :: linorder
begin

definition less_eq_scope :: "scope \<Rightarrow> scope \<Rightarrow> bool" where
  "a \<le> b \<longleftrightarrow> SCOPE_RANK a \<le> SCOPE_RANK b"

definition less_scope :: "scope \<Rightarrow> scope \<Rightarrow> bool" where
  "a < b \<longleftrightarrow> SCOPE_RANK a < SCOPE_RANK b"

instance
  by standard (auto simp: less_eq_scope_def less_scope_def dest: SCOPE_RANK_inj)

end

subsection \<open>Schema versions and patterns\<close>

definition CONTRIBUTION_INTAKE_TRUST_CONTEXT_SCHEMA_V1 :: string where
  "CONTRIBUTION_INTAKE_TRUST_CONTEXT_SCHEMA_V1 = ''cm.contribution-intake-trust-context/v1''"
definition CONTRIBUTION_INTAKE_LEDGER_SCHEMA_V1 :: string where
  "CONTRIBUTION_INTAKE_LEDGER_SCHEMA_V1 = ''cm.contribution-intake-ledger/v1''"
definition CONTRIBUTION_INTAKE_RECEIPT_SCHEMA_V1 :: string where
  "CONTRIBUTION_INTAKE_RECEIPT_SCHEMA_V1 = ''cm.contribution-intake-receipt/v1''"
definition CONTRIBUTION_DELIVERY_SCHEMA_V1 :: string where
  "CONTRIBUTION_DELIVERY_SCHEMA_V1 = ''cm.contribution-delivery/v1''"
definition CONTRIBUTION_SUBMITTED_IDENTITY_EVIDENCE_SCHEMA_V1 :: string where
  "CONTRIBUTION_SUBMITTED_IDENTITY_EVIDENCE_SCHEMA_V1 =
     ''cm.contribution-submitted-identity-evidence/v1''"

definition NAMESPACED_ID_SUFFIX :: rx where
  "NAMESPACED_ID_SUFFIX =
     Seq (Cls [a_z, d0_9]) (Rep (Cls ([a_z, d0_9] @ chars ''._-'')) 2 (Some 95))"

definition LEDGER_ID_PATTERN :: rx where
  "LEDGER_ID_PATTERN = Seq (lit ''ledger:'') NAMESPACED_ID_SUFFIX"
definition TENANT_ID_PATTERN :: rx where
  "TENANT_ID_PATTERN = Seq (lit ''tenant:'') NAMESPACED_ID_SUFFIX"
definition REPOSITORY_ID_PATTERN :: rx where
  "REPOSITORY_ID_PATTERN = Seq (lit ''repository:'') NAMESPACED_ID_SUFFIX"
definition CONTRIBUTION_ID_PATTERN :: rx where
  "CONTRIBUTION_ID_PATTERN = Seq (lit ''contribution:'') NAMESPACED_ID_SUFFIX"
definition DELIVERY_ID_PATTERN :: rx where
  "DELIVERY_ID_PATTERN = Seq (lit ''delivery:'') NAMESPACED_ID_SUFFIX"
definition ACTOR_ID_PATTERN :: rx where
  "ACTOR_ID_PATTERN = Seq (lit ''actor:'') NAMESPACED_ID_SUFFIX"
definition AUTHORITY_EVIDENCE_ID_PATTERN :: rx where
  "AUTHORITY_EVIDENCE_ID_PATTERN = Seq (lit ''authority-evidence:'') NAMESPACED_ID_SUFFIX"

definition DANGEROUS_KEYS :: "string list" where
  "DANGEROUS_KEYS = [''__proto__'', ''constructor'', ''prototype'']"

subsection \<open>Records\<close>

record identified =
  schemaVersion :: string
  ledgerId :: string
  tenantId :: string
  repositoryId :: string
  contributionId :: string
  actorId :: string
  authorityEvidenceId :: string
  authorityScope :: scope

record trust_context = identified +
  ctx_contextDigest :: string
  verifiedContext :: bool

record delivery = identified +
  deliveryId :: string
  headDigest :: string
  ancestorDigest :: "string option"
  payloadDigest :: string
  receivedAtMs :: int

record evidence = identified +
  authoritative :: bool

record entry_unsigned = identified +
  en_sequence :: int
  en_contextDigest :: string
  submittedIdentityEvidence :: evidence
  submittedIdentityEvidenceDigest :: string
  submittedIdentityBinding :: binding
  en_disposition :: disposition
  en_reasonCodes :: "reason list"
  en_quarantined :: bool
  en_deliveryId :: string
  en_headDigest :: string
  en_ancestorDigest :: "string option"
  en_payloadDigest :: string
  en_receivedAtMs :: int
  en_deliveryDigest :: string
  en_replacedHeadDigest :: "string option"
  previousEntryDigest :: "string option"

record entry = entry_unsigned +
  entryDigest :: string

record ledger_unsigned = identified +
  lg_contextDigest :: string
  entries :: "entry list"
  nextSequence :: int
  quarantineCount :: int

record ledger = ledger_unsigned +
  ledgerDigest :: string
  verifiedLedger :: bool

record receipt_unsigned = identified +
  rc_contextDigest :: string
  rc_submittedIdentityEvidence :: evidence
  rc_submittedIdentityEvidenceDigest :: string
  rc_submittedIdentityBinding :: binding
  rc_deliveryId :: string
  rc_headDigest :: string
  rc_sequence :: int
  rc_disposition :: disposition
  rc_reasonCodes :: "reason list"
  rc_quarantined :: bool
  rc_deliveryDigest :: string

record receipt = receipt_unsigned +
  receiptDigest :: string

record classification =
  cl_disposition :: disposition
  cl_reasonCodes :: "reason list"
  cl_quarantined :: bool
  cl_replacedHeadDigest :: "string option"

text \<open>The identity a record carries, without its schema version.\<close>

definition identity :: "'a identified_scheme \<Rightarrow>
    string \<times> string \<times> string \<times> string \<times> string \<times> string \<times> scope" where
  "identity x = (ledgerId x, tenantId x, repositoryId x, contributionId x, actorId x,
     authorityEvidenceId x, authorityScope x)"

end
