(* ===== verification/IntakeReaders.thy ===== *)
theory IntakeReaders
  imports IntakeTypes
begin

text \<open>
  The closed-schema readers of the intake module: \<open>readExactDataObject\<close>,
  \<open>readDenseOrdinaryArray\<close>, the field assertions and the \<open>normalize...\<close> functions, with the
  encodings they invert. The \<open>seen\<close> list is the \<open>WeakSet\<close> of the objects read so far; a
  reader denies an object that was already read.
\<close>

subsection \<open>Key sets\<close>

definition CONTEXT_INPUT_KEYS :: "string list" where
  "CONTEXT_INPUT_KEYS =
     [''schemaVersion'', ''ledgerId'', ''tenantId'', ''repositoryId'', ''contributionId'',
      ''actorId'', ''authorityEvidenceId'', ''authorityScope'']"

definition DELIVERY_KEYS :: "string list" where
  "DELIVERY_KEYS =
     [''schemaVersion'', ''ledgerId'', ''tenantId'', ''repositoryId'', ''contributionId'',
      ''deliveryId'', ''headDigest'', ''ancestorDigest'', ''actorId'', ''authorityEvidenceId'',
      ''authorityScope'', ''payloadDigest'', ''receivedAtMs'']"

definition SUBMITTED_IDENTITY_EVIDENCE_KEYS :: "string list" where
  "SUBMITTED_IDENTITY_EVIDENCE_KEYS =
     [''schemaVersion'', ''authoritative'', ''ledgerId'', ''tenantId'', ''repositoryId'',
      ''contributionId'', ''actorId'', ''authorityEvidenceId'', ''authorityScope'']"

definition ENTRY_KEYS :: "string list" where
  "ENTRY_KEYS =
     [''sequence'', ''schemaVersion'', ''contextDigest'', ''submittedIdentityEvidence'',
      ''submittedIdentityEvidenceDigest'', ''submittedIdentityBinding'', ''disposition'',
      ''reasonCodes'', ''quarantined'', ''ledgerId'', ''tenantId'', ''repositoryId'',
      ''contributionId'', ''deliveryId'', ''headDigest'', ''ancestorDigest'', ''actorId'',
      ''authorityEvidenceId'', ''authorityScope'', ''payloadDigest'', ''receivedAtMs'',
      ''deliveryDigest'', ''replacedHeadDigest'', ''previousEntryDigest'', ''entryDigest'']"

definition LEDGER_KEYS :: "string list" where
  "LEDGER_KEYS =
     [''schemaVersion'', ''ledgerId'', ''tenantId'', ''repositoryId'', ''contributionId'',
      ''actorId'', ''authorityEvidenceId'', ''authorityScope'', ''contextDigest'', ''entries'',
      ''nextSequence'', ''quarantineCount'', ''ledgerDigest'']"

definition RECEIPT_KEYS :: "string list" where
  "RECEIPT_KEYS =
     [''schemaVersion'', ''contextDigest'', ''submittedIdentityEvidence'',
      ''submittedIdentityEvidenceDigest'', ''submittedIdentityBinding'', ''ledgerId'',
      ''tenantId'', ''repositoryId'', ''contributionId'', ''deliveryId'', ''headDigest'',
      ''actorId'', ''authorityEvidenceId'', ''authorityScope'', ''sequence'', ''disposition'',
      ''reasonCodes'', ''quarantined'', ''deliveryDigest'', ''receiptDigest'']"

subsection \<open>Objects and arrays\<close>

fun readExactDataObject :: "js \<Rightarrow> string list \<Rightarrow> nat list \<Rightarrow> string \<Rightarrow> (fields \<times> nat list) res" where
  "readExactDataObject (JObj i kvs) expectedKeys seen code =
     (let keys = map fst kvs in
      if i \<in> set seen then Inl code
      else if length keys \<noteq> length expectedKeys then Inl code
      else if list_ex (\<lambda>k. k \<in> set DANGEROUS_KEYS \<or> k \<notin> set expectedKeys) keys then Inl code
      else if list_ex (\<lambda>k. k \<notin> set keys) expectedKeys then Inl code
      else Inr (kvs, i # seen))"
| "readExactDataObject _ expectedKeys seen code = Inl code"

fun readDenseOrdinaryArray :: "js \<Rightarrow> nat list \<Rightarrow> string \<Rightarrow> (js list \<times> nat list) res" where
  "readDenseOrdinaryArray (JArr i vs) seen code =
     (if i \<in> set seen then Inl code else Inr (vs, i # seen))"
| "readDenseOrdinaryArray _ seen code = Inl code"

lemma readExactDataObject_Inr_iff:
  "readExactDataObject v ks seen code = Inr (r, seen') \<longleftrightarrow>
    (\<exists>i. v = JObj i r \<and> i \<notin> set seen \<and> seen' = i # seen \<and> length r = length ks
       \<and> set (map fst r) = set ks \<and> set (map fst r) \<inter> set DANGEROUS_KEYS = {})"
  by (cases "(v, ks, seen, code)" rule: readExactDataObject.cases)
    (auto simp: Let_def list_ex_iff)

lemma readExactDataObject_Inl: "readExactDataObject v ks seen code = Inl e \<Longrightarrow> e = code"
  by (cases "(v, ks, seen, code)" rule: readExactDataObject.cases)
    (auto simp: Let_def split: if_splits)

lemma readDenseOrdinaryArray_Inr_iff:
  "readDenseOrdinaryArray v seen code = Inr (vs, seen') \<longleftrightarrow>
    (\<exists>i. v = JArr i vs \<and> i \<notin> set seen \<and> seen' = i # seen)"
  by (cases "(v, seen, code)" rule: readDenseOrdinaryArray.cases) auto

subsection \<open>Field assertions\<close>

definition assertString :: "js \<Rightarrow> rx \<Rightarrow> string \<Rightarrow> string res" where
  "assertString v pattern code =
     (case v of JStr s \<Rightarrow> if rx_test pattern s then Inr s else Inl code | _ \<Rightarrow> Inl code)"

definition assertDigest :: "js \<Rightarrow> string \<Rightarrow> string res" where
  "assertDigest v code = assertString v DIGEST_PATTERN code"

definition assertNullableDigest :: "js \<Rightarrow> string \<Rightarrow> string option res" where
  "assertNullableDigest v code =
     (if v = JNull then Inr None else res_bind (assertDigest v code) (\<lambda>d. Inr (Some d)))"

definition assertSafeUnsignedInteger :: "js \<Rightarrow> string \<Rightarrow> int res" where
  "assertSafeUnsignedInteger v code =
     (if \<not> is_safe_integer v \<or> int_of_js v < 0 then Inl code else Inr (int_of_js v))"

definition assertSafePositiveInteger :: "js \<Rightarrow> string \<Rightarrow> int res" where
  "assertSafePositiveInteger v code =
     res_bind (assertSafeUnsignedInteger v code) (\<lambda>n. if n < 1 then Inl code else Inr n)"

text \<open>The membership tests on the closed enumerations.\<close>

definition assertMember :: "('a \<Rightarrow> string) \<Rightarrow> 'a list \<Rightarrow> js \<Rightarrow> string \<Rightarrow> 'a res" where
  "assertMember text members v code =
     (case v of
        JStr s \<Rightarrow> (case List.find (\<lambda>m. text m = s) members of Some m \<Rightarrow> Inr m | None \<Rightarrow> Inl code)
      | _ \<Rightarrow> Inl code)"

definition assertScope :: "js \<Rightarrow> string \<Rightarrow> scope res" where
  "assertScope v code = assertMember scope_text CONTRIBUTION_AUTHORITY_SCOPES_V1 v code"

definition assertEntryDisposition :: "js \<Rightarrow> string \<Rightarrow> disposition res" where
  "assertEntryDisposition v code =
     assertMember disposition_text CONTRIBUTION_INTAKE_ENTRY_DISPOSITIONS_V1 v code"

definition assertDisposition :: "js \<Rightarrow> string \<Rightarrow> disposition res" where
  "assertDisposition v code =
     (if v = JStr ''TRANSPORT_DUPLICATE'' then Inr TRANSPORT_DUPLICATE
      else assertEntryDisposition v code)"

definition assertSubmittedIdentityBinding :: "js \<Rightarrow> string \<Rightarrow> binding res" where
  "assertSubmittedIdentityBinding v code =
     assertMember binding_text CONTRIBUTION_SUBMITTED_IDENTITY_BINDINGS_V1 v code"

definition normalizeReasonCodes :: "js \<Rightarrow> nat list \<Rightarrow> string \<Rightarrow> (reason list \<times> nat list) res" where
  "normalizeReasonCodes v seen code =
     res_bind (readDenseOrdinaryArray v seen code) (\<lambda>(raw, seen').
       if length raw < 1 \<or> length raw > length CONTRIBUTION_INTAKE_REASON_CODES_V1 then Inl code
       else res_bind (map_res (\<lambda>item. assertMember reason_text CONTRIBUTION_INTAKE_REASON_CODES_V1
              item code) raw) (\<lambda>normalized.
         if length (uniq normalized) \<noteq> length normalized then Inl code
         else Inr (normalized, seen')))"

definition assertBoolean :: "js \<Rightarrow> string \<Rightarrow> bool res" where
  "assertBoolean v code = (case v of JBool b \<Rightarrow> Inr b | _ \<Rightarrow> Inl code)"

lemma assertString_Inr_iff [res_simps]:
  "assertString v p code = Inr s \<longleftrightarrow> v = JStr s \<and> rx_test p s"
  by (auto simp: assertString_def split: js.splits)

lemma assertDigest_Inr_iff [res_simps]:
  "assertDigest v code = Inr s \<longleftrightarrow> v = JStr s \<and> hex64 s"
  by (simp add: assertDigest_def hex64_def res_simps)

lemma assertNullableDigest_Inr_iff [res_simps]:
  "assertNullableDigest v code = Inr x \<longleftrightarrow> v = str_or_null x \<and> (\<forall>s. x = Some s \<longrightarrow> hex64 s)"
  by (cases x) (auto simp: assertNullableDigest_def str_or_null_def res_simps split: if_splits)

lemma assertSafeUnsignedInteger_Inr_iff [res_simps]:
  "assertSafeUnsignedInteger v code = Inr n \<longleftrightarrow> v = jint n \<and> 0 \<le> n \<and> n \<le> max_safe"
  by (auto simp: assertSafeUnsignedInteger_def max_safe_def elim!: is_safe_integerE)

lemma assertSafePositiveInteger_Inr_iff [res_simps]:
  "assertSafePositiveInteger v code = Inr n \<longleftrightarrow> v = jint n \<and> 1 \<le> n \<and> n \<le> max_safe"
  by (auto simp: assertSafePositiveInteger_def res_simps)

lemma assertMember_Inr_iff:
  assumes "\<And>a b. text a = text b \<longleftrightarrow> a = b"
  shows "assertMember text ms v code = Inr m \<longleftrightarrow> v = JStr (text m) \<and> m \<in> set ms"
proof -
  have find: "List.find (\<lambda>m'. text m' = s) ms = Some m \<longleftrightarrow> s = text m \<and> m \<in> set ms" for s
  proof
    assume "List.find (\<lambda>m'. text m' = s) ms = Some m"
    then show "s = text m \<and> m \<in> set ms" by (auto dest: find_Some_in)
  next
    assume "s = text m \<and> m \<in> set ms"
    then have s: "s = text m" and m: "m \<in> set ms" by simp_all
    from m show "List.find (\<lambda>m'. text m' = s) ms = Some m"
      unfolding s assms by (induction ms) auto
  qed
  show ?thesis
  proof (cases v)
    case (JStr s)
    have "assertMember text ms v code = Inr m \<longleftrightarrow> List.find (\<lambda>m'. text m' = s) ms = Some m"
      by (simp add: JStr assertMember_def split: option.split)
    then show ?thesis by (simp add: find JStr)
  qed (simp_all add: assertMember_def)
qed

lemma assertScope_Inr_iff [res_simps]: "assertScope v code = Inr s \<longleftrightarrow> v = JStr (scope_text s)"
  by (cases s) (simp_all add: assertScope_def assertMember_Inr_iff
      CONTRIBUTION_AUTHORITY_SCOPES_V1_def)

lemma assertEntryDisposition_Inr_iff [res_simps]:
  "assertEntryDisposition v code = Inr d \<longleftrightarrow>
    v = JStr (disposition_text d) \<and> d \<noteq> TRANSPORT_DUPLICATE"
  by (cases d) (simp_all add: assertEntryDisposition_def assertMember_Inr_iff
      CONTRIBUTION_INTAKE_ENTRY_DISPOSITIONS_V1_def)

lemma assertDisposition_Inr_iff [res_simps]:
  "assertDisposition v code = Inr d \<longleftrightarrow> v = JStr (disposition_text d)"
  by (cases d) (auto simp: assertDisposition_def res_simps)

lemma assertSubmittedIdentityBinding_Inr_iff [res_simps]:
  "assertSubmittedIdentityBinding v code = Inr b \<longleftrightarrow> v = JStr (binding_text b)"
  by (cases b) (simp_all add: assertSubmittedIdentityBinding_def assertMember_Inr_iff
      CONTRIBUTION_SUBMITTED_IDENTITY_BINDINGS_V1_def)

lemma reason_in_codes [simp]: "r \<in> set CONTRIBUTION_INTAKE_REASON_CODES_V1"
  by (cases r) (simp_all add: CONTRIBUTION_INTAKE_REASON_CODES_V1_def)

lemma assertBoolean_Inr_iff [res_simps]: "assertBoolean v code = Inr b \<longleftrightarrow> v = JBool b"
  by (auto simp: assertBoolean_def split: js.splits)

text \<open>An assertion fails with the code it is given.\<close>

lemma assertString_Inl: "assertString v p code = Inl e \<Longrightarrow> e = code"
  by (auto simp: assertString_def split: js.splits if_splits)

lemma assertDigest_Inl: "assertDigest v code = Inl e \<Longrightarrow> e = code"
  unfolding assertDigest_def by (rule assertString_Inl)

lemma assertNullableDigest_Inl: "assertNullableDigest v code = Inl e \<Longrightarrow> e = code"
  by (auto simp: assertNullableDigest_def res_bind_Inl_iff dest: assertDigest_Inl split: if_splits)

lemma assertSafeUnsignedInteger_Inl: "assertSafeUnsignedInteger v code = Inl e \<Longrightarrow> e = code"
  by (auto simp: assertSafeUnsignedInteger_def split: if_splits)

lemma assertScope_Inl: "assertScope v code = Inl e \<Longrightarrow> e = code"
  by (auto simp: assertScope_def assertMember_def split: js.splits option.splits)

lemmas assert_Inl = assertString_Inl assertDigest_Inl assertNullableDigest_Inl
  assertSafeUnsignedInteger_Inl assertScope_Inl

definition reasons_wf :: "reason list \<Rightarrow> bool" where
  "reasons_wf rs \<longleftrightarrow> rs \<noteq> [] \<and> distinct rs"

lemma reasons_wf_length: "reasons_wf rs \<Longrightarrow> length rs \<le> length CONTRIBUTION_INTAKE_REASON_CODES_V1"
proof -
  assume "reasons_wf rs"
  then have "length rs = card (set rs)" by (simp add: reasons_wf_def distinct_card)
  also have "\<dots> \<le> card (set CONTRIBUTION_INTAKE_REASON_CODES_V1)"
    by (rule card_mono) (auto intro: reason_in_codes)
  also have "\<dots> \<le> length CONTRIBUTION_INTAKE_REASON_CODES_V1" by (rule card_length)
  finally show ?thesis .
qed

lemma map_res_reasons:
  "map_res (\<lambda>item. assertMember reason_text CONTRIBUTION_INTAKE_REASON_CODES_V1 item code) raw = Inr rs
    \<longleftrightarrow> raw = map (\<lambda>r. JStr (reason_text r)) rs"
  by (auto simp: map_res_Inr_iff assertMember_Inr_iff list_all2_map1 list_all2_conv_all_nth
      intro!: nth_equalityI)

lemma normalizeReasonCodes_Inr_iff [res_simps]:
  "normalizeReasonCodes v seen code = Inr (rs, seen') \<longleftrightarrow>
    (\<exists>i. v = JArr i (map (\<lambda>r. JStr (reason_text r)) rs) \<and> i \<notin> set seen \<and> seen' = i # seen
       \<and> reasons_wf rs)"
proof -
  have "normalizeReasonCodes v seen code = Inr (rs, seen') \<longleftrightarrow>
    (\<exists>i. v = JArr i (map (\<lambda>r. JStr (reason_text r)) rs) \<and> i \<notin> set seen \<and> seen' = i # seen
       \<and> reasons_wf rs \<and> length rs \<le> length CONTRIBUTION_INTAKE_REASON_CODES_V1)"
    by (auto simp: normalizeReasonCodes_def res_bind_Inr_iff readDenseOrdinaryArray_Inr_iff
        map_res_reasons length_uniq_iff reasons_wf_def not_less Suc_le_eq res_if_Inr_iff)
  then show ?thesis using reasons_wf_length [of rs] by auto
qed

subsection \<open>The identity fields\<close>

text \<open>
  The seven identity assertions that every \<open>normalize...\<close> function of the module makes, in
  the code's order, on the record it has read.
\<close>

definition readIdentity :: "string \<Rightarrow> fields \<Rightarrow> string \<Rightarrow> identified res" where
  "readIdentity schema r code =
     res_bind (assertString (getf r ''ledgerId'') LEDGER_ID_PATTERN code) (\<lambda>a.
     res_bind (assertString (getf r ''tenantId'') TENANT_ID_PATTERN code) (\<lambda>b.
     res_bind (assertString (getf r ''repositoryId'') REPOSITORY_ID_PATTERN code) (\<lambda>c.
     res_bind (assertString (getf r ''contributionId'') CONTRIBUTION_ID_PATTERN code) (\<lambda>d.
     res_bind (assertString (getf r ''actorId'') ACTOR_ID_PATTERN code) (\<lambda>e.
     res_bind (assertString (getf r ''authorityEvidenceId'') AUTHORITY_EVIDENCE_ID_PATTERN code) (\<lambda>f.
     res_bind (assertScope (getf r ''authorityScope'') code) (\<lambda>g.
       Inr \<lparr>schemaVersion = schema, ledgerId = a, tenantId = b, repositoryId = c,
             contributionId = d, actorId = e, authorityEvidenceId = f, authorityScope = g\<rparr>)))))))"

definition identity_wf :: "'a identified_scheme \<Rightarrow> bool" where
  "identity_wf x \<longleftrightarrow>
     rx_test LEDGER_ID_PATTERN (ledgerId x) \<and> rx_test TENANT_ID_PATTERN (tenantId x)
     \<and> rx_test REPOSITORY_ID_PATTERN (repositoryId x)
     \<and> rx_test CONTRIBUTION_ID_PATTERN (contributionId x)
     \<and> rx_test ACTOR_ID_PATTERN (actorId x)
     \<and> rx_test AUTHORITY_EVIDENCE_ID_PATTERN (authorityEvidenceId x)"

text \<open>The identity fields of a record, as the object literals of the code list them.\<close>

definition id_fields :: "'a identified_scheme \<Rightarrow> fields" where
  "id_fields x =
     [(''ledgerId'', JStr (ledgerId x)), (''tenantId'', JStr (tenantId x)),
      (''repositoryId'', JStr (repositoryId x)), (''contributionId'', JStr (contributionId x)),
      (''actorId'', JStr (actorId x)), (''authorityEvidenceId'', JStr (authorityEvidenceId x)),
      (''authorityScope'', JStr (scope_text (authorityScope x)))]"

definition has_identity :: "fields \<Rightarrow> 'a identified_scheme \<Rightarrow> bool" where
  "has_identity r x \<longleftrightarrow> (\<forall>(k, v) \<in> set (id_fields x). getf r k = v)"

lemma readIdentity_Inr_iff [res_simps]:
  "readIdentity schema r code = Inr x \<longleftrightarrow>
     schemaVersion x = schema \<and> has_identity r x \<and> identity_wf x"
  by (cases x) (auto simp: readIdentity_def has_identity_def id_fields_def identity_wf_def res_simps)

lemma readIdentity_Inl: "readIdentity schema r code = Inl e \<Longrightarrow> e = code"
  unfolding readIdentity_def res_bind_Inl_iff by (elim disjE exE conjE; (erule assert_Inl)?) simp

lemma has_identity_identity:
  "has_identity r x \<Longrightarrow> has_identity r y \<Longrightarrow> identity x = identity y"
  by (auto simp: has_identity_def id_fields_def identity_def)

lemma has_identity_cong:
  "identity x = identity y \<Longrightarrow> has_identity r x = has_identity r y"
  by (simp add: has_identity_def id_fields_def identity_def)

lemma identity_wf_cong: "identity x = identity y \<Longrightarrow> identity_wf x = identity_wf y"
  by (simp add: identity_def identity_wf_def)

subsection \<open>Context, delivery and evidence\<close>

definition CONTEXT_DENIED :: string where "CONTEXT_DENIED = ''CONTRIBUTION_TRUST_CONTEXT_DENIED''"
definition DELIVERY_DENIED :: string where "DELIVERY_DENIED = ''CONTRIBUTION_DELIVERY_SCHEMA_DENIED''"
definition ENTRY_DENIED :: string where "ENTRY_DENIED = ''CONTRIBUTION_INTAKE_ENTRY_DENIED''"
definition LEDGER_DENIED :: string where "LEDGER_DENIED = ''CONTRIBUTION_INTAKE_LEDGER_DENIED''"
definition RECEIPT_DENIED :: string where "RECEIPT_DENIED = ''CONTRIBUTION_INTAKE_RECEIPT_DENIED''"

definition normalizeContextInput :: "js \<Rightarrow> identified res" where
  "normalizeContextInput value =
     res_bind (readExactDataObject value CONTEXT_INPUT_KEYS [] CONTEXT_DENIED) (\<lambda>(r, seen).
       if getf r ''schemaVersion'' \<noteq> JStr CONTRIBUTION_INTAKE_TRUST_CONTEXT_SCHEMA_V1
       then Inl CONTEXT_DENIED
       else readIdentity CONTRIBUTION_INTAKE_TRUST_CONTEXT_SCHEMA_V1 r CONTEXT_DENIED)"

definition normalizeDelivery :: "js \<Rightarrow> nat list \<Rightarrow> (delivery \<times> nat list) res" where
  "normalizeDelivery value seen =
     res_bind (readExactDataObject value DELIVERY_KEYS seen DELIVERY_DENIED) (\<lambda>(r, seen').
       if getf r ''schemaVersion'' \<noteq> JStr CONTRIBUTION_DELIVERY_SCHEMA_V1 then Inl DELIVERY_DENIED
       else
       res_bind (readIdentity CONTRIBUTION_DELIVERY_SCHEMA_V1 r DELIVERY_DENIED) (\<lambda>base.
       res_bind (assertString (getf r ''deliveryId'') DELIVERY_ID_PATTERN DELIVERY_DENIED) (\<lambda>did.
       res_bind (assertDigest (getf r ''headDigest'') DELIVERY_DENIED) (\<lambda>head.
       res_bind (assertNullableDigest (getf r ''ancestorDigest'') DELIVERY_DENIED) (\<lambda>anc.
       res_bind (assertDigest (getf r ''payloadDigest'') DELIVERY_DENIED) (\<lambda>pay.
       res_bind (assertSafeUnsignedInteger (getf r ''receivedAtMs'') DELIVERY_DENIED) (\<lambda>at.
         Inr (identified.extend base (delivery.fields did head anc pay at), seen'))))))))"

definition normalizeSubmittedIdentityEvidence :: "js \<Rightarrow> nat list \<Rightarrow> string \<Rightarrow> (evidence \<times> nat list) res" where
  "normalizeSubmittedIdentityEvidence value seen code =
     res_bind (readExactDataObject value SUBMITTED_IDENTITY_EVIDENCE_KEYS seen code) (\<lambda>(r, seen').
       if getf r ''schemaVersion'' \<noteq> JStr CONTRIBUTION_SUBMITTED_IDENTITY_EVIDENCE_SCHEMA_V1
          \<or> getf r ''authoritative'' \<noteq> JBool False then Inl code
       else
       res_bind (readIdentity CONTRIBUTION_SUBMITTED_IDENTITY_EVIDENCE_SCHEMA_V1 r code) (\<lambda>base.
         Inr (identified.extend base (evidence.fields False), seen')))"

definition delivery_wf :: "delivery \<Rightarrow> bool" where
  "delivery_wf d \<longleftrightarrow> schemaVersion d = CONTRIBUTION_DELIVERY_SCHEMA_V1 \<and> identity_wf d
     \<and> rx_test DELIVERY_ID_PATTERN (deliveryId d) \<and> hex64 (headDigest d)
     \<and> (\<forall>a. ancestorDigest d = Some a \<longrightarrow> hex64 a) \<and> hex64 (payloadDigest d)
     \<and> 0 \<le> receivedAtMs d \<and> receivedAtMs d \<le> max_safe"

definition evidence_wf :: "evidence \<Rightarrow> bool" where
  "evidence_wf e \<longleftrightarrow> schemaVersion e = CONTRIBUTION_SUBMITTED_IDENTITY_EVIDENCE_SCHEMA_V1
     \<and> \<not> authoritative e \<and> identity_wf e"

text \<open>Encodings, with the property order of the code's object literals.\<close>

definition delivery_js :: "nat \<Rightarrow> delivery \<Rightarrow> js" where
  "delivery_js i d = JObj i
     [(''schemaVersion'', JStr (schemaVersion d)),
      (''ledgerId'', JStr (ledgerId d)), (''tenantId'', JStr (tenantId d)),
      (''repositoryId'', JStr (repositoryId d)), (''contributionId'', JStr (contributionId d)),
      (''deliveryId'', JStr (deliveryId d)), (''headDigest'', JStr (headDigest d)),
      (''ancestorDigest'', str_or_null (ancestorDigest d)),
      (''actorId'', JStr (actorId d)), (''authorityEvidenceId'', JStr (authorityEvidenceId d)),
      (''authorityScope'', JStr (scope_text (authorityScope d))),
      (''payloadDigest'', JStr (payloadDigest d)), (''receivedAtMs'', jint (receivedAtMs d))]"

definition evidence_js :: "nat \<Rightarrow> evidence \<Rightarrow> js" where
  "evidence_js i e = JObj i
     [(''schemaVersion'', JStr (schemaVersion e)),
      (''authoritative'', JBool (authoritative e)),
      (''ledgerId'', JStr (ledgerId e)), (''tenantId'', JStr (tenantId e)),
      (''repositoryId'', JStr (repositoryId e)), (''contributionId'', JStr (contributionId e)),
      (''actorId'', JStr (actorId e)), (''authorityEvidenceId'', JStr (authorityEvidenceId e)),
      (''authorityScope'', JStr (scope_text (authorityScope e)))]"

definition context_js :: "nat \<Rightarrow> 'a identified_scheme \<Rightarrow> js" where
  "context_js i c = JObj i ((''schemaVersion'', JStr (schemaVersion c)) # id_fields c)"

lemma extend_simps [simp]:
  "schemaVersion (identified.extend b m) = schemaVersion b"
  "ledgerId (identified.extend b m) = ledgerId b"
  "tenantId (identified.extend b m) = tenantId b"
  "repositoryId (identified.extend b m) = repositoryId b"
  "contributionId (identified.extend b m) = contributionId b"
  "actorId (identified.extend b m) = actorId b"
  "authorityEvidenceId (identified.extend b m) = authorityEvidenceId b"
  "authorityScope (identified.extend b m) = authorityScope b"
  "identified.more (identified.extend b m) = m"
  by (simp_all add: identified.defs)

lemma extend_identity [simp]:
  "identity (identified.extend b m) = identity b"
  "identity_wf (identified.extend b m) = identity_wf b"
  "has_identity r (identified.extend b m) = has_identity r b"
  by (simp_all add: identity_def identity_wf_def has_identity_def id_fields_def)

lemma delivery_fields_simps [simp]:
  "deliveryId (identified.extend b (delivery.fields did h a p t)) = did"
  "headDigest (identified.extend b (delivery.fields did h a p t)) = h"
  "ancestorDigest (identified.extend b (delivery.fields did h a p t)) = a"
  "payloadDigest (identified.extend b (delivery.fields did h a p t)) = p"
  "receivedAtMs (identified.extend b (delivery.fields did h a p t)) = t"
  by (simp_all add: identified.defs delivery.defs)

lemma evidence_fields_simps [simp]:
  "authoritative (identified.extend b (evidence.fields f)) = f"
  by (simp add: identified.defs evidence.defs)

lemma delivery_extend_eq:
  "d = identified.extend (identified.truncate d) (delivery.fields (deliveryId d) (headDigest d)
     (ancestorDigest d) (payloadDigest d) (receivedAtMs d))" for d :: delivery
  by (simp add: identified.defs delivery.defs)

lemma evidence_extend_eq:
  "e = identified.extend (identified.truncate e) (evidence.fields (authoritative e))" for e :: evidence
  by (simp add: identified.defs evidence.defs)

lemma truncate_simps [simp]:
  "schemaVersion (identified.truncate x) = schemaVersion x"
  "identity (identified.truncate x) = identity x"
  "has_identity r (identified.truncate x) = has_identity r x"
  "identity_wf (identified.truncate x) = identity_wf x"
  by (simp_all add: identified.defs identity_def has_identity_def id_fields_def identity_wf_def)

text \<open>What a normaliser accepts is well formed; what is well formed, it reads back.\<close>

lemma normalizeContextInput_wf:
  "normalizeContextInput v = Inr c \<Longrightarrow>
    schemaVersion c = CONTRIBUTION_INTAKE_TRUST_CONTEXT_SCHEMA_V1 \<and> identity_wf c"
  by (auto simp: normalizeContextInput_def res_simps)

lemma normalizeContextInput_context_js:
  assumes "schemaVersion c = CONTRIBUTION_INTAKE_TRUST_CONTEXT_SCHEMA_V1" "identity_wf c"
  shows "normalizeContextInput (context_js i c) = Inr (identified.truncate c)"
proof -
  have "readExactDataObject (context_js i c) CONTEXT_INPUT_KEYS [] CONTEXT_DENIED
    = Inr ((''schemaVersion'', JStr (schemaVersion c)) # id_fields c, [i])"
    by (simp add: context_js_def id_fields_def CONTEXT_INPUT_KEYS_def DANGEROUS_KEYS_def Let_def)
  moreover have "has_identity ((''schemaVersion'', JStr (schemaVersion c)) # id_fields c) c"
    by (simp add: has_identity_def id_fields_def)
  ultimately show ?thesis
    using assms by (simp add: normalizeContextInput_def readIdentity_Inr_iff)
qed

lemma normalizeDelivery_wf:
  "normalizeDelivery v seen = Inr (d, seen') \<Longrightarrow> delivery_wf d"
  by (auto simp: normalizeDelivery_def delivery_wf_def res_simps)

lemma normalizeDelivery_Inl: "normalizeDelivery v seen = Inl e \<Longrightarrow> e = DELIVERY_DENIED"
  unfolding normalizeDelivery_def
  by (cases "readExactDataObject v DELIVERY_KEYS seen DELIVERY_DENIED")
    (auto simp: res_bind_Inl_iff dest: readExactDataObject_Inl readIdentity_Inl assert_Inl
      split: if_splits)

lemma normalizeDelivery_delivery_js:
  assumes wf: "delivery_wf d" and i: "i \<notin> set seen"
  shows "normalizeDelivery (delivery_js i d) seen = Inr (d, i # seen)"
proof -
  obtain kvs where v: "delivery_js i d = JObj i kvs" and kvs: "kvs = fields_of (delivery_js i d)"
    by (simp add: delivery_js_def)
  have "readExactDataObject (JObj i kvs) DELIVERY_KEYS seen DELIVERY_DENIED = Inr (kvs, i # seen)"
    using i by (simp add: kvs delivery_js_def DELIVERY_KEYS_def DANGEROUS_KEYS_def Let_def)
  moreover have "has_identity kvs d"
    by (simp add: kvs delivery_js_def has_identity_def id_fields_def)
  then have "readIdentity CONTRIBUTION_DELIVERY_SCHEMA_V1 kvs DELIVERY_DENIED = Inr (identified.truncate d)"
    using wf by (simp add: readIdentity_Inr_iff delivery_wf_def)
  moreover have "getf kvs ''schemaVersion'' = JStr CONTRIBUTION_DELIVERY_SCHEMA_V1"
    "assertString (getf kvs ''deliveryId'') DELIVERY_ID_PATTERN DELIVERY_DENIED = Inr (deliveryId d)"
    "assertDigest (getf kvs ''headDigest'') DELIVERY_DENIED = Inr (headDigest d)"
    "assertNullableDigest (getf kvs ''ancestorDigest'') DELIVERY_DENIED = Inr (ancestorDigest d)"
    "assertDigest (getf kvs ''payloadDigest'') DELIVERY_DENIED = Inr (payloadDigest d)"
    "assertSafeUnsignedInteger (getf kvs ''receivedAtMs'') DELIVERY_DENIED = Inr (receivedAtMs d)"
    using wf by (simp_all add: kvs delivery_js_def delivery_wf_def res_simps)
  ultimately show ?thesis
    using delivery_extend_eq [of d] by (simp add: v normalizeDelivery_def)
qed

lemma normalizeEvidence_wf:
  "normalizeSubmittedIdentityEvidence v seen code = Inr (e, seen') \<Longrightarrow> evidence_wf e"
  by (auto simp: normalizeSubmittedIdentityEvidence_def evidence_wf_def res_simps)

lemma normalizeEvidence_evidence_js:
  assumes wf: "evidence_wf e" and i: "i \<notin> set seen"
  shows "normalizeSubmittedIdentityEvidence (evidence_js i e) seen code = Inr (e, i # seen)"
proof -
  obtain kvs where v: "evidence_js i e = JObj i kvs" and kvs: "kvs = fields_of (evidence_js i e)"
    by (simp add: evidence_js_def)
  have "readExactDataObject (JObj i kvs) SUBMITTED_IDENTITY_EVIDENCE_KEYS seen code = Inr (kvs, i # seen)"
    using i by (simp add: kvs evidence_js_def SUBMITTED_IDENTITY_EVIDENCE_KEYS_def
        DANGEROUS_KEYS_def Let_def)
  moreover have "has_identity kvs e"
    by (simp add: kvs evidence_js_def has_identity_def id_fields_def)
  then have "readIdentity CONTRIBUTION_SUBMITTED_IDENTITY_EVIDENCE_SCHEMA_V1 kvs code
    = Inr (identified.truncate e)"
    using wf by (simp add: readIdentity_Inr_iff evidence_wf_def)
  moreover have "getf kvs ''schemaVersion'' = JStr CONTRIBUTION_SUBMITTED_IDENTITY_EVIDENCE_SCHEMA_V1"
    "getf kvs ''authoritative'' = JBool False"
    using wf by (simp_all add: kvs evidence_js_def evidence_wf_def)
  ultimately show ?thesis
    using wf evidence_extend_eq [of e]
    by (simp add: v normalizeSubmittedIdentityEvidence_def evidence_wf_def)
qed

subsection \<open>The encodings lose nothing\<close>

interpretation delivery_codec: codec "delivery_js i" "\<lambda>d :: delivery. d"
proof
  fix a b :: delivery
  show "plain (delivery_js i a)" "js_wf (delivery_js i a)"
    by (simp_all add: delivery_js_def)
  assume "js_norm (delivery_js i a) = js_norm (delivery_js i b)"
  then show "a = b"
    unfolding delivery_js_def
    by (drule_tac js_norm_obj_vals) simp_all
qed simp

interpretation evidence_codec: codec "evidence_js i" "\<lambda>e :: evidence. e"
proof
  fix a b :: evidence
  show "plain (evidence_js i a)" "js_wf (evidence_js i a)"
    by (simp_all add: evidence_js_def)
  assume "js_norm (evidence_js i a) = js_norm (evidence_js i b)"
  then show "a = b"
    unfolding evidence_js_def
    by (drule_tac js_norm_obj_vals) simp_all
qed simp

interpretation context_codec: codec "context_js i" identified.truncate
proof
  fix a b :: "'a identified_scheme"
  show "plain (context_js i a)" "js_wf (context_js i a)"
    by (simp_all add: context_js_def id_fields_def)
  show "context_js i a = context_js i b" if "identified.truncate a = identified.truncate b"
    using that by (simp add: context_js_def id_fields_def identified.defs)
  assume "js_norm (context_js i a) = js_norm (context_js i b)"
  then show "identified.truncate a = identified.truncate b"
    unfolding context_js_def id_fields_def
    by (drule_tac js_norm_obj_vals) (simp_all add: identified.defs)
qed

end
