(* ===== verification/IntakeLedger.thy ===== *)
theory IntakeLedger
  imports IntakeReaders
begin

text \<open>
  The operations of the intake ledger: the trust context, the classification of a delivery, the
  hash-chained entries, ingestion, replay and the queries. \<open>H\<close> is SHA-256. A value-level model
  of frozen objects needs no copy, so \<open>cloneEntry\<close> and \<open>Object.freeze\<close> leave the value as it
  is.
\<close>

subsection \<open>Encodings under the digests\<close>

definition entryUnsigned_js :: "nat \<Rightarrow> 'a entry_unsigned_scheme \<Rightarrow> fields" where
  "entryUnsigned_js i e =
     [(''sequence'', jint (en_sequence e)),
      (''schemaVersion'', JStr (schemaVersion e)),
      (''contextDigest'', JStr (en_contextDigest e)),
      (''submittedIdentityEvidence'', evidence_js (i + 1) (submittedIdentityEvidence e)),
      (''submittedIdentityEvidenceDigest'', JStr (submittedIdentityEvidenceDigest e)),
      (''submittedIdentityBinding'', JStr (binding_text (submittedIdentityBinding e))),
      (''disposition'', JStr (disposition_text (en_disposition e))),
      (''reasonCodes'', JArr (i + 2) (map (\<lambda>r. JStr (reason_text r)) (en_reasonCodes e))),
      (''quarantined'', JBool (en_quarantined e)),
      (''ledgerId'', JStr (ledgerId e)), (''tenantId'', JStr (tenantId e)),
      (''repositoryId'', JStr (repositoryId e)), (''contributionId'', JStr (contributionId e)),
      (''deliveryId'', JStr (en_deliveryId e)), (''headDigest'', JStr (en_headDigest e)),
      (''ancestorDigest'', str_or_null (en_ancestorDigest e)),
      (''actorId'', JStr (actorId e)), (''authorityEvidenceId'', JStr (authorityEvidenceId e)),
      (''authorityScope'', JStr (scope_text (authorityScope e))),
      (''payloadDigest'', JStr (en_payloadDigest e)),
      (''receivedAtMs'', jint (en_receivedAtMs e)),
      (''deliveryDigest'', JStr (en_deliveryDigest e)),
      (''replacedHeadDigest'', str_or_null (en_replacedHeadDigest e)),
      (''previousEntryDigest'', str_or_null (previousEntryDigest e))]"

definition entryUnsigned :: "'a entry_unsigned_scheme \<Rightarrow> js" where
  "entryUnsigned e = obj (entryUnsigned_js 0 e)"

definition entry_js :: "nat \<Rightarrow> entry \<Rightarrow> js" where
  "entry_js i e = JObj i (entryUnsigned_js i e @ [(''entryDigest'', JStr (entryDigest e))])"

text \<open>The value \<open>ledgerDigestValue\<close> hashes: the ledger with the digests of its entries.\<close>

definition ledgerSeal_js :: "'a ledger_unsigned_scheme \<Rightarrow> js" where
  "ledgerSeal_js L = obj
     [(''schemaVersion'', JStr (schemaVersion L)),
      (''ledgerId'', JStr (ledgerId L)), (''tenantId'', JStr (tenantId L)),
      (''repositoryId'', JStr (repositoryId L)), (''contributionId'', JStr (contributionId L)),
      (''actorId'', JStr (actorId L)), (''authorityEvidenceId'', JStr (authorityEvidenceId L)),
      (''authorityScope'', JStr (scope_text (authorityScope L))),
      (''contextDigest'', JStr (lg_contextDigest L)),
      (''entryDigests'', arr (map (\<lambda>e. JStr (entryDigest e)) (entries L))),
      (''nextSequence'', jint (nextSequence L)),
      (''quarantineCount'', jint (quarantineCount L))]"

definition receiptUnsigned_js :: "nat \<Rightarrow> 'a receipt_unsigned_scheme \<Rightarrow> fields" where
  "receiptUnsigned_js i r =
     [(''schemaVersion'', JStr (schemaVersion r)),
      (''contextDigest'', JStr (rc_contextDigest r)),
      (''submittedIdentityEvidence'', evidence_js (i + 1) (rc_submittedIdentityEvidence r)),
      (''submittedIdentityEvidenceDigest'', JStr (rc_submittedIdentityEvidenceDigest r)),
      (''submittedIdentityBinding'', JStr (binding_text (rc_submittedIdentityBinding r))),
      (''ledgerId'', JStr (ledgerId r)), (''tenantId'', JStr (tenantId r)),
      (''repositoryId'', JStr (repositoryId r)), (''contributionId'', JStr (contributionId r)),
      (''deliveryId'', JStr (rc_deliveryId r)), (''headDigest'', JStr (rc_headDigest r)),
      (''actorId'', JStr (actorId r)), (''authorityEvidenceId'', JStr (authorityEvidenceId r)),
      (''authorityScope'', JStr (scope_text (authorityScope r))),
      (''sequence'', jint (rc_sequence r)),
      (''disposition'', JStr (disposition_text (rc_disposition r))),
      (''reasonCodes'', JArr (i + 2) (map (\<lambda>x. JStr (reason_text x)) (rc_reasonCodes r))),
      (''quarantined'', JBool (rc_quarantined r)),
      (''deliveryDigest'', JStr (rc_deliveryDigest r))]"

definition receiptUnsigned :: "'a receipt_unsigned_scheme \<Rightarrow> js" where
  "receiptUnsigned r = obj (receiptUnsigned_js 0 r)"

definition receipt_js :: "nat \<Rightarrow> receipt \<Rightarrow> js" where
  "receipt_js i r = JObj i (receiptUnsigned_js i r @ [(''receiptDigest'', JStr (receiptDigest r))])"

subsection \<open>The trust context\<close>

definition bindPrevalidatedContributionIntakeTrustContextV1 :: "hash \<Rightarrow> js \<Rightarrow> trust_context res" where
  "bindPrevalidatedContributionIntakeTrustContextV1 H value =
     res_bind (normalizeContextInput value) (\<lambda>input.
       Inr (identified.extend input (trust_context.fields
         (digestDomain H ''cm.contribution-intake-trust-context/v1'' (context_js 0 input)) True)))"

definition assertVerifiedContext :: "trust_context \<Rightarrow> unit res" where
  "assertVerifiedContext ctx =
     (if \<not> verifiedContext ctx then Inl ''CONTRIBUTION_TRUST_CONTEXT_NOT_PREVALIDATED'' else Inr ())"

subsection \<open>Deliveries\<close>

definition deliveryDigestValue :: "hash \<Rightarrow> delivery \<Rightarrow> string" where
  "deliveryDigestValue H d = digestDomain H ''cm.contribution-delivery/v1'' (delivery_js 0 d)"

definition submittedIdentityEvidenceFromDelivery :: "delivery \<Rightarrow> evidence" where
  "submittedIdentityEvidenceFromDelivery d =
     \<lparr>schemaVersion = CONTRIBUTION_SUBMITTED_IDENTITY_EVIDENCE_SCHEMA_V1,
      ledgerId = ledgerId d, tenantId = tenantId d, repositoryId = repositoryId d,
      contributionId = contributionId d, actorId = actorId d,
      authorityEvidenceId = authorityEvidenceId d, authorityScope = authorityScope d,
      authoritative = False\<rparr>"

definition submittedIdentityEvidenceDigestValue :: "hash \<Rightarrow> evidence \<Rightarrow> string" where
  "submittedIdentityEvidenceDigestValue H e =
     digestDomain H ''cm.contribution-submitted-identity-evidence/v1'' (evidence_js 0 e)"

definition deriveSubmittedIdentityBinding ::
    "'a ledger_unsigned_scheme \<Rightarrow> delivery \<Rightarrow> binding" where
  "deriveSubmittedIdentityBinding ledger event =
     (if ledgerId event \<noteq> ledgerId ledger \<or> tenantId event \<noteq> tenantId ledger
         \<or> repositoryId event \<noteq> repositoryId ledger
         \<or> contributionId event \<noteq> contributionId ledger then SCOPE_MISMATCH
      else if authorityScope event > authorityScope ledger then AUTHORITY_WIDENING
      else if actorId event \<noteq> actorId ledger
         \<or> authorityEvidenceId event \<noteq> authorityEvidenceId ledger
         \<or> authorityScope event \<noteq> authorityScope ledger then AUTHORITY_CHANGE
      else CONTEXT_MATCH)"

text \<open>\<open>entryIdentitiesMatchContext\<close> and \<open>receiptIdentitiesMatchContext\<close> are the same test.\<close>

definition identitiesMatchContext ::
    "'a identified_scheme \<Rightarrow> 'b identified_scheme \<Rightarrow> bool" where
  "identitiesMatchContext ctx x \<longleftrightarrow>
     ledgerId x = ledgerId ctx \<and> tenantId x = tenantId ctx
     \<and> repositoryId x = repositoryId ctx \<and> contributionId x = contributionId ctx
     \<and> actorId x = actorId ctx \<and> authorityEvidenceId x = authorityEvidenceId ctx
     \<and> authorityScope x = authorityScope ctx"

definition frozenClassification ::
    "disposition \<Rightarrow> reason list \<Rightarrow> bool \<Rightarrow> string option \<Rightarrow> classification" where
  "frozenClassification d rs q r =
     \<lparr>cl_disposition = d, cl_reasonCodes = rs, cl_quarantined = q, cl_replacedHeadDigest = r\<rparr>"

subsection \<open>Heads\<close>

definition is_appended :: "entry \<Rightarrow> bool" where
  "is_appended e \<longleftrightarrow> en_disposition e = APPENDED"

definition currentHeadInternal :: "'a ledger_unsigned_scheme \<Rightarrow> entry option" where
  "currentHeadInternal ledger = find_last is_appended (entries ledger)"

definition headStatusInternal :: "'a ledger_unsigned_scheme \<Rightarrow> string \<Rightarrow> head_status" where
  "headStatusInternal ledger head =
     (let appended = filter is_appended (entries ledger) in
      if appended = [] then UNKNOWN
      else if map_option en_headDigest (at_last appended) = Some head then CURRENT
      else (case List.find (\<lambda>e. en_replacedHeadDigest e = Some head) appended of
              None \<Rightarrow> UNKNOWN
            | Some displacer \<Rightarrow>
                if PR_HEAD_SUPERSESSION \<in> set (en_reasonCodes displacer) then SUPERSEDED
                else INVALIDATED))"

definition classifyNormalized ::
    "'a ledger_unsigned_scheme \<Rightarrow> delivery \<Rightarrow> binding \<Rightarrow> string \<Rightarrow> classification" where
  "classifyNormalized ledger event submittedBinding eventDigest =
     (case List.find (\<lambda>e. en_deliveryId e = deliveryId event \<and> en_deliveryDigest e = eventDigest)
             (entries ledger) of
        Some _ \<Rightarrow> frozenClassification TRANSPORT_DUPLICATE [TRANSPORT_REDELIVERY] False None
      | None \<Rightarrow>
        if list_ex (\<lambda>e. en_deliveryId e = deliveryId event) (entries ledger) then
          frozenClassification REJECTED [DELIVERY_ID_REUSE_TAMPER] True None
        else if submittedBinding = SCOPE_MISMATCH then
          frozenClassification REJECTED [TRUST_CONTEXT_MISMATCH] True None
        else if submittedBinding = AUTHORITY_WIDENING then
          frozenClassification REJECTED [R_AUTHORITY_WIDENING] True None
        else if submittedBinding = AUTHORITY_CHANGE then
          frozenClassification REJECTED [R_AUTHORITY_CHANGE] True None
        else (case currentHeadInternal ledger of
          None \<Rightarrow> frozenClassification APPENDED [NEW_CONTRIBUTION] False None
        | Some current \<Rightarrow>
            if headDigest event = en_headDigest current then
              frozenClassification SEMANTIC_DUPLICATE [HEAD_ALREADY_CURRENT] False None
            else if list_ex (\<lambda>e. is_appended e \<and> en_headDigest e = headDigest event) (entries ledger)
            then frozenClassification STALE
                   [if headStatusInternal ledger (headDigest event) = INVALIDATED
                    then INVALIDATED_HEAD_REPLAY else SUPERSEDED_HEAD_REPLAY] True None
            else if receivedAtMs event < en_receivedAtMs current then
              frozenClassification STALE [STALE_HEAD_TIMESTAMP] True None
            else if ancestorDigest event = Some (en_headDigest current) then
              frozenClassification APPENDED [PR_HEAD_SUPERSESSION] False (Some (en_headDigest current))
            else if ancestorDigest event = None then
              frozenClassification APPENDED [PR_HEAD_FORCE_PUSH, UNKNOWN_ANCESTOR] False
                (Some (en_headDigest current))
            else frozenClassification APPENDED [PR_HEAD_FORCE_PUSH] False
                   (Some (en_headDigest current))))"

subsection \<open>Entries and ledgers\<close>

definition entryDigestValue :: "hash \<Rightarrow> 'a entry_unsigned_scheme \<Rightarrow> string" where
  "entryDigestValue H e = digestDomain H ''cm.contribution-intake-entry/v1'' (entryUnsigned e)"

definition unsignedEntry :: "hash \<Rightarrow> 'a ledger_unsigned_scheme \<Rightarrow> delivery \<Rightarrow> classification \<Rightarrow>
    binding \<Rightarrow> string \<Rightarrow> entry_unsigned" where
  "unsignedEntry H ledger event c submittedBinding submittedDeliveryDigest =
     \<lparr>schemaVersion = CONTRIBUTION_INTAKE_LEDGER_SCHEMA_V1,
      ledgerId = ledgerId ledger, tenantId = tenantId ledger,
      repositoryId = repositoryId ledger, contributionId = contributionId ledger,
      actorId = actorId ledger, authorityEvidenceId = authorityEvidenceId ledger,
      authorityScope = authorityScope ledger,
      en_sequence = nextSequence ledger,
      en_contextDigest = lg_contextDigest ledger,
      submittedIdentityEvidence = submittedIdentityEvidenceFromDelivery event,
      submittedIdentityEvidenceDigest =
        submittedIdentityEvidenceDigestValue H (submittedIdentityEvidenceFromDelivery event),
      submittedIdentityBinding = submittedBinding,
      en_disposition = cl_disposition c,
      en_reasonCodes = cl_reasonCodes c,
      en_quarantined = cl_quarantined c,
      en_deliveryId = deliveryId event,
      en_headDigest = headDigest event,
      en_ancestorDigest = ancestorDigest event,
      en_payloadDigest = payloadDigest event,
      en_receivedAtMs = receivedAtMs event,
      en_deliveryDigest = submittedDeliveryDigest,
      en_replacedHeadDigest = cl_replacedHeadDigest c,
      previousEntryDigest = map_option entryDigest (at_last (entries ledger))\<rparr>"

definition sealEntry :: "hash \<Rightarrow> entry_unsigned \<Rightarrow> entry" where
  "sealEntry H u = entry_unsigned.extend u (entry.fields (entryDigestValue H u))"

definition buildEntry :: "hash \<Rightarrow> 'a ledger_unsigned_scheme \<Rightarrow> delivery \<Rightarrow> classification \<Rightarrow>
    binding \<Rightarrow> string \<Rightarrow> entry res" where
  "buildEntry H ledger event c submittedBinding submittedDeliveryDigest =
     (if cl_disposition c = TRANSPORT_DUPLICATE
      then Inl ''CONTRIBUTION_TRANSPORT_DUPLICATE_NOT_APPENDED''
      else Inr (sealEntry H (unsignedEntry H ledger event c submittedBinding submittedDeliveryDigest)))"

definition ledgerDigestValue :: "hash \<Rightarrow> 'a ledger_unsigned_scheme \<Rightarrow> string" where
  "ledgerDigestValue H L = digestDomain H ''cm.contribution-intake-ledger/v1'' (ledgerSeal_js L)"

definition freezeVerifiedLedger :: "hash \<Rightarrow> ledger_unsigned \<Rightarrow> ledger" where
  "freezeVerifiedLedger H u = ledger_unsigned.extend u (ledger.fields (ledgerDigestValue H u) True)"

definition assertVerifiedLedger :: "trust_context \<Rightarrow> ledger \<Rightarrow> unit res" where
  "assertVerifiedLedger ctx L =
     res_bind (assertVerifiedContext ctx) (\<lambda>_.
       if \<not> verifiedLedger L \<or> lg_contextDigest L \<noteq> ctx_contextDigest ctx
          \<or> \<not> identitiesMatchContext ctx L
       then Inl ''CONTRIBUTION_INTAKE_LEDGER_NOT_VERIFIED'' else Inr ())"

definition emptyLedger :: "trust_context \<Rightarrow> ledger_unsigned" where
  "emptyLedger ctx =
     \<lparr>schemaVersion = CONTRIBUTION_INTAKE_LEDGER_SCHEMA_V1,
      ledgerId = ledgerId ctx, tenantId = tenantId ctx, repositoryId = repositoryId ctx,
      contributionId = contributionId ctx, actorId = actorId ctx,
      authorityEvidenceId = authorityEvidenceId ctx, authorityScope = authorityScope ctx,
      lg_contextDigest = ctx_contextDigest ctx, entries = [], nextSequence = 1,
      quarantineCount = 0\<rparr>"

definition createContributionIntakeLedgerV1 :: "hash \<Rightarrow> trust_context \<Rightarrow> ledger res" where
  "createContributionIntakeLedgerV1 H ctx =
     res_bind (assertVerifiedContext ctx) (\<lambda>_. Inr (freezeVerifiedLedger H (emptyLedger ctx)))"

definition classifyContributionDeliveryV1 ::
    "hash \<Rightarrow> trust_context \<Rightarrow> ledger \<Rightarrow> js \<Rightarrow> classification res" where
  "classifyContributionDeliveryV1 H ctx L event =
     res_bind (assertVerifiedLedger ctx L) (\<lambda>_.
     res_bind (normalizeDelivery event []) (\<lambda>(d, _).
       Inr (classifyNormalized L d (deriveSubmittedIdentityBinding L d) (deliveryDigestValue H d))))"

subsection \<open>Receipts\<close>

definition receiptDigestValue :: "hash \<Rightarrow> 'a receipt_unsigned_scheme \<Rightarrow> string" where
  "receiptDigestValue H r = digestDomain H ''cm.contribution-intake-receipt/v1'' (receiptUnsigned r)"

definition buildReceipt :: "hash \<Rightarrow> trust_context \<Rightarrow> delivery \<Rightarrow> int \<Rightarrow> classification \<Rightarrow>
    binding \<Rightarrow> string \<Rightarrow> receipt" where
  "buildReceipt H ctx event seqno c submittedBinding submittedDeliveryDigest =
     (let evid = submittedIdentityEvidenceFromDelivery event;
          u = \<lparr>schemaVersion = CONTRIBUTION_INTAKE_RECEIPT_SCHEMA_V1,
               ledgerId = ledgerId ctx, tenantId = tenantId ctx,
               repositoryId = repositoryId ctx, contributionId = contributionId ctx,
               actorId = actorId ctx, authorityEvidenceId = authorityEvidenceId ctx,
               authorityScope = authorityScope ctx,
               rc_contextDigest = ctx_contextDigest ctx,
               rc_submittedIdentityEvidence = evid,
               rc_submittedIdentityEvidenceDigest = submittedIdentityEvidenceDigestValue H evid,
               rc_submittedIdentityBinding = submittedBinding,
               rc_deliveryId = deliveryId event, rc_headDigest = headDigest event,
               rc_sequence = seqno, rc_disposition = cl_disposition c,
               rc_reasonCodes = cl_reasonCodes c, rc_quarantined = cl_quarantined c,
               rc_deliveryDigest = submittedDeliveryDigest\<rparr>
      in receipt_unsigned.extend u (receipt.fields (receiptDigestValue H u)))"

subsection \<open>Ingestion and replay\<close>

definition appendEntry :: "hash \<Rightarrow> ledger \<Rightarrow> entry \<Rightarrow> classification \<Rightarrow> ledger" where
  "appendEntry H L e c =
     freezeVerifiedLedger H
       \<lparr>schemaVersion = CONTRIBUTION_INTAKE_LEDGER_SCHEMA_V1,
        ledgerId = ledgerId L, tenantId = tenantId L, repositoryId = repositoryId L,
        contributionId = contributionId L, actorId = actorId L,
        authorityEvidenceId = authorityEvidenceId L, authorityScope = authorityScope L,
        lg_contextDigest = lg_contextDigest L, entries = entries L @ [e],
        nextSequence = nextSequence L + 1,
        quarantineCount = quarantineCount L + (if cl_quarantined c then 1 else 0)\<rparr>"

definition ingestEvent :: "hash \<Rightarrow> trust_context \<Rightarrow> ledger \<Rightarrow> delivery \<Rightarrow> (ledger \<times> receipt) res" where
  "ingestEvent H ctx L event =
     (let submittedBinding = deriveSubmittedIdentityBinding L event;
          submittedDeliveryDigest = deliveryDigestValue H event;
          c = classifyNormalized L event submittedBinding submittedDeliveryDigest
      in if cl_disposition c = TRANSPORT_DUPLICATE then
           (case List.find (\<lambda>e. en_deliveryId e = deliveryId event
                  \<and> en_deliveryDigest e = deliveryDigestValue H event) (entries L) of
              None \<Rightarrow> Inl ''CONTRIBUTION_INTAKE_INTERNAL_DENIED''
            | Some prior \<Rightarrow>
                Inr (L, buildReceipt H ctx event (en_sequence prior) c submittedBinding
                          submittedDeliveryDigest))
         else
           res_bind (buildEntry H L event c submittedBinding submittedDeliveryDigest) (\<lambda>e.
             Inr (appendEntry H L e c,
                  buildReceipt H ctx event (en_sequence e) c submittedBinding
                    submittedDeliveryDigest)))"

definition ingestContributionDeliveryV1 ::
    "hash \<Rightarrow> trust_context \<Rightarrow> ledger \<Rightarrow> js \<Rightarrow> (ledger \<times> receipt) res" where
  "ingestContributionDeliveryV1 H ctx L candidate =
     res_bind (assertVerifiedLedger ctx L) (\<lambda>_.
     res_bind (normalizeDelivery candidate []) (\<lambda>(event, _). ingestEvent H ctx L event))"

text \<open>
  Replay reads the whole stream first, with one \<open>seen\<close> set, and then ingests the frozen
  deliveries, each a fresh object.
\<close>

fun normalizeStream :: "js list \<Rightarrow> nat list \<Rightarrow> delivery list res" where
  "normalizeStream [] seen = Inr []"
| "normalizeStream (v # vs) seen =
     res_bind (normalizeDelivery v seen) (\<lambda>(d, seen').
     res_bind (normalizeStream vs seen') (\<lambda>ds. Inr (d # ds)))"

fun ingestAll :: "hash \<Rightarrow> trust_context \<Rightarrow> ledger \<Rightarrow> delivery list \<Rightarrow> receipt list \<Rightarrow>
    (ledger \<times> receipt list) res" where
  "ingestAll H ctx L [] receipts = Inr (L, receipts)"
| "ingestAll H ctx L (d # ds) receipts =
     res_bind (ingestContributionDeliveryV1 H ctx L (delivery_js 0 d)) (\<lambda>(L', r).
       ingestAll H ctx L' ds (receipts @ [r]))"

definition replayContributionIntakeV1 ::
    "hash \<Rightarrow> trust_context \<Rightarrow> js \<Rightarrow> (ledger \<times> receipt list) res" where
  "replayContributionIntakeV1 H ctx candidates =
     res_bind (assertVerifiedContext ctx) (\<lambda>_.
     res_bind (readDenseOrdinaryArray candidates [] ''CONTRIBUTION_DELIVERY_STREAM_DENIED'')
       (\<lambda>(raw, seen).
     res_bind (normalizeStream raw seen) (\<lambda>events.
     res_bind (createContributionIntakeLedgerV1 H ctx) (\<lambda>L.
       ingestAll H ctx L events []))))"

subsection \<open>Queries\<close>

definition currentHeadEntryV1 :: "trust_context \<Rightarrow> ledger \<Rightarrow> entry option res" where
  "currentHeadEntryV1 ctx L =
     res_bind (assertVerifiedLedger ctx L) (\<lambda>_. Inr (currentHeadInternal L))"

definition headStatusV1 :: "trust_context \<Rightarrow> ledger \<Rightarrow> js \<Rightarrow> head_status res" where
  "headStatusV1 ctx L head =
     res_bind (assertVerifiedLedger ctx L) (\<lambda>_.
     res_bind (assertDigest head ''CONTRIBUTION_HEAD_DIGEST_DENIED'') (\<lambda>h.
       Inr (headStatusInternal L h)))"

definition deepCiEligibleEntriesV1 :: "trust_context \<Rightarrow> ledger \<Rightarrow> entry list res" where
  "deepCiEligibleEntriesV1 ctx L =
     res_bind (assertVerifiedLedger ctx L) (\<lambda>_.
       Inr (case currentHeadInternal L of None \<Rightarrow> [] | Some e \<Rightarrow> [e]))"

definition isDeepCiEligibleV1 :: "trust_context \<Rightarrow> ledger \<Rightarrow> js \<Rightarrow> bool res" where
  "isDeepCiEligibleV1 ctx L head =
     res_bind (assertVerifiedLedger ctx L) (\<lambda>_.
     res_bind (assertDigest head ''CONTRIBUTION_HEAD_DIGEST_DENIED'') (\<lambda>h.
       Inr (map_option en_headDigest (currentHeadInternal L) = Some h)))"

definition quarantinedEntriesV1 :: "trust_context \<Rightarrow> ledger \<Rightarrow> entry list res" where
  "quarantinedEntriesV1 ctx L =
     res_bind (assertVerifiedLedger ctx L) (\<lambda>_. Inr (filter en_quarantined (entries L)))"

end
