(* ===== verification/IntakeVerify.thy ===== *)
theory IntakeVerify
  imports IntakeLedger
begin

text \<open>
  The verifiers of the intake module: reading an untrusted entry, ledger or receipt back, and
  the semantic replay from genesis. A verifier returns \<open>null\<close> (here \<open>None\<close>) whenever
  anything inside its \<open>try\<close> block throws; the checks on the context and on the ledger object
  are outside it and throw.
\<close>

subsection \<open>Entries\<close>

definition submittedEventFromEntry :: "'a entry_unsigned_scheme \<Rightarrow> delivery" where
  "submittedEventFromEntry e =
     (let evid = submittedIdentityEvidence e in
      \<lparr>schemaVersion = CONTRIBUTION_DELIVERY_SCHEMA_V1,
       ledgerId = ledgerId evid, tenantId = tenantId evid, repositoryId = repositoryId evid,
       contributionId = contributionId evid, actorId = actorId evid,
       authorityEvidenceId = authorityEvidenceId evid, authorityScope = authorityScope evid,
       deliveryId = en_deliveryId e, headDigest = en_headDigest e,
       ancestorDigest = en_ancestorDigest e, payloadDigest = en_payloadDigest e,
       receivedAtMs = en_receivedAtMs e\<rparr>)"

definition normalizeEntry :: "js \<Rightarrow> nat list \<Rightarrow> (entry \<times> nat list) res" where
  "normalizeEntry value seen =
     res_bind (readExactDataObject value ENTRY_KEYS seen ENTRY_DENIED) (\<lambda>(r, seen1).
       if getf r ''schemaVersion'' \<noteq> JStr CONTRIBUTION_INTAKE_LEDGER_SCHEMA_V1 then Inl ENTRY_DENIED
       else
       res_bind (assertBoolean (getf r ''quarantined'') ENTRY_DENIED) (\<lambda>quarantined.
       res_bind (normalizeSubmittedIdentityEvidence (getf r ''submittedIdentityEvidence'') seen1
                   ENTRY_DENIED) (\<lambda>(evid, seen2).
       res_bind (assertSafePositiveInteger (getf r ''sequence'') ENTRY_DENIED) (\<lambda>seqno.
       res_bind (assertDigest (getf r ''contextDigest'') ENTRY_DENIED) (\<lambda>cd.
       res_bind (assertDigest (getf r ''submittedIdentityEvidenceDigest'') ENTRY_DENIED) (\<lambda>ed.
       res_bind (assertSubmittedIdentityBinding (getf r ''submittedIdentityBinding'') ENTRY_DENIED) (\<lambda>b.
       res_bind (assertEntryDisposition (getf r ''disposition'') ENTRY_DENIED) (\<lambda>disp.
       res_bind (normalizeReasonCodes (getf r ''reasonCodes'') seen2 ENTRY_DENIED) (\<lambda>(reasons, seen3).
       res_bind (readIdentity CONTRIBUTION_INTAKE_LEDGER_SCHEMA_V1 r ENTRY_DENIED) (\<lambda>base.
       res_bind (assertString (getf r ''deliveryId'') DELIVERY_ID_PATTERN ENTRY_DENIED) (\<lambda>did.
       res_bind (assertDigest (getf r ''headDigest'') ENTRY_DENIED) (\<lambda>head.
       res_bind (assertNullableDigest (getf r ''ancestorDigest'') ENTRY_DENIED) (\<lambda>anc.
       res_bind (assertDigest (getf r ''payloadDigest'') ENTRY_DENIED) (\<lambda>pay.
       res_bind (assertSafeUnsignedInteger (getf r ''receivedAtMs'') ENTRY_DENIED) (\<lambda>at.
       res_bind (assertDigest (getf r ''deliveryDigest'') ENTRY_DENIED) (\<lambda>dd.
       res_bind (assertNullableDigest (getf r ''replacedHeadDigest'') ENTRY_DENIED) (\<lambda>rh.
       res_bind (assertNullableDigest (getf r ''previousEntryDigest'') ENTRY_DENIED) (\<lambda>pe.
       res_bind (assertDigest (getf r ''entryDigest'') ENTRY_DENIED) (\<lambda>dg.
         Inr (identified.extend base
                \<lparr>en_sequence = seqno, en_contextDigest = cd, submittedIdentityEvidence = evid,
                 submittedIdentityEvidenceDigest = ed, submittedIdentityBinding = b,
                 en_disposition = disp, en_reasonCodes = reasons, en_quarantined = quarantined,
                 en_deliveryId = did, en_headDigest = head, en_ancestorDigest = anc,
                 en_payloadDigest = pay, en_receivedAtMs = at, en_deliveryDigest = dd,
                 en_replacedHeadDigest = rh, previousEntryDigest = pe, entryDigest = dg\<rparr>,
              seen3))))))))))))))))))))"

definition sameClassification :: "entry \<Rightarrow> classification \<Rightarrow> bool" where
  "sameClassification e derived \<longleftrightarrow>
     cl_disposition derived \<noteq> TRANSPORT_DUPLICATE
     \<and> en_disposition e = cl_disposition derived
     \<and> en_quarantined e = cl_quarantined derived
     \<and> en_replacedHeadDigest e = cl_replacedHeadDigest derived
     \<and> length (en_reasonCodes e) = length (cl_reasonCodes derived)
     \<and> list_all (\<lambda>(c, d). c = d) (zip (en_reasonCodes e) (cl_reasonCodes derived))"

subsection \<open>Ledgers\<close>

text \<open>The guard of the replay loop, in the code's order.\<close>

definition replayGuard :: "hash \<Rightarrow> trust_context \<Rightarrow> 'a ledger_unsigned_scheme \<Rightarrow> entry \<Rightarrow> nat \<Rightarrow>
    string option \<Rightarrow> bool" where
  "replayGuard H ctx replay e index previous \<longleftrightarrow>
     (let event = submittedEventFromEntry e;
          b = deriveSubmittedIdentityBinding replay event;
          dd = deliveryDigestValue H event;
          derived = classifyNormalized replay event b dd
      in en_sequence e = int index + 1 \<and> en_contextDigest e = ctx_contextDigest ctx
         \<and> identitiesMatchContext ctx e
         \<and> submittedIdentityEvidenceDigest e
             = submittedIdentityEvidenceDigestValue H (submittedIdentityEvidence e)
         \<and> submittedIdentityBinding e = b
         \<and> en_deliveryDigest e = dd
         \<and> previousEntryDigest e = previous
         \<and> en_quarantined e = (en_disposition e = STALE \<or> en_disposition e = REJECTED)
         \<and> sameClassification e derived
         \<and> entryDigest e = entryDigestValue H e)"

text \<open>
  The loop of \<open>verifyContributionIntakeLedgerV1\<close>. Its state is the list \<open>normalizedEntries\<close>,
  which the ledger \<open>replay\<close> shares, the two counters, the previous digest and \<open>seen\<close>.
\<close>

fun replayEntries :: "hash \<Rightarrow> trust_context \<Rightarrow> ledger_unsigned \<Rightarrow> js list \<Rightarrow> nat list \<Rightarrow> nat \<Rightarrow>
    int \<Rightarrow> int \<Rightarrow> string option \<Rightarrow> (entry list \<times> int \<times> int) res" where
  "replayEntries H ctx replay [] seen index nextSeq quar previous =
     Inr (entries replay, nextSeq, quar)"
| "replayEntries H ctx replay (v # vs) seen index nextSeq quar previous =
     res_bind (normalizeEntry v seen) (\<lambda>(e, seen').
       if \<not> replayGuard H ctx replay e index previous
       then Inl ''CONTRIBUTION_INTAKE_LEDGER_SEMANTIC_REPLAY_DENIED''
       else replayEntries H ctx (replay\<lparr>entries := entries replay @ [e]\<rparr>) vs seen' (index + 1)
              (nextSeq + 1) (if en_quarantined e then quar + 1 else quar) (Some (entryDigest e)))"

text \<open>\<open>try { ... } catch { return null; }\<close>\<close>

definition caught :: "'a res \<Rightarrow> 'a option" where
  "caught x = (case x of Inl e \<Rightarrow> None | Inr y \<Rightarrow> Some y)"

definition readLedger :: "hash \<Rightarrow> trust_context \<Rightarrow> js \<Rightarrow> ledger res" where
  "readLedger H ctx candidate =
     res_bind (readExactDataObject candidate LEDGER_KEYS [] LEDGER_DENIED) (\<lambda>(r, seen1).
       if getf r ''schemaVersion'' \<noteq> JStr CONTRIBUTION_INTAKE_LEDGER_SCHEMA_V1 then Inl LEDGER_DENIED
       else
       res_bind (readDenseOrdinaryArray (getf r ''entries'') seen1 LEDGER_DENIED) (\<lambda>(raw, seen2).
       res_bind (readIdentity CONTRIBUTION_INTAKE_LEDGER_SCHEMA_V1 r LEDGER_DENIED) (\<lambda>base.
       res_bind (assertDigest (getf r ''contextDigest'') LEDGER_DENIED) (\<lambda>cd.
       if \<not> identitiesMatchContext ctx base \<or> cd \<noteq> ctx_contextDigest ctx then Inl LEDGER_DENIED
       else
       res_bind (replayEntries H ctx
           (identified.extend base \<lparr>lg_contextDigest = cd, entries = [], nextSequence = 1,
              quarantineCount = 0\<rparr>) raw seen2 0 1 0 None) (\<lambda>(es, replayNextSequence, replayQuarantineCount).
       res_bind (assertSafePositiveInteger (getf r ''nextSequence'') LEDGER_DENIED) (\<lambda>nextSeq.
       res_bind (assertSafeUnsignedInteger (getf r ''quarantineCount'') LEDGER_DENIED) (\<lambda>quar.
       res_bind (assertDigest (getf r ''ledgerDigest'') LEDGER_DENIED) (\<lambda>dg.
       if nextSeq \<noteq> replayNextSequence \<or> quar \<noteq> replayQuarantineCount then Inl LEDGER_DENIED
       else
       (let u = identified.extend base \<lparr>lg_contextDigest = cd, entries = es,
                  nextSequence = nextSeq, quarantineCount = quar\<rparr>
        in if dg \<noteq> ledgerDigestValue H u then Inl LEDGER_DENIED
           else Inr (freezeVerifiedLedger H u))))))))))"

definition verifyContributionIntakeLedgerV1 ::
    "hash \<Rightarrow> trust_context \<Rightarrow> js \<Rightarrow> ledger option res" where
  "verifyContributionIntakeLedgerV1 H ctx candidate =
     res_bind (assertVerifiedContext ctx) (\<lambda>_. Inr (caught (readLedger H ctx candidate)))"

text \<open>A ledger as the JSON document that is handed to the verifier.\<close>

fun entries_js :: "nat \<Rightarrow> entry list \<Rightarrow> js list" where
  "entries_js i [] = []"
| "entries_js i (e # es) = entry_js i e # entries_js (i + 3) es"

definition ledger_js :: "ledger \<Rightarrow> js" where
  "ledger_js L = JObj 0 ((''schemaVersion'', JStr (schemaVersion L)) # id_fields L @
     [(''contextDigest'', JStr (lg_contextDigest L)),
      (''entries'', JArr 1 (entries_js 2 (entries L))),
      (''nextSequence'', jint (nextSequence L)),
      (''quarantineCount'', jint (quarantineCount L)),
      (''ledgerDigest'', JStr (ledgerDigest L))])"

subsection \<open>Receipts\<close>

definition normalizeReceipt :: "js \<Rightarrow> receipt res" where
  "normalizeReceipt value =
     res_bind (readExactDataObject value RECEIPT_KEYS [] RECEIPT_DENIED) (\<lambda>(r, seen1).
       if getf r ''schemaVersion'' \<noteq> JStr CONTRIBUTION_INTAKE_RECEIPT_SCHEMA_V1 then Inl RECEIPT_DENIED
       else
       res_bind (assertBoolean (getf r ''quarantined'') RECEIPT_DENIED) (\<lambda>quarantined.
       res_bind (normalizeSubmittedIdentityEvidence (getf r ''submittedIdentityEvidence'') seen1
                   RECEIPT_DENIED) (\<lambda>(evid, seen2).
       res_bind (assertDigest (getf r ''contextDigest'') RECEIPT_DENIED) (\<lambda>cd.
       res_bind (assertDigest (getf r ''submittedIdentityEvidenceDigest'') RECEIPT_DENIED) (\<lambda>ed.
       res_bind (assertSubmittedIdentityBinding (getf r ''submittedIdentityBinding'') RECEIPT_DENIED) (\<lambda>b.
       res_bind (readIdentity CONTRIBUTION_INTAKE_RECEIPT_SCHEMA_V1 r RECEIPT_DENIED) (\<lambda>base.
       res_bind (assertString (getf r ''deliveryId'') DELIVERY_ID_PATTERN RECEIPT_DENIED) (\<lambda>did.
       res_bind (assertDigest (getf r ''headDigest'') RECEIPT_DENIED) (\<lambda>head.
       res_bind (assertSafePositiveInteger (getf r ''sequence'') RECEIPT_DENIED) (\<lambda>seqno.
       res_bind (assertDisposition (getf r ''disposition'') RECEIPT_DENIED) (\<lambda>disp.
       res_bind (normalizeReasonCodes (getf r ''reasonCodes'') seen2 RECEIPT_DENIED) (\<lambda>(reasons, seen3).
       res_bind (assertDigest (getf r ''deliveryDigest'') RECEIPT_DENIED) (\<lambda>dd.
       res_bind (assertDigest (getf r ''receiptDigest'') RECEIPT_DENIED) (\<lambda>dg.
         Inr (identified.extend base
                \<lparr>rc_contextDigest = cd, rc_submittedIdentityEvidence = evid,
                 rc_submittedIdentityEvidenceDigest = ed, rc_submittedIdentityBinding = b,
                 rc_deliveryId = did, rc_headDigest = head, rc_sequence = seqno,
                 rc_disposition = disp, rc_reasonCodes = reasons, rc_quarantined = quarantined,
                 rc_deliveryDigest = dd, receiptDigest = dg\<rparr>)))))))))))))))"

definition expectedReceipt :: "hash \<Rightarrow> trust_context \<Rightarrow> receipt \<Rightarrow> entry \<Rightarrow> receipt" where
  "expectedReceipt H ctx r matched =
     (if rc_disposition r = TRANSPORT_DUPLICATE then
        buildReceipt H ctx (submittedEventFromEntry matched) (en_sequence matched)
          (frozenClassification TRANSPORT_DUPLICATE [TRANSPORT_REDELIVERY] False None)
          (submittedIdentityBinding matched) (en_deliveryDigest matched)
      else
        buildReceipt H ctx (submittedEventFromEntry matched) (en_sequence matched)
          \<lparr>cl_disposition = en_disposition matched, cl_reasonCodes = en_reasonCodes matched,
           cl_quarantined = en_quarantined matched,
           cl_replacedHeadDigest = en_replacedHeadDigest matched\<rparr>
          (submittedIdentityBinding matched) (en_deliveryDigest matched))"

text \<open>\<open>ledger.entries[receipt.sequence - 1]\<close> is \<open>undefined\<close> past the end.\<close>

definition entryAt :: "'a ledger_unsigned_scheme \<Rightarrow> int \<Rightarrow> entry option" where
  "entryAt L i = (if 0 \<le> i \<and> i < int (length (entries L)) then Some (entries L ! nat i) else None)"

definition checkReceipt :: "hash \<Rightarrow> trust_context \<Rightarrow> ledger \<Rightarrow> js \<Rightarrow> receipt res" where
  "checkReceipt H ctx L candidate =
     res_bind (normalizeReceipt candidate) (\<lambda>r.
       if rc_contextDigest r \<noteq> ctx_contextDigest ctx \<or> \<not> identitiesMatchContext ctx r
          \<or> rc_submittedIdentityEvidenceDigest r
              \<noteq> submittedIdentityEvidenceDigestValue H (rc_submittedIdentityEvidence r)
          \<or> receiptDigest r \<noteq> receiptDigestValue H r
       then Inl RECEIPT_DENIED
       else (case entryAt L (rc_sequence r - 1) of
          None \<Rightarrow> Inl RECEIPT_DENIED
        | Some matched \<Rightarrow>
            (let expected = expectedReceipt H ctx r matched in
             res_bind (canonicalJson (receipt_js 0 r)) (\<lambda>a.
             res_bind (canonicalJson (receipt_js 0 expected)) (\<lambda>b.
               if a \<noteq> b then Inl RECEIPT_DENIED else Inr expected)))))"

definition verifyContributionIntakeReceiptV1 ::
    "hash \<Rightarrow> trust_context \<Rightarrow> ledger \<Rightarrow> js \<Rightarrow> receipt option res" where
  "verifyContributionIntakeReceiptV1 H ctx L candidate =
     res_bind (assertVerifiedLedger ctx L) (\<lambda>_. Inr (caught (checkReceipt H ctx L candidate)))"

end
