(* ===== verification/IntakeCodec.thy ===== *)
theory IntakeCodec
  imports IntakeVerify
begin

text \<open>
  The encodings of entries, ledgers and receipts lose nothing (interpretations of \<open>codec\<close>), and
  the readers invert them: what they accept is well formed, and what is well formed they read
  back unchanged.
\<close>

subsection \<open>The encodings lose nothing\<close>

lemma map_JStr_inj [simp]:
  "map (\<lambda>x. JStr (f x)) xs = map (\<lambda>y. JStr (f y)) ys \<longleftrightarrow> map f xs = map f ys"
  by (auto simp: list_eq_iff_nth_eq)

lemma map_reason_text_inj [simp]: "map reason_text xs = map reason_text ys \<longleftrightarrow> xs = ys"
  by (rule inj_map_eq_map) (simp add: inj_def)

lemma evidence_js_norm [simp]: "js_norm (evidence_js i a) = js_norm (evidence_js j b) \<longleftrightarrow> a = b"
proof -
  have "js_norm (evidence_js i a) = js_norm (evidence_js 0 a)" for i a
    by (simp add: evidence_js_def)
  then show ?thesis using evidence_codec.enc_inj [of 0 a b] by metis
qed

lemma evidence_js_plain [simp]: "plain (evidence_js i e)" "js_wf (evidence_js i e)"
  by (rule evidence_codec.enc_plain evidence_codec.enc_wf)+

lemma plain_reasons [simp]:
  "list_all plain (map (\<lambda>x. JStr (f x)) xs)" "list_all js_wf (map (\<lambda>x. JStr (f x)) xs)"
  by (simp_all add: list_all_iff)

interpretation entry_codec: codec entryUnsigned entry_unsigned.truncate
proof
  fix a b :: "'a entry_unsigned_scheme"
  show "plain (entryUnsigned a)" "js_wf (entryUnsigned a)"
    by (simp_all add: entryUnsigned_def entryUnsigned_js_def)
  show "entryUnsigned a = entryUnsigned b" if "entry_unsigned.truncate a = entry_unsigned.truncate b"
    using that by (simp add: entryUnsigned_def entryUnsigned_js_def entry_unsigned.defs)
  assume "js_norm (entryUnsigned a) = js_norm (entryUnsigned b)"
  then show "entry_unsigned.truncate a = entry_unsigned.truncate b"
    unfolding entryUnsigned_def entryUnsigned_js_def
    by (drule_tac js_norm_obj_vals) (simp_all add: entry_unsigned.defs o_def)
qed

interpretation receipt_unsigned_codec: codec receiptUnsigned receipt_unsigned.truncate
proof
  fix a b :: "'a receipt_unsigned_scheme"
  show "plain (receiptUnsigned a)" "js_wf (receiptUnsigned a)"
    by (simp_all add: receiptUnsigned_def receiptUnsigned_js_def)
  show "receiptUnsigned a = receiptUnsigned b" if "receipt_unsigned.truncate a = receipt_unsigned.truncate b"
    using that by (simp add: receiptUnsigned_def receiptUnsigned_js_def receipt_unsigned.defs)
  assume "js_norm (receiptUnsigned a) = js_norm (receiptUnsigned b)"
  then show "receipt_unsigned.truncate a = receipt_unsigned.truncate b"
    unfolding receiptUnsigned_def receiptUnsigned_js_def
    by (drule_tac js_norm_obj_vals) (simp_all add: receipt_unsigned.defs o_def)
qed

interpretation receipt_codec: codec "receipt_js i" "\<lambda>r :: receipt. r"
proof
  fix a b :: receipt
  show "plain (receipt_js i a)" "js_wf (receipt_js i a)"
    by (simp_all add: receipt_js_def receiptUnsigned_js_def)
  assume "js_norm (receipt_js i a) = js_norm (receipt_js i b)"
  then show "a = b"
    unfolding receipt_js_def receiptUnsigned_js_def
    by (drule_tac js_norm_obj_vals) (simp_all add: o_def)
qed simp

text \<open>What the ledger digest covers: everything but the bodies of the entries.\<close>

definition ledger_seal :: "'a ledger_unsigned_scheme \<Rightarrow>
    string \<times> (string \<times> string \<times> string \<times> string \<times> string \<times> string \<times> scope) \<times> string
    \<times> string list \<times> int \<times> int" where
  "ledger_seal L = (schemaVersion L, identity L, lg_contextDigest L, map entryDigest (entries L),
     nextSequence L, quarantineCount L)"

interpretation ledger_codec: codec ledgerSeal_js ledger_seal
proof
  fix a b :: "'a ledger_unsigned_scheme"
  show "plain (ledgerSeal_js a)" "js_wf (ledgerSeal_js a)"
    by (simp_all add: ledgerSeal_js_def)
  show "ledgerSeal_js a = ledgerSeal_js b" if "ledger_seal a = ledger_seal b"
    using that by (simp add: ledgerSeal_js_def ledger_seal_def identity_def)
  assume "js_norm (ledgerSeal_js a) = js_norm (ledgerSeal_js b)"
  then show "ledger_seal a = ledger_seal b"
    unfolding ledgerSeal_js_def ledger_seal_def
    by (drule_tac js_norm_obj_vals) (simp_all add: identity_def o_def)
qed

subsection \<open>Reading entries back\<close>

lemma readExactDataObject_same:
  "map fst kvs = ks \<Longrightarrow> list_all (\<lambda>k. k \<notin> set DANGEROUS_KEYS) ks \<Longrightarrow> i \<notin> set seen \<Longrightarrow>
    readExactDataObject (JObj i kvs) ks seen code = Inr (kvs, i # seen)"
  by (auto simp: Let_def list_ex_iff list_all_iff)

definition entry_wf :: "entry \<Rightarrow> bool" where
  "entry_wf e \<longleftrightarrow>
     schemaVersion e = CONTRIBUTION_INTAKE_LEDGER_SCHEMA_V1 \<and> identity_wf e
     \<and> 1 \<le> en_sequence e \<and> en_sequence e \<le> max_safe \<and> hex64 (en_contextDigest e)
     \<and> evidence_wf (submittedIdentityEvidence e) \<and> hex64 (submittedIdentityEvidenceDigest e)
     \<and> en_disposition e \<noteq> TRANSPORT_DUPLICATE \<and> reasons_wf (en_reasonCodes e)
     \<and> rx_test DELIVERY_ID_PATTERN (en_deliveryId e) \<and> hex64 (en_headDigest e)
     \<and> (\<forall>a. en_ancestorDigest e = Some a \<longrightarrow> hex64 a) \<and> hex64 (en_payloadDigest e)
     \<and> 0 \<le> en_receivedAtMs e \<and> en_receivedAtMs e \<le> max_safe \<and> hex64 (en_deliveryDigest e)
     \<and> (\<forall>a. en_replacedHeadDigest e = Some a \<longrightarrow> hex64 a)
     \<and> (\<forall>a. previousEntryDigest e = Some a \<longrightarrow> hex64 a) \<and> hex64 (entryDigest e)"

lemma entry_more_simps [simp]:
  "en_sequence (identified.extend b (entry_unsigned_ext a1 a2 a3 a4 a5 a6 a7 a8 a9 a10 a11 a12 a13 a14 a15 a16 m)) = a1"
  "en_contextDigest (identified.extend b (entry_unsigned_ext a1 a2 a3 a4 a5 a6 a7 a8 a9 a10 a11 a12 a13 a14 a15 a16 m)) = a2"
  "submittedIdentityEvidence (identified.extend b (entry_unsigned_ext a1 a2 a3 a4 a5 a6 a7 a8 a9 a10 a11 a12 a13 a14 a15 a16 m)) = a3"
  "submittedIdentityEvidenceDigest (identified.extend b (entry_unsigned_ext a1 a2 a3 a4 a5 a6 a7 a8 a9 a10 a11 a12 a13 a14 a15 a16 m)) = a4"
  "submittedIdentityBinding (identified.extend b (entry_unsigned_ext a1 a2 a3 a4 a5 a6 a7 a8 a9 a10 a11 a12 a13 a14 a15 a16 m)) = a5"
  "en_disposition (identified.extend b (entry_unsigned_ext a1 a2 a3 a4 a5 a6 a7 a8 a9 a10 a11 a12 a13 a14 a15 a16 m)) = a6"
  "en_reasonCodes (identified.extend b (entry_unsigned_ext a1 a2 a3 a4 a5 a6 a7 a8 a9 a10 a11 a12 a13 a14 a15 a16 m)) = a7"
  "en_quarantined (identified.extend b (entry_unsigned_ext a1 a2 a3 a4 a5 a6 a7 a8 a9 a10 a11 a12 a13 a14 a15 a16 m)) = a8"
  "en_deliveryId (identified.extend b (entry_unsigned_ext a1 a2 a3 a4 a5 a6 a7 a8 a9 a10 a11 a12 a13 a14 a15 a16 m)) = a9"
  "en_headDigest (identified.extend b (entry_unsigned_ext a1 a2 a3 a4 a5 a6 a7 a8 a9 a10 a11 a12 a13 a14 a15 a16 m)) = a10"
  "en_ancestorDigest (identified.extend b (entry_unsigned_ext a1 a2 a3 a4 a5 a6 a7 a8 a9 a10 a11 a12 a13 a14 a15 a16 m)) = a11"
  "en_payloadDigest (identified.extend b (entry_unsigned_ext a1 a2 a3 a4 a5 a6 a7 a8 a9 a10 a11 a12 a13 a14 a15 a16 m)) = a12"
  "en_receivedAtMs (identified.extend b (entry_unsigned_ext a1 a2 a3 a4 a5 a6 a7 a8 a9 a10 a11 a12 a13 a14 a15 a16 m)) = a13"
  "en_deliveryDigest (identified.extend b (entry_unsigned_ext a1 a2 a3 a4 a5 a6 a7 a8 a9 a10 a11 a12 a13 a14 a15 a16 m)) = a14"
  "en_replacedHeadDigest (identified.extend b (entry_unsigned_ext a1 a2 a3 a4 a5 a6 a7 a8 a9 a10 a11 a12 a13 a14 a15 a16 m)) = a15"
  "previousEntryDigest (identified.extend b (entry_unsigned_ext a1 a2 a3 a4 a5 a6 a7 a8 a9 a10 a11 a12 a13 a14 a15 a16 m)) = a16"
  "entryDigest (identified.extend b (entry_unsigned_ext a1 a2 a3 a4 a5 a6 a7 a8 a9 a10 a11 a12 a13 a14 a15 a16 (entry_ext d u))) = d"
  by (simp_all add: identified.defs)

lemma normalizeEntry_wf:
  "normalizeEntry v seen = Inr (e, seen') \<Longrightarrow> entry_wf e"
  by (clarsimp simp: normalizeEntry_def res_simps) (simp add: entry_wf_def normalizeEvidence_wf)

lemma entry_extend_eq:
  "e = identified.extend (identified.truncate e) \<lparr>en_sequence = en_sequence e,
     en_contextDigest = en_contextDigest e,
     submittedIdentityEvidence = submittedIdentityEvidence e,
     submittedIdentityEvidenceDigest = submittedIdentityEvidenceDigest e,
     submittedIdentityBinding = submittedIdentityBinding e, en_disposition = en_disposition e,
     en_reasonCodes = en_reasonCodes e, en_quarantined = en_quarantined e,
     en_deliveryId = en_deliveryId e, en_headDigest = en_headDigest e,
     en_ancestorDigest = en_ancestorDigest e, en_payloadDigest = en_payloadDigest e,
     en_receivedAtMs = en_receivedAtMs e, en_deliveryDigest = en_deliveryDigest e,
     en_replacedHeadDigest = en_replacedHeadDigest e,
     previousEntryDigest = previousEntryDigest e, entryDigest = entryDigest e\<rparr>" for e :: entry
  by (simp add: identified.defs)

lemma normalizeEntry_entry_js:
  assumes wf: "entry_wf e" and i: "{i, i + 1, i + 2} \<inter> set seen = {}"
  shows "normalizeEntry (entry_js i e) seen = Inr (e, (i + 2) # (i + 1) # i # seen)"
proof -
  obtain kvs where v: "entry_js i e = JObj i kvs" and kvs: "kvs = fields_of (entry_js i e)"
    by (simp add: entry_js_def)
  have "readExactDataObject (JObj i kvs) ENTRY_KEYS seen ENTRY_DENIED = Inr (kvs, i # seen)"
    using i by (intro readExactDataObject_same)
      (simp_all add: kvs entry_js_def entryUnsigned_js_def ENTRY_KEYS_def DANGEROUS_KEYS_def)
  moreover have "has_identity kvs e"
    by (simp add: kvs entry_js_def entryUnsigned_js_def has_identity_def id_fields_def)
  then have "readIdentity CONTRIBUTION_INTAKE_LEDGER_SCHEMA_V1 kvs ENTRY_DENIED = Inr (identified.truncate e)"
    using wf by (simp add: readIdentity_Inr_iff entry_wf_def)
  moreover have "normalizeSubmittedIdentityEvidence (getf kvs ''submittedIdentityEvidence'') (i # seen)
      ENTRY_DENIED = Inr (submittedIdentityEvidence e, (i + 1) # i # seen)"
    using wf i normalizeEvidence_evidence_js [of "submittedIdentityEvidence e" "i + 1" "i # seen"]
    by (simp add: kvs entry_js_def entryUnsigned_js_def entry_wf_def)
  moreover have "normalizeReasonCodes (getf kvs ''reasonCodes'') ((i + 1) # i # seen) ENTRY_DENIED
      = Inr (en_reasonCodes e, (i + 2) # (i + 1) # i # seen)"
    using wf i by (simp add: kvs entry_js_def entryUnsigned_js_def entry_wf_def normalizeReasonCodes_Inr_iff)
  moreover have
    "getf kvs ''schemaVersion'' = JStr CONTRIBUTION_INTAKE_LEDGER_SCHEMA_V1"
    "assertBoolean (getf kvs ''quarantined'') ENTRY_DENIED = Inr (en_quarantined e)"
    "assertSafePositiveInteger (getf kvs ''sequence'') ENTRY_DENIED = Inr (en_sequence e)"
    "assertDigest (getf kvs ''contextDigest'') ENTRY_DENIED = Inr (en_contextDigest e)"
    "assertDigest (getf kvs ''submittedIdentityEvidenceDigest'') ENTRY_DENIED
      = Inr (submittedIdentityEvidenceDigest e)"
    "assertSubmittedIdentityBinding (getf kvs ''submittedIdentityBinding'') ENTRY_DENIED
      = Inr (submittedIdentityBinding e)"
    "assertEntryDisposition (getf kvs ''disposition'') ENTRY_DENIED = Inr (en_disposition e)"
    "assertString (getf kvs ''deliveryId'') DELIVERY_ID_PATTERN ENTRY_DENIED = Inr (en_deliveryId e)"
    "assertDigest (getf kvs ''headDigest'') ENTRY_DENIED = Inr (en_headDigest e)"
    "assertNullableDigest (getf kvs ''ancestorDigest'') ENTRY_DENIED = Inr (en_ancestorDigest e)"
    "assertDigest (getf kvs ''payloadDigest'') ENTRY_DENIED = Inr (en_payloadDigest e)"
    "assertSafeUnsignedInteger (getf kvs ''receivedAtMs'') ENTRY_DENIED = Inr (en_receivedAtMs e)"
    "assertDigest (getf kvs ''deliveryDigest'') ENTRY_DENIED = Inr (en_deliveryDigest e)"
    "assertNullableDigest (getf kvs ''replacedHeadDigest'') ENTRY_DENIED
      = Inr (en_replacedHeadDigest e)"
    "assertNullableDigest (getf kvs ''previousEntryDigest'') ENTRY_DENIED
      = Inr (previousEntryDigest e)"
    "assertDigest (getf kvs ''entryDigest'') ENTRY_DENIED = Inr (entryDigest e)"
    using wf by (simp_all add: kvs entry_js_def entryUnsigned_js_def entry_wf_def res_simps)
  ultimately show ?thesis
    using entry_extend_eq [of e] by (simp add: v normalizeEntry_def)
qed

end
