(* ===== verification/IntakeHistory.thy ===== *)
theory IntakeHistory
  imports IntakeCodec
begin

text \<open>
  The histories of a ledger. \<open>reachable\<close> is the step relation of the module: a ledger is
  created for a trusted context and then only grows by ingestion. \<open>history\<close> is its
  abstraction to the list of entries: every entry is \<open>entryFor\<close> the delivery it records, the
  entry the code builds after the entries before it. The rest of a ledger is a function of
  that list (\<open>ledger_at\<close>).
\<close>

subsection \<open>Sealed entries and frozen ledgers\<close>

lemma sealEntry_simps [simp]:
  "schemaVersion (sealEntry H u) = schemaVersion u" "ledgerId (sealEntry H u) = ledgerId u"
  "tenantId (sealEntry H u) = tenantId u" "repositoryId (sealEntry H u) = repositoryId u"
  "contributionId (sealEntry H u) = contributionId u" "actorId (sealEntry H u) = actorId u"
  "authorityEvidenceId (sealEntry H u) = authorityEvidenceId u"
  "authorityScope (sealEntry H u) = authorityScope u" "en_sequence (sealEntry H u) = en_sequence u"
  "en_contextDigest (sealEntry H u) = en_contextDigest u"
  "submittedIdentityEvidence (sealEntry H u) = submittedIdentityEvidence u"
  "submittedIdentityEvidenceDigest (sealEntry H u) = submittedIdentityEvidenceDigest u"
  "submittedIdentityBinding (sealEntry H u) = submittedIdentityBinding u"
  "en_disposition (sealEntry H u) = en_disposition u"
  "en_reasonCodes (sealEntry H u) = en_reasonCodes u"
  "en_quarantined (sealEntry H u) = en_quarantined u"
  "en_deliveryId (sealEntry H u) = en_deliveryId u" "en_headDigest (sealEntry H u) = en_headDigest u"
  "en_ancestorDigest (sealEntry H u) = en_ancestorDigest u"
  "en_payloadDigest (sealEntry H u) = en_payloadDigest u"
  "en_receivedAtMs (sealEntry H u) = en_receivedAtMs u"
  "en_deliveryDigest (sealEntry H u) = en_deliveryDigest u"
  "en_replacedHeadDigest (sealEntry H u) = en_replacedHeadDigest u"
  "previousEntryDigest (sealEntry H u) = previousEntryDigest u"
  "entryDigest (sealEntry H u) = entryDigestValue H u"
  "entry_unsigned.truncate (sealEntry H u) = u"
  by (simp_all add: sealEntry_def entry_unsigned.defs entry.defs)

lemma entryDigestValue_truncate: "entryDigestValue H (entry_unsigned.truncate e) = entryDigestValue H e"
  by (simp add: entryDigestValue_def entryUnsigned_def entryUnsigned_js_def entry_unsigned.defs)

lemma entryDigestValue_sealEntry [simp]: "entryDigestValue H (sealEntry H u) = entryDigestValue H u"
  by (subst entryDigestValue_truncate [symmetric]) simp

lemma sealEntry_eqI: "entryDigest e = entryDigestValue H e \<Longrightarrow> entry_unsigned.truncate e = u \<Longrightarrow> e = sealEntry H u"
  using entryDigestValue_truncate [of H e]
  by (cases e) (auto simp: sealEntry_def entry_unsigned.defs entry.defs)

lemma freezeVerifiedLedger_simps [simp]:
  "schemaVersion (freezeVerifiedLedger H u) = schemaVersion u"
  "ledgerId (freezeVerifiedLedger H u) = ledgerId u" "tenantId (freezeVerifiedLedger H u) = tenantId u"
  "repositoryId (freezeVerifiedLedger H u) = repositoryId u"
  "contributionId (freezeVerifiedLedger H u) = contributionId u"
  "actorId (freezeVerifiedLedger H u) = actorId u"
  "authorityEvidenceId (freezeVerifiedLedger H u) = authorityEvidenceId u"
  "authorityScope (freezeVerifiedLedger H u) = authorityScope u"
  "lg_contextDigest (freezeVerifiedLedger H u) = lg_contextDigest u"
  "entries (freezeVerifiedLedger H u) = entries u"
  "nextSequence (freezeVerifiedLedger H u) = nextSequence u"
  "quarantineCount (freezeVerifiedLedger H u) = quarantineCount u"
  "ledgerDigest (freezeVerifiedLedger H u) = ledgerDigestValue H u"
  "verifiedLedger (freezeVerifiedLedger H u)"
  by (simp_all add: freezeVerifiedLedger_def ledger_unsigned.defs ledger.defs)

lemma ledgerDigestValue_freeze [simp]:
  "ledgerDigestValue H (freezeVerifiedLedger H u) = ledgerDigestValue H u"
  by (simp add: ledgerDigestValue_def ledgerSeal_js_def)

lemma identitiesMatchContext_iff: "identitiesMatchContext ctx x \<longleftrightarrow> identity x = identity ctx"
  by (auto simp: identitiesMatchContext_def identity_def)

lemma identity_emptyLedger [simp]: "identity (emptyLedger ctx) = identity ctx"
  by (simp add: emptyLedger_def identity_def)

subsection \<open>What classification depends on\<close>

lemma currentHead_cong: "entries L = entries L' \<Longrightarrow> currentHeadInternal L = currentHeadInternal L'"
  by (simp add: currentHeadInternal_def)

lemma headStatus_cong: "entries L = entries L' \<Longrightarrow> headStatusInternal L = headStatusInternal L'"
  by (rule ext) (simp add: headStatusInternal_def)

lemma classify_cong:
  assumes "entries L = entries L'"
  shows "classifyNormalized L d b dd = classifyNormalized L' d b dd"
  using currentHead_cong [OF assms] headStatus_cong [OF assms] assms
  by (simp only: classifyNormalized_def)

lemma binding_cong:
  "identity L = identity L' \<Longrightarrow> deriveSubmittedIdentityBinding L d = deriveSubmittedIdentityBinding L' d"
  by (simp only: deriveSubmittedIdentityBinding_def identity_def prod.inject)

text \<open>The classification is one of the twelve the code can return.\<close>

lemma classifyNormalized_quarantined:
  "cl_quarantined (classifyNormalized L d b dd) \<longleftrightarrow>
     cl_disposition (classifyNormalized L d b dd) \<in> {STALE, REJECTED}"
  by (simp add: classifyNormalized_def frozenClassification_def split: option.split)

lemma classifyNormalized_reasons: "reasons_wf (cl_reasonCodes (classifyNormalized L d b dd))"
  by (simp add: classifyNormalized_def frozenClassification_def reasons_wf_def split: option.split)

lemma classifyNormalized_duplicate_iff:
  "cl_disposition (classifyNormalized L d b dd) = TRANSPORT_DUPLICATE \<longleftrightarrow>
     (\<exists>e \<in> set (entries L). en_deliveryId e = deliveryId d \<and> en_deliveryDigest e = dd)"
proof (cases "List.find (\<lambda>e. en_deliveryId e = deliveryId d \<and> en_deliveryDigest e = dd) (entries L)")
  case None
  then have "\<not> (\<exists>e \<in> set (entries L). en_deliveryId e = deliveryId d \<and> en_deliveryDigest e = dd)"
    by (simp add: find_None_all)
  then show ?thesis
    by (simp add: classifyNormalized_def frozenClassification_def None split: option.split)
next
  case (Some e)
  then show ?thesis
    using find_Some_in [OF Some]
    by (auto simp: classifyNormalized_def frozenClassification_def)
qed

text \<open>The classification of a delivery that appends, and of one that does not.\<close>

lemma classifyNormalized_appended:
  assumes "cl_disposition (classifyNormalized L d b dd) = APPENDED"
  shows "b = CONTEXT_MATCH"
    and "\<forall>e \<in> set (entries L). en_deliveryId e \<noteq> deliveryId d"
    and "\<forall>e \<in> set (entries L). is_appended e \<longrightarrow> en_headDigest e \<noteq> headDigest d"
    and "cl_replacedHeadDigest (classifyNormalized L d b dd)
           = map_option en_headDigest (currentHeadInternal L)"
    and "\<forall>c. currentHeadInternal L = Some c \<longrightarrow> en_receivedAtMs c \<le> receivedAtMs d"
proof -
  note cases = assms [unfolded classifyNormalized_def frozenClassification_def]
  show "b = CONTEXT_MATCH"
    using cases by (cases b) (auto split: option.splits if_splits)
  show "\<forall>e \<in> set (entries L). en_deliveryId e \<noteq> deliveryId d"
    using cases by (auto simp: list_ex_iff split: option.splits if_splits)
  show "\<forall>e \<in> set (entries L). is_appended e \<longrightarrow> en_headDigest e \<noteq> headDigest d"
    using cases
    by (auto simp: list_ex_iff currentHeadInternal_def find_last_None split: option.splits if_splits)
  show "cl_replacedHeadDigest (classifyNormalized L d b dd)
      = map_option en_headDigest (currentHeadInternal L)"
    using cases by (auto simp: classifyNormalized_def frozenClassification_def split: option.splits if_splits)
  show "\<forall>c. currentHeadInternal L = Some c \<longrightarrow> en_receivedAtMs c \<le> receivedAtMs d"
    using cases by (auto split: option.splits if_splits)
qed

lemma classifyNormalized_not_appended:
  "cl_disposition (classifyNormalized L d b dd) \<noteq> APPENDED \<Longrightarrow>
     cl_replacedHeadDigest (classifyNormalized L d b dd) = None"
  by (auto simp: classifyNormalized_def frozenClassification_def split: option.splits if_splits)

lemma classifyNormalized_not_matching:
  assumes "b \<noteq> CONTEXT_MATCH"
  shows "cl_disposition (classifyNormalized L d b dd) \<in> {REJECTED, TRANSPORT_DUPLICATE}"
  using assms
  by (cases b) (simp_all add: classifyNormalized_def frozenClassification_def split: option.split)

subsection \<open>Histories\<close>

definition ledger_at :: "hash \<Rightarrow> trust_context \<Rightarrow> entry list \<Rightarrow> ledger" where
  "ledger_at H ctx es = freezeVerifiedLedger H ((emptyLedger ctx)
     \<lparr>entries := es, nextSequence := int (length es) + 1,
      quarantineCount := int (length (filter en_quarantined es))\<rparr>)"

definition bindingFor :: "trust_context \<Rightarrow> delivery \<Rightarrow> binding" where
  "bindingFor ctx d = deriveSubmittedIdentityBinding (emptyLedger ctx) d"

definition classifyFor :: "hash \<Rightarrow> trust_context \<Rightarrow> entry list \<Rightarrow> delivery \<Rightarrow> classification" where
  "classifyFor H ctx es d =
     classifyNormalized (ledger_at H ctx es) d (bindingFor ctx d) (deliveryDigestValue H d)"

definition entryFor :: "hash \<Rightarrow> trust_context \<Rightarrow> entry list \<Rightarrow> delivery \<Rightarrow> entry" where
  "entryFor H ctx es d = sealEntry H (unsignedEntry H (ledger_at H ctx es) d
     (classifyFor H ctx es d) (bindingFor ctx d) (deliveryDigestValue H d))"

inductive history :: "hash \<Rightarrow> trust_context \<Rightarrow> entry list \<Rightarrow> bool" for H ctx where
  history_Nil: "history H ctx []"
| history_snoc: "history H ctx es \<Longrightarrow> delivery_wf d
    \<Longrightarrow> cl_disposition (classifyFor H ctx es d) \<noteq> TRANSPORT_DUPLICATE
    \<Longrightarrow> history H ctx (es @ [entryFor H ctx es d])"

inductive reachable :: "hash \<Rightarrow> trust_context \<Rightarrow> ledger \<Rightarrow> bool" for H ctx where
  genesis: "createContributionIntakeLedgerV1 H ctx = Inr L \<Longrightarrow> reachable H ctx L"
| ingest: "reachable H ctx L \<Longrightarrow> ingestContributionDeliveryV1 H ctx L v = Inr (L', r)
    \<Longrightarrow> reachable H ctx L'"

inductive_cases history_snocE: "history H ctx (es @ [e])"

definition trusted :: "hash \<Rightarrow> trust_context \<Rightarrow> bool" where
  "trusted H ctx \<longleftrightarrow> (\<exists>v. bindPrevalidatedContributionIntakeTrustContextV1 H v = Inr ctx)"

lemma trusted_wf:
  assumes "trusted H ctx"
  shows "verifiedContext ctx" "identity_wf ctx"
    "schemaVersion ctx = CONTRIBUTION_INTAKE_TRUST_CONTEXT_SCHEMA_V1"
    "ctx_contextDigest ctx
       = digestDomain H ''cm.contribution-intake-trust-context/v1'' (context_js 0 ctx)"
proof -
  obtain v where "bindPrevalidatedContributionIntakeTrustContextV1 H v = Inr ctx"
    using assms by (auto simp: trusted_def)
  then obtain i where i: "normalizeContextInput v = Inr i"
    and ctx: "ctx = identified.extend i (trust_context.fields
      (digestDomain H ''cm.contribution-intake-trust-context/v1'' (context_js 0 i)) True)"
    by (auto simp: bindPrevalidatedContributionIntakeTrustContextV1_def res_simps)
  have c: "context_js 0 ctx = context_js 0 i"
    by (simp add: ctx context_js_def id_fields_def)
  show "verifiedContext ctx" "ctx_contextDigest ctx
       = digestDomain H ''cm.contribution-intake-trust-context/v1'' (context_js 0 ctx)"
    unfolding c by (simp_all add: ctx identified.defs trust_context.defs)
  show "identity_wf ctx" "schemaVersion ctx = CONTRIBUTION_INTAKE_TRUST_CONTEXT_SCHEMA_V1"
    using normalizeContextInput_wf [OF i] by (simp_all add: ctx)
qed

lemma ledger_at_simps [simp]:
  "schemaVersion (ledger_at H ctx es) = CONTRIBUTION_INTAKE_LEDGER_SCHEMA_V1"
  "identity (ledger_at H ctx es) = identity ctx"
  "identity_wf (ledger_at H ctx es) = identity_wf ctx"
  "lg_contextDigest (ledger_at H ctx es) = ctx_contextDigest ctx"
  "entries (ledger_at H ctx es) = es"
  "nextSequence (ledger_at H ctx es) = int (length es) + 1"
  "quarantineCount (ledger_at H ctx es) = int (length (filter en_quarantined es))"
  "verifiedLedger (ledger_at H ctx es)"
  "ledgerDigest (ledger_at H ctx es) = ledgerDigestValue H (ledger_at H ctx es)"
  by (simp_all add: ledger_at_def emptyLedger_def identity_def identity_wf_def)

lemma ledger_at_fields [simp]:
  "ledgerId (ledger_at H ctx es) = ledgerId ctx" "tenantId (ledger_at H ctx es) = tenantId ctx"
  "repositoryId (ledger_at H ctx es) = repositoryId ctx"
  "contributionId (ledger_at H ctx es) = contributionId ctx"
  "actorId (ledger_at H ctx es) = actorId ctx"
  "authorityEvidenceId (ledger_at H ctx es) = authorityEvidenceId ctx"
  "authorityScope (ledger_at H ctx es) = authorityScope ctx"
  by (simp_all add: ledger_at_def emptyLedger_def)

lemma ledger_at_binding [simp]:
  "deriveSubmittedIdentityBinding (ledger_at H ctx es) d = bindingFor ctx d"
  unfolding bindingFor_def by (rule binding_cong) simp

lemma ledger_at_verified [simp]:
  "verifiedContext ctx \<Longrightarrow> assertVerifiedLedger ctx (ledger_at H ctx es) = Inr ()"
  by (simp add: assertVerifiedLedger_def assertVerifiedContext_def identitiesMatchContext_iff)

lemma create_ledger_at:
  "createContributionIntakeLedgerV1 H ctx = Inr L \<longleftrightarrow> verifiedContext ctx \<and> L = ledger_at H ctx []"
  by (auto simp: createContributionIntakeLedgerV1_def assertVerifiedContext_def ledger_at_def
      emptyLedger_def)

lemma entryFor_fields [simp]:
  "schemaVersion (entryFor H ctx es d) = CONTRIBUTION_INTAKE_LEDGER_SCHEMA_V1"
  "identity (entryFor H ctx es d) = identity ctx"
  "identity_wf (entryFor H ctx es d) = identity_wf ctx"
  "en_sequence (entryFor H ctx es d) = int (length es) + 1"
  "en_contextDigest (entryFor H ctx es d) = ctx_contextDigest ctx"
  "submittedIdentityEvidence (entryFor H ctx es d) = submittedIdentityEvidenceFromDelivery d"
  "submittedIdentityEvidenceDigest (entryFor H ctx es d)
     = submittedIdentityEvidenceDigestValue H (submittedIdentityEvidenceFromDelivery d)"
  "submittedIdentityBinding (entryFor H ctx es d) = bindingFor ctx d"
  "en_disposition (entryFor H ctx es d) = cl_disposition (classifyFor H ctx es d)"
  "en_reasonCodes (entryFor H ctx es d) = cl_reasonCodes (classifyFor H ctx es d)"
  "en_quarantined (entryFor H ctx es d) = cl_quarantined (classifyFor H ctx es d)"
  "en_deliveryId (entryFor H ctx es d) = deliveryId d"
  "en_headDigest (entryFor H ctx es d) = headDigest d"
  "en_ancestorDigest (entryFor H ctx es d) = ancestorDigest d"
  "en_payloadDigest (entryFor H ctx es d) = payloadDigest d"
  "en_receivedAtMs (entryFor H ctx es d) = receivedAtMs d"
  "en_deliveryDigest (entryFor H ctx es d) = deliveryDigestValue H d"
  "en_replacedHeadDigest (entryFor H ctx es d) = cl_replacedHeadDigest (classifyFor H ctx es d)"
  "previousEntryDigest (entryFor H ctx es d) = map_option entryDigest (at_last es)"
  "entryDigest (entryFor H ctx es d) = entryDigestValue H (entryFor H ctx es d)"
  by (simp_all add: entryFor_def unsignedEntry_def identity_def identity_wf_def)

text \<open>Ingestion moves from one history to the next, or leaves it and repeats the old sequence.\<close>

lemma appendEntry_ledger_at:
  "en_quarantined e = cl_quarantined c \<Longrightarrow>
     appendEntry H (ledger_at H ctx es) e c = ledger_at H ctx (es @ [e])"
  by (simp add: appendEntry_def ledger_at_def emptyLedger_def)

definition receiptFor :: "hash \<Rightarrow> trust_context \<Rightarrow> entry list \<Rightarrow> delivery \<Rightarrow> int \<Rightarrow> receipt" where
  "receiptFor H ctx es d n = buildReceipt H ctx d n (classifyFor H ctx es d) (bindingFor ctx d)
     (deliveryDigestValue H d)"

lemma ingestEvent_append:
  "cl_disposition (classifyFor H ctx es d) \<noteq> TRANSPORT_DUPLICATE \<Longrightarrow>
     ingestEvent H ctx (ledger_at H ctx es) d =
       Inr (ledger_at H ctx (es @ [entryFor H ctx es d]),
            receiptFor H ctx es d (int (length es) + 1))"
  by (simp add: ingestEvent_def Let_def classifyFor_def [symmetric] buildEntry_def
      entryFor_def [symmetric] appendEntry_ledger_at receiptFor_def)

lemma ingestEvent_duplicate:
  assumes "cl_disposition (classifyFor H ctx es d) = TRANSPORT_DUPLICATE"
  obtains prior where "prior \<in> set es" "en_deliveryId prior = deliveryId d"
    "en_deliveryDigest prior = deliveryDigestValue H d"
    "ingestEvent H ctx (ledger_at H ctx es) d =
       Inr (ledger_at H ctx es, receiptFor H ctx es d (en_sequence prior))"
proof -
  have "\<exists>e \<in> set es. en_deliveryId e = deliveryId d \<and> en_deliveryDigest e = deliveryDigestValue H d"
    using assms by (simp add: classifyFor_def classifyNormalized_duplicate_iff)
  then obtain prior where p: "List.find (\<lambda>e. en_deliveryId e = deliveryId d
      \<and> en_deliveryDigest e = deliveryDigestValue H d) es = Some prior"
    by (cases "List.find (\<lambda>e. en_deliveryId e = deliveryId d
      \<and> en_deliveryDigest e = deliveryDigestValue H d) es") (auto simp: find_None_all)
  have "ingestEvent H ctx (ledger_at H ctx es) d =
       Inr (ledger_at H ctx es, receiptFor H ctx es d (en_sequence prior))"
    using assms p by (simp add: ingestEvent_def Let_def classifyFor_def [symmetric] receiptFor_def)
  with find_Some_in [OF p] show ?thesis by (intro that) auto
qed

lemma reachable_history:
  "reachable H ctx L \<Longrightarrow> verifiedContext ctx \<and> (\<exists>es. history H ctx es \<and> L = ledger_at H ctx es)"
proof (induction rule: reachable.induct)
  case (genesis L)
  then show ?case by (auto simp: create_ledger_at intro: history_Nil)
next
  case (ingest L v L' r)
  then obtain es d seen where v: "verifiedContext ctx" and es: "history H ctx es" "L = ledger_at H ctx es"
    and d: "normalizeDelivery v [] = Inr (d, seen)"
    and i: "ingestEvent H ctx (ledger_at H ctx es) d = Inr (L', r)"
    by (auto simp: ingestContributionDeliveryV1_def res_simps)
  show ?case
  proof (cases "cl_disposition (classifyFor H ctx es d) = TRANSPORT_DUPLICATE")
    case True
    then have "L' = ledger_at H ctx es" by (rule ingestEvent_duplicate) (use i in simp)
    then show ?thesis using es v by blast
  next
    case False
    with i have "L' = ledger_at H ctx (es @ [entryFor H ctx es d])"
      by (simp add: ingestEvent_append)
    with False es v d show ?thesis
      by (auto intro: history_snoc normalizeDelivery_wf)
  qed
qed

lemma history_reachable:
  "history H ctx es \<Longrightarrow> verifiedContext ctx \<Longrightarrow> reachable H ctx (ledger_at H ctx es)"
proof (induction rule: history.induct)
  case history_Nil
  then show ?case by (intro genesis) (simp add: create_ledger_at)
next
  case (history_snoc es d)
  have "ingestContributionDeliveryV1 H ctx (ledger_at H ctx es) (delivery_js 0 d)
    = ingestEvent H ctx (ledger_at H ctx es) d"
    using history_snoc by (simp add: ingestContributionDeliveryV1_def normalizeDelivery_delivery_js)
  with history_snoc show ?case by (auto simp: ingestEvent_append intro: ingest)
qed

theorem reachable_iff_history:
  "reachable H ctx L \<longleftrightarrow> verifiedContext ctx \<and> (\<exists>es. history H ctx es \<and> L = ledger_at H ctx es)"
  using reachable_history history_reachable by blast

lemma reachableE:
  assumes "reachable H ctx L"
  obtains es where "verifiedContext ctx" "history H ctx es" "L = ledger_at H ctx es" "entries L = es"
  using reachable_history [OF assms] by auto

end
