(* ===== verification/IntakeReplay.thy ===== *)
theory IntakeReplay
  imports IntakeHistory
begin

text \<open>
  Semantic replay: the verifier's loop accepts exactly the histories. The entry the guard lets
  through is the one ingestion would have built (\<open>replayGuard_iff\<close>), so the loop keeps
  \<open>history\<close> (soundness), and it reads every history back (completeness).
\<close>

subsection \<open>Prefixes of histories\<close>

lemma history_prefix: "history H ctx (xs @ ys) \<Longrightarrow> history H ctx xs"
proof (induction ys rule: rev_induct)
  case (snoc y ys)
  then show ?case by (metis append_assoc history_snocE)
qed simp

lemma history_entry:
  assumes "history H ctx (xs @ e # ys)"
  obtains d where "history H ctx xs" "delivery_wf d" "e = entryFor H ctx xs d"
    "cl_disposition (classifyFor H ctx xs d) \<noteq> TRANSPORT_DUPLICATE"
proof -
  have "history H ctx (xs @ [e])" using assms history_prefix [of H ctx "xs @ [e]" ys] by simp
  then show ?thesis by (rule history_snocE) (use that in auto)
qed

subsection \<open>The event an entry records\<close>

lemma evidence_of_event:
  "evidence_wf (submittedIdentityEvidence e) \<Longrightarrow>
     submittedIdentityEvidenceFromDelivery (submittedEventFromEntry e) = submittedIdentityEvidence e"
  by (cases "submittedIdentityEvidence e")
    (simp add: submittedIdentityEvidenceFromDelivery_def submittedEventFromEntry_def evidence_wf_def)

lemma submittedEventFromEntry_fields [simp]:
  "deliveryId (submittedEventFromEntry e) = en_deliveryId e"
  "headDigest (submittedEventFromEntry e) = en_headDigest e"
  "ancestorDigest (submittedEventFromEntry e) = en_ancestorDigest e"
  "payloadDigest (submittedEventFromEntry e) = en_payloadDigest e"
  "receivedAtMs (submittedEventFromEntry e) = en_receivedAtMs e"
  "schemaVersion (submittedEventFromEntry e) = CONTRIBUTION_DELIVERY_SCHEMA_V1"
  "identity (submittedEventFromEntry e) = identity (submittedIdentityEvidence e)"
  by (simp_all add: submittedEventFromEntry_def Let_def identity_def)

lemma submittedEvent_wf: "entry_wf e \<Longrightarrow> delivery_wf (submittedEventFromEntry e)"
  using identity_wf_cong [of "submittedEventFromEntry e" "submittedIdentityEvidence e"]
  by (simp add: entry_wf_def delivery_wf_def evidence_wf_def)

lemma submittedEvent_entryFor:
  "delivery_wf d \<Longrightarrow> submittedEventFromEntry (entryFor H ctx es d) = d"
  by (cases d) (simp add: submittedEventFromEntry_def submittedIdentityEvidenceFromDelivery_def
      delivery_wf_def)

lemma evidence_wf_delivery: "delivery_wf d \<Longrightarrow> evidence_wf (submittedIdentityEvidenceFromDelivery d)"
  by (simp add: evidence_wf_def delivery_wf_def submittedIdentityEvidenceFromDelivery_def identity_wf_def)

lemma entryFor_wf:
  assumes ctx: "trusted H ctx" and H: "\<forall>t. hex64 (H t)" and d: "delivery_wf d"
    and c: "cl_disposition (classifyFor H ctx es d) \<noteq> TRANSPORT_DUPLICATE"
    and len: "int (length es) < max_safe"
    and es: "\<forall>e \<in> set es. entry_wf e"
  shows "entry_wf (entryFor H ctx es d)"
proof -
  have dig: "hex64 (digestDomain H dom v)" for dom v
    using H by (simp add: digestDomain_def digest_of_def)
  have "hex64 a" if "cl_replacedHeadDigest (classifyFor H ctx es d) = Some a" for a
  proof -
    have "cl_disposition (classifyFor H ctx es d) = APPENDED"
      using that classifyNormalized_not_appended [of "ledger_at H ctx es"]
      by (metis classifyFor_def option.distinct(1))
    then have "map_option en_headDigest (currentHeadInternal (ledger_at H ctx es)) = Some a"
      using that classifyNormalized_appended(4) by (metis classifyFor_def)
    with es show ?thesis
      by (auto simp: currentHeadInternal_def entry_wf_def dest: find_last_Some)
  qed
  moreover have "hex64 a" if "map_option entryDigest (at_last es) = Some a" for a
    using that es by (auto simp: entry_wf_def dest: at_last_in)
  ultimately show ?thesis
    using c d len trusted_wf [OF ctx] evidence_wf_delivery [OF d] classifyNormalized_reasons
    by (simp add: entry_wf_def delivery_wf_def dig deliveryDigestValue_def entryDigestValue_def
        submittedIdentityEvidenceDigestValue_def classifyFor_def)
qed

lemma history_entry_wf:
  assumes "history H ctx es" "trusted H ctx" "\<forall>t. hex64 (H t)" "int (length es) \<le> max_safe"
  shows "\<forall>e \<in> set es. entry_wf e"
  using assms
proof (induction rule: history.induct)
  case (history_snoc es d)
  then show ?case by (auto intro!: entryFor_wf)
qed simp

subsection \<open>The guard of the replay loop\<close>

lemma sameClassification_iff:
  "sameClassification e c \<longleftrightarrow> cl_disposition c \<noteq> TRANSPORT_DUPLICATE
     \<and> en_disposition e = cl_disposition c \<and> en_quarantined e = cl_quarantined c
     \<and> en_replacedHeadDigest e = cl_replacedHeadDigest c \<and> en_reasonCodes e = cl_reasonCodes c"
proof -
  have "length xs = length ys \<and> list_all (\<lambda>(c, d). c = d) (zip xs ys) \<longleftrightarrow> xs = ys"
    for xs ys :: "'x list"
    by (auto simp: list_eq_iff_zip_eq list_all_iff set_zip)
  then show ?thesis by (auto simp: sameClassification_def)
qed

lemma replayGuard_iff:
  assumes replay: "entries replay = es" "identity replay = identity ctx"
    and e: "schemaVersion e = CONTRIBUTION_INTAKE_LEDGER_SCHEMA_V1"
      "evidence_wf (submittedIdentityEvidence e)"
  shows "replayGuard H ctx replay e (length es) (map_option entryDigest (at_last es)) \<longleftrightarrow>
     e = entryFor H ctx es (submittedEventFromEntry e)
     \<and> cl_disposition (classifyFor H ctx es (submittedEventFromEntry e)) \<noteq> TRANSPORT_DUPLICATE"
    (is "?guard \<longleftrightarrow> ?entry")
proof -
  define d where "d = submittedEventFromEntry e"
  have b: "deriveSubmittedIdentityBinding replay d = bindingFor ctx d"
    unfolding bindingFor_def
    by (rule binding_cong) (simp add: replay)
  have c: "classifyNormalized replay d (bindingFor ctx d) (deliveryDigestValue H d) = classifyFor H ctx es d"
    unfolding classifyFor_def by (rule classify_cong) (simp add: replay)
  have ev: "submittedIdentityEvidenceFromDelivery d = submittedIdentityEvidence e"
    unfolding d_def by (rule evidence_of_event) (rule e)
  have q: "cl_quarantined (classifyFor H ctx es d) \<longleftrightarrow>
      cl_disposition (classifyFor H ctx es d) = STALE \<or> cl_disposition (classifyFor H ctx es d) = REJECTED"
    by (simp add: classifyFor_def classifyNormalized_quarantined)
  have g: "?guard \<longleftrightarrow> en_sequence e = int (length es) + 1 \<and> en_contextDigest e = ctx_contextDigest ctx
       \<and> identity e = identity ctx
       \<and> submittedIdentityEvidenceDigest e
           = submittedIdentityEvidenceDigestValue H (submittedIdentityEvidence e)
       \<and> submittedIdentityBinding e = bindingFor ctx d
       \<and> en_deliveryDigest e = deliveryDigestValue H d
       \<and> previousEntryDigest e = map_option entryDigest (at_last es)
       \<and> cl_disposition (classifyFor H ctx es d) \<noteq> TRANSPORT_DUPLICATE
       \<and> en_disposition e = cl_disposition (classifyFor H ctx es d)
       \<and> en_quarantined e = cl_quarantined (classifyFor H ctx es d)
       \<and> en_replacedHeadDigest e = cl_replacedHeadDigest (classifyFor H ctx es d)
       \<and> en_reasonCodes e = cl_reasonCodes (classifyFor H ctx es d)
       \<and> entryDigest e = entryDigestValue H e"
    unfolding replayGuard_def Let_def d_def [symmetric] b c sameClassification_iff
      identitiesMatchContext_iff
    using q by auto
  show ?thesis
  proof
    assume guard: ?guard
    have "entry_unsigned.truncate e = unsignedEntry H (ledger_at H ctx es) d (classifyFor H ctx es d)
        (bindingFor ctx d) (deliveryDigestValue H d)"
      using guard [unfolded g] e ev
      by (simp add: entry_unsigned.defs unsignedEntry_def identity_def d_def)
    with guard [unfolded g] show ?entry
      unfolding d_def [symmetric] entryFor_def by (blast intro: sealEntry_eqI)
  next
    assume entry: ?entry
    then have eq: "e = entryFor H ctx es d" and nd: "cl_disposition (classifyFor H ctx es d) \<noteq> TRANSPORT_DUPLICATE"
      by (simp_all add: d_def)
    show ?guard
      unfolding g using entryFor_fields [of H ctx es d, folded eq] nd by (simp only: ev) blast
  qed
qed

subsection \<open>The replay loop\<close>

text \<open>An object with exactly the expected keys has the same content as the encoding, field by field.\<close>

lemma exact_norm:
  assumes "readExactDataObject v ks seen code = Inr (r, seen')" and "map fst kvs = ks" "distinct ks"
    and "\<And>k. k \<in> set ks \<Longrightarrow> js_norm (getf r k) = js_norm (getf kvs k)"
  shows "js_norm v = js_norm (JObj j kvs)"
proof -
  obtain i where v: "v = JObj i r" and len: "length r = length ks" and keys: "set (map fst r) = set ks"
    using assms(1) by (auto simp: readExactDataObject_Inr_iff)
  have "card (set (map fst r)) = length (map fst r)"
    using len keys assms(3) by (simp add: distinct_card)
  then have "distinct (map fst r)" by (rule card_distinct)
  then show ?thesis unfolding v using assms keys by (intro js_norm_objI) simp_all
qed

lemma normalizeEvidence_norm:
  assumes "normalizeSubmittedIdentityEvidence v seen code = Inr (e, seen')"
  shows "js_norm v = js_norm (evidence_js j e)"
proof -
  obtain r s where r: "readExactDataObject v SUBMITTED_IDENTITY_EVIDENCE_KEYS seen code = Inr (r, s)"
    and e: "getf r ''schemaVersion'' = JStr (schemaVersion e)" "getf r ''authoritative'' = JBool (authoritative e)"
      "has_identity r e"
    using assms by (auto simp: normalizeSubmittedIdentityEvidence_def res_simps)
  show ?thesis unfolding evidence_js_def
    by (rule exact_norm [OF r])
      (use e in \<open>auto simp: SUBMITTED_IDENTITY_EVIDENCE_KEYS_def has_identity_def id_fields_def\<close>)
qed

lemma normalizeEntry_norm:
  assumes "normalizeEntry v seen = Inr (e, seen')"
  shows "js_norm v = js_norm (entry_js j e)"
proof -
  obtain r s where r: "readExactDataObject v ENTRY_KEYS seen ENTRY_DENIED = Inr (r, s)"
    using assms by (auto simp: normalizeEntry_def res_bind_Inr_iff)
  have ev: "js_norm (getf r ''submittedIdentityEvidence'') = js_norm (evidence_js (j + 1) (submittedIdentityEvidence e))"
    using assms r by (auto simp: normalizeEntry_def res_simps dest: normalizeEvidence_norm)
  have id: "has_identity r e"
    using assms r by (auto simp: normalizeEntry_def res_simps)
  note f = assms [unfolded normalizeEntry_def r res_bind_simps split]
  show ?thesis unfolding entry_js_def
  proof (rule exact_norm [OF r])
    show "map fst (entryUnsigned_js j e @ [(''entryDigest'', JStr (entryDigest e))]) = ENTRY_KEYS"
      by (simp add: entryUnsigned_js_def ENTRY_KEYS_def)
    show "distinct ENTRY_KEYS" by (simp add: ENTRY_KEYS_def)
    fix k assume "k \<in> set ENTRY_KEYS"
    then show "js_norm (getf r k)
        = js_norm (getf (entryUnsigned_js j e @ [(''entryDigest'', JStr (entryDigest e))]) k)"
      using id f ev
      by (clarsimp simp: ENTRY_KEYS_def res_simps) (auto simp: entryUnsigned_js_def has_identity_def id_fields_def)
  qed
qed

lemma entries_js_norm: "map js_norm (entries_js i es) = map (\<lambda>e. js_norm (entry_js 0 e)) es"
proof -
  have "js_norm (entry_js i e) = js_norm (entry_js 0 e)" for i e
    by (simp add: entry_js_def entryUnsigned_js_def evidence_js_def)
  then show ?thesis by (induction es arbitrary: i) simp_all
qed

lemma replayEntries_sound:
  assumes "replayEntries H ctx replay raw seen (length es) n q (map_option entryDigest (at_last es))
      = Inr (es', n', q')"
    and "entries replay = es" "identity replay = identity ctx" "history H ctx es"
  shows "\<exists>new. es' = es @ new \<and> history H ctx es' \<and> n' = n + int (length new)
     \<and> q' = q + int (length (filter en_quarantined new))
     \<and> map js_norm raw = map (\<lambda>e. js_norm (entry_js 0 e)) new"
  using assms
proof (induction raw arbitrary: replay seen es n q)
  case Nil
  then show ?case by simp
next
  case (Cons v raw)
  then obtain e seen' where e: "normalizeEntry v seen = Inr (e, seen')"
    and guard: "replayGuard H ctx replay e (length es) (map_option entryDigest (at_last es))"
    and rest: "replayEntries H ctx (replay\<lparr>entries := es @ [e]\<rparr>) raw seen' (length (es @ [e]))
      (n + 1) (if en_quarantined e then q + 1 else q) (map_option entryDigest (at_last (es @ [e])))
      = Inr (es', n', q')"
    by (auto simp: res_simps)
  have wf: "entry_wf e" by (rule normalizeEntry_wf [OF e])
  then have "e = entryFor H ctx es (submittedEventFromEntry e)"
    "cl_disposition (classifyFor H ctx es (submittedEventFromEntry e)) \<noteq> TRANSPORT_DUPLICATE"
    using guard Cons.prems by (simp_all add: replayGuard_iff entry_wf_def)
  then have "history H ctx (es @ [e])"
    using history_snoc [OF Cons.prems(4) submittedEvent_wf [OF wf]] by simp
  moreover have "identity (replay\<lparr>entries := es @ [e]\<rparr>) = identity ctx"
    using Cons.prems(3) by (simp add: identity_def)
  ultimately obtain new where "es' = (es @ [e]) @ new" "history H ctx es'"
    "n' = n + 1 + int (length new)"
    "q' = (if en_quarantined e then q + 1 else q) + int (length (filter en_quarantined new))"
    "map js_norm raw = map (\<lambda>e. js_norm (entry_js 0 e)) new"
    using Cons.IH [OF rest] by auto
  with normalizeEntry_norm [OF e, of 0] show ?case
    by (intro exI [of _ "e # new"]) auto
qed

lemma replayEntries_complete:
  assumes "history H ctx (es @ new)" "\<forall>e \<in> set new. entry_wf e" "\<forall>s \<in> set seen. s < i"
    and "entries replay = es" "identity replay = identity ctx"
  shows "replayEntries H ctx replay (entries_js i new) seen (length es) n q
      (map_option entryDigest (at_last es))
      = Inr (es @ new, n + int (length new), q + int (length (filter en_quarantined new)))"
  using assms
proof (induction new arbitrary: replay seen es n q i)
  case Nil
  then show ?case by simp
next
  case (Cons e new)
  have wf: "entry_wf e" using Cons.prems(2) by simp
  have n: "normalizeEntry (entry_js i e) seen = Inr (e, (i + 2) # (i + 1) # i # seen)"
    using Cons.prems(3) by (intro normalizeEntry_entry_js [OF wf]) fastforce
  obtain d where d: "delivery_wf d" "e = entryFor H ctx es d"
    "cl_disposition (classifyFor H ctx es d) \<noteq> TRANSPORT_DUPLICATE"
    using history_entry [OF Cons.prems(1)] by blast
  have guard: "replayGuard H ctx replay e (length es) (map_option entryDigest (at_last es))"
    using wf d Cons.prems(4,5) submittedEvent_entryFor [OF d(1), of H ctx es]
    by (subst replayGuard_iff) (simp_all add: entry_wf_def)
  have "replayEntries H ctx (replay\<lparr>entries := es @ [e]\<rparr>) (entries_js (i + 3) new)
      ((i + 2) # (i + 1) # i # seen) (length (es @ [e])) (n + 1)
      (if en_quarantined e then q + 1 else q) (map_option entryDigest (at_last (es @ [e])))
    = Inr ((es @ [e]) @ new, n + 1 + int (length new),
        (if en_quarantined e then q + 1 else q) + int (length (filter en_quarantined new)))"
    using Cons.prems by (intro Cons.IH) (auto simp: identity_def)
  then show ?case using n guard Cons.prems(4) by simp
qed

subsection \<open>The ledger verifier\<close>

lemma caught_Some_iff [simp]: "caught x = Some y \<longleftrightarrow> x = Inr y"
  by (simp add: caught_def split: sum.split)

lemma ledger_extend_eq:
  assumes "schemaVersion b = CONTRIBUTION_INTAKE_LEDGER_SCHEMA_V1" "identity b = identity ctx"
  shows "identified.extend b \<lparr>lg_contextDigest = ctx_contextDigest ctx, entries = es,
     nextSequence = n, quarantineCount = q\<rparr> = emptyLedger ctx\<lparr>entries := es, nextSequence := n,
     quarantineCount := q\<rparr>"
  using assms by (simp add: emptyLedger_def identified.defs identity_def)

lemma readLedger_sound:
  assumes "readLedger H ctx v = Inr L"
  shows "\<exists>es. history H ctx es \<and> L = ledger_at H ctx es \<and> js_norm v = js_norm (ledger_js L)"
proof -
  obtain r seen1 raw seen2 base es n q where r: "readExactDataObject v LEDGER_KEYS [] LEDGER_DENIED = Inr (r, seen1)"
    and schema: "getf r ''schemaVersion'' = JStr CONTRIBUTION_INTAKE_LEDGER_SCHEMA_V1"
    and raw: "readDenseOrdinaryArray (getf r ''entries'') seen1 LEDGER_DENIED = Inr (raw, seen2)"
    and base: "readIdentity CONTRIBUTION_INTAKE_LEDGER_SCHEMA_V1 r LEDGER_DENIED = Inr base"
    and cd: "getf r ''contextDigest'' = JStr (ctx_contextDigest ctx)"
    and id: "identity base = identity ctx"
    and loop: "replayEntries H ctx (emptyLedger ctx\<lparr>entries := [], nextSequence := 1, quarantineCount := 0\<rparr>)
      raw seen2 0 1 0 None = Inr (es, n, q)"
    and counts: "getf r ''nextSequence'' = jint n" "getf r ''quarantineCount'' = jint q"
    and dg: "getf r ''ledgerDigest'' = JStr (ledgerDigestValue H
      (emptyLedger ctx\<lparr>entries := es, nextSequence := n, quarantineCount := q\<rparr>))"
    and L: "L = freezeVerifiedLedger H (emptyLedger ctx\<lparr>entries := es, nextSequence := n, quarantineCount := q\<rparr>)"
    using assms
    by (auto simp: readLedger_def res_simps Let_def identitiesMatchContext_iff ledger_extend_eq)
  have "\<exists>new. es = [] @ new \<and> history H ctx es \<and> n = 1 + int (length new)
     \<and> q = 0 + int (length (filter en_quarantined new))
     \<and> map js_norm raw = map (\<lambda>e. js_norm (entry_js 0 e)) new"
    by (rule replayEntries_sound [where replay = "emptyLedger ctx\<lparr>entries := [], nextSequence := 1,
        quarantineCount := 0\<rparr>" and seen = seen2])
      (use loop in \<open>simp_all add: history_Nil emptyLedger_def identity_def\<close>)
  then have es: "history H ctx es" "n = 1 + int (length es)" "q = int (length (filter en_quarantined es))"
    "map js_norm raw = map (\<lambda>e. js_norm (entry_js 0 e)) es"
    by auto
  then have L': "L = ledger_at H ctx es" by (simp add: L ledger_at_def add.commute)
  have "has_identity r L"
    using base has_identity_cong [of base L r] id by (simp add: readIdentity_Inr_iff L')
  moreover obtain k where "getf r ''entries'' = JArr k raw"
    using raw by (auto simp: readDenseOrdinaryArray_Inr_iff)
  moreover have "js_norm v = js_norm (JObj 0 ((''schemaVersion'', JStr (schemaVersion L)) # id_fields L @
     [(''contextDigest'', JStr (lg_contextDigest L)), (''entries'', JArr 1 (entries_js 2 (entries L))),
      (''nextSequence'', jint (nextSequence L)), (''quarantineCount'', jint (quarantineCount L)),
      (''ledgerDigest'', JStr (ledgerDigest L))]))"
  proof (rule exact_norm [OF r])
    fix x assume "x \<in> set LEDGER_KEYS"
    then show "js_norm (getf r x) = js_norm (getf ((''schemaVersion'', JStr (schemaVersion L)) # id_fields L @
     [(''contextDigest'', JStr (lg_contextDigest L)), (''entries'', JArr 1 (entries_js 2 (entries L))),
      (''nextSequence'', jint (nextSequence L)), (''quarantineCount'', jint (quarantineCount L)),
      (''ledgerDigest'', JStr (ledgerDigest L))]) x)"
      using schema cd counts dg es calculation
      by (auto simp: LEDGER_KEYS_def L id_fields_def has_identity_def entries_js_norm emptyLedger_def)
  qed (simp_all add: LEDGER_KEYS_def id_fields_def)
  ultimately show ?thesis using es L' by (auto simp: ledger_js_def)
qed

lemma readLedger_complete:
  assumes ctx: "trusted H ctx" and H: "\<forall>t. hex64 (H t)" and es: "history H ctx es"
    and len: "int (length es) < max_safe"
  shows "readLedger H ctx (ledger_js (ledger_at H ctx es)) = Inr (ledger_at H ctx es)"
proof -
  let ?L = "ledger_at H ctx es"
  obtain kvs where v: "ledger_js ?L = JObj 0 kvs" and kvs: "kvs = fields_of (ledger_js ?L)"
    by (simp add: ledger_js_def)
  have dig: "hex64 (digestDomain H dom v)" for dom v
    using H by (simp add: digestDomain_def digest_of_def)
  have "readExactDataObject (JObj 0 kvs) LEDGER_KEYS [] LEDGER_DENIED = Inr (kvs, [0])"
    by (intro readExactDataObject_same)
      (simp_all add: kvs ledger_js_def id_fields_def LEDGER_KEYS_def DANGEROUS_KEYS_def)
  moreover have "has_identity kvs ?L"
    by (simp add: kvs ledger_js_def has_identity_def id_fields_def)
  then have "readIdentity CONTRIBUTION_INTAKE_LEDGER_SCHEMA_V1 kvs LEDGER_DENIED = Inr (identified.truncate ?L)"
    using trusted_wf(2) [OF ctx] by (simp add: readIdentity_Inr_iff)
  moreover have count: "int (length (filter en_quarantined es)) \<le> max_safe"
    using length_filter_le [of en_quarantined es] len by linarith
  have "getf kvs ''schemaVersion'' = JStr CONTRIBUTION_INTAKE_LEDGER_SCHEMA_V1"
    "readDenseOrdinaryArray (getf kvs ''entries'') [0] LEDGER_DENIED = Inr (entries_js 2 es, [1, 0])"
    "assertDigest (getf kvs ''contextDigest'') LEDGER_DENIED = Inr (ctx_contextDigest ctx)"
    "assertSafePositiveInteger (getf kvs ''nextSequence'') LEDGER_DENIED = Inr (int (length es) + 1)"
    "assertSafeUnsignedInteger (getf kvs ''quarantineCount'') LEDGER_DENIED
       = Inr (int (length (filter en_quarantined es)))"
    "assertDigest (getf kvs ''ledgerDigest'') LEDGER_DENIED = Inr (ledgerDigestValue H ?L)"
    using len count by (simp_all add: kvs ledger_js_def id_fields_def res_simps trusted_wf(4) [OF ctx] dig
        ledgerDigestValue_def)
  moreover have "replayEntries H ctx (identified.extend (identified.truncate ?L)
      \<lparr>lg_contextDigest = ctx_contextDigest ctx, entries = [], nextSequence = 1, quarantineCount = 0\<rparr>)
      (entries_js 2 es) [1, 0] (length ([] :: entry list)) 1 0
      (map_option entryDigest (at_last ([] :: entry list)))
    = Inr ([] @ es, 1 + int (length es), 0 + int (length (filter en_quarantined es)))"
    using es history_entry_wf [OF es ctx H] len
    by (intro replayEntries_complete) (simp_all add: identified.defs identity_def)
  ultimately show ?thesis
    by (simp add: v readLedger_def identitiesMatchContext_iff ledger_extend_eq Let_def add.commute)
      (simp add: ledger_at_def add.commute)
qed

lemma verify_ledger_iff:
  assumes ctx: "trusted H ctx" and H: "\<forall>t. hex64 (H t)"
    and small: "int (length (entries L)) < max_safe"
  shows "verifyContributionIntakeLedgerV1 H ctx (ledger_js L) = Inr (Some L) \<longleftrightarrow> reachable H ctx L"
proof
  assume "verifyContributionIntakeLedgerV1 H ctx (ledger_js L) = Inr (Some L)"
  then have "readLedger H ctx (ledger_js L) = Inr L"
    by (simp add: verifyContributionIntakeLedgerV1_def res_simps)
  then show "reachable H ctx L"
    using readLedger_sound trusted_wf(1) [OF ctx] history_reachable by metis
next
  assume "reachable H ctx L"
  then obtain es where "history H ctx es" "L = ledger_at H ctx es" by (rule reachableE)
  with small show "verifyContributionIntakeLedgerV1 H ctx (ledger_js L) = Inr (Some L)"
    using readLedger_complete [OF ctx H] trusted_wf(1) [OF ctx]
    by (simp add: verifyContributionIntakeLedgerV1_def assertVerifiedContext_def)
qed

lemma verify_ledger_sound:
  assumes "verifyContributionIntakeLedgerV1 H ctx v = Inr (Some L)"
  shows "reachable H ctx L" "js_norm v = js_norm (ledger_js L)"
proof -
  have v: "readLedger H ctx v = Inr L" "verifiedContext ctx"
    using assms by (auto simp: verifyContributionIntakeLedgerV1_def assertVerifiedContext_def res_simps)
  show "reachable H ctx L"
    using readLedger_sound [OF v(1)] v(2) history_reachable by metis
  show "js_norm v = js_norm (ledger_js L)" using readLedger_sound [OF v(1)] by metis
qed

end
