(* ===== verification/IntakeHeads.thy ===== *)
theory IntakeHeads
  imports IntakeReplay
begin

text \<open>
  The pull-request heads of a ledger. The heads that were appended form one line of succession:
  they are distinct, arrive in time order, and each names the one it replaces. \<open>head_status_spec\<close>
  reads the status of a head off that line; the code's search for a displacing entry agrees
  with it on every history.
\<close>

subsection \<open>The line of succession\<close>

definition appended :: "entry list \<Rightarrow> entry list" where
  "appended es = filter is_appended es"

lemma appended_append [simp]:
  "appended [] = []" "appended (es @ fs) = appended es @ appended fs"
  "appended [e] = (if is_appended e then [e] else [])"
  by (simp_all add: appended_def)

lemma set_appended: "set (appended es) = {e \<in> set es. is_appended e}"
  by (auto simp: appended_def)

lemma currentHead_appended: "currentHeadInternal L = at_last (appended (entries L))"
  by (simp add: currentHeadInternal_def appended_def find_last_filter)

text \<open>Entry \<open>b\<close> displaces entry \<open>a\<close>, and says truly whether it descends from it.\<close>

definition displaces :: "entry \<Rightarrow> entry \<Rightarrow> bool" where
  "displaces b a \<longleftrightarrow> en_replacedHeadDigest b = Some (en_headDigest a)
     \<and> (PR_HEAD_SUPERSESSION \<in> set (en_reasonCodes b) \<longleftrightarrow> en_ancestorDigest b = Some (en_headDigest a))"

fun linked :: "entry list \<Rightarrow> bool" where
  "linked (a # b # as) \<longleftrightarrow> displaces b a \<and> linked (b # as)"
| "linked as = True"

lemma linked_snoc:
  "linked (as @ [b]) \<longleftrightarrow> linked as \<and> (\<forall>a. at_last as = Some a \<longrightarrow> displaces b a)"
  by (induction as rule: linked.induct) (auto simp: at_last_def)

lemma classify_displaces:
  assumes "cl_disposition (classifyNormalized L d b dd) = APPENDED" "currentHeadInternal L = Some c"
  shows "PR_HEAD_SUPERSESSION \<in> set (cl_reasonCodes (classifyNormalized L d b dd))
     \<longleftrightarrow> ancestorDigest d = Some (en_headDigest c)"
  using assms
  by (auto simp: classifyNormalized_def frozenClassification_def split: option.splits if_splits)

lemma history_line:
  assumes "history H ctx es"
  shows "distinct (map en_headDigest (appended es))" "sorted (map en_receivedAtMs (appended es))"
    "linked (appended es)"
    "appended es \<noteq> [] \<Longrightarrow> en_replacedHeadDigest (hd (appended es)) = None"
    "e \<in> set (appended es) \<Longrightarrow> submittedIdentityBinding e = CONTEXT_MATCH"
    "e \<in> set (appended es) \<Longrightarrow> en_receivedAtMs e \<le> en_receivedAtMs (last (appended es))"
proof -
  have "distinct (map en_headDigest (appended es)) \<and> sorted (map en_receivedAtMs (appended es))
    \<and> linked (appended es)
    \<and> (appended es \<noteq> [] \<longrightarrow> en_replacedHeadDigest (hd (appended es)) = None)
    \<and> (\<forall>e \<in> set (appended es). submittedIdentityBinding e = CONTEXT_MATCH
         \<and> en_receivedAtMs e \<le> en_receivedAtMs (last (appended es)))"
    using assms
  proof (induction rule: history.induct)
    case (history_snoc es d)
    let ?e = "entryFor H ctx es d" and ?L = "ledger_at H ctx es"
    show ?case
    proof (cases "is_appended ?e")
      case True
      then have c: "cl_disposition (classifyNormalized ?L d (bindingFor ctx d) (deliveryDigestValue H d)) = APPENDED"
        by (simp add: is_appended_def classifyFor_def)
      note facts = classifyNormalized_appended [OF c]
      have new: "en_headDigest ?e \<notin> set (map en_headDigest (appended es))"
        using facts(3) by (auto simp: set_appended)
      have repl: "en_replacedHeadDigest ?e = map_option en_headDigest (at_last (appended es))"
        using facts(4) by (simp add: currentHead_appended classifyFor_def)
      have disp: "displaces ?e a" if "at_last (appended es) = Some a" for a
        using that repl classify_displaces [OF c, of a]
        by (simp add: displaces_def currentHead_appended classifyFor_def)
      have time: "en_receivedAtMs e \<le> en_receivedAtMs ?e" if "e \<in> set (appended es)" for e
      proof -
        have "appended es \<noteq> []" using that by auto
        then have "at_last (appended es) = Some (last (appended es))" by (simp add: at_last_def)
        then have "en_receivedAtMs (last (appended es)) \<le> receivedAtMs d"
          using facts(5) by (simp add: currentHead_appended)
        moreover have "en_receivedAtMs e \<le> en_receivedAtMs (last (appended es))"
          using history_snoc.IH that by blast
        ultimately show ?thesis by simp
      qed
      show ?thesis
        using history_snoc.IH True new repl disp time facts(1)
        by (cases "appended es = []") (auto simp: linked_snoc sorted_append)
    next
      case False
      then show ?thesis using history_snoc.IH by simp
    qed
  qed simp
  then show "distinct (map en_headDigest (appended es))" "sorted (map en_receivedAtMs (appended es))"
    "linked (appended es)"
    "appended es \<noteq> [] \<Longrightarrow> en_replacedHeadDigest (hd (appended es)) = None"
    "e \<in> set (appended es) \<Longrightarrow> submittedIdentityBinding e = CONTEXT_MATCH"
    "e \<in> set (appended es) \<Longrightarrow> en_receivedAtMs e \<le> en_receivedAtMs (last (appended es))"
    by blast+
qed

subsection \<open>The status of a head\<close>

fun head_status_spec :: "entry list \<Rightarrow> string \<Rightarrow> head_status" where
  "head_status_spec [] h = UNKNOWN"
| "head_status_spec [a] h = (if en_headDigest a = h then CURRENT else UNKNOWN)"
| "head_status_spec (a # b # as) h =
     (if en_headDigest a = h
      then (if en_ancestorDigest b = Some h then SUPERSEDED else INVALIDATED)
      else head_status_spec (b # as) h)"

lemma head_status_search:
  assumes "linked as" "distinct (map en_headDigest as)" "as \<noteq> []"
    "en_replacedHeadDigest (hd as) \<noteq> Some h"
  shows "(if en_headDigest (last as) = h then CURRENT
      else (case List.find (\<lambda>e. en_replacedHeadDigest e = Some h) as of
              None \<Rightarrow> UNKNOWN
            | Some displacer \<Rightarrow>
                if PR_HEAD_SUPERSESSION \<in> set (en_reasonCodes displacer) then SUPERSEDED
                else INVALIDATED)) = head_status_spec as h"
  using assms
proof (induction as h rule: head_status_spec.induct)
  case (3 a b as h)
  let ?case_at = "\<lambda>as. (if en_headDigest (last as) = h then CURRENT
      else (case List.find (\<lambda>e. en_replacedHeadDigest e = Some h) as of
              None \<Rightarrow> UNKNOWN
            | Some displacer \<Rightarrow>
                if PR_HEAD_SUPERSESSION \<in> set (en_reasonCodes displacer) then SUPERSEDED
                else INVALIDATED)) = head_status_spec as h"
  show ?case
  proof (cases "en_headDigest a = h")
    case True
    have "last (b # as) \<in> set (b # as)" by (rule last_in_set) simp
    then have "en_headDigest (last (b # as)) \<in> set (map en_headDigest (b # as))" by simp
    then have "en_headDigest (last (b # as)) \<noteq> h" using "3.prems"(2) True by (metis distinct.simps(2) list.simps(9))
    with True show ?thesis using "3.prems" by (auto simp: displaces_def)
  next
    case False
    then have "en_replacedHeadDigest b \<noteq> Some h" using "3.prems"(1) by (simp add: displaces_def)
    then have ih: "?case_at (b # as)" using "3.prems" by (intro "3.IH" [OF False]) simp_all
    have "List.find (\<lambda>e. en_replacedHeadDigest e = Some h) (a # b # as)
        = List.find (\<lambda>e. en_replacedHeadDigest e = Some h) (b # as)"
      "last (a # b # as) = last (b # as)" "head_status_spec (a # b # as) h = head_status_spec (b # as) h"
      using "3.prems"(4) False by simp_all
    then show ?thesis using ih by (simp only:)
  qed
qed simp_all

lemma headStatus_spec:
  assumes "history H ctx es"
  shows "headStatusInternal (ledger_at H ctx es) h = head_status_spec (appended es) h"
proof (cases "appended es = []")
  case True
  then show ?thesis by (simp add: headStatusInternal_def appended_def)
next
  case False
  then have l: "at_last (appended es) = Some (last (appended es))"
    by (simp add: at_last_def)
  show ?thesis
    using head_status_search [of "appended es" h] history_line(1,3,4) [OF assms] False
    unfolding headStatusInternal_def Let_def ledger_at_simps appended_def [symmetric] l by simp
qed

lemma head_status_spec_UNKNOWN:
  "head_status_spec as h = UNKNOWN \<longleftrightarrow> h \<notin> set (map en_headDigest as)"
  by (induction as h rule: head_status_spec.induct) auto

lemma head_status_spec_CURRENT:
  assumes "distinct (map en_headDigest as)"
  shows "head_status_spec as h = CURRENT \<longleftrightarrow> map_option en_headDigest (at_last as) = Some h"
  using assms
proof (induction as h rule: head_status_spec.induct)
  case (3 a b as h)
  have "last (b # as) \<in> set (b # as)" by (rule last_in_set) simp
  then have "en_headDigest (last (b # as)) \<in> set (map en_headDigest (b # as))" by simp
  then have "en_headDigest (last (b # as)) \<noteq> en_headDigest a"
    using "3.prems" by (metis distinct.simps(2) list.simps(9))
  with 3 show ?case by (auto simp: at_last_def)
qed (auto simp: at_last_def)

text \<open>One more head: the line of a head that is no longer the last one does not change.\<close>

lemma head_status_spec_snoc:
  assumes "h \<notin> set (map en_headDigest as) \<or> en_headDigest b \<noteq> h"
  shows "head_status_spec (as @ [b]) h =
    (if h \<notin> set (map en_headDigest as) then if en_headDigest b = h then CURRENT else UNKNOWN
     else if head_status_spec as h = CURRENT
          then if en_ancestorDigest b = Some h then SUPERSEDED else INVALIDATED
     else head_status_spec as h)"
  using assms by (induction as h rule: head_status_spec.induct) auto

end
