(* ===== verification/HashChain.thy ===== *)
theory HashChain
  imports Digests
begin

text \<open>
  Append-only, hash-chained logs. \<open>hash_chain body seal prev\<close> is the interface the intake ledger
  and the audit timeline share: a record carries the digest \<open>seal\<close> of a text \<open>body\<close> that covers
  everything else in it, including the digest \<open>prev\<close> of the record before. Its client is the
  integrity law of the log: the last digest pins the whole history, unless the hash collides on
  two of the texts of the two logs.
\<close>

locale hash_chain =
  fixes body :: "'a \<Rightarrow> string" and seal :: "'a \<Rightarrow> string" and prev :: "'a \<Rightarrow> string option"
  assumes body_binds: "body x = body y \<Longrightarrow> seal x = seal y \<Longrightarrow> x = y"
begin

definition chained :: "hash \<Rightarrow> 'a list \<Rightarrow> bool" where
  "chained H xs \<longleftrightarrow> (\<forall>ys x zs. xs = ys @ x # zs \<longrightarrow>
     seal x = H (body x) \<and> prev x = map_option seal (at_last ys))"

lemma chained_Nil [simp]: "chained H []"
  by (simp add: chained_def)

lemma chained_snoc [simp]:
  "chained H (xs @ [x]) \<longleftrightarrow>
     chained H xs \<and> seal x = H (body x) \<and> prev x = map_option seal (at_last xs)"
proof
  assume c: "chained H (xs @ [x])"
  then have "seal x = H (body x) \<and> prev x = map_option seal (at_last xs)"
    unfolding chained_def by blast
  moreover have "chained H xs"
    unfolding chained_def
  proof (intro allI impI)
    fix ys y zs assume "xs = ys @ y # zs"
    then have "xs @ [x] = ys @ y # (zs @ [x])" by simp
    with c show "seal y = H (body y) \<and> prev y = map_option seal (at_last ys)"
      unfolding chained_def by blast
  qed
  ultimately show "chained H xs \<and> seal x = H (body x) \<and> prev x = map_option seal (at_last xs)"
    by blast
next
  assume c: "chained H xs \<and> seal x = H (body x) \<and> prev x = map_option seal (at_last xs)"
  show "chained H (xs @ [x])"
    unfolding chained_def
  proof (intro allI impI)
    fix ys y zs assume "xs @ [x] = ys @ y # zs"
    then consider "ys = xs" "y = x" | zs' where "xs = ys @ y # zs'"
      by (cases zs rule: rev_cases) auto
    then show "seal y = H (body y) \<and> prev y = map_option seal (at_last ys)"
      using c unfolding chained_def by cases blast+
  qed
qed

lemma last_binds:
  assumes "chained H xs" "chained H ys"
    and "map_option seal (at_last xs) = map_option seal (at_last ys)"
    and "inj_on H (body ` (set xs \<union> set ys))"
  shows "xs = ys"
  using assms
proof (induction xs arbitrary: ys rule: rev_induct)
  case Nil
  then show ?case by simp
next
  case (snoc x xs)
  then obtain ys' y where ys: "ys = ys' @ [y]" by (cases ys rule: rev_cases) auto
  have seal: "seal x = seal y" using snoc.prems(3) by (simp add: ys)
  then have "H (body x) = H (body y)" using snoc.prems(1,2) by (simp add: ys)
  then have "body x = body y" by (rule inj_onD [OF snoc.prems(4)]) (simp_all add: ys)
  then have "x = y" using seal by (rule body_binds)
  moreover have "xs = ys'"
  proof (rule snoc.IH)
    show "chained H xs" "chained H ys'" using snoc.prems by (simp_all add: ys)
    show "map_option seal (at_last xs) = map_option seal (at_last ys')"
      using snoc.prems(1,2) \<open>x = y\<close> by (simp add: ys)
    show "inj_on H (body ` (set xs \<union> set ys'))"
      using snoc.prems(4) by (rule inj_on_subset) (auto simp: ys)
  qed
  ultimately show ?case by (simp add: ys)
qed

end

end
