(* ===== verification/IntakeSteps.thy ===== *)
theory IntakeSteps
  imports IntakeHeads HashChain
begin

text \<open>
  Properties of runs of the intake module: how one ingestion changes the ledger and the status of
  every head, redelivery, receipts, and the integrity of the hash chain.
\<close>

subsection \<open>Steps\<close>

inductive step :: "hash \<Rightarrow> trust_context \<Rightarrow> ledger \<Rightarrow> ledger \<Rightarrow> bool" for H ctx where
  stepI: "ingestContributionDeliveryV1 H ctx L v = Inr (L', r) \<Longrightarrow> step H ctx L L'"

inductive_cases stepE: "step H ctx L L'"

lemma step_reachable: "step H ctx L L' \<Longrightarrow> reachable H ctx L \<Longrightarrow> reachable H ctx L'"
  by (auto elim: stepE intro: ingest)

lemma steps_reachable: "(step H ctx)\<^sup>*\<^sup>* L L' \<Longrightarrow> reachable H ctx L \<Longrightarrow> reachable H ctx L'"
  by (induction rule: rtranclp_induct) (auto intro: step_reachable)

text \<open>One ingestion, as a case distinction on the classification of the delivery.\<close>

lemma ingest_cases:
  assumes "reachable H ctx L" "ingestContributionDeliveryV1 H ctx L v = Inr (L', r)"
  obtains
    (duplicate) es d seen prior where "history H ctx es" "L = ledger_at H ctx es" "L' = L"
      "normalizeDelivery v [] = Inr (d, seen)" "delivery_wf d"
      "cl_disposition (classifyFor H ctx es d) = TRANSPORT_DUPLICATE"
      "prior \<in> set es" "en_deliveryId prior = deliveryId d"
      "en_deliveryDigest prior = deliveryDigestValue H d"
      "r = receiptFor H ctx es d (en_sequence prior)"
  | (appends) es d seen where "history H ctx es" "L = ledger_at H ctx es"
      "normalizeDelivery v [] = Inr (d, seen)" "delivery_wf d"
      "cl_disposition (classifyFor H ctx es d) \<noteq> TRANSPORT_DUPLICATE"
      "L' = ledger_at H ctx (es @ [entryFor H ctx es d])"
      "history H ctx (es @ [entryFor H ctx es d])"
      "r = receiptFor H ctx es d (int (length es) + 1)"
proof -
  obtain es where es: "history H ctx es" "L = ledger_at H ctx es"
    using assms(1) by (rule reachableE)
  obtain d seen where d: "normalizeDelivery v [] = Inr (d, seen)"
    and i: "ingestEvent H ctx (ledger_at H ctx es) d = Inr (L', r)"
    using assms(2) es by (auto simp: ingestContributionDeliveryV1_def res_simps)
  have wf: "delivery_wf d" by (rule normalizeDelivery_wf [OF d])
  show thesis
  proof (cases "cl_disposition (classifyFor H ctx es d) = TRANSPORT_DUPLICATE")
    case True
    then obtain prior where p: "prior \<in> set es" "en_deliveryId prior = deliveryId d"
      "en_deliveryDigest prior = deliveryDigestValue H d"
      "ingestEvent H ctx (ledger_at H ctx es) d =
       Inr (ledger_at H ctx es, receiptFor H ctx es d (en_sequence prior))"
      by (rule ingestEvent_duplicate)
    have "L' = L" "r = receiptFor H ctx es d (en_sequence prior)" using i p(4) es by simp_all
    from duplicate [OF es this(1) d wf True p(1-3) this(2)] show ?thesis .
  next
    case False
    have "L' = ledger_at H ctx (es @ [entryFor H ctx es d])"
      "r = receiptFor H ctx es d (int (length es) + 1)"
      using i ingestEvent_append [OF False] by simp_all
    from appends [OF es d wf False this(1) history_snoc [OF es(1) wf False] this(2)] show ?thesis .
  qed
qed

lemma ingest_total:
  assumes "reachable H ctx L" "normalizeDelivery v [] = Inr (d, seen)"
  shows "\<exists>L' r. ingestContributionDeliveryV1 H ctx L v = Inr (L', r)"
proof -
  obtain es where es: "verifiedContext ctx" "L = ledger_at H ctx es"
    using assms(1) by (rule reachableE)
  then have i: "ingestContributionDeliveryV1 H ctx L v = ingestEvent H ctx (ledger_at H ctx es) d"
    using assms(2) by (simp add: ingestContributionDeliveryV1_def)
  show ?thesis
  proof (cases "cl_disposition (classifyFor H ctx es d) = TRANSPORT_DUPLICATE")
    case True
    then show ?thesis by (rule ingestEvent_duplicate) (auto simp: i)
  qed (simp add: i ingestEvent_append)
qed

lemma step_entries:
  assumes "step H ctx L L'" "reachable H ctx L"
  shows "\<exists>new. entries L' = entries L @ new"
proof -
  obtain v r where i: "ingestContributionDeliveryV1 H ctx L v = Inr (L', r)"
    using assms(1) by (rule stepE)
  show ?thesis by (rule ingest_cases [OF assms(2) i]) simp_all
qed

lemma steps_entries:
  assumes "(step H ctx)\<^sup>*\<^sup>* L L'" "reachable H ctx L"
  shows "\<exists>new. entries L' = entries L @ new"
  using assms
proof (induction rule: rtranclp_induct)
  case (step y z)
  then show ?case
    using step_entries [OF step.hyps(2) steps_reachable [OF step.hyps(1) step.prems]] by auto
qed simp

subsection \<open>The status of a head over a step\<close>

text \<open>
  The life of a head: it becomes current once, is then superseded or invalidated, and stays so.
\<close>

fun status_step :: "head_status \<Rightarrow> head_status \<Rightarrow> bool" where
  "status_step UNKNOWN s' = (s' \<in> {UNKNOWN, CURRENT})"
| "status_step CURRENT s' = (s' \<in> {CURRENT, SUPERSEDED, INVALIDATED})"
| "status_step s s' = (s' = s)"

lemma status_step_refl [simp]: "status_step s s"
  by (cases s) simp_all

lemma ingest_status:
  assumes "reachable H ctx L" "ingestContributionDeliveryV1 H ctx L v = Inr (L', r)"
  shows "status_step (headStatusInternal L h) (headStatusInternal L' h)"
  using assms
proof (cases rule: ingest_cases)
  case (appends es d seen)
  let ?e = "entryFor H ctx es d"
  have s: "headStatusInternal L h = head_status_spec (appended es) h"
    "headStatusInternal L' h = head_status_spec (appended (es @ [?e])) h"
    using appends by (simp_all only: headStatus_spec)
  show ?thesis
  proof (cases "is_appended ?e")
    case True
    have "distinct (map en_headDigest (appended (es @ [?e])))"
      by (rule history_line(1) [OF appends(7)])
    then have "h \<notin> set (map en_headDigest (appended es)) \<or> en_headDigest ?e \<noteq> h"
      using True by auto
    from head_status_spec_snoc [OF this] show ?thesis
      using True head_status_spec_UNKNOWN [of "appended es" h]
      by (cases "head_status_spec (appended es) h") (auto simp: s)
  next
    case False
    then show ?thesis by (simp add: s)
  qed
qed simp

subsection \<open>Redelivery\<close>

text \<open>A delivery is recorded once: its id and its digest determine the entry.\<close>

lemma history_unique:
  assumes "history H ctx es"
  shows "distinct (map (\<lambda>e. (en_deliveryId e, en_deliveryDigest e)) es)"
  using assms
proof (induction rule: history.induct)
  case (history_snoc es d)
  then have "\<not> (\<exists>e \<in> set es. en_deliveryId e = deliveryId d \<and> en_deliveryDigest e = deliveryDigestValue H d)"
    by (simp add: classifyFor_def classifyNormalized_duplicate_iff)
  with history_snoc.IH show ?case by auto
qed simp

lemma history_same:
  assumes "history H ctx es" "e \<in> set es" "f \<in> set es"
    "en_deliveryId e = en_deliveryId f" "en_deliveryDigest e = en_deliveryDigest f"
  shows "e = f"
  using history_unique [OF assms(1)] assms(2-) by (auto simp: distinct_map inj_on_def)

lemma redelivery:
  assumes es: "history H ctx es" "verifiedContext ctx" and d: "normalizeDelivery v [] = Inr (d, seen)"
    and prior: "prior \<in> set es" "en_deliveryId prior = deliveryId d"
      "en_deliveryDigest prior = deliveryDigestValue H d"
  shows "ingestContributionDeliveryV1 H ctx (ledger_at H ctx es) v
      = Inr (ledger_at H ctx es, receiptFor H ctx es d (en_sequence prior))"
    "rc_disposition (receiptFor H ctx es d (en_sequence prior)) = TRANSPORT_DUPLICATE"
proof -
  have c: "cl_disposition (classifyFor H ctx es d) = TRANSPORT_DUPLICATE"
    using prior by (auto simp: classifyFor_def classifyNormalized_duplicate_iff)
  then obtain p where p: "p \<in> set es" "en_deliveryId p = deliveryId d"
    "en_deliveryDigest p = deliveryDigestValue H d"
    "ingestEvent H ctx (ledger_at H ctx es) d =
       Inr (ledger_at H ctx es, receiptFor H ctx es d (en_sequence p))"
    by (rule ingestEvent_duplicate)
  have "p = prior" by (rule history_same [OF es(1) p(1) prior(1)]) (simp_all add: p prior)
  with p(4) show "ingestContributionDeliveryV1 H ctx (ledger_at H ctx es) v
      = Inr (ledger_at H ctx es, receiptFor H ctx es d (en_sequence prior))"
    using es d by (simp add: ingestContributionDeliveryV1_def)
  show "rc_disposition (receiptFor H ctx es d (en_sequence prior)) = TRANSPORT_DUPLICATE"
    using c by (simp add: receiptFor_def buildReceipt_def Let_def receipt_unsigned.defs receipt.defs)
qed

end
