(* ===== verification/IntakeReceipts.thy ===== *)
theory IntakeReceipts
  imports IntakeSteps
begin

text \<open>
  Receipts: the verifier reads back exactly the receipts the module issues. A receipt that
  verifies names an entry of the ledger and repeats what that entry says.
\<close>

subsection \<open>Building receipts\<close>

lemma buildReceipt_simps [simp]:
  "schemaVersion (buildReceipt H ctx d n c b dd) = CONTRIBUTION_INTAKE_RECEIPT_SCHEMA_V1"
  "identity (buildReceipt H ctx d n c b dd) = identity ctx"
  "identity_wf (buildReceipt H ctx d n c b dd) = identity_wf ctx"
  "rc_contextDigest (buildReceipt H ctx d n c b dd) = ctx_contextDigest ctx"
  "rc_submittedIdentityEvidence (buildReceipt H ctx d n c b dd) = submittedIdentityEvidenceFromDelivery d"
  "rc_submittedIdentityEvidenceDigest (buildReceipt H ctx d n c b dd)
     = submittedIdentityEvidenceDigestValue H (submittedIdentityEvidenceFromDelivery d)"
  "rc_submittedIdentityBinding (buildReceipt H ctx d n c b dd) = b"
  "rc_deliveryId (buildReceipt H ctx d n c b dd) = deliveryId d"
  "rc_headDigest (buildReceipt H ctx d n c b dd) = headDigest d"
  "rc_sequence (buildReceipt H ctx d n c b dd) = n"
  "rc_disposition (buildReceipt H ctx d n c b dd) = cl_disposition c"
  "rc_reasonCodes (buildReceipt H ctx d n c b dd) = cl_reasonCodes c"
  "rc_quarantined (buildReceipt H ctx d n c b dd) = cl_quarantined c"
  "rc_deliveryDigest (buildReceipt H ctx d n c b dd) = dd"
  by (simp_all add: buildReceipt_def Let_def receipt_unsigned.defs receipt.defs identity_def identity_wf_def)

lemma receiptDigestValue_truncate:
  "receiptDigestValue H (receipt_unsigned.truncate r) = receiptDigestValue H r"
  by (simp add: receiptDigestValue_def receiptUnsigned_def receiptUnsigned_js_def receipt_unsigned.defs)

lemma buildReceipt_digest [simp]:
  "receiptDigest (buildReceipt H ctx d n c b dd) = receiptDigestValue H (buildReceipt H ctx d n c b dd)"
  using receiptDigestValue_truncate [of H "buildReceipt H ctx d n c b dd"]
  by (simp add: buildReceipt_def Let_def receipt_unsigned.defs receipt.defs)

subsection \<open>Reading receipts back\<close>

definition receipt_wf :: "receipt \<Rightarrow> bool" where
  "receipt_wf r \<longleftrightarrow>
     schemaVersion r = CONTRIBUTION_INTAKE_RECEIPT_SCHEMA_V1 \<and> identity_wf r
     \<and> hex64 (rc_contextDigest r) \<and> evidence_wf (rc_submittedIdentityEvidence r)
     \<and> hex64 (rc_submittedIdentityEvidenceDigest r) \<and> rx_test DELIVERY_ID_PATTERN (rc_deliveryId r)
     \<and> hex64 (rc_headDigest r) \<and> 1 \<le> rc_sequence r \<and> rc_sequence r \<le> max_safe
     \<and> reasons_wf (rc_reasonCodes r) \<and> hex64 (rc_deliveryDigest r) \<and> hex64 (receiptDigest r)"

lemma receipt_more_simps [simp]:
  "rc_contextDigest (identified.extend b (receipt_unsigned_ext a1 a2 a3 a4 a5 a6 a7 a8 a9 a10 a11 m)) = a1"
  "rc_submittedIdentityEvidence (identified.extend b (receipt_unsigned_ext a1 a2 a3 a4 a5 a6 a7 a8 a9 a10 a11 m)) = a2"
  "rc_submittedIdentityEvidenceDigest (identified.extend b (receipt_unsigned_ext a1 a2 a3 a4 a5 a6 a7 a8 a9 a10 a11 m)) = a3"
  "rc_submittedIdentityBinding (identified.extend b (receipt_unsigned_ext a1 a2 a3 a4 a5 a6 a7 a8 a9 a10 a11 m)) = a4"
  "rc_deliveryId (identified.extend b (receipt_unsigned_ext a1 a2 a3 a4 a5 a6 a7 a8 a9 a10 a11 m)) = a5"
  "rc_headDigest (identified.extend b (receipt_unsigned_ext a1 a2 a3 a4 a5 a6 a7 a8 a9 a10 a11 m)) = a6"
  "rc_sequence (identified.extend b (receipt_unsigned_ext a1 a2 a3 a4 a5 a6 a7 a8 a9 a10 a11 m)) = a7"
  "rc_disposition (identified.extend b (receipt_unsigned_ext a1 a2 a3 a4 a5 a6 a7 a8 a9 a10 a11 m)) = a8"
  "rc_reasonCodes (identified.extend b (receipt_unsigned_ext a1 a2 a3 a4 a5 a6 a7 a8 a9 a10 a11 m)) = a9"
  "rc_quarantined (identified.extend b (receipt_unsigned_ext a1 a2 a3 a4 a5 a6 a7 a8 a9 a10 a11 m)) = a10"
  "rc_deliveryDigest (identified.extend b (receipt_unsigned_ext a1 a2 a3 a4 a5 a6 a7 a8 a9 a10 a11 m)) = a11"
  "receiptDigest (identified.extend b (receipt_unsigned_ext a1 a2 a3 a4 a5 a6 a7 a8 a9 a10 a11 (receipt_ext d u))) = d"
  by (simp_all add: identified.defs)

lemma receipt_extend_eq:
  "r = identified.extend (identified.truncate r) \<lparr>rc_contextDigest = rc_contextDigest r,
     rc_submittedIdentityEvidence = rc_submittedIdentityEvidence r,
     rc_submittedIdentityEvidenceDigest = rc_submittedIdentityEvidenceDigest r,
     rc_submittedIdentityBinding = rc_submittedIdentityBinding r, rc_deliveryId = rc_deliveryId r,
     rc_headDigest = rc_headDigest r, rc_sequence = rc_sequence r,
     rc_disposition = rc_disposition r, rc_reasonCodes = rc_reasonCodes r,
     rc_quarantined = rc_quarantined r, rc_deliveryDigest = rc_deliveryDigest r,
     receiptDigest = receiptDigest r\<rparr>" for r :: receipt
  by (simp add: identified.defs)

lemma normalizeReceipt_receipt_js:
  assumes wf: "receipt_wf r"
  shows "normalizeReceipt (receipt_js 0 r) = Inr r"
proof -
  obtain kvs where v: "receipt_js 0 r = JObj 0 kvs" and kvs: "kvs = fields_of (receipt_js 0 r)"
    by (simp add: receipt_js_def)
  have "readExactDataObject (JObj 0 kvs) RECEIPT_KEYS [] RECEIPT_DENIED = Inr (kvs, [0])"
    by (intro readExactDataObject_same)
      (simp_all add: kvs receipt_js_def receiptUnsigned_js_def RECEIPT_KEYS_def DANGEROUS_KEYS_def)
  moreover have "has_identity kvs r"
    by (simp add: kvs receipt_js_def receiptUnsigned_js_def has_identity_def id_fields_def)
  then have "readIdentity CONTRIBUTION_INTAKE_RECEIPT_SCHEMA_V1 kvs RECEIPT_DENIED = Inr (identified.truncate r)"
    using wf by (simp add: readIdentity_Inr_iff receipt_wf_def)
  moreover have "normalizeSubmittedIdentityEvidence (getf kvs ''submittedIdentityEvidence'') [0]
      RECEIPT_DENIED = Inr (rc_submittedIdentityEvidence r, [1, 0])"
    using wf normalizeEvidence_evidence_js [of "rc_submittedIdentityEvidence r" 1 "[0]"]
    by (simp add: kvs receipt_js_def receiptUnsigned_js_def receipt_wf_def)
  moreover have "normalizeReasonCodes (getf kvs ''reasonCodes'') [1, 0] RECEIPT_DENIED
      = Inr (rc_reasonCodes r, [2, 1, 0])"
    using wf by (simp add: kvs receipt_js_def receiptUnsigned_js_def receipt_wf_def normalizeReasonCodes_Inr_iff)
  moreover have
    "getf kvs ''schemaVersion'' = JStr CONTRIBUTION_INTAKE_RECEIPT_SCHEMA_V1"
    "assertBoolean (getf kvs ''quarantined'') RECEIPT_DENIED = Inr (rc_quarantined r)"
    "assertDigest (getf kvs ''contextDigest'') RECEIPT_DENIED = Inr (rc_contextDigest r)"
    "assertDigest (getf kvs ''submittedIdentityEvidenceDigest'') RECEIPT_DENIED
      = Inr (rc_submittedIdentityEvidenceDigest r)"
    "assertSubmittedIdentityBinding (getf kvs ''submittedIdentityBinding'') RECEIPT_DENIED
      = Inr (rc_submittedIdentityBinding r)"
    "assertString (getf kvs ''deliveryId'') DELIVERY_ID_PATTERN RECEIPT_DENIED = Inr (rc_deliveryId r)"
    "assertDigest (getf kvs ''headDigest'') RECEIPT_DENIED = Inr (rc_headDigest r)"
    "assertSafePositiveInteger (getf kvs ''sequence'') RECEIPT_DENIED = Inr (rc_sequence r)"
    "assertDisposition (getf kvs ''disposition'') RECEIPT_DENIED = Inr (rc_disposition r)"
    "assertDigest (getf kvs ''deliveryDigest'') RECEIPT_DENIED = Inr (rc_deliveryDigest r)"
    "assertDigest (getf kvs ''receiptDigest'') RECEIPT_DENIED = Inr (receiptDigest r)"
    using wf by (simp_all add: kvs receipt_js_def receiptUnsigned_js_def receipt_wf_def res_simps)
  ultimately show ?thesis
    using receipt_extend_eq [of r] by (simp add: v normalizeReceipt_def)
qed

lemma normalizeReceipt_wf: "normalizeReceipt v = Inr r \<Longrightarrow> receipt_wf r"
  by (clarsimp simp: normalizeReceipt_def res_simps) (simp add: receipt_wf_def normalizeEvidence_wf)

lemma normalizeReceipt_norm:
  assumes "normalizeReceipt v = Inr r"
  shows "js_norm v = js_norm (receipt_js j r)"
proof -
  obtain kvs s where kvs: "readExactDataObject v RECEIPT_KEYS [] RECEIPT_DENIED = Inr (kvs, s)"
    using assms by (auto simp: normalizeReceipt_def res_bind_Inr_iff)
  have ev: "js_norm (getf kvs ''submittedIdentityEvidence'')
      = js_norm (evidence_js (j + 1) (rc_submittedIdentityEvidence r))"
    using assms kvs by (auto simp: normalizeReceipt_def res_simps dest: normalizeEvidence_norm)
  have id: "has_identity kvs r"
    using assms kvs by (auto simp: normalizeReceipt_def res_simps)
  note f = assms [unfolded normalizeReceipt_def kvs res_bind_simps split]
  show ?thesis unfolding receipt_js_def
  proof (rule exact_norm [OF kvs])
    show "map fst (receiptUnsigned_js j r @ [(''receiptDigest'', JStr (receiptDigest r))]) = RECEIPT_KEYS"
      by (simp add: receiptUnsigned_js_def RECEIPT_KEYS_def)
    show "distinct RECEIPT_KEYS" by (simp add: RECEIPT_KEYS_def)
    fix k assume "k \<in> set RECEIPT_KEYS"
    then show "js_norm (getf kvs k)
        = js_norm (getf (receiptUnsigned_js j r @ [(''receiptDigest'', JStr (receiptDigest r))]) k)"
      using id f ev
      by (clarsimp simp: RECEIPT_KEYS_def res_simps)
        (auto simp: receiptUnsigned_js_def has_identity_def id_fields_def)
  qed
qed

subsection \<open>The receipt verifier\<close>

lemma canonicalJson_receipt: "canonicalJson (receipt_js i r) = Inr (canonText (receipt_js i r))"
  by (rule canonText_plain) (rule receipt_codec.enc_plain)

lemma checkReceipt_Inr_iff:
  "checkReceipt H ctx L v = Inr r \<longleftrightarrow>
     normalizeReceipt v = Inr r \<and> rc_contextDigest r = ctx_contextDigest ctx \<and> identity r = identity ctx
     \<and> rc_submittedIdentityEvidenceDigest r
         = submittedIdentityEvidenceDigestValue H (rc_submittedIdentityEvidence r)
     \<and> receiptDigest r = receiptDigestValue H r
     \<and> (\<exists>e. entryAt L (rc_sequence r - 1) = Some e \<and> expectedReceipt H ctx r e = r)"
  by (auto simp: checkReceipt_def res_simps identitiesMatchContext_iff Let_def canonicalJson_receipt
      receipt_codec.text_inj split: option.splits)

definition deliveryText :: "delivery \<Rightarrow> string" where
  "deliveryText d = canonText (domain_js ''cm.contribution-delivery/v1'' (delivery_js 0 d))"

lemma deliveryDigestValue_text: "deliveryDigestValue H d = H (deliveryText d)"
  by (simp add: deliveryDigestValue_def digestDomain_def digest_of_def deliveryText_def)

lemma deliveryText_inj: "deliveryText a = deliveryText b \<longleftrightarrow> a = b"
  by (simp add: deliveryText_def delivery_codec.domain_text_binds)

text \<open>The deliveries a ledger records, as the entries reproduce them.\<close>

definition recorded :: "'a ledger_unsigned_scheme \<Rightarrow> delivery list" where
  "recorded L = map submittedEventFromEntry (entries L)"

lemma history_recorded:
  assumes "history H ctx es" "e \<in> set es"
  shows "en_deliveryDigest e = deliveryDigestValue H (submittedEventFromEntry e)"
    "submittedIdentityBinding e = bindingFor ctx (submittedEventFromEntry e)"
    "delivery_wf (submittedEventFromEntry e)"
proof -
  obtain xs ys where "es = xs @ e # ys" using assms(2) by (meson split_list)
  then obtain d where "delivery_wf d" "e = entryFor H ctx xs d"
    using history_entry assms(1) by metis
  then show "en_deliveryDigest e = deliveryDigestValue H (submittedEventFromEntry e)"
    "submittedIdentityBinding e = bindingFor ctx (submittedEventFromEntry e)"
    "delivery_wf (submittedEventFromEntry e)"
    by (simp_all add: submittedEvent_entryFor)
qed

lemma receiptFor_wf:
  assumes ctx: "trusted H ctx" and H: "\<forall>t. hex64 (H t)" and d: "delivery_wf d"
    and n: "1 \<le> n" "n \<le> max_safe"
  shows "receipt_wf (receiptFor H ctx es d n)"
proof -
  have "hex64 (digestDomain H dom v)" for dom v
    using H by (simp add: digestDomain_def digest_of_def)
  then show ?thesis
    using d n trusted_wf [OF ctx] evidence_wf_delivery [OF d] classifyNormalized_reasons
    by (simp add: receiptFor_def receipt_wf_def delivery_wf_def deliveryDigestValue_def
        receiptDigestValue_def submittedIdentityEvidenceDigestValue_def classifyFor_def)
qed

lemma classify_duplicate:
  "cl_disposition (classifyNormalized L d b dd) = TRANSPORT_DUPLICATE \<Longrightarrow>
     classifyNormalized L d b dd = frozenClassification TRANSPORT_DUPLICATE [TRANSPORT_REDELIVERY] False None"
  by (auto simp: classifyNormalized_def frozenClassification_def split: option.splits if_splits)

text \<open>A receipt is accepted against any ledger that has the entry it names.\<close>

lemma receiptFor_accepted:
  assumes ctx: "trusted H ctx" and H: "\<forall>t. hex64 (H t)" and d: "delivery_wf d"
    and len: "int (length pre) < max_safe"
    and e: "entries L = pre @ e # post" "submittedEventFromEntry e = d"
      "en_sequence e = int (length pre) + 1" "submittedIdentityBinding e = bindingFor ctx d"
      "en_deliveryDigest e = deliveryDigestValue H d"
    and c: "cl_disposition (classifyFor H ctx es d) = TRANSPORT_DUPLICATE \<or> e = entryFor H ctx es d"
  shows "checkReceipt H ctx L (receipt_js 0 (receiptFor H ctx es d (en_sequence e)))
    = Inr (receiptFor H ctx es d (en_sequence e))"
proof -
  let ?r = "receiptFor H ctx es d (en_sequence e)"
  have wf: "receipt_wf ?r" using len e(3) by (intro receiptFor_wf [OF ctx H d]) simp_all
  have at: "entryAt L (rc_sequence ?r - 1) = Some e"
    by (simp add: receiptFor_def entryAt_def e(1,3))
  have exp: "expectedReceipt H ctx ?r e = ?r"
  proof (cases "cl_disposition (classifyFor H ctx es d) = TRANSPORT_DUPLICATE")
    case True
    then have "classifyFor H ctx es d = frozenClassification TRANSPORT_DUPLICATE [TRANSPORT_REDELIVERY] False None"
      unfolding classifyFor_def by (rule classify_duplicate)
    then show ?thesis by (simp add: expectedReceipt_def receiptFor_def e frozenClassification_def)
  next
    case False
    then have "e = entryFor H ctx es d" using c by blast
    then have "\<lparr>cl_disposition = en_disposition e, cl_reasonCodes = en_reasonCodes e,
        cl_quarantined = en_quarantined e, cl_replacedHeadDigest = en_replacedHeadDigest e\<rparr>
      = classifyFor H ctx es d"
      by simp
    with False show ?thesis by (simp add: expectedReceipt_def receiptFor_def e)
  qed
  show ?thesis
    unfolding checkReceipt_Inr_iff
    using normalizeReceipt_receipt_js [OF wf] at exp by (simp add: receiptFor_def)
qed

lemma history_sequence:
  assumes "history H ctx (pre @ e # post)"
  shows "en_sequence e = int (length pre) + 1"
  using assms by (rule history_entry) simp

lemma issued_receipt_verifies:
  assumes ctx: "trusted H ctx" and H: "\<forall>t. hex64 (H t)" and L: "reachable H ctx L"
    and i: "ingestContributionDeliveryV1 H ctx L v = Inr (L', r)"
    and later: "(step H ctx)\<^sup>*\<^sup>* L' L''" "int (length (entries L'')) < max_safe"
    and inj: "normalizeDelivery v [] = Inr (d, seen)"
      "inj_on H (deliveryText ` set (d # recorded L))"
  shows "verifyContributionIntakeReceiptV1 H ctx L'' (receipt_js 0 r) = Inr (Some r)"
proof -
  have r'': "reachable H ctx L''" using steps_reachable [OF later(1)] L i by (blast intro: ingest)
  obtain new where new: "entries L'' = entries L' @ new"
    using steps_entries [OF later(1)] L i by (blast intro: ingest)
  obtain es'' where es'': "verifiedContext ctx" "L'' = ledger_at H ctx es''"
    using r'' by (rule reachableE)
  have "checkReceipt H ctx L'' (receipt_js 0 r) = Inr r"
    using L i
  proof (cases rule: ingest_cases)
    case (duplicate es d' seen' prior)
    then have d': "d' = d" using inj(1) by simp
    obtain pre post where es: "es = pre @ prior # post" using duplicate by (meson split_list)
    have p: "en_deliveryDigest prior = deliveryDigestValue H (submittedEventFromEntry prior)"
      "submittedIdentityBinding prior = bindingFor ctx (submittedEventFromEntry prior)"
      using history_recorded duplicate by blast+
    have "deliveryText (submittedEventFromEntry prior) = deliveryText d"
    proof (rule inj_onD [OF inj(2)])
      show "H (deliveryText (submittedEventFromEntry prior)) = H (deliveryText d)"
        using p(1) duplicate(9) d' by (simp add: deliveryDigestValue_text)
    qed (use duplicate in \<open>auto simp: recorded_def\<close>)
    then have ev: "submittedEventFromEntry prior = d" by (simp add: deliveryText_inj)
    have "en_sequence prior = int (length pre) + 1"
      using duplicate(1) unfolding es by (rule history_sequence)
    then show ?thesis
      unfolding duplicate(10) d'
      using duplicate new p ev later(2) es d'
      by (intro receiptFor_accepted [OF ctx H, where pre = pre and post = "post @ new"]) simp_all
  next
    case (appends es d' seen')
    then have d': "d' = d" using inj(1) by simp
    let ?e = "entryFor H ctx es d"
    have "checkReceipt H ctx L'' (receipt_js 0 (receiptFor H ctx es d (en_sequence ?e)))
        = Inr (receiptFor H ctx es d (en_sequence ?e))"
      using appends new later(2) d'
      by (intro receiptFor_accepted [OF ctx H, where pre = es and post = new])
        (simp_all add: submittedEvent_entryFor)
    then show ?thesis using appends d' by simp
  qed
  then show ?thesis using es'' by (simp add: verifyContributionIntakeReceiptV1_def)
qed

text \<open>What an accepted receipt says is what the entry it names says.\<close>

lemma verified_receipt_sound:
  assumes "reachable H ctx L" "verifyContributionIntakeReceiptV1 H ctx L v = Inr (Some r)"
  obtains e where "e \<in> set (entries L)" "en_sequence e = rc_sequence r"
    "identity r = identity ctx" "rc_contextDigest r = ctx_contextDigest ctx"
    "rc_deliveryId r = en_deliveryId e" "rc_headDigest r = en_headDigest e"
    "rc_deliveryDigest r = en_deliveryDigest e"
    "rc_submittedIdentityBinding r = submittedIdentityBinding e"
    "rc_disposition r = TRANSPORT_DUPLICATE \<or> rc_disposition r = en_disposition e
       \<and> rc_reasonCodes r = en_reasonCodes e \<and> rc_quarantined r = en_quarantined e"
    "js_norm v = js_norm (receipt_js 0 r)"
proof -
  have c: "checkReceipt H ctx L v = Inr r"
    using assms(2) by (simp add: verifyContributionIntakeReceiptV1_def res_simps)
  then obtain e where e: "entryAt L (rc_sequence r - 1) = Some e" and x: "expectedReceipt H ctx r e = r"
    and n: "normalizeReceipt v = Inr r"
    by (auto simp: checkReceipt_Inr_iff)
  have mem: "e \<in> set (entries L)"
    using e by (auto simp: entryAt_def split: if_splits)
  obtain c where rc: "r = buildReceipt H ctx (submittedEventFromEntry e) (en_sequence e) c
      (submittedIdentityBinding e) (en_deliveryDigest e)"
    and c: "cl_disposition c = TRANSPORT_DUPLICATE \<or> cl_disposition c = en_disposition e
       \<and> cl_reasonCodes c = en_reasonCodes e \<and> cl_quarantined c = en_quarantined e"
  proof (cases "rc_disposition r = TRANSPORT_DUPLICATE")
    case True
    show ?thesis
      by (rule that [OF x [symmetric, unfolded expectedReceipt_def if_P [OF True]]])
        (simp add: frozenClassification_def)
  next
    case False
    show ?thesis
      by (rule that [OF x [symmetric, unfolded expectedReceipt_def if_not_P [OF False]]]) simp
  qed
  have r: "rc_sequence r = en_sequence e" "identity r = identity ctx"
    "rc_contextDigest r = ctx_contextDigest ctx"
    "rc_deliveryId r = en_deliveryId e" "rc_headDigest r = en_headDigest e"
    "rc_deliveryDigest r = en_deliveryDigest e"
    "rc_submittedIdentityBinding r = submittedIdentityBinding e"
    "rc_disposition r = TRANSPORT_DUPLICATE \<or> rc_disposition r = en_disposition e
       \<and> rc_reasonCodes r = en_reasonCodes e \<and> rc_quarantined r = en_quarantined e"
    using c by (simp_all add: rc)
  show ?thesis
    by (rule that [OF mem r(1) [symmetric] r(2-8) normalizeReceipt_norm [OF n]])
qed

end
