(* ===== verification/IntakeSamples.thy ===== *)
theory IntakeSamples
  imports IntakeReceipts
begin

text \<open>
  Concrete values for the witnesses of the intake properties: a hash with 64-digit outputs, the
  trusted context of one contribution, two deliveries for it and one from another actor.
\<close>

definition sample_digest :: "char \<Rightarrow> string" where
  "sample_digest c = replicate 64 c"

definition sample_hash :: hash where
  "sample_hash t = sample_digest (CHR ''0'')"

definition sample_identity :: identified where
  "sample_identity =
     \<lparr>schemaVersion = CONTRIBUTION_INTAKE_TRUST_CONTEXT_SCHEMA_V1,
      ledgerId = ''ledger:main'', tenantId = ''tenant:acme'', repositoryId = ''repository:core'',
      contributionId = ''contribution:pr-17'', actorId = ''actor:alice'',
      authorityEvidenceId = ''authority-evidence:grant-1'', authorityScope = WRITE\<rparr>"

definition sample_context :: trust_context where
  "sample_context = identified.extend sample_identity (trust_context.fields
     (digestDomain sample_hash ''cm.contribution-intake-trust-context/v1'' (context_js 0 sample_identity))
     True)"

definition sample_delivery :: "string \<Rightarrow> string \<Rightarrow> char \<Rightarrow> string option \<Rightarrow> delivery" where
  "sample_delivery actor did head anc = identified.extend
     (sample_identity\<lparr>schemaVersion := CONTRIBUTION_DELIVERY_SCHEMA_V1, actorId := actor\<rparr>)
     (delivery.fields did (sample_digest head) anc (sample_digest (CHR ''f'')) 1000)"

definition sample_first :: delivery where
  "sample_first = sample_delivery ''actor:alice'' ''delivery:d-1001'' (CHR ''a'') None"

definition sample_foreign :: delivery where
  "sample_foreign = sample_delivery ''actor:mallory'' ''delivery:d-1002'' (CHR ''b'')
     (Some (sample_digest (CHR ''a'')))"

lemma sample_digest_hex64: "c \<in> set ''0123456789abcdef'' \<Longrightarrow> hex64 (sample_digest c)"
  by (auto simp: sample_digest_def hex64_iff list_all_iff in_class_def d0_9_def)

lemma sample_hash_hex64: "\<forall>t. hex64 (sample_hash t)"
  by (simp add: sample_hash_def sample_digest_hex64)

lemma sample_identity_wf: "identity_wf sample_identity"
  by code_simp

lemma sample_trusted: "trusted sample_hash sample_context"
proof -
  have "normalizeContextInput (context_js 0 sample_identity) = Inr sample_identity"
    using normalizeContextInput_context_js [OF _ sample_identity_wf, of 0]
    by (simp add: sample_identity_def identified.defs)
  then show ?thesis
    unfolding trusted_def
    by (intro exI [of _ "context_js 0 sample_identity"])
      (simp add: bindPrevalidatedContributionIntakeTrustContextV1_def sample_context_def)
qed

lemma sample_verified [simp]: "verifiedContext sample_context"
  by (simp add: trusted_wf [OF sample_trusted])

lemma sample_delivery_wf:
  assumes "rx_test ACTOR_ID_PATTERN actor" "rx_test DELIVERY_ID_PATTERN did"
    "c \<in> set ''0123456789abcdef''" "\<forall>a. anc = Some a \<longrightarrow> hex64 a"
  shows "delivery_wf (sample_delivery actor did c anc)"
proof -
  have f: "hex64 (sample_digest (CHR ''f''))" by (rule sample_digest_hex64) simp
  have c: "hex64 (sample_digest c)" by (rule sample_digest_hex64) (rule assms(3))
  show ?thesis
    using assms(1,2,4) sample_identity_wf
    by (simp add: sample_delivery_def delivery_wf_def f c identity_wf_def max_safe_def)
qed

lemma sample_first_wf: "delivery_wf sample_first"
  unfolding sample_first_def by (rule sample_delivery_wf) (code_simp, code_simp, simp_all)

lemma sample_foreign_wf: "delivery_wf sample_foreign"
  unfolding sample_foreign_def
  by (rule sample_delivery_wf) (code_simp, code_simp, simp_all add: sample_digest_hex64)

definition sample_genesis :: ledger where
  "sample_genesis = ledger_at sample_hash sample_context []"

lemma sample_genesis_reachable: "reachable sample_hash sample_context sample_genesis"
  unfolding sample_genesis_def by (rule history_reachable) (simp_all add: history_Nil)

lemma sample_bindings:
  "bindingFor sample_context sample_first = CONTEXT_MATCH"
  "bindingFor sample_context sample_foreign = AUTHORITY_CHANGE"
  by (simp_all add: bindingFor_def deriveSubmittedIdentityBinding_def emptyLedger_def
      sample_context_def sample_first_def sample_foreign_def sample_delivery_def sample_identity_def)

lemma sample_delivery_ids:
  "deliveryId sample_first = ''delivery:d-1001''" "deliveryId sample_foreign = ''delivery:d-1002''"
  by (simp_all add: sample_first_def sample_foreign_def sample_delivery_def)

lemma sample_first_classified:
  "classifyFor H sample_context [] sample_first
     = \<lparr>cl_disposition = APPENDED, cl_reasonCodes = [NEW_CONTRIBUTION], cl_quarantined = False,
        cl_replacedHeadDigest = None\<rparr>"
  by (simp add: classifyFor_def classifyNormalized_def sample_bindings currentHead_appended
      frozenClassification_def)

definition sample_ledger :: ledger where
  "sample_ledger = ledger_at sample_hash sample_context
     [entryFor sample_hash sample_context [] sample_first]"

definition sample_receipt :: receipt where
  "sample_receipt = receiptFor sample_hash sample_context [] sample_first 1"

lemma sample_ingest:
  "ingestContributionDeliveryV1 sample_hash sample_context sample_genesis (delivery_js 0 sample_first)
     = Inr (sample_ledger, sample_receipt)"
  using ingestEvent_append [of sample_hash sample_context "[]" sample_first]
  by (simp add: ingestContributionDeliveryV1_def normalizeDelivery_delivery_js sample_first_wf
      sample_genesis_def sample_first_classified sample_ledger_def sample_receipt_def)

lemma sample_ledger_reachable: "reachable sample_hash sample_context sample_ledger"
  using sample_genesis_reachable sample_ingest by (rule ingest)

lemma sample_foreign_classified:
  "cl_disposition (classifyFor H sample_context
     [entryFor H sample_context [] sample_first] sample_foreign) = REJECTED"
  by (simp add: classifyFor_def classifyNormalized_def sample_bindings frozenClassification_def
      sample_delivery_ids)

lemma sample_normalize:
  "normalizeDelivery (delivery_js 0 sample_first) [] = Inr (sample_first, [0])"
  "normalizeDelivery (delivery_js 0 sample_foreign) [] = Inr (sample_foreign, [0])"
  by (simp_all add: normalizeDelivery_delivery_js sample_first_wf sample_foreign_wf)

text \<open>A history of two entries, for any hash: the first delivery, then the foreign one.\<close>

definition sample_history :: "hash \<Rightarrow> entry list" where
  "sample_history H =
     (let e = entryFor H sample_context [] sample_first
      in [e, entryFor H sample_context [e] sample_foreign])"

lemma sample_history_ok:
  "history H sample_context (take 1 (sample_history H))" "history H sample_context (sample_history H)"
proof -
  let ?e = "entryFor H sample_context [] sample_first"
  have "history H sample_context ([] @ [?e])"
    by (rule history_snoc [OF history_Nil sample_first_wf]) (simp add: sample_first_classified)
  then have 1: "history H sample_context [?e]" by simp
  then show "history H sample_context (take 1 (sample_history H))"
    by (simp add: sample_history_def Let_def)
  have "history H sample_context ([?e] @ [entryFor H sample_context [?e] sample_foreign])"
    by (rule history_snoc [OF 1 sample_foreign_wf]) (simp add: sample_foreign_classified)
  then show "history H sample_context (sample_history H)"
    by (simp add: sample_history_def Let_def)
qed

lemma sample_history_reachable:
  "reachable H sample_context (ledger_at H sample_context (sample_history H))"
  by (rule history_reachable [OF sample_history_ok(2) sample_verified])

lemma sample_prefix_reachable:
  "reachable H sample_context (ledger_at H sample_context (take 1 (sample_history H)))"
  by (rule history_reachable [OF sample_history_ok(1) sample_verified])

end
