(* ===== verification/IntakeLaws.thy ===== *)
theory IntakeLaws
  imports IntakeSamples
begin

text \<open>
  The properties of the contribution-intake ledger, over the definitions of
  \<open>IntakeLedger\<close> and \<open>IntakeVerify\<close>. \<open>H\<close> stands for SHA-256; where a property needs
  it to be collision free, it says on which texts.
\<close>

subsection \<open>The chain of entries\<close>

definition entryText :: "'a entry_unsigned_scheme \<Rightarrow> string" where
  "entryText e = canonText (domain_js ''cm.contribution-intake-entry/v1'' (entryUnsigned e))"

lemma entryDigestValue_text: "entryDigestValue H e = H (entryText e)"
  by (simp add: entryDigestValue_def digestDomain_def digest_of_def entryText_def)

interpretation entry_chain: hash_chain "entryText :: entry \<Rightarrow> string" entryDigest previousEntryDigest
proof
  fix x y :: entry
  assume "entryText x = entryText y" and d: "entryDigest x = entryDigest y"
  then have "entry_unsigned.truncate x = entry_unsigned.truncate y"
    by (simp add: entryText_def entry_codec.domain_text_binds)
  with d show "x = y" by (cases x, cases y) (simp add: entry_unsigned.defs)
qed

lemma history_chained: "history H ctx es \<Longrightarrow> entry_chain.chained H es"
proof (induction rule: history.induct)
  case (history_snoc es d)
  moreover have "entryDigestValue H e = H (entryText e)" for e :: entry
    by (rule entryDigestValue_text)
  ultimately show ?case by simp
qed simp

lemma history_nth:
  assumes "history H ctx es" "i < length es"
  obtains d where "delivery_wf d" "es ! i = entryFor H ctx (take i es) d"
    "cl_disposition (classifyFor H ctx (take i es) d) \<noteq> TRANSPORT_DUPLICATE"
  using assms history_entry [of H ctx "take i es" "es ! i" "drop (Suc i) es"]
  by (metis id_take_nth_drop)

lemma at_last_take:
  "i \<le> length es \<Longrightarrow> at_last (take i es) = (if i = 0 then None else Some (es ! (i - 1)))"
  by (cases i) (auto simp: take_Suc_conv_app_nth)

subsection \<open>Verification\<close>

text \<open>
  C1: The ledger verifier is sound. Whatever document it accepts, the ledger it returns is one
  that the module itself could have produced for this context: created empty and extended only by
  ingesting deliveries. The document says exactly what that ledger says, up to the order of its
  keys. A rehashed but impossible history is never accepted.
\<close>

theorem verifier_sound:
  assumes "verifyContributionIntakeLedgerV1 H ctx v = Inr (Some L)"
  shows "reachable H ctx L \<and> js_norm v = js_norm (ledger_js L)"
  using verify_ledger_sound [OF assms] by blast

text \<open>
  C2: The ledger verifier is complete. Every ledger the module produced for a trusted context
  verifies, as itself, when it is handed back as a document (fewer than \<open>2^53 - 1\<close> entries, so that
  its counters are safe integers; \<open>H\<close> returns 64 hexadecimal digits, as SHA-256 does).
\<close>

theorem verifier_complete:
  assumes "trusted H ctx" "\<forall>t. hex64 (H t)" "reachable H ctx L" "int (length (entries L)) < max_safe"
  shows "verifyContributionIntakeLedgerV1 H ctx (ledger_js L) = Inr (Some L)"
  using verify_ledger_iff [OF assms(1,2,4)] assms(3) by blast

lemma verifier_complete_witness:
  "verifyContributionIntakeLedgerV1 sample_hash sample_context (ledger_js sample_ledger)
     = Inr (Some sample_ledger)"
  by (rule verifier_complete [OF sample_trusted sample_hash_hex64 sample_ledger_reachable])
    (simp add: sample_ledger_def max_safe_def)

lemma verifier_sound_witness:
  "reachable sample_hash sample_context sample_genesis"
proof (rule conjunct1 [OF verifier_sound])
  show "verifyContributionIntakeLedgerV1 sample_hash sample_context (ledger_js sample_genesis)
      = Inr (Some sample_genesis)"
    using verify_ledger_iff [OF sample_trusted sample_hash_hex64, of sample_genesis]
      sample_genesis_reachable
    by (simp add: sample_genesis_def max_safe_def)
qed

text \<open>
  \<open>entry_sound H ctx L i\<close>: what entry number \<open>i\<close> of a ledger owes to its context, to the event it
  records and to the entry before it.
\<close>

definition entry_sound :: "hash \<Rightarrow> trust_context \<Rightarrow> ledger \<Rightarrow> nat \<Rightarrow> bool" where
  "entry_sound H ctx L i \<longleftrightarrow>
     (let e = entries L ! i; event = submittedEventFromEntry e in
      en_sequence e = int i + 1 \<and> identity e = identity ctx
      \<and> en_contextDigest e = ctx_contextDigest ctx
      \<and> entryDigest e = entryDigestValue H e
      \<and> previousEntryDigest e = (if i = 0 then None else Some (entryDigest (entries L ! (i - 1))))
      \<and> en_deliveryDigest e = deliveryDigestValue H event
      \<and> submittedIdentityBinding e = deriveSubmittedIdentityBinding L event
      \<and> en_disposition e \<noteq> TRANSPORT_DUPLICATE
      \<and> en_quarantined e = (en_disposition e \<in> {STALE, REJECTED}))"

lemma history_entry_sound:
  assumes es: "history H ctx es" and i: "i < length es"
  shows "entry_sound H ctx (ledger_at H ctx es) i"
proof -
  obtain d where d: "delivery_wf d" "es ! i = entryFor H ctx (take i es) d"
    "cl_disposition (classifyFor H ctx (take i es) d) \<noteq> TRANSPORT_DUPLICATE"
    using es i by (rule history_nth)
  moreover have "cl_quarantined (classifyFor H ctx (take i es) d) \<longleftrightarrow>
      cl_disposition (classifyFor H ctx (take i es) d) \<in> {STALE, REJECTED}"
    by (simp add: classifyFor_def classifyNormalized_quarantined)
  ultimately show ?thesis
    using i by (simp add: entry_sound_def submittedEvent_entryFor at_last_take)
qed

text \<open>
  C3: The invariant of every ledger the module produces: it carries the identity and digest of its
  context, its counters count its entries and the quarantined ones, its digest is recomputable,
  and entry number \<open>i\<close> has sequence \<open>i + 1\<close>, the identity of the context, its own digest, the
  digest of the entry before it, the delivery digest and the binding derived from the event it
  records, and is quarantined exactly when it is stale or rejected. No entry is a transport
  duplicate.
\<close>

theorem ledger_invariant:
  assumes "reachable H ctx L"
  shows "identity L = identity ctx \<and> lg_contextDigest L = ctx_contextDigest ctx \<and> verifiedLedger L
    \<and> nextSequence L = int (length (entries L)) + 1
    \<and> quarantineCount L = int (length (filter en_quarantined (entries L)))
    \<and> ledgerDigest L = ledgerDigestValue H L
    \<and> (\<forall>i < length (entries L). entry_sound H ctx L i)"
proof -
  obtain es where "history H ctx es" "L = ledger_at H ctx es"
    using assms by (rule reachableE)
  then show ?thesis by (simp add: history_entry_sound)
qed

lemma ledger_invariant_witness:
  "nextSequence sample_ledger = 2 \<and> previousEntryDigest (entries sample_ledger ! 0) = None"
  using ledger_invariant [OF sample_ledger_reachable]
  by (simp add: sample_ledger_def entry_sound_def)

subsection \<open>Heads\<close>

lemma linked_replaced:
  "linked as \<Longrightarrow> map en_replacedHeadDigest (tl as) = map (\<lambda>e. Some (en_headDigest e)) (butlast as)"
  by (induction as rule: linked.induct) (auto simp: displaces_def)

text \<open>
  C4: The line of succession of a pull request. The heads a ledger appended are pairwise distinct,
  were received in time order, were all submitted under exactly the trusted identity, and each
  one but the first names the previous one as the head it replaces.
\<close>

theorem head_succession:
  assumes "reachable H ctx L"
  defines "line \<equiv> filter is_appended (entries L)"
  shows "distinct (map en_headDigest line) \<and> sorted (map en_receivedAtMs line)
    \<and> list_all (\<lambda>e. submittedIdentityBinding e = CONTEXT_MATCH) line
    \<and> map en_replacedHeadDigest line
        = take (length line) (None # map (\<lambda>e. Some (en_headDigest e)) line)"
proof -
  obtain es where es: "history H ctx es" and L: "L = ledger_at H ctx es"
    using assms(1) by (rule reachableE)
  have line: "line = appended es" by (simp add: line_def L appended_def)
  have "map en_replacedHeadDigest line = take (length line) (None # map (\<lambda>e. Some (en_headDigest e)) line)"
  proof (cases line)
    case (Cons a as)
    then show ?thesis
      using linked_replaced [OF history_line(3) [OF es]] history_line(4) [OF es]
        take_map [of "length as" "\<lambda>e. Some (en_headDigest e)" "a # as"]
      by (simp add: line butlast_conv_take)
  qed simp
  then show ?thesis
    using history_line(1,2,5) [OF es] by (simp add: line list_all_iff)
qed

lemma head_succession_witness:
  "map en_replacedHeadDigest (filter is_appended (entries sample_ledger)) = [None]"
  using head_succession [OF sample_ledger_reachable]
  by (simp add: sample_ledger_def is_appended_def sample_first_classified)

text \<open>
  C15: \<open>headStatusV1\<close> agrees with the line of succession: a head that was never appended is
  unknown, the last one is current, and any other is superseded when the head after it names it as
  its ancestor and invalidated (a force push) otherwise.
\<close>

theorem head_status_correct:
  assumes "reachable H ctx L" "hex64 h"
  shows "headStatusV1 ctx L (JStr h) = Inr (head_status_spec (filter is_appended (entries L)) h)"
proof -
  obtain es where es: "verifiedContext ctx" "history H ctx es" "L = ledger_at H ctx es"
    using assms(1) by (rule reachableE)
  have "assertDigest (JStr h) ''CONTRIBUTION_HEAD_DIGEST_DENIED'' = Inr h"
    using assms(2) by (simp add: assertDigest_Inr_iff)
  then show ?thesis
    using es(1) headStatus_spec [OF es(2), of h] by (simp add: headStatusV1_def es(3) appended_def)
qed

lemma head_status_correct_witness:
  "headStatusV1 sample_context sample_ledger (JStr (sample_digest (CHR ''a''))) = Inr CURRENT"
proof -
  have h: "hex64 (sample_digest (CHR ''a''))" by (rule sample_digest_hex64) simp
  show ?thesis
    unfolding head_status_correct [OF sample_ledger_reachable h]
    by (simp add: sample_ledger_def is_appended_def sample_first_classified)
      (simp add: sample_first_def sample_delivery_def)
qed

text \<open>
  The life of a head. Over one ingestion an unknown head stays unknown or becomes current, a
  current one stays current or is superseded or invalidated, and a superseded or invalidated head
  never changes again: no delivery resurrects it.
\<close>

theorem head_status_monotone:
  assumes "reachable H ctx L" "ingestContributionDeliveryV1 H ctx L v = Inr (L', r)"
  shows "status_step (headStatusInternal L h) (headStatusInternal L' h)"
  by (rule ingest_status [OF assms])

lemma head_status_monotone_witness:
  "status_step (headStatusInternal sample_genesis (sample_digest (CHR ''a'')))
     (headStatusInternal sample_ledger (sample_digest (CHR ''a'')))"
  by (rule head_status_monotone [OF sample_genesis_reachable sample_ingest])

subsection \<open>Authority\<close>

lemma binding_match_iff: "bindingFor ctx d = CONTEXT_MATCH \<longleftrightarrow> identity d = identity ctx"
  by (auto simp: bindingFor_def deriveSubmittedIdentityBinding_def emptyLedger_def identity_def)

text \<open>
  C35: No authority by assertion. A delivery whose submitted identity is not exactly the trusted one
  (another scope of work, a widened authority scope, another actor or authority evidence) is
  rejected and quarantined, or is the redelivery of one already recorded; either way the current
  head and the status of every head stay as they were.
\<close>

theorem foreign_identity_powerless:
  assumes "reachable H ctx L" "ingestContributionDeliveryV1 H ctx L v = Inr (L', r)"
    and "normalizeDelivery v [] = Inr (d, seen)" "identity d \<noteq> identity ctx"
  shows "currentHeadInternal L' = currentHeadInternal L
    \<and> headStatusInternal L' h = headStatusInternal L h
    \<and> (rc_disposition r = TRANSPORT_DUPLICATE \<or> rc_disposition r = REJECTED \<and> rc_quarantined r)"
  using assms(1,2)
proof (cases rule: ingest_cases)
  case (appends es d' seen')
  then have d: "d' = d" using assms(3) by simp
  have "bindingFor ctx d \<noteq> CONTEXT_MATCH" using assms(4) by (simp add: binding_match_iff)
  then have c: "cl_disposition (classifyFor H ctx es d) = REJECTED"
    using classifyNormalized_not_matching appends(5) unfolding classifyFor_def d by blast
  then have "cl_quarantined (classifyFor H ctx es d)"
    by (simp add: classifyFor_def classifyNormalized_quarantined)
  moreover have "appended (entries L') = appended (entries L)"
    using c by (simp add: appends d is_appended_def)
  moreover from this have "headStatusInternal L' h = headStatusInternal L h"
    by (simp add: headStatusInternal_def appended_def)
  ultimately show ?thesis
    using c by (simp add: currentHead_appended appends(8) d receiptFor_def)
qed (simp add: receiptFor_def)

lemma foreign_identity_powerless_witness:
  "\<exists>L' r. ingestContributionDeliveryV1 sample_hash sample_context sample_ledger (delivery_js 0 sample_foreign)
       = Inr (L', r)
     \<and> headStatusInternal L' (headDigest sample_foreign)
         = headStatusInternal sample_ledger (headDigest sample_foreign)"
proof -
  obtain L' r where i: "ingestContributionDeliveryV1 sample_hash sample_context sample_ledger
      (delivery_js 0 sample_foreign) = Inr (L', r)"
    using ingest_total [OF sample_ledger_reachable sample_normalize(2)] by blast
  have "identity sample_foreign \<noteq> identity sample_context"
    using sample_bindings(2) by (simp add: binding_match_iff [symmetric])
  from foreign_identity_powerless [OF sample_ledger_reachable i sample_normalize(2) this] i
  show ?thesis by blast
qed

text \<open>
  Deep CI runs for the current head only: at most one entry is eligible, it is not quarantined,
  was submitted under the trusted identity, and a head digest is eligible exactly when its status
  is current.
\<close>

theorem deep_ci_eligibility:
  assumes "reachable H ctx L" "hex64 h"
  shows "\<exists>eligible. deepCiEligibleEntriesV1 ctx L = Inr eligible \<and> length eligible \<le> 1
    \<and> list_all (\<lambda>e. e \<in> set (entries L) \<and> \<not> en_quarantined e
         \<and> submittedIdentityBinding e = CONTEXT_MATCH) eligible
    \<and> isDeepCiEligibleV1 ctx L (JStr h) = Inr (h \<in> set (map en_headDigest eligible))
    \<and> (h \<in> set (map en_headDigest eligible) \<longleftrightarrow> headStatusV1 ctx L (JStr h) = Inr CURRENT)"
proof -
  obtain es where es: "verifiedContext ctx" "history H ctx es" and L: "L = ledger_at H ctx es"
    using assms(1) by (rule reachableE)
  have h: "assertDigest (JStr h) ''CONTRIBUTION_HEAD_DIGEST_DENIED'' = Inr h"
    using assms(2) by (simp add: assertDigest_Inr_iff)
  let ?el = "case at_last (appended es) of None \<Rightarrow> [] | Some e \<Rightarrow> [e]"
  have a: "deepCiEligibleEntriesV1 ctx L = Inr ?el"
    using es(1) by (simp add: deepCiEligibleEntriesV1_def L currentHead_appended)
  have b: "length ?el \<le> 1" by (simp split: option.split)
  have c: "list_all (\<lambda>e. e \<in> set (entries L) \<and> \<not> en_quarantined e
         \<and> submittedIdentityBinding e = CONTEXT_MATCH) ?el"
  proof (cases "at_last (appended es)")
    case (Some e)
    then have e: "e \<in> set (appended es)" by (rule at_last_in)
    then obtain i where i: "i < length es" "es ! i = e" by (auto simp: set_appended in_set_conv_nth)
    have "\<not> en_quarantined e"
      using history_entry_sound [OF es(2) i(1)] i(2) e
      by (auto simp: entry_sound_def Let_def set_appended is_appended_def)
    then show ?thesis using e history_line(5) [OF es(2) e] Some by (simp add: L set_appended)
  qed simp
  have el: "h \<in> set (map en_headDigest ?el) \<longleftrightarrow> map_option en_headDigest (at_last (appended es)) = Some h"
    by (cases "at_last (appended es)") auto
  then have d: "isDeepCiEligibleV1 ctx L (JStr h) = Inr (h \<in> set (map en_headDigest ?el))"
    using es(1) h by (simp add: isDeepCiEligibleV1_def L currentHead_appended)
  have "headStatusV1 ctx L (JStr h) = Inr CURRENT
      \<longleftrightarrow> map_option en_headDigest (at_last (appended es)) = Some h"
    using es(1) h headStatus_spec [OF es(2), of h] head_status_spec_CURRENT [OF history_line(1) [OF es(2)], of h]
    by (simp add: headStatusV1_def L)
  then have e: "h \<in> set (map en_headDigest ?el) \<longleftrightarrow> headStatusV1 ctx L (JStr h) = Inr CURRENT"
    by (simp only: el)
  show ?thesis by (rule exI [of _ ?el], intro conjI) (rule a b c d e)+
qed

lemma deep_ci_eligibility_witness:
  "isDeepCiEligibleV1 sample_context sample_genesis (JStr (sample_digest (CHR ''a''))) = Inr False"
proof -
  have h: "hex64 (sample_digest (CHR ''a''))" by (rule sample_digest_hex64) simp
  show ?thesis
    using deep_ci_eligibility [OF sample_genesis_reachable h]
    by (auto simp: sample_genesis_def deepCiEligibleEntriesV1_def currentHead_appended)
qed

subsection \<open>Ingestion\<close>

text \<open>
  On a ledger of the module, ingestion either succeeds or denies the delivery as malformed; it
  succeeds exactly when the delivery normalises. The internal denials
  (\<open>CONTRIBUTION_INTAKE_INTERNAL_DENIED\<close>, \<open>CONTRIBUTION_TRANSPORT_DUPLICATE_NOT_APPENDED\<close>) never
  happen.
\<close>

theorem ingest_outcome:
  assumes "reachable H ctx L"
  shows "ingestContributionDeliveryV1 H ctx L v =
     (case normalizeDelivery v [] of
        Inl e \<Rightarrow> Inl DELIVERY_DENIED
      | Inr (d, seen) \<Rightarrow> ingestEvent H ctx L d)
     \<and> (\<forall>d seen. normalizeDelivery v [] = Inr (d, seen) \<longrightarrow> (\<exists>L' r. ingestEvent H ctx L d = Inr (L', r)))"
proof -
  obtain es where es: "verifiedContext ctx" "L = ledger_at H ctx es"
    using assms by (rule reachableE)
  then have "assertVerifiedLedger ctx L = Inr ()" by simp
  then have eq: "ingestContributionDeliveryV1 H ctx L v =
      res_bind (normalizeDelivery v []) (\<lambda>(event, _). ingestEvent H ctx L event)"
    by (simp add: ingestContributionDeliveryV1_def)
  have "\<exists>L' r. ingestEvent H ctx L d = Inr (L', r)" if "normalizeDelivery v [] = Inr (d, seen)" for d seen
    using ingest_total [OF assms that] that by (simp add: eq)
  then show ?thesis
    by (cases "normalizeDelivery v []") (auto simp: eq dest: normalizeDelivery_Inl)
qed

lemma ingest_outcome_witness:
  "ingestContributionDeliveryV1 sample_hash sample_context sample_genesis JNull = Inl DELIVERY_DENIED"
proof -
  have "normalizeDelivery JNull [] = Inl DELIVERY_DENIED" by (simp add: normalizeDelivery_def)
  with ingest_outcome [OF sample_genesis_reachable, of JNull] show ?thesis by simp
qed

text \<open>
  Redelivery is idempotent. A delivery that was ingested once, and is delivered again after any
  number of further deliveries, leaves the ledger as it is and is answered with a transport-duplicate
  receipt for the same sequence number.
\<close>

theorem redelivery_idempotent:
  assumes "reachable H ctx L" "ingestContributionDeliveryV1 H ctx L v = Inr (L1, r1)"
    and "(step H ctx)\<^sup>*\<^sup>* L1 L2"
  shows "\<exists>r2. ingestContributionDeliveryV1 H ctx L2 v = Inr (L2, r2)
    \<and> rc_disposition r2 = TRANSPORT_DUPLICATE \<and> rc_sequence r2 = rc_sequence r1"
proof -
  have r1: "reachable H ctx L1" using assms(1,2) by (rule ingest)
  obtain es2 where es2: "verifiedContext ctx" "history H ctx es2" "L2 = ledger_at H ctx es2"
    using steps_reachable [OF assms(3) r1] by (rule reachableE)
  obtain new where new: "es2 = entries L1 @ new"
    using steps_entries [OF assms(3) r1] by (auto simp: es2(3))
  obtain d seen prior where d: "normalizeDelivery v [] = Inr (d, seen)"
    and prior: "prior \<in> set (entries L1)" "en_deliveryId prior = deliveryId d"
      "en_deliveryDigest prior = deliveryDigestValue H d" "rc_sequence r1 = en_sequence prior"
    using assms(1,2)
  proof (cases rule: ingest_cases)
    case (duplicate es d seen prior)
    then show ?thesis by (intro that [of d seen prior]) (simp_all add: receiptFor_def)
  next
    case (appends es d seen)
    then show ?thesis
      by (intro that [of d seen "entryFor H ctx es d"]) (simp_all add: receiptFor_def)
  qed
  have "prior \<in> set es2" using prior(1) new by simp
  note re = redelivery [OF es2(2,1) d this prior(2,3)]
  show ?thesis
    using re prior(4) by (intro exI [of _ "receiptFor H ctx es2 d (en_sequence prior)"])
      (simp add: es2(3) receiptFor_def)
qed

lemma redelivery_idempotent_witness:
  "\<exists>r2. ingestContributionDeliveryV1 sample_hash sample_context sample_ledger
       (delivery_js 0 sample_first) = Inr (sample_ledger, r2)
     \<and> rc_disposition r2 = TRANSPORT_DUPLICATE"
  using redelivery_idempotent [OF sample_genesis_reachable sample_ingest rtranclp.rtrancl_refl] by blast

text \<open>
  A receipt the module issues for a delivery verifies, as itself, against the ledger it was
  issued with and against every later one, provided \<open>H\<close> does not collide on the texts of this
  delivery and of the deliveries already recorded.
\<close>

theorem issued_receipts_verify:
  assumes "trusted H ctx" "\<forall>t. hex64 (H t)" "reachable H ctx L"
    and "ingestContributionDeliveryV1 H ctx L v = Inr (L1, r)" "(step H ctx)\<^sup>*\<^sup>* L1 L2"
    and "int (length (entries L2)) < max_safe"
    and "normalizeDelivery v [] = Inr (d, seen)" "inj_on H (deliveryText ` set (d # recorded L))"
  shows "verifyContributionIntakeReceiptV1 H ctx L2 (receipt_js 0 r) = Inr (Some r)"
  by (rule issued_receipt_verifies [OF assms])

lemma issued_receipts_verify_witness:
  "verifyContributionIntakeReceiptV1 sample_hash sample_context sample_ledger
     (receipt_js 0 sample_receipt) = Inr (Some sample_receipt)"
  by (rule issued_receipts_verify [OF sample_trusted sample_hash_hex64 sample_genesis_reachable
        sample_ingest rtranclp.rtrancl_refl _ sample_normalize(1)])
    (simp_all add: sample_ledger_def sample_genesis_def recorded_def max_safe_def)

text \<open>
  A receipt that verifies is honest. It names an entry of the ledger by its sequence, carries the
  trusted identity, and repeats the delivery, the head, the delivery digest and the binding of that
  entry; and its disposition, reasons and quarantine are those of the entry, or it reports a transport
  duplicate of it. The document says exactly what the returned receipt says.
\<close>

theorem verified_receipt_honest:
  assumes "reachable H ctx L" "verifyContributionIntakeReceiptV1 H ctx L v = Inr (Some r)"
  shows "js_norm v = js_norm (receipt_js 0 r) \<and> identity r = identity ctx
    \<and> rc_contextDigest r = ctx_contextDigest ctx
    \<and> (\<exists>e \<in> set (entries L). en_sequence e = rc_sequence r
        \<and> rc_deliveryId r = en_deliveryId e \<and> rc_headDigest r = en_headDigest e
        \<and> rc_deliveryDigest r = en_deliveryDigest e
        \<and> rc_submittedIdentityBinding r = submittedIdentityBinding e
        \<and> (rc_disposition r = TRANSPORT_DUPLICATE
           \<or> rc_disposition r = en_disposition e \<and> rc_reasonCodes r = en_reasonCodes e
             \<and> rc_quarantined r = en_quarantined e))"
  by (rule verified_receipt_sound [OF assms]) blast

lemma sample_receipt_verifies:
  "verifyContributionIntakeReceiptV1 sample_hash sample_context sample_ledger
     (receipt_js 0 sample_receipt) = Inr (Some sample_receipt)"
  by (rule issued_receipt_verifies [OF sample_trusted sample_hash_hex64 sample_genesis_reachable
        sample_ingest rtranclp.rtrancl_refl _ sample_normalize(1)])
    (simp_all add: sample_ledger_def sample_genesis_def recorded_def max_safe_def)

lemma verified_receipt_honest_witness:
  "\<exists>e \<in> set (entries sample_ledger). rc_headDigest sample_receipt = en_headDigest e"
  using verified_receipt_honest [OF sample_ledger_reachable sample_receipt_verifies] by blast

subsection \<open>Integrity\<close>

text \<open>
  Tamper evidence. Two ledgers of the module with the same ledger digest are the same ledger,
  bodies of the entries included, for whatever contexts they were made, unless \<open>H\<close> collides on two of
  their own texts.
\<close>

theorem ledger_digest_binds:
  assumes "reachable H ctx1 L1" "reachable H ctx2 L2" "ledgerDigest L1 = ledgerDigest L2"
    and "inj_on H {canonText (domain_js ''cm.contribution-intake-ledger/v1'' (ledgerSeal_js L1)),
                   canonText (domain_js ''cm.contribution-intake-ledger/v1'' (ledgerSeal_js L2))}"
    and "inj_on H (entryText ` (set (entries L1) \<union> set (entries L2)))"
  shows "L1 = L2"
proof -
  obtain es1 where es1: "history H ctx1 es1" "L1 = ledger_at H ctx1 es1"
    using assms(1) by (rule reachableE)
  obtain es2 where es2: "history H ctx2 es2" "L2 = ledger_at H ctx2 es2"
    using assms(2) by (rule reachableE)
  have "ledgerDigestValue H L1 = ledgerDigestValue H L2" using assms(3) es1(2) es2(2) by simp
  then have seal: "ledger_seal L1 = ledger_seal L2"
    using ledger_codec.domain_digest_binds [OF assms(4)] by (simp add: ledgerDigestValue_def)
  have "es1 = es2"
  proof (rule entry_chain.last_binds)
    show "entry_chain.chained H es1" "entry_chain.chained H es2"
      using es1 es2 by (simp_all add: history_chained)
    have "map entryDigest es1 = map entryDigest es2" using seal by (simp add: ledger_seal_def es1 es2)
    then have "at_last (map entryDigest es1) = at_last (map entryDigest es2)" by simp
    then show "map_option entryDigest (at_last es1) = map_option entryDigest (at_last es2)"
      by (cases es1 rule: rev_cases; cases es2 rule: rev_cases) simp_all
    show "inj_on H (entryText ` (set es1 \<union> set es2))" using assms(5) es1 es2 by simp
  qed
  with seal show ?thesis
    by (simp add: ledger_seal_def es1 es2 ledger_at_def emptyLedger_def identity_def)
qed

lemma ledger_digest_binds_witness:
  "ledger_at id sample_context (sample_history id) = ledger_at id sample_context (sample_history id)"
  by (rule ledger_digest_binds [OF sample_history_reachable sample_history_reachable refl]) simp_all

text \<open>
  An entry digest pins the whole history up to the entry: if two ledgers hold entries with the
  same digest, they agree on everything up to and including them, unless \<open>H\<close> collides on two of their
  entry texts. In particular no entry can be removed, inserted, changed or reordered under a head of
  the chain that someone noted down.
\<close>

theorem entry_digest_pins_history:
  assumes "reachable H ctx1 L1" "reachable H ctx2 L2"
    and "i < length (entries L1)" "j < length (entries L2)"
    and "entryDigest (entries L1 ! i) = entryDigest (entries L2 ! j)"
    and "inj_on H (entryText ` (set (entries L1) \<union> set (entries L2)))"
  shows "take (Suc i) (entries L1) = take (Suc j) (entries L2)"
proof (rule entry_chain.last_binds)
  have chained: "entry_chain.chained H (take n (entries L))" if r: "reachable H ctx L" for ctx L n
  proof -
    obtain es where "history H ctx es" "L = ledger_at H ctx es" using r by (rule reachableE)
    moreover from this have "history H ctx (take n es)"
      using history_prefix [of H ctx "take n es" "drop n es"] by simp
    ultimately show ?thesis by (simp add: history_chained)
  qed
  show "entry_chain.chained H (take (Suc i) (entries L1))" by (rule chained [OF assms(1)])
  show "entry_chain.chained H (take (Suc j) (entries L2))" by (rule chained [OF assms(2)])
  show "map_option entryDigest (at_last (take (Suc i) (entries L1)))
      = map_option entryDigest (at_last (take (Suc j) (entries L2)))"
    using assms(3-5) by (simp add: at_last_take)
  show "inj_on H (entryText ` (set (take (Suc i) (entries L1)) \<union> set (take (Suc j) (entries L2))))"
    using assms(6) by (rule inj_on_subset) (auto dest: in_set_takeD)
qed

lemma entry_digest_pins_history_witness:
  "take (Suc 0) (entries (ledger_at id sample_context (sample_history id)))
     = take (Suc 0) (entries (ledger_at id sample_context (take 1 (sample_history id))))"
  by (rule entry_digest_pins_history [OF sample_history_reachable sample_prefix_reachable])
    (simp_all add: sample_history_def Let_def)

subsection \<open>Replaying a stream of deliveries\<close>

fun deliveries_js :: "nat \<Rightarrow> delivery list \<Rightarrow> js list" where
  "deliveries_js i [] = []"
| "deliveries_js i (d # ds) = delivery_js i d # deliveries_js (i + 1) ds"

lemma normalizeStream_deliveries:
  "list_all delivery_wf ds \<Longrightarrow> \<forall>s \<in> set seen. s < i \<Longrightarrow>
     normalizeStream (deliveries_js i ds) seen = Inr ds"
proof (induction ds arbitrary: i seen)
  case (Cons d ds)
  then have "normalizeDelivery (delivery_js i d) seen = Inr (d, i # seen)"
    by (intro normalizeDelivery_delivery_js) auto
  moreover have "normalizeStream (deliveries_js (i + 1) ds) (i # seen) = Inr ds"
    using Cons.prems by (intro Cons.IH) auto
  ultimately show ?case by simp
qed simp

lemma ingestAll_recorded:
  assumes "history H ctx (pre @ es)" "verifiedContext ctx"
  shows "\<exists>rs. ingestAll H ctx (ledger_at H ctx pre) (map submittedEventFromEntry es) receipts
     = Inr (ledger_at H ctx (pre @ es), receipts @ rs) \<and> length rs = length es"
  using assms(1)
proof (induction es arbitrary: pre receipts)
  case (Cons e es)
  obtain d where d: "delivery_wf d" "e = entryFor H ctx pre d"
    "cl_disposition (classifyFor H ctx pre d) \<noteq> TRANSPORT_DUPLICATE"
    using Cons.prems by (rule history_entry)
  have step: "ingestContributionDeliveryV1 H ctx (ledger_at H ctx pre) (delivery_js 0 d)
      = Inr (ledger_at H ctx (pre @ [e]), receiptFor H ctx pre d (int (length pre) + 1))"
    using d assms(2) by (simp add: ingestContributionDeliveryV1_def normalizeDelivery_delivery_js
        ingestEvent_append)
  have "history H ctx ((pre @ [e]) @ es)" using Cons.prems by simp
  from Cons.IH [OF this, of "receipts @ [receiptFor H ctx pre d (int (length pre) + 1)]"]
  obtain rs where "ingestAll H ctx (ledger_at H ctx (pre @ [e])) (map submittedEventFromEntry es)
      (receipts @ [receiptFor H ctx pre d (int (length pre) + 1)])
      = Inr (ledger_at H ctx (pre @ e # es),
          receipts @ receiptFor H ctx pre d (int (length pre) + 1) # rs)" "length rs = length es"
    by auto
  then show ?case
    using step d by (intro exI [of _ "receiptFor H ctx pre d (int (length pre) + 1) # rs"])
      (simp add: submittedEvent_entryFor)
qed simp

lemma ingestAll_steps:
  "ingestAll H ctx L ds receipts = Inr (L', rs) \<Longrightarrow>
     (step H ctx)\<^sup>*\<^sup>* L L' \<and> length rs = length receipts + length ds"
proof (induction ds arbitrary: L receipts)
  case (Cons d ds)
  then obtain L1 r where "ingestContributionDeliveryV1 H ctx L (delivery_js 0 d) = Inr (L1, r)"
    "ingestAll H ctx L1 ds (receipts @ [r]) = Inr (L', rs)"
    by (auto simp: res_simps)
  with Cons.IH show ?case
    by (metis (no_types, lifting) add_Suc_right add_Suc converse_rtranclp_into_rtranclp
        length_append_singleton list.size(4) stepI add.right_neutral)
qed simp

text \<open>
  C34: Replay is the inverse of recording. The deliveries a ledger records, in order, replayed from
  an empty ledger, produce the same ledger again, with one receipt for each.
\<close>

theorem replay_recorded:
  assumes "reachable H ctx L"
  shows "\<exists>receipts. replayContributionIntakeV1 H ctx (JArr 0 (deliveries_js 1 (recorded L)))
      = Inr (L, receipts) \<and> length receipts = length (entries L)"
proof -
  obtain es where es: "verifiedContext ctx" "history H ctx es" "L = ledger_at H ctx es"
    using assms by (rule reachableE)
  have "list_all delivery_wf (recorded L)"
    using history_recorded(3) [OF es(2)] by (simp add: recorded_def es(3) list_all_iff)
  then have n: "normalizeStream (deliveries_js 1 (recorded L)) [0] = Inr (recorded L)"
    by (intro normalizeStream_deliveries) simp_all
  have "\<exists>rs. ingestAll H ctx (ledger_at H ctx []) (map submittedEventFromEntry es) []
     = Inr (ledger_at H ctx ([] @ es), [] @ rs) \<and> length rs = length es"
    using es by (intro ingestAll_recorded) simp_all
  then obtain rs where "ingestAll H ctx (ledger_at H ctx []) (recorded L) [] = Inr (L, rs)"
    "length rs = length es"
    by (auto simp: recorded_def es(3))
  then show ?thesis
    using es n create_ledger_at [of H ctx "ledger_at H ctx []"]
    by (intro exI [of _ rs]) (simp add: replayContributionIntakeV1_def assertVerifiedContext_def)
qed

lemma replay_recorded_witness:
  "\<exists>receipts. replayContributionIntakeV1 sample_hash sample_context
      (JArr 0 (deliveries_js 1 (recorded sample_ledger))) = Inr (sample_ledger, receipts)"
  using replay_recorded [OF sample_ledger_reachable] by blast

text \<open>
  Whatever stream replay accepts, the ledger it returns is one the verifier's invariant holds
  of, reached from the empty ledger by ingestion, with one receipt for each delivery of the stream.
\<close>

theorem replay_sound:
  assumes "replayContributionIntakeV1 H ctx v = Inr (L, receipts)"
  shows "reachable H ctx L \<and> length receipts = length (elems_of v)"
proof -
  obtain raw seen ds G where raw: "readDenseOrdinaryArray v [] ''CONTRIBUTION_DELIVERY_STREAM_DENIED''
      = Inr (raw, seen)" "normalizeStream raw seen = Inr ds"
    and G: "createContributionIntakeLedgerV1 H ctx = Inr G"
    and run: "ingestAll H ctx G ds [] = Inr (L, receipts)"
    using assms by (auto simp: replayContributionIntakeV1_def res_simps)
  have len: "length ds = length raw" if "normalizeStream raw seen = Inr ds" for raw seen ds
    using that by (induction raw arbitrary: seen ds) (auto simp: res_simps)
  have "reachable H ctx L"
    using steps_reachable [of H ctx G L] ingestAll_steps [OF run] genesis [OF G] by blast
  then show ?thesis
    using ingestAll_steps [OF run] len [OF raw(2)] raw(1) by (auto simp: readDenseOrdinaryArray_Inr_iff)
qed

lemma sample_replay:
  "replayContributionIntakeV1 sample_hash sample_context (JArr 0 []) = Inr (sample_genesis, [])"
  using create_ledger_at [of sample_hash sample_context sample_genesis]
  by (simp add: replayContributionIntakeV1_def assertVerifiedContext_def sample_genesis_def)

lemma replay_sound_witness: "reachable sample_hash sample_context sample_genesis \<and> length ([] :: receipt list) = 0"
  using replay_sound [OF sample_replay] by simp

end
