(* ===== verification/Guards.thy ===== *)
theory Guards
  imports Digests
begin

text \<open>
  Guards, encodings and document laws that several contracts share, in particular the law of a sealed
  document: a record that carries, in one property, the digest of all the others.
\<close>

subsection \<open>Guards\<close>

definition BOUND_IDENTIFIER :: rx where
  "BOUND_IDENTIFIER = Seq (Cls [A_Z, a_z, d0_9])
     (Rep (Cls ([A_Z, a_z, d0_9] @ chars ''._:@/-'')) 0 (Some 127))"

definition isBoundIdentifier :: "js \<Rightarrow> bool" where
  "isBoundIdentifier v = str_test (rx_test BOUND_IDENTIFIER) v"

definition isPositiveGeneration :: "js \<Rightarrow> bool" where
  "isPositiveGeneration v \<longleftrightarrow> is_safe_integer v \<and> int_of_js v > 0"

definition is_string :: "js \<Rightarrow> bool" where
  "is_string v = str_test (\<lambda>_. True) v"

text \<open>\<open>MEMBERS.includes(v)\<close>, and the member it is.\<close>

definition memberOf :: "('a \<Rightarrow> string) \<Rightarrow> 'a list \<Rightarrow> js \<Rightarrow> 'a option" where
  "memberOf text members v = List.find (\<lambda>m. v = JStr (text m)) members"

text \<open>
  \<open>RegExp.prototype.test\<close> converts its argument to a string, so a digest test of an unknown
  value also sees an array of one string as that string. An object converts to \<open>[object Object]\<close>, which no
  digest pattern matches (or its conversion throws).
\<close>

fun to_string :: "js \<Rightarrow> string" where
  "to_string JUndef = ''undefined''"
| "to_string JNull = ''null''"
| "to_string (JBool b) = (if b then ''true'' else ''false'')"
| "to_string (JNum n) = (case n of NInt i \<Rightarrow> int_text i | NDec t \<Rightarrow> t | NNonFinite \<Rightarrow> ''NaN'')"
| "to_string (JStr s) = s"
| "to_string (JArr i vs) = join '','' (map (\<lambda>v. if v = JUndef \<or> v = JNull then [] else to_string v) vs)"
| "to_string (JObj i kvs) = ''[object Object]''"
| "to_string (JOdd i) = ''[object Object]''"

definition digest_like :: "js \<Rightarrow> bool" where
  "digest_like v = hex64 (to_string v)"

lemma is_string_iff: "is_string v \<longleftrightarrow> (\<exists>s. v = JStr s)"
  by (simp add: is_string_def str_test_iff)

lemma isBoundIdentifier_iff: "isBoundIdentifier v \<longleftrightarrow> (\<exists>s. v = JStr s \<and> rx_test BOUND_IDENTIFIER s)"
  by (simp add: isBoundIdentifier_def str_test_iff)

lemma isPositiveGeneration_iff: "isPositiveGeneration v \<longleftrightarrow> (\<exists>i. v = jint i \<and> 0 < i \<and> i \<le> max_safe)"
  by (auto simp: isPositiveGeneration_def max_safe_def elim!: is_safe_integerE)

subsection \<open>Encodings\<close>

definition strs_js :: "string list \<Rightarrow> js" where
  "strs_js xs = arr (map JStr xs)"

definition int_or_null :: "int option \<Rightarrow> js" where
  "int_or_null x = (case x of None \<Rightarrow> JNull | Some i \<Rightarrow> jint i)"

lemma strs_js_simps [simp]: "is_array (strs_js vs)" "elems_of (strs_js vs) = map JStr vs"
  by (simp_all add: strs_js_def)

lemma plain_strs_js [simp]: "plain (strs_js xs)" "js_wf (strs_js xs)" "plain (int_or_null n)" "js_wf (int_or_null n)"
  by (simp_all add: strs_js_def int_or_null_def list_all_iff split: option.split)

lemma js_norm_strs [simp]: "js_norm (strs_js xs) = strs_js xs"
  by (simp add: strs_js_def comp_def)

lemma strs_inj [simp]: "strs_js xs = strs_js ys \<longleftrightarrow> xs = ys"
  by (simp add: strs_js_def inj_map_eq_map inj_def)

subsection \<open>Reading a record with exactly the expected keys\<close>

lemma exactKeys_norm:
  assumes "exactKeys v expected" "distinct (map fst kvs)" "mset (map fst kvs) = mset expected"
    and vals: "\<And>k. k \<in> set (map fst kvs) \<Longrightarrow> js_norm (getf (fields_of v) k) = js_norm (getf kvs k)"
  shows "js_norm v = js_norm (JObj j kvs)"
proof -
  have e: "distinct expected" "set (map fst kvs) = set expected"
    using assms(2,3) by (metis mset_eq_imp_distinct_iff, metis set_mset_mset)
  obtain i lws where v: "v = JObj i lws" "set (map fst lws) = set expected" "distinct (map fst lws)"
    using exactKeysE [OF assms(1)] e(1) by metis
  have "js_norm (JObj i lws) = js_norm (JObj j kvs)"
    using vals v assms(2) e(2) by (intro js_norm_objI) simp_all
  with v show ?thesis by simp
qed

text \<open>The same, against a given encoding, property by property.\<close>

lemma exactKeys_norm_all:
  assumes "exactKeys v expected"
    and enc: "is_record w \<and> distinct (map fst (fields_of w)) \<and> mset (map fst (fields_of w)) = mset expected"
    and vals: "list_all (\<lambda>(k, x). js_norm (getf (fields_of v) k) = js_norm x) (fields_of w)"
  shows "js_norm v = js_norm w"
proof -
  obtain j kvs where w: "w = JObj j kvs" using enc by (auto simp: is_record_iff)
  have "js_norm v = js_norm (JObj j kvs)"
  proof (rule exactKeys_norm [OF assms(1)])
    show "distinct (map fst kvs)" "mset (map fst kvs) = mset expected" using enc w by simp_all
    fix k assume "k \<in> set (map fst kvs)"
    then obtain x where x: "(k, x) \<in> set kvs" by auto
    then have "getf kvs k = x" using \<open>distinct (map fst kvs)\<close> by (simp add: getf_def)
    then show "js_norm (getf (fields_of v) k) = js_norm (getf kvs k)"
      using vals x w by (auto simp: list_all_iff)
  qed
  with w show ?thesis by simp
qed

lemma str_test_JStr: "str_test P v \<Longrightarrow> v = JStr (str_of v) \<and> P (str_of v)"
  by (auto simp: str_test_iff)

lemma safe_integer_jint: "is_safe_integer v \<Longrightarrow> v = jint (int_of_js v) \<and> \<bar>int_of_js v\<bar> \<le> max_safe"
  by (erule is_safe_integerE) auto

lemma memberOf_JStr: "memberOf text members v = Some m \<Longrightarrow> v = JStr (text m) \<and> m \<in> set members"
  unfolding memberOf_def by (drule find_Some_in) simp

lemma str_tests_JStr:
  assumes "list_all (str_test P) vs"
  shows "map JStr (map str_of vs) = vs" "list_all P (map str_of vs)"
  using assms by (induction vs) (auto simp: str_test_iff)

subsection \<open>Sealed documents\<close>

definition without :: "string \<Rightarrow> fields \<Rightarrow> fields" where
  "without k kvs = filter (\<lambda>(k', v). k' \<noteq> k) kvs"

lemma getf_without: "k' \<noteq> k \<Longrightarrow> getf (without k kvs) k' = getf kvs k'"
  by (induction kvs) (auto simp: without_def)

lemma distinct_without: "distinct (map fst kvs) \<Longrightarrow> distinct (map fst (without k kvs))"
  by (simp add: without_def distinct_map_filter)

lemma js_wf_without: "js_wf (JObj i kvs) \<Longrightarrow> js_wf (JObj j (without k kvs))"
  using distinct_without [of kvs k] by (auto simp: without_def list_all_iff)

lemma js_norm_obj_keys:
  assumes "js_norm (JObj i kvs) = js_norm (JObj j lws)"
  shows "set (map fst kvs) = set (map fst lws)"
proof -
  have m: "fst ` set (map (\<lambda>(k, v). (k, js_norm v)) xs) = fst ` set xs" for xs :: fields
    by (induction xs) auto
  have "map (\<lambda>(k, v). (k, js_norm v)) (sort_key fst kvs) = map (\<lambda>(k, v). (k, js_norm v)) (sort_key fst lws)"
    using assms by (simp only: js_norm.simps js.inject)
  from arg_cong [OF this, of "\<lambda>xs. fst ` set xs"] show ?thesis
    unfolding m unfolding set_sort set_map .
qed

lemma js_norm_without:
  assumes "js_norm (JObj i kvs) = js_norm (JObj j lws)" "distinct (map fst kvs)" "distinct (map fst lws)"
  shows "js_norm (JObj i' (without k kvs)) = js_norm (JObj j' (without k lws))"
proof (rule js_norm_objI)
  show "distinct (map fst (without k kvs))" "distinct (map fst (without k lws))"
    using assms(2,3) by (simp_all add: distinct_without)
  have w: "set (map fst (without k xs)) = set (map fst xs) - {k}" for xs
    by (auto simp: without_def)
  show "set (map fst (without k kvs)) = set (map fst (without k lws))"
    unfolding w js_norm_obj_keys [OF assms(1)] ..
  fix k' assume "k' \<in> set (map fst (without k lws))"
  then have "k' \<noteq> k" by (auto simp: without_def)
  then show "js_norm (getf (without k kvs) k') = js_norm (getf (without k lws) k')"
    using js_norm_obj_getf [OF assms] by (simp add: getf_without)
qed

text \<open>
  Two documents with the same keys that are sealed in property \<open>k\<close> and carry the same seal have the
  same content, unless the hash collides on the two texts.
\<close>

lemma sealed_documents:
  assumes wf: "js_wf (JObj i kvs)" "js_wf (JObj j lws)"
    and keys: "set (map fst kvs) = set (map fst lws)"
    and seal: "digest_js H (obj (without k kvs)) = Inr d" "digest_js H (obj (without k lws)) = Inr d"
    and same: "getf kvs k = getf lws k"
    and inj: "inj_on H {canonText (obj (without k kvs)), canonText (obj (without k lws))}"
  shows "js_norm (JObj i kvs) = js_norm (JObj j lws)"
proof -
  note s = seal [unfolded digest_js_Inr_iff digest_of_def]
  have p: "plain (obj (without k kvs))" "plain (obj (without k lws))"
    by (rule s(1) [THEN conjunct1], rule s(2) [THEN conjunct1])
  have "H (canonText (obj (without k kvs))) = H (canonText (obj (without k lws)))"
    by (rule trans [OF s(1) [THEN conjunct2, symmetric] s(2) [THEN conjunct2]])
  then have "canonText (obj (without k kvs)) = canonText (obj (without k lws))"
    by (rule inj_onD [OF inj]) blast+
  then have n: "js_norm (obj (without k kvs)) = js_norm (obj (without k lws))"
    using p wf by (intro canonText_norm) (simp_all only: js_wf_without)
  have d: "distinct (map fst kvs)" "distinct (map fst lws)" using wf by simp_all
  have "js_norm (getf kvs k') = js_norm (getf lws k')" for k'
  proof (cases "k' = k")
    case False
    have "js_norm (getf (without k kvs) k') = js_norm (getf (without k lws) k')"
      by (rule js_norm_obj_getf [OF n]) (simp_all add: distinct_without d)
    then show ?thesis by (simp add: getf_without [OF False])
  qed (simp add: same)
  with d keys show ?thesis by (intro js_norm_objI) auto
qed

end
