(* ===== verification/EffectiveRights.thy ===== *)
theory EffectiveRights
  imports Guards
begin

text \<open>
  The effective-rights compiler (\<open>packages/contracts/src/effective-rights.ts\<close>): four operands
  (profile, assignment, capability, constraint) are parsed, checked against each other and
  intersected into an informational result; a verifier of results and the permission X-ray read it
  back. The code passes a \<open>Set\<close> of issues by reference and only asks for its size and its sorted
  elements, so here each step returns the issues it adds. Strings are code units below 256: the
  dash of the X-ray title is written as its three UTF-8 bytes.
\<close>

subsection \<open>Data\<close>

definition EFFECTIVE_RIGHTS_INPUT_API_VERSION :: string where
  "EFFECTIVE_RIGHTS_INPUT_API_VERSION = ''chimpmaera.security/effective-rights-input/v1''"
definition EFFECTIVE_RIGHTS_RESULT_API_VERSION :: string where
  "EFFECTIVE_RIGHTS_RESULT_API_VERSION = ''chimpmaera.security/effective-rights-result/v1''"
definition PERMISSION_XRAY_API_VERSION :: string where
  "PERMISSION_XRAY_API_VERSION = ''chimpmaera.security/permission-xray/v1''"

datatype kind = PROFILE | ASSIGNMENT | CAPABILITY | CONSTRAINT

datatype rights_outcome = ALLOW | ESCALATE | DENY

datatype rights_issue =
    BINDING_MISMATCH_DENIED | EMPTY_INTERSECTION_DENIED | EXPLICIT_DENY | INPUT_SCHEMA_DENIED
  | OPERAND_CONFLICT_DENIED | OPERAND_DUPLICATE_DENIED | OPERAND_GENERATION_STALE_DENIED
  | OPERAND_KIND_UNKNOWN_DENIED | OPERAND_MISSING_DENIED | OPERAND_SCHEMA_DENIED
  | SCOPE_UNKNOWN_DENIED

definition EFFECTIVE_RIGHTS_OPERAND_KINDS_V1 :: "kind list" where
  "EFFECTIVE_RIGHTS_OPERAND_KINDS_V1 = [PROFILE, ASSIGNMENT, CAPABILITY, CONSTRAINT]"

definition EFFECTIVE_RIGHTS_ISSUE_CODES_V1 :: "rights_issue list" where
  "EFFECTIVE_RIGHTS_ISSUE_CODES_V1 =
     [BINDING_MISMATCH_DENIED, EMPTY_INTERSECTION_DENIED, EXPLICIT_DENY, INPUT_SCHEMA_DENIED,
      OPERAND_CONFLICT_DENIED, OPERAND_DUPLICATE_DENIED, OPERAND_GENERATION_STALE_DENIED,
      OPERAND_KIND_UNKNOWN_DENIED, OPERAND_MISSING_DENIED, OPERAND_SCHEMA_DENIED,
      SCOPE_UNKNOWN_DENIED]"

fun kind_text :: "kind \<Rightarrow> string" where
  "kind_text PROFILE = ''PROFILE''"
| "kind_text ASSIGNMENT = ''ASSIGNMENT''"
| "kind_text CAPABILITY = ''CAPABILITY''"
| "kind_text CONSTRAINT = ''CONSTRAINT''"

fun outcome_text :: "rights_outcome \<Rightarrow> string" where
  "outcome_text ALLOW = ''ALLOW''"
| "outcome_text ESCALATE = ''ESCALATE''"
| "outcome_text DENY = ''DENY''"

fun issue_name :: "rights_issue \<Rightarrow> string" where
  "issue_name BINDING_MISMATCH_DENIED = ''BINDING_MISMATCH_DENIED''"
| "issue_name EMPTY_INTERSECTION_DENIED = ''EMPTY_INTERSECTION_DENIED''"
| "issue_name EXPLICIT_DENY = ''EXPLICIT_DENY''"
| "issue_name INPUT_SCHEMA_DENIED = ''INPUT_SCHEMA_DENIED''"
| "issue_name OPERAND_CONFLICT_DENIED = ''OPERAND_CONFLICT_DENIED''"
| "issue_name OPERAND_DUPLICATE_DENIED = ''OPERAND_DUPLICATE_DENIED''"
| "issue_name OPERAND_GENERATION_STALE_DENIED = ''OPERAND_GENERATION_STALE_DENIED''"
| "issue_name OPERAND_KIND_UNKNOWN_DENIED = ''OPERAND_KIND_UNKNOWN_DENIED''"
| "issue_name OPERAND_MISSING_DENIED = ''OPERAND_MISSING_DENIED''"
| "issue_name OPERAND_SCHEMA_DENIED = ''OPERAND_SCHEMA_DENIED''"
| "issue_name SCOPE_UNKNOWN_DENIED = ''SCOPE_UNKNOWN_DENIED''"

definition issue_text :: "rights_issue \<Rightarrow> string" where
  "issue_text i = ''EFFECTIVE_RIGHTS_'' @ issue_name i"

lemma kind_text_inj [simp]: "kind_text a = kind_text b \<longleftrightarrow> a = b"
  by (cases a; cases b) simp_all

lemma outcome_text_inj [simp]: "outcome_text a = outcome_text b \<longleftrightarrow> a = b"
  by (cases a; cases b) simp_all

lemma issue_text_inj [simp]: "issue_text a = issue_text b \<longleftrightarrow> a = b"
  by (cases a; cases b) (simp_all add: issue_text_def)

text \<open>Outcomes are ordered by how much they permit.\<close>

fun outcome_rank :: "rights_outcome \<Rightarrow> nat" where
  "outcome_rank DENY = 0"
| "outcome_rank ESCALATE = 1"
| "outcome_rank ALLOW = 2"

instantiation rights_outcome :: linorder
begin

definition less_eq_rights_outcome :: "rights_outcome \<Rightarrow> rights_outcome \<Rightarrow> bool" where
  "a \<le> b \<longleftrightarrow> outcome_rank a \<le> outcome_rank b"

definition less_rights_outcome :: "rights_outcome \<Rightarrow> rights_outcome \<Rightarrow> bool" where
  "a < b \<longleftrightarrow> outcome_rank a < outcome_rank b"

instance
proof
  fix a b :: rights_outcome
  show "a \<le> b \<Longrightarrow> b \<le> a \<Longrightarrow> a = b"
    by (cases a; cases b) (simp_all add: less_eq_rights_outcome_def)
qed (auto simp: less_eq_rights_outcome_def less_rights_outcome_def)

end

definition ACTIONS :: "string list" where "ACTIONS = [''crm.contact.create'', ''erp.order.create'']"
definition RESOURCES :: "string list" where "RESOURCES = [''dolibarr.order'', ''espocrm.contact'']"
definition FIELDS :: "string list" where "FIELDS = [''email'', ''name'', ''quantity'', ''sku'']"
definition PURPOSES :: "string list" where "PURPOSES = [''owner.review'', ''synthetic.demo'']"
definition EFFECTS :: "string list" where "EFFECTS = [''CREATE'']"

record rights_scope =
  sc_actions :: "string list"
  sc_resources :: "string list"
  sc_fields :: "string list"
  sc_purposes :: "string list"
  sc_effects :: "string list"

record operand =
  op_kind :: kind
  operandId :: string
  op_tenant :: string
  op_actor :: string
  op_generation :: int
  profileId :: string
  profileGeneration :: int
  decisionCeiling :: rights_outcome
  op_scope :: rights_scope

record ceiling_row =
  ce_kind :: kind
  ce_operandId :: string
  ce_generation :: int
  ce_decision :: rights_outcome
  ce_scope :: rights_scope
  operandDigest :: string

record reason_fact =
  fact_code :: string
  fact_source :: string
  fact_detail :: string

record rights_core =
  inputDigest :: string
  er_actor :: "string option"
  er_tenant :: "string option"
  er_profileId :: "string option"
  er_profileGeneration :: "int option"
  er_outcome :: rights_outcome
  effectiveScope :: rights_scope
  ceilings :: "ceiling_row list"
  reasonFacts :: "reason_fact list"
  er_issues :: "rights_issue list"

record rights_result = rights_core +
  resultDigest :: string

subsection \<open>Parsing the operands\<close>

definition sortedUnique :: "string list \<Rightarrow> string list" where
  "sortedUnique values = sort (uniq values)"

definition emptyScope :: rights_scope where
  "emptyScope = \<lparr>sc_actions = [], sc_resources = [], sc_fields = [], sc_purposes = [], sc_effects = []\<rparr>"

definition kindOf :: "js \<Rightarrow> kind option" where
  "kindOf v = List.find (\<lambda>k. v = JStr (kind_text k)) EFFECTIVE_RIGHTS_OPERAND_KINDS_V1"

definition outcomeOf :: "js \<Rightarrow> rights_outcome option" where
  "outcomeOf v = List.find (\<lambda>k. v = JStr (outcome_text k)) [ALLOW, ESCALATE, DENY]"

text \<open>The loop over the domains of a scope stops at the first one of a wrong shape.\<close>

fun validateDomains :: "fields \<Rightarrow> (string \<times> string list) list \<Rightarrow> string list list option \<times> rights_issue list" where
  "validateDomains r [] = (Some [], [])"
| "validateDomains r ((name, allowed) # domains) =
     (let candidate = getf r name; entries = elems_of candidate in
      if \<not> is_array candidate \<or> entries = [] \<or> list_ex (\<lambda>e. \<not> is_string e) entries
      then (None, [OPERAND_SCHEMA_DENIED])
      else
       (let strs = map str_of entries;
            found = (if length (uniq strs) \<noteq> length strs then [OPERAND_CONFLICT_DENIED] else [])
              @ (if list_ex (\<lambda>s. s \<notin> set allowed) strs then [SCOPE_UNKNOWN_DENIED] else []);
            (rest, more) = validateDomains r domains
        in (map_option (\<lambda>vs. sortedUnique strs # vs) rest, found @ more)))"

definition SCOPE_DOMAINS :: "(string \<times> string list) list" where
  "SCOPE_DOMAINS = [(''actions'', ACTIONS), (''resources'', RESOURCES), (''fields'', FIELDS),
     (''purposes'', PURPOSES), (''effects'', EFFECTS)]"

definition SCOPE_KEYS :: "string list" where
  "SCOPE_KEYS = [''actions'', ''effects'', ''fields'', ''purposes'', ''resources'']"

definition scope_of_lists :: "string list list \<Rightarrow> rights_scope" where
  "scope_of_lists vs = \<lparr>sc_actions = vs ! 0, sc_resources = vs ! 1, sc_fields = vs ! 2,
     sc_purposes = vs ! 3, sc_effects = vs ! 4\<rparr>"

definition validateScope :: "js \<Rightarrow> rights_scope option \<times> rights_issue list" where
  "validateScope v =
     (if \<not> exactKeys v SCOPE_KEYS then (None, [OPERAND_SCHEMA_DENIED])
      else apfst (map_option scope_of_lists) (validateDomains (fields_of v) SCOPE_DOMAINS))"

definition OPERAND_KEYS :: "string list" where
  "OPERAND_KEYS = [''actor'', ''decisionCeiling'', ''generation'', ''kind'', ''operandId'',
     ''profileGeneration'', ''profileId'', ''scope'', ''tenant'']"

definition parseOperand :: "js \<Rightarrow> operand option \<times> rights_issue list" where
  "parseOperand v =
     (if \<not> is_record v then (None, [OPERAND_SCHEMA_DENIED])
      else let r = fields_of v in
      case kindOf (getf r ''kind'') of
        None \<Rightarrow> (None, [OPERAND_KIND_UNKNOWN_DENIED])
      | Some k \<Rightarrow>
        if \<not> exactKeys v OPERAND_KEYS then (None, [OPERAND_SCHEMA_DENIED])
        else if \<not> isBoundIdentifier (getf r ''operandId'') \<or> \<not> isBoundIdentifier (getf r ''tenant'')
           \<or> \<not> isBoundIdentifier (getf r ''actor'') \<or> \<not> isBoundIdentifier (getf r ''profileId'')
           \<or> outcomeOf (getf r ''decisionCeiling'') = None
        then (None, [OPERAND_SCHEMA_DENIED])
        else if \<not> isPositiveGeneration (getf r ''generation'')
           \<or> \<not> isPositiveGeneration (getf r ''profileGeneration'')
        then (None, [OPERAND_GENERATION_STALE_DENIED])
        else
          (let (sc, issues) = validateScope (getf r ''scope'')
           in (map_option (\<lambda>s.
                \<lparr>op_kind = k, operandId = str_of (getf r ''operandId''),
                 op_tenant = str_of (getf r ''tenant''), op_actor = str_of (getf r ''actor''),
                 op_generation = int_of_js (getf r ''generation''),
                 profileId = str_of (getf r ''profileId''),
                 profileGeneration = int_of_js (getf r ''profileGeneration''),
                 decisionCeiling = the (outcomeOf (getf r ''decisionCeiling'')),
                 op_scope = s\<rparr>) sc, issues)))"

subsection \<open>Encodings\<close>

definition scope_js :: "rights_scope \<Rightarrow> js" where
  "scope_js s = obj [(''actions'', strs_js (sc_actions s)), (''resources'', strs_js (sc_resources s)),
     (''fields'', strs_js (sc_fields s)), (''purposes'', strs_js (sc_purposes s)),
     (''effects'', strs_js (sc_effects s))]"

definition operand_js :: "operand \<Rightarrow> js" where
  "operand_js o' = obj
     [(''kind'', JStr (kind_text (op_kind o'))), (''operandId'', JStr (operandId o')),
      (''tenant'', JStr (op_tenant o')), (''actor'', JStr (op_actor o')),
      (''generation'', jint (op_generation o')), (''profileId'', JStr (profileId o')),
      (''profileGeneration'', jint (profileGeneration o')),
      (''decisionCeiling'', JStr (outcome_text (decisionCeiling o'))),
      (''scope'', scope_js (op_scope o'))]"

definition ceiling_js :: "ceiling_row \<Rightarrow> js" where
  "ceiling_js c = obj
     [(''kind'', JStr (kind_text (ce_kind c))), (''operandId'', JStr (ce_operandId c)),
      (''generation'', jint (ce_generation c)),
      (''decisionCeiling'', JStr (outcome_text (ce_decision c))),
      (''scope'', scope_js (ce_scope c)), (''operandDigest'', JStr (operandDigest c))]"

definition fact_js :: "reason_fact \<Rightarrow> js" where
  "fact_js f = obj [(''code'', JStr (fact_code f)), (''source'', JStr (fact_source f)),
     (''detail'', JStr (fact_detail f))]"

definition core_fields :: "'a rights_core_scheme \<Rightarrow> fields" where
  "core_fields c =
     [(''schemaVersion'', JStr EFFECTIVE_RIGHTS_RESULT_API_VERSION),
      (''inputDigest'', JStr (inputDigest c)), (''actor'', str_or_null (er_actor c)),
      (''tenant'', str_or_null (er_tenant c)),
      (''profileBinding'', obj [(''profileId'', str_or_null (er_profileId c)),
         (''profileGeneration'', int_or_null (er_profileGeneration c))]),
      (''outcome'', JStr (outcome_text (er_outcome c))),
      (''effectiveScope'', scope_js (effectiveScope c)),
      (''ceilings'', arr (map ceiling_js (ceilings c))),
      (''reasonFacts'', arr (map fact_js (reasonFacts c))),
      (''issues'', arr (map (\<lambda>i. JStr (issue_text i)) (er_issues c))),
      (''informationalOnly'', JBool True)]"

definition core_js :: "'a rights_core_scheme \<Rightarrow> js" where
  "core_js c = obj (core_fields c)"

definition result_js :: "rights_result \<Rightarrow> js" where
  "result_js r = obj (core_fields r @ [(''resultDigest'', JStr (resultDigest r))])"

subsection \<open>Compilation\<close>

definition by_kind :: "operand list \<Rightarrow> operand list" where
  "by_kind ops = sort_key (\<lambda>x. kind_text (op_kind x)) ops"

definition normalizedInput :: "string \<Rightarrow> string \<Rightarrow> operand list \<Rightarrow> js" where
  "normalizedInput actor tenant ops = obj
     [(''schemaVersion'', JStr EFFECTIVE_RIGHTS_INPUT_API_VERSION), (''actor'', JStr actor),
      (''tenant'', JStr tenant), (''operands'', arr (map operand_js (by_kind ops)))]"

fun intersection :: "operand list \<Rightarrow> (rights_scope \<Rightarrow> string list) \<Rightarrow> string list" where
  "intersection [] field = []"
| "intersection (first # rest) field =
     sort (filter (\<lambda>v. list_all (\<lambda>x. v \<in> set (field (op_scope x))) rest) (field (op_scope first)))"

definition scope_lists :: "rights_scope \<Rightarrow> string list list" where
  "scope_lists s = [sc_actions s, sc_resources s, sc_fields s, sc_purposes s, sc_effects s]"

definition intersectScopes :: "operand list \<Rightarrow> rights_scope" where
  "intersectScopes ops =
     (if length ops = 4 then
        \<lparr>sc_actions = intersection ops sc_actions, sc_resources = intersection ops sc_resources,
         sc_fields = intersection ops sc_fields, sc_purposes = intersection ops sc_purposes,
         sc_effects = intersection ops sc_effects\<rparr>
      else emptyScope)"

definition sortIssues :: "rights_issue list \<Rightarrow> rights_issue list" where
  "sortIssues issues = sort_key issue_text (uniq issues)"

definition buildIssues :: "operand list \<Rightarrow> rights_issue list \<Rightarrow> rights_issue list" where
  "buildIssues ops issuesInput = sortIssues (issuesInput
     @ (if length ops = 4 \<and> list_ex (\<lambda>vs. vs = []) (scope_lists (intersectScopes ops))
        then [EMPTY_INTERSECTION_DENIED] else [])
     @ (if list_ex (\<lambda>x. decisionCeiling x = DENY) ops then [EXPLICIT_DENY] else []))"

definition ceilingOf :: "hash \<Rightarrow> operand \<Rightarrow> ceiling_row" where
  "ceilingOf H x = \<lparr>ce_kind = op_kind x, ce_operandId = operandId x, ce_generation = op_generation x,
     ce_decision = decisionCeiling x, ce_scope = op_scope x,
     operandDigest = digest_of H (operand_js x)\<rparr>"

definition outcomeDetail :: "rights_outcome \<Rightarrow> string" where
  "outcomeDetail o' = (case o' of ALLOW \<Rightarrow> ''ALL_REQUIRED_OPERANDS_INTERSECT''
     | ESCALATE \<Rightarrow> ''RESTRICTIVE_CEILING_REQUIRES_OWNER'' | DENY \<Rightarrow> ''NO_INFORMATIONAL_ALLOW'')"

definition buildFacts :: "ceiling_row list \<Rightarrow> rights_issue list \<Rightarrow> rights_outcome \<Rightarrow> reason_fact list" where
  "buildFacts cs issues outcome =
     map (\<lambda>c. \<lparr>fact_code = ''EFFECTIVE_RIGHTS_CEILING_CONTRIBUTED'',
                fact_source = kind_text (ce_kind c), fact_detail = outcome_text (ce_decision c)\<rparr>) cs
     @ map (\<lambda>i. \<lparr>fact_code = issue_text i, fact_source = ''COMPILER'', fact_detail = ''FAIL_CLOSED''\<rparr>) issues
     @ [\<lparr>fact_code = ''EFFECTIVE_RIGHTS_'' @ outcome_text outcome, fact_source = ''COMPILER'',
         fact_detail = outcomeDetail outcome\<rparr>]"

definition sealResult :: "hash \<Rightarrow> rights_core \<Rightarrow> rights_result" where
  "sealResult H c = rights_core.extend c (rights_result.fields (digest_of H (core_js c)))"

definition buildResult :: "hash \<Rightarrow> string \<Rightarrow> string option \<Rightarrow> string option \<Rightarrow> operand list \<Rightarrow>
    rights_issue list \<Rightarrow> rights_result" where
  "buildResult H inDigest actor tenant ops issuesInput =
     (let issues = buildIssues ops issuesInput;
          profile = List.find (\<lambda>x. op_kind x = PROFILE) ops;
          outcome = (if issues \<noteq> [] then DENY
                     else if list_ex (\<lambda>x. decisionCeiling x = ESCALATE) ops then ESCALATE
                     else ALLOW);
          cs = map (ceilingOf H) (by_kind ops)
      in sealResult H
        \<lparr>inputDigest = inDigest, er_actor = actor, er_tenant = tenant,
         er_profileId = map_option profileId profile,
         er_profileGeneration = map_option profileGeneration profile,
         er_outcome = outcome, effectiveScope = intersectScopes ops, ceilings = cs,
         reasonFacts = buildFacts cs issues outcome, er_issues = issues\<rparr>)"

text \<open>The issues of the operands against each other and against the input.\<close>

definition countIssues :: "nat \<Rightarrow> rights_issue list" where
  "countIssues n = (if n = 0 then [OPERAND_MISSING_DENIED] else [])
     @ (if n > 1 then [OPERAND_DUPLICATE_DENIED] else [])"

definition kindIssues :: "operand list \<Rightarrow> rights_issue list" where
  "kindIssues ops = concat (map (\<lambda>k. countIssues (length (filter (\<lambda>x. op_kind x = k) ops)))
     EFFECTIVE_RIGHTS_OPERAND_KINDS_V1)"

definition bindingIssues :: "string option \<Rightarrow> string option \<Rightarrow> operand list \<Rightarrow> rights_issue list" where
  "bindingIssues actor tenant ops =
     (case List.find (\<lambda>x. op_kind x = PROFILE) ops of
        None \<Rightarrow> []
      | Some p \<Rightarrow> concat (map (\<lambda>x.
          (if actor \<noteq> Some (op_actor x) \<or> tenant \<noteq> Some (op_tenant x) \<or> profileId x \<noteq> profileId p
           then [BINDING_MISMATCH_DENIED] else [])
          @ (if profileGeneration x < profileGeneration p then [OPERAND_GENERATION_STALE_DENIED]
             else if profileGeneration x \<noteq> profileGeneration p then [BINDING_MISMATCH_DENIED]
             else [])) ops))"

definition INPUT_KEYS :: "string list" where
  "INPUT_KEYS = [''actor'', ''operands'', ''schemaVersion'', ''tenant'']"

definition boundOrNull :: "js \<Rightarrow> string option" where
  "boundOrNull v = (if isBoundIdentifier v then Some (str_of v) else None)"

definition inputIssues :: "js \<Rightarrow> rights_issue list" where
  "inputIssues input =
     (let r = fields_of input in
      (if \<not> exactKeys input INPUT_KEYS then [INPUT_SCHEMA_DENIED] else [])
      @ (if getf r ''schemaVersion'' \<noteq> JStr EFFECTIVE_RIGHTS_INPUT_API_VERSION
            \<or> boundOrNull (getf r ''actor'') = None \<or> boundOrNull (getf r ''tenant'') = None
            \<or> \<not> is_array (getf r ''operands'')
         then [INPUT_SCHEMA_DENIED] else []))"

definition parseOperands :: "js list \<Rightarrow> operand list \<times> rights_issue list" where
  "parseOperands vs = (List.map_filter (\<lambda>v. fst (parseOperand v)) vs,
     concat (map (\<lambda>v. snd (parseOperand v)) vs))"

definition compileIssues :: "js \<Rightarrow> rights_issue list" where
  "compileIssues input =
     (let r = fields_of input; (ops, found) = parseOperands (elems_of (getf r ''operands''))
      in inputIssues input @ found @ kindIssues ops
         @ bindingIssues (boundOrNull (getf r ''actor'')) (boundOrNull (getf r ''tenant'')) ops)"

definition compileEffectiveRightsV1 :: "hash \<Rightarrow> js \<Rightarrow> rights_result" where
  "compileEffectiveRightsV1 H input =
     (let r = fields_of input;
          actor = boundOrNull (getf r ''actor'');
          tenant = boundOrNull (getf r ''tenant'');
          ops = fst (parseOperands (elems_of (getf r ''operands'')));
          issues = compileIssues input;
          inDigest = (case (actor, tenant) of
              (Some a, Some t) \<Rightarrow> digest_of H (normalizedInput a t ops)
            | _ \<Rightarrow> digest_of H (obj [(''invalidInput'', JBool True),
                (''issues'', arr (map (\<lambda>i. JStr (issue_text i)) (sortIssues issues)))]))
      in buildResult H inDigest actor tenant ops issues)"

subsection \<open>Verification and the permission X-ray\<close>

definition RIGHTS_INVALID :: string where
  "RIGHTS_INVALID = ''EFFECTIVE_RIGHTS_RESULT_INVALID_DENIED''"

definition validScopeShape :: "js \<Rightarrow> bool" where
  "validScopeShape v \<longleftrightarrow> exactKeys v SCOPE_KEYS
     \<and> list_all (\<lambda>(k, e). is_array e \<and> list_all is_string (elems_of e)) (fields_of v)"

definition RESULT_KEYS :: "string list" where
  "RESULT_KEYS = [''actor'', ''ceilings'', ''effectiveScope'', ''informationalOnly'', ''inputDigest'',
     ''issues'', ''outcome'', ''profileBinding'', ''reasonFacts'', ''resultDigest'',
     ''schemaVersion'', ''tenant'']"

definition CEILING_KEYS :: "string list" where
  "CEILING_KEYS = [''decisionCeiling'', ''generation'', ''kind'', ''operandDigest'', ''operandId'', ''scope'']"

definition validCeiling :: "js \<Rightarrow> bool" where
  "validCeiling c \<longleftrightarrow>
     (let r = fields_of c in
      exactKeys c CEILING_KEYS \<and> kindOf (getf r ''kind'') \<noteq> None
      \<and> isBoundIdentifier (getf r ''operandId'') \<and> isPositiveGeneration (getf r ''generation'')
      \<and> outcomeOf (getf r ''decisionCeiling'') \<noteq> None \<and> validScopeShape (getf r ''scope'')
      \<and> digest_like (getf r ''operandDigest''))"

text \<open>The loop over the ceilings, with the set of kinds seen so far.\<close>

fun validCeilings :: "js list \<Rightarrow> js list \<Rightarrow> bool" where
  "validCeilings [] kinds = True"
| "validCeilings (c # cs) kinds =
     (validCeiling c \<and> getf (fields_of c) ''kind'' \<notin> set kinds
      \<and> validCeilings cs (getf (fields_of c) ''kind'' # kinds))"

definition validFact :: "js \<Rightarrow> bool" where
  "validFact f \<longleftrightarrow>
     (let r = fields_of f in
      exactKeys f [''code'', ''detail'', ''source''] \<and> is_string (getf r ''code'')
      \<and> is_string (getf r ''detail'')
      \<and> (kindOf (getf r ''source'') \<noteq> None \<or> getf r ''source'' = JStr ''COMPILER''))"

definition validIssue :: "js \<Rightarrow> bool" where
  "validIssue v \<longleftrightarrow> list_ex (\<lambda>i. v = JStr (issue_text i)) EFFECTIVE_RIGHTS_ISSUE_CODES_V1"

definition verifyEffectiveRightsResultV1 :: "hash \<Rightarrow> js \<Rightarrow> js res" where
  "verifyEffectiveRightsResultV1 H v =
     (let r = fields_of v in
      if \<not> exactKeys v RESULT_KEYS then Inl RIGHTS_INVALID
      else if getf r ''schemaVersion'' \<noteq> JStr EFFECTIVE_RIGHTS_RESULT_API_VERSION
        \<or> \<not> digest_like (getf r ''inputDigest'') \<or> \<not> digest_like (getf r ''resultDigest'')
        \<or> outcomeOf (getf r ''outcome'') = None \<or> getf r ''informationalOnly'' \<noteq> JBool True
        \<or> \<not> validScopeShape (getf r ''effectiveScope'')
        \<or> \<not> exactKeys (getf r ''profileBinding'') [''profileGeneration'', ''profileId'']
        \<or> \<not> is_array (getf r ''ceilings'') \<or> \<not> is_array (getf r ''reasonFacts'')
        \<or> \<not> is_array (getf r ''issues'')
      then Inl RIGHTS_INVALID
      else res_bind (digest_js H (obj (without ''resultDigest'' r))) (\<lambda>d.
        if getf r ''resultDigest'' \<noteq> JStr d \<or> \<not> validCeilings (elems_of (getf r ''ceilings'')) []
           \<or> \<not> list_all validFact (elems_of (getf r ''reasonFacts''))
           \<or> list_ex (\<lambda>i. \<not> validIssue i) (elems_of (getf r ''issues''))
        then Inl RIGHTS_INVALID else Inr v))"

definition XRAY_TITLE :: string where
  "XRAY_TITLE = ''Permission X-ray '' @ [char_of (226 :: nat), char_of (128 :: nat), char_of (148 :: nat)]
     @ '' local synthetic facts''"

definition renderPermissionXrayV1 :: "hash \<Rightarrow> js \<Rightarrow> js res" where
  "renderPermissionXrayV1 H resultInput =
     res_bind (verifyEffectiveRightsResultV1 H resultInput) (\<lambda>result.
       let r = fields_of result in
       Inr (obj
         [(''schemaVersion'', JStr PERMISSION_XRAY_API_VERSION), (''title'', JStr XRAY_TITLE),
          (''claim'', JStr ''INFORMATIONAL_ONLY_NO_EXECUTABLE_AUTHORITY''),
          (''sourceResultDigest'', getf r ''resultDigest''), (''outcome'', getf r ''outcome''),
          (''effectiveScope'', getf r ''effectiveScope''), (''ceilings'', getf r ''ceilings''),
          (''reasonFacts'', getf r ''reasonFacts''), (''issues'', getf r ''issues''),
          (''informationalOnly'', JBool True)]))"

definition verifyPermissionXrayParityV1 :: "hash \<Rightarrow> js \<Rightarrow> js \<Rightarrow> bool" where
  "verifyPermissionXrayParityV1 H view result =
     (case res_bind (canonicalJson view) (\<lambda>a.
             res_bind (renderPermissionXrayV1 H result) (\<lambda>x.
             res_bind (canonicalJson x) (\<lambda>b. Inr (a = b)))) of
        Inl e \<Rightarrow> False
      | Inr same \<Rightarrow> same)"

subsection \<open>The synthetic input\<close>

fun syntheticScope :: "kind \<Rightarrow> rights_scope" where
  "syntheticScope PROFILE =
     \<lparr>sc_actions = [''crm.contact.create'', ''erp.order.create''],
      sc_resources = [''dolibarr.order'', ''espocrm.contact''],
      sc_fields = [''email'', ''name'', ''quantity'', ''sku''],
      sc_purposes = [''owner.review'', ''synthetic.demo''], sc_effects = [''CREATE'']\<rparr>"
| "syntheticScope _ =
     \<lparr>sc_actions = [''crm.contact.create''], sc_resources = [''espocrm.contact''],
      sc_fields = [''email'', ''name''], sc_purposes = [''synthetic.demo''], sc_effects = [''CREATE'']\<rparr>"

fun kind_lower :: "kind \<Rightarrow> string" where
  "kind_lower PROFILE = ''profile''"
| "kind_lower ASSIGNMENT = ''assignment''"
| "kind_lower CAPABILITY = ''capability''"
| "kind_lower CONSTRAINT = ''constraint''"

definition syntheticOperand :: "(kind \<Rightarrow> rights_outcome option) \<Rightarrow> kind \<Rightarrow> nat \<Rightarrow> operand" where
  "syntheticOperand overrides k index =
     \<lparr>op_kind = k, operandId = ''synthetic.'' @ kind_lower k @ ''.v1'',
      op_tenant = ''panskys-zoo-demo'', op_actor = ''agent:admin-ai-poc'',
      op_generation = int index + 1, profileId = ''SAFE_GUIDED'', profileGeneration = 1,
      decisionCeiling = (case overrides k of None \<Rightarrow> ALLOW | Some o' \<Rightarrow> o'),
      op_scope = syntheticScope k\<rparr>"

definition syntheticOperands :: "(kind \<Rightarrow> rights_outcome option) \<Rightarrow> operand list" where
  "syntheticOperands overrides = map (\<lambda>(i, k). syntheticOperand overrides k i)
     (enumerate 0 EFFECTIVE_RIGHTS_OPERAND_KINDS_V1)"

definition syntheticEffectiveRightsInputV1 :: "(kind \<Rightarrow> rights_outcome option) \<Rightarrow> js" where
  "syntheticEffectiveRightsInputV1 overrides = obj
     [(''schemaVersion'', JStr EFFECTIVE_RIGHTS_INPUT_API_VERSION),
      (''actor'', JStr ''agent:admin-ai-poc''), (''tenant'', JStr ''panskys-zoo-demo''),
      (''operands'', arr (map operand_js (syntheticOperands overrides)))]"

end
