(* ===== verification/RightsLaws.thy ===== *)
theory RightsLaws
  imports EffectiveRights
begin

text \<open>
  Properties of the effective-rights compiler: what a result that is not a denial has checked, that
  its outcome is the most restrictive ceiling and its scope the intersection, that the order of the
  operands does not matter, and what the verifier and the X-ray guarantee.
\<close>

subsection \<open>Reading operands\<close>

lemma kindOf_text [simp]: "kindOf (JStr (kind_text k)) = Some k"
  by (cases k) (simp_all add: kindOf_def EFFECTIVE_RIGHTS_OPERAND_KINDS_V1_def)

lemma outcomeOf_text [simp]: "outcomeOf (JStr (outcome_text k)) = Some k"
  by (cases k) (simp_all add: outcomeOf_def)

lemma kindOf_Some: "kindOf v = Some k \<Longrightarrow> v = JStr (kind_text k)"
  by (auto simp: kindOf_def dest: find_Some_in)

lemma outcomeOf_Some: "outcomeOf v = Some k \<Longrightarrow> v = JStr (outcome_text k)"
  unfolding outcomeOf_def by (drule find_Some_in) simp

text \<open>A scope as parsing leaves it, and one that parsing does not complain about.\<close>

definition values_norm :: "string list \<Rightarrow> bool" where
  "values_norm vs \<longleftrightarrow> vs \<noteq> [] \<and> sorted vs \<and> distinct vs"

definition scope_norm :: "rights_scope \<Rightarrow> bool" where
  "scope_norm s \<longleftrightarrow> list_all values_norm (scope_lists s)"

definition scope_known :: "rights_scope \<Rightarrow> bool" where
  "scope_known s \<longleftrightarrow> set (sc_actions s) \<subseteq> set ACTIONS \<and> set (sc_resources s) \<subseteq> set RESOURCES
     \<and> set (sc_fields s) \<subseteq> set FIELDS \<and> set (sc_purposes s) \<subseteq> set PURPOSES
     \<and> set (sc_effects s) \<subseteq> set EFFECTS"

definition operand_wf :: "operand \<Rightarrow> bool" where
  "operand_wf x \<longleftrightarrow> rx_test BOUND_IDENTIFIER (operandId x) \<and> rx_test BOUND_IDENTIFIER (op_tenant x)
     \<and> rx_test BOUND_IDENTIFIER (op_actor x) \<and> rx_test BOUND_IDENTIFIER (profileId x)
     \<and> 0 < op_generation x \<and> op_generation x \<le> max_safe
     \<and> 0 < profileGeneration x \<and> profileGeneration x \<le> max_safe
     \<and> scope_norm (op_scope x)"

lemma sortedUnique_norm: "vs \<noteq> [] \<Longrightarrow> values_norm (sortedUnique vs)"
proof -
  assume "vs \<noteq> []"
  moreover have "set (sort (uniq vs)) = set vs" by simp
  ultimately have "sort (uniq vs) \<noteq> []" by (metis set_empty)
  then show "values_norm (sortedUnique vs)" by (simp add: values_norm_def sortedUnique_def)
qed

lemma sortedUnique_id: "sorted vs \<Longrightarrow> distinct vs \<Longrightarrow> sortedUnique vs = vs"
  by (simp add: sortedUnique_def uniq_distinct sorted_sort_id)

lemma set_sortedUnique [simp]: "set (sortedUnique vs) = set vs"
  by (simp add: sortedUnique_def)

lemma validateDomains_norm:
  "fst (validateDomains r ds) = Some vss \<Longrightarrow>
     length vss = length ds \<and> list_all values_norm vss
     \<and> (snd (validateDomains r ds) = [] \<longrightarrow> list_all2 (\<lambda>vs (n, allowed). set vs \<subseteq> set allowed) vss ds)"
proof (induction ds arbitrary: vss)
  case (Cons d ds)
  obtain name allowed where d: "d = (name, allowed)" by (cases d)
  let ?es = "elems_of (getf r name)"
  obtain rest more where rest: "validateDomains r ds = (rest, more)" by (cases "validateDomains r ds")
  from Cons.prems have ok: "is_array (getf r name)" "?es \<noteq> []" "\<not> list_ex (\<lambda>e. \<not> is_string e) ?es"
    by (auto simp: d Let_def split: if_splits)
  then obtain vss' where vss: "rest = Some vss'" "vss = sortedUnique (map str_of ?es) # vss'"
    using Cons.prems by (auto simp: d rest Let_def)
  have "snd (validateDomains r (d # ds)) = [] \<Longrightarrow> set (map str_of ?es) \<subseteq> set allowed \<and> more = []"
    using ok by (auto simp: d rest Let_def list_ex_iff split: if_splits)
  then show ?case
    using Cons.IH [of vss'] vss ok sortedUnique_norm [of "map str_of ?es"] by (auto simp: rest d)
qed simp

lemma scope_lists_of: "length vss = 5 \<Longrightarrow> scope_lists (scope_of_lists vss) = vss"
  by (auto simp: scope_lists_def scope_of_lists_def numeral_eq_Suc length_Suc_conv)

lemma validateScope_norm:
  assumes "fst (validateScope v) = Some s"
  shows "scope_norm s" "snd (validateScope v) = [] \<Longrightarrow> scope_known s"
proof -
  obtain vss where d: "fst (validateDomains (fields_of v) SCOPE_DOMAINS) = Some vss"
    and s: "s = scope_of_lists vss" and snd: "snd (validateScope v) = snd (validateDomains (fields_of v) SCOPE_DOMAINS)"
    using assms by (auto simp: validateScope_def split: if_splits)
  note n = validateDomains_norm [OF d]
  then have len: "length vss = 5" by (simp add: SCOPE_DOMAINS_def)
  show "scope_norm s" using n by (simp add: scope_norm_def s scope_lists_of [OF len])
  obtain a b c x y where "vss = [a, b, c, x, y]"
    using len by (auto simp: numeral_eq_Suc length_Suc_conv)
  then show "scope_known s" if "snd (validateScope v) = []"
    using n that by (simp add: snd s scope_known_def scope_of_lists_def SCOPE_DOMAINS_def)
qed

lemma parseOperand_Some:
  assumes "fst (parseOperand v) = Some x"
  shows "operand_wf x" "snd (parseOperand v) = [] \<Longrightarrow> scope_known (op_scope x)"
proof -
  let ?r = "fields_of v"
  obtain k c s where k: "kindOf (getf ?r ''kind'') = Some k"
    and ids: "isBoundIdentifier (getf ?r ''operandId'')" "isBoundIdentifier (getf ?r ''tenant'')"
      "isBoundIdentifier (getf ?r ''actor'')" "isBoundIdentifier (getf ?r ''profileId'')"
    and gens: "isPositiveGeneration (getf ?r ''generation'')" "isPositiveGeneration (getf ?r ''profileGeneration'')"
    and s: "fst (validateScope (getf ?r ''scope'')) = Some s" "snd (parseOperand v) = snd (validateScope (getf ?r ''scope''))"
    and x: "x = \<lparr>op_kind = k, operandId = str_of (getf ?r ''operandId''),
                 op_tenant = str_of (getf ?r ''tenant''), op_actor = str_of (getf ?r ''actor''),
                 op_generation = int_of_js (getf ?r ''generation''),
                 profileId = str_of (getf ?r ''profileId''),
                 profileGeneration = int_of_js (getf ?r ''profileGeneration''),
                 decisionCeiling = the (outcomeOf (getf ?r ''decisionCeiling'')),
                 op_scope = s\<rparr>"
    using assms by (auto simp: parseOperand_def Let_def split_beta split: if_splits option.splits)
  show "operand_wf x"
    using ids gens validateScope_norm(1) [OF s(1)]
    by (auto simp: operand_wf_def x isBoundIdentifier_iff isPositiveGeneration_iff)
  show "scope_known (op_scope x)" if "snd (parseOperand v) = []"
    using validateScope_norm(2) [OF s(1)] that s(2) by (simp add: x)
qed

lemma validateScope_None: "fst (validateScope v) = None \<Longrightarrow> snd (validateScope v) \<noteq> []"
proof -
  have "fst (validateDomains r ds) = None \<Longrightarrow> snd (validateDomains r ds) \<noteq> []" for r ds
    by (induction r ds rule: validateDomains.induct) (auto simp: Let_def split_beta split: if_splits)
  then show "fst (validateScope v) = None \<Longrightarrow> snd (validateScope v) \<noteq> []"
    by (auto simp: validateScope_def)
qed

lemma parseOperand_None: "fst (parseOperand v) = None \<Longrightarrow> snd (parseOperand v) \<noteq> []"
  using validateScope_None [of "getf (fields_of v) ''scope''"]
  by (auto simp: parseOperand_def Let_def split_beta split: if_splits option.splits)

text \<open>What is well formed and known, parsing reads back.\<close>

lemma validateDomains_read:
  assumes "values_norm vs" "set vs \<subseteq> set allowed" "getf r name = strs_js vs"
  shows "validateDomains r ((name, allowed) # ds)
    = (map_option (\<lambda>vss. vs # vss) (fst (validateDomains r ds)), snd (validateDomains r ds))"
proof -
  have "map str_of (map JStr vs) = vs" by (induction vs) simp_all
  then show ?thesis
    using assms
    by (auto simp: values_norm_def Let_def list_ex_iff is_string_def uniq_distinct sortedUnique_id split_beta)
qed

lemma validateScope_scope_js:
  assumes "scope_norm s" "scope_known s"
  shows "validateScope (scope_js s) = (Some s, [])"
proof -
  have k: "exactKeys (scope_js s) SCOPE_KEYS"
    unfolding scope_js_def by (rule exactKeys_mset) (simp add: SCOPE_KEYS_def)
  have r: "getf (fields_of (scope_js s)) ''actions'' = strs_js (sc_actions s)"
    "getf (fields_of (scope_js s)) ''resources'' = strs_js (sc_resources s)"
    "getf (fields_of (scope_js s)) ''fields'' = strs_js (sc_fields s)"
    "getf (fields_of (scope_js s)) ''purposes'' = strs_js (sc_purposes s)"
    "getf (fields_of (scope_js s)) ''effects'' = strs_js (sc_effects s)"
    by (simp_all add: scope_js_def)
  note n = assms [unfolded scope_norm_def scope_known_def scope_lists_def list.pred_inject]
  have "validateDomains (fields_of (scope_js s)) SCOPE_DOMAINS = (Some (scope_lists s), [])"
    unfolding SCOPE_DOMAINS_def scope_lists_def using n
    by (simp only: validateDomains_read [OF _ _ r(1)] validateDomains_read [OF _ _ r(2)]
        validateDomains_read [OF _ _ r(3)] validateDomains_read [OF _ _ r(4)]
        validateDomains_read [OF _ _ r(5)] validateDomains.simps(1) fst_conv snd_conv option.map simp_thms)
  then show ?thesis
    using k by (simp add: validateScope_def scope_of_lists_def scope_lists_def)
qed

lemma parseOperand_operand_js:
  assumes "operand_wf x" "scope_known (op_scope x)"
  shows "parseOperand (operand_js x) = (Some x, [])"
proof -
  have k: "exactKeys (operand_js x) OPERAND_KEYS"
    unfolding operand_js_def by (rule exactKeys_mset) (simp add: OPERAND_KEYS_def)
  have r: "is_record (operand_js x)"
    "getf (fields_of (operand_js x)) ''kind'' = JStr (kind_text (op_kind x))"
    "getf (fields_of (operand_js x)) ''operandId'' = JStr (operandId x)"
    "getf (fields_of (operand_js x)) ''tenant'' = JStr (op_tenant x)"
    "getf (fields_of (operand_js x)) ''actor'' = JStr (op_actor x)"
    "getf (fields_of (operand_js x)) ''profileId'' = JStr (profileId x)"
    "getf (fields_of (operand_js x)) ''generation'' = jint (op_generation x)"
    "getf (fields_of (operand_js x)) ''profileGeneration'' = jint (profileGeneration x)"
    "getf (fields_of (operand_js x)) ''decisionCeiling'' = JStr (outcome_text (decisionCeiling x))"
    "getf (fields_of (operand_js x)) ''scope'' = scope_js (op_scope x)"
    by (simp_all add: operand_js_def)
  show ?thesis
    using assms k by (simp add: parseOperand_def Let_def r isBoundIdentifier_iff isPositiveGeneration_iff
        operand_wf_def validateScope_scope_js)
qed

subsection \<open>The result of a compilation\<close>

definition parsed :: "js \<Rightarrow> operand list" where
  "parsed input = fst (parseOperands (elems_of (getf (fields_of input) ''operands'')))"

lemma sealResult_simps [simp]:
  "inputDigest (sealResult H c) = inputDigest c" "er_actor (sealResult H c) = er_actor c"
  "er_tenant (sealResult H c) = er_tenant c" "er_profileId (sealResult H c) = er_profileId c"
  "er_profileGeneration (sealResult H c) = er_profileGeneration c"
  "er_outcome (sealResult H c) = er_outcome c" "effectiveScope (sealResult H c) = effectiveScope c"
  "ceilings (sealResult H c) = ceilings c" "reasonFacts (sealResult H c) = reasonFacts c"
  "er_issues (sealResult H c) = er_issues c" "resultDigest (sealResult H c) = digest_of H (core_js c)"
  "core_fields (sealResult H c) = core_fields c" "core_js (sealResult H c) = core_js c"
  by (simp_all add: sealResult_def rights_core.defs rights_result.defs core_fields_def core_js_def)

lemma compile_fields:
  "er_issues (compileEffectiveRightsV1 H i) = buildIssues (parsed i) (compileIssues i)"
  "er_outcome (compileEffectiveRightsV1 H i) =
     (if buildIssues (parsed i) (compileIssues i) \<noteq> [] then DENY
      else if list_ex (\<lambda>x. decisionCeiling x = ESCALATE) (parsed i) then ESCALATE else ALLOW)"
  "effectiveScope (compileEffectiveRightsV1 H i) = intersectScopes (parsed i)"
  "ceilings (compileEffectiveRightsV1 H i) = map (ceilingOf H) (by_kind (parsed i))"
  "er_actor (compileEffectiveRightsV1 H i) = boundOrNull (getf (fields_of i) ''actor'')"
  "er_tenant (compileEffectiveRightsV1 H i) = boundOrNull (getf (fields_of i) ''tenant'')"
  by (simp_all add: compileEffectiveRightsV1_def buildResult_def parsed_def Let_def)

lemma set_sortIssues [simp]: "set (sortIssues is) = set is"
  by (simp add: sortIssues_def)

lemma sortIssues_Nil [simp]: "sortIssues is = [] \<longleftrightarrow> is = []"
  using set_sortIssues [of "is"] by (metis set_empty)

lemma buildIssues_Nil:
  "buildIssues ops is = [] \<longleftrightarrow> is = []
     \<and> (length ops = 4 \<longrightarrow> [] \<notin> set (scope_lists (intersectScopes ops)))
     \<and> (\<forall>x \<in> set ops. decisionCeiling x \<noteq> DENY)"
  by (auto simp: buildIssues_def list_ex_iff)

lemma count_kinds: "count (mset (map op_kind ops)) k = length (filter (\<lambda>x. op_kind x = k) ops)"
  by (induction ops) auto

lemma kindIssues_Nil:
  "kindIssues ops = [] \<longleftrightarrow> mset (map op_kind ops) = {#PROFILE, ASSIGNMENT, CAPABILITY, CONSTRAINT#}"
proof -
  have one: "countIssues n = [] \<longleftrightarrow> n = 1" for n by (auto simp: countIssues_def)
  have "kindIssues ops = [] \<longleftrightarrow> (\<forall>k \<in> set EFFECTIVE_RIGHTS_OPERAND_KINDS_V1.
      length (filter (\<lambda>x. op_kind x = k) ops) = 1)"
    by (auto simp: kindIssues_def one)
  also have "\<dots> \<longleftrightarrow> (\<forall>k. count (mset (map op_kind ops)) k = 1)"
  proof -
    have "k \<in> set EFFECTIVE_RIGHTS_OPERAND_KINDS_V1" for k
      by (cases k) (simp_all add: EFFECTIVE_RIGHTS_OPERAND_KINDS_V1_def)
    then show ?thesis unfolding count_kinds by blast
  qed
  also have "\<dots> \<longleftrightarrow> mset (map op_kind ops) = {#PROFILE, ASSIGNMENT, CAPABILITY, CONSTRAINT#}"
  proof
    assume one: "\<forall>k. count (mset (map op_kind ops)) k = 1"
    show "mset (map op_kind ops) = {#PROFILE, ASSIGNMENT, CAPABILITY, CONSTRAINT#}"
    proof (rule multiset_eqI)
      fix k
      show "count (mset (map op_kind ops)) k = count {#PROFILE, ASSIGNMENT, CAPABILITY, CONSTRAINT#} k"
        using one by (cases k) simp_all
    qed
  next
    assume m: "mset (map op_kind ops) = {#PROFILE, ASSIGNMENT, CAPABILITY, CONSTRAINT#}"
    show "\<forall>k. count (mset (map op_kind ops)) k = 1"
    proof
      fix k show "count (mset (map op_kind ops)) k = 1" unfolding m by (cases k) simp_all
    qed
  qed
  finally show ?thesis .
qed

lemma bindingIssues_Nil:
  assumes "PROFILE \<in> set (map op_kind ops)"
  shows "bindingIssues actor tenant ops = [] \<longleftrightarrow>
    (\<exists>p g. \<forall>x \<in> set ops. actor = Some (op_actor x) \<and> tenant = Some (op_tenant x)
       \<and> profileId x = p \<and> profileGeneration x = g)"
proof -
  obtain pr where pr: "List.find (\<lambda>x. op_kind x = PROFILE) ops = Some pr"
    using assms by (cases "List.find (\<lambda>x. op_kind x = PROFILE) ops") (auto simp: find_None_all)
  then have "pr \<in> set ops" by (auto dest: find_Some_in)
  moreover have "bindingIssues actor tenant ops = [] \<longleftrightarrow>
    (\<forall>x \<in> set ops. actor = Some (op_actor x) \<and> tenant = Some (op_tenant x)
       \<and> profileId x = profileId pr \<and> profileGeneration x = profileGeneration pr)"
    by (auto simp: bindingIssues_def pr split: if_splits)
  ultimately show ?thesis by (metis (no_types, lifting))
qed

text \<open>A value that parses without an issue is not dropped.\<close>

lemma parsed_all:
  assumes "concat (map (\<lambda>v. snd (parseOperand v)) vs) = []"
  shows "map (\<lambda>v. fst (parseOperand v)) vs = map Some (List.map_filter (\<lambda>v. fst (parseOperand v)) vs)"
  using assms
proof (induction vs)
  case (Cons v vs)
  then obtain x where "fst (parseOperand v) = Some x"
    using parseOperand_None [of v] by (cases "fst (parseOperand v)") auto
  with Cons show ?case by (simp add: map_filter_simps)
qed (simp add: map_filter_simps)

lemma parsed_wf: "x \<in> set (parsed i) \<Longrightarrow> operand_wf x"
  by (auto simp: parsed_def parseOperands_def map_filter_def intro: parseOperand_Some)

subsection \<open>Permissive results\<close>

text \<open>
  \<open>coherent actor tenant ops\<close>: one operand of each kind, all for the same actor, tenant, profile
  and profile generation, none of them a denial, with scopes of known values that intersect in
  every domain.
\<close>

definition coherent :: "string option \<Rightarrow> string option \<Rightarrow> operand list \<Rightarrow> bool" where
  "coherent actor tenant ops \<longleftrightarrow>
     mset (map op_kind ops) = {#PROFILE, ASSIGNMENT, CAPABILITY, CONSTRAINT#}
     \<and> (\<exists>p g. \<forall>x \<in> set ops. actor = Some (op_actor x) \<and> tenant = Some (op_tenant x)
          \<and> profileId x = p \<and> profileGeneration x = g)
     \<and> (\<forall>x \<in> set ops. operand_wf x \<and> scope_known (op_scope x) \<and> decisionCeiling x \<noteq> DENY)
     \<and> [] \<notin> set (scope_lists (intersectScopes ops))"

lemma kinds_four: "mset (map op_kind ops) = {#PROFILE, ASSIGNMENT, CAPABILITY, CONSTRAINT#} \<Longrightarrow>
    length ops = 4 \<and> PROFILE \<in> set (map op_kind ops)"
proof -
  assume m: "mset (map op_kind ops) = {#PROFILE, ASSIGNMENT, CAPABILITY, CONSTRAINT#}"
  then have "size (mset (map op_kind ops)) = 4" "PROFILE \<in># mset (map op_kind ops)" by simp_all
  then show ?thesis by simp
qed

lemma issues_Nil_iff:
  "buildIssues (parsed i) (compileIssues i) = [] \<longleftrightarrow>
     inputIssues i = [] \<and> list_all (\<lambda>v. snd (parseOperand v) = []) (elems_of (getf (fields_of i) ''operands''))
     \<and> coherent (boundOrNull (getf (fields_of i) ''actor'')) (boundOrNull (getf (fields_of i) ''tenant''))
         (parsed i)"
proof -
  let ?vs = "elems_of (getf (fields_of i) ''operands'')"
  have known: "scope_known (op_scope x)" if "list_all (\<lambda>v. snd (parseOperand v) = []) ?vs" "x \<in> set (parsed i)" for x
    using that parseOperand_Some(2) by (fastforce simp: parsed_def parseOperands_def map_filter_def list_all_iff)
  have "compileIssues i = [] \<longleftrightarrow> inputIssues i = [] \<and> list_all (\<lambda>v. snd (parseOperand v) = []) ?vs
      \<and> kindIssues (parsed i) = []
      \<and> bindingIssues (boundOrNull (getf (fields_of i) ''actor''))
          (boundOrNull (getf (fields_of i) ''tenant'')) (parsed i) = []"
    by (auto simp: compileIssues_def Let_def parsed_def parseOperands_def list_all_iff)
  then show ?thesis
    unfolding buildIssues_Nil coherent_def kindIssues_Nil
    using kinds_four [of "parsed i"] bindingIssues_Nil [of "parsed i"] known parsed_wf by blast
qed

lemma set_intersection:
  "ops \<noteq> [] \<Longrightarrow> set (intersection ops f) = (\<Inter>x \<in> set ops. set (f (op_scope x)))"
  by (cases ops) (auto simp: list_all_iff)

lemma scope_lists_intersect:
  "length ops = 4 \<Longrightarrow> scope_lists (intersectScopes ops)
     = map (intersection ops) [sc_actions, sc_resources, sc_fields, sc_purposes, sc_effects]"
  by (simp add: intersectScopes_def scope_lists_def)

text \<open>A scope within another, domain by domain.\<close>

definition scope_within :: "rights_scope \<Rightarrow> rights_scope \<Rightarrow> bool" where
  "scope_within s t \<longleftrightarrow> list_all2 (\<lambda>vs ws. set vs \<subseteq> set ws) (scope_lists s) (scope_lists t)"

lemma intersect_within: "x \<in> set ops \<Longrightarrow> scope_within (intersectScopes ops) (op_scope x)"
proof (cases "length ops = 4")
  case True
  assume x: "x \<in> set ops"
  then have "set (intersection ops f) \<subseteq> set (f (op_scope x))" for f
    using set_intersection [of ops f] by (cases "ops = []") auto
  then show ?thesis
    by (simp add: scope_within_def scope_lists_def intersectScopes_def True)
qed (simp add: scope_within_def intersectScopes_def scope_lists_def emptyScope_def)

lemma sort_key_mset:
  assumes "mset xs = mset ys" "inj_on f (set xs)"
  shows "sort_key f xs = sort_key f ys"
proof (rule properties_for_sort_key)
  show "mset (sort_key f ys) = mset xs" using assms(1) by simp
  fix k assume "k \<in> set (sort_key f ys)"
  then have k: "k \<in> set xs" using assms(1) by (metis mset_sort set_mset_mset)
  have set_eq: "set ys = set xs" using assms(1) by (metis set_mset_mset)
  have same: "filter (\<lambda>x. f k = f x) zs = replicate (count (mset zs) k) k" if "set zs = set xs" for zs
    unfolding replicate_count_mset_eq_filter_eq
    by (rule filter_cong) (use assms(2) k that in \<open>auto dest: inj_onD\<close>)
  show "filter (\<lambda>x. f k = f x) (sort_key f ys) = filter (\<lambda>x. f k = f x) xs"
    using same [of "sort_key f ys"] same [of xs] assms(1) set_eq by simp
qed simp

lemma sortIssues_cong:
  assumes "set a = set b"
  shows "sortIssues a = sortIssues b"
  unfolding sortIssues_def
  by (rule sort_key_mset) (use assms in \<open>simp_all add: set_eq_iff_mset_eq_distinct [symmetric] inj_on_def\<close>)

subsection \<open>The compiler\<close>

text \<open>
  C19: The compiler permits exactly what is coherent. Its outcome is other than a denial if and only
  if the input has exactly the four keys, the right version, an actor and a tenant and a list of
  operands; every operand parses without an issue; and the operands are coherent: one of each kind,
  all for that actor and tenant and for one profile and profile generation, no ceiling a denial, every
  scope value known, and a non-empty intersection in each of the five domains.
\<close>

theorem permits_iff_coherent:
  "er_outcome (compileEffectiveRightsV1 H i) \<noteq> DENY \<longleftrightarrow>
     exactKeys i INPUT_KEYS \<and> getf (fields_of i) ''schemaVersion'' = JStr EFFECTIVE_RIGHTS_INPUT_API_VERSION
     \<and> isBoundIdentifier (getf (fields_of i) ''actor'') \<and> isBoundIdentifier (getf (fields_of i) ''tenant'')
     \<and> is_array (getf (fields_of i) ''operands'')
     \<and> list_all (\<lambda>v. snd (parseOperand v) = []) (elems_of (getf (fields_of i) ''operands''))
     \<and> coherent (boundOrNull (getf (fields_of i) ''actor'')) (boundOrNull (getf (fields_of i) ''tenant''))
         (parsed i)"
proof -
  have "er_outcome (compileEffectiveRightsV1 H i) \<noteq> DENY \<longleftrightarrow> buildIssues (parsed i) (compileIssues i) = []"
    by (simp add: compile_fields)
  moreover have "inputIssues i = [] \<longleftrightarrow>
     exactKeys i INPUT_KEYS \<and> getf (fields_of i) ''schemaVersion'' = JStr EFFECTIVE_RIGHTS_INPUT_API_VERSION
     \<and> isBoundIdentifier (getf (fields_of i) ''actor'') \<and> isBoundIdentifier (getf (fields_of i) ''tenant'')
     \<and> is_array (getf (fields_of i) ''operands'')"
    by (auto simp: inputIssues_def Let_def boundOrNull_def)
  ultimately show ?thesis by (simp only: issues_Nil_iff conj_assoc)
qed

text \<open>The synthetic input of the demo is coherent.\<close>

lemma synthetic_operand_wf:
  "operand_wf (syntheticOperand f k n)" "scope_known (op_scope (syntheticOperand f k n))"
  if "n < 100"
proof -
  have t: "rx_test BOUND_IDENTIFIER (''synthetic.'' @ kind_lower k @ ''.v1'')"
    by (cases k; simp only: kind_lower.simps append.simps; code_simp)
  have u: "rx_test BOUND_IDENTIFIER ''panskys-zoo-demo''" "rx_test BOUND_IDENTIFIER ''agent:admin-ai-poc''"
    "rx_test BOUND_IDENTIFIER ''SAFE_GUIDED''"
    by code_simp+
  have "scope_norm (syntheticScope k)" by (cases k; simp only:; code_simp)
  then show "operand_wf (syntheticOperand f k n)"
    using t u that by (simp add: operand_wf_def syntheticOperand_def max_safe_def)
  have "scope_known (syntheticScope k)"
    by (cases k) (simp_all add: scope_known_def ACTIONS_def RESOURCES_def FIELDS_def PURPOSES_def EFFECTS_def)
  then show "scope_known (op_scope (syntheticOperand f k n))" by (simp add: syntheticOperand_def)
qed

lemma syntheticOperands_list:
  "syntheticOperands f = [syntheticOperand f PROFILE 0, syntheticOperand f ASSIGNMENT 1,
     syntheticOperand f CAPABILITY 2, syntheticOperand f CONSTRAINT 3]"
  by (simp add: syntheticOperands_def EFFECTIVE_RIGHTS_OPERAND_KINDS_V1_def numeral_eq_Suc)

lemma synthetic_parsed:
  "map parseOperand (elems_of (getf (fields_of (syntheticEffectiveRightsInputV1 f)) ''operands''))
     = map (\<lambda>x. (Some x, [])) (syntheticOperands f)"
  "parsed (syntheticEffectiveRightsInputV1 f) = syntheticOperands f"
proof -
  have p: "parseOperand (operand_js x) = (Some x, [])" if "x \<in> set (syntheticOperands f)" for x
    using that by (intro parseOperand_operand_js) (auto simp: syntheticOperands_list synthetic_operand_wf)
  then show "map parseOperand (elems_of (getf (fields_of (syntheticEffectiveRightsInputV1 f)) ''operands''))
     = map (\<lambda>x. (Some x, [])) (syntheticOperands f)"
    by (simp add: syntheticEffectiveRightsInputV1_def)
  have "List.map_filter (\<lambda>v. fst (parseOperand v)) (map operand_js xs) = xs"
    if "\<forall>x \<in> set xs. parseOperand (operand_js x) = (Some x, [])" for xs
    using that by (induction xs) (simp_all add: map_filter_simps)
  with p show "parsed (syntheticEffectiveRightsInputV1 f) = syntheticOperands f"
    by (simp add: parsed_def parseOperands_def syntheticEffectiveRightsInputV1_def)
qed

lemma synthetic_permits:
  assumes "\<forall>k. f k \<noteq> Some DENY"
  shows "er_outcome (compileEffectiveRightsV1 H (syntheticEffectiveRightsInputV1 f)) \<noteq> DENY"
proof -
  let ?i = "syntheticEffectiveRightsInputV1 f"
  have u: "rx_test BOUND_IDENTIFIER ''panskys-zoo-demo''" "rx_test BOUND_IDENTIFIER ''agent:admin-ai-poc''"
    by code_simp+
  have fields: "getf (fields_of ?i) ''actor'' = JStr ''agent:admin-ai-poc''"
    "getf (fields_of ?i) ''tenant'' = JStr ''panskys-zoo-demo''"
    "getf (fields_of ?i) ''schemaVersion'' = JStr EFFECTIVE_RIGHTS_INPUT_API_VERSION"
    "is_array (getf (fields_of ?i) ''operands'')"
    by (simp_all add: syntheticEffectiveRightsInputV1_def)
  have "exactKeys ?i INPUT_KEYS"
    unfolding syntheticEffectiveRightsInputV1_def by (rule exactKeys_mset) (simp add: INPUT_KEYS_def)
  moreover have "set (map snd (map parseOperand (elems_of (getf (fields_of ?i) ''operands'')))) \<subseteq> {[]}"
    unfolding synthetic_parsed(1) by auto
  then have "list_all (\<lambda>v. snd (parseOperand v) = []) (elems_of (getf (fields_of ?i) ''operands''))"
    by (auto simp: list_all_iff)
  moreover have "coherent (Some ''agent:admin-ai-poc'') (Some ''panskys-zoo-demo'') (syntheticOperands f)"
  proof -
    have "[] \<notin> set (scope_lists (intersectScopes (syntheticOperands f)))"
      by (simp add: syntheticOperands_list intersectScopes_def scope_lists_def syntheticOperand_def)
    then show ?thesis
      using assms by (auto simp: coherent_def syntheticOperands_list synthetic_operand_wf)
        (auto simp: syntheticOperand_def split: option.splits)
  qed
  ultimately show ?thesis
    unfolding permits_iff_coherent using fields u
    by (simp add: isBoundIdentifier_iff boundOrNull_def synthetic_parsed)
qed

lemma permissive_min:
  assumes "coherent a t ops"
  shows "(if list_ex (\<lambda>x. decisionCeiling x = ESCALATE) ops then ESCALATE else ALLOW)
    = Min (decisionCeiling ` set ops)"
proof -
  have ne: "set ops \<noteq> {}" using kinds_four [of ops] assms by (auto simp: coherent_def)
  have nd: "decisionCeiling x \<noteq> DENY" if "x \<in> set ops" for x using that assms by (auto simp: coherent_def)
  show ?thesis
  proof (cases "list_ex (\<lambda>x. decisionCeiling x = ESCALATE) ops")
    case True
    have "ESCALATE \<le> decisionCeiling x" if "x \<in> set ops" for x
      using nd [OF that] by (cases "decisionCeiling x") (simp_all add: less_eq_rights_outcome_def)
    moreover have "ESCALATE \<in> decisionCeiling ` set ops"
      using True by (force simp: list_ex_iff)
    ultimately have "Min (decisionCeiling ` set ops) = ESCALATE" by (intro Min_eqI) auto
    then show ?thesis using True by simp
  next
    case False
    then have "decisionCeiling x = ALLOW" if "x \<in> set ops" for x
      using nd [OF that] that by (cases "decisionCeiling x") (auto simp: list_ex_iff)
    then have "decisionCeiling ` set ops = (\<lambda>x. ALLOW) ` set ops" by (intro image_cong) auto
    then have "decisionCeiling ` set ops = {ALLOW}" using ne by (simp add: image_constant_conv)
    then show ?thesis using False by simp
  qed
qed

lemma deny_le [simp]: "DENY \<le> o'"
  by (simp add: less_eq_rights_outcome_def)

text \<open>
  C18: Rights only shrink. The outcome never permits more than any operand's ceiling, and the effective
  scope lies within the scope of every operand, domain by domain, whatever the input. When the outcome
  is not a denial it is exactly the most restrictive ceiling, and the effective scope is exactly the
  intersection.
\<close>

theorem rights_only_shrink:
  shows "(\<forall>x \<in> set (parsed i). er_outcome (compileEffectiveRightsV1 H i) \<le> decisionCeiling x
       \<and> scope_within (effectiveScope (compileEffectiveRightsV1 H i)) (op_scope x))
    \<and> (er_outcome (compileEffectiveRightsV1 H i) \<noteq> DENY \<longrightarrow>
         er_outcome (compileEffectiveRightsV1 H i) = Min (decisionCeiling ` set (parsed i))
         \<and> map set (scope_lists (effectiveScope (compileEffectiveRightsV1 H i)))
             = map (\<lambda>f. \<Inter>x \<in> set (parsed i). set (f (op_scope x)))
                 [sc_actions, sc_resources, sc_fields, sc_purposes, sc_effects])"
proof -
  let ?r = "compileEffectiveRightsV1 H i"
  have permissive: "er_outcome ?r = Min (decisionCeiling ` set (parsed i))
      \<and> length (parsed i) = 4" if d: "er_outcome ?r \<noteq> DENY"
  proof -
    have nil: "buildIssues (parsed i) (compileIssues i) = []"
      using d by (auto simp: compile_fields split: if_splits)
    then have c: "coherent (boundOrNull (getf (fields_of i) ''actor''))
        (boundOrNull (getf (fields_of i) ''tenant'')) (parsed i)"
      by (simp add: issues_Nil_iff)
    have "er_outcome ?r = (if list_ex (\<lambda>x. decisionCeiling x = ESCALATE) (parsed i) then ESCALATE else ALLOW)"
      using nil by (simp add: compile_fields)
    also have "\<dots> = Min (decisionCeiling ` set (parsed i))" by (rule permissive_min [OF c])
    finally show ?thesis using c kinds_four unfolding coherent_def by blast
  qed
  have le: "er_outcome ?r \<le> decisionCeiling x" if "x \<in> set (parsed i)" for x
  proof (cases "er_outcome ?r = DENY")
    case False
    then show ?thesis using permissive that by (simp add: Min_le)
  qed simp
  have "map set (scope_lists (effectiveScope ?r)) = map (\<lambda>f. \<Inter>x \<in> set (parsed i). set (f (op_scope x)))
      [sc_actions, sc_resources, sc_fields, sc_purposes, sc_effects]" if "er_outcome ?r \<noteq> DENY"
  proof -
    have len: "length (parsed i) = 4" using permissive [OF that] by simp
    then have "parsed i \<noteq> []" by auto
    from set_intersection [OF this] show ?thesis
      by (simp add: compile_fields scope_lists_intersect [OF len])
  qed
  with le permissive show ?thesis by (simp add: compile_fields intersect_within)
qed

lemma rights_only_shrink_witness:
  "er_outcome (compileEffectiveRightsV1 (\<lambda>t. t)
       (syntheticEffectiveRightsInputV1 (\<lambda>k. if k = CONSTRAINT then Some ESCALATE else None))) = ESCALATE"
proof -
  let ?f = "\<lambda>k. if k = CONSTRAINT then Some ESCALATE else None"
  have "er_outcome (compileEffectiveRightsV1 (\<lambda>t. t) (syntheticEffectiveRightsInputV1 ?f))
      = Min (decisionCeiling ` set (syntheticOperands ?f))"
    using rights_only_shrink [where H = "\<lambda>t. t" and i = "syntheticEffectiveRightsInputV1 ?f"]
      synthetic_permits [of ?f "\<lambda>t. t"] by (simp add: synthetic_parsed)
  also have "\<dots> = ESCALATE"
    by (rule Min_eqI) (auto simp: syntheticOperands_list syntheticOperand_def less_eq_rights_outcome_def)
  finally show ?thesis .
qed

subsection \<open>The order of the operands\<close>

definition rights_input :: "js \<Rightarrow> js \<Rightarrow> js \<Rightarrow> js list \<Rightarrow> js" where
  "rights_input version actor tenant vs = obj [(''schemaVersion'', version), (''actor'', actor),
     (''tenant'', tenant), (''operands'', arr vs)]"

lemma find_mset:
  assumes "mset xs = mset ys" "distinct (map f xs)"
  shows "List.find (\<lambda>x. f x = k) xs = List.find (\<lambda>x. f x = k) ys"
proof -
  have s: "set xs = set ys" using assms(1) by (rule mset_eq_setD)
  show ?thesis
  proof (cases "List.find (\<lambda>x. f x = k) xs")
    case None
    then have "List.find (\<lambda>x. f x = k) ys = None" using s by (simp add: find_None_all)
    with None show ?thesis by simp
  next
    case (Some x)
    then have x: "x \<in> set ys" "f x = k" using s by (auto dest: find_Some_in)
    then obtain y where y: "List.find (\<lambda>x. f x = k) ys = Some y"
      by (cases "List.find (\<lambda>x. f x = k) ys") (auto simp: find_None_all)
    then have "y \<in> set xs" "f y = k" using s by (auto dest: find_Some_in)
    then have "y = x" using assms(2) x s by (auto simp: distinct_map dest: inj_onD)
    with Some y show ?thesis by simp
  qed
qed

lemma intersection_mset:
  assumes "set xs = set ys" "\<forall>x \<in> set xs. distinct (f (op_scope x))"
  shows "intersection xs f = intersection ys f"
proof -
  have d: "distinct (intersection zs f)" if "\<forall>x \<in> set zs. distinct (f (op_scope x))" for zs
    using that by (cases zs) simp_all
  have s: "sorted (intersection zs f)" for zs by (cases zs) simp_all
  have "set (intersection xs f) = set (intersection ys f)"
    using set_intersection [of xs f] set_intersection [of ys f] assms(1)
    by (cases xs; cases ys) (auto simp del: intersection.simps(2) simp: list_all_iff)
  moreover have "distinct (intersection xs f)" "distinct (intersection ys f)"
    using assms by (auto intro: d)
  ultimately show ?thesis using s by (metis sorted_distinct_set_unique)
qed

lemma build_mset:
  assumes m: "mset xs = mset ys" and k: "distinct (map op_kind xs)"
    and wf: "\<forall>x \<in> set xs. operand_wf x" and i: "set is = set js"
  shows "buildResult H d a t xs is = buildResult H d a t ys js"
    and "by_kind xs = by_kind ys"
proof -
  have s: "set xs = set ys" "length xs = length ys" using m by (auto dest: mset_eq_setD mset_eq_length)
  have "inj_on (\<lambda>x. kind_text (op_kind x)) (set xs)"
    using k by (auto simp: distinct_map inj_on_def)
  then show b: "by_kind xs = by_kind ys"
    unfolding by_kind_def using m by (intro sort_key_mset)
  have "distinct (f (op_scope x))" if "x \<in> set xs" "f \<in> {sc_actions, sc_resources, sc_fields, sc_purposes, sc_effects}" for f x
    using wf that by (auto simp: operand_wf_def scope_norm_def scope_lists_def values_norm_def)
  then have sc: "intersectScopes xs = intersectScopes ys"
    using s intersection_mset [OF s(1)] by (simp add: intersectScopes_def)
  have "buildIssues xs is = buildIssues ys js"
    unfolding buildIssues_def sc using s i by (intro sortIssues_cong) (auto simp: list_ex_iff)
  moreover have "list_ex P xs = list_ex P ys" for P using s by (simp add: list_ex_iff)
  moreover have "List.find (\<lambda>x. op_kind x = PROFILE) xs = List.find (\<lambda>x. op_kind x = PROFILE) ys"
    by (rule find_mset [OF m k])
  ultimately show "buildResult H d a t xs is = buildResult H d a t ys js"
    unfolding buildResult_def Let_def b sc by (simp only:)
qed

text \<open>
  The order in which the operands are listed does not matter, down to the digests, when no kind
  occurs twice.
\<close>

theorem operand_order_irrelevant:
  assumes "mset vs = mset ws" "distinct (map op_kind (fst (parseOperands vs)))"
  shows "compileEffectiveRightsV1 H (rights_input ver actor tenant vs)
    = compileEffectiveRightsV1 H (rights_input ver actor tenant ws)"
proof -
  let ?i = "rights_input ver actor tenant vs" and ?j = "rights_input ver actor tenant ws"
  let ?xs = "fst (parseOperands vs)" and ?ys = "fst (parseOperands ws)"
  let ?a = "boundOrNull actor" and ?t = "boundOrNull tenant"
  have m: "mset ?xs = mset ?ys" using assms(1) by (simp add: parseOperands_def map_filter_def)
  then have s: "set ?xs = set ?ys" by (rule mset_eq_setD)
  have vs: "set vs = set ws" using assms(1) by (rule mset_eq_setD)
  have wf: "\<forall>x \<in> set ?xs. operand_wf x"
    by (auto simp: parseOperands_def map_filter_def intro: parseOperand_Some)
  have kinds: "kindIssues ?xs = kindIssues ?ys"
  proof -
    have "length (filter P ?xs) = length (filter P ?ys)" for P
      using m by (metis mset_filter size_mset)
    then show ?thesis by (simp add: kindIssues_def)
  qed
  have binding: "set (bindingIssues ?a ?t ?xs) = set (bindingIssues ?a ?t ?ys)"
    using s find_mset [OF m assms(2), of PROFILE] by (simp add: bindingIssues_def split: option.split)
  have input: "inputIssues ?i = inputIssues ?j"
    by (simp add: inputIssues_def rights_input_def exactKeys_iff)
  have issues: "set (compileIssues ?i) = set (compileIssues ?j)"
    using kinds binding vs s input by (simp add: compileIssues_def parseOperands_def Let_def rights_input_def split_beta)
  note b = build_mset [OF m assms(2) wf issues]
  have n: "normalizedInput x y ?xs = normalizedInput x y ?ys" for x y
    by (simp add: normalizedInput_def b(2))
  have f: "elems_of (getf (fields_of ?i) ''operands'') = vs" "elems_of (getf (fields_of ?j) ''operands'') = ws"
    "getf (fields_of ?i) ''actor'' = actor" "getf (fields_of ?j) ''actor'' = actor"
    "getf (fields_of ?i) ''tenant'' = tenant" "getf (fields_of ?j) ''tenant'' = tenant"
    by (simp_all add: rights_input_def)
  show ?thesis
    unfolding compileEffectiveRightsV1_def Let_def f n b(1) sortIssues_cong [OF issues] ..
qed

lemma operand_order_irrelevant_witness:
  "compileEffectiveRightsV1 (\<lambda>t. t) (rights_input JNull JNull JNull [operand_js (syntheticOperand (\<lambda>_. None) PROFILE 0), JNull])
    = compileEffectiveRightsV1 (\<lambda>t. t) (rights_input JNull JNull JNull [JNull, operand_js (syntheticOperand (\<lambda>_. None) PROFILE 0)])"
proof (rule operand_order_irrelevant)
  have "length (fst (parseOperands [operand_js (syntheticOperand (\<lambda>_. None) PROFILE 0), JNull])) \<le> 1"
    by (simp add: parseOperands_def map_filter_def parseOperand_def)
  then show "distinct (map op_kind (fst (parseOperands [operand_js (syntheticOperand (\<lambda>_. None) PROFILE 0), JNull])))"
    by (cases "fst (parseOperands [operand_js (syntheticOperand (\<lambda>_. None) PROFILE 0), JNull])") simp_all
qed simp

subsection \<open>The verifier\<close>

lemma sc_js_plain [simp]: "plain (scope_js s)" "js_wf (scope_js s)"
  by (simp_all add: scope_js_def strs_js_def list_all_iff)

lemma operand_js_plain [simp]: "plain (operand_js x)" "js_wf (operand_js x)"
  by (simp_all add: operand_js_def)

lemma core_js_plain [simp]: "plain (core_js c)" "js_wf (core_js c)"
  by (simp_all add: core_js_def core_fields_def list_all_iff ceiling_js_def fact_js_def
      int_or_null_def split: option.split)

lemma getf_result:
  "fields_of (result_js r) = core_fields r @ [(''resultDigest'', JStr (resultDigest r))]"
  "without ''resultDigest'' (core_fields r @ [(''resultDigest'', v)]) = core_fields r"
  by (simp_all add: result_js_def core_fields_def without_def)

lemma getf_core:
  "getf (core_fields r @ x) ''schemaVersion'' = JStr EFFECTIVE_RIGHTS_RESULT_API_VERSION"
  "getf (core_fields r @ x) ''inputDigest'' = JStr (inputDigest r)"
  "getf (core_fields r @ x) ''outcome'' = JStr (outcome_text (er_outcome r))"
  "getf (core_fields r @ x) ''informationalOnly'' = JBool True"
  "getf (core_fields r @ x) ''effectiveScope'' = scope_js (effectiveScope r)"
  "getf (core_fields r @ x) ''profileBinding'' = obj [(''profileId'', str_or_null (er_profileId r)),
         (''profileGeneration'', int_or_null (er_profileGeneration r))]"
  "getf (core_fields r @ x) ''ceilings'' = arr (map ceiling_js (ceilings r))"
  "getf (core_fields r @ x) ''reasonFacts'' = arr (map fact_js (reasonFacts r))"
  "getf (core_fields r @ x) ''issues'' = arr (map (\<lambda>i. JStr (issue_text i)) (er_issues r))"
  "getf (core_fields r @ [(''resultDigest'', v)]) ''resultDigest'' = v"
  by (simp_all add: core_fields_def)

lemma validScopeShape_scope_js [simp]: "validScopeShape (scope_js s)"
proof -
  have "exactKeys (scope_js s) SCOPE_KEYS"
    unfolding scope_js_def by (rule exactKeys_mset) (simp add: SCOPE_KEYS_def)
  then show ?thesis by (simp add: validScopeShape_def) (simp add: scope_js_def list_all_iff is_string_def)
qed

lemma validCeiling_ceilingOf:
  assumes "operand_wf x" "\<forall>t. hex64 (H t)"
  shows "validCeiling (ceiling_js (ceilingOf H x))"
proof -
  let ?r = "fields_of (ceiling_js (ceilingOf H x))"
  have "exactKeys (ceiling_js c) CEILING_KEYS" for c
    unfolding ceiling_js_def by (rule exactKeys_mset) (simp add: CEILING_KEYS_def)
  moreover have "getf ?r ''kind'' = JStr (kind_text (op_kind x))" "getf ?r ''operandId'' = JStr (operandId x)"
    "getf ?r ''generation'' = jint (op_generation x)"
    "getf ?r ''decisionCeiling'' = JStr (outcome_text (decisionCeiling x))"
    "getf ?r ''scope'' = scope_js (op_scope x)" "getf ?r ''operandDigest'' = JStr (digest_of H (operand_js x))"
    by (simp_all add: ceiling_js_def ceilingOf_def)
  ultimately show ?thesis
    using assms by (simp add: validCeiling_def Let_def isBoundIdentifier_iff isPositiveGeneration_iff
        operand_wf_def digest_like_def digest_of_def)
qed

lemma validCeilings_iff:
  "validCeilings (map ceiling_js cs) (map (\<lambda>k. JStr (kind_text k)) ks) \<longleftrightarrow>
     list_all (\<lambda>c. validCeiling (ceiling_js c)) cs \<and> distinct (map ce_kind cs)
     \<and> set (map ce_kind cs) \<inter> set ks = {}"
proof (induction cs arbitrary: ks)
  case (Cons c cs)
  have k: "getf (fields_of (ceiling_js c)) ''kind'' = JStr (kind_text (ce_kind c))"
    by (simp add: ceiling_js_def)
  have "JStr (kind_text (ce_kind c)) \<in> set (map (\<lambda>k. JStr (kind_text k)) ks) \<longleftrightarrow> ce_kind c \<in> set ks"
    by auto
  then show ?case using Cons.IH [of "ce_kind c # ks"] by (auto simp: k)
qed simp

lemma validFact_fact_js:
  "validFact (fact_js f) \<longleftrightarrow> (\<exists>k. fact_source f = kind_text k) \<or> fact_source f = ''COMPILER''"
proof -
  have "exactKeys (fact_js f) [''code'', ''detail'', ''source'']"
    unfolding fact_js_def by (rule exactKeys_mset) simp
  moreover have "kindOf (JStr s) \<noteq> None \<longleftrightarrow> (\<exists>k. s = kind_text k)" for s
    by (cases "kindOf (JStr s)") (auto dest: kindOf_Some)
  ultimately show ?thesis by (simp add: validFact_def fact_js_def is_string_def)
qed

lemma validIssue_text [simp]: "validIssue (JStr (issue_text i))"
  by (cases i) (simp_all add: validIssue_def EFFECTIVE_RIGHTS_ISSUE_CODES_V1_def)

lemma compiled_result_verifies:
  assumes "\<forall>t. hex64 (H t)"
  shows "verifyEffectiveRightsResultV1 H (result_js (compileEffectiveRightsV1 H i))
    = (if distinct (map op_kind (parsed i)) then Inr (result_js (compileEffectiveRightsV1 H i))
       else Inl RIGHTS_INVALID)"
proof -
  let ?r = "compileEffectiveRightsV1 H i"
  have keys: "exactKeys (result_js ?r) RESULT_KEYS"
    unfolding result_js_def by (rule exactKeys_mset) (simp add: core_fields_def RESULT_KEYS_def)
  have binding: "exactKeys (obj [(''profileId'', a), (''profileGeneration'', b)])
      [''profileGeneration'', ''profileId'']" for a b
    by (rule exactKeys_mset) simp
  have seal: "resultDigest ?r = digest_of H (core_js ?r)" "hex64 (inputDigest ?r)"
    using assms by (simp_all add: compileEffectiveRightsV1_def buildResult_def Let_def digest_of_def
        split: option.split)
  have facts: "list_all validFact (map fact_js (reasonFacts ?r))"
    by (auto simp: compileEffectiveRightsV1_def buildResult_def Let_def buildFacts_def list_all_iff
        validFact_fact_js)
  have wf: "\<forall>x \<in> set (by_kind (parsed i)). operand_wf x"
    using parsed_wf by (auto simp: by_kind_def)
  have "distinct (map op_kind (by_kind (parsed i))) \<longleftrightarrow> distinct (map op_kind (parsed i))"
    by (rule mset_eq_imp_distinct_iff) (simp add: by_kind_def)
  then have ceil: "validCeilings (map ceiling_js (ceilings ?r)) [] \<longleftrightarrow> distinct (map op_kind (parsed i))"
    using validCeilings_iff [of "ceilings ?r" "[]"] validCeiling_ceilingOf [OF _ assms] wf
    by (simp add: compile_fields list_all_iff comp_def) (simp add: ceilingOf_def)
  have "digest_js H (obj (core_fields ?r)) = Inr (digest_of H (core_js ?r))"
    using digest_js_plain [OF core_js_plain(1), of H ?r] by (simp only: core_js_def)
  then show ?thesis
    unfolding verifyEffectiveRightsResultV1_def Let_def getf_result getf_core
    using keys binding seal facts ceil assms
    by (simp add: digest_like_def list_ex_iff digest_of_def getf_result(2))
qed

text \<open>
  C20: Which results verify. The verifier returns a compiled result unchanged exactly when no kind of
  operand occurs twice in it. The compiler's own denial of a duplicated operand lists a kind twice
  among its ceilings, and the verifier (and with it the permission X-ray) refuses that result.
\<close>

theorem compiled_result_verifies_iff:
  assumes "\<forall>t. hex64 (H t)"
  shows "verifyEffectiveRightsResultV1 H (result_js (compileEffectiveRightsV1 H i))
    = (if distinct (map op_kind (parsed i)) then Inr (result_js (compileEffectiveRightsV1 H i))
       else Inl RIGHTS_INVALID)"
  by (rule compiled_result_verifies [OF assms])

lemma compiled_result_verifies_iff_witness:
  "verifyEffectiveRightsResultV1 (\<lambda>t. replicate 64 (CHR ''0''))
       (result_js (compileEffectiveRightsV1 (\<lambda>t. replicate 64 (CHR ''0'')) (syntheticEffectiveRightsInputV1 (\<lambda>_. None))))
     = Inr (result_js (compileEffectiveRightsV1 (\<lambda>t. replicate 64 (CHR ''0'')) (syntheticEffectiveRightsInputV1 (\<lambda>_. None))))
   \<and> verifyEffectiveRightsResultV1 (\<lambda>t. replicate 64 (CHR ''0''))
       (result_js (compileEffectiveRightsV1 (\<lambda>t. replicate 64 (CHR ''0''))
         (rights_input JNull JNull JNull (map operand_js [syntheticOperand (\<lambda>_. None) PROFILE 0, syntheticOperand (\<lambda>_. None) PROFILE 1]))))
     = Inl RIGHTS_INVALID"
proof -
  let ?H = "\<lambda>t :: string. replicate 64 (CHR ''0'')"
  let ?dup = "rights_input JNull JNull JNull (map operand_js [syntheticOperand (\<lambda>_. None) PROFILE 0, syntheticOperand (\<lambda>_. None) PROFILE 1])"
  have H: "\<forall>t. hex64 (?H t)" by (simp add: hex64_iff list_all_iff in_class_def d0_9_def)
  have p: "parsed ?dup = [syntheticOperand (\<lambda>_. None) PROFILE 0, syntheticOperand (\<lambda>_. None) PROFILE 1]"
    by (simp add: parsed_def rights_input_def parseOperands_def map_filter_simps
        parseOperand_operand_js synthetic_operand_wf)
  have "op_kind (syntheticOperand (\<lambda>_. None) k n) = k" for k n by (simp add: syntheticOperand_def)
  then show ?thesis
    unfolding compiled_result_verifies_iff [OF H] p
    by (simp add: synthetic_parsed syntheticOperands_list)
qed

text \<open>
  What the verifier guarantees of any document. It returns the document itself; the document is
  informational, serialisable, and carries the digest of everything else in it, so two verified
  documents with the same result digest say the same, unless \<open>H\<close> collides on their texts.
\<close>

theorem verified_result_sealed:
  assumes "verifyEffectiveRightsResultV1 H v = Inr w" "verifyEffectiveRightsResultV1 H v' = Inr w'"
    and "js_wf v" "js_wf v'"
    and "getf (fields_of v) ''resultDigest'' = getf (fields_of v') ''resultDigest''"
    and "inj_on H {canonText (obj (without ''resultDigest'' (fields_of v))),
                   canonText (obj (without ''resultDigest'' (fields_of v')))}"
  shows "w = v \<and> w' = v' \<and> getf (fields_of v) ''informationalOnly'' = JBool True \<and> js_norm v = js_norm v'"
proof -
  let ?r = "fields_of v" and ?r' = "fields_of v'"
  have v: "w = v" "exactKeys v RESULT_KEYS" "getf ?r ''informationalOnly'' = JBool True"
    "digest_js H (obj (without ''resultDigest'' ?r)) = Inr (str_of (getf ?r ''resultDigest''))"
    using assms(1) by (auto simp: verifyEffectiveRightsResultV1_def Let_def res_simps split: if_splits)
  have v': "w' = v'" "exactKeys v' RESULT_KEYS"
    "digest_js H (obj (without ''resultDigest'' ?r')) = Inr (str_of (getf ?r' ''resultDigest''))"
    using assms(2) by (auto simp: verifyEffectiveRightsResultV1_def Let_def res_simps split: if_splits)
  obtain i j where o: "v = JObj i ?r" "v' = JObj j ?r'"
    using v(2) v'(2) by (auto simp: exactKeys_iff)
  have "js_norm (JObj i ?r) = js_norm (JObj j ?r')"
  proof (rule sealed_documents [OF _ _ _ v(4) _ assms(5,6)])
    show "js_wf (JObj i ?r)" "js_wf (JObj j ?r')" using assms(3,4) o by metis+
    show "set (map fst ?r) = set (map fst ?r')"
      using exactKeysE [OF v(2)] exactKeysE [OF v'(2)] by (metis fields_of.simps(1))
    show "digest_js H (obj (without ''resultDigest'' ?r')) = Inr (str_of (getf ?r ''resultDigest''))"
      using v'(3) assms(5) by simp
  qed
  then show ?thesis using v v' o by metis
qed

lemma const_hash_hex64: "\<forall>t :: string. hex64 ((\<lambda>_. replicate 64 (CHR ''0'')) t)"
  by (simp add: hex64_iff list_all_iff in_class_def d0_9_def)

lemma result_js_wf [simp]: "js_wf (result_js r)"
  using core_js_plain(2) [of r] by (simp add: core_js_def result_js_def core_fields_def)

lemma verified_result_sealed_witness:
  "getf (fields_of (result_js (compileEffectiveRightsV1 (\<lambda>_. replicate 64 (CHR ''0''))
      (syntheticEffectiveRightsInputV1 (\<lambda>_. None))))) ''informationalOnly'' = JBool True"
proof -
  let ?H = "\<lambda>_ :: string. replicate 64 (CHR ''0'')"
  let ?v = "result_js (compileEffectiveRightsV1 ?H (syntheticEffectiveRightsInputV1 (\<lambda>_. None)))"
  have "op_kind (syntheticOperand (\<lambda>_. None) k n) = k" for k n by (simp add: syntheticOperand_def)
  then have "distinct (map op_kind (parsed (syntheticEffectiveRightsInputV1 (\<lambda>_. None))))"
    by (simp add: synthetic_parsed syntheticOperands_list)
  then have v: "verifyEffectiveRightsResultV1 ?H ?v = Inr ?v"
    using compiled_result_verifies [OF const_hash_hex64, of "syntheticEffectiveRightsInputV1 (\<lambda>_. None)"] by simp
  show ?thesis
    using verified_result_sealed [OF v v result_js_wf result_js_wf refl] by simp
qed

subsection \<open>The permission X-ray\<close>

text \<open>The view of a result, from its typed fields.\<close>

definition xray_js :: "rights_result \<Rightarrow> js" where
  "xray_js r = obj
     [(''schemaVersion'', JStr PERMISSION_XRAY_API_VERSION), (''title'', JStr XRAY_TITLE),
      (''claim'', JStr ''INFORMATIONAL_ONLY_NO_EXECUTABLE_AUTHORITY''),
      (''sourceResultDigest'', JStr (resultDigest r)), (''outcome'', JStr (outcome_text (er_outcome r))),
      (''effectiveScope'', scope_js (effectiveScope r)), (''ceilings'', arr (map ceiling_js (ceilings r))),
      (''reasonFacts'', arr (map fact_js (reasonFacts r))),
      (''issues'', arr (map (\<lambda>i. JStr (issue_text i)) (er_issues r))),
      (''informationalOnly'', JBool True)]"

lemma xray_js_plain [simp]: "plain (xray_js r)" "js_wf (xray_js r)"
  by (simp_all add: xray_js_def list_all_iff ceiling_js_def fact_js_def)

text \<open>
  The permission X-ray neither adds nor hides. Rendering a compiled result (without duplicated
  kinds) shows the digest, outcome, scope, ceilings, facts and issues of that result and nothing else;
  the rendering passes the parity check, and a view that passes it says the same as the rendering.
\<close>

theorem xray_parity:
  assumes "\<forall>t. hex64 (H t)" "distinct (map op_kind (parsed i))"
  defines "r \<equiv> compileEffectiveRightsV1 H i"
  shows "renderPermissionXrayV1 H (result_js r) = Inr (xray_js r)
    \<and> verifyPermissionXrayParityV1 H (xray_js r) (result_js r)
    \<and> (js_wf view \<and> verifyPermissionXrayParityV1 H view (result_js r) \<longrightarrow> js_norm view = js_norm (xray_js r))"
proof -
  have "verifyEffectiveRightsResultV1 H (result_js r) = Inr (result_js r)"
    using compiled_result_verifies [OF assms(1), of i] assms(2) by (simp add: r_def)
  then have render: "renderPermissionXrayV1 H (result_js r) = Inr (xray_js r)"
    unfolding renderPermissionXrayV1_def by (simp add: Let_def getf_result(1) getf_core xray_js_def)
  have p: "canonicalJson (xray_js r) = Inr (canonText (xray_js r))"
    by (rule canonText_plain) simp
  have "js_norm view = js_norm (xray_js r)"
    if wf: "js_wf view" and par: "verifyPermissionXrayParityV1 H view (result_js r)"
  proof -
    obtain a where "canonicalJson view = Inr a" "a = canonText (xray_js r)"
      using par by (cases "canonicalJson view") (simp_all add: verifyPermissionXrayParityV1_def render p)
    with p wf show ?thesis using canonicalJson_norm [of view "xray_js r"] by simp
  qed
  moreover have "verifyPermissionXrayParityV1 H (xray_js r) (result_js r)"
    by (simp add: verifyPermissionXrayParityV1_def render p)
  ultimately show ?thesis using render by blast
qed

lemma xray_parity_witness:
  "verifyPermissionXrayParityV1 (\<lambda>_. replicate 64 (CHR ''0''))
     (xray_js (compileEffectiveRightsV1 (\<lambda>_. replicate 64 (CHR ''0'')) (syntheticEffectiveRightsInputV1 (\<lambda>_. None))))
     (result_js (compileEffectiveRightsV1 (\<lambda>_. replicate 64 (CHR ''0'')) (syntheticEffectiveRightsInputV1 (\<lambda>_. None))))"
proof -
  have "op_kind (syntheticOperand (\<lambda>_. None) k n) = k" for k n by (simp add: syntheticOperand_def)
  then have "distinct (map op_kind (parsed (syntheticEffectiveRightsInputV1 (\<lambda>_. None))))"
    by (simp add: synthetic_parsed syntheticOperands_list)
  from xray_parity [OF const_hash_hex64 this] show ?thesis by blast
qed

end
