(* ===== verification/TrustBoundary.thy ===== *)
theory TrustBoundary
  imports Guards
begin

text \<open>
  The injection trust boundary (\<open>packages/contracts/src/injection-trust-boundary.ts\<close>): untrusted
  content travels in labelled envelopes as data; an action candidate is rebuilt from a fixed
  catalogue, the trusted context and typed arguments. The code passes a \<open>Set\<close> of issues by
  reference, only asks whether it is empty and sorts it; here each step returns the issues it adds.
  \<open>localeCompare\<close>, with which the envelopes are sorted by their identifiers, is the parameter
  \<open>le\<close> (not after).
\<close>

subsection \<open>Data\<close>

definition CONTENT_ENVELOPE_API_VERSION :: string where
  "CONTENT_ENVELOPE_API_VERSION = ''chimpmaera.security/content-envelope/v1''"
definition TYPED_ACTION_CANDIDATE_API_VERSION :: string where
  "TYPED_ACTION_CANDIDATE_API_VERSION = ''chimpmaera.security/typed-action-candidate/v1''"
definition TRUSTED_RECONSTRUCTION_CONTEXT_API_VERSION :: string where
  "TRUSTED_RECONSTRUCTION_CONTEXT_API_VERSION = ''chimpmaera.security/trusted-reconstruction-context/v1''"
definition TRUST_BOUNDARY_RESULT_API_VERSION :: string where
  "TRUST_BOUNDARY_RESULT_API_VERSION = ''chimpmaera.security/trust-boundary-result/v1''"
definition TRUSTED_ACTION_CATALOG_VERSION :: string where
  "TRUSTED_ACTION_CATALOG_VERSION = ''chimpmaera.security/trusted-action-catalog/v1''"

datatype origin = PROVIDER_ORIGIN | TOOL_ORIGIN | DOCUMENT_ORIGIN | MEMORY_ORIGIN

datatype trust_label =
    UNTRUSTED_PROVIDER_CONTENT | UNTRUSTED_TOOL_OUTPUT
  | UNTRUSTED_RETRIEVED_DOCUMENT | UNTRUSTED_RECALLED_MEMORY

datatype data_class = PUBLIC | INTERNAL_SYNTHETIC | CONFIDENTIAL_SYNTHETIC

datatype boundary_issue =
    ACTION_UNKNOWN_DENIED | ARGUMENT_SCHEMA_DENIED | CANDIDATE_SCHEMA_DENIED
  | CATALOG_VERSION_DENIED | CONTEXT_SCHEMA_DENIED | ENVELOPE_DUPLICATE_DENIED
  | ENVELOPE_SCHEMA_DENIED | EVIDENCE_BINDING_DENIED | INSTRUCTION_ELIGIBILITY_DENIED
  | ORIGIN_TRUST_MISMATCH_DENIED | TENANT_BINDING_DENIED

definition CONTENT_ORIGINS_V1 :: "origin list" where
  "CONTENT_ORIGINS_V1 = [PROVIDER_ORIGIN, TOOL_ORIGIN, DOCUMENT_ORIGIN, MEMORY_ORIGIN]"

definition CONTENT_TRUST_LABELS_V1 :: "trust_label list" where
  "CONTENT_TRUST_LABELS_V1 = [UNTRUSTED_PROVIDER_CONTENT, UNTRUSTED_TOOL_OUTPUT,
     UNTRUSTED_RETRIEVED_DOCUMENT, UNTRUSTED_RECALLED_MEMORY]"

definition CONTENT_DATA_CLASSES_V1 :: "data_class list" where
  "CONTENT_DATA_CLASSES_V1 = [PUBLIC, INTERNAL_SYNTHETIC, CONFIDENTIAL_SYNTHETIC]"

fun origin_text :: "origin \<Rightarrow> string" where
  "origin_text PROVIDER_ORIGIN = ''PROVIDER''"
| "origin_text TOOL_ORIGIN = ''TOOL''"
| "origin_text DOCUMENT_ORIGIN = ''DOCUMENT''"
| "origin_text MEMORY_ORIGIN = ''MEMORY''"

fun trust_text :: "trust_label \<Rightarrow> string" where
  "trust_text UNTRUSTED_PROVIDER_CONTENT = ''UNTRUSTED_PROVIDER_CONTENT''"
| "trust_text UNTRUSTED_TOOL_OUTPUT = ''UNTRUSTED_TOOL_OUTPUT''"
| "trust_text UNTRUSTED_RETRIEVED_DOCUMENT = ''UNTRUSTED_RETRIEVED_DOCUMENT''"
| "trust_text UNTRUSTED_RECALLED_MEMORY = ''UNTRUSTED_RECALLED_MEMORY''"

fun data_class_text :: "data_class \<Rightarrow> string" where
  "data_class_text PUBLIC = ''PUBLIC''"
| "data_class_text INTERNAL_SYNTHETIC = ''INTERNAL_SYNTHETIC''"
| "data_class_text CONFIDENTIAL_SYNTHETIC = ''CONFIDENTIAL_SYNTHETIC''"

fun boundary_issue_name :: "boundary_issue \<Rightarrow> string" where
  "boundary_issue_name ACTION_UNKNOWN_DENIED = ''ACTION_UNKNOWN_DENIED''"
| "boundary_issue_name ARGUMENT_SCHEMA_DENIED = ''ARGUMENT_SCHEMA_DENIED''"
| "boundary_issue_name CANDIDATE_SCHEMA_DENIED = ''CANDIDATE_SCHEMA_DENIED''"
| "boundary_issue_name CATALOG_VERSION_DENIED = ''CATALOG_VERSION_DENIED''"
| "boundary_issue_name CONTEXT_SCHEMA_DENIED = ''CONTEXT_SCHEMA_DENIED''"
| "boundary_issue_name ENVELOPE_DUPLICATE_DENIED = ''ENVELOPE_DUPLICATE_DENIED''"
| "boundary_issue_name ENVELOPE_SCHEMA_DENIED = ''ENVELOPE_SCHEMA_DENIED''"
| "boundary_issue_name EVIDENCE_BINDING_DENIED = ''EVIDENCE_BINDING_DENIED''"
| "boundary_issue_name INSTRUCTION_ELIGIBILITY_DENIED = ''INSTRUCTION_ELIGIBILITY_DENIED''"
| "boundary_issue_name ORIGIN_TRUST_MISMATCH_DENIED = ''ORIGIN_TRUST_MISMATCH_DENIED''"
| "boundary_issue_name TENANT_BINDING_DENIED = ''TENANT_BINDING_DENIED''"

definition boundary_issue_text :: "boundary_issue \<Rightarrow> string" where
  "boundary_issue_text i = ''TRUST_BOUNDARY_'' @ boundary_issue_name i"

fun EXPECTED_TRUST :: "origin \<Rightarrow> trust_label" where
  "EXPECTED_TRUST PROVIDER_ORIGIN = UNTRUSTED_PROVIDER_CONTENT"
| "EXPECTED_TRUST TOOL_ORIGIN = UNTRUSTED_TOOL_OUTPUT"
| "EXPECTED_TRUST DOCUMENT_ORIGIN = UNTRUSTED_RETRIEVED_DOCUMENT"
| "EXPECTED_TRUST MEMORY_ORIGIN = UNTRUSTED_RECALLED_MEMORY"

text \<open>The fields that are one constant string in the type (schema versions,
  \<open>instructionEligibility\<close>, \<open>claim\<close>, \<open>actionType\<close>) appear in the encodings only.\<close>

record envelope =
  envelopeId :: string
  env_origin :: origin
  env_trust :: trust_label
  env_tenant :: string
  env_dataClass :: data_class
  env_content :: string

record boundary_context =
  bc_actor :: string
  bc_tenant :: string
  replayKey :: string
  envelopes :: "envelope list"

datatype action_arguments =
    ContactArguments (emailAddress: string) (firstName: string) (lastName: string)
  | OrderArguments (customerId: int) (customerReference: string) (orderDateEpoch: int)

record candidate =
  ca_arguments :: action_arguments
  evidenceEnvelopeIds :: "string list"

record action =
  ac_actor :: string
  credentialHandle :: string
  ac_path :: string
  ac_body :: fields
  ac_replayKey :: string
  ac_tenant :: string
  ac_provider :: string
  ac_entity :: string

record evidence_row =
  ev_envelopeId :: string
  ev_origin :: origin
  ev_trust :: trust_label
  ev_tenant :: string
  ev_dataClass :: data_class
  contentDigest :: string

record boundary_core =
  reconstructed :: bool
  tb_inputDigest :: "string option"
  candidateDigest :: "string option"
  evidenceDigest :: "string option"
  actionDigest :: "string option"
  tb_action :: "action option"
  tb_evidence :: "evidence_row list"
  tb_issues :: "boundary_issue list"

record boundary_result = boundary_core +
  tb_resultDigest :: string

subsection \<open>Encodings\<close>

definition envelope_js :: "envelope \<Rightarrow> js" where
  "envelope_js e = obj
     [(''schemaVersion'', JStr CONTENT_ENVELOPE_API_VERSION), (''envelopeId'', JStr (envelopeId e)),
      (''origin'', JStr (origin_text (env_origin e))), (''trust'', JStr (trust_text (env_trust e))),
      (''tenant'', JStr (env_tenant e)), (''dataClass'', JStr (data_class_text (env_dataClass e))),
      (''instructionEligibility'', JStr ''DATA_ONLY''), (''content'', JStr (env_content e))]"

definition boundary_context_js :: "boundary_context \<Rightarrow> js" where
  "boundary_context_js c = obj
     [(''schemaVersion'', JStr TRUSTED_RECONSTRUCTION_CONTEXT_API_VERSION),
      (''catalogVersion'', JStr TRUSTED_ACTION_CATALOG_VERSION), (''actor'', JStr (bc_actor c)),
      (''tenant'', JStr (bc_tenant c)), (''replayKey'', JStr (replayKey c)),
      (''envelopes'', arr (map envelope_js (envelopes c)))]"

fun actionId :: "action_arguments \<Rightarrow> string" where
  "actionId (ContactArguments e f l) = ''crm.contact.create''"
| "actionId (OrderArguments c r d) = ''erp.order.create''"

fun arguments_js :: "action_arguments \<Rightarrow> js" where
  "arguments_js (ContactArguments e f l) =
     obj [(''emailAddress'', JStr e), (''firstName'', JStr f), (''lastName'', JStr l)]"
| "arguments_js (OrderArguments c r d) =
     obj [(''customerId'', jint c), (''customerReference'', JStr r), (''orderDateEpoch'', jint d)]"

definition candidate_js :: "candidate \<Rightarrow> js" where
  "candidate_js c = obj
     [(''schemaVersion'', JStr TYPED_ACTION_CANDIDATE_API_VERSION),
      (''catalogVersion'', JStr TRUSTED_ACTION_CATALOG_VERSION),
      (''actionId'', JStr (actionId (ca_arguments c))), (''arguments'', arguments_js (ca_arguments c)),
      (''evidenceEnvelopeIds'', strs_js (evidenceEnvelopeIds c))]"

definition action_js :: "action \<Rightarrow> js" where
  "action_js a = obj
     [(''actionType'', JStr ''PROVIDER_MUTATION_CANDIDATE''), (''actor'', JStr (ac_actor a)),
      (''catalogVersion'', JStr TRUSTED_ACTION_CATALOG_VERSION),
      (''credentialHandle'', JStr (credentialHandle a)),
      (''payload'', obj [(''method'', JStr ''POST''), (''path'', JStr (ac_path a)),
         (''body'', obj (ac_body a))]),
      (''replayKey'', JStr (ac_replayKey a)),
      (''scope'', obj [(''actor'', JStr (ac_actor a)), (''tenant'', JStr (ac_tenant a)),
         (''provider'', JStr (ac_provider a)), (''entity'', JStr (ac_entity a)),
         (''operation'', JStr ''CREATE_IF_ABSENT'')])]"

definition evidence_row_js :: "evidence_row \<Rightarrow> js" where
  "evidence_row_js e = obj
     [(''envelopeId'', JStr (ev_envelopeId e)), (''origin'', JStr (origin_text (ev_origin e))),
      (''trust'', JStr (trust_text (ev_trust e))), (''tenant'', JStr (ev_tenant e)),
      (''dataClass'', JStr (data_class_text (ev_dataClass e))),
      (''instructionEligibility'', JStr ''DATA_ONLY''), (''contentDigest'', JStr (contentDigest e))]"

definition BOUNDARY_CLAIM :: string where
  "BOUNDARY_CLAIM = ''CANDIDATE_ONLY_NO_DECISION_APPROVAL_AUTHORITY_OR_PROVIDER_CALL''"

definition boundary_core_fields :: "'a boundary_core_scheme \<Rightarrow> fields" where
  "boundary_core_fields c =
     [(''schemaVersion'', JStr TRUST_BOUNDARY_RESULT_API_VERSION),
      (''outcome'', JStr (if reconstructed c then ''RECONSTRUCTED_CANDIDATE'' else ''DENY'')),
      (''claim'', JStr BOUNDARY_CLAIM),
      (''inputDigest'', str_or_null (tb_inputDigest c)),
      (''candidateDigest'', str_or_null (candidateDigest c)),
      (''evidenceDigest'', str_or_null (evidenceDigest c)),
      (''actionDigest'', str_or_null (actionDigest c)),
      (''action'', (case tb_action c of None \<Rightarrow> JNull | Some a \<Rightarrow> action_js a)),
      (''evidence'', arr (map evidence_row_js (tb_evidence c))),
      (''issues'', arr (map (\<lambda>i. JStr (boundary_issue_text i)) (tb_issues c)))]"

definition boundary_result_js :: "boundary_result \<Rightarrow> js" where
  "boundary_result_js r = obj (boundary_core_fields r @ [(''resultDigest'', JStr (tb_resultDigest r))])"

subsection \<open>Results\<close>

definition digestOrNull :: "hash \<Rightarrow> js \<Rightarrow> string option" where
  "digestOrNull H v = (case digest_js H v of Inl e \<Rightarrow> None | Inr d \<Rightarrow> Some d)"

definition makeResult :: "hash \<Rightarrow> boundary_core \<Rightarrow> boundary_result" where
  "makeResult H c = boundary_core.extend c
     (boundary_result.fields (digest_of H (obj (boundary_core_fields c))))"

definition deny :: "hash \<Rightarrow> js \<Rightarrow> js \<Rightarrow> boundary_issue list \<Rightarrow> boundary_result" where
  "deny H cand ctx issues = makeResult H
     \<lparr>reconstructed = False,
      tb_inputDigest = digestOrNull H (obj [(''candidate'', cand), (''trustedContext'', ctx)]),
      candidateDigest = None, evidenceDigest = None, actionDigest = None, tb_action = None,
      tb_evidence = [], tb_issues = sort_key boundary_issue_text (uniq issues)\<rparr>"

subsection \<open>Parsing the trusted context\<close>

definition control_class :: "(char \<times> char) list" where
  "control_class =
     [(char_of (0 :: nat), char_of (8 :: nat)), (char_of (11 :: nat), char_of (12 :: nat)),
      (char_of (14 :: nat), char_of (31 :: nat)), (char_of (127 :: nat), char_of (127 :: nat))]"

definition isBoundText :: "js \<Rightarrow> nat \<Rightarrow> bool" where
  "isBoundText v maximum = str_test (\<lambda>s. length s > 0 \<and> length s \<le> maximum
     \<and> \<not> list_ex (in_class control_class) s) v"

definition ENVELOPE_KEYS :: "string list" where
  "ENVELOPE_KEYS = [''content'', ''dataClass'', ''envelopeId'', ''instructionEligibility'',
     ''origin'', ''schemaVersion'', ''tenant'', ''trust'']"

definition parseEnvelope :: "js \<Rightarrow> string \<Rightarrow> envelope option \<times> boundary_issue list" where
  "parseEnvelope v tenant =
     (let r = fields_of v in
      if \<not> exactKeys v ENVELOPE_KEYS then (None, [ENVELOPE_SCHEMA_DENIED])
      else case (memberOf origin_text CONTENT_ORIGINS_V1 (getf r ''origin''),
                 memberOf trust_text CONTENT_TRUST_LABELS_V1 (getf r ''trust''),
                 memberOf data_class_text CONTENT_DATA_CLASSES_V1 (getf r ''dataClass'')) of
        (Some orig, Some tr, Some dc) \<Rightarrow>
          if getf r ''schemaVersion'' \<noteq> JStr CONTENT_ENVELOPE_API_VERSION
             \<or> \<not> isBoundIdentifier (getf r ''envelopeId'') \<or> \<not> isBoundText (getf r ''content'') 16384
             \<or> \<not> isBoundIdentifier (getf r ''tenant'')
          then (None, [ENVELOPE_SCHEMA_DENIED])
          else
            (let issues =
               (if getf r ''instructionEligibility'' \<noteq> JStr ''DATA_ONLY''
                then [INSTRUCTION_ELIGIBILITY_DENIED] else [])
               @ (if getf r ''tenant'' \<noteq> JStr tenant then [TENANT_BINDING_DENIED] else [])
               @ (if EXPECTED_TRUST orig \<noteq> tr then [ORIGIN_TRUST_MISMATCH_DENIED] else [])
             in if issues \<noteq> [] then (None, issues)
                else (Some \<lparr>envelopeId = str_of (getf r ''envelopeId''), env_origin = orig,
                        env_trust = tr, env_tenant = str_of (getf r ''tenant''), env_dataClass = dc,
                        env_content = str_of (getf r ''content'')\<rparr>, []))
      | _ \<Rightarrow> (None, [ENVELOPE_SCHEMA_DENIED]))"

text \<open>The loop over the envelopes, with the identifiers seen so far.\<close>

fun parseEnvelopes :: "js list \<Rightarrow> string \<Rightarrow> string list \<Rightarrow> envelope list \<times> boundary_issue list" where
  "parseEnvelopes [] tenant ids = ([], [])"
| "parseEnvelopes (v # vs) tenant ids =
     (case parseEnvelope v tenant of
        (None, issues) \<Rightarrow> apsnd (\<lambda>more. issues @ more) (parseEnvelopes vs tenant ids)
      | (Some e, issues) \<Rightarrow>
          if envelopeId e \<in> set ids
          then apsnd (\<lambda>more. issues @ ENVELOPE_DUPLICATE_DENIED # more) (parseEnvelopes vs tenant ids)
          else map_prod (\<lambda>es. e # es) (\<lambda>more. issues @ more)
                 (parseEnvelopes vs tenant (envelopeId e # ids)))"

text \<open>A stable sort by the comparison \<open>le\<close> on identifiers.\<close>

fun insert_envelope :: "(string \<Rightarrow> string \<Rightarrow> bool) \<Rightarrow> envelope \<Rightarrow> envelope list \<Rightarrow> envelope list" where
  "insert_envelope le e [] = [e]"
| "insert_envelope le e (f # fs) =
     (if le (envelopeId e) (envelopeId f) then e # f # fs else f # insert_envelope le e fs)"

definition sort_envelopes :: "(string \<Rightarrow> string \<Rightarrow> bool) \<Rightarrow> envelope list \<Rightarrow> envelope list" where
  "sort_envelopes le es = foldr (insert_envelope le) es []"

definition CONTEXT_KEYS :: "string list" where
  "CONTEXT_KEYS = [''actor'', ''catalogVersion'', ''envelopes'', ''replayKey'', ''schemaVersion'', ''tenant'']"

definition REPLAY_KEY :: rx where
  "REPLAY_KEY = Seq (lit ''admin-ai:poc:'') (Rep (Cls ([A_Z, a_z, d0_9] @ chars '':._-'')) 8 (Some 140))"

definition parseContext :: "(string \<Rightarrow> string \<Rightarrow> bool) \<Rightarrow> js \<Rightarrow> boundary_context option \<times> boundary_issue list" where
  "parseContext le v =
     (let r = fields_of v; vs = elems_of (getf r ''envelopes'') in
      if \<not> exactKeys v CONTEXT_KEYS then (None, [CONTEXT_SCHEMA_DENIED])
      else if getf r ''schemaVersion'' \<noteq> JStr TRUSTED_RECONSTRUCTION_CONTEXT_API_VERSION
         \<or> \<not> isBoundIdentifier (getf r ''actor'') \<or> \<not> isBoundIdentifier (getf r ''tenant'')
         \<or> \<not> str_test (rx_test REPLAY_KEY) (getf r ''replayKey'')
         \<or> \<not> is_array (getf r ''envelopes'') \<or> length vs < 1 \<or> length vs > 32
      then (None, [CONTEXT_SCHEMA_DENIED])
      else
        (let (es, found) = parseEnvelopes vs (str_of (getf r ''tenant'')) [];
             issues = (if getf r ''catalogVersion'' \<noteq> JStr TRUSTED_ACTION_CATALOG_VERSION
                       then [CATALOG_VERSION_DENIED] else []) @ found
         in if issues \<noteq> [] \<or> length es \<noteq> length vs then (None, issues)
            else (Some \<lparr>bc_actor = str_of (getf r ''actor''), bc_tenant = str_of (getf r ''tenant''),
                    replayKey = str_of (getf r ''replayKey''),
                    envelopes = sort_envelopes le es\<rparr>, [])))"

subsection \<open>Parsing the candidate\<close>

definition EMAIL :: rx where
  "EMAIL = Seq (Rep (Cls ([A_Z, a_z, d0_9] @ chars ''.!#$%&*+/=?^_`{|}~-'' @ chars [char_of (39 :: nat)])) 1 (Some 64))
     (Seq (lit ''@'') (Rep (Cls ([A_Z, a_z, d0_9] @ chars ''.-'')) 1 (Some 190)))"

definition CUSTOMER_REFERENCE :: rx where
  "CUSTOMER_REFERENCE = Seq (lit ''CM-'') (Rep (Cls ([A_Z, d0_9] @ chars ''-'')) 1 (Some 61))"

definition parseContactArguments :: "js \<Rightarrow> action_arguments option \<times> boundary_issue list" where
  "parseContactArguments v =
     (let r = fields_of v in
      if \<not> exactKeys v [''emailAddress'', ''firstName'', ''lastName'']
      then (None, [ARGUMENT_SCHEMA_DENIED])
      else if \<not> isBoundText (getf r ''firstName'') 80 \<or> \<not> isBoundText (getf r ''lastName'') 80
         \<or> \<not> str_test (rx_test EMAIL) (getf r ''emailAddress'')
      then (None, [ARGUMENT_SCHEMA_DENIED])
      else (Some (ContactArguments (str_of (getf r ''emailAddress'')) (str_of (getf r ''firstName''))
              (str_of (getf r ''lastName''))), []))"

definition int_between :: "js \<Rightarrow> int \<Rightarrow> int \<Rightarrow> bool" where
  "int_between v low high \<longleftrightarrow> is_safe_integer v \<and> \<not> int_of_js v < low \<and> \<not> int_of_js v > high"

definition parseOrderArguments :: "js \<Rightarrow> action_arguments option \<times> boundary_issue list" where
  "parseOrderArguments v =
     (let r = fields_of v in
      if \<not> exactKeys v [''customerId'', ''customerReference'', ''orderDateEpoch'']
      then (None, [ARGUMENT_SCHEMA_DENIED])
      else if \<not> int_between (getf r ''customerId'') 1 1000000
         \<or> \<not> int_between (getf r ''orderDateEpoch'') 1735689600 1893456000
         \<or> \<not> str_test (rx_test CUSTOMER_REFERENCE) (getf r ''customerReference'')
      then (None, [ARGUMENT_SCHEMA_DENIED])
      else (Some (OrderArguments (int_of_js (getf r ''customerId''))
              (str_of (getf r ''customerReference'')) (int_of_js (getf r ''orderDateEpoch''))), []))"

definition CANDIDATE_KEYS :: "string list" where
  "CANDIDATE_KEYS = [''actionId'', ''arguments'', ''catalogVersion'', ''evidenceEnvelopeIds'', ''schemaVersion'']"

definition parseArguments :: "js \<Rightarrow> js \<Rightarrow> action_arguments option \<times> boundary_issue list" where
  "parseArguments action v =
     (if action = JStr ''crm.contact.create'' then parseContactArguments v
      else if action = JStr ''erp.order.create'' then parseOrderArguments v
      else (None, [ACTION_UNKNOWN_DENIED]))"

definition parseCandidate :: "js \<Rightarrow> boundary_context \<Rightarrow> candidate option \<times> boundary_issue list" where
  "parseCandidate v ctx =
     (let r = fields_of v; vs = elems_of (getf r ''evidenceEnvelopeIds'') in
      if \<not> exactKeys v CANDIDATE_KEYS then (None, [CANDIDATE_SCHEMA_DENIED])
      else if getf r ''schemaVersion'' \<noteq> JStr TYPED_ACTION_CANDIDATE_API_VERSION
         \<or> \<not> is_array (getf r ''evidenceEnvelopeIds'') \<or> length vs < 1
         \<or> list_ex (\<lambda>e. \<not> isBoundIdentifier e) vs
      then (None, [CANDIDATE_SCHEMA_DENIED])
      else
        (let catalog = (if getf r ''catalogVersion'' \<noteq> JStr TRUSTED_ACTION_CATALOG_VERSION
                        then [CATALOG_VERSION_DENIED] else [])
         in if \<not> is_record (getf r ''arguments'') then (None, catalog @ [ARGUMENT_SCHEMA_DENIED])
            else
              (let (args, found) = parseArguments (getf r ''actionId'') (getf r ''arguments'');
                   evidenceIds = map str_of vs;
                   uniqueIds = sort (uniq evidenceIds);
                   contextIds = sort (map envelopeId (envelopes ctx));
                   binding = (if length uniqueIds \<noteq> length evidenceIds
                                \<or> canonicalJson (strs_js uniqueIds) \<noteq> canonicalJson (strs_js contextIds)
                              then [EVIDENCE_BINDING_DENIED] else []);
                   issues = catalog @ found @ binding
               in (case args of
                     None \<Rightarrow> (None, issues)
                   | Some a \<Rightarrow>
                       if issues \<noteq> [] then (None, issues)
                       else (Some \<lparr>ca_arguments = a, evidenceEnvelopeIds = uniqueIds\<rparr>, [])))))"

subsection \<open>Reconstruction\<close>

definition reconstructAction :: "candidate \<Rightarrow> boundary_context \<Rightarrow> action" where
  "reconstructAction c ctx = (case ca_arguments c of
     ContactArguments e f l \<Rightarrow>
       \<lparr>ac_actor = bc_actor ctx, credentialHandle = ''secret-handle:espocrm-local-v1'',
        ac_path = ''/Contact'',
        ac_body = [(''description'', JStr ''PanSphaira trust-boundary synthetic contact''),
          (''emailAddress'', JStr e), (''firstName'', JStr f), (''lastName'', JStr l)],
        ac_replayKey = replayKey ctx, ac_tenant = bc_tenant ctx, ac_provider = ''espocrm'',
        ac_entity = ''Contact''\<rparr>
   | OrderArguments cid ref date \<Rightarrow>
       \<lparr>ac_actor = bc_actor ctx, credentialHandle = ''secret-handle:dolibarr-local-v1'',
        ac_path = ''/orders'',
        ac_body = [(''date'', jint date), (''ref_client'', JStr ref), (''socid'', jint cid)],
        ac_replayKey = replayKey ctx, ac_tenant = bc_tenant ctx, ac_provider = ''dolibarr'',
        ac_entity = ''Order''\<rparr>)"

definition evidenceRow :: "hash \<Rightarrow> envelope \<Rightarrow> evidence_row" where
  "evidenceRow H e = \<lparr>ev_envelopeId = envelopeId e, ev_origin = env_origin e, ev_trust = env_trust e,
     ev_tenant = env_tenant e, ev_dataClass = env_dataClass e,
     contentDigest = digest_of H (JStr (env_content e))\<rparr>"

definition reconstructTrustedActionCandidateV1 ::
    "hash \<Rightarrow> (string \<Rightarrow> string \<Rightarrow> bool) \<Rightarrow> js \<Rightarrow> js \<Rightarrow> boundary_result" where
  "reconstructTrustedActionCandidateV1 H le candidateValue trustedContextValue =
     (case parseContext le trustedContextValue of
        (None, issues) \<Rightarrow> deny H candidateValue trustedContextValue issues
      | (Some ctx, _) \<Rightarrow>
          (case parseCandidate candidateValue ctx of
             (None, issues) \<Rightarrow> deny H candidateValue trustedContextValue issues
           | (Some cand, _) \<Rightarrow>
               (let evidence = map (evidenceRow H) (envelopes ctx);
                    act = reconstructAction cand ctx
                in makeResult H
                  \<lparr>reconstructed = True,
                   tb_inputDigest = Some (digest_of H (obj [(''candidate'', candidate_js cand),
                     (''trustedContext'', boundary_context_js ctx)])),
                   candidateDigest = Some (digest_of H (candidate_js cand)),
                   evidenceDigest = Some (digest_of H (arr (map evidence_row_js evidence))),
                   actionDigest = Some (digest_of H (action_js act)),
                   tb_action = Some act, tb_evidence = evidence, tb_issues = []\<rparr>)))"

subsection \<open>Verification\<close>

definition BOUNDARY_INVALID :: string where
  "BOUNDARY_INVALID = ''TRUST_BOUNDARY_RESULT_INVALID_DENIED''"

definition BOUNDARY_KEYS :: "string list" where
  "BOUNDARY_KEYS = [''action'', ''actionDigest'', ''candidateDigest'', ''claim'', ''evidence'',
     ''evidenceDigest'', ''inputDigest'', ''issues'', ''outcome'', ''resultDigest'', ''schemaVersion'']"

definition checkReconstructed :: "hash \<Rightarrow> fields \<Rightarrow> bool res" where
  "checkReconstructed H r =
     (if \<not> is_record (getf r ''action'') \<or> \<not> is_string (getf r ''actionDigest'') then Inr False
      else res_bind (digest_js H (getf r ''action'')) (\<lambda>a.
        if JStr a \<noteq> getf r ''actionDigest'' \<or> \<not> is_array (getf r ''evidence'')
           \<or> \<not> is_string (getf r ''evidenceDigest'') then Inr False
        else res_bind (digest_js H (getf r ''evidence'')) (\<lambda>e.
          Inr (JStr e = getf r ''evidenceDigest'' \<and> is_array (getf r ''issues'')
            \<and> elems_of (getf r ''issues'') = []))))"

definition checkDenied :: "fields \<Rightarrow> bool" where
  "checkDenied r \<longleftrightarrow> getf r ''outcome'' = JStr ''DENY'' \<and> getf r ''action'' = JNull
     \<and> getf r ''actionDigest'' = JNull \<and> getf r ''candidateDigest'' = JNull
     \<and> getf r ''evidenceDigest'' = JNull \<and> is_array (getf r ''evidence'')
     \<and> elems_of (getf r ''evidence'') = [] \<and> is_array (getf r ''issues'')
     \<and> \<not> length (elems_of (getf r ''issues'')) < 1"

definition verifyTrustBoundaryResultV1 :: "hash \<Rightarrow> js \<Rightarrow> js res" where
  "verifyTrustBoundaryResultV1 H v =
     (let r = fields_of v in
      if \<not> exactKeys v BOUNDARY_KEYS then Inl BOUNDARY_INVALID
      else if getf r ''schemaVersion'' \<noteq> JStr TRUST_BOUNDARY_RESULT_API_VERSION
         \<or> getf r ''claim'' \<noteq> JStr BOUNDARY_CLAIM \<or> \<not> is_string (getf r ''resultDigest'')
      then Inl BOUNDARY_INVALID
      else res_bind (digest_js H (obj (without ''resultDigest'' r))) (\<lambda>d.
        if JStr d \<noteq> getf r ''resultDigest'' then Inl BOUNDARY_INVALID
        else if getf r ''outcome'' = JStr ''RECONSTRUCTED_CANDIDATE'' then
          res_bind (checkReconstructed H r) (\<lambda>ok. if ok then Inr v else Inl BOUNDARY_INVALID)
        else if checkDenied r then Inr v else Inl BOUNDARY_INVALID))"

subsection \<open>Synthetic inputs\<close>

definition boundary_envelope :: "(origin \<Rightarrow> string option) \<Rightarrow> origin \<Rightarrow> string \<Rightarrow> string \<Rightarrow> envelope" where
  "boundary_envelope content orig suffix fallback =
     \<lparr>envelopeId = ''evidence:'' @ suffix @ '':v1'', env_origin = orig, env_trust = EXPECTED_TRUST orig,
      env_tenant = ''panskys-zoo-demo'', env_dataClass = INTERNAL_SYNTHETIC,
      env_content = (case content orig of None \<Rightarrow> fallback | Some c \<Rightarrow> c)\<rparr>"

definition syntheticTrustedReconstructionContextV1 :: "(origin \<Rightarrow> string option) \<Rightarrow> js" where
  "syntheticTrustedReconstructionContextV1 content = boundary_context_js
     \<lparr>bc_actor = ''agent:admin-ai-poc'', bc_tenant = ''panskys-zoo-demo'',
      replayKey = ''admin-ai:poc:trust-boundary-001'',
      envelopes =
        [boundary_envelope content PROVIDER_ORIGIN ''provider'' ''Synthetic provider record.'',
         boundary_envelope content TOOL_ORIGIN ''tool'' ''Synthetic tool output.'',
         boundary_envelope content DOCUMENT_ORIGIN ''document'' ''Synthetic retrieved document.'',
         boundary_envelope content MEMORY_ORIGIN ''memory'' ''Synthetic recalled memory.'']\<rparr>"

definition syntheticArguments :: "bool \<Rightarrow> action_arguments" where
  "syntheticArguments contact =
     (if contact then ContactArguments ''trust-boundary@example.invalid'' ''Avery'' ''Boundary''
      else OrderArguments 7 ''CM-TRUST-BOUNDARY-001'' 1767225600)"

definition syntheticTypedActionCandidateV1 :: "bool \<Rightarrow> js" where
  "syntheticTypedActionCandidateV1 contact = candidate_js
     \<lparr>ca_arguments = syntheticArguments contact,
      evidenceEnvelopeIds = [''evidence:provider:v1'', ''evidence:tool:v1'',
        ''evidence:document:v1'', ''evidence:memory:v1'']\<rparr>"

end
