(* ===== verification/AuditTypes.thy ===== *)
theory AuditTypes
  imports Guards
begin

text \<open>
  The data of the protected audit timeline (\<open>packages/contracts/src/protected-audit-timeline.ts\<close>):
  events, envelopes, checkpoints, signers and trust policies, their encodings as JavaScript values, and
  the guards that read untrusted values as such data. Fields whose type is one constant string (schema
  versions, the algorithm of a signer reference) appear in the encodings only. The references of an
  event, which the code reads with computed keys, are a function of the key.
\<close>

subsection \<open>Data\<close>

definition PROTECTED_AUDIT_EVENT_SCHEMA_V1 :: string where
  "PROTECTED_AUDIT_EVENT_SCHEMA_V1 = ''chimpmaera.audit/protected-event/v1''"
definition PROTECTED_AUDIT_ENVELOPE_SCHEMA_V1 :: string where
  "PROTECTED_AUDIT_ENVELOPE_SCHEMA_V1 = ''chimpmaera.audit/protected-envelope/v1''"
definition PROTECTED_AUDIT_CHECKPOINT_SCHEMA_V1 :: string where
  "PROTECTED_AUDIT_CHECKPOINT_SCHEMA_V1 = ''chimpmaera.audit/protected-checkpoint/v1''"
definition PROTECTED_AUDIT_EXPLANATION_SCHEMA_V1 :: string where
  "PROTECTED_AUDIT_EXPLANATION_SCHEMA_V1 = ''chimpmaera.audit/deterministic-explanation/v1''"

datatype event_kind =
    IDENTITY | INTENT | PLAN | POLICY | APPROVAL | BUDGET | EFFECT | READBACK | RECONCILE | STOP | ROLLBACK

datatype audit_outcome =
    OBSERVED | ALLOWED | DENIED | OWNER_ESCALATION | THROTTLE | QUARANTINE | COMMITTED | FAILED
  | UNCERTAIN | RECONCILED | STOPPED | ROLLED_BACK

datatype ref_key =
    Identity | Intent | Plan | Policy | Approval | Budget | Effect | Readback | Reconcile | Stop

definition EVENT_KINDS :: "event_kind list" where
  "EVENT_KINDS = [IDENTITY, INTENT, PLAN, POLICY, APPROVAL, BUDGET, EFFECT, READBACK, RECONCILE, STOP,
     ROLLBACK]"

definition OUTCOMES :: "audit_outcome list" where
  "OUTCOMES = [OBSERVED, ALLOWED, DENIED, OWNER_ESCALATION, THROTTLE, QUARANTINE, COMMITTED, FAILED,
     UNCERTAIN, RECONCILED, STOPPED, ROLLED_BACK]"

definition REFERENCE_KEYS :: "ref_key list" where
  "REFERENCE_KEYS = [Identity, Intent, Plan, Policy, Approval, Budget, Effect, Readback, Reconcile, Stop]"

fun event_kind_text :: "event_kind \<Rightarrow> string" where
  "event_kind_text IDENTITY = ''IDENTITY''"
| "event_kind_text INTENT = ''INTENT''"
| "event_kind_text PLAN = ''PLAN''"
| "event_kind_text POLICY = ''POLICY''"
| "event_kind_text APPROVAL = ''APPROVAL''"
| "event_kind_text BUDGET = ''BUDGET''"
| "event_kind_text EFFECT = ''EFFECT''"
| "event_kind_text READBACK = ''READBACK''"
| "event_kind_text RECONCILE = ''RECONCILE''"
| "event_kind_text STOP = ''STOP''"
| "event_kind_text ROLLBACK = ''ROLLBACK''"

fun audit_outcome_text :: "audit_outcome \<Rightarrow> string" where
  "audit_outcome_text OBSERVED = ''OBSERVED''"
| "audit_outcome_text ALLOWED = ''ALLOW''"
| "audit_outcome_text DENIED = ''DENY''"
| "audit_outcome_text OWNER_ESCALATION = ''OWNER_ESCALATION''"
| "audit_outcome_text THROTTLE = ''THROTTLE''"
| "audit_outcome_text QUARANTINE = ''QUARANTINE''"
| "audit_outcome_text COMMITTED = ''COMMITTED''"
| "audit_outcome_text FAILED = ''FAILED''"
| "audit_outcome_text UNCERTAIN = ''UNCERTAIN''"
| "audit_outcome_text RECONCILED = ''RECONCILED''"
| "audit_outcome_text STOPPED = ''STOPPED''"
| "audit_outcome_text ROLLED_BACK = ''ROLLED_BACK''"

fun ref_text :: "ref_key \<Rightarrow> string" where
  "ref_text Identity = ''identity''"
| "ref_text Intent = ''intent''"
| "ref_text Plan = ''plan''"
| "ref_text Policy = ''policy''"
| "ref_text Approval = ''approval''"
| "ref_text Budget = ''budget''"
| "ref_text Effect = ''effect''"
| "ref_text Readback = ''readback''"
| "ref_text Reconcile = ''reconcile''"
| "ref_text Stop = ''stop''"

fun REQUIRED_REFERENCES :: "event_kind \<Rightarrow> ref_key list" where
  "REQUIRED_REFERENCES IDENTITY = []"
| "REQUIRED_REFERENCES INTENT = [Identity]"
| "REQUIRED_REFERENCES PLAN = [Identity, Intent]"
| "REQUIRED_REFERENCES POLICY = [Identity, Intent, Plan]"
| "REQUIRED_REFERENCES APPROVAL = [Identity, Intent, Plan, Policy]"
| "REQUIRED_REFERENCES BUDGET = [Identity, Intent, Plan, Policy, Approval]"
| "REQUIRED_REFERENCES EFFECT = [Identity, Intent, Plan, Policy, Approval, Budget]"
| "REQUIRED_REFERENCES READBACK = [Identity, Intent, Plan, Policy, Approval, Budget, Effect]"
| "REQUIRED_REFERENCES RECONCILE = [Identity, Intent, Plan, Policy, Approval, Budget, Effect]"
| "REQUIRED_REFERENCES STOP = [Identity, Policy]"
| "REQUIRED_REFERENCES ROLLBACK = [Identity, Intent, Plan, Policy, Approval, Effect]"

fun KIND_BY_REFERENCE :: "ref_key \<Rightarrow> event_kind" where
  "KIND_BY_REFERENCE Identity = IDENTITY"
| "KIND_BY_REFERENCE Intent = INTENT"
| "KIND_BY_REFERENCE Plan = PLAN"
| "KIND_BY_REFERENCE Policy = POLICY"
| "KIND_BY_REFERENCE Approval = APPROVAL"
| "KIND_BY_REFERENCE Budget = BUDGET"
| "KIND_BY_REFERENCE Effect = EFFECT"
| "KIND_BY_REFERENCE Readback = READBACK"
| "KIND_BY_REFERENCE Reconcile = RECONCILE"
| "KIND_BY_REFERENCE Stop = STOP"

type_synonym references = "ref_key \<Rightarrow> string option"

record audit_facts =
  af_outcome :: audit_outcome
  af_reasonCodes :: "string list"
  af_evidenceDigests :: "string list"

record audit_event =
  au_timelineId :: string
  au_tenant :: string
  au_sequence :: int
  au_eventId :: string
  au_kind :: event_kind
  au_actorId :: string
  au_operationId :: string
  au_correlationId :: string
  occurredAtMs :: int
  observedAtMs :: int
  au_references :: references
  au_facts :: audit_facts

record signer_ref =
  sr_keyId :: string
  sr_generation :: int

record audit_envelope =
  ae_event :: audit_event
  ae_eventDigest :: string
  ae_previous :: "string option"
  signedAtMs :: int
  ae_signer :: signer_ref
  ae_signature :: string

record checkpoint =
  cp_timelineId :: string
  cp_tenant :: string
  eventCount :: int
  headEnvelopeDigest :: string
  issuedAtMs :: int
  cp_signer :: signer_ref
  cp_signature :: string

record trust_key =
  tk_keyId :: string
  tk_generation :: int
  tk_algorithm :: string
  tk_publicKeyPem :: string
  tk_validFromMs :: int
  tk_validUntilMs :: int
  tk_active :: bool

record trust_policy =
  tp_tenant :: string
  tp_timelineId :: string
  minimumGeneration :: int
  trust_keys :: "trust_key list"

record audit_signer =
  as_keyId :: string
  as_generation :: int
  as_algorithm :: string
  privateKeyPem :: string
  publicKeyPem :: string
  as_validFromMs :: int
  as_validUntilMs :: int

record verified_fact =
  vf_sequence :: int
  vf_eventId :: string
  vf_kind :: event_kind
  vf_eventDigest :: string
  vf_outcome :: audit_outcome
  vf_reasonCodes :: "string list"
  vf_references :: references

datatype verification =
    VERIFIED string string string "verified_fact list"
  | UNVERIFIABLE "string list"

subsection \<open>Encodings\<close>

definition references_js :: "references \<Rightarrow> js" where
  "references_js refs = obj (map (\<lambda>k. (ref_text k, str_or_null (refs k))) REFERENCE_KEYS)"

definition facts_js :: "audit_facts \<Rightarrow> js" where
  "facts_js f = obj
     [(''outcome'', JStr (audit_outcome_text (af_outcome f))), (''reasonCodes'', strs_js (af_reasonCodes f)),
      (''evidenceDigests'', strs_js (af_evidenceDigests f))]"

definition event_js :: "audit_event \<Rightarrow> js" where
  "event_js e = obj
     [(''schemaVersion'', JStr PROTECTED_AUDIT_EVENT_SCHEMA_V1), (''timelineId'', JStr (au_timelineId e)),
      (''tenant'', JStr (au_tenant e)), (''sequence'', jint (au_sequence e)),
      (''eventId'', JStr (au_eventId e)), (''eventKind'', JStr (event_kind_text (au_kind e))),
      (''actorId'', JStr (au_actorId e)), (''operationId'', JStr (au_operationId e)),
      (''correlationId'', JStr (au_correlationId e)), (''occurredAtMs'', jint (occurredAtMs e)),
      (''observedAtMs'', jint (observedAtMs e)), (''references'', references_js (au_references e)),
      (''facts'', facts_js (au_facts e))]"

definition signer_js :: "signer_ref \<Rightarrow> js" where
  "signer_js s = obj [(''algorithm'', JStr ''Ed25519''), (''keyId'', JStr (sr_keyId s)),
     (''generation'', jint (sr_generation s))]"

definition envelope_core :: "audit_envelope \<Rightarrow> fields" where
  "envelope_core e =
     [(''schemaVersion'', JStr PROTECTED_AUDIT_ENVELOPE_SCHEMA_V1), (''event'', event_js (ae_event e)),
      (''eventDigest'', JStr (ae_eventDigest e)), (''previousEnvelopeDigest'', str_or_null (ae_previous e)),
      (''signedAtMs'', jint (signedAtMs e)), (''signer'', signer_js (ae_signer e))]"

definition audit_envelope_js :: "audit_envelope \<Rightarrow> js" where
  "audit_envelope_js e = obj (envelope_core e @ [(''signatureBase64'', JStr (ae_signature e))])"

definition checkpoint_core :: "checkpoint \<Rightarrow> fields" where
  "checkpoint_core c =
     [(''schemaVersion'', JStr PROTECTED_AUDIT_CHECKPOINT_SCHEMA_V1), (''timelineId'', JStr (cp_timelineId c)),
      (''tenant'', JStr (cp_tenant c)), (''eventCount'', jint (eventCount c)),
      (''headEnvelopeDigest'', JStr (headEnvelopeDigest c)), (''issuedAtMs'', jint (issuedAtMs c)),
      (''signer'', signer_js (cp_signer c))]"

definition checkpoint_js :: "checkpoint \<Rightarrow> js" where
  "checkpoint_js c = obj (checkpoint_core c @ [(''signatureBase64'', JStr (cp_signature c))])"

definition protectedAuditEventDigestV1 :: "hash \<Rightarrow> audit_event \<Rightarrow> string" where
  "protectedAuditEventDigestV1 H e = digest_of H (event_js e)"

definition protectedAuditEnvelopeDigestV1 :: "hash \<Rightarrow> audit_envelope \<Rightarrow> string" where
  "protectedAuditEnvelopeDigestV1 H e = digest_of H (audit_envelope_js e)"

definition protectedAuditCheckpointDigestV1 :: "hash \<Rightarrow> checkpoint \<Rightarrow> string" where
  "protectedAuditCheckpointDigestV1 H c = digest_of H (checkpoint_js c)"

subsection \<open>Guards\<close>

definition AUDIT_EVENT_KEYS :: "string list" where
  "AUDIT_EVENT_KEYS = sort [''actorId'', ''correlationId'', ''eventId'', ''eventKind'', ''facts'',
     ''observedAtMs'', ''occurredAtMs'', ''operationId'', ''references'', ''schemaVersion'', ''sequence'',
     ''tenant'', ''timelineId'']"

definition AUDIT_FACT_KEYS :: "string list" where
  "AUDIT_FACT_KEYS = sort [''evidenceDigests'', ''outcome'', ''reasonCodes'']"

definition AUDIT_SIGNER_KEYS :: "string list" where
  "AUDIT_SIGNER_KEYS = sort [''algorithm'', ''generation'', ''keyId'']"

definition AUDIT_ENVELOPE_KEYS :: "string list" where
  "AUDIT_ENVELOPE_KEYS = sort [''event'', ''eventDigest'', ''previousEnvelopeDigest'', ''schemaVersion'',
     ''signatureBase64'', ''signedAtMs'', ''signer'']"

definition AUDIT_CHECKPOINT_KEYS :: "string list" where
  "AUDIT_CHECKPOINT_KEYS = sort [''eventCount'', ''headEnvelopeDigest'', ''issuedAtMs'', ''schemaVersion'',
     ''signatureBase64'', ''signer'', ''tenant'', ''timelineId'']"

definition validDigest :: "js \<Rightarrow> bool" where
  "validDigest v = str_test hex64 v"

definition AUDIT_ID :: rx where
  "AUDIT_ID = Seq (Cls [a_z]) (Seq (Rep (Cls ([a_z, d0_9] @ chars ''_-'')) 1 (Some 31))
     (Seq (lit '':'') (Seq (Cls [a_z, d0_9]) (Rep (Cls ([a_z, d0_9] @ chars ''._-'')) 2 (Some 95)))))"

definition validId :: "js \<Rightarrow> bool" where
  "validId v = str_test (rx_test AUDIT_ID) v"

definition validTime :: "js \<Rightarrow> bool" where
  "validTime v \<longleftrightarrow> is_safe_integer v \<and> int_of_js v \<ge> 0"

definition validSignerReference :: "js \<Rightarrow> bool" where
  "validSignerReference v \<longleftrightarrow>
     (let r = fields_of v in
      exactKeys v AUDIT_SIGNER_KEYS \<and> getf r ''algorithm'' = JStr ''Ed25519'' \<and> validId (getf r ''keyId'')
      \<and> is_safe_integer (getf r ''generation'') \<and> int_of_js (getf r ''generation'') \<ge> 1)"

definition REASON_CODE :: rx where
  "REASON_CODE = Seq (Cls [A_Z]) (Rep (Cls ([A_Z, d0_9] @ chars ''_'')) 2 (Some 95))"

definition BASE64 :: rx where
  "BASE64 = Seq (Rep (Cls ([A_Z, a_z, d0_9] @ chars ''+/'')) 1 None) (Rep (one (CHR ''='')) 0 (Some 2))"

definition refOf :: "js \<Rightarrow> string option" where
  "refOf v = (if v = JNull then None else Some (str_of v))"

definition readReferences :: "js \<Rightarrow> references" where
  "readReferences v = (\<lambda>k. refOf (getf (fields_of v) (ref_text k)))"

definition validReferences :: "js \<Rightarrow> bool" where
  "validReferences v \<longleftrightarrow> exactKeys v (sort (map ref_text REFERENCE_KEYS))
     \<and> list_all (\<lambda>k. getf (fields_of v) (ref_text k) = JNull \<or> validDigest (getf (fields_of v) (ref_text k)))
         REFERENCE_KEYS"

definition validFacts :: "js \<Rightarrow> bool" where
  "validFacts v \<longleftrightarrow>
     (let r = fields_of v; codes = elems_of (getf r ''reasonCodes''); ds = elems_of (getf r ''evidenceDigests'') in
      exactKeys v AUDIT_FACT_KEYS \<and> memberOf audit_outcome_text OUTCOMES (getf r ''outcome'') \<noteq> None
      \<and> is_array (getf r ''reasonCodes'') \<and> \<not> length codes > 32
      \<and> list_all (str_test (rx_test REASON_CODE)) codes \<and> successively (<) (map str_of codes)
      \<and> is_array (getf r ''evidenceDigests'') \<and> \<not> length ds > 32
      \<and> list_all validDigest ds \<and> successively (<) (map str_of ds))"

text \<open>
  An event that passes is read as a record; the digest is taken of the value itself, whose validation
  leaves no part that has no canonical text (\<open>validated_event\<close>).
\<close>

definition readEvent :: "js \<Rightarrow> audit_event" where
  "readEvent v =
     (let r = fields_of v; f = fields_of (getf r ''facts'') in
      \<lparr>au_timelineId = str_of (getf r ''timelineId''), au_tenant = str_of (getf r ''tenant''),
       au_sequence = int_of_js (getf r ''sequence''), au_eventId = str_of (getf r ''eventId''),
       au_kind = the (memberOf event_kind_text EVENT_KINDS (getf r ''eventKind'')),
       au_actorId = str_of (getf r ''actorId''), au_operationId = str_of (getf r ''operationId''),
       au_correlationId = str_of (getf r ''correlationId''),
       occurredAtMs = int_of_js (getf r ''occurredAtMs''), observedAtMs = int_of_js (getf r ''observedAtMs''),
       au_references = readReferences (getf r ''references''),
       au_facts = \<lparr>af_outcome = the (memberOf audit_outcome_text OUTCOMES (getf f ''outcome'')),
         af_reasonCodes = map str_of (elems_of (getf f ''reasonCodes'')),
         af_evidenceDigests = map str_of (elems_of (getf f ''evidenceDigests''))\<rparr>\<rparr>)"

definition validateProtectedAuditEventV1 :: "hash \<Rightarrow> js \<Rightarrow> (audit_event \<times> string) res" where
  "validateProtectedAuditEventV1 H v =
     (let r = fields_of v in
      if \<not> exactKeys v AUDIT_EVENT_KEYS then Inl ''AUDIT_EVENT_SCHEMA_DENIED''
      else if getf r ''schemaVersion'' \<noteq> JStr PROTECTED_AUDIT_EVENT_SCHEMA_V1
        \<or> \<not> validId (getf r ''timelineId'') \<or> \<not> validId (getf r ''tenant'') \<or> \<not> validId (getf r ''eventId'')
        \<or> \<not> validId (getf r ''actorId'') \<or> \<not> validId (getf r ''operationId'')
        \<or> \<not> validId (getf r ''correlationId'')
        \<or> \<not> is_safe_integer (getf r ''sequence'') \<or> int_of_js (getf r ''sequence'') < 1
        \<or> memberOf event_kind_text EVENT_KINDS (getf r ''eventKind'') = None
        \<or> \<not> validTime (getf r ''occurredAtMs'') \<or> \<not> validTime (getf r ''observedAtMs'')
        \<or> int_of_js (getf r ''occurredAtMs'') > int_of_js (getf r ''observedAtMs'')
      then Inl ''AUDIT_EVENT_BINDING_DENIED''
      else if \<not> validReferences (getf r ''references'') then Inl ''AUDIT_EVENT_REFERENCES_DENIED''
      else if \<not> validFacts (getf r ''facts'') then Inl ''AUDIT_EVENT_FACTS_DENIED''
      else Inr (readEvent v, digest_of H v))"

end
