(* ===== verification/Base64.thy ===== *)
theory Base64
  imports Prelude
begin

text \<open>
  Base64 as \<open>node:buffer\<close> writes and reads it. The code never trusts the lenient decoder: it encodes the
  decoded bytes again and compares. So what it decodes is exactly the canonical texts, groups
  of four characters, the last one padded, with no bit set beyond the last byte
  (\<open>canonical_base64\<close>), and on these the decoder is a function with the encoder as inverse
  (\<open>from_base64_iff\<close>).
\<close>

definition base64_value :: "char \<Rightarrow> nat option" where
  "base64_value c =
     (let n = (of_char c :: nat) in
      if 65 \<le> n \<and> n \<le> 90 then Some (n - 65)
      else if 97 \<le> n \<and> n \<le> 122 then Some (n - 71)
      else if 48 \<le> n \<and> n \<le> 57 then Some (n + 4)
      else if n = 43 then Some 62 else if n = 47 then Some 63 else None)"

fun canonical_base64 :: "string \<Rightarrow> bool" where
  "canonical_base64 [] = True"
| "canonical_base64 [a, b, c, d] =
     (base64_value a \<noteq> None \<and> base64_value b \<noteq> None \<and>
      (if c = CHR ''='' then d = CHR ''='' \<and> the (base64_value b) mod 16 = 0
       else base64_value c \<noteq> None \<and>
         (if d = CHR ''='' then the (base64_value c) mod 4 = 0 else base64_value d \<noteq> None)))"
| "canonical_base64 (a # b # c # d # s) =
     (base64_value a \<noteq> None \<and> base64_value b \<noteq> None \<and> base64_value c \<noteq> None
      \<and> base64_value d \<noteq> None \<and> canonical_base64 s)"
| "canonical_base64 _ = False"

definition base64_char :: "nat \<Rightarrow> char" where
  "base64_char n =
     (if n < 26 then char_of (n + 65) else if n < 52 then char_of (n + 71)
      else if n < 62 then char_of (n - 4) else if n = 62 then CHR ''+'' else CHR ''/'')"

text \<open>\<open>buffer.toString("base64")\<close>.\<close>

fun to_base64 :: "string \<Rightarrow> string" where
  "to_base64 [] = []"
| "to_base64 [x] =
     (let a = of_char x in [base64_char (a div 4), base64_char (a mod 4 * 16), CHR ''='', CHR ''=''])"
| "to_base64 [x, y] =
     (let a = of_char x; b = of_char y in
      [base64_char (a div 4), base64_char (a mod 4 * 16 + b div 16), base64_char (b mod 16 * 4), CHR ''=''])"
| "to_base64 (x # y # z # s) =
     (let a = of_char x; b = of_char y; c = of_char z in
      base64_char (a div 4) # base64_char (a mod 4 * 16 + b div 16)
        # base64_char (b mod 16 * 4 + c div 64) # base64_char (c mod 64) # to_base64 s)"

text \<open>\<open>Buffer.from(s, "base64")\<close> where encoding it again gives \<open>s\<close>, and \<open>None\<close> otherwise.\<close>

definition sextet :: "char \<Rightarrow> nat" where
  "sextet c = the (base64_value c)"

fun decode_base64 :: "string \<Rightarrow> string" where
  "decode_base64 (p # q # r # t # s) =
     (let a = sextet p; b = sextet q; c = sextet r; d = sextet t in
      if r = CHR ''='' then [char_of (a * 4 + b div 16)]
      else if t = CHR ''='' then [char_of (a * 4 + b div 16), char_of (b mod 16 * 16 + c div 4)]
      else char_of (a * 4 + b div 16) # char_of (b mod 16 * 16 + c div 4) # char_of (c mod 4 * 64 + d)
        # decode_base64 s)"
| "decode_base64 _ = []"

definition from_base64 :: "string \<Rightarrow> string option" where
  "from_base64 s = (if canonical_base64 s then Some (decode_base64 s) else None)"

subsection \<open>Round trips\<close>

lemma base64_value_char:
  assumes "n < 64"
  shows "base64_value (base64_char n) = Some n"
proof -
  consider "n < 26" | "26 \<le> n" "n < 52" | "52 \<le> n" "n < 62" | "n = 62" | "n = 63"
    using assms by linarith
  then show ?thesis by cases (auto simp: base64_char_def base64_value_def Let_def)
qed

lemma base64_char_value:
  assumes "base64_value c = Some n"
  shows "n < 64 \<and> base64_char n = c"
proof -
  have c: "char_of (of_char c :: nat) = c" by simp
  define k where "k = (of_char c :: nat)"
  note v = assms [unfolded base64_value_def Let_def, folded k_def]
  consider "65 \<le> k" "k \<le> 90" "n = k - 65" | "97 \<le> k" "k \<le> 122" "n = k - 71"
    | "48 \<le> k" "k \<le> 57" "n = k + 4" | "k = 43" "n = 62" | "k = 47" "n = 63"
    using v by (auto split: if_splits)
  then have "n < 64 \<and> base64_char n = char_of k"
    by cases (auto simp: base64_char_def char_of_def bit_Suc bit_0)
  with c show ?thesis by (simp add: k_def)
qed

lemma base64_char_not_pad [simp]: "n < 64 \<Longrightarrow> base64_char n \<noteq> CHR ''=''"
  using base64_value_char [of n] by (auto simp: base64_value_def)

lemma sextet_char [simp]: "n < 64 \<Longrightarrow> sextet (base64_char n) = n"
  by (simp add: sextet_def base64_value_char)

lemma sextet_bounds: "base64_value c \<noteq> None \<Longrightarrow> sextet c < 64 \<and> base64_char (sextet c) = c"
  using base64_char_value [of c] by (auto simp: sextet_def)

text \<open>A number and the two digits it is split into.\<close>

lemma digits:
  fixes k m n :: nat
  assumes "k < n"
  shows "(m * n + k) div n = m" "(m * n + k) mod n = k"
  using assms by simp_all

lemma digits_less:
  fixes k m n l :: nat
  assumes "k < n" "m < l"
  shows "m * n + k < l * n"
proof -
  have "m * n + k < Suc m * n" using assms(1) by simp
  also have "\<dots> \<le> l * n" using assms(2) by (intro mult_le_mono1) simp
  finally show ?thesis .
qed

lemma byte_split:
  fixes a b c :: nat
  assumes "a < 256" "b < 256" "c < 256"
  shows "a div 4 < 64" "a mod 4 * 16 < 64" "a mod 4 * 16 + b div 16 < 64" "b mod 16 * 4 < 64"
    "b mod 16 * 4 + c div 64 < 64" "c mod 64 < 64" "a div 4 * 4 + a mod 4 = a"
    "(a mod 4 * 16 + b div 16) div 16 = a mod 4" "(a mod 4 * 16 + b div 16) mod 16 = b div 16"
    "(b mod 16 * 4 + c div 64) div 4 = b mod 16" "b div 16 * 16 + b mod 16 = b"
    "(b mod 16 * 4 + c div 64) mod 4 = c div 64" "c div 64 * 64 + c mod 64 = c"
proof -
  have q: "b div 16 < 16" "c div 64 < 4" "a div 4 < 64" using assms by simp_all
  have m: "a mod 4 < 4" "b mod 16 < 16" "c mod 64 < 64" by simp_all
  show "a div 4 < 64" "c mod 64 < 64" by (fact q m)+
  show "a mod 4 * 16 < 64" "b mod 16 * 4 < 64" using m by linarith+
  show "a mod 4 * 16 + b div 16 < 64" using digits_less [OF q(1) m(1)] by simp
  show "b mod 16 * 4 + c div 64 < 64" using digits_less [OF q(2) m(2)] by simp
  show "a div 4 * 4 + a mod 4 = a" "b div 16 * 16 + b mod 16 = b" "c div 64 * 64 + c mod 64 = c"
    by (rule div_mult_mod_eq)+
  show "(a mod 4 * 16 + b div 16) div 16 = a mod 4" "(a mod 4 * 16 + b div 16) mod 16 = b div 16"
    by (rule digits [OF q(1)])+
  show "(b mod 16 * 4 + c div 64) div 4 = b mod 16" "(b mod 16 * 4 + c div 64) mod 4 = c div 64"
    by (rule digits [OF q(2)])+
qed

lemma sextet_join:
  fixes a b c d :: nat
  assumes "a < 64" "b < 64" "c < 64" "d < 64"
  shows "a * 4 + b div 16 < 256" "b mod 16 * 16 + c div 4 < 256" "c mod 4 * 64 + d < 256"
    "(a * 4 + b div 16) div 4 = a" "(a * 4 + b div 16) mod 4 = b div 16"
    "(b mod 16 * 16 + c div 4) div 16 = b mod 16" "(b mod 16 * 16 + c div 4) mod 16 = c div 4"
    "(c mod 4 * 64 + d) div 64 = c mod 4" "(c mod 4 * 64 + d) mod 64 = d"
    "b div 16 * 16 + b mod 16 = b" "c div 4 * 4 + c mod 4 = c"
proof -
  have q: "b div 16 < 4" "c div 4 < 16" using assms by simp_all
  have m: "b mod 16 < 16" "c mod 4 < 4" by simp_all
  show "a * 4 + b div 16 < 256" using digits_less [OF q(1) assms(1)] by simp
  show "b mod 16 * 16 + c div 4 < 256" using digits_less [OF q(2) m(1)] by simp
  show "c mod 4 * 64 + d < 256" using digits_less [OF assms(4) m(2)] by simp
  show "(a * 4 + b div 16) div 4 = a" "(a * 4 + b div 16) mod 4 = b div 16" by (rule digits [OF q(1)])+
  show "(b mod 16 * 16 + c div 4) div 16 = b mod 16" "(b mod 16 * 16 + c div 4) mod 16 = c div 4"
    by (rule digits [OF q(2)])+
  show "(c mod 4 * 64 + d) div 64 = c mod 4" "(c mod 4 * 64 + d) mod 64 = d" by (rule digits [OF assms(4)])+
  show "b div 16 * 16 + b mod 16 = b" "c div 4 * 4 + c mod 4 = c" by (rule div_mult_mod_eq)+
qed

lemma decode_to_base64: "canonical_base64 (to_base64 bs) \<and> decode_base64 (to_base64 bs) = bs"
proof (induction bs rule: to_base64.induct)
  case (2 x)
  have p: "base64_value (base64_char n) = Some n" if "n < 64" for n using base64_value_char that .
  note b = byte_split [of "of_char x" 0 0, simplified]
  show ?case using b by (simp add: Let_def p)
next
  case (3 x y)
  have p: "base64_value (base64_char n) = Some n" if "n < 64" for n using base64_value_char that .
  note b = byte_split [of "of_char x" "of_char y" 0, simplified]
  show ?case using b by (simp add: Let_def p)
next
  case (4 x y z s)
  have p: "base64_value (base64_char n) = Some n" if "n < 64" for n using base64_value_char that .
  note b = byte_split [of "of_char x" "of_char y" "of_char z", simplified]
  have "canonical_base64 (w # v # u # t # s') \<longleftrightarrow> base64_value w \<noteq> None \<and> base64_value v \<noteq> None
      \<and> base64_value u \<noteq> None \<and> base64_value t \<noteq> None \<and> canonical_base64 s'"
    if "u \<noteq> CHR ''=''" "t \<noteq> CHR ''=''" for w v u t s' using that by (cases s') auto
  then show ?case using 4 b by (simp add: Let_def p)
qed simp

lemma to_base64_decode: "canonical_base64 s \<Longrightarrow> to_base64 (decode_base64 s) = s"
proof (induction s rule: canonical_base64.induct)
  case (2 p q r t)
  have pq: "sextet p < 64" "base64_char (sextet p) = p" "sextet q < 64" "base64_char (sextet q) = q"
    using 2 sextet_bounds [of p] sextet_bounds [of q] by simp_all
  show ?case
  proof (cases "r = CHR ''=''")
    case True
    with 2 have "sextet q mod 16 = 0" "t = CHR ''=''" by (simp_all add: sextet_def)
    with True pq sextet_join [of "sextet p" "sextet q" 0 0] show ?thesis by (simp add: Let_def)
  next
    case r: False
    then have rv: "sextet r < 64" "base64_char (sextet r) = r" using 2 sextet_bounds [of r] by simp_all
    show ?thesis
    proof (cases "t = CHR ''=''")
      case True
      with 2 r have "sextet r mod 4 = 0" by (simp add: sextet_def)
      with True r pq rv sextet_join [of "sextet p" "sextet q" "sextet r" 0] show ?thesis by (simp add: Let_def)
    next
      case False
      then have "sextet t < 64" "base64_char (sextet t) = t" using 2 r sextet_bounds [of t] by simp_all
      with False r pq rv sextet_join [of "sextet p" "sextet q" "sextet r" "sextet t"]
      show ?thesis by (simp add: Let_def)
    qed
  qed
next
  case (3 p q r t v va)
  have n: "u \<noteq> CHR ''=''" if "base64_value u \<noteq> None" for u using that by (auto simp: base64_value_def)
  have b: "sextet u < 64 \<and> base64_char (sextet u) = u" if "u \<in> {p, q, r, t}" for u
    using 3 sextet_bounds [of u] that by auto
  have "r \<noteq> CHR ''=''" "t \<noteq> CHR ''=''" using 3 n by simp_all
  with 3 b [of p] b [of q] b [of r] b [of t] sextet_join [of "sextet p" "sextet q" "sextet r" "sextet t"]
  show ?case by (simp add: Let_def)
qed simp_all

theorem from_base64_iff: "from_base64 s = Some bs \<longleftrightarrow> s = to_base64 bs"
  using decode_to_base64 to_base64_decode by (auto simp: from_base64_def)

end
