(* ===== verification/AuditTimeline.thy ===== *)
theory AuditTimeline
  imports AuditTypes Base64
begin

text \<open>
  The operations of the protected audit timeline: signing envelopes and checkpoints, the writer, the
  verifier and the explanation. \<open>node:crypto\<close> is a parameter: \<open>sig_of pem text\<close> is \<open>sign\<close> with its
  signature in base64 (an exception for a key that does not parse), \<open>vrf pem text sig\<close> is
  \<open>verify\<close> on the decoded signature (false where it throws). Times are integral numbers, as every
  time the code accepts is; the code's own checks bound them.
\<close>

type_synonym sign_fn = "string \<Rightarrow> string \<Rightarrow> string res"
type_synonym verify_fn = "string \<Rightarrow> string \<Rightarrow> string \<Rightarrow> bool"

subsection \<open>Signing\<close>

definition signerReference :: "audit_signer \<Rightarrow> signer_ref" where
  "signerReference s = \<lparr>sr_keyId = as_keyId s, sr_generation = as_generation s\<rparr>"

definition assertSignerUsable :: "audit_signer \<Rightarrow> int \<Rightarrow> unit res" where
  "assertSignerUsable s atMs =
     (if as_algorithm s \<noteq> ''Ed25519'' \<or> \<not> validId (JStr (as_keyId s))
        \<or> \<not> is_safe_integer (jint (as_generation s)) \<or> as_generation s < 1
        \<or> \<not> validTime (jint atMs) \<or> atMs < as_validFromMs s \<or> atMs \<ge> as_validUntilMs s
      then Inl ''AUDIT_SIGNER_WINDOW_DENIED'' else Inr ())"

definition createProtectedAuditEnvelopeV1 ::
    "hash \<Rightarrow> sign_fn \<Rightarrow> js \<Rightarrow> string option \<Rightarrow> audit_signer \<Rightarrow> int \<Rightarrow> audit_envelope res" where
  "createProtectedAuditEnvelopeV1 H sig_of eventValue previousEnvelopeDigest signer atMs =
     res_bind (validateProtectedAuditEventV1 H eventValue) (\<lambda>(event, eventDigest).
       if previousEnvelopeDigest \<noteq> None \<and> \<not> validDigest (JStr (the previousEnvelopeDigest))
       then Inl ''AUDIT_PREVIOUS_ENVELOPE_DIGEST_DENIED''
       else res_bind (assertSignerUsable signer atMs) (\<lambda>_.
         if observedAtMs event > atMs then Inl ''AUDIT_SIGNED_BEFORE_OBSERVATION_DENIED''
         else
           (let env = \<lparr>ae_event = event, ae_eventDigest = eventDigest, ae_previous = previousEnvelopeDigest,
                  signedAtMs = atMs, ae_signer = signerReference signer, ae_signature = []\<rparr>
            in res_bind (sig_of (privateKeyPem signer) (canonText (obj (envelope_core env)))) (\<lambda>sig.
                 Inr (env\<lparr>ae_signature := sig\<rparr>)))))"

definition createCheckpoint ::
    "hash \<Rightarrow> sign_fn \<Rightarrow> audit_envelope list \<Rightarrow> audit_signer \<Rightarrow> int \<Rightarrow> checkpoint res" where
  "createCheckpoint H sig_of envs signer atMs =
     (case at_last envs of
        None \<Rightarrow> Inl ''AUDIT_CHECKPOINT_EMPTY_DENIED''
      | Some head \<Rightarrow> res_bind (assertSignerUsable signer atMs) (\<lambda>_.
          if atMs < signedAtMs head then Inl ''AUDIT_CHECKPOINT_CLOCK_DENIED''
          else
            (let cp = \<lparr>cp_timelineId = au_timelineId (ae_event (hd envs)),
                   cp_tenant = au_tenant (ae_event (hd envs)), eventCount = int (length envs),
                   headEnvelopeDigest = protectedAuditEnvelopeDigestV1 H head, issuedAtMs = atMs,
                   cp_signer = signerReference signer, cp_signature = []\<rparr>
             in res_bind (sig_of (privateKeyPem signer) (canonText (obj (checkpoint_core cp)))) (\<lambda>sig.
                  Inr (cp\<lparr>cp_signature := sig\<rparr>)))))"

subsection \<open>Checking a signature\<close>

text \<open>A signature must be the canonical base64 text of some bytes (\<open>canonical_base64\<close>).\<close>

definition verifySignature :: "verify_fn \<Rightarrow> js \<Rightarrow> string \<Rightarrow> string \<Rightarrow> bool" where
  "verifySignature vrf core signatureBase64 pem \<longleftrightarrow>
     signatureBase64 \<noteq> [] \<and> canonical_base64 signatureBase64
     \<and> (case canonicalJson core of Inl e \<Rightarrow> False | Inr t \<Rightarrow> vrf pem t signatureBase64)"

definition keyFor :: "trust_policy \<Rightarrow> signer_ref \<Rightarrow> int \<Rightarrow> trust_key res" where
  "keyFor trust s atMs =
     (case List.find (\<lambda>k. tk_keyId k = sr_keyId s \<and> tk_generation k = sr_generation s) (trust_keys trust) of
        None \<Rightarrow> Inl ''AUDIT_SIGNER_UNKNOWN_DENIED''
      | Some key \<Rightarrow>
          if sr_generation s < minimumGeneration trust \<or> \<not> tk_active key
          then Inl ''AUDIT_SIGNER_GENERATION_STALE_DENIED''
          else if tk_algorithm key \<noteq> ''Ed25519'' \<or> atMs < tk_validFromMs key \<or> atMs \<ge> tk_validUntilMs key
          then Inl ''AUDIT_SIGNER_WINDOW_DENIED''
          else Inr key)"

subsection \<open>Shapes\<close>

definition readSigner :: "js \<Rightarrow> signer_ref" where
  "readSigner v = \<lparr>sr_keyId = str_of (getf (fields_of v) ''keyId''),
     sr_generation = int_of_js (getf (fields_of v) ''generation'')\<rparr>"

definition validateEnvelopeShape :: "js \<Rightarrow> bool" where
  "validateEnvelopeShape v \<longleftrightarrow>
     (let r = fields_of v in
      exactKeys v AUDIT_ENVELOPE_KEYS \<and> getf r ''schemaVersion'' = JStr PROTECTED_AUDIT_ENVELOPE_SCHEMA_V1
      \<and> validDigest (getf r ''eventDigest'')
      \<and> (getf r ''previousEnvelopeDigest'' = JNull \<or> validDigest (getf r ''previousEnvelopeDigest''))
      \<and> validTime (getf r ''signedAtMs'') \<and> validSignerReference (getf r ''signer'')
      \<and> str_test (rx_test BASE64) (getf r ''signatureBase64''))"

definition readEnvelope :: "js \<Rightarrow> audit_event \<Rightarrow> audit_envelope" where
  "readEnvelope v event =
     (let r = fields_of v in
      \<lparr>ae_event = event, ae_eventDigest = str_of (getf r ''eventDigest''),
       ae_previous = refOf (getf r ''previousEnvelopeDigest''), signedAtMs = int_of_js (getf r ''signedAtMs''),
       ae_signer = readSigner (getf r ''signer''), ae_signature = str_of (getf r ''signatureBase64'')\<rparr>)"

definition validateCheckpointShape :: "js \<Rightarrow> bool" where
  "validateCheckpointShape v \<longleftrightarrow>
     (let r = fields_of v in
      exactKeys v AUDIT_CHECKPOINT_KEYS \<and> getf r ''schemaVersion'' = JStr PROTECTED_AUDIT_CHECKPOINT_SCHEMA_V1
      \<and> validId (getf r ''timelineId'') \<and> validId (getf r ''tenant'')
      \<and> is_safe_integer (getf r ''eventCount'') \<and> int_of_js (getf r ''eventCount'') \<ge> 1
      \<and> validDigest (getf r ''headEnvelopeDigest'') \<and> validTime (getf r ''issuedAtMs'')
      \<and> validSignerReference (getf r ''signer'')
      \<and> str_test (rx_test BASE64) (getf r ''signatureBase64''))"

definition readCheckpoint :: "js \<Rightarrow> checkpoint" where
  "readCheckpoint v =
     (let r = fields_of v in
      \<lparr>cp_timelineId = str_of (getf r ''timelineId''), cp_tenant = str_of (getf r ''tenant''),
       eventCount = int_of_js (getf r ''eventCount''),
       headEnvelopeDigest = str_of (getf r ''headEnvelopeDigest''),
       issuedAtMs = int_of_js (getf r ''issuedAtMs''), cp_signer = readSigner (getf r ''signer''),
       cp_signature = str_of (getf r ''signatureBase64'')\<rparr>)"

subsection \<open>Causal links\<close>

definition causalIssues :: "audit_event \<Rightarrow> (event_kind \<Rightarrow> string option) \<Rightarrow> string list" where
  "causalIssues e priorByKind = uniq
     (concat (map (\<lambda>k. if au_references e k = None then [''AUDIT_CAUSAL_LINK_MISSING_DENIED''] else [])
        (REQUIRED_REFERENCES (au_kind e)))
      @ concat (map (\<lambda>k. case au_references e k of
            None \<Rightarrow> []
          | Some d \<Rightarrow> if priorByKind (KIND_BY_REFERENCE k) \<noteq> Some d
                      then [''AUDIT_CAUSAL_REFERENCE_MISMATCH_DENIED''] else [])
        REFERENCE_KEYS))"

subsection \<open>The verifier\<close>

record verify_state =
  v_issues :: "string list"
  v_facts :: "verified_fact list"
  v_priorByKind :: "event_kind \<Rightarrow> string option"
  v_eventIds :: "string list"
  v_priorEnvelopeDigest :: "string option"
  v_priorSignedAt :: int
  v_priorOccurredAt :: int
  v_priorObservedAt :: int
  v_operationId :: "string option"
  v_correlationId :: "string option"

definition initial_state :: "string list \<Rightarrow> verify_state" where
  "initial_state issues =
     \<lparr>v_issues = issues, v_facts = [], v_priorByKind = (\<lambda>_. None), v_eventIds = [],
      v_priorEnvelopeDigest = None, v_priorSignedAt = -1, v_priorOccurredAt = -1, v_priorObservedAt = -1,
      v_operationId = None, v_correlationId = None\<rparr>"

definition factOf :: "audit_event \<Rightarrow> string \<Rightarrow> verified_fact" where
  "factOf e d =
     \<lparr>vf_sequence = au_sequence e, vf_eventId = au_eventId e, vf_kind = au_kind e, vf_eventDigest = d,
      vf_outcome = af_outcome (au_facts e), vf_reasonCodes = af_reasonCodes (au_facts e),
      vf_references = au_references e\<rparr>"

text \<open>
  The issues one event and its envelope raise against the state of the loop, in order. \<open>keyFor\<close> pushes
  its issue even where the list has it already; every other issue is pushed once.
\<close>

definition linkIssues :: "checkpoint \<Rightarrow> nat \<Rightarrow> verify_state \<Rightarrow> audit_envelope \<Rightarrow> string \<Rightarrow> string list" where
  "linkIssues cp index st env d =
     (let e = ae_event env in
      (if ae_eventDigest env \<noteq> d then [''AUDIT_EVENT_DIGEST_MISMATCH_DENIED''] else [])
      @ (if au_timelineId e \<noteq> cp_timelineId cp \<or> au_tenant e \<noteq> cp_tenant cp
         then [''AUDIT_EVENT_SCOPE_DENIED''] else [])
      @ (if au_sequence e \<noteq> int index + 1 then [''AUDIT_SEQUENCE_DENIED''] else [])
      @ (if index = 0 \<and> au_kind e \<noteq> IDENTITY then [''AUDIT_IDENTITY_ROOT_MISSING_DENIED''] else [])
      @ (if ae_previous env \<noteq> v_priorEnvelopeDigest st then [''AUDIT_ENVELOPE_CHAIN_DENIED''] else [])
      @ (if signedAtMs env \<le> v_priorSignedAt st \<or> occurredAtMs e < v_priorOccurredAt st
            \<or> observedAtMs e < v_priorObservedAt st \<or> observedAtMs e > signedAtMs env
         then [''AUDIT_CLOCK_ROLLBACK_DENIED''] else [])
      @ (if au_eventId e \<in> set (v_eventIds st) then [''AUDIT_EVENT_REPLAY_DUPLICATE_DENIED''] else [])
      @ (if v_priorByKind st (au_kind e) \<noteq> None then [''AUDIT_EVENT_KIND_DUPLICATE_DENIED''] else [])
      @ (if v_operationId st \<noteq> None \<and> v_operationId st \<noteq> Some (au_operationId e)
         then [''AUDIT_OPERATION_BINDING_DENIED''] else [])
      @ (if v_correlationId st \<noteq> None \<and> v_correlationId st \<noteq> Some (au_correlationId e)
         then [''AUDIT_CORRELATION_BINDING_DENIED''] else [])
      @ causalIssues e (v_priorByKind st))"

definition pushSigned ::
    "verify_fn \<Rightarrow> trust_policy \<Rightarrow> signer_ref \<Rightarrow> int \<Rightarrow> js \<Rightarrow> string \<Rightarrow> string \<Rightarrow> string list \<Rightarrow> string list" where
  "pushSigned vrf trust signer atMs core sig issue issues =
     (case keyFor trust signer atMs of
        Inl e \<Rightarrow> issues @ [e]
      | Inr key \<Rightarrow> if \<not> verifySignature vrf core sig (tk_publicKeyPem key) then set_add issue issues else issues)"

definition nextState :: "hash \<Rightarrow> js \<Rightarrow> audit_envelope \<Rightarrow> string \<Rightarrow> verify_state \<Rightarrow> verify_state" where
  "nextState H candidate env d st =
     (let e = ae_event env in
      st\<lparr>v_facts := v_facts st @ [factOf e d],
         v_eventIds := set_add (au_eventId e) (v_eventIds st),
         v_priorByKind := (v_priorByKind st)(au_kind e \<mapsto> d),
         v_priorEnvelopeDigest := Some (digest_of H candidate),
         v_priorSignedAt := signedAtMs env,
         v_priorOccurredAt := occurredAtMs e,
         v_priorObservedAt := observedAtMs e,
         v_operationId := (case v_operationId st of None \<Rightarrow> Some (au_operationId e) | Some x \<Rightarrow> Some x),
         v_correlationId := (case v_correlationId st of None \<Rightarrow> Some (au_correlationId e) | Some x \<Rightarrow> Some x)\<rparr>)"

definition verifyEnvelope ::
    "hash \<Rightarrow> verify_fn \<Rightarrow> trust_policy \<Rightarrow> checkpoint \<Rightarrow> nat \<Rightarrow> js \<Rightarrow> verify_state \<Rightarrow> verify_state" where
  "verifyEnvelope H vrf trust cp index candidate st =
     (if \<not> validateEnvelopeShape candidate
      then st\<lparr>v_issues := set_add ''AUDIT_ENVELOPE_SCHEMA_DENIED'' (v_issues st)\<rparr>
      else case validateProtectedAuditEventV1 H (getf (fields_of candidate) ''event'') of
        Inl issue \<Rightarrow> st\<lparr>v_issues := set_add issue (v_issues st)\<rparr>
      | Inr (event, d) \<Rightarrow>
          (let env = readEnvelope candidate event;
               linked = fold set_add (linkIssues cp index st env d) (v_issues st);
               issues = pushSigned vrf trust (ae_signer env) (signedAtMs env)
                 (obj (without ''signatureBase64'' (fields_of candidate))) (ae_signature env)
                 ''AUDIT_ENVELOPE_SIGNATURE_DENIED'' linked
           in nextState H candidate env d (st\<lparr>v_issues := issues\<rparr>)))"

fun verifyEnvelopes ::
    "hash \<Rightarrow> verify_fn \<Rightarrow> trust_policy \<Rightarrow> checkpoint \<Rightarrow> nat \<Rightarrow> js list \<Rightarrow> verify_state \<Rightarrow> verify_state" where
  "verifyEnvelopes H vrf trust cp index [] st = st"
| "verifyEnvelopes H vrf trust cp index (c # cs) st =
     verifyEnvelopes H vrf trust cp (Suc index) cs (verifyEnvelope H vrf trust cp index c st)"

definition checkpointIssues :: "verify_fn \<Rightarrow> trust_policy \<Rightarrow> js \<Rightarrow> nat \<Rightarrow> string list" where
  "checkpointIssues vrf trust v supplied =
     (let cp = readCheckpoint v;
          scope = (if cp_timelineId cp \<noteq> tp_timelineId trust \<or> cp_tenant cp \<noteq> tp_tenant trust
                   then [''AUDIT_CHECKPOINT_SCOPE_DENIED''] else []);
          signed = pushSigned vrf trust (cp_signer cp) (issuedAtMs cp)
            (obj (without ''signatureBase64'' (fields_of v))) (cp_signature cp)
            ''AUDIT_CHECKPOINT_SIGNATURE_DENIED'' scope
      in if int supplied \<noteq> eventCount cp then set_add ''AUDIT_CHECKPOINT_COUNT_MISMATCH_DENIED'' signed else signed)"

definition verifyProtectedAuditTimelineV1 ::
    "hash \<Rightarrow> verify_fn \<Rightarrow> js list \<Rightarrow> js \<Rightarrow> trust_policy \<Rightarrow> verification" where
  "verifyProtectedAuditTimelineV1 H vrf envelopeValues checkpointValue trust =
     (if \<not> validateCheckpointShape checkpointValue then UNVERIFIABLE [''AUDIT_CHECKPOINT_SCHEMA_DENIED'']
      else
        (let cp = readCheckpoint checkpointValue;
             st = verifyEnvelopes H vrf trust cp 0 envelopeValues
               (initial_state (checkpointIssues vrf trust checkpointValue (length envelopeValues)));
             head = (if v_priorEnvelopeDigest st \<noteq> Some (headEnvelopeDigest cp)
               then set_add ''AUDIT_CHECKPOINT_HEAD_MISMATCH_DENIED'' (v_issues st) else v_issues st);
             issues = (if issuedAtMs cp < v_priorSignedAt st
               then set_add ''AUDIT_CHECKPOINT_CLOCK_DENIED'' head else head)
         in if issues \<noteq> [] then UNVERIFIABLE issues
            else VERIFIED (cp_timelineId cp) (cp_tenant cp) (digest_of H checkpointValue) (v_facts st)))"

subsection \<open>The explanation\<close>

datatype explanation_status = VERIFIED_SUCCESS | VERIFIED_NON_SUCCESS | STATUS_UNVERIFIABLE

record explanation =
  ex_status :: explanation_status
  ex_summary :: string
  ex_issues :: "string list"
  ex_stages :: "verified_fact list"

definition terminal_success :: "verified_fact \<Rightarrow> bool" where
  "terminal_success f \<longleftrightarrow> vf_kind f = READBACK \<and> vf_outcome f = COMMITTED
     \<or> vf_kind f = RECONCILE \<and> vf_outcome f = RECONCILED
     \<or> vf_kind f = ROLLBACK \<and> vf_outcome f = ROLLED_BACK"

definition explainProtectedAuditTimelineV1 ::
    "hash \<Rightarrow> verify_fn \<Rightarrow> js list \<Rightarrow> js \<Rightarrow> trust_policy \<Rightarrow> explanation" where
  "explainProtectedAuditTimelineV1 H vrf envelopeValues checkpointValue trust =
     (case verifyProtectedAuditTimelineV1 H vrf envelopeValues checkpointValue trust of
        UNVERIFIABLE issues \<Rightarrow>
          \<lparr>ex_status = STATUS_UNVERIFIABLE,
           ex_summary = ''UNVERIFIABLE protected timeline: '' @ join '','' issues,
           ex_issues = issues, ex_stages = []\<rparr>
      | VERIFIED timelineId tenant cpDigest facts \<Rightarrow>
          (let terminal = at_last facts;
               success = (case terminal of None \<Rightarrow> False | Some f \<Rightarrow> terminal_success f);
               word = (if success then ''VERIFIED_SUCCESS'' else ''VERIFIED_NON_SUCCESS'')
           in \<lparr>ex_status = (if success then VERIFIED_SUCCESS else VERIFIED_NON_SUCCESS),
               ex_summary = (case terminal of
                   None \<Rightarrow> ''VERIFIED_NON_SUCCESS: no protected facts''
                 | Some f \<Rightarrow> word @ '' '' @ event_kind_text (vf_kind f) @ '' ''
                     @ audit_outcome_text (vf_outcome f) @ ''; '' @ nat_text (length facts)
                     @ '' protected facts; checkpoint '' @ cpDigest),
               ex_issues = [], ex_stages = facts\<rparr>))"

subsection \<open>The writer\<close>

record audit_writer =
  w_timelineId :: string
  w_tenant :: string
  w_signer :: audit_signer
  w_envelopes :: "audit_envelope list"
  w_eventsById :: "string \<Rightarrow> (string \<times> audit_envelope) option"

datatype replay = FIRST | SAME_ENVELOPE

definition newWriter :: "string \<Rightarrow> string \<Rightarrow> audit_signer \<Rightarrow> audit_writer res" where
  "newWriter timelineId tenant signer =
     (if \<not> validId (JStr timelineId) \<or> \<not> validId (JStr tenant) then Inl ''AUDIT_WRITER_SCOPE_DENIED''
      else Inr \<lparr>w_timelineId = timelineId, w_tenant = tenant, w_signer = signer, w_envelopes = [],
             w_eventsById = (\<lambda>_. None)\<rparr>)"

definition priorByKind :: "audit_envelope list \<Rightarrow> event_kind \<Rightarrow> string option" where
  "priorByKind envs = map_of (rev (map (\<lambda>e. (au_kind (ae_event e), ae_eventDigest e)) envs))"

text \<open>The guards of \<open>append\<close> on a new event: \<open>None\<close>, or the exception thrown.\<close>

definition appendGuard :: "audit_writer \<Rightarrow> audit_event \<Rightarrow> int \<Rightarrow> string option" where
  "appendGuard w e atMs =
     (if au_timelineId e \<noteq> w_timelineId w \<or> au_tenant e \<noteq> w_tenant w then Some ''AUDIT_WRITER_SCOPE_DENIED''
      else if au_sequence e \<noteq> int (length (w_envelopes w)) + 1 then Some ''AUDIT_SEQUENCE_DENIED''
      else if w_envelopes w = [] \<and> au_kind e \<noteq> IDENTITY then Some ''AUDIT_IDENTITY_ROOT_MISSING_DENIED''
      else if priorByKind (w_envelopes w) (au_kind e) \<noteq> None then Some ''AUDIT_EVENT_KIND_DUPLICATE_DENIED''
      else case causalIssues e (priorByKind (w_envelopes w)) of
        issue # _ \<Rightarrow> Some issue
      | [] \<Rightarrow>
          (case at_last (w_envelopes w) of
             None \<Rightarrow> None
           | Some p \<Rightarrow>
               if au_operationId e \<noteq> au_operationId (ae_event p) then Some ''AUDIT_OPERATION_BINDING_DENIED''
               else if au_correlationId e \<noteq> au_correlationId (ae_event p)
               then Some ''AUDIT_CORRELATION_BINDING_DENIED''
               else if occurredAtMs e < occurredAtMs (ae_event p) \<or> observedAtMs e < observedAtMs (ae_event p)
                  \<or> atMs \<le> signedAtMs p
               then Some ''AUDIT_CLOCK_ROLLBACK_DENIED'' else None))"

definition append_event ::
    "hash \<Rightarrow> sign_fn \<Rightarrow> audit_writer \<Rightarrow> js \<Rightarrow> int \<Rightarrow> (replay \<times> audit_envelope \<times> audit_writer) res" where
  "append_event H sig_of w eventValue atMs =
     res_bind (validateProtectedAuditEventV1 H eventValue) (\<lambda>(e, d).
       case w_eventsById w (au_eventId e) of
         Some (digest, envelope) \<Rightarrow>
           if digest \<noteq> d then Inl ''AUDIT_EVENT_REPLAY_CONFLICT_DENIED''
           else Inr (SAME_ENVELOPE, envelope, w)
       | None \<Rightarrow>
           (case appendGuard w e atMs of
              Some issue \<Rightarrow> Inl issue
            | None \<Rightarrow>
                res_bind (createProtectedAuditEnvelopeV1 H sig_of eventValue
                    (map_option (protectedAuditEnvelopeDigestV1 H) (at_last (w_envelopes w)))
                    (w_signer w) atMs) (\<lambda>envelope.
                  Inr (FIRST, envelope,
                    w\<lparr>w_envelopes := w_envelopes w @ [envelope],
                      w_eventsById := (w_eventsById w)(au_eventId e \<mapsto> (d, envelope))\<rparr>))))"

definition snapshot :: "audit_writer \<Rightarrow> js list" where
  "snapshot w = map audit_envelope_js (w_envelopes w)"

definition checkpoint_of :: "hash \<Rightarrow> sign_fn \<Rightarrow> audit_writer \<Rightarrow> int \<Rightarrow> checkpoint res" where
  "checkpoint_of H sig_of w atMs = createCheckpoint H sig_of (w_envelopes w) (w_signer w) atMs"

subsection \<open>The synthetic timeline\<close>

definition createSyntheticProtectedAuditSignerV1 ::
    "string option \<Rightarrow> int option \<Rightarrow> int option \<Rightarrow> int option \<Rightarrow> string \<Rightarrow> string \<Rightarrow> audit_signer" where
  "createSyntheticProtectedAuditSignerV1 keyId generation validFrom validUntil privatePem publicPem =
     \<lparr>as_keyId = (case keyId of None \<Rightarrow> ''audit_key:fixture-001'' | Some k \<Rightarrow> k),
      as_generation = (case generation of None \<Rightarrow> 1 | Some g \<Rightarrow> g), as_algorithm = ''Ed25519'',
      privateKeyPem = privatePem, publicKeyPem = publicPem,
      as_validFromMs = (case validFrom of None \<Rightarrow> 1780000000000 | Some t \<Rightarrow> t),
      as_validUntilMs = (case validUntil of None \<Rightarrow> 1790000000000 | Some t \<Rightarrow> t)\<rparr>"

definition padStart8 :: "nat \<Rightarrow> string" where
  "padStart8 n = replicate (8 - length (nat_text n)) (CHR ''0'') @ nat_text n"

definition synthetic_steps :: "(event_kind \<times> audit_outcome) list" where
  "synthetic_steps = zip [IDENTITY, INTENT, PLAN, POLICY, APPROVAL, BUDGET, EFFECT, READBACK]
     [OBSERVED, OBSERVED, COMMITTED, ALLOWED, ALLOWED, ALLOWED, COMMITTED, COMMITTED]"

definition synthetic_base :: int where "synthetic_base = 1785000000000"

definition syntheticEvent ::
    "hash \<Rightarrow> (event_kind \<Rightarrow> string option) \<Rightarrow> nat \<Rightarrow> event_kind \<Rightarrow> audit_outcome \<Rightarrow> audit_event" where
  "syntheticEvent H byKind index k outcome =
     (let sequence = int index + 1 in
      \<lparr>au_timelineId = ''timeline:aas023-fixture'', au_tenant = ''tenant:panskys-zoo'',
       au_sequence = sequence, au_eventId = ''event:'' @ padStart8 (Suc index), au_kind = k,
       au_actorId = (if k = APPROVAL then ''owner:fixture-owner'' else ''workload:admin-ai''),
       au_operationId = ''operation:audit-fixture'', au_correlationId = ''correlation:audit-fixture'',
       occurredAtMs = synthetic_base + sequence * 10, observedAtMs = synthetic_base + sequence * 10 + 1,
       au_references = (\<lambda>key. byKind (KIND_BY_REFERENCE key)),
       au_facts = \<lparr>af_outcome = outcome, af_reasonCodes = [''AAS023_'' @ event_kind_text k @ ''_VERIFIED''],
         af_evidenceDigests = [H (event_kind_text k @ '':synthetic-evidence'')]\<rparr>\<rparr>)"

fun syntheticAppend ::
    "hash \<Rightarrow> sign_fn \<Rightarrow> nat \<Rightarrow> (event_kind \<times> audit_outcome) list \<Rightarrow> (event_kind \<Rightarrow> string option)
     \<Rightarrow> audit_writer \<Rightarrow> audit_writer res" where
  "syntheticAppend H sig_of index [] byKind w = Inr w"
| "syntheticAppend H sig_of index ((k, outcome) # steps) byKind w =
     res_bind (append_event H sig_of w (event_js (syntheticEvent H byKind index k outcome))
         (synthetic_base + (int index + 1) * 10 + 2)) (\<lambda>(replay, envelope, w').
       syntheticAppend H sig_of (Suc index) steps (byKind(k \<mapsto> ae_eventDigest envelope)) w')"

definition signer_trust :: "audit_signer \<Rightarrow> string \<Rightarrow> string \<Rightarrow> int \<Rightarrow> trust_policy" where
  "signer_trust s tenant timelineId generation =
     \<lparr>tp_tenant = tenant, tp_timelineId = timelineId, minimumGeneration = generation,
      trust_keys = [\<lparr>tk_keyId = as_keyId s, tk_generation = as_generation s, tk_algorithm = ''Ed25519'',
        tk_publicKeyPem = publicKeyPem s, tk_validFromMs = as_validFromMs s,
        tk_validUntilMs = as_validUntilMs s, tk_active = True\<rparr>]\<rparr>"

definition syntheticProtectedAuditTimelineV1 ::
    "hash \<Rightarrow> sign_fn \<Rightarrow> audit_signer \<Rightarrow> int option
     \<Rightarrow> (trust_policy \<times> audit_writer \<times> js list \<times> checkpoint) res" where
  "syntheticProtectedAuditTimelineV1 H sig_of signer generation =
     res_bind (newWriter ''timeline:aas023-fixture'' ''tenant:panskys-zoo'' signer) (\<lambda>w0.
     res_bind (syntheticAppend H sig_of 0 synthetic_steps (\<lambda>_. None) w0) (\<lambda>w.
     res_bind (checkpoint_of H sig_of w (synthetic_base + 100)) (\<lambda>cp.
       Inr (signer_trust signer ''tenant:panskys-zoo'' ''timeline:aas023-fixture''
              (case generation of None \<Rightarrow> as_generation signer | Some g \<Rightarrow> g),
            w, snapshot w, cp))))"

end
