(* ===== verification/AuditReading.thy ===== *)
theory AuditReading
  imports AuditTimeline
begin

text \<open>
  What the validators of the audit timeline accept: a validated value is, up to the creation order of its
  properties, the encoding of the record read from it, and the record satisfies \<open>event_wf\<close>.
\<close>

subsection \<open>Well-formed data\<close>

definition audit_id :: "string \<Rightarrow> bool" where
  "audit_id s = rx_test AUDIT_ID s"

definition time_ok :: "int \<Rightarrow> bool" where
  "time_ok t \<longleftrightarrow> 0 \<le> t \<and> t \<le> max_safe"

definition count_ok :: "int \<Rightarrow> bool" where
  "count_ok n \<longleftrightarrow> 1 \<le> n \<and> n \<le> max_safe"

definition facts_wf :: "audit_facts \<Rightarrow> bool" where
  "facts_wf f \<longleftrightarrow> length (af_reasonCodes f) \<le> 32 \<and> list_all (rx_test REASON_CODE) (af_reasonCodes f)
     \<and> successively (<) (af_reasonCodes f) \<and> length (af_evidenceDigests f) \<le> 32
     \<and> list_all hex64 (af_evidenceDigests f) \<and> successively (<) (af_evidenceDigests f)"

definition event_wf :: "audit_event \<Rightarrow> bool" where
  "event_wf e \<longleftrightarrow> audit_id (au_timelineId e) \<and> audit_id (au_tenant e) \<and> audit_id (au_eventId e)
     \<and> audit_id (au_actorId e) \<and> audit_id (au_operationId e) \<and> audit_id (au_correlationId e)
     \<and> count_ok (au_sequence e) \<and> time_ok (occurredAtMs e) \<and> time_ok (observedAtMs e)
     \<and> occurredAtMs e \<le> observedAtMs e \<and> (\<forall>k d. au_references e k = Some d \<longrightarrow> hex64 d)
     \<and> facts_wf (au_facts e)"

definition signer_ref_wf :: "signer_ref \<Rightarrow> bool" where
  "signer_ref_wf s \<longleftrightarrow> audit_id (sr_keyId s) \<and> count_ok (sr_generation s)"

definition audit_envelope_wf :: "audit_envelope \<Rightarrow> bool" where
  "audit_envelope_wf e \<longleftrightarrow> event_wf (ae_event e) \<and> hex64 (ae_eventDigest e)
     \<and> (\<forall>d. ae_previous e = Some d \<longrightarrow> hex64 d) \<and> time_ok (signedAtMs e) \<and> signer_ref_wf (ae_signer e)
     \<and> rx_test BASE64 (ae_signature e)"

definition checkpoint_wf :: "checkpoint \<Rightarrow> bool" where
  "checkpoint_wf c \<longleftrightarrow> audit_id (cp_timelineId c) \<and> audit_id (cp_tenant c) \<and> count_ok (eventCount c)
     \<and> hex64 (headEnvelopeDigest c) \<and> time_ok (issuedAtMs c) \<and> signer_ref_wf (cp_signer c)
     \<and> rx_test BASE64 (cp_signature c)"

subsection \<open>Scalars\<close>

lemma validId_JStr: "validId v \<Longrightarrow> v = JStr (str_of v) \<and> audit_id (str_of v)"
  unfolding validId_def audit_id_def by (rule str_test_JStr)

lemma validId_iff [simp]: "validId (JStr s) \<longleftrightarrow> audit_id s"
  by (simp add: validId_def audit_id_def)

lemma validDigest_JStr: "validDigest v \<Longrightarrow> v = JStr (str_of v) \<and> hex64 (str_of v)"
  unfolding validDigest_def by (rule str_test_JStr)

lemma validDigest_iff [simp]: "validDigest (JStr s) \<longleftrightarrow> hex64 s"
  by (simp add: validDigest_def)

lemma validTime_jint: "validTime v \<Longrightarrow> v = jint (int_of_js v) \<and> time_ok (int_of_js v)"
  unfolding validTime_def time_ok_def using safe_integer_jint [of v] by auto

lemma validTime_iff [simp]: "validTime (jint i) \<longleftrightarrow> time_ok i"
  by (auto simp: validTime_def time_ok_def max_safe_def)

lemma validCount_jint:
  "is_safe_integer v \<Longrightarrow> 1 \<le> int_of_js v \<Longrightarrow> v = jint (int_of_js v) \<and> count_ok (int_of_js v)"
  unfolding count_ok_def using safe_integer_jint [of v] by auto

lemma validCount_iff: "count_ok i \<longleftrightarrow> is_safe_integer (jint i) \<and> 1 \<le> i"
  by (auto simp: count_ok_def max_safe_def)

lemma validDigest_refOf: "v = JNull \<or> validDigest v \<Longrightarrow> v = str_or_null (refOf v)
   \<and> (\<forall>d. refOf v = Some d \<longrightarrow> hex64 d)"
  using validDigest_JStr [of v] by (auto simp: refOf_def str_or_null_def validDigest_def)

lemma refOf_str_or_null [simp]: "refOf (str_or_null x) = x"
  by (cases x) (simp_all add: refOf_def str_or_null_def)

lemma ref_text_inj [simp]: "ref_text k = ref_text k' \<longleftrightarrow> k = k'"
  by (cases k; cases k') simp_all

lemma ref_key_all: "k \<in> set REFERENCE_KEYS"
  by (cases k) (simp_all add: REFERENCE_KEYS_def)

lemma member_kind [simp]: "memberOf event_kind_text EVENT_KINDS (JStr (event_kind_text k)) = Some k"
  by (cases k) (simp_all add: memberOf_def EVENT_KINDS_def)

lemma member_outcome [simp]: "memberOf audit_outcome_text OUTCOMES (JStr (audit_outcome_text k)) = Some k"
  by (cases k) (simp_all add: memberOf_def OUTCOMES_def)

subsection \<open>Encodings are plain, well-formed and read back\<close>

lemma distinct_refs: "distinct (map ref_text REFERENCE_KEYS)"
  by (simp add: REFERENCE_KEYS_def)

lemma references_plain [simp]: "plain (references_js f)" "js_wf (references_js f)"
  using distinct_refs by (simp_all add: references_js_def list_all_iff comp_def)

lemma facts_plain [simp]: "plain (facts_js f)" "js_wf (facts_js f)"
  by (simp_all add: facts_js_def)

lemma event_plain [simp]: "plain (event_js e)" "js_wf (event_js e)"
  by (simp_all add: event_js_def)

lemma signer_plain [simp]: "plain (signer_js s)" "js_wf (signer_js s)"
  by (simp_all add: signer_js_def)

lemma envelope_plain [simp]: "plain (audit_envelope_js e)" "js_wf (audit_envelope_js e)"
  "plain (obj (envelope_core e))" "js_wf (obj (envelope_core e))"
  by (simp_all add: audit_envelope_js_def envelope_core_def)

lemma checkpoint_plain [simp]: "plain (checkpoint_js c)" "js_wf (checkpoint_js c)"
  "plain (obj (checkpoint_core c))" "js_wf (obj (checkpoint_core c))"
  by (simp_all add: checkpoint_js_def checkpoint_core_def)

lemma getf_references: "getf (fields_of (references_js f)) (ref_text k) = str_or_null (f k)"
proof -
  have "getf (map (\<lambda>k. (ref_text k, str_or_null (f k))) ks) (ref_text k) = str_or_null (f k)"
    if "k \<in> set ks" for ks
    using that by (induction ks) auto
  then show ?thesis using ref_key_all by (simp add: references_js_def)
qed

lemma readReferences_references_js [simp]: "readReferences (references_js f) = f"
  by (simp add: readReferences_def getf_references)

lemma readEvent_event_js [simp]: "readEvent (event_js e) = e"
  by (simp add: readEvent_def event_js_def facts_js_def comp_def)

subsection \<open>Validated values are encodings\<close>

lemma validReferences_norm:
  assumes "validReferences v"
  shows "js_norm v = js_norm (references_js (readReferences v))"
    and "readReferences v k = Some d \<Longrightarrow> hex64 d"
proof -
  have k: "getf (fields_of v) (ref_text k) = JNull \<or> validDigest (getf (fields_of v) (ref_text k))" for k
    using assms ref_key_all [of k] by (auto simp: validReferences_def list_all_iff)
  show "js_norm v = js_norm (references_js (readReferences v))"
    unfolding references_js_def
  proof (rule exactKeys_norm)
    show "exactKeys v (sort (map ref_text REFERENCE_KEYS))" using assms by (simp add: validReferences_def)
    fix x assume "x \<in> set (map fst (map (\<lambda>k. (ref_text k, str_or_null (readReferences v k))) REFERENCE_KEYS))"
    then obtain r where x: "x = ref_text r" by auto
    have "getf (fields_of v) x = str_or_null (readReferences v r)"
      using validDigest_refOf [OF k [of r]] by (simp add: readReferences_def x)
    also have "\<dots> = getf (map (\<lambda>k. (ref_text k, str_or_null (readReferences v k))) REFERENCE_KEYS) x"
      using getf_references [of "readReferences v" r] by (simp add: references_js_def x)
    finally show "js_norm (getf (fields_of v) x)
        = js_norm (getf (map (\<lambda>k. (ref_text k, str_or_null (readReferences v k))) REFERENCE_KEYS) x)"
      by (rule arg_cong)
  qed (use distinct_refs in \<open>simp_all add: comp_def\<close>)
  show "readReferences v k = Some d \<Longrightarrow> hex64 d"
    using validDigest_refOf [OF k [of k]] by (simp add: readReferences_def)
qed

definition readFacts :: "js \<Rightarrow> audit_facts" where
  "readFacts v = (let f = fields_of v in
     \<lparr>af_outcome = the (memberOf audit_outcome_text OUTCOMES (getf f ''outcome'')),
      af_reasonCodes = map str_of (elems_of (getf f ''reasonCodes'')),
      af_evidenceDigests = map str_of (elems_of (getf f ''evidenceDigests''))\<rparr>)"

lemma strs_norm:
  assumes "is_array v" "list_all (str_test P) (elems_of v)"
  shows "js_norm v = js_norm (strs_js (map str_of (elems_of v)))" "list_all P (map str_of (elems_of v))"
proof -
  obtain i vs where v: "v = JArr i vs" using assms(1) by (auto simp: is_array_iff)
  have e: "map JStr (map str_of vs) = vs" using assms(2) v by (intro str_tests_JStr(1)) simp
  have "js_norm v = JArr 0 (map js_norm (map JStr (map str_of vs)))" unfolding v e by simp
  then show "js_norm v = js_norm (strs_js (map str_of (elems_of v)))" by (simp add: v strs_js_def)
  show "list_all P (map str_of (elems_of v))" by (rule str_tests_JStr(2) [OF assms(2)])
qed

lemma validFacts_norm:
  assumes "validFacts v"
  shows "js_norm v = js_norm (facts_js (readFacts v))" "facts_wf (readFacts v)"
proof -
  let ?r = "fields_of v"
  have a: "exactKeys v AUDIT_FACT_KEYS" "memberOf audit_outcome_text OUTCOMES (getf ?r ''outcome'') \<noteq> None"
    "is_array (getf ?r ''reasonCodes'')" "length (elems_of (getf ?r ''reasonCodes'')) \<le> 32"
    "list_all (str_test (rx_test REASON_CODE)) (elems_of (getf ?r ''reasonCodes''))"
    "successively (<) (map str_of (elems_of (getf ?r ''reasonCodes'')))"
    "is_array (getf ?r ''evidenceDigests'')" "length (elems_of (getf ?r ''evidenceDigests'')) \<le> 32"
    "list_all (str_test hex64) (elems_of (getf ?r ''evidenceDigests''))"
    "successively (<) (map str_of (elems_of (getf ?r ''evidenceDigests'')))"
    using assms unfolding validFacts_def Let_def validDigest_def [abs_def] not_less by blast+
  obtain x where "memberOf audit_outcome_text OUTCOMES (getf ?r ''outcome'') = Some x" using a(2) by blast
  note x = this memberOf_JStr [OF this]
  show "js_norm v = js_norm (facts_js (readFacts v))"
    unfolding facts_js_def
  proof (rule exactKeys_norm [OF a(1)], goal_cases)
    case (3 k)
    then consider "k = ''outcome''" | "k = ''reasonCodes''" | "k = ''evidenceDigests''" by auto
    then show ?case
      using x strs_norm(1) [OF a(3,5)] strs_norm(1) [OF a(7,9)]
      by cases (simp_all add: readFacts_def Let_def)
  qed (simp_all add: AUDIT_FACT_KEYS_def)
  show "facts_wf (readFacts v)"
    using a strs_norm(2) [OF a(3,5)] strs_norm(2) [OF a(7,9)]
    by (simp add: facts_wf_def readFacts_def Let_def)
qed

lemma readEvent_simps [simp]:
  "au_references (readEvent v) = readReferences (getf (fields_of v) ''references'')"
  "au_facts (readEvent v) = readFacts (getf (fields_of v) ''facts'')"
  by (simp_all add: readEvent_def readFacts_def Let_def)

lemma readEvent_scalars:
  "au_timelineId (readEvent v) = str_of (getf (fields_of v) ''timelineId'')"
  "au_tenant (readEvent v) = str_of (getf (fields_of v) ''tenant'')"
  "au_sequence (readEvent v) = int_of_js (getf (fields_of v) ''sequence'')"
  "au_eventId (readEvent v) = str_of (getf (fields_of v) ''eventId'')"
  "au_kind (readEvent v) = the (memberOf event_kind_text EVENT_KINDS (getf (fields_of v) ''eventKind''))"
  "au_actorId (readEvent v) = str_of (getf (fields_of v) ''actorId'')"
  "au_operationId (readEvent v) = str_of (getf (fields_of v) ''operationId'')"
  "au_correlationId (readEvent v) = str_of (getf (fields_of v) ''correlationId'')"
  "occurredAtMs (readEvent v) = int_of_js (getf (fields_of v) ''occurredAtMs'')"
  "observedAtMs (readEvent v) = int_of_js (getf (fields_of v) ''observedAtMs'')"
  by (simp_all add: readEvent_def Let_def)

lemma validate_conds:
  assumes "validateProtectedAuditEventV1 H v = Inr (e, d)"
  shows "exactKeys v AUDIT_EVENT_KEYS"
    and "getf (fields_of v) ''schemaVersion'' = JStr PROTECTED_AUDIT_EVENT_SCHEMA_V1"
    and "\<forall>k \<in> {''timelineId'', ''tenant'', ''eventId'', ''actorId'', ''operationId'', ''correlationId''}.
           validId (getf (fields_of v) k)"
    and "is_safe_integer (getf (fields_of v) ''sequence'')" "1 \<le> int_of_js (getf (fields_of v) ''sequence'')"
    and "\<exists>x. memberOf event_kind_text EVENT_KINDS (getf (fields_of v) ''eventKind'') = Some x"
    and "validTime (getf (fields_of v) ''occurredAtMs'')" "validTime (getf (fields_of v) ''observedAtMs'')"
    and "int_of_js (getf (fields_of v) ''occurredAtMs'') \<le> int_of_js (getf (fields_of v) ''observedAtMs'')"
    and "validReferences (getf (fields_of v) ''references'')" "validFacts (getf (fields_of v) ''facts'')"
    and "e = readEvent v" "d = digest_of H v"
proof -
  note a = assms [unfolded validateProtectedAuditEventV1_def Let_def res_if_Inr_iff de_Morgan_disj not_not
      sum.inject prod.inject not_less]
  show "exactKeys v AUDIT_EVENT_KEYS" "validReferences (getf (fields_of v) ''references'')"
    "validFacts (getf (fields_of v) ''facts'')" "e = readEvent v" "d = digest_of H v"
    "getf (fields_of v) ''schemaVersion'' = JStr PROTECTED_AUDIT_EVENT_SCHEMA_V1"
    "is_safe_integer (getf (fields_of v) ''sequence'')" "1 \<le> int_of_js (getf (fields_of v) ''sequence'')"
    "\<exists>x. memberOf event_kind_text EVENT_KINDS (getf (fields_of v) ''eventKind'') = Some x"
    "validTime (getf (fields_of v) ''occurredAtMs'')" "validTime (getf (fields_of v) ''observedAtMs'')"
    "int_of_js (getf (fields_of v) ''occurredAtMs'') \<le> int_of_js (getf (fields_of v) ''observedAtMs'')"
    using a by (blast, blast, blast, blast, blast, blast, blast, blast, blast, blast, blast, blast)
  show "\<forall>k \<in> {''timelineId'', ''tenant'', ''eventId'', ''actorId'', ''operationId'', ''correlationId''}.
           validId (getf (fields_of v) k)"
    using a unfolding ball_simps by blast
qed

lemma validated_event:
  assumes "validateProtectedAuditEventV1 H v = Inr (e, d)"
  shows "js_norm v = js_norm (event_js e)" "event_wf e" "d = protectedAuditEventDigestV1 H e" "plain v"
proof -
  note c = validate_conds [OF assms]
  have ids: "getf (fields_of v) k = JStr (str_of (getf (fields_of v) k))
      \<and> audit_id (str_of (getf (fields_of v) k))"
    if "k \<in> {''timelineId'', ''tenant'', ''eventId'', ''actorId'', ''operationId'', ''correlationId''}" for k
    by (rule validId_JStr) (rule bspec [OF c(3) that])
  obtain x where x: "memberOf event_kind_text EVENT_KINDS (getf (fields_of v) ''eventKind'') = Some x"
    using c(6) by blast
  note seq = validCount_jint [OF c(4,5)] and occ = validTime_jint [OF c(7)] and obs = validTime_jint [OF c(8)]
  note refs = validReferences_norm [OF c(10)] and facts = validFacts_norm [OF c(11)]
  have str: "js_norm (getf (fields_of v) k) = JStr (str_of (getf (fields_of v) k))"
    if "k \<in> {''timelineId'', ''tenant'', ''eventId'', ''actorId'', ''operationId'', ''correlationId''}" for k
    by (subst ids [OF that, THEN conjunct1]) (rule js_norm.simps)
  have num: "js_norm (getf (fields_of v) ''sequence'') = jint (int_of_js (getf (fields_of v) ''sequence''))"
    "js_norm (getf (fields_of v) ''occurredAtMs'') = jint (int_of_js (getf (fields_of v) ''occurredAtMs''))"
    "js_norm (getf (fields_of v) ''observedAtMs'') = jint (int_of_js (getf (fields_of v) ''observedAtMs''))"
    by (subst seq [THEN conjunct1], rule js_norm.simps) (subst occ [THEN conjunct1], rule js_norm.simps,
      subst obs [THEN conjunct1], rule js_norm.simps)
  have kind: "js_norm (getf (fields_of v) ''eventKind'') = JStr (event_kind_text (au_kind e))"
    using x memberOf_JStr [OF x] by (simp add: c(12) readEvent_scalars)
  have vals: "list_all (\<lambda>(k, w). js_norm (getf (fields_of v) k) = js_norm w) (fields_of (event_js e))"
    unfolding event_js_def fields_of.simps list.pred_inject prod.case
    using str num kind refs(1) facts(1) c(2)
    by (intro conjI) (simp_all add: c(12) readEvent_scalars)
  show norm: "js_norm v = js_norm (event_js e)"
    by (rule exactKeys_norm_all [OF c(1) _ vals]) (simp_all add: event_js_def AUDIT_EVENT_KEYS_def)
  show "event_wf e"
    unfolding event_wf_def c(12) readEvent_scalars readEvent_simps
    by (intro conjI ids [THEN conjunct2] seq [THEN conjunct2] occ [THEN conjunct2] obs [THEN conjunct2] c(9)
        allI impI refs(2) facts(2)) simp_all
  show "d = protectedAuditEventDigestV1 H e"
    unfolding c(13) protectedAuditEventDigestV1_def digest_of_def canonText_normI [OF norm] ..
  show "plain v" using plain_js_norm [OF norm] by simp
qed

subsection \<open>Encodings are validated\<close>

lemma validReferences_references_js:
  assumes "\<forall>k d. f k = Some d \<longrightarrow> hex64 d"
  shows "validReferences (references_js f)"
proof -
  have "exactKeys (references_js f) (sort (map ref_text REFERENCE_KEYS))"
    unfolding references_js_def by (rule exactKeys_mset) (simp add: comp_def)
  moreover have "str_or_null (f k) = JNull \<or> validDigest (str_or_null (f k))" for k
    using assms by (cases "f k") (auto simp: str_or_null_def)
  ultimately show ?thesis by (simp add: validReferences_def getf_references list_all_iff)
qed

lemma map_str_of_JStr [simp]: "map (str_of \<circ> JStr) xs = xs"
  by (simp add: comp_def)

lemma validFacts_facts_js:
  assumes "facts_wf f"
  shows "validFacts (facts_js f)"
proof -
  have k: "exactKeys (facts_js f) AUDIT_FACT_KEYS"
    unfolding facts_js_def AUDIT_FACT_KEYS_def by (rule exactKeys_mset) simp
  have t: "list_all (str_test P) (map JStr xs) = list_all P xs" for P and xs :: "string list"
    by (simp add: list.pred_map comp_def)
  have g: "getf (fields_of (facts_js f)) ''outcome'' = JStr (audit_outcome_text (af_outcome f))"
    "getf (fields_of (facts_js f)) ''reasonCodes'' = strs_js (af_reasonCodes f)"
    "getf (fields_of (facts_js f)) ''evidenceDigests'' = strs_js (af_evidenceDigests f)"
    by (simp_all add: facts_js_def)
  show ?thesis
    unfolding validFacts_def Let_def g member_outcome strs_js_simps validDigest_def [abs_def] t map_map
      map_str_of_JStr length_map
    using assms k unfolding facts_wf_def by (simp add: not_less)
qed

lemma getf_event:
  "getf (fields_of (event_js e)) ''schemaVersion'' = JStr PROTECTED_AUDIT_EVENT_SCHEMA_V1"
  "getf (fields_of (event_js e)) ''timelineId'' = JStr (au_timelineId e)"
  "getf (fields_of (event_js e)) ''tenant'' = JStr (au_tenant e)"
  "getf (fields_of (event_js e)) ''sequence'' = jint (au_sequence e)"
  "getf (fields_of (event_js e)) ''eventId'' = JStr (au_eventId e)"
  "getf (fields_of (event_js e)) ''eventKind'' = JStr (event_kind_text (au_kind e))"
  "getf (fields_of (event_js e)) ''actorId'' = JStr (au_actorId e)"
  "getf (fields_of (event_js e)) ''operationId'' = JStr (au_operationId e)"
  "getf (fields_of (event_js e)) ''correlationId'' = JStr (au_correlationId e)"
  "getf (fields_of (event_js e)) ''occurredAtMs'' = jint (occurredAtMs e)"
  "getf (fields_of (event_js e)) ''observedAtMs'' = jint (observedAtMs e)"
  "getf (fields_of (event_js e)) ''references'' = references_js (au_references e)"
  "getf (fields_of (event_js e)) ''facts'' = facts_js (au_facts e)"
  by (simp_all add: event_js_def)

lemma validate_event_js:
  assumes "event_wf e"
  shows "validateProtectedAuditEventV1 H (event_js e) = Inr (e, protectedAuditEventDigestV1 H e)"
proof -
  have k: "exactKeys (event_js e) AUDIT_EVENT_KEYS"
    unfolding event_js_def AUDIT_EVENT_KEYS_def by (rule exactKeys_mset) simp
  note w = assms [unfolded event_wf_def]
  have "validReferences (references_js (au_references e))" "validFacts (facts_js (au_facts e))"
    using w by (blast intro: validReferences_references_js validFacts_facts_js)+
  with k w show ?thesis
    unfolding validateProtectedAuditEventV1_def Let_def getf_event member_kind validId_iff validTime_iff
      int_of_js.simps validCount_iff readEvent_event_js protectedAuditEventDigestV1_def
    by (simp del: is_safe_integer.simps)
qed

subsection \<open>Envelopes and checkpoints\<close>

lemma validSigner_norm:
  assumes "validSignerReference v"
  shows "js_norm v = js_norm (signer_js (readSigner v))" "signer_ref_wf (readSigner v)"
proof -
  have a: "exactKeys v AUDIT_SIGNER_KEYS" "getf (fields_of v) ''algorithm'' = JStr ''Ed25519''"
    and k: "validId (getf (fields_of v) ''keyId'')"
    and g: "is_safe_integer (getf (fields_of v) ''generation'')" "1 \<le> int_of_js (getf (fields_of v) ''generation'')"
    using assms unfolding validSignerReference_def Let_def by blast+
  note k = validId_JStr [OF k] and g = validCount_jint [OF g]
  have n: "js_norm (getf (fields_of v) ''keyId'') = JStr (sr_keyId (readSigner v))"
    "js_norm (getf (fields_of v) ''generation'') = jint (sr_generation (readSigner v))"
    unfolding readSigner_def signer_ref.simps
    by (subst k [THEN conjunct1], rule js_norm.simps) (subst g [THEN conjunct1], rule js_norm.simps)
  show "js_norm v = js_norm (signer_js (readSigner v))"
  proof (rule exactKeys_norm_all [OF a(1)])
    show "list_all (\<lambda>(k, x). js_norm (getf (fields_of v) k) = js_norm x) (fields_of (signer_js (readSigner v)))"
      unfolding signer_js_def fields_of.simps list.pred_inject prod.case using n a(2) by simp
  qed (simp add: signer_js_def AUDIT_SIGNER_KEYS_def)
  show "signer_ref_wf (readSigner v)"
    using k g by (simp add: signer_ref_wf_def readSigner_def)
qed

lemma validSigner_signer_js:
  assumes "signer_ref_wf s"
  shows "validSignerReference (signer_js s)" "readSigner (signer_js s) = s"
proof -
  have "exactKeys (signer_js s) AUDIT_SIGNER_KEYS"
    unfolding signer_js_def AUDIT_SIGNER_KEYS_def by (rule exactKeys_mset) simp
  then show "validSignerReference (signer_js s)"
    using assms by (simp add: validSignerReference_def signer_js_def signer_ref_wf_def validCount_iff
        del: is_safe_integer.simps)
qed (simp add: readSigner_def signer_js_def)

lemma without_signature:
  "without ''signatureBase64'' (envelope_core e @ [(''signatureBase64'', v)]) = envelope_core e"
  "without ''signatureBase64'' (checkpoint_core c @ [(''signatureBase64'', v)]) = checkpoint_core c"
  by (simp_all add: without_def envelope_core_def checkpoint_core_def)

lemma exactKeys_distinct: "exactKeys v ks \<Longrightarrow> distinct ks \<Longrightarrow> \<exists>i kvs. v = JObj i kvs \<and> distinct (map fst kvs)"
  by (elim exactKeysE) blast

lemma envelope_keys_distinct: "distinct AUDIT_ENVELOPE_KEYS" "distinct AUDIT_CHECKPOINT_KEYS"
  by (simp_all add: AUDIT_ENVELOPE_KEYS_def AUDIT_CHECKPOINT_KEYS_def)

lemma readEnvelope_event [simp]: "ae_event (readEnvelope v e) = e"
  by (simp add: readEnvelope_def Let_def)

lemma validated_envelope:
  assumes shape: "validateEnvelopeShape v"
    and event: "validateProtectedAuditEventV1 H (getf (fields_of v) ''event'') = Inr (e, d)"
  shows "js_norm v = js_norm (audit_envelope_js (readEnvelope v e))" "audit_envelope_wf (readEnvelope v e)"
    "js_norm (obj (without ''signatureBase64'' (fields_of v))) = js_norm (obj (envelope_core (readEnvelope v e)))"
    "digest_of H v = protectedAuditEnvelopeDigestV1 H (readEnvelope v e)"
proof -
  let ?r = "fields_of v" and ?e = "readEnvelope v e"
  have a: "exactKeys v AUDIT_ENVELOPE_KEYS" "getf ?r ''schemaVersion'' = JStr PROTECTED_AUDIT_ENVELOPE_SCHEMA_V1"
    and d: "validDigest (getf ?r ''eventDigest'')"
    and p: "getf ?r ''previousEnvelopeDigest'' = JNull \<or> validDigest (getf ?r ''previousEnvelopeDigest'')"
    and t: "validTime (getf ?r ''signedAtMs'')" and s: "validSignerReference (getf ?r ''signer'')"
    and b: "str_test (rx_test BASE64) (getf ?r ''signatureBase64'')"
    using shape unfolding validateEnvelopeShape_def Let_def by blast+
  note d = validDigest_JStr [OF d] and p = validDigest_refOf [OF p] and t = validTime_jint [OF t]
    and s = validSigner_norm [OF s] and b = str_test_JStr [OF b]
  have vals: "list_all (\<lambda>(k, x). js_norm (getf ?r k) = js_norm x) (fields_of (audit_envelope_js ?e))"
    unfolding audit_envelope_js_def envelope_core_def append.simps fields_of.simps list.pred_inject prod.case
      readEnvelope_event
  proof (intro conjI TrueI)
    show "js_norm (getf ?r ''event'') = js_norm (event_js e)" by (rule validated_event(1) [OF event])
    show "js_norm (getf ?r ''eventDigest'') = js_norm (JStr (ae_eventDigest ?e))"
      by (subst d [THEN conjunct1]) (simp add: readEnvelope_def Let_def)
    show "js_norm (getf ?r ''previousEnvelopeDigest'') = js_norm (str_or_null (ae_previous ?e))"
      by (subst p [THEN conjunct1]) (simp add: readEnvelope_def Let_def)
    show "js_norm (getf ?r ''signedAtMs'') = js_norm (jint (signedAtMs ?e))"
      by (subst t [THEN conjunct1]) (simp add: readEnvelope_def Let_def)
    show "js_norm (getf ?r ''signer'') = js_norm (signer_js (ae_signer ?e))"
      using s(1) by (simp add: readEnvelope_def Let_def)
    show "js_norm (getf ?r ''signatureBase64'') = js_norm (JStr (ae_signature ?e))"
      by (subst b [THEN conjunct1]) (simp add: readEnvelope_def Let_def)
  qed (simp_all add: a(2))
  show n: "js_norm v = js_norm (audit_envelope_js ?e)"
    by (rule exactKeys_norm_all [OF a(1) _ vals])
       (simp add: audit_envelope_js_def envelope_core_def AUDIT_ENVELOPE_KEYS_def)
  obtain i kvs where v: "v = JObj i kvs" "distinct (map fst kvs)"
    using exactKeys_distinct [OF a(1) envelope_keys_distinct(1)] by blast
  have "js_norm (JObj i kvs) = js_norm (obj (envelope_core ?e @ [(''signatureBase64'', JStr (ae_signature ?e))]))"
    using n unfolding v(1) audit_envelope_js_def .
  moreover have "distinct (map fst (envelope_core ?e @ [(''signatureBase64'', JStr (ae_signature ?e))]))"
    by (simp add: envelope_core_def)
  ultimately have "js_norm (obj (without ''signatureBase64'' kvs))
      = js_norm (obj (without ''signatureBase64'' (envelope_core ?e @ [(''signatureBase64'', JStr (ae_signature ?e))])))"
    using v(2) by (intro js_norm_without)
  then
  show "js_norm (obj (without ''signatureBase64'' ?r)) = js_norm (obj (envelope_core ?e))"
    unfolding without_signature v(1) fields_of.simps .
  show "audit_envelope_wf ?e"
    using validated_event(2) [OF event] d p t s(2) b by (simp add: audit_envelope_wf_def readEnvelope_def Let_def)
  show "digest_of H v = protectedAuditEnvelopeDigestV1 H ?e"
    unfolding digest_of_def protectedAuditEnvelopeDigestV1_def canonText_normI [OF n] ..
qed

lemma getf_envelope:
  "getf (fields_of (audit_envelope_js e)) ''schemaVersion'' = JStr PROTECTED_AUDIT_ENVELOPE_SCHEMA_V1"
  "getf (fields_of (audit_envelope_js e)) ''event'' = event_js (ae_event e)"
  "getf (fields_of (audit_envelope_js e)) ''eventDigest'' = JStr (ae_eventDigest e)"
  "getf (fields_of (audit_envelope_js e)) ''previousEnvelopeDigest'' = str_or_null (ae_previous e)"
  "getf (fields_of (audit_envelope_js e)) ''signedAtMs'' = jint (signedAtMs e)"
  "getf (fields_of (audit_envelope_js e)) ''signer'' = signer_js (ae_signer e)"
  "getf (fields_of (audit_envelope_js e)) ''signatureBase64'' = JStr (ae_signature e)"
  "without ''signatureBase64'' (fields_of (audit_envelope_js e)) = envelope_core e"
  by (simp_all add: audit_envelope_js_def envelope_core_def without_def)

lemma envelope_js_shape:
  assumes "audit_envelope_wf e"
  shows "validateEnvelopeShape (audit_envelope_js e)" "readEnvelope (audit_envelope_js e) (ae_event e) = e"
proof -
  note w = assms [unfolded audit_envelope_wf_def]
  have k: "exactKeys (audit_envelope_js e) AUDIT_ENVELOPE_KEYS"
    unfolding audit_envelope_js_def AUDIT_ENVELOPE_KEYS_def by (rule exactKeys_mset) (simp add: envelope_core_def)
  have p: "str_or_null (ae_previous e) = JNull \<or> validDigest (str_or_null (ae_previous e))"
    using w by (cases "ae_previous e") (auto simp: str_or_null_def)
  show "validateEnvelopeShape (audit_envelope_js e)"
    unfolding validateEnvelopeShape_def Let_def getf_envelope using w k p validSigner_signer_js by simp
  show "readEnvelope (audit_envelope_js e) (ae_event e) = e"
    unfolding readEnvelope_def Let_def getf_envelope using w validSigner_signer_js by simp
qed

lemma validated_checkpoint:
  assumes shape: "validateCheckpointShape v"
  shows "js_norm v = js_norm (checkpoint_js (readCheckpoint v))" "checkpoint_wf (readCheckpoint v)"
    "js_norm (obj (without ''signatureBase64'' (fields_of v))) = js_norm (obj (checkpoint_core (readCheckpoint v)))"
    "digest_of H v = protectedAuditCheckpointDigestV1 H (readCheckpoint v)"
proof -
  let ?r = "fields_of v" and ?c = "readCheckpoint v"
  have a: "exactKeys v AUDIT_CHECKPOINT_KEYS" "getf ?r ''schemaVersion'' = JStr PROTECTED_AUDIT_CHECKPOINT_SCHEMA_V1"
    and l: "validId (getf ?r ''timelineId'')" and n: "validId (getf ?r ''tenant'')"
    and c: "is_safe_integer (getf ?r ''eventCount'')" "1 \<le> int_of_js (getf ?r ''eventCount'')"
    and d: "validDigest (getf ?r ''headEnvelopeDigest'')"
    and t: "validTime (getf ?r ''issuedAtMs'')" and s: "validSignerReference (getf ?r ''signer'')"
    and b: "str_test (rx_test BASE64) (getf ?r ''signatureBase64'')"
    using shape unfolding validateCheckpointShape_def Let_def by blast+
  note l = validId_JStr [OF l] and n = validId_JStr [OF n] and c = validCount_jint [OF c]
    and d = validDigest_JStr [OF d] and t = validTime_jint [OF t]
    and s = validSigner_norm [OF s] and b = str_test_JStr [OF b]
  have vals: "list_all (\<lambda>(k, x). js_norm (getf ?r k) = js_norm x) (fields_of (checkpoint_js ?c))"
    unfolding checkpoint_js_def checkpoint_core_def append.simps fields_of.simps list.pred_inject prod.case
  proof (intro conjI TrueI)
    show "js_norm (getf ?r ''timelineId'') = js_norm (JStr (cp_timelineId ?c))"
      by (subst l [THEN conjunct1]) (simp add: readCheckpoint_def Let_def)
    show "js_norm (getf ?r ''tenant'') = js_norm (JStr (cp_tenant ?c))"
      by (subst n [THEN conjunct1]) (simp add: readCheckpoint_def Let_def)
    show "js_norm (getf ?r ''eventCount'') = js_norm (jint (eventCount ?c))"
      by (subst c [THEN conjunct1]) (simp add: readCheckpoint_def Let_def)
    show "js_norm (getf ?r ''headEnvelopeDigest'') = js_norm (JStr (headEnvelopeDigest ?c))"
      by (subst d [THEN conjunct1]) (simp add: readCheckpoint_def Let_def)
    show "js_norm (getf ?r ''issuedAtMs'') = js_norm (jint (issuedAtMs ?c))"
      by (subst t [THEN conjunct1]) (simp add: readCheckpoint_def Let_def)
    show "js_norm (getf ?r ''signer'') = js_norm (signer_js (cp_signer ?c))"
      using s(1) by (simp add: readCheckpoint_def Let_def)
    show "js_norm (getf ?r ''signatureBase64'') = js_norm (JStr (cp_signature ?c))"
      by (subst b [THEN conjunct1]) (simp add: readCheckpoint_def Let_def)
  qed (simp_all add: a(2))
  show n': "js_norm v = js_norm (checkpoint_js ?c)"
    by (rule exactKeys_norm_all [OF a(1) _ vals])
       (simp add: checkpoint_js_def checkpoint_core_def AUDIT_CHECKPOINT_KEYS_def)
  obtain i kvs where v: "v = JObj i kvs" "distinct (map fst kvs)"
    using exactKeys_distinct [OF a(1) envelope_keys_distinct(2)] by blast
  have "js_norm (JObj i kvs) = js_norm (obj (checkpoint_core ?c @ [(''signatureBase64'', JStr (cp_signature ?c))]))"
    using n' unfolding v(1) checkpoint_js_def .
  moreover have "distinct (map fst (checkpoint_core ?c @ [(''signatureBase64'', JStr (cp_signature ?c))]))"
    by (simp add: checkpoint_core_def)
  ultimately have "js_norm (obj (without ''signatureBase64'' kvs))
      = js_norm (obj (without ''signatureBase64'' (checkpoint_core ?c @ [(''signatureBase64'', JStr (cp_signature ?c))])))"
    using v(2) by (intro js_norm_without)
  then
  show "js_norm (obj (without ''signatureBase64'' ?r)) = js_norm (obj (checkpoint_core ?c))"
    unfolding without_signature v(1) fields_of.simps .
  show "checkpoint_wf ?c"
    using l n c d t s(2) b by (simp add: checkpoint_wf_def readCheckpoint_def Let_def)
  show "digest_of H v = protectedAuditCheckpointDigestV1 H ?c"
    unfolding digest_of_def protectedAuditCheckpointDigestV1_def canonText_normI [OF n'] ..
qed

lemma getf_checkpoint:
  "getf (fields_of (checkpoint_js c)) ''schemaVersion'' = JStr PROTECTED_AUDIT_CHECKPOINT_SCHEMA_V1"
  "getf (fields_of (checkpoint_js c)) ''timelineId'' = JStr (cp_timelineId c)"
  "getf (fields_of (checkpoint_js c)) ''tenant'' = JStr (cp_tenant c)"
  "getf (fields_of (checkpoint_js c)) ''eventCount'' = jint (eventCount c)"
  "getf (fields_of (checkpoint_js c)) ''headEnvelopeDigest'' = JStr (headEnvelopeDigest c)"
  "getf (fields_of (checkpoint_js c)) ''issuedAtMs'' = jint (issuedAtMs c)"
  "getf (fields_of (checkpoint_js c)) ''signer'' = signer_js (cp_signer c)"
  "getf (fields_of (checkpoint_js c)) ''signatureBase64'' = JStr (cp_signature c)"
  "without ''signatureBase64'' (fields_of (checkpoint_js c)) = checkpoint_core c"
  by (simp_all add: checkpoint_js_def checkpoint_core_def without_def)

lemma checkpoint_js_shape:
  assumes "checkpoint_wf c"
  shows "validateCheckpointShape (checkpoint_js c)" "readCheckpoint (checkpoint_js c) = c"
proof -
  note w = assms [unfolded checkpoint_wf_def]
  have k: "exactKeys (checkpoint_js c) AUDIT_CHECKPOINT_KEYS"
    unfolding checkpoint_js_def AUDIT_CHECKPOINT_KEYS_def by (rule exactKeys_mset) (simp add: checkpoint_core_def)
  show "validateCheckpointShape (checkpoint_js c)"
    unfolding validateCheckpointShape_def Let_def getf_checkpoint
    using w k validSigner_signer_js by (simp add: validCount_iff del: is_safe_integer.simps)
  show "readCheckpoint (checkpoint_js c) = c"
    unfolding readCheckpoint_def Let_def getf_checkpoint using w validSigner_signer_js by simp
qed

subsection \<open>Encodings lose nothing\<close>

lemma references_inj:
  assumes "js_norm (references_js f) = js_norm (references_js g)"
  shows "f = g"
proof
  fix k
  have "js_norm (getf (fields_of (references_js f)) (ref_text k))
      = js_norm (getf (fields_of (references_js g)) (ref_text k))"
    using js_norm_obj_getf [OF assms [unfolded references_js_def]] distinct_refs
    by (simp add: references_js_def comp_def)
  then show "f k = g k" unfolding getf_references by simp
qed

lemma event_kind_inj [simp]: "event_kind_text k = event_kind_text l \<longleftrightarrow> k = l"
  by (metis member_kind option.inject)

lemma audit_outcome_inj [simp]: "audit_outcome_text k = audit_outcome_text l \<longleftrightarrow> k = l"
  by (metis member_outcome option.inject)

lemma facts_inj:
  assumes "js_norm (facts_js f) = js_norm (facts_js g)"
  shows "f = g"
  using js_norm_obj_vals [OF assms [unfolded facts_js_def]] by (simp add: audit_facts.equality)

lemma event_inj:
  assumes "js_norm (event_js e) = js_norm (event_js e')"
  shows "e = e'"
proof -
  note v = js_norm_obj_vals [OF assms [unfolded event_js_def], simplified]
  have "au_references e = au_references e'" "au_facts e = au_facts e'"
    using v by (blast intro: references_inj facts_inj)+
  then show ?thesis using v by (intro audit_event.equality) simp_all
qed

lemma signer_inj:
  assumes "js_norm (signer_js s) = js_norm (signer_js s')"
  shows "s = s'"
  using js_norm_obj_vals [OF assms [unfolded signer_js_def]] by (simp add: signer_ref.equality)

lemma audit_envelope_inj:
  assumes "js_norm (audit_envelope_js e) = js_norm (audit_envelope_js e')"
  shows "e = e'"
proof -
  note v = js_norm_obj_vals [OF assms [unfolded audit_envelope_js_def envelope_core_def], simplified]
  have "ae_event e = ae_event e'" "ae_signer e = ae_signer e'"
    using v by (blast intro: event_inj signer_inj)+
  then show ?thesis using v by (intro audit_envelope.equality) simp_all
qed

lemma checkpoint_inj:
  assumes "js_norm (checkpoint_js e) = js_norm (checkpoint_js e')"
  shows "e = e'"
proof -
  note v = js_norm_obj_vals [OF assms [unfolded checkpoint_js_def checkpoint_core_def], simplified]
  have "cp_signer e = cp_signer e'" using v by (blast intro: signer_inj)
  then show ?thesis using v by (intro checkpoint.equality) simp_all
qed

interpretation event_codec: codec event_js "\<lambda>e :: audit_event. e"
  by unfold_locales (simp_all add: event_inj)

interpretation audit_envelope_codec: codec audit_envelope_js "\<lambda>e :: audit_envelope. e"
  by unfold_locales (simp_all add: audit_envelope_inj)

interpretation checkpoint_codec: codec checkpoint_js "\<lambda>c :: checkpoint. c"
  by unfold_locales (simp_all add: checkpoint_inj)

end
