(* ===== verification/AuditLog.thy ===== *)
theory AuditLog
  imports AuditReading
begin

text \<open>
  What a protected timeline is, independently of the code: \<open>audit_log\<close>, the logs built by appending one
  admissible envelope after another. The verifier accepts exactly the readings of such a log under its
  checkpoint and trust policy (\<open>verify_iff\<close>); the theory of the writer shows that it builds nothing else.
\<close>

subsection \<open>The abstract log\<close>

definition resolved :: "audit_envelope list \<Rightarrow> audit_event \<Rightarrow> bool" where
  "resolved es e \<longleftrightarrow> (\<forall>k \<in> set (REQUIRED_REFERENCES (au_kind e)). au_references e k \<noteq> None)
     \<and> (\<forall>k d. au_references e k = Some d \<longrightarrow>
          (\<exists>p \<in> set es. au_kind (ae_event p) = KIND_BY_REFERENCE k \<and> ae_eventDigest p = d))"

definition follows :: "audit_envelope \<Rightarrow> audit_envelope \<Rightarrow> bool" where
  "follows p env \<longleftrightarrow> signedAtMs p < signedAtMs env \<and> occurredAtMs (ae_event p) \<le> occurredAtMs (ae_event env)
     \<and> observedAtMs (ae_event p) \<le> observedAtMs (ae_event env)
     \<and> au_operationId (ae_event p) = au_operationId (ae_event env)
     \<and> au_correlationId (ae_event p) = au_correlationId (ae_event env)"

definition admissible :: "hash \<Rightarrow> audit_envelope list \<Rightarrow> audit_envelope \<Rightarrow> bool" where
  "admissible H es env \<longleftrightarrow>
     ae_eventDigest env = protectedAuditEventDigestV1 H (ae_event env)
     \<and> au_sequence (ae_event env) = int (length es) + 1
     \<and> (es = [] \<longrightarrow> au_kind (ae_event env) = IDENTITY)
     \<and> ae_previous env = map_option (protectedAuditEnvelopeDigestV1 H) (at_last es)
     \<and> observedAtMs (ae_event env) \<le> signedAtMs env
     \<and> (\<forall>p \<in> set es. au_eventId (ae_event p) \<noteq> au_eventId (ae_event env)
          \<and> au_kind (ae_event p) \<noteq> au_kind (ae_event env))
     \<and> resolved es (ae_event env)
     \<and> (\<forall>p. at_last es = Some p \<longrightarrow> follows p env)"

inductive audit_log :: "hash \<Rightarrow> audit_envelope list \<Rightarrow> bool" for H where
  empty_log: "audit_log H []"
| extend_log: "audit_log H es \<Longrightarrow> audit_envelope_wf env \<Longrightarrow> admissible H es env \<Longrightarrow> audit_log H (es @ [env])"

inductive_simps audit_log_snoc: "audit_log H (es @ [env])"

lemma audit_log_envelope:
  assumes "audit_log H es" "p \<in> set es"
  shows "audit_envelope_wf p" "ae_eventDigest p = protectedAuditEventDigestV1 H (ae_event p)"
  using assms by (induction rule: audit_log.induct) (auto simp: admissible_def)

lemma audit_log_kinds: "audit_log H es \<Longrightarrow> distinct (map (\<lambda>p. au_kind (ae_event p)) es)"
  by (induction rule: audit_log.induct) (auto simp: admissible_def)

lemma audit_log_ids: "audit_log H es \<Longrightarrow> distinct (map (\<lambda>p. au_eventId (ae_event p)) es)"
  by (induction rule: audit_log.induct) (auto simp: admissible_def)

lemma audit_log_binding:
  assumes "audit_log H es" "p \<in> set es" "q \<in> set es"
  shows "au_operationId (ae_event p) = au_operationId (ae_event q)
    \<and> au_correlationId (ae_event p) = au_correlationId (ae_event q)"
  using assms
proof (induction arbitrary: p q rule: audit_log.induct)
  case (extend_log es env)
  have "au_operationId (ae_event p) = au_operationId (ae_event env)
      \<and> au_correlationId (ae_event p) = au_correlationId (ae_event env)" if "p \<in> set es" for p
  proof -
    have "es \<noteq> []" using that by auto
    then have l: "at_last es = Some (last es)" "last es \<in> set es" by (simp_all add: at_last_def)
    then have "follows (last es) env" using extend_log by (simp add: admissible_def)
    with extend_log.IH [OF that l(2)] show ?thesis by (simp add: follows_def)
  qed
  with extend_log show ?case by auto
qed simp

lemma audit_log_sequence:
  "audit_log H es \<Longrightarrow> i < length es \<Longrightarrow> au_sequence (ae_event (es ! i)) = int i + 1"
proof (induction rule: audit_log.induct)
  case (extend_log es env)
  then show ?case by (cases "i = length es") (auto simp: admissible_def nth_append)
qed simp

lemma audit_log_clock:
  "audit_log H es \<Longrightarrow> i < j \<Longrightarrow> j < length es \<Longrightarrow> signedAtMs (es ! i) < signedAtMs (es ! j)
    \<and> occurredAtMs (ae_event (es ! i)) \<le> occurredAtMs (ae_event (es ! j))
    \<and> observedAtMs (ae_event (es ! i)) \<le> observedAtMs (ae_event (es ! j))"
proof (induction arbitrary: i j rule: audit_log.induct)
  case (extend_log es env)
  show ?case
  proof (cases "j = length es")
    case True
    then have "es \<noteq> []" using extend_log.prems by auto
    then have "follows (es ! (length es - 1)) env"
      using extend_log.hyps by (simp add: admissible_def at_last_def last_conv_nth)
    moreover have "i = length es - 1 \<or> i < length es - 1" using extend_log.prems True by auto
    ultimately show ?thesis
      using extend_log.IH [of i "length es - 1"] True \<open>es \<noteq> []\<close> extend_log.prems
      by (auto simp: nth_append follows_def)
  qed (use extend_log in \<open>auto simp: nth_append\<close>)
qed simp

subsection \<open>Causal links\<close>

lemma priorByKind_Some:
  assumes "distinct (map (\<lambda>p. au_kind (ae_event p)) es)"
  shows "priorByKind es k = Some d \<longleftrightarrow> (\<exists>p \<in> set es. au_kind (ae_event p) = k \<and> ae_eventDigest p = d)"
proof -
  have "distinct (map fst (rev (map (\<lambda>e. (au_kind (ae_event e), ae_eventDigest e)) es)))"
    using assms by (simp add: rev_map [symmetric] comp_def)
  then show ?thesis by (auto simp: priorByKind_def image_iff map_of_eq_Some_iff)
qed

lemma priorByKind_None: "priorByKind es k = None \<longleftrightarrow> (\<forall>p \<in> set es. au_kind (ae_event p) \<noteq> k)"
  by (auto simp: priorByKind_def map_of_eq_None_iff image_iff)

lemma priorByKind_snoc: "priorByKind (es @ [p]) = (priorByKind es)(au_kind (ae_event p) \<mapsto> ae_eventDigest p)"
  by (simp add: priorByKind_def)

lemma concat_map_Nil: "concat (map f xs) = [] \<longleftrightarrow> (\<forall>x \<in> set xs. f x = [])"
  by auto

lemma uniq_Nil [simp]: "uniq xs = [] \<longleftrightarrow> xs = []"
  by (cases xs) simp_all

lemma causalIssues_Nil:
  assumes "audit_log H es"
  shows "causalIssues e (priorByKind es) = [] \<longleftrightarrow> resolved es e"
proof -
  have "causalIssues e m = [] \<longleftrightarrow> (\<forall>k \<in> set (REQUIRED_REFERENCES (au_kind e)). au_references e k \<noteq> None)
      \<and> (\<forall>k d. au_references e k = Some d \<longrightarrow> m (KIND_BY_REFERENCE k) = Some d)" for m
    unfolding causalIssues_def uniq_Nil append_is_Nil_conv concat_map_Nil
    using ref_key_all by (auto split: option.splits if_splits)
  from this [of "priorByKind es"] show ?thesis
    unfolding resolved_def priorByKind_Some [OF audit_log_kinds [OF assms]] .
qed

subsection \<open>The loop of the verifier\<close>

definition reads :: "hash \<Rightarrow> js \<Rightarrow> audit_envelope \<Rightarrow> bool" where
  "reads H v env \<longleftrightarrow> validateEnvelopeShape v
     \<and> (\<exists>e d. validateProtectedAuditEventV1 H (getf (fields_of v) ''event'') = Inr (e, d)
          \<and> env = readEnvelope v e)"

definition signed_by :: "verify_fn \<Rightarrow> trust_policy \<Rightarrow> signer_ref \<Rightarrow> int \<Rightarrow> js \<Rightarrow> string \<Rightarrow> bool" where
  "signed_by vrf trust signer atMs core sig \<longleftrightarrow>
     (\<exists>key. keyFor trust signer atMs = Inr key \<and> verifySignature vrf core sig (tk_publicKeyPem key))"

definition trusted_envelope :: "verify_fn \<Rightarrow> trust_policy \<Rightarrow> audit_envelope \<Rightarrow> bool" where
  "trusted_envelope vrf trust env \<longleftrightarrow>
     signed_by vrf trust (ae_signer env) (signedAtMs env) (obj (envelope_core env)) (ae_signature env)"

text \<open>The state of the loop after the readings of \<open>es\<close>, none of which raised an issue.\<close>

definition state_after :: "hash \<Rightarrow> audit_envelope list \<Rightarrow> verify_state" where
  "state_after H es =
     \<lparr>v_issues = [], v_facts = map (\<lambda>p. factOf (ae_event p) (ae_eventDigest p)) es,
      v_priorByKind = priorByKind es, v_eventIds = map (\<lambda>p. au_eventId (ae_event p)) es,
      v_priorEnvelopeDigest = map_option (protectedAuditEnvelopeDigestV1 H) (at_last es),
      v_priorSignedAt = (case at_last es of None \<Rightarrow> -1 | Some p \<Rightarrow> signedAtMs p),
      v_priorOccurredAt = (case at_last es of None \<Rightarrow> -1 | Some p \<Rightarrow> occurredAtMs (ae_event p)),
      v_priorObservedAt = (case at_last es of None \<Rightarrow> -1 | Some p \<Rightarrow> observedAtMs (ae_event p)),
      v_operationId = map_option (\<lambda>p. au_operationId (ae_event p)) (at_last (rev es)),
      v_correlationId = map_option (\<lambda>p. au_correlationId (ae_event p)) (at_last (rev es))\<rparr>"

lemma state_after_Nil: "state_after H [] = initial_state []"
  by (simp add: state_after_def initial_state_def priorByKind_def)

lemma set_add_Nil_iff: "fold set_add xs ys = [] \<longleftrightarrow> xs = [] \<and> ys = []"
  by (induction xs arbitrary: ys) simp_all

lemma pushSigned_Nil:
  "pushSigned vrf trust s t core sig issue is = [] \<longleftrightarrow> is = [] \<and> signed_by vrf trust s t core sig"
  by (auto simp: pushSigned_def signed_by_def split: sum.splits)

lemma verifySignature_norm:
  "js_norm v = js_norm w \<Longrightarrow> verifySignature vrf v sig pem = verifySignature vrf w sig pem"
  unfolding verifySignature_def by (metis canonicalJson_js_norm)

lemma signed_by_norm: "js_norm v = js_norm w \<Longrightarrow> signed_by vrf trust s t v sig = signed_by vrf trust s t w sig"
  unfolding signed_by_def using verifySignature_norm by metis

definition in_scope :: "checkpoint \<Rightarrow> audit_envelope \<Rightarrow> bool" where
  "in_scope cp env \<longleftrightarrow> au_timelineId (ae_event env) = cp_timelineId cp \<and> au_tenant (ae_event env) = cp_tenant cp"

lemma if_issue_Nil: "(if b then [x] else []) = [] \<longleftrightarrow> \<not> b"
  by simp

lemma first_binding:
  assumes "audit_log H es" "at_last es = Some p"
  shows "map_option (\<lambda>p. au_operationId (ae_event p)) (at_last (rev es)) = Some (au_operationId (ae_event p))"
    "map_option (\<lambda>p. au_correlationId (ae_event p)) (at_last (rev es)) = Some (au_correlationId (ae_event p))"
proof -
  obtain q where q: "at_last (rev es) = Some q" using assms(2) by (cases es) (auto simp: at_last_def)
  have "q \<in> set es" using at_last_in [OF q] by simp
  moreover have "p \<in> set es" by (rule at_last_in [OF assms(2)])
  ultimately have "au_operationId (ae_event q) = au_operationId (ae_event p)
      \<and> au_correlationId (ae_event q) = au_correlationId (ae_event p)"
    by (rule audit_log_binding [OF assms(1)])
  then show "map_option (\<lambda>p. au_operationId (ae_event p)) (at_last (rev es)) = Some (au_operationId (ae_event p))"
    "map_option (\<lambda>p. au_correlationId (ae_event p)) (at_last (rev es)) = Some (au_correlationId (ae_event p))"
    unfolding q by simp_all
qed

lemma linkIssues_Nil:
  assumes log: "audit_log H es" and wf: "audit_envelope_wf env"
  shows "linkIssues cp (length es) (state_after H es) env (protectedAuditEventDigestV1 H (ae_event env)) = []
    \<longleftrightarrow> admissible H es env \<and> in_scope cp env"
proof (cases "at_last es")
  case None
  then have es: "es = []" by simp
  have t: "-1 < signedAtMs env" "-1 \<le> occurredAtMs (ae_event env)" "-1 \<le> observedAtMs (ae_event env)"
    using wf by (simp_all add: audit_envelope_wf_def event_wf_def time_ok_def)
  show ?thesis
    unfolding linkIssues_def Let_def append_is_Nil_conv if_issue_Nil admissible_def in_scope_def
    using t causalIssues_Nil [OF log, of "ae_event env"]
    by (auto simp: es state_after_def not_le not_less priorByKind_None)
next
  case (Some p)
  let ?e = "ae_event env"
  note b = first_binding [OF log Some]
  have st: "v_priorByKind (state_after H es) = priorByKind es"
    "v_eventIds (state_after H es) = map (\<lambda>p. au_eventId (ae_event p)) es"
    "v_priorEnvelopeDigest (state_after H es) = map_option (protectedAuditEnvelopeDigestV1 H) (at_last es)"
    "v_priorSignedAt (state_after H es) = signedAtMs p"
    "v_priorOccurredAt (state_after H es) = occurredAtMs (ae_event p)"
    "v_priorObservedAt (state_after H es) = observedAtMs (ae_event p)"
    "v_operationId (state_after H es) = Some (au_operationId (ae_event p))"
    "v_correlationId (state_after H es) = Some (au_correlationId (ae_event p))"
    using Some b by (simp_all add: state_after_def)
  have ne: "es \<noteq> []" using Some by auto
  have ids: "au_eventId ?e \<notin> set (map (\<lambda>p. au_eventId (ae_event p)) es)
      \<longleftrightarrow> (\<forall>p \<in> set es. au_eventId (ae_event p) \<noteq> au_eventId ?e)" by auto (metis image_eqI)
  show ?thesis
    unfolding linkIssues_def Let_def append_is_Nil_conv if_issue_Nil admissible_def in_scope_def follows_def st
      causalIssues_Nil [OF log] ids priorByKind_None not_not not_le not_less de_Morgan_disj de_Morgan_conj
    using Some ne by (simp add: ball_conj_distrib conj_ac)
qed

lemma set_verify_issues [simp]:
  "v_issues (nextState H c env d st) = v_issues st"
  by (simp add: nextState_def Let_def)

lemma verifyEnvelope_issues_kept:
  "v_issues st \<noteq> [] \<Longrightarrow> v_issues (verifyEnvelope H vrf trust cp i c st) \<noteq> []"
  by (auto simp: verifyEnvelope_def Let_def pushSigned_Nil set_add_Nil_iff split: sum.split)

lemma verifyEnvelopes_issues_kept:
  "v_issues st \<noteq> [] \<Longrightarrow> v_issues (verifyEnvelopes H vrf trust cp i cs st) \<noteq> []"
  by (induction cs arbitrary: i st) (simp_all add: verifyEnvelope_issues_kept)

lemma state_after_snoc:
  assumes "protectedAuditEventDigestV1 H (ae_event env) = ae_eventDigest env"
    and "digest_of H c = protectedAuditEnvelopeDigestV1 H env"
    and "\<forall>p \<in> set es. au_eventId (ae_event p) \<noteq> au_eventId (ae_event env)"
  shows "nextState H c env (protectedAuditEventDigestV1 H (ae_event env)) (state_after H es)
    = state_after H (es @ [env])"
proof -
  have "au_eventId (ae_event env) \<notin> set (map (\<lambda>p. au_eventId (ae_event p)) es)"
    using assms(3) by auto
  then have ids: "set_add (au_eventId (ae_event env)) (map (\<lambda>p. au_eventId (ae_event p)) es)
      = map (\<lambda>p. au_eventId (ae_event p)) es @ [au_eventId (ae_event env)]"
    by (simp only: set_add_def if_False)
  have first: "(case map_option f (at_last (rev es)) of None \<Rightarrow> Some (f env) | Some x \<Rightarrow> Some x)
      = map_option f (at_last (rev (es @ [env])))" for f :: "audit_envelope \<Rightarrow> string"
    by (cases es) (simp_all add: at_last_def split: option.split)
  show ?thesis
    unfolding nextState_def Let_def state_after_def priorByKind_snoc verify_state.simps verify_state.update_convs
      verify_state.select_convs ids assms(1,2)
      first [of "\<lambda>p. au_operationId (ae_event p)"] first [of "\<lambda>p. au_correlationId (ae_event p)"]
    by (simp add: factOf_def)
qed

lemma verifyEnvelope_step:
  assumes log: "audit_log H es"
  shows "v_issues (verifyEnvelope H vrf trust cp (length es) c (state_after H es)) = [] \<longleftrightarrow>
      (\<exists>env. reads H c env \<and> audit_envelope_wf env \<and> admissible H es env \<and> in_scope cp env
        \<and> trusted_envelope vrf trust env)"
    and "reads H c env \<Longrightarrow> admissible H es env \<Longrightarrow> in_scope cp env \<Longrightarrow> trusted_envelope vrf trust env \<Longrightarrow>
      verifyEnvelope H vrf trust cp (length es) c (state_after H es) = state_after H (es @ [env])"
proof -
  let ?st = "state_after H es"
  have st0: "v_issues ?st = []" by (simp add: state_after_def)
  have upd: "v_issues (?st\<lparr>v_issues := x\<rparr>) = x" for x by simp
  have ok: "v_issues (verifyEnvelope H vrf trust cp (length es) c ?st) = []
      \<longleftrightarrow> admissible H es env \<and> in_scope cp env \<and> trusted_envelope vrf trust env"
    "verifyEnvelope H vrf trust cp (length es) c ?st
      = nextState H c env (protectedAuditEventDigestV1 H (ae_event env)) (?st\<lparr>v_issues :=
          v_issues (verifyEnvelope H vrf trust cp (length es) c ?st)\<rparr>)"
    "audit_envelope_wf env" "digest_of H c = protectedAuditEnvelopeDigestV1 H env"
    if r: "reads H c env" for env
  proof -
    obtain e d where shape: "validateEnvelopeShape c"
      and v: "validateProtectedAuditEventV1 H (getf (fields_of c) ''event'') = Inr (e, d)"
      and env: "env = readEnvelope c e"
      using r unfolding reads_def by blast
    note n = validated_envelope [OF shape v, folded env]
    have ev: "ae_event env = e" by (simp add: env)
    have d: "d = protectedAuditEventDigestV1 H (ae_event env)" unfolding ev by (rule validated_event(3) [OF v])
    have eq: "verifyEnvelope H vrf trust cp (length es) c ?st = nextState H c env d (?st\<lparr>v_issues :=
        pushSigned vrf trust (ae_signer env) (signedAtMs env) (obj (without ''signatureBase64'' (fields_of c)))
          (ae_signature env) ''AUDIT_ENVELOPE_SIGNATURE_DENIED''
          (fold set_add (linkIssues cp (length es) ?st env d) [])\<rparr>)"
      using shape v by (simp add: verifyEnvelope_def Let_def env st0)
    show "v_issues (verifyEnvelope H vrf trust cp (length es) c ?st) = []
        \<longleftrightarrow> admissible H es env \<and> in_scope cp env \<and> trusted_envelope vrf trust env"
      unfolding eq d set_verify_issues upd pushSigned_Nil set_add_Nil_iff
        linkIssues_Nil [OF log n(2)] trusted_envelope_def signed_by_norm [OF n(3)] by blast
    show "verifyEnvelope H vrf trust cp (length es) c ?st
      = nextState H c env (protectedAuditEventDigestV1 H (ae_event env)) (?st\<lparr>v_issues :=
          v_issues (verifyEnvelope H vrf trust cp (length es) c ?st)\<rparr>)"
      unfolding eq d set_verify_issues by simp
    show "audit_envelope_wf env" "digest_of H c = protectedAuditEnvelopeDigestV1 H env" by (rule n)+
  qed
  show "v_issues (verifyEnvelope H vrf trust cp (length es) c ?st) = [] \<longleftrightarrow>
      (\<exists>env. reads H c env \<and> audit_envelope_wf env \<and> admissible H es env \<and> in_scope cp env
        \<and> trusted_envelope vrf trust env)"
  proof
    assume none: "v_issues (verifyEnvelope H vrf trust cp (length es) c ?st) = []"
    have "\<exists>env. reads H c env"
    proof (rule ccontr)
      assume "\<nexists>env. reads H c env"
      then consider "\<not> validateEnvelopeShape c"
        | issue where "validateEnvelopeShape c"
            "validateProtectedAuditEventV1 H (getf (fields_of c) ''event'') = Inl issue"
        unfolding reads_def by (cases "validateProtectedAuditEventV1 H (getf (fields_of c) ''event'')") auto
      then show False using none by cases (simp_all add: verifyEnvelope_def)
    qed
    then show "\<exists>env. reads H c env \<and> audit_envelope_wf env \<and> admissible H es env \<and> in_scope cp env
        \<and> trusted_envelope vrf trust env"
      using ok none by blast
  qed (use ok in blast)
  assume r: "reads H c env" and a: "admissible H es env" "in_scope cp env" "trusted_envelope vrf trust env"
  have none: "v_issues (verifyEnvelope H vrf trust cp (length es) c ?st) = []" using ok(1) [OF r] a by blast
  have "?st\<lparr>v_issues := []\<rparr> = ?st" by (simp add: state_after_def)
  then have "verifyEnvelope H vrf trust cp (length es) c ?st
      = nextState H c env (protectedAuditEventDigestV1 H (ae_event env)) ?st"
    using ok(2) [OF r] unfolding none by simp
  also have "\<dots> = state_after H (es @ [env])"
    using a(1) ok(4) [OF r] by (intro state_after_snoc) (simp_all add: admissible_def)
  finally show "verifyEnvelope H vrf trust cp (length es) c ?st = state_after H (es @ [env])" .
qed

text \<open>Any number of values, against the log already read.\<close>

lemma verifyEnvelopes_complete:
  assumes "list_all2 (reads H) cs es'" "audit_log H (es @ es')"
    and "\<forall>env \<in> set es'. in_scope cp env \<and> trusted_envelope vrf trust env"
  shows "verifyEnvelopes H vrf trust cp (length es) cs (state_after H es) = state_after H (es @ es')"
  using assms
proof (induction cs arbitrary: es es')
  case (Cons c cs)
  then obtain env rest where es': "es' = env # rest" and r: "reads H c env" "list_all2 (reads H) cs rest"
    by (auto simp: list_all2_Cons1)
  have log: "audit_log H ((es @ [env]) @ rest)" using Cons.prems(2) es' by simp
  have "audit_log H ((es @ [env]) @ rest) \<Longrightarrow> audit_log H (es @ [env])" for rest
    by (induction rest rule: rev_induct) (simp_all add: audit_log_snoc flip: append_assoc)
  from this [OF log] have l: "audit_log H (es @ [env])" .
  then have "audit_log H es" "admissible H es env" by (simp_all add: audit_log_snoc)
  then have "verifyEnvelope H vrf trust cp (length es) c (state_after H es) = state_after H (es @ [env])"
    using Cons.prems(3) r(1) es' by (intro verifyEnvelope_step(2)) simp_all
  moreover have "verifyEnvelopes H vrf trust cp (length (es @ [env])) cs (state_after H (es @ [env]))
      = state_after H ((es @ [env]) @ rest)"
    using r(2) log Cons.prems(3) es' by (intro Cons.IH) simp_all
  ultimately show ?case by (simp add: es')
qed simp

lemma verifyEnvelopes_sound:
  assumes "audit_log H es" "v_issues (verifyEnvelopes H vrf trust cp (length es) cs (state_after H es)) = []"
  shows "\<exists>es'. list_all2 (reads H) cs es' \<and> audit_log H (es @ es')
    \<and> (\<forall>env \<in> set es'. in_scope cp env \<and> trusted_envelope vrf trust env)"
  using assms
proof (induction cs arbitrary: es)
  case (Cons c cs)
  let ?st = "verifyEnvelope H vrf trust cp (length es) c (state_after H es)"
  have "v_issues ?st = []" using Cons.prems(2) verifyEnvelopes_issues_kept by (metis verifyEnvelopes.simps(2))
  then obtain env where e: "reads H c env" "audit_envelope_wf env" "admissible H es env" "in_scope cp env"
    "trusted_envelope vrf trust env"
    using verifyEnvelope_step(1) [OF Cons.prems(1)] by blast
  have l: "audit_log H (es @ [env])" using Cons.prems(1) e by (simp add: audit_log_snoc)
  have st: "?st = state_after H (es @ [env])" using e by (intro verifyEnvelope_step(2) Cons.prems)
  have "v_issues (verifyEnvelopes H vrf trust cp (length (es @ [env])) cs (state_after H (es @ [env]))) = []"
    using Cons.prems(2) by (simp add: st [symmetric])
  from Cons.IH [OF l this] obtain es' where r: "list_all2 (reads H) cs es'" "audit_log H ((es @ [env]) @ es')"
    "\<forall>env \<in> set es'. in_scope cp env \<and> trusted_envelope vrf trust env" by blast
  then have "list_all2 (reads H) (c # cs) (env # es')" "audit_log H (es @ env # es')"
    "\<forall>e \<in> set (env # es'). in_scope cp e \<and> trusted_envelope vrf trust e"
    using e by simp_all
  then show ?case by blast
qed simp

subsection \<open>What the verifier accepts\<close>

definition trusted_checkpoint :: "verify_fn \<Rightarrow> trust_policy \<Rightarrow> checkpoint \<Rightarrow> bool" where
  "trusted_checkpoint vrf trust cp \<longleftrightarrow> cp_timelineId cp = tp_timelineId trust \<and> cp_tenant cp = tp_tenant trust
     \<and> signed_by vrf trust (cp_signer cp) (issuedAtMs cp) (obj (checkpoint_core cp)) (cp_signature cp)"

definition sealed_by :: "hash \<Rightarrow> checkpoint \<Rightarrow> audit_envelope list \<Rightarrow> bool" where
  "sealed_by H cp es \<longleftrightarrow> eventCount cp = int (length es)
     \<and> (\<exists>p. at_last es = Some p \<and> headEnvelopeDigest cp = protectedAuditEnvelopeDigestV1 H p
          \<and> signedAtMs p \<le> issuedAtMs cp)"

definition verified_timeline :: "hash \<Rightarrow> verify_fn \<Rightarrow> trust_policy \<Rightarrow> checkpoint \<Rightarrow> audit_envelope list \<Rightarrow> bool" where
  "verified_timeline H vrf trust cp es \<longleftrightarrow> audit_log H es \<and> trusted_checkpoint vrf trust cp \<and> sealed_by H cp es
     \<and> (\<forall>env \<in> set es. in_scope cp env \<and> trusted_envelope vrf trust env)"

definition facts_of :: "audit_envelope list \<Rightarrow> verified_fact list" where
  "facts_of es = map (\<lambda>p. factOf (ae_event p) (ae_eventDigest p)) es"

lemma checkpointIssues_Nil:
  assumes "validateCheckpointShape v"
  shows "checkpointIssues vrf trust v n = []
    \<longleftrightarrow> trusted_checkpoint vrf trust (readCheckpoint v) \<and> eventCount (readCheckpoint v) = int n"
  unfolding checkpointIssues_def Let_def trusted_checkpoint_def
    signed_by_norm [OF validated_checkpoint(3) [OF assms], symmetric]
  by (auto simp: pushSigned_Nil)

lemma list_all2_reads_length: "list_all2 (reads H) vs es \<Longrightarrow> length es = length vs"
  by (simp add: list_all2_lengthD)

theorem verify_iff:
  "verifyProtectedAuditTimelineV1 H vrf vs cv trust = VERIFIED tid tn d fs \<longleftrightarrow>
     validateCheckpointShape cv
     \<and> (\<exists>es. list_all2 (reads H) vs es \<and> verified_timeline H vrf trust (readCheckpoint cv) es
          \<and> tid = cp_timelineId (readCheckpoint cv) \<and> tn = cp_tenant (readCheckpoint cv)
          \<and> d = protectedAuditCheckpointDigestV1 H (readCheckpoint cv) \<and> fs = facts_of es)"
proof (cases "validateCheckpointShape cv")
  case True
  let ?cp = "readCheckpoint cv"
  let ?st = "verifyEnvelopes H vrf trust ?cp 0 vs (initial_state (checkpointIssues vrf trust cv (length vs)))"
  have eq: "verifyProtectedAuditTimelineV1 H vrf vs cv trust = VERIFIED tid tn d fs \<longleftrightarrow>
      v_issues ?st = [] \<and> v_priorEnvelopeDigest ?st = Some (headEnvelopeDigest ?cp)
      \<and> v_priorSignedAt ?st \<le> issuedAtMs ?cp \<and> tid = cp_timelineId ?cp \<and> tn = cp_tenant ?cp
      \<and> d = protectedAuditCheckpointDigestV1 H ?cp \<and> fs = v_facts ?st"
    unfolding verifyProtectedAuditTimelineV1_def Let_def validated_checkpoint(4) [OF True]
    by (auto simp: True not_less)
  have facts: "v_facts (state_after H es) = facts_of es" for es by (simp add: state_after_def facts_of_def)
  show ?thesis
  proof
    assume v: "verifyProtectedAuditTimelineV1 H vrf vs cv trust = VERIFIED tid tn d fs"
    then have n: "v_issues ?st = []" by (simp only: eq)
    then have c: "checkpointIssues vrf trust cv (length vs) = []"
      using verifyEnvelopes_issues_kept [of "initial_state (checkpointIssues vrf trust cv (length vs))"
        H vrf trust ?cp 0 vs] by (auto simp: initial_state_def)
    have st: "?st = verifyEnvelopes H vrf trust ?cp (length ([] :: audit_envelope list)) vs (state_after H [])"
      by (simp add: c state_after_Nil)
    have n': "v_issues (verifyEnvelopes H vrf trust ?cp (length ([] :: audit_envelope list)) vs (state_after H [])) = []"
      using n by (simp only: st)
    obtain es where es: "list_all2 (reads H) vs es" "audit_log H es"
      "\<forall>env \<in> set es. in_scope ?cp env \<and> trusted_envelope vrf trust env"
      using verifyEnvelopes_sound [OF empty_log n'] by auto
    have fin: "?st = state_after H es"
      using verifyEnvelopes_complete [of H vs es "[]"] es unfolding st by simp
    have "sealed_by H ?cp es"
      using v [unfolded eq] c [unfolded checkpointIssues_Nil [OF True]] list_all2_reads_length [OF es(1)]
      unfolding sealed_by_def fin by (cases "at_last es") (simp_all add: state_after_def)
    moreover have "trusted_checkpoint vrf trust ?cp" using c checkpointIssues_Nil [OF True] by blast
    ultimately have "verified_timeline H vrf trust ?cp es" using es by (simp add: verified_timeline_def)
    with True v [unfolded eq fin facts] es(1)
    show "validateCheckpointShape cv \<and> (\<exists>es. list_all2 (reads H) vs es
        \<and> verified_timeline H vrf trust ?cp es \<and> tid = cp_timelineId ?cp \<and> tn = cp_tenant ?cp
        \<and> d = protectedAuditCheckpointDigestV1 H ?cp \<and> fs = facts_of es)" by blast
  next
    assume "validateCheckpointShape cv \<and> (\<exists>es. list_all2 (reads H) vs es
        \<and> verified_timeline H vrf trust ?cp es \<and> tid = cp_timelineId ?cp \<and> tn = cp_tenant ?cp
        \<and> d = protectedAuditCheckpointDigestV1 H ?cp \<and> fs = facts_of es)"
    then obtain es where r: "list_all2 (reads H) vs es" and t: "verified_timeline H vrf trust ?cp es"
      and o: "tid = cp_timelineId ?cp" "tn = cp_tenant ?cp" "d = protectedAuditCheckpointDigestV1 H ?cp"
        "fs = facts_of es" by blast
    note t = t [unfolded verified_timeline_def]
    have "checkpointIssues vrf trust cv (length vs) = []"
      using t list_all2_reads_length [OF r] unfolding checkpointIssues_Nil [OF True] sealed_by_def by simp
    then have "?st = verifyEnvelopes H vrf trust ?cp (length ([] :: audit_envelope list)) vs (state_after H [])"
      by (simp add: state_after_Nil)
    also have "\<dots> = state_after H es"
      using verifyEnvelopes_complete [of H vs es "[]"] t r by simp
    finally have fin: "?st = state_after H es" .
    show "verifyProtectedAuditTimelineV1 H vrf vs cv trust = VERIFIED tid tn d fs"
      unfolding eq fin facts using t o by (auto simp: sealed_by_def state_after_def)
  qed
next
  case False
  then show ?thesis by (simp add: verifyProtectedAuditTimelineV1_def)
qed

end
