(* ===== verification/AuditWriter.thy ===== *)
theory AuditWriter
  imports AuditLog
begin

text \<open>
  The writer of protected timelines against the abstract log: the writers that can be reached, their
  invariant, and \<open>append\<close> as one step of the log (\<open>append_cases\<close>, \<open>append_refuses\<close>).
\<close>

subsection \<open>Reachable writers\<close>

text \<open>
  What the theory uses of \<open>node:crypto\<close>: digests are 64 hexadecimal digits, and a signature is the
  canonical base64 text of some bytes.
\<close>

definition crypto_ok :: "hash \<Rightarrow> sign_fn \<Rightarrow> bool" where
  "crypto_ok H sig_of \<longleftrightarrow> (\<forall>t. hex64 (H t))
     \<and> (\<forall>k t s. sig_of k t = Inr s \<longrightarrow> s \<noteq> [] \<and> canonical_base64 s)"

inductive written :: "hash \<Rightarrow> sign_fn \<Rightarrow> audit_writer \<Rightarrow> bool" for H sig_of where
  created: "newWriter timelineId tenant signer = Inr w \<Longrightarrow> written H sig_of w"
| appended: "written H sig_of w \<Longrightarrow> append_event H sig_of w v t = Inr (r, env, w') \<Longrightarrow> written H sig_of w'"

definition usable :: "audit_signer \<Rightarrow> int \<Rightarrow> bool" where
  "usable s t \<longleftrightarrow> as_algorithm s = ''Ed25519'' \<and> audit_id (as_keyId s) \<and> count_ok (as_generation s)
     \<and> time_ok t \<and> as_validFromMs s \<le> t \<and> t < as_validUntilMs s"

lemma assertSignerUsable_iff: "assertSignerUsable s t = Inr u \<longleftrightarrow> usable s t"
  unfolding assertSignerUsable_def usable_def validCount_iff validId_iff validTime_iff
  by (auto simp del: is_safe_integer.simps)

definition signed_with :: "sign_fn \<Rightarrow> audit_signer \<Rightarrow> audit_envelope \<Rightarrow> bool" where
  "signed_with sig_of s env \<longleftrightarrow> ae_signer env = signerReference s \<and> usable s (signedAtMs env)
     \<and> sig_of (privateKeyPem s) (canonText (obj (envelope_core env))) = Inr (ae_signature env)"

definition of_writer :: "audit_writer \<Rightarrow> audit_event \<Rightarrow> bool" where
  "of_writer w e \<longleftrightarrow> au_timelineId e = w_timelineId w \<and> au_tenant e = w_tenant w"

definition writer_ok :: "hash \<Rightarrow> sign_fn \<Rightarrow> audit_writer \<Rightarrow> bool" where
  "writer_ok H sig_of w \<longleftrightarrow> audit_log H (w_envelopes w)
     \<and> (\<forall>env \<in> set (w_envelopes w). of_writer w (ae_event env) \<and> signed_with sig_of (w_signer w) env)
     \<and> (\<forall>i d env. w_eventsById w i = Some (d, env) \<longleftrightarrow>
          env \<in> set (w_envelopes w) \<and> au_eventId (ae_event env) = i \<and> ae_eventDigest env = d)
     \<and> audit_id (w_timelineId w) \<and> audit_id (w_tenant w)"

subsection \<open>Signatures in base64\<close>

lemma base64_class:
  "base64_value c \<noteq> None \<Longrightarrow> in_class ([A_Z, a_z, d0_9] @ chars ''+/'') c"
proof -
  assume "base64_value c \<noteq> None"
  define n where "n = (of_char c :: nat)"
  with \<open>base64_value c \<noteq> None\<close> have "65 \<le> n \<and> n \<le> 90 \<or> 97 \<le> n \<and> n \<le> 122 \<or> 48 \<le> n \<and> n \<le> 57
      \<or> n = 43 \<or> n = 47"
    by (auto simp: base64_value_def Let_def split: if_splits)
  then show ?thesis unfolding n_def
    by (elim disjE) (simp_all add: in_class_def A_Z_def a_z_def d0_9_def chars_def less_eq_char_def)
qed

lemma canonical_base64_parts:
  assumes "canonical_base64 s" "s \<noteq> []"
  shows "\<exists>u v. s = u @ v \<and> u \<noteq> [] \<and> list_all (in_class ([A_Z, a_z, d0_9] @ chars ''+/'')) u
    \<and> v \<in> {[], ''='', ''==''}"
  using assms
proof (induction s rule: canonical_base64.induct)
  case (2 a b c d)
  note ab = base64_class [of a] base64_class [of b]
  consider (two) "c = CHR ''=''" "d = CHR ''=''" | (one) "c \<noteq> CHR ''=''" "d = CHR ''=''"
    | (none) "d \<noteq> CHR ''=''" by blast
  then show ?case
  proof cases
    case two
    then show ?thesis using 2 ab by (intro exI [of _ "[a, b]"] exI [of _ "''==''"]) simp
  next
    case one
    then show ?thesis using 2 ab base64_class [of c]
      by (intro exI [of _ "[a, b, c]"] exI [of _ "''=''"]) simp
  next
    case none
    then show ?thesis using 2 ab base64_class [of c] base64_class [of d]
      by (intro exI [of _ "[a, b, c, d]"] exI [of _ "[]"]) (simp split: if_splits)
  qed
next
  case (3 a b c d x s)
  then obtain u v where uv: "x # s = u @ v" "u \<noteq> []"
    "list_all (in_class ([A_Z, a_z, d0_9] @ chars ''+/'')) u" "v \<in> {[], ''='', ''==''}"
    by auto
  have "list_all (in_class ([A_Z, a_z, d0_9] @ chars ''+/'')) [a, b, c, d]"
    using 3 base64_class by simp
  then have "a # b # c # d # x # s = ([a, b, c, d] @ u) @ v"
    "list_all (in_class ([A_Z, a_z, d0_9] @ chars ''+/'')) ([a, b, c, d] @ u)" using uv by simp_all
  with uv(4) show ?case by blast
qed simp_all

lemma canonical_base64_rx:
  assumes "canonical_base64 s" "s \<noteq> []"
  shows "rx_test BASE64 s"
proof -
  obtain u v where uv: "s = u @ v" "u \<noteq> []" "list_all (in_class ([A_Z, a_z, d0_9] @ chars ''+/'')) u"
    and v: "v \<in> {[], ''='', ''==''}"
    using canonical_base64_parts [OF assms] by blast
  have "rx_test (Rep (Cls ([A_Z, a_z, d0_9] @ chars ''+/'')) 1 None) u"
    using uv(2,3) by (simp add: rx_test_class_rep Suc_le_eq)
  moreover have "rx_test (Rep (one (CHR ''='')) 0 (Some 2)) v"
    using v unfolding one_def rx_test_class_rep by (auto simp: in_class_def)
  ultimately show ?thesis unfolding BASE64_def rx_test_lang rx_lang.simps uv(1) by blast
qed

subsection \<open>One append\<close>

text \<open>The envelope \<open>append\<close> would sign, before its signature.\<close>

definition draft :: "hash \<Rightarrow> audit_writer \<Rightarrow> audit_event \<Rightarrow> int \<Rightarrow> audit_envelope" where
  "draft H w e t =
     \<lparr>ae_event = e, ae_eventDigest = protectedAuditEventDigestV1 H e,
      ae_previous = map_option (protectedAuditEnvelopeDigestV1 H) (at_last (w_envelopes w)),
      signedAtMs = t, ae_signer = signerReference (w_signer w), ae_signature = []\<rparr>"

lemma draft_simps [simp]:
  "ae_event (draft H w e t) = e" "signedAtMs (draft H w e t) = t"
  "ae_eventDigest (draft H w e t) = protectedAuditEventDigestV1 H e"
  "ae_previous (draft H w e t) = map_option (protectedAuditEnvelopeDigestV1 H) (at_last (w_envelopes w))"
  "ae_signer (draft H w e t) = signerReference (w_signer w)"
  by (simp_all add: draft_def)

lemma envelope_core_signature [simp]: "envelope_core (env\<lparr>ae_signature := s\<rparr>) = envelope_core env"
  by (simp add: envelope_core_def)

lemma admissible_signature [simp]: "admissible H es (env\<lparr>ae_signature := s\<rparr>) = admissible H es env"
  by (simp add: admissible_def follows_def)

lemma appendGuard_None:
  assumes log: "audit_log H (w_envelopes w)"
    and fresh: "\<forall>p \<in> set (w_envelopes w). au_eventId (ae_event p) \<noteq> au_eventId e"
  shows "appendGuard w e t = None \<and> observedAtMs e \<le> t
    \<longleftrightarrow> of_writer w e \<and> admissible H (w_envelopes w) (draft H w e t)"
proof -
  let ?es = "w_envelopes w"
  have c: "(case xs of x # _ \<Rightarrow> Some x | [] \<Rightarrow> r) = None \<longleftrightarrow> xs = [] \<and> r = None" for xs :: "string list" and r
    by (cases xs) simp_all
  have k: "priorByKind ?es (au_kind e) \<noteq> None \<longleftrightarrow> \<not> (\<forall>p \<in> set ?es. au_kind (ae_event p) \<noteq> au_kind e)"
    unfolding priorByKind_None by blast
  have i: "(if b then Some x else r) = None \<longleftrightarrow> \<not> b \<and> r = None" for b and x :: string and r
    by simp
  have last: "(case at_last ?es of None \<Rightarrow> None | Some p \<Rightarrow> f p) = None \<longleftrightarrow> (\<forall>p. at_last ?es = Some p \<longrightarrow> f p = None)"
    for f :: "audit_envelope \<Rightarrow> string option"
    by (cases "at_last ?es") simp_all
  show ?thesis
    unfolding appendGuard_def i c k last causalIssues_Nil [OF log] admissible_def of_writer_def follows_def
      draft_simps not_not not_less not_le de_Morgan_disj de_Morgan_conj
    using fresh by (auto simp: not_le eq_commute)
qed

lemma create_envelope:
  assumes "validateProtectedAuditEventV1 H v = Inr (e, d)" "\<forall>t. hex64 (H t)"
  shows "createProtectedAuditEnvelopeV1 H sig_of v
      (map_option (protectedAuditEnvelopeDigestV1 H) (at_last (w_envelopes w))) (w_signer w) t
    = (if \<not> usable (w_signer w) t then Inl ''AUDIT_SIGNER_WINDOW_DENIED''
       else if t < observedAtMs e then Inl ''AUDIT_SIGNED_BEFORE_OBSERVATION_DENIED''
       else res_bind (sig_of (privateKeyPem (w_signer w)) (canonText (obj (envelope_core (draft H w e t)))))
         (\<lambda>s. Inr (draft H w e t\<lparr>ae_signature := s\<rparr>)))"
proof -
  let ?p = "map_option (protectedAuditEnvelopeDigestV1 H) (at_last (w_envelopes w))"
  have p: "\<not> (?p \<noteq> None \<and> \<not> validDigest (JStr (the ?p)))"
    using assms(2) by (cases "at_last (w_envelopes w)")
      (simp_all add: protectedAuditEnvelopeDigestV1_def digest_of_def)
  have d: "\<lparr>ae_event = e, ae_eventDigest = d, ae_previous = ?p, signedAtMs = t,
      ae_signer = signerReference (w_signer w), ae_signature = []\<rparr> = draft H w e t"
    using validated_event(3) [OF assms(1)] by (simp add: draft_def)
  have u: "assertSignerUsable (w_signer w) t
      = (if usable (w_signer w) t then Inr () else Inl ''AUDIT_SIGNER_WINDOW_DENIED'')"
    using assertSignerUsable_iff [of "w_signer w" t] by (auto simp: assertSignerUsable_def)
  show ?thesis
    unfolding createProtectedAuditEnvelopeV1_def assms(1) res_bind_simps prod.case if_not_P [OF p] Let_def d u
    by simp
qed

lemma fresh_id:
  assumes "writer_ok H sig_of w"
  shows "w_eventsById w i = None \<longleftrightarrow> (\<forall>p \<in> set (w_envelopes w). au_eventId (ae_event p) \<noteq> i)"
  using assms unfolding writer_ok_def by (metis not_None_eq prod.exhaust)

lemma append_cases:
  assumes ok: "writer_ok H sig_of w" and hex: "\<forall>t. hex64 (H t)"
    and r: "append_event H sig_of w v t = Inr (r, env, w')"
  obtains (same) e where "validateProtectedAuditEventV1 H v = Inr (e, ae_eventDigest env)" "r = SAME_ENVELOPE"
      "w' = w" "env \<in> set (w_envelopes w)" "au_eventId (ae_event env) = au_eventId e"
  | (first) e d s where "validateProtectedAuditEventV1 H v = Inr (e, d)" "r = FIRST"
      "env = draft H w e t\<lparr>ae_signature := s\<rparr>"
      "\<forall>p \<in> set (w_envelopes w). au_eventId (ae_event p) \<noteq> au_eventId e"
      "of_writer w e" "admissible H (w_envelopes w) env" "usable (w_signer w) t"
      "sig_of (privateKeyPem (w_signer w)) (canonText (obj (envelope_core env))) = Inr s"
      "w' = w\<lparr>w_envelopes := w_envelopes w @ [env],
         w_eventsById := (w_eventsById w)(au_eventId e \<mapsto> (d, env))\<rparr>"
proof -
  obtain e d where v: "validateProtectedAuditEventV1 H v = Inr (e, d)"
    using r unfolding append_event_def res_bind_Inr_iff by auto
  note r = r [unfolded append_event_def v res_bind_simps prod.case]
  show thesis
  proof (cases "w_eventsById w (au_eventId e)")
    case (Some x)
    obtain d' p where x: "x = (d', p)" by (cases x)
    have p: "p \<in> set (w_envelopes w)" "au_eventId (ae_event p) = au_eventId e" "ae_eventDigest p = d'"
      using ok Some x unfolding writer_ok_def by blast+
    have "d' = d \<and> r = SAME_ENVELOPE \<and> env = p \<and> w' = w"
      using r unfolding Some x option.case prod.case by (simp split: if_splits)
    with same v p show thesis by blast
  next
    case None
    then have fresh: "\<forall>p \<in> set (w_envelopes w). au_eventId (ae_event p) \<noteq> au_eventId e"
      using fresh_id [OF ok] by blast
    have g: "appendGuard w e t = None"
      using r unfolding None option.case by (cases "appendGuard w e t") simp_all
    from r [unfolded None option.case g create_envelope [OF v hex]]
    obtain s where u: "usable (w_signer w) t" "observedAtMs e \<le> t"
      and s: "sig_of (privateKeyPem (w_signer w)) (canonText (obj (envelope_core (draft H w e t)))) = Inr s"
      and o: "env = draft H w e t\<lparr>ae_signature := s\<rparr>" "r = FIRST"
        "w' = w\<lparr>w_envelopes := w_envelopes w @ [env], w_eventsById := (w_eventsById w)(au_eventId e \<mapsto> (d, env))\<rparr>"
      unfolding res_bind_Inr_iff by (auto simp: res_simps not_less split: if_splits)
    have "audit_log H (w_envelopes w)" using ok by (simp add: writer_ok_def)
    then have "of_writer w e \<and> admissible H (w_envelopes w) (draft H w e t)"
      using appendGuard_None [OF _ fresh] g u(2) by blast
    then show thesis
      using first [OF v o(2,1) fresh _ _ u(1) _ o(3)] s unfolding o(1) envelope_core_signature admissible_signature
      by blast
  qed
qed

lemma append_refuses:
  assumes ok: "writer_ok H sig_of w" and hex: "\<forall>t. hex64 (H t)"
    and v: "validateProtectedAuditEventV1 H v = Inr (e, d)"
    and r: "append_event H sig_of w v t = Inl err"
  shows "(\<exists>p \<in> set (w_envelopes w). au_eventId (ae_event p) = au_eventId e \<and> ae_eventDigest p \<noteq> d)
    \<or> \<not> (of_writer w e \<and> admissible H (w_envelopes w) (draft H w e t) \<and> usable (w_signer w) t)
    \<or> (\<exists>x. sig_of (privateKeyPem (w_signer w)) (canonText (obj (envelope_core (draft H w e t)))) = Inl x)"
proof -
  note r = r [unfolded append_event_def v res_bind_simps prod.case]
  show ?thesis
  proof (cases "w_eventsById w (au_eventId e)")
    case (Some x)
    obtain d' p where x: "x = (d', p)" by (cases x)
    have "p \<in> set (w_envelopes w)" "au_eventId (ae_event p) = au_eventId e" "ae_eventDigest p = d'"
      using ok Some x unfolding writer_ok_def by blast+
    moreover have "d' \<noteq> d" using r unfolding Some x option.case prod.case by (simp split: if_splits)
    ultimately show ?thesis by blast
  next
    case None
    then have fresh: "\<forall>p \<in> set (w_envelopes w). au_eventId (ae_event p) \<noteq> au_eventId e"
      using fresh_id [OF ok] by blast
    have log: "audit_log H (w_envelopes w)" using ok by (simp add: writer_ok_def)
    show ?thesis
    proof (cases "appendGuard w e t")
      case (Some issue)
      then have "\<not> (of_writer w e \<and> admissible H (w_envelopes w) (draft H w e t))"
        using appendGuard_None [OF log fresh, of t] by simp
      then show ?thesis by blast
    next
      case g: None
      show ?thesis
      proof (rule ccontr)
        assume n: "\<not> ?thesis"
        then obtain s where u: "usable (w_signer w) t" and a: "admissible H (w_envelopes w) (draft H w e t)"
          and s: "sig_of (privateKeyPem (w_signer w)) (canonText (obj (envelope_core (draft H w e t)))) = Inr s"
          by (metis sumE)
        have "\<not> t < observedAtMs e" using a by (simp add: admissible_def)
        then show False
          using r [unfolded None option.case g create_envelope [OF v hex]] u s by simp
      qed
    qed
  qed
qed

subsection \<open>The invariant of the writer\<close>

lemma draft_wf:
  assumes "crypto_ok H sig_of" "validateProtectedAuditEventV1 H v = Inr (e, d)" "usable (w_signer w) t"
    and "sig_of k text = Inr s"
  shows "audit_envelope_wf (draft H w e t\<lparr>ae_signature := s\<rparr>)"
proof -
  have hex: "hex64 (H x)" for x using assms(1) by (simp add: crypto_ok_def)
  have "rx_test BASE64 s" using assms(1,4) canonical_base64_rx unfolding crypto_ok_def by blast
  then show ?thesis
    using validated_event(2) [OF assms(2)] assms(3) hex
    by (auto simp: audit_envelope_wf_def signer_ref_wf_def signerReference_def usable_def digest_of_def
        protectedAuditEventDigestV1_def protectedAuditEnvelopeDigestV1_def)
qed

lemma newWriter_ok: "newWriter tid tenant signer = Inr w \<Longrightarrow> writer_ok H sig_of w"
  by (auto simp: newWriter_def writer_ok_def empty_log split: if_splits)

lemma append_ok:
  assumes c: "crypto_ok H sig_of" and ok: "writer_ok H sig_of w"
    and r: "append_event H sig_of w v t = Inr (r, env, w')"
  shows "writer_ok H sig_of w'"
proof -
  have hex: "\<forall>t. hex64 (H t)" using c by (simp add: crypto_ok_def)
  show ?thesis
    using ok hex r
  proof (cases rule: append_cases)
    case (same e)
    then show ?thesis using ok by simp
  next
    case (first e d s)
    have wf: "audit_envelope_wf env" unfolding first(3) by (rule draft_wf [OF c first(1) first(7) first(8)])
    have d: "ae_eventDigest env = d" "ae_event env = e" "signedAtMs env = t" "ae_signature env = s"
      "ae_signer env = signerReference (w_signer w)"
      using validated_event(3) [OF first(1)] by (simp_all add: first(3))
    have es: "w_envelopes w' = w_envelopes w @ [env]" "w_signer w' = w_signer w"
      "w_timelineId w' = w_timelineId w" "w_tenant w' = w_tenant w"
      "w_eventsById w' = (w_eventsById w)(au_eventId e \<mapsto> (d, env))"
      by (simp_all add: first(9))
    note ok = ok [unfolded writer_ok_def]
    have log: "audit_log H (w_envelopes w')"
      unfolding es using ok wf first(6) by (intro extend_log) blast+
    have signed: "signed_with sig_of (w_signer w) env"
      using first(7,8) d by (simp add: signed_with_def)
    have "of_writer w' (ae_event p) \<and> signed_with sig_of (w_signer w') p" if "p \<in> set (w_envelopes w')" for p
      using that ok signed first(5) d(2) unfolding es of_writer_def by auto
    moreover have "w_eventsById w' i = Some (x, p) \<longleftrightarrow>
        p \<in> set (w_envelopes w') \<and> au_eventId (ae_event p) = i \<and> ae_eventDigest p = x" for i x p
      using ok first(4) d(1,2) unfolding es by auto
    ultimately show ?thesis unfolding writer_ok_def using log ok es by simp
  qed
qed

lemma written_ok: "written H sig_of w \<Longrightarrow> crypto_ok H sig_of \<Longrightarrow> writer_ok H sig_of w"
  by (induction rule: written.induct) (auto intro: newWriter_ok append_ok)

subsection \<open>What a writer produces is verified\<close>

definition key_pair :: "sign_fn \<Rightarrow> verify_fn \<Rightarrow> audit_signer \<Rightarrow> bool" where
  "key_pair sig_of vrf s \<longleftrightarrow> (\<forall>text sig. sig_of (privateKeyPem s) text = Inr sig \<longrightarrow> vrf (publicKeyPem s) text sig)"

definition trusts :: "trust_policy \<Rightarrow> audit_signer \<Rightarrow> bool" where
  "trusts trust s \<longleftrightarrow> minimumGeneration trust \<le> as_generation s
     \<and> (\<exists>key. List.find (\<lambda>k. tk_keyId k = as_keyId s \<and> tk_generation k = as_generation s) (trust_keys trust) = Some key
         \<and> tk_active key \<and> tk_algorithm key = ''Ed25519'' \<and> tk_publicKeyPem key = publicKeyPem s
         \<and> tk_validFromMs key \<le> as_validFromMs s \<and> as_validUntilMs s \<le> tk_validUntilMs key)"

lemma signer_trust_trusts: "g \<le> as_generation s \<Longrightarrow> trusts (signer_trust s tenant tid g) s"
  by (simp add: trusts_def signer_trust_def)

lemma signed_with_trusted:
  assumes "crypto_ok H sig_of" "key_pair sig_of vrf s" "trusts trust s" "usable s t"
    and "sig_of (privateKeyPem s) (canonText core) = Inr sig" "plain core"
  shows "signed_by vrf trust (signerReference s) t core sig"
proof -
  obtain key where k: "List.find (\<lambda>k. tk_keyId k = as_keyId s \<and> tk_generation k = as_generation s) (trust_keys trust) = Some key"
      "tk_active key" "tk_algorithm key = ''Ed25519''" "tk_publicKeyPem key = publicKeyPem s"
      "tk_validFromMs key \<le> as_validFromMs s" "as_validUntilMs s \<le> tk_validUntilMs key"
    and g: "minimumGeneration trust \<le> as_generation s"
    using assms(3) unfolding trusts_def by blast
  have "keyFor trust (signerReference s) t = Inr key"
    using k g assms(4) by (simp add: keyFor_def signerReference_def usable_def)
  moreover have "verifySignature vrf core sig (tk_publicKeyPem key)"
    using assms(1,2,5) unfolding verifySignature_def canonText_plain [OF assms(6)] k(4) crypto_ok_def key_pair_def
    by simp
  ultimately show ?thesis unfolding signed_by_def by blast
qed

lemma createCheckpoint_Inr:
  assumes "createCheckpoint H sig_of es s t = Inr cp"
  shows "es \<noteq> []" "usable s t" "signedAtMs (last es) \<le> t" "cp_timelineId cp = au_timelineId (ae_event (hd es))"
    "cp_tenant cp = au_tenant (ae_event (hd es))" "eventCount cp = int (length es)"
    "headEnvelopeDigest cp = protectedAuditEnvelopeDigestV1 H (last es)" "issuedAtMs cp = t"
    "cp_signer cp = signerReference s"
    "sig_of (privateKeyPem s) (canonText (obj (checkpoint_core cp))) = Inr (cp_signature cp)"
proof -
  have c: "checkpoint_core (c\<lparr>cp_signature := x\<rparr>) = checkpoint_core c" for c :: checkpoint and x
    by (simp add: checkpoint_core_def)
  note a = assms [unfolded createCheckpoint_def at_last_def]
  show ne: "es \<noteq> []" using a by auto
  obtain sig where "usable s t" "signedAtMs (last es) \<le> t"
    and cp: "cp = \<lparr>cp_timelineId = au_timelineId (ae_event (hd es)), cp_tenant = au_tenant (ae_event (hd es)),
        eventCount = int (length es), headEnvelopeDigest = protectedAuditEnvelopeDigestV1 H (last es),
        issuedAtMs = t, cp_signer = signerReference s, cp_signature = []\<rparr>\<lparr>cp_signature := sig\<rparr>"
    and sig: "sig_of (privateKeyPem s) (canonText (obj (checkpoint_core
        \<lparr>cp_timelineId = au_timelineId (ae_event (hd es)), cp_tenant = au_tenant (ae_event (hd es)),
        eventCount = int (length es), headEnvelopeDigest = protectedAuditEnvelopeDigestV1 H (last es),
        issuedAtMs = t, cp_signer = signerReference s, cp_signature = []\<rparr>))) = Inr sig"
    using a ne unfolding if_not_P [OF ne] option.case Let_def res_bind_Inr_iff res_if_Inr_iff not_less
      assertSignerUsable_iff by blast
  then show "usable s t" "signedAtMs (last es) \<le> t" by blast+
  show "cp_timelineId cp = au_timelineId (ae_event (hd es))" "cp_tenant cp = au_tenant (ae_event (hd es))"
    "eventCount cp = int (length es)" "headEnvelopeDigest cp = protectedAuditEnvelopeDigestV1 H (last es)"
    "issuedAtMs cp = t" "cp_signer cp = signerReference s"
    unfolding cp by simp_all
  show "sig_of (privateKeyPem s) (canonText (obj (checkpoint_core cp))) = Inr (cp_signature cp)"
    unfolding cp c using sig by simp
qed

lemma at_last_hd: "es \<noteq> [] \<Longrightarrow> hd es \<in> set es \<and> last es \<in> set es \<and> at_last es = Some (last es)"
  by (simp add: at_last_def)

lemma reads_envelope_js:
  assumes "audit_envelope_wf e"
  shows "reads H (audit_envelope_js e) e"
  using assms envelope_js_shape [OF assms] validate_event_js [of "ae_event e" H]
  unfolding reads_def getf_envelope audit_envelope_wf_def by metis

lemma checkpoint_of_wf:
  assumes c: "crypto_ok H sig_of" and ok: "writer_ok H sig_of w"
    and cp: "createCheckpoint H sig_of (w_envelopes w) (w_signer w) t = Inr cp"
  shows "checkpoint_wf cp"
proof -
  note d = createCheckpoint_Inr [OF cp]
  let ?es = "w_envelopes w"
  have log: "audit_log H ?es" and scope: "\<forall>env \<in> set ?es. of_writer w (ae_event env)"
    and ids: "audit_id (w_timelineId w)" "audit_id (w_tenant w)"
    using ok unfolding writer_ok_def by blast+
  have last: "int (length ?es) = au_sequence (ae_event (last ?es))"
    using audit_log_sequence [OF log, of "length ?es - 1"] d(1) by (simp add: last_conv_nth Suc_le_eq)
  have wf: "event_wf (ae_event (last ?es))"
    using audit_log_envelope(1) [OF log] at_last_hd [OF d(1)] by (simp add: audit_envelope_wf_def)
  have "count_ok (eventCount cp)" unfolding d(6) last using wf by (simp add: event_wf_def)
  moreover have "rx_test BASE64 (cp_signature cp)"
    using c d(10) canonical_base64_rx unfolding crypto_ok_def by blast
  moreover have "of_writer w (ae_event (hd ?es))" using scope at_last_hd [OF d(1)] by blast
  moreover have "hex64 (headEnvelopeDigest cp)"
    using c by (simp add: d(7) protectedAuditEnvelopeDigestV1_def digest_of_def crypto_ok_def)
  ultimately show ?thesis
    using ids d(2) unfolding checkpoint_wf_def d(4,5,8,9)
    by (simp add: of_writer_def usable_def signer_ref_wf_def signerReference_def)
qed

lemma written_timeline:
  assumes c: "crypto_ok H sig_of" and ok: "writer_ok H sig_of w"
    and k: "key_pair sig_of vrf (w_signer w)" and trust: "trusts trust (w_signer w)"
    and scope: "tp_timelineId trust = w_timelineId w" "tp_tenant trust = w_tenant w"
    and cp: "createCheckpoint H sig_of (w_envelopes w) (w_signer w) t = Inr cp"
  shows "verified_timeline H vrf trust cp (w_envelopes w)"
    "cp_timelineId cp = w_timelineId w" "cp_tenant cp = w_tenant w"
proof -
  note d = createCheckpoint_Inr [OF cp]
  let ?es = "w_envelopes w"
  have log: "audit_log H ?es" and all: "\<forall>env \<in> set ?es. of_writer w (ae_event env) \<and> signed_with sig_of (w_signer w) env"
    using ok unfolding writer_ok_def by blast+
  have h: "of_writer w (ae_event (hd ?es))" using all at_last_hd [OF d(1)] by blast
  show ids: "cp_timelineId cp = w_timelineId w" "cp_tenant cp = w_tenant w"
    using h unfolding d(4,5) of_writer_def by blast+
  have "in_scope cp env \<and> trusted_envelope vrf trust env" if "env \<in> set ?es" for env
  proof
    show "in_scope cp env" using all that ids unfolding in_scope_def of_writer_def by simp
    have s: "ae_signer env = signerReference (w_signer w)" "usable (w_signer w) (signedAtMs env)"
      "sig_of (privateKeyPem (w_signer w)) (canonText (obj (envelope_core env))) = Inr (ae_signature env)"
      using all that unfolding signed_with_def by blast+
    show "trusted_envelope vrf trust env"
      unfolding trusted_envelope_def s(1) by (rule signed_with_trusted [OF c k trust s(2,3)]) (rule envelope_plain)
  qed
  moreover have "trusted_checkpoint vrf trust cp"
    unfolding trusted_checkpoint_def scope ids d(8,9)
    using signed_with_trusted [OF c k trust d(2,10) checkpoint_plain(3)] by simp
  moreover have "sealed_by H cp ?es"
    unfolding sealed_by_def d(6,7,8) using at_last_hd [OF d(1)] d(3) by simp
  ultimately show "verified_timeline H vrf trust cp ?es" using log unfolding verified_timeline_def by blast
qed

lemma written_verified:
  assumes "crypto_ok H sig_of" "writer_ok H sig_of w" "key_pair sig_of vrf (w_signer w)"
    and "trusts trust (w_signer w)" "tp_timelineId trust = w_timelineId w" "tp_tenant trust = w_tenant w"
    and "createCheckpoint H sig_of (w_envelopes w) (w_signer w) t = Inr cp"
  shows "verifyProtectedAuditTimelineV1 H vrf (snapshot w) (checkpoint_js cp) trust
    = VERIFIED (w_timelineId w) (w_tenant w) (protectedAuditCheckpointDigestV1 H cp) (facts_of (w_envelopes w))"
proof -
  note shape = checkpoint_js_shape [OF checkpoint_of_wf [OF assms(1,2,7)]]
  have "audit_log H (w_envelopes w)" using assms(2) by (simp add: writer_ok_def)
  then have r: "list_all2 (reads H) (snapshot w) (w_envelopes w)"
    unfolding snapshot_def list_all2_map1
    by (intro list.rel_refl_strong reads_envelope_js audit_log_envelope(1))
  then show ?thesis
    unfolding verify_iff shape(2)
    by (intro conjI exI [of _ "w_envelopes w"] shape(1) r written_timeline(1) [OF assms]
      written_timeline(2,3) [OF assms, symmetric] refl)
qed

end
