(* ===== verification/AuditSynthetic.thy ===== *)
theory AuditSynthetic
  imports AuditWriter
begin

text \<open>
  The synthetic timeline: every one of its eight appends is admissible, whatever the hash and the keys, as
  long as digests are hexadecimal, signing succeeds and the signer's window contains the fixed times.
\<close>

subsection \<open>Appending an admissible event\<close>

lemma append_first:
  assumes ok: "writer_ok H sig_of w" and hex: "\<forall>t. hex64 (H t)" and e: "event_wf e"
    and fresh: "\<forall>p \<in> set (w_envelopes w). au_eventId (ae_event p) \<noteq> au_eventId e"
    and a: "of_writer w e" "admissible H (w_envelopes w) (draft H w e t)" and u: "usable (w_signer w) t"
    and s: "sig_of (privateKeyPem (w_signer w)) (canonText (obj (envelope_core (draft H w e t)))) = Inr s"
  shows "append_event H sig_of w (event_js e) t = Inr (FIRST, draft H w e t\<lparr>ae_signature := s\<rparr>,
      w\<lparr>w_envelopes := w_envelopes w @ [draft H w e t\<lparr>ae_signature := s\<rparr>],
        w_eventsById := (w_eventsById w)(au_eventId e \<mapsto>
          (protectedAuditEventDigestV1 H e, draft H w e t\<lparr>ae_signature := s\<rparr>))\<rparr>)"
proof -
  note v = validate_event_js [OF e, of H]
  have n: "w_eventsById w (au_eventId e) = None" using fresh_id [OF ok] fresh by blast
  have "audit_log H (w_envelopes w)" using ok by (simp add: writer_ok_def)
  then have g: "appendGuard w e t = None" "observedAtMs e \<le> t"
    using appendGuard_None [OF _ fresh] a by blast+
  show ?thesis
    unfolding append_event_def v res_bind_simps prod.case n option.case g(1) create_envelope [OF v hex]
    using u g(2) s by (simp add: not_less)
qed

subsection \<open>The synthetic events\<close>

lemma padStart8_digit: "n < 10 \<Longrightarrow> padStart8 n = replicate 7 (CHR ''0'') @ [digit_char n]"
  by (simp add: padStart8_def nat_text_small eval_nat_numeral)

lemma padStart8_inj: "m < 10 \<Longrightarrow> n < 10 \<Longrightarrow> padStart8 m = padStart8 n \<Longrightarrow> m = n"
  by (simp add: padStart8_digit) (rule digit_char_inj)

lemma nat_cases_8: "n < 8 \<Longrightarrow> n \<in> {0, 1, 2, 3, 4, 5, 6, 7 :: nat}"
  by auto

lemma synthetic_id_ok:
  assumes "i < 8"
  shows "audit_id (''event:'' @ padStart8 (Suc i))"
proof -
  have d: "in_class [a_z, d0_9] (digit_char (Suc i)) \<and> in_class ([a_z, d0_9] @ chars ''._-'') (digit_char (Suc i))"
    using nat_cases_8 [OF assms]
    by (elim insertE emptyE) (simp_all add: digit_char_def in_class_def a_z_def d0_9_def less_eq_char_def)
  have "rx_test AUDIT_ID (''event:0000000'' @ [digit_char (Suc i)])"
  proof -
    have "''vent'' \<in> rx_lang (Rep (Cls ([a_z, d0_9] @ chars ''_-'')) 1 (Some 31))"
      "''000000'' @ [digit_char (Suc i)] \<in> rx_lang (Rep (Cls ([a_z, d0_9] @ chars ''._-'')) 2 (Some 95))"
      unfolding rx_test_lang [symmetric] rx_test_class_rep
      using d by (simp_all add: in_class_def a_z_def d0_9_def chars_def)
    moreover have "''e'' \<in> rx_lang (Cls [a_z])" "''0'' \<in> rx_lang (Cls [a_z, d0_9])"
      by (simp_all add: in_class_def a_z_def d0_9_def)
    moreover have "'':'' \<in> rx_lang (lit '':'')" by simp
    ultimately have "''e'' @ ''vent'' @ '':'' @ ''0'' @ ''000000'' @ [digit_char (Suc i)] \<in> rx_lang AUDIT_ID"
      unfolding AUDIT_ID_def rx_lang.simps(4) by blast
    then show ?thesis by (simp add: rx_test_lang)
  qed
  then show ?thesis using assms by (simp add: audit_id_def padStart8_digit eval_nat_numeral)
qed

lemma synthetic_ids_ok: "audit_id ''timeline:aas023-fixture''" "audit_id ''tenant:panskys-zoo''"
  "audit_id ''owner:fixture-owner''" "audit_id ''workload:admin-ai''" "audit_id ''operation:audit-fixture''"
  "audit_id ''correlation:audit-fixture''" "audit_id ''audit_key:fixture-001''"
  unfolding audit_id_def by code_simp+

lemma synthetic_reason_ok: "rx_test REASON_CODE (''AAS023_'' @ event_kind_text k @ ''_VERIFIED'')"
  by (cases k; hypsubst; code_simp)

lemma synthetic_event_wf:
  assumes "\<forall>t. hex64 (H t)" "i < 8" "\<forall>k d. byKind k = Some d \<longrightarrow> hex64 d"
  shows "event_wf (syntheticEvent H byKind i k outcome)"
  using assms synthetic_id_ok [OF assms(2)] synthetic_ids_ok synthetic_reason_ok [of k]
  by (simp add: event_wf_def syntheticEvent_def Let_def facts_wf_def count_ok_def time_ok_def
      max_safe_def synthetic_base_def)

subsection \<open>The whole timeline\<close>

fun ordered_kinds :: "event_kind list \<Rightarrow> event_kind list \<Rightarrow> bool" where
  "ordered_kinds seen [] = True"
| "ordered_kinds seen (k # ks) = (k \<notin> set seen \<and> (seen = [] \<longrightarrow> k = IDENTITY)
     \<and> list_all (\<lambda>r. KIND_BY_REFERENCE r \<in> set seen) (REQUIRED_REFERENCES k) \<and> ordered_kinds (seen @ [k]) ks)"

text \<open>The writer after \<open>index\<close> of the appends.\<close>

definition synthetic_writer ::
    "hash \<Rightarrow> sign_fn \<Rightarrow> audit_signer \<Rightarrow> nat \<Rightarrow> (event_kind \<times> audit_outcome) list \<Rightarrow> audit_writer \<Rightarrow> bool" where
  "synthetic_writer H sig_of s index seen w \<longleftrightarrow> written H sig_of w \<and> w_signer w = s
     \<and> w_timelineId w = ''timeline:aas023-fixture'' \<and> w_tenant w = ''tenant:panskys-zoo''
     \<and> map (\<lambda>p. (au_kind (ae_event p), af_outcome (au_facts (ae_event p)))) (w_envelopes w) = seen
     \<and> map (\<lambda>p. au_eventId (ae_event p)) (w_envelopes w) = map (\<lambda>i. ''event:'' @ padStart8 (Suc i)) [0..<index]
     \<and> (\<forall>p \<in> set (w_envelopes w). au_operationId (ae_event p) = ''operation:audit-fixture''
          \<and> au_correlationId (ae_event p) = ''correlation:audit-fixture''
          \<and> signedAtMs p \<le> synthetic_base + int index * 10 + 2
          \<and> occurredAtMs (ae_event p) \<le> synthetic_base + int index * 10
          \<and> observedAtMs (ae_event p) \<le> synthetic_base + int index * 10 + 1)"

definition signs_always :: "sign_fn \<Rightarrow> audit_signer \<Rightarrow> bool" where
  "signs_always sig_of s \<longleftrightarrow> (\<forall>text. \<exists>x. sig_of (privateKeyPem s) text = Inr x)"

lemma syntheticEvent_simps:
  "au_timelineId (syntheticEvent H m i k outcome) = ''timeline:aas023-fixture''"
  "au_tenant (syntheticEvent H m i k outcome) = ''tenant:panskys-zoo''"
  "au_sequence (syntheticEvent H m i k outcome) = int i + 1"
  "au_eventId (syntheticEvent H m i k outcome) = ''event:'' @ padStart8 (Suc i)"
  "au_kind (syntheticEvent H m i k outcome) = k"
  "au_operationId (syntheticEvent H m i k outcome) = ''operation:audit-fixture''"
  "au_correlationId (syntheticEvent H m i k outcome) = ''correlation:audit-fixture''"
  "occurredAtMs (syntheticEvent H m i k outcome) = synthetic_base + (int i + 1) * 10"
  "observedAtMs (syntheticEvent H m i k outcome) = synthetic_base + (int i + 1) * 10 + 1"
  "au_references (syntheticEvent H m i k outcome) = (\<lambda>r. m (KIND_BY_REFERENCE r))"
  "af_outcome (au_facts (syntheticEvent H m i k outcome)) = outcome"
  by (simp_all add: syntheticEvent_def Let_def)

lemma synthetic_step:
  assumes c: "crypto_ok H sig_of" and w: "synthetic_writer H sig_of s index seen w"
    and i: "index < 8" and o: "ordered_kinds (map fst seen) (k # ks)"
    and u: "\<forall>t. synthetic_base \<le> t \<and> t \<le> synthetic_base + 100 \<longrightarrow> usable s t" and sa: "signs_always sig_of s"
  obtains env w' where "append_event H sig_of w
      (event_js (syntheticEvent H (priorByKind (w_envelopes w)) index k outcome))
      (synthetic_base + (int index + 1) * 10 + 2) = Inr (FIRST, env, w')"
    and "synthetic_writer H sig_of s (Suc index) (seen @ [(k, outcome)]) w'"
    and "w_envelopes w' = w_envelopes w @ [env]" "au_kind (ae_event env) = k"
proof -
  let ?es = "w_envelopes w" and ?t = "synthetic_base + (int index + 1) * 10 + 2"
  let ?e = "syntheticEvent H (priorByKind ?es) index k outcome"
  let ?d = "draft H w ?e ?t"
  have wr: "written H sig_of w" and sg: "w_signer w = s"
    and tid: "w_timelineId w = ''timeline:aas023-fixture''" and ten: "w_tenant w = ''tenant:panskys-zoo''"
    and sn: "map (\<lambda>p. (au_kind (ae_event p), af_outcome (au_facts (ae_event p)))) ?es = seen"
    and idl: "map (\<lambda>p. au_eventId (ae_event p)) ?es = map (\<lambda>i. ''event:'' @ padStart8 (Suc i)) [0..<index]"
    and all: "\<forall>p \<in> set ?es. au_operationId (ae_event p) = ''operation:audit-fixture''
          \<and> au_correlationId (ae_event p) = ''correlation:audit-fixture''
          \<and> signedAtMs p \<le> synthetic_base + int index * 10 + 2
          \<and> occurredAtMs (ae_event p) \<le> synthetic_base + int index * 10
          \<and> observedAtMs (ae_event p) \<le> synthetic_base + int index * 10 + 1"
    using w unfolding synthetic_writer_def by blast+
  have hex: "\<forall>t. hex64 (H t)" using c by (simp add: crypto_ok_def)
  have ok: "writer_ok H sig_of w" by (rule written_ok [OF wr c])
  then have log: "audit_log H ?es" by (simp add: writer_ok_def)
  have len: "length ?es = index" using arg_cong [OF idl, of length] by simp
  have kinds: "set (map fst seen) = (\<lambda>p. au_kind (ae_event p)) ` set ?es"
    unfolding sn [symmetric] by (simp add: image_image)
  have wf: "event_wf ?e"
  proof (rule synthetic_event_wf [OF hex i], intro allI impI)
    fix k d assume "priorByKind ?es k = Some d"
    then obtain p where "p \<in> set ?es" "ae_eventDigest p = d"
      using priorByKind_Some [OF audit_log_kinds [OF log]] by blast
    then show "hex64 d" using audit_log_envelope(1) [OF log] by (auto simp: audit_envelope_wf_def)
  qed
  have ids: "au_eventId (ae_event p) \<noteq> au_eventId ?e" if "p \<in> set ?es" for p
  proof -
    have "au_eventId (ae_event p) \<in> set (map (\<lambda>i. ''event:'' @ padStart8 (Suc i)) [0..<index])"
      unfolding idl [symmetric] using that by simp
    then obtain j where "j < index" "au_eventId (ae_event p) = ''event:'' @ padStart8 (Suc j)" by auto
    then show ?thesis using padStart8_inj [of "Suc j" "Suc index"] i by (auto simp: syntheticEvent_simps)
  qed
  have req: "priorByKind ?es (KIND_BY_REFERENCE r) \<noteq> None" if "r \<in> set (REQUIRED_REFERENCES k)" for r
  proof -
    have "KIND_BY_REFERENCE r \<in> set (map fst seen)"
      using o that by (simp only: ordered_kinds.simps list_all_iff)
    then show ?thesis unfolding priorByKind_None kinds by auto
  qed
  have res: "resolved ?es ?e"
    unfolding resolved_def syntheticEvent_simps priorByKind_Some [OF audit_log_kinds [OF log]]
    using req by blast
  have fol: "follows p ?d" if "at_last ?es = Some p" for p
    using bspec [OF all at_last_in [OF that]] by (simp add: follows_def syntheticEvent_simps)
  have root: "?es = [] \<longrightarrow> k = IDENTITY" using o sn by auto
  have new: "au_kind (ae_event p) \<noteq> k" if "p \<in> set ?es" for p using o kinds that by auto
  have a: "admissible H ?es ?d"
    unfolding admissible_def draft_simps syntheticEvent_simps
    using ids [unfolded syntheticEvent_simps] new res fol root len by simp
  have us: "usable (w_signer w) ?t" using u i unfolding sg by simp
  obtain x where x: "sig_of (privateKeyPem (w_signer w)) (canonText (obj (envelope_core ?d))) = Inr x"
    using sa unfolding signs_always_def sg by blast
  have ow: "of_writer w ?e" using tid ten by (simp add: of_writer_def syntheticEvent_simps)
  define env where "env = ?d\<lparr>ae_signature := x\<rparr>"
  define w' where "w' = w\<lparr>w_envelopes := ?es @ [env],
      w_eventsById := (w_eventsById w)(au_eventId ?e \<mapsto> (protectedAuditEventDigestV1 H ?e, env))\<rparr>"
  have r: "append_event H sig_of w (event_js ?e) ?t = Inr (FIRST, env, w')"
    unfolding env_def w'_def by (rule append_first [OF ok hex wf _ ow a us x]) (use ids in blast)
  have ev: "ae_event env = ?e" "signedAtMs env = ?t" by (simp_all add: env_def)
  have "synthetic_writer H sig_of s (Suc index) (seen @ [(k, outcome)]) w'"
    unfolding synthetic_writer_def
  proof (intro conjI)
    show "written H sig_of w'" by (rule appended [OF wr r])
    show "map (\<lambda>p. (au_kind (ae_event p), af_outcome (au_facts (ae_event p)))) (w_envelopes w') = seen @ [(k, outcome)]"
      using sn idl by (simp add: w'_def ev syntheticEvent_simps)
    show "map (\<lambda>p. au_eventId (ae_event p)) (w_envelopes w')
        = map (\<lambda>i. ''event:'' @ padStart8 (Suc i)) [0..<Suc index]"
      using sn idl by (simp add: w'_def ev syntheticEvent_simps)
    show "\<forall>p \<in> set (w_envelopes w'). au_operationId (ae_event p) = ''operation:audit-fixture''
          \<and> au_correlationId (ae_event p) = ''correlation:audit-fixture''
          \<and> signedAtMs p \<le> synthetic_base + int (Suc index) * 10 + 2
          \<and> occurredAtMs (ae_event p) \<le> synthetic_base + int (Suc index) * 10
          \<and> observedAtMs (ae_event p) \<le> synthetic_base + int (Suc index) * 10 + 1"
      using all by (force simp: w'_def ev syntheticEvent_simps)
  qed (use sg tid ten in \<open>simp_all add: w'_def\<close>)
  then show thesis using that r ev by (simp add: w'_def syntheticEvent_simps)
qed

lemma synthetic_appends:
  assumes c: "crypto_ok H sig_of" and sa: "signs_always sig_of s"
    and u: "\<forall>t. synthetic_base \<le> t \<and> t \<le> synthetic_base + 100 \<longrightarrow> usable s t"
    and "synthetic_writer H sig_of s index seen w" "index + length steps \<le> 8"
    and "ordered_kinds (map fst seen) (map fst steps)" "byKind = priorByKind (w_envelopes w)"
  shows "\<exists>w'. syntheticAppend H sig_of index steps byKind w = Inr w'
    \<and> synthetic_writer H sig_of s (index + length steps) (seen @ steps) w'"
  using assms(4-)
proof (induction steps arbitrary: index seen w byKind)
  case (Cons x steps)
  obtain k outcome where x: "x = (k, outcome)" by (cases x)
  have i: "index < 8" using Cons.prems(2) by simp
  have o: "ordered_kinds (map fst seen) (k # map fst steps)" using Cons.prems(3) by (simp add: x)
  obtain env w' where a: "append_event H sig_of w
      (event_js (syntheticEvent H (priorByKind (w_envelopes w)) index k outcome))
      (synthetic_base + (int index + 1) * 10 + 2) = Inr (FIRST, env, w')"
    and w': "synthetic_writer H sig_of s (Suc index) (seen @ [(k, outcome)]) w'"
    and es: "w_envelopes w' = w_envelopes w @ [env]" "au_kind (ae_event env) = k"
    by (rule synthetic_step [OF c Cons.prems(1) i o u sa])
  have l: "Suc index + length steps \<le> 8" using Cons.prems(2) by simp
  have o': "ordered_kinds (map fst (seen @ [(k, outcome)])) (map fst steps)" using o by simp
  have b: "byKind(k \<mapsto> ae_eventDigest env) = priorByKind (w_envelopes w')"
    unfolding es priorByKind_snoc Cons.prems(4) es(2) ..
  obtain w'' where "syntheticAppend H sig_of (Suc index) steps (byKind(k \<mapsto> ae_eventDigest env)) w' = Inr w''"
    "synthetic_writer H sig_of s (Suc index + length steps) ((seen @ [(k, outcome)]) @ steps) w''"
    using Cons.IH [OF w' l o' b] by blast
  then show ?case using a Cons.prems(4) by (simp add: x)
qed simp

definition synthetic_signer_ok :: "audit_signer \<Rightarrow> bool" where
  "synthetic_signer_ok s \<longleftrightarrow> as_algorithm s = ''Ed25519'' \<and> audit_id (as_keyId s) \<and> count_ok (as_generation s)
     \<and> as_validFromMs s \<le> synthetic_base \<and> synthetic_base + 100 < as_validUntilMs s"

lemma synthetic_usable:
  "synthetic_signer_ok s \<Longrightarrow> \<forall>t. synthetic_base \<le> t \<and> t \<le> synthetic_base + 100 \<longrightarrow> usable s t"
  by (auto simp: synthetic_signer_ok_def usable_def time_ok_def synthetic_base_def max_safe_def)

lemma synthetic_timeline:
  assumes c: "crypto_ok H sig_of" and sa: "signs_always sig_of s" and s: "synthetic_signer_ok s"
  obtains w cp where "syntheticProtectedAuditTimelineV1 H sig_of s g
      = Inr (signer_trust s ''tenant:panskys-zoo'' ''timeline:aas023-fixture''
          (case g of None \<Rightarrow> as_generation s | Some g \<Rightarrow> g), w, snapshot w, cp)"
    "synthetic_writer H sig_of s 8 synthetic_steps w" "checkpoint_of H sig_of w (synthetic_base + 100) = Inr cp"
proof -
  let ?w0 = "\<lparr>w_timelineId = ''timeline:aas023-fixture'', w_tenant = ''tenant:panskys-zoo'', w_signer = s,
      w_envelopes = [], w_eventsById = \<lambda>_. None\<rparr>"
  note u = synthetic_usable [OF s]
  have n: "newWriter ''timeline:aas023-fixture'' ''tenant:panskys-zoo'' s = Inr ?w0"
    using synthetic_ids_ok by (simp add: newWriter_def)
  have w0: "synthetic_writer H sig_of s 0 [] ?w0"
    using created [OF n] by (simp add: synthetic_writer_def)
  have o: "ordered_kinds (map fst []) (map fst synthetic_steps)"
    by (simp add: synthetic_steps_def)
  have len8: "length synthetic_steps = 8" by (simp add: synthetic_steps_def)
  have pk: "(\<lambda>_. None) = priorByKind (w_envelopes ?w0)" by (simp add: priorByKind_def)
  obtain w where w: "syntheticAppend H sig_of 0 synthetic_steps (\<lambda>_. None) ?w0 = Inr w"
    "synthetic_writer H sig_of s 8 synthetic_steps w"
    using synthetic_appends [OF c sa u w0 _ o, of "\<lambda>_. None"] len8 pk by auto
  have len: "length (w_envelopes w) = 8"
    using w(2) unfolding synthetic_writer_def by (auto dest: arg_cong [of _ _ length])
  have sg: "w_signer w = s" and t: "\<forall>p \<in> set (w_envelopes w). signedAtMs p \<le> synthetic_base + int 8 * 10 + 2"
    using w(2) unfolding synthetic_writer_def by blast+
  have ne: "w_envelopes w \<noteq> []" using len by auto
  then have "signedAtMs (last (w_envelopes w)) \<le> synthetic_base + int 8 * 10 + 2" using t last_in_set by blast
  then have cl: "\<not> synthetic_base + 100 < signedAtMs (last (w_envelopes w))" by simp
  have us: "assertSignerUsable s (synthetic_base + 100) = Inr ()"
    unfolding assertSignerUsable_iff using u by simp
  obtain cp where "checkpoint_of H sig_of w (synthetic_base + 100) = Inr cp"
    using sa ne us cl unfolding checkpoint_of_def createCheckpoint_def at_last_def sg signs_always_def
    by (simp add: Let_def) (metis res_bind_simps(2))
  with w n that show thesis by (simp add: syntheticProtectedAuditTimelineV1_def)
qed

end
