(* ===== verification/AuditLaws.thy ===== *)
theory AuditLaws
  imports AuditSynthetic HashChain
begin

text \<open>
  The properties of the protected audit timeline. Where a property is about signatures, \<open>crypto_ok\<close> and
  \<open>key_pair\<close> state what it uses of \<open>node:crypto\<close>: hexadecimal digests, base64 signatures, and a public
  key that verifies what its private key signs. No property assumes that signatures cannot be forged.
\<close>

subsection \<open>The hash chain of a timeline\<close>

interpretation audit_chain: hash_chain "\<lambda>p :: audit_envelope \<times> string. canonText (audit_envelope_js (fst p))"
  snd "\<lambda>p. ae_previous (fst p)"
  by unfold_locales (simp add: audit_envelope_codec.text_inj prod_eq_iff)

lemma audit_log_chained:
  "audit_log H es \<Longrightarrow> audit_chain.chained H (map (\<lambda>e. (e, protectedAuditEnvelopeDigestV1 H e)) es)"
proof (induction rule: audit_log.induct)
  case (extend_log es env)
  have "at_last (map (\<lambda>e. (e, protectedAuditEnvelopeDigestV1 H e)) es)
      = map_option (\<lambda>e. (e, protectedAuditEnvelopeDigestV1 H e)) (at_last es)"
    by (simp add: at_last_def last_map)
  then have "ae_previous env = map_option snd (at_last (map (\<lambda>e. (e, protectedAuditEnvelopeDigestV1 H e)) es))"
    using extend_log.hyps by (cases "at_last es") (simp_all add: admissible_def)
  moreover have "protectedAuditEnvelopeDigestV1 H env = H (canonText (audit_envelope_js env))"
    by (simp add: protectedAuditEnvelopeDigestV1_def digest_of_def)
  ultimately show ?case
    unfolding map_append list.map(1,2) audit_chain.chained_snoc fst_conv snd_conv
    using extend_log.IH by blast
qed simp

lemma reads_text:
  assumes "reads H v env"
  shows "js_norm v = js_norm (audit_envelope_js env)" "canonText (audit_envelope_js env) = canonText v"
proof -
  obtain e d where "validateEnvelopeShape v" "env = readEnvelope v e"
    "validateProtectedAuditEventV1 H (getf (fields_of v) ''event'') = Inr (e, d)"
    using assms unfolding reads_def by blast
  then show n: "js_norm v = js_norm (audit_envelope_js env)" using validated_envelope(1) by blast
  show "canonText (audit_envelope_js env) = canonText v" by (rule canonText_normI [OF n, symmetric])
qed

lemma list_all2_reads_norm: "list_all2 (reads H) vs es \<Longrightarrow> map js_norm vs = map js_norm (map audit_envelope_js es)"
  by (induction rule: list_all2_induct) (simp_all add: reads_text(1))

lemma list_all2_reads_text:
  "list_all2 (reads H) vs es \<Longrightarrow> (\<lambda>e. canonText (audit_envelope_js e)) ` set es = canonText ` set vs"
  by (induction rule: list_all2_induct) (simp_all add: reads_text(2))

subsection \<open>The writer\<close>

text \<open>
  C29: The writer refines the abstract log. From a reachable writer, a valid event is either appended as
  the next admissible envelope of the log, signed; or it is one the log has, which is returned again with
  the writer unchanged; or it is refused, and then the log has another event of that identifier, or the
  event is not admissible in the log or for this writer and signer, or signing fails.
\<close>

theorem append_refines_log:
  assumes "written H sig_of w" "crypto_ok H sig_of" "validateProtectedAuditEventV1 H v = Inr (e, d)"
  shows "case append_event H sig_of w v t of
      Inr (FIRST, env, w') \<Rightarrow> w_envelopes w' = w_envelopes w @ [env] \<and> audit_log H (w_envelopes w')
        \<and> ae_event env = e \<and> signedAtMs env = t \<and> signed_with sig_of (w_signer w) env
    | Inr (SAME_ENVELOPE, env, w') \<Rightarrow> w' = w \<and> env \<in> set (w_envelopes w)
        \<and> au_eventId (ae_event env) = au_eventId e \<and> ae_eventDigest env = d
    | Inl err \<Rightarrow> (\<exists>p \<in> set (w_envelopes w). au_eventId (ae_event p) = au_eventId e \<and> ae_eventDigest p \<noteq> d)
        \<or> \<not> (of_writer w e \<and> admissible H (w_envelopes w) (draft H w e t) \<and> usable (w_signer w) t)
        \<or> (\<exists>x. sig_of (privateKeyPem (w_signer w)) (canonText (obj (envelope_core (draft H w e t)))) = Inl x)"
proof -
  note ok = written_ok [OF assms(1,2)]
  have hex: "\<forall>t. hex64 (H t)" using assms(2) by (simp add: crypto_ok_def)
  show ?thesis
  proof (cases "append_event H sig_of w v t")
    case (Inl err)
    show ?thesis unfolding Inl sum.case by (rule append_refuses [OF ok hex assms(3) Inl])
  next
    case (Inr x)
    obtain r env w' where x: "x = (r, env, w')" by (cases x)
    note a = Inr [unfolded x]
    have ok': "writer_ok H sig_of w'" by (rule append_ok [OF assms(2) ok a])
    from ok hex a show ?thesis
    proof (cases rule: append_cases)
      case (same e')
      then show ?thesis using assms(3) unfolding a by simp
    next
      case (first e' d' s)
      have e': "e' = e" using first(1) assms(3) by simp
      have "audit_log H (w_envelopes w')" using ok' by (simp add: writer_ok_def)
      moreover have "w_envelopes w' = w_envelopes w @ [env]" using first(9) by simp
      moreover have "signed_with sig_of (w_signer w) env"
        using first(7,8) by (simp add: signed_with_def first(3))
      ultimately show ?thesis unfolding a using first(2,3) e' by simp
    qed
  qed
qed

text \<open>
  What a writer has written verifies. The snapshot of any reachable writer, with a checkpoint it
  issues, is accepted by the verifier under every policy for its timeline that trusts its key, and the
  facts reported are those of its events, in order.
\<close>

theorem written_timeline_verifies:
  assumes "written H sig_of w" "crypto_ok H sig_of" "key_pair sig_of vrf (w_signer w)"
    and "trusts trust (w_signer w)" "tp_timelineId trust = w_timelineId w" "tp_tenant trust = w_tenant w"
    and "checkpoint_of H sig_of w t = Inr cp"
  shows "verifyProtectedAuditTimelineV1 H vrf (snapshot w) (checkpoint_js cp) trust
    = VERIFIED (w_timelineId w) (w_tenant w) (protectedAuditCheckpointDigestV1 H cp) (facts_of (w_envelopes w))"
  by (rule written_verified [OF assms(2) written_ok [OF assms(1,2)] assms(3-6) assms(7) [unfolded checkpoint_of_def]])

subsection \<open>The verifier\<close>

text \<open>
  C31: The verifier accepts exactly timelines. It accepts values and a checkpoint if and only if they
  read as envelopes that form a log, every one of them signed under an active key of the policy and in the
  scope of the checkpoint, and the checkpoint is itself signed, in the scope of the policy, counts the
  envelopes and seals the last of them.
\<close>

theorem verifier_accepts_timelines:
  "verifyProtectedAuditTimelineV1 H vrf vs cv trust = VERIFIED tid tn d fs \<longleftrightarrow>
     validateCheckpointShape cv
     \<and> (\<exists>es. list_all2 (reads H) vs es \<and> verified_timeline H vrf trust (readCheckpoint cv) es
          \<and> tid = tp_timelineId trust \<and> tn = tp_tenant trust
          \<and> d = protectedAuditCheckpointDigestV1 H (readCheckpoint cv) \<and> fs = facts_of es)"
proof -
  have "cp_timelineId (readCheckpoint cv) = tp_timelineId trust \<and> cp_tenant (readCheckpoint cv) = tp_tenant trust"
    if "verified_timeline H vrf trust (readCheckpoint cv) es" for es
    using that by (simp add: verified_timeline_def trusted_checkpoint_def)
  then show ?thesis unfolding verify_iff by metis
qed

lemma audit_log_prefix:
  "audit_log H es \<Longrightarrow> i < length es \<Longrightarrow> admissible H (take i es) (es ! i)"
proof (induction rule: audit_log.induct)
  case (extend_log es env)
  then show ?case by (cases "i = length es") (auto simp: nth_append)
qed simp

lemma kinds_bounded:
  assumes "distinct (ks :: event_kind list)"
  shows "length ks \<le> 11"
proof -
  have "k \<in> set EVENT_KINDS" for k by (cases k) (simp_all add: EVENT_KINDS_def)
  then have "set ks \<subseteq> set EVENT_KINDS" by blast
  then have "card (set ks) \<le> card (set EVENT_KINDS)" by (intro card_mono) simp_all
  also have "\<dots> \<le> length EVENT_KINDS" by (rule card_length)
  finally show ?thesis using distinct_card [OF assms] by (simp add: EVENT_KINDS_def)
qed

lemma facts_of_simps [simp]: "length (facts_of es) = length es"
  "map vf_kind (facts_of es) = map (\<lambda>p. au_kind (ae_event p)) es"
  "map vf_eventId (facts_of es) = map (\<lambda>p. au_eventId (ae_event p)) es"
  by (simp_all add: facts_of_def factOf_def)

lemma facts_of_nth:
  "i < length es \<Longrightarrow> facts_of es ! i = factOf (ae_event (es ! i)) (ae_eventDigest (es ! i))"
  by (simp add: facts_of_def)

lemma fact_resolved:
  assumes "audit_log H es" "i < length es"
  shows "\<forall>k \<in> set (REQUIRED_REFERENCES (vf_kind (facts_of es ! i))). vf_references (facts_of es ! i) k \<noteq> None"
    and "\<forall>k r. vf_references (facts_of es ! i) k = Some r \<longrightarrow>
      (\<exists>j < i. vf_kind (facts_of es ! j) = KIND_BY_REFERENCE k \<and> vf_eventDigest (facts_of es ! j) = r)"
proof -
  have a: "resolved (take i es) (ae_event (es ! i))"
    using audit_log_prefix [OF assms] by (simp add: admissible_def)
  then show "\<forall>k \<in> set (REQUIRED_REFERENCES (vf_kind (facts_of es ! i))). vf_references (facts_of es ! i) k \<noteq> None"
    unfolding facts_of_nth [OF assms(2)] by (simp add: resolved_def factOf_def)
  show "\<forall>k r. vf_references (facts_of es ! i) k = Some r \<longrightarrow>
      (\<exists>j < i. vf_kind (facts_of es ! j) = KIND_BY_REFERENCE k \<and> vf_eventDigest (facts_of es ! j) = r)"
  proof (intro allI impI)
    fix k r assume "vf_references (facts_of es ! i) k = Some r"
    then have "au_references (ae_event (es ! i)) k = Some r"
      unfolding facts_of_nth [OF assms(2)] by (simp add: factOf_def)
    then obtain p where p: "p \<in> set (take i es)" "au_kind (ae_event p) = KIND_BY_REFERENCE k" "ae_eventDigest p = r"
      using a unfolding resolved_def by blast
    then obtain j where j: "j < i" "j < length es" "p = es ! j" by (auto simp: in_set_conv_nth)
    with p show "\<exists>j < i. vf_kind (facts_of es ! j) = KIND_BY_REFERENCE k \<and> vf_eventDigest (facts_of es ! j) = r"
      by (intro exI [of _ j]) (simp add: facts_of_nth factOf_def)
  qed
qed

lemma verified_facts:
  assumes "verifyProtectedAuditTimelineV1 H vrf vs cv trust = VERIFIED tid tn d fs"
  obtains es where "list_all2 (reads H) vs es" "verified_timeline H vrf trust (readCheckpoint cv) es"
    "audit_log H es" "es \<noteq> []" "fs = facts_of es"
    "d = protectedAuditCheckpointDigestV1 H (readCheckpoint cv)" "validateCheckpointShape cv"
proof -
  obtain es where es: "list_all2 (reads H) vs es" "verified_timeline H vrf trust (readCheckpoint cv) es"
    "fs = facts_of es" "d = protectedAuditCheckpointDigestV1 H (readCheckpoint cv)" "validateCheckpointShape cv"
    using assms [unfolded verify_iff] by blast
  have "audit_log H es" "es \<noteq> []"
    using es(2) by (auto simp: verified_timeline_def sealed_by_def)
  with es that show thesis by blast
qed

text \<open>
  C32: The structure of verified facts. They start with an identity, at most one per kind and identifier
  (so at most eleven), numbered from one; every reference an event of its kind must have is there; and
  every reference is the digest of an earlier fact of the referenced kind.
\<close>

theorem verified_facts_causal:
  assumes "verifyProtectedAuditTimelineV1 H vrf vs cv trust = VERIFIED tid tn d fs"
  shows "fs \<noteq> [] \<and> length fs = length vs \<and> length fs \<le> 11 \<and> vf_kind (fs ! 0) = IDENTITY
    \<and> distinct (map vf_kind fs) \<and> distinct (map vf_eventId fs)
    \<and> (\<forall>i < length fs. vf_sequence (fs ! i) = int i + 1
        \<and> (\<forall>k \<in> set (REQUIRED_REFERENCES (vf_kind (fs ! i))). vf_references (fs ! i) k \<noteq> None)
        \<and> (\<forall>k r. vf_references (fs ! i) k = Some r \<longrightarrow>
            (\<exists>j < i. vf_kind (fs ! j) = KIND_BY_REFERENCE k \<and> vf_eventDigest (fs ! j) = r)))"
proof -
  obtain es where es: "list_all2 (reads H) vs es" "audit_log H es" "es \<noteq> []" and fs: "fs = facts_of es"
    using verified_facts [OF assms] by blast
  have ne: "0 < length es" using es(3) by simp
  have first: "vf_kind (facts_of es ! 0) = IDENTITY"
    using audit_log_prefix [OF es(2) ne] by (simp add: facts_of_nth [OF ne] factOf_def admissible_def)
  have kinds: "distinct (map vf_kind fs)" "distinct (map vf_eventId fs)"
    unfolding fs facts_of_simps by (rule audit_log_kinds [OF es(2)], rule audit_log_ids [OF es(2)])
  have "length fs \<le> 11" using kinds_bounded [OF kinds(1)] by simp
  moreover have "vf_sequence (fs ! i) = int i + 1" if "i < length fs" for i
    using that audit_log_sequence [OF es(2)] by (simp add: fs facts_of_nth factOf_def)
  ultimately show ?thesis
    using kinds first fact_resolved [OF es(2)] list_all2_reads_length [OF es(1)] es(3) unfolding fs facts_of_simps
    by (intro conjI allI impI) (simp_all add: facts_of_def)
qed

text \<open>
  A checkpoint digest pins the whole timeline. Two accepted timelines with the same checkpoint digest,
  even under different policies, have the same envelopes, the same checkpoint and the same facts, unless
  the hash collides on the texts of the two.
\<close>

theorem checkpoint_binds_timeline:
  assumes "verifyProtectedAuditTimelineV1 H vrf vs cv trust = VERIFIED tid tn d fs"
    and "verifyProtectedAuditTimelineV1 H vrf' vs' cv' trust' = VERIFIED tid' tn' d fs'"
    and "inj_on H (canonText ` ({cv, cv'} \<union> set vs \<union> set vs'))"
  shows "map js_norm vs = map js_norm vs' \<and> js_norm cv = js_norm cv' \<and> fs = fs'"
proof -
  obtain es where es: "list_all2 (reads H) vs es" "verified_timeline H vrf trust (readCheckpoint cv) es"
    "audit_log H es" "fs = facts_of es" "d = protectedAuditCheckpointDigestV1 H (readCheckpoint cv)"
    "validateCheckpointShape cv" using verified_facts [OF assms(1)] by blast
  obtain es' where es': "list_all2 (reads H) vs' es'" "verified_timeline H vrf' trust' (readCheckpoint cv') es'"
    "audit_log H es'" "fs' = facts_of es'" "d = protectedAuditCheckpointDigestV1 H (readCheckpoint cv')"
    "validateCheckpointShape cv'" using verified_facts [OF assms(2)] by blast
  note n = validated_checkpoint(1) [OF es(6)] and n' = validated_checkpoint(1) [OF es'(6)]
  have t: "canonText (checkpoint_js (readCheckpoint cv)) = canonText cv"
    "canonText (checkpoint_js (readCheckpoint cv')) = canonText cv'"
    by (rule canonText_normI [OF n, symmetric], rule canonText_normI [OF n', symmetric])
  have "H (canonText cv) = H (canonText cv')"
    using es(5) es'(5) by (simp add: protectedAuditCheckpointDigestV1_def digest_of_def t)
  then have "canonText cv = canonText cv'" by (rule inj_onD [OF assms(3)]) simp_all
  then have cp: "readCheckpoint cv = readCheckpoint cv'"
    using checkpoint_codec.text_inj [of "readCheckpoint cv" "readCheckpoint cv'"] t by simp
  let ?p = "map (\<lambda>e. (e, protectedAuditEnvelopeDigestV1 H e))"
  have l: "map_option snd (at_last (?p xs)) = map_option (protectedAuditEnvelopeDigestV1 H) (at_last xs)" for xs
    by (simp add: at_last_def last_map)
  have "map_option (protectedAuditEnvelopeDigestV1 H) (at_last es)
      = map_option (protectedAuditEnvelopeDigestV1 H) (at_last es')"
    using es(2) es'(2) cp by (auto simp: verified_timeline_def sealed_by_def)
  then have "map_option snd (at_last (?p es)) = map_option snd (at_last (?p es'))" unfolding l .
  moreover have "inj_on H ((\<lambda>p. canonText (audit_envelope_js (fst p))) ` (set (?p es) \<union> set (?p es')))"
  proof (rule inj_on_subset [OF assms(3)])
    have "(\<lambda>p. canonText (audit_envelope_js (fst p))) ` (set (?p es) \<union> set (?p es'))
        = canonText ` set vs \<union> canonText ` set vs'"
      unfolding list_all2_reads_text [OF es(1), symmetric] list_all2_reads_text [OF es'(1), symmetric]
      by (simp add: image_Un image_image)
    then show "(\<lambda>p. canonText (audit_envelope_js (fst p))) ` (set (?p es) \<union> set (?p es'))
        \<subseteq> canonText ` ({cv, cv'} \<union> set vs \<union> set vs')" by auto
  qed
  ultimately have "?p es = ?p es'"
    by (rule audit_chain.last_binds [OF audit_log_chained [OF es(3)] audit_log_chained [OF es'(3)]])
  then have "map fst (?p es) = map fst (?p es')" by simp
  then have eq: "es = es'" by (simp add: comp_def)
  have "js_norm cv = js_norm cv'" unfolding n n' cp ..
  then show ?thesis
    using list_all2_reads_norm [OF es(1)] list_all2_reads_norm [OF es'(1)] es(4) es'(4) eq by simp
qed

subsection \<open>The explanation\<close>

lemma REQUIRED_terminal:
  assumes "terminal_success f" "k \<in> {IDENTITY, INTENT, PLAN, POLICY, APPROVAL, EFFECT}"
  shows "\<exists>r \<in> set (REQUIRED_REFERENCES (vf_kind f)). KIND_BY_REFERENCE r = k"
  using assms by (auto simp: terminal_success_def)

lemma success_facts:
  assumes log: "audit_log H es" "es \<noteq> []" and t: "terminal_success (last (facts_of es))"
    and k: "k \<in> {IDENTITY, INTENT, PLAN, POLICY, APPROVAL, EFFECT}"
  shows "k \<in> vf_kind ` set (butlast (facts_of es))"
proof -
  let ?n = "length es - 1"
  have n: "?n < length es" using log(2) by simp
  have l: "last (facts_of es) = facts_of es ! ?n"
    using log(2) by (subst last_conv_nth) (auto simp: facts_of_def)
  obtain r where r: "r \<in> set (REQUIRED_REFERENCES (vf_kind (facts_of es ! ?n)))" "KIND_BY_REFERENCE r = k"
    using REQUIRED_terminal [OF t k] l by auto
  then obtain d where "vf_references (facts_of es ! ?n) r = Some d"
    using fact_resolved(1) [OF log(1) n] by blast
  then obtain j where j: "j < ?n" "vf_kind (facts_of es ! j) = k"
    using fact_resolved(2) [OF log(1) n] r(2) by blast
  then have "facts_of es ! j = butlast (facts_of es) ! j" "j < length (butlast (facts_of es))"
    by (simp_all add: nth_butlast)
  then have "facts_of es ! j \<in> set (butlast (facts_of es))" by (metis nth_mem)
  then show ?thesis using j(2) by blast
qed

lemma explain_success:
  "ex_status (explainProtectedAuditTimelineV1 H vrf vs cv trust) = VERIFIED_SUCCESS \<longleftrightarrow>
    (\<exists>tid tn d fs f. verifyProtectedAuditTimelineV1 H vrf vs cv trust = VERIFIED tid tn d fs
      \<and> at_last fs = Some f \<and> terminal_success f)"
proof (cases "verifyProtectedAuditTimelineV1 H vrf vs cv trust")
  case (VERIFIED tid tn d fs)
  then show ?thesis
    by (cases "at_last fs") (simp_all add: explainProtectedAuditTimelineV1_def Let_def)
qed (simp add: explainProtectedAuditTimelineV1_def)

text \<open>
  No success without a verified, approved effect. An explanation reports success only for a timeline
  that verifies and whose last fact is a committed readback, a completed reconciliation or a completed
  rollback; and then an identity, an intent, a plan, a policy decision, an approval and an effect are
  among the facts before it. It shows the verified facts and no issue.
\<close>

theorem success_needs_approved_effect:
  assumes "ex_status (explainProtectedAuditTimelineV1 H vrf vs cv trust) = VERIFIED_SUCCESS"
  shows "\<exists>d fs. verifyProtectedAuditTimelineV1 H vrf vs cv trust
        = VERIFIED (tp_timelineId trust) (tp_tenant trust) d fs
    \<and> ex_stages (explainProtectedAuditTimelineV1 H vrf vs cv trust) = fs
    \<and> ex_issues (explainProtectedAuditTimelineV1 H vrf vs cv trust) = []
    \<and> terminal_success (last fs)
    \<and> {IDENTITY, INTENT, PLAN, POLICY, APPROVAL, EFFECT} \<subseteq> vf_kind ` set (butlast fs)"
proof -
  obtain tid tn d fs f where v: "verifyProtectedAuditTimelineV1 H vrf vs cv trust = VERIFIED tid tn d fs"
    and f: "at_last fs = Some f" "terminal_success f"
    using assms unfolding explain_success by blast
  obtain es where es: "audit_log H es" "es \<noteq> []" "fs = facts_of es"
    "verified_timeline H vrf trust (readCheckpoint cv) es"
    using verified_facts [OF v] by blast
  have t: "terminal_success (last fs)" using f by (auto simp: at_last_def split: if_splits)
  have "tid = cp_timelineId (readCheckpoint cv)" "tn = cp_tenant (readCheckpoint cv)"
    using v unfolding verify_iff by blast+
  then have "tid = tp_timelineId trust" "tn = tp_tenant trust"
    using es(4) by (simp_all add: verified_timeline_def trusted_checkpoint_def)
  moreover have "{IDENTITY, INTENT, PLAN, POLICY, APPROVAL, EFFECT} \<subseteq> vf_kind ` set (butlast fs)"
    using success_facts [OF es(1,2) t [unfolded es(3)]] unfolding es(3) by blast
  moreover have "ex_stages (explainProtectedAuditTimelineV1 H vrf vs cv trust) = fs"
    "ex_issues (explainProtectedAuditTimelineV1 H vrf vs cv trust) = []"
    by (simp_all add: explainProtectedAuditTimelineV1_def v Let_def)
  ultimately show ?thesis using v t by blast
qed

subsection \<open>The synthetic timeline\<close>

lemma synthetic_explained:
  assumes "crypto_ok H sig_of" "signs_always sig_of s" "key_pair sig_of vrf s" "synthetic_signer_ok s"
    and "g \<le> as_generation s"
  shows "\<exists>trust w vs cp. syntheticProtectedAuditTimelineV1 H sig_of s (Some g) = Inr (trust, w, vs, cp)
    \<and> written H sig_of w \<and> vs = snapshot w \<and> checkpoint_of H sig_of w (synthetic_base + 100) = Inr cp
    \<and> w_signer w = s \<and> tp_timelineId trust = w_timelineId w \<and> tp_tenant trust = w_tenant w \<and> trusts trust s
    \<and> map vf_kind (facts_of (w_envelopes w)) = map fst synthetic_steps
    \<and> ex_status (explainProtectedAuditTimelineV1 H vrf vs (checkpoint_js cp) trust) = VERIFIED_SUCCESS"
proof -
  obtain w cp where w: "syntheticProtectedAuditTimelineV1 H sig_of s (Some g)
      = Inr (signer_trust s ''tenant:panskys-zoo'' ''timeline:aas023-fixture'' g, w, snapshot w, cp)"
    and sw: "synthetic_writer H sig_of s 8 synthetic_steps w"
    and cp: "checkpoint_of H sig_of w (synthetic_base + 100) = Inr cp"
    using synthetic_timeline [OF assms(1,2,4), of "Some g"] by auto
  let ?trust = "signer_trust s ''tenant:panskys-zoo'' ''timeline:aas023-fixture'' g"
  have wr: "written H sig_of w" "w_signer w = s" "w_timelineId w = ''timeline:aas023-fixture''"
    "w_tenant w = ''tenant:panskys-zoo''"
    and seen: "map (\<lambda>p. (au_kind (ae_event p), af_outcome (au_facts (ae_event p)))) (w_envelopes w) = synthetic_steps"
    using sw unfolding synthetic_writer_def by blast+
  have tr: "trusts ?trust s" by (rule signer_trust_trusts [OF assms(5)])
  have sc: "tp_timelineId ?trust = w_timelineId w" "tp_tenant ?trust = w_tenant w"
    by (simp_all add: wr signer_trust_def)
  have v: "verifyProtectedAuditTimelineV1 H vrf (snapshot w) (checkpoint_js cp) ?trust
      = VERIFIED (w_timelineId w) (w_tenant w) (protectedAuditCheckpointDigestV1 H cp) (facts_of (w_envelopes w))"
    using assms(3) tr cp unfolding checkpoint_of_def
    by (intro written_verified [OF assms(1) written_ok [OF wr(1) assms(1)]] sc) (simp_all add: wr)
  have ne: "w_envelopes w \<noteq> []" using seen by (auto simp: synthetic_steps_def)
  have "(au_kind (ae_event (last (w_envelopes w))), af_outcome (au_facts (ae_event (last (w_envelopes w)))))
      = last synthetic_steps"
    unfolding seen [symmetric] using ne by (simp add: last_map)
  then have "terminal_success (factOf (ae_event (last (w_envelopes w))) (ae_eventDigest (last (w_envelopes w))))"
    by (simp add: synthetic_steps_def terminal_success_def factOf_def)
  moreover have "at_last (facts_of (w_envelopes w))
      = Some (factOf (ae_event (last (w_envelopes w))) (ae_eventDigest (last (w_envelopes w))))"
    using ne by (simp add: facts_of_def at_last_def last_map)
  ultimately have "ex_status (explainProtectedAuditTimelineV1 H vrf (snapshot w) (checkpoint_js cp) ?trust) = VERIFIED_SUCCESS"
    unfolding explain_success using v by blast
  moreover have "map vf_kind (facts_of (w_envelopes w)) = map fst synthetic_steps"
    unfolding seen [symmetric] by (simp add: comp_def)
  ultimately show ?thesis using w wr(1,2) cp sc tr by blast
qed

text \<open>
  A whole operation can be recorded and explained. The synthetic timeline, eight events from an
  identity to a committed readback written one after another, is built without an exception, and is
  explained as a verified success, whatever the hash and the keys, if digests are hexadecimal, signatures
  are base64 and verify, and the signer's window contains the fixed times.
\<close>

theorem synthetic_timeline_succeeds:
  assumes "crypto_ok H sig_of" "signs_always sig_of s" "key_pair sig_of vrf s" "synthetic_signer_ok s"
    and "g \<le> as_generation s"
  shows "\<exists>trust w vs cp. syntheticProtectedAuditTimelineV1 H sig_of s (Some g) = Inr (trust, w, vs, cp)
    \<and> length vs = 8
    \<and> ex_status (explainProtectedAuditTimelineV1 H vrf vs (checkpoint_js cp) trust) = VERIFIED_SUCCESS"
proof -
  obtain trust w vs cp where s: "syntheticProtectedAuditTimelineV1 H sig_of s (Some g) = Inr (trust, w, vs, cp)"
    "vs = snapshot w" "map vf_kind (facts_of (w_envelopes w)) = map fst synthetic_steps"
    "ex_status (explainProtectedAuditTimelineV1 H vrf vs (checkpoint_js cp) trust) = VERIFIED_SUCCESS"
    using synthetic_explained [OF assms] by blast
  have "length vs = 8"
    using arg_cong [OF s(3), of length] by (simp add: s(2) snapshot_def synthetic_steps_def)
  with s(1,4) show ?thesis by blast
qed

subsection \<open>The properties at a concrete timeline\<close>

text \<open>A hash that tells a checkpoint from an envelope, and keys of one signature.\<close>

definition audit_sample_hash :: hash where
  "audit_sample_hash t = replicate 64
     (if take 8 t = [CHR 0x7B, CHR 0x22, CHR ''e'', CHR ''v'', CHR ''e'', CHR ''n'', CHR ''t'', CHR ''C'']
      then CHR ''1'' else CHR ''0'')"

definition sample_sign :: sign_fn where "sample_sign key text = Inr ''AAAA''"
definition sample_verify :: verify_fn where "sample_verify key text sig \<longleftrightarrow> sig = ''AAAA''"

definition sample_signer :: audit_signer where
  "sample_signer = createSyntheticProtectedAuditSignerV1 None None None None ''private'' ''public''"

lemma sample_crypto:
  "crypto_ok audit_sample_hash sample_sign" "signs_always sample_sign sample_signer"
  "key_pair sample_sign sample_verify sample_signer" "synthetic_signer_ok sample_signer"
  "1 \<le> as_generation sample_signer"
proof -
  have "hex64 (audit_sample_hash t)" for t
    by (simp add: audit_sample_hash_def hex64_iff list_all_iff in_class_def d0_9_def)
  moreover have "canonical_base64 ''AAAA''" by (simp add: base64_value_def)
  ultimately show "crypto_ok audit_sample_hash sample_sign" by (simp add: crypto_ok_def sample_sign_def)
  show "signs_always sample_sign sample_signer" by (simp add: signs_always_def sample_sign_def)
  show "key_pair sample_sign sample_verify sample_signer"
    by (simp add: key_pair_def sample_sign_def sample_verify_def)
  show "synthetic_signer_ok sample_signer" "1 \<le> as_generation sample_signer"
    using synthetic_ids_ok
    by (simp_all add: synthetic_signer_ok_def sample_signer_def createSyntheticProtectedAuditSignerV1_def
        count_ok_def max_safe_def synthetic_base_def)
qed

lemma sample_timeline:
  obtains trust w cp where "syntheticProtectedAuditTimelineV1 audit_sample_hash sample_sign sample_signer (Some 1)
      = Inr (trust, w, snapshot w, cp)"
    "written audit_sample_hash sample_sign w" "checkpoint_of audit_sample_hash sample_sign w (synthetic_base + 100) = Inr cp"
    "w_signer w = sample_signer" "tp_timelineId trust = w_timelineId w" "tp_tenant trust = w_tenant w"
    "trusts trust sample_signer"
    "ex_status (explainProtectedAuditTimelineV1 audit_sample_hash sample_verify (snapshot w) (checkpoint_js cp) trust)
      = VERIFIED_SUCCESS"
  using synthetic_explained [OF sample_crypto] by blast

definition sample_writer :: audit_writer where
  "sample_writer = \<lparr>w_timelineId = ''timeline:aas023-fixture'', w_tenant = ''tenant:panskys-zoo'',
     w_signer = sample_signer, w_envelopes = [], w_eventsById = \<lambda>_. None\<rparr>"

definition sample_event :: audit_event where
  "sample_event = syntheticEvent audit_sample_hash (\<lambda>_. None) 0 IDENTITY OBSERVED"

lemma sample_writer_new:
  "newWriter ''timeline:aas023-fixture'' ''tenant:panskys-zoo'' sample_signer = Inr sample_writer"
  using synthetic_ids_ok by (simp add: newWriter_def sample_writer_def)

lemma sample_append:
  obtains env w where "append_event audit_sample_hash sample_sign sample_writer (event_js sample_event)
      (synthetic_base + 12) = Inr (FIRST, env, w)" "w_envelopes w = [env]" "w_signer w = sample_signer"
    "written audit_sample_hash sample_sign w" "signedAtMs env \<le> synthetic_base + 12"
proof -
  have w0: "synthetic_writer audit_sample_hash sample_sign sample_signer 0 [] sample_writer"
    using created [OF sample_writer_new] by (simp add: synthetic_writer_def sample_writer_def)
  have es: "w_envelopes sample_writer = []" and m: "priorByKind [] = (\<lambda>_. None)"
    by (simp add: sample_writer_def) (simp add: priorByKind_def fun_eq_iff)
  obtain env w where "append_event audit_sample_hash sample_sign sample_writer
      (event_js (syntheticEvent audit_sample_hash (priorByKind (w_envelopes sample_writer)) 0 IDENTITY OBSERVED))
      (synthetic_base + (int 0 + 1) * 10 + 2) = Inr (FIRST, env, w)"
    "synthetic_writer audit_sample_hash sample_sign sample_signer (Suc 0) ([] @ [(IDENTITY, OBSERVED)]) w"
    "w_envelopes w = w_envelopes sample_writer @ [env]"
    by (rule synthetic_step [OF sample_crypto(1) w0 _ _ synthetic_usable [OF sample_crypto(4)] sample_crypto(2),
          of IDENTITY "[]" OBSERVED]) simp_all
  then show thesis using that by (simp add: es m sample_event_def synthetic_writer_def add.commute)
qed

lemma append_refines_log_witness:
  "\<exists>env w. append_event audit_sample_hash sample_sign sample_writer (event_js sample_event) (synthetic_base + 12)
      = Inr (FIRST, env, w) \<and> w_envelopes w = [env] \<and> audit_log audit_sample_hash [env]"
proof -
  obtain env w where a: "append_event audit_sample_hash sample_sign sample_writer (event_js sample_event)
      (synthetic_base + 12) = Inr (FIRST, env, w)" "w_envelopes w = [env]" by (rule sample_append)
  obtain e d where v: "validateProtectedAuditEventV1 audit_sample_hash (event_js sample_event) = Inr (e, d)"
    using a(1) unfolding append_event_def res_bind_Inr_iff by auto
  from append_refines_log [OF created [OF sample_writer_new] sample_crypto(1) v, of "synthetic_base + 12"] a
  show ?thesis by auto
qed

lemma written_timeline_verifies_witness:
  "\<exists>trust w cp d. syntheticProtectedAuditTimelineV1 audit_sample_hash sample_sign sample_signer (Some 1)
      = Inr (trust, w, snapshot w, cp)
    \<and> verifyProtectedAuditTimelineV1 audit_sample_hash sample_verify (snapshot w) (checkpoint_js cp) trust
      = VERIFIED (w_timelineId w) (w_tenant w) d (facts_of (w_envelopes w))"
proof -
  obtain trust w cp where t: "syntheticProtectedAuditTimelineV1 audit_sample_hash sample_sign sample_signer (Some 1)
      = Inr (trust, w, snapshot w, cp)" "written audit_sample_hash sample_sign w"
    "checkpoint_of audit_sample_hash sample_sign w (synthetic_base + 100) = Inr cp" "w_signer w = sample_signer"
    "tp_timelineId trust = w_timelineId w" "tp_tenant trust = w_tenant w" "trusts trust sample_signer"
    by (rule sample_timeline)
  from written_timeline_verifies [OF t(2) sample_crypto(1) _ _ t(5,6,3)] t(1,4,7) sample_crypto(3)
  show ?thesis by auto
qed

lemma verified_facts_causal_witness:
  "\<exists>trust w cp tid tn d fs. syntheticProtectedAuditTimelineV1 audit_sample_hash sample_sign sample_signer (Some 1)
      = Inr (trust, w, snapshot w, cp)
    \<and> verifyProtectedAuditTimelineV1 audit_sample_hash sample_verify (snapshot w) (checkpoint_js cp) trust
      = VERIFIED tid tn d fs \<and> vf_kind (fs ! 0) = IDENTITY \<and> length fs \<le> 11"
proof -
  obtain trust w cp where t: "syntheticProtectedAuditTimelineV1 audit_sample_hash sample_sign sample_signer (Some 1)
      = Inr (trust, w, snapshot w, cp)"
    "ex_status (explainProtectedAuditTimelineV1 audit_sample_hash sample_verify (snapshot w) (checkpoint_js cp) trust)
      = VERIFIED_SUCCESS" by (rule sample_timeline)
  obtain tid tn d fs where v: "verifyProtectedAuditTimelineV1 audit_sample_hash sample_verify (snapshot w)
      (checkpoint_js cp) trust = VERIFIED tid tn d fs" using t(2) unfolding explain_success by blast
  from verified_facts_causal [OF v] v t(1) show ?thesis by blast
qed

lemma success_needs_approved_effect_witness:
  "\<exists>trust w cp. syntheticProtectedAuditTimelineV1 audit_sample_hash sample_sign sample_signer (Some 1)
      = Inr (trust, w, snapshot w, cp)
    \<and> EFFECT \<in> vf_kind ` set (ex_stages (explainProtectedAuditTimelineV1 audit_sample_hash sample_verify (snapshot w)
        (checkpoint_js cp) trust))"
proof -
  obtain trust w cp where t: "syntheticProtectedAuditTimelineV1 audit_sample_hash sample_sign sample_signer (Some 1)
      = Inr (trust, w, snapshot w, cp)"
    "ex_status (explainProtectedAuditTimelineV1 audit_sample_hash sample_verify (snapshot w) (checkpoint_js cp) trust)
      = VERIFIED_SUCCESS" by (rule sample_timeline)
  from success_needs_approved_effect [OF t(2)] t(1) show ?thesis by (blast dest: in_set_butlastD)
qed

lemma synthetic_timeline_succeeds_witness:
  "\<exists>trust w vs cp. syntheticProtectedAuditTimelineV1 audit_sample_hash sample_sign sample_signer (Some 1)
      = Inr (trust, w, vs, cp) \<and> length vs = 8"
  using synthetic_timeline_succeeds [OF sample_crypto] by blast

lemma text_start:
  assumes "plain (JObj i kvs)" "sort_key fst kvs = (k, v) # rest"
  shows "\<exists>r. canonText (JObj i kvs) = CHR 0x7B # quote k @ r"
proof -
  obtain t where "canonicalJson (JObj i kvs) = Inr t" using canonText_plain [OF assms(1)] by blast
  then obtain tv ts where "t = ''{'' @ join '','' ((quote k @ '':'' @ tv) # ts) @ ''}''"
    by (auto simp: assms(2) res_simps split: if_splits)
  then have "canonText (JObj i kvs) = ''{'' @ join '','' ((quote k @ '':'' @ tv) # ts) @ ''}''"
    using \<open>canonicalJson (JObj i kvs) = Inr t\<close> by (simp add: canonText_def)
  then show ?thesis by (cases ts) auto
qed

lemma sample_checkpoint:
  assumes "w_envelopes w = [env]" "w_signer w = sample_signer" "signedAtMs env \<le> synthetic_base + 100"
  obtains cp where
    "createCheckpoint audit_sample_hash sample_sign (w_envelopes w) (w_signer w) (synthetic_base + 100) = Inr cp"
proof -
  have "usable sample_signer (synthetic_base + 100)" using synthetic_usable [OF sample_crypto(4)] by simp
  then have "assertSignerUsable sample_signer (synthetic_base + 100) = Inr ()" unfolding assertSignerUsable_iff .
  then show thesis
    using that assms by (simp add: createCheckpoint_def at_last_def sample_sign_def Let_def)
qed

lemma sample_texts: "audit_sample_hash (canonText (checkpoint_js cp)) \<noteq> audit_sample_hash (canonText (audit_envelope_js env))"
proof -
  have c: "\<exists>r. canonText (checkpoint_js cp) = CHR 0x7B # quote ''eventCount'' @ r"
    unfolding checkpoint_js_def
    by (rule text_start) (simp_all add: checkpoint_plain [unfolded checkpoint_js_def] checkpoint_core_def)
  have e: "\<exists>r. canonText (audit_envelope_js env) = CHR 0x7B # quote ''event'' @ r"
    unfolding audit_envelope_js_def
    by (rule text_start) (simp_all add: envelope_plain [unfolded audit_envelope_js_def] envelope_core_def)
  from c e show ?thesis by (auto simp: audit_sample_hash_def quote_def esc_def dquote_def)
qed

lemma checkpoint_binds_timeline_witness:
  "\<exists>env w cp d fs. append_event audit_sample_hash sample_sign sample_writer (event_js sample_event)
      (synthetic_base + 12) = Inr (FIRST, env, w)
    \<and> (\<forall>g \<in> {0, 1}. verifyProtectedAuditTimelineV1 audit_sample_hash sample_verify [audit_envelope_js env]
        (checkpoint_js cp) (signer_trust sample_signer (w_tenant w) (w_timelineId w) g)
        = VERIFIED (w_timelineId w) (w_tenant w) d fs)
    \<and> fs = facts_of [env]"
proof -
  obtain env w where a: "append_event audit_sample_hash sample_sign sample_writer (event_js sample_event)
      (synthetic_base + 12) = Inr (FIRST, env, w)" "w_envelopes w = [env]" "w_signer w = sample_signer"
    "written audit_sample_hash sample_sign w" "signedAtMs env \<le> synthetic_base + 12" by (rule sample_append)
  obtain cp where cp: "createCheckpoint audit_sample_hash sample_sign (w_envelopes w) (w_signer w)
      (synthetic_base + 100) = Inr cp" by (rule sample_checkpoint [OF a(2,3)]) (use a(5) in simp)
  let ?trust = "signer_trust sample_signer (w_tenant w) (w_timelineId w)"
  have snap: "snapshot w = [audit_envelope_js env]" by (simp add: snapshot_def a(2))
  have v: "verifyProtectedAuditTimelineV1 audit_sample_hash sample_verify [audit_envelope_js env] (checkpoint_js cp)
      (?trust g) = VERIFIED (w_timelineId w) (w_tenant w) (protectedAuditCheckpointDigestV1 audit_sample_hash cp)
        (facts_of (w_envelopes w))" if "g \<le> 1" for g
    unfolding snap [symmetric]
    by (rule written_verified [OF sample_crypto(1) written_ok [OF a(4) sample_crypto(1)] _ _ _ _ cp])
      (use sample_crypto(3,5) that in \<open>simp_all add: a(3) signer_trust_trusts, simp_all add: signer_trust_def\<close>)
  have "facts_of (w_envelopes w) = facts_of [env]"
    using checkpoint_binds_timeline [OF v [of 0] v [of 1]] sample_texts [of cp env] by (simp add: a(2))
  then show ?thesis using a(1) v [of 0] v [of 1] by auto
qed

end
