(* ===== verification/Redaction.thy ===== *)
theory Redaction
  imports Patterns
begin

text \<open>
  \<open>String.prototype.replace\<close> with a global regular expression, as the model broker uses it
  (\<open>packages/contracts/src/model-access-broker.ts\<close>, \<open>secretPattern\<close> and \<open>injectionPattern\<close>): the text
  is cut from left to right into matches and characters that start none, and the matches are replaced.
  A match is the longest prefix in the language of the pattern. For the two patterns that is also the
  match a backtracking engine finds: no two alternatives start with the same characters, and every
  repetition is followed by a character outside its class or by nothing, so the matches at a position
  differ only in the length of a last repetition, which is greedy.
\<close>

fun longest_match :: "rx \<Rightarrow> string \<Rightarrow> nat option" where
  "longest_match r [] = (if rx_null r then Some 0 else None)"
| "longest_match r (c # s) =
     (case longest_match (rx_deriv c r) s of
        Some n \<Rightarrow> Some (Suc n)
      | None \<Rightarrow> if rx_null r then Some 0 else None)"

lemma longest_match_Some:
  "longest_match r s = Some n \<Longrightarrow> n \<le> length s \<and> take n s \<in> rx_lang r"
  by (induction r s arbitrary: n rule: longest_match.induct)
    (auto simp: rx_null_lang rx_deriv_lang split: option.splits if_splits)

lemma longest_match_maximal:
  "m \<le> length s \<Longrightarrow> take m s \<in> rx_lang r \<Longrightarrow> \<exists>n. longest_match r s = Some n \<and> m \<le> n"
proof (induction r s arbitrary: m rule: longest_match.induct)
  case (2 r c s)
  show ?case
  proof (cases m)
    case 0
    then show ?thesis using "2.prems"(2) by (auto simp: rx_null_lang split: option.split)
  next
    case (Suc k)
    then have "k \<le> length s" "take k s \<in> rx_lang (rx_deriv c r)"
      using "2.prems" by (simp_all add: rx_deriv_lang)
    from "2.IH" [OF this] Suc show ?thesis by auto
  qed
qed (auto simp: rx_null_lang)

text \<open>The cut of a text: parts that matched, and single characters at which no match starts.\<close>

fun cuts :: "rx \<Rightarrow> string \<Rightarrow> (bool \<times> string) list" where
  "cuts r [] = []"
| "cuts r (c # s) =
     (case longest_match r (c # s) of
        Some (Suc n) \<Rightarrow> (True, c # take n s) # cuts r (drop n s)
      | _ \<Rightarrow> (False, [c]) # cuts r s)"

definition replaceAll :: "rx \<Rightarrow> (string \<Rightarrow> string) \<Rightarrow> string \<Rightarrow> string" where
  "replaceAll r f s = concat (map (\<lambda>(hit, part). if hit then f part else part) (cuts r s))"

definition hits :: "rx \<Rightarrow> string \<Rightarrow> nat" where
  "hits r s = length (filter fst (cuts r s))"

lemma cut_concat: "concat (map snd (cuts r s)) = s"
  by (induction r s rule: cuts.induct) (auto split: option.split nat.split)

lemma cut_hits: "(True, part) \<in> set (cuts r s) \<Longrightarrow> part \<noteq> [] \<and> part \<in> rx_lang r"
proof (induction r s rule: cuts.induct)
  case (2 r c s)
  show ?case
  proof (cases "longest_match r (c # s)")
    case (Some n)
    with "2" longest_match_Some [OF Some] show ?thesis by (cases n) auto
  qed (use "2" in auto)
qed simp

text \<open>No match starts at a character that is kept.\<close>

lemma cut_miss:
  assumes "longest_match r s = None \<or> longest_match r s = Some 0" "w \<in> rx_lang r" "w \<noteq> []"
  shows "s \<noteq> w @ rest"
proof
  assume "s = w @ rest"
  then have "length w \<le> length s" "take (length w) s \<in> rx_lang r" using assms(2) by simp_all
  from longest_match_maximal [OF this] assms(1,3) show False by auto
qed

lemma cut_kept:
  assumes "cuts r s = us @ (False, part) # vs" "w \<in> rx_lang r" "w \<noteq> []"
  shows "part @ concat (map snd vs) \<noteq> w @ rest"
  using assms
proof (induction r s arbitrary: us rule: cuts.induct)
  case (2 r c s)
  show ?case
  proof (cases "\<exists>n. longest_match r (c # s) = Some (Suc n)")
    case True
    then obtain n where n: "longest_match r (c # s) = Some (Suc n)" by blast
    with "2.prems"(1) obtain us' where "cuts r (drop n s) = us' @ (False, part) # vs" by (cases us) auto
    from "2.IH"(3) [OF n refl this "2.prems"(2,3)] show ?thesis .
  next
    case False
    then have m: "longest_match r (c # s) = None \<or> longest_match r (c # s) = Some 0"
      by (metis not0_implies_Suc option.exhaust)
    then have c: "cuts r (c # s) = (False, [c]) # cuts r s"
      by (auto simp del: longest_match.simps)
    show ?thesis
    proof (cases us)
      case Nil
      then have "part @ concat (map snd vs) = c # s" using "2.prems"(1) c by (auto simp: cut_concat)
      then show ?thesis using cut_miss [OF m "2.prems"(2,3)] by metis
    next
      case (Cons u us')
      then have e: "cuts r s = us' @ (False, part) # vs" using "2.prems"(1) c by simp
      from m show ?thesis
      proof
        assume "longest_match r (c # s) = None"
        from "2.IH"(1) [OF this e "2.prems"(2,3)] show ?thesis .
      next
        assume "longest_match r (c # s) = Some 0"
        from "2.IH"(2) [OF this refl e "2.prems"(2,3)] show ?thesis .
      qed
    qed
  qed
qed simp

lemma hits_0: "hits r s = 0 \<Longrightarrow> replaceAll r f s = s"
proof -
  assume "hits r s = 0"
  then have "\<forall>p \<in> set (cuts r s). \<not> fst p" by (simp add: hits_def filter_empty_conv)
  then have "map (\<lambda>(hit, part). if hit then f part else part) (cuts r s) = map snd (cuts r s)"
    by (intro map_cong) auto
  then show "replaceAll r f s = s" unfolding replaceAll_def by (simp only: cut_concat)
qed

end
