(* ===== verification/ModelAccess.thy ===== *)
theory ModelAccess
  imports Redaction Guards
begin

text \<open>
  The guards of the model broker (\<open>packages/contracts/src/model-access-broker.ts\<close>): the data of
  requests, routes, policies and responses, \<open>guardModelRequestV1\<close>, the adapters to the three provider
  protocols, \<open>guardModelResponseV1\<close> and the stream parser. \<open>JSON.parse\<close> is a parameter of the parser,
  because the texts it reads may hold escapes and numbers the value model does not have; nothing is
  assumed of it.
  A request is read into the record \<open>model_request\<close> once the guard has checked it; what the code
  leaves unchecked in it (the schemas, the optional fields, the delegation digest) stays a value. An
  object that is not a plain record (\<open>JOdd\<close>) has no properties here; a request that holds one has no
  digest, so \<open>invoke\<close> rejects it whatever the guard says.
\<close>

subsection \<open>Data\<close>

definition MODEL_REQUEST_SCHEMA_V1 :: string where
  "MODEL_REQUEST_SCHEMA_V1 = ''chimpmaera.model/model-request/v1''"
definition MODEL_RESPONSE_SCHEMA_V1 :: string where
  "MODEL_RESPONSE_SCHEMA_V1 = ''chimpmaera.model/model-response/v1''"
definition MODEL_STREAM_SCHEMA_V1 :: string where
  "MODEL_STREAM_SCHEMA_V1 = ''chimpmaera.model/model-stream-event/v1''"

datatype model_protocol = OPENAI_CHAT_COMPLETIONS | OPENAI_RESPONSES | ANTHROPIC_MESSAGES

datatype guard_outcome = ALLOW | DENY | OWNER_ESCALATION | THROTTLE | QUARANTINE

fun protocol_text :: "model_protocol \<Rightarrow> string" where
  "protocol_text OPENAI_CHAT_COMPLETIONS = ''OPENAI_CHAT_COMPLETIONS''"
| "protocol_text OPENAI_RESPONSES = ''OPENAI_RESPONSES''"
| "protocol_text ANTHROPIC_MESSAGES = ''ANTHROPIC_MESSAGES''"

record attachment =
  at_mediaType :: string
  at_digest :: string
  at_bytes :: int
  at_reference :: string

record model_tool =
  mt_name :: string
  mt_description :: string
  mt_inputSchema :: js

record model_budget =
  maxInputBytes :: int
  maxOutputBytes :: int
  maxTokens :: int
  maxCostMicros :: int
  maxRequests :: int
  timeoutMs :: int

record model_route =
  rt_routeId :: string
  rt_provider :: string
  rt_model :: string
  rt_protocol :: model_protocol
  credentialHandle :: string
  allowedTenants :: "string list"
  allowedPurposes :: "string list"
  allowedFields :: "string list"
  attachmentMediaTypes :: "string list"

record access_policy =
  routes :: "model_route list"
  workloadIdentities :: "string list"
  userIdentities :: "string list"
  maxBudget :: model_budget

record model_request =
  mq_workloadIdentity :: string
  mq_userIdentity :: string
  mq_tenant :: string
  mq_purpose :: string
  mq_delegationDigest :: js
  mq_operationId :: string
  mq_correlationId :: string
  mq_routeId :: string
  mq_provider :: string
  mq_model :: string
  mq_protocol :: model_protocol
  mq_dataClassification :: string
  mq_trustClass :: string
  mq_text :: string
  mq_attachments :: "attachment list"
  mq_tools :: "model_tool list"
  mq_structuredOutput :: js
  mq_optionalFields :: js
  mq_budget :: model_budget

record tool_candidate =
  tc_id :: string
  tc_name :: string
  tc_arguments :: js

record model_response =
  mr_operationId :: string
  mr_correlationId :: string
  mr_provider :: string
  mr_model :: string
  mr_protocol :: model_protocol
  mr_contentType :: string
  mr_text :: string
  mr_structuredOutput :: js
  toolCallCandidates :: "tool_candidate list"
  mr_routeId :: string
  providerRequestDigest :: string
  providerResponseDigest :: string
  mr_usage :: js

record stream_event =
  se_operationId :: string
  se_sequence :: int
  se_event :: js
  se_data :: js

subsection \<open>Encodings\<close>

definition attachment_js :: "attachment \<Rightarrow> js" where
  "attachment_js a = obj [(''mediaType'', JStr (at_mediaType a)), (''digest'', JStr (at_digest a)),
     (''bytes'', jint (at_bytes a)), (''reference'', JStr (at_reference a))]"

definition tool_js :: "model_tool \<Rightarrow> js" where
  "tool_js t = obj [(''name'', JStr (mt_name t)), (''description'', JStr (mt_description t)),
     (''inputSchema'', mt_inputSchema t)]"

definition budget_js :: "model_budget \<Rightarrow> js" where
  "budget_js b = obj [(''maxInputBytes'', jint (maxInputBytes b)), (''maxOutputBytes'', jint (maxOutputBytes b)),
     (''maxTokens'', jint (maxTokens b)), (''maxCostMicros'', jint (maxCostMicros b)),
     (''maxRequests'', jint (maxRequests b)), (''timeoutMs'', jint (timeoutMs b))]"

definition request_js :: "model_request \<Rightarrow> js" where
  "request_js q = obj
     [(''schemaVersion'', JStr MODEL_REQUEST_SCHEMA_V1), (''workloadIdentity'', JStr (mq_workloadIdentity q)),
      (''userIdentity'', JStr (mq_userIdentity q)), (''tenant'', JStr (mq_tenant q)),
      (''purpose'', JStr (mq_purpose q)), (''delegationDigest'', mq_delegationDigest q),
      (''operationId'', JStr (mq_operationId q)), (''correlationId'', JStr (mq_correlationId q)),
      (''routeId'', JStr (mq_routeId q)), (''provider'', JStr (mq_provider q)), (''model'', JStr (mq_model q)),
      (''protocol'', JStr (protocol_text (mq_protocol q))),
      (''dataClassification'', JStr (mq_dataClassification q)), (''trustClass'', JStr (mq_trustClass q)),
      (''text'', JStr (mq_text q)), (''attachments'', arr (map attachment_js (mq_attachments q))),
      (''tools'', arr (map tool_js (mq_tools q))), (''structuredOutput'', mq_structuredOutput q),
      (''optionalFields'', mq_optionalFields q), (''budget'', budget_js (mq_budget q))]"

definition tool_candidate_js :: "tool_candidate \<Rightarrow> js" where
  "tool_candidate_js c = obj [(''id'', JStr (tc_id c)), (''name'', JStr (tc_name c)), (''arguments'', tc_arguments c),
     (''trust'', JStr ''UNTRUSTED_MODEL_OUTPUT''), (''authority'', JStr ''NONE'')]"

definition response_js :: "model_response \<Rightarrow> js" where
  "response_js r = obj
     [(''schemaVersion'', JStr MODEL_RESPONSE_SCHEMA_V1), (''operationId'', JStr (mr_operationId r)),
      (''correlationId'', JStr (mr_correlationId r)), (''provider'', JStr (mr_provider r)),
      (''model'', JStr (mr_model r)), (''protocol'', JStr (protocol_text (mr_protocol r))),
      (''trust'', JStr ''UNTRUSTED_MODEL_OUTPUT''), (''contentType'', JStr (mr_contentType r)),
      (''text'', JStr (mr_text r)), (''structuredOutput'', mr_structuredOutput r),
      (''toolCallCandidates'', arr (map tool_candidate_js (toolCallCandidates r))),
      (''provenance'', obj [(''routeId'', JStr (mr_routeId r)),
         (''providerRequestDigest'', JStr (providerRequestDigest r)),
         (''providerResponseDigest'', JStr (providerResponseDigest r))]),
      (''usage'', mr_usage r)]"

subsection \<open>Patterns\<close>

text \<open>A literal under the flag \<open>i\<close>: every letter in both cases.\<close>

definition flip_case :: "char \<Rightarrow> char" where
  "flip_case c =
     (let n = of_char c :: nat in
      if 65 \<le> n \<and> n \<le> 90 then char_of (n + 32) else if 97 \<le> n \<and> n \<le> 122 then char_of (n - 32) else c)"

definition ci_lit :: "string \<Rightarrow> rx" where
  "ci_lit s = foldr (\<lambda>c r. Seq (Cls [(c, c), (flip_case c, flip_case c)]) r) s Eps"

text \<open>\<open>\s\<close> and \<open>\S\<close> below code unit 256.\<close>

definition space_class :: "(char \<times> char) list" where
  "space_class = [(CHR 0x09, CHR 0x0D), (CHR 0x20, CHR 0x20), (CHR 0xA0, CHR 0xA0)]"
definition non_space_class :: "(char \<times> char) list" where
  "non_space_class = [(CHR 0x00, CHR 0x08), (CHR 0x0E, CHR 0x1F), (CHR 0x21, CHR 0x9F), (CHR 0xA1, CHR 0xFF)]"

definition secretPattern :: rx where
  "secretPattern =
     Alt (Seq (ci_lit ''sk-'') (Rep (Cls ([A_Z, a_z, d0_9] @ chars ''_-'')) 12 None))
    (Alt (Seq (ci_lit ''AKIA'') (Rep (Cls [A_Z, a_z, d0_9]) 16 (Some 16)))
    (Alt (Seq (ci_lit ''-----BEGIN '')
           (Seq (rx_opt (Alt (ci_lit ''RSA '') (Alt (ci_lit ''EC '') (ci_lit ''OPENSSH ''))))
             (ci_lit ''PRIVATE KEY-----'')))
         (Seq (Alt (ci_lit ''password'')
             (Alt (Seq (ci_lit ''api'') (Seq (rx_opt (Cls (chars ''_-''))) (ci_lit ''key'')))
                  (Seq (ci_lit ''access'') (Seq (rx_opt (Cls (chars ''_-''))) (ci_lit ''token'')))))
           (Seq (rx_star (Cls space_class)) (Seq (Cls (chars '':=''))
             (Seq (rx_star (Cls space_class)) (Rep (Cls non_space_class) 8 None)))))))"

definition injectionPattern :: rx where
  "injectionPattern =
     Alt (Seq (ci_lit ''ignore '') (Seq (rx_opt (ci_lit ''all ''))
           (Seq (Alt (ci_lit ''previous'') (ci_lit ''system'')) (ci_lit '' instructions''))))
    (Alt (ci_lit ''system prompt'') (Alt (ci_lit ''developer message'')
    (Alt (ci_lit ''mint authority'') (ci_lit ''execute tool now''))))"

definition model_id :: "string \<Rightarrow> rx" where
  "model_id prefix = Seq (lit prefix) (Seq (one (CHR '':''))
     (Seq (Cls [a_z, d0_9]) (Rep (Cls ([a_z, d0_9] @ chars ''._-'')) 2 (Some 63))))"

definition ATTACHMENT_REFERENCE :: rx where
  "ATTACHMENT_REFERENCE = Seq (lit ''attachment:'') (Rep (Cls ([a_z, d0_9] @ chars ''._-'')) 3 (Some 80))"
definition TOOL_NAME :: rx where
  "TOOL_NAME = Seq (Cls [a_z]) (Rep (Cls ([a_z, d0_9] @ chars ''_.-'')) 2 (Some 63))"
definition TOOL_CALL_ID :: rx where
  "TOOL_CALL_ID = Seq (lit ''tool:'') (Rep (Cls ([a_z, d0_9] @ chars ''._-'')) 3 (Some 80))"

definition boundId :: "js \<Rightarrow> string \<Rightarrow> bool" where
  "boundId v prefix = str_test (rx_test (model_id prefix)) v"

definition boundedInteger :: "js \<Rightarrow> int \<Rightarrow> int \<Rightarrow> bool" where
  "boundedInteger v lo hi \<longleftrightarrow> is_safe_integer v \<and> lo \<le> int_of_js v \<and> int_of_js v \<le> hi"

text \<open>\<open>Buffer.byteLength(s)\<close>: the length of the UTF-8 text.\<close>

definition byteLength :: "string \<Rightarrow> int" where
  "byteLength s = int (sum_list (map (\<lambda>c. if (of_char c :: nat) < 128 then 1 else 2) s))"

text \<open>\<open>typeof v === "object"\<close> of a value that is neither \<open>null\<close> nor an array.\<close>

definition is_object :: "js \<Rightarrow> bool" where
  "is_object v = (case v of JObj i kvs \<Rightarrow> True | JOdd i \<Rightarrow> True | _ \<Rightarrow> False)"

text \<open>\<open>value.key\<close>: nothing but a record has the properties read here.\<close>

definition fld :: "js \<Rightarrow> string \<Rightarrow> js" where
  "fld v k = getf (fields_of v) k"

subsection \<open>The request guard\<close>

definition REQUEST_KEYS :: "string list" where
  "REQUEST_KEYS = [''attachments'', ''budget'', ''correlationId'', ''dataClassification'',
     ''delegationDigest'', ''model'', ''operationId'', ''optionalFields'', ''protocol'',
     ''provider'', ''purpose'', ''routeId'', ''schemaVersion'', ''structuredOutput'',
     ''tenant'', ''text'', ''tools'', ''trustClass'', ''userIdentity'', ''workloadIdentity'']"

definition BUDGET_KEYS :: "string list" where
  "BUDGET_KEYS = [''maxCostMicros'', ''maxInputBytes'', ''maxOutputBytes'', ''maxRequests'',
     ''maxTokens'', ''timeoutMs'']"

definition validateBudget :: "js \<Rightarrow> model_budget \<Rightarrow> bool" where
  "validateBudget v ceiling \<longleftrightarrow> exactKeys v BUDGET_KEYS
     \<and> list_all (\<lambda>(key, hi). boundedInteger (fld v key) 1 hi)
         [(''maxInputBytes'', maxInputBytes ceiling), (''maxOutputBytes'', maxOutputBytes ceiling),
          (''maxTokens'', maxTokens ceiling), (''maxCostMicros'', maxCostMicros ceiling),
          (''maxRequests'', maxRequests ceiling), (''timeoutMs'', timeoutMs ceiling)]"

definition readBudget :: "js \<Rightarrow> model_budget" where
  "readBudget v = \<lparr>maxInputBytes = int_of_js (fld v ''maxInputBytes''),
     maxOutputBytes = int_of_js (fld v ''maxOutputBytes''), maxTokens = int_of_js (fld v ''maxTokens''),
     maxCostMicros = int_of_js (fld v ''maxCostMicros''), maxRequests = int_of_js (fld v ''maxRequests''),
     timeoutMs = int_of_js (fld v ''timeoutMs'')\<rparr>"

definition validateAttachments :: "js \<Rightarrow> model_route \<Rightarrow> int \<Rightarrow> bool" where
  "validateAttachments v route inputLimit \<longleftrightarrow> is_array v \<and> length (elems_of v) \<le> 8
     \<and> list_all (\<lambda>item. exactKeys item [''bytes'', ''digest'', ''mediaType'', ''reference'']
          \<and> fld item ''mediaType'' \<in> JStr ` set (attachmentMediaTypes route)
          \<and> boundedInteger (fld item ''bytes'') 1 inputLimit
          \<and> str_test hex64 (fld item ''digest'')
          \<and> str_test (rx_test ATTACHMENT_REFERENCE) (fld item ''reference'')) (elems_of v)"

definition readAttachment :: "js \<Rightarrow> attachment" where
  "readAttachment v = \<lparr>at_mediaType = str_of (fld v ''mediaType''), at_digest = str_of (fld v ''digest''),
     at_bytes = int_of_js (fld v ''bytes''), at_reference = str_of (fld v ''reference'')\<rparr>"

definition validateTools :: "js \<Rightarrow> bool" where
  "validateTools v \<longleftrightarrow> is_array v \<and> length (elems_of v) \<le> 32
     \<and> list_all (\<lambda>t. exactKeys t [''description'', ''inputSchema'', ''name'']
          \<and> str_test (rx_test TOOL_NAME) (fld t ''name'')
          \<and> str_test (\<lambda>s. length s \<le> 512) (fld t ''description'')
          \<and> is_object (fld t ''inputSchema'')) (elems_of v)"

definition readTool :: "js \<Rightarrow> model_tool" where
  "readTool v = \<lparr>mt_name = str_of (fld v ''name''), mt_description = str_of (fld v ''description''),
     mt_inputSchema = fld v ''inputSchema''\<rparr>"

definition findRoute :: "access_policy \<Rightarrow> js \<Rightarrow> model_route option" where
  "findRoute policy v = List.find (\<lambda>route. fld v ''routeId'' = JStr (rt_routeId route)
     \<and> fld v ''provider'' = JStr (rt_provider route) \<and> fld v ''model'' = JStr (rt_model route)
     \<and> fld v ''protocol'' = JStr (protocol_text (rt_protocol route))) (routes policy)"

definition readRequest :: "js \<Rightarrow> model_route \<Rightarrow> model_request" where
  "readRequest v route = \<lparr>mq_workloadIdentity = str_of (fld v ''workloadIdentity''),
     mq_userIdentity = str_of (fld v ''userIdentity''), mq_tenant = str_of (fld v ''tenant''),
     mq_purpose = str_of (fld v ''purpose''), mq_delegationDigest = fld v ''delegationDigest'',
     mq_operationId = str_of (fld v ''operationId''), mq_correlationId = str_of (fld v ''correlationId''),
     mq_routeId = str_of (fld v ''routeId''), mq_provider = str_of (fld v ''provider''),
     mq_model = str_of (fld v ''model''), mq_protocol = rt_protocol route,
     mq_dataClassification = str_of (fld v ''dataClassification''),
     mq_trustClass = str_of (fld v ''trustClass''), mq_text = str_of (fld v ''text''),
     mq_attachments = map readAttachment (elems_of (fld v ''attachments'')),
     mq_tools = map readTool (elems_of (fld v ''tools'')), mq_structuredOutput = fld v ''structuredOutput'',
     mq_optionalFields = fld v ''optionalFields'', mq_budget = readBudget (fld v ''budget'')\<rparr>"

datatype guarded =
    Refused guard_outcome "string list"
  | Admitted model_request model_route nat

definition REDACTED_BEFORE_PROVIDER :: string where
  "REDACTED_BEFORE_PROVIDER = ''[REDACTED_BEFORE_PROVIDER]''"

definition guardModelRequestV1 :: "js \<Rightarrow> access_policy \<Rightarrow> guarded" where
  "guardModelRequestV1 v policy =
     (if \<not> exactKeys v REQUEST_KEYS then Refused DENY [''MODEL_REQUEST_SCHEMA_DENIED'']
      else if fld v ''schemaVersion'' \<noteq> JStr MODEL_REQUEST_SCHEMA_V1
      then Refused DENY [''MODEL_REQUEST_VERSION_DENIED'']
      else case findRoute policy v of
        None \<Rightarrow> Refused DENY [''MODEL_ROUTE_CLOSED_DENIED'']
      | Some route \<Rightarrow>
          if fld v ''workloadIdentity'' \<notin> JStr ` set (workloadIdentities policy)
            \<or> fld v ''userIdentity'' \<notin> JStr ` set (userIdentities policy)
            \<or> fld v ''tenant'' \<notin> JStr ` set (allowedTenants route)
            \<or> fld v ''purpose'' \<notin> JStr ` set (allowedPurposes route)
          then Refused DENY [''MODEL_AUTHORITY_BINDING_DENIED'']
          else if \<not> boundId (fld v ''workloadIdentity'') ''workload''
            \<or> \<not> boundId (fld v ''userIdentity'') ''user''
            \<or> \<not> boundId (fld v ''tenant'') ''tenant''
            \<or> \<not> boundId (fld v ''purpose'') ''purpose''
            \<or> \<not> boundId (fld v ''operationId'') ''operation''
            \<or> \<not> boundId (fld v ''correlationId'') ''correlation''
            \<or> \<not> digest_like (fld v ''delegationDigest'')
          then Refused DENY [''MODEL_IDENTITY_FORMAT_DENIED'']
          else if \<not> validateBudget (fld v ''budget'') (maxBudget policy)
          then Refused DENY [''MODEL_BUDGET_SCHEMA_OR_CEILING_DENIED'']
          else
            let inputLimit = maxInputBytes (readBudget (fld v ''budget'')) in
            if \<not> str_test (\<lambda>s. byteLength s \<le> inputLimit) (fld v ''text'')
              \<or> \<not> validateAttachments (fld v ''attachments'') route inputLimit
              \<or> \<not> validateTools (fld v ''tools'')
            then Refused DENY [''MODEL_INPUT_LIMIT_OR_FEATURE_DENIED'']
            else if fld v ''structuredOutput'' \<noteq> JNull \<and> \<not> is_object (fld v ''structuredOutput'')
            then Refused DENY [''MODEL_STRUCTURED_OUTPUT_SCHEMA_DENIED'']
            else if \<not> is_object (fld v ''optionalFields'')
            then Refused DENY [''MODEL_OPTIONAL_FIELDS_SCHEMA_DENIED'']
            else
              let unknownOptional = filter (\<lambda>key. key \<notin> set (allowedFields route))
                    (map fst (fields_of (fld v ''optionalFields''))) in
              if unknownOptional \<noteq> []
              then Refused DENY (map (\<lambda>key. ''MODEL_OPTIONAL_FIELD_UNSUPPORTED:'' @ key) unknownOptional)
              else if fld v ''dataClassification'' = JStr ''SECRET''
              then Refused OWNER_ESCALATION [''MODEL_SECRET_CLASSIFICATION_OWNER_ESCALATION'']
              else if fld v ''dataClassification'' \<notin> JStr ` set [''PUBLIC'', ''INTERNAL'', ''CONFIDENTIAL'']
                \<or> fld v ''trustClass'' \<notin> JStr ` set [''TRUSTED_OWNER_INPUT'', ''UNTRUSTED_AGENT_INPUT'']
              then Refused DENY [''MODEL_CLASSIFICATION_OR_TRUST_DENIED'']
              else
                let request = readRequest v route in
                Admitted (request\<lparr>mq_text :=
                    replaceAll secretPattern (\<lambda>_. REDACTED_BEFORE_PROVIDER) (mq_text request)\<rparr>)
                  route (hits secretPattern (mq_text request)))"

subsection \<open>The provider request\<close>

text \<open>Assigning a property, and spreading one object into another (\<open>{...a, ...b}\<close>).\<close>

fun assign :: "fields \<Rightarrow> string \<Rightarrow> js \<Rightarrow> fields" where
  "assign [] k v = [(k, v)]"
| "assign ((k', w) # kvs) k v = (if k' = k then (k, v) # kvs else (k', w) # assign kvs k v)"

definition spread :: "fields \<Rightarrow> fields \<Rightarrow> fields" where
  "spread kvs lws = foldl (\<lambda>acc (k, v). assign acc k v) kvs lws"

definition adaptCanonicalRequestV1 :: "model_request \<Rightarrow> model_route \<Rightarrow> js" where
  "adaptCanonicalRequestV1 q route =
     (let optional = fields_of (mq_optionalFields q);
          attachments = arr (map attachment_js (mq_attachments q));
          schema = mq_structuredOutput q;
          common = spread [(''model'', JStr (mq_model q)), (''max_tokens'', jint (maxTokens (mq_budget q)))] optional
      in case rt_protocol route of
        OPENAI_CHAT_COMPLETIONS \<Rightarrow>
          obj (spread common
            [(''messages'', arr [obj [(''role'', JStr ''user''), (''content'', JStr (mq_text q))]]),
             (''tools'', arr (map (\<lambda>t. obj [(''type'', JStr ''function''),
                (''function'', obj [(''name'', JStr (mt_name t)), (''description'', JStr (mt_description t)),
                   (''parameters'', mt_inputSchema t)])]) (mq_tools q))),
             (''response_format'', if schema = JNull then JUndef
                else obj [(''type'', JStr ''json_schema''), (''json_schema'', schema)]),
             (''attachments'', attachments)])
      | OPENAI_RESPONSES \<Rightarrow>
          obj (spread
            [(''model'', JStr (mq_model q)),
             (''input'', arr [obj [(''role'', JStr ''user''), (''content'',
                arr [obj [(''type'', JStr ''input_text''), (''text'', JStr (mq_text q))]])]]),
             (''max_output_tokens'', jint (maxTokens (mq_budget q))),
             (''tools'', arr (map (\<lambda>t. obj (spread [(''type'', JStr ''function'')]
                [(''name'', JStr (mt_name t)), (''description'', JStr (mt_description t)),
                 (''parameters'', mt_inputSchema t)])) (mq_tools q))),
             (''text'', if schema = JNull then JUndef
                else obj [(''format'', obj (spread [(''type'', JStr ''json_schema'')] (fields_of schema)))]),
             (''attachments'', attachments)] optional)
      | ANTHROPIC_MESSAGES \<Rightarrow>
          obj (spread
            [(''model'', JStr (mq_model q)), (''max_tokens'', jint (maxTokens (mq_budget q))),
             (''messages'', arr [obj [(''role'', JStr ''user''), (''content'', JStr (mq_text q))]]),
             (''tools'', arr (map (\<lambda>t. obj [(''name'', JStr (mt_name t)),
                (''description'', JStr (mt_description t)), (''input_schema'', mt_inputSchema t)]) (mq_tools q))),
             (''output_config'', schema), (''attachments'', attachments)] optional))"

subsection \<open>The response guard\<close>

definition TYPE_ERROR :: string where "TYPE_ERROR = ''TypeError''"

text \<open>What a guard of provider output may say, when it does not throw.\<close>

datatype 'a screened = Quarantined "string list" | Passed 'a

definition AUTHORITY_KEYS :: "string list" where
  "AUTHORITY_KEYS = [''authority'', ''approval'', ''credentialHandle'', ''execute'', ''tenant'', ''userIdentity'']"

text \<open>
  The iteration \<open>for (const tool of value.toolCalls ?? [])\<close>: over nothing, an array or the characters of
  a string; any other value throws.
\<close>

definition toolCalls :: "js \<Rightarrow> js list res" where
  "toolCalls v = (case v of JUndef \<Rightarrow> Inr [] | JNull \<Rightarrow> Inr [] | JArr i vs \<Rightarrow> Inr vs
     | JStr s \<Rightarrow> Inr (map (\<lambda>c. JStr [c]) s) | _ \<Rightarrow> Inl TYPE_ERROR)"

definition toolCandidate :: "model_request \<Rightarrow> js \<Rightarrow> tool_candidate screened res" where
  "toolCandidate q t =
     (if mq_tools q \<noteq> [] \<and> (t = JNull \<or> t = JUndef) then Inl TYPE_ERROR
      else if fld t ''name'' \<notin> JStr ` mt_name ` set (mq_tools q)
        \<or> \<not> str_test (rx_test TOOL_CALL_ID) (fld t ''id'') \<or> \<not> is_object (fld t ''arguments'')
      then Inr (Quarantined [''MODEL_TOOL_CANDIDATE_QUARANTINED''])
      else if list_ex (\<lambda>key. key \<in> set (map fst (fields_of (fld t ''arguments'')))) AUTHORITY_KEYS
      then Inr (Quarantined [''MODEL_TOOL_AUTHORITY_SMUGGLING_QUARANTINED''])
      else Inr (Passed \<lparr>tc_id = str_of (fld t ''id''), tc_name = str_of (fld t ''name''),
             tc_arguments = fld t ''arguments''\<rparr>))"

fun toolCandidates :: "model_request \<Rightarrow> js list \<Rightarrow> tool_candidate list screened res" where
  "toolCandidates q [] = Inr (Passed [])"
| "toolCandidates q (t # ts) =
     res_bind (toolCandidate q t) (\<lambda>r. case r of
         Quarantined issues \<Rightarrow> Inr (Quarantined issues)
       | Passed c \<Rightarrow> res_bind (toolCandidates q ts) (\<lambda>r. case r of
             Quarantined issues \<Rightarrow> Inr (Quarantined issues)
           | Passed cs \<Rightarrow> Inr (Passed (c # cs))))"

definition REDACTED_MODEL_OUTPUT :: string where
  "REDACTED_MODEL_OUTPUT = ''[REDACTED_MODEL_OUTPUT]''"

definition neutralised :: "hash \<Rightarrow> string \<Rightarrow> string" where
  "neutralised H s = ''[UNTRUSTED_INSTRUCTION:'' @ take 12 (digest_of H (JStr s)) @ '']''"

definition guardModelResponseV1 ::
    "hash \<Rightarrow> model_request \<Rightarrow> model_route \<Rightarrow> string \<Rightarrow> js \<Rightarrow> (model_response \<times> nat) screened res" where
  "guardModelResponseV1 H q route requestDigest v =
     (if v = JNull \<or> v = JUndef then Inl TYPE_ERROR
      else if fld v ''contentType'' \<notin> JStr ` set [''text/plain'', ''application/json'']
      then Inr (Quarantined [''MODEL_RESPONSE_MIME_QUARANTINED''])
      else if \<not> str_test (\<lambda>s. byteLength s \<le> maxOutputBytes (mq_budget q)) (fld v ''text'')
      then Inr (Quarantined [''MODEL_RESPONSE_SIZE_QUARANTINED''])
      else if \<not> boundedInteger (fld (fld v ''usage'') ''inputTokens'') 0 (maxTokens (mq_budget q))
        \<or> \<not> boundedInteger (fld (fld v ''usage'') ''outputTokens'') 0 (maxTokens (mq_budget q))
        \<or> \<not> boundedInteger (fld (fld v ''usage'') ''costMicros'') 0 (maxCostMicros (mq_budget q))
      then Inr (Quarantined [''MODEL_RESPONSE_BUDGET_QUARANTINED''])
      else res_bind (res_bind (toolCalls (fld v ''toolCalls'')) (toolCandidates q)) (\<lambda>r. case r of
          Quarantined issues \<Rightarrow> Inr (Quarantined issues)
        | Passed candidates \<Rightarrow>
            let text = str_of (fld v ''text'');
                clean = replaceAll secretPattern (\<lambda>_. REDACTED_MODEL_OUTPUT) text
            in res_bind (digest_js H v) (\<lambda>responseDigest.
                 Inr (Passed
                   (\<lparr>mr_operationId = mq_operationId q, mr_correlationId = mq_correlationId q,
                     mr_provider = mq_provider q, mr_model = mq_model q, mr_protocol = mq_protocol q,
                     mr_contentType = str_of (fld v ''contentType''),
                     mr_text = replaceAll injectionPattern (neutralised H) clean,
                     mr_structuredOutput = (if fld v ''structuredOutput'' = JUndef then JNull
                                            else fld v ''structuredOutput''),
                     toolCallCandidates = candidates, mr_routeId = rt_routeId route,
                     providerRequestDigest = requestDigest, providerResponseDigest = responseDigest,
                     mr_usage = fld v ''usage''\<rparr>,
                    hits secretPattern text + hits injectionPattern clean)))))"

subsection \<open>The stream parser\<close>

text \<open>
  \<open>[...].includes(String(parsed.event))\<close>: the event as it converts to a string. The stream event keeps
  the value itself.
\<close>

definition STREAM_EVENTS :: "string list" where
  "STREAM_EVENTS = [''TEXT_DELTA'', ''TOOL_CANDIDATE'', ''USAGE'', ''DONE'']"

record stream_state =
  ss_events :: "stream_event list"
  ss_toolDigests :: "string \<Rightarrow> string option"
  ss_done :: bool
  ss_totalBytes :: int

definition stream_start :: stream_state where
  "stream_start = \<lparr>ss_events = [], ss_toolDigests = \<lambda>_. None, ss_done = False, ss_totalBytes = 0\<rparr>"

definition DATA_PREFIX :: string where "DATA_PREFIX = ''data: ''"
definition DATA_DONE :: string where "DATA_DONE = ''data: [DONE]''"

text \<open>A complete tool candidate, recorded under its identifier unless it changed.\<close>

definition toolData :: "hash \<Rightarrow> stream_state \<Rightarrow> js \<Rightarrow> stream_state screened res" where
  "toolData H s data =
     (if \<not> is_string (fld data ''id'') \<or> \<not> is_string (fld data ''name'') \<or> fld data ''complete'' \<noteq> JBool True
        \<or> \<not> (is_object (fld data ''arguments'') \<or> is_array (fld data ''arguments''))
      then Inr (Quarantined [''MODEL_STREAM_TOOL_INCOMPLETE_QUARANTINED''])
      else res_bind (digest_js H data) (\<lambda>nextDigest.
        let i = str_of (fld data ''id'') in
        if ss_toolDigests s i \<noteq> None \<and> ss_toolDigests s i \<noteq> Some nextDigest
        then Inr (Quarantined [''MODEL_STREAM_TOOL_CHANGED_QUARANTINED''])
        else Inr (Passed (s\<lparr>ss_toolDigests := (ss_toolDigests s)(i \<mapsto> nextDigest)\<rparr>))))"

definition streamEvent :: "hash \<Rightarrow> model_request \<Rightarrow> stream_state \<Rightarrow> js \<Rightarrow> stream_state screened res" where
  "streamEvent H q s parsed =
     (if \<not> exactKeys parsed [''data'', ''event'', ''sequence'']
      then Inr (Quarantined [''MODEL_STREAM_EVENT_SCHEMA_QUARANTINED''])
      else if \<not> boundedInteger (fld parsed ''sequence'') 0 1000000
        \<or> int_of_js (fld parsed ''sequence'') \<noteq> int (length (ss_events s))
      then Inr (Quarantined [''MODEL_STREAM_SEQUENCE_QUARANTINED''])
      else if to_string (fld parsed ''event'') \<notin> set STREAM_EVENTS \<or> \<not> is_object (fld parsed ''data'')
      then Inr (Quarantined [''MODEL_STREAM_EVENT_SCHEMA_QUARANTINED''])
      else res_bind (if fld parsed ''event'' = JStr ''TOOL_CANDIDATE'' then toolData H s (fld parsed ''data'')
                     else Inr (Passed s)) (\<lambda>r. case r of
          Quarantined issues \<Rightarrow> Inr (Quarantined issues)
        | Passed s' \<Rightarrow> Inr (Passed (s'\<lparr>ss_events := ss_events s' @
            [\<lparr>se_operationId = mq_operationId q, se_sequence = int_of_js (fld parsed ''sequence''),
              se_event = fld parsed ''event'', se_data = fld parsed ''data''\<rparr>]\<rparr>))))"

definition streamLine ::
    "hash \<Rightarrow> (string \<Rightarrow> js option) \<Rightarrow> model_request \<Rightarrow> stream_state \<Rightarrow> string \<Rightarrow> stream_state screened res" where
  "streamLine H parse q s line =
     (let s = s\<lparr>ss_totalBytes := ss_totalBytes s + byteLength line\<rparr> in
      if ss_totalBytes s > maxOutputBytes (mq_budget q)
      then Inr (Quarantined [''MODEL_STREAM_SIZE_QUARANTINED''])
      else if take 6 line \<noteq> DATA_PREFIX
      then Inr (Quarantined [''MODEL_STREAM_SSE_FRAMING_QUARANTINED''])
      else if line = DATA_DONE then Inr (Passed (s\<lparr>ss_done := True\<rparr>))
      else case parse (drop 6 line) of
        None \<Rightarrow> Inr (Quarantined [''MODEL_STREAM_SSE_JSON_QUARANTINED''])
      | Some parsed \<Rightarrow> streamEvent H q s parsed)"

fun streamLines ::
    "hash \<Rightarrow> (string \<Rightarrow> js option) \<Rightarrow> model_request \<Rightarrow> stream_state \<Rightarrow> string list \<Rightarrow> stream_state screened res" where
  "streamLines H parse q s [] = Inr (Passed s)"
| "streamLines H parse q s (line # lines) =
     res_bind (streamLine H parse q s line) (\<lambda>r. case r of
         Quarantined issues \<Rightarrow> Inr (Quarantined issues)
       | Passed s' \<Rightarrow> streamLines H parse q s' lines)"

definition parseGuardedSseV1 ::
    "hash \<Rightarrow> (string \<Rightarrow> js option) \<Rightarrow> model_request \<Rightarrow> string list \<Rightarrow> stream_event list screened res" where
  "parseGuardedSseV1 H parse q lines =
     res_bind (streamLines H parse q stream_start lines) (\<lambda>r. case r of
         Quarantined issues \<Rightarrow> Inr (Quarantined issues)
       | Passed s \<Rightarrow>
           if \<not> ss_done s \<or> map_option se_event (at_last (ss_events s)) \<noteq> Some (JStr ''DONE'')
           then Inr (Quarantined [''MODEL_STREAM_PARTIAL_QUARANTINED''])
           else Inr (Passed (ss_events s)))"

end
