(* ===== verification/ModelBroker.thy ===== *)
theory ModelBroker
  imports ModelAccess
begin

text \<open>
  \<open>ModelAccessBrokerV1\<close> (\<open>packages/contracts/src/model-access-broker.ts\<close>): the receipts and the
  reservations, and \<open>invoke\<close>. The method is asynchronous: the part before \<open>await providerCall(...)\<close>
  runs at once (\<open>invoke_begin\<close>), the part after it when the provider has answered (\<open>invoke_end\<close>), and
  other invocations may run between the two. \<open>broker_runs\<close> are the interleavings, with the trace of the
  provider calls started and finished. A rejected promise is a value here, since the state reached
  before the exception stays.
\<close>

subsection \<open>Data\<close>

datatype broker_replay = FIRST | SAME_RECEIPT | NO_REPLAY

record model_audit =
  ma_operationId :: string
  ma_correlationId :: string
  tenantDigest :: string
  purposeDigest :: string
  ma_requestDigest :: string
  responseDigest :: "string option"
  ma_outcome :: guard_outcome
  ma_usage :: js
  ma_issues :: "string list"

record broker_result =
  br_outcome :: guard_outcome
  br_response :: "model_response option"
  br_issues :: "string list"
  br_replay :: broker_replay
  br_audit :: model_audit

record provider_request =
  pr_route :: model_route
  pr_credentialHandle :: string
  pr_request :: js
  pr_requestDigest :: string

record broker =
  receipts :: "string \<Rightarrow> (string \<times> broker_result) option"
  reserved :: "string \<Rightarrow> int"

definition new_broker :: broker where
  "new_broker = \<lparr>receipts = \<lambda>_. None, reserved = \<lambda>_. 0\<rparr>"

text \<open>An invocation that waits for its provider, and how the provider settles it.\<close>

record pending =
  pc_value :: js
  pc_request :: model_request
  pc_route :: model_route
  pc_redactions :: nat
  pc_requestDigest :: string
  pc_call :: provider_request

datatype provider_answer = Failed | Answered js

datatype begun = Rejected string | Settled broker_result | Calling pending

subsection \<open>Results without a response\<close>

definition text_or :: "js \<Rightarrow> string \<Rightarrow> string" where
  "text_or v other = (if is_string v then str_of v else other)"

definition or_null :: "js \<Rightarrow> js" where
  "or_null v = (if v = JUndef then JNull else v)"

definition issueResult :: "hash \<Rightarrow> js \<Rightarrow> guard_outcome \<Rightarrow> string list \<Rightarrow> broker_result res" where
  "issueResult H v outcome issues =
     (if v = JNull \<or> v = JUndef then Inl TYPE_ERROR
      else res_bind (digest_js H (or_null (fld v ''tenant''))) (\<lambda>tenant.
           res_bind (digest_js H (or_null (fld v ''purpose''))) (\<lambda>purpose.
           res_bind (digest_js H v) (\<lambda>request.
             Inr \<lparr>br_outcome = outcome, br_response = None, br_issues = issues, br_replay = NO_REPLAY,
               br_audit = \<lparr>ma_operationId = text_or (fld v ''operationId'') ''operation:invalid'',
                 ma_correlationId = text_or (fld v ''correlationId'') ''correlation:invalid'',
                 tenantDigest = tenant, purposeDigest = purpose, ma_requestDigest = request,
                 responseDigest = None, ma_outcome = outcome, ma_usage = JNull, ma_issues = issues\<rparr>\<rparr>))))"

definition settle :: "broker_result res \<Rightarrow> begun" where
  "settle r = (case r of Inl e \<Rightarrow> Rejected e | Inr result \<Rightarrow> Settled result)"

subsection \<open>invoke\<close>

definition budgetKey :: "model_request \<Rightarrow> model_route \<Rightarrow> string" where
  "budgetKey q route = mq_tenant q @ [CHR 0x0A] @ mq_purpose q @ [CHR 0x0A] @ rt_routeId route"

definition invoke_begin :: "hash \<Rightarrow> access_policy \<Rightarrow> broker \<Rightarrow> js \<Rightarrow> broker \<times> begun" where
  "invoke_begin H policy b v =
     (case guardModelRequestV1 v policy of
        Refused outcome issues \<Rightarrow> (b, settle (issueResult H v outcome issues))
      | Admitted q route redactions \<Rightarrow>
          (case digest_js H (request_js q) of
             Inl e \<Rightarrow> (b, Rejected e)
           | Inr requestDigest \<Rightarrow>
               (case receipts b (mq_operationId q) of
                  Some (prior, result) \<Rightarrow>
                    if prior \<noteq> requestDigest
                    then (b, settle (issueResult H v DENY [''MODEL_REPLAY_CONFLICT_DENIED'']))
                    else (b, Settled (result\<lparr>br_replay := SAME_RECEIPT\<rparr>))
                | None \<Rightarrow>
                    let key = budgetKey q route; used = reserved b key in
                    if used \<ge> maxRequests (mq_budget q)
                    then (b, settle (issueResult H v THROTTLE [''MODEL_REQUEST_BUDGET_THROTTLED'']))
                    else
                      let b' = b\<lparr>reserved := (reserved b)(key := used + 1)\<rparr>;
                          adapted = adaptCanonicalRequestV1 q route
                      in case digest_js H adapted of
                           Inl e \<Rightarrow> (b', Rejected e)
                         | Inr d \<Rightarrow> (b', Calling \<lparr>pc_value = v, pc_request = q, pc_route = route,
                             pc_redactions = redactions, pc_requestDigest = requestDigest,
                             pc_call = \<lparr>pr_route = route, pr_credentialHandle = credentialHandle route,
                               pr_request = adapted, pr_requestDigest = d\<rparr>\<rparr>))))"

definition content_issues :: "nat \<Rightarrow> string list" where
  "content_issues n = (if n > 0 then [''MODEL_CONTENT_REDACTED''] else [])"

definition allowedResult :: "hash \<Rightarrow> pending \<Rightarrow> model_response \<Rightarrow> nat \<Rightarrow> js \<Rightarrow> broker_result res" where
  "allowedResult H p response n usage =
     (let q = pc_request p; issues = content_issues (pc_redactions p + n) in
      res_bind (digest_js H (response_js response)) (\<lambda>d.
        Inr \<lparr>br_outcome = ALLOW, br_response = Some response, br_issues = issues, br_replay = FIRST,
          br_audit = \<lparr>ma_operationId = mq_operationId q, ma_correlationId = mq_correlationId q,
            tenantDigest = digest_of H (JStr (mq_tenant q)), purposeDigest = digest_of H (JStr (mq_purpose q)),
            ma_requestDigest = pc_requestDigest p, responseDigest = Some d, ma_outcome = ALLOW,
            ma_usage = usage, ma_issues = issues\<rparr>\<rparr>))"

definition invoke_end :: "hash \<Rightarrow> broker \<Rightarrow> pending \<Rightarrow> provider_answer \<Rightarrow> broker \<times> broker_result res" where
  "invoke_end H b p answer =
     (case answer of
        Failed \<Rightarrow> (b, issueResult H (pc_value p) QUARANTINE [''MODEL_PROVIDER_UNAVAILABLE_QUARANTINED''])
      | Answered v \<Rightarrow>
          (case guardModelResponseV1 H (pc_request p) (pc_route p) (pr_requestDigest (pc_call p)) v of
             Inl e \<Rightarrow> (b, Inl e)
           | Inr (Quarantined issues) \<Rightarrow> (b, issueResult H (pc_value p) QUARANTINE issues)
           | Inr (Passed (response, n)) \<Rightarrow>
               (case allowedResult H p response n (fld v ''usage'') of
                  Inl e \<Rightarrow> (b, Inl e)
                | Inr result \<Rightarrow>
                    (b\<lparr>receipts := (receipts b)(mq_operationId (pc_request p)
                         \<mapsto> (pc_requestDigest p, result))\<rparr>, Inr result))))"

text \<open>One invocation with nothing between its two parts.\<close>

definition invoke ::
    "hash \<Rightarrow> access_policy \<Rightarrow> broker \<Rightarrow> js \<Rightarrow> (provider_request \<Rightarrow> provider_answer) \<Rightarrow> broker \<times> broker_result res" where
  "invoke H policy b v providerCall =
     (case invoke_begin H policy b v of
        (b', Rejected e) \<Rightarrow> (b', Inl e)
      | (b', Settled result) \<Rightarrow> (b', Inr result)
      | (b', Calling p) \<Rightarrow> invoke_end H b' p (providerCall (pc_call p)))"

subsection \<open>Interleavings\<close>

datatype broker_event = Started pending | Finished pending provider_answer "broker_result res"

inductive broker_runs ::
    "hash \<Rightarrow> access_policy \<Rightarrow> broker \<Rightarrow> pending list \<Rightarrow> broker_event list \<Rightarrow> bool" for H policy where
  fresh: "broker_runs H policy new_broker [] []"
| returned: "broker_runs H policy b flight trace \<Longrightarrow> invoke_begin H policy b v = (b', Settled r)
    \<Longrightarrow> broker_runs H policy b' flight trace"
| threw: "broker_runs H policy b flight trace \<Longrightarrow> invoke_begin H policy b v = (b', Rejected e)
    \<Longrightarrow> broker_runs H policy b' flight trace"
| called: "broker_runs H policy b flight trace \<Longrightarrow> invoke_begin H policy b v = (b', Calling p)
    \<Longrightarrow> broker_runs H policy b' (p # flight) (trace @ [Started p])"
| answered: "broker_runs H policy b flight trace \<Longrightarrow> p \<in> set flight \<Longrightarrow> invoke_end H b p answer = (b', r)
    \<Longrightarrow> broker_runs H policy b' (remove1 p flight) (trace @ [Finished p answer r])"

subsection \<open>The synthetic policy and request\<close>

definition hyphenated :: "model_protocol \<Rightarrow> string" where
  "hyphenated p = map (\<lambda>c. if c = CHR ''_'' then CHR ''-'' else
     if (65 :: nat) \<le> of_char c \<and> (of_char c :: nat) \<le> 90 then char_of ((of_char c :: nat) + 32) else c)
     (protocol_text p)"

definition syntheticModelAccessPolicyV1 :: "model_protocol \<Rightarrow> access_policy" where
  "syntheticModelAccessPolicyV1 protocol =
     \<lparr>routes = [\<lparr>rt_routeId = ''route:synthetic-'' @ hyphenated protocol,
        rt_provider = ''provider:synthetic-model'', rt_model = ''model:synthetic-v1'', rt_protocol = protocol,
        credentialHandle = ''credential-handle:synthetic-model-v1'', allowedTenants = [''tenant:synthetic-zoo''],
        allowedPurposes = [''purpose:agent-assistance''],
        allowedFields = (if protocol = ANTHROPIC_MESSAGES then [''temperature'', ''top_p'']
                         else [''seed'', ''temperature'', ''top_p'']),
        attachmentMediaTypes = [''image/png'', ''image/jpeg'', ''application/pdf'']\<rparr>],
      workloadIdentities = [''workload:isolated-openclaw''], userIdentities = [''user:synthetic-owner''],
      maxBudget = \<lparr>maxInputBytes = 65536, maxOutputBytes = 65536, maxTokens = 4096, maxCostMicros = 100000,
        maxRequests = 32, timeoutMs = 30000\<rparr>\<rparr>"

definition syntheticCanonicalModelRequestV1 :: "model_protocol \<Rightarrow> model_request" where
  "syntheticCanonicalModelRequestV1 protocol =
     (let route = hd (routes (syntheticModelAccessPolicyV1 protocol)) in
      \<lparr>mq_workloadIdentity = ''workload:isolated-openclaw'', mq_userIdentity = ''user:synthetic-owner'',
       mq_tenant = ''tenant:synthetic-zoo'', mq_purpose = ''purpose:agent-assistance'',
       mq_delegationDigest = JStr (replicate 64 (CHR ''a'')), mq_operationId = ''operation:model-0001'',
       mq_correlationId = ''correlation:model-0001'', mq_routeId = rt_routeId route,
       mq_provider = rt_provider route, mq_model = rt_model route, mq_protocol = protocol,
       mq_dataClassification = ''INTERNAL'', mq_trustClass = ''UNTRUSTED_AGENT_INPUT'',
       mq_text = ''Return one typed candidate without executing it.'',
       mq_attachments = [\<lparr>at_mediaType = ''image/png'', at_digest = replicate 64 (CHR ''b''), at_bytes = 128,
         at_reference = ''attachment:synthetic-image''\<rparr>],
       mq_tools = [\<lparr>mt_name = ''crm.contact.create'',
         mt_description = ''Propose a synthetic contact candidate.'',
         mt_inputSchema = obj [(''type'', JStr ''object''),
           (''properties'', obj [(''name'', obj [(''type'', JStr ''string'')])])]\<rparr>],
       mq_structuredOutput = obj [(''name'', JStr ''candidate''), (''schema'', obj [(''type'', JStr ''object'')]),
         (''strict'', JBool True)],
       mq_optionalFields = obj [(''temperature'', jint 0)],
       mq_budget = \<lparr>maxInputBytes = 8192, maxOutputBytes = 8192, maxTokens = 512, maxCostMicros = 1000,
         maxRequests = 1, timeoutMs = 2000\<rparr>\<rparr>)"

end
