(* ===== verification/ModelRuns.thy ===== *)
theory ModelRuns
  imports ModelBroker
begin

text \<open>
  The two parts of \<open>invoke\<close> case by case, and the invariants of the interleaved runs of the broker:
  how reservations count the calls, and which calls the receipts come from.
\<close>

subsection \<open>The parts of an invocation\<close>

text \<open>A call that waits is the one the code builds from an admitted request.\<close>

definition call_ok :: "hash \<Rightarrow> access_policy \<Rightarrow> pending \<Rightarrow> bool" where
  "call_ok H policy p \<longleftrightarrow>
     guardModelRequestV1 (pc_value p) policy = Admitted (pc_request p) (pc_route p) (pc_redactions p)
     \<and> digest_js H (request_js (pc_request p)) = Inr (pc_requestDigest p)
     \<and> digest_js H (pr_request (pc_call p)) = Inr (pr_requestDigest (pc_call p))
     \<and> pr_request (pc_call p) = adaptCanonicalRequestV1 (pc_request p) (pc_route p)
     \<and> pr_route (pc_call p) = pc_route p \<and> pr_credentialHandle (pc_call p) = credentialHandle (pc_route p)"

abbreviation "op_of p \<equiv> mq_operationId (pc_request p)"
abbreviation "key_of p \<equiv> budgetKey (pc_request p) (pc_route p)"

lemma settle_not_calling: "settle r \<noteq> Calling p"
  by (simp add: settle_def split: sum.split)

lemma begin_cases:
  assumes "invoke_begin H policy b v = (b', out)"
  obtains (kept) "b' = b" "\<forall>p. out \<noteq> Calling p"
  | (reserved) q route n where "guardModelRequestV1 v policy = Admitted q route n"
      "receipts b (mq_operationId q) = None" "reserved b (budgetKey q route) < maxRequests (mq_budget q)"
      "b' = b\<lparr>reserved := (reserved b)(budgetKey q route := reserved b (budgetKey q route) + 1)\<rparr>"
      "\<forall>p. out = Calling p \<longrightarrow> call_ok H policy p \<and> pc_value p = v \<and> pc_request p = q \<and> pc_route p = route"
proof (cases "guardModelRequestV1 v policy")
  case (Refused outcome issues)
  then show thesis using assms kept by (auto simp: invoke_begin_def settle_not_calling)
next
  case (Admitted q route n)
  show thesis
  proof (cases "digest_js H (request_js q)")
    case (Inl e)
    then show thesis using assms Admitted kept by (auto simp: invoke_begin_def)
  next
    case (Inr d)
    show thesis
    proof (cases "receipts b (mq_operationId q)")
      case (Some x)
      then show thesis using assms Admitted Inr kept
        by (cases x) (auto simp: invoke_begin_def settle_not_calling split: if_splits)
    next
      case None
      show thesis
      proof (cases "reserved b (budgetKey q route) \<ge> maxRequests (mq_budget q)")
        case True
        then show thesis using assms Admitted Inr None kept
          by (auto simp: invoke_begin_def settle_not_calling Let_def)
      next
        case False
        show thesis
          by (rule reserved [OF Admitted None])
            (use assms Admitted Inr None False in
              \<open>auto simp: invoke_begin_def Let_def call_ok_def split: sum.splits\<close>)
      qed
    qed
  qed
qed

lemma issueResult_outcome: "issueResult H v outcome issues = Inr r \<Longrightarrow> br_outcome r = outcome \<and> br_response r = None"
  by (auto simp: issueResult_def res_simps split: if_splits)

lemma issue_refused: "issueResult H v QUARANTINE issues = Inr res \<Longrightarrow> br_outcome res \<noteq> ALLOW"
  by (simp add: issueResult_outcome)

lemma end_cases:
  assumes "invoke_end H b p answer = (b', r)"
  obtains (refused) "b' = b" "\<forall>res. r = Inr res \<longrightarrow> br_outcome res \<noteq> ALLOW"
  | (accepted) v response n res where "answer = Answered v" "r = Inr res"
      "guardModelResponseV1 H (pc_request p) (pc_route p) (pr_requestDigest (pc_call p)) v
        = Inr (Passed (response, n))"
      "allowedResult H p response n (fld v ''usage'') = Inr res" "br_outcome res = ALLOW"
      "b' = b\<lparr>receipts := (receipts b)(op_of p \<mapsto> (pc_requestDigest p, res))\<rparr>"
proof (cases answer)
  case Failed
  show thesis by (rule refused) (use assms Failed issue_refused in \<open>auto simp: invoke_end_def\<close>)
next
  case (Answered v)
  note e = assms [unfolded invoke_end_def Answered provider_answer.case]
  show thesis
  proof (cases "guardModelResponseV1 H (pc_request p) (pc_route p) (pr_requestDigest (pc_call p)) v")
    case (Inl x)
    then show thesis using e refused by auto
  next
    case (Inr g)
    show thesis
    proof (cases g)
      case (Quarantined issues)
      show thesis by (rule refused) (use e Inr Quarantined issue_refused in \<open>auto\<close>)
    next
      case (Passed x)
      obtain response n where x: "x = (response, n)" by (cases x)
      show thesis
      proof (cases "allowedResult H p response n (fld v ''usage'')")
        case y: (Inl y)
        show thesis by (rule refused) (use e Inr Passed x y in auto)
      next
        case r: (Inr res)
        then have "br_outcome res = ALLOW" by (auto simp: allowedResult_def Let_def res_simps)
        then show thesis using e Inr Passed x r Answered by (intro accepted [of v res response n]) auto
      qed
    qed
  qed
qed

subsection \<open>Traces\<close>

fun starts :: "broker_event list \<Rightarrow> pending list" where
  "starts [] = []"
| "starts (Started p # es) = p # starts es"
| "starts (Finished p a r # es) = starts es"

lemma starts_append [simp]: "starts (es @ fs) = starts es @ starts fs"
  by (induction es rule: starts.induct) auto

lemma set_starts: "p \<in> set (starts es) \<longleftrightarrow> Started p \<in> set es"
  by (induction es rule: starts.induct) auto

definition counted :: "broker \<Rightarrow> broker_event list \<Rightarrow> bool" where
  "counted b trace \<longleftrightarrow> (\<forall>k. int (length (filter (\<lambda>p. key_of p = k) (starts trace))) \<le> reserved b k)"

definition metered :: "broker_event list \<Rightarrow> bool" where
  "metered trace \<longleftrightarrow> (\<forall>i < length (starts trace). let p = starts trace ! i in
     int (length (filter (\<lambda>p'. key_of p' = key_of p) (take i (starts trace))))
       < maxRequests (mq_budget (pc_request p)))"

lemma counted_kept: "counted b trace \<Longrightarrow> reserved b' = reserved b \<Longrightarrow> starts trace' = starts trace \<Longrightarrow> counted b' trace'"
  by (simp add: counted_def)

lemma counted_more:
  assumes "counted b trace" "\<And>k. reserved b k \<le> reserved b' k" "starts trace' = starts trace"
  shows "counted b' trace'"
  using assms unfolding counted_def by (metis order_trans)

lemma metered_snoc:
  assumes "metered trace" "counted b trace" "reserved b (key_of p) < maxRequests (mq_budget (pc_request p))"
  shows "metered (trace @ [Started p])"
proof -
  have "int (length (filter (\<lambda>p'. key_of p' = key_of p) (starts trace))) < maxRequests (mq_budget (pc_request p))"
    using assms(2,3) unfolding counted_def by (metis order_le_less_trans)
  then show ?thesis
    using assms(1) unfolding metered_def by (auto simp: Let_def less_Suc_eq nth_append)
qed

theorem run_counts:
  assumes "broker_runs H policy b flight trace"
  shows "counted b trace \<and> metered trace"
  using assms
proof (induction rule: broker_runs.induct)
  case fresh
  then show ?case by (simp add: counted_def metered_def new_broker_def)
next
  case (returned b flight trace v b' r)
  from returned(2) show ?case
    by (cases rule: begin_cases) (use returned.IH in \<open>auto intro: counted_more\<close>)
next
  case (threw b flight trace v b' e)
  from threw(2) show ?case
    by (cases rule: begin_cases) (use threw.IH in \<open>auto intro: counted_more\<close>)
next
  case (called b flight trace v b' p)
  from called(2) show ?case
  proof (cases rule: begin_cases)
    case (reserved q route n)
    then have p: "pc_request p = q" "pc_route p = route" by simp_all
    have "metered (trace @ [Started p])"
      by (rule metered_snoc) (use called.IH reserved(3) p in simp_all)
    moreover have "counted b' (trace @ [Started p])"
      using called.IH p unfolding counted_def reserved(4) by (auto simp: add.commute)
    ultimately show ?thesis by blast
  qed simp
next
  case (answered b flight trace p answer b' r)
  from answered(3) show ?case
    by (cases rule: end_cases) (use answered.IH in \<open>auto simp: metered_def intro: counted_kept\<close>)
qed

text \<open>Every call of a run is in order.\<close>

definition calls_ok :: "hash \<Rightarrow> access_policy \<Rightarrow> pending list \<Rightarrow> broker_event list \<Rightarrow> bool" where
  "calls_ok H policy flight trace \<longleftrightarrow> (\<forall>p. Started p \<in> set trace \<longrightarrow> call_ok H policy p)
     \<and> (\<forall>p \<in> set flight. Started p \<in> set trace)
     \<and> (\<forall>p a r. Finished p a r \<in> set trace \<longrightarrow> Started p \<in> set trace \<and> (\<exists>b. snd (invoke_end H b p a) = r))"

theorem run_calls:
  assumes "broker_runs H policy b flight trace"
  shows "calls_ok H policy flight trace"
  using assms
proof (induction rule: broker_runs.induct)
  case fresh
  then show ?case by (simp add: calls_ok_def)
next
  case (called b flight trace v b' p)
  from called(2) have "call_ok H policy p" by (cases rule: begin_cases) auto
  with called.IH show ?case unfolding calls_ok_def by auto
next
  case (answered b flight trace p answer b' r)
  have "snd (invoke_end H b p answer) = r" using answered(3) by simp
  moreover have "set (remove1 p flight) \<subseteq> set flight" by (rule set_remove1_subset)
  ultimately show ?case using answered.IH answered(2) unfolding calls_ok_def by auto
qed simp_all

text \<open>The receipts are those of the calls that succeeded.\<close>

definition success :: "pending \<Rightarrow> provider_answer \<Rightarrow> broker_result \<Rightarrow> broker_event list \<Rightarrow> bool" where
  "success p a r trace \<longleftrightarrow> Finished p a (Inr r) \<in> set trace \<and> br_outcome r = ALLOW"

definition receipted :: "broker \<Rightarrow> broker_event list \<Rightarrow> bool" where
  "receipted b trace \<longleftrightarrow>
     (\<forall>i d r. receipts b i = Some (d, r) \<longrightarrow> (\<exists>p a. success p a r trace \<and> op_of p = i \<and> pc_requestDigest p = d))
     \<and> (\<forall>p a r. success p a r trace \<longrightarrow> receipts b (op_of p) \<noteq> None)"

definition settled_ops :: "broker_event list \<Rightarrow> bool" where
  "settled_ops trace \<longleftrightarrow> (\<forall>xs p ys. trace = xs @ Started p # ys \<longrightarrow>
     (\<forall>p' a r. success p' a r xs \<longrightarrow> op_of p' \<noteq> op_of p))"

lemma success_snoc_Started [simp]: "success p a r (trace @ [Started p']) = success p a r trace"
  by (auto simp: success_def)

lemma success_snoc_Finished:
  "success p a r (trace @ [Finished p' a' r']) \<longleftrightarrow>
    success p a r trace \<or> p = p' \<and> a = a' \<and> r' = Inr r \<and> br_outcome r = ALLOW"
  by (auto simp: success_def)

lemma settled_ops_snoc:
  assumes "settled_ops trace" "\<forall>p. e = Started p \<longrightarrow> (\<forall>p' a r. success p' a r trace \<longrightarrow> op_of p' \<noteq> op_of p)"
  shows "settled_ops (trace @ [e])"
  unfolding settled_ops_def
proof (intro allI impI)
  fix xs p ys p' a r
  assume t: "trace @ [e] = xs @ Started p # ys" and s: "success p' a r xs"
  show "op_of p' \<noteq> op_of p"
  proof (cases ys rule: rev_cases)
    case Nil
    with t have "e = Started p" "trace = xs" by simp_all
    with assms(2) s show ?thesis by blast
  next
    case (snoc ys' y)
    with t have "trace = xs @ Started p # ys'" by simp
    with assms(1) s show ?thesis unfolding settled_ops_def by blast
  qed
qed

lemma receipted_kept: "receipted b trace \<Longrightarrow> receipts b' = receipts b \<Longrightarrow> receipted b' trace"
  by (simp add: receipted_def)

lemma receipted_new:
  assumes "receipted b trace" "br_outcome res = ALLOW"
  shows "receipted (b\<lparr>receipts := (receipts b)(op_of p \<mapsto> (pc_requestDigest p, res))\<rparr>)
    (trace @ [Finished p a (Inr res)])"
  unfolding receipted_def
proof (intro conjI allI impI)
  fix i d r
  assume i: "receipts (b\<lparr>receipts := (receipts b)(op_of p \<mapsto> (pc_requestDigest p, res))\<rparr>) i = Some (d, r)"
  show "\<exists>p' a'. success p' a' r (trace @ [Finished p a (Inr res)]) \<and> op_of p' = i \<and> pc_requestDigest p' = d"
  proof (cases "i = op_of p")
    case True
    with i have "d = pc_requestDigest p" "r = res" by simp_all
    then show ?thesis using True assms(2) unfolding success_snoc_Finished by blast
  next
    case False
    with i have "receipts b i = Some (d, r)" by simp
    then show ?thesis using assms(1) unfolding receipted_def success_snoc_Finished by blast
  qed
next
  fix p' a' r
  assume "success p' a' r (trace @ [Finished p a (Inr res)])"
  then have "receipts b (op_of p') \<noteq> None \<or> op_of p' = op_of p"
    using assms(1) unfolding receipted_def success_snoc_Finished by blast
  then show "receipts (b\<lparr>receipts := (receipts b)(op_of p \<mapsto> (pc_requestDigest p, res))\<rparr>) (op_of p') \<noteq> None"
    by (cases "op_of p' = op_of p") simp_all
qed

lemma receipted_refused:
  assumes "receipted b trace" "\<forall>res. r = Inr res \<longrightarrow> br_outcome res \<noteq> ALLOW"
  shows "receipted b (trace @ [Finished p a r])"
  using assms unfolding receipted_def success_snoc_Finished by blast

theorem run_receipts:
  assumes "broker_runs H policy b flight trace"
  shows "receipted b trace \<and> settled_ops trace"
  using assms
proof (induction rule: broker_runs.induct)
  case fresh
  then show ?case by (simp add: receipted_def settled_ops_def success_def new_broker_def)
next
  case (returned b flight trace v b' r)
  from returned(2) show ?case
    by (cases rule: begin_cases) (use returned.IH in \<open>auto intro: receipted_kept\<close>)
next
  case (threw b flight trace v b' e)
  from threw(2) show ?case
    by (cases rule: begin_cases) (use threw.IH in \<open>auto intro: receipted_kept\<close>)
next
  case (called b flight trace v b' p)
  from called(2) show ?case
  proof (cases rule: begin_cases)
    case (reserved q route n)
    then have none: "receipts b (op_of p) = None" and r: "receipts b' = receipts b" by simp_all
    have "receipted b' (trace @ [Started p])"
      using called.IH unfolding receipted_def r success_snoc_Started by blast
    moreover have "settled_ops (trace @ [Started p])"
    proof (rule settled_ops_snoc)
      show "\<forall>p'. Started p = Started p' \<longrightarrow> (\<forall>p'' a r. success p'' a r trace \<longrightarrow> op_of p'' \<noteq> op_of p')"
        using called.IH none unfolding receipted_def by (metis broker_event.inject(1))
    qed (use called.IH in blast)
    ultimately show ?thesis by blast
  qed simp
next
  case (answered b flight trace p answer b' r)
  have s: "settled_ops (trace @ [Finished p answer r])"
    using answered.IH by (intro settled_ops_snoc) auto
  from answered(3) show ?case
  proof (cases rule: end_cases)
    case refused
    with answered.IH s receipted_refused show ?thesis by blast
  next
    case (accepted v response n res)
    show ?thesis
      unfolding accepted(2,6) using receipted_new [OF _ accepted(5)] answered.IH s accepted(2) by blast
  qed
qed

text \<open>An invocation with nothing between its parts is one of the interleavings.\<close>

lemma invoke_runs:
  assumes "broker_runs H policy b flight trace" "invoke H policy b v providerCall = (b', r)"
  shows "\<exists>events. broker_runs H policy b' flight (trace @ events)"
proof (cases "invoke_begin H policy b v")
  case (Pair b1 out)
  show ?thesis
  proof (cases out)
    case (Rejected e)
    with assms Pair threw [of H policy b flight trace v] have "broker_runs H policy b' flight (trace @ [])"
      by (simp add: invoke_def)
    then show ?thesis by blast
  next
    case (Settled x)
    with assms Pair returned [of H policy b flight trace v] have "broker_runs H policy b' flight (trace @ [])"
      by (simp add: invoke_def)
    then show ?thesis by blast
  next
    case (Calling p)
    let ?answer = "providerCall (pc_call p)"
    have e: "invoke_end H b1 p ?answer = (b', r)" using assms(2) Pair Calling by (simp add: invoke_def)
    have "broker_runs H policy b' (remove1 p (p # flight)) ((trace @ [Started p]) @ [Finished p ?answer r])"
      by (rule answered [OF called [OF assms(1) Pair [unfolded Calling]] _ e]) simp
    then have "broker_runs H policy b' flight (trace @ [Started p, Finished p ?answer r])" by simp
    then show ?thesis by blast
  qed
qed

end
