(* ===== verification/ModelReading.thy ===== *)
theory ModelReading
  imports ModelRuns
begin

text \<open>
  What the guards of the model broker establish: an admitted request has its declared types and formats
  and is the value it was read from, a passed response is confined to the request, and an accepted
  stream is numbered, framed and complete.
\<close>

subsection \<open>Redacted text\<close>

text \<open>
  \<open>redacted r f original text\<close>: the text is the original with some matches of \<open>r\<close> replaced, and no
  match of \<open>r\<close> in the original starts in a part that was kept.
\<close>

definition redacted :: "rx \<Rightarrow> (string \<Rightarrow> string) \<Rightarrow> string \<Rightarrow> string \<Rightarrow> bool" where
  "redacted r f original text \<longleftrightarrow> (\<exists>parts. concat (map snd parts) = original
     \<and> text = concat (map (\<lambda>(hit, part). if hit then f part else part) parts)
     \<and> (\<forall>part. (True, part) \<in> set parts \<longrightarrow> part \<noteq> [] \<and> part \<in> rx_lang r)
     \<and> (\<forall>us part vs w rest. parts = us @ (False, part) # vs \<longrightarrow> w \<in> rx_lang r \<longrightarrow> w \<noteq> []
          \<longrightarrow> part @ concat (map snd vs) \<noteq> w @ rest))"

lemma replaceAll_redacted: "redacted r f s (replaceAll r f s)"
  unfolding redacted_def replaceAll_def
proof (rule exI [of _ "cuts r s"], intro conjI allI impI)
  fix part
  assume "(True, part) \<in> set (cuts r s)"
  then show "part \<noteq> []" "part \<in> rx_lang r" by (auto dest: cut_hits)
qed (use cut_kept in \<open>auto simp: cut_concat\<close>)

subsection \<open>Admitted requests\<close>

definition within :: "model_budget \<Rightarrow> model_budget \<Rightarrow> bool" where
  "within b ceiling \<longleftrightarrow> list_all (\<lambda>sel. 1 \<le> sel b \<and> sel b \<le> sel ceiling \<and> sel b \<le> max_safe)
     [maxInputBytes, maxOutputBytes, maxTokens, maxCostMicros, maxRequests, timeoutMs]"

definition attachment_ok :: "model_route \<Rightarrow> int \<Rightarrow> attachment \<Rightarrow> bool" where
  "attachment_ok route limit a \<longleftrightarrow> at_mediaType a \<in> set (attachmentMediaTypes route) \<and> 1 \<le> at_bytes a
     \<and> at_bytes a \<le> limit \<and> hex64 (at_digest a) \<and> rx_test ATTACHMENT_REFERENCE (at_reference a)"

definition tool_ok :: "model_tool \<Rightarrow> bool" where
  "tool_ok t \<longleftrightarrow> rx_test TOOL_NAME (mt_name t) \<and> length (mt_description t) \<le> 512 \<and> is_object (mt_inputSchema t)"

definition request_ok :: "access_policy \<Rightarrow> model_route \<Rightarrow> model_request \<Rightarrow> bool" where
  "request_ok policy route q \<longleftrightarrow>
     route \<in> set (routes policy)
     \<and> mq_routeId q = rt_routeId route \<and> mq_provider q = rt_provider route \<and> mq_model q = rt_model route
     \<and> mq_protocol q = rt_protocol route
     \<and> mq_workloadIdentity q \<in> set (workloadIdentities policy) \<and> rx_test (model_id ''workload'') (mq_workloadIdentity q)
     \<and> mq_userIdentity q \<in> set (userIdentities policy) \<and> rx_test (model_id ''user'') (mq_userIdentity q)
     \<and> mq_tenant q \<in> set (allowedTenants route) \<and> rx_test (model_id ''tenant'') (mq_tenant q)
     \<and> mq_purpose q \<in> set (allowedPurposes route) \<and> rx_test (model_id ''purpose'') (mq_purpose q)
     \<and> rx_test (model_id ''operation'') (mq_operationId q) \<and> rx_test (model_id ''correlation'') (mq_correlationId q)
     \<and> digest_like (mq_delegationDigest q) \<and> within (mq_budget q) (maxBudget policy)
     \<and> length (mq_attachments q) \<le> 8
     \<and> list_all (attachment_ok route (maxInputBytes (mq_budget q))) (mq_attachments q)
     \<and> length (mq_tools q) \<le> 32 \<and> list_all tool_ok (mq_tools q)
     \<and> (mq_structuredOutput q = JNull \<or> is_object (mq_structuredOutput q)) \<and> is_object (mq_optionalFields q)
     \<and> fst ` set (fields_of (mq_optionalFields q)) \<subseteq> set (allowedFields route)
     \<and> mq_dataClassification q \<in> set [''PUBLIC'', ''INTERNAL'', ''CONFIDENTIAL'']
     \<and> mq_trustClass q \<in> set [''TRUSTED_OWNER_INPUT'', ''UNTRUSTED_AGENT_INPUT'']"

lemma admitted_peel:
  "(if c then Refused a i else x) = Admitted q route n \<longleftrightarrow> \<not> c \<and> x = Admitted q route n"
  "(case r of None \<Rightarrow> Refused a i | Some s \<Rightarrow> f s) = Admitted q route n \<longleftrightarrow>
    (\<exists>s. r = Some s \<and> f s = Admitted q route n)"
  by (simp_all split: option.split)

lemma request_ok_text: "request_ok policy route (q\<lparr>mq_text := s\<rparr>) = request_ok policy route q"
  by (simp add: request_ok_def)

text \<open>The conditions under which the guard admits a value.\<close>

lemma admitted_conds:
  assumes "guardModelRequestV1 v policy = Admitted q route n"
  shows "exactKeys v REQUEST_KEYS \<and> fld v ''schemaVersion'' = JStr MODEL_REQUEST_SCHEMA_V1
    \<and> findRoute policy v = Some route
    \<and> fld v ''workloadIdentity'' \<in> JStr ` set (workloadIdentities policy)
    \<and> fld v ''userIdentity'' \<in> JStr ` set (userIdentities policy)
    \<and> fld v ''tenant'' \<in> JStr ` set (allowedTenants route)
    \<and> fld v ''purpose'' \<in> JStr ` set (allowedPurposes route)
    \<and> boundId (fld v ''workloadIdentity'') ''workload'' \<and> boundId (fld v ''userIdentity'') ''user''
    \<and> boundId (fld v ''tenant'') ''tenant'' \<and> boundId (fld v ''purpose'') ''purpose''
    \<and> boundId (fld v ''operationId'') ''operation'' \<and> boundId (fld v ''correlationId'') ''correlation''
    \<and> digest_like (fld v ''delegationDigest'') \<and> validateBudget (fld v ''budget'') (maxBudget policy)
    \<and> str_test (\<lambda>s. byteLength s \<le> maxInputBytes (readBudget (fld v ''budget''))) (fld v ''text'')
    \<and> validateAttachments (fld v ''attachments'') route (maxInputBytes (readBudget (fld v ''budget'')))
    \<and> validateTools (fld v ''tools'')
    \<and> (fld v ''structuredOutput'' = JNull \<or> is_object (fld v ''structuredOutput''))
    \<and> is_object (fld v ''optionalFields'')
    \<and> filter (\<lambda>key. key \<notin> set (allowedFields route)) (map fst (fields_of (fld v ''optionalFields''))) = []
    \<and> fld v ''dataClassification'' \<in> JStr ` set [''PUBLIC'', ''INTERNAL'', ''CONFIDENTIAL'']
    \<and> fld v ''trustClass'' \<in> JStr ` set [''TRUSTED_OWNER_INPUT'', ''UNTRUSTED_AGENT_INPUT'']
    \<and> q = (readRequest v route)\<lparr>mq_text :=
        replaceAll secretPattern (\<lambda>_. REDACTED_BEFORE_PROVIDER) (mq_text (readRequest v route))\<rparr>
    \<and> n = hits secretPattern (mq_text (readRequest v route))"
proof -
  note h = assms [unfolded guardModelRequestV1_def Let_def]
  note h = h [unfolded admitted_peel]
  note h = h [unfolded de_Morgan_disj de_Morgan_conj not_not guarded.inject]
  from h show ?thesis
    by (elim exE conjE, hypsubst, intro conjI) (assumption | rule refl)+
qed

text \<open>The parts of an admitted value are the encodings of what is read from them.\<close>

lemma boundedInteger_jint:
  "boundedInteger v lo hi \<Longrightarrow>
    v = jint (int_of_js v) \<and> lo \<le> int_of_js v \<and> int_of_js v \<le> hi \<and> int_of_js v \<le> max_safe"
  using safe_integer_jint [of v] by (simp add: boundedInteger_def abs_le_iff)

lemma js_norm_arr_map:
  assumes "is_array v" "\<And>x. x \<in> set (elems_of v) \<Longrightarrow> js_norm x = js_norm (f (g x))"
  shows "js_norm v = js_norm (arr (map f (map g (elems_of v))))"
  using assms by (auto simp: is_array_iff)

lemma validateBudget_norm:
  assumes "validateBudget v ceiling"
  shows "js_norm v = js_norm (budget_js (readBudget v))" "within (readBudget v) ceiling"
proof -
  have k: "exactKeys v BUDGET_KEYS" using assms by (simp add: validateBudget_def)
  have b: "boundedInteger (fld v ''maxInputBytes'') 1 (maxInputBytes ceiling)"
    "boundedInteger (fld v ''maxOutputBytes'') 1 (maxOutputBytes ceiling)"
    "boundedInteger (fld v ''maxTokens'') 1 (maxTokens ceiling)"
    "boundedInteger (fld v ''maxCostMicros'') 1 (maxCostMicros ceiling)"
    "boundedInteger (fld v ''maxRequests'') 1 (maxRequests ceiling)"
    "boundedInteger (fld v ''timeoutMs'') 1 (timeoutMs ceiling)"
    using assms by (simp_all add: validateBudget_def)
  note j = b [THEN boundedInteger_jint]
  show "within (readBudget v) ceiling" using j by (simp add: within_def readBudget_def)
  show "js_norm v = js_norm (budget_js (readBudget v))"
  proof (rule exactKeys_norm_all [OF k])
    show "is_record (budget_js (readBudget v)) \<and> distinct (map fst (fields_of (budget_js (readBudget v))))
        \<and> mset (map fst (fields_of (budget_js (readBudget v)))) = mset BUDGET_KEYS"
      by (simp add: budget_js_def BUDGET_KEYS_def)
    show "list_all (\<lambda>(k, x). js_norm (getf (fields_of v) k) = js_norm x) (fields_of (budget_js (readBudget v)))"
      unfolding fld_def [symmetric] budget_js_def readBudget_def
      using j [THEN conjunct1, symmetric] by simp
  qed
qed

lemma attachment_norm:
  assumes "exactKeys v [''bytes'', ''digest'', ''mediaType'', ''reference'']"
    "fld v ''mediaType'' \<in> JStr ` set (attachmentMediaTypes route)" "boundedInteger (fld v ''bytes'') 1 limit"
    "str_test hex64 (fld v ''digest'')" "str_test (rx_test ATTACHMENT_REFERENCE) (fld v ''reference'')"
  shows "js_norm v = js_norm (attachment_js (readAttachment v))" "attachment_ok route limit (readAttachment v)"
proof -
  note j = assms(3) [THEN boundedInteger_jint] and d = assms(4) [THEN str_test_JStr]
    and r = assms(5) [THEN str_test_JStr]
  have m: "fld v ''mediaType'' = JStr (str_of (fld v ''mediaType''))
      \<and> str_of (fld v ''mediaType'') \<in> set (attachmentMediaTypes route)" using assms(2) by auto
  show "attachment_ok route limit (readAttachment v)"
    using j d r m by (simp add: attachment_ok_def readAttachment_def)
  show "js_norm v = js_norm (attachment_js (readAttachment v))"
  proof (rule exactKeys_norm_all [OF assms(1)])
    show "list_all (\<lambda>(k, x). js_norm (getf (fields_of v) k) = js_norm x)
        (fields_of (attachment_js (readAttachment v)))"
      unfolding fld_def [symmetric] attachment_js_def readAttachment_def
      using j [THEN conjunct1, symmetric] d [THEN conjunct1, symmetric] r [THEN conjunct1, symmetric]
        m [THEN conjunct1, symmetric] by simp
  qed (simp add: attachment_js_def)
qed

lemma tool_norm:
  assumes "exactKeys v [''description'', ''inputSchema'', ''name'']" "str_test (rx_test TOOL_NAME) (fld v ''name'')"
    "str_test (\<lambda>s. length s \<le> 512) (fld v ''description'')" "is_object (fld v ''inputSchema'')"
  shows "js_norm v = js_norm (tool_js (readTool v))" "tool_ok (readTool v)"
proof -
  note n = assms(2) [THEN str_test_JStr] and d = assms(3) [THEN str_test_JStr]
  show "tool_ok (readTool v)" using n d assms(4) by (simp add: tool_ok_def readTool_def)
  show "js_norm v = js_norm (tool_js (readTool v))"
  proof (rule exactKeys_norm_all [OF assms(1)])
    show "list_all (\<lambda>(k, x). js_norm (getf (fields_of v) k) = js_norm x) (fields_of (tool_js (readTool v)))"
      unfolding fld_def [symmetric] tool_js_def readTool_def
      using n [THEN conjunct1, symmetric] d [THEN conjunct1, symmetric] by simp
  qed (simp add: tool_js_def)
qed

lemma validateAttachments_norm:
  assumes "validateAttachments v route limit"
  shows "js_norm v = js_norm (arr (map attachment_js (map readAttachment (elems_of v))))"
    "length (elems_of v) \<le> 8" "list_all (attachment_ok route limit) (map readAttachment (elems_of v))"
proof -
  note a = assms [unfolded validateAttachments_def list_all_iff]
  have e: "js_norm x = js_norm (attachment_js (readAttachment x)) \<and> attachment_ok route limit (readAttachment x)"
    if "x \<in> set (elems_of v)" for x
    using a that by (intro conjI attachment_norm) blast+
  show "js_norm v = js_norm (arr (map attachment_js (map readAttachment (elems_of v))))"
    using a e by (intro js_norm_arr_map) blast+
  show "length (elems_of v) \<le> 8" using a by blast
  show "list_all (attachment_ok route limit) (map readAttachment (elems_of v))"
    using e by (simp add: list_all_iff)
qed

lemma validateTools_norm:
  assumes "validateTools v"
  shows "js_norm v = js_norm (arr (map tool_js (map readTool (elems_of v))))"
    "length (elems_of v) \<le> 32" "list_all tool_ok (map readTool (elems_of v))"
proof -
  note a = assms [unfolded validateTools_def list_all_iff]
  have e: "js_norm x = js_norm (tool_js (readTool x)) \<and> tool_ok (readTool x)" if "x \<in> set (elems_of v)" for x
    using a that by (intro conjI tool_norm) blast+
  show "js_norm v = js_norm (arr (map tool_js (map readTool (elems_of v))))"
    using a e by (intro js_norm_arr_map) blast+
  show "length (elems_of v) \<le> 32" using a by blast
  show "list_all tool_ok (map readTool (elems_of v))" using e by (simp add: list_all_iff)
qed

text \<open>An admitted request is in order, and is the value it was read from, up to its text.\<close>

lemma in_JStr: "v \<in> JStr ` A \<Longrightarrow> v = JStr (str_of v) \<and> str_of v \<in> A"
  by auto

lemma findRoute_Some:
  "findRoute policy v = Some route \<Longrightarrow> route \<in> set (routes policy)
    \<and> fld v ''routeId'' = JStr (rt_routeId route) \<and> fld v ''provider'' = JStr (rt_provider route)
    \<and> fld v ''model'' = JStr (rt_model route) \<and> fld v ''protocol'' = JStr (protocol_text (rt_protocol route))"
  unfolding findRoute_def by (drule find_Some_in) simp

lemma getf_request:
  assumes "r = readRequest v route"
  shows "mq_workloadIdentity r = str_of (fld v ''workloadIdentity'')"
    "mq_userIdentity r = str_of (fld v ''userIdentity'')" "mq_tenant r = str_of (fld v ''tenant'')"
    "mq_purpose r = str_of (fld v ''purpose'')" "mq_delegationDigest r = fld v ''delegationDigest''"
    "mq_operationId r = str_of (fld v ''operationId'')" "mq_correlationId r = str_of (fld v ''correlationId'')"
    "mq_routeId r = str_of (fld v ''routeId'')" "mq_provider r = str_of (fld v ''provider'')"
    "mq_model r = str_of (fld v ''model'')" "mq_protocol r = rt_protocol route"
    "mq_dataClassification r = str_of (fld v ''dataClassification'')"
    "mq_trustClass r = str_of (fld v ''trustClass'')" "mq_text r = str_of (fld v ''text'')"
    "mq_attachments r = map readAttachment (elems_of (fld v ''attachments''))"
    "mq_tools r = map readTool (elems_of (fld v ''tools''))"
    "mq_structuredOutput r = fld v ''structuredOutput''" "mq_optionalFields r = fld v ''optionalFields''"
    "mq_budget r = readBudget (fld v ''budget'')"
  using assms by (simp_all add: readRequest_def)

theorem admitted_request:
  assumes "guardModelRequestV1 v policy = Admitted q route n"
  obtains original where
    "request_ok policy route q" "mq_text q = replaceAll secretPattern (\<lambda>_. REDACTED_BEFORE_PROVIDER) original"
    "n = hits secretPattern original" "byteLength original \<le> maxInputBytes (mq_budget q)"
    "js_norm v = js_norm (request_js (q\<lparr>mq_text := original\<rparr>))"
proof -
  note c = admitted_conds [OF assms]
  define r where "r = readRequest v route"
  note g = getf_request [OF r_def]
  have q: "q = r\<lparr>mq_text := replaceAll secretPattern (\<lambda>_. REDACTED_BEFORE_PROVIDER) (mq_text r)\<rparr>"
    and n: "n = hits secretPattern (mq_text r)" using c unfolding r_def by blast+
  have k: "exactKeys v REQUEST_KEYS" and sv: "fld v ''schemaVersion'' = JStr MODEL_REQUEST_SCHEMA_V1"
    and fr: "findRoute policy v = Some route" using c by blast+
  note route = findRoute_Some [OF fr]
  have w: "fld v ''workloadIdentity'' \<in> JStr ` set (workloadIdentities policy)"
    and u: "fld v ''userIdentity'' \<in> JStr ` set (userIdentities policy)"
    and t: "fld v ''tenant'' \<in> JStr ` set (allowedTenants route)"
    and p: "fld v ''purpose'' \<in> JStr ` set (allowedPurposes route)"
    and dc: "fld v ''dataClassification'' \<in> JStr ` set [''PUBLIC'', ''INTERNAL'', ''CONFIDENTIAL'']"
    and tc: "fld v ''trustClass'' \<in> JStr ` set [''TRUSTED_OWNER_INPUT'', ''UNTRUSTED_AGENT_INPUT'']"
    using c by blast+
  note w = in_JStr [OF w] and u = in_JStr [OF u] and t = in_JStr [OF t] and p = in_JStr [OF p]
    and dc = in_JStr [OF dc] and tc = in_JStr [OF tc]
  have ids: "boundId (fld v ''workloadIdentity'') ''workload''" "boundId (fld v ''userIdentity'') ''user''"
    "boundId (fld v ''tenant'') ''tenant''" "boundId (fld v ''purpose'') ''purpose''"
    "boundId (fld v ''operationId'') ''operation''" "boundId (fld v ''correlationId'') ''correlation''"
    using c by blast+
  note ids = ids [unfolded boundId_def, THEN str_test_JStr]
  have dg: "digest_like (fld v ''delegationDigest'')"
    and so: "fld v ''structuredOutput'' = JNull \<or> is_object (fld v ''structuredOutput'')"
    and io: "is_object (fld v ''optionalFields'')"
    and fs: "filter (\<lambda>key. key \<notin> set (allowedFields route)) (map fst (fields_of (fld v ''optionalFields''))) = []"
    using c by blast+
  have vb: "validateBudget (fld v ''budget'') (maxBudget policy)"
    and tx: "str_test (\<lambda>s. byteLength s \<le> maxInputBytes (readBudget (fld v ''budget''))) (fld v ''text'')"
    and va: "validateAttachments (fld v ''attachments'') route (maxInputBytes (readBudget (fld v ''budget'')))"
    and vt: "validateTools (fld v ''tools'')" using c by blast+
  note vb = validateBudget_norm [OF vb] and tx = tx [THEN str_test_JStr]
    and va = validateAttachments_norm [OF va] and vt = validateTools_norm [OF vt]
  have fields: "fst ` set (fields_of (fld v ''optionalFields'')) \<subseteq> set (allowedFields route)"
    using fs unfolding filter_empty_conv by auto
  have rf: "str_of (fld v ''routeId'') = rt_routeId route" "str_of (fld v ''provider'') = rt_provider route"
    "str_of (fld v ''model'') = rt_model route" using route by simp_all
  show thesis
  proof (rule that [of "mq_text r"])
    show "request_ok policy route q"
      unfolding q request_ok_text unfolding request_ok_def g
      by (intro conjI route [THEN conjunct1] rf refl w [THEN conjunct2] u [THEN conjunct2] t [THEN conjunct2]
        p [THEN conjunct2] dc [THEN conjunct2] tc [THEN conjunct2] ids [THEN conjunct2] dg so io fields vb(2)
        va(3) vt(3)) (simp_all only: length_map va(2) vt(2))
    show "mq_text q = replaceAll secretPattern (\<lambda>_. REDACTED_BEFORE_PROVIDER) (mq_text r)" unfolding q by simp
    show "n = hits secretPattern (mq_text r)" by (rule n)
    show "byteLength (mq_text r) \<le> maxInputBytes (mq_budget q)" unfolding q using tx by (simp add: g)
    have q': "q\<lparr>mq_text := mq_text r\<rparr> = r" unfolding q by simp
    show "js_norm v = js_norm (request_js (q\<lparr>mq_text := mq_text r\<rparr>))"
      unfolding q'
    proof (rule exactKeys_norm_all [OF k])
      show "is_record (request_js r) \<and> distinct (map fst (fields_of (request_js r)))
          \<and> mset (map fst (fields_of (request_js r))) = mset REQUEST_KEYS"
        by (simp add: request_js_def REQUEST_KEYS_def)
      show "list_all (\<lambda>(k, x). js_norm (getf (fields_of v) k) = js_norm x) (fields_of (request_js r))"
        unfolding fld_def [symmetric] request_js_def fields_of.simps list.pred_inject prod.case g
        by (intro conjI TrueI arg_cong [of _ _ js_norm] refl sv w [THEN conjunct1] u [THEN conjunct1]
          t [THEN conjunct1] p [THEN conjunct1] dc [THEN conjunct1] tc [THEN conjunct1] ids [THEN conjunct1]
          tx [THEN conjunct1] vb(1) va(1) vt(1)) (use route in simp_all)
    qed
  qed
qed

text \<open>Conversely, the encoding of a request that is in order is admitted.\<close>

lemma fld_request_js:
  "fld (request_js q) ''schemaVersion'' = JStr MODEL_REQUEST_SCHEMA_V1"
  "fld (request_js q) ''workloadIdentity'' = JStr (mq_workloadIdentity q)"
  "fld (request_js q) ''userIdentity'' = JStr (mq_userIdentity q)"
  "fld (request_js q) ''tenant'' = JStr (mq_tenant q)" "fld (request_js q) ''purpose'' = JStr (mq_purpose q)"
  "fld (request_js q) ''delegationDigest'' = mq_delegationDigest q"
  "fld (request_js q) ''operationId'' = JStr (mq_operationId q)"
  "fld (request_js q) ''correlationId'' = JStr (mq_correlationId q)"
  "fld (request_js q) ''routeId'' = JStr (mq_routeId q)" "fld (request_js q) ''provider'' = JStr (mq_provider q)"
  "fld (request_js q) ''model'' = JStr (mq_model q)"
  "fld (request_js q) ''protocol'' = JStr (protocol_text (mq_protocol q))"
  "fld (request_js q) ''dataClassification'' = JStr (mq_dataClassification q)"
  "fld (request_js q) ''trustClass'' = JStr (mq_trustClass q)" "fld (request_js q) ''text'' = JStr (mq_text q)"
  "fld (request_js q) ''attachments'' = arr (map attachment_js (mq_attachments q))"
  "fld (request_js q) ''tools'' = arr (map tool_js (mq_tools q))"
  "fld (request_js q) ''structuredOutput'' = mq_structuredOutput q"
  "fld (request_js q) ''optionalFields'' = mq_optionalFields q"
  "fld (request_js q) ''budget'' = budget_js (mq_budget q)"
  by (simp_all add: fld_def request_js_def)

lemma read_encodings [simp]:
  "readBudget (budget_js b) = b" "readAttachment (attachment_js a) = a" "readTool (tool_js t) = t"
  by (simp_all add: readBudget_def budget_js_def readAttachment_def attachment_js_def readTool_def tool_js_def fld_def)

lemma readRequest_request_js: "mq_protocol q = rt_protocol route \<Longrightarrow> readRequest (request_js q) route = q"
  unfolding readRequest_def fld_request_js by (simp add: comp_def)

lemma validateBudget_budget_js: "within b ceiling \<Longrightarrow> validateBudget (budget_js b) ceiling"
proof -
  assume w: "within b ceiling"
  have "exactKeys (budget_js b) BUDGET_KEYS"
    unfolding budget_js_def by (rule exactKeys_mset) (simp_all add: BUDGET_KEYS_def)
  with w show ?thesis
    by (simp add: validateBudget_def within_def boundedInteger_def fld_def budget_js_def max_safe_def)
qed

lemma validateAttachments_js:
  assumes "list_all (attachment_ok route limit) atts" "length atts \<le> 8" "limit \<le> max_safe"
  shows "validateAttachments (arr (map attachment_js atts)) route limit"
proof -
  have "exactKeys (attachment_js a) [''bytes'', ''digest'', ''mediaType'', ''reference'']" for a
    unfolding attachment_js_def by (rule exactKeys_mset) simp_all
  then show ?thesis using assms
    by (auto simp: validateAttachments_def list_all_iff attachment_ok_def boundedInteger_def fld_def
        attachment_js_def max_safe_def)
qed

lemma validateTools_js:
  assumes "list_all tool_ok ts" "length ts \<le> 32"
  shows "validateTools (arr (map tool_js ts))"
proof -
  have "exactKeys (tool_js t) [''description'', ''inputSchema'', ''name'']" for t
    unfolding tool_js_def by (rule exactKeys_mset) simp_all
  then show ?thesis using assms
    by (auto simp: validateTools_def list_all_iff tool_ok_def fld_def tool_js_def)
qed

theorem ok_request_admitted:
  assumes ok: "request_ok policy route q" and route: "findRoute policy (request_js q) = Some route"
    and fits: "byteLength (mq_text q) \<le> maxInputBytes (mq_budget q)"
  shows "guardModelRequestV1 (request_js q) policy
    = Admitted (q\<lparr>mq_text := replaceAll secretPattern (\<lambda>_. REDACTED_BEFORE_PROVIDER) (mq_text q)\<rparr>)
        route (hits secretPattern (mq_text q))"
proof -
  note o = ok [unfolded request_ok_def]
  have k: "exactKeys (request_js q) REQUEST_KEYS"
    unfolding request_js_def by (rule exactKeys_mset) (simp_all add: REQUEST_KEYS_def)
  have w: "within (mq_budget q) (maxBudget policy)" using o by blast
  then have m: "maxInputBytes (mq_budget q) \<le> max_safe" by (simp add: within_def)
  have a: "validateAttachments (arr (map attachment_js (mq_attachments q))) route (maxInputBytes (mq_budget q))"
    using o by (intro validateAttachments_js m) blast+
  have t: "validateTools (arr (map tool_js (mq_tools q)))" using o by (intro validateTools_js) blast+
  have f: "filter (\<lambda>key. key \<notin> set (allowedFields route)) (map fst (fields_of (mq_optionalFields q))) = []"
    using o unfolding filter_empty_conv set_map by blast
  have c: "mq_dataClassification q \<noteq> ''SECRET''" using o by auto
  have r: "readRequest (request_js q) route = q" using o by (intro readRequest_request_js) blast
  have ids: "rx_test (model_id ''workload'') (mq_workloadIdentity q)" "rx_test (model_id ''user'') (mq_userIdentity q)"
    "rx_test (model_id ''tenant'') (mq_tenant q)" "rx_test (model_id ''purpose'') (mq_purpose q)"
    "rx_test (model_id ''operation'') (mq_operationId q)" "rx_test (model_id ''correlation'') (mq_correlationId q)"
    "digest_like (mq_delegationDigest q)" "is_object (mq_optionalFields q)"
    "mq_structuredOutput q = JNull \<or> is_object (mq_structuredOutput q)" using o by blast+
  have mem: "mq_workloadIdentity q \<in> set (workloadIdentities policy)" "mq_userIdentity q \<in> set (userIdentities policy)"
    "mq_tenant q \<in> set (allowedTenants route)" "mq_purpose q \<in> set (allowedPurposes route)"
    "mq_dataClassification q \<in> set [''PUBLIC'', ''INTERNAL'', ''CONFIDENTIAL'']"
    "mq_trustClass q \<in> set [''TRUSTED_OWNER_INPUT'', ''UNTRUSTED_AGENT_INPUT'']" using o by blast+
  have j: "JStr s \<in> JStr ` A \<longleftrightarrow> s \<in> A" for s A by auto
  show ?thesis
    unfolding guardModelRequestV1_def Let_def fld_request_js route option.case read_encodings r j boundId_def
      str_test_simps
    using k ids mem c a t f fits validateBudget_budget_js [OF w] by simp
qed

subsection \<open>The provider request\<close>

lemma getf_assign: "getf (assign kvs k v) k' = (if k' = k then v else getf kvs k')"
  by (induction kvs k v rule: assign.induct) auto

lemma getf_spread_notin: "k \<notin> fst ` set lws \<Longrightarrow> getf (spread kvs lws) k = getf kvs k"
  unfolding spread_def
  by (induction lws arbitrary: kvs) (auto simp: getf_assign)

lemma getf_spread_Cons: "getf (spread kvs ((k, v) # lws)) k' = getf (spread (assign kvs k v) lws) k'"
  by (simp add: spread_def)

text \<open>The property of a provider request that holds the text for the model, and what it must hold.\<close>

definition prompt_key :: "model_protocol \<Rightarrow> string" where
  "prompt_key protocol = (if protocol = OPENAI_RESPONSES then ''input'' else ''messages'')"

definition prompt_js :: "model_protocol \<Rightarrow> string \<Rightarrow> js" where
  "prompt_js protocol text = arr [obj [(''role'', JStr ''user''), (''content'',
     if protocol = OPENAI_RESPONSES then arr [obj [(''type'', JStr ''input_text''), (''text'', JStr text)]]
     else JStr text)]]"

lemma adapted_prompt:
  assumes "rt_protocol route = OPENAI_CHAT_COMPLETIONS
      \<or> prompt_key (rt_protocol route) \<notin> fst ` set (fields_of (mq_optionalFields q))"
  shows "fld (adaptCanonicalRequestV1 q route) (prompt_key (rt_protocol route))
    = prompt_js (rt_protocol route) (mq_text q)"
  using assms
  by (cases "rt_protocol route")
    (simp_all add: adaptCanonicalRequestV1_def Let_def fld_def prompt_key_def prompt_js_def getf_spread_notin
      getf_spread_Cons getf_assign)

text \<open>
  Without structured output the chat adapter leaves a property undefined, so the request has no digest and
  the invocation rejects.
\<close>

lemma assign_in: "(k, v) \<in> set (assign kvs k v)" "(k', w) \<in> set kvs \<Longrightarrow> k' \<noteq> k \<Longrightarrow> (k', w) \<in> set (assign kvs k v)"
  by (induction kvs k v rule: assign.induct) auto

lemma chat_needs_structured_output:
  assumes "rt_protocol route = OPENAI_CHAT_COMPLETIONS" "mq_structuredOutput q = JNull"
  shows "\<exists>e. digest_js H (adaptCanonicalRequestV1 q route) = Inl e"
proof -
  obtain kvs where k: "adaptCanonicalRequestV1 q route = obj kvs" "(''response_format'', JUndef) \<in> set kvs"
    using assms by (simp add: adaptCanonicalRequestV1_def Let_def spread_def assign_in)
  have "\<not> plain (adaptCanonicalRequestV1 q route)"
  proof
    assume "plain (adaptCanonicalRequestV1 q route)"
    then have "\<forall>x \<in> set kvs. case x of (k, v) \<Rightarrow> plain v" unfolding k(1) by (simp add: list_all_iff)
    from bspec [OF this k(2)] show False by simp
  qed
  then show ?thesis using digest_js_Inr_iff by (metis sum.exhaust)
qed

subsection \<open>Passed responses\<close>

definition candidate_ok :: "model_request \<Rightarrow> tool_candidate \<Rightarrow> bool" where
  "candidate_ok q c \<longleftrightarrow> tc_name c \<in> mt_name ` set (mq_tools q) \<and> rx_test TOOL_CALL_ID (tc_id c)
     \<and> is_object (tc_arguments c) \<and> fst ` set (fields_of (tc_arguments c)) \<inter> set AUTHORITY_KEYS = {}"

lemma toolCandidate_Passed:
  assumes "toolCandidate q t = Inr (Passed c)"
  shows "candidate_ok q c"
proof -
  have n: "fld t ''name'' \<in> JStr ` mt_name ` set (mq_tools q)" and i: "str_test (rx_test TOOL_CALL_ID) (fld t ''id'')"
    and a: "is_object (fld t ''arguments'')"
    and k: "\<not> list_ex (\<lambda>key. key \<in> set (map fst (fields_of (fld t ''arguments'')))) AUTHORITY_KEYS"
    and c: "c = \<lparr>tc_id = str_of (fld t ''id''), tc_name = str_of (fld t ''name''), tc_arguments = fld t ''arguments''\<rparr>"
    using assms unfolding toolCandidate_def by (simp_all split: if_splits)
  have "fst ` set (fields_of (fld t ''arguments'')) \<inter> set AUTHORITY_KEYS = {}"
    using k unfolding list_ex_iff by auto
  then show ?thesis
    using in_JStr [OF n] str_test_JStr [OF i] a unfolding candidate_ok_def c by simp
qed

lemma screened_peel:
  "(if c then Inr (Quarantined i) else x) = Inr (Passed y) \<longleftrightarrow> \<not> c \<and> x = Inr (Passed y)"
  "(if c then Inl e else x) = Inr z \<longleftrightarrow> \<not> c \<and> x = Inr z"
  "(case r of Quarantined i \<Rightarrow> Inr (Quarantined i) | Passed a \<Rightarrow> f a) = Inr (Passed y) \<longleftrightarrow>
    (\<exists>a. r = Passed a \<and> f a = Inr (Passed y))"
  by (auto split: screened.split)

lemma toolCandidates_Passed:
  "toolCandidates q ts = Inr (Passed cs) \<Longrightarrow> list_all (candidate_ok q) cs \<and> length cs = length ts"
proof (induction q ts arbitrary: cs rule: toolCandidates.induct)
  case (2 q t ts)
  obtain c cs' where "toolCandidate q t = Inr (Passed c)" "toolCandidates q ts = Inr (Passed cs')" "cs = c # cs'"
    using "2.prems" unfolding toolCandidates.simps res_bind_Inr_iff screened_peel by blast
  with "2.IH" [OF this(1) refl this(2)] show ?case by (simp add: toolCandidate_Passed)
qed simp

definition response_ok ::
    "hash \<Rightarrow> model_request \<Rightarrow> model_route \<Rightarrow> string \<Rightarrow> js \<Rightarrow> model_response \<Rightarrow> bool" where
  "response_ok H q route requestDigest v r \<longleftrightarrow>
     mr_operationId r = mq_operationId q \<and> mr_correlationId r = mq_correlationId q
     \<and> mr_provider r = mq_provider q \<and> mr_model r = mq_model q \<and> mr_routeId r = rt_routeId route
     \<and> mr_contentType r \<in> {''text/plain'', ''application/json''}
     \<and> list_all (candidate_ok q) (toolCallCandidates r)
     \<and> mr_usage r = fld v ''usage''
     \<and> boundedInteger (fld (mr_usage r) ''inputTokens'') 0 (maxTokens (mq_budget q))
     \<and> boundedInteger (fld (mr_usage r) ''outputTokens'') 0 (maxTokens (mq_budget q))
     \<and> boundedInteger (fld (mr_usage r) ''costMicros'') 0 (maxCostMicros (mq_budget q))
     \<and> providerRequestDigest r = requestDigest \<and> providerResponseDigest r = digest_of H v \<and> plain v
     \<and> (\<exists>original clean. fld v ''text'' = JStr original \<and> byteLength original \<le> maxOutputBytes (mq_budget q)
          \<and> redacted secretPattern (\<lambda>_. REDACTED_MODEL_OUTPUT) original clean
          \<and> redacted injectionPattern (neutralised H) clean (mr_text r))"

theorem passed_response:
  assumes "guardModelResponseV1 H q route d v = Inr (Passed (r, n))"
  shows "response_ok H q route d v r"
proof -
  note h = assms [unfolded guardModelResponseV1_def Let_def]
  note h = h [unfolded screened_peel res_bind_Inr_iff]
  note h = h [unfolded de_Morgan_disj not_not sum.inject screened.inject prod.inject digest_js_Inr_iff]
  from h obtain ts cs where ct: "fld v ''contentType'' \<in> JStr ` set [''text/plain'', ''application/json'']"
    and tx: "str_test (\<lambda>s. byteLength s \<le> maxOutputBytes (mq_budget q)) (fld v ''text'')"
    and us: "boundedInteger (fld (fld v ''usage'') ''inputTokens'') 0 (maxTokens (mq_budget q))"
      "boundedInteger (fld (fld v ''usage'') ''outputTokens'') 0 (maxTokens (mq_budget q))"
      "boundedInteger (fld (fld v ''usage'') ''costMicros'') 0 (maxCostMicros (mq_budget q))"
    and cs: "toolCandidates q ts = Inr (Passed cs)" and p: "plain v"
    and r: "\<lparr>mr_operationId = mq_operationId q, mr_correlationId = mq_correlationId q,
        mr_provider = mq_provider q, mr_model = mq_model q, mr_protocol = mq_protocol q,
        mr_contentType = str_of (fld v ''contentType''),
        mr_text = replaceAll injectionPattern (neutralised H)
          (replaceAll secretPattern (\<lambda>_. REDACTED_MODEL_OUTPUT) (str_of (fld v ''text''))),
        mr_structuredOutput = (if fld v ''structuredOutput'' = JUndef then JNull else fld v ''structuredOutput''),
        toolCallCandidates = cs, mr_routeId = rt_routeId route,
        providerRequestDigest = d, providerResponseDigest = digest_of H v, mr_usage = fld v ''usage''\<rparr> = r"
    by blast
  have t: "\<exists>original clean. fld v ''text'' = JStr original \<and> byteLength original \<le> maxOutputBytes (mq_budget q)
      \<and> redacted secretPattern (\<lambda>_. REDACTED_MODEL_OUTPUT) original clean
      \<and> redacted injectionPattern (neutralised H) clean (replaceAll injectionPattern (neutralised H)
          (replaceAll secretPattern (\<lambda>_. REDACTED_MODEL_OUTPUT) (str_of (fld v ''text''))))"
    using str_test_JStr [OF tx] replaceAll_redacted by blast
  show ?thesis
    unfolding response_ok_def r [symmetric] model_response.simps
    using in_JStr [OF ct] toolCandidates_Passed [OF cs] us p t by simp
qed

end
