(* ===== verification/ModelStreams.thy ===== *)
theory ModelStreams
  imports ModelReading
begin

text \<open>
  The stream parser of the model broker line by line: what one line adds, the invariant of the lines
  read so far, and the unchecked path the string conversion of the event opens.
\<close>

definition is_tool :: "stream_event \<Rightarrow> bool" where
  "is_tool e \<longleftrightarrow> se_event e = JStr ''TOOL_CANDIDATE''"

definition tool_id :: "stream_event \<Rightarrow> string" where
  "tool_id e = str_of (fld (se_data e) ''id'')"

text \<open>A tool candidate in a stream is complete and carries the data recorded for its identifier.\<close>

definition tool_complete :: "stream_event \<Rightarrow> bool" where
  "tool_complete e \<longleftrightarrow> is_string (fld (se_data e) ''id'') \<and> is_string (fld (se_data e) ''name'')
     \<and> fld (se_data e) ''complete'' = JBool True \<and> plain (se_data e)"

definition event_ok :: "model_request \<Rightarrow> nat \<Rightarrow> stream_event \<Rightarrow> bool" where
  "event_ok q i e \<longleftrightarrow> se_operationId e = mq_operationId q \<and> se_sequence e = int i \<and> i \<le> 1000000
     \<and> to_string (se_event e) \<in> set STREAM_EVENTS \<and> is_object (se_data e) \<and> (is_tool e \<longrightarrow> tool_complete e)"

definition stream_ok :: "hash \<Rightarrow> model_request \<Rightarrow> stream_state \<Rightarrow> bool" where
  "stream_ok H q s \<longleftrightarrow> (\<forall>i < length (ss_events s). event_ok q i (ss_events s ! i))
     \<and> (\<forall>e \<in> set (ss_events s). is_tool e \<longrightarrow> ss_toolDigests s (tool_id e) = Some (digest_of H (se_data e)))"

lemma stream_ok_start: "stream_ok H q stream_start"
  by (simp add: stream_ok_def stream_start_def)

lemma toolData_Passed:
  assumes "toolData H s data = Inr (Passed s')"
  shows "is_string (fld data ''id'') \<and> is_string (fld data ''name'') \<and> fld data ''complete'' = JBool True
    \<and> plain data \<and> (ss_toolDigests s (str_of (fld data ''id'')) = None
      \<or> ss_toolDigests s (str_of (fld data ''id'')) = Some (digest_of H data))
    \<and> s' = s\<lparr>ss_toolDigests := (ss_toolDigests s)(str_of (fld data ''id'') \<mapsto> digest_of H data)\<rparr>"
proof -
  note h = assms [unfolded toolData_def Let_def]
  note h = h [unfolded screened_peel res_bind_Inr_iff digest_js_Inr_iff]
  note h = h [unfolded de_Morgan_disj de_Morgan_conj not_not sum.inject screened.inject]
  from h show ?thesis by (elim exE conjE disjE) simp_all
qed

text \<open>What an accepted event adds to the state.\<close>

definition new_event :: "model_request \<Rightarrow> js \<Rightarrow> stream_event" where
  "new_event q parsed = \<lparr>se_operationId = mq_operationId q, se_sequence = int_of_js (fld parsed ''sequence''),
     se_event = fld parsed ''event'', se_data = fld parsed ''data''\<rparr>"

lemma streamEvent_Passed:
  assumes "streamEvent H q s parsed = Inr (Passed s')"
  shows "event_ok q (length (ss_events s)) (new_event q parsed)
    \<and> ss_events s' = ss_events s @ [new_event q parsed] \<and> ss_done s' = ss_done s
    \<and> ss_totalBytes s' = ss_totalBytes s
    \<and> (if is_tool (new_event q parsed)
       then ss_toolDigests s' = (ss_toolDigests s)(tool_id (new_event q parsed) \<mapsto> digest_of H (se_data (new_event q parsed)))
         \<and> (ss_toolDigests s (tool_id (new_event q parsed)) = None
           \<or> ss_toolDigests s (tool_id (new_event q parsed)) = Some (digest_of H (se_data (new_event q parsed))))
       else ss_toolDigests s' = ss_toolDigests s)"
proof -
  note h = assms [unfolded streamEvent_def]
  note h = h [unfolded screened_peel res_bind_Inr_iff]
  note h = h [unfolded de_Morgan_disj not_not sum.inject screened.inject]
  from h obtain t where sq: "boundedInteger (fld parsed ''sequence'') 0 1000000"
      "int_of_js (fld parsed ''sequence'') = int (length (ss_events s))"
    and ev: "to_string (fld parsed ''event'') \<in> set STREAM_EVENTS" "is_object (fld parsed ''data'')"
    and t: "(if fld parsed ''event'' = JStr ''TOOL_CANDIDATE'' then toolData H s (fld parsed ''data'')
        else Inr (Passed s)) = Inr (Passed t)"
    and s': "t\<lparr>ss_events := ss_events t @ [new_event q parsed]\<rparr> = s'"
    unfolding new_event_def by blast
  have n: "length (ss_events s) \<le> 1000000" using sq by (simp add: boundedInteger_def)
  show ?thesis
  proof (cases "fld parsed ''event'' = JStr ''TOOL_CANDIDATE''")
    case True
    with t have "toolData H s (fld parsed ''data'') = Inr (Passed t)" by simp
    from toolData_Passed [OF this] True sq(2) ev n show ?thesis
      unfolding s' [symmetric] by (simp add: event_ok_def is_tool_def tool_id_def tool_complete_def new_event_def)
  next
    case False
    then have "t = s" using t by simp
    with False sq(2) ev n show ?thesis
      unfolding s' [symmetric] by (simp add: event_ok_def is_tool_def new_event_def)
  qed
qed

lemma streamEvent_ok:
  assumes "stream_ok H q s" "streamEvent H q s parsed = Inr (Passed s')"
  shows "stream_ok H q s'"
proof -
  note p = streamEvent_Passed [OF assms(2)]
  have "\<forall>i < length (ss_events s'). event_ok q i (ss_events s' ! i)"
    using assms(1) p unfolding stream_ok_def by (auto simp: nth_append less_Suc_eq)
  moreover have "ss_toolDigests s' (tool_id e) = Some (digest_of H (se_data e))"
    if e: "e \<in> set (ss_events s')" "is_tool e" for e
  proof (cases "e = new_event q parsed")
    case False
    then have "ss_toolDigests s (tool_id e) = Some (digest_of H (se_data e))"
      using assms(1) e p unfolding stream_ok_def by auto
    then show ?thesis using p by (auto split: if_splits)
  qed (use p e in simp)
  ultimately show ?thesis unfolding stream_ok_def by blast
qed

text \<open>One line: it is framed, within the byte budget, and either the end mark or an event.\<close>

lemma streamLine_Passed:
  assumes "streamLine H parse q s line = Inr (Passed s')"
  shows "take 6 line = DATA_PREFIX \<and> ss_totalBytes s' = ss_totalBytes s + byteLength line
    \<and> ss_totalBytes s' \<le> maxOutputBytes (mq_budget q)
    \<and> (line = DATA_DONE \<and> ss_done s' \<and> ss_events s' = ss_events s \<and> ss_toolDigests s' = ss_toolDigests s
      \<or> line \<noteq> DATA_DONE \<and> ss_done s' = ss_done s \<and> length (ss_events s') = Suc (length (ss_events s)))
    \<and> (stream_ok H q s \<longrightarrow> stream_ok H q s')"
proof -
  let ?s = "s\<lparr>ss_totalBytes := ss_totalBytes s + byteLength line\<rparr>"
  note h = assms [unfolded streamLine_def Let_def]
  note h = h [unfolded screened_peel]
  have b: "ss_totalBytes ?s \<le> maxOutputBytes (mq_budget q)" "take 6 line = DATA_PREFIX"
    using h by simp_all
  have keep: "stream_ok H q ?s = stream_ok H q s" "stream_ok H q (?s\<lparr>ss_done := True\<rparr>) = stream_ok H q s"
    by (simp_all add: stream_ok_def)
  show ?thesis
  proof (cases "line = DATA_DONE")
    case True
    then have "s' = ?s\<lparr>ss_done := True\<rparr>" using h by simp
    with True b keep(2) show ?thesis by simp
  next
    case False
    then obtain parsed where p: "streamEvent H q ?s parsed = Inr (Passed s')"
      using h by (auto split: option.splits)
    from streamEvent_Passed [OF p] streamEvent_ok [OF _ p] b keep(1) False show ?thesis by simp
  qed
qed

lemma streamLines_Passed:
  assumes "streamLines H parse q s lines = Inr (Passed s')"
  shows "list_all (\<lambda>line. take 6 line = DATA_PREFIX) lines
    \<and> ss_totalBytes s' = ss_totalBytes s + sum_list (map byteLength lines)
    \<and> (lines = [] \<or> ss_totalBytes s' \<le> maxOutputBytes (mq_budget q))
    \<and> (ss_done s' \<longleftrightarrow> ss_done s \<or> DATA_DONE \<in> set lines)
    \<and> length (ss_events s') = length (ss_events s) + length (filter (\<lambda>line. line \<noteq> DATA_DONE) lines)
    \<and> (stream_ok H q s \<longrightarrow> stream_ok H q s')"
  using assms
proof (induction H parse q s lines rule: streamLines.induct)
  case (2 H parse q s line lines)
  obtain t where t: "streamLine H parse q s line = Inr (Passed t)" "streamLines H parse q t lines = Inr (Passed s')"
    using "2.prems" unfolding streamLines.simps res_bind_Inr_iff screened_peel by blast
  note one = streamLine_Passed [OF t(1)] and rest = "2.IH" [OF t(1) refl t(2)]
  have "lines = [] \<Longrightarrow> s' = t" using t(2) by simp
  with one rest show ?case by auto
qed simp

end
