(* ===== verification/ModelSamples.thy ===== *)
theory ModelSamples
  imports ModelStreams
begin

text \<open>
  A concrete run of the model broker, for the witnesses of its properties: the synthetic request with a
  password in its text, its provider call, the answer and the redelivery of the same request.
\<close>

definition model_hash :: hash where "model_hash t = t"

definition sample_policy :: access_policy where
  "sample_policy = syntheticModelAccessPolicyV1 OPENAI_CHAT_COMPLETIONS"

definition sample_route :: model_route where "sample_route = hd (routes sample_policy)"

definition sample_request :: model_request where
  "sample_request = (syntheticCanonicalModelRequestV1 OPENAI_CHAT_COMPLETIONS)\<lparr>mq_text := ''password=hunter22''\<rparr>"

definition redacted_request :: model_request where
  "redacted_request = sample_request\<lparr>mq_text := REDACTED_BEFORE_PROVIDER\<rparr>"

lemma sample_cut:
  "cuts secretPattern ''password=hunter22'' = [(True, ''password=hunter22'')]"
  by code_simp

lemma sample_ids:
  "rx_test (model_id ''workload'') ''workload:isolated-openclaw''" "rx_test (model_id ''user'') ''user:synthetic-owner''"
  "rx_test (model_id ''tenant'') ''tenant:synthetic-zoo''" "rx_test (model_id ''purpose'') ''purpose:agent-assistance''"
  "rx_test (model_id ''operation'') ''operation:model-0001''"
  "rx_test (model_id ''correlation'') ''correlation:model-0001''"
  "rx_test TOOL_NAME ''crm.contact.create''" "rx_test ATTACHMENT_REFERENCE ''attachment:synthetic-image''"
  by code_simp+

lemma sample_hex: "hex64 (replicate 64 (CHR ''a''))" "hex64 (replicate 64 (CHR ''b''))"
  by (simp_all add: hex64_iff list_all_iff in_class_def d0_9_def)

lemma sample_ok: "request_ok sample_policy sample_route sample_request"
  using sample_ids sample_hex
  by (simp add: request_ok_def sample_policy_def sample_route_def sample_request_def syntheticModelAccessPolicyV1_def
      syntheticCanonicalModelRequestV1_def within_def attachment_ok_def tool_ok_def is_object_def digest_like_def
      max_safe_def Let_def del: rx_test.simps replicate.simps replicate_Suc)

lemma sample_admitted:
  "guardModelRequestV1 (request_js sample_request) sample_policy = Admitted redacted_request sample_route 1"
proof -
  have f: "findRoute sample_policy (request_js sample_request) = Some sample_route"
    unfolding findRoute_def fld_request_js
    by (simp add: sample_policy_def sample_route_def sample_request_def syntheticModelAccessPolicyV1_def
        syntheticCanonicalModelRequestV1_def Let_def)
  have t: "mq_text sample_request = ''password=hunter22''" by (simp add: sample_request_def)
  have "byteLength (mq_text sample_request) \<le> maxInputBytes (mq_budget sample_request)"
    by (simp add: sample_request_def syntheticCanonicalModelRequestV1_def Let_def byteLength_def)
  from ok_request_admitted [OF sample_ok f this] show ?thesis
    unfolding redacted_request_def t replaceAll_def hits_def sample_cut by simp
qed

lemma sample_plain:
  "plain (request_js redacted_request)" "plain (adaptCanonicalRequestV1 redacted_request sample_route)"
  by code_simp+

definition sample_call :: pending where
  "sample_call = \<lparr>pc_value = request_js sample_request, pc_request = redacted_request, pc_route = sample_route,
     pc_redactions = 1, pc_requestDigest = digest_of model_hash (request_js redacted_request),
     pc_call = \<lparr>pr_route = sample_route, pr_credentialHandle = credentialHandle sample_route,
       pr_request = adaptCanonicalRequestV1 redacted_request sample_route,
       pr_requestDigest = digest_of model_hash (adaptCanonicalRequestV1 redacted_request sample_route)\<rparr>\<rparr>"

definition sample_broker :: broker where
  "sample_broker = new_broker\<lparr>reserved := (reserved new_broker)(budgetKey redacted_request sample_route := 1)\<rparr>"

lemma sample_begin:
  "invoke_begin model_hash sample_policy new_broker (request_js sample_request) = (sample_broker, Calling sample_call)"
proof -
  have "maxRequests (mq_budget redacted_request) = 1"
    by (simp add: redacted_request_def sample_request_def syntheticCanonicalModelRequestV1_def Let_def)
  then show ?thesis
    by (simp add: invoke_begin_def sample_admitted digest_js_plain sample_plain new_broker_def sample_broker_def
        sample_call_def Let_def)
qed

lemma sample_started: "broker_runs model_hash sample_policy sample_broker [sample_call] [Started sample_call]"
  using called [OF fresh sample_begin] by simp

definition sample_answer :: js where
  "sample_answer = obj [(''contentType'', JStr ''text/plain''), (''text'', JStr ''ok''),
     (''toolCalls'', arr [obj [(''id'', JStr ''tool:one''), (''name'', JStr ''crm.contact.create''),
        (''arguments'', obj [(''name'', JStr ''Ada'')])]]),
     (''usage'', obj [(''inputTokens'', jint 3), (''outputTokens'', jint 5), (''costMicros'', jint 7)])]"

lemma sample_answer_cuts: "cuts secretPattern ''ok'' = [(False, ''o''), (False, ''k'')]"
    "cuts injectionPattern ''ok'' = [(False, ''o''), (False, ''k'')]" "rx_test TOOL_CALL_ID ''tool:one''"
  by code_simp+

lemma sample_answer_texts: "replaceAll secretPattern f ''ok'' = ''ok''" "hits secretPattern ''ok'' = 0"
    "replaceAll injectionPattern f ''ok'' = ''ok''" "hits injectionPattern ''ok'' = 0"
  by (simp_all add: replaceAll_def hits_def sample_answer_cuts del: cuts.simps)

definition sample_candidate :: tool_candidate where
  "sample_candidate = \<lparr>tc_id = ''tool:one'', tc_name = ''crm.contact.create'',
     tc_arguments = obj [(''name'', JStr ''Ada'')]\<rparr>"

lemma redacted_request_limits:
  "mt_name ` set (mq_tools redacted_request) = {''crm.contact.create''}"
  "maxTokens (mq_budget redacted_request) = 512" "maxCostMicros (mq_budget redacted_request) = 1000"
  "maxOutputBytes (mq_budget redacted_request) = 8192" "maxRequests (mq_budget redacted_request) = 1"
  by (simp_all add: redacted_request_def sample_request_def syntheticCanonicalModelRequestV1_def Let_def)

lemma sample_answer_fields:
  "fld sample_answer ''contentType'' = JStr ''text/plain''" "fld sample_answer ''text'' = JStr ''ok''"
  "fld (fld sample_answer ''usage'') ''inputTokens'' = jint 3"
  "fld (fld sample_answer ''usage'') ''outputTokens'' = jint 5"
  "fld (fld sample_answer ''usage'') ''costMicros'' = jint 7"
  "fld sample_answer ''structuredOutput'' = JUndef" "plain sample_answer" "plain (fld sample_answer ''usage'')"
  by (simp_all add: sample_answer_def fld_def)

lemma sample_answer_calls:
  "res_bind (toolCalls (fld sample_answer ''toolCalls'')) (toolCandidates redacted_request)
    = Inr (Passed [sample_candidate])"
  using sample_answer_cuts(3)
  by (simp add: sample_answer_def fld_def toolCalls_def toolCandidate_def redacted_request_limits is_object_def
      AUTHORITY_KEYS_def sample_candidate_def del: rx_test.simps)

lemma sample_passed:
  obtains response where "guardModelResponseV1 model_hash redacted_request sample_route d sample_answer
      = Inr (Passed (response, 0))" "plain (response_js response)"
proof -
  have n: "sample_answer \<noteq> JNull" "sample_answer \<noteq> JUndef" by (simp_all add: sample_answer_def)
  obtain response where r: "guardModelResponseV1 model_hash redacted_request sample_route d sample_answer
      = Inr (Passed (response, 0))" "mr_structuredOutput response = JNull" "mr_usage response = fld sample_answer ''usage''"
    "toolCallCandidates response = [sample_candidate]"
    unfolding guardModelResponseV1_def sample_answer_calls sample_answer_fields(1,2,3,4,5,6)
      redacted_request_limits str_of.simps str_test_simps
    using n by (simp add: boundedInteger_def max_safe_def byteLength_def digest_js_plain sample_answer_fields(7)
        sample_answer_texts)
  then have "plain (response_js response)"
    using sample_answer_fields(8) by (simp add: response_js_def tool_candidate_js_def sample_candidate_def)
  with r(1) that show thesis by blast
qed

lemma sample_finished:
  obtains b r where "broker_runs model_hash sample_policy b []
      ([Started sample_call] @ Finished sample_call (Answered sample_answer) (Inr r) # [])"
    "br_outcome r = ALLOW"
proof -
  obtain response where g: "guardModelResponseV1 model_hash redacted_request sample_route
      (digest_of model_hash (adaptCanonicalRequestV1 redacted_request sample_route)) sample_answer
      = Inr (Passed (response, 0))" "plain (response_js response)" by (rule sample_passed)
  obtain r where r: "allowedResult model_hash sample_call response 0 (fld sample_answer ''usage'') = Inr r"
    "br_outcome r = ALLOW"
    using g(2) by (simp add: allowedResult_def Let_def digest_js_plain)
  obtain b where "invoke_end model_hash sample_broker sample_call (Answered sample_answer) = (b, Inr r)"
    using g(1) r(1) by (simp add: invoke_end_def sample_call_def)
  from answered [OF sample_started _ this] r(2) that show thesis by simp
qed

end
