(* ===== verification/ModelLaws.thy ===== *)
theory ModelLaws
  imports ModelSamples
begin

text \<open>
  The properties of the model broker: how many provider calls it makes, that an operation that succeeded
  is not performed again, what its calls and responses may contain, and what an accepted stream is.
\<close>

subsection \<open>The budget\<close>

definition of_budget :: "string \<Rightarrow> string \<Rightarrow> string \<Rightarrow> pending \<Rightarrow> bool" where
  "of_budget tenant purpose routeId p \<longleftrightarrow> mq_tenant (pc_request p) = tenant
     \<and> mq_purpose (pc_request p) = purpose \<and> rt_routeId (pc_route p) = routeId"

lemma length_filter_nth:
  assumes "\<And>i. i < length xs \<Longrightarrow> P (xs ! i) \<Longrightarrow> length (filter P (take i xs)) < n"
  shows "length (filter P xs) \<le> n"
  using assms
proof (induction xs rule: rev_induct)
  case (snoc x xs)
  show ?case
  proof (cases "P x")
    case True
    with snoc.prems [of "length xs"] show ?thesis by simp
  next
    case False
    have "length (filter P xs) \<le> n"
    proof (rule snoc.IH)
      fix i assume "i < length xs" "P (xs ! i)"
      then show "length (filter P (take i xs)) < n" using snoc.prems [of i] by (simp add: nth_append)
    qed
    with False show ?thesis by simp
  qed
qed simp

lemma length_filter_imp: "(\<And>x. P x \<Longrightarrow> Q x) \<Longrightarrow> length (filter P xs) \<le> length (filter Q xs)"
  by (induction xs) auto

text \<open>
  C36: Provider calls stay within the budget. However invocations interleave, a provider call is started
  only while fewer calls of the same tenant, purpose and route were started before it than its own
  request allows, and no request may allow more than the policy; so the calls of a tenant, purpose and
  route never exceed the ceiling of the policy.
\<close>

theorem calls_within_budget:
  assumes "broker_runs H policy b flight trace"
  shows "(\<forall>i < length (starts trace). let p = starts trace ! i in
      int (length (filter (of_budget (mq_tenant (pc_request p)) (mq_purpose (pc_request p)) (rt_routeId (pc_route p)))
        (take i (starts trace)))) < maxRequests (mq_budget (pc_request p))
      \<and> maxRequests (mq_budget (pc_request p)) \<le> maxRequests (maxBudget policy))
    \<and> length (filter (of_budget tenant purpose routeId) (starts trace)) \<le> nat (maxRequests (maxBudget policy))"
proof -
  have m: "metered trace" using run_counts [OF assms] by blast
  have bound: "maxRequests (mq_budget (pc_request p)) \<le> maxRequests (maxBudget policy)"
    if p: "p \<in> set (starts trace)" for p
  proof -
    have "call_ok H policy p" using run_calls [OF assms] p unfolding calls_ok_def set_starts by blast
    then have "guardModelRequestV1 (pc_value p) policy = Admitted (pc_request p) (pc_route p) (pc_redactions p)"
      by (simp add: call_ok_def)
    then have "request_ok policy (pc_route p) (pc_request p)" by (rule admitted_request)
    then show ?thesis by (simp add: request_ok_def within_def)
  qed
  have before: "int (length (filter (of_budget tenant purpose routeId) (take i (starts trace))))
      < maxRequests (mq_budget (pc_request (starts trace ! i)))"
    if i: "i < length (starts trace)" and p: "of_budget tenant purpose routeId (starts trace ! i)"
    for i tenant purpose routeId
  proof -
    have "of_budget tenant purpose routeId p' \<Longrightarrow> key_of p' = key_of (starts trace ! i)" for p'
      using p by (simp add: of_budget_def budgetKey_def)
    then have "length (filter (of_budget tenant purpose routeId) (take i (starts trace)))
        \<le> length (filter (\<lambda>p'. key_of p' = key_of (starts trace ! i)) (take i (starts trace)))"
      by (rule length_filter_imp)
    moreover have "int (length (filter (\<lambda>p'. key_of p' = key_of (starts trace ! i)) (take i (starts trace))))
        < maxRequests (mq_budget (pc_request (starts trace ! i)))"
      using m i unfolding metered_def Let_def by blast
    ultimately show ?thesis by linarith
  qed
  have "length (filter (of_budget tenant purpose routeId) (starts trace)) \<le> nat (maxRequests (maxBudget policy))"
  proof (rule length_filter_nth)
    fix i assume i: "i < length (starts trace)" "of_budget tenant purpose routeId (starts trace ! i)"
    show "length (filter (of_budget tenant purpose routeId) (take i (starts trace)))
        < nat (maxRequests (maxBudget policy))"
      using before [OF i] bound [OF nth_mem [OF i(1)]] by linarith
  qed
  then show ?thesis using before bound by (simp add: Let_def of_budget_def)
qed

subsection \<open>Receipts\<close>

lemma begin_receipt:
  assumes "guardModelRequestV1 v policy = Admitted q route n" "receipts b (mq_operationId q) = Some (d, r)"
  shows "invoke_begin H policy b v = (b, case digest_js H (request_js q) of
      Inl e \<Rightarrow> Rejected e
    | Inr d' \<Rightarrow> if d' = d then Settled (r\<lparr>br_replay := SAME_RECEIPT\<rparr>)
               else settle (issueResult H v DENY [''MODEL_REPLAY_CONFLICT_DENIED'']))"
  using assms by (auto simp: invoke_begin_def split: sum.split)

text \<open>
  C37: Success is final. Once a call for an operation has succeeded, no provider call is ever started for
  that operation again, whatever was in flight. A later invocation of it that is admitted changes nothing
  and is answered by the receipt of a successful call of the operation, or refused; it is answered by the
  receipt only if its request has the digest of the request of that call, so only if the two requests are
  the same value, unless the hash collides on them.
\<close>

theorem success_is_final:
  assumes "broker_runs H policy b flight (before @ Finished p a (Inr r) # after)" "br_outcome r = ALLOW"
  shows "(\<forall>p'. Started p' \<in> set after \<longrightarrow> op_of p' \<noteq> op_of p)
    \<and> (\<forall>v q route n. guardModelRequestV1 v policy = Admitted q route n \<longrightarrow> mq_operationId q = op_of p \<longrightarrow>
        (\<exists>p' a' r'. success p' a' r' (before @ Finished p a (Inr r) # after) \<and> op_of p' = op_of p
          \<and> fst (invoke_begin H policy b v) = b
          \<and> (case snd (invoke_begin H policy b v) of
               Calling _ \<Rightarrow> False
             | Rejected _ \<Rightarrow> True
             | Settled s \<Rightarrow> br_outcome s = DENY \<and> br_response s = None
                 \<or> s = r'\<lparr>br_replay := SAME_RECEIPT\<rparr>
                   \<and> digest_js H (request_js q) = Inr (pc_requestDigest p')
                   \<and> digest_js H (request_js (pc_request p')) = Inr (pc_requestDigest p'))))"
proof (rule conjI; intro allI impI)
  let ?trace = "before @ Finished p a (Inr r) # after"
  have inv: "receipted b ?trace" "settled_ops ?trace" using run_receipts [OF assms(1)] by blast+
  have s: "success p a r ?trace" "success p a r (before @ [Finished p a (Inr r)])"
    using assms(2) by (simp_all add: success_def)
  {
    fix p' assume "Started p' \<in> set after"
    then obtain xs ys where "after = xs @ Started p' # ys" by (meson split_list)
    then have "?trace = (before @ Finished p a (Inr r) # xs) @ Started p' # ys" by simp
    moreover have "success p a r (before @ Finished p a (Inr r) # xs)" using assms(2) by (simp add: success_def)
    ultimately show "op_of p' \<noteq> op_of p" using inv(2) unfolding settled_ops_def by metis
  }
  fix v q route n
  assume g: "guardModelRequestV1 v policy = Admitted q route n" and op: "mq_operationId q = op_of p"
  obtain d r' where rc: "receipts b (mq_operationId q) = Some (d, r')"
    using inv(1) s(1) op unfolding receipted_def by fastforce
  then obtain p' a' where p': "success p' a' r' ?trace" "op_of p' = op_of p" "pc_requestDigest p' = d"
    using inv(1) op unfolding receipted_def by metis
  have "call_ok H policy p'"
    using run_calls [OF assms(1)] p'(1) unfolding calls_ok_def success_def by blast
  then have d: "digest_js H (request_js (pc_request p')) = Inr d" using p'(3) by (simp add: call_ok_def)
  show "\<exists>p' a' r'. success p' a' r' ?trace \<and> op_of p' = op_of p \<and> fst (invoke_begin H policy b v) = b
      \<and> (case snd (invoke_begin H policy b v) of
           Calling _ \<Rightarrow> False
         | Rejected _ \<Rightarrow> True
         | Settled s \<Rightarrow> br_outcome s = DENY \<and> br_response s = None
             \<or> s = r'\<lparr>br_replay := SAME_RECEIPT\<rparr> \<and> digest_js H (request_js q) = Inr (pc_requestDigest p')
               \<and> digest_js H (request_js (pc_request p')) = Inr (pc_requestDigest p'))"
    by (intro exI [of _ p'] exI [of _ a'] exI [of _ r'] conjI p'(1,2))
      (use d p'(3) in \<open>auto simp: begin_receipt [OF g rc] settle_def issueResult_outcome split: sum.split\<close>)
qed

subsection \<open>What reaches the provider\<close>

text \<open>
  C38: Only admitted requests reach the provider. Every call is for a request of the declared types and
  formats that the policy and its route allow, which is the value given to the broker with its text
  redacted: no secret of the given text starts in a part of it that was kept. The provider is given the
  adapted request and its digest under the credential of the route, and the prompt in it is the redacted
  text, unless the route lets optional fields replace the prompt.
\<close>

theorem calls_are_admitted:
  assumes "broker_runs H policy b flight trace" "Started p \<in> set trace"
  shows "request_ok policy (pc_route p) (pc_request p)
    \<and> (\<exists>original. js_norm (pc_value p) = js_norm (request_js ((pc_request p)\<lparr>mq_text := original\<rparr>))
         \<and> byteLength original \<le> maxInputBytes (mq_budget (pc_request p))
         \<and> redacted secretPattern (\<lambda>_. REDACTED_BEFORE_PROVIDER) original (mq_text (pc_request p)))
    \<and> pc_call p = \<lparr>pr_route = pc_route p, pr_credentialHandle = credentialHandle (pc_route p),
        pr_request = adaptCanonicalRequestV1 (pc_request p) (pc_route p),
        pr_requestDigest = digest_of H (adaptCanonicalRequestV1 (pc_request p) (pc_route p))\<rparr>
    \<and> (rt_protocol (pc_route p) = OPENAI_CHAT_COMPLETIONS
        \<or> prompt_key (rt_protocol (pc_route p)) \<notin> set (allowedFields (pc_route p))
        \<longrightarrow> fld (pr_request (pc_call p)) (prompt_key (rt_protocol (pc_route p)))
          = prompt_js (rt_protocol (pc_route p)) (mq_text (pc_request p)))"
proof -
  have ok: "call_ok H policy p" using run_calls [OF assms(1)] assms(2) unfolding calls_ok_def by blast
  then have g: "guardModelRequestV1 (pc_value p) policy = Admitted (pc_request p) (pc_route p) (pc_redactions p)"
    by (simp add: call_ok_def)
  obtain original where o: "request_ok policy (pc_route p) (pc_request p)"
    "mq_text (pc_request p) = replaceAll secretPattern (\<lambda>_. REDACTED_BEFORE_PROVIDER) original"
    "byteLength original \<le> maxInputBytes (mq_budget (pc_request p))"
    "js_norm (pc_value p) = js_norm (request_js ((pc_request p)\<lparr>mq_text := original\<rparr>))"
    by (rule admitted_request [OF g])
  have r: "redacted secretPattern (\<lambda>_. REDACTED_BEFORE_PROVIDER) original (mq_text (pc_request p))"
    unfolding o(2) by (rule replaceAll_redacted)
  have c: "pc_call p = \<lparr>pr_route = pc_route p, pr_credentialHandle = credentialHandle (pc_route p),
      pr_request = adaptCanonicalRequestV1 (pc_request p) (pc_route p),
      pr_requestDigest = digest_of H (adaptCanonicalRequestV1 (pc_request p) (pc_route p))\<rparr>"
    using ok by (cases "pc_call p") (simp add: call_ok_def digest_js_Inr_iff)
  have "fld (pr_request (pc_call p)) (prompt_key (rt_protocol (pc_route p)))
      = prompt_js (rt_protocol (pc_route p)) (mq_text (pc_request p))"
    if "rt_protocol (pc_route p) = OPENAI_CHAT_COMPLETIONS
      \<or> prompt_key (rt_protocol (pc_route p)) \<notin> set (allowedFields (pc_route p))"
  proof -
    have "fst ` set (fields_of (mq_optionalFields (pc_request p))) \<subseteq> set (allowedFields (pc_route p))"
      using o(1) unfolding request_ok_def by blast
    then show ?thesis unfolding c using that by (simp only: provider_request.simps) (blast intro: adapted_prompt)
  qed
  with o(1,3,4) r c show ?thesis by blast
qed

subsection \<open>What comes back\<close>

lemma allowedResult_outcome: "allowedResult H p response n usage = Inr r \<Longrightarrow> br_outcome r = ALLOW"
  by (auto simp: allowedResult_def Let_def res_simps)

text \<open>
  A response is confined to its request. A finished call gives a quarantine without a response, or a
  response whose tool candidates name tools of the request and carry no key of authority, whose usage is
  within the budget of the request, whose text is the text of the provider with secrets redacted and
  injected instructions neutralised, and which is bound by digests to the provider request, the provider
  response and the audit record.
\<close>

theorem responses_are_confined:
  assumes "broker_runs H policy b flight trace" "Finished p a (Inr r) \<in> set trace"
  shows "br_outcome r = QUARANTINE \<and> br_response r = None
    \<or> br_outcome r = ALLOW \<and> br_replay r = FIRST
      \<and> (\<exists>v response. a = Answered v \<and> br_response r = Some response
          \<and> response_ok H (pc_request p) (pc_route p) (pr_requestDigest (pc_call p)) v response
          \<and> ma_requestDigest (br_audit r) = pc_requestDigest p
          \<and> responseDigest (br_audit r) = Some (digest_of H (response_js response))
          \<and> ma_usage (br_audit r) = mr_usage response)"
proof -
  obtain b0 where e: "snd (invoke_end H b0 p a) = Inr r"
    using run_calls [OF assms(1)] assms(2) unfolding calls_ok_def by blast
  then obtain b1 where e: "invoke_end H b0 p a = (b1, Inr r)" by (metis prod.collapse)
  from e show ?thesis
  proof (cases rule: end_cases)
    case refused
    then show ?thesis using e
      by (auto simp: invoke_end_def split: provider_answer.splits sum.splits screened.splits
          dest: issueResult_outcome allowedResult_outcome)
  next
    case (accepted v response n res)
    have "response_ok H (pc_request p) (pc_route p) (pr_requestDigest (pc_call p)) v response"
      by (rule passed_response [OF accepted(3)])
    moreover from this have "mr_usage response = fld v ''usage''" by (simp add: response_ok_def)
    ultimately show ?thesis
      using accepted(1,2,4) by (auto simp: allowedResult_def Let_def res_simps digest_js_Inr_iff)
  qed
qed

subsection \<open>Streams\<close>

text \<open>
  An accepted stream is complete and consistent. Every line of it is framed, all of them together
  stay within the output budget, one of them is the end mark and each of the others gave one event; the
  events are numbered from zero without a gap, the last one says that the stream is done, and a tool
  candidate is complete and never changes its data under the same identifier, unless the hash collides.
\<close>

theorem accepted_streams_consistent:
  assumes "parseGuardedSseV1 H parse q lines = Inr (Passed events)"
  shows "(\<forall>line \<in> set lines. take 6 line = ''data: '') \<and> DATA_DONE \<in> set lines
    \<and> sum_list (map byteLength lines) \<le> maxOutputBytes (mq_budget q)
    \<and> length events = length (filter (\<lambda>line. line \<noteq> DATA_DONE) lines)
    \<and> (\<forall>i < length events. event_ok q i (events ! i))
    \<and> events \<noteq> [] \<and> se_event (last events) = JStr ''DONE''
    \<and> (\<forall>e \<in> set events. \<forall>f \<in> set events. is_tool e \<longrightarrow> is_tool f \<longrightarrow> tool_id e = tool_id f \<longrightarrow>
        digest_of H (se_data e) = digest_of H (se_data f))"
proof -
  obtain s where s: "streamLines H parse q stream_start lines = Inr (Passed s)" "ss_done s"
    "map_option se_event (at_last (ss_events s)) = Some (JStr ''DONE'')" "events = ss_events s"
    using assms unfolding parseGuardedSseV1_def res_bind_Inr_iff screened_peel by auto
  note l = streamLines_Passed [OF s(1)]
  have ok: "stream_ok H q s" using l stream_ok_start by blast
  have ne: "events \<noteq> []" and d: "se_event (last events) = JStr ''DONE''"
    using s(3,4) by (auto simp: at_last_def split: if_splits)
  have dn: "DATA_DONE \<in> set lines" using l s(2) by (simp add: stream_start_def)
  have z: "ss_totalBytes stream_start = 0" "ss_events stream_start = []" by (simp_all add: stream_start_def)
  have b: "sum_list (map byteLength lines) \<le> maxOutputBytes (mq_budget q)"
    "length events = length (filter (\<lambda>line. line \<noteq> DATA_DONE) lines)" using l dn s(4) z by auto
  have p: "\<forall>line \<in> set lines. take 6 line = ''data: ''" using l unfolding list_all_iff DATA_PREFIX_def by blast
  have ev: "\<forall>i < length events. event_ok q i (events ! i)" using ok s(4) unfolding stream_ok_def by blast
  have "digest_of H (se_data e) = digest_of H (se_data f)"
    if "e \<in> set events" "f \<in> set events" "is_tool e" "is_tool f" "tool_id e = tool_id f" for e f
    using ok that s(4) unfolding stream_ok_def by (metis option.inject)
  with p dn b ev ne d show ?thesis by blast
qed

subsection \<open>Witnesses\<close>

lemma calls_within_budget_witness:
  "broker_runs model_hash sample_policy sample_broker [sample_call] [Started sample_call]
    \<and> length (filter (of_budget ''tenant:synthetic-zoo'' ''purpose:agent-assistance''
        ''route:synthetic-openai-chat-completions'') (starts [Started sample_call]))
      \<le> nat (maxRequests (maxBudget sample_policy))"
  using sample_started calls_within_budget [OF sample_started] by blast

lemma success_is_final_witness:
  "\<exists>b r. broker_runs model_hash sample_policy b []
      ([Started sample_call] @ Finished sample_call (Answered sample_answer) (Inr r) # [])
    \<and> br_outcome r = ALLOW
    \<and> fst (invoke_begin model_hash sample_policy b (request_js sample_request)) = b
    \<and> (\<forall>p. snd (invoke_begin model_hash sample_policy b (request_js sample_request)) \<noteq> Calling p)"
proof -
  obtain b r where r: "broker_runs model_hash sample_policy b []
      ([Started sample_call] @ Finished sample_call (Answered sample_answer) (Inr r) # [])"
    "br_outcome r = ALLOW" by (rule sample_finished)
  have op: "mq_operationId redacted_request = op_of sample_call" by (simp add: sample_call_def)
  let ?out = "invoke_begin model_hash sample_policy b (request_js sample_request)"
  note final = success_is_final [OF r, THEN conjunct2, rule_format, OF sample_admitted op]
  have "fst ?out = b" using final by blast
  moreover have "snd ?out \<noteq> Calling p" for p using final by (cases "snd ?out") auto
  ultimately show ?thesis using r by blast
qed

lemma calls_are_admitted_witness:
  "Started sample_call \<in> set [Started sample_call]
    \<and> request_ok sample_policy sample_route (pc_request sample_call)
    \<and> mq_text (pc_request sample_call) = REDACTED_BEFORE_PROVIDER
    \<and> pr_request (pc_call sample_call) = adaptCanonicalRequestV1 (pc_request sample_call) sample_route"
proof -
  have "Started sample_call \<in> set [Started sample_call]" by simp
  from calls_are_admitted [OF sample_started this]
  have "request_ok sample_policy (pc_route sample_call) (pc_request sample_call)
      \<and> pr_request (pc_call sample_call) = adaptCanonicalRequestV1 (pc_request sample_call) (pc_route sample_call)"
    by (metis provider_request.simps(3))
  then show ?thesis by (simp add: sample_call_def redacted_request_def)
qed

lemma responses_are_confined_witness:
  "\<exists>b r response. broker_runs model_hash sample_policy b []
      ([Started sample_call] @ Finished sample_call (Answered sample_answer) (Inr r) # [])
    \<and> br_response r = Some response \<and> list_all (candidate_ok (pc_request sample_call)) (toolCallCandidates response)"
proof -
  obtain b r where r: "broker_runs model_hash sample_policy b []
      ([Started sample_call] @ Finished sample_call (Answered sample_answer) (Inr r) # [])"
    "br_outcome r = ALLOW" by (rule sample_finished)
  have "Finished sample_call (Answered sample_answer) (Inr r)
      \<in> set ([Started sample_call] @ Finished sample_call (Answered sample_answer) (Inr r) # [])" by simp
  from responses_are_confined [OF r(1) this] r show ?thesis unfolding response_ok_def by auto
qed

definition sample_parse :: "string \<Rightarrow> js option" where
  "sample_parse s =
     (if s = ''0'' then Some (obj [(''sequence'', jint 0), (''event'', JStr ''TEXT_DELTA''), (''data'', obj [])])
      else if s = ''1'' then Some (obj [(''sequence'', jint 1), (''event'', JStr ''DONE''), (''data'', obj [])])
      else if s = ''x'' then Some (obj [(''sequence'', jint 0), (''event'', arr [JStr ''TOOL_CANDIDATE'']),
        (''data'', obj [])])
      else None)"

lemma sample_stream:
  "parseGuardedSseV1 model_hash sample_parse redacted_request [''data: 0'', ''data: 1'', ''data: [DONE]'']
    = Inr (Passed
        [\<lparr>se_operationId = ''operation:model-0001'', se_sequence = 0, se_event = JStr ''TEXT_DELTA'', se_data = obj []\<rparr>,
         \<lparr>se_operationId = ''operation:model-0001'', se_sequence = 1, se_event = JStr ''DONE'', se_data = obj []\<rparr>])"
  by code_simp

lemma accepted_streams_consistent_witness:
  "\<exists>events. parseGuardedSseV1 model_hash sample_parse redacted_request
      [''data: 0'', ''data: 1'', ''data: [DONE]''] = Inr (Passed events)
    \<and> length events = 2 \<and> se_event (last events) = JStr ''DONE''"
proof -
  obtain events where e: "parseGuardedSseV1 model_hash sample_parse redacted_request
      [''data: 0'', ''data: 1'', ''data: [DONE]''] = Inr (Passed events)" using sample_stream by blast
  from accepted_streams_consistent [OF e] have "length events
      = length (filter (\<lambda>line. line \<noteq> DATA_DONE) [''data: 0'', ''data: 1'', ''data: [DONE]''])
      \<and> se_event (last events) = JStr ''DONE''" by blast
  with e show ?thesis by (simp add: DATA_DONE_def)
qed

text \<open>
  The event of a stream is checked as it converts to a string, so an array of one string passes as that
  string and skips the checks of tool candidates: here it carries an incomplete one.
\<close>

lemma unchecked_tool_event:
  "parseGuardedSseV1 model_hash sample_parse redacted_request [''data: x'', ''data: 1'', ''data: [DONE]'']
    = Inr (Passed
        [\<lparr>se_operationId = ''operation:model-0001'', se_sequence = 0, se_event = arr [JStr ''TOOL_CANDIDATE''],
          se_data = obj []\<rparr>,
         \<lparr>se_operationId = ''operation:model-0001'', se_sequence = 1, se_event = JStr ''DONE'', se_data = obj []\<rparr>])"
  by code_simp

end
