(* ===== verification/Listings.thy ===== *)
theory Listings
  imports Guards
begin

text \<open>
  What the later components share: splitting a text at a character, listing a set of names in the
  order of a collation, a guard on the keys of a record with optional keys, and an early-exit loop
  over a list that threads a state and may run out of fuel.

  The collation \<open>le\<close> stands for \<open>left.localeCompare(right, "en") <= 0\<close>: the comparison is the
  Unicode collation of the run-time's locale data, so it is a parameter of every definition that sorts by
  it. No law of it is needed here: the laws of \<open>listing\<close> hold for every \<open>le\<close>.
\<close>

subsection \<open>Splitting at a character\<close>

fun split_on :: "char \<Rightarrow> string \<Rightarrow> string list" where
  "split_on c [] = [[]]"
| "split_on c (x # xs) =
     (if x = c then [] # split_on c xs
      else (x # hd (split_on c xs)) # List.tl (split_on c xs))"

lemma split_on_nonempty [simp]: "split_on c xs \<noteq> []"
  by (cases xs) simp_all

lemma join_split_on: "join [c] (split_on c xs) = xs"
proof (induction xs)
  case (Cons x xs)
  obtain p ps where s: "split_on c xs = p # ps" by (cases "split_on c xs") simp_all
  show ?case
  proof (cases ps)
    case Nil
    with Cons s show ?thesis by simp
  next
    case (Cons q qs)
    with Cons.IH s show ?thesis by simp
  qed
qed simp

lemma split_on_parts: "p \<in> set (split_on c xs) \<Longrightarrow> c \<notin> set p"
proof (induction xs arbitrary: p)
  case (Cons x xs)
  obtain q qs where s: "split_on c xs = q # qs" by (cases "split_on c xs") simp_all
  with Cons show ?case by (auto split: if_splits)
qed simp

subsection \<open>Listing a set of names\<close>

text \<open>\<open>xs.sort(compare)\<close>: a stable sort.\<close>

fun insert_by :: "('a \<Rightarrow> 'a \<Rightarrow> bool) \<Rightarrow> 'a \<Rightarrow> 'a list \<Rightarrow> 'a list" where
  "insert_by le x [] = [x]"
| "insert_by le x (y # ys) = (if le x y then x # y # ys else y # insert_by le x ys)"

definition sort_by :: "('a \<Rightarrow> 'a \<Rightarrow> bool) \<Rightarrow> 'a list \<Rightarrow> 'a list" where
  "sort_by le xs = foldr (insert_by le) xs []"

lemma mset_insert_by [simp]: "mset (insert_by le x xs) = add_mset x (mset xs)"
  by (induction xs) auto

lemma mset_sort_by [simp]: "mset (sort_by le xs) = mset xs"
  unfolding sort_by_def by (induction xs) auto

lemma set_sort_by [simp]: "set (sort_by le xs) = set xs"
  by (metis mset_sort_by set_mset_mset)

lemma distinct_sort_by [simp]: "distinct (sort_by le xs) = distinct xs"
  by (metis mset_eq_imp_distinct_iff mset_sort_by)

lemma sort_by_simps [simp]: "sort_by le [] = []" "sort_by le [x] = [x]"
  by (simp_all add: sort_by_def)

text \<open>The interface of a listing: the members of a list, each once.\<close>

locale listing =
  fixes list_of :: "'a list \<Rightarrow> 'a list"
  assumes set_list_of: "set (list_of xs) = set xs"
    and distinct_list_of: "distinct (list_of xs)"
begin

lemma same_members: "list_of xs = list_of ys \<Longrightarrow> set xs = set ys"
  by (metis set_list_of)

lemma list_of_Nil_iff: "list_of xs = [] \<longleftrightarrow> xs = []"
  by (metis set_empty set_list_of)

lemma length_list_of: "length (list_of xs) = card (set xs)"
  by (metis distinct_card distinct_list_of set_list_of)

lemma mset_list_of: "mset (list_of xs) = mset_set (set xs)"
  by (metis distinct_list_of mset_set_set set_list_of)

end

interpretation uniq_listing: listing uniq
  by unfold_locales simp_all

definition sortedUniqueBy :: "(string \<Rightarrow> string \<Rightarrow> bool) \<Rightarrow> string list \<Rightarrow> string list" where
  "sortedUniqueBy le values = sort_by le (uniq values)"

interpretation sorted_listing: listing "sortedUniqueBy le"
  by unfold_locales (simp_all add: sortedUniqueBy_def)

lemma uniq_map_JStr: "length (uniq (map JStr xs)) = length xs \<longleftrightarrow> distinct xs"
  using length_uniq_iff [of "map JStr xs"] by (simp add: distinct_map inj_on_def)

subsection \<open>Records with optional keys\<close>

text \<open>A guard that answers \<open>false\<close> early.\<close>

lemma if_False_iff: "(if c then False else b) \<longleftrightarrow> \<not> c \<and> b"
  by simp

definition exactKeysOpt :: "js \<Rightarrow> string list \<Rightarrow> string list \<Rightarrow> bool" where
  "exactKeysOpt v required optional \<longleftrightarrow> is_record v
     \<and> list_all (\<lambda>k. k \<in> set (map fst (fields_of v))) required
     \<and> list_all (\<lambda>k. k \<in> set required \<or> k \<in> set optional) (map fst (fields_of v))"

fun is_bool :: "js \<Rightarrow> bool" where
  "is_bool (JBool b) = True"
| "is_bool _ = False"

definition hasOwn :: "js \<Rightarrow> string \<Rightarrow> bool" where
  "hasOwn v k \<longleftrightarrow> k \<in> set (map fst (fields_of v))"

lemma exactKeysOpt_record: "exactKeysOpt v required optional \<Longrightarrow> is_record v"
  by (simp add: exactKeysOpt_def)

lemma exactKeysOpt_keys:
  assumes "exactKeysOpt v required []"
  shows "set (map fst (fields_of v)) = set required"
  using assms by (auto simp: exactKeysOpt_def list_all_iff)

lemma getf_not_own: "k \<notin> set (map fst kvs) \<Longrightarrow> getf kvs k = JUndef"
  by (simp add: getf_def map_of_eq_None_iff [THEN iffD2] image_image)

lemma getf_own: "distinct (map fst kvs) \<Longrightarrow> (k, v) \<in> set kvs \<Longrightarrow> getf kvs k = v"
  by (simp add: getf_def)

subsection \<open>An early-exit loop with a state\<close>

text \<open>
  \<open>xs.some(f)\<close> where \<open>f\<close> updates a state: it stops at the first element \<open>f\<close> accepts. \<open>None\<close>
  means that some call of \<open>f\<close> ran out of fuel.
\<close>

fun some_st :: "('a \<Rightarrow> 's \<Rightarrow> (bool \<times> 's) option) \<Rightarrow> 'a list \<Rightarrow> 's \<Rightarrow> (bool \<times> 's) option" where
  "some_st f [] s = Some (False, s)"
| "some_st f (x # xs) s =
     (case f x s of
        None \<Rightarrow> None
      | Some (True, s') \<Rightarrow> Some (True, s')
      | Some (False, s') \<Rightarrow> some_st f xs s')"

text \<open>Rules for the loop: an invariant carried by the calls that answer \<open>False\<close>.\<close>

lemma some_st_False:
  assumes "some_st f xs s = Some (False, s')" and "I s"
    and "\<And>x s s'. x \<in> set xs \<Longrightarrow> I s \<Longrightarrow> f x s = Some (False, s') \<Longrightarrow> I s' \<and> Q x s' \<and> (\<forall>y. Q y s \<longrightarrow> Q y s')"
  shows "I s' \<and> (\<forall>x \<in> set xs. Q x s') \<and> (\<forall>y. Q y s \<longrightarrow> Q y s')"
  using assms
proof (induction xs arbitrary: s)
  case (Cons x xs)
  from Cons.prems(1) obtain s1 where f: "f x s = Some (False, s1)"
    and r: "some_st f xs s1 = Some (False, s')"
    by (auto split: option.splits bool.splits)
  have a: "I s1 \<and> Q x s1 \<and> (\<forall>y. Q y s \<longrightarrow> Q y s1)" using Cons.prems(2) f by (intro Cons.prems(3)) simp_all
  have "I s' \<and> (\<forall>x \<in> set xs. Q x s') \<and> (\<forall>y. Q y s1 \<longrightarrow> Q y s')"
    using a Cons.prems(3) by (intro Cons.IH [OF r]) auto
  with a show ?case by auto
qed simp

lemma some_st_True:
  assumes "some_st f xs s = Some (True, s')" and "I s"
    and "\<And>x s s'. x \<in> set xs \<Longrightarrow> I s \<Longrightarrow> f x s = Some (False, s') \<Longrightarrow> I s'"
  obtains x s1 where "x \<in> set xs" "I s1" "f x s1 = Some (True, s')"
  using assms
proof (induction xs arbitrary: s thesis)
  case (Cons x xs)
  show ?case
  proof (cases "f x s = Some (True, s')")
    case True
    then show ?thesis by (rule Cons.prems(1) [rotated 2]) (simp_all add: Cons.prems(3))
  next
    case False
    with Cons.prems(2) obtain s1 where f: "f x s = Some (False, s1)"
      and r: "some_st f xs s1 = Some (True, s')"
      by (auto split: option.splits bool.splits)
    have i: "I s1" using Cons.prems(3,4) f by auto
    show ?thesis
    proof (rule Cons.IH [OF _ r i])
      fix x' s2 assume a: "x' \<in> set xs" "I s2" "f x' s2 = Some (True, s')"
      show thesis by (rule Cons.prems(1) [OF _ a(2,3)]) (simp add: a(1))
    next
      fix x' s2 s3 assume a: "x' \<in> set xs" "I s2" "f x' s2 = Some (False, s3)"
      show "I s3" by (rule Cons.prems(4) [OF _ a(2,3)]) (simp add: a(1))
    qed
  qed
qed simp

lemma some_st_returns:
  assumes "I s"
    and "\<And>x s. x \<in> set xs \<Longrightarrow> I s \<Longrightarrow> f x s \<noteq> None"
    and "\<And>x s s'. x \<in> set xs \<Longrightarrow> I s \<Longrightarrow> f x s = Some (False, s') \<Longrightarrow> I s'"
  shows "some_st f xs s \<noteq> None"
  using assms
proof (induction xs arbitrary: s)
  case (Cons x xs)
  have "f x s \<noteq> None" using Cons.prems(1,2) by simp
  then obtain b s1 where f: "f x s = Some (b, s1)" by auto
  show ?case
  proof (cases b)
    case False
    with f have f': "f x s = Some (False, s1)" by simp
    have i: "I s1" by (rule Cons.prems(3) [OF _ Cons.prems(1) f']) simp
    have "some_st f xs s1 \<noteq> None"
    proof (rule Cons.IH [OF i])
      fix x' s2 assume "x' \<in> set xs" "I s2"
      then show "f x' s2 \<noteq> None" by (intro Cons.prems(2)) simp_all
    next
      fix x' s2 s3 assume a: "x' \<in> set xs" "I s2" "f x' s2 = Some (False, s3)"
      show "I s3" by (rule Cons.prems(3) [OF _ a(2,3)]) (simp add: a(1))
    qed
    then show ?thesis using f False by simp
  qed (simp add: f)
qed simp

end
