(* ===== verification/Fabric.thy ===== *)
theory Fabric
  imports Listings
begin

text \<open>
  \<open>packages/contracts/src/verification-fabric-v2.ts\<close>: the evidence graph, its admission
  (with the depth-first search for cycles and unknown dependencies), the impact plan of a change
  (owners of the changed paths, closure under dependents, fallback to the full suite), the
  re-use of a prototype attestation and the shadow comparator.

  The functions that hash return \<open>Inl\<close> where the code throws: the canonical text of an
  unknown value need not exist. The collation \<open>le\<close> and the hash \<open>H\<close> are parameters.
\<close>

subsection \<open>Data\<close>

definition VERIFICATION_DAG_SCHEMA_V2 :: string where
  "VERIFICATION_DAG_SCHEMA_V2 = ''chimpmaera.verification/evidence-dag/v2''"
definition VERIFICATION_IMPACT_PLAN_SCHEMA_V2 :: string where
  "VERIFICATION_IMPACT_PLAN_SCHEMA_V2 = ''chimpmaera.verification/impact-plan/v2''"
definition VERIFICATION_ATTESTATION_SCHEMA_V2 :: string where
  "VERIFICATION_ATTESTATION_SCHEMA_V2 = ''chimpmaera.verification/attestation/v2''"
definition VERIFICATION_SHADOW_REPORT_SCHEMA_V2 :: string where
  "VERIFICATION_SHADOW_REPORT_SCHEMA_V2 = ''chimpmaera.verification/shadow-report/v2''"

definition DEFAULT_VERIFICATION_HARD_GATES_V2 :: "string list" where
  "DEFAULT_VERIFICATION_HARD_GATES_V2 =
     [''npm run lint'', ''npm run release-governance:verify'', ''npm run supply-chain:verify'',
      ''sha256sum -c SHA256SUMS'',
      ''./scripts/build-public-release.sh --output <isolated-absolute-path>'']"

datatype input_role = SOURCE | CONTRACT | SCHEMA | FIXTURE | VALIDATOR | TOOLCHAIN
  | ENVIRONMENT | SECURITY | DERIVED_EVIDENCE

definition INPUT_ROLES :: "input_role list" where
  "INPUT_ROLES = [SOURCE, CONTRACT, SCHEMA, FIXTURE, VALIDATOR, TOOLCHAIN, ENVIRONMENT, SECURITY,
     DERIVED_EVIDENCE]"

fun input_role_text :: "input_role \<Rightarrow> string" where
  "input_role_text SOURCE = ''SOURCE''"
| "input_role_text CONTRACT = ''CONTRACT''"
| "input_role_text SCHEMA = ''SCHEMA''"
| "input_role_text FIXTURE = ''FIXTURE''"
| "input_role_text VALIDATOR = ''VALIDATOR''"
| "input_role_text TOOLCHAIN = ''TOOLCHAIN''"
| "input_role_text ENVIRONMENT = ''ENVIRONMENT''"
| "input_role_text SECURITY = ''SECURITY''"
| "input_role_text DERIVED_EVIDENCE = ''DERIVED_EVIDENCE''"

datatype risk_class = LOW | MEDIUM | HIGH | CRITICAL

definition RISK_CLASSES :: "risk_class list" where
  "RISK_CLASSES = [LOW, MEDIUM, HIGH, CRITICAL]"

fun risk_class_text :: "risk_class \<Rightarrow> string" where
  "risk_class_text LOW = ''LOW''"
| "risk_class_text MEDIUM = ''MEDIUM''"
| "risk_class_text HIGH = ''HIGH''"
| "risk_class_text CRITICAL = ''CRITICAL''"

record dag_input =
  in_path :: string
  in_role :: input_role
  in_sha256 :: string

record dag_node =
  nd_id :: string
  dependsOn :: "string list"
  nd_inputs :: "dag_input list"
  ownedTests :: "string list"
  nd_invariants :: "string list"
  riskClass :: risk_class
  globalInvalidation :: bool
  evidenceTtlMs :: "int option"
  ttlJustification :: "string option"

datatype fallback_reason = AMBIGUOUS_OWNERSHIP | CENTRAL_INPUT_CHANGED | CLASSIFIER_FAILURE
  | GRAPH_CHANGED | GRAPH_DRIFT | INVALID_GRAPH | UNMAPPED_PATH | UNSAFE_PATH

fun fallback_reason_text :: "fallback_reason \<Rightarrow> string" where
  "fallback_reason_text AMBIGUOUS_OWNERSHIP = ''AMBIGUOUS_OWNERSHIP''"
| "fallback_reason_text CENTRAL_INPUT_CHANGED = ''CENTRAL_INPUT_CHANGED''"
| "fallback_reason_text CLASSIFIER_FAILURE = ''CLASSIFIER_FAILURE''"
| "fallback_reason_text GRAPH_CHANGED = ''GRAPH_CHANGED''"
| "fallback_reason_text GRAPH_DRIFT = ''GRAPH_DRIFT''"
| "fallback_reason_text INVALID_GRAPH = ''INVALID_GRAPH''"
| "fallback_reason_text UNMAPPED_PATH = ''UNMAPPED_PATH''"
| "fallback_reason_text UNSAFE_PATH = ''UNSAFE_PATH''"

datatype plan_mode = IMPACTED_SHADOW | FULL_FALLBACK

record plan_core =
  pl_mode :: plan_mode
  pl_baseSha :: string
  pl_headSha :: string
  pl_graphDigest :: string
  pl_changedPaths :: "string list"
  selectedNodes :: "string list"
  selectedTests :: "string list"
  pl_hardGates :: "string list"
  pl_reasons :: "string list"

record impact_plan = plan_core +
  planDigest :: string

text \<open>What a plan is asked for. The fields are typed in the code, but it tests them as values of
  unknown type, and so does the model.\<close>

record plan_args =
  ar_graph :: js
  ar_graphPath :: js
  ar_baseSha :: js
  ar_headSha :: js
  ar_changedPaths :: "js list"
  observedInputDigests :: fields

subsection \<open>Encodings\<close>

definition dag_input_js :: "dag_input \<Rightarrow> js" where
  "dag_input_js i = obj [(''path'', JStr (in_path i)), (''role'', JStr (input_role_text (in_role i))),
     (''sha256'', JStr (in_sha256 i))]"

text \<open>An absent optional property is not written.\<close>

definition dag_node_js :: "dag_node \<Rightarrow> js" where
  "dag_node_js n = obj
     ([(''id'', JStr (nd_id n)), (''dependsOn'', strs_js (dependsOn n)),
       (''inputs'', arr (map dag_input_js (nd_inputs n))), (''ownedTests'', strs_js (ownedTests n)),
       (''invariants'', strs_js (nd_invariants n)), (''riskClass'', JStr (risk_class_text (riskClass n))),
       (''globalInvalidation'', JBool (globalInvalidation n))]
      @ (case evidenceTtlMs n of None \<Rightarrow> [] | Some t \<Rightarrow> [(''evidenceTtlMs'', jint t)])
      @ (case ttlJustification n of None \<Rightarrow> [] | Some j \<Rightarrow> [(''ttlJustification'', JStr j)]))"

definition plan_mode_text :: "plan_mode \<Rightarrow> string" where
  "plan_mode_text m = (case m of IMPACTED_SHADOW \<Rightarrow> ''IMPACTED_SHADOW'' | FULL_FALLBACK \<Rightarrow> ''FULL_FALLBACK'')"

definition plan_core_fields :: "'a plan_core_scheme \<Rightarrow> fields" where
  "plan_core_fields p =
     [(''schemaVersion'', JStr VERIFICATION_IMPACT_PLAN_SCHEMA_V2),
      (''mode'', JStr (plan_mode_text (pl_mode p))), (''baseSha'', JStr (pl_baseSha p)),
      (''headSha'', JStr (pl_headSha p)), (''graphDigest'', JStr (pl_graphDigest p)),
      (''changedPaths'', strs_js (pl_changedPaths p)), (''selectedNodes'', strs_js (selectedNodes p)),
      (''selectedTests'', strs_js (selectedTests p)), (''hardGates'', strs_js (pl_hardGates p)),
      (''reasons'', strs_js (pl_reasons p)), (''authoritativeComparator'', JStr ''npm test'')]"

subsection \<open>Guards\<close>

definition isDigest :: "js \<Rightarrow> bool" where
  "isDigest v = str_test hex64 v"

definition COMMIT_PATTERN :: rx where
  "COMMIT_PATTERN = Rep (Cls [(CHR ''a'', CHR ''f''), d0_9]) 40 (Some 40)"

definition isCommit :: "js \<Rightarrow> bool" where
  "isCommit v = str_test (rx_test COMMIT_PATTERN) v"

definition NODE_IDENTIFIER :: rx where
  "NODE_IDENTIFIER = Seq (Cls [a_z]) (Rep (Cls ([a_z, d0_9] @ chars ''-'')) 1 (Some 63))"

definition isIdentifier :: "js \<Rightarrow> bool" where
  "isIdentifier v = str_test (rx_test NODE_IDENTIFIER) v"

definition isNonEmptyString :: "js \<Rightarrow> bool" where
  "isNonEmptyString v = str_test (\<lambda>s. length s > 0 \<and> length s \<le> 512) v"

definition uniqueStrings :: "js \<Rightarrow> (js \<Rightarrow> bool) \<Rightarrow> bool" where
  "uniqueStrings v predicate \<longleftrightarrow> is_array v \<and> list_all predicate (elems_of v)
     \<and> length (uniq (elems_of v)) = length (elems_of v)"

text \<open>
  \<open>value.normalize("NFC")\<close>: the characters below 256 are starters that no normalisation form C
  step changes or composes, so it is the identity on the strings of the model.
\<close>

definition normalize_NFC :: "string \<Rightarrow> string" where
  "normalize_NFC s = s"

definition safe_path :: "string \<Rightarrow> bool" where
  "safe_path s \<longleftrightarrow>
     \<not> (length s = 0 \<or> length s > 512 \<or> (s \<noteq> [] \<and> hd s = CHR ''/'') \<or> backslash \<in> set s
        \<or> CHR 0x00 \<in> set s \<or> s \<noteq> normalize_NFC s)
     \<and> list_all (\<lambda>part. length part > 0 \<and> part \<noteq> ''.'' \<and> part \<noteq> ''..'') (split_on (CHR ''/'') s)"

definition isSafeRepositoryPathV2 :: "js \<Rightarrow> bool" where
  "isSafeRepositoryPathV2 v = str_test safe_path v"

definition validInput :: "js \<Rightarrow> bool" where
  "validInput v \<longleftrightarrow> exactKeysOpt v [''path'', ''role'', ''sha256''] []
     \<and> isSafeRepositoryPathV2 (getf (fields_of v) ''path'')
     \<and> memberOf input_role_text INPUT_ROLES (getf (fields_of v) ''role'') \<noteq> None
     \<and> isDigest (getf (fields_of v) ''sha256'')"

definition NODE_KEYS :: "string list" where
  "NODE_KEYS = [''id'', ''dependsOn'', ''inputs'', ''ownedTests'', ''invariants'', ''riskClass'',
     ''globalInvalidation'']"

definition validTtl :: "js \<Rightarrow> bool" where
  "validTtl v \<longleftrightarrow>
     \<not> (hasOwn v ''evidenceTtlMs'' \<or> hasOwn v ''ttlJustification'')
     \<or> (is_safe_integer (getf (fields_of v) ''evidenceTtlMs'')
        \<and> int_of_js (getf (fields_of v) ''evidenceTtlMs'') > 0
        \<and> isNonEmptyString (getf (fields_of v) ''ttlJustification''))"

definition validNodeShape :: "js \<Rightarrow> bool" where
  "validNodeShape v =
     (if \<not> exactKeysOpt v NODE_KEYS [''evidenceTtlMs'', ''ttlJustification''] then False
      else
        (let f = getf (fields_of v) in
         if \<not> isIdentifier (f ''id'') \<or> \<not> uniqueStrings (f ''dependsOn'') isIdentifier
            \<or> \<not> is_array (f ''inputs'') \<or> length (elems_of (f ''inputs'')) = 0
            \<or> \<not> list_all validInput (elems_of (f ''inputs''))
            \<or> length (uniq (map (\<lambda>i. getf (fields_of i) ''path'') (elems_of (f ''inputs''))))
                \<noteq> length (elems_of (f ''inputs''))
            \<or> \<not> uniqueStrings (f ''ownedTests'') isNonEmptyString \<or> length (elems_of (f ''ownedTests'')) = 0
            \<or> \<not> uniqueStrings (f ''invariants'') isNonEmptyString \<or> length (elems_of (f ''invariants'')) = 0
            \<or> memberOf risk_class_text RISK_CLASSES (f ''riskClass'') = None
            \<or> \<not> is_bool (f ''globalInvalidation'')
         then False
         else validTtl v))"

subsection \<open>Reading an admitted node\<close>

definition readInput :: "js \<Rightarrow> dag_input" where
  "readInput v =
     \<lparr>in_path = str_of (getf (fields_of v) ''path''),
      in_role = the (memberOf input_role_text INPUT_ROLES (getf (fields_of v) ''role'')),
      in_sha256 = str_of (getf (fields_of v) ''sha256'')\<rparr>"

definition readNode :: "js \<Rightarrow> dag_node" where
  "readNode v =
     (let f = getf (fields_of v) in
      \<lparr>nd_id = str_of (f ''id''),
       dependsOn = map str_of (elems_of (f ''dependsOn'')),
       nd_inputs = map readInput (elems_of (f ''inputs'')),
       ownedTests = map str_of (elems_of (f ''ownedTests'')),
       nd_invariants = map str_of (elems_of (f ''invariants'')),
       riskClass = the (memberOf risk_class_text RISK_CLASSES (f ''riskClass'')),
       globalInvalidation = (f ''globalInvalidation'' = JBool True),
       evidenceTtlMs = (if hasOwn v ''evidenceTtlMs'' then Some (int_of_js (f ''evidenceTtlMs'')) else None),
       ttlJustification = (if hasOwn v ''ttlJustification'' then Some (str_of (f ''ttlJustification'')) else None)\<rparr>)"

subsection \<open>The search for cycles and unknown dependencies\<close>

text \<open>\<open>new Map(nodes.map(...))\<close>: the last node of an identifier.\<close>

definition byId :: "dag_node list \<Rightarrow> string \<Rightarrow> dag_node option" where
  "byId nodes i = find_last (\<lambda>n. nd_id n = i) nodes"

record dfs =
  visiting :: "string list"
  visited :: "string list"

definition dfs_start :: dfs where
  "dfs_start = \<lparr>visiting = [], visited = []\<rparr>"

text \<open>
  The recursive closure \<open>visit\<close>, which updates the two sets. Its fuel bounds the depth of the
  recursion; \<open>dagSearch\<close> gives it one more than the number of nodes.
\<close>

primrec visit :: "nat \<Rightarrow> dag_node list \<Rightarrow> string \<Rightarrow> dfs \<Rightarrow> (bool \<times> dfs) option" where
  "visit 0 nodes i s = None"
| "visit (Suc fuel) nodes i s =
     (if i \<in> set (visiting s) then Some (True, s)
      else if i \<in> set (visited s) then Some (False, s)
      else
        (case byId nodes i of
           None \<Rightarrow> Some (True, s)
         | Some node \<Rightarrow>
             (case some_st (\<lambda>dependency s'.
                     if byId nodes dependency = None then Some (True, s')
                     else visit fuel nodes dependency s')
                   (dependsOn node) (s\<lparr>visiting := set_add i (visiting s)\<rparr>) of
                None \<Rightarrow> None
              | Some (True, s') \<Rightarrow> Some (True, s')
              | Some (False, s') \<Rightarrow>
                  Some (False, s'\<lparr>visiting := removeAll i (visiting s'),
                                  visited := set_add i (visited s')\<rparr>))))"

definition dagSearch :: "dag_node list \<Rightarrow> bool option" where
  "dagSearch nodes =
     (if length (uniq (map nd_id nodes)) \<noteq> length nodes then Some True
      else map_option fst
        (some_st (\<lambda>node s. visit (Suc (length nodes)) nodes (nd_id node) s) nodes dfs_start))"

definition cycleOrUnknown :: "dag_node list \<Rightarrow> bool" where
  "cycleOrUnknown nodes \<longleftrightarrow> dagSearch nodes \<noteq> Some False"

definition dag_nodes :: "js \<Rightarrow> dag_node list" where
  "dag_nodes graph = map readNode (elems_of (getf (fields_of graph) ''nodes''))"

definition validateVerificationDagV2 :: "js \<Rightarrow> bool" where
  "validateVerificationDagV2 v =
     (let f = getf (fields_of v) in
      if \<not> exactKeysOpt v [''schemaVersion'', ''graphId'', ''graphVersion'', ''environment'',
             ''hardGates'', ''nodes''] []
         \<or> f ''schemaVersion'' \<noteq> JStr VERIFICATION_DAG_SCHEMA_V2 \<or> \<not> isIdentifier (f ''graphId'')
         \<or> \<not> is_safe_integer (f ''graphVersion'') \<or> int_of_js (f ''graphVersion'') < 1
         \<or> \<not> exactKeysOpt (f ''environment'') [''node'', ''os'', ''architecture'', ''packageManager''] []
         \<or> \<not> list_all isNonEmptyString (map snd (fields_of (f ''environment'')))
         \<or> \<not> uniqueStrings (f ''hardGates'') isNonEmptyString \<or> length (elems_of (f ''hardGates'')) = 0
         \<or> \<not> is_array (f ''nodes'') \<or> length (elems_of (f ''nodes'')) = 0
         \<or> \<not> list_all validNodeShape (elems_of (f ''nodes''))
      then False
      else \<not> cycleOrUnknown (dag_nodes v))"

subsection \<open>Impact plans\<close>

definition verificationNodeDigestV2 :: "hash \<Rightarrow> dag_node \<Rightarrow> string" where
  "verificationNodeDigestV2 H n = digest_of H (dag_node_js n)"

definition finalizePlan :: "hash \<Rightarrow> plan_core \<Rightarrow> impact_plan" where
  "finalizePlan H p = plan_core.extend p (impact_plan.fields (digest_of H (obj (plan_core_fields p))))"

definition commit_or_zero :: "js \<Rightarrow> string" where
  "commit_or_zero v = (if isCommit v then str_of v else replicate 40 (CHR ''0''))"

definition fallbackPlan ::
  "hash \<Rightarrow> (string \<Rightarrow> string \<Rightarrow> bool) \<Rightarrow> plan_args \<Rightarrow> fallback_reason list \<Rightarrow> impact_plan res" where
  "fallbackPlan H le a reasons =
     (let g = ar_graph a;
          nodes = (if is_record g \<and> is_array (getf (fields_of g) ''nodes'')
                   then map readNode (filter validNodeShape (elems_of (getf (fields_of g) ''nodes'')))
                   else []);
          hardGates = (if is_record g \<and> uniqueStrings (getf (fields_of g) ''hardGates'') isNonEmptyString
                       then map str_of (elems_of (getf (fields_of g) ''hardGates''))
                       else DEFAULT_VERIFICATION_HARD_GATES_V2)
      in res_bind (digest_js H g) (\<lambda>graphDigest.
        Inr (finalizePlan H
          \<lparr>pl_mode = FULL_FALLBACK,
           pl_baseSha = commit_or_zero (ar_baseSha a),
           pl_headSha = commit_or_zero (ar_headSha a),
           pl_graphDigest = graphDigest,
           pl_changedPaths = sortedUniqueBy le (map str_of (filter is_string (ar_changedPaths a))),
           selectedNodes = sortedUniqueBy le (map nd_id nodes),
           selectedTests = sortedUniqueBy le (concat (map ownedTests nodes)),
           pl_hardGates = sortedUniqueBy le hardGates,
           pl_reasons = sortedUniqueBy le (map fallback_reason_text reasons)\<rparr>)))"

definition dag_inputs :: "dag_node list \<Rightarrow> (dag_node \<times> dag_input) list" where
  "dag_inputs nodes = concat (map (\<lambda>n. map (\<lambda>i. (n, i)) (nd_inputs n)) nodes)"

text \<open>
  The loop over the changed paths: the node of the one input with that path joins the selection,
  anything else ends the loop with the reason of the fallback. \<open>owners[0]\<close> exists where there is
  exactly one owner, so the branch with \<open>CLASSIFIER_FAILURE\<close> is not taken.
\<close>

fun selectOwners ::
  "(dag_node \<times> dag_input) list \<Rightarrow> string list \<Rightarrow> string list \<Rightarrow> fallback_reason + string list" where
  "selectOwners inputs [] selected = Inr selected"
| "selectOwners inputs (path # paths) selected =
     (let owners = filter (\<lambda>(node, input). in_path input = path) inputs in
      if length owners = 0 then Inl UNMAPPED_PATH
      else if length owners > 1 then Inl AMBIGUOUS_OWNERSHIP
      else
        (case owners of
           [] \<Rightarrow> Inl CLASSIFIER_FAILURE
         | (node, input) # _ \<Rightarrow>
             if globalInvalidation node \<or> in_role input \<in> set [TOOLCHAIN, ENVIRONMENT, SECURITY]
             then Inl CENTRAL_INPUT_CHANGED
             else selectOwners inputs paths (set_add (nd_id node) selected)))"

text \<open>One round of the loop \<open>while (expanded)\<close>, and the loop.\<close>

fun expandRound :: "dag_node list \<Rightarrow> string list \<times> bool \<Rightarrow> string list \<times> bool" where
  "expandRound [] (selected, expanded) = (selected, expanded)"
| "expandRound (node # nodes) (selected, expanded) =
     (if nd_id node \<notin> set selected
         \<and> list_ex (\<lambda>dependency. dependency \<in> set selected) (dependsOn node)
      then expandRound nodes (set_add (nd_id node) selected, True)
      else expandRound nodes (selected, expanded))"

definition unselected :: "dag_node list \<Rightarrow> string list \<Rightarrow> nat" where
  "unselected nodes selected = length (filter (\<lambda>n. nd_id n \<notin> set selected) nodes)"

lemma expandRound_grows: "set (fst st) \<subseteq> set (fst (expandRound nodes st))"
  by (induction nodes st rule: expandRound.induct) auto

lemma unselected_mono: "set s \<subseteq> set t \<Longrightarrow> unselected nodes t \<le> unselected nodes s"
  unfolding unselected_def by (induction nodes) auto

lemma unselected_less:
  assumes "set s \<subseteq> set t" "n \<in> set nodes" "nd_id n \<notin> set s" "nd_id n \<in> set t"
  shows "unselected nodes t < unselected nodes s"
proof -
  have "length (filter (\<lambda>n. nd_id n \<notin> set t) xs) < length (filter (\<lambda>n. nd_id n \<notin> set s) xs)"
    if "n \<in> set xs" for xs
    using that
  proof (induction xs)
    case (Cons x xs)
    have le: "length (filter (\<lambda>n. nd_id n \<notin> set t) xs) \<le> length (filter (\<lambda>n. nd_id n \<notin> set s) xs)"
      using unselected_mono [OF assms(1), of xs] by (simp add: unselected_def)
    show ?case
    proof (cases "x = n")
      case True
      with le assms(3,4) show ?thesis by simp
    next
      case False
      with Cons assms(1) show ?thesis by auto
    qed
  qed simp
  with assms(2) show ?thesis by (simp add: unselected_def)
qed

text \<open>A round that reports an expansion has selected a node that was not selected.\<close>

lemma expandRound_expanded:
  assumes "expandRound ns (s, False) = (t, True)" "set ns \<subseteq> set nodes"
  shows "unselected nodes t < unselected nodes s"
  using assms
proof (induction ns arbitrary: s)
  case (Cons n ns)
  show ?case
  proof (cases "nd_id n \<notin> set s \<and> list_ex (\<lambda>d. d \<in> set s) (dependsOn n)")
    case True
    with Cons.prems(1) have "expandRound ns (set_add (nd_id n) s, True) = (t, True)" by simp
    with expandRound_grows [of "(set_add (nd_id n) s, True)" ns] have "insert (nd_id n) (set s) \<subseteq> set t"
      by simp
    with True Cons.prems(2) show ?thesis by (intro unselected_less [of s t n]) auto
  next
    case False
    with Cons.prems(1) have "expandRound ns (s, False) = (t, True)" by auto
    with Cons show ?thesis by simp
  qed
qed simp

function expandSelected :: "dag_node list \<Rightarrow> string list \<Rightarrow> string list" where
  "expandSelected nodes selected =
     (case expandRound nodes (selected, False) of
        (selected', expanded) \<Rightarrow> if expanded then expandSelected nodes selected' else selected')"
  by pat_completeness auto
termination
  by (relation "measure (\<lambda>(nodes, selected). unselected nodes selected)")
    (auto intro: expandRound_expanded [where ns = nodes and nodes = nodes for nodes])

declare expandSelected.simps [simp del]

definition buildVerificationImpactPlanV2 ::
  "hash \<Rightarrow> (string \<Rightarrow> string \<Rightarrow> bool) \<Rightarrow> plan_args \<Rightarrow> impact_plan res" where
  "buildVerificationImpactPlanV2 H le a =
     (if list_ex (\<lambda>path. \<not> isSafeRepositoryPathV2 path) (ar_changedPaths a)
      then fallbackPlan H le a [UNSAFE_PATH]
      else if \<not> validateVerificationDagV2 (ar_graph a) \<or> \<not> isCommit (ar_baseSha a)
        \<or> \<not> isCommit (ar_headSha a) \<or> \<not> isSafeRepositoryPathV2 (ar_graphPath a)
      then fallbackPlan H le a [INVALID_GRAPH]
      else
        (let nodes = dag_nodes (ar_graph a);
             changedPaths = sortedUniqueBy le (map str_of (ar_changedPaths a)) in
         if str_of (ar_graphPath a) \<in> set changedPaths then fallbackPlan H le a [GRAPH_CHANGED]
         else
           (let inputs = dag_inputs nodes in
            if list_ex (\<lambda>(node, input).
                 getf (observedInputDigests a) (in_path input) \<noteq> JStr (in_sha256 input)) inputs
            then fallbackPlan H le a [GRAPH_DRIFT]
            else
              (case selectOwners inputs changedPaths [] of
                 Inl reason \<Rightarrow> fallbackPlan H le a [reason]
               | Inr owners \<Rightarrow>
                   (let selected = expandSelected nodes owners;
                        chosen = filter (\<lambda>node. nd_id node \<in> set selected) nodes
                    in res_bind (digest_js H (ar_graph a)) (\<lambda>graphDigest.
                      Inr (finalizePlan H
                        \<lparr>pl_mode = IMPACTED_SHADOW,
                         pl_baseSha = str_of (ar_baseSha a),
                         pl_headSha = str_of (ar_headSha a),
                         pl_graphDigest = graphDigest,
                         pl_changedPaths = changedPaths,
                         selectedNodes = sortedUniqueBy le (map nd_id chosen),
                         selectedTests = sortedUniqueBy le (concat (map ownedTests chosen)),
                         pl_hardGates = sortedUniqueBy le
                           (map str_of (elems_of (getf (fields_of (ar_graph a)) ''hardGates''))),
                         pl_reasons = []\<rparr>)))))))"

text \<open>A classifier is any function from the arguments to a plan that may throw.\<close>

definition buildVerificationImpactPlanFailClosedV2 ::
  "hash \<Rightarrow> (string \<Rightarrow> string \<Rightarrow> bool) \<Rightarrow> plan_args \<Rightarrow> (plan_args \<Rightarrow> impact_plan res) \<Rightarrow> impact_plan res" where
  "buildVerificationImpactPlanFailClosedV2 H le a classifier =
     (case classifier a of
        Inr plan \<Rightarrow> Inr plan
      | Inl thrown \<Rightarrow> fallbackPlan H le a [CLASSIFIER_FAILURE])"

subsection \<open>Attestations\<close>

datatype attestation_denial = ATTESTATION_MISSING_DENIED | ATTESTATION_SCHEMA_DENIED
  | ATTESTATION_TAMPERED_DENIED | ATTESTATION_STALE_DENIED | ATTESTATION_MISMATCH_DENIED

datatype attestation_outcome = REUSABLE_PROTOTYPE | ATTESTATION_DENIED "attestation_denial list"

definition ATTESTATION_KEYS :: "string list" where
  "ATTESTATION_KEYS = [''schemaVersion'', ''nodeId'', ''nodeDigest'', ''graphDigest'',
     ''toolchainDigest'', ''environmentDigest'', ''createdAtMs'', ''testResults'', ''attestationDigest'']"

definition validTestResult :: "js \<Rightarrow> bool" where
  "validTestResult r \<longleftrightarrow> exactKeysOpt r [''test'', ''outcome''] []
     \<and> isNonEmptyString (getf (fields_of r) ''test'')
     \<and> getf (fields_of r) ''outcome'' = JStr ''PASS''"

definition validAttestation :: "js \<Rightarrow> bool" where
  "validAttestation v =
     (let f = getf (fields_of v) in
      if \<not> exactKeysOpt v ATTESTATION_KEYS [''expiresAtMs'']
         \<or> f ''schemaVersion'' \<noteq> JStr VERIFICATION_ATTESTATION_SCHEMA_V2
         \<or> \<not> isIdentifier (f ''nodeId'') \<or> \<not> isDigest (f ''nodeDigest'') \<or> \<not> isDigest (f ''graphDigest'')
         \<or> \<not> isDigest (f ''toolchainDigest'') \<or> \<not> isDigest (f ''environmentDigest'')
         \<or> \<not> is_safe_integer (f ''createdAtMs'') \<or> int_of_js (f ''createdAtMs'') < 0
         \<or> (hasOwn v ''expiresAtMs'' \<and> (\<not> is_safe_integer (f ''expiresAtMs'') \<or> int_of_js (f ''expiresAtMs'') < 0))
         \<or> \<not> is_array (f ''testResults'') \<or> length (elems_of (f ''testResults'')) = 0
         \<or> \<not> isDigest (f ''attestationDigest'')
      then False
      else list_all validTestResult (elems_of (f ''testResults''))
        \<and> length (uniq (map (\<lambda>r. getf (fields_of r) ''test'') (elems_of (f ''testResults''))))
            = length (elems_of (f ''testResults'')))"

text \<open>
  The clock reading and the lifetime are integers. \<open>createdAtMs + evidenceTtlMs\<close> is only compared
  with a safe integer or \<open>undefined\<close>, so a sum beyond the safe range, which a double may round,
  is unequal in the code and in the model. \<open>expiresAtMs\<close> reads as \<open>None\<close> for \<open>undefined\<close>.
\<close>

definition expiresAtMs :: "js \<Rightarrow> int option" where
  "expiresAtMs v = (if hasOwn v ''expiresAtMs'' then Some (int_of_js (getf (fields_of v) ''expiresAtMs'')) else None)"

definition attested_tests :: "js \<Rightarrow> string list" where
  "attested_tests v = map (\<lambda>r. str_of (getf (fields_of r) ''test'')) (elems_of (getf (fields_of v) ''testResults''))"

definition verifyPrototypeAttestationV2 ::
  "hash \<Rightarrow> (string \<Rightarrow> string \<Rightarrow> bool) \<Rightarrow> js \<Rightarrow> dag_node \<Rightarrow> string \<Rightarrow> string \<Rightarrow> string \<Rightarrow> int
    \<Rightarrow> attestation_outcome res" where
  "verifyPrototypeAttestationV2 H le attestation node graphDigest toolchainDigest environmentDigest nowMs =
     (if attestation = JNull \<or> attestation = JUndef
      then Inr (ATTESTATION_DENIED [ATTESTATION_MISSING_DENIED])
      else if \<not> validAttestation attestation then Inr (ATTESTATION_DENIED [ATTESTATION_SCHEMA_DENIED])
      else
        (let f = getf (fields_of attestation) in
         res_bind (digest_js H (obj (without ''attestationDigest'' (fields_of attestation)))) (\<lambda>recomputed.
         if f ''attestationDigest'' \<noteq> JStr recomputed
         then Inr (ATTESTATION_DENIED [ATTESTATION_TAMPERED_DENIED])
         else if (case expiresAtMs attestation of None \<Rightarrow> False | Some e \<Rightarrow> nowMs > e)
         then Inr (ATTESTATION_DENIED [ATTESTATION_STALE_DENIED])
         else
           (let expectedExpiry = map_option (\<lambda>ttl. int_of_js (f ''createdAtMs'') + ttl) (evidenceTtlMs node);
                exactTests = sortedUniqueBy le (attested_tests attestation)
            in if f ''nodeId'' \<noteq> JStr (nd_id node)
                 \<or> f ''nodeDigest'' \<noteq> JStr (verificationNodeDigestV2 H node)
                 \<or> f ''graphDigest'' \<noteq> JStr graphDigest
                 \<or> f ''toolchainDigest'' \<noteq> JStr toolchainDigest
                 \<or> f ''environmentDigest'' \<noteq> JStr environmentDigest
                 \<or> expiresAtMs attestation \<noteq> expectedExpiry
                 \<or> canonText (strs_js exactTests) \<noteq> canonText (strs_js (sortedUniqueBy le (ownedTests node)))
               then Inr (ATTESTATION_DENIED [ATTESTATION_MISMATCH_DENIED])
               else Inr REUSABLE_PROTOTYPE))))"

subsection \<open>The shadow comparator\<close>

record shadow_report =
  sh_pass :: bool
  sh_plan :: impact_plan
  sh_exitCode :: int

text \<open>\<open>executeFullSuite\<close> settles with an exit code or rejects (\<open>Inl\<close>).\<close>

definition runVerificationShadowComparatorV2 :: "impact_plan \<Rightarrow> int res \<Rightarrow> shadow_report" where
  "runVerificationShadowComparatorV2 plan executeFullSuite =
     (let exitCode = (case executeFullSuite of Inr code \<Rightarrow> code | Inl rejected \<Rightarrow> 1)
      in \<lparr>sh_pass = (exitCode = 0), sh_plan = plan, sh_exitCode = exitCode\<rparr>)"

end
