(* ===== verification/FabricGraph.thy ===== *)
theory FabricGraph
  imports Fabric
begin

text \<open>
  What the searches of the verification fabric compute, stated on the dependency relation of the
  nodes: the depth-first search answers \<open>False\<close> exactly on graphs with distinct identifiers, known
  dependencies and no cycle (\<open>dagSearch_iff\<close>), it returns within its fuel (\<open>dagSearch_returns\<close>), and
  the expansion loop computes the nodes from which a selected node is reachable (\<open>expandSelected_iff\<close>).
\<close>

subsection \<open>The dependency relation\<close>

definition dep_rel :: "dag_node list \<Rightarrow> (string \<times> string) set" where
  "dep_rel nodes = {(nd_id n, d) |n d. n \<in> set nodes \<and> d \<in> set (dependsOn n)}"

definition node_ids :: "dag_node list \<Rightarrow> string set" where
  "node_ids nodes = nd_id ` set nodes"

definition dag_ok :: "dag_node list \<Rightarrow> bool" where
  "dag_ok nodes \<longleftrightarrow> distinct (map nd_id nodes) \<and> Range (dep_rel nodes) \<subseteq> node_ids nodes
     \<and> acyclic (dep_rel nodes)"

lemma dep_relI: "n \<in> set nodes \<Longrightarrow> d \<in> set (dependsOn n) \<Longrightarrow> (nd_id n, d) \<in> dep_rel nodes"
  by (auto simp: dep_rel_def)

lemma byId_Some: "byId nodes i = Some n \<Longrightarrow> n \<in> set nodes \<and> nd_id n = i"
  unfolding byId_def by (rule find_last_Some)

lemma byId_None_iff: "byId nodes i = None \<longleftrightarrow> i \<notin> node_ids nodes"
  unfolding byId_def find_last_None node_ids_def by auto

lemma byId_deps:
  assumes "distinct (map nd_id nodes)" "byId nodes i = Some n"
  shows "(i, d) \<in> dep_rel nodes \<longleftrightarrow> d \<in> set (dependsOn n)"
proof -
  have n: "n \<in> set nodes" "nd_id n = i" using byId_Some [OF assms(2)] by simp_all
  have "m = n" if "m \<in> set nodes" "nd_id m = i" for m
    using that n assms(1) by (metis distinct_map inj_on_def)
  with n show ?thesis unfolding dep_rel_def by blast
qed

subsection \<open>A search that accepts has listed the nodes in dependency order\<close>

text \<open>\<open>layered R vs\<close>: whatever a member of \<open>vs\<close> depends on comes before it.\<close>

inductive layered :: "('a \<times> 'a) set \<Rightarrow> 'a list \<Rightarrow> bool" for R where
  layered_Nil: "layered R []"
| layered_snoc: "layered R vs \<Longrightarrow> R `` {v} \<subseteq> set vs \<Longrightarrow> v \<notin> set vs \<Longrightarrow> layered R (vs @ [v])"

lemma layered_closed: "layered R vs \<Longrightarrow> v \<in> set vs \<Longrightarrow> (v, w) \<in> R \<Longrightarrow> w \<in> set vs"
  by (induction rule: layered.induct) auto

lemma layered_trancl:
  assumes "layered R vs" "v \<in> set vs" "(v, w) \<in> R\<^sup>+"
  shows "w \<in> set vs"
  using assms(3,1,2) by (induction rule: trancl_induct) (auto dest: layered_closed)

lemma layered_no_cycle: "layered R vs \<Longrightarrow> v \<in> set vs \<Longrightarrow> (v, v) \<notin> R\<^sup>+"
proof (induction rule: layered.induct)
  case (layered_snoc vs w)
  show ?case
  proof (cases "v = w")
    case True
    show ?thesis
    proof
      assume "(v, v) \<in> R\<^sup>+"
      then obtain u where u: "(v, u) \<in> R" "(u, v) \<in> R\<^sup>*" by (meson tranclD)
      have "u \<in> set vs" using u(1) layered_snoc.hyps(2) True by auto
      then have "v \<in> set vs"
        using u(2) layered_trancl [OF layered_snoc.hyps(1)] by (metis rtrancl_eq_or_trancl)
      with True layered_snoc.hyps(3) show False by simp
    qed
  next
    case False
    with layered_snoc show ?thesis by simp
  qed
qed simp

lemma layered_acyclic: "layered R vs \<Longrightarrow> Domain R \<subseteq> set vs \<Longrightarrow> acyclic R"
  unfolding acyclic_def by (metis DomainI layered_no_cycle subsetD tranclD)

lemma layered_set_add: "layered R vs \<Longrightarrow> R `` {v} \<subseteq> set vs \<Longrightarrow> layered R (set_add v vs)"
  by (simp add: set_add_def layered_snoc)

lemma visit_False:
  assumes "visit fuel nodes i s = Some (False, s')" "distinct (map nd_id nodes)"
    and "layered (dep_rel nodes) (visited s)" "set (visited s) \<subseteq> node_ids nodes"
  shows "visiting s' = visiting s \<and> layered (dep_rel nodes) (visited s')
    \<and> set (visited s') \<subseteq> node_ids nodes \<and> i \<in> set (visited s') \<and> set (visited s) \<subseteq> set (visited s')"
  using assms
proof (induction fuel arbitrary: i s s')
  case (Suc fuel)
  show ?case
  proof (cases "i \<in> set (visited s)")
    case True
    with Suc.prems show ?thesis by (auto split: if_splits)
  next
    case False
    let ?call = "\<lambda>d t. if byId nodes d = None then Some (True, t) else visit fuel nodes d t"
    let ?s = "s\<lparr>visiting := set_add i (visiting s)\<rparr>"
    from Suc.prems(1) False obtain node t where i: "i \<notin> set (visiting s)" and n: "byId nodes i = Some node"
      and call: "some_st ?call (dependsOn node) ?s = Some (False, t)"
      and s': "s' = t\<lparr>visiting := removeAll i (visiting t), visited := set_add i (visited t)\<rparr>"
      by (auto split: if_splits option.splits bool.splits)
    let ?I = "\<lambda>t :: dfs. visiting t = visiting ?s \<and> layered (dep_rel nodes) (visited t)
      \<and> set (visited t) \<subseteq> node_ids nodes \<and> set (visited s) \<subseteq> set (visited t)"
    have r: "?I t \<and> (\<forall>d \<in> set (dependsOn node). d \<in> set (visited t)) \<and> (\<forall>d. d \<in> set (visited ?s) \<longrightarrow> d \<in> set (visited t))"
    proof (rule some_st_False [OF call])
      show "?I ?s" using Suc.prems(3,4) by simp
      fix d u u' assume u: "?I u" "?call d u = Some (False, u')"
      then have "visit fuel nodes d u = Some (False, u')" by (simp split: if_splits)
      from Suc.IH [OF this Suc.prems(2)] u(1)
      show "?I u' \<and> d \<in> set (visited u') \<and> (\<forall>y. y \<in> set (visited u) \<longrightarrow> y \<in> set (visited u'))" by auto
    qed
    have "dep_rel nodes `` {i} = set (dependsOn node)"
      using byId_deps [OF Suc.prems(2) n] by auto
    then have "layered (dep_rel nodes) (set_add i (visited t))"
      using r by (intro layered_set_add) auto
    moreover have "i \<in> node_ids nodes" using byId_Some [OF n] by (auto simp: node_ids_def)
    moreover have "removeAll i (set_add i (visiting s)) = visiting s"
      using i by (simp add: set_add_def)
    ultimately show ?thesis unfolding s' using r by auto
  qed
qed simp

subsection \<open>A search that rejects has found an unknown dependency or a cycle\<close>

lemma visit_True:
  assumes "visit fuel nodes i s = Some (True, s')" "distinct (map nd_id nodes)" "i \<in> node_ids nodes"
    and "Range (dep_rel nodes) \<subseteq> node_ids nodes"
    and "\<forall>v \<in> set (visiting s). (v, i) \<in> (dep_rel nodes)\<^sup>+"
    and "layered (dep_rel nodes) (visited s)" "set (visited s) \<subseteq> node_ids nodes"
  shows "\<not> acyclic (dep_rel nodes)"
  using assms
proof (induction fuel arbitrary: i s s')
  case (Suc fuel)
  show ?case
  proof (cases "i \<in> set (visiting s)")
    case True
    with Suc.prems(5) show ?thesis by (auto simp: acyclic_def)
  next
    case False
    let ?call = "\<lambda>d t. if byId nodes d = None then Some (True, t) else visit fuel nodes d t"
    let ?s = "s\<lparr>visiting := set_add i (visiting s)\<rparr>"
    have known: "byId nodes i \<noteq> None" using Suc.prems(3) by (simp add: byId_None_iff)
    from Suc.prems(1) False known obtain node where n: "byId nodes i = Some node"
      and call: "some_st ?call (dependsOn node) ?s = Some (True, s')"
      by (auto split: if_splits option.splits bool.splits)
    let ?I = "\<lambda>t :: dfs. visiting t = visiting ?s \<and> layered (dep_rel nodes) (visited t) \<and> set (visited t) \<subseteq> node_ids nodes"
    have keep: "?I u'" if u: "?I u" "?call d u = Some (False, u')" for d u u'
    proof -
      from u(2) have "visit fuel nodes d u = Some (False, u')" by (simp split: if_splits)
      from visit_False [OF this Suc.prems(2)] u(1) show ?thesis by auto
    qed
    have start: "?I ?s" using Suc.prems(6,7) by simp
    obtain d u where d: "d \<in> set (dependsOn node)" and u: "?I u" and c: "?call d u = Some (True, s')"
      by (rule some_st_True [where I = ?I, OF call start]) (use keep in blast)+
    have e: "(i, d) \<in> dep_rel nodes" using byId_deps [OF Suc.prems(2) n] d by simp
    then have k: "d \<in> node_ids nodes" using Suc.prems(4) by auto
    then have v: "visit fuel nodes d u = Some (True, s')" using c by (simp add: byId_None_iff)
    have "\<forall>v \<in> set (visiting u). (v, d) \<in> (dep_rel nodes)\<^sup>+"
      using u Suc.prems(5) e by (auto intro: trancl_into_trancl)
    then show ?thesis using u by (intro Suc.IH [OF v Suc.prems(2) k Suc.prems(4)]) simp_all
  qed
qed simp

subsection \<open>The search returns within its fuel\<close>

lemma visit_returns:
  assumes "distinct (map nd_id nodes)" "layered (dep_rel nodes) (visited s)" "set (visited s) \<subseteq> node_ids nodes"
    and "card (node_ids nodes - set (visiting s)) < fuel"
  shows "visit fuel nodes i s \<noteq> None"
  using assms(2-)
proof (induction fuel arbitrary: i s)
  case (Suc fuel)
  let ?call = "\<lambda>d t. if byId nodes d = None then Some (True, t) else visit fuel nodes d t"
  let ?s = "s\<lparr>visiting := set_add i (visiting s)\<rparr>"
  have "some_st ?call (dependsOn node) ?s \<noteq> None"
    if i: "i \<notin> set (visiting s)" and n: "byId nodes i = Some node" for node
  proof -
    have "i \<in> node_ids nodes" using byId_Some [OF n] by (auto simp: node_ids_def)
    moreover have "finite (node_ids nodes)" by (simp add: node_ids_def)
    ultimately have "card (node_ids nodes - insert i (set (visiting s))) < card (node_ids nodes - set (visiting s))"
      using i by (intro psubset_card_mono) auto
    then have fuel: "card (node_ids nodes - set (visiting ?s)) < fuel" using Suc.prems(3) by simp
    let ?I = "\<lambda>t :: dfs. visiting t = visiting ?s \<and> layered (dep_rel nodes) (visited t) \<and> set (visited t) \<subseteq> node_ids nodes"
    show ?thesis
    proof (rule some_st_returns [where I = ?I])
      show "?I ?s" using Suc.prems(1,2) by simp
      fix d u assume u: "?I u"
      have "visit fuel nodes d u \<noteq> None" using u fuel by (intro Suc.IH) simp_all
      then show "?call d u \<noteq> None" by auto
      fix u' assume "?call d u = Some (False, u')"
      then have "visit fuel nodes d u = Some (False, u')" by (simp split: if_splits)
      from visit_False [OF this assms(1)] u show "?I u'" by auto
    qed
  qed
  note called = this
  show ?case
  proof (cases "i \<in> set (visiting s) \<or> i \<in> set (visited s) \<or> byId nodes i = None")
    case True
    then show ?thesis by auto
  next
    case False
    then obtain node where n: "byId nodes i = Some node" by auto
    then obtain b t where "some_st ?call (dependsOn node) ?s = Some (b, t)"
      using called [of node] False by auto
    with n False show ?thesis by (cases b) simp_all
  qed
qed simp

declare visit.simps [simp del]

subsection \<open>The whole search\<close>

lemma dfs_start_simps [simp]: "visiting dfs_start = []" "visited dfs_start = []"
  by (simp_all add: dfs_start_def)

lemma dagSearch_step:
  assumes "distinct (map nd_id nodes)"
    and "visiting s = [] \<and> layered (dep_rel nodes) (visited s) \<and> set (visited s) \<subseteq> node_ids nodes"
    and "visit fuel nodes i s = Some (False, s')"
  shows "visiting s' = [] \<and> layered (dep_rel nodes) (visited s') \<and> set (visited s') \<subseteq> node_ids nodes"
    "i \<in> set (visited s')" "set (visited s) \<subseteq> set (visited s')"
  using visit_False [OF assms(3,1)] assms(2) by simp_all

lemma search_start: "visiting dfs_start = [] \<and> layered (dep_rel nodes) (visited dfs_start)
    \<and> set (visited dfs_start) \<subseteq> node_ids nodes"
  by (simp add: layered_Nil)

lemma dagSearch_returns: "dagSearch nodes \<noteq> None"
proof (cases "distinct (map nd_id nodes)")
  case True
  have "card (node_ids nodes) \<le> length nodes" by (metis card_image_le card_length node_ids_def finite_set le_trans)
  then have fuel: "card (node_ids nodes - set (visiting s)) < Suc (length nodes)" if "visiting s = []" for s
    using that by simp
  have "some_st (\<lambda>node s. visit (Suc (length nodes)) nodes (nd_id node) s) nodes dfs_start \<noteq> None"
  proof (rule some_st_returns [where I = "\<lambda>s. visiting s = [] \<and> layered (dep_rel nodes) (visited s) \<and> set (visited s) \<subseteq> node_ids nodes"])
    fix n and s :: dfs assume s: "visiting s = [] \<and> layered (dep_rel nodes) (visited s) \<and> set (visited s) \<subseteq> node_ids nodes"
    then show "visit (Suc (length nodes)) nodes (nd_id n) s \<noteq> None"
      by (intro visit_returns True fuel) simp_all
    fix s' assume "visit (Suc (length nodes)) nodes (nd_id n) s = Some (False, s')"
    from dagSearch_step(1) [OF True s this]
    show "visiting s' = [] \<and> layered (dep_rel nodes) (visited s') \<and> set (visited s') \<subseteq> node_ids nodes" .
  qed (rule search_start)
  then show ?thesis by (auto simp: dagSearch_def)
next
  case False
  then have "length (uniq (map nd_id nodes)) \<noteq> length nodes"
    using length_uniq_iff [of "map nd_id nodes"] by simp
  then show ?thesis by (simp add: dagSearch_def)
qed

lemma dagSearch_distinct:
  assumes "distinct (map nd_id nodes)"
  shows "dagSearch nodes = map_option fst
    (some_st (\<lambda>node s. visit (Suc (length nodes)) nodes (nd_id node) s) nodes dfs_start)"
  using length_uniq_iff [of "map nd_id nodes"] assms by (simp add: dagSearch_def)

lemma dagSearch_False:
  assumes "dagSearch nodes = Some False"
  shows "dag_ok nodes"
proof -
  have d: "distinct (map nd_id nodes)"
    using assms length_uniq_iff [of "map nd_id nodes"] by (auto simp: dagSearch_def split: if_splits)
  obtain s where s: "some_st (\<lambda>node s. visit (Suc (length nodes)) nodes (nd_id node) s) nodes dfs_start = Some (False, s)"
    using assms unfolding dagSearch_distinct [OF d] by auto
  let ?I = "\<lambda>s :: dfs. visiting s = [] \<and> layered (dep_rel nodes) (visited s) \<and> set (visited s) \<subseteq> node_ids nodes"
  have r: "?I s \<and> (\<forall>n \<in> set nodes. nd_id n \<in> set (visited s)) \<and> (\<forall>n :: dag_node. nd_id n \<in> set (visited dfs_start) \<longrightarrow> nd_id n \<in> set (visited s))"
  proof (rule some_st_False [where I = ?I and Q = "\<lambda>n s. nd_id n \<in> set (visited s)", OF s])
    show "?I dfs_start" by (rule search_start)
    fix n t t' assume t: "?I t" "visit (Suc (length nodes)) nodes (nd_id n) t = Some (False, t')"
    from dagSearch_step [OF d t]
    show "?I t' \<and> nd_id n \<in> set (visited t') \<and> (\<forall>m. nd_id m \<in> set (visited t) \<longrightarrow> nd_id m \<in> set (visited t'))"
      by blast
  qed
  then have v: "set (visited s) = node_ids nodes" by (auto simp: node_ids_def)
  have dom: "Domain (dep_rel nodes) \<subseteq> node_ids nodes" by (auto simp: dep_rel_def node_ids_def)
  have "Range (dep_rel nodes) \<subseteq> node_ids nodes"
    using r v dom layered_closed [of "dep_rel nodes" "visited s"] by blast
  moreover have "acyclic (dep_rel nodes)" using r dom v by (intro layered_acyclic [of _ "visited s"]) simp_all
  ultimately show ?thesis using d by (simp add: dag_ok_def)
qed

lemma dagSearch_True:
  assumes "dagSearch nodes = Some True"
  shows "\<not> dag_ok nodes"
proof
  assume ok: "dag_ok nodes"
  then have d: "distinct (map nd_id nodes)" by (simp add: dag_ok_def)
  obtain s' where s: "some_st (\<lambda>node s. visit (Suc (length nodes)) nodes (nd_id node) s) nodes dfs_start = Some (True, s')"
    using assms unfolding dagSearch_distinct [OF d] by auto
  let ?I = "\<lambda>s :: dfs. visiting s = [] \<and> layered (dep_rel nodes) (visited s) \<and> set (visited s) \<subseteq> node_ids nodes"
  have keep: "?I t'" if "?I t" "visit (Suc (length nodes)) nodes (nd_id n) t = Some (False, t')" for n t t'
    by (rule dagSearch_step(1) [OF d that])
  obtain n t where n: "n \<in> set nodes" and t: "?I t"
    and c: "visit (Suc (length nodes)) nodes (nd_id n) t = Some (True, s')"
    by (rule some_st_True [where I = ?I, OF s search_start]) (use keep in blast)+
  have "\<not> acyclic (dep_rel nodes)"
  proof (rule visit_True [OF c d])
    show "nd_id n \<in> node_ids nodes" using n by (simp add: node_ids_def)
  qed (use ok t in \<open>simp_all add: dag_ok_def\<close>)
  with ok show False by (simp add: dag_ok_def)
qed

lemma dagSearch_iff: "dagSearch nodes = Some False \<longleftrightarrow> dag_ok nodes"
  using dagSearch_False dagSearch_True dagSearch_returns [of nodes] by (metis (full_types) not_None_eq)

lemma cycleOrUnknown_iff: "cycleOrUnknown nodes \<longleftrightarrow> \<not> dag_ok nodes"
  by (simp add: cycleOrUnknown_def dagSearch_iff)

subsection \<open>The expansion loop\<close>

text \<open>\<open>expandRound\<close> keeps what is selected, adds only direct dependents of selected nodes, and
  reports no expansion only when the selection is closed.\<close>

lemma expandRound_sound:
  assumes "x \<in> set (fst (expandRound ns st))"
  shows "\<exists>y \<in> set (fst st). (x, y) \<in> (dep_rel ns)\<^sup>*"
  using assms
proof (induction ns st arbitrary: x rule: expandRound.induct)
  case (2 n ns s e)
  have up: "(x, y) \<in> (dep_rel (n # ns))\<^sup>*" if "(x, y) \<in> (dep_rel ns)\<^sup>*" for x y
    using that by (rule rtrancl_mono [THEN subsetD, rotated]) (auto simp: dep_rel_def)
  show ?case
  proof (cases "nd_id n \<notin> set s \<and> list_ex (\<lambda>d. d \<in> set s) (dependsOn n)")
    case True
    then obtain d where d: "d \<in> set (dependsOn n)" "d \<in> set s" by (auto simp: list_ex_iff)
    from 2 True obtain y where y: "y \<in> set (set_add (nd_id n) s)" "(x, y) \<in> (dep_rel ns)\<^sup>*" by auto
    show ?thesis
    proof (cases "y = nd_id n")
      case True
      have "(nd_id n, d) \<in> dep_rel (n # ns)" using d(1) by (auto simp: dep_rel_def)
      with up [OF y(2)] True have "(x, d) \<in> (dep_rel (n # ns))\<^sup>*" by simp
      with d(2) show ?thesis by auto
    next
      case False
      with y up show ?thesis by auto
    qed
  next
    case False
    with 2 obtain y where "y \<in> set s" "(x, y) \<in> (dep_rel ns)\<^sup>*" by auto
    with up show ?thesis by auto
  qed
qed auto

lemma expandRound_flag: "expandRound ns (s, True) = (t, e) \<Longrightarrow> e"
  by (induction ns arbitrary: s) (auto split: if_splits)

lemma expandRound_stable:
  assumes "expandRound ns (s, False) = (t, False)"
  shows "t = s \<and> (\<forall>n \<in> set ns. (\<exists>d \<in> set (dependsOn n). d \<in> set s) \<longrightarrow> nd_id n \<in> set s)"
  using assms
proof (induction ns)
  case (Cons n ns)
  have "\<not> (nd_id n \<notin> set s \<and> list_ex (\<lambda>d. d \<in> set s) (dependsOn n))"
    using Cons.prems expandRound_flag [of ns "set_add (nd_id n) s" t False] by auto
  moreover from this have "expandRound ns (s, False) = (t, False)" using Cons.prems by auto
  from Cons.IH [OF this] have "t = s \<and> (\<forall>n \<in> set ns. (\<exists>d \<in> set (dependsOn n). d \<in> set s) \<longrightarrow> nd_id n \<in> set s)" .
  ultimately show ?case unfolding list_ex_iff set_simps ball_simps by blast
qed simp

lemma expandSelected_iff:
  "x \<in> set (expandSelected nodes s) \<longleftrightarrow> (\<exists>y \<in> set s. (x, y) \<in> (dep_rel nodes)\<^sup>*)"
proof (induction nodes s rule: expandSelected.induct)
  case (1 nodes s)
  obtain t e where r: "expandRound nodes (s, False) = (t, e)" by fastforce
  have grow: "set s \<subseteq> set t" using expandRound_grows [of "(s, False)" nodes] r by simp
  have sound: "\<exists>y \<in> set s. (x, y) \<in> (dep_rel nodes)\<^sup>*" if "x \<in> set t" for x
    using expandRound_sound [of x nodes "(s, False)"] r that by simp
  show ?case
  proof (cases e)
    case True
    have "x \<in> set (expandSelected nodes s) \<longleftrightarrow> x \<in> set (expandSelected nodes t)"
      using r True by (simp add: expandSelected.simps [of nodes s])
    also have "\<dots> \<longleftrightarrow> (\<exists>y \<in> set t. (x, y) \<in> (dep_rel nodes)\<^sup>*)" using 1 r True by simp
    also have "\<dots> \<longleftrightarrow> (\<exists>y \<in> set s. (x, y) \<in> (dep_rel nodes)\<^sup>*)"
      using sound grow by (meson rtrancl_trans subsetD)
    finally show ?thesis .
  next
    case False
    with r expandRound_stable [of nodes s t]
    have st: "t = s" and cl: "\<And>n. n \<in> set nodes \<Longrightarrow> \<exists>d \<in> set (dependsOn n). d \<in> set s \<Longrightarrow> nd_id n \<in> set s"
      by auto
    have "x \<in> set s" if "(x, y) \<in> (dep_rel nodes)\<^sup>*" "y \<in> set s" for y
      using that by (induction rule: converse_rtrancl_induct) (auto simp: dep_rel_def intro: cl)
    with st r False show ?thesis by (auto simp: expandSelected.simps [of nodes s])
  qed
qed

end
