(* ===== verification/FabricPlans.thy ===== *)
theory FabricPlans
  imports FabricGraph
begin

text \<open>
  The verification fabric: what an admitted graph satisfies, when a plan may select less than the
  full suite and what it then selects, that no plan misses a test the change can reach, and what a
  re-used attestation establishes.
\<close>

subsection \<open>Admitted graphs\<close>

lemma valid_dag:
  assumes "validateVerificationDagV2 g"
  shows "is_record g" "is_array (getf (fields_of g) ''nodes'')"
    "list_all validNodeShape (elems_of (getf (fields_of g) ''nodes''))"
    "uniqueStrings (getf (fields_of g) ''hardGates'') isNonEmptyString"
    "dag_ok (dag_nodes g)"
proof -
  note v = assms [unfolded validateVerificationDagV2_def Let_def]
  note w = v [unfolded if_False_iff, unfolded de_Morgan_disj not_not]
  show "is_record g" using w by (elim conjE) (rule exactKeysOpt_record)
  show "is_array (getf (fields_of g) ''nodes'')" using w by (elim conjE)
  show "list_all validNodeShape (elems_of (getf (fields_of g) ''nodes''))" using w by (elim conjE)
  show "uniqueStrings (getf (fields_of g) ''hardGates'') isNonEmptyString" using w by (elim conjE)
  show "dag_ok (dag_nodes g)" using w unfolding cycleOrUnknown_iff not_not by (elim conjE)
qed

subsection \<open>Plans\<close>

lemma finalizePlan_simps [simp]:
  "pl_mode (finalizePlan H p) = pl_mode p" "selectedNodes (finalizePlan H p) = selectedNodes p"
  "selectedTests (finalizePlan H p) = selectedTests p" "pl_hardGates (finalizePlan H p) = pl_hardGates p"
  "pl_reasons (finalizePlan H p) = pl_reasons p" "pl_changedPaths (finalizePlan H p) = pl_changedPaths p"
  "pl_graphDigest (finalizePlan H p) = pl_graphDigest p"
  "planDigest (finalizePlan H p) = digest_of H (obj (plan_core_fields p))"
  by (simp_all add: finalizePlan_def plan_core.defs impact_plan.defs)

text \<open>The fallback of an admitted graph runs every test of every node.\<close>

lemma fallbackPlan_Inr:
  assumes "fallbackPlan H le a rs = Inr p"
  shows "pl_mode p = FULL_FALLBACK" "set (pl_reasons p) = fallback_reason_text ` set rs"
    "plain (ar_graph a)"
  using assms
  by (auto simp: fallbackPlan_def Let_def res_bind_Inr_iff digest_js_Inr_iff sorted_listing.set_list_of)

lemma fallbackPlan_covers:
  assumes "fallbackPlan H le a rs = Inr p" "validateVerificationDagV2 (ar_graph a)"
  shows "set (selectedNodes p) = node_ids (dag_nodes (ar_graph a))"
    "set (selectedTests p) = (\<Union>n \<in> set (dag_nodes (ar_graph a)). set (ownedTests n))"
proof -
  note v = valid_dag [OF assms(2)]
  have "filter validNodeShape (elems_of (getf (fields_of (ar_graph a)) ''nodes''))
      = elems_of (getf (fields_of (ar_graph a)) ''nodes'')"
    using v(3) by (simp add: filter_id_conv list_all_iff)
  then have n: "(if is_record (ar_graph a) \<and> is_array (getf (fields_of (ar_graph a)) ''nodes'')
      then map readNode (filter validNodeShape (elems_of (getf (fields_of (ar_graph a)) ''nodes''))) else [])
      = dag_nodes (ar_graph a)"
    using v(1,2) by (simp add: dag_nodes_def)
  obtain d where p: "selectedNodes p = sortedUniqueBy le (map nd_id (dag_nodes (ar_graph a)))"
      "selectedTests p = sortedUniqueBy le (concat (map ownedTests (dag_nodes (ar_graph a))))"
    using assms(1) unfolding fallbackPlan_def Let_def n by (auto simp: res_bind_Inr_iff)
  show "set (selectedNodes p) = node_ids (dag_nodes (ar_graph a))"
    "set (selectedTests p) = (\<Union>n \<in> set (dag_nodes (ar_graph a)). set (ownedTests n))"
    unfolding p sorted_listing.set_list_of by (simp_all add: node_ids_def)
qed

subsection \<open>Owners of changed paths\<close>

text \<open>The one input of the graph with a path, and its node.\<close>

definition sole_owner :: "dag_node list \<Rightarrow> string \<Rightarrow> dag_node \<Rightarrow> dag_input \<Rightarrow> bool" where
  "sole_owner nodes path n i \<longleftrightarrow> filter (\<lambda>(n, i). in_path i = path) (dag_inputs nodes) = [(n, i)]"

text \<open>A path whose change may be answered with less than the full suite.\<close>

definition local_path :: "dag_node list \<Rightarrow> string \<Rightarrow> bool" where
  "local_path nodes path \<longleftrightarrow> (\<exists>n i. sole_owner nodes path n i \<and> \<not> globalInvalidation n
     \<and> in_role i \<notin> {TOOLCHAIN, ENVIRONMENT, SECURITY})"

lemma sole_owner_in: "sole_owner nodes path n i \<Longrightarrow> n \<in> set nodes \<and> i \<in> set (nd_inputs n) \<and> in_path i = path"
proof -
  assume "sole_owner nodes path n i"
  then have "(n, i) \<in> set (filter (\<lambda>(n, i). in_path i = path) (dag_inputs nodes))"
    by (simp add: sole_owner_def)
  then show ?thesis by (auto simp: dag_inputs_def)
qed

lemma sole_owner_unique:
  assumes "sole_owner nodes path n i" "m \<in> set nodes" "j \<in> set (nd_inputs m)" "in_path j = path"
  shows "m = n \<and> j = i"
proof -
  have "(m, j) \<in> set (filter (\<lambda>(n, i). in_path i = path) (dag_inputs nodes))"
    using assms(2-4) by (auto simp: dag_inputs_def)
  then show ?thesis unfolding assms(1) [unfolded sole_owner_def] by simp
qed

lemma selectOwners_Inr_iff:
  "(\<exists>t. selectOwners (dag_inputs nodes) paths s = Inr t) \<longleftrightarrow> list_all (local_path nodes) paths"
proof (induction paths arbitrary: s)
  case (Cons path paths)
  define owners where "owners = filter (\<lambda>(n, i). in_path i = path) (dag_inputs nodes)"
  have o: "local_path nodes path \<longleftrightarrow> (\<exists>n i. owners = [(n, i)] \<and> \<not> globalInvalidation n
     \<and> in_role i \<notin> {TOOLCHAIN, ENVIRONMENT, SECURITY})"
    unfolding local_path_def sole_owner_def owners_def ..
  show ?case
  proof (cases "\<exists>n i. owners = [(n, i)]")
    case True
    then obtain n i where "owners = [(n, i)]" by blast
    with o Cons.IH show ?thesis by (simp flip: owners_def)
  next
    case False
    then have "owners = [] \<or> length owners > 1" by (cases owners; cases "List.tl owners") auto
    with False o show ?thesis by (auto simp flip: owners_def)
  qed
qed simp

lemma selectOwners_set:
  assumes "selectOwners (dag_inputs nodes) paths s = Inr t"
  shows "set t = set s \<union> {nd_id n |n i path. path \<in> set paths \<and> sole_owner nodes path n i}"
  using assms
proof (induction paths arbitrary: s)
  case (Cons path paths)
  from Cons.prems selectOwners_Inr_iff [of nodes "path # paths" s]
  have "local_path nodes path" by simp
  then obtain n i where o: "sole_owner nodes path n i" by (auto simp: local_path_def)
  then have r: "selectOwners (dag_inputs nodes) paths (set_add (nd_id n) s) = Inr t"
    using Cons.prems by (auto simp: sole_owner_def split: if_splits)
  have "{nd_id n |n i p. p \<in> set (path # paths) \<and> sole_owner nodes p n i}
      = insert (nd_id n) {nd_id n |n i p. p \<in> set paths \<and> sole_owner nodes p n i}"
    using o sole_owner_in sole_owner_unique [OF o] by auto blast+
  with Cons.IH [OF r] show ?case by simp
qed simp

subsection \<open>When a plan may select less than the full suite\<close>

definition no_drift :: "plan_args \<Rightarrow> bool" where
  "no_drift a \<longleftrightarrow> list_all (\<lambda>(n, i). getf (observedInputDigests a) (in_path i) = JStr (in_sha256 i))
     (dag_inputs (dag_nodes (ar_graph a)))"

definition changed :: "plan_args \<Rightarrow> string set" where
  "changed a = str_of ` set (ar_changedPaths a)"

definition impact_allowed :: "plan_args \<Rightarrow> bool" where
  "impact_allowed a \<longleftrightarrow> list_all isSafeRepositoryPathV2 (ar_changedPaths a)
     \<and> validateVerificationDagV2 (ar_graph a) \<and> isCommit (ar_baseSha a) \<and> isCommit (ar_headSha a)
     \<and> isSafeRepositoryPathV2 (ar_graphPath a) \<and> str_of (ar_graphPath a) \<notin> changed a
     \<and> no_drift a \<and> (\<forall>path \<in> changed a. local_path (dag_nodes (ar_graph a)) path)"

lemma buildPlan_cases:
  assumes "buildVerificationImpactPlanV2 H le a = Inr p"
  obtains (fallback) r where "\<not> impact_allowed a" "fallbackPlan H le a [r] = Inr p"
  | (impacted) owners where "impact_allowed a"
      "selectOwners (dag_inputs (dag_nodes (ar_graph a))) (sortedUniqueBy le (map str_of (ar_changedPaths a))) [] = Inr owners"
      "pl_mode p = IMPACTED_SHADOW" "pl_reasons p = []"
      "selectedNodes p = sortedUniqueBy le (map nd_id
         (filter (\<lambda>n. nd_id n \<in> set (expandSelected (dag_nodes (ar_graph a)) owners)) (dag_nodes (ar_graph a))))"
      "selectedTests p = sortedUniqueBy le (concat (map ownedTests
         (filter (\<lambda>n. nd_id n \<in> set (expandSelected (dag_nodes (ar_graph a)) owners)) (dag_nodes (ar_graph a)))))"
proof -
  let ?nodes = "dag_nodes (ar_graph a)"
  let ?paths = "sortedUniqueBy le (map str_of (ar_changedPaths a))"
  have paths: "set ?paths = changed a" by (simp add: sorted_listing.set_list_of changed_def)
  note b = assms [unfolded buildVerificationImpactPlanV2_def Let_def]
  show thesis
  proof (cases "list_ex (\<lambda>path. \<not> isSafeRepositoryPathV2 path) (ar_changedPaths a)")
    case True
    have na: "\<not> impact_allowed a" using True by (auto simp: impact_allowed_def list_ex_iff list_all_iff)
    show thesis by (rule fallback [OF na]) (use b True in simp)
  next
    case False
    note b = b [unfolded if_not_P [OF False]]
    show thesis
    proof (cases "\<not> validateVerificationDagV2 (ar_graph a) \<or> \<not> isCommit (ar_baseSha a)
        \<or> \<not> isCommit (ar_headSha a) \<or> \<not> isSafeRepositoryPathV2 (ar_graphPath a)")
      case True
      have na: "\<not> impact_allowed a" using True by (auto simp: impact_allowed_def)
      show thesis by (rule fallback [OF na b [unfolded if_P [OF True]]])
    next
      case valid: False
      note b = b [unfolded if_not_P [OF valid]]
      show thesis
      proof (cases "str_of (ar_graphPath a) \<in> set ?paths")
        case True
        have na: "\<not> impact_allowed a" using True paths by (auto simp: impact_allowed_def)
        show thesis by (rule fallback [OF na b [unfolded if_P [OF True]]])
      next
        case graph: False
        note b = b [unfolded if_not_P [OF graph]]
        show thesis
        proof (cases "list_ex (\<lambda>(n, i). getf (observedInputDigests a) (in_path i) \<noteq> JStr (in_sha256 i)) (dag_inputs ?nodes)")
          case True
          have na: "\<not> impact_allowed a" using True
            by (auto simp: impact_allowed_def no_drift_def list_ex_iff list_all_iff)
          show thesis by (rule fallback [OF na b [unfolded if_P [OF True]]])
        next
          case drift: False
          note b = b [unfolded if_not_P [OF drift]]
          show thesis
          proof (cases "selectOwners (dag_inputs ?nodes) ?paths []")
            case (Inl r)
            have "\<not> list_all (local_path ?nodes) ?paths"
              using selectOwners_Inr_iff [of ?nodes ?paths "[]"] Inl by simp
            then have na: "\<not> impact_allowed a" using paths by (auto simp: impact_allowed_def list_all_iff)
            show thesis by (rule fallback [OF na]) (use b Inl in simp)
          next
            case (Inr owners)
            have "list_all (local_path ?nodes) ?paths"
              using selectOwners_Inr_iff [of ?nodes ?paths "[]"] Inr by blast
            then have ok: "impact_allowed a"
              using False valid graph drift paths
              by (auto simp: impact_allowed_def no_drift_def list_ex_iff list_all_iff)
            show thesis
              by (rule impacted [OF ok Inr]) (use b Inr in \<open>auto simp: res_bind_Inr_iff\<close>)
          qed
        qed
      qed
    qed
  qed
qed

lemma impacted_iff:
  assumes "buildVerificationImpactPlanV2 H le a = Inr p"
  shows "pl_mode p = IMPACTED_SHADOW \<longleftrightarrow> impact_allowed a"
  using assms by (cases rule: buildPlan_cases) (auto dest: fallbackPlan_Inr(1))

text \<open>The nodes a change reaches: the owners of its paths and whatever depends on them.\<close>

definition reached :: "plan_args \<Rightarrow> string set" where
  "reached a = {x. \<exists>n i path. path \<in> changed a \<and> n \<in> set (dag_nodes (ar_graph a)) \<and> i \<in> set (nd_inputs n)
     \<and> in_path i = path \<and> (x, nd_id n) \<in> (dep_rel (dag_nodes (ar_graph a)))\<^sup>*}"

lemma reached_in_nodes: "reached a \<subseteq> node_ids (dag_nodes (ar_graph a))"
proof
  fix x assume "x \<in> reached a"
  then obtain n where n: "n \<in> set (dag_nodes (ar_graph a))"
    and r: "(x, nd_id n) \<in> (dep_rel (dag_nodes (ar_graph a)))\<^sup>*"
    by (auto simp: reached_def)
  show "x \<in> node_ids (dag_nodes (ar_graph a))"
    using r by (cases rule: converse_rtranclE) (use n in \<open>auto simp: dep_rel_def node_ids_def\<close>)
qed

lemma expand_reached:
  assumes "impact_allowed a"
    and "selectOwners (dag_inputs (dag_nodes (ar_graph a))) (sortedUniqueBy le (map str_of (ar_changedPaths a))) [] = Inr owners"
  shows "set (expandSelected (dag_nodes (ar_graph a)) owners) = reached a"
proof -
  let ?nodes = "dag_nodes (ar_graph a)"
  have o: "set owners = {nd_id n |n i path. path \<in> changed a \<and> sole_owner ?nodes path n i}"
    using selectOwners_set [OF assms(2)] by (simp add: sorted_listing.set_list_of changed_def)
  have "sole_owner ?nodes path n i \<longleftrightarrow> n \<in> set ?nodes \<and> i \<in> set (nd_inputs n) \<and> in_path i = path"
    if path: "path \<in> changed a" for path n i
  proof -
    obtain m j where m: "sole_owner ?nodes path m j"
      using assms(1) path by (auto simp: impact_allowed_def local_path_def)
    show ?thesis using sole_owner_in sole_owner_unique [OF m, of n i] m by blast
  qed
  with o have "set owners = {nd_id n |n i path. path \<in> changed a \<and> n \<in> set ?nodes \<and> i \<in> set (nd_inputs n) \<and> in_path i = path}"
    by blast
  note owners = this
  show ?thesis unfolding set_eq_iff expandSelected_iff reached_def mem_Collect_eq owners by blast
qed

lemma impacted_selection:
  assumes "buildVerificationImpactPlanV2 H le a = Inr p" "impact_allowed a"
  shows "set (selectedNodes p) = reached a"
    "set (selectedTests p) = (\<Union>n \<in> {n \<in> set (dag_nodes (ar_graph a)). nd_id n \<in> reached a}. set (ownedTests n))"
proof -
  from assms(1) show "set (selectedNodes p) = reached a"
  proof (cases rule: buildPlan_cases)
    case (impacted owners)
    show ?thesis unfolding impacted(5) sorted_listing.set_list_of expand_reached [OF assms(2) impacted(2)]
      using reached_in_nodes [of a] by (auto simp: node_ids_def)
  qed (use assms(2) in simp)
  from assms(1) show "set (selectedTests p) = (\<Union>n \<in> {n \<in> set (dag_nodes (ar_graph a)). nd_id n \<in> reached a}. set (ownedTests n))"
  proof (cases rule: buildPlan_cases)
    case (impacted owners)
    show ?thesis unfolding impacted(6) sorted_listing.set_list_of expand_reached [OF assms(2) impacted(2)]
      by auto
  qed (use assms(2) in simp)
qed

lemma tests_of_reached:
  assumes "buildVerificationImpactPlanV2 H le a = Inr p" "validateVerificationDagV2 (ar_graph a)"
    and "n \<in> set (dag_nodes (ar_graph a))" "nd_id n \<in> reached a"
  shows "set (ownedTests n) \<subseteq> set (selectedTests p)"
proof (cases "impact_allowed a")
  case True
  from impacted_selection(2) [OF assms(1) True] assms(3,4) show ?thesis by blast
next
  case False
  from assms(1) show ?thesis
  proof (cases rule: buildPlan_cases)
    case (fallback r)
    from fallbackPlan_covers(2) [OF fallback(2) assms(2)] assms(3) show ?thesis by blast
  qed (use False in simp)
qed

subsection \<open>The encoding of a node\<close>

lemma risk_class_text_inj [simp]: "risk_class_text r = risk_class_text r' \<longleftrightarrow> r = r'"
  by (cases r; cases r') simp_all

lemma input_role_text_inj [simp]: "input_role_text r = input_role_text r' \<longleftrightarrow> r = r'"
  by (cases r; cases r') simp_all

lemma dag_input_js_inj: "js_norm (dag_input_js i) = js_norm (dag_input_js j) \<Longrightarrow> i = j"
  unfolding dag_input_js_def by (drule js_norm_obj_vals) (simp_all add: dag_input.equality)

lemma dag_inputs_js_inj:
  "map (\<lambda>i. js_norm (dag_input_js i)) xs = map (\<lambda>i. js_norm (dag_input_js i)) ys \<Longrightarrow> xs = ys"
  by (rule map_injective) (auto intro: injI dag_input_js_inj)

lemma getf_dag_node:
  "getf (fields_of (dag_node_js n)) ''id'' = JStr (nd_id n)"
  "getf (fields_of (dag_node_js n)) ''dependsOn'' = strs_js (dependsOn n)"
  "getf (fields_of (dag_node_js n)) ''inputs'' = arr (map dag_input_js (nd_inputs n))"
  "getf (fields_of (dag_node_js n)) ''ownedTests'' = strs_js (ownedTests n)"
  "getf (fields_of (dag_node_js n)) ''invariants'' = strs_js (nd_invariants n)"
  "getf (fields_of (dag_node_js n)) ''riskClass'' = JStr (risk_class_text (riskClass n))"
  "getf (fields_of (dag_node_js n)) ''globalInvalidation'' = JBool (globalInvalidation n)"
  "getf (fields_of (dag_node_js n)) ''evidenceTtlMs'' = (case evidenceTtlMs n of None \<Rightarrow> JUndef | Some t \<Rightarrow> jint t)"
  "getf (fields_of (dag_node_js n)) ''ttlJustification'' = (case ttlJustification n of None \<Rightarrow> JUndef | Some j \<Rightarrow> JStr j)"
  by (simp_all add: dag_node_js_def split: option.splits)

lemma dag_node_js_wf [simp]: "plain (dag_node_js n)" "js_wf (dag_node_js n)"
  by (cases "evidenceTtlMs n"; cases "ttlJustification n";
      simp add: dag_node_js_def dag_input_js_def list_all_iff)+

lemma dag_node_js_inj:
  assumes "js_norm (dag_node_js n) = js_norm (dag_node_js m)"
  shows "n = m"
proof -
  have d: "distinct (map fst (fields_of (dag_node_js n)))" for n
    by (simp add: dag_node_js_def split: option.splits)
  have o: "dag_node_js n = obj (fields_of (dag_node_js n))" for n by (simp add: dag_node_js_def)
  have "js_norm (obj (fields_of (dag_node_js n))) = js_norm (obj (fields_of (dag_node_js m)))"
    using assms by (simp only: o [symmetric])
  then have f: "js_norm (getf (fields_of (dag_node_js n)) k) = js_norm (getf (fields_of (dag_node_js m)) k)" for k
    by (rule js_norm_obj_getf [OF _ d d])
  have "nd_inputs n = nd_inputs m" using f [of "''inputs''", unfolded getf_dag_node]
    by (intro dag_inputs_js_inj) (simp add: comp_def)
  moreover have "evidenceTtlMs n = evidenceTtlMs m" using f [of "''evidenceTtlMs''", unfolded getf_dag_node]
    by (simp split: option.splits)
  moreover have "ttlJustification n = ttlJustification m" using f [of "''ttlJustification''", unfolded getf_dag_node]
    by (simp split: option.splits)
  moreover have "nd_id n = nd_id m" "dependsOn n = dependsOn m" "ownedTests n = ownedTests m"
    "nd_invariants n = nd_invariants m" "riskClass n = riskClass m" "globalInvalidation n = globalInvalidation m"
    using f [of "''id''", unfolded getf_dag_node] f [of "''dependsOn''", unfolded getf_dag_node]
      f [of "''ownedTests''", unfolded getf_dag_node] f [of "''invariants''", unfolded getf_dag_node]
      f [of "''riskClass''", unfolded getf_dag_node] f [of "''globalInvalidation''", unfolded getf_dag_node]
    by simp_all
  ultimately show ?thesis by (intro dag_node.equality) simp_all
qed

interpretation node_codec: codec dag_node_js "\<lambda>n :: dag_node. n"
  by unfold_locales (simp_all add: dag_node_js_inj)

subsection \<open>Attestations\<close>

lemma valid_attestation:
  assumes "validAttestation v"
  shows "is_record v" "is_array (getf (fields_of v) ''testResults'')" "list_all validTestResult (elems_of (getf (fields_of v) ''testResults''))"
    "set (map fst (fields_of v)) \<subseteq> insert ''expiresAtMs'' (set ATTESTATION_KEYS)"
    "\<forall>k \<in> insert ''expiresAtMs'' (set ATTESTATION_KEYS). hasOwn v k \<longrightarrow> k \<noteq> ''testResults'' \<longrightarrow>
      is_string (getf (fields_of v) k) \<or> is_safe_integer (getf (fields_of v) k)"
proof -
  note w = assms [unfolded validAttestation_def Let_def if_False_iff, unfolded de_Morgan_disj not_not]
  have keys: "exactKeysOpt v ATTESTATION_KEYS [''expiresAtMs'']" using w by (elim conjE)
  then show "is_record v" by (rule exactKeysOpt_record)
  show "is_array (getf (fields_of v) ''testResults'')" using w by (elim conjE)
  show "set (map fst (fields_of v)) \<subseteq> insert ''expiresAtMs'' (set ATTESTATION_KEYS)"
    using keys by (auto simp: exactKeysOpt_def list_all_iff)
  show "list_all validTestResult (elems_of (getf (fields_of v) ''testResults''))" using w by (elim conjE)
  show "\<forall>k \<in> insert ''expiresAtMs'' (set ATTESTATION_KEYS). hasOwn v k \<longrightarrow> k \<noteq> ''testResults'' \<longrightarrow>
      is_string (getf (fields_of v) k) \<or> is_safe_integer (getf (fields_of v) k)"
    using w unfolding ATTESTATION_KEYS_def set_simps ball_simps
    by (elim conjE) (auto simp: isDigest_def isIdentifier_def is_string_iff str_test_iff)
qed

lemma attestation_plain:
  assumes "validAttestation v" "js_wf v"
  shows "plain v"
proof -
  note v = valid_attestation [OF assms(1)]
  obtain i kvs where o: "v = JObj i kvs" using v(1) by (auto simp: is_record_iff)
  have d: "distinct (map fst kvs)" using assms(2) o by simp
  have "plain w" if kw: "(k, w) \<in> set kvs" for k w
  proof (cases "k = ''testResults''")
    case True
    have w: "getf kvs ''testResults'' = w" using getf_own [OF d kw] True by simp
    have "js_wf w" using assms(2) o kw by (auto simp: list_all_iff)
    moreover have "is_array w" using v(2) w o by simp
    ultimately obtain j rs where rs: "w = JArr j rs" "list_all js_wf rs" "list_all validTestResult rs"
      using v(3) o w by (auto simp: is_array_iff)
    have "plain r" if r: "r \<in> set rs" for r
    proof -
      have vr: "validTestResult r" "js_wf r" using rs r by (auto simp: list_all_iff)
      obtain l fs where f: "r = JObj l fs" using vr(1) by (auto simp: validTestResult_def exactKeysOpt_def is_record_iff)
      have "plain x" if "(k, x) \<in> set fs" for k x
      proof -
        have "getf fs k = x" using getf_own [of fs k x] vr(2) f that by simp
        moreover have "k = ''test'' \<or> k = ''outcome''"
          using vr(1) f that by (auto simp: validTestResult_def exactKeysOpt_def list_all_iff)
        ultimately show ?thesis using vr(1) f by (auto simp: validTestResult_def isNonEmptyString_def str_test_iff)
      qed
      then show ?thesis using f by (auto simp: list_all_iff)
    qed
    then show ?thesis using rs(1) by (simp add: list_all_iff)
  next
    case False
    have w: "getf kvs k = w" by (rule getf_own [OF d kw])
    have h: "hasOwn v k" using kw o by (force simp: hasOwn_def)
    then have "k \<in> insert ''expiresAtMs'' (set ATTESTATION_KEYS)" using v(4) unfolding hasOwn_def by (rule subsetD [rotated])
    from v(5) [THEN bspec, OF this] h False w o have "is_string w \<or> is_safe_integer w" by simp
    then show ?thesis by (auto simp: is_string_iff elim: is_safe_integerE)
  qed
  then show ?thesis using o by (auto simp: list_all_iff)
qed

lemma plain_without: "plain (JObj i kvs) \<Longrightarrow> plain (JObj j (without k kvs))"
  by (auto simp: without_def list_all_iff)

text \<open>On a value of JavaScript the check answers, it never throws.\<close>

lemma attestation_answers:
  assumes "js_wf attestation"
  shows "\<exists>out. verifyPrototypeAttestationV2 H le attestation node g t e now = Inr out"
proof (cases "validAttestation attestation")
  case True
  obtain i kvs where o: "attestation = JObj i kvs" using valid_attestation(1) [OF True] by (auto simp: is_record_iff)
  then have "plain (obj (without ''attestationDigest'' (fields_of attestation)))"
    using plain_without [of i kvs] attestation_plain [OF True assms] by simp
  then show ?thesis
    unfolding verifyPrototypeAttestationV2_def Let_def by (simp add: digest_js_plain res_simps)
next
  case False
  then show ?thesis by (simp add: verifyPrototypeAttestationV2_def)
qed

lemma denied_peel:
  "(if c then Inr (ATTESTATION_DENIED rs) else x) = Inr REUSABLE_PROTOTYPE \<longleftrightarrow> \<not> c \<and> x = Inr REUSABLE_PROTOTYPE"
  by simp

lemma reusable_facts:
  assumes "verifyPrototypeAttestationV2 H le att node g t e now = Inr REUSABLE_PROTOTYPE"
  shows "validAttestation att"
    "getf (fields_of att) ''attestationDigest'' = JStr (digest_of H (obj (without ''attestationDigest'' (fields_of att))))"
    "getf (fields_of att) ''nodeId'' = JStr (nd_id node)"
    "getf (fields_of att) ''nodeDigest'' = JStr (verificationNodeDigestV2 H node)"
    "getf (fields_of att) ''graphDigest'' = JStr g" "getf (fields_of att) ''toolchainDigest'' = JStr t"
    "getf (fields_of att) ''environmentDigest'' = JStr e"
    "expiresAtMs att = map_option (\<lambda>ttl. int_of_js (getf (fields_of att) ''createdAtMs'') + ttl) (evidenceTtlMs node)"
    "\<forall>x. expiresAtMs att = Some x \<longrightarrow> now \<le> x"
    "set (attested_tests att) = set (ownedTests node)"
proof -
  note r = assms [unfolded verifyPrototypeAttestationV2_def Let_def, unfolded denied_peel]
  then obtain d where d: "digest_js H (obj (without ''attestationDigest'' (fields_of att))) = Inr d"
    and c: "getf (fields_of att) ''attestationDigest'' = JStr d"
      "\<not> (case expiresAtMs att of None \<Rightarrow> False | Some e \<Rightarrow> now > e)"
      "getf (fields_of att) ''nodeId'' = JStr (nd_id node)"
      "getf (fields_of att) ''nodeDigest'' = JStr (verificationNodeDigestV2 H node)"
      "getf (fields_of att) ''graphDigest'' = JStr g" "getf (fields_of att) ''toolchainDigest'' = JStr t"
      "getf (fields_of att) ''environmentDigest'' = JStr e"
      "expiresAtMs att = map_option (\<lambda>ttl. int_of_js (getf (fields_of att) ''createdAtMs'') + ttl) (evidenceTtlMs node)"
      "canonText (strs_js (sortedUniqueBy le (attested_tests att))) = canonText (strs_js (sortedUniqueBy le (ownedTests node)))"
    unfolding res_bind_Inr_iff denied_peel de_Morgan_disj not_not by (elim conjE exE)
  show "validAttestation att" using r by simp
  show "getf (fields_of att) ''attestationDigest'' = JStr (digest_of H (obj (without ''attestationDigest'' (fields_of att))))"
    using c(1) d by (simp add: digest_js_Inr_iff)
  show "\<forall>x. expiresAtMs att = Some x \<longrightarrow> now \<le> x" using c(2) by (auto split: option.splits)
  have "js_norm (strs_js (sortedUniqueBy le (attested_tests att))) = js_norm (strs_js (sortedUniqueBy le (ownedTests node)))"
    using c(9) by (intro canonText_norm) simp_all
  then have "sortedUniqueBy le (attested_tests att) = sortedUniqueBy le (ownedTests node)" by simp
  then show "set (attested_tests att) = set (ownedTests node)" by (rule sorted_listing.same_members)
  show "getf (fields_of att) ''nodeId'' = JStr (nd_id node)"
    "getf (fields_of att) ''nodeDigest'' = JStr (verificationNodeDigestV2 H node)"
    "getf (fields_of att) ''graphDigest'' = JStr g" "getf (fields_of att) ''toolchainDigest'' = JStr t"
    "getf (fields_of att) ''environmentDigest'' = JStr e"
    "expiresAtMs att = map_option (\<lambda>ttl. int_of_js (getf (fields_of att) ''createdAtMs'') + ttl) (evidenceTtlMs node)"
    by (fact c(3) c(4) c(5) c(6) c(7) c(8))+
qed

end
