(* ===== verification/FabricLaws.thy ===== *)
theory FabricLaws
  imports FabricPlans
begin

text \<open>
  Nodes and graphs the admission accepts, and the small graph with which the properties of the verification
  fabric are instantiated: an application that depends on a library, and documents apart from both. Then
  the properties themselves.
\<close>

subsection \<open>Nodes that are admitted\<close>

lemma node_identifier_iff:
  "rx_test NODE_IDENTIFIER (c # s) \<longleftrightarrow> in_class [a_z] c \<and> 1 \<le> length s \<and> length s \<le> 63
     \<and> list_all (in_class ([a_z, d0_9] @ chars ''-'')) s"
  unfolding NODE_IDENTIFIER_def rx_test_class_Seq rx_test_class_rep by simp

definition name_ok :: "string \<Rightarrow> bool" where
  "name_ok s \<longleftrightarrow> 0 < length s \<and> length s \<le> 512"

lemma isNonEmptyString_JStr [simp]: "isNonEmptyString (JStr s) \<longleftrightarrow> name_ok s"
  by (simp add: isNonEmptyString_def name_ok_def)

definition node_ok :: "dag_node \<Rightarrow> bool" where
  "node_ok n \<longleftrightarrow> rx_test NODE_IDENTIFIER (nd_id n)
     \<and> list_all (rx_test NODE_IDENTIFIER) (dependsOn n) \<and> distinct (dependsOn n)
     \<and> nd_inputs n \<noteq> [] \<and> list_all (\<lambda>i. safe_path (in_path i) \<and> hex64 (in_sha256 i)) (nd_inputs n)
     \<and> distinct (map in_path (nd_inputs n))
     \<and> ownedTests n \<noteq> [] \<and> list_all name_ok (ownedTests n) \<and> distinct (ownedTests n)
     \<and> nd_invariants n \<noteq> [] \<and> list_all name_ok (nd_invariants n) \<and> distinct (nd_invariants n)
     \<and> (case evidenceTtlMs n of None \<Rightarrow> ttlJustification n = None
        | Some t \<Rightarrow> 0 < t \<and> t \<le> max_safe \<and> (\<exists>j. ttlJustification n = Some j \<and> name_ok j))"

lemma member_role [simp]: "memberOf input_role_text INPUT_ROLES (JStr (input_role_text r)) = Some r"
  by (cases r) (simp_all add: memberOf_def INPUT_ROLES_def)

lemma member_risk [simp]: "memberOf risk_class_text RISK_CLASSES (JStr (risk_class_text r)) = Some r"
  by (cases r) (simp_all add: memberOf_def RISK_CLASSES_def)

lemma dag_input_valid:
  "safe_path (in_path i) \<Longrightarrow> hex64 (in_sha256 i) \<Longrightarrow> validInput (dag_input_js i)"
  "readInput (dag_input_js i) = i"
  by (simp_all add: validInput_def readInput_def dag_input_js_def exactKeysOpt_def isSafeRepositoryPathV2_def isDigest_def)

lemma uniqueStrings_strs:
  "uniqueStrings (strs_js xs) P \<longleftrightarrow> list_all (\<lambda>s. P (JStr s)) xs \<and> distinct xs"
  by (auto simp: uniqueStrings_def uniq_map_JStr list.pred_map comp_def)

lemma hasOwn_dag_node:
  "hasOwn (dag_node_js n) ''evidenceTtlMs'' \<longleftrightarrow> evidenceTtlMs n \<noteq> None"
  "hasOwn (dag_node_js n) ''ttlJustification'' \<longleftrightarrow> ttlJustification n \<noteq> None"
  by (cases "evidenceTtlMs n"; cases "ttlJustification n"; simp add: hasOwn_def dag_node_js_def)+

lemma dag_node_valid:
  assumes "node_ok n"
  shows "validNodeShape (dag_node_js n)"
proof -
  note ok = assms [unfolded node_ok_def]
  have keys: "exactKeysOpt (dag_node_js n) NODE_KEYS [''evidenceTtlMs'', ''ttlJustification'']"
    by (simp add: exactKeysOpt_def dag_node_js_def NODE_KEYS_def split: option.splits)
  have inputs: "list_all validInput (map dag_input_js (nd_inputs n))"
    using ok by (auto simp: list_all_iff intro: dag_input_valid)
  have paths: "map (\<lambda>i. getf (fields_of i) ''path'') (map dag_input_js (nd_inputs n)) = map JStr (map in_path (nd_inputs n))"
    by (simp add: dag_input_js_def)
  have unique: "length (uniq (map (\<lambda>i. getf (fields_of i) ''path'') (map dag_input_js (nd_inputs n)))) = length (nd_inputs n)"
    unfolding paths using ok uniq_map_JStr [of "map in_path (nd_inputs n)"] by simp
  have ttl: "validTtl (dag_node_js n)"
    unfolding validTtl_def hasOwn_dag_node getf_dag_node
    using ok by (auto simp: max_safe_def split: option.splits)
  show ?thesis
    unfolding validNodeShape_def Let_def getf_dag_node elems_of.simps
    using keys inputs unique ttl ok
    by (simp add: uniqueStrings_strs isIdentifier_def list.pred_map comp_def)
qed

lemma dag_node_read: "readNode (dag_node_js n) = n"
proof -
  show ?thesis
    unfolding readNode_def Let_def getf_dag_node hasOwn_dag_node
    by (intro dag_node.equality) (simp_all add: comp_def dag_input_valid(2) split: option.splits)
qed

subsection \<open>A sample graph\<close>

definition fabric_hash :: hash where
  "fabric_hash t = replicate 64 (CHR ''0'')"

definition sample_node :: "string \<Rightarrow> string list \<Rightarrow> dag_node" where
  "sample_node i deps = \<lparr>nd_id = i, dependsOn = deps,
     nd_inputs = [\<lparr>in_path = ''src/'' @ i, in_role = SOURCE, in_sha256 = replicate 64 (CHR ''a'')\<rparr>],
     ownedTests = [''tests/'' @ i], nd_invariants = [''holds''], riskClass = LOW, globalInvalidation = False,
     evidenceTtlMs = None, ttlJustification = None\<rparr>"

definition sample_nodes :: "dag_node list" where
  "sample_nodes = [sample_node ''app'' [''lib''], sample_node ''lib'' [], sample_node ''docs'' []]"

definition dag_js :: "dag_node list \<Rightarrow> js" where
  "dag_js nodes = obj [(''schemaVersion'', JStr VERIFICATION_DAG_SCHEMA_V2), (''graphId'', JStr ''dag''),
     (''graphVersion'', jint 1),
     (''environment'', obj [(''node'', JStr ''22''), (''os'', JStr ''linux''), (''architecture'', JStr ''x64''),
        (''packageManager'', JStr ''npm'')]),
     (''hardGates'', strs_js [''npm run lint'']), (''nodes'', arr (map dag_node_js nodes))]"

definition sample_args :: plan_args where
  "sample_args = \<lparr>ar_graph = dag_js sample_nodes, ar_graphPath = JStr ''dag.json'',
     ar_baseSha = JStr (replicate 40 (CHR ''a'')), ar_headSha = JStr (replicate 40 (CHR ''b'')),
     ar_changedPaths = [JStr ''src/lib''],
     observedInputDigests = map (\<lambda>i. (''src/'' @ i, JStr (replicate 64 (CHR ''a'')))) [''app'', ''lib'', ''docs'']\<rparr>"

lemma dag_js_fields:
  "getf (fields_of (dag_js nodes)) ''nodes'' = arr (map dag_node_js nodes)"
  "getf (fields_of (dag_js nodes)) ''hardGates'' = strs_js [''npm run lint'']"
  "getf (fields_of (dag_js nodes)) ''schemaVersion'' = JStr VERIFICATION_DAG_SCHEMA_V2"
  "getf (fields_of (dag_js nodes)) ''graphId'' = JStr ''dag''"
  "getf (fields_of (dag_js nodes)) ''graphVersion'' = jint 1"
  "getf (fields_of (dag_js nodes)) ''environment'' = obj [(''node'', JStr ''22''), (''os'', JStr ''linux''),
     (''architecture'', JStr ''x64''), (''packageManager'', JStr ''npm'')]"
  by (simp_all add: dag_js_def)

lemma dag_nodes_dag_js [simp]: "dag_nodes (dag_js nodes) = nodes"
  by (simp add: dag_nodes_def dag_js_fields comp_def dag_node_read)

lemma dag_js_valid:
  assumes "list_all node_ok nodes" "nodes \<noteq> []" "dag_ok nodes"
  shows "validateVerificationDagV2 (dag_js nodes)"
proof -
  have "list_all validNodeShape (map dag_node_js nodes)"
    using assms(1) by (auto simp: list_all_iff dag_node_valid)
  moreover have "exactKeysOpt (dag_js nodes) [''schemaVersion'', ''graphId'', ''graphVersion'', ''environment'',
             ''hardGates'', ''nodes''] []"
    by (simp add: exactKeysOpt_def dag_js_def)
  moreover have "isIdentifier (JStr ''dag'')"
    by (simp add: isIdentifier_def node_identifier_iff in_class_def a_z_def del: rx_test.simps)
  ultimately show ?thesis
    unfolding validateVerificationDagV2_def Let_def dag_js_fields
    using assms(2,3)
    by (simp add: exactKeysOpt_def uniqueStrings_strs name_ok_def cycleOrUnknown_iff max_safe_def)
qed

lemma sample_nodes_ok: "list_all node_ok sample_nodes" "dag_ok sample_nodes"
proof -
  have id: "rx_test NODE_IDENTIFIER ''app''" "rx_test NODE_IDENTIFIER ''lib''" "rx_test NODE_IDENTIFIER ''docs''"
    by (simp_all add: node_identifier_iff in_class_def a_z_def del: rx_test.simps)
  have path: "safe_path ''src/app''" "safe_path ''src/lib''" "safe_path ''src/docs''"
    by code_simp+
  have hex: "hex64 (replicate 64 (CHR ''a''))"
    by (simp add: hex64_iff list_all_iff in_class_def d0_9_def)
  show "list_all node_ok sample_nodes"
    using id path hex
    by (simp add: sample_nodes_def sample_node_def node_ok_def name_ok_def del: rx_test.simps replicate.simps replicate_Suc)
  have "dagSearch sample_nodes = Some False" by code_simp
  then show "dag_ok sample_nodes" by (simp add: dagSearch_iff)
qed

lemma sample_graph: "validateVerificationDagV2 (ar_graph sample_args)" "plain (ar_graph sample_args)"
proof -
  show "validateVerificationDagV2 (ar_graph sample_args)"
    using sample_nodes_ok dag_js_valid [of sample_nodes] by (simp add: sample_args_def sample_nodes_def)
  show "plain (ar_graph sample_args)" by (simp add: sample_args_def dag_js_def list_all_iff)
qed

lemma sample_plan: "\<exists>p. buildVerificationImpactPlanV2 fabric_hash (\<le>) sample_args = Inr p"
  using sample_graph(2)
  by (auto simp: buildVerificationImpactPlanV2_def Let_def fallbackPlan_def digest_js_plain res_simps split: sum.splits)

definition sample_attestation :: js where
  "sample_attestation = obj [(''schemaVersion'', JStr VERIFICATION_ATTESTATION_SCHEMA_V2), (''nodeId'', JStr ''lib''),
     (''nodeDigest'', JStr (fabric_hash [])), (''graphDigest'', JStr (fabric_hash [])),
     (''toolchainDigest'', JStr (fabric_hash [])), (''environmentDigest'', JStr (fabric_hash [])),
     (''createdAtMs'', jint 1000), (''expiresAtMs'', jint 6000),
     (''testResults'', arr [obj [(''test'', JStr ''tests/lib''), (''outcome'', JStr ''PASS'')]]),
     (''attestationDigest'', JStr (fabric_hash []))]"

definition timed_node :: dag_node where
  "timed_node = (sample_node ''lib'' [])\<lparr>evidenceTtlMs := Some 5000, ttlJustification := Some ''volatile input''\<rparr>"

lemma sample_attestation_valid: "validAttestation sample_attestation"
proof -
  have "hex64 (replicate 64 (CHR ''0''))" by (simp add: hex64_iff list_all_iff in_class_def d0_9_def)
  moreover have "rx_test NODE_IDENTIFIER ''lib''"
    by (simp add: node_identifier_iff in_class_def a_z_def del: rx_test.simps)
  ultimately show ?thesis
    by (simp add: validAttestation_def Let_def sample_attestation_def exactKeysOpt_def ATTESTATION_KEYS_def
        isIdentifier_def isDigest_def fabric_hash_def hasOwn_def max_safe_def validTestResult_def name_ok_def
        del: rx_test.simps replicate.simps replicate_Suc)
qed

lemma sample_attestation_plain: "plain (obj (without ''attestationDigest'' (fields_of sample_attestation)))"
  by (simp add: sample_attestation_def without_def)

subsection \<open>Properties\<close>

text \<open>
  C8: The depth-first search of \<open>cycleOrUnknown\<close> always returns within a recursion depth of one more than the
  number of nodes, and it lets a list of nodes pass exactly when their identifiers are distinct, every
  dependency is one of them, and the dependency relation has no cycle.
\<close>

theorem dag_search_decides:
  "dagSearch nodes = Some (\<not> (distinct (map nd_id nodes) \<and> Range (dep_rel nodes) \<subseteq> nd_id ` set nodes
     \<and> acyclic (dep_rel nodes)))"
proof -
  obtain b where b: "dagSearch nodes = Some b" using dagSearch_returns [of nodes] by blast
  then have "b \<longleftrightarrow> \<not> dag_ok nodes" using dagSearch_iff [of nodes] by (cases b) simp_all
  with b show ?thesis unfolding dag_ok_def node_ids_def by simp
qed

text \<open>
  C12: For an admitted graph, a plan selects less than everything exactly when all changed paths are
  safe, the graph file itself is not changed, no recorded input digest has drifted, both commits are
  well formed, and every changed path has one owner that is neither global nor central. It then
  selects exactly the owners of the changed paths and all that depend on them, directly or through others; otherwise
  it selects every node. In both cases the tests are those of the selected nodes, so that no test
  of a node the change can reach is missed.
\<close>

theorem impact_plan_exact:
  assumes "buildVerificationImpactPlanV2 H le a = Inr p" "validateVerificationDagV2 (ar_graph a)"
  shows "(pl_mode p = IMPACTED_SHADOW \<longleftrightarrow> impact_allowed a)
    \<and> set (selectedNodes p) = (if impact_allowed a then reached a else nd_id ` set (dag_nodes (ar_graph a)))
    \<and> set (selectedTests p) = (\<Union>n \<in> {n \<in> set (dag_nodes (ar_graph a)). nd_id n \<in> set (selectedNodes p)}. set (ownedTests n))
    \<and> reached a \<subseteq> set (selectedNodes p)"
proof (intro conjI)
  show "pl_mode p = IMPACTED_SHADOW \<longleftrightarrow> impact_allowed a" by (rule impacted_iff [OF assms(1)])
  have "set (selectedNodes p) = (if impact_allowed a then reached a else nd_id ` set (dag_nodes (ar_graph a)))
    \<and> set (selectedTests p) = (\<Union>n \<in> {n \<in> set (dag_nodes (ar_graph a)). nd_id n \<in> set (selectedNodes p)}. set (ownedTests n))"
  proof (cases "impact_allowed a")
    case True
    from impacted_selection [OF assms(1) True] True show ?thesis by simp
  next
    case False
    from assms(1) show ?thesis
    proof (cases rule: buildPlan_cases)
      case (fallback r)
      from fallbackPlan_covers [OF fallback(2) assms(2)] False show ?thesis by (auto simp: node_ids_def)
    qed (use False in simp)
  qed
  then show "set (selectedNodes p) = (if impact_allowed a then reached a else nd_id ` set (dag_nodes (ar_graph a)))"
    "set (selectedTests p) = (\<Union>n \<in> {n \<in> set (dag_nodes (ar_graph a)). nd_id n \<in> set (selectedNodes p)}. set (ownedTests n))"
    by simp_all
  then show "reached a \<subseteq> set (selectedNodes p)" using reached_in_nodes [of a] by (auto simp: node_ids_def)
qed

theorem impact_plan_exact_witness:
  "\<exists>p. buildVerificationImpactPlanV2 fabric_hash (\<le>) sample_args = Inr p \<and> reached sample_args \<subseteq> set (selectedNodes p)
     \<and> ''app'' \<in> set (selectedNodes p)"
proof -
  obtain p where p: "buildVerificationImpactPlanV2 fabric_hash (\<le>) sample_args = Inr p" using sample_plan by blast
  have "''app'' \<in> reached sample_args"
  proof -
    have "(''app'', ''lib'') \<in> (dep_rel sample_nodes)\<^sup>*"
    proof (rule r_into_rtrancl)
      have "(nd_id (sample_node ''app'' [''lib'']), ''lib'') \<in> dep_rel sample_nodes"
        by (rule dep_relI) (simp_all add: sample_nodes_def sample_node_def)
      then show "(''app'', ''lib'') \<in> dep_rel sample_nodes" by (simp add: sample_node_def)
    qed
    moreover have "sample_node ''lib'' [] \<in> set sample_nodes" "nd_id (sample_node ''lib'' []) = ''lib''"
      "nd_inputs (sample_node ''lib'' []) = [\<lparr>in_path = ''src/lib'', in_role = SOURCE, in_sha256 = replicate 64 (CHR ''a'')\<rparr>]"
      by (simp_all add: sample_nodes_def sample_node_def)
    ultimately show ?thesis
      unfolding reached_def changed_def
      by (simp add: sample_args_def) (metis list.set_intros(1) dag_input.select_convs(1))
  qed
  with p impact_plan_exact [OF p sample_graph(1)] show ?thesis by blast
qed

text \<open>
  The fail-closed wrapper: a plan of its classifier is passed through; when the classifier
  throws, the answer is the full fallback with the one reason \<open>CLASSIFIER_FAILURE\<close>, which for an
  admitted graph selects every node and every test, provided the graph has a canonical text. On a
  graph without one (an undefined value, a non-finite number) the wrapper itself throws.
\<close>

theorem classifier_failure_falls_back:
  assumes "classifier a = Inl thrown"
  shows "((\<exists>p. buildVerificationImpactPlanFailClosedV2 H le a classifier = Inr p) \<longleftrightarrow> plain (ar_graph a))
    \<and> (\<forall>p. buildVerificationImpactPlanFailClosedV2 H le a classifier = Inr p \<longrightarrow>
      pl_mode p = FULL_FALLBACK \<and> set (pl_reasons p) = {''CLASSIFIER_FAILURE''}
      \<and> (validateVerificationDagV2 (ar_graph a) \<longrightarrow>
           set (selectedNodes p) = nd_id ` set (dag_nodes (ar_graph a))
           \<and> set (selectedTests p) = (\<Union>n \<in> set (dag_nodes (ar_graph a)). set (ownedTests n))))"
proof (rule conjI [OF _ allI [OF impI]])
  have w: "buildVerificationImpactPlanFailClosedV2 H le a classifier = fallbackPlan H le a [CLASSIFIER_FAILURE]"
    by (simp add: buildVerificationImpactPlanFailClosedV2_def assms)
  show "(\<exists>p. buildVerificationImpactPlanFailClosedV2 H le a classifier = Inr p) \<longleftrightarrow> plain (ar_graph a)"
    unfolding w fallbackPlan_def Let_def by (auto simp: res_bind_Inr_iff digest_js_Inr_iff)
  fix p assume "buildVerificationImpactPlanFailClosedV2 H le a classifier = Inr p"
  then have "fallbackPlan H le a [CLASSIFIER_FAILURE] = Inr p" unfolding w .
  with fallbackPlan_Inr [OF this] fallbackPlan_covers [OF this]
  show "pl_mode p = FULL_FALLBACK \<and> set (pl_reasons p) = {''CLASSIFIER_FAILURE''}
      \<and> (validateVerificationDagV2 (ar_graph a) \<longrightarrow>
           set (selectedNodes p) = nd_id ` set (dag_nodes (ar_graph a))
           \<and> set (selectedTests p) = (\<Union>n \<in> set (dag_nodes (ar_graph a)). set (ownedTests n)))"
    by (simp add: node_ids_def)
qed

theorem classifier_failure_witness:
  "\<exists>p. buildVerificationImpactPlanFailClosedV2 fabric_hash (\<le>) sample_args (\<lambda>_. Inl ''boom'') = Inr p
     \<and> pl_mode p = FULL_FALLBACK \<and> set (selectedNodes p) = {''app'', ''lib'', ''docs''}"
proof -
  have t: "(\<lambda>_. Inl ''boom'') sample_args = (Inl ''boom'' :: impact_plan res)" by (rule refl)
  obtain p where p: "buildVerificationImpactPlanFailClosedV2 fabric_hash (\<le>) sample_args (\<lambda>_. Inl ''boom'') = Inr p"
    using classifier_failure_falls_back [OF t, THEN conjunct1] sample_graph(2) by blast
  have n: "nd_id ` set (dag_nodes (ar_graph sample_args)) = {''app'', ''lib'', ''docs''}"
    by (simp add: sample_args_def sample_nodes_def sample_node_def)
  note f = classifier_failure_falls_back [OF t, THEN conjunct2, THEN spec, THEN mp, OF p, unfolded n]
  have "pl_mode p = FULL_FALLBACK" using f by (rule conjunct1)
  moreover have "set (selectedNodes p) = {''app'', ''lib'', ''docs''}"
    using f [THEN conjunct2, THEN conjunct2, THEN mp, OF sample_graph(1)] by (rule conjunct1)
  ultimately show ?thesis using p by (intro exI [of _ p] conjI)
qed

text \<open>
  C21: A prototype attestation is re-used only when it is well formed, its own digest
  recomputes, it was issued for this node with its present content (unless the hash collides on the two node
  texts), this graph, toolchain and environment, it lists a pass of exactly the tests the node
  owns, and, where the node limits the lifetime of its evidence, the clock has not passed the
  creation time plus that lifetime.
\<close>

theorem attestation_reuse_binds:
  assumes "verifyPrototypeAttestationV2 H le att node g t e now = Inr REUSABLE_PROTOTYPE"
  shows "getf (fields_of att) ''attestationDigest'' = JStr (digest_of H (obj (without ''attestationDigest'' (fields_of att))))
    \<and> set (attested_tests att) = set (ownedTests node)
    \<and> list_all (\<lambda>r. getf (fields_of r) ''outcome'' = JStr ''PASS'') (elems_of (getf (fields_of att) ''testResults''))
    \<and> (\<forall>ttl. evidenceTtlMs node = Some ttl \<longrightarrow> now \<le> int_of_js (getf (fields_of att) ''createdAtMs'') + ttl)
    \<and> (verifyPrototypeAttestationV2 H le' att node' g' t' e' now' = Inr REUSABLE_PROTOTYPE
      \<and> inj_on H {canonText (dag_node_js node), canonText (dag_node_js node')} \<longrightarrow>
      (node', g', t', e') = (node, g, t, e))"
proof (intro conjI)
  note r = reusable_facts [OF assms]
  show "getf (fields_of att) ''attestationDigest'' = JStr (digest_of H (obj (without ''attestationDigest'' (fields_of att))))"
    by (rule r(2))
  show "set (attested_tests att) = set (ownedTests node)" by (rule r(10))
  show "list_all (\<lambda>r. getf (fields_of r) ''outcome'' = JStr ''PASS'') (elems_of (getf (fields_of att) ''testResults''))"
    using valid_attestation(3) [OF r(1)] by (simp add: list_all_iff validTestResult_def)
  show "\<forall>ttl. evidenceTtlMs node = Some ttl \<longrightarrow> now \<le> int_of_js (getf (fields_of att) ''createdAtMs'') + ttl"
    using r(8,9) by simp
  have "(node', g', t', e') = (node, g, t, e)"
    if other: "verifyPrototypeAttestationV2 H le' att node' g' t' e' now' = Inr REUSABLE_PROTOTYPE"
      and inj: "inj_on H {canonText (dag_node_js node), canonText (dag_node_js node')}"
  proof -
    note q = reusable_facts [OF other]
    have "digest_of H (dag_node_js node) = digest_of H (dag_node_js node')"
      using r(4) q(4) by (simp add: verificationNodeDigestV2_def)
    then have "node = node'" using node_codec.digest_binds [OF inj] by simp
    with r(5-7) q(5-7) show ?thesis by simp
  qed
  then show "verifyPrototypeAttestationV2 H le' att node' g' t' e' now' = Inr REUSABLE_PROTOTYPE
      \<and> inj_on H {canonText (dag_node_js node), canonText (dag_node_js node')} \<longrightarrow>
      (node', g', t', e') = (node, g, t, e)" by blast
qed

theorem attestation_reuse_witness:
  "verifyPrototypeAttestationV2 fabric_hash (\<le>) sample_attestation timed_node (fabric_hash []) (fabric_hash [])
      (fabric_hash []) 6000 = Inr REUSABLE_PROTOTYPE
   \<and> set (attested_tests sample_attestation) = set (ownedTests timed_node)"
proof -
  have reuse: "verifyPrototypeAttestationV2 fabric_hash (\<le>) sample_attestation timed_node (fabric_hash []) (fabric_hash [])
      (fabric_hash []) 6000 = Inr REUSABLE_PROTOTYPE"
    using sample_attestation_valid sample_attestation_plain
    unfolding verifyPrototypeAttestationV2_def Let_def
    by (simp del: replicate.simps replicate_Suc add: fabric_hash_def digest_js_plain digest_of_def res_simps verificationNodeDigestV2_def sample_attestation_def
        expiresAtMs_def hasOwn_def timed_node_def sample_node_def attested_tests_def sortedUniqueBy_def)
  from attestation_reuse_binds [OF reuse] reuse show ?thesis by blast
qed

end
