(* ===== verification/RuntimeGate.thy ===== *)
theory RuntimeGate
  imports Listings Base64
begin

text \<open>
  What the demonstration runtime shares: the serialiser of \<open>demo/runtime/enforcement-gate.mjs\<close> (which
  never throws), the comparison of secrets, the guard on the keys of a record, and the bundle of
  what the runtime takes from outside: SHA-256, HMAC-SHA-256 and \<open>JSON.parse\<close> of a UTF-8 text.
\<close>

subsection \<open>The serialiser of the runtime\<close>

text \<open>
  \<open>canonicalJson\<close> of the gate on a JSON value. A missing value becomes the empty text inside an array
  (\<open>join\<close>) and \<open>undefined\<close> inside an object (the template string); a non-finite number becomes
  \<open>null\<close>. Opaque values (\<open>JOdd\<close>) are not JSON values and do not reach it.
\<close>

function gateJson :: "js \<Rightarrow> string" where
  "gateJson (JArr i vs) =
     ''['' @ join '','' (map (\<lambda>v. if v = JUndef then [] else gateJson v) vs) @ '']''"
| "gateJson (JObj i kvs) =
     ''{'' @ join '','' (map (\<lambda>(k, v). quote k @ '':'' @ gateJson v) (sort_key fst kvs)) @ ''}''"
| "gateJson JNull = ''null''"
| "gateJson (JBool b) = (if b then ''true'' else ''false'')"
| "gateJson (JNum n) = num_text n"
| "gateJson (JStr s) = quote s"
| "gateJson JUndef = ''undefined''"
| "gateJson (JOdd i) = ''undefined''"
  by pat_completeness auto
termination
proof (relation "measure size", goal_cases)
  case (2 i vs x)
  then show ?case by (induction vs) auto
next
  case (3 i kvs x k v)
  then have "(k, v) \<in> set kvs" by simp
  then show ?case by (simp add: size_field)
qed simp

text \<open>On plain values it is the serialiser of the contracts.\<close>

lemma gateJson_plain: "plain v \<Longrightarrow> canonicalJson v = Inr (gateJson v)"
proof (induction v rule: canonicalJson.induct)
  case (5 i vs)
  have "map_res canonicalJson vs = Inr (map (\<lambda>v. if v = JUndef then [] else gateJson v) vs)"
    using 5 by (intro map_res_Inr_map) (auto simp: list_all_iff dest: plain_not_undef)
  then show ?case by (simp add: res_simps)
next
  case (6 i kvs)
  have "map_res (\<lambda>(k, v). if v = JUndef then Inl rejects_undefined
          else res_bind (canonicalJson v) (\<lambda>t. Inr (quote k @ '':'' @ t))) (sort_key fst kvs)
      = Inr (map (\<lambda>(k, v). quote k @ '':'' @ gateJson v) (sort_key fst kvs))"
  proof (rule map_res_Inr_map)
    fix p assume p: "p \<in> set (sort_key fst kvs)"
    obtain k v where kv: "p = (k, v)" by (cases p)
    have v: "plain v" "v \<noteq> JUndef" using 6(2) p kv by (auto simp: list_all_iff dest: plain_not_undef)
    with 6(1) [OF p kv [symmetric] v(2) v(1)] kv
    show "(case p of (k, v) \<Rightarrow> if v = JUndef then Inl rejects_undefined
          else res_bind (canonicalJson v) (\<lambda>t. Inr (quote k @ '':'' @ t)))
      = Inr (case p of (k, v) \<Rightarrow> quote k @ '':'' @ gateJson v)" by (simp add: res_simps)
  qed
  then show ?case by (simp add: res_simps)
qed auto

lemma gateJson_norm:
  assumes "plain v" "plain w" "js_wf v" "js_wf w" "gateJson v = gateJson w"
  shows "js_norm v = js_norm w"
  using assms gateJson_plain by (intro canonText_norm) (simp_all add: canonText_def)

subsection \<open>Guards of the runtime\<close>

definition gateKeys :: "js \<Rightarrow> string list \<Rightarrow> bool" where
  "gateKeys v expected \<longleftrightarrow> is_record v
     \<and> gateJson (keys_js (map fst (fields_of v))) = gateJson (keys_js expected)"

lemma gateKeys_exact: "gateKeys v expected \<longleftrightarrow> exactKeys v expected"
  using gateJson_plain [OF plain_keys_js(1)] by (simp add: gateKeys_def exactKeys_def)

text \<open>\<open>value < 1\<close> and the like are read after \<open>Number.isSafeInteger\<close>.\<close>

definition isGeneration :: "js \<Rightarrow> bool" where
  "isGeneration v \<longleftrightarrow> is_safe_integer v \<and> \<not> int_of_js v < 1"

definition isTime :: "js \<Rightarrow> bool" where
  "isTime v \<longleftrightarrow> is_safe_integer v \<and> \<not> int_of_js v < 0"

text \<open>
  \<open>equalSecret(presented, expected)\<close>: equality of the byte texts; a missing value counts as the empty text. Any
  other presented value is refused here. (\<open>Buffer.from\<close> throws on a number, an object or a Boolean; an
  array it reads as bytes: every caller that can be handed one refuses it by a digest test before, but for
  the use binding of the fence, which has a comparison of its own in the model.)
\<close>

fun equalSecret :: "js \<Rightarrow> string \<Rightarrow> bool" where
  "equalSecret (JStr s) expected = (s = expected)"
| "equalSecret JUndef expected = (expected = [])"
| "equalSecret JNull expected = (expected = [])"
| "equalSecret _ expected = False"

subsection \<open>What the runtime takes from outside\<close>

text \<open>
  \<open>sha\<close> is \<open>createHash("sha256")\<close>, \<open>hmac key text\<close> is \<open>createHmac("sha256", key)\<close>, both in
  hexadecimal; \<open>parse_json\<close> is \<open>JSON.parse\<close> of the UTF-8 text of some bytes, \<open>None\<close> where it throws.
\<close>

record runtime =
  sha :: "string \<Rightarrow> string"
  hmac :: "string \<Rightarrow> string \<Rightarrow> string"
  parse_json :: "string \<Rightarrow> js option"

definition json_digest :: "'a runtime_scheme \<Rightarrow> js \<Rightarrow> string" where
  "json_digest rt v = sha rt (gateJson v)"

text \<open>A file that holds one JSON text: absent, not parsable, or the value its text parses to.\<close>

datatype json_file = NoFile | Unparsable | Json js

definition newline :: string where
  "newline = [CHR 0x0A]"

end
