(* ===== verification/PolicyFence.thy ===== *)
theory PolicyFence
  imports RuntimeGate
begin

text \<open>
  \<open>demo/runtime/policy-generation-fence.mjs\<close> with \<open>demo/runtime/admin-ai-policy.mjs\<close>: the fence that
  holds the one active policy generation of the demonstration runtime. Its state is the record in
  memory and the file it is kept in. A write either replaces the file and succeeds or leaves it
  alone and throws (a temporary file is renamed), which is the flag \<open>writes\<close> of the operations. A
  clock reading is an integer. The tenant and policy identifiers the constructor insists on are
  constants.
\<close>

subsection \<open>The closed policy\<close>

definition POC_POLICY_SCHEMA :: string where
  "POC_POLICY_SCHEMA = ''chimpmaera.demo/admin-ai-poc-policy/v1''"
definition POC_POLICY_ID :: string where
  "POC_POLICY_ID = ''admin-ai-poc-policy-v1''"
definition POC_TENANT :: string where
  "POC_TENANT = ''panskys-zoo-demo''"

definition CLOSED_RULES :: "string list list" where
  "CLOSED_RULES =
     [[''SYNTHETIC_ESPOCRM_CONTACT_CREATE'', ''AUTO_GRANT'', ''POLICY_SYNTHETIC_CONTACT_AUTO_GRANTED''],
      [''SYNTHETIC_DOLIBARR_ORDER_CREATE'', ''OWNER_ESCALATION'', ''POLICY_ORDER_REQUIRES_OWNER''],
      [''*'', ''DENY'', ''POLICY_REQUEST_NOT_ALLOWED'']]"

text \<open>True where the code returns the policy, false where it throws.\<close>

definition validateAdminAiPocPolicy :: "js \<Rightarrow> bool" where
  "validateAdminAiPocPolicy policy =
     (let f = getf (fields_of policy) in
      if \<not> gateKeys policy [''policyId'', ''rules'', ''schemaVersion''] then False
      else if f ''schemaVersion'' \<noteq> JStr POC_POLICY_SCHEMA \<or> f ''policyId'' \<noteq> JStr POC_POLICY_ID
        \<or> \<not> is_array (f ''rules'') \<or> length (elems_of (f ''rules'')) \<noteq> 3 then False
      else list_all (\<lambda>(rule, expected).
          gateKeys rule [''outcome'', ''reasonCode'', ''requestKind'']
          \<and> gateJson (arr [getf (fields_of rule) ''requestKind'', getf (fields_of rule) ''outcome'',
                getf (fields_of rule) ''reasonCode'']) = gateJson (strs_js expected))
        (zip (elems_of (f ''rules'')) CLOSED_RULES))"

subsection \<open>Data\<close>

definition POLICY_ACTIVATION_CANDIDATE_SCHEMA :: string where
  "POLICY_ACTIVATION_CANDIDATE_SCHEMA = ''chimpmaera.demo/policy-activation-candidate/v1''"
definition POLICY_ACTIVATION_AUTHORIZATION_SCHEMA :: string where
  "POLICY_ACTIVATION_AUTHORIZATION_SCHEMA = ''chimpmaera.demo/policy-activation-authorization/v1''"
definition POLICY_ACTIVATION_RECORD_SCHEMA :: string where
  "POLICY_ACTIVATION_RECORD_SCHEMA = ''chimpmaera.demo/policy-activation-record/v1''"
definition OWNER_AUTHORIZATION_KIND :: string where
  "OWNER_AUTHORIZATION_KIND = ''OWNER_LOCAL_POLICY_HMAC_V1''"
definition MAX_POLICY_BYTES :: nat where
  "MAX_POLICY_BYTES = 64 * 1024"
definition FREEZE_REASONS :: "string list" where
  "FREEZE_REASONS = [''ACTIVATION_CONVERGENCE_FAILED'', ''OPERATOR_ROLLBACK'', ''WORKER_GENERATION_DIVERGENCE'']"

definition CANDIDATE_INVALID :: string where
  "CANDIDATE_INVALID = ''POLICY_ACTIVATION_CANDIDATE_INVALID_DENIED''"
definition AUTHORIZATION_INVALID :: string where
  "AUTHORIZATION_INVALID = ''POLICY_ACTIVATION_AUTHORIZATION_INVALID_DENIED''"
definition ACTIVATION_RECORD_INVALID :: string where
  "ACTIVATION_RECORD_INVALID = ''POLICY_ACTIVATION_RECORD_INVALID_DENIED''"
definition ACTIVATION_CLOCK_INVALID :: string where
  "ACTIVATION_CLOCK_INVALID = ''POLICY_ACTIVATION_CLOCK_INVALID_DENIED''"

record fence_candidate =
  fc_generation :: int
  fc_source64 :: string
  fc_sourceDigest :: string
  fc_semanticDigest :: string

record fence_snapshot = fence_candidate +
  fs_candidateDigest :: string
  fs_authorizationDigest :: string
  fs_activatedAtMs :: int

datatype fence_status = FENCE_ACTIVE | FENCE_FROZEN

record fence_record_core =
  fr_active :: fence_snapshot
  fr_lastKnownSafe :: fence_snapshot
  fr_retired :: "string list"
  fr_status :: fence_status
  fr_reasonCode :: "string option"
  fr_frozenAtMs :: "int option"
  fr_fallbackGeneration :: int

record fence_record = fence_record_core +
  fr_recordBinding :: string

record fence =
  fence_file :: json_file
  fence_memory :: "fence_record option"

subsection \<open>Encodings\<close>

definition fence_status_text :: "fence_status \<Rightarrow> string" where
  "fence_status_text s = (case s of FENCE_ACTIVE \<Rightarrow> ''ACTIVE'' | FENCE_FROZEN \<Rightarrow> ''FROZEN'')"

definition fence_candidate_js :: "'a fence_candidate_scheme \<Rightarrow> js" where
  "fence_candidate_js c = obj
     [(''schemaVersion'', JStr POLICY_ACTIVATION_CANDIDATE_SCHEMA), (''tenant'', JStr POC_TENANT),
      (''policyId'', JStr POC_POLICY_ID), (''generation'', jint (fc_generation c)),
      (''policySourceBase64'', JStr (fc_source64 c)), (''policySourceDigest'', JStr (fc_sourceDigest c)),
      (''policySemanticDigest'', JStr (fc_semanticDigest c))]"

definition fence_snapshot_js :: "fence_snapshot \<Rightarrow> js" where
  "fence_snapshot_js s = obj
     [(''tenant'', JStr POC_TENANT), (''policyId'', JStr POC_POLICY_ID),
      (''generation'', jint (fc_generation s)), (''policySourceBase64'', JStr (fc_source64 s)),
      (''policySourceDigest'', JStr (fc_sourceDigest s)), (''policySemanticDigest'', JStr (fc_semanticDigest s)),
      (''candidateDigest'', JStr (fs_candidateDigest s)),
      (''authorizationDigest'', JStr (fs_authorizationDigest s)), (''activatedAtMs'', jint (fs_activatedAtMs s))]"

definition fence_record_fields :: "'a fence_record_core_scheme \<Rightarrow> fields" where
  "fence_record_fields r =
     [(''schemaVersion'', JStr POLICY_ACTIVATION_RECORD_SCHEMA), (''tenant'', JStr POC_TENANT),
      (''policyId'', JStr POC_POLICY_ID), (''active'', fence_snapshot_js (fr_active r)),
      (''lastKnownSafe'', fence_snapshot_js (fr_lastKnownSafe r)),
      (''retiredPolicySourceDigests'', strs_js (fr_retired r)),
      (''dispatch'', obj [(''status'', JStr (fence_status_text (fr_status r))),
         (''reasonCode'', str_or_null (fr_reasonCode r)), (''frozenAtMs'', int_or_null (fr_frozenAtMs r)),
         (''fallbackGeneration'', jint (fr_fallbackGeneration r))])]"

definition fence_record_js :: "fence_record \<Rightarrow> js" where
  "fence_record_js r = obj (fence_record_fields r @ [(''recordBinding'', JStr (fr_recordBinding r))])"

subsection \<open>Candidates\<close>

text \<open>\<open>policyFromSourceBase64\<close>: the bytes and the policy, \<open>None\<close> where the code throws its code.\<close>

definition policyFromSourceBase64 :: "runtime \<Rightarrow> js \<Rightarrow> (string \<times> js) option" where
  "policyFromSourceBase64 rt v =
     (if \<not> str_test (\<lambda>s. \<not> (length s = 0 \<or> length s > (MAX_POLICY_BYTES + 2) div 3 * 4)) v then None
      else
        (case from_base64 (str_of v) of
           None \<Rightarrow> None
         | Some bytes \<Rightarrow>
             if length bytes = 0 \<or> length bytes > MAX_POLICY_BYTES then None
             else
               (case parse_json rt bytes of
                  None \<Rightarrow> None
                | Some policy \<Rightarrow> if validateAdminAiPocPolicy policy then Some (bytes, policy) else None)))"

definition FENCE_CANDIDATE_KEYS :: "string list" where
  "FENCE_CANDIDATE_KEYS = [''generation'', ''policyId'', ''policySemanticDigest'', ''policySourceBase64'',
     ''policySourceDigest'', ''schemaVersion'', ''tenant'']"

definition readCandidate :: "js \<Rightarrow> fence_candidate" where
  "readCandidate v =
     (let f = getf (fields_of v) in
      \<lparr>fc_generation = int_of_js (f ''generation''), fc_source64 = str_of (f ''policySourceBase64''),
       fc_sourceDigest = str_of (f ''policySourceDigest''), fc_semanticDigest = str_of (f ''policySemanticDigest'')\<rparr>)"

definition validatePolicyActivationCandidate :: "runtime \<Rightarrow> js \<Rightarrow> (fence_candidate \<times> string \<times> js) res" where
  "validatePolicyActivationCandidate rt v =
     (let f = getf (fields_of v) in
      if \<not> gateKeys v FENCE_CANDIDATE_KEYS then Inl CANDIDATE_INVALID
      else if f ''schemaVersion'' \<noteq> JStr POLICY_ACTIVATION_CANDIDATE_SCHEMA \<or> f ''tenant'' \<noteq> JStr POC_TENANT
        \<or> f ''policyId'' \<noteq> JStr POC_POLICY_ID then Inl CANDIDATE_INVALID
      else if \<not> isGeneration (f ''generation'') \<or> \<not> str_test hex64 (f ''policySourceDigest'')
        \<or> \<not> str_test hex64 (f ''policySemanticDigest'') then Inl CANDIDATE_INVALID
      else
        (case policyFromSourceBase64 rt (f ''policySourceBase64'') of
           None \<Rightarrow> Inl CANDIDATE_INVALID
         | Some (bytes, policy) \<Rightarrow>
             if getf (fields_of policy) ''policyId'' \<noteq> f ''policyId''
               \<or> JStr (sha rt bytes) \<noteq> f ''policySourceDigest''
               \<or> JStr (json_digest rt policy) \<noteq> f ''policySemanticDigest''
             then Inl CANDIDATE_INVALID
             else Inr (readCandidate v, bytes, policy)))"

definition createPolicyActivationCandidate :: "runtime \<Rightarrow> string \<Rightarrow> int \<Rightarrow> fence_candidate res" where
  "createPolicyActivationCandidate rt policyBytes generation =
     (if \<not> isGeneration (jint generation) then Inl CANDIDATE_INVALID
      else if length policyBytes = 0 \<or> length policyBytes > MAX_POLICY_BYTES then Inl CANDIDATE_INVALID
      else
        (case parse_json rt policyBytes of
           None \<Rightarrow> Inl CANDIDATE_INVALID
         | Some policy \<Rightarrow>
             if \<not> validateAdminAiPocPolicy policy then Inl CANDIDATE_INVALID
             else
               (let candidate = \<lparr>fc_generation = generation, fc_source64 = to_base64 policyBytes,
                      fc_sourceDigest = sha rt policyBytes, fc_semanticDigest = json_digest rt policy\<rparr>
                in res_bind (validatePolicyActivationCandidate rt (fence_candidate_js candidate))
                     (\<lambda>_. Inr candidate))))"

subsection \<open>Authorisations\<close>

definition AUTHORIZATION_PREFIX :: string where
  "AUTHORIZATION_PREFIX = ''policy-activation-authorization-v1'' @ newline"

definition authorization_fields :: "string \<Rightarrow> int \<Rightarrow> fields" where
  "authorization_fields candidateDigest issuedAtMs =
     [(''schemaVersion'', JStr POLICY_ACTIVATION_AUTHORIZATION_SCHEMA), (''kind'', JStr OWNER_AUTHORIZATION_KIND),
      (''candidateDigest'', JStr candidateDigest), (''issuedAtMs'', jint issuedAtMs)]"

definition authorization_binding :: "runtime \<Rightarrow> string \<Rightarrow> string \<Rightarrow> int \<Rightarrow> string" where
  "authorization_binding rt token candidateDigest issuedAtMs =
     hmac rt token (AUTHORIZATION_PREFIX @ gateJson (obj (authorization_fields candidateDigest issuedAtMs)))"

definition ownerToken :: "string \<Rightarrow> bool" where
  "ownerToken token \<longleftrightarrow> \<not> length token < 32"

definition createLocalOwnerPolicyAuthorization :: "runtime \<Rightarrow> fence_candidate \<Rightarrow> string \<Rightarrow> int \<Rightarrow> js res" where
  "createLocalOwnerPolicyAuthorization rt candidate token issuedAtMs =
     (if \<not> ownerToken token then Inl ''POLICY_ACTIVATION_OWNER_KEY_INVALID_DENIED''
      else if \<not> isGeneration (jint (fc_generation candidate)) then Inl CANDIDATE_INVALID
      else if \<not> isTime (jint issuedAtMs) then Inl AUTHORIZATION_INVALID
      else
        (let candidateDigest = json_digest rt (fence_candidate_js candidate)
         in Inr (obj (authorization_fields candidateDigest issuedAtMs
              @ [(''binding'', JStr (authorization_binding rt token candidateDigest issuedAtMs))]))))"

definition AUTHORIZATION_KEYS :: "string list" where
  "AUTHORIZATION_KEYS = [''binding'', ''candidateDigest'', ''issuedAtMs'', ''kind'', ''schemaVersion'']"

definition validateAuthorization :: "runtime \<Rightarrow> js \<Rightarrow> js \<Rightarrow> string \<Rightarrow> bool" where
  "validateAuthorization rt authorization candidate token =
     (let f = getf (fields_of authorization) in
      if \<not> gateKeys authorization AUTHORIZATION_KEYS then False
      else if f ''schemaVersion'' \<noteq> JStr POLICY_ACTIVATION_AUTHORIZATION_SCHEMA
        \<or> f ''kind'' \<noteq> JStr OWNER_AUTHORIZATION_KIND \<or> \<not> is_safe_integer (f ''issuedAtMs'')
        \<or> int_of_js (f ''issuedAtMs'') < 0 then False
      else if \<not> str_test hex64 (f ''candidateDigest'') \<or> \<not> str_test hex64 (f ''binding'') then False
      else
        (let candidateDigest = json_digest rt candidate in
         equalSecret (f ''candidateDigest'') candidateDigest
         \<and> equalSecret (f ''binding'')
             (authorization_binding rt token candidateDigest (int_of_js (f ''issuedAtMs'')))))"

subsection \<open>Records\<close>

definition SNAPSHOT_KEYS_FENCE :: "string list" where
  "SNAPSHOT_KEYS_FENCE = [''activatedAtMs'', ''authorizationDigest'', ''candidateDigest'', ''generation'',
     ''policyId'', ''policySemanticDigest'', ''policySourceBase64'', ''policySourceDigest'', ''tenant'']"

definition readSnapshot :: "js \<Rightarrow> fence_snapshot" where
  "readSnapshot v =
     (let f = getf (fields_of v) in
      fence_candidate.extend (readCandidate v)
        (fence_snapshot.fields (str_of (f ''candidateDigest'')) (str_of (f ''authorizationDigest''))
          (int_of_js (f ''activatedAtMs''))))"

text \<open>The snapshot and the policy it holds.\<close>

definition validateSnapshot :: "runtime \<Rightarrow> js \<Rightarrow> (fence_snapshot \<times> js) res" where
  "validateSnapshot rt v =
     (let f = getf (fields_of v) in
      if \<not> gateKeys v SNAPSHOT_KEYS_FENCE then Inl ACTIVATION_RECORD_INVALID
      else if f ''tenant'' \<noteq> JStr POC_TENANT \<or> f ''policyId'' \<noteq> JStr POC_POLICY_ID
        \<or> \<not> is_safe_integer (f ''activatedAtMs'') \<or> int_of_js (f ''activatedAtMs'') < 0
      then Inl ACTIVATION_RECORD_INVALID
      else if \<not> isGeneration (f ''generation'') \<or> \<not> str_test hex64 (f ''authorizationDigest'')
        \<or> \<not> str_test hex64 (f ''candidateDigest'') \<or> \<not> str_test hex64 (f ''policySourceDigest'')
        \<or> \<not> str_test hex64 (f ''policySemanticDigest'') then Inl ACTIVATION_RECORD_INVALID
      else
        (let candidate = obj [(''schemaVersion'', JStr POLICY_ACTIVATION_CANDIDATE_SCHEMA),
               (''tenant'', f ''tenant''), (''policyId'', f ''policyId''), (''generation'', f ''generation''),
               (''policySourceBase64'', f ''policySourceBase64''), (''policySourceDigest'', f ''policySourceDigest''),
               (''policySemanticDigest'', f ''policySemanticDigest'')]
         in res_bind (validatePolicyActivationCandidate rt candidate) (\<lambda>(c, bytes, policy).
              if JStr (json_digest rt candidate) \<noteq> f ''candidateDigest'' then Inl ACTIVATION_RECORD_INVALID
              else Inr (readSnapshot v, policy))))"

definition FENCE_RECORD_PREFIX :: string where
  "FENCE_RECORD_PREFIX = ''policy-activation-record-v1'' @ newline"

definition fence_signRecord :: "runtime \<Rightarrow> string \<Rightarrow> fields \<Rightarrow> string" where
  "fence_signRecord rt token core = hmac rt token (FENCE_RECORD_PREFIX @ gateJson (obj core))"

definition FENCE_RECORD_KEYS :: "string list" where
  "FENCE_RECORD_KEYS = [''active'', ''dispatch'', ''lastKnownSafe'', ''policyId'', ''recordBinding'',
     ''retiredPolicySourceDigests'', ''schemaVersion'', ''tenant'']"

definition DISPATCH_KEYS :: "string list" where
  "DISPATCH_KEYS = [''fallbackGeneration'', ''frozenAtMs'', ''reasonCode'', ''status'']"

definition readFenceRecord :: "js \<Rightarrow> fence_record" where
  "readFenceRecord v =
     (let f = getf (fields_of v); d = getf (fields_of (f ''dispatch'')) in
      \<lparr>fr_active = readSnapshot (f ''active''), fr_lastKnownSafe = readSnapshot (f ''lastKnownSafe''),
       fr_retired = map str_of (elems_of (f ''retiredPolicySourceDigests'')),
       fr_status = (if d ''status'' = JStr ''ACTIVE'' then FENCE_ACTIVE else FENCE_FROZEN),
       fr_reasonCode = (if d ''reasonCode'' = JNull then None else Some (str_of (d ''reasonCode''))),
       fr_frozenAtMs = (if d ''frozenAtMs'' = JNull then None else Some (int_of_js (d ''frozenAtMs''))),
       fr_fallbackGeneration = int_of_js (d ''fallbackGeneration''),
       fr_recordBinding = str_of (f ''recordBinding'')\<rparr>)"

definition dispatchInvalid :: "js \<Rightarrow> fence_snapshot \<Rightarrow> bool" where
  "dispatchInvalid v lastKnownSafe \<longleftrightarrow>
     (let d = getf (fields_of v) in
      (d ''status'' \<noteq> JStr ''ACTIVE'' \<and> d ''status'' \<noteq> JStr ''FROZEN'')
      \<or> d ''fallbackGeneration'' \<noteq> jint (fc_generation lastKnownSafe)
      \<or> (d ''status'' = JStr ''ACTIVE'' \<and> (d ''frozenAtMs'' \<noteq> JNull \<or> d ''reasonCode'' \<noteq> JNull))
      \<or> (d ''status'' = JStr ''FROZEN''
         \<and> (\<not> is_safe_integer (d ''frozenAtMs'') \<or> int_of_js (d ''frozenAtMs'') < 0
            \<or> \<not> str_test (\<lambda>r. r \<in> set FREEZE_REASONS) (d ''reasonCode''))))"

definition fence_validateRecord :: "runtime \<Rightarrow> string \<Rightarrow> js \<Rightarrow> fence_record res" where
  "fence_validateRecord rt token v =
     (let f = getf (fields_of v); retired = f ''retiredPolicySourceDigests'' in
      if \<not> gateKeys v FENCE_RECORD_KEYS then Inl ACTIVATION_RECORD_INVALID
      else if f ''schemaVersion'' \<noteq> JStr POLICY_ACTIVATION_RECORD_SCHEMA \<or> f ''tenant'' \<noteq> JStr POC_TENANT
        \<or> f ''policyId'' \<noteq> JStr POC_POLICY_ID \<or> \<not> is_array retired
        \<or> length (uniq (elems_of retired)) \<noteq> length (elems_of retired) then Inl ACTIVATION_RECORD_INVALID
      else if \<not> str_test hex64 (f ''recordBinding'') \<or> \<not> list_all (str_test hex64) (elems_of retired)
      then Inl ACTIVATION_RECORD_INVALID
      else
        res_bind (validateSnapshot rt (f ''active'')) (\<lambda>(active, _).
        res_bind (validateSnapshot rt (f ''lastKnownSafe'')) (\<lambda>(lastKnownSafe, _).
          if \<not> gateKeys (f ''dispatch'') DISPATCH_KEYS then Inl ACTIVATION_RECORD_INVALID
          else if dispatchInvalid (f ''dispatch'') lastKnownSafe
            \<or> fc_generation lastKnownSafe > fc_generation active
            \<or> JStr (fc_sourceDigest active) \<in> set (elems_of retired)
            \<or> (JStr (fc_sourceDigest lastKnownSafe) \<in> set (elems_of retired))
                \<noteq> (fc_generation lastKnownSafe < fc_generation active)
          then Inl ACTIVATION_RECORD_INVALID
          else if \<not> equalSecret (f ''recordBinding'')
                (fence_signRecord rt token (without ''recordBinding'' (fields_of v)))
          then Inl ACTIVATION_RECORD_INVALID
          else Inr (readFenceRecord v))))"

definition fence_bind :: "runtime \<Rightarrow> string \<Rightarrow> fence_record_core \<Rightarrow> fence_record" where
  "fence_bind rt token core = fence_record_core.extend core
     (fence_record.fields (fence_signRecord rt token (fence_record_fields core)))"

subsection \<open>Operations\<close>

text \<open>The constructor reads the file, if there is one.\<close>

definition new_fence :: "runtime \<Rightarrow> string \<Rightarrow> json_file \<Rightarrow> fence res" where
  "new_fence rt token file =
     (if \<not> ownerToken token then Inl ''POLICY_ACTIVATION_OWNER_KEY_INVALID_DENIED''
      else
        (case file of
           NoFile \<Rightarrow> Inr \<lparr>fence_file = file, fence_memory = None\<rparr>
         | Unparsable \<Rightarrow> Inl ACTIVATION_RECORD_INVALID
         | Json v \<Rightarrow> res_bind (fence_validateRecord rt token v)
             (\<lambda>r. Inr \<lparr>fence_file = file, fence_memory = Some r\<rparr>)))"

definition WRITE_ERROR :: string where "WRITE_ERROR = ''write error''"

record active_policy =
  ap_policy :: js
  ap_snapshot :: fence_snapshot
  ap_status :: fence_status
  ap_fallback :: int

definition activePolicy :: "runtime \<Rightarrow> fence \<Rightarrow> active_policy res" where
  "activePolicy rt w =
     (case fence_memory w of
        None \<Rightarrow> Inl ''POLICY_NOT_ACTIVATED_DENIED''
      | Some r \<Rightarrow> res_bind (validateSnapshot rt (fence_snapshot_js (fr_active r))) (\<lambda>(s, policy).
          Inr \<lparr>ap_policy = policy, ap_snapshot = fr_active r, ap_status = fr_status r,
               ap_fallback = fr_fallbackGeneration r\<rparr>))"

text \<open>\<open>validateRecord\<close>, \<open>persist\<close> and the assignment of the new record.\<close>

definition fence_store :: "runtime \<Rightarrow> string \<Rightarrow> bool \<Rightarrow> fence \<Rightarrow> fence_record_core \<Rightarrow> fence res" where
  "fence_store rt token writes w core =
     (let record = fence_bind rt token core in
      res_bind (fence_validateRecord rt token (fence_record_js record)) (\<lambda>_.
        if \<not> writes then Inl WRITE_ERROR
        else Inr \<lparr>fence_file = Json (fence_record_js record), fence_memory = Some record\<rparr>))"

definition retire_active :: "fence_record \<Rightarrow> string list" where
  "retire_active r = uniq (fr_retired r @ [fc_sourceDigest (fr_active r)])"

definition fence_activate ::
  "runtime \<Rightarrow> string \<Rightarrow> bool \<Rightarrow> int \<Rightarrow> fence \<Rightarrow> js \<Rightarrow> js \<Rightarrow> fence \<times> active_policy res" where
  "fence_activate rt token writes now w candidateValue authorization =
     (case validatePolicyActivationCandidate rt candidateValue of
        Inl e \<Rightarrow> (w, Inl e)
      | Inr (candidate, bytes, policy) \<Rightarrow>
          if \<not> validateAuthorization rt authorization candidateValue token then (w, Inl AUTHORIZATION_INVALID)
          else
            (let current = fence_memory w in
             if (case current of None \<Rightarrow> False
                 | Some r \<Rightarrow> fc_generation candidate \<le> fc_generation (fr_active r))
             then (w, Inl ''POLICY_GENERATION_STALE_OR_DUPLICATE_DENIED'')
             else if (case current of None \<Rightarrow> False
                 | Some r \<Rightarrow> fc_sourceDigest candidate = fc_sourceDigest (fr_active r)
                     \<or> fc_sourceDigest candidate \<in> set (fr_retired r))
             then (w, Inl ''POLICY_GENERATION_REUSE_OR_DOWNGRADE_DENIED'')
             else if \<not> isTime (jint now) then (w, Inl ACTIVATION_CLOCK_INVALID)
             else
               (let snapshot = fence_candidate.extend candidate
                      (fence_snapshot.fields (json_digest rt candidateValue) (json_digest rt authorization) now);
                    lastKnownSafe = (case current of None \<Rightarrow> snapshot | Some r \<Rightarrow> fr_active r);
                    core = \<lparr>fr_active = snapshot, fr_lastKnownSafe = lastKnownSafe,
                      fr_retired = (case current of None \<Rightarrow> [] | Some r \<Rightarrow> retire_active r),
                      fr_status = FENCE_ACTIVE, fr_reasonCode = None, fr_frozenAtMs = None,
                      fr_fallbackGeneration = fc_generation lastKnownSafe\<rparr>
                in (case fence_store rt token writes w core of
                      Inl e \<Rightarrow> (w, Inl e)
                    | Inr w' \<Rightarrow> (w', activePolicy rt w')))))"

definition freezeDispatch :: "runtime \<Rightarrow> string \<Rightarrow> bool \<Rightarrow> int \<Rightarrow> fence \<Rightarrow> string \<Rightarrow> fence \<times> fence_record res" where
  "freezeDispatch rt token writes now w reasonCode =
     (case fence_memory w of
        None \<Rightarrow> (w, Inl ''POLICY_DISPATCH_FREEZE_INVALID_DENIED'')
      | Some r \<Rightarrow>
          if reasonCode \<notin> set FREEZE_REASONS then (w, Inl ''POLICY_DISPATCH_FREEZE_INVALID_DENIED'')
          else if \<not> isTime (jint now) then (w, Inl ACTIVATION_CLOCK_INVALID)
          else
            (case fence_store rt token writes w
                ((fence_record_core.truncate r)\<lparr>fr_status := FENCE_FROZEN, fr_reasonCode := Some reasonCode,
                   fr_frozenAtMs := Some now, fr_fallbackGeneration := fc_generation (fr_lastKnownSafe r)\<rparr>) of
               Inl e \<Rightarrow> (w, Inl e)
             | Inr w' \<Rightarrow> (w', Inr (the (fence_memory w')))))"

text \<open>What a use presents: four values of unknown type.\<close>

record use_binding =
  ub_tenant :: js
  ub_policyId :: js
  ub_policyGeneration :: js
  ub_policySourceDigest :: js

text \<open>
  The digest a use presents is compared as it is, with no digest test before: \<open>Buffer.from\<close> reads an array
  as one byte for each element, so the list of the character codes of a digest is as good as the
  digest. (Elements that are texts, objects or decimal fractions are refused here.)
\<close>

fun byte_of_element :: "js \<Rightarrow> char option" where
  "byte_of_element (JNum (NInt i)) = Some (char_of (nat (i mod 256)))"
| "byte_of_element (JNum NNonFinite) = Some (char_of (0 :: nat))"
| "byte_of_element (JBool b) = Some (char_of (of_bool b :: nat))"
| "byte_of_element JUndef = Some (char_of (0 :: nat))"
| "byte_of_element JNull = Some (char_of (0 :: nat))"
| "byte_of_element _ = None"

fun equalPresented :: "js \<Rightarrow> string \<Rightarrow> bool" where
  "equalPresented (JArr i vs) expected = (map byte_of_element vs = map Some expected)"
| "equalPresented v expected = equalSecret v expected"

definition fence_assertUseBinding :: "runtime \<Rightarrow> string \<Rightarrow> fence \<Rightarrow> use_binding \<Rightarrow> fence \<times> unit res" where
  "fence_assertUseBinding rt token w b =
     (case fence_file w of
        NoFile \<Rightarrow> (w, Inl ACTIVATION_RECORD_INVALID)
      | Unparsable \<Rightarrow> (w, Inl ACTIVATION_RECORD_INVALID)
      | Json v \<Rightarrow>
          (case fence_validateRecord rt token v of
             Inl e \<Rightarrow> (w, Inl e)
           | Inr r \<Rightarrow>
               (let w' = w\<lparr>fence_memory := Some r\<rparr> in
                if fr_status r \<noteq> FENCE_ACTIVE then (w', Inl ''POLICY_DISPATCH_FROZEN_DENIED'')
                else if ub_tenant b \<noteq> JStr POC_TENANT \<or> ub_policyId b \<noteq> JStr POC_POLICY_ID
                  \<or> ub_policyGeneration b \<noteq> jint (fc_generation (fr_active r))
                  \<or> \<not> equalPresented (ub_policySourceDigest b) (fc_sourceDigest (fr_active r))
                then (w', Inl ''POLICY_USE_GENERATION_MISMATCH_DENIED'')
                else (w', Inr ()))))"

end
