(* ===== verification/LifecycleTypes.thy ===== *)
theory LifecycleTypes
  imports PolicyFence
begin

text \<open>
  \<open>demo/management/policy-lifecycle.mjs\<close>, data: signed policy artifacts, entries, receipts and the
  record of the lifecycle manager, with their encodings, and the checks that need no state
  (artifacts, signatures, time windows, semantic differences, approvals).

  What an entry holds beyond its generation, artifact, digest and state is kept as the JSON value it
  is: the code reads it back from an authenticated file without looking at its shape.
\<close>

subsection \<open>Constants\<close>

definition SIGNED_POLICY_ARTIFACT_SCHEMA :: string where
  "SIGNED_POLICY_ARTIFACT_SCHEMA = ''chimpmaera.demo/signed-policy-artifact/v1''"
definition POLICY_LIFECYCLE_APPROVAL_SCHEMA :: string where
  "POLICY_LIFECYCLE_APPROVAL_SCHEMA = ''chimpmaera.demo/policy-lifecycle-approval/v1''"
definition POLICY_LIFECYCLE_RECORD_SCHEMA :: string where
  "POLICY_LIFECYCLE_RECORD_SCHEMA = ''chimpmaera.demo/policy-lifecycle-record/v1''"
definition POLICY_LIFECYCLE_RECEIPT_SCHEMA :: string where
  "POLICY_LIFECYCLE_RECEIPT_SCHEMA = ''chimpmaera.demo/policy-lifecycle-receipt/v1''"
definition POLICY_SEMANTIC_DIFF_SCHEMA :: string where
  "POLICY_SEMANTIC_DIFF_SCHEMA = ''chimpmaera.demo/policy-semantic-diff/v1''"
definition RUNTIME_API :: string where
  "RUNTIME_API = ''chimpmaera.demo/policy-runtime/v1''"

definition OUTCOME_RANK :: "(string \<times> nat) list" where
  "OUTCOME_RANK = [(''DENY'', 0), (''OWNER_ESCALATION'', 1), (''AUTO_GRANT'', 2)]"

datatype entry_state = DRAFT | VALIDATED | SIMULATED | APPROVED | STAGED | ENTRY_ACTIVE | SUPERSEDED
  | RETIRED | REVOKED

definition ENTRY_STATES :: "entry_state list" where
  "ENTRY_STATES = [DRAFT, VALIDATED, SIMULATED, APPROVED, STAGED, ENTRY_ACTIVE, SUPERSEDED, RETIRED, REVOKED]"

fun entry_state_text :: "entry_state \<Rightarrow> string" where
  "entry_state_text DRAFT = ''DRAFT''"
| "entry_state_text VALIDATED = ''VALIDATED''"
| "entry_state_text SIMULATED = ''SIMULATED''"
| "entry_state_text APPROVED = ''APPROVED''"
| "entry_state_text STAGED = ''STAGED''"
| "entry_state_text ENTRY_ACTIVE = ''ACTIVE''"
| "entry_state_text SUPERSEDED = ''SUPERSEDED''"
| "entry_state_text RETIRED = ''RETIRED''"
| "entry_state_text REVOKED = ''REVOKED''"

datatype transition = T_DRAFTED | T_VALIDATED | T_SIMULATED | T_APPROVED | T_STAGED | T_ACTIVATED
  | T_RETIRED | T_REVOKED | T_ROLLOUT_CONFIRMED | T_ROLLOUT_FROZEN

definition TRANSITIONS :: "transition list" where
  "TRANSITIONS = [T_DRAFTED, T_VALIDATED, T_SIMULATED, T_APPROVED, T_STAGED, T_ACTIVATED, T_RETIRED,
     T_REVOKED, T_ROLLOUT_CONFIRMED, T_ROLLOUT_FROZEN]"

fun transition_text :: "transition \<Rightarrow> string" where
  "transition_text T_DRAFTED = ''DRAFTED''"
| "transition_text T_VALIDATED = ''VALIDATED''"
| "transition_text T_SIMULATED = ''SIMULATED''"
| "transition_text T_APPROVED = ''APPROVED''"
| "transition_text T_STAGED = ''STAGED''"
| "transition_text T_ACTIVATED = ''ACTIVATED''"
| "transition_text T_RETIRED = ''RETIRED''"
| "transition_text T_REVOKED = ''REVOKED''"
| "transition_text T_ROLLOUT_CONFIRMED = ''ROLLOUT_CONFIRMED''"
| "transition_text T_ROLLOUT_FROZEN = ''ROLLOUT_FROZEN''"

definition ARTIFACT_INVALID :: string where
  "ARTIFACT_INVALID = ''POLICY_LIFECYCLE_ARTIFACT_INVALID_DENIED''"
definition APPROVAL_INVALID :: string where
  "APPROVAL_INVALID = ''POLICY_LIFECYCLE_APPROVAL_INVALID_DENIED''"
definition RECORD_INVALID :: string where
  "RECORD_INVALID = ''POLICY_LIFECYCLE_RECORD_INVALID_DENIED''"
definition SIGNATURE_INVALID :: string where
  "SIGNATURE_INVALID = ''POLICY_LIFECYCLE_SIGNATURE_INVALID_DENIED''"
definition TRANSITION_INVALID :: string where
  "TRANSITION_INVALID = ''POLICY_LIFECYCLE_TRANSITION_INVALID_DENIED''"
definition CLOCK_INVALID :: string where
  "CLOCK_INVALID = ''POLICY_LIFECYCLE_CLOCK_INVALID_DENIED''"

definition ISSUER_PATTERN :: rx where
  "ISSUER_PATTERN = Seq (Cls [a_z]) (Rep (Cls ([a_z, d0_9] @ chars ''.-'')) 2 (Some 80))"
definition KEY_ID_PATTERN :: rx where
  "KEY_ID_PATTERN = Seq (Cls [a_z, A_Z, d0_9]) (Rep (Cls ([a_z, A_Z, d0_9] @ chars ''._-'')) 2 (Some 80))"
definition REASON_CODE_PATTERN :: rx where
  "REASON_CODE_PATTERN = Seq (Cls [A_Z]) (Rep (Cls ([A_Z, d0_9] @ chars ''_'')) 7 (Some 100))"
definition OPERATION_ID_PATTERN :: rx where
  "OPERATION_ID_PATTERN = Seq (Cls [a_z, A_Z, d0_9]) (Rep (Cls ([a_z, A_Z, d0_9] @ chars '':._-'')) 7 (Some 127))"

subsection \<open>What the manager takes from outside\<close>

text \<open>
  \<open>spki_digest key\<close> is the SHA-256 of the DER export of a public key, \<open>None\<close> where the key does not
  parse; \<open>verify_sig key text sig\<close> is Ed25519 verification of the bytes \<open>sig\<close>, \<open>sign_text key text\<close>
  signing. A trust store gives the public key text of an issuer and key identifier.
\<close>

record lc_runtime = runtime +
  spki_digest :: "string \<Rightarrow> string option"
  verify_sig :: "string \<Rightarrow> string \<Rightarrow> string \<Rightarrow> bool"
  sign_text :: "string \<Rightarrow> string \<Rightarrow> string"

type_synonym trust_store = "string \<Rightarrow> string \<Rightarrow> string option"

abbreviation base_rt :: "lc_runtime \<Rightarrow> runtime" where
  "base_rt rt \<equiv> runtime.truncate rt"

subsection \<open>Policies\<close>

text \<open>\<open>decodePolicy\<close>: the bytes and the parsed value, \<open>None\<close> where the code denies.\<close>

definition decodePolicy :: "lc_runtime \<Rightarrow> js \<Rightarrow> (string \<times> js) option" where
  "decodePolicy rt v =
     (if \<not> str_test (\<lambda>s. \<not> (length s = 0 \<or> length s > (MAX_POLICY_BYTES + 2) div 3 * 4)) v then None
      else
        (case from_base64 (str_of v) of
           None \<Rightarrow> None
         | Some bytes \<Rightarrow>
             if length bytes = 0 \<or> length bytes > MAX_POLICY_BYTES then None
             else map_option (\<lambda>policy. (bytes, policy)) (parse_json rt bytes)))"

definition REQUEST_KINDS :: "string list" where
  "REQUEST_KINDS = [''SYNTHETIC_ESPOCRM_CONTACT_CREATE'', ''SYNTHETIC_DOLIBARR_ORDER_CREATE'', ''*'']"

definition validRule :: "js \<Rightarrow> string \<Rightarrow> bool" where
  "validRule rule requestKind \<longleftrightarrow>
     (let f = getf (fields_of rule) in
      gateKeys rule [''outcome'', ''reasonCode'', ''requestKind'']
      \<and> \<not> (f ''requestKind'' \<noteq> JStr requestKind
          \<or> \<not> str_test (\<lambda>s. s \<in> set (map fst OUTCOME_RANK)) (f ''outcome'')
          \<or> \<not> str_test (rx_test REASON_CODE_PATTERN) (f ''reasonCode'')
          \<or> (f ''requestKind'' = JStr ''*'' \<and> f ''outcome'' \<noteq> JStr ''DENY'')))"

definition validateLifecyclePolicyShape :: "js \<Rightarrow> bool" where
  "validateLifecyclePolicyShape policy =
     (let f = getf (fields_of policy) in
      if \<not> gateKeys policy [''policyId'', ''rules'', ''schemaVersion''] then False
      else if f ''schemaVersion'' \<noteq> JStr POC_POLICY_SCHEMA \<or> f ''policyId'' \<noteq> JStr POC_POLICY_ID
        \<or> \<not> is_array (f ''rules'') \<or> length (elems_of (f ''rules'')) \<noteq> 3 then False
      else list_all (\<lambda>(rule, kind). validRule rule kind) (zip (elems_of (f ''rules'')) REQUEST_KINDS))"

subsection \<open>Artifacts\<close>

definition ARTIFACT_KEYS :: "string list" where
  "ARTIFACT_KEYS = [''compatibility'', ''expiresAtMs'', ''generation'', ''issuedAtMs'', ''issuer'', ''keyId'',
     ''notBeforeMs'', ''policyId'', ''policySemanticDigest'', ''policySourceBase64'', ''policySourceDigest'',
     ''schemaVersion'', ''signature'', ''tenant'']"

definition artifactDigest :: "lc_runtime \<Rightarrow> js \<Rightarrow> string" where
  "artifactDigest rt artifact = json_digest rt artifact"

text \<open>The bytes and the policy of a well-formed artifact, \<open>None\<close> where the code denies.\<close>

definition validateArtifactStructure :: "lc_runtime \<Rightarrow> js \<Rightarrow> (string \<times> js) option" where
  "validateArtifactStructure rt v =
     (let f = getf (fields_of v); c = f ''compatibility''; sg = f ''signature'' in
      if \<not> gateKeys v ARTIFACT_KEYS \<or> \<not> gateKeys c [''policySchemaVersion'', ''runtimeApiVersion'']
        \<or> \<not> gateKeys sg [''algorithm'', ''valueBase64''] then None
      else if f ''schemaVersion'' \<noteq> JStr SIGNED_POLICY_ARTIFACT_SCHEMA \<or> f ''tenant'' \<noteq> JStr POC_TENANT
        \<or> f ''policyId'' \<noteq> JStr POC_POLICY_ID \<or> \<not> str_test (rx_test ISSUER_PATTERN) (f ''issuer'')
        \<or> \<not> str_test (rx_test KEY_ID_PATTERN) (f ''keyId'')
        \<or> getf (fields_of sg) ''algorithm'' \<noteq> JStr ''Ed25519''
        \<or> \<not> str_test (\<lambda>s. \<not> length s < 16) (getf (fields_of sg) ''valueBase64'') then None
      else if \<not> isGeneration (f ''generation'') \<or> \<not> isTime (f ''issuedAtMs'') \<or> \<not> isTime (f ''notBeforeMs'')
        \<or> \<not> isTime (f ''expiresAtMs'') then None
      else if int_of_js (f ''issuedAtMs'') > int_of_js (f ''notBeforeMs'')
        \<or> int_of_js (f ''notBeforeMs'') \<ge> int_of_js (f ''expiresAtMs'') then None
      else if \<not> str_test hex64 (f ''policySourceDigest'') \<or> \<not> str_test hex64 (f ''policySemanticDigest'') then None
      else
        (case decodePolicy rt (f ''policySourceBase64'') of
           None \<Rightarrow> None
         | Some (bytes, policy) \<Rightarrow>
             if \<not> validateLifecyclePolicyShape policy then None
             else if JStr (sha rt bytes) \<noteq> f ''policySourceDigest''
               \<or> JStr (json_digest rt policy) \<noteq> f ''policySemanticDigest'' then None
             else Some (bytes, policy)))"

definition TRUST_UNKNOWN :: string where
  "TRUST_UNKNOWN = ''POLICY_LIFECYCLE_TRUST_UNKNOWN_DENIED''"
definition TRUST_KEY_INVALID :: string where
  "TRUST_KEY_INVALID = ''POLICY_LIFECYCLE_TRUST_KEY_INVALID_DENIED''"

text \<open>The public key and the digest of the trust in it.\<close>

definition trustSnapshot :: "lc_runtime \<Rightarrow> trust_store \<Rightarrow> string \<Rightarrow> string \<Rightarrow> (string \<times> string) res" where
  "trustSnapshot rt trust issuer keyId =
     (case trust issuer keyId of
        None \<Rightarrow> Inl TRUST_UNKNOWN
      | Some publicKey \<Rightarrow>
          (case spki_digest rt publicKey of
             None \<Rightarrow> Inl TRUST_KEY_INVALID
           | Some d \<Rightarrow> Inr (publicKey, json_digest rt (obj [(''issuer'', JStr issuer), (''keyId'', JStr keyId),
               (''publicKeyDigest'', JStr d)]))))"

record verified =
  vf_bytes :: string
  vf_policy :: js
  vf_trustDigest :: string

definition verifyArtifact :: "lc_runtime \<Rightarrow> js \<Rightarrow> trust_store \<Rightarrow> verified res" where
  "verifyArtifact rt artifact trust =
     (case validateArtifactStructure rt artifact of
        None \<Rightarrow> Inl ARTIFACT_INVALID
      | Some (bytes, policy) \<Rightarrow>
          (let f = getf (fields_of artifact) in
           res_bind (trustSnapshot rt trust (str_of (f ''issuer'')) (str_of (f ''keyId''))) (\<lambda>(publicKey, d).
             case from_base64 (str_of (getf (fields_of (f ''signature'')) ''valueBase64'')) of
               None \<Rightarrow> Inl SIGNATURE_INVALID
             | Some signature \<Rightarrow>
                 if length signature = 0
                   \<or> \<not> verify_sig rt publicKey (gateJson (obj (without ''signature'' (fields_of artifact)))) signature
                 then Inl SIGNATURE_INVALID
                 else Inr \<lparr>vf_bytes = bytes, vf_policy = policy, vf_trustDigest = d\<rparr>)))"

definition assertArtifactWindow :: "js \<Rightarrow> int \<Rightarrow> unit res" where
  "assertArtifactWindow artifact now =
     (if now < int_of_js (getf (fields_of artifact) ''notBeforeMs'')
        \<or> now \<ge> int_of_js (getf (fields_of artifact) ''expiresAtMs'')
      then Inl ''POLICY_LIFECYCLE_ARTIFACT_TIME_INVALID_DENIED'' else Inr ())"

definition assertCompatibility :: "js \<Rightarrow> unit res" where
  "assertCompatibility artifact =
     (let c = getf (fields_of (getf (fields_of artifact) ''compatibility'')) in
      if c ''policySchemaVersion'' \<noteq> JStr POC_POLICY_SCHEMA \<or> c ''runtimeApiVersion'' \<noteq> JStr RUNTIME_API
      then Inl ''POLICY_LIFECYCLE_COMPATIBILITY_INVALID_DENIED'' else Inr ())"

subsection \<open>Semantic differences\<close>

definition rank_of :: "js \<Rightarrow> nat" where
  "rank_of outcome = (case map_of OUTCOME_RANK (str_of outcome) of Some r \<Rightarrow> r | None \<Rightarrow> 0)"

definition change_kind :: "js \<Rightarrow> js \<Rightarrow> string" where
  "change_kind before after =
     (let b = rank_of (getf (fields_of before) ''outcome''); a = rank_of (getf (fields_of after) ''outcome'') in
      if a > b then ''AUTHORITY_WIDENING'' else if a < b then ''AUTHORITY_TIGHTENING'' else ''REASON_CHANGE'')"

definition rule_change :: "js \<times> js \<Rightarrow> js list" where
  "rule_change p =
     (case p of (before, after) \<Rightarrow>
        (let b = getf (fields_of before); a = getf (fields_of after) in
         if b ''outcome'' \<noteq> a ''outcome'' \<or> b ''reasonCode'' \<noteq> a ''reasonCode''
         then [obj [(''requestKind'', a ''requestKind''), (''fromOutcome'', b ''outcome''),
                (''toOutcome'', a ''outcome''), (''kind'', JStr (change_kind before after))]]
         else []))"

definition policy_rules :: "js \<Rightarrow> js list" where
  "policy_rules policy = elems_of (getf (fields_of policy) ''rules'')"

definition semanticDiff :: "js option \<Rightarrow> js \<Rightarrow> int option \<Rightarrow> int \<Rightarrow> js" where
  "semanticDiff basePolicy targetPolicy baseGeneration targetGeneration =
     (let changes = (case basePolicy of
            None \<Rightarrow> []
          | Some base \<Rightarrow> concat (map rule_change (zip (policy_rules base) (policy_rules targetPolicy))))
      in obj [(''schemaVersion'', JStr POLICY_SEMANTIC_DIFF_SCHEMA), (''baseGeneration'', int_or_null baseGeneration),
           (''targetGeneration'', jint targetGeneration), (''changes'', arr changes),
           (''authorityWidening'', JBool (list_ex (\<lambda>c. getf (fields_of c) ''kind'' = JStr ''AUTHORITY_WIDENING'') changes))])"

subsection \<open>Entries, receipts and records\<close>

record lc_entry =
  le_generation :: int
  le_artifact :: js
  le_artifactDigest :: string
  le_state :: entry_state
  le_trustDigest :: js
  le_diff :: js
  le_diffDigest :: js
  le_simulationDigest :: js
  le_approval :: js

record lc_receipt_core =
  rc_sequence :: int
  rc_operationId :: string
  rc_transition :: transition
  rc_generation :: int
  rc_artifactDigest :: string
  rc_fromState :: "entry_state option"
  rc_toState :: entry_state
  rc_occurredAtMs :: int
  rc_detailsDigest :: string
  rc_previousReceiptDigest :: "string option"

record lc_receipt = lc_receipt_core +
  rc_receiptDigest :: string

record lc_record =
  lr_revision :: int
  lr_activeGeneration :: "int option"
  lr_lastSafeGeneration :: "int option"
  lr_dispatchActive :: bool
  lr_entries :: "lc_entry list"
  lr_receipts :: "lc_receipt list"

definition lc_entry_js :: "lc_entry \<Rightarrow> js" where
  "lc_entry_js e = obj
     [(''generation'', jint (le_generation e)), (''artifact'', le_artifact e),
      (''artifactDigest'', JStr (le_artifactDigest e)), (''state'', JStr (entry_state_text (le_state e))),
      (''trustSnapshotDigest'', le_trustDigest e), (''diff'', le_diff e), (''diffDigest'', le_diffDigest e),
      (''simulationDigest'', le_simulationDigest e), (''approval'', le_approval e)]"

definition lc_receipt_fields :: "'a lc_receipt_core_scheme \<Rightarrow> fields" where
  "lc_receipt_fields r =
     [(''schemaVersion'', JStr POLICY_LIFECYCLE_RECEIPT_SCHEMA), (''sequence'', jint (rc_sequence r)),
      (''operationId'', JStr (rc_operationId r)), (''transition'', JStr (transition_text (rc_transition r))),
      (''generation'', jint (rc_generation r)), (''artifactDigest'', JStr (rc_artifactDigest r)),
      (''fromState'', str_or_null (map_option entry_state_text (rc_fromState r))),
      (''toState'', JStr (entry_state_text (rc_toState r))),
      (''occurredAtMs'', jint (rc_occurredAtMs r)), (''detailsDigest'', JStr (rc_detailsDigest r)),
      (''previousReceiptDigest'', str_or_null (rc_previousReceiptDigest r))]"

definition lc_receipt_js :: "lc_receipt \<Rightarrow> js" where
  "lc_receipt_js r = obj (lc_receipt_fields r @ [(''receiptDigest'', JStr (rc_receiptDigest r))])"

definition lc_record_fields :: "lc_record \<Rightarrow> fields" where
  "lc_record_fields r =
     [(''schemaVersion'', JStr POLICY_LIFECYCLE_RECORD_SCHEMA), (''tenant'', JStr POC_TENANT),
      (''policyId'', JStr POC_POLICY_ID), (''revision'', jint (lr_revision r)),
      (''activeGeneration'', int_or_null (lr_activeGeneration r)),
      (''lastSafeGeneration'', int_or_null (lr_lastSafeGeneration r)),
      (''dispatch'', JStr (if lr_dispatchActive r then ''ACTIVE'' else ''FROZEN'')),
      (''entries'', arr (map lc_entry_js (lr_entries r))), (''receipts'', arr (map lc_receipt_js (lr_receipts r)))]"

subsection \<open>Approvals\<close>

definition APPROVAL_PREFIX :: string where
  "APPROVAL_PREFIX = ''policy-lifecycle-approval-v1'' @ newline"

definition approval_fields :: "fields \<Rightarrow> fields" where
  "approval_fields fs =
     [(''schemaVersion'', JStr POLICY_LIFECYCLE_APPROVAL_SCHEMA), (''tenant'', getf fs ''tenant''),
      (''policyId'', getf fs ''policyId''), (''generation'', getf fs ''generation''),
      (''artifactDigest'', getf fs ''artifactDigest''), (''diffDigest'', getf fs ''diffDigest''),
      (''simulationDigest'', getf fs ''simulationDigest''), (''allowWidening'', getf fs ''allowWidening''),
      (''issuedAtMs'', getf fs ''issuedAtMs''), (''expiresAtMs'', getf fs ''expiresAtMs'')]"

definition approval_binding :: "lc_runtime \<Rightarrow> string \<Rightarrow> fields \<Rightarrow> string" where
  "approval_binding rt token core = hmac rt token (APPROVAL_PREFIX @ gateJson (obj core))"

definition createLocalOwnerLifecycleApproval :: "lc_runtime \<Rightarrow> string \<Rightarrow> fields \<Rightarrow> js res" where
  "createLocalOwnerLifecycleApproval rt token given =
     (let core = approval_fields given; f = getf core in
      if \<not> ownerToken token then Inl ''POLICY_LIFECYCLE_OWNER_KEY_INVALID_DENIED''
      else if \<not> isGeneration (f ''generation'') \<or> \<not> str_test hex64 (f ''artifactDigest'')
        \<or> \<not> str_test hex64 (f ''diffDigest'') \<or> \<not> str_test hex64 (f ''simulationDigest'')
        \<or> \<not> is_bool (f ''allowWidening'') \<or> \<not> isTime (f ''issuedAtMs'') \<or> \<not> isTime (f ''expiresAtMs'')
        \<or> int_of_js (f ''issuedAtMs'') \<ge> int_of_js (f ''expiresAtMs'') then Inl APPROVAL_INVALID
      else Inr (obj (core @ [(''binding'', JStr (approval_binding rt token core))])))"

definition APPROVAL_KEYS :: "string list" where
  "APPROVAL_KEYS = [''allowWidening'', ''artifactDigest'', ''binding'', ''diffDigest'', ''expiresAtMs'',
     ''generation'', ''issuedAtMs'', ''policyId'', ''schemaVersion'', ''simulationDigest'', ''tenant'']"

text \<open>The two secrets compared with an entry are digests the manager wrote itself.\<close>

definition sameSecret :: "js \<Rightarrow> js \<Rightarrow> bool" where
  "sameSecret presented own = equalSecret presented (str_of own)"

definition validateApproval :: "lc_runtime \<Rightarrow> string \<Rightarrow> js \<Rightarrow> lc_entry \<Rightarrow> int \<Rightarrow> unit res" where
  "validateApproval rt token approval entry now =
     (let f = getf (fields_of approval); core = approval_fields (fields_of approval) in
      if \<not> gateKeys approval APPROVAL_KEYS then Inl APPROVAL_INVALID
      else if f ''schemaVersion'' \<noteq> JStr POLICY_LIFECYCLE_APPROVAL_SCHEMA \<or> f ''tenant'' \<noteq> JStr POC_TENANT
        \<or> f ''policyId'' \<noteq> JStr POC_POLICY_ID \<or> f ''generation'' \<noteq> jint (le_generation entry)
        \<or> \<not> equalSecret (f ''artifactDigest'') (le_artifactDigest entry)
        \<or> \<not> sameSecret (f ''diffDigest'') (le_diffDigest entry)
        \<or> \<not> sameSecret (f ''simulationDigest'') (le_simulationDigest entry)
        \<or> \<not> is_bool (f ''allowWidening'') then Inl APPROVAL_INVALID
      else if \<not> str_test hex64 (f ''artifactDigest'') \<or> \<not> str_test hex64 (f ''diffDigest'')
        \<or> \<not> str_test hex64 (f ''simulationDigest'') \<or> \<not> str_test hex64 (f ''binding'')
        \<or> \<not> isTime (f ''issuedAtMs'') \<or> \<not> isTime (f ''expiresAtMs'') then Inl APPROVAL_INVALID
      else if int_of_js (f ''issuedAtMs'') \<ge> int_of_js (f ''expiresAtMs'') \<or> now < int_of_js (f ''issuedAtMs'')
        \<or> now \<ge> int_of_js (f ''expiresAtMs'') then Inl ''POLICY_LIFECYCLE_APPROVAL_EXPIRED_DENIED''
      else if \<not> equalSecret (f ''binding'') (approval_binding rt token core) then Inl APPROVAL_INVALID
      else if getf (fields_of (le_diff entry)) ''authorityWidening'' = JBool True
        \<and> f ''allowWidening'' \<noteq> JBool True
      then Inl ''POLICY_LIFECYCLE_WIDENING_APPROVAL_REQUIRED_DENIED''
      else Inr ())"

subsection \<open>Issuing artifacts\<close>

text \<open>The fields an issuer chooses, and what it signs. The times and the generation are checked
  only by the closing \<open>validateArtifactStructure\<close>.\<close>

record artifact_request =
  aq_policyBytes :: string
  aq_generation :: js
  aq_issuer :: js
  aq_keyId :: js
  aq_issuedAtMs :: js
  aq_notBeforeMs :: js
  aq_expiresAtMs :: js
  aq_tenant :: js
  aq_policyId :: js
  aq_policySchemaVersion :: js
  aq_runtimeApiVersion :: js

definition artifact_core :: "lc_runtime \<Rightarrow> artifact_request \<Rightarrow> js \<Rightarrow> fields" where
  "artifact_core rt q policy =
     [(''schemaVersion'', JStr SIGNED_POLICY_ARTIFACT_SCHEMA), (''tenant'', aq_tenant q),
      (''policyId'', aq_policyId q), (''generation'', aq_generation q), (''issuer'', aq_issuer q),
      (''keyId'', aq_keyId q), (''issuedAtMs'', aq_issuedAtMs q), (''notBeforeMs'', aq_notBeforeMs q),
      (''expiresAtMs'', aq_expiresAtMs q),
      (''compatibility'', obj [(''policySchemaVersion'', aq_policySchemaVersion q),
         (''runtimeApiVersion'', aq_runtimeApiVersion q)]),
      (''policySourceBase64'', JStr (to_base64 (aq_policyBytes q))),
      (''policySourceDigest'', JStr (sha rt (aq_policyBytes q))),
      (''policySemanticDigest'', JStr (json_digest rt policy))]"

definition createSignedPolicyArtifact :: "lc_runtime \<Rightarrow> string \<Rightarrow> artifact_request \<Rightarrow> js res" where
  "createSignedPolicyArtifact rt privateKey q =
     (if length (aq_policyBytes q) = 0 \<or> length (aq_policyBytes q) > MAX_POLICY_BYTES then Inl ARTIFACT_INVALID
      else
        (case parse_json rt (aq_policyBytes q) of
           None \<Rightarrow> Inl ARTIFACT_INVALID
         | Some policy \<Rightarrow>
             if \<not> validateLifecyclePolicyShape policy then Inl ARTIFACT_INVALID
             else
               (let core = artifact_core rt q policy;
                    artifact = obj (core @ [(''signature'', obj [(''algorithm'', JStr ''Ed25519''),
                      (''valueBase64'', JStr (to_base64 (sign_text rt privateKey (gateJson (obj core)))))])])
                in (case validateArtifactStructure rt artifact of
                      None \<Rightarrow> Inl ARTIFACT_INVALID
                    | Some _ \<Rightarrow> Inr artifact))))"

end
