(* ===== verification/Lifecycle.thy ===== *)
theory Lifecycle
  imports LifecycleTypes
begin

text \<open>
  \<open>demo/management/policy-lifecycle.mjs\<close>, the manager: the check and the writing of its record, and
  its operations. The state is the record in memory, the file, and the policy fence the manager
  drives. As for the fence, \<open>writes\<close> says whether the write of the record in this call succeeds;
  \<open>fence_writes\<close> says it for the file of the fence, \<open>freeze_writes\<close> for its second write, the freeze that
  a failed activation ends with. \<open>clock i\<close> is the \<open>i\<close>-th reading of the manager's clock in the call,
  \<open>fence_clock\<close> and \<open>freeze_clock\<close> those of the fence. \<open>trusted\<close> is what the configured callback
  \<open>trustStore()\<close> returns in the call; its answers may change between calls, \<open>trustStores\<close> are all of them.
\<close>

subsection \<open>Configuration and state\<close>

record lc_config =
  ownerApprovalToken :: string
  ownerActivationToken :: string
  fenceToken :: string
  trustStores :: "trust_store set"

record lc_env =
  clock :: "nat \<Rightarrow> int"
  fence_clock :: int
  writes :: bool
  fence_writes :: bool
  freeze_clock :: int
  freeze_writes :: bool
  trusted :: trust_store

record lc_manager =
  lm_file :: json_file
  lm_memory :: "lc_record option"
  lm_fence :: fence

subsection \<open>Checking a record\<close>

definition RECEIPT_KEYS_LC :: "string list" where
  "RECEIPT_KEYS_LC = [''artifactDigest'', ''detailsDigest'', ''fromState'', ''generation'', ''occurredAtMs'',
     ''operationId'', ''previousReceiptDigest'', ''receiptDigest'', ''schemaVersion'', ''sequence'', ''toState'',
     ''transition'']"

definition RECORD_KEYS_LC :: "string list" where
  "RECORD_KEYS_LC = [''activeGeneration'', ''dispatch'', ''entries'', ''lastSafeGeneration'', ''policyId'',
     ''receipts'', ''recordBinding'', ''revision'', ''schemaVersion'', ''tenant'']"

definition lc_signRecord :: "lc_runtime \<Rightarrow> string \<Rightarrow> fields \<Rightarrow> string" where
  "lc_signRecord rt token core = hmac rt token (''policy-lifecycle-record-v1'' @ newline @ gateJson (obj core))"

text \<open>The loop over the entries, with the generations seen so far.\<close>

fun validEntries :: "lc_runtime \<Rightarrow> js list \<Rightarrow> js list \<Rightarrow> bool" where
  "validEntries rt [] generations = True"
| "validEntries rt (v # vs) generations =
     (let f = getf (fields_of v) in
      \<not> (\<not> is_record v \<or> memberOf entry_state_text ENTRY_STATES (f ''state'') = None)
      \<and> validateArtifactStructure rt (f ''artifact'') \<noteq> None
      \<and> isGeneration (f ''generation'') \<and> str_test hex64 (f ''artifactDigest'')
      \<and> getf (fields_of (f ''artifact'')) ''generation'' = f ''generation''
      \<and> JStr (artifactDigest rt (f ''artifact'')) = f ''artifactDigest''
      \<and> f ''generation'' \<notin> set generations
      \<and> validEntries rt vs (generations @ [f ''generation'']))"

text \<open>The loop over the receipts, with the position, the digest before, and the operations so far.\<close>

fun validReceipts :: "lc_runtime \<Rightarrow> js list \<Rightarrow> int \<Rightarrow> js \<Rightarrow> js list \<Rightarrow> bool" where
  "validReceipts rt [] index previous operations = True"
| "validReceipts rt (v # vs) index previous operations =
     (let f = getf (fields_of v) in
      gateKeys v RECEIPT_KEYS_LC
      \<and> \<not> (f ''schemaVersion'' \<noteq> JStr POLICY_LIFECYCLE_RECEIPT_SCHEMA \<or> f ''sequence'' \<noteq> jint (index + 1)
          \<or> memberOf transition_text TRANSITIONS (f ''transition'') = None
          \<or> f ''previousReceiptDigest'' \<noteq> previous \<or> f ''operationId'' \<in> set operations)
      \<and> str_test (rx_test OPERATION_ID_PATTERN) (f ''operationId'') \<and> isGeneration (f ''generation'')
      \<and> isTime (f ''occurredAtMs'') \<and> str_test hex64 (f ''artifactDigest'') \<and> str_test hex64 (f ''detailsDigest'')
      \<and> str_test hex64 (f ''receiptDigest'')
      \<and> JStr (json_digest rt (obj (without ''receiptDigest'' (fields_of v)))) = f ''receiptDigest''
      \<and> validReceipts rt vs (index + 1) (f ''receiptDigest'') (operations @ [f ''operationId'']))"

definition readState :: "js \<Rightarrow> entry_state" where
  "readState v = (case memberOf entry_state_text ENTRY_STATES v of Some s \<Rightarrow> s | None \<Rightarrow> DRAFT)"

definition readEntry :: "js \<Rightarrow> lc_entry" where
  "readEntry v =
     (let f = getf (fields_of v) in
      \<lparr>le_generation = int_of_js (f ''generation''), le_artifact = f ''artifact'',
       le_artifactDigest = str_of (f ''artifactDigest''), le_state = readState (f ''state''),
       le_trustDigest = f ''trustSnapshotDigest'', le_diff = f ''diff'', le_diffDigest = f ''diffDigest'',
       le_simulationDigest = f ''simulationDigest'', le_approval = f ''approval''\<rparr>)"

definition readReceipt :: "js \<Rightarrow> lc_receipt" where
  "readReceipt v =
     (let f = getf (fields_of v) in
      \<lparr>rc_sequence = int_of_js (f ''sequence''), rc_operationId = str_of (f ''operationId''),
       rc_transition = the (memberOf transition_text TRANSITIONS (f ''transition'')),
       rc_generation = int_of_js (f ''generation''), rc_artifactDigest = str_of (f ''artifactDigest''),
       rc_fromState = memberOf entry_state_text ENTRY_STATES (f ''fromState''),
       rc_toState = readState (f ''toState''), rc_occurredAtMs = int_of_js (f ''occurredAtMs''),
       rc_detailsDigest = str_of (f ''detailsDigest''),
       rc_previousReceiptDigest = (if f ''previousReceiptDigest'' = JNull then None
         else Some (str_of (f ''previousReceiptDigest''))),
       rc_receiptDigest = str_of (f ''receiptDigest'')\<rparr>)"

definition int_option :: "js \<Rightarrow> int option" where
  "int_option v = (if v = JNull then None else Some (int_of_js v))"

definition readRecord :: "js \<Rightarrow> lc_record" where
  "readRecord v =
     (let f = getf (fields_of v) in
      \<lparr>lr_revision = int_of_js (f ''revision''), lr_activeGeneration = int_option (f ''activeGeneration''),
       lr_lastSafeGeneration = int_option (f ''lastSafeGeneration''),
       lr_dispatchActive = (f ''dispatch'' = JStr ''ACTIVE''),
       lr_entries = map readEntry (elems_of (f ''entries'')),
       lr_receipts = map readReceipt (elems_of (f ''receipts''))\<rparr>)"

text \<open>\<open>validateRecord\<close>: the code has one error code for all of it.\<close>

definition lc_validateRecord :: "lc_runtime \<Rightarrow> string \<Rightarrow> js \<Rightarrow> lc_record res" where
  "lc_validateRecord rt token v =
     (let f = getf (fields_of v); es = elems_of (f ''entries'');
          generations = map (\<lambda>e. getf (fields_of e) ''generation'') es in
      if \<not> gateKeys v RECORD_KEYS_LC then Inl RECORD_INVALID
      else if f ''schemaVersion'' \<noteq> JStr POLICY_LIFECYCLE_RECORD_SCHEMA \<or> f ''tenant'' \<noteq> JStr POC_TENANT
        \<or> f ''policyId'' \<noteq> JStr POC_POLICY_ID \<or> \<not> is_safe_integer (f ''revision'')
        \<or> int_of_js (f ''revision'') < 1 \<or> \<not> is_array (f ''entries'') \<or> \<not> is_array (f ''receipts'')
        \<or> int_of_js (f ''revision'') \<noteq> int (length (elems_of (f ''receipts'')))
        \<or> (f ''dispatch'' \<noteq> JStr ''ACTIVE'' \<and> f ''dispatch'' \<noteq> JStr ''FROZEN'') then Inl RECORD_INVALID
      else if \<not> str_test hex64 (f ''recordBinding'') then Inl RECORD_INVALID
      else if \<not> validEntries rt es [] then Inl RECORD_INVALID
      else if f ''activeGeneration'' \<noteq> JNull
        \<and> (f ''activeGeneration'' \<notin> set generations
           \<or> map_option (\<lambda>e. getf (fields_of e) ''state'')
               (List.find (\<lambda>e. getf (fields_of e) ''generation'' = f ''activeGeneration'') es)
             \<noteq> Some (JStr ''ACTIVE'')) then Inl RECORD_INVALID
      else if f ''lastSafeGeneration'' \<noteq> JNull \<and> f ''lastSafeGeneration'' \<notin> set generations
      then Inl RECORD_INVALID
      else if \<not> validReceipts rt (elems_of (f ''receipts'')) 0 JNull [] then Inl RECORD_INVALID
      else if \<not> equalSecret (f ''recordBinding'')
            (lc_signRecord rt token (without ''recordBinding'' (fields_of v))) then Inl RECORD_INVALID
      else Inr (readRecord v))"

definition lc_record_js :: "lc_runtime \<Rightarrow> string \<Rightarrow> lc_record \<Rightarrow> js" where
  "lc_record_js rt token r =
     obj (lc_record_fields r @ [(''recordBinding'', JStr (lc_signRecord rt token (lc_record_fields r)))])"

subsection \<open>Loading and writing\<close>

definition new_manager :: "lc_runtime \<Rightarrow> lc_config \<Rightarrow> json_file \<Rightarrow> fence \<Rightarrow> lc_manager res" where
  "new_manager rt cfg file w =
     (if \<not> ownerToken (ownerApprovalToken cfg) \<or> \<not> ownerToken (ownerActivationToken cfg)
      then Inl ''POLICY_LIFECYCLE_OWNER_KEY_INVALID_DENIED''
      else
        (case file of
           NoFile \<Rightarrow> Inr \<lparr>lm_file = file, lm_memory = None, lm_fence = w\<rparr>
         | Unparsable \<Rightarrow> Inl RECORD_INVALID
         | Json v \<Rightarrow> res_bind (lc_validateRecord rt (ownerApprovalToken cfg) v)
             (\<lambda>r. Inr \<lparr>lm_file = file, lm_memory = Some r, lm_fence = w\<rparr>)))"

definition lc_load :: "lc_runtime \<Rightarrow> lc_config \<Rightarrow> lc_manager \<Rightarrow> (lc_record option \<times> lc_manager) res" where
  "lc_load rt cfg m =
     (if lm_memory m = None then Inr (None, m)
      else
        (case lm_file m of
           Json v \<Rightarrow> res_bind (lc_validateRecord rt (ownerApprovalToken cfg) v)
             (\<lambda>r. Inr (Some r, m\<lparr>lm_memory := Some r\<rparr>))
         | _ \<Rightarrow> Inl RECORD_INVALID))"

definition lc_persist :: "lc_runtime \<Rightarrow> lc_config \<Rightarrow> lc_env \<Rightarrow> lc_manager \<Rightarrow> lc_record \<Rightarrow> lc_manager res" where
  "lc_persist rt cfg env m r =
     (let v = lc_record_js rt (ownerApprovalToken cfg) r in
      res_bind (lc_validateRecord rt (ownerApprovalToken cfg) v) (\<lambda>_.
        if \<not> writes env then Inl WRITE_ERROR
        else Inr (m\<lparr>lm_file := Json v, lm_memory := Some r\<rparr>)))"

subsection \<open>The next record\<close>

definition set_entry :: "lc_entry \<Rightarrow> lc_entry list \<Rightarrow> lc_entry list" where
  "set_entry e es = map (\<lambda>x. if le_generation x = le_generation e then e else x) es"

definition nextRecord ::
  "lc_runtime \<Rightarrow> int \<Rightarrow> lc_record \<Rightarrow> lc_entry \<Rightarrow> js \<Rightarrow> transition \<Rightarrow> entry_state option \<Rightarrow> entry_state \<Rightarrow> js
    \<Rightarrow> (lc_record \<times> lc_receipt) res" where
  "nextRecord rt now r e operationId tr fromState toState details =
     (if \<not> str_test (rx_test OPERATION_ID_PATTERN) operationId
      then Inl ''POLICY_LIFECYCLE_OPERATION_ID_INVALID_DENIED''
      else if list_ex (\<lambda>x. rc_operationId x = str_of operationId) (lr_receipts r)
      then Inl ''POLICY_LIFECYCLE_OPERATION_REPLAY_DENIED''
      else if \<not> isTime (jint now) then Inl CLOCK_INVALID
      else
        (let core = \<lparr>rc_sequence = int (length (lr_receipts r)) + 1, rc_operationId = str_of operationId,
               rc_transition = tr, rc_generation = le_generation e, rc_artifactDigest = le_artifactDigest e,
               rc_fromState = fromState, rc_toState = toState, rc_occurredAtMs = now,
               rc_detailsDigest = json_digest rt details,
               rc_previousReceiptDigest = map_option rc_receiptDigest (at_last (lr_receipts r))\<rparr>;
             receipt = lc_receipt_core.extend core
               (lc_receipt.fields (json_digest rt (obj (lc_receipt_fields core))))
         in Inr (r\<lparr>lr_revision := lr_revision r + 1,
                   lr_entries := set_entry (e\<lparr>le_state := toState\<rparr>) (lr_entries r),
                   lr_receipts := lr_receipts r @ [receipt]\<rparr>, receipt)))"

definition lc_entryFor :: "lc_record option \<Rightarrow> js \<Rightarrow> lc_entry res" where
  "lc_entryFor r generation =
     (if \<not> isGeneration generation then Inl ''POLICY_LIFECYCLE_GENERATION_INVALID_DENIED''
      else
        (case r of
           None \<Rightarrow> Inl ''POLICY_LIFECYCLE_GENERATION_UNKNOWN_DENIED''
         | Some x \<Rightarrow>
             (case List.find (\<lambda>e. le_generation e = int_of_js generation) (lr_entries x) of
                None \<Rightarrow> Inl ''POLICY_LIFECYCLE_GENERATION_UNKNOWN_DENIED''
              | Some e \<Rightarrow> Inr e)))"

definition trustAndTime :: "lc_runtime \<Rightarrow> lc_env \<Rightarrow> lc_entry \<Rightarrow> verified res" where
  "trustAndTime rt env e =
     (if \<not> isTime (jint (clock env 0)) then Inl CLOCK_INVALID
      else
        (let f = getf (fields_of (le_artifact e)) in
         res_bind (trustSnapshot rt (trusted env) (str_of (f ''issuer'')) (str_of (f ''keyId''))) (\<lambda>(_, d).
           if le_trustDigest e \<noteq> JNull \<and> \<not> equalSecret (le_trustDigest e) d
           then Inl ''POLICY_LIFECYCLE_TRUST_DRIFT_DENIED''
           else res_bind (verifyArtifact rt (le_artifact e) (trusted env)) (\<lambda>verified.
             res_bind (assertArtifactWindow (le_artifact e) (clock env 0)) (\<lambda>_.
               res_bind (assertCompatibility (le_artifact e)) (\<lambda>_. Inr verified))))))"

subsection \<open>The operations up to staging\<close>

text \<open>What an operation on a generation starts with: load the record, find the entry.\<close>

definition withEntry ::
  "lc_runtime \<Rightarrow> lc_config \<Rightarrow> lc_manager \<Rightarrow> js \<Rightarrow> (lc_manager \<Rightarrow> lc_record \<Rightarrow> lc_entry \<Rightarrow> lc_manager \<times> 'a res)
    \<Rightarrow> lc_manager \<times> 'a res" where
  "withEntry rt cfg m generation body =
     (case lc_load rt cfg m of
        Inl e \<Rightarrow> (m, Inl e)
      | Inr (current, m') \<Rightarrow>
          (case lc_entryFor current generation of
             Inl e \<Rightarrow> (m', Inl e)
           | Inr entry \<Rightarrow> body m' (the current) entry))"

text \<open>What most operations end with: derive the next record and write it.\<close>

definition commit ::
  "lc_runtime \<Rightarrow> lc_config \<Rightarrow> lc_env \<Rightarrow> lc_manager \<Rightarrow> (lc_record \<times> lc_receipt) res \<Rightarrow> lc_manager \<times> lc_receipt res" where
  "commit rt cfg env m next_record =
     (case next_record of
        Inl e \<Rightarrow> (m, Inl e)
      | Inr (r, receipt) \<Rightarrow>
          (case lc_persist rt cfg env m r of
             Inl e \<Rightarrow> (m, Inl e)
           | Inr m' \<Rightarrow> (m', Inr receipt)))"

definition empty_record :: lc_record where
  "empty_record = \<lparr>lr_revision = 0, lr_activeGeneration = None, lr_lastSafeGeneration = None,
     lr_dispatchActive = False, lr_entries = [], lr_receipts = []\<rparr>"

definition drafted_entry :: "lc_runtime \<Rightarrow> js \<Rightarrow> string \<Rightarrow> lc_entry" where
  "drafted_entry rt artifact trustDigest =
     \<lparr>le_generation = int_of_js (getf (fields_of artifact) ''generation''), le_artifact = artifact,
      le_artifactDigest = artifactDigest rt artifact, le_state = DRAFT, le_trustDigest = JStr trustDigest,
      le_diff = JNull, le_diffDigest = JNull, le_simulationDigest = JNull, le_approval = JNull\<rparr>"

definition lc_draft ::
  "lc_runtime \<Rightarrow> lc_config \<Rightarrow> lc_env \<Rightarrow> lc_manager \<Rightarrow> js \<Rightarrow> js \<Rightarrow> lc_manager \<times> lc_receipt res" where
  "lc_draft rt cfg env m artifact operationId =
     (case verifyArtifact rt artifact (trusted env) of
        Inl e \<Rightarrow> (m, Inl e)
      | Inr verified \<Rightarrow>
          if \<not> isTime (jint (clock env 0)) then (m, Inl CLOCK_INVALID)
          else
            (case assertArtifactWindow artifact (clock env 0) of
               Inl e \<Rightarrow> (m, Inl e)
             | Inr _ \<Rightarrow>
                 (case lc_load rt cfg m of
                    Inl e \<Rightarrow> (m, Inl e)
                  | Inr (current, m') \<Rightarrow>
                      (let entry = drafted_entry rt artifact (vf_trustDigest verified);
                           base = (case current of None \<Rightarrow> empty_record | Some r \<Rightarrow> r) in
                       if list_ex (\<lambda>e. le_generation e = le_generation entry) (lr_entries base)
                       then (m', Inl ''POLICY_LIFECYCLE_GENERATION_REPLAY_DENIED'')
                       else if current \<noteq> None \<and> list_ex (\<lambda>e. le_generation entry \<le> le_generation e) (lr_entries base)
                       then (m', Inl ''POLICY_LIFECYCLE_GENERATION_STALE_DENIED'')
                       else commit rt cfg env m'
                         (nextRecord rt (clock env 1) (base\<lparr>lr_entries := lr_entries base @ [entry]\<rparr>) entry operationId
                           T_DRAFTED None DRAFT
                           (obj [(''signed'', JBool True), (''trustSnapshotDigest'', JStr (vf_trustDigest verified))]))))))"

text \<open>The policy of the active generation, against which a draft is compared.\<close>

definition basePolicy :: "lc_runtime \<Rightarrow> lc_record \<Rightarrow> js option res" where
  "basePolicy rt r =
     (case lr_activeGeneration r of
        None \<Rightarrow> Inr None
      | Some g \<Rightarrow> res_bind (lc_entryFor (Some r) (jint g)) (\<lambda>active.
          case decodePolicy rt (getf (fields_of (le_artifact active)) ''policySourceBase64'') of
            None \<Rightarrow> Inl ARTIFACT_INVALID
          | Some (bytes, policy) \<Rightarrow> Inr (Some policy)))"

definition replace_entry :: "lc_entry \<Rightarrow> lc_record \<Rightarrow> lc_record" where
  "replace_entry e r = r\<lparr>lr_entries := set_entry e (lr_entries r)\<rparr>"

definition lc_validate ::
  "lc_runtime \<Rightarrow> lc_config \<Rightarrow> lc_env \<Rightarrow> lc_manager \<Rightarrow> js \<Rightarrow> js \<Rightarrow> lc_manager \<times> lc_receipt res" where
  "lc_validate rt cfg env m generation operationId =
     withEntry rt cfg m generation (\<lambda>m' current entry.
       if le_state entry \<noteq> DRAFT then (m', Inl TRANSITION_INVALID)
       else
         (case res_bind (trustAndTime rt env entry) (\<lambda>v. res_bind (basePolicy rt current) (\<lambda>base. Inr (v, base))) of
            Inl e \<Rightarrow> (m', Inl e)
          | Inr (verified, base) \<Rightarrow>
              (let diff = semanticDiff base (vf_policy verified) (lr_activeGeneration current) (le_generation entry);
                   diffDigest = json_digest rt diff;
                   next_entry = entry\<lparr>le_diff := diff, le_diffDigest := JStr diffDigest\<rparr>
               in commit rt cfg env m'
                    (nextRecord rt (clock env 1) (replace_entry next_entry current) next_entry operationId
                      T_VALIDATED (Some DRAFT) VALIDATED
                      (obj [(''diffDigest'', JStr diffDigest),
                        (''authorityWidening'', getf (fields_of diff) ''authorityWidening'')])))))"

definition simulation_js :: "lc_entry \<Rightarrow> js" where
  "simulation_js e = obj
     [(''schemaVersion'', JStr ''chimpmaera.demo/policy-lifecycle-simulation/v1''),
      (''artifactDigest'', JStr (le_artifactDigest e)), (''diffDigest'', le_diffDigest e),
      (''simulator'', JStr ''closed-static-policy-simulator-v1''), (''outcome'', JStr ''PASS'')]"

definition lc_simulate ::
  "lc_runtime \<Rightarrow> lc_config \<Rightarrow> lc_env \<Rightarrow> lc_manager \<Rightarrow> js \<Rightarrow> js \<Rightarrow> lc_manager \<times> lc_receipt res" where
  "lc_simulate rt cfg env m generation operationId =
     withEntry rt cfg m generation (\<lambda>m' current entry.
       if le_state entry \<noteq> VALIDATED then (m', Inl TRANSITION_INVALID)
       else
         (case trustAndTime rt env entry of
            Inl e \<Rightarrow> (m', Inl e)
          | Inr _ \<Rightarrow>
              (let next_entry = entry\<lparr>le_simulationDigest := JStr (json_digest rt (simulation_js entry))\<rparr>
               in commit rt cfg env m'
                    (nextRecord rt (clock env 1) (replace_entry next_entry current) next_entry operationId
                      T_SIMULATED (Some VALIDATED) SIMULATED (simulation_js entry)))))"

definition lc_approve ::
  "lc_runtime \<Rightarrow> lc_config \<Rightarrow> lc_env \<Rightarrow> lc_manager \<Rightarrow> js \<Rightarrow> js \<Rightarrow> js \<Rightarrow> lc_manager \<times> lc_receipt res" where
  "lc_approve rt cfg env m generation approval operationId =
     withEntry rt cfg m generation (\<lambda>m' current entry.
       if le_state entry \<noteq> SIMULATED then (m', Inl TRANSITION_INVALID)
       else
         (case res_bind (trustAndTime rt env entry) (\<lambda>_.
                 validateApproval rt (ownerApprovalToken cfg) approval entry (clock env 1)) of
            Inl e \<Rightarrow> (m', Inl e)
          | Inr _ \<Rightarrow>
              (let next_entry = entry\<lparr>le_approval := approval\<rparr>
               in commit rt cfg env m'
                    (nextRecord rt (clock env 2) (replace_entry next_entry current) next_entry operationId
                      T_APPROVED (Some SIMULATED) APPROVED
                      (obj [(''approvalDigest'', JStr (json_digest rt approval)),
                        (''allowWidening'', getf (fields_of approval) ''allowWidening'')])))))"

definition lc_stage ::
  "lc_runtime \<Rightarrow> lc_config \<Rightarrow> lc_env \<Rightarrow> lc_manager \<Rightarrow> js \<Rightarrow> js \<Rightarrow> lc_manager \<times> lc_receipt res" where
  "lc_stage rt cfg env m generation operationId =
     withEntry rt cfg m generation (\<lambda>m' current entry.
       if le_state entry \<noteq> APPROVED then (m', Inl TRANSITION_INVALID)
       else
         (case res_bind (trustAndTime rt env entry) (\<lambda>v.
                 res_bind (validateApproval rt (ownerApprovalToken cfg) (le_approval entry) entry (clock env 1)) (\<lambda>_.
                   if \<not> validateAdminAiPocPolicy (vf_policy v)
                   then Inl ''POLICY_LIFECYCLE_RUNTIME_POLICY_INCOMPATIBLE_DENIED'' else Inr ())) of
            Inl e \<Rightarrow> (m', Inl e)
          | Inr _ \<Rightarrow> commit rt cfg env m'
              (nextRecord rt (clock env 2) current entry operationId T_STAGED (Some APPROVED) STAGED
                (obj [(''runtimePolicyValidated'', JBool True)]))))"

subsection \<open>Activation\<close>

text \<open>The entries after an activation: the new generation is active, the previous one superseded.\<close>

definition supersede :: "int option \<Rightarrow> lc_entry \<Rightarrow> lc_entry" where
  "supersede previous e =
     (if Some (le_generation e) = previous \<and> le_state e = ENTRY_ACTIVE then e\<lparr>le_state := SUPERSEDED\<rparr> else e)"

definition activated_entry :: "int \<Rightarrow> int option \<Rightarrow> lc_entry \<Rightarrow> lc_entry" where
  "activated_entry generation previous e =
     (if le_generation e = generation then e\<lparr>le_state := ENTRY_ACTIVE\<rparr> else supersede previous e)"

definition activated_record :: "int \<Rightarrow> lc_record \<Rightarrow> lc_record" where
  "activated_record generation r =
     r\<lparr>lr_entries := map (activated_entry generation (lr_activeGeneration r)) (lr_entries r),
       lr_activeGeneration := Some generation,
       lr_lastSafeGeneration := (case lr_activeGeneration r of None \<Rightarrow> Some generation | Some g \<Rightarrow> Some g),
       lr_dispatchActive := True\<rparr>"

text \<open>
  \<open>activate\<close>: the fence is switched before the record of the manager is derived and written. When the write
  fails the dispatch of the fence is frozen; when the record cannot be derived (a replayed
  operation, an invalid clock) the fence stays switched.
\<close>

definition lc_activate ::
  "lc_runtime \<Rightarrow> lc_config \<Rightarrow> lc_env \<Rightarrow> lc_manager \<Rightarrow> js \<Rightarrow> js \<Rightarrow> lc_manager \<times> (lc_receipt \<times> active_policy) res" where
  "lc_activate rt cfg env m generation operationId =
     withEntry rt cfg m generation (\<lambda>m' current entry.
       if le_state entry \<noteq> STAGED then (m', Inl TRANSITION_INVALID)
       else
         (case res_bind (trustAndTime rt env entry) (\<lambda>v.
                 res_bind (validateApproval rt (ownerApprovalToken cfg) (le_approval entry) entry (clock env 1)) (\<lambda>_.
                 res_bind (createPolicyActivationCandidate (base_rt rt) (vf_bytes v) (le_generation entry)) (\<lambda>candidate.
                 res_bind (createLocalOwnerPolicyAuthorization (base_rt rt) candidate (ownerActivationToken cfg) (clock env 2))
                   (\<lambda>authorization. Inr (candidate, authorization))))) of
            Inl e \<Rightarrow> (m', Inl e)
          | Inr (candidate, authorization) \<Rightarrow>
              (case fence_activate (base_rt rt) (fenceToken cfg) (fence_writes env) (fence_clock env) (lm_fence m')
                      (fence_candidate_js candidate) authorization of
                 (w, Inl e) \<Rightarrow> (m'\<lparr>lm_fence := w\<rparr>, Inl e)
               | (w, Inr active) \<Rightarrow>
                   (let m'' = m'\<lparr>lm_fence := w\<rparr>;
                        g = le_generation entry;
                        next_current = activated_record g current in
                    case res_bind (lc_entryFor (Some next_current) (jint g)) (\<lambda>active_entry.
                        nextRecord rt (clock env 3) next_current active_entry operationId T_ACTIVATED (Some STAGED)
                          ENTRY_ACTIVE
                          (obj [(''policySourceDigest'', JStr (fc_sourceDigest (ap_snapshot active))),
                            (''previousActiveGeneration'', int_or_null (lr_activeGeneration current)),
                            (''lastSafeGeneration'', int_or_null (lr_lastSafeGeneration next_current))])) of
                      Inl e \<Rightarrow> (m'', Inl e)
                    | Inr (r, receipt) \<Rightarrow>
                        (case lc_persist rt cfg env m''
                            (r\<lparr>lr_entries := map (supersede (lr_activeGeneration current)) (lr_entries r),
                               lr_activeGeneration := Some g,
                               lr_lastSafeGeneration := lr_lastSafeGeneration next_current,
                               lr_dispatchActive := True\<rparr>) of
                           Inr m3 \<Rightarrow> (m3, Inr (receipt, active))
                         | Inl e \<Rightarrow>
                             (case freezeDispatch (base_rt rt) (fenceToken cfg) (freeze_writes env) (freeze_clock env) w
                                     ''ACTIVATION_CONVERGENCE_FAILED'' of
                                (w', Inl e') \<Rightarrow> (m''\<lparr>lm_fence := w'\<rparr>, Inl e')
                              | (w', Inr _) \<Rightarrow> (m''\<lparr>lm_fence := w'\<rparr>,
                                  Inl ''POLICY_LIFECYCLE_ACTIVATION_CONVERGENCE_FAILED_DENIED'')))))))"

subsection \<open>After activation\<close>

definition lc_retire ::
  "lc_runtime \<Rightarrow> lc_config \<Rightarrow> lc_env \<Rightarrow> lc_manager \<Rightarrow> js \<Rightarrow> js \<Rightarrow> lc_manager \<times> lc_receipt res" where
  "lc_retire rt cfg env m generation operationId =
     withEntry rt cfg m generation (\<lambda>m' current entry.
       if le_state entry \<noteq> SUPERSEDED then (m', Inl TRANSITION_INVALID)
       else if lr_lastSafeGeneration current = Some (le_generation entry)
       then (m', Inl ''POLICY_LIFECYCLE_LAST_SAFE_RETIRE_DENIED'')
       else commit rt cfg env m'
         (nextRecord rt (clock env 0) current entry operationId T_RETIRED (Some SUPERSEDED) RETIRED
           (obj [(''retainedAsFallback'', JBool (lr_lastSafeGeneration current = Some (le_generation entry)))])))"

text \<open>The freeze of the fence that a revocation of the active generation or a divergent rollout begins with.\<close>

definition with_freeze ::
  "lc_runtime \<Rightarrow> lc_config \<Rightarrow> lc_env \<Rightarrow> bool \<Rightarrow> string \<Rightarrow> lc_manager \<Rightarrow> (lc_manager \<Rightarrow> lc_manager \<times> 'a res)
    \<Rightarrow> lc_manager \<times> 'a res" where
  "with_freeze rt cfg env needed reasonCode m body =
     (if \<not> needed then body m
      else
        (case freezeDispatch (base_rt rt) (fenceToken cfg) (fence_writes env) (fence_clock env) (lm_fence m) reasonCode of
           (w, Inl e) \<Rightarrow> (m\<lparr>lm_fence := w\<rparr>, Inl e)
         | (w, Inr _) \<Rightarrow> body (m\<lparr>lm_fence := w\<rparr>)))"

definition revoked_record :: "int \<Rightarrow> lc_record \<Rightarrow> lc_record" where
  "revoked_record generation r =
     (if lr_activeGeneration r = Some generation
      then r\<lparr>lr_dispatchActive := False, lr_activeGeneration := None,
             lr_lastSafeGeneration := (if lr_lastSafeGeneration r = Some generation then None
               else lr_lastSafeGeneration r)\<rparr>
      else r)"

definition lc_revoke ::
  "lc_runtime \<Rightarrow> lc_config \<Rightarrow> lc_env \<Rightarrow> lc_manager \<Rightarrow> js \<Rightarrow> js \<Rightarrow> js \<Rightarrow> lc_manager \<times> lc_receipt res" where
  "lc_revoke rt cfg env m generation operationId reasonCode =
     withEntry rt cfg m generation (\<lambda>m' current entry.
       if le_state entry \<notin> set [ENTRY_ACTIVE, STAGED, SUPERSEDED] then (m', Inl TRANSITION_INVALID)
       else if \<not> str_test (rx_test REASON_CODE_PATTERN) reasonCode
       then (m', Inl ''POLICY_LIFECYCLE_REVOKE_REASON_INVALID_DENIED'')
       else
         (let activeRevocation = (lr_activeGeneration current = Some (le_generation entry)) in
          with_freeze rt cfg env activeRevocation ''OPERATOR_ROLLBACK'' m' (\<lambda>m''.
            commit rt cfg env m''
              (nextRecord rt (clock env 0) (revoked_record (le_generation entry) current) entry operationId T_REVOKED
                (Some (le_state entry)) REVOKED
                (obj [(''reasonCode'', reasonCode), (''activeRevocation'', JBool activeRevocation)])))))"

text \<open>\<open>reportRollout\<close>: true where every worker runs the generation.\<close>

definition lc_reportRollout ::
  "lc_runtime \<Rightarrow> lc_config \<Rightarrow> lc_env \<Rightarrow> lc_manager \<Rightarrow> js \<Rightarrow> js \<Rightarrow> js \<Rightarrow> lc_manager \<times> lc_receipt res" where
  "lc_reportRollout rt cfg env m generation workers operationId =
     withEntry rt cfg m generation (\<lambda>m' current entry.
       if le_state entry \<noteq> ENTRY_ACTIVE \<or> \<not> is_array workers \<or> length (elems_of workers) = 0
         \<or> \<not> list_all isGeneration (elems_of workers)
       then (m', Inl ''POLICY_LIFECYCLE_ROLLOUT_REPORT_INVALID_DENIED'')
       else
         (let confirmed = list_all (\<lambda>v. v = jint (le_generation entry)) (elems_of workers);
              details = obj [(''expectedGeneration'', jint (le_generation entry)), (''workerGenerations'', workers)] in
          with_freeze rt cfg env (\<not> confirmed) ''WORKER_GENERATION_DIVERGENCE'' m' (\<lambda>m''.
            commit rt cfg env m''
              (if confirmed
               then map_sum id (apfst (\<lambda>r. r\<lparr>lr_lastSafeGeneration := Some (le_generation entry)\<rparr>))
                 (nextRecord rt (clock env 0) current entry operationId T_ROLLOUT_CONFIRMED (Some ENTRY_ACTIVE)
                   ENTRY_ACTIVE details)
               else nextRecord rt (clock env 0) (current\<lparr>lr_dispatchActive := False\<rparr>) entry operationId
                 T_ROLLOUT_FROZEN (Some ENTRY_ACTIVE) ENTRY_ACTIVE details))))"

definition lc_assertUseBinding ::
  "lc_runtime \<Rightarrow> lc_config \<Rightarrow> lc_manager \<Rightarrow> use_binding \<Rightarrow> lc_manager \<times> unit res" where
  "lc_assertUseBinding rt cfg m b =
     (case lc_load rt cfg m of
        Inl e \<Rightarrow> (m, Inl e)
      | Inr (None, m') \<Rightarrow> (m', Inl ''TypeError'')
      | Inr (Some r, m') \<Rightarrow>
          if \<not> lr_dispatchActive r \<or> lr_activeGeneration r = None
            \<or> ub_policyGeneration b \<noteq> int_or_null (lr_activeGeneration r)
            \<or> ub_tenant b \<noteq> JStr POC_TENANT \<or> ub_policyId b \<noteq> JStr POC_POLICY_ID
          then (m', Inl ''POLICY_LIFECYCLE_USE_GENERATION_MISMATCH_DENIED'')
          else
            (case fence_assertUseBinding (base_rt rt) (fenceToken cfg) (lm_fence m') b of
               (w, res) \<Rightarrow> (m'\<lparr>lm_fence := w\<rparr>, res)))"

end
