(* ===== verification/FenceLaws.thy ===== *)
theory FenceLaws
  imports PolicyFence
begin

text \<open>
  The policy fence over its whole life, from a fence without a file: the record it reads back is the
  record it wrote, the generations it activates increase, no policy text is activated twice, and
  what a successful use presents is the active generation of a dispatch that is not frozen.
\<close>

subsection \<open>Reading back a record\<close>

lemma readSnapshot_js: "readSnapshot (fence_snapshot_js s) = s"
  by (simp add: readSnapshot_def readCandidate_def fence_snapshot_js_def Let_def fence_candidate.defs fence_snapshot.defs)

lemma fence_status_inj [simp]: "fence_status_text s = ''ACTIVE'' \<longleftrightarrow> s = FENCE_ACTIVE"
  by (cases s) (simp_all add: fence_status_text_def)

lemma fence_status_read [simp]: "(if s = FENCE_ACTIVE then FENCE_ACTIVE else FENCE_FROZEN) = s"
  by (cases s) simp_all

lemma getf_fence_record:
  "getf (fields_of (fence_record_js r)) ''active'' = fence_snapshot_js (fr_active r)"
  "getf (fields_of (fence_record_js r)) ''lastKnownSafe'' = fence_snapshot_js (fr_lastKnownSafe r)"
  "getf (fields_of (fence_record_js r)) ''retiredPolicySourceDigests'' = strs_js (fr_retired r)"
  "getf (fields_of (fence_record_js r)) ''recordBinding'' = JStr (fr_recordBinding r)"
  "getf (fields_of (fence_record_js r)) ''dispatch'' = obj [(''status'', JStr (fence_status_text (fr_status r))),
         (''reasonCode'', str_or_null (fr_reasonCode r)), (''frozenAtMs'', int_or_null (fr_frozenAtMs r)),
         (''fallbackGeneration'', jint (fr_fallbackGeneration r))]"
  by (simp_all add: fence_record_js_def fence_record_fields_def)

lemma or_null_JNull [simp]: "str_or_null x = JNull \<longleftrightarrow> x = None" "int_or_null y = JNull \<longleftrightarrow> y = None"
  by (simp_all add: str_or_null_def int_or_null_def split: option.splits)

lemma or_null_read: "x \<noteq> None \<Longrightarrow> Some (str_of (str_or_null x)) = x" "y \<noteq> None \<Longrightarrow> Some (int_of_js (int_or_null y)) = y"
  by (auto simp: str_or_null_def int_or_null_def)

lemma readFenceRecord_js: "readFenceRecord (fence_record_js r) = r"
  by (intro fence_record.equality)
    (simp_all add: readFenceRecord_def Let_def getf_fence_record readSnapshot_js comp_def or_null_read del: if_split)

lemma fence_validate_reads:
  assumes "fence_validateRecord rt token v = Inr r"
  shows "r = readFenceRecord v" "validateSnapshot rt (getf (fields_of v) ''active'') \<noteq> Inl e"
  using assms by (auto simp: fence_validateRecord_def Let_def res_bind_Inr_iff split: if_splits)

lemma fence_validate_own: "fence_validateRecord rt token (fence_record_js r) = Inr r' \<Longrightarrow> r' = r"
  using fence_validate_reads(1) readFenceRecord_js by metis

subsection \<open>Writing\<close>

lemma fence_bind_simps [simp]:
  "fr_active (fence_bind rt token c) = fr_active c" "fr_lastKnownSafe (fence_bind rt token c) = fr_lastKnownSafe c"
  "fr_retired (fence_bind rt token c) = fr_retired c" "fr_status (fence_bind rt token c) = fr_status c"
  "fr_fallbackGeneration (fence_bind rt token c) = fr_fallbackGeneration c"
  by (simp_all add: fence_bind_def fence_record_core.defs fence_record.defs)

text \<open>A fence whose memory and file agree on a valid record.\<close>

definition fence_holds :: "runtime \<Rightarrow> string \<Rightarrow> fence \<Rightarrow> fence_record \<Rightarrow> bool" where
  "fence_holds rt token w r \<longleftrightarrow> fence_memory w = Some r \<and> fence_file w = Json (fence_record_js r)
     \<and> fence_validateRecord rt token (fence_record_js r) = Inr r"

lemma fence_store_Inr:
  assumes "fence_store rt token wr w core = Inr w'"
  shows "fence_holds rt token w' (fence_bind rt token core)"
  using assms fence_validate_own [of rt token "fence_bind rt token core"]
  by (auto simp: fence_store_def fence_holds_def Let_def res_bind_Inr_iff split: if_splits)

lemma fence_holds_memory: "fence_holds rt token w r \<Longrightarrow> fence_memory w = Some r"
  by (simp add: fence_holds_def)

lemma activePolicy_total:
  assumes "fence_holds rt token w r"
  obtains p where "activePolicy rt w = Inr p" "ap_snapshot p = fr_active r" "ap_status p = fr_status r"
proof -
  have "validateSnapshot rt (fence_snapshot_js (fr_active r)) \<noteq> Inl e" for e
    using fence_validate_reads(2) [of rt token "fence_record_js r" r e] assms
    by (simp add: fence_holds_def getf_fence_record)
  then obtain s where "validateSnapshot rt (fence_snapshot_js (fr_active r)) = Inr s" by (metis sum.exhaust)
  with assms that show thesis by (cases s) (auto simp: activePolicy_def fence_holds_def res_simps)
qed

subsection \<open>Activation\<close>

text \<open>The candidate an activation is asked for, and the snapshot it takes of it.\<close>

lemma fence_activate_cases:
  assumes "fence_activate rt token wr now w cv au = (w', x)"
  obtains (denied) e where "x = Inl e" "w' = w"
  | (switched) p c bytes policy core where "x = Inr p" "validatePolicyActivationCandidate rt cv = Inr (c, bytes, policy)"
      "validateAuthorization rt au cv token"
      "\<And>r. fence_memory w = Some r \<Longrightarrow> fc_generation (fr_active r) < fc_generation c
         \<and> fc_sourceDigest c \<noteq> fc_sourceDigest (fr_active r) \<and> fc_sourceDigest c \<notin> set (fr_retired r)"
      "fence_holds rt token w' (fence_bind rt token core)" "ap_snapshot p = fr_active core"
      "fence_candidate.truncate (fr_active core) = c" "fr_status core = FENCE_ACTIVE"
      "fr_lastKnownSafe core = (case fence_memory w of None \<Rightarrow> fr_active core | Some r \<Rightarrow> fr_active r)"
      "fr_retired core = (case fence_memory w of None \<Rightarrow> [] | Some r \<Rightarrow> retire_active r)"
proof (cases "validatePolicyActivationCandidate rt cv")
  case (Inl e)
  with assms show thesis by (intro denied [of e]) (auto simp: fence_activate_def)
next
  case (Inr b)
  obtain c bytes policy where c: "validatePolicyActivationCandidate rt cv = Inr (c, bytes, policy)"
    using Inr by (cases b) auto
  define snap where "snap = fence_candidate.extend c
      (fence_snapshot.fields (json_digest rt cv) (json_digest rt au) now)"
  define safe where "safe = (case fence_memory w of None \<Rightarrow> snap | Some r \<Rightarrow> fr_active r)"
  define core where "core = \<lparr>fr_active = snap, fr_lastKnownSafe = safe,
      fr_retired = (case fence_memory w of None \<Rightarrow> [] | Some r \<Rightarrow> retire_active r),
      fr_status = FENCE_ACTIVE, fr_reasonCode = None, fr_frozenAtMs = None, fr_fallbackGeneration = fc_generation safe\<rparr>"
  note a = assms [unfolded fence_activate_def c sum.case prod.case Let_def, folded snap_def, folded safe_def, folded core_def]
  show thesis
  proof (cases "fence_store rt token wr w core")
    case (Inl e)
    with a have "\<exists>e. x = Inl e \<and> w' = w" by (auto split: if_splits)
    then show thesis using denied by blast
  next
    case (Inr w2)
    have h: "fence_holds rt token w2 (fence_bind rt token core)" by (rule fence_store_Inr [OF Inr])
    obtain p where p: "activePolicy rt w2 = Inr p" "ap_snapshot p = fr_active core"
      using activePolicy_total [OF h] by (metis fence_bind_simps(1))
    show thesis
    proof (cases "x = Inr p \<and> w' = w2")
      case True
      have g: "validateAuthorization rt au cv token"
        "\<And>r. fence_memory w = Some r \<Longrightarrow> fc_generation (fr_active r) < fc_generation c
         \<and> fc_sourceDigest c \<noteq> fc_sourceDigest (fr_active r) \<and> fc_sourceDigest c \<notin> set (fr_retired r)"
        using a True by (auto split: if_splits)
      have t: "fence_candidate.truncate (fr_active core) = c"
        by (simp add: core_def snap_def fence_candidate.defs fence_snapshot.defs)
      show thesis
        by (rule switched [OF _ c g _ p(2) t])
          (use True h in \<open>simp_all add: core_def safe_def split: option.split\<close>)
    next
      case False
      with a Inr p have "\<exists>e. x = Inl e \<and> w' = w" by (auto split: if_splits)
      then show thesis using denied by blast
    qed
  qed
qed

subsection \<open>Freezing and using\<close>

lemma freezeDispatch_cases:
  assumes "freezeDispatch rt token wr now w reason = (w', x)"
  obtains (denied) e where "x = Inl e" "w' = w"
  | (frozen) r core where "fence_memory w = Some r" "x = Inr (fence_bind rt token core)"
      "fence_holds rt token w' (fence_bind rt token core)" "fr_status core = FENCE_FROZEN"
      "fr_active core = fr_active r" "fr_lastKnownSafe core = fr_lastKnownSafe r" "fr_retired core = fr_retired r"
proof (cases "fence_memory w")
  case None
  with assms show thesis by (intro denied) (auto simp: freezeDispatch_def)
next
  case (Some r)
  define core where "core = (fence_record_core.truncate r)\<lparr>fr_status := FENCE_FROZEN, fr_reasonCode := Some reason,
     fr_frozenAtMs := Some now, fr_fallbackGeneration := fc_generation (fr_lastKnownSafe r)\<rparr>"
  note a = assms [unfolded freezeDispatch_def Some option.case, folded core_def]
  show thesis
  proof (cases "x = Inr (fence_bind rt token core)")
    case True
    then obtain h: "fence_store rt token wr w core = Inr w'"
      using a by (auto split: if_splits sum.splits)
    have m: "fr_status core = FENCE_FROZEN" "fr_active core = fr_active r"
      "fr_lastKnownSafe core = fr_lastKnownSafe r" "fr_retired core = fr_retired r"
      by (simp_all add: core_def fence_record_core.defs)
    show thesis by (rule frozen [OF Some True fence_store_Inr [OF h] m])
  next
    case False
    have "fence_memory w2 = Some (fence_bind rt token core)" if "fence_store rt token wr w core = Inr w2" for w2
      using fence_store_Inr [OF that] by (rule fence_holds_memory)
    with a False have "\<exists>e. x = Inl e \<and> w' = w" by (auto split: if_splits sum.splits)
    then show thesis using denied by blast
  qed
qed

lemma fence_use_cases:
  assumes "fence_assertUseBinding rt token w b = (w', x)" "fence_holds rt token w r"
  shows "w' = w" "x = Inr () \<Longrightarrow> fr_status r = FENCE_ACTIVE \<and> ub_tenant b = JStr POC_TENANT
    \<and> ub_policyId b = JStr POC_POLICY_ID \<and> ub_policyGeneration b = jint (fc_generation (fr_active r))
    \<and> equalPresented (ub_policySourceDigest b) (fc_sourceDigest (fr_active r))"
proof -
  have m: "w\<lparr>fence_memory := Some r\<rparr> = w" using assms(2) by (simp add: fence_holds_def)
  note a = assms(1) [unfolded fence_assertUseBinding_def] assms(2) [unfolded fence_holds_def]
  show "w' = w" using a m by (auto simp: Let_def split: if_splits)
  show "x = Inr () \<Longrightarrow> fr_status r = FENCE_ACTIVE \<and> ub_tenant b = JStr POC_TENANT
    \<and> ub_policyId b = JStr POC_POLICY_ID \<and> ub_policyGeneration b = jint (fc_generation (fr_active r))
    \<and> equalPresented (ub_policySourceDigest b) (fc_sourceDigest (fr_active r))"
    using a by (auto simp: Let_def split: if_splits)
qed

lemma fence_use_empty:
  assumes "fence_assertUseBinding rt token \<lparr>fence_file = NoFile, fence_memory = None\<rparr> b = (w', x)"
  shows "w' = \<lparr>fence_file = NoFile, fence_memory = None\<rparr>" "x = Inl ACTIVATION_RECORD_INVALID"
  using assms by (auto simp: fence_assertUseBinding_def)

subsection \<open>The life of a fence\<close>

text \<open>The fences that arise from one without a file, with the snapshots they have activated, in order.\<close>

definition empty_fence :: fence where
  "empty_fence = \<lparr>fence_file = NoFile, fence_memory = None\<rparr>"

inductive fence_run :: "runtime \<Rightarrow> string \<Rightarrow> fence \<Rightarrow> fence_snapshot list \<Rightarrow> bool" for rt token where
  fence_start: "fence_run rt token empty_fence []"
| fence_activated: "fence_run rt token w ss \<Longrightarrow>
    fence_activate rt token wr now w cv au = (w', Inr p) \<Longrightarrow> fence_run rt token w' (ss @ [ap_snapshot p])"
| fence_not_activated: "fence_run rt token w ss \<Longrightarrow>
    fence_activate rt token wr now w cv au = (w', Inl e) \<Longrightarrow> fence_run rt token w' ss"
| fence_frozen: "fence_run rt token w ss \<Longrightarrow>
    freezeDispatch rt token wr now w reason = (w', x) \<Longrightarrow> fence_run rt token w' ss"
| fence_used: "fence_run rt token w ss \<Longrightarrow>
    fence_assertUseBinding rt token w b = (w', y) \<Longrightarrow> fence_run rt token w' ss"

definition fence_history :: "fence_record \<Rightarrow> fence_snapshot list \<Rightarrow> bool" where
  "fence_history r ss \<longleftrightarrow> ss \<noteq> [] \<and> last ss = fr_active r
     \<and> sorted_wrt (<) (map fc_generation ss) \<and> distinct (map fc_sourceDigest ss)
     \<and> set (fr_retired r) = fc_sourceDigest ` set (butlast ss)
     \<and> fr_lastKnownSafe r = last (if butlast ss = [] then ss else butlast ss)"

definition fence_inv :: "runtime \<Rightarrow> string \<Rightarrow> fence \<Rightarrow> fence_snapshot list \<Rightarrow> bool" where
  "fence_inv rt token w ss \<longleftrightarrow> (w = empty_fence \<and> ss = [])
     \<or> (\<exists>r. fence_holds rt token w r \<and> fence_history r ss)"

lemma fence_history_activate:
  assumes "fence_history r ss" "fr_active r' = s" "fr_lastKnownSafe r' = fr_active r"
    "fr_retired r' = retire_active r"
    "fc_generation (fr_active r) < fc_generation s" "fc_sourceDigest s \<noteq> fc_sourceDigest (fr_active r)"
    "fc_sourceDigest s \<notin> set (fr_retired r)"
  shows "fence_history r' (ss @ [s])"
proof -
  obtain ts where ss: "ss = ts @ [fr_active r]"
    using assms(1) by (metis append_butlast_last_id fence_history_def)
  have h: "sorted_wrt (<) (map fc_generation ss)" "distinct (map fc_sourceDigest ss)"
    "set (fr_retired r) = fc_sourceDigest ` set ts"
    using assms(1) ss by (simp_all add: fence_history_def)
  have "\<forall>t \<in> set ss. fc_generation t < fc_generation s"
    using h(1) assms(5) ss by (auto simp: sorted_wrt_append)
  then have "sorted_wrt (<) (map fc_generation (ss @ [s]))" using h(1) by (simp add: sorted_wrt_append)
  moreover have "distinct (map fc_sourceDigest (ss @ [s]))" using h(2,3) assms(6,7) ss by auto
  moreover have "set (fr_retired r') = fc_sourceDigest ` set (butlast (ss @ [s]))"
    unfolding assms(4) retire_active_def butlast_snoc using h(3) ss by simp
  moreover have "fr_lastKnownSafe r' = last (if butlast (ss @ [s]) = [] then ss @ [s] else butlast (ss @ [s]))"
    unfolding assms(3) butlast_snoc using ss by simp
  ultimately show ?thesis using assms(2) by (simp add: fence_history_def)
qed

lemma fence_run_inv: "fence_run rt token w ss \<Longrightarrow> fence_inv rt token w ss"
proof (induction rule: fence_run.induct)
  case fence_start
  show ?case by (simp add: fence_inv_def)
next
  case (fence_activated w ss wr now cv au w' p)
  from fence_activated.hyps(2) show ?case
  proof (cases rule: fence_activate_cases)
    case (switched p' c bytes policy core)
    have t: "fc_generation (fr_active core) = fc_generation c" "fc_sourceDigest (fr_active core) = fc_sourceDigest c"
      using switched(7) [symmetric] by (simp_all add: fence_candidate.defs)
    have "fence_history (fence_bind rt token core) (ss @ [fr_active core])"
      using fence_activated.IH unfolding fence_inv_def
    proof (elim disjE conjE exE)
      assume "w = empty_fence" "ss = []"
      with switched(9,10) show ?thesis by (simp add: fence_history_def empty_fence_def)
    next
      fix r assume h: "fence_holds rt token w r" "fence_history r ss"
      note m = fence_holds_memory [OF h(1)]
      from switched(4) [OF m] switched(9,10) m t show ?thesis
        by (intro fence_history_activate [OF h(2)]) simp_all
    qed
    with switched(1,5,6) show ?thesis by (auto simp: fence_inv_def)
  qed simp
next
  case (fence_not_activated w ss wr now cv au w' e)
  from fence_not_activated.hyps(2) show ?case
    by (cases rule: fence_activate_cases) (use fence_not_activated.IH in auto)
next
  case (fence_frozen w ss wr now reason w' x)
  from fence_frozen.hyps(2) show ?case
  proof (cases rule: freezeDispatch_cases)
    case (frozen r core)
    from fence_frozen.IH have "fence_history r ss"
      using frozen(1) by (auto simp: fence_inv_def empty_fence_def dest: fence_holds_memory)
    with frozen show ?thesis by (auto simp: fence_inv_def fence_history_def)
  qed (use fence_frozen.IH in simp)
next
  case (fence_used w ss b w' y)
  from fence_used.IH show ?case unfolding fence_inv_def
    using fence_use_empty(1) fence_use_cases(1) fence_used.hyps(2) unfolding empty_fence_def by metis
qed

end
