(* ===== verification/LifecycleSteps.thy ===== *)
theory LifecycleSteps
  imports Lifecycle FenceLaws
begin

text \<open>
  Every operation of the lifecycle manager is one move of an abstract record machine or leaves the record
  alone. The moves (\<open>lc_move\<close>) say what a record may become and which receipt is appended; the
  case rules at the end are what the invariants use.
\<close>

subsection \<open>Reading back a record\<close>

lemma member_state [simp]: "memberOf entry_state_text ENTRY_STATES (JStr (entry_state_text s)) = Some s"
  by (cases s) (simp_all add: memberOf_def ENTRY_STATES_def)

lemma member_transition [simp]: "memberOf transition_text TRANSITIONS (JStr (transition_text t)) = Some t"
  by (cases t) (simp_all add: memberOf_def TRANSITIONS_def)

lemma member_JNull [simp]: "memberOf f ms JNull = None"
  by (simp add: memberOf_def find_None_all)

lemma readState_text [simp]: "readState (JStr (entry_state_text s)) = s"
  by (simp add: readState_def)

lemma member_state_option [simp]:
  "memberOf entry_state_text ENTRY_STATES (str_or_null (map_option entry_state_text x)) = x"
  by (cases x) (simp_all add: str_or_null_def)

lemma readEntry_js [simp]: "readEntry (lc_entry_js e) = e"
  by (intro lc_entry.equality) (simp_all add: readEntry_def lc_entry_js_def Let_def)

lemma readReceipt_js [simp]: "readReceipt (lc_receipt_js r) = r"
  by (intro lc_receipt.equality)
    (simp_all add: readReceipt_def lc_receipt_js_def lc_receipt_fields_def Let_def or_null_read)

lemma int_option_read [simp]: "int_option (int_or_null x) = x"
  by (cases x) (simp_all add: int_option_def int_or_null_def)

lemma readRecord_js: "readRecord (lc_record_js rt token r) = r"
  by (intro lc_record.equality)
    (simp_all add: readRecord_def lc_record_js_def lc_record_fields_def Let_def comp_def)

lemma lc_validate_own: "lc_validateRecord rt token (lc_record_js rt token r) = Inr r' \<Longrightarrow> r' = r"
  using readRecord_js [of rt token r] by (auto simp: lc_validateRecord_def Let_def split: if_splits)

subsection \<open>Managers whose file holds their record\<close>

definition lc_sync :: "lc_runtime \<Rightarrow> lc_config \<Rightarrow> lc_manager \<Rightarrow> bool" where
  "lc_sync rt cfg m \<longleftrightarrow>
     (case lm_memory m of
        None \<Rightarrow> lm_file m = NoFile
      | Some r \<Rightarrow> lm_file m = Json (lc_record_js rt (ownerApprovalToken cfg) r)
          \<and> lc_validateRecord rt (ownerApprovalToken cfg) (lc_record_js rt (ownerApprovalToken cfg) r) = Inr r)"

definition lc_rec :: "lc_manager \<Rightarrow> lc_record" where
  "lc_rec m = (case lm_memory m of None \<Rightarrow> empty_record | Some r \<Rightarrow> r)"

lemma lc_load_sync:
  assumes "lc_sync rt cfg m"
  shows "lc_load rt cfg m = Inr (lm_memory m, m)"
proof -
  have "m\<lparr>lm_memory := Some r\<rparr> = m" if "lm_memory m = Some r" for r
    using that by (cases m) simp
  with assms show ?thesis by (auto simp: lc_sync_def lc_load_def res_simps split: option.splits)
qed

lemma lc_sync_fence [simp]: "lc_sync rt cfg (m\<lparr>lm_fence := w\<rparr>) = lc_sync rt cfg m"
  by (simp add: lc_sync_def split: option.split)

lemma lc_rec_fence [simp]: "lc_rec (m\<lparr>lm_fence := w\<rparr>) = lc_rec m"
  by (simp add: lc_rec_def)

lemma lc_persist_Inr:
  assumes "lc_persist rt cfg env m r = Inr m'"
  shows "lc_sync rt cfg m'" "lc_rec m' = r" "lm_fence m' = lm_fence m" "lm_memory m' = Some r"
proof -
  note p = assms [unfolded lc_persist_def Let_def]
  from p obtain r' where v: "lc_validateRecord rt (ownerApprovalToken cfg)
      (lc_record_js rt (ownerApprovalToken cfg) r) = Inr r'"
    and m: "m' = m\<lparr>lm_file := Json (lc_record_js rt (ownerApprovalToken cfg) r), lm_memory := Some r\<rparr>"
    by (auto simp: res_bind_Inr_iff split: if_splits)
  have "r' = r" by (rule lc_validate_own [OF v])
  with v m show "lc_sync rt cfg m'" "lc_rec m' = r" "lm_fence m' = lm_fence m" "lm_memory m' = Some r"
    by (simp_all add: lc_sync_def lc_rec_def)
qed

lemma withEntry_cases:
  assumes "withEntry rt cfg m generation body = (m', x)" "lc_sync rt cfg m"
  obtains (denied) e where "x = Inl e" "m' = m"
  | (found) r entry where "lm_memory m = Some r" "lc_rec m = r" "entry \<in> set (lr_entries r)"
      "generation = jint (le_generation entry)" "body m r entry = (m', x)" "lc_entryFor (Some r) generation = Inr entry"
proof (cases "lc_entryFor (lm_memory m) generation")
  case (Inl e)
  with assms show thesis by (intro denied [of e]) (auto simp: withEntry_def lc_load_sync)
next
  case (Inr entry)
  then obtain r where r: "lm_memory m = Some r" and g: "isGeneration generation"
    and e: "List.find (\<lambda>e. le_generation e = int_of_js generation) (lr_entries r) = Some entry"
    by (auto simp: lc_entryFor_def split: if_splits option.splits)
  have "generation = jint (le_generation entry)" "entry \<in> set (lr_entries r)"
    using find_Some_in [OF e] g by (auto simp: isGeneration_def dest: safe_integer_jint)
  moreover have "body m r entry = (m', x)"
    using assms r Inr by (simp add: withEntry_def lc_load_sync)
  ultimately show thesis using r Inr by (intro found) (simp_all add: lc_rec_def)
qed

subsection \<open>The next receipt\<close>

definition next_receipt :: "lc_runtime \<Rightarrow> lc_record \<Rightarrow> lc_receipt \<Rightarrow> bool" where
  "next_receipt rt r rc \<longleftrightarrow> rc_sequence rc = int (length (lr_receipts r)) + 1
     \<and> rc_operationId rc \<notin> rc_operationId ` set (lr_receipts r)
     \<and> rc_previousReceiptDigest rc = map_option rc_receiptDigest (at_last (lr_receipts r))
     \<and> rc_receiptDigest rc = json_digest rt (obj (lc_receipt_fields rc))
     \<and> rx_test OPERATION_ID_PATTERN (rc_operationId rc) \<and> isTime (jint (rc_occurredAtMs rc))
     \<and> rc_detailsDigest rc \<in> range (json_digest rt)"

text \<open>The record after an operation: new entries, one revision and one receipt more.\<close>

definition put :: "lc_record \<Rightarrow> lc_entry list \<Rightarrow> lc_receipt \<Rightarrow> lc_record" where
  "put r es rc = r\<lparr>lr_revision := lr_revision r + 1, lr_entries := es, lr_receipts := lr_receipts r @ [rc]\<rparr>"

lemma put_simps [simp]:
  "lr_entries (put r es rc) = es" "lr_receipts (put r es rc) = lr_receipts r @ [rc]"
  "lr_revision (put r es rc) = lr_revision r + 1" "lr_activeGeneration (put r es rc) = lr_activeGeneration r"
  "lr_lastSafeGeneration (put r es rc) = lr_lastSafeGeneration r"
  "lr_dispatchActive (put r es rc) = lr_dispatchActive r"
  by (simp_all add: put_def)

definition stamped :: "lc_receipt \<Rightarrow> lc_entry \<Rightarrow> transition \<Rightarrow> entry_state option \<Rightarrow> entry_state \<Rightarrow> bool" where
  "stamped rc e tr s t \<longleftrightarrow> rc_transition rc = tr \<and> rc_generation rc = le_generation e
     \<and> rc_artifactDigest rc = le_artifactDigest e \<and> rc_fromState rc = s \<and> rc_toState rc = t"

lemma nextRecord_Inr:
  assumes "nextRecord rt now r e op tr s t details = Inr (r', rc)"
  shows "r' = put r (set_entry (e\<lparr>le_state := t\<rparr>) (lr_entries r)) rc" "next_receipt rt r rc" "stamped rc e tr s t"
    "op = JStr (rc_operationId rc)"
proof -
  note n = assms [unfolded nextRecord_def Let_def]
  from n show "r' = put r (set_entry (e\<lparr>le_state := t\<rparr>) (lr_entries r)) rc"
    by (auto simp: put_def split: if_splits)
  from n show "next_receipt rt r rc"
    by (auto simp: next_receipt_def list_ex_iff lc_receipt_core.defs lc_receipt.defs lc_receipt_fields_def
        simp del: rx_test.simps dest: str_test_JStr split: if_splits)
  from n show "stamped rc e tr s t"
    by (auto simp: stamped_def lc_receipt_core.defs lc_receipt.defs split: if_splits)
  from n show "op = JStr (rc_operationId rc)"
    by (auto simp: lc_receipt_core.defs lc_receipt.defs dest: str_test_JStr split: if_splits)
qed

lemma commit_cases:
  assumes "commit rt cfg env m nr = (m', x)"
  obtains (denied) e where "x = Inl e" "m' = m"
  | (written) r rc where "x = Inr rc" "nr = Inr (r, rc)" "lc_sync rt cfg m'" "lc_rec m' = r" "lm_fence m' = lm_fence m"
      "lm_memory m' = Some r"
proof (cases nr)
  case (Inl e)
  with assms show thesis by (intro denied [of e]) (simp_all add: commit_def)
next
  case (Inr b)
  obtain r rc where b: "b = (r, rc)" by (cases b)
  show thesis
  proof (cases "lc_persist rt cfg env m r")
    case (Inl e)
    with assms Inr b show thesis by (intro denied [of e]) (simp_all add: commit_def)
  next
    case (Inr m2)
    with assms \<open>nr = Inr b\<close> b have "x = Inr rc" "m' = m2" by (simp_all add: commit_def)
    with \<open>nr = Inr b\<close> b lc_persist_Inr [OF Inr] show thesis by (intro written) simp_all
  qed
qed

subsection \<open>The moves of the record\<close>

text \<open>What the trust checks of an operation establish of the artifact.\<close>

definition trusted_artifact :: "lc_runtime \<Rightarrow> trust_store \<Rightarrow> lc_entry \<Rightarrow> verified \<Rightarrow> bool" where
  "trusted_artifact rt trust e v \<longleftrightarrow> verifyArtifact rt (le_artifact e) trust = Inr v"

inductive lc_move :: "lc_runtime \<Rightarrow> lc_config \<Rightarrow> lc_record \<Rightarrow> lc_receipt \<Rightarrow> lc_record \<Rightarrow> bool" for rt cfg where
  move_drafted: "next_receipt rt r rc \<Longrightarrow> stamped rc e T_DRAFTED None DRAFT \<Longrightarrow>
    \<forall>x \<in> set (lr_entries r). le_generation x < le_generation e \<Longrightarrow>
    trust \<in> trustStores cfg \<Longrightarrow> verifyArtifact rt artifact trust = Inr v \<Longrightarrow>
    e = drafted_entry rt artifact (vf_trustDigest v) \<Longrightarrow>
    lc_move rt cfg r rc (put r (lr_entries r @ [e]) rc)"
| move_validated: "next_receipt rt r rc \<Longrightarrow> stamped rc e T_VALIDATED (Some DRAFT) VALIDATED \<Longrightarrow>
    e \<in> set (lr_entries r) \<Longrightarrow> le_state e = DRAFT \<Longrightarrow>
    lc_move rt cfg r rc
      (put r (set_entry (e\<lparr>le_diff := d, le_diffDigest := dd, le_state := VALIDATED\<rparr>) (lr_entries r)) rc)"
| move_simulated: "next_receipt rt r rc \<Longrightarrow> stamped rc e T_SIMULATED (Some VALIDATED) SIMULATED \<Longrightarrow>
    e \<in> set (lr_entries r) \<Longrightarrow> le_state e = VALIDATED \<Longrightarrow>
    lc_move rt cfg r rc
      (put r (set_entry (e\<lparr>le_simulationDigest := sd, le_state := SIMULATED\<rparr>) (lr_entries r)) rc)"
| move_approved: "next_receipt rt r rc \<Longrightarrow> stamped rc e T_APPROVED (Some SIMULATED) APPROVED \<Longrightarrow>
    e \<in> set (lr_entries r) \<Longrightarrow> le_state e = SIMULATED \<Longrightarrow>
    validateApproval rt (ownerApprovalToken cfg) approval e now = Inr () \<Longrightarrow>
    lc_move rt cfg r rc (put r (set_entry (e\<lparr>le_approval := approval, le_state := APPROVED\<rparr>) (lr_entries r)) rc)"
| move_staged: "next_receipt rt r rc \<Longrightarrow> stamped rc e T_STAGED (Some APPROVED) STAGED \<Longrightarrow>
    e \<in> set (lr_entries r) \<Longrightarrow> le_state e = APPROVED \<Longrightarrow>
    trust \<in> trustStores cfg \<Longrightarrow> trusted_artifact rt trust e v \<Longrightarrow> validateAdminAiPocPolicy (vf_policy v) \<Longrightarrow>
    lc_move rt cfg r rc (put r (set_entry (e\<lparr>le_state := STAGED\<rparr>) (lr_entries r)) rc)"
| move_activated: "next_receipt rt r rc \<Longrightarrow> stamped rc e T_ACTIVATED (Some STAGED) ENTRY_ACTIVE \<Longrightarrow>
    e \<in> set (lr_entries r) \<Longrightarrow> le_state e = STAGED \<Longrightarrow>
    lc_move rt cfg r rc (put (activated_record (le_generation e) r)
      (lr_entries (activated_record (le_generation e) r)) rc)"
| move_retired: "next_receipt rt r rc \<Longrightarrow> stamped rc e T_RETIRED (Some SUPERSEDED) RETIRED \<Longrightarrow>
    e \<in> set (lr_entries r) \<Longrightarrow> le_state e = SUPERSEDED \<Longrightarrow> lr_lastSafeGeneration r \<noteq> Some (le_generation e) \<Longrightarrow>
    lc_move rt cfg r rc (put r (set_entry (e\<lparr>le_state := RETIRED\<rparr>) (lr_entries r)) rc)"
| move_revoked: "next_receipt rt r rc \<Longrightarrow> stamped rc e T_REVOKED (Some (le_state e)) REVOKED \<Longrightarrow>
    e \<in> set (lr_entries r) \<Longrightarrow> le_state e \<in> {ENTRY_ACTIVE, STAGED, SUPERSEDED} \<Longrightarrow>
    lc_move rt cfg r rc (put (revoked_record (le_generation e) r)
      (set_entry (e\<lparr>le_state := REVOKED\<rparr>) (lr_entries r)) rc)"
| move_confirmed: "next_receipt rt r rc \<Longrightarrow> stamped rc e T_ROLLOUT_CONFIRMED (Some ENTRY_ACTIVE) ENTRY_ACTIVE \<Longrightarrow>
    e \<in> set (lr_entries r) \<Longrightarrow> le_state e = ENTRY_ACTIVE \<Longrightarrow>
    lc_move rt cfg r rc (put (r\<lparr>lr_lastSafeGeneration := Some (le_generation e)\<rparr>) (set_entry e (lr_entries r)) rc)"
| move_frozen: "next_receipt rt r rc \<Longrightarrow> stamped rc e T_ROLLOUT_FROZEN (Some ENTRY_ACTIVE) ENTRY_ACTIVE \<Longrightarrow>
    e \<in> set (lr_entries r) \<Longrightarrow> le_state e = ENTRY_ACTIVE \<Longrightarrow>
    lc_move rt cfg r rc (put (r\<lparr>lr_dispatchActive := False\<rparr>) (set_entry e (lr_entries r)) rc)"

text \<open>The record of a manager did not change, or moved.\<close>

definition lc_stays :: "lc_manager \<Rightarrow> lc_manager \<Rightarrow> bool" where
  "lc_stays m m' \<longleftrightarrow> lm_memory m' = lm_memory m \<and> lm_file m' = lm_file m"

definition lc_moves :: "lc_runtime \<Rightarrow> lc_config \<Rightarrow> lc_manager \<Rightarrow> lc_receipt \<Rightarrow> lc_manager \<Rightarrow> bool" where
  "lc_moves rt cfg m rc m' \<longleftrightarrow> lc_sync rt cfg m' \<and> lm_memory m' \<noteq> None \<and> lc_move rt cfg (lc_rec m) rc (lc_rec m')"

lemma set_entry_again [simp]:
  "le_generation e' = le_generation e \<Longrightarrow> set_entry e (set_entry e' es) = set_entry e es"
  by (simp add: set_entry_def comp_def cong: if_cong)

lemma replace_entry_put [simp]:
  "put (replace_entry e r) es rc = put r es rc" "lr_entries (replace_entry e r) = set_entry e (lr_entries r)"
  "next_receipt rt (replace_entry e r) rc = next_receipt rt r rc"
  by (simp_all add: put_def replace_entry_def next_receipt_def)

lemma lc_stays_refl [simp]: "lc_stays m m" "lc_stays m (m\<lparr>lm_fence := w\<rparr>)"
  by (simp_all add: lc_stays_def)

lemma lc_stays_sync: "lc_stays m m' \<Longrightarrow> lc_sync rt cfg m' = lc_sync rt cfg m" "lc_stays m m' \<Longrightarrow> lc_rec m' = lc_rec m"
  by (simp_all add: lc_stays_def lc_sync_def lc_rec_def split: option.split)

subsection \<open>Operations that do not touch the fence\<close>

definition moved_or_denied :: "lc_runtime \<Rightarrow> lc_config \<Rightarrow> lc_manager \<Rightarrow> lc_manager \<Rightarrow> lc_receipt res \<Rightarrow> bool" where
  "moved_or_denied rt cfg m m' x \<longleftrightarrow> (\<exists>e. x = Inl e \<and> m' = m)
     \<or> (\<exists>rc. x = Inr rc \<and> lc_moves rt cfg m rc m' \<and> lm_fence m' = lm_fence m)"

lemma moved_or_denied_Inl [simp]: "moved_or_denied rt cfg m m (Inl e)"
  by (simp add: moved_or_denied_def)

lemma moved_or_deniedI:
  assumes "commit rt cfg env m nr = (m', x)"
    and "\<And>r rc. nr = Inr (r, rc) \<Longrightarrow> lc_move rt cfg (lc_rec m) rc r"
  shows "moved_or_denied rt cfg m m' x"
  using assms(1)
proof (cases rule: commit_cases)
  case (written r rc)
  with assms(2) show ?thesis by (auto simp: moved_or_denied_def lc_moves_def)
qed simp

text \<open>An operation on an entry moves if its body does.\<close>

lemma withEntry_moved:
  assumes "withEntry rt cfg m generation body = (m', x)" "lc_sync rt cfg m"
    and "\<And>r e. lm_memory m = Some r \<Longrightarrow> lc_rec m = r \<Longrightarrow> e \<in> set (lr_entries r) \<Longrightarrow> body m r e = (m', x)
      \<Longrightarrow> moved_or_denied rt cfg m m' x"
  shows "moved_or_denied rt cfg m m' x"
  using assms(1,2)
proof (cases rule: withEntry_cases)
  case (found r entry)
  show ?thesis by (rule assms(3) [OF found(1,2,3,5)])
qed simp

lemma stamped_entry:
  "stamped rc (e\<lparr>le_diff := d, le_diffDigest := dd\<rparr>) tr s t = stamped rc e tr s t"
  "stamped rc (e\<lparr>le_simulationDigest := sd\<rparr>) tr s t = stamped rc e tr s t"
  "stamped rc (e\<lparr>le_approval := ap\<rparr>) tr s t = stamped rc e tr s t"
  "stamped rc (e\<lparr>le_state := st\<rparr>) tr s t = stamped rc e tr s t"
  by (simp_all add: stamped_def)

lemma lc_draft_moved:
  assumes "lc_draft rt cfg env m artifact op = (m', x)" "trusted env \<in> trustStores cfg" "lc_sync rt cfg m"
  shows "moved_or_denied rt cfg m m' x"
proof (cases "verifyArtifact rt artifact (trusted env)")
  case (Inl e)
  with assms(1) show ?thesis by (auto simp: lc_draft_def)
next
  case (Inr v)
  define entry where "entry = drafted_entry rt artifact (vf_trustDigest v)"
  have base: "(case lm_memory m of None \<Rightarrow> empty_record | Some r \<Rightarrow> r) = lc_rec m" by (simp add: lc_rec_def)
  note d = assms(1) [unfolded lc_draft_def Inr sum.case Let_def lc_load_sync [OF assms(3)] prod.case base, folded entry_def]
  show ?thesis
  proof (cases "(\<exists>e. x = Inl e \<and> m' = m)")
    case True
    then show ?thesis by (auto simp: moved_or_denied_def)
  next
    case False
    with d have nr: "\<not> list_ex (\<lambda>e. le_generation e = le_generation entry) (lr_entries (lc_rec m))"
      "\<not> (lm_memory m \<noteq> None \<and> list_ex (\<lambda>e. le_generation entry \<le> le_generation e) (lr_entries (lc_rec m)))"
      and c: "commit rt cfg env m (nextRecord rt (clock env 1) ((lc_rec m)\<lparr>lr_entries := lr_entries (lc_rec m) @ [entry]\<rparr>)
           entry op T_DRAFTED None DRAFT
           (obj [(''signed'', JBool True), (''trustSnapshotDigest'', JStr (vf_trustDigest v))])) = (m', x)"
      by (auto split: if_splits sum.splits)
    have fresh: "\<forall>y \<in> set (lr_entries (lc_rec m)). le_generation y < le_generation entry"
      using nr by (cases "lm_memory m") (auto simp: list_ex_iff lc_rec_def empty_record_def not_le)
    show ?thesis
    proof (rule moved_or_deniedI [OF c])
      fix r rc
      assume "nextRecord rt (clock env 1) ((lc_rec m)\<lparr>lr_entries := lr_entries (lc_rec m) @ [entry]\<rparr>) entry op T_DRAFTED
        None DRAFT (obj [(''signed'', JBool True), (''trustSnapshotDigest'', JStr (vf_trustDigest v))]) = Inr (r, rc)"
      note n = nextRecord_Inr [OF this]
      have st: "entry\<lparr>le_state := DRAFT\<rparr> = entry" by (simp add: entry_def drafted_entry_def)
      have "set_entry entry (lr_entries (lc_rec m) @ [entry]) = lr_entries (lc_rec m) @ [entry]"
        using fresh by (auto simp: set_entry_def intro!: map_idI)
      then have r: "r = put (lc_rec m) (lr_entries (lc_rec m) @ [entry]) rc"
        using n(1) by (simp add: st put_def)
      have "next_receipt rt (lc_rec m) rc" using n(2) by (simp add: next_receipt_def)
      then show "lc_move rt cfg (lc_rec m) rc r"
        unfolding r by (rule move_drafted [OF _ n(3) fresh assms(2) Inr entry_def])
    qed
  qed
qed

lemma lc_validate_moved:
  assumes "lc_validate rt cfg env m generation op = (m', x)" "lc_sync rt cfg m"
  shows "moved_or_denied rt cfg m m' x"
proof (rule withEntry_moved [OF assms(1) [unfolded lc_validate_def] assms(2)], goal_cases)
  case (1 r e)
  note b = 1(4)
  show ?case
  proof (cases "\<exists>er. x = Inl er \<and> m' = m")
    case False
    with b obtain d dd det where st: "le_state e = DRAFT" and c: "commit rt cfg env m
        (nextRecord rt (clock env 1) (replace_entry (e\<lparr>le_diff := d, le_diffDigest := dd\<rparr>) r)
          (e\<lparr>le_diff := d, le_diffDigest := dd\<rparr>) op T_VALIDATED (Some DRAFT) VALIDATED det) = (m', x)"
      by (auto simp: Let_def split: if_splits sum.splits prod.splits)
    show ?thesis
    proof (rule moved_or_deniedI [OF c], goal_cases)
      case (1 r2 rc)
      note n = nextRecord_Inr [OF 1]
      have "r2 = put r (set_entry (e\<lparr>le_diff := d, le_diffDigest := dd, le_state := VALIDATED\<rparr>) (lr_entries r)) rc"
        using n(1) by simp
      then show ?case
        using move_validated [of rt r rc e cfg dd d] n(2,3) \<open>lc_rec m = r\<close> \<open>e \<in> set (lr_entries r)\<close> st
        by (simp add: stamped_entry)
    qed
  qed (auto simp: moved_or_denied_def)
qed

lemma lc_simulate_moved:
  assumes "lc_simulate rt cfg env m generation op = (m', x)" "lc_sync rt cfg m"
  shows "moved_or_denied rt cfg m m' x"
proof (rule withEntry_moved [OF assms(1) [unfolded lc_simulate_def] assms(2)], goal_cases)
  case (1 r e)
  note b = 1(4)
  show ?case
  proof (cases "\<exists>er. x = Inl er \<and> m' = m")
    case False
    with b obtain sd det where st: "le_state e = VALIDATED" and c: "commit rt cfg env m
        (nextRecord rt (clock env 1) (replace_entry (e\<lparr>le_simulationDigest := sd\<rparr>) r)
          (e\<lparr>le_simulationDigest := sd\<rparr>) op T_SIMULATED (Some VALIDATED) SIMULATED det) = (m', x)"
      by (auto simp: Let_def split: if_splits sum.splits)
    show ?thesis
    proof (rule moved_or_deniedI [OF c], goal_cases)
      case (1 r2 rc)
      note n = nextRecord_Inr [OF 1]
      have "r2 = put r (set_entry (e\<lparr>le_simulationDigest := sd, le_state := SIMULATED\<rparr>) (lr_entries r)) rc"
        using n(1) by simp
      then show ?case
        using move_simulated [of rt r rc e cfg sd] n(2,3) \<open>lc_rec m = r\<close> \<open>e \<in> set (lr_entries r)\<close> st
        by (simp add: stamped_entry)
    qed
  qed (auto simp: moved_or_denied_def)
qed

lemma lc_approve_moved:
  assumes "lc_approve rt cfg env m generation approval op = (m', x)" "lc_sync rt cfg m"
  shows "moved_or_denied rt cfg m m' x"
proof (rule withEntry_moved [OF assms(1) [unfolded lc_approve_def] assms(2)], goal_cases)
  case (1 r e)
  note b = 1(4)
  show ?case
  proof (cases "\<exists>er. x = Inl er \<and> m' = m")
    case False
    with b obtain det where st: "le_state e = SIMULATED"
      and ap: "validateApproval rt (ownerApprovalToken cfg) approval e (clock env 1) = Inr ()"
      and c: "commit rt cfg env m
        (nextRecord rt (clock env 2) (replace_entry (e\<lparr>le_approval := approval\<rparr>) r)
          (e\<lparr>le_approval := approval\<rparr>) op T_APPROVED (Some SIMULATED) APPROVED det) = (m', x)"
      by (auto simp: Let_def res_bind_Inr_iff split: if_splits sum.splits)
    show ?thesis
    proof (rule moved_or_deniedI [OF c], goal_cases)
      case (1 r2 rc)
      note n = nextRecord_Inr [OF 1]
      have "r2 = put r (set_entry (e\<lparr>le_approval := approval, le_state := APPROVED\<rparr>) (lr_entries r)) rc"
        using n(1) by simp
      then show ?case
        using move_approved [of rt r rc e cfg approval] ap n(2,3) \<open>lc_rec m = r\<close> \<open>e \<in> set (lr_entries r)\<close> st
        by (simp add: stamped_entry)
    qed
  qed (auto simp: moved_or_denied_def)
qed

lemma lc_stage_moved:
  assumes "lc_stage rt cfg env m generation op = (m', x)" "trusted env \<in> trustStores cfg" "lc_sync rt cfg m"
  shows "moved_or_denied rt cfg m m' x"
proof (rule withEntry_moved [OF assms(1) [unfolded lc_stage_def] assms(3)], goal_cases)
  case (1 r e)
  note b = 1(4)
  show ?case
  proof (cases "\<exists>er. x = Inl er \<and> m' = m")
    case False
    with b obtain v det where st: "le_state e = APPROVED" and v: "trustAndTime rt env e = Inr v"
      and p: "validateAdminAiPocPolicy (vf_policy v)"
      and c: "commit rt cfg env m
        (nextRecord rt (clock env 2) r e op T_STAGED (Some APPROVED) STAGED det) = (m', x)"
      by (auto simp: res_bind_Inr_iff split: if_splits sum.splits)
    have t: "trusted_artifact rt (trusted env) e v"
      using v by (auto simp: trustAndTime_def trusted_artifact_def Let_def res_bind_Inr_iff split: if_splits)
    show ?thesis
    proof (rule moved_or_deniedI [OF c], goal_cases)
      case (1 r2 rc)
      note n = nextRecord_Inr [OF 1]
      show ?case
        using move_staged [OF n(2,3) \<open>e \<in> set (lr_entries r)\<close> st assms(2) t p] n(1) \<open>lc_rec m = r\<close> by simp
    qed
  qed (auto simp: moved_or_denied_def)
qed

lemma lc_retire_moved:
  assumes "lc_retire rt cfg env m generation op = (m', x)" "lc_sync rt cfg m"
  shows "moved_or_denied rt cfg m m' x"
proof (rule withEntry_moved [OF assms(1) [unfolded lc_retire_def] assms(2)], goal_cases)
  case (1 r e)
  note b = 1(4)
  show ?case
  proof (cases "\<exists>er. x = Inl er \<and> m' = m")
    case False
    with b obtain det where st: "le_state e = SUPERSEDED" and ls: "lr_lastSafeGeneration r \<noteq> Some (le_generation e)"
      and c: "commit rt cfg env m
        (nextRecord rt (clock env 0) r e op T_RETIRED (Some SUPERSEDED) RETIRED det) = (m', x)"
      by (auto split: if_splits)
    show ?thesis
    proof (rule moved_or_deniedI [OF c], goal_cases)
      case (1 r2 rc)
      note n = nextRecord_Inr [OF 1]
      show ?case
        using move_retired [OF n(2,3) \<open>e \<in> set (lr_entries r)\<close> st ls] n(1) \<open>lc_rec m = r\<close> by simp
    qed
  qed (auto simp: moved_or_denied_def)
qed

subsection \<open>Operations that freeze the fence\<close>

text \<open>
  A fence after an operation that may freeze it: frozen where that was needed and went well, otherwise the
  fence before.
\<close>

definition frozen_by :: "lc_runtime \<Rightarrow> lc_config \<Rightarrow> fence \<Rightarrow> fence \<Rightarrow> bool" where
  "frozen_by rt cfg w w' \<longleftrightarrow> (\<exists>writes now reason r.
     freezeDispatch (base_rt rt) (fenceToken cfg) writes now w reason = (w', Inr r))"

lemma freezeDispatch_outcome:
  assumes "freezeDispatch (base_rt rt) (fenceToken cfg) wr now w reason = (w', x)"
  obtains e where "x = Inl e" "w' = w" | r where "x = Inr r" "frozen_by rt cfg w w'"
proof (cases x)
  case (Inl e)
  show thesis using assms
  proof (cases rule: freezeDispatch_cases)
    case (denied e)
    then show thesis using that(1) by blast
  qed (use Inl in simp)
next
  case (Inr r)
  have "frozen_by rt cfg w w'" unfolding frozen_by_def using assms [unfolded Inr] by (intro exI)
  then show thesis using Inr that(2) by blast
qed

definition moved_or_frozen ::
  "lc_runtime \<Rightarrow> lc_config \<Rightarrow> lc_manager \<Rightarrow> lc_manager \<Rightarrow> bool \<Rightarrow> lc_receipt res \<Rightarrow> bool" where
  "moved_or_frozen rt cfg m m' needed x \<longleftrightarrow>
     (\<exists>e. x = Inl e \<and> lc_stays m m' \<and> (lm_fence m' = lm_fence m \<or> frozen_by rt cfg (lm_fence m) (lm_fence m')))
     \<or> (\<exists>rc. x = Inr rc \<and> lc_moves rt cfg m rc m'
         \<and> (if needed then frozen_by rt cfg (lm_fence m) (lm_fence m') else lm_fence m' = lm_fence m))"

lemma moved_or_frozen_Inl [simp]: "moved_or_frozen rt cfg m m needed (Inl e)"
  by (simp add: moved_or_frozen_def)

text \<open>The move an operation makes after the freeze is the move it makes without one.\<close>

lemma with_freeze_moved:
  assumes "with_freeze rt cfg env needed reason m (\<lambda>m2. commit rt cfg env m2 nr) = (m', x)"
    and "\<And>r rc. nr = Inr (r, rc) \<Longrightarrow> lc_move rt cfg (lc_rec m) rc r"
  shows "moved_or_frozen rt cfg m m' needed x"
proof -
  have step: "moved_or_frozen rt cfg m m' needed x"
    if c: "commit rt cfg env m2 nr = (m', x)" and m2: "lc_rec m2 = lc_rec m" "lc_stays m m2"
      and w: "if needed then frozen_by rt cfg (lm_fence m) (lm_fence m2) else lm_fence m2 = lm_fence m" for m2
    using c
  proof (cases rule: commit_cases)
    case (denied e)
    with m2 w show ?thesis by (auto simp: moved_or_frozen_def split: if_splits)
  next
    case (written r rc)
    with assms(2) m2 w show ?thesis by (auto simp: moved_or_frozen_def lc_moves_def)
  qed
  show ?thesis
  proof (cases needed)
    case False
    with assms(1) show ?thesis by (intro step [of m]) (simp_all add: with_freeze_def)
  next
    case True
    obtain w y where f: "freezeDispatch (base_rt rt) (fenceToken cfg) (fence_writes env) (fence_clock env)
        (lm_fence m) reason = (w, y)" by (cases "freezeDispatch (base_rt rt) (fenceToken cfg) (fence_writes env)
          (fence_clock env) (lm_fence m) reason")
    from f show ?thesis
    proof (cases rule: freezeDispatch_outcome)
      case (1 e)
      with assms(1) f True show ?thesis by (auto simp: with_freeze_def moved_or_frozen_def)
    next
      case (2 r)
      with assms(1) f True show ?thesis by (intro step [of "m\<lparr>lm_fence := w\<rparr>"]) (simp_all add: with_freeze_def)
    qed
  qed
qed

end
