(* ===== verification/LifecycleActs.thy ===== *)
theory LifecycleActs
  imports LifecycleSteps
begin

text \<open>
  The operations of the lifecycle manager that drive the fence (revocation, rollout reports, activation,
  use), and the relation of the steps a manager takes in its life.
\<close>

subsection \<open>Revocation and rollout\<close>

lemma revoked_record_simps [simp]:
  "lr_entries (revoked_record g r) = lr_entries r" "lr_receipts (revoked_record g r) = lr_receipts r"
  "lr_revision (revoked_record g r) = lr_revision r"
  "next_receipt rt (revoked_record g r) rc = next_receipt rt r rc"
  by (simp_all add: revoked_record_def next_receipt_def)

lemma next_receipt_update [simp]:
  "next_receipt rt (r\<lparr>lr_dispatchActive := b\<rparr>) rc = next_receipt rt r rc"
  "next_receipt rt (r\<lparr>lr_lastSafeGeneration := g\<rparr>) rc = next_receipt rt r rc"
  by (simp_all add: next_receipt_def)

lemma withEntry_frozen:
  assumes "withEntry rt cfg m generation body = (m', x)" "lc_sync rt cfg m"
    and "\<And>r e. lc_rec m = r \<Longrightarrow> e \<in> set (lr_entries r) \<Longrightarrow> generation = jint (le_generation e) \<Longrightarrow>
      body m r e = (m', x) \<Longrightarrow> \<exists>needed. moved_or_frozen rt cfg m m' needed x \<and> Q needed"
    and "Q False"
  shows "\<exists>needed. moved_or_frozen rt cfg m m' needed x \<and> Q needed"
  using assms(1,2)
proof (cases rule: withEntry_cases)
  case (denied e)
  with assms(4) show ?thesis by (intro exI [of _ False]) simp
next
  case (found r entry)
  then show ?thesis by (intro assms(3)) simp_all
qed

lemma lc_revoke_frozen:
  assumes "lc_revoke rt cfg env m generation op reason = (m', x)" "lc_sync rt cfg m"
  shows "\<exists>needed. moved_or_frozen rt cfg m m' needed x
    \<and> (needed \<longrightarrow> int_or_null (lr_activeGeneration (lc_rec m)) = generation)"
proof (rule withEntry_frozen [OF assms(1) [unfolded lc_revoke_def] assms(2)], goal_cases)
  case (1 r e)
  note b = 1(4)
  show ?case
  proof (cases "\<exists>er. x = Inl er \<and> m' = m")
    case False
    define needed where "needed \<longleftrightarrow> lr_activeGeneration r = Some (le_generation e)"
    from False b obtain det where st: "le_state e \<in> {ENTRY_ACTIVE, STAGED, SUPERSEDED}"
      and c: "with_freeze rt cfg env needed ''OPERATOR_ROLLBACK'' m (\<lambda>m2. commit rt cfg env m2
        (nextRecord rt (clock env 0) (revoked_record (le_generation e) r) e op T_REVOKED
          (Some (le_state e)) REVOKED det)) = (m', x)"
      by (auto simp: needed_def Let_def split: if_splits)
    have "moved_or_frozen rt cfg m m' needed x"
    proof (rule with_freeze_moved [OF c], goal_cases)
      case (1 r2 rc)
      note n = nextRecord_Inr [OF 1]
      show ?case
        using move_revoked [of rt r rc e cfg] n \<open>e \<in> set (lr_entries r)\<close> st \<open>lc_rec m = r\<close> by simp
    qed
    moreover have "needed \<longrightarrow> int_or_null (lr_activeGeneration (lc_rec m)) = generation"
      using 1(1,3) by (simp add: needed_def int_or_null_def)
    ultimately show ?thesis by blast
  qed auto
qed simp

lemma set_entry_same_state [simp]: "le_state e = s \<Longrightarrow> e\<lparr>le_state := s\<rparr> = e"
  by (cases e) simp

lemma lc_reportRollout_frozen:
  assumes "lc_reportRollout rt cfg env m generation workers op = (m', x)" "lc_sync rt cfg m"
  shows "\<exists>needed. moved_or_frozen rt cfg m m' needed x"
proof -
  have "\<exists>needed. moved_or_frozen rt cfg m m' needed x \<and> True"
  proof (rule withEntry_frozen [OF assms(1) [unfolded lc_reportRollout_def] assms(2)], goal_cases)
    case (1 r e)
    note b = 1(4)
    show ?case
    proof (cases "\<exists>er. x = Inl er \<and> m' = m")
      case False
      define confirmed where "confirmed \<longleftrightarrow> list_all (\<lambda>v. v = jint (le_generation e)) (elems_of workers)"
      define details where "details = obj [(''expectedGeneration'', jint (le_generation e)), (''workerGenerations'', workers)]"
      from False b have st: "le_state e = ENTRY_ACTIVE"
        and c: "with_freeze rt cfg env (\<not> confirmed) ''WORKER_GENERATION_DIVERGENCE'' m (\<lambda>m2. commit rt cfg env m2
          (if confirmed
           then map_sum id (apfst (\<lambda>r. r\<lparr>lr_lastSafeGeneration := Some (le_generation e)\<rparr>))
             (nextRecord rt (clock env 0) r e op T_ROLLOUT_CONFIRMED (Some ENTRY_ACTIVE) ENTRY_ACTIVE details)
           else nextRecord rt (clock env 0) (r\<lparr>lr_dispatchActive := False\<rparr>) e op T_ROLLOUT_FROZEN
             (Some ENTRY_ACTIVE) ENTRY_ACTIVE details)) = (m', x)"
        by (auto simp: confirmed_def details_def Let_def split: if_splits)
      have "moved_or_frozen rt cfg m m' (\<not> confirmed) x"
      proof (rule with_freeze_moved [OF c], goal_cases)
        case (1 r2 rc)
        show ?case
        proof (cases confirmed)
          case True
          with 1 obtain r3 where n3: "nextRecord rt (clock env 0) r e op T_ROLLOUT_CONFIRMED (Some ENTRY_ACTIVE)
              ENTRY_ACTIVE details = Inr (r3, rc)" and r2: "r2 = r3\<lparr>lr_lastSafeGeneration := Some (le_generation e)\<rparr>"
            by (cases "nextRecord rt (clock env 0) r e op T_ROLLOUT_CONFIRMED (Some ENTRY_ACTIVE) ENTRY_ACTIVE details") auto
          note n = nextRecord_Inr [OF n3]
          have "r2 = put (r\<lparr>lr_lastSafeGeneration := Some (le_generation e)\<rparr>) (set_entry e (lr_entries r)) rc"
            by (rule lc_record.equality) (simp_all add: r2 n(1) st)
          then show ?thesis
            using move_confirmed [OF n(2,3) \<open>e \<in> set (lr_entries r)\<close> st] \<open>lc_rec m = r\<close> by simp
        next
          case False
          with 1 have n3: "nextRecord rt (clock env 0) (r\<lparr>lr_dispatchActive := False\<rparr>) e op T_ROLLOUT_FROZEN
              (Some ENTRY_ACTIVE) ENTRY_ACTIVE details = Inr (r2, rc)" by simp
          note n = nextRecord_Inr [OF n3]
          show ?thesis
            using move_frozen [of rt r rc e cfg] n \<open>e \<in> set (lr_entries r)\<close> st \<open>lc_rec m = r\<close> by simp
        qed
      qed
      then show ?thesis by blast
    qed auto
  qed simp
  then show ?thesis by blast
qed

subsection \<open>Activation\<close>

text \<open>A record whose generations increase and whose active entry is the one of the active generation.\<close>

definition lc_tidy :: "lc_record \<Rightarrow> bool" where
  "lc_tidy r \<longleftrightarrow> sorted_wrt (<) (map le_generation (lr_entries r))
     \<and> (\<forall>g. lr_activeGeneration r = Some g \<longrightarrow> g \<in> le_generation ` set (lr_entries r))
     \<and> (\<forall>e \<in> set (lr_entries r). le_state e = ENTRY_ACTIVE \<longleftrightarrow> lr_activeGeneration r = Some (le_generation e))"

lemma lc_tidy_same: "lc_tidy r \<Longrightarrow> x \<in> set (lr_entries r) \<Longrightarrow> e \<in> set (lr_entries r) \<Longrightarrow>
    le_generation x = le_generation e \<Longrightarrow> x = e"
  by (auto simp: lc_tidy_def strict_sorted_iff distinct_map dest: inj_onD)

text \<open>A snapshot of the fence is of an entry: the same generation and the digest of the same policy text.\<close>

definition snapshot_of :: "fence_snapshot \<Rightarrow> lc_entry \<Rightarrow> bool" where
  "snapshot_of s e \<longleftrightarrow> fc_generation s = le_generation e
     \<and> getf (fields_of (le_artifact e)) ''policySourceDigest'' = JStr (fc_sourceDigest s)"

definition switched_by :: "lc_runtime \<Rightarrow> lc_config \<Rightarrow> fence \<Rightarrow> fence \<Rightarrow> fence_snapshot \<Rightarrow> bool" where
  "switched_by rt cfg w w' s \<longleftrightarrow> (\<exists>writes now candidate authorization p.
     fence_activate (base_rt rt) (fenceToken cfg) writes now w candidate authorization = (w', Inr p) \<and> ap_snapshot p = s)"

lemma verifyArtifact_digest:
  assumes "verifyArtifact rt artifact trust = Inr v"
  shows "getf (fields_of artifact) ''policySourceDigest'' = JStr (sha rt (vf_bytes v))"
proof -
  obtain bytes policy where s: "validateArtifactStructure rt artifact = Some (bytes, policy)"
    using assms by (cases "validateArtifactStructure rt artifact") (auto simp: verifyArtifact_def)
  have b: "vf_bytes v = bytes"
    using assms by (auto simp: verifyArtifact_def s Let_def res_bind_Inr_iff simp del: gateJson.simps
      split: option.splits if_splits)
  from s have "JStr (sha rt bytes) = getf (fields_of artifact) ''policySourceDigest''"
    unfolding validateArtifactStructure_def Let_def by (simp split: if_splits option.splits prod.splits)
  with b show ?thesis by simp
qed

lemma trustAndTime_verifies:
  "trustAndTime rt env e = Inr v \<Longrightarrow> verifyArtifact rt (le_artifact e) (trusted env) = Inr v"
  by (auto simp: trustAndTime_def Let_def res_bind_Inr_iff split: if_splits)

lemma readCandidate_js: "readCandidate (fence_candidate_js c) = fence_candidate.truncate c"
  by (simp add: readCandidate_def fence_candidate_js_def Let_def fence_candidate.defs)

lemma candidate_of_bytes:
  assumes "createPolicyActivationCandidate rt bytes g = Inr c"
  shows "fc_generation c = g" "fc_sourceDigest c = sha rt bytes"
  using assms by (auto simp: createPolicyActivationCandidate_def Let_def res_bind_Inr_iff split: if_splits option.splits)

lemma base_rt_sha [simp]: "sha (base_rt rt) = sha rt"
  by (simp add: runtime.defs)

lemma activated_switches:
  assumes f: "fence_activate (base_rt rt) (fenceToken cfg) wr now w (fence_candidate_js c) au = (w', Inr p)"
    and c: "createPolicyActivationCandidate (base_rt rt) (vf_bytes v) (le_generation e) = Inr c"
    and v: "verifyArtifact rt (le_artifact e) trust = Inr v"
  shows "switched_by rt cfg w w' (ap_snapshot p)" "snapshot_of (ap_snapshot p) e"
proof -
  show "switched_by rt cfg w w' (ap_snapshot p)" unfolding switched_by_def using f by blast
  from f show "snapshot_of (ap_snapshot p) e"
  proof (cases rule: fence_activate_cases)
    case (switched p' c' bytes policy core)
    have "c' = readCandidate (fence_candidate_js c)"
      using switched(2) by (auto simp: validatePolicyActivationCandidate_def Let_def split: if_splits option.splits)
    with switched(7) have t: "fence_candidate.truncate (fr_active core) = fence_candidate.truncate c"
      by (simp add: readCandidate_js)
    from t have "fc_generation (fr_active core) = fc_generation c" "fc_sourceDigest (fr_active core) = fc_sourceDigest c"
      by (simp_all add: fence_candidate.defs)
    with candidate_of_bytes [OF c] verifyArtifact_digest [OF v] switched(1,6) show ?thesis
      by (simp add: snapshot_of_def)
  qed simp
qed

lemma activated_entry_simps [simp]:
  "le_generation (supersede previous x) = le_generation x" "le_generation (activated_entry g previous x) = le_generation x"
  "le_artifact (supersede previous x) = le_artifact x" "le_artifact (activated_entry g previous x) = le_artifact x"
  "le_artifactDigest (activated_entry g previous x) = le_artifactDigest x"
  by (simp_all add: supersede_def activated_entry_def)

lemma supersede_twice [simp]: "supersede previous (supersede previous x) = supersede previous x"
  by (simp add: supersede_def)

lemma activated_record_simps [simp]:
  "lr_receipts (activated_record g r) = lr_receipts r" "lr_revision (activated_record g r) = lr_revision r"
  "lr_activeGeneration (activated_record g r) = Some g"
  "lr_entries (activated_record g r) = map (activated_entry g (lr_activeGeneration r)) (lr_entries r)"
  "next_receipt rt (activated_record g r) rc = next_receipt rt r rc"
  by (simp_all add: activated_record_def next_receipt_def)

text \<open>The manager's derivation of the next record is the move of the activation.\<close>

lemma activated_entries:
  assumes "lc_tidy r" "e \<in> set (lr_entries r)" "le_state e = STAGED"
  defines "g \<equiv> le_generation e" and "previous \<equiv> lr_activeGeneration r"
  shows "map (supersede previous) (set_entry (e\<lparr>le_state := ENTRY_ACTIVE\<rparr>) (map (activated_entry g previous) (lr_entries r)))
    = map (activated_entry g previous) (lr_entries r)"
proof -
  have p: "previous \<noteq> Some g" using assms(1-3) by (auto simp: lc_tidy_def g_def previous_def)
  have "supersede previous (if le_generation (activated_entry g previous x) = le_generation (e\<lparr>le_state := ENTRY_ACTIVE\<rparr>)
      then e\<lparr>le_state := ENTRY_ACTIVE\<rparr> else activated_entry g previous x) = activated_entry g previous x"
    if "x \<in> set (lr_entries r)" for x
  proof (cases "le_generation x = g")
    case True
    with lc_tidy_same [OF assms(1) that assms(2)] have "x = e" by (simp add: g_def)
    with p show ?thesis by (simp add: g_def activated_entry_def supersede_def)
  qed (simp add: g_def activated_entry_def)
  then show ?thesis by (simp add: set_entry_def comp_def)
qed

lemma activated_lc_entryFor:
  assumes "lc_entryFor (Some (activated_record (le_generation e) r)) v = Inr e'" "v = jint (le_generation e)"
    "lc_tidy r" "e \<in> set (lr_entries r)"
  shows "e' = e\<lparr>le_state := ENTRY_ACTIVE\<rparr>"
proof -
  have f: "List.find (\<lambda>x. le_generation x = le_generation e)
      (map (activated_entry (le_generation e) (lr_activeGeneration r)) (lr_entries r)) = Some e'"
    using assms(1,2) by (auto simp: lc_entryFor_def split: if_splits option.splits)
  obtain x where x: "x \<in> set (lr_entries r)" "e' = activated_entry (le_generation e) (lr_activeGeneration r) x"
    "le_generation x = le_generation e"
    using find_Some_in [OF f] by auto
  with lc_tidy_same [OF assms(3) x(1) assms(4)] show ?thesis by (simp add: activated_entry_def)
qed

lemma activated_next:
  assumes "res_bind (lc_entryFor (Some (activated_record (le_generation e) r)) (jint (le_generation e))) (\<lambda>active_entry.
      nextRecord rt now (activated_record (le_generation e) r) active_entry op T_ACTIVATED (Some STAGED) ENTRY_ACTIVE det)
      = Inr (r2, rc)"
    and "lc_tidy r" "e \<in> set (lr_entries r)" "le_state e = STAGED"
  defines "r3 \<equiv> r2\<lparr>lr_entries := map (supersede (lr_activeGeneration r)) (lr_entries r2),
      lr_activeGeneration := Some (le_generation e),
      lr_lastSafeGeneration := lr_lastSafeGeneration (activated_record (le_generation e) r), lr_dispatchActive := True\<rparr>"
  shows "lc_move rt cfg r rc r3"
proof -
  obtain e' where e': "lc_entryFor (Some (activated_record (le_generation e) r)) (jint (le_generation e)) = Inr e'"
    and n: "nextRecord rt now (activated_record (le_generation e) r) e' op T_ACTIVATED (Some STAGED) ENTRY_ACTIVE det
      = Inr (r2, rc)"
    using assms(1) by (auto simp: res_bind_Inr_iff)
  have e: "e' = e\<lparr>le_state := ENTRY_ACTIVE\<rparr>" by (rule activated_lc_entryFor [OF e' refl assms(2,3)])
  note nr = nextRecord_Inr [OF n]
  have "r3 = put (activated_record (le_generation e) r) (lr_entries (activated_record (le_generation e) r)) rc"
    using activated_entries [OF assms(2-4)]
    by (intro lc_record.equality) (simp_all add: r3_def nr(1) e, simp_all add: activated_record_def)
  moreover have "next_receipt rt r rc" "stamped rc e T_ACTIVATED (Some STAGED) ENTRY_ACTIVE"
    using nr(2,3) by (simp_all add: e stamped_entry)
  ultimately show ?thesis using move_activated assms(3,4) by simp
qed

text \<open>
  The outcomes of an activation: nothing changed; the fence runs the generation, or is frozen on it, while the record of
  the manager still says \<open>STAGED\<close>; both switched.
\<close>

definition activation_diverged :: "lc_runtime \<Rightarrow> lc_config \<Rightarrow> lc_manager \<Rightarrow> lc_manager \<Rightarrow> lc_entry \<Rightarrow> bool" where
  "activation_diverged rt cfg m m' e \<longleftrightarrow> lc_stays m m' \<and> e \<in> set (lr_entries (lc_rec m)) \<and> le_state e = STAGED
     \<and> (\<exists>w s. switched_by rt cfg (lm_fence m) w s \<and> snapshot_of s e
         \<and> (lm_fence m' = w \<or> frozen_by rt cfg w (lm_fence m')))"

definition activation_completed ::
  "lc_runtime \<Rightarrow> lc_config \<Rightarrow> lc_manager \<Rightarrow> lc_manager \<Rightarrow> lc_receipt \<Rightarrow> fence_snapshot \<Rightarrow> lc_entry \<Rightarrow> bool" where
  "activation_completed rt cfg m m' rc s e \<longleftrightarrow> lc_moves rt cfg m rc m' \<and> e \<in> set (lr_entries (lc_rec m)) \<and> le_state e = STAGED
     \<and> lr_activeGeneration (lc_rec m') = Some (le_generation e)
     \<and> switched_by rt cfg (lm_fence m) (lm_fence m') s \<and> snapshot_of s e"

text \<open>What follows once the fence is switched.\<close>

lemma activate_tail:
  assumes "(case nr of
      Inl er \<Rightarrow> (m2, Inl er)
    | Inr (r2, receipt) \<Rightarrow>
        (case lc_persist rt cfg env m2 (upd r2) of
           Inr m3 \<Rightarrow> (m3, Inr (receipt, active))
         | Inl er \<Rightarrow>
             (case freezeDispatch (base_rt rt) (fenceToken cfg) wr now w reason of
                (w', Inl e') \<Rightarrow> (m2\<lparr>lm_fence := w'\<rparr>, Inl e')
              | (w', Inr _) \<Rightarrow> (m2\<lparr>lm_fence := w'\<rparr>, Inl code)))) = (m', x)"
    and "lm_fence m2 = w"
  obtains (diverged) er where "x = Inl er" "lc_stays m2 m'" "lm_fence m' = w \<or> frozen_by rt cfg w (lm_fence m')"
  | (written) r2 rc where "nr = Inr (r2, rc)" "x = Inr (rc, active)" "lc_sync rt cfg m'" "lm_memory m' \<noteq> None"
      "lc_rec m' = upd r2" "lm_fence m' = w"
proof (cases nr)
  case (Inl er)
  with assms show thesis by (intro diverged [of er]) simp_all
next
  case (Inr b)
  obtain r2 rc where b: "b = (r2, rc)" by (cases b)
  show thesis
  proof (cases "lc_persist rt cfg env m2 (upd r2)")
    case (Inr m3)
    with assms \<open>nr = Inr b\<close> b have "x = Inr (rc, active)" "m' = m3" by simp_all
    with lc_persist_Inr [OF Inr] \<open>nr = Inr b\<close> b assms(2) show thesis by (intro written) simp_all
  next
    case (Inl er)
    obtain w' y where f: "freezeDispatch (base_rt rt) (fenceToken cfg) wr now w reason = (w', y)"
      by (cases "freezeDispatch (base_rt rt) (fenceToken cfg) wr now w reason")
    with assms(1) Inl \<open>nr = Inr b\<close> b have m': "m' = m2\<lparr>lm_fence := w'\<rparr>" "\<exists>er. x = Inl er"
      by (auto split: sum.splits)
    from f show thesis
    proof (cases rule: freezeDispatch_outcome)
      case (1 e2)
      with m' diverged show thesis by auto
    next
      case (2 r4)
      with m' diverged show thesis by auto
    qed
  qed
qed

lemma lc_activate_cases:
  assumes "lc_activate rt cfg env m generation op = (m', x)" "lc_sync rt cfg m" "lc_tidy (lc_rec m)"
  obtains (denied) er where "x = Inl er" "m' = m"
  | (diverged) er e where "x = Inl er" "generation = jint (le_generation e)" "activation_diverged rt cfg m m' e"
  | (completed) rc p e where "x = Inr (rc, p)" "generation = jint (le_generation e)"
      "activation_completed rt cfg m m' rc (ap_snapshot p) e"
  using assms(1) [unfolded lc_activate_def] assms(2)
proof (cases rule: withEntry_cases)
  case (denied e)
  then show thesis using that(1) by blast
next
  case (found r e)
  note t = assms(3) [unfolded found(2)]
  show thesis
  proof (cases "\<exists>er. x = Inl er \<and> m' = m")
    case True
    then show thesis using that(1) by blast
  next
    case False
    have id: "m\<lparr>lm_fence := lm_fence m\<rparr> = m" by simp
    define pre where "pre = res_bind (trustAndTime rt env e) (\<lambda>v.
       res_bind (validateApproval rt (ownerApprovalToken cfg) (le_approval e) e (clock env 1)) (\<lambda>_.
       res_bind (createPolicyActivationCandidate (base_rt rt) (vf_bytes v) (le_generation e)) (\<lambda>candidate.
       res_bind (createLocalOwnerPolicyAuthorization (base_rt rt) candidate (ownerActivationToken cfg) (clock env 2))
         (\<lambda>authorization. Inr (candidate, authorization)))))"
    note body = found(5) [folded pre_def]
    from False body have st: "le_state e = STAGED" by (auto split: if_splits)
    from False body obtain c au where pre: "pre = Inr (c, au)"
      by (cases pre) (auto split: if_splits)
    then obtain v where v: "trustAndTime rt env e = Inr v"
      and c: "createPolicyActivationCandidate (base_rt rt) (vf_bytes v) (le_generation e) = Inr c"
      by (auto simp: pre_def res_bind_Inr_iff)
    obtain w y where f: "fence_activate (base_rt rt) (fenceToken cfg) (fence_writes env) (fence_clock env) (lm_fence m)
        (fence_candidate_js c) au = (w, y)"
      by (cases "fence_activate (base_rt rt) (fenceToken cfg) (fence_writes env) (fence_clock env) (lm_fence m)
        (fence_candidate_js c) au")
    have "\<exists>p. y = Inr p"
    proof (rule ccontr)
      assume n: "\<nexists>p. y = Inr p"
      then obtain er where y: "y = Inl er" by (cases y) auto
      with f have "w = lm_fence m" by (cases rule: fence_activate_cases) auto
      with False body st pre f y id show False by auto
    qed
    then obtain p where y: "y = Inr p" by blast
    note sw = activated_switches [OF f [unfolded y] c trustAndTime_verifies [OF v]]
    define m2 where "m2 = m\<lparr>lm_fence := w\<rparr>"
    have m2: "lm_fence m2 = w" "lc_stays m m2" by (simp_all add: m2_def)
    note tail = body [unfolded pre f y st if_not_P [OF not_not [THEN iffD2, OF refl]] sum.case prod.case Let_def, folded m2_def]
    from tail m2(1) show thesis
    proof (cases rule: activate_tail)
      case (diverged er)
      have "lc_stays m m'" using m2(2) diverged(2) by (simp add: lc_stays_def)
      then have "activation_diverged rt cfg m m' e"
        unfolding activation_diverged_def using diverged(3) sw st found(2,3) by blast
      with diverged(1) found(4) that(2) show thesis by blast
    next
      case (written r2 rc)
      have mv: "lc_move rt cfg (lc_rec m) rc (lc_rec m')"
        unfolding written(5) found(2) by (rule activated_next [OF written(1) t found(3) st])
      have "lr_activeGeneration (lc_rec m') = Some (le_generation e)" by (simp add: written(5))
      then have "activation_completed rt cfg m m' rc (ap_snapshot p) e"
        unfolding activation_completed_def lc_moves_def using mv written(3,4,6) sw st found(2,3) by blast
      with written(2) found(4) that(3) show thesis by blast
    qed
  qed
qed

end
