(* ===== verification/LifecycleRuns.thy ===== *)
theory LifecycleRuns
  imports LifecycleActs HashChain
begin

text \<open>
  What every move of the record keeps: the shape of the record, the log of the receipts, and for each
  entry the life its receipts tell, the approval and the closed policy it needed to get where it is.
\<close>

subsection \<open>Moves, entry by entry\<close>

definition ROLLOUTS :: "transition list" where
  "ROLLOUTS = [T_ROLLOUT_CONFIRMED, T_ROLLOUT_FROZEN]"

inductive entry_change :: "lc_runtime \<Rightarrow> lc_config \<Rightarrow> lc_receipt \<Rightarrow> lc_entry \<Rightarrow> lc_entry \<Rightarrow> bool" for rt cfg rc where
  kept: "le_generation x \<noteq> rc_generation rc \<Longrightarrow> entry_change rt cfg rc x x"
| superseded: "le_generation x \<noteq> rc_generation rc \<Longrightarrow> le_state x = ENTRY_ACTIVE \<Longrightarrow>
    entry_change rt cfg rc x (x\<lparr>le_state := SUPERSEDED\<rparr>)"
| rolled: "rc_transition rc \<in> set ROLLOUTS \<Longrightarrow> entry_change rt cfg rc x x"
| validated: "stamped rc x T_VALIDATED (Some DRAFT) VALIDATED \<Longrightarrow> le_state x = DRAFT \<Longrightarrow>
    entry_change rt cfg rc x (x\<lparr>le_diff := d, le_diffDigest := dd, le_state := VALIDATED\<rparr>)"
| simulated: "stamped rc x T_SIMULATED (Some VALIDATED) SIMULATED \<Longrightarrow> le_state x = VALIDATED \<Longrightarrow>
    entry_change rt cfg rc x (x\<lparr>le_simulationDigest := sd, le_state := SIMULATED\<rparr>)"
| approved: "stamped rc x T_APPROVED (Some SIMULATED) APPROVED \<Longrightarrow> le_state x = SIMULATED \<Longrightarrow>
    validateApproval rt (ownerApprovalToken cfg) approval x now = Inr () \<Longrightarrow>
    entry_change rt cfg rc x (x\<lparr>le_approval := approval, le_state := APPROVED\<rparr>)"
| staged: "stamped rc x T_STAGED (Some APPROVED) STAGED \<Longrightarrow> le_state x = APPROVED \<Longrightarrow>
    trust \<in> trustStores cfg \<Longrightarrow> trusted_artifact rt trust x v \<Longrightarrow> validateAdminAiPocPolicy (vf_policy v) \<Longrightarrow>
    entry_change rt cfg rc x (x\<lparr>le_state := STAGED\<rparr>)"
| activated: "stamped rc x T_ACTIVATED (Some STAGED) ENTRY_ACTIVE \<Longrightarrow> le_state x = STAGED \<Longrightarrow>
    entry_change rt cfg rc x (x\<lparr>le_state := ENTRY_ACTIVE\<rparr>)"
| retired: "stamped rc x T_RETIRED (Some SUPERSEDED) RETIRED \<Longrightarrow> le_state x = SUPERSEDED \<Longrightarrow>
    entry_change rt cfg rc x (x\<lparr>le_state := RETIRED\<rparr>)"
| revoked: "stamped rc x T_REVOKED (Some (le_state x)) REVOKED \<Longrightarrow> le_state x \<in> {ENTRY_ACTIVE, STAGED, SUPERSEDED} \<Longrightarrow>
    entry_change rt cfg rc x (x\<lparr>le_state := REVOKED\<rparr>)"

lemma list_all2_left: "list_all2 P xs ys \<Longrightarrow> x \<in> set xs \<Longrightarrow> \<exists>y \<in> set ys. P x y"
  by (induction rule: list_all2_induct) auto

lemma list_all2_right: "list_all2 P xs ys \<Longrightarrow> y \<in> set ys \<Longrightarrow> \<exists>x \<in> set xs. P x y"
  by (induction rule: list_all2_induct) auto

lemma entry_change_same:
  assumes "entry_change rt cfg rc x y"
  shows "le_generation y = le_generation x" "le_artifact y = le_artifact x" "le_artifactDigest y = le_artifactDigest x"
  using assms by (cases; simp)+

lemma changed_entries:
  assumes "lc_tidy r" "e \<in> set (lr_entries r)" "rc_generation rc = le_generation e"
    and "entry_change rt cfg rc e e'" "le_generation e' = le_generation e"
  shows "list_all2 (entry_change rt cfg rc) (lr_entries r) (set_entry e' (lr_entries r))"
proof -
  have "entry_change rt cfg rc x (if le_generation x = le_generation e' then e' else x)" if "x \<in> set (lr_entries r)" for x
  proof (cases "le_generation x = le_generation e")
    case True
    with lc_tidy_same [OF assms(1) that assms(2)] assms(4,5) show ?thesis by simp
  qed (use assms(3,5) kept in simp)
  then show ?thesis by (simp add: set_entry_def list_all2_map2 list_all2_same)
qed

lemma changed_activated:
  assumes "lc_tidy r" "e \<in> set (lr_entries r)" "rc_generation rc = le_generation e"
    and "entry_change rt cfg rc e (e\<lparr>le_state := ENTRY_ACTIVE\<rparr>)"
  shows "list_all2 (entry_change rt cfg rc) (lr_entries r) (lr_entries (activated_record (le_generation e) r))"
proof -
  have "entry_change rt cfg rc x (activated_entry (le_generation e) (lr_activeGeneration r) x)"
    if "x \<in> set (lr_entries r)" for x
  proof (cases "le_generation x = le_generation e")
    case True
    with lc_tidy_same [OF assms(1) that assms(2)] assms(4) show ?thesis by (simp add: activated_entry_def)
  next
    case False
    with assms(3) show ?thesis by (auto simp: activated_entry_def supersede_def intro: kept superseded)
  qed
  then show ?thesis by (simp add: list_all2_map2 list_all2_same)
qed

lemma stamped_generation: "stamped rc e tr s t \<Longrightarrow> rc_generation rc = le_generation e"
  by (simp add: stamped_def)

lemma lc_move_entries:
  assumes "lc_move rt cfg r rc r'" "lc_tidy r"
  obtains (fresh) e artifact trust v where "lr_entries r' = lr_entries r @ [e]" "stamped rc e T_DRAFTED None DRAFT"
      "\<forall>x \<in> set (lr_entries r). le_generation x < le_generation e" "verifyArtifact rt artifact trust = Inr v"
      "e = drafted_entry rt artifact (vf_trustDigest v)" "trust \<in> trustStores cfg"
  | (changed) "list_all2 (entry_change rt cfg rc) (lr_entries r) (lr_entries r')"
      "\<exists>x \<in> set (lr_entries r). le_generation x = rc_generation rc \<and> le_artifactDigest x = rc_artifactDigest rc"
  using assms(1)
proof (cases rule: lc_move.cases)
  case (move_drafted e artifact trust v)
  then show thesis by (intro fresh) simp_all
next
  case (move_validated e d dd)
  with changed_entries [OF assms(2) _ stamped_generation validated] show thesis
    by (intro changed) (auto simp: stamped_def)
next
  case (move_simulated e sd)
  with changed_entries [OF assms(2) _ stamped_generation simulated] show thesis
    by (intro changed) (auto simp: stamped_def)
next
  case (move_approved e approval now)
  with changed_entries [OF assms(2) _ stamped_generation approved] show thesis
    by (intro changed) (auto simp: stamped_def)
next
  case (move_staged e trust v)
  with changed_entries [OF assms(2) _ stamped_generation staged] show thesis
    by (intro changed) (auto simp: stamped_def)
next
  case (move_activated e)
  with changed_activated [OF assms(2) _ stamped_generation activated] show thesis
    by (intro changed) (auto simp: stamped_def)
next
  case (move_retired e)
  with changed_entries [OF assms(2) _ stamped_generation retired] show thesis
    by (intro changed) (auto simp: stamped_def)
next
  case (move_revoked e)
  with changed_entries [OF assms(2) _ stamped_generation revoked] show thesis
    by (intro changed) (auto simp: stamped_def)
next
  case (move_confirmed e)
  with changed_entries [OF assms(2) _ stamped_generation rolled] show thesis
    by (intro changed) (auto simp: stamped_def ROLLOUTS_def)
next
  case (move_frozen e)
  with changed_entries [OF assms(2) _ stamped_generation rolled] show thesis
    by (intro changed) (auto simp: stamped_def ROLLOUTS_def)
qed

subsection \<open>The shape of the record\<close>

lemma set_entry_generations [simp]: "map le_generation (set_entry e es) = map le_generation es"
  by (induction es) (simp_all add: set_entry_def)

lemma generation_image [simp]: "le_generation ` set (set_entry e es) = le_generation ` set es"
  by (metis set_entry_generations list.set_map)

lemma in_set_entry:
  "x \<in> set (set_entry e es) \<Longrightarrow> x = e \<or> x \<in> set es \<and> le_generation x \<noteq> le_generation e"
  by (auto simp: set_entry_def)

text \<open>A move of one entry keeps the shape when the new state and the new active generation agree.\<close>

lemma lc_tidy_put:
  assumes "lc_tidy r" "lr_entries r2 = lr_entries r" "le_generation e \<in> le_generation ` set (lr_entries r)"
    and "le_state e = ENTRY_ACTIVE \<longleftrightarrow> lr_activeGeneration r2 = Some (le_generation e)"
    and "lr_activeGeneration r2 = lr_activeGeneration r
      \<or> lr_activeGeneration r = Some (le_generation e) \<and> lr_activeGeneration r2 = None"
  shows "lc_tidy (put r2 (set_entry e (lr_entries r)) rc)"
proof -
  have "(le_state x = ENTRY_ACTIVE) = (lr_activeGeneration r2 = Some (le_generation x))"
    if "x \<in> set (set_entry e (lr_entries r))" for x
    using in_set_entry [OF that] assms(1,4,5) by (auto simp: lc_tidy_def)
  with assms(1,5) show ?thesis by (auto simp: lc_tidy_def)
qed

lemma activated_generations [simp]: "map le_generation (map (activated_entry g previous) es) = map le_generation es"
  by (induction es) simp_all

lemma lc_tidy_activated:
  assumes "lc_tidy r" "e \<in> set (lr_entries r)"
  shows "lc_tidy (put (activated_record (le_generation e) r) (lr_entries (activated_record (le_generation e) r)) rc)"
proof -
  have "(le_state (activated_entry (le_generation e) (lr_activeGeneration r) x) = ENTRY_ACTIVE) = (le_generation x = le_generation e)"
    if "x \<in> set (lr_entries r)" for x
    using assms(1) that by (auto simp: activated_entry_def supersede_def lc_tidy_def)
  with assms show ?thesis by (auto simp: lc_tidy_def image_image simp del: map_map)
qed

lemma lc_tidy_active: "lc_tidy r \<Longrightarrow> e \<in> set (lr_entries r) \<Longrightarrow>
    lr_activeGeneration r = Some (le_generation e) \<longleftrightarrow> le_state e = ENTRY_ACTIVE"
  by (simp add: lc_tidy_def)

lemma lc_move_tidy:
  assumes "lc_move rt cfg r rc r'" "lc_tidy r"
  shows "lc_tidy r'"
  using assms(1)
proof (cases rule: lc_move.cases)
  case (move_drafted e artifact trust v)
  then have "le_state e = DRAFT" by (simp add: drafted_entry_def)
  with move_drafted assms(2) show ?thesis by (fastforce simp: lc_tidy_def sorted_wrt_append)
next
  case (move_activated e)
  with lc_tidy_activated [OF assms(2)] show ?thesis by simp
next
  case (move_revoked e)
  show ?thesis unfolding move_revoked(1)
    by (rule lc_tidy_put [OF assms(2), of _ "e\<lparr>le_state := REVOKED\<rparr>", unfolded revoked_record_simps])
      (use move_revoked in \<open>auto simp: revoked_record_def\<close>)
qed (simp_all add: lc_tidy_put assms(2) lc_tidy_active [OF assms(2)])

subsection \<open>The receipts\<close>

abbreviation lc_receipt_unsigned :: "'a lc_receipt_core_scheme \<Rightarrow> js" where
  "lc_receipt_unsigned r \<equiv> obj (lc_receipt_fields r)"

lemma entry_state_text_inj [simp]: "entry_state_text a = entry_state_text b \<longleftrightarrow> a = b"
  by (cases a; cases b) simp_all

lemma transition_text_inj [simp]: "transition_text a = transition_text b \<longleftrightarrow> a = b"
  by (cases a; cases b) simp_all

lemma map_entry_state_text [simp]:
  "map_option entry_state_text x = map_option entry_state_text y \<longleftrightarrow> x = y"
  by (cases x; cases y) simp_all

interpretation lc_receipt_codec: codec lc_receipt_unsigned lc_receipt_core.truncate
proof
  fix a b :: "'a lc_receipt_core_scheme"
  show "plain (lc_receipt_unsigned a)" "js_wf (lc_receipt_unsigned a)"
    by (simp_all add: lc_receipt_fields_def)
  show "lc_receipt_unsigned a = lc_receipt_unsigned b" if "lc_receipt_core.truncate a = lc_receipt_core.truncate b"
    using that by (simp add: lc_receipt_fields_def lc_receipt_core.defs)
  assume "js_norm (lc_receipt_unsigned a) = js_norm (lc_receipt_unsigned b)"
  then show "lc_receipt_core.truncate a = lc_receipt_core.truncate b"
    unfolding lc_receipt_fields_def
    by (drule_tac js_norm_obj_vals) (simp_all add: lc_receipt_core.defs)
qed

definition lc_receipt_text :: "lc_receipt \<Rightarrow> string" where
  "lc_receipt_text r = gateJson (lc_receipt_unsigned r)"

interpretation lc_receipt_chain: hash_chain lc_receipt_text rc_receiptDigest rc_previousReceiptDigest
proof
  fix x y :: lc_receipt
  assume "lc_receipt_text x = lc_receipt_text y" and d: "rc_receiptDigest x = rc_receiptDigest y"
  then have "canonText (lc_receipt_unsigned x) = canonText (lc_receipt_unsigned y)"
    by (simp add: lc_receipt_text_def canonText_def gateJson_plain [OF lc_receipt_codec.enc_plain]
        del: gateJson.simps canonicalJson.simps)
  then have "lc_receipt_core.truncate x = lc_receipt_core.truncate y"
    by (simp only: lc_receipt_codec.text_inj)
  with d show "x = y" by (cases x, cases y) (simp add: lc_receipt_core.defs)
qed

definition lc_log :: "lc_runtime \<Rightarrow> lc_record \<Rightarrow> bool" where
  "lc_log rt r \<longleftrightarrow> lr_revision r = int (length (lr_receipts r))
     \<and> map rc_sequence (lr_receipts r) = map (\<lambda>i. int i + 1) [0..<length (lr_receipts r)]
     \<and> distinct (map rc_operationId (lr_receipts r))
     \<and> lc_receipt_chain.chained (sha rt) (lr_receipts r)"

lemma lc_move_put:
  assumes "lc_move rt cfg r rc r'"
  shows "lr_receipts r' = lr_receipts r @ [rc]" "lr_revision r' = lr_revision r + 1" "next_receipt rt r rc"
  using assms by (cases; simp)+

lemma lc_move_log:
  assumes "lc_move rt cfg r rc r'" "lc_log rt r"
  shows "lc_log rt r'"
  using assms(2) lc_move_put [OF assms(1)]
  by (simp add: lc_log_def next_receipt_def lc_receipt_text_def json_digest_def)

subsection \<open>The life of an entry\<close>

text \<open>The transitions the receipts tell of a generation, reports about the rollout aside.\<close>

definition life :: "int \<Rightarrow> lc_receipt list \<Rightarrow> transition list" where
  "life g rcs = map rc_transition (filter (\<lambda>rc. rc_generation rc = g \<and> rc_transition rc \<notin> set ROLLOUTS) rcs)"

definition TO_STAGED :: "transition list" where
  "TO_STAGED = [T_DRAFTED, T_VALIDATED, T_SIMULATED, T_APPROVED, T_STAGED]"

text \<open>The lives that lead to a state.\<close>

fun lives :: "entry_state \<Rightarrow> transition list list" where
  "lives DRAFT = [take 1 TO_STAGED]"
| "lives VALIDATED = [take 2 TO_STAGED]"
| "lives SIMULATED = [take 3 TO_STAGED]"
| "lives APPROVED = [take 4 TO_STAGED]"
| "lives STAGED = [TO_STAGED]"
| "lives ENTRY_ACTIVE = [TO_STAGED @ [T_ACTIVATED]]"
| "lives SUPERSEDED = [TO_STAGED @ [T_ACTIVATED]]"
| "lives RETIRED = [TO_STAGED @ [T_ACTIVATED, T_RETIRED]]"
| "lives REVOKED = [TO_STAGED @ [T_REVOKED], TO_STAGED @ [T_ACTIVATED, T_REVOKED]]"

definition before_approval :: "entry_state list" where
  "before_approval = [DRAFT, VALIDATED, SIMULATED]"

text \<open>
  The artifact of an entry was verified against a trust store the manager was configured with: the store
  names a key for its issuer and key identifier, the signature is valid under this key for the rest
  of the artifact, and the signed policy is the closed one.
\<close>

definition trusted_signature :: "lc_runtime \<Rightarrow> trust_store \<Rightarrow> js \<Rightarrow> bool" where
  "trusted_signature rt trust artifact \<longleftrightarrow>
     (let f = getf (fields_of artifact) in
      (\<exists>key signature. trust (str_of (f ''issuer'')) (str_of (f ''keyId'')) = Some key
         \<and> from_base64 (str_of (getf (fields_of (f ''signature'')) ''valueBase64'')) = Some signature
         \<and> verify_sig rt key (gateJson (obj (without ''signature'' (fields_of artifact)))) signature))"

definition closed_policy :: "lc_runtime \<Rightarrow> lc_config \<Rightarrow> lc_entry \<Rightarrow> bool" where
  "closed_policy rt cfg e \<longleftrightarrow> (\<exists>trust \<in> trustStores cfg. \<exists>v. verifyArtifact rt (le_artifact e) trust = Inr v
     \<and> trusted_signature rt trust (le_artifact e) \<and> validateAdminAiPocPolicy (vf_policy v))"

lemma verified_signed: "verifyArtifact rt artifact trust = Inr v \<Longrightarrow> trusted_signature rt trust artifact"
  by (auto simp: verifyArtifact_def trustSnapshot_def trusted_signature_def Let_def res_bind_Inr_iff
      split: option.splits if_splits)

definition owner_approved :: "lc_runtime \<Rightarrow> lc_config \<Rightarrow> lc_entry \<Rightarrow> bool" where
  "owner_approved rt cfg e \<longleftrightarrow> (\<exists>now. validateApproval rt (ownerApprovalToken cfg) (le_approval e) e now = Inr ())"

definition entry_ok :: "lc_runtime \<Rightarrow> lc_config \<Rightarrow> lc_receipt list \<Rightarrow> lc_entry \<Rightarrow> bool" where
  "entry_ok rt cfg rcs e \<longleftrightarrow> life (le_generation e) rcs \<in> set (lives (le_state e))
     \<and> le_artifactDigest e = artifactDigest rt (le_artifact e)
     \<and> (le_state e \<notin> set before_approval \<longrightarrow> owner_approved rt cfg e)
     \<and> (le_state e \<notin> set (APPROVED # before_approval) \<longrightarrow> closed_policy rt cfg e)"

lemma life_snoc: "life g (rcs @ [rc]) = life g rcs
    @ (if rc_generation rc = g \<and> rc_transition rc \<notin> set ROLLOUTS then [rc_transition rc] else [])"
  by (simp add: life_def)

text \<open>What approval and policy are read from does not change with the state.\<close>

lemma validateApproval_update [simp]:
  "validateApproval rt token a (e\<lparr>le_state := s\<rparr>) now = validateApproval rt token a e now"
  "validateApproval rt token a (e\<lparr>le_approval := b\<rparr>) now = validateApproval rt token a e now"
  by (simp_all add: validateApproval_def Let_def)

lemma owner_approved_update [simp]: "owner_approved rt cfg (e\<lparr>le_state := s\<rparr>) = owner_approved rt cfg e"
  by (simp add: owner_approved_def)

lemma closed_policy_update [simp]: "closed_policy rt cfg (e\<lparr>le_state := s\<rparr>) = closed_policy rt cfg e"
  by (simp add: closed_policy_def)

lemma entry_change_ok:
  assumes "entry_change rt cfg rc x y" "entry_ok rt cfg rcs x"
  shows "entry_ok rt cfg (rcs @ [rc]) y"
  using assms(1)
proof (cases rule: entry_change.cases)
  case (approved approval now)
  then have "owner_approved rt cfg y" by (auto simp: owner_approved_def)
  with assms(2) approved show ?thesis
    by (simp add: entry_ok_def life_snoc stamped_def ROLLOUTS_def TO_STAGED_def before_approval_def)
next
  case (staged trust v)
  with verified_signed [of rt "le_artifact x" trust v] have "closed_policy rt cfg x"
    unfolding closed_policy_def trusted_artifact_def by blast
  with assms(2) staged show ?thesis
    by (simp add: entry_ok_def life_snoc stamped_def ROLLOUTS_def TO_STAGED_def before_approval_def)
qed (use assms(2) in \<open>auto simp: entry_ok_def life_snoc stamped_def ROLLOUTS_def TO_STAGED_def before_approval_def\<close>)

lemma drafted_entry_ok:
  assumes "stamped rc e T_DRAFTED None DRAFT" "e = drafted_entry rt artifact d" "life (le_generation e) rcs = []"
  shows "entry_ok rt cfg (rcs @ [rc]) e"
proof -
  have "le_state e = DRAFT" "le_artifactDigest e = artifactDigest rt (le_artifact e)"
    by (simp_all add: assms(2) drafted_entry_def)
  with assms(1,3) show ?thesis
    by (simp add: entry_ok_def life_snoc stamped_def ROLLOUTS_def TO_STAGED_def before_approval_def)
qed

subsection \<open>The invariant of the record\<close>

definition lc_record_inv :: "lc_runtime \<Rightarrow> lc_config \<Rightarrow> lc_record \<Rightarrow> bool" where
  "lc_record_inv rt cfg r \<longleftrightarrow> lc_tidy r \<and> lc_log rt r
     \<and> (\<forall>e \<in> set (lr_entries r). entry_ok rt cfg (lr_receipts r) e)
     \<and> (\<forall>rc \<in> set (lr_receipts r). rc_generation rc \<in> le_generation ` set (lr_entries r))"

lemma empty_record_inv: "lc_record_inv rt cfg empty_record"
  by (simp add: lc_record_inv_def lc_tidy_def lc_log_def empty_record_def)

lemma life_none: "(\<forall>rc \<in> set rcs. rc_generation rc \<noteq> g) \<Longrightarrow> life g rcs = []"
  by (auto simp: life_def filter_empty_conv)

lemma changed_generations:
  assumes "list_all2 (entry_change rt cfg rc) es es'"
  shows "map le_generation es' = map le_generation es"
  using assms by (induction rule: list_all2_induct) (simp_all add: entry_change_same)

lemma lc_move_inv:
  assumes "lc_move rt cfg r rc r'" "lc_record_inv rt cfg r"
  shows "lc_record_inv rt cfg r'"
proof -
  note i = assms(2) [unfolded lc_record_inv_def]
  note p = lc_move_put [OF assms(1)]
  have t: "lc_tidy r" using i by simp
  from assms(1) t have "(\<forall>e \<in> set (lr_entries r'). entry_ok rt cfg (lr_receipts r') e)
     \<and> (\<forall>c \<in> set (lr_receipts r'). rc_generation c \<in> le_generation ` set (lr_entries r'))"
  proof (cases rule: lc_move_entries)
    case (fresh e artifact trust v)
    have "le_generation e \<notin> le_generation ` set (lr_entries r)" using fresh(3) by force
    then have "\<forall>c \<in> set (lr_receipts r). rc_generation c \<noteq> le_generation e" using i by metis
    then have "entry_ok rt cfg (lr_receipts r') e"
      unfolding p(1) by (intro drafted_entry_ok [OF fresh(2,5)] life_none)
    moreover have "entry_ok rt cfg (lr_receipts r') x" if "x \<in> set (lr_entries r)" for x
    proof -
      have "entry_change rt cfg rc x x" using fresh(2,3) that by (intro kept) (auto simp: stamped_def)
      moreover have "entry_ok rt cfg (lr_receipts r) x" using i that by simp
      ultimately show ?thesis unfolding p(1) by (rule entry_change_ok)
    qed
    moreover have "rc_generation rc = le_generation e" by (rule stamped_generation [OF fresh(2)])
    ultimately show ?thesis using i fresh(1) p(1) by auto
  next
    case changed
    have "entry_ok rt cfg (lr_receipts r') y" if "y \<in> set (lr_entries r')" for y
    proof -
      obtain x where x: "x \<in> set (lr_entries r)" "entry_change rt cfg rc x y"
        using list_all2_right [OF changed(1) \<open>y \<in> set (lr_entries r')\<close>] by blast
      with i entry_change_ok [OF x(2)] p(1) show ?thesis by simp
    qed
    moreover have "le_generation ` set (lr_entries r') = le_generation ` set (lr_entries r)"
      using changed_generations [OF changed(1)] by (metis list.set_map)
    moreover have "rc_generation rc \<in> le_generation ` set (lr_entries r)" using changed(2) by force
    ultimately show ?thesis using i p(1) by auto
  qed
  with lc_move_tidy [OF assms(1) t] lc_move_log [OF assms(1)] i show ?thesis
    by (simp add: lc_record_inv_def)
qed

end
