(* ===== verification/LifecycleReach.thy ===== *)
theory LifecycleReach
  imports LifecycleRuns
begin

text \<open>
  The managers that arise from one without files, by any sequence of operations and restarts: manager and
  file agree, the record keeps its invariant, and the fence tells only of entries that were staged.
\<close>

subsection \<open>The steps of a manager\<close>

text \<open>
  Every operation, with any clocks and writes, and a restart from the files. The operations that ask the
  configured \<open>trustStore()\<close> get one of its answers.
\<close>

inductive lc_step :: "lc_runtime \<Rightarrow> lc_config \<Rightarrow> lc_manager \<Rightarrow> lc_manager \<Rightarrow> bool" for rt cfg where
  step_draft: "lc_draft rt cfg env m artifact op = (m', x) \<Longrightarrow> trusted env \<in> trustStores cfg \<Longrightarrow> lc_step rt cfg m m'"
| step_validate: "lc_validate rt cfg env m generation op = (m', x) \<Longrightarrow> trusted env \<in> trustStores cfg \<Longrightarrow> lc_step rt cfg m m'"
| step_simulate: "lc_simulate rt cfg env m generation op = (m', x) \<Longrightarrow> trusted env \<in> trustStores cfg \<Longrightarrow> lc_step rt cfg m m'"
| step_approve: "lc_approve rt cfg env m generation approval op = (m', x) \<Longrightarrow> trusted env \<in> trustStores cfg \<Longrightarrow> lc_step rt cfg m m'"
| step_stage: "lc_stage rt cfg env m generation op = (m', x) \<Longrightarrow> trusted env \<in> trustStores cfg \<Longrightarrow> lc_step rt cfg m m'"
| step_activate: "lc_activate rt cfg env m generation op = (m', y) \<Longrightarrow> trusted env \<in> trustStores cfg \<Longrightarrow> lc_step rt cfg m m'"
| step_retire: "lc_retire rt cfg env m generation op = (m', x) \<Longrightarrow> lc_step rt cfg m m'"
| step_revoke: "lc_revoke rt cfg env m generation op reason = (m', x) \<Longrightarrow> lc_step rt cfg m m'"
| step_rollout: "lc_reportRollout rt cfg env m generation workers op = (m', x) \<Longrightarrow> lc_step rt cfg m m'"
| step_use: "lc_assertUseBinding rt cfg m b = (m', z) \<Longrightarrow> lc_step rt cfg m m'"
| step_restart: "new_fence (base_rt rt) (fenceToken cfg) (fence_file (lm_fence m)) = Inr w \<Longrightarrow>
    new_manager rt cfg (lm_file m) w = Inr m' \<Longrightarrow> lc_step rt cfg m m'"

definition lc_start :: lc_manager where
  "lc_start = \<lparr>lm_file = NoFile, lm_memory = None, lm_fence = empty_fence\<rparr>"

definition lc_reach :: "lc_runtime \<Rightarrow> lc_config \<Rightarrow> lc_manager \<Rightarrow> bool" where
  "lc_reach rt cfg m \<longleftrightarrow> (lc_step rt cfg)\<^sup>*\<^sup>* lc_start m"

definition was_staged :: "lc_entry \<Rightarrow> bool" where
  "was_staged e \<longleftrightarrow> le_state e \<notin> set (APPROVED # before_approval)"

text \<open>The fence of a manager: it ran, and each of its snapshots is of an entry that has been staged.\<close>

definition fence_tells :: "lc_runtime \<Rightarrow> lc_config \<Rightarrow> lc_manager \<Rightarrow> bool" where
  "fence_tells rt cfg m \<longleftrightarrow> (\<exists>ss. fence_run (base_rt rt) (fenceToken cfg) (lm_fence m) ss
     \<and> (\<forall>s \<in> set ss. \<exists>e \<in> set (lr_entries (lc_rec m)). snapshot_of s e \<and> was_staged e))"

definition lc_inv :: "lc_runtime \<Rightarrow> lc_config \<Rightarrow> lc_manager \<Rightarrow> bool" where
  "lc_inv rt cfg m \<longleftrightarrow> lc_sync rt cfg m \<and> lc_record_inv rt cfg (lc_rec m) \<and> fence_tells rt cfg m"

lemma lc_start_inv: "lc_inv rt cfg lc_start"
proof -
  have "fence_tells rt cfg lc_start"
    unfolding fence_tells_def lc_start_def by (intro exI [of _ "[]"]) (simp add: fence_start)
  then show ?thesis
    using empty_record_inv by (simp add: lc_inv_def lc_sync_def lc_rec_def lc_start_def)
qed

subsection \<open>Every step keeps the invariant\<close>

text \<open>Entries stay, with generation and artifact, and what was staged stays so.\<close>

definition entries_stay :: "lc_record \<Rightarrow> lc_record \<Rightarrow> bool" where
  "entries_stay r r' \<longleftrightarrow> (\<forall>e \<in> set (lr_entries r). \<exists>y \<in> set (lr_entries r'). le_generation y = le_generation e
     \<and> le_artifact y = le_artifact e \<and> (was_staged e \<longrightarrow> was_staged y))"

lemma entries_stay_refl [simp]: "entries_stay r r"
  by (auto simp: entries_stay_def)

lemma entry_change_staged: "entry_change rt cfg rc x y \<Longrightarrow> was_staged x \<Longrightarrow> was_staged y"
  by (erule entry_change.cases) (auto simp: was_staged_def before_approval_def)

lemma lc_move_entries_stay:
  assumes "lc_move rt cfg r rc r'" "lc_tidy r"
  shows "entries_stay r r'"
  using assms
proof (cases rule: lc_move_entries)
  case (fresh e artifact trust v)
  then show ?thesis by (auto simp: entries_stay_def)
next
  case changed
  have "\<exists>y \<in> set (lr_entries r'). le_generation y = le_generation e
     \<and> le_artifact y = le_artifact e \<and> (was_staged e \<longrightarrow> was_staged y)" if "e \<in> set (lr_entries r)" for e
  proof -
    obtain y where y: "y \<in> set (lr_entries r')" "entry_change rt cfg rc e y"
      using list_all2_left [OF changed(1) \<open>e \<in> set (lr_entries r)\<close>] by blast
    with entry_change_same [OF y(2)] entry_change_staged [OF y(2)] show ?thesis by blast
  qed
  then show ?thesis by (simp add: entries_stay_def)
qed

lemma snapshot_of_same:
  "snapshot_of s e \<Longrightarrow> le_generation y = le_generation e \<Longrightarrow> le_artifact y = le_artifact e \<Longrightarrow> snapshot_of s y"
  by (simp add: snapshot_of_def)

lemma frozen_run: "fence_run (base_rt rt) (fenceToken cfg) w ss \<Longrightarrow> w' = w \<or> frozen_by rt cfg w w' \<Longrightarrow>
    fence_run (base_rt rt) (fenceToken cfg) w' ss"
  by (auto simp: frozen_by_def intro: fence_frozen)

lemma switched_run: "fence_run (base_rt rt) (fenceToken cfg) w ss \<Longrightarrow> switched_by rt cfg w w' s \<Longrightarrow>
    fence_run (base_rt rt) (fenceToken cfg) w' (ss @ [s])"
  by (auto simp: switched_by_def intro: fence_activated)

lemma tells_stay:
  assumes "\<forall>s \<in> set ss. \<exists>e \<in> set (lr_entries r). snapshot_of s e \<and> was_staged e" "entries_stay r r'"
  shows "\<forall>s \<in> set ss. \<exists>e \<in> set (lr_entries r'). snapshot_of s e \<and> was_staged e"
  using assms snapshot_of_same unfolding entries_stay_def by meson

lemma fence_tells_kept:
  assumes "fence_tells rt cfg m" "entries_stay (lc_rec m) (lc_rec m')"
    and "lm_fence m' = lm_fence m \<or> frozen_by rt cfg (lm_fence m) (lm_fence m')"
  shows "fence_tells rt cfg m'"
  using assms frozen_run [of rt cfg "lm_fence m" _ "lm_fence m'"] tells_stay
  unfolding fence_tells_def by meson

lemma fence_tells_switched:
  assumes "fence_tells rt cfg m" "entries_stay (lc_rec m) (lc_rec m')" "switched_by rt cfg (lm_fence m) w s"
    and "snapshot_of s e" "e \<in> set (lr_entries (lc_rec m))" "le_state e = STAGED"
    and "lm_fence m' = w \<or> frozen_by rt cfg w (lm_fence m')"
  shows "fence_tells rt cfg m'"
proof -
  obtain ss where ss: "fence_run (base_rt rt) (fenceToken cfg) (lm_fence m) ss"
    "\<forall>s \<in> set ss. \<exists>e \<in> set (lr_entries (lc_rec m)). snapshot_of s e \<and> was_staged e"
    using assms(1) unfolding fence_tells_def by blast
  have "was_staged e" using assms(6) by (simp add: was_staged_def before_approval_def)
  with ss(2) assms(4,5) have "\<forall>t \<in> set (ss @ [s]). \<exists>e \<in> set (lr_entries (lc_rec m)). snapshot_of t e \<and> was_staged e"
    by auto
  from tells_stay [OF this assms(2)] frozen_run [OF switched_run [OF ss(1) assms(3)] assms(7)]
  show ?thesis unfolding fence_tells_def by blast
qed

lemma lc_inv_moves:
  assumes "lc_inv rt cfg m" "lc_moves rt cfg m rc m'"
  shows "lc_sync rt cfg m'" "lc_record_inv rt cfg (lc_rec m')" "entries_stay (lc_rec m) (lc_rec m')"
  using assms lc_move_inv lc_move_entries_stay by (auto simp: lc_inv_def lc_moves_def lc_record_inv_def)

lemma lc_inv_stays:
  assumes "lc_inv rt cfg m" "lc_stays m m'"
  shows "lc_sync rt cfg m'" "lc_record_inv rt cfg (lc_rec m')" "entries_stay (lc_rec m) (lc_rec m')"
  using assms lc_stays_sync [OF assms(2)] by (simp_all add: lc_inv_def)

lemma moved_or_frozen_inv:
  assumes "moved_or_frozen rt cfg m m' needed x" "lc_inv rt cfg m"
  shows "lc_inv rt cfg m'"
proof -
  from assms(1) have "lc_stays m m' \<or> (\<exists>rc. lc_moves rt cfg m rc m')"
    and f: "lm_fence m' = lm_fence m \<or> frozen_by rt cfg (lm_fence m) (lm_fence m')"
    by (auto simp: moved_or_frozen_def split: if_splits)
  with lc_inv_stays [OF assms(2)] lc_inv_moves [OF assms(2)]
  have "lc_sync rt cfg m'" "lc_record_inv rt cfg (lc_rec m')" "entries_stay (lc_rec m) (lc_rec m')" by blast+
  with fence_tells_kept [OF _ _ f] assms(2) show ?thesis by (simp add: lc_inv_def)
qed

lemma moved_or_denied_frozen: "moved_or_denied rt cfg m m' x \<Longrightarrow> moved_or_frozen rt cfg m m' False x"
  by (auto simp: moved_or_denied_def moved_or_frozen_def lc_stays_def)

lemma activation_inv:
  assumes "lc_activate rt cfg env m generation op = (m', x)" "lc_inv rt cfg m"
  shows "lc_inv rt cfg m'"
proof -
  have s: "lc_sync rt cfg m" "lc_tidy (lc_rec m)" "fence_tells rt cfg m"
    using assms(2) by (simp_all add: lc_inv_def lc_record_inv_def)
  from assms(1) s(1,2) show ?thesis
  proof (cases rule: lc_activate_cases)
    case (denied er)
    with assms(2) show ?thesis by simp
  next
    case (diverged er e)
    then obtain w t where d: "lc_stays m m'" "e \<in> set (lr_entries (lc_rec m))" "le_state e = STAGED"
      "switched_by rt cfg (lm_fence m) w t" "snapshot_of t e" "lm_fence m' = w \<or> frozen_by rt cfg w (lm_fence m')"
      by (auto simp: activation_diverged_def)
    note i = lc_inv_stays [OF assms(2) d(1)]
    have "fence_tells rt cfg m'" by (rule fence_tells_switched [OF s(3) i(3) d(4,5,2,3,6)])
    with i show ?thesis by (simp add: lc_inv_def)
  next
    case (completed rc p e)
    then have d: "lc_moves rt cfg m rc m'" "e \<in> set (lr_entries (lc_rec m))" "le_state e = STAGED"
      "switched_by rt cfg (lm_fence m) (lm_fence m') (ap_snapshot p)" "snapshot_of (ap_snapshot p) e"
      by (simp_all add: activation_completed_def)
    note i = lc_inv_moves [OF assms(2) d(1)]
    have "fence_tells rt cfg m'" by (rule fence_tells_switched [OF s(3) i(3) d(4,5,2,3)]) simp
    with i show ?thesis by (simp add: lc_inv_def)
  qed
qed

text \<open>A use and a restart change nothing.\<close>

lemma fence_tells_inv: "fence_tells rt cfg m \<Longrightarrow> \<exists>ss. fence_inv (base_rt rt) (fenceToken cfg) (lm_fence m) ss
    \<and> (\<forall>s \<in> set ss. \<exists>e \<in> set (lr_entries (lc_rec m)). snapshot_of s e \<and> was_staged e)"
  unfolding fence_tells_def using fence_run_inv by blast

lemma fence_of_manager:
  assumes "fence_tells rt cfg m"
  obtains (none) "lm_fence m = empty_fence"
  | (some) fr ss where "fence_holds (base_rt rt) (fenceToken cfg) (lm_fence m) fr" "fence_history fr ss"
      "\<forall>s \<in> set ss. \<exists>e \<in> set (lr_entries (lc_rec m)). snapshot_of s e \<and> was_staged e"
  using fence_tells_inv [OF assms] unfolding fence_inv_def by blast

lemma use_keeps:
  assumes "lc_assertUseBinding rt cfg m b = (m', x)" "lc_sync rt cfg m" "fence_tells rt cfg m"
  shows "m' = m"
proof -
  obtain w y where f: "fence_assertUseBinding (base_rt rt) (fenceToken cfg) (lm_fence m) b = (w, y)"
    by (cases "fence_assertUseBinding (base_rt rt) (fenceToken cfg) (lm_fence m) b")
  have "w = lm_fence m"
    using assms(3)
  proof (cases rule: fence_of_manager)
    case none
    then show ?thesis using fence_use_empty(1) f by (simp add: empty_fence_def)
  next
    case (some fr ss)
    show ?thesis by (rule fence_use_cases(1) [OF f some(1)])
  qed
  moreover have "m\<lparr>lm_fence := lm_fence m\<rparr> = m" by simp
  ultimately show ?thesis
    using assms(1) f by (auto simp: lc_assertUseBinding_def lc_load_sync [OF assms(2)] split: option.splits if_splits)
qed

lemma restart_keeps:
  assumes "new_fence (base_rt rt) (fenceToken cfg) (fence_file (lm_fence m)) = Inr w"
    and "new_manager rt cfg (lm_file m) w = Inr m'" "lc_sync rt cfg m" "fence_tells rt cfg m"
  shows "m' = m"
proof -
  have "w = lm_fence m"
    using assms(4)
  proof (cases rule: fence_of_manager)
    case none
    then show ?thesis using assms(1) by (simp add: new_fence_def empty_fence_def split: if_splits)
  next
    case (some fr ss)
    then show ?thesis using assms(1)
      by (cases "lm_fence m") (simp add: new_fence_def fence_holds_def res_simps split: if_splits)
  qed
  with assms(2,3) show ?thesis
    by (cases m) (auto simp: new_manager_def lc_sync_def res_simps split: if_splits option.splits)
qed

lemma lc_step_inv:
  assumes "lc_step rt cfg m m'" "lc_inv rt cfg m"
  shows "lc_inv rt cfg m'"
proof -
  have s: "lc_sync rt cfg m" and t: "fence_tells rt cfg m" using assms(2) by (simp_all add: lc_inv_def)
  note moved = moved_or_frozen_inv [OF moved_or_denied_frozen assms(2)]
  from assms(1) show ?thesis
  proof (cases rule: lc_step.cases)
    case (step_activate env generation op y)
    show ?thesis by (rule activation_inv [OF step_activate(1) assms(2)])
  next
    case (step_revoke env generation op reason x)
    then show ?thesis using lc_revoke_frozen [OF _ s] moved_or_frozen_inv [OF _ assms(2)] by blast
  next
    case (step_rollout env generation workers op x)
    then show ?thesis using lc_reportRollout_frozen [OF _ s] moved_or_frozen_inv [OF _ assms(2)] by blast
  next
    case (step_use b z)
    have "m' = m" by (rule use_keeps [OF step_use s t])
    with assms(2) show ?thesis by simp
  next
    case (step_restart w)
    have "m' = m" by (rule restart_keeps [OF step_restart s t])
    with assms(2) show ?thesis by simp
  qed (rule moved [OF lc_draft_moved [OF _ _ s]] moved [OF lc_validate_moved [OF _ s]]
      moved [OF lc_simulate_moved [OF _ s]] moved [OF lc_approve_moved [OF _ s]]
      moved [OF lc_stage_moved [OF _ _ s]] moved [OF lc_retire_moved [OF _ s]], assumption, assumption?)+
qed

lemma lc_reach_inv: "lc_reach rt cfg m \<Longrightarrow> lc_inv rt cfg m"
  unfolding lc_reach_def by (induction rule: rtranclp_induct) (auto intro: lc_start_inv lc_step_inv)

lemma lc_reach_step: "lc_reach rt cfg m \<Longrightarrow> lc_step rt cfg m m' \<Longrightarrow> lc_reach rt cfg m'"
  unfolding lc_reach_def by (rule rtranclp.rtrancl_into_rtrancl)

text \<open>On reachable managers a step leaves the record alone or moves it.\<close>

lemma moved_or_frozen_record: "moved_or_frozen rt cfg m m' needed x \<Longrightarrow> lc_stays m m' \<or> (\<exists>rc. lc_moves rt cfg m rc m')"
  by (auto simp: moved_or_frozen_def)

lemma lc_step_record:
  assumes "lc_step rt cfg m m'" "lc_inv rt cfg m"
  shows "lc_stays m m' \<or> (\<exists>rc. lc_moves rt cfg m rc m')"
proof -
  have s: "lc_sync rt cfg m" and t: "fence_tells rt cfg m" and d: "lc_tidy (lc_rec m)"
    using assms(2) by (simp_all add: lc_inv_def lc_record_inv_def)
  note moved = moved_or_frozen_record [OF moved_or_denied_frozen]
  from assms(1) show ?thesis
  proof (cases rule: lc_step.cases)
    case (step_activate env generation op y)
    from step_activate(1) s d show ?thesis
      by (cases rule: lc_activate_cases) (auto simp: activation_diverged_def activation_completed_def)
  next
    case (step_revoke env generation op reason x)
    then show ?thesis using lc_revoke_frozen [OF _ s] moved_or_frozen_record by blast
  next
    case (step_rollout env generation workers op x)
    then show ?thesis using lc_reportRollout_frozen [OF _ s] moved_or_frozen_record by blast
  next
    case (step_use b z)
    have "m' = m" by (rule use_keeps [OF step_use s t])
    then show ?thesis by simp
  next
    case (step_restart w)
    have "m' = m" by (rule restart_keeps [OF step_restart s t])
    then show ?thesis by simp
  qed (rule moved [OF lc_draft_moved [OF _ _ s]] moved [OF lc_validate_moved [OF _ s]]
      moved [OF lc_simulate_moved [OF _ s]] moved [OF lc_approve_moved [OF _ s]]
      moved [OF lc_stage_moved [OF _ _ s]] moved [OF lc_retire_moved [OF _ s]], assumption, assumption?)+
qed

text \<open>Entries that are retired or revoked stay as they are.\<close>

definition final_states :: "entry_state list" where
  "final_states = [RETIRED, REVOKED]"

lemma final_kept_move:
  assumes "lc_move rt cfg r rc r'" "lc_tidy r" "e \<in> set (lr_entries r)" "le_state e \<in> set final_states"
  shows "\<exists>y \<in> set (lr_entries r'). le_generation y = le_generation e \<and> le_state y = le_state e"
  using assms(1,2)
proof (cases rule: lc_move_entries)
  case (fresh e artifact trust v)
  with assms(3) show ?thesis by auto
next
  case changed
  obtain y where y: "y \<in> set (lr_entries r')" "entry_change rt cfg rc e y"
    using list_all2_left [OF changed(1) assms(3)] by blast
  from y(2) assms(4) have "le_state y = le_state e" by (cases rule: entry_change.cases) (auto simp: final_states_def)
  with y entry_change_same(1) [OF y(2)] show ?thesis by blast
qed

lemma final_kept:
  assumes "(lc_step rt cfg)\<^sup>*\<^sup>* m m'" "lc_inv rt cfg m" "e \<in> set (lr_entries (lc_rec m))" "le_state e \<in> set final_states"
  shows "lc_inv rt cfg m' \<and> (\<exists>y \<in> set (lr_entries (lc_rec m')). le_generation y = le_generation e \<and> le_state y = le_state e)"
  using assms(1)
proof (induction rule: rtranclp_induct)
  case base
  show ?case using assms(2-4) by blast
next
  case (step m1 m2)
  then obtain y where i: "lc_inv rt cfg m1" and y: "y \<in> set (lr_entries (lc_rec m1))" "le_generation y = le_generation e"
    "le_state y = le_state e" by blast
  have t: "lc_tidy (lc_rec m1)" using i by (simp add: lc_inv_def lc_record_inv_def)
  from lc_step_record [OF step.hyps(2) i]
  have "\<exists>z \<in> set (lr_entries (lc_rec m2)). le_generation z = le_generation y \<and> le_state z = le_state y"
  proof
    assume "lc_stays m1 m2"
    then show ?thesis using y(1) lc_stays_sync(2) by auto
  next
    assume "\<exists>rc. lc_moves rt cfg m1 rc m2"
    then obtain rc where "lc_move rt cfg (lc_rec m1) rc (lc_rec m2)" by (auto simp: lc_moves_def)
    from final_kept_move [OF this t y(1)] y(3) assms(4) show ?thesis by simp
  qed
  with lc_step_inv [OF step.hyps(2) i] y(2,3) show ?case by auto
qed

subsection \<open>What an accepted use rests on\<close>

lemma lc_use_cases:
  assumes "lc_assertUseBinding rt cfg m b = (m', x)" "lc_inv rt cfg m"
  obtains (denied) er where "x = Inl er" "m' = m"
  | (accepted) r fr e where "x = Inr ()" "m' = m" "lm_memory m = Some r" "fence_memory (lm_fence m) = Some fr"
      "e \<in> set (lr_entries r)" "lr_activeGeneration r = Some (le_generation e)" "lr_dispatchActive r"
      "fr_status fr = FENCE_ACTIVE" "ub_policyGeneration b = jint (le_generation e)"
      "snapshot_of (fr_active fr) e" "equalPresented (ub_policySourceDigest b) (fc_sourceDigest (fr_active fr))"
proof (cases x)
  case (Inl er)
  with use_keeps [OF assms(1)] assms(2) denied show thesis by (auto simp: lc_inv_def)
next
  case (Inr u)
  have s: "lc_sync rt cfg m" "fence_tells rt cfg m" "lc_tidy (lc_rec m)"
    using assms(2) by (simp_all add: lc_inv_def lc_record_inv_def)
  have m': "m' = m" by (rule use_keeps [OF assms(1) s(1,2)])
  obtain w y where f: "fence_assertUseBinding (base_rt rt) (fenceToken cfg) (lm_fence m) b = (w, y)"
    by (cases "fence_assertUseBinding (base_rt rt) (fenceToken cfg) (lm_fence m) b")
  from assms(1) Inr f obtain r g where r: "lm_memory m = Some r" "lr_dispatchActive r" "lr_activeGeneration r = Some g"
    "ub_policyGeneration b = jint g" and y: "y = Inr ()"
    by (auto simp: lc_assertUseBinding_def lc_load_sync [OF s(1)] int_or_null_def split: option.splits if_splits)
  have rec: "lc_rec m = r" using r(1) by (simp add: lc_rec_def)
  obtain e where e: "e \<in> set (lr_entries r)" "le_generation e = g"
    using s(3) r(3) rec by (auto simp: lc_tidy_def)
  from s(2) show thesis
  proof (cases rule: fence_of_manager)
    case none
    then show thesis using fence_use_empty(2) [OF f [unfolded none empty_fence_def]] y by simp
  next
    case (some fr ss)
    note u = fence_use_cases(2) [OF f some(1) y]
    have "fr_active fr \<in> set ss" using some(2) by (auto simp: fence_history_def dest: last_in_set)
    then obtain e' where e': "e' \<in> set (lr_entries r)" "snapshot_of (fr_active fr) e'"
      using some(3) rec by auto
    have "le_generation e' = g" using e'(2) u r(4) by (simp add: snapshot_of_def)
    with lc_tidy_same [OF s(3) [unfolded rec] e'(1) e(1)] e(2) have "e' = e" by simp
    moreover have "equalPresented (ub_policySourceDigest b) (fc_sourceDigest (fr_active fr))" "fr_status fr = FENCE_ACTIVE"
      using u by blast+
    ultimately show thesis using e e' r m' Inr fence_holds_memory [OF some(1)] by (intro accepted) simp_all
  qed
qed

end
