(* ===== verification/LifecycleValid.thy ===== *)
theory LifecycleValid
  imports LifecycleReach
begin

text \<open>
  What the manager writes it accepts: the check of a record, read on the records the manager builds, and
  that every move keeps a record acceptable. Hence a move fails to be written only where the write itself
  fails, or the log is longer than an integer of the language can count.
\<close>

subsection \<open>The check of an own record\<close>

definition entry_valid :: "lc_runtime \<Rightarrow> lc_entry \<Rightarrow> bool" where
  "entry_valid rt e \<longleftrightarrow> validateArtifactStructure rt (le_artifact e) \<noteq> None \<and> isGeneration (jint (le_generation e))
     \<and> hex64 (le_artifactDigest e) \<and> getf (fields_of (le_artifact e)) ''generation'' = jint (le_generation e)
     \<and> artifactDigest rt (le_artifact e) = le_artifactDigest e"

lemma lc_entry_js_fields [simp]:
  "is_record (lc_entry_js e)" "getf (fields_of (lc_entry_js e)) ''generation'' = jint (le_generation e)"
  "getf (fields_of (lc_entry_js e)) ''artifact'' = le_artifact e"
  "getf (fields_of (lc_entry_js e)) ''artifactDigest'' = JStr (le_artifactDigest e)"
  "getf (fields_of (lc_entry_js e)) ''state'' = JStr (entry_state_text (le_state e))"
  by (simp_all add: lc_entry_js_def)

lemma validEntries_js:
  "validEntries rt (map lc_entry_js es) gs \<longleftrightarrow> (\<forall>e \<in> set es. entry_valid rt e \<and> jint (le_generation e) \<notin> set gs)
     \<and> distinct (map le_generation es)"
proof (induction es arbitrary: gs)
  case (Cons e es)
  have "(\<forall>x \<in> set es. entry_valid rt x \<and> jint (le_generation x) \<notin> set (gs @ [jint (le_generation e)])) \<longleftrightarrow>
    (\<forall>x \<in> set es. entry_valid rt x \<and> jint (le_generation x) \<notin> set gs) \<and> (\<forall>x \<in> set es. le_generation x \<noteq> le_generation e)"
    by auto
  moreover have "(\<forall>x \<in> set es. le_generation x \<noteq> le_generation e) \<longleftrightarrow> le_generation e \<notin> le_generation ` set es"
    unfolding image_iff by metis
  ultimately show ?case using Cons by (auto simp: entry_valid_def Let_def)
qed simp

definition receipt_valid :: "lc_runtime \<Rightarrow> lc_receipt \<Rightarrow> bool" where
  "receipt_valid rt rc \<longleftrightarrow> rx_test OPERATION_ID_PATTERN (rc_operationId rc) \<and> isGeneration (jint (rc_generation rc))
     \<and> isTime (jint (rc_occurredAtMs rc)) \<and> hex64 (rc_artifactDigest rc) \<and> hex64 (rc_detailsDigest rc)
     \<and> hex64 (rc_receiptDigest rc) \<and> json_digest rt (lc_receipt_unsigned rc) = rc_receiptDigest rc"

lemma lc_receipt_keys: "gateKeys (lc_receipt_js rc) RECEIPT_KEYS_LC"
  unfolding gateKeys_exact lc_receipt_js_def lc_receipt_fields_def RECEIPT_KEYS_LC_def
  by (rule exactKeys_mset) simp

lemma lc_receipt_js_fields [simp]:
  "getf (fields_of (lc_receipt_js rc)) ''schemaVersion'' = JStr POLICY_LIFECYCLE_RECEIPT_SCHEMA"
  "getf (fields_of (lc_receipt_js rc)) ''sequence'' = jint (rc_sequence rc)"
  "getf (fields_of (lc_receipt_js rc)) ''operationId'' = JStr (rc_operationId rc)"
  "getf (fields_of (lc_receipt_js rc)) ''transition'' = JStr (transition_text (rc_transition rc))"
  "getf (fields_of (lc_receipt_js rc)) ''generation'' = jint (rc_generation rc)"
  "getf (fields_of (lc_receipt_js rc)) ''artifactDigest'' = JStr (rc_artifactDigest rc)"
  "getf (fields_of (lc_receipt_js rc)) ''occurredAtMs'' = jint (rc_occurredAtMs rc)"
  "getf (fields_of (lc_receipt_js rc)) ''detailsDigest'' = JStr (rc_detailsDigest rc)"
  "getf (fields_of (lc_receipt_js rc)) ''previousReceiptDigest'' = str_or_null (rc_previousReceiptDigest rc)"
  "getf (fields_of (lc_receipt_js rc)) ''receiptDigest'' = JStr (rc_receiptDigest rc)"
  by (simp_all add: lc_receipt_js_def lc_receipt_fields_def)

lemma lc_receipt_without: "obj (without ''receiptDigest'' (fields_of (lc_receipt_js rc))) = lc_receipt_unsigned rc"
  by (simp add: lc_receipt_js_def lc_receipt_fields_def without_def)

lemma validReceipts_one:
  "validReceipts rt (lc_receipt_js rc # vs) k p ops \<longleftrightarrow> receipt_valid rt rc \<and> rc_sequence rc = k + 1
     \<and> str_or_null (rc_previousReceiptDigest rc) = p \<and> JStr (rc_operationId rc) \<notin> set ops
     \<and> validReceipts rt vs (k + 1) (JStr (rc_receiptDigest rc)) (ops @ [JStr (rc_operationId rc)])"
  by (auto simp: receipt_valid_def lc_receipt_keys lc_receipt_without Let_def simp del: rx_test.simps)

text \<open>The digest before the next receipt, and the operations so far, of a log read from \<open>p\<close> and \<open>ops\<close>.\<close>

lemma validReceipts_snoc:
  "validReceipts rt (map lc_receipt_js (rcs @ [rc])) k p ops \<longleftrightarrow> validReceipts rt (map lc_receipt_js rcs) k p ops
     \<and> receipt_valid rt rc \<and> rc_sequence rc = k + int (length rcs) + 1
     \<and> str_or_null (rc_previousReceiptDigest rc) = (case at_last rcs of None \<Rightarrow> p | Some c \<Rightarrow> JStr (rc_receiptDigest c))
     \<and> JStr (rc_operationId rc) \<notin> set (ops @ map (\<lambda>c. JStr (rc_operationId c)) rcs)"
proof (induction rcs arbitrary: k p ops)
  case Nil
  then show ?case by (simp add: validReceipts_one del: validReceipts.simps(2))
next
  case (Cons c rcs)
  have "(case at_last (c # rcs) of None \<Rightarrow> q | Some d \<Rightarrow> JStr (rc_receiptDigest d))
    = (case at_last rcs of None \<Rightarrow> JStr (rc_receiptDigest c) | Some d \<Rightarrow> JStr (rc_receiptDigest d))" for q
    by (simp add: at_last_def)
  with Cons show ?case
    by (auto simp: validReceipts_one simp del: validReceipts.simps(2))
qed

lemma log_readable:
  assumes "lc_receipt_chain.chained (sha rt) rcs" "distinct (map rc_operationId rcs)"
    and "map rc_sequence rcs = map (\<lambda>i. int i + 1) [0..<length rcs]" "\<forall>rc \<in> set rcs. receipt_valid rt rc"
  shows "validReceipts rt (map lc_receipt_js rcs) 0 JNull []"
  using assms
proof (induction rcs rule: rev_induct)
  case (snoc rc rcs)
  have "str_or_null (rc_previousReceiptDigest rc) = (case at_last rcs of None \<Rightarrow> JNull | Some c \<Rightarrow> JStr (rc_receiptDigest c))"
    using snoc.prems(1) by (cases "at_last rcs") (simp_all add: str_or_null_def)
  moreover have "JStr (rc_operationId rc) \<notin> set ([] @ map (\<lambda>c. JStr (rc_operationId c)) rcs)"
    using snoc.prems(2) by auto
  moreover have "validReceipts rt (map lc_receipt_js rcs) 0 JNull []"
    using snoc.prems by (intro snoc.IH) simp_all
  ultimately show ?case unfolding validReceipts_snoc using snoc.prems by simp
qed simp

definition lc_valid :: "lc_runtime \<Rightarrow> lc_record \<Rightarrow> bool" where
  "lc_valid rt r \<longleftrightarrow> (\<forall>e \<in> set (lr_entries r). entry_valid rt e) \<and> (\<forall>rc \<in> set (lr_receipts r). receipt_valid rt rc)
     \<and> (\<forall>g. lr_lastSafeGeneration r = Some g \<longrightarrow> g \<in> le_generation ` set (lr_entries r))"

lemma lc_record_js_fields [simp]:
  "getf (fields_of (lc_record_js rt token r)) ''schemaVersion'' = JStr POLICY_LIFECYCLE_RECORD_SCHEMA"
  "getf (fields_of (lc_record_js rt token r)) ''tenant'' = JStr POC_TENANT"
  "getf (fields_of (lc_record_js rt token r)) ''policyId'' = JStr POC_POLICY_ID"
  "getf (fields_of (lc_record_js rt token r)) ''revision'' = jint (lr_revision r)"
  "getf (fields_of (lc_record_js rt token r)) ''activeGeneration'' = int_or_null (lr_activeGeneration r)"
  "getf (fields_of (lc_record_js rt token r)) ''lastSafeGeneration'' = int_or_null (lr_lastSafeGeneration r)"
  "getf (fields_of (lc_record_js rt token r)) ''dispatch'' = JStr (if lr_dispatchActive r then ''ACTIVE'' else ''FROZEN'')"
  "getf (fields_of (lc_record_js rt token r)) ''entries'' = arr (map lc_entry_js (lr_entries r))"
  "getf (fields_of (lc_record_js rt token r)) ''receipts'' = arr (map lc_receipt_js (lr_receipts r))"
  "getf (fields_of (lc_record_js rt token r)) ''recordBinding'' = JStr (lc_signRecord rt token (lc_record_fields r))"
  by (simp_all add: lc_record_js_def lc_record_fields_def)

lemma lc_record_keys: "gateKeys (lc_record_js rt token r) RECORD_KEYS_LC"
  unfolding gateKeys_exact lc_record_js_def lc_record_fields_def RECORD_KEYS_LC_def
  by (rule exactKeys_mset) simp

lemma lc_record_without: "without ''recordBinding'' (fields_of (lc_record_js rt token r)) = lc_record_fields r"
  by (simp add: lc_record_js_def lc_record_fields_def without_def)

lemma int_or_null_member: "int_or_null x \<in> jint ` S \<longleftrightarrow> (\<exists>g. x = Some g \<and> g \<in> S)"
  by (cases x) (auto simp: int_or_null_def)

lemma active_entry_state:
  assumes "lc_tidy r" "lr_activeGeneration r = Some g"
  shows "map_option (\<lambda>e. getf (fields_of e) ''state'')
      (List.find (\<lambda>e. getf (fields_of e) ''generation'' = jint g) (map lc_entry_js (lr_entries r))) = Some (JStr ''ACTIVE'')"
proof -
  obtain e where e: "e \<in> set (lr_entries r)" "le_generation e = g"
    using assms by (auto simp: lc_tidy_def)
  obtain v where v: "List.find (\<lambda>e. getf (fields_of e) ''generation'' = jint g) (map lc_entry_js (lr_entries r)) = Some v"
    using e by (cases "List.find (\<lambda>e. getf (fields_of e) ''generation'' = jint g) (map lc_entry_js (lr_entries r))")
      (auto simp: find_None_all)
  then obtain x where x: "x \<in> set (lr_entries r)" "v = lc_entry_js x" "le_generation x = g"
    using find_Some_in [OF v] by auto
  then have "le_state x = ENTRY_ACTIVE" using lc_tidy_active [OF assms(1) x(1)] assms(2) by simp
  with v x show ?thesis by simp
qed

lemma own_record_valid:
  assumes "lc_tidy r" "lc_log rt r" "lc_valid rt r" "lr_receipts r \<noteq> []"
    and "is_safe_integer (jint (lr_revision r))" "\<And>k t. hex64 (hmac rt k t)"
  shows "lc_validateRecord rt token (lc_record_js rt token r) = Inr r"
proof -
  have b: "hex64 (lc_signRecord rt token fs)" for fs by (simp add: lc_signRecord_def assms(6))
  have d: "distinct (map le_generation (lr_entries r))" using assms(1) by (simp add: lc_tidy_def strict_sorted_iff)
  have es: "validEntries rt (map lc_entry_js (lr_entries r)) []"
    using assms(3) d by (simp add: validEntries_js lc_valid_def)
  have rs: "validReceipts rt (map lc_receipt_js (lr_receipts r)) 0 JNull []"
    using assms(2,3) by (intro log_readable) (simp_all add: lc_log_def lc_valid_def)
  have gs: "set (map (\<lambda>e. getf (fields_of e) ''generation'') (map lc_entry_js (lr_entries r)))
      = jint ` (le_generation ` set (lr_entries r))" by (simp add: image_image)
  have rev: "lr_revision r = int (length (lr_receipts r))" "\<not> lr_revision r < 1"
    using assms(2,4) by (cases "lr_receipts r"; simp add: lc_log_def)+
  have act: "\<not> (int_or_null (lr_activeGeneration r) \<noteq> JNull
        \<and> (int_or_null (lr_activeGeneration r) \<notin> jint ` (le_generation ` set (lr_entries r))
           \<or> map_option (\<lambda>e. getf (fields_of e) ''state'')
               (List.find (\<lambda>e. getf (fields_of e) ''generation'' = int_or_null (lr_activeGeneration r))
                 (map lc_entry_js (lr_entries r))) \<noteq> Some (JStr ''ACTIVE'')))"
  proof (cases "lr_activeGeneration r")
    case (Some g)
    then have "g \<in> le_generation ` set (lr_entries r)" using assms(1) by (simp add: lc_tidy_def)
    then show ?thesis using active_entry_state [OF assms(1) Some] Some by (auto simp: int_or_null_def)
  qed (simp add: int_or_null_def)
  have safe: "\<not> (int_or_null (lr_lastSafeGeneration r) \<noteq> JNull
      \<and> int_or_null (lr_lastSafeGeneration r) \<notin> jint ` (le_generation ` set (lr_entries r)))"
    using assms(3) by (cases "lr_lastSafeGeneration r") (auto simp: int_or_null_def lc_valid_def)
  show ?thesis
    unfolding lc_validateRecord_def Let_def lc_record_js_fields elems_of.simps lc_record_without gs
      if_not_P [OF act] if_not_P [OF safe]
    using es rs b rev assms(5) by (simp add: lc_record_keys readRecord_js del: is_safe_integer.simps)
qed

subsection \<open>Moves keep a record acceptable\<close>

lemma readable_log_valid:
  "validReceipts rt (map lc_receipt_js rcs) k p ops \<Longrightarrow> \<forall>rc \<in> set rcs. receipt_valid rt rc"
  by (induction rcs arbitrary: k p ops) (auto simp: validReceipts_one simp del: validReceipts.simps(2))

lemma accepted_record_valid:
  assumes "lc_validateRecord rt token (lc_record_js rt token r) = Inr r'"
  shows "lc_valid rt r"
proof -
  note a = assms [unfolded lc_validateRecord_def Let_def lc_record_js_fields elems_of.simps]
  from a have es: "validEntries rt (map lc_entry_js (lr_entries r)) []"
    and rs: "validReceipts rt (map lc_receipt_js (lr_receipts r)) 0 JNull []"
    and ls: "int_or_null (lr_lastSafeGeneration r) = JNull \<or> int_or_null (lr_lastSafeGeneration r)
      \<in> set (map (\<lambda>e. getf (fields_of e) ''generation'') (map lc_entry_js (lr_entries r)))"
    by (auto split: if_splits)
  from ls have "g \<in> le_generation ` set (lr_entries r)" if "lr_lastSafeGeneration r = Some g" for g
    using that by (auto simp: int_or_null_def)
  with es readable_log_valid [OF rs] show ?thesis by (simp add: lc_valid_def validEntries_js)
qed

lemma lc_sync_valid: "lc_sync rt cfg m \<Longrightarrow> lc_valid rt (lc_rec m)"
  by (auto simp: lc_sync_def lc_rec_def lc_valid_def empty_record_def dest: accepted_record_valid split: option.splits)

definition good_digests :: "lc_runtime \<Rightarrow> bool" where
  "good_digests rt \<longleftrightarrow> (\<forall>t. hex64 (sha rt t)) \<and> (\<forall>k t. hex64 (hmac rt k t))"

lemma drafted_entry_valid:
  assumes "verifyArtifact rt artifact trust = Inr v" "good_digests rt"
  shows "entry_valid rt (drafted_entry rt artifact d)"
proof -
  obtain b where s: "validateArtifactStructure rt artifact = Some b"
    using assms(1) by (cases "validateArtifactStructure rt artifact") (auto simp: verifyArtifact_def)
  then have "isGeneration (getf (fields_of artifact) ''generation'')"
    by (auto simp: validateArtifactStructure_def Let_def split: if_splits)
  moreover from this have "jint (int_of_js (getf (fields_of artifact) ''generation'')) = getf (fields_of artifact) ''generation''"
    by (auto simp: isGeneration_def dest: safe_integer_jint)
  ultimately show ?thesis
    using s assms(2) by (simp add: entry_valid_def drafted_entry_def artifactDigest_def json_digest_def good_digests_def)
qed

lemma entry_change_valid: "entry_change rt cfg rc x y \<Longrightarrow> entry_valid rt y = entry_valid rt x"
  by (simp add: entry_valid_def entry_change_same)

lemma stamped_receipt_valid:
  assumes "next_receipt rt r rc" "entry_valid rt e" "rc_generation rc = le_generation e"
    "rc_artifactDigest rc = le_artifactDigest e" "good_digests rt"
  shows "receipt_valid rt rc"
  using assms by (auto simp: next_receipt_def receipt_valid_def entry_valid_def good_digests_def json_digest_def)

lemma last_safe_move:
  assumes "lc_move rt cfg r rc r'" "lr_lastSafeGeneration r' = Some g"
  shows "lr_lastSafeGeneration r = Some g \<or> lr_activeGeneration r = Some g \<or> g \<in> le_generation ` set (lr_entries r)"
  using assms by (cases rule: lc_move.cases)
    (auto simp: activated_record_def revoked_record_def split: option.splits if_splits)

lemma lc_move_valid:
  assumes "lc_move rt cfg r rc r'" "lc_tidy r" "lc_valid rt r" "good_digests rt"
  shows "lc_valid rt r'"
proof -
  note v = assms(3) [unfolded lc_valid_def]
  note p = lc_move_put [OF assms(1)]
  have es: "(\<forall>e \<in> set (lr_entries r'). entry_valid rt e) \<and> receipt_valid rt rc"
    using assms(1,2)
  proof (cases rule: lc_move_entries)
    case (fresh e artifact trust w)
    have "entry_valid rt e" unfolding fresh(5) by (rule drafted_entry_valid [OF fresh(4) assms(4)])
    with stamped_receipt_valid [OF p(3) this _ _ assms(4)] fresh(1,2) v show ?thesis by (auto simp: stamped_def)
  next
    case changed
    have "entry_valid rt y" if y: "y \<in> set (lr_entries r')" for y
      using list_all2_right [OF changed(1) y] v entry_change_valid by blast
    moreover obtain x where "x \<in> set (lr_entries r)" "le_generation x = rc_generation rc"
      "le_artifactDigest x = rc_artifactDigest rc" using changed(2) by blast
    ultimately show ?thesis using stamped_receipt_valid [OF p(3) _ _ _ assms(4), of x] v by simp
  qed
  have gens: "le_generation ` set (lr_entries r) \<subseteq> le_generation ` set (lr_entries r')"
    using lc_move_entries_stay [OF assms(1,2)] unfolding entries_stay_def image_subset_iff by (metis imageI)
  have "g \<in> le_generation ` set (lr_entries r')" if "lr_lastSafeGeneration r' = Some g" for g
    using last_safe_move [OF assms(1) that] v assms(2) gens by (auto simp: lc_tidy_def)
  with es v p(1) show ?thesis by (simp add: lc_valid_def)
qed

text \<open>A move is written unless the write fails.\<close>

lemma move_persists:
  assumes "lc_inv rt cfg m" "lc_move rt cfg (lc_rec m) rc r" "good_digests rt"
    and "is_safe_integer (jint (lr_revision (lc_rec m) + 1))"
  shows "lc_persist rt cfg env m2 r = (if writes env
    then Inr (m2\<lparr>lm_file := Json (lc_record_js rt (ownerApprovalToken cfg) r), lm_memory := Some r\<rparr>) else Inl WRITE_ERROR)"
proof -
  note p = lc_move_put [OF assms(2)]
  have i: "lc_record_inv rt cfg (lc_rec m)" "lc_sync rt cfg m" using assms(1) by (simp_all add: lc_inv_def)
  have t: "lc_tidy (lc_rec m)" using i(1) by (simp add: lc_record_inv_def)
  have v: "lc_valid rt r" by (rule lc_move_valid [OF assms(2) t lc_sync_valid [OF i(2)] assms(3)])
  have "lc_tidy r" "lc_log rt r" using lc_move_inv [OF assms(2) i(1)] by (simp_all add: lc_record_inv_def)
  then have "lc_validateRecord rt (ownerApprovalToken cfg) (lc_record_js rt (ownerApprovalToken cfg) r) = Inr r"
    by (rule own_record_valid) (use v p(1,2) assms(3,4) in \<open>simp_all add: good_digests_def del: is_safe_integer.simps\<close>)
  then show ?thesis by (simp add: lc_persist_def res_simps Let_def)
qed

end
