(* ===== verification/FenceValid.thy ===== *)
theory FenceValid
  imports FenceLaws
begin

text \<open>
  The records the fence builds are records it accepts: what an activation or a freeze wants to write fails only
  where the write itself fails.
\<close>

subsection \<open>Snapshots and records of the fence\<close>

lemma fence_candidate_js_truncate [simp]: "fence_candidate_js (fence_candidate.truncate c) = fence_candidate_js c"
  by (simp add: fence_candidate_js_def fence_candidate.defs)

definition fence_candidate_ok :: "runtime \<Rightarrow> 'a fence_candidate_scheme \<Rightarrow> bool" where
  "fence_candidate_ok rt c \<longleftrightarrow> (\<exists>b. validatePolicyActivationCandidate rt (fence_candidate_js c) = Inr b)"

lemma fence_snapshot_fields [simp]:
  "getf (fields_of (fence_snapshot_js s)) ''tenant'' = JStr POC_TENANT"
  "getf (fields_of (fence_snapshot_js s)) ''policyId'' = JStr POC_POLICY_ID"
  "getf (fields_of (fence_snapshot_js s)) ''generation'' = jint (fc_generation s)"
  "getf (fields_of (fence_snapshot_js s)) ''policySourceBase64'' = JStr (fc_source64 s)"
  "getf (fields_of (fence_snapshot_js s)) ''policySourceDigest'' = JStr (fc_sourceDigest s)"
  "getf (fields_of (fence_snapshot_js s)) ''policySemanticDigest'' = JStr (fc_semanticDigest s)"
  "getf (fields_of (fence_snapshot_js s)) ''candidateDigest'' = JStr (fs_candidateDigest s)"
  "getf (fields_of (fence_snapshot_js s)) ''authorizationDigest'' = JStr (fs_authorizationDigest s)"
  "getf (fields_of (fence_snapshot_js s)) ''activatedAtMs'' = jint (fs_activatedAtMs s)"
  by (simp_all add: fence_snapshot_js_def)

lemma fence_snapshot_keys: "gateKeys (fence_snapshot_js s) SNAPSHOT_KEYS_FENCE"
  unfolding gateKeys_exact fence_snapshot_js_def SNAPSHOT_KEYS_FENCE_def by (rule exactKeys_mset) simp

lemma candidate_fields:
  assumes "fence_candidate_ok rt c"
  shows "isGeneration (jint (fc_generation c))" "hex64 (fc_sourceDigest c)" "hex64 (fc_semanticDigest c)"
  using assms
  by (auto simp: fence_candidate_ok_def validatePolicyActivationCandidate_def Let_def fence_candidate_js_def split: if_splits)

text \<open>The snapshot check restated.\<close>

definition snapshot_ok :: "runtime \<Rightarrow> fence_snapshot \<Rightarrow> bool" where
  "snapshot_ok rt s \<longleftrightarrow> fence_candidate_ok rt s \<and> fs_candidateDigest s = json_digest rt (fence_candidate_js s)
     \<and> hex64 (fs_candidateDigest s) \<and> hex64 (fs_authorizationDigest s) \<and> isTime (jint (fs_activatedAtMs s))"

lemma validateSnapshot_js:
  "snapshot_ok rt s \<longleftrightarrow> (\<exists>p. validateSnapshot rt (fence_snapshot_js s) = Inr (s, p))"
proof -
  have c: "obj [(''schemaVersion'', JStr POLICY_ACTIVATION_CANDIDATE_SCHEMA), (''tenant'', JStr POC_TENANT),
      (''policyId'', JStr POC_POLICY_ID), (''generation'', jint (fc_generation s)),
      (''policySourceBase64'', JStr (fc_source64 s)), (''policySourceDigest'', JStr (fc_sourceDigest s)),
      (''policySemanticDigest'', JStr (fc_semanticDigest s))] = fence_candidate_js s"
    by (simp add: fence_candidate_js_def)
  show ?thesis
  proof
    assume ok: "snapshot_ok rt s"
    then obtain b where b: "validatePolicyActivationCandidate rt (fence_candidate_js s) = Inr b"
      by (auto simp: snapshot_ok_def fence_candidate_ok_def)
    have "fence_candidate_ok rt s" using ok by (simp add: snapshot_ok_def)
    note f = candidate_fields [OF this]
    have d: "fs_candidateDigest s = json_digest rt (fence_candidate_js s)" "hex64 (json_digest rt (fence_candidate_js s))"
      using ok by (metis snapshot_ok_def)+
    from ok f b d(2) show "\<exists>p. validateSnapshot rt (fence_snapshot_js s) = Inr (s, p)"
      unfolding validateSnapshot_def Let_def fence_snapshot_fields c
      by (cases b) (simp add: fence_snapshot_keys snapshot_ok_def isTime_def res_simps readSnapshot_js d(1))
  next
    assume "\<exists>p. validateSnapshot rt (fence_snapshot_js s) = Inr (s, p)"
    then show "snapshot_ok rt s"
      unfolding validateSnapshot_def Let_def fence_snapshot_fields c
      by (auto simp: snapshot_ok_def fence_candidate_ok_def isTime_def res_bind_Inr_iff split: if_splits)
  qed
qed

lemma fence_record_keys: "gateKeys (fence_record_js r) FENCE_RECORD_KEYS"
  unfolding gateKeys_exact fence_record_js_def fence_record_fields_def FENCE_RECORD_KEYS_def
  by (rule exactKeys_mset) simp

lemma dispatch_keys: "gateKeys (getf (fields_of (fence_record_js r)) ''dispatch'') DISPATCH_KEYS"
  unfolding gateKeys_exact getf_fence_record DISPATCH_KEYS_def by (rule exactKeys_mset) simp

definition dispatch_ok :: "'a fence_record_core_scheme \<Rightarrow> bool" where
  "dispatch_ok r \<longleftrightarrow> fr_fallbackGeneration r = fc_generation (fr_lastKnownSafe r)
     \<and> (case fr_status r of FENCE_ACTIVE \<Rightarrow> fr_frozenAtMs r = None \<and> fr_reasonCode r = None
        | FENCE_FROZEN \<Rightarrow> (\<exists>t c. fr_frozenAtMs r = Some t \<and> isTime (jint t) \<and> fr_reasonCode r = Some c
            \<and> c \<in> set FREEZE_REASONS))"

definition fence_ok :: "runtime \<Rightarrow> 'a fence_record_core_scheme \<Rightarrow> bool" where
  "fence_ok rt r \<longleftrightarrow> snapshot_ok rt (fr_active r) \<and> snapshot_ok rt (fr_lastKnownSafe r) \<and> dispatch_ok r
     \<and> distinct (fr_retired r) \<and> (\<forall>d \<in> set (fr_retired r). hex64 d)
     \<and> fc_generation (fr_lastKnownSafe r) \<le> fc_generation (fr_active r)
     \<and> fc_sourceDigest (fr_active r) \<notin> set (fr_retired r)
     \<and> (fc_sourceDigest (fr_lastKnownSafe r) \<in> set (fr_retired r)
        \<longleftrightarrow> fc_generation (fr_lastKnownSafe r) < fc_generation (fr_active r))"

lemma dispatch_own:
  assumes "dispatch_ok r"
  shows "\<not> dispatchInvalid (getf (fields_of (fence_record_js r)) ''dispatch'') (fr_lastKnownSafe r)"
  using assms
  by (cases "fr_status r")
    (auto simp: dispatch_ok_def dispatchInvalid_def getf_fence_record Let_def fence_status_text_def isTime_def
      str_or_null_def int_or_null_def)

lemma fence_validate_iff:
  assumes "\<And>k t. hex64 (hmac rt k t)" "fr_recordBinding r = fence_signRecord rt token (fence_record_fields r)"
    and "fence_ok rt r"
  shows "fence_validateRecord rt token (fence_record_js r) = Inr r"
proof -
  note ok = assms(3) [unfolded fence_ok_def]
  from ok obtain p q where s: "validateSnapshot rt (fence_snapshot_js (fr_active r)) = Inr (fr_active r, p)"
      "validateSnapshot rt (fence_snapshot_js (fr_lastKnownSafe r)) = Inr (fr_lastKnownSafe r, q)"
    by (auto simp: validateSnapshot_js)
  have w: "without ''recordBinding'' (fields_of (fence_record_js r)) = fence_record_fields r"
    by (simp add: fence_record_js_def fence_record_fields_def without_def)
  have b: "hex64 (fr_recordBinding r)" by (simp add: assms(1,2) fence_signRecord_def)
  have g: "getf (fields_of (fence_record_js r)) ''schemaVersion'' = JStr POLICY_ACTIVATION_RECORD_SCHEMA"
    "getf (fields_of (fence_record_js r)) ''tenant'' = JStr POC_TENANT"
    "getf (fields_of (fence_record_js r)) ''policyId'' = JStr POC_POLICY_ID"
    by (simp_all add: fence_record_js_def fence_record_fields_def)
  have m: "JStr d \<in> JStr ` S \<longleftrightarrow> d \<in> S" for d and S :: "string set" by auto
  have h: "list_all (str_test hex64) (map JStr (fr_retired r))" using ok by (simp add: list_all_iff)
  have u: "length (uniq (map JStr (fr_retired r))) = length (fr_retired r)" using ok by (simp add: uniq_map_JStr)
  show ?thesis
    unfolding fence_validateRecord_def Let_def g getf_fence_record(1-4) w
    using s ok b h u assms(2) dispatch_keys [of r] dispatch_own [of r]
    by (simp add: fence_record_keys res_simps m not_less readFenceRecord_js) auto
qed

lemma fence_bind_more [simp]:
  "fr_reasonCode (fence_bind rt token c) = fr_reasonCode c" "fr_frozenAtMs (fence_bind rt token c) = fr_frozenAtMs c"
  "fr_recordBinding (fence_bind rt token c) = fence_signRecord rt token (fence_record_fields c)"
  "fence_record_fields (fence_bind rt token c) = fence_record_fields c"
  by (simp_all add: fence_bind_def fence_record_core.defs fence_record.defs fence_record_fields_def)

lemma fence_ok_bind [simp]: "fence_ok rt' (fence_bind rt token c) = fence_ok rt' c"
  by (simp add: fence_ok_def dispatch_ok_def cong: fence_status.case_cong)

lemma fence_store_own:
  assumes "\<And>k t. hex64 (hmac rt k t)" "fence_ok rt core"
  shows "fence_store rt token writes w core = (if writes
    then Inr \<lparr>fence_file = Json (fence_record_js (fence_bind rt token core)), fence_memory = Some (fence_bind rt token core)\<rparr>
    else Inl WRITE_ERROR)"
proof -
  have "fence_validateRecord rt token (fence_record_js (fence_bind rt token core)) = Inr (fence_bind rt token core)"
    by (rule fence_validate_iff) (use assms in simp_all)
  then show ?thesis by (simp add: fence_store_def Let_def res_simps)
qed

lemma fence_held_ok:
  assumes "fence_holds rt token w r"
  shows "fence_ok rt r"
proof -
  have v: "fence_validateRecord rt token (fence_record_js r) = Inr r" using assms by (simp add: fence_holds_def)
  note a = v [unfolded fence_validateRecord_def Let_def getf_fence_record(1-4)]
  have m: "JStr d \<in> JStr ` S \<longleftrightarrow> d \<in> S" for d and S :: "string set" by auto
  from a obtain s t p q where s: "validateSnapshot rt (fence_snapshot_js (fr_active r)) = Inr (s, p)"
    "validateSnapshot rt (fence_snapshot_js (fr_lastKnownSafe r)) = Inr (t, q)"
    by (auto simp: res_bind_Inr_iff split: if_splits)
  have st: "s = fr_active r" "t = fr_lastKnownSafe r"
    using s by (auto simp: validateSnapshot_def Let_def res_bind_Inr_iff readSnapshot_js split: if_splits)
  note s2 = s [unfolded st]
  have rt: "distinct (fr_retired r)" "\<forall>d \<in> set (fr_retired r). hex64 d"
    using a by (auto simp: uniq_map_JStr list_all_iff split: if_splits)
  have d: "\<not> dispatchInvalid (getf (fields_of (fence_record_js r)) ''dispatch'') (fr_lastKnownSafe r)"
    and o: "fc_generation (fr_lastKnownSafe r) \<le> fc_generation (fr_active r)"
      "fc_sourceDigest (fr_active r) \<notin> set (fr_retired r)"
      "fc_sourceDigest (fr_lastKnownSafe r) \<in> set (fr_retired r)
        \<longleftrightarrow> fc_generation (fr_lastKnownSafe r) < fc_generation (fr_active r)"
    using a s2 by (simp_all add: res_simps m not_less split: if_splits) auto
  have "dispatch_ok r"
    using d by (cases "fr_status r"; cases "fr_frozenAtMs r"; cases "fr_reasonCode r")
      (simp_all add: dispatch_ok_def dispatchInvalid_def getf_fence_record Let_def fence_status_text_def isTime_def
        str_or_null_def int_or_null_def)
  with s2 rt o show ?thesis by (auto simp: fence_ok_def validateSnapshot_js)
qed

subsection \<open>Activation never fails on its own record\<close>

definition switched_core :: "runtime \<Rightarrow> fence_record option \<Rightarrow> fence_candidate \<Rightarrow> js \<Rightarrow> int \<Rightarrow> fence_record_core" where
  "switched_core rt current c authorization now =
     (let snapshot = fence_candidate.extend c
            (fence_snapshot.fields (json_digest rt (fence_candidate_js c)) (json_digest rt authorization) now);
          safe = (case current of None \<Rightarrow> snapshot | Some r \<Rightarrow> fr_active r)
      in \<lparr>fr_active = snapshot, fr_lastKnownSafe = safe,
          fr_retired = (case current of None \<Rightarrow> [] | Some r \<Rightarrow> retire_active r),
          fr_status = FENCE_ACTIVE, fr_reasonCode = None, fr_frozenAtMs = None,
          fr_fallbackGeneration = fc_generation safe\<rparr>)"

text \<open>What an activation asks of the record before it: a higher generation and a fresh policy text.\<close>

definition admits :: "fence_record option \<Rightarrow> fence_candidate \<Rightarrow> bool" where
  "admits current c \<longleftrightarrow> (\<forall>r. current = Some r \<longrightarrow> fc_generation (fr_active r) < fc_generation c
     \<and> fc_sourceDigest c \<noteq> fc_sourceDigest (fr_active r) \<and> fc_sourceDigest c \<notin> set (fr_retired r))"

lemma fence_candidate_js_extend [simp]: "fence_candidate_js (fence_candidate.extend c m) = fence_candidate_js c"
  by (simp add: fence_candidate_js_def fence_candidate.defs)

lemma snapshot_extend [simp]:
  "fc_generation (fence_candidate.extend c m) = fc_generation c"
  "fc_sourceDigest (fence_candidate.extend c m) = fc_sourceDigest c"
  by (simp_all add: fence_candidate.defs)

lemma switched_core_ok:
  assumes "fence_candidate_ok rt c" "\<And>t. hex64 (sha rt t)" "isTime (jint now)" "admits current c"
    and "\<And>r. current = Some r \<Longrightarrow> fence_ok rt r"
  shows "fence_ok rt (switched_core rt current c au now)"
proof -
  have s: "snapshot_ok rt (fence_candidate.extend c
      (fence_snapshot.fields (json_digest rt (fence_candidate_js c)) (json_digest rt au) now))"
    using assms(1-3) by (simp add: snapshot_ok_def fence_candidate_ok_def json_digest_def fence_candidate.defs fence_snapshot.defs
      fence_candidate_js_def)
  show ?thesis
  proof (cases current)
    case None
    with s show ?thesis by (simp add: fence_ok_def switched_core_def Let_def dispatch_ok_def)
  next
    case (Some r)
    have r: "fence_ok rt r" by (rule assms(5) [OF Some])
    have d: "hex64 (fc_sourceDigest (fr_active r))"
      using r by (auto simp: fence_ok_def snapshot_ok_def dest: candidate_fields)
    show ?thesis using s r d assms(4) Some
      by (simp add: fence_ok_def switched_core_def Let_def dispatch_ok_def admits_def retire_active_def del: uniq.simps)
  qed
qed

lemma candidate_read:
  assumes "validatePolicyActivationCandidate rt (fence_candidate_js c) = Inr (c', bytes, policy)"
  shows "c' = fence_candidate.truncate c"
  using assms by (auto simp: validatePolicyActivationCandidate_def Let_def readCandidate_def fence_candidate_js_def
      fence_candidate.defs split: if_splits option.splits)

lemma truncate_id [simp]: "fence_candidate.truncate c = c" for c :: fence_candidate
  by (simp add: fence_candidate.defs)

lemma fence_activate_outcome:
  assumes "\<And>t. hex64 (sha rt t)" "\<And>k t. hex64 (hmac rt k t)"
    and "\<And>r. fence_memory w = Some r \<Longrightarrow> fence_ok rt r"
  shows "(\<exists>w' p. fence_activate rt token writes now w (fence_candidate_js c) au = (w', Inr p)) \<longleftrightarrow>
    fence_candidate_ok rt c \<and> validateAuthorization rt au (fence_candidate_js c) token \<and> admits (fence_memory w) c
    \<and> isTime (jint now) \<and> writes"
proof
  assume "\<exists>w' p. fence_activate rt token writes now w (fence_candidate_js c) au = (w', Inr p)"
  then obtain w' p where a: "fence_activate rt token writes now w (fence_candidate_js c) au = (w', Inr p)" by blast
  then obtain b where "validatePolicyActivationCandidate rt (fence_candidate_js c) = Inr b"
    by (cases "validatePolicyActivationCandidate rt (fence_candidate_js c)") (auto simp: fence_activate_def)
  then have "fence_candidate_ok rt c" unfolding fence_candidate_ok_def by (rule exI)
  moreover have "isTime (jint now) \<and> writes"
    using a by (auto simp: fence_activate_def fence_store_def Let_def res_bind_Inr_iff split: if_splits sum.splits prod.splits)
  moreover have "validateAuthorization rt au (fence_candidate_js c) token" "admits (fence_memory w) c"
    using a
  proof (atomize (full), cases rule: fence_activate_cases)
    case (switched p' c' bytes policy core)
    have "c' = c" using candidate_read [OF switched(2)] by simp
    with switched(3,4) show "validateAuthorization rt au (fence_candidate_js c) token \<and> admits (fence_memory w) c"
      by (simp add: admits_def)
  qed simp
  ultimately show "fence_candidate_ok rt c \<and> validateAuthorization rt au (fence_candidate_js c) token \<and> admits (fence_memory w) c
    \<and> isTime (jint now) \<and> writes" by blast
next
  assume g: "fence_candidate_ok rt c \<and> validateAuthorization rt au (fence_candidate_js c) token \<and> admits (fence_memory w) c
    \<and> isTime (jint now) \<and> writes"
  then obtain b where b: "validatePolicyActivationCandidate rt (fence_candidate_js c) = Inr b"
    by (auto simp: fence_candidate_ok_def)
  obtain c' bytes policy where "b = (c', bytes, policy)" by (cases b)
  with b candidate_read [of rt c] have v: "validatePolicyActivationCandidate rt (fence_candidate_js c) = Inr (c, bytes, policy)"
    by simp
  define core where "core = switched_core rt (fence_memory w) c au now"
  have "fence_ok rt core" unfolding core_def using g assms by (intro switched_core_ok) simp_all
  from fence_store_own [OF assms(2) this, of token True w] obtain w' where
    st: "fence_store rt token True w core = Inr w'" by simp
  obtain p where "activePolicy rt w' = Inr p" using activePolicy_total [OF fence_store_Inr [OF st]] by blast
  with g v st have "fence_activate rt token writes now w (fence_candidate_js c) au = (w', Inr p)"
    unfolding fence_activate_def core_def switched_core_def Let_def
    by (auto simp: admits_def split: option.splits)
  then show "\<exists>w' p. fence_activate rt token writes now w (fence_candidate_js c) au = (w', Inr p)" by blast
qed

end
