(* ===== verification/LifecycleSamples.thy ===== *)
theory LifecycleSamples
  imports LifecycleValid FenceValid
begin

text \<open>
  One policy generation from its draft to its activation, under a runtime whose digests are constant: every
  operation answers with the receipt the model says. The properties of the fence and of the lifecycle
  manager are instantiated here.
\<close>

subsection \<open>A runtime, a policy, an artifact\<close>

definition zeros :: string where
  "zeros = replicate 64 (CHR ''0'')"

definition closed_rule :: "string \<Rightarrow> string \<Rightarrow> string \<Rightarrow> js" where
  "closed_rule kind outcome reason = obj [(''requestKind'', JStr kind), (''outcome'', JStr outcome), (''reasonCode'', JStr reason)]"

definition demo_policy :: js where
  "demo_policy = obj [(''schemaVersion'', JStr POC_POLICY_SCHEMA), (''policyId'', JStr POC_POLICY_ID),
     (''rules'', arr [closed_rule ''SYNTHETIC_ESPOCRM_CONTACT_CREATE'' ''AUTO_GRANT'' ''POLICY_SYNTHETIC_CONTACT_AUTO_GRANTED'',
        closed_rule ''SYNTHETIC_DOLIBARR_ORDER_CREATE'' ''OWNER_ESCALATION'' ''POLICY_ORDER_REQUIRES_OWNER'',
        closed_rule ''*'' ''DENY'' ''POLICY_REQUEST_NOT_ALLOWED''])]"

definition lc_rt :: lc_runtime where
  "lc_rt = \<lparr>sha = (\<lambda>_. zeros), hmac = (\<lambda>_ _. zeros), parse_json = (\<lambda>_. Some demo_policy),
     spki_digest = (\<lambda>_. Some zeros), verify_sig = (\<lambda>_ _ _. True), sign_text = (\<lambda>_ _. ''signature bytes'')\<rparr>"

lemma hex64_zeros [simp]: "hex64 zeros"
  by (simp add: zeros_def hex64_iff list_all_iff in_class_def d0_9_def)

lemma lc_rt_simps [simp]:
  "sha lc_rt t = zeros" "hmac lc_rt k t = zeros" "parse_json lc_rt t = Some demo_policy"
  "spki_digest lc_rt k = Some zeros" "verify_sig lc_rt k t s" "sign_text lc_rt k t = ''signature bytes''" "json_digest lc_rt v = zeros"
  by (simp_all add: lc_rt_def json_digest_def)

lemma closed_rule_simps [simp]:
  "gateKeys (closed_rule a b c) [''outcome'', ''reasonCode'', ''requestKind'']"
  "getf (fields_of (closed_rule a b c)) ''requestKind'' = JStr a" "getf (fields_of (closed_rule a b c)) ''outcome'' = JStr b"
  "getf (fields_of (closed_rule a b c)) ''reasonCode'' = JStr c"
proof -
  show "gateKeys (closed_rule a b c) [''outcome'', ''reasonCode'', ''requestKind'']"
    unfolding gateKeys_exact closed_rule_def by (rule exactKeys_mset) simp
qed (simp_all add: closed_rule_def)

lemma demo_policy_simps [simp]:
  "gateKeys demo_policy [''policyId'', ''rules'', ''schemaVersion'']"
  "getf (fields_of demo_policy) ''schemaVersion'' = JStr POC_POLICY_SCHEMA"
  "getf (fields_of demo_policy) ''policyId'' = JStr POC_POLICY_ID"
  "getf (fields_of demo_policy) ''rules'' = arr
     [closed_rule ''SYNTHETIC_ESPOCRM_CONTACT_CREATE'' ''AUTO_GRANT'' ''POLICY_SYNTHETIC_CONTACT_AUTO_GRANTED'',
      closed_rule ''SYNTHETIC_DOLIBARR_ORDER_CREATE'' ''OWNER_ESCALATION'' ''POLICY_ORDER_REQUIRES_OWNER'',
      closed_rule ''*'' ''DENY'' ''POLICY_REQUEST_NOT_ALLOWED'']"
proof -
  show "gateKeys demo_policy [''policyId'', ''rules'', ''schemaVersion'']"
    unfolding gateKeys_exact demo_policy_def by (rule exactKeys_mset) simp
qed (simp_all add: demo_policy_def)

lemma demo_policy_closed: "validateAdminAiPocPolicy demo_policy"
  unfolding validateAdminAiPocPolicy_def Let_def by (simp add: CLOSED_RULES_def strs_js_def del: gateJson.simps)

lemma demo_policy_shape: "validateLifecyclePolicyShape demo_policy"
proof -
  have p: "rx_test REASON_CODE_PATTERN ''POLICY_SYNTHETIC_CONTACT_AUTO_GRANTED''"
    "rx_test REASON_CODE_PATTERN ''POLICY_ORDER_REQUIRES_OWNER''" "rx_test REASON_CODE_PATTERN ''POLICY_REQUEST_NOT_ALLOWED''"
    unfolding REASON_CODE_PATTERN_def rx_test_class_Seq rx_test_class_rep
    by (simp_all add: in_class_def A_Z_def d0_9_def chars_def)
  show ?thesis
    unfolding validateLifecyclePolicyShape_def Let_def
    by (simp add: validRule_def REQUEST_KINDS_def p OUTCOME_RANK_def del: gateJson.simps rx_test.simps)
qed

definition demo_request :: artifact_request where
  "demo_request = \<lparr>aq_policyBytes = ''policy'', aq_generation = jint 1, aq_issuer = JStr ''owner'', aq_keyId = JStr ''key'',
     aq_issuedAtMs = jint 0, aq_notBeforeMs = jint 0, aq_expiresAtMs = jint 5000, aq_tenant = JStr POC_TENANT,
     aq_policyId = JStr POC_POLICY_ID, aq_policySchemaVersion = JStr POC_POLICY_SCHEMA,
     aq_runtimeApiVersion = JStr RUNTIME_API\<rparr>"

definition demo_source :: string where
  "demo_source = to_base64 ''policy''"

definition demo_signature :: string where
  "demo_signature = to_base64 ''signature bytes''"

lemma demo_texts [simp]:
  "length demo_source = 8" "length demo_signature = 20" "demo_source \<noteq> []" "demo_signature \<noteq> []"
  "from_base64 demo_source = Some ''policy''" "from_base64 demo_signature = Some ''signature bytes''"
proof -
  show "length demo_source = 8" "length demo_signature = 20" "demo_source \<noteq> []" "demo_signature \<noteq> []" by code_simp+
qed (simp_all only: demo_source_def demo_signature_def from_base64_iff)

definition demo_artifact :: js where
  "demo_artifact = obj (artifact_core lc_rt demo_request demo_policy
     @ [(''signature'', obj [(''algorithm'', JStr ''Ed25519''), (''valueBase64'', JStr (demo_signature))])])"

lemma getf_artifact [simp]:
  "getf (fields_of demo_artifact) ''schemaVersion'' = JStr SIGNED_POLICY_ARTIFACT_SCHEMA"
  "getf (fields_of demo_artifact) ''tenant'' = JStr POC_TENANT"
  "getf (fields_of demo_artifact) ''policyId'' = JStr POC_POLICY_ID"
  "getf (fields_of demo_artifact) ''generation'' = jint 1"
  "getf (fields_of demo_artifact) ''issuer'' = JStr ''owner''"
  "getf (fields_of demo_artifact) ''keyId'' = JStr ''key''"
  "getf (fields_of demo_artifact) ''issuedAtMs'' = jint 0"
  "getf (fields_of demo_artifact) ''notBeforeMs'' = jint 0"
  "getf (fields_of demo_artifact) ''expiresAtMs'' = jint 5000"
  "getf (fields_of demo_artifact) ''compatibility'' = obj [(''policySchemaVersion'', JStr POC_POLICY_SCHEMA),
     (''runtimeApiVersion'', JStr RUNTIME_API)]"
  "getf (fields_of demo_artifact) ''policySourceBase64'' = JStr (demo_source)"
  "getf (fields_of demo_artifact) ''policySourceDigest'' = JStr zeros"
  "getf (fields_of demo_artifact) ''policySemanticDigest'' = JStr zeros"
  "getf (fields_of demo_artifact) ''signature'' = obj [(''algorithm'', JStr ''Ed25519''), (''valueBase64'', JStr (demo_signature))]"
  by (simp_all add: demo_artifact_def artifact_core_def demo_request_def demo_source_def)

lemma demo_structure: "validateArtifactStructure lc_rt demo_artifact = Some (''policy'', demo_policy)"
proof -
  have k: "gateKeys demo_artifact ARTIFACT_KEYS"
    "gateKeys (obj [(''policySchemaVersion'', JStr POC_POLICY_SCHEMA), (''runtimeApiVersion'', JStr RUNTIME_API)])
      [''policySchemaVersion'', ''runtimeApiVersion'']"
    "gateKeys (obj [(''algorithm'', JStr ''Ed25519''), (''valueBase64'', JStr (demo_signature))]) [''algorithm'', ''valueBase64'']"
    unfolding gateKeys_exact demo_artifact_def artifact_core_def demo_request_def ARTIFACT_KEYS_def
    by (simp, rule exactKeys_mset, simp, (rule exactKeys_mset, simp)+)
  have p: "rx_test ISSUER_PATTERN ''owner''" "rx_test KEY_ID_PATTERN ''key''"
    unfolding ISSUER_PATTERN_def KEY_ID_PATTERN_def rx_test_class_Seq rx_test_class_rep
    by (simp_all add: in_class_def A_Z_def a_z_def d0_9_def chars_def)
  have d: "decodePolicy lc_rt (JStr demo_source) = Some (''policy'', demo_policy)"
    by (simp add: decodePolicy_def MAX_POLICY_BYTES_def)
  show ?thesis
    unfolding validateArtifactStructure_def Let_def getf_artifact
    by (simp add: k p d demo_policy_shape isGeneration_def isTime_def max_safe_def del: gateJson.simps rx_test.simps)
qed

definition demo_env :: lc_env where
  "demo_env = \<lparr>clock = (\<lambda>_. 1000), fence_clock = 1000, writes = True, fence_writes = True,
     freeze_clock = 1000, freeze_writes = True, trusted = (\<lambda>_ _. Some ''key'')\<rparr>"

definition demo_cfg :: lc_config where
  "demo_cfg = \<lparr>ownerApprovalToken = replicate 32 (CHR ''a''), ownerActivationToken = replicate 32 (CHR ''b''),
     fenceToken = replicate 32 (CHR ''b''), trustStores = {\<lambda>_ _. Some ''key''}\<rparr>"

lemma demo_env_simps [simp]:
  "clock demo_env i = 1000" "fence_clock demo_env = 1000" "writes demo_env" "fence_writes demo_env"
  "trusted demo_env issuer k = Some ''key''"
  by (simp_all add: demo_env_def)

lemma demo_trustStore: "trusted demo_env \<in> trustStores demo_cfg"
  by (simp add: demo_env_def demo_cfg_def)

lemma demo_verified:
  "verifyArtifact lc_rt demo_artifact (trusted demo_env)
    = Inr \<lparr>vf_bytes = ''policy'', vf_policy = demo_policy, vf_trustDigest = zeros\<rparr>"
  unfolding verifyArtifact_def demo_structure Let_def getf_artifact
  by (simp add: trustSnapshot_def res_simps del: gateJson.simps)

lemma demo_trusted:
  assumes "le_artifact e = demo_artifact" "le_trustDigest e = JStr zeros"
  shows "trustAndTime lc_rt demo_env e = Inr \<lparr>vf_bytes = ''policy'', vf_policy = demo_policy, vf_trustDigest = zeros\<rparr>"
proof -
  have "trustSnapshot lc_rt (trusted demo_env) i k = Inr (''key'', zeros)" for i k
    by (simp add: trustSnapshot_def)
  moreover have "assertArtifactWindow demo_artifact 1000 = Inr ()" "assertCompatibility demo_artifact = Inr ()"
    by (simp_all add: assertArtifactWindow_def assertCompatibility_def)
  ultimately show ?thesis
    using assms demo_verified by (simp add: trustAndTime_def Let_def res_simps isTime_def max_safe_def)
qed

text \<open>The entry after its first operations, and the receipts of these.\<close>

definition demo_approval :: js where
  "demo_approval = obj (approval_fields [(''tenant'', JStr POC_TENANT), (''policyId'', JStr POC_POLICY_ID),
      (''generation'', jint 1), (''artifactDigest'', JStr zeros), (''diffDigest'', JStr zeros),
      (''simulationDigest'', JStr zeros), (''allowWidening'', JBool False), (''issuedAtMs'', jint 0),
      (''expiresAtMs'', jint 5000)] @ [(''binding'', JStr zeros)])"

definition demo_entry :: "entry_state \<Rightarrow> lc_entry" where
  "demo_entry s = \<lparr>le_generation = 1, le_artifact = demo_artifact, le_artifactDigest = zeros, le_state = s,
     le_trustDigest = JStr zeros,
     le_diff = (if s = DRAFT then JNull else semanticDiff None demo_policy None 1),
     le_diffDigest = (if s = DRAFT then JNull else JStr zeros),
     le_simulationDigest = (if s \<in> set [DRAFT, VALIDATED] then JNull else JStr zeros),
     le_approval = (if s \<in> set before_approval then JNull else demo_approval)\<rparr>"

lemma demo_approved:
  assumes "le_generation e = 1" "le_artifactDigest e = zeros" "le_diffDigest e = JStr zeros" "le_simulationDigest e = JStr zeros"
    "le_diff e = semanticDiff None demo_policy None 1"
  shows "validateApproval lc_rt token demo_approval e 1000 = Inr ()"
proof -
  have k: "gateKeys demo_approval APPROVAL_KEYS"
    unfolding gateKeys_exact demo_approval_def approval_fields_def APPROVAL_KEYS_def append.simps
    by (rule exactKeys_mset) simp
  have f: "getf (fields_of demo_approval) ''schemaVersion'' = JStr POLICY_LIFECYCLE_APPROVAL_SCHEMA"
    "getf (fields_of demo_approval) ''tenant'' = JStr POC_TENANT"
    "getf (fields_of demo_approval) ''policyId'' = JStr POC_POLICY_ID"
    "getf (fields_of demo_approval) ''generation'' = jint 1"
    "getf (fields_of demo_approval) ''artifactDigest'' = JStr zeros"
    "getf (fields_of demo_approval) ''diffDigest'' = JStr zeros"
    "getf (fields_of demo_approval) ''simulationDigest'' = JStr zeros"
    "getf (fields_of demo_approval) ''allowWidening'' = JBool False"
    "getf (fields_of demo_approval) ''issuedAtMs'' = jint 0"
    "getf (fields_of demo_approval) ''expiresAtMs'' = jint 5000"
    "getf (fields_of demo_approval) ''binding'' = JStr zeros"
    by (simp_all add: demo_approval_def approval_fields_def)
  show ?thesis
    unfolding validateApproval_def Let_def f
    by (simp add: k assms sameSecret_def isTime_def max_safe_def approval_binding_def semanticDiff_def Let_def del: gateJson.simps)
qed

subsection \<open>The record after each operation\<close>

definition demo_op :: "nat \<Rightarrow> string" where
  "demo_op k = ''operation-'' @ replicate k (CHR ''x'')"

definition demo_states :: "entry_state list" where
  "demo_states = [DRAFT, VALIDATED, SIMULATED, APPROVED, STAGED, ENTRY_ACTIVE]"

definition demo_transitions :: "transition list" where
  "demo_transitions = TO_STAGED @ [T_ACTIVATED]"

definition demo_receipt :: "nat \<Rightarrow> lc_receipt" where
  "demo_receipt k = \<lparr>rc_sequence = int k + 1, rc_operationId = demo_op k, rc_transition = demo_transitions ! k,
     rc_generation = 1, rc_artifactDigest = zeros, rc_fromState = (if k = 0 then None else Some (demo_states ! (k - 1))),
     rc_toState = demo_states ! k, rc_occurredAtMs = 1000, rc_detailsDigest = zeros,
     rc_previousReceiptDigest = (if k = 0 then None else Some zeros), rc_receiptDigest = zeros\<rparr>"

fun demo_log :: "nat \<Rightarrow> lc_receipt list" where
  "demo_log 0 = []"
| "demo_log (Suc k) = demo_log k @ [demo_receipt k]"

definition demo_record :: "nat \<Rightarrow> lc_record" where
  "demo_record k = \<lparr>lr_revision = int k, lr_activeGeneration = (if k = 6 then Some 1 else None),
     lr_lastSafeGeneration = (if k = 6 then Some 1 else None), lr_dispatchActive = (k = 6),
     lr_entries = [demo_entry (demo_states ! (k - 1))], lr_receipts = demo_log k\<rparr>"

definition demo_manager :: "nat \<Rightarrow> fence \<Rightarrow> lc_manager" where
  "demo_manager k w = \<lparr>lm_file = Json (lc_record_js lc_rt (ownerApprovalToken demo_cfg) (demo_record k)),
     lm_memory = Some (demo_record k), lm_fence = w\<rparr>"

lemma demo_log_simps [simp]: "length (demo_log k) = k" "demo_log k = [] \<longleftrightarrow> k = 0"
  "map rc_receiptDigest (demo_log k) = replicate k zeros" "map rc_operationId (demo_log k) = map demo_op [0..<k]"
  "map rc_sequence (demo_log k) = map (\<lambda>i. int i + 1) [0..<k]"
  by (induction k) (auto simp: demo_receipt_def replicate_append_same)

lemma demo_log_last: "map_option rc_receiptDigest (at_last (demo_log k)) = (if k = 0 then None else Some zeros)"
  by (cases k) (simp_all add: demo_receipt_def)

lemma demo_op_inj: "demo_op j = demo_op k \<longleftrightarrow> j = k"
  by (simp add: demo_op_def)

lemma demo_op_ok: "k \<le> 50 \<Longrightarrow> rx_test OPERATION_ID_PATTERN (demo_op k)"
  unfolding OPERATION_ID_PATTERN_def demo_op_def append_Cons rx_test_class_Seq rx_test_class_rep
  by (simp add: in_class_def a_z_def A_Z_def d0_9_def chars_def list_all_iff)

lemma demo_logged:
  assumes "k \<le> 50"
  shows "lc_receipt_chain.chained (sha lc_rt) (demo_log k)" "distinct (map rc_operationId (demo_log k))"
    "\<forall>rc \<in> set (demo_log k). receipt_valid lc_rt rc"
proof -
  show "lc_receipt_chain.chained (sha lc_rt) (demo_log k)"
    by (induction k) (simp_all add: demo_log_last, simp_all add: demo_receipt_def)
  show "distinct (map rc_operationId (demo_log k))"
    by (simp add: distinct_map inj_on_def demo_op_inj)
  show "\<forall>rc \<in> set (demo_log k). receipt_valid lc_rt rc"
    using assms by (induction k)
      (auto simp: receipt_valid_def demo_receipt_def demo_op_ok isGeneration_def isTime_def max_safe_def simp del: rx_test.simps)
qed

lemma demo_entry_simps [simp]:
  "le_generation (demo_entry s) = 1" "le_artifact (demo_entry s) = demo_artifact"
  "le_artifactDigest (demo_entry s) = zeros" "le_state (demo_entry s) = s" "le_trustDigest (demo_entry s) = JStr zeros"
  by (simp_all add: demo_entry_def)

lemma demo_entry_ok: "entry_valid lc_rt (demo_entry s)"
  by (simp add: entry_valid_def demo_structure artifactDigest_def isGeneration_def max_safe_def)

lemma demo_accepted:
  assumes "1 \<le> k" "k \<le> 6"
  shows "lc_validateRecord lc_rt token (lc_record_js lc_rt token (demo_record k)) = Inr (demo_record k)"
proof (rule own_record_valid)
  show "lc_tidy (demo_record k)"
    using assms by (auto simp: lc_tidy_def demo_record_def demo_states_def numeral_eq_Suc le_Suc_eq)
  show "lc_log lc_rt (demo_record k)"
    using demo_logged [of k] assms by (simp add: lc_log_def demo_record_def)
  show "lc_valid lc_rt (demo_record k)"
    using demo_logged [of k] assms demo_entry_ok by (simp add: lc_valid_def demo_record_def)
qed (use assms in \<open>simp_all add: demo_record_def max_safe_def\<close>)

lemma demo_sync: "1 \<le> k \<Longrightarrow> k \<le> 6 \<Longrightarrow> lc_sync lc_rt demo_cfg (demo_manager k w)"
  by (simp add: lc_sync_def demo_manager_def demo_accepted)

lemma demo_load: "1 \<le> k \<Longrightarrow> k \<le> 6 \<Longrightarrow>
    lc_load lc_rt demo_cfg (demo_manager k w) = Inr (Some (demo_record k), demo_manager k w)"
  using lc_load_sync [OF demo_sync] by (simp add: demo_manager_def)

lemma demo_found: "lr_entries r = [e] \<Longrightarrow> le_generation e = 1 \<Longrightarrow> lc_entryFor (Some r) (jint 1) = Inr e"
  by (simp add: lc_entryFor_def isGeneration_def max_safe_def)

lemma demo_next:
  assumes "lr_receipts r = demo_log k" "k \<le> 50" "le_generation e = 1" "le_artifactDigest e = zeros"
    "tr = demo_transitions ! k" "from = (if k = 0 then None else Some (demo_states ! (k - 1)))" "to = demo_states ! k"
  shows "nextRecord lc_rt 1000 r e (JStr (demo_op k)) tr from to det
    = Inr (put r (set_entry (e\<lparr>le_state := to\<rparr>) (lr_entries r)) (demo_receipt k), demo_receipt k)"
proof -
  have "\<not> list_ex (\<lambda>x. rc_operationId x = demo_op k) (lr_receipts r)"
  proof
    assume "list_ex (\<lambda>x. rc_operationId x = demo_op k) (lr_receipts r)"
    then obtain x where "x \<in> set (demo_log k)" "rc_operationId x = demo_op k"
      using assms(1) by (auto simp: list_ex_iff)
    then have "demo_op k \<in> set (map rc_operationId (demo_log k))" by (metis image_eqI set_map)
    then show False unfolding demo_log_simps by (auto simp: demo_op_inj)
  qed
  moreover have "rx_test OPERATION_ID_PATTERN (demo_op k)" by (rule demo_op_ok [OF assms(2)])
  moreover have "map_option rc_receiptDigest (at_last (lr_receipts r)) = (if k = 0 then None else Some zeros)"
    by (simp only: assms(1) demo_log_last)
  ultimately show ?thesis
    using assms unfolding nextRecord_def Let_def
    by (simp add: put_def demo_receipt_def lc_receipt_core.defs lc_receipt.defs isTime_def max_safe_def del: rx_test.simps)
qed

lemma demo_step:
  assumes "lr_receipts r = demo_log k" "k \<le> 5" "le_generation e = 1" "le_artifactDigest e = zeros"
    "tr = demo_transitions ! k" "from = (if k = 0 then None else Some (demo_states ! (k - 1)))" "to = demo_states ! k"
    "upd (put r (set_entry (e\<lparr>le_state := to\<rparr>) (lr_entries r)) (demo_receipt k)) = demo_record k'" "k' = k + 1"
    "lm_fence m = w"
  shows "commit lc_rt demo_cfg demo_env m
      (map_sum id (apfst upd) (nextRecord lc_rt 1000 r e (JStr (demo_op k)) tr from to det))
    = (demo_manager k' w, Inr (demo_receipt k))"
proof -
  have "nextRecord lc_rt 1000 r e (JStr (demo_op k)) tr from to det
    = Inr (put r (set_entry (e\<lparr>le_state := to\<rparr>) (lr_entries r)) (demo_receipt k), demo_receipt k)"
    by (rule demo_next) (use assms in simp_all)
  moreover have "lc_validateRecord lc_rt token (lc_record_js lc_rt token (demo_record k')) = Inr (demo_record k')"
    for token by (rule demo_accepted) (use assms(2,9) in simp_all)
  ultimately show ?thesis using assms(8,10)
    by (simp add: commit_def lc_persist_def Let_def res_simps demo_manager_def)
qed

lemmas demo_step_plain = demo_step [where upd = "\<lambda>r. r", folded id_def, simplified map_sum.id apfst_id id_apply]

lemma empty_record_simps [simp]: "lr_entries empty_record = []" "lr_receipts empty_record = []"
  by (simp_all add: empty_record_def)

lemma demo_draft: "lc_draft lc_rt demo_cfg demo_env lc_start demo_artifact (JStr (demo_op 0))
    = (demo_manager 1 empty_fence, Inr (demo_receipt 0))"
proof -
  have e: "drafted_entry lc_rt demo_artifact zeros = demo_entry DRAFT"
    by (simp add: drafted_entry_def demo_entry_def artifactDigest_def before_approval_def)
  have r: "put (empty_record\<lparr>lr_entries := [demo_entry DRAFT]\<rparr>)
      (set_entry ((demo_entry DRAFT)\<lparr>le_state := DRAFT\<rparr>) (lr_entries (empty_record\<lparr>lr_entries := [demo_entry DRAFT]\<rparr>)))
      (demo_receipt 0) = demo_record 1"
    by (simp add: put_def set_entry_def empty_record_def demo_record_def demo_states_def)
  have w: "assertArtifactWindow demo_artifact 1000 = Inr ()" by (simp add: assertArtifactWindow_def)
  have l: "lc_load lc_rt demo_cfg lc_start = Inr (None, lc_start)" by (simp add: lc_load_def lc_start_def)
  have n: "commit lc_rt demo_cfg demo_env lc_start
      (nextRecord lc_rt 1000 (empty_record\<lparr>lr_entries := [demo_entry DRAFT]\<rparr>) (demo_entry DRAFT)
      (JStr (demo_op 0)) T_DRAFTED None DRAFT det) = (demo_manager 1 empty_fence, Inr (demo_receipt 0))" for det
    by (rule demo_step_plain [OF _ _ _ _ _ _ _ r])
      (simp_all add: demo_transitions_def TO_STAGED_def demo_states_def lc_start_def)
  show ?thesis
    unfolding lc_draft_def demo_verified sum.case Let_def demo_env_simps
    by (simp add: isTime_def max_safe_def w l e n)
qed

lemma demo_fence [simp]: "lm_fence (demo_manager k w) = w"
  by (simp add: demo_manager_def)

lemma demo_withEntry:
  assumes "1 \<le> k" "k \<le> 6"
  shows "withEntry lc_rt demo_cfg (demo_manager k w) (jint 1) body
    = body (demo_manager k w) (demo_record k) (demo_entry (demo_states ! (k - 1)))"
proof -
  have "lc_entryFor (Some (demo_record k)) (jint 1) = Inr (demo_entry (demo_states ! (k - 1)))"
    by (rule demo_found) (simp_all add: demo_record_def)
  then show ?thesis by (simp add: withEntry_def demo_load [OF assms])
qed

lemmas demo_put = put_def set_entry_def demo_record_def demo_states_def demo_transitions_def TO_STAGED_def
  replace_entry_def

lemma demo_entry_next:
  "(demo_entry DRAFT)\<lparr>le_diff := semanticDiff None demo_policy None 1, le_diffDigest := JStr zeros, le_state := VALIDATED\<rparr>
    = demo_entry VALIDATED"
  "(demo_entry VALIDATED)\<lparr>le_simulationDigest := JStr zeros, le_state := SIMULATED\<rparr> = demo_entry SIMULATED"
  "(demo_entry SIMULATED)\<lparr>le_approval := demo_approval, le_state := APPROVED\<rparr> = demo_entry APPROVED"
  "(demo_entry APPROVED)\<lparr>le_state := STAGED\<rparr> = demo_entry STAGED"
  "(demo_entry STAGED)\<lparr>le_state := ENTRY_ACTIVE\<rparr> = demo_entry ENTRY_ACTIVE"
  by (simp_all add: demo_entry_def before_approval_def)

lemma demo_tt: "trustAndTime lc_rt demo_env (demo_entry s)
    = Inr \<lparr>vf_bytes = ''policy'', vf_policy = demo_policy, vf_trustDigest = zeros\<rparr>"
  by (rule demo_trusted) simp_all

lemma demo_record_simps [simp]:
  "lr_activeGeneration (demo_record k) = (if k = 6 then Some 1 else None)"
  "lr_lastSafeGeneration (demo_record k) = (if k = 6 then Some 1 else None)"
  by (simp_all add: demo_record_def)

lemma demo_base [simp]: "k \<noteq> 6 \<Longrightarrow> basePolicy lc_rt (demo_record k) = Inr None"
  by (simp add: basePolicy_def)

lemma demo_validate: "lc_validate lc_rt demo_cfg demo_env (demo_manager 1 w) (jint 1) (JStr (demo_op 1))
    = (demo_manager 2 w, Inr (demo_receipt 1))"
proof -
  let ?e = "(demo_entry DRAFT)\<lparr>le_diff := semanticDiff None demo_policy None 1, le_diffDigest := JStr zeros\<rparr>"
  have "commit lc_rt demo_cfg demo_env (demo_manager 1 w)
      (nextRecord lc_rt 1000 (replace_entry ?e (demo_record 1)) ?e (JStr (demo_op 1)) T_VALIDATED (Some DRAFT) VALIDATED det)
    = (demo_manager 2 w, Inr (demo_receipt 1))" for det
    by (rule demo_step_plain) (simp_all add: demo_put demo_entry_next eval_nat_numeral)
  then show ?thesis
    unfolding lc_validate_def demo_withEntry [OF order_refl one_le_numeral]
    by (simp add: demo_states_def demo_tt res_simps Let_def)
qed

lemma demo_simulate: "lc_simulate lc_rt demo_cfg demo_env (demo_manager 2 w) (jint 1) (JStr (demo_op 2))
    = (demo_manager 3 w, Inr (demo_receipt 2))"
proof -
  let ?e = "(demo_entry VALIDATED)\<lparr>le_simulationDigest := JStr zeros\<rparr>"
  have "commit lc_rt demo_cfg demo_env (demo_manager 2 w)
      (nextRecord lc_rt 1000 (replace_entry ?e (demo_record 2)) ?e (JStr (demo_op 2)) T_SIMULATED (Some VALIDATED) SIMULATED det)
    = (demo_manager 3 w, Inr (demo_receipt 2))" for det
    by (rule demo_step_plain) (simp_all add: demo_put demo_entry_next eval_nat_numeral)
  then show ?thesis
    unfolding lc_simulate_def by (simp add: demo_withEntry demo_states_def demo_tt res_simps Let_def)
qed

lemma demo_approve: "lc_approve lc_rt demo_cfg demo_env (demo_manager 3 w) (jint 1) demo_approval (JStr (demo_op 3))
    = (demo_manager 4 w, Inr (demo_receipt 3))"
proof -
  let ?e = "(demo_entry SIMULATED)\<lparr>le_approval := demo_approval\<rparr>"
  have "commit lc_rt demo_cfg demo_env (demo_manager 3 w)
      (nextRecord lc_rt 1000 (replace_entry ?e (demo_record 3)) ?e (JStr (demo_op 3)) T_APPROVED (Some SIMULATED) APPROVED det)
    = (demo_manager 4 w, Inr (demo_receipt 3))" for det
    by (rule demo_step_plain) (simp_all add: demo_put demo_entry_next eval_nat_numeral)
  moreover have "validateApproval lc_rt token demo_approval (demo_entry SIMULATED) 1000 = Inr ()" for token
    by (rule demo_approved) (simp_all add: demo_entry_def)
  ultimately show ?thesis
    unfolding lc_approve_def by (simp add: demo_withEntry demo_states_def demo_tt res_simps Let_def)
qed

lemma demo_still_approved:
  "s \<notin> set before_approval \<Longrightarrow> validateApproval lc_rt token (le_approval (demo_entry s)) (demo_entry s) 1000 = Inr ()"
  using demo_approved [of "demo_entry s" token] by (auto simp: demo_entry_def before_approval_def)

lemma demo_stage: "lc_stage lc_rt demo_cfg demo_env (demo_manager 4 w) (jint 1) (JStr (demo_op 4))
    = (demo_manager 5 w, Inr (demo_receipt 4))"
proof -
  have "commit lc_rt demo_cfg demo_env (demo_manager 4 w)
      (nextRecord lc_rt 1000 (demo_record 4) (demo_entry APPROVED) (JStr (demo_op 4)) T_STAGED (Some APPROVED) STAGED det)
    = (demo_manager 5 w, Inr (demo_receipt 4))" for det
    by (rule demo_step_plain) (simp_all add: demo_put demo_entry_next eval_nat_numeral)
  then show ?thesis
    unfolding lc_stage_def
    by (simp add: demo_withEntry demo_states_def demo_tt demo_still_approved demo_policy_closed before_approval_def
      res_simps Let_def)
qed

lemma demo_staged: "lc_reach lc_rt demo_cfg (demo_manager 5 empty_fence)"
proof -
  have "lc_reach lc_rt demo_cfg lc_start" by (simp add: lc_reach_def)
  from lc_reach_step [OF this step_draft [OF demo_draft demo_trustStore]] have "lc_reach lc_rt demo_cfg (demo_manager 1 empty_fence)" .
  from lc_reach_step [OF this step_validate [OF demo_validate demo_trustStore]] have "lc_reach lc_rt demo_cfg (demo_manager 2 empty_fence)" .
  from lc_reach_step [OF this step_simulate [OF demo_simulate demo_trustStore]] have "lc_reach lc_rt demo_cfg (demo_manager 3 empty_fence)" .
  from lc_reach_step [OF this step_approve [OF demo_approve demo_trustStore]] have "lc_reach lc_rt demo_cfg (demo_manager 4 empty_fence)" .
  from lc_reach_step [OF this step_stage [OF demo_stage demo_trustStore]] show ?thesis .
qed

lemma base_lc_rt [simp]:
  "hmac (base_rt lc_rt) k t = zeros" "parse_json (base_rt lc_rt) t = Some demo_policy" "json_digest (base_rt lc_rt) v = zeros"
  by (simp_all add: runtime.defs lc_rt_def json_digest_def)

definition demo_candidate :: fence_candidate where
  "demo_candidate = \<lparr>fc_generation = 1, fc_source64 = demo_source, fc_sourceDigest = zeros, fc_semanticDigest = zeros\<rparr>"

lemma demo_candidate_ok:
  "validatePolicyActivationCandidate (base_rt lc_rt) (fence_candidate_js demo_candidate) = Inr (demo_candidate, ''policy'', demo_policy)"
proof -
  have k: "gateKeys (fence_candidate_js demo_candidate) FENCE_CANDIDATE_KEYS"
    unfolding gateKeys_exact fence_candidate_js_def FENCE_CANDIDATE_KEYS_def by (rule exactKeys_mset) simp
  have f: "getf (fields_of (fence_candidate_js demo_candidate)) ''schemaVersion'' = JStr POLICY_ACTIVATION_CANDIDATE_SCHEMA"
    "getf (fields_of (fence_candidate_js demo_candidate)) ''tenant'' = JStr POC_TENANT"
    "getf (fields_of (fence_candidate_js demo_candidate)) ''policyId'' = JStr POC_POLICY_ID"
    "getf (fields_of (fence_candidate_js demo_candidate)) ''generation'' = jint 1"
    "getf (fields_of (fence_candidate_js demo_candidate)) ''policySourceBase64'' = JStr demo_source"
    "getf (fields_of (fence_candidate_js demo_candidate)) ''policySourceDigest'' = JStr zeros"
    "getf (fields_of (fence_candidate_js demo_candidate)) ''policySemanticDigest'' = JStr zeros"
    by (simp_all add: fence_candidate_js_def demo_candidate_def)
  have s: "policyFromSourceBase64 (base_rt lc_rt) (JStr demo_source) = Some (''policy'', demo_policy)"
    by (simp add: policyFromSourceBase64_def MAX_POLICY_BYTES_def demo_policy_closed)
  show ?thesis
    unfolding validatePolicyActivationCandidate_def Let_def f
    by (simp add: k s isGeneration_def max_safe_def readCandidate_js del: gateJson.simps)
qed

lemma demo_created: "createPolicyActivationCandidate (base_rt lc_rt) ''policy'' 1 = Inr demo_candidate"
proof -
  have "\<lparr>fc_generation = 1, fc_source64 = to_base64 ''policy'', fc_sourceDigest = zeros, fc_semanticDigest = zeros\<rparr>
    = demo_candidate" by (simp only: demo_candidate_def demo_source_def)
  then show ?thesis
    using demo_candidate_ok
    by (simp add: createPolicyActivationCandidate_def isGeneration_def max_safe_def MAX_POLICY_BYTES_def demo_policy_closed
      res_simps Let_def del: to_base64.simps)
qed

definition demo_authorization :: js where
  "demo_authorization = obj (authorization_fields zeros 1000 @ [(''binding'', JStr zeros)])"

lemma demo_authorized:
  "createLocalOwnerPolicyAuthorization (base_rt lc_rt) demo_candidate (ownerActivationToken demo_cfg) 1000
    = Inr demo_authorization"
  "validateAuthorization (base_rt lc_rt) demo_authorization v token"
proof -
  show "createLocalOwnerPolicyAuthorization (base_rt lc_rt) demo_candidate (ownerActivationToken demo_cfg) 1000
    = Inr demo_authorization"
    by (simp add: createLocalOwnerPolicyAuthorization_def ownerToken_def demo_cfg_def isGeneration_def isTime_def max_safe_def
      demo_candidate_def demo_authorization_def authorization_binding_def Let_def del: gateJson.simps)
  have "gateKeys demo_authorization AUTHORIZATION_KEYS"
    unfolding gateKeys_exact demo_authorization_def authorization_fields_def AUTHORIZATION_KEYS_def append.simps
    by (rule exactKeys_mset) simp
  then show "validateAuthorization (base_rt lc_rt) demo_authorization v token"
    unfolding validateAuthorization_def Let_def
    by (simp add: demo_authorization_def authorization_fields_def authorization_binding_def max_safe_def del: gateJson.simps)
qed

definition demo_switch :: "fence \<times> active_policy res" where
  "demo_switch = fence_activate (base_rt lc_rt) (fenceToken demo_cfg) True 1000 empty_fence
     (fence_candidate_js demo_candidate) demo_authorization"

lemma demo_switched: "\<exists>p. snd demo_switch = Inr p \<and> fence_candidate.truncate (ap_snapshot p) = demo_candidate
    \<and> (\<exists>fr. fence_holds (base_rt lc_rt) (fenceToken demo_cfg) (fst demo_switch) fr \<and> fr_active fr = ap_snapshot p
      \<and> fr_status fr = FENCE_ACTIVE)"
proof -
  have "\<exists>w' p. demo_switch = (w', Inr p)"
    unfolding demo_switch_def
    by (subst fence_activate_outcome)
      (auto simp: fence_candidate_ok_def demo_candidate_ok demo_authorized admits_def empty_fence_def isTime_def max_safe_def)
  then obtain w p where f: "demo_switch = (w, Inr p)" by blast
  from f [unfolded demo_switch_def] show ?thesis
  proof (cases rule: fence_activate_cases)
    case (switched p' c bytes policy core)
    then show ?thesis using demo_candidate_ok
      by (intro exI [of _ p] conjI exI [of _ "fence_bind (base_rt lc_rt) (fenceToken demo_cfg) core"])
        (simp_all add: f)
  qed simp
qed

definition demo_active :: active_policy where
  "demo_active = (case snd demo_switch of Inr p \<Rightarrow> p | Inl e \<Rightarrow> undefined)"

definition active_manager :: lc_manager where
  "active_manager = demo_manager 6 (fst demo_switch)"

lemma demo_switch_pair: "demo_switch = (fst demo_switch, Inr demo_active)"
proof -
  obtain p where "snd demo_switch = Inr p" using demo_switched by blast
  then show ?thesis by (simp add: demo_active_def prod_eq_iff)
qed

lemma demo_activate:
  "lc_activate lc_rt demo_cfg demo_env (demo_manager 5 empty_fence) (jint 1) (JStr (demo_op 5))
    = (active_manager, Inr (demo_receipt 5, demo_active))"
proof -
  let ?m = "(demo_manager 5 empty_fence)\<lparr>lm_fence := fst demo_switch\<rparr>"
  have f: "fence_activate (base_rt lc_rt) (fenceToken demo_cfg) True 1000 empty_fence
     (fence_candidate_js demo_candidate) demo_authorization = (fst demo_switch, Inr demo_active)"
    by (metis demo_switch_def demo_switch_pair)
  have e: "lc_entryFor (Some (activated_record 1 (demo_record 5))) (jint 1) = Inr (demo_entry ENTRY_ACTIVE)"
    by (rule demo_found)
      (simp_all add: demo_record_def demo_states_def eval_nat_numeral activated_entry_def demo_entry_next)
  have n: "nextRecord lc_rt 1000 (activated_record 1 (demo_record 5)) (demo_entry ENTRY_ACTIVE) (JStr (demo_op 5))
      T_ACTIVATED (Some STAGED) ENTRY_ACTIVE det = Inr (demo_record 6, demo_receipt 5)" for det
  proof -
    have "put (activated_record 1 (demo_record 5)) (set_entry ((demo_entry ENTRY_ACTIVE)\<lparr>le_state := ENTRY_ACTIVE\<rparr>)
      (lr_entries (activated_record 1 (demo_record 5)))) (demo_receipt 5) = demo_record 6"
      by (simp add: demo_put eval_nat_numeral activated_record_def activated_entry_def demo_entry_next)
    then show ?thesis
      using demo_next [of "activated_record 1 (demo_record 5)" 5 "demo_entry ENTRY_ACTIVE" T_ACTIVATED "Some STAGED"
        ENTRY_ACTIVE det]
      by (simp add: demo_record_def demo_transitions_def TO_STAGED_def demo_states_def)
  qed
  have u: "(demo_record 6)\<lparr>lr_entries := map (supersede None) (lr_entries (demo_record 6)), lr_activeGeneration := Some 1,
      lr_lastSafeGeneration := Some 1, lr_dispatchActive := True\<rparr> = demo_record 6"
    by (simp add: demo_record_def supersede_def)
  have p: "lc_persist lc_rt demo_cfg demo_env ?m (demo_record 6) = Inr active_manager"
    by (simp add: lc_persist_def Let_def demo_accepted res_simps active_manager_def demo_manager_def)
  have l: "lr_lastSafeGeneration (activated_record 1 (demo_record 5)) = Some 1"
    by (simp add: activated_record_def)
  show ?thesis
    unfolding lc_activate_def
    by (simp add: demo_withEntry demo_states_def demo_tt demo_still_approved before_approval_def demo_created
      demo_authorized res_simps Let_def f e n u p l)
qed

definition demo_use :: use_binding where
  "demo_use = \<lparr>ub_tenant = JStr POC_TENANT, ub_policyId = JStr POC_POLICY_ID, ub_policyGeneration = jint 1,
     ub_policySourceDigest = JStr zeros\<rparr>"

lemma demo_fence_use:
  "fence_assertUseBinding (base_rt lc_rt) (fenceToken demo_cfg) (fst demo_switch) demo_use = (fst demo_switch, Inr ())"
proof -
  obtain fr where h: "fence_holds (base_rt lc_rt) (fenceToken demo_cfg) (fst demo_switch) fr"
    and a: "fr_active fr = ap_snapshot demo_active" "fr_status fr = FENCE_ACTIVE"
      "fence_candidate.truncate (ap_snapshot demo_active) = demo_candidate"
    using demo_switched demo_switch_pair by (metis Inr_inject snd_conv)
  have d: "fc_generation (fr_active fr) = 1" "fc_sourceDigest (fr_active fr) = zeros"
    using a(1,3) by (simp_all add: fence_candidate.defs demo_candidate_def)
  have m: "(fst demo_switch)\<lparr>fence_memory := Some fr\<rparr> = fst demo_switch" using h by (simp add: fence_holds_def)
  show "fence_assertUseBinding (base_rt lc_rt) (fenceToken demo_cfg) (fst demo_switch) demo_use = (fst demo_switch, Inr ())"
    using h a(2) d m by (simp add: fence_assertUseBinding_def fence_holds_def demo_use_def Let_def)
qed

end
