(* ===== verification/LifecycleLaws.thy ===== *)
theory LifecycleLaws
  imports LifecycleSamples
begin

text \<open>
  The properties of the policy fence and of the lifecycle manager.
\<close>

text \<open>
  C14: In every life of a fence the generations it activates increase and no policy text is
  activated twice; memory and file hold the same record, which names the last activation as active,
  the one before as the fallback, and retires exactly the policy texts of all earlier ones.
\<close>

theorem fence_generations_only_rise:
  assumes "fence_run rt token w ss"
  shows "sorted_wrt (<) (map fc_generation ss) \<and> distinct (map fc_sourceDigest ss)
    \<and> (fence_memory w = None \<longleftrightarrow> ss = [])
    \<and> (\<forall>r. fence_memory w = Some r \<longrightarrow> fence_file w = Json (fence_record_js r) \<and> fr_active r = last ss
      \<and> set (fr_retired r) = fc_sourceDigest ` set (butlast ss)
      \<and> fr_lastKnownSafe r = last (if butlast ss = [] then ss else butlast ss))"
  using fence_run_inv [OF assms]
  by (auto simp: fence_inv_def fence_history_def fence_holds_def empty_fence_def)

theorem fence_generations_witness:
  "fence_run (base_rt lc_rt) (fenceToken demo_cfg) (fst demo_switch) [ap_snapshot demo_active]
   \<and> fence_memory (fst demo_switch) \<noteq> None \<and> distinct (map fc_sourceDigest [ap_snapshot demo_active])"
proof -
  have "fence_activate (base_rt lc_rt) (fenceToken demo_cfg) True 1000 empty_fence
     (fence_candidate_js demo_candidate) demo_authorization = (fst demo_switch, Inr demo_active)"
    by (metis demo_switch_def demo_switch_pair)
  from fence_activated [OF fence_start this]
  have r: "fence_run (base_rt lc_rt) (fenceToken demo_cfg) (fst demo_switch) [ap_snapshot demo_active]" by simp
  from fence_generations_only_rise [OF r] r show ?thesis by simp
qed

text \<open>
  C27: When digests are hexadecimal, an activation of the fence succeeds exactly on a valid candidate with a
  valid authorisation whose generation exceeds every generation and whose policy text differs from
  every policy text activated before, at a valid time, if the file can be written. It never fails on a
  record of its own making, and a failed activation changes nothing.
\<close>

theorem fence_activation_outcome:
  fixes c :: fence_candidate
  assumes "fence_run rt token w ss" "\<And>t. hex64 (sha rt t)" "\<And>k t. hex64 (hmac rt k t)"
  shows "((\<exists>w' p. fence_activate rt token wr now w (fence_candidate_js c) au = (w', Inr p)) \<longleftrightarrow>
      fence_candidate_ok rt c \<and> validateAuthorization rt au (fence_candidate_js c) token
      \<and> (\<forall>s \<in> set ss. fc_generation s < fc_generation c \<and> fc_sourceDigest s \<noteq> fc_sourceDigest c)
      \<and> isTime (jint now) \<and> wr)
    \<and> (\<forall>cv w' e. fence_activate rt token wr now w cv au = (w', Inl e) \<longrightarrow> w' = w)"
proof (intro conjI allI impI)
  note i = fence_run_inv [OF assms(1)]
  have ok: "fence_ok rt r" if "fence_memory w = Some r" for r
    using i that fence_held_ok by (auto simp: fence_inv_def empty_fence_def fence_holds_def)
  have "admits (fence_memory w) c \<longleftrightarrow> (\<forall>s \<in> set ss. fc_generation s < fc_generation c \<and> fc_sourceDigest s \<noteq> fc_sourceDigest c)"
    using i unfolding fence_inv_def
  proof
    assume "w = empty_fence \<and> ss = []"
    then show ?thesis by (simp add: admits_def empty_fence_def)
  next
    assume "\<exists>r. fence_holds rt token w r \<and> fence_history r ss"
    then obtain r where m: "fence_memory w = Some r" and h: "fence_history r ss" by (auto simp: fence_holds_def)
    then obtain ts where ss: "ss = ts @ [fr_active r]" by (metis append_butlast_last_id fence_history_def)
    have g: "\<forall>s \<in> set ts. fc_generation s < fc_generation (fr_active r)"
      using h unfolding fence_history_def ss by (auto simp: sorted_wrt_append)
    have "set (fr_retired r) = fc_sourceDigest ` set ts" using h by (simp add: fence_history_def ss)
    then have d: "fc_sourceDigest c \<notin> set (fr_retired r) \<longleftrightarrow> (\<forall>s \<in> set ts. fc_sourceDigest s \<noteq> fc_sourceDigest c)"
      by (metis image_iff)
    have "(\<forall>s \<in> set ss. fc_generation s < fc_generation c) \<longleftrightarrow> fc_generation (fr_active r) < fc_generation c"
      using g by (auto simp: ss intro: order.strict_trans)
    moreover have "(\<forall>s \<in> set ss. fc_sourceDigest s \<noteq> fc_sourceDigest c) \<longleftrightarrow>
        fc_sourceDigest c \<noteq> fc_sourceDigest (fr_active r) \<and> fc_sourceDigest c \<notin> set (fr_retired r)"
      unfolding d by (auto simp: ss)
    ultimately show ?thesis by (simp add: m admits_def ball_conj_distrib)
  qed
  with fence_activate_outcome [OF assms(2,3) ok, of w token wr now c au]
  show "(\<exists>w' p. fence_activate rt token wr now w (fence_candidate_js c) au = (w', Inr p)) \<longleftrightarrow>
      fence_candidate_ok rt c \<and> validateAuthorization rt au (fence_candidate_js c) token
      \<and> (\<forall>s \<in> set ss. fc_generation s < fc_generation c \<and> fc_sourceDigest s \<noteq> fc_sourceDigest c)
      \<and> isTime (jint now) \<and> wr"
    by simp
  fix cv w' e assume "fence_activate rt token wr now w cv au = (w', Inl e)"
  then show "w' = w" by (cases rule: fence_activate_cases) simp_all
qed

theorem fence_activation_witness:
  "\<exists>w' p. fence_activate (base_rt lc_rt) (fenceToken demo_cfg) True 1000 empty_fence
     (fence_candidate_js demo_candidate) demo_authorization = (w', Inr p)"
  by (subst fence_activation_outcome [OF fence_start, THEN conjunct1])
    (auto simp: fence_candidate_ok_def demo_candidate_ok demo_authorized isTime_def max_safe_def)

text \<open>
  C33: In every life of a lifecycle manager, whatever the clocks, writes and trust stores of its calls: memory
  and file hold the same record; generations increase; an entry is active exactly when it is the active
  generation; there is one receipt per revision, numbered from one, with operation identifiers of its
  own and the digest of the receipt before; and the receipts of a generation, reports about the rollout
  aside, tell the one life that leads to the state of its entry.
\<close>

theorem lifecycle_record_invariant:
  assumes "lc_reach rt cfg m" "lm_memory m = Some r"
  shows "lm_file m = Json (lc_record_js rt (ownerApprovalToken cfg) r)
    \<and> sorted_wrt (<) (map le_generation (lr_entries r))
    \<and> lr_revision r = int (length (lr_receipts r))
    \<and> map rc_sequence (lr_receipts r) = map (\<lambda>i. int i + 1) [0..<length (lr_receipts r)]
    \<and> distinct (map rc_operationId (lr_receipts r)) \<and> lc_receipt_chain.chained (sha rt) (lr_receipts r)
    \<and> (\<forall>e \<in> set (lr_entries r). (le_state e = ENTRY_ACTIVE \<longleftrightarrow> lr_activeGeneration r = Some (le_generation e))
        \<and> life (le_generation e) (lr_receipts r) \<in> set (lives (le_state e)))"
  using lc_reach_inv [OF assms(1)] assms(2)
  by (auto simp: lc_inv_def lc_sync_def lc_rec_def lc_record_inv_def lc_tidy_def lc_log_def entry_ok_def)

lemma demo_active_reach: "lc_reach lc_rt demo_cfg active_manager"
  by (rule lc_reach_step [OF demo_staged step_activate [OF demo_activate demo_trustStore]])

lemma active_manager_memory: "lm_memory active_manager = Some (demo_record 6)"
  by (simp add: active_manager_def demo_manager_def)

lemma active_entry: "lr_entries (demo_record 6) = [demo_entry ENTRY_ACTIVE]"
  by (simp add: demo_record_def demo_states_def)

theorem lifecycle_record_witness:
  "lc_reach lc_rt demo_cfg active_manager
   \<and> life 1 (lr_receipts (demo_record 6)) = TO_STAGED @ [T_ACTIVATED]"
  using lifecycle_record_invariant [OF demo_active_reach active_manager_memory]
    demo_active_reach
  by (simp add: active_entry)

text \<open>
  C6: In every life of a manager, a use that is accepted presents the generation of an entry that is active,
  was approved under the owner's key, was signed under the key that a trust store the manager was
  configured with names for its issuer, and holds the closed policy, and the policy text of that entry; the fence runs the same generation and is not frozen, and the receipts
  tell that the generation went through every stage. The use changes nothing.
\<close>

theorem lifecycle_use_is_authorised:
  assumes "lc_reach rt cfg m" "lc_assertUseBinding rt cfg m b = (m', Inr ())"
  shows "m' = m \<and> (\<exists>r fr e. lm_memory m = Some r \<and> fence_memory (lm_fence m) = Some fr \<and> e \<in> set (lr_entries r)
    \<and> le_state e = ENTRY_ACTIVE \<and> lr_dispatchActive r \<and> fr_status fr = FENCE_ACTIVE
    \<and> ub_policyGeneration b = jint (le_generation e) \<and> snapshot_of (fr_active fr) e
    \<and> equalPresented (ub_policySourceDigest b) (fc_sourceDigest (fr_active fr))
    \<and> owner_approved rt cfg e \<and> closed_policy rt cfg e
    \<and> life (le_generation e) (lr_receipts r) = TO_STAGED @ [T_ACTIVATED])"
  using assms(2) lc_reach_inv [OF assms(1)]
proof (cases rule: lc_use_cases)
  case (accepted r fr e)
  have rec: "lc_rec m = r" using accepted(3) by (simp add: lc_rec_def)
  have i: "lc_tidy r" "entry_ok rt cfg (lr_receipts r) e"
    using lc_reach_inv [OF assms(1)] accepted(5) by (auto simp: lc_inv_def lc_record_inv_def rec)
  have st: "le_state e = ENTRY_ACTIVE" using lc_tidy_active [OF i(1) accepted(5)] accepted(6) by simp
  then have "owner_approved rt cfg e" "closed_policy rt cfg e" "life (le_generation e) (lr_receipts r) = TO_STAGED @ [T_ACTIVATED]"
    using i(2) by (simp_all add: entry_ok_def before_approval_def)
  with accepted st show ?thesis by blast
qed simp

lemma demo_used: "lc_assertUseBinding lc_rt demo_cfg active_manager demo_use = (active_manager, Inr ())"
proof -
  note demo_fence_use
  moreover have "lc_load lc_rt demo_cfg active_manager = Inr (Some (demo_record 6), active_manager)"
    unfolding active_manager_def by (rule demo_load) simp_all
  moreover have "active_manager\<lparr>lm_fence := fst demo_switch\<rparr> = active_manager"
    by (simp add: active_manager_def demo_manager_def)
  ultimately show ?thesis
    by (simp add: lc_assertUseBinding_def demo_use_def int_or_null_def demo_record_def active_manager_def)
qed

theorem lifecycle_use_witness:
  "\<exists>r e. lm_memory active_manager = Some r \<and> e \<in> set (lr_entries r) \<and> le_state e = ENTRY_ACTIVE
     \<and> owner_approved lc_rt demo_cfg e \<and> closed_policy lc_rt demo_cfg e
     \<and> lc_assertUseBinding lc_rt demo_cfg active_manager demo_use = (active_manager, Inr ())"
  using lifecycle_use_is_authorised [OF demo_active_reach demo_used] demo_used by blast

text \<open>
  C13: A generation that is retired or revoked is so for good: after any further sequence of operations its
  entry is in the same state, and no use of it is accepted.
\<close>

theorem final_generation_unusable:
  assumes "lc_reach rt cfg m" "e \<in> set (lr_entries (lc_rec m))" "le_state e = RETIRED \<or> le_state e = REVOKED"
    and "(lc_step rt cfg)\<^sup>*\<^sup>* m m'" "ub_policyGeneration b = jint (le_generation e)"
  shows "(\<exists>y \<in> set (lr_entries (lc_rec m')). le_generation y = le_generation e \<and> le_state y = le_state e)
    \<and> (\<exists>er. lc_assertUseBinding rt cfg m' b = (m', Inl er))"
proof
  have f: "le_state e \<in> set final_states" using assms(3) by (auto simp: final_states_def)
  note k = final_kept [OF assms(4) lc_reach_inv [OF assms(1)] assms(2) f]
  then obtain y where i: "lc_inv rt cfg m'" and y: "y \<in> set (lr_entries (lc_rec m'))" "le_generation y = le_generation e"
    "le_state y = le_state e" by blast
  from k show "\<exists>y \<in> set (lr_entries (lc_rec m')). le_generation y = le_generation e \<and> le_state y = le_state e" by blast
  obtain m2 x where u: "lc_assertUseBinding rt cfg m' b = (m2, x)" by (cases "lc_assertUseBinding rt cfg m' b")
  from u i show "\<exists>er. lc_assertUseBinding rt cfg m' b = (m', Inl er)"
  proof (cases rule: lc_use_cases)
    case (denied er)
    with u show ?thesis by blast
  next
    case (accepted r fr z)
    have rec: "lc_rec m' = r" using accepted(3) by (simp add: lc_rec_def)
    have t: "lc_tidy r" using i by (simp add: lc_inv_def lc_record_inv_def rec)
    have "le_generation z = le_generation y" using accepted(9) assms(5) y(2) by simp
    with lc_tidy_same [OF t accepted(5) y(1) [unfolded rec]] have "z = y" by simp
    moreover have "le_state z = ENTRY_ACTIVE" using lc_tidy_active [OF t accepted(5)] accepted(6) by simp
    ultimately show ?thesis using y(3) assms(3) by auto
  qed
qed

subsection \<open>Revocation works\<close>

lemma found_entry:
  assumes "lc_tidy r" "lc_valid rt r" "e \<in> set (lr_entries r)"
  shows "lc_entryFor (Some r) (jint (le_generation e)) = Inr e"
proof -
  have g: "isGeneration (jint (le_generation e))" using assms(2,3) by (auto simp: lc_valid_def entry_valid_def)
  obtain x where x: "List.find (\<lambda>x. le_generation x = le_generation e) (lr_entries r) = Some x"
    using assms(3) by (cases "List.find (\<lambda>x. le_generation x = le_generation e) (lr_entries r)") (auto simp: find_None_all)
  from find_Some_in [OF x] lc_tidy_same [OF assms(1) _ assms(3)] have "x = e" by blast
  with g x show ?thesis by (simp add: lc_entryFor_def)
qed

lemma withEntry_found:
  assumes "lc_inv rt cfg m" "e \<in> set (lr_entries (lc_rec m))"
  shows "withEntry rt cfg m (jint (le_generation e)) body = body m (lc_rec m) e"
proof -
  have i: "lc_sync rt cfg m" "lc_tidy (lc_rec m)" using assms(1) by (simp_all add: lc_inv_def lc_record_inv_def)
  have "lm_memory m = Some (lc_rec m)"
    using assms(2) by (cases "lm_memory m") (simp_all add: lc_rec_def empty_record_def)
  with found_entry [OF i(2) lc_sync_valid [OF i(1)] assms(2)] show ?thesis
    by (simp add: withEntry_def lc_load_sync [OF i(1)])
qed

lemma nextRecord_succeeds:
  assumes "rx_test OPERATION_ID_PATTERN op" "op \<notin> rc_operationId ` set (lr_receipts r)" "isTime (jint now)"
  obtains r' rc where "nextRecord rt now r e (JStr op) tr from to det = Inr (r', rc)"
proof -
  have "\<not> list_ex (\<lambda>x. rc_operationId x = op) (lr_receipts r)" using assms(2) by (auto simp: list_ex_iff)
  with assms(1,3) that show thesis by (simp add: nextRecord_def Let_def del: rx_test.simps)
qed

lemma commit_succeeds:
  assumes "lc_inv rt cfg m" "lc_move rt cfg (lc_rec m) rc r" "good_digests rt"
    "is_safe_integer (jint (lr_revision (lc_rec m) + 1))" "writes env"
  obtains m' where "commit rt cfg env m2 (Inr (r, rc)) = (m', Inr rc)" "lc_rec m' = r"
  using move_persists [OF assms(1-4), of env m2] assms(5) that by (simp add: commit_def lc_rec_def)

lemma freeze_succeeds:
  assumes "fence_tells rt cfg m" "fence_memory (lm_fence m) \<noteq> None" "reason \<in> set FREEZE_REASONS"
    "isTime (jint now)" "good_digests rt"
  obtains w fr where "freezeDispatch (base_rt rt) (fenceToken cfg) True now (lm_fence m) reason = (w, Inr fr)"
  using assms(1)
proof (cases rule: fence_of_manager)
  case none
  with assms(2) show thesis by (simp add: empty_fence_def)
next
  case (some fr ss)
  have ok: "fence_ok (base_rt rt) fr" by (rule fence_held_ok [OF some(1)])
  have m: "fence_memory (lm_fence m) = Some fr" by (rule fence_holds_memory [OF some(1)])
  define core where "core = (fence_record_core.truncate fr)\<lparr>fr_status := FENCE_FROZEN, fr_reasonCode := Some reason,
     fr_frozenAtMs := Some now, fr_fallbackGeneration := fc_generation (fr_lastKnownSafe fr)\<rparr>"
  have "fence_ok (base_rt rt) core"
    using ok assms(3,4) by (simp add: fence_ok_def dispatch_ok_def core_def fence_record_core.defs)
  then obtain w where "fence_store (base_rt rt) (fenceToken cfg) True (lm_fence m) core = Inr w"
    using fence_store_own [of "base_rt rt" core "fenceToken cfg" True "lm_fence m"] assms(5)
    by (auto simp: good_digests_def runtime.defs)
  with m assms(3,4) that show thesis by (simp add: freezeDispatch_def core_def)
qed

text \<open>
  C22: In every life of a manager an active, staged or superseded generation can be revoked: with a well-formed
  reason, a fresh operation identifier, valid clock readings and files that can be written, the revocation
  succeeds (the log being countable, digests hexadecimal, the fence having been activated once), the
  entry is revoked, and where it was the active one no use at all is accepted afterwards.
\<close>

theorem revocation_succeeds:
  assumes "lc_reach rt cfg m" "e \<in> set (lr_entries (lc_rec m))"
    and "le_state e = ENTRY_ACTIVE \<or> le_state e = STAGED \<or> le_state e = SUPERSEDED"
    and "rx_test REASON_CODE_PATTERN reason" "rx_test OPERATION_ID_PATTERN op"
    and "op \<notin> rc_operationId ` set (lr_receipts (lc_rec m))"
    and "isTime (jint (clock env 0))" "isTime (jint (fence_clock env))" "writes env" "fence_writes env"
    and "good_digests rt" "is_safe_integer (jint (lr_revision (lc_rec m) + 1))" "fence_memory (lm_fence m) \<noteq> None"
  shows "\<exists>m' rc. lc_revoke rt cfg env m (jint (le_generation e)) (JStr op) (JStr reason) = (m', Inr rc)
    \<and> (\<exists>y \<in> set (lr_entries (lc_rec m')). le_generation y = le_generation e \<and> le_state y = REVOKED)
    \<and> (le_state e = ENTRY_ACTIVE \<longrightarrow> (\<forall>b. \<exists>er. lc_assertUseBinding rt cfg m' b = (m', Inl er)))"
proof -
  note i = lc_reach_inv [OF assms(1)]
  have t: "lc_tidy (lc_rec m)" and ft: "fence_tells rt cfg m" using i by (simp_all add: lc_inv_def lc_record_inv_def)
  let ?g = "le_generation e" and ?r = "revoked_record (le_generation e) (lc_rec m)"
  define needed where "needed \<longleftrightarrow> lr_activeGeneration (lc_rec m) = Some ?g"
  define det where "det = obj [(''reasonCode'', JStr reason), (''activeRevocation'', JBool needed)]"
  have fresh: "op \<notin> rc_operationId ` set (lr_receipts ?r)" using assms(6) by simp
  obtain r2 rc where n: "nextRecord rt (clock env 0) ?r e (JStr op) T_REVOKED (Some (le_state e)) REVOKED det = Inr (r2, rc)"
    by (rule nextRecord_succeeds [OF assms(5) fresh assms(7)])
  note nr = nextRecord_Inr [OF n]
  have mv: "lc_move rt cfg (lc_rec m) rc r2"
    using move_revoked [of rt "lc_rec m" rc e cfg] nr assms(2,3) by auto
  have fr: "''OPERATOR_ROLLBACK'' \<in> set FREEZE_REASONS" by (simp add: FREEZE_REASONS_def)
  obtain m2 where f: "with_freeze rt cfg env needed ''OPERATOR_ROLLBACK'' m body = body m2" for body :: "lc_manager \<Rightarrow> lc_manager \<times> lc_receipt res"
  proof (cases needed)
    case True
    obtain w fr where "freezeDispatch (base_rt rt) (fenceToken cfg) True (fence_clock env) (lm_fence m) ''OPERATOR_ROLLBACK'' = (w, Inr fr)"
      by (rule freeze_succeeds [OF ft assms(13) fr assms(8,11)])
    with True assms(10) that [of "m\<lparr>lm_fence := w\<rparr>"] show thesis by (simp add: with_freeze_def)
  qed (use that [of m] in \<open>simp add: with_freeze_def\<close>)
  obtain m' where c: "commit rt cfg env m2 (Inr (r2, rc)) = (m', Inr rc)" "lc_rec m' = r2"
    by (rule commit_succeeds [OF i mv assms(11,12,9)])
  have rv: "lc_revoke rt cfg env m (jint ?g) (JStr op) (JStr reason) = (m', Inr rc)"
    using assms(3,4) c(1) n f
    by (auto simp: lc_revoke_def withEntry_found [OF i assms(2)] Let_def needed_def det_def simp del: rx_test.simps)
  moreover have "\<exists>y \<in> set (lr_entries (lc_rec m')). le_generation y = ?g \<and> le_state y = REVOKED"
    using assms(2) unfolding c(2) nr(1) by (intro bexI [of _ "e\<lparr>le_state := REVOKED\<rparr>"]) (auto simp: set_entry_def)
  moreover have "\<exists>er. lc_assertUseBinding rt cfg m' b = (m', Inl er)" if a: "le_state e = ENTRY_ACTIVE" for b
  proof -
    have i': "lc_inv rt cfg m'" by (rule lc_step_inv [OF step_revoke [OF rv] i])
    have none: "lr_activeGeneration (lc_rec m') = None"
      using lc_tidy_active [OF t assms(2)] a by (simp add: c(2) nr(1) revoked_record_def)
    obtain m3 x where u: "lc_assertUseBinding rt cfg m' b = (m3, x)" by (cases "lc_assertUseBinding rt cfg m' b")
    from u i' show ?thesis
    proof (cases rule: lc_use_cases)
      case (denied er)
      with u show ?thesis by blast
    next
      case (accepted r fr z)
      with none show ?thesis by (simp add: lc_rec_def)
    qed
  qed
  ultimately show ?thesis by blast
qed

definition demo_reason :: string where
  "demo_reason = ''OPERATOR_REQUEST''"

lemma demo_reason_ok: "rx_test REASON_CODE_PATTERN demo_reason"
  unfolding REASON_CODE_PATTERN_def demo_reason_def rx_test_class_Seq rx_test_class_rep
  by (simp add: in_class_def A_Z_def d0_9_def chars_def)

lemma demo_good: "good_digests lc_rt"
  by (simp add: good_digests_def)

lemma active_record: "lc_rec active_manager = demo_record 6"
  by (simp add: lc_rec_def active_manager_memory)

lemma active_fence: "fence_memory (lm_fence active_manager) \<noteq> None"
proof -
  obtain fr where "fence_holds (base_rt lc_rt) (fenceToken demo_cfg) (fst demo_switch) fr" using demo_switched by blast
  then show ?thesis by (simp add: active_manager_def fence_holds_def)
qed

lemma demo_fresh: "demo_op 6 \<notin> rc_operationId ` set (lr_receipts (lc_rec active_manager))"
proof -
  have "lr_receipts (lc_rec active_manager) = demo_log 6" by (simp add: active_record demo_record_def)
  moreover have "demo_op 6 \<notin> set (map rc_operationId (demo_log 6))"
    unfolding demo_log_simps by (auto simp: demo_op_inj)
  ultimately show ?thesis by (metis set_map)
qed

theorem revocation_witness:
  "\<exists>m' rc. lc_revoke lc_rt demo_cfg demo_env active_manager (jint 1) (JStr (demo_op 6)) (JStr demo_reason) = (m', Inr rc)
    \<and> (\<exists>y \<in> set (lr_entries (lc_rec m')). le_generation y = 1 \<and> le_state y = REVOKED)
    \<and> (\<forall>b. \<exists>er. lc_assertUseBinding lc_rt demo_cfg m' b = (m', Inl er))"
  using revocation_succeeds [OF demo_active_reach _ _ demo_reason_ok demo_op_ok demo_fresh _ _ _ _ demo_good _ active_fence,
      of "demo_entry ENTRY_ACTIVE" demo_env]
  by (simp add: active_record active_entry isTime_def max_safe_def demo_record_def demo_states_def)

text \<open>The same revocation without the property, for the properties that start from a revoked generation.\<close>

lemma demo_revoked:
  "\<exists>m' rc y. lc_revoke lc_rt demo_cfg demo_env (demo_manager 5 empty_fence) (jint 1) (JStr (demo_op 6)) (JStr demo_reason)
      = (m', Inr rc) \<and> y \<in> set (lr_entries (lc_rec m')) \<and> le_generation y = 1 \<and> le_state y = REVOKED"
proof -
  let ?m = "demo_manager 5 empty_fence" and ?e = "demo_entry STAGED"
  have rec: "lc_rec ?m = demo_record 5" by (simp add: lc_rec_def demo_manager_def)
  have i: "lc_inv lc_rt demo_cfg ?m" by (rule lc_reach_inv [OF demo_staged])
  have e: "?e \<in> set (lr_entries (lc_rec ?m))" by (simp add: rec demo_record_def demo_states_def)
  have v: "revoked_record 1 (demo_record 5) = demo_record 5" by (simp add: revoked_record_def)
  have "demo_op 6 \<notin> set (map rc_operationId (demo_log 5))"
    unfolding demo_log_simps by (auto simp: demo_op_inj)
  moreover have "lr_receipts (demo_record 5) = demo_log 5" by (simp add: demo_record_def)
  ultimately have fresh: "demo_op 6 \<notin> rc_operationId ` set (lr_receipts (demo_record 5))" by (metis set_map)
  have t: "isTime (jint 1000)" by (simp add: isTime_def max_safe_def)
  have op: "rx_test OPERATION_ID_PATTERN (demo_op 6)" by (rule demo_op_ok) simp
  obtain r2 rc where n: "nextRecord lc_rt 1000 (demo_record 5) ?e (JStr (demo_op 6)) T_REVOKED (Some STAGED) REVOKED
      (obj [(''reasonCode'', JStr demo_reason), (''activeRevocation'', JBool False)]) = Inr (r2, rc)"
    by (rule nextRecord_succeeds [OF op fresh t])
  note nr = nextRecord_Inr [OF n]
  have mv: "lc_move lc_rt demo_cfg (lc_rec ?m) rc r2"
    using move_revoked [of lc_rt "demo_record 5" rc ?e demo_cfg] nr e by (simp add: rec v)
  have safe: "is_safe_integer (jint (lr_revision (lc_rec ?m) + 1))" by (simp add: rec demo_record_def max_safe_def)
  obtain m' where c: "commit lc_rt demo_cfg demo_env ?m (Inr (r2, rc)) = (m', Inr rc)" "lc_rec m' = r2"
    by (rule commit_succeeds [OF i mv demo_good safe demo_env_simps(3)])
  have "lc_revoke lc_rt demo_cfg demo_env ?m (jint 1) (JStr (demo_op 6)) (JStr demo_reason) = (m', Inr rc)"
    using c(1) n demo_reason_ok
    by (simp add: lc_revoke_def demo_withEntry demo_states_def with_freeze_def v Let_def del: rx_test.simps)
  moreover have "?e\<lparr>le_state := REVOKED\<rparr> \<in> set (lr_entries (lc_rec m'))"
    by (simp add: c(2) nr(1) set_entry_def demo_record_def demo_states_def)
  ultimately show ?thesis by (intro exI [of _ m'] exI [of _ rc] exI [of _ "?e\<lparr>le_state := REVOKED\<rparr>"]) simp
qed

theorem final_generation_witness:
  "\<exists>m. lc_reach lc_rt demo_cfg m \<and> (\<exists>e \<in> set (lr_entries (lc_rec m)). le_state e = REVOKED)
     \<and> (\<exists>er. lc_assertUseBinding lc_rt demo_cfg m demo_use = (m, Inl er))"
proof -
  obtain m rc e where r: "lc_revoke lc_rt demo_cfg demo_env (demo_manager 5 empty_fence) (jint 1) (JStr (demo_op 6))
      (JStr demo_reason) = (m, Inr rc)" and e: "e \<in> set (lr_entries (lc_rec m))" "le_generation e = 1" "le_state e = REVOKED"
    using demo_revoked by blast
  have m: "lc_reach lc_rt demo_cfg m" by (rule lc_reach_step [OF demo_staged step_revoke [OF r]])
  have b: "ub_policyGeneration demo_use = jint (le_generation e)" by (simp add: demo_use_def e(2))
  from final_generation_unusable [OF m e(1) disjI2 [OF e(3)] rtranclp.rtrancl_refl b] m e show ?thesis by blast
qed

text \<open>After a diverged activation the fence runs the generation, frozen or not.\<close>

lemma switched_active: "switched_by rt cfg w w' s \<Longrightarrow> \<exists>fr. fence_memory w' = Some fr \<and> fr_active fr = s"
  unfolding switched_by_def
  by (elim exE conjE, erule fence_activate_cases) (auto simp: fence_holds_def)

lemma frozen_active:
  assumes "frozen_by rt cfg w w'" "fence_memory w = Some fr"
  shows "\<exists>fr'. fence_memory w' = Some fr' \<and> fr_active fr' = fr_active fr"
  using assms unfolding frozen_by_def
  by (elim exE, elim freezeDispatch_cases) (auto simp: fence_holds_def)

lemma diverged_active:
  assumes "activation_diverged rt cfg m m' e" "fence_memory (lm_fence m') = Some fr"
  shows "snapshot_of (fr_active fr) e"
proof -
  obtain w s where w: "switched_by rt cfg (lm_fence m) w s" "snapshot_of s e"
    "lm_fence m' = w \<or> frozen_by rt cfg w (lm_fence m')"
    using assms(1) by (auto simp: activation_diverged_def)
  from switched_active [OF w(1)] obtain f where "fence_memory w = Some f" "fr_active f = s" by blast
  with w(3) frozen_active [of rt cfg w "lm_fence m'" f] assms(2) have "fr_active fr = s" by auto
  with w(2) show ?thesis by simp
qed

text \<open>
  C9: In every life of a manager an activation has one of three outcomes. It is refused and nothing changed; it
  succeeds, and record and fence run the same generation; or it is refused after the fence has already switched to the
  generation. In the last case the record still says that the generation is staged, and no use at all
  is accepted: neither of the generation before nor of the new one.
\<close>

theorem activation_fails_closed:
  assumes "lc_reach rt cfg m" "lc_activate rt cfg env m generation op = (m', x)"
  shows "case x of
      Inr (rc, p) \<Rightarrow> \<exists>e. generation = jint (le_generation e) \<and> activation_completed rt cfg m m' rc (ap_snapshot p) e
    | Inl er \<Rightarrow> m' = m \<or> (\<exists>e. generation = jint (le_generation e) \<and> activation_diverged rt cfg m m' e
        \<and> (\<forall>b. \<exists>er. lc_assertUseBinding rt cfg m' b = (m', Inl er)))"
proof -
  note i = lc_reach_inv [OF assms(1)]
  then have s: "lc_sync rt cfg m" "lc_tidy (lc_rec m)" by (simp_all add: lc_inv_def lc_record_inv_def)
  from assms(2) s show ?thesis
  proof (cases rule: lc_activate_cases)
    case (diverged er e)
    have i': "lc_inv rt cfg m'" by (rule activation_inv [OF assms(2) i])
    from diverged(3) have d: "lc_rec m' = lc_rec m" "e \<in> set (lr_entries (lc_rec m))" "le_state e = STAGED"
      by (auto simp: activation_diverged_def lc_stays_sync)
    have "\<exists>er. lc_assertUseBinding rt cfg m' b = (m', Inl er)" for b
    proof -
      obtain m2 y where u: "lc_assertUseBinding rt cfg m' b = (m2, y)" by (cases "lc_assertUseBinding rt cfg m' b")
      from u i' show ?thesis
      proof (cases rule: lc_use_cases)
        case (denied er)
        with u show ?thesis by blast
      next
        case (accepted r fr z)
        have rec: "lc_rec m = r" using accepted(3) d(1) by (simp add: lc_rec_def)
        have "fc_generation (fr_active fr) = le_generation e"
          using diverged_active [OF diverged(3) accepted(4)] by (simp add: snapshot_of_def)
        then have "z = e" using lc_tidy_same [OF s(2)] accepted(5,10) d(2) rec by (simp add: snapshot_of_def)
        moreover have "le_state z = ENTRY_ACTIVE"
          using lc_tidy_active [OF s(2) [unfolded rec] accepted(5)] accepted(6) by simp
        ultimately show ?thesis using d(3) by simp
      qed
    qed
    with diverged show ?thesis by auto
  qed auto
qed

definition diverged_manager :: lc_manager where
  "diverged_manager = (demo_manager 5 empty_fence)\<lparr>lm_fence := fst demo_switch\<rparr>"

lemma demo_diverged:
  "lc_activate lc_rt demo_cfg demo_env (demo_manager 5 empty_fence) (jint 1) (JStr (demo_op 0))
    = (diverged_manager, Inl ''POLICY_LIFECYCLE_OPERATION_REPLAY_DENIED'')"
proof -
  have f: "fence_activate (base_rt lc_rt) (fenceToken demo_cfg) True 1000 empty_fence
     (fence_candidate_js demo_candidate) demo_authorization = (fst demo_switch, Inr demo_active)"
    by (metis demo_switch_def demo_switch_pair)
  have e: "lc_entryFor (Some (activated_record 1 (demo_record 5))) (jint 1) = Inr (demo_entry ENTRY_ACTIVE)"
    by (rule demo_found)
      (simp_all add: demo_record_def demo_states_def eval_nat_numeral activated_entry_def demo_entry_next)
  have "list_ex (\<lambda>x. rc_operationId x = demo_op 0) (demo_log 5)"
    by (simp add: eval_nat_numeral demo_receipt_def)
  then have n: "nextRecord lc_rt 1000 (activated_record 1 (demo_record 5)) (demo_entry ENTRY_ACTIVE) (JStr (demo_op 0))
      T_ACTIVATED (Some STAGED) ENTRY_ACTIVE det = Inl ''POLICY_LIFECYCLE_OPERATION_REPLAY_DENIED''" for det
    using demo_op_ok [of 0] by (simp add: nextRecord_def demo_record_def del: rx_test.simps)
  show ?thesis
    unfolding lc_activate_def
    by (simp add: demo_withEntry demo_states_def demo_tt demo_still_approved before_approval_def demo_created
      demo_authorized res_simps Let_def f e n diverged_manager_def)
qed

theorem activation_fails_closed_witness:
  "lc_activate lc_rt demo_cfg demo_env (demo_manager 5 empty_fence) (jint 1) (JStr (demo_op 0))
      = (diverged_manager, Inl ''POLICY_LIFECYCLE_OPERATION_REPLAY_DENIED'')
   \<and> diverged_manager \<noteq> demo_manager 5 empty_fence
   \<and> (\<forall>b. \<exists>er. lc_assertUseBinding lc_rt demo_cfg diverged_manager b = (diverged_manager, Inl er))"
proof -
  have "fst demo_switch \<noteq> empty_fence"
    using active_fence by (auto simp: active_manager_def empty_fence_def)
  then have d: "diverged_manager \<noteq> demo_manager 5 empty_fence" by (simp add: diverged_manager_def demo_manager_def)
  with activation_fails_closed [OF demo_staged demo_diverged] demo_diverged show ?thesis by auto
qed

subsection \<open>Issued artifacts\<close>

lemma issued_artifact:
  assumes "createSignedPolicyArtifact rt secret q = Inr artifact"
  obtains policy where "parse_json rt (aq_policyBytes q) = Some policy" "validateLifecyclePolicyShape policy"
    "validateArtifactStructure rt artifact = Some (aq_policyBytes q, policy)"
    "artifact = obj (artifact_core rt q policy @ [(''signature'', obj [(''algorithm'', JStr ''Ed25519''),
       (''valueBase64'', JStr (to_base64 (sign_text rt secret (gateJson (obj (artifact_core rt q policy))))))])])"
proof -
  obtain policy where p: "parse_json rt (aq_policyBytes q) = Some policy" "validateLifecyclePolicyShape policy"
    and a: "artifact = obj (artifact_core rt q policy @ [(''signature'', obj [(''algorithm'', JStr ''Ed25519''),
       (''valueBase64'', JStr (to_base64 (sign_text rt secret (gateJson (obj (artifact_core rt q policy))))))])])"
    and v: "validateArtifactStructure rt artifact \<noteq> None"
    using assms by (auto simp: createSignedPolicyArtifact_def Let_def simp del: gateJson.simps to_base64.simps
      split: if_splits option.splits)
  obtain b where b: "validateArtifactStructure rt artifact = Some b" using v by blast
  have s: "getf (fields_of artifact) ''policySourceBase64'' = JStr (to_base64 (aq_policyBytes q))"
    unfolding a by (simp add: artifact_core_def del: gateJson.simps to_base64.simps)
  have d: "from_base64 (to_base64 (aq_policyBytes q)) = Some (aq_policyBytes q)" by (simp add: from_base64_iff del: to_base64.simps)
  from b have "decodePolicy rt (JStr (to_base64 (aq_policyBytes q))) = Some b"
    unfolding validateArtifactStructure_def Let_def s
    by (auto simp del: gateJson.simps to_base64.simps split: if_splits option.splits prod.splits)
  then have "b = (aq_policyBytes q, policy)"
    using p(1) by (auto simp: decodePolicy_def d simp del: to_base64.simps split: if_splits)
  with b p a that show thesis by simp
qed

text \<open>
  An artifact that was issued verifies, to the policy it was issued for: if the trust store holds, for its issuer and
  key, a public key that parses and accepts the signatures of the private key, and a signature is never
  empty, then every artifact \<open>createSignedPolicyArtifact\<close> returns is accepted by
  \<open>verifyArtifact\<close>, which returns the bytes and the policy of the request.
\<close>

theorem issued_artifact_verifies:
  assumes "createSignedPolicyArtifact rt secret q = Inr artifact"
    and "trust (str_of (aq_issuer q)) (str_of (aq_keyId q)) = Some public" "spki_digest rt public = Some d"
    and "\<And>t. verify_sig rt public t (sign_text rt secret t)" "\<And>t. sign_text rt secret t \<noteq> []"
  shows "\<exists>v. verifyArtifact rt artifact trust = Inr v \<and> vf_bytes v = aq_policyBytes q
    \<and> parse_json rt (aq_policyBytes q) = Some (vf_policy v) \<and> validateLifecyclePolicyShape (vf_policy v)"
proof -
  from assms(1) obtain policy where p: "parse_json rt (aq_policyBytes q) = Some policy" "validateLifecyclePolicyShape policy"
    and v: "validateArtifactStructure rt artifact = Some (aq_policyBytes q, policy)"
    and a: "artifact = obj (artifact_core rt q policy @ [(''signature'', obj [(''algorithm'', JStr ''Ed25519''),
       (''valueBase64'', JStr (to_base64 (sign_text rt secret (gateJson (obj (artifact_core rt q policy))))))])])"
    by (rule issued_artifact)
  let ?text = "gateJson (obj (artifact_core rt q policy))"
  have f: "getf (fields_of artifact) ''issuer'' = aq_issuer q" "getf (fields_of artifact) ''keyId'' = aq_keyId q"
    "getf (fields_of (getf (fields_of artifact) ''signature'')) ''valueBase64'' = JStr (to_base64 (sign_text rt secret ?text))"
    "without ''signature'' (fields_of artifact) = artifact_core rt q policy"
    unfolding a by (simp_all add: artifact_core_def without_def del: gateJson.simps to_base64.simps)
  have d: "from_base64 (to_base64 s) = Some s" for s by (simp add: from_base64_iff del: to_base64.simps)
  have "verifyArtifact rt artifact trust = Inr \<lparr>vf_bytes = aq_policyBytes q, vf_policy = policy,
      vf_trustDigest = json_digest rt (obj [(''issuer'', JStr (str_of (aq_issuer q))),
        (''keyId'', JStr (str_of (aq_keyId q))), (''publicKeyDigest'', JStr d)])\<rparr>"
    unfolding verifyArtifact_def v Let_def f
    using assms(2-5) by (simp add: trustSnapshot_def res_simps d del: gateJson.simps to_base64.simps)
  with p show ?thesis by simp
qed

theorem issued_artifact_witness:
  "\<exists>artifact v. createSignedPolicyArtifact lc_rt ''secret'' demo_request = Inr artifact
     \<and> verifyArtifact lc_rt artifact (\<lambda>_ _. Some ''key'') = Inr v \<and> vf_policy v = demo_policy"
proof -
  have "createSignedPolicyArtifact lc_rt ''secret'' demo_request = Inr demo_artifact"
    using demo_structure
    by (simp add: createSignedPolicyArtifact_def Let_def demo_policy_shape demo_request_def MAX_POLICY_BYTES_def
      demo_artifact_def demo_signature_def del: gateJson.simps to_base64.simps)
  from this issued_artifact_verifies [OF this, of "\<lambda>_ _. Some ''key''" "''key''" zeros] show ?thesis
    by auto
qed

end
