(* ===== verification/ApprovalSnapshot.thy ===== *)
theory ApprovalSnapshot
  imports RuntimeGate
begin

text \<open>
  \<open>demo/runtime/authoritative-approval-snapshot.mjs\<close>: what the provider shows of the orders that
  match a planned order, as it is bound into an approval, and the business difference an owner
  decides on.
\<close>

definition APPROVAL_SNAPSHOT_SCHEMA :: string where
  "APPROVAL_SNAPSHOT_SCHEMA = ''chimpmaera.demo/authoritative-approval-snapshot/v1''"
definition BUSINESS_DIFF_SCHEMA :: string where
  "BUSINESS_DIFF_SCHEMA = ''chimpmaera.demo/business-diff/v2''"
definition APPROVAL_REQUESTER :: string where
  "APPROVAL_REQUESTER = ''requester:local-demo''"
definition APPROVAL_PURPOSE :: string where
  "APPROVAL_PURPOSE = ''CREATE_SYNTHETIC_SALES_ORDER''"
definition MATERIAL_FIELDS :: "string list" where
  "MATERIAL_FIELDS = [''customerReference'', ''customerId'', ''orderDateEpoch'']"

definition AGENT :: string where
  "AGENT = ''agent:admin-ai-poc''"
definition RUNTIME_TENANT :: string where
  "RUNTIME_TENANT = ''panskys-zoo-demo''"
definition ORDER_REFERENCE :: string where
  "ORDER_REFERENCE = ''CM-ADMIN-AI-ESCALATION-001''"
definition ORDER_CUSTOMER :: int where
  "ORDER_CUSTOMER = 7"
definition ORDER_DATE :: int where
  "ORDER_DATE = 1767225600"

definition SNAPSHOT_INVALID :: string where
  "SNAPSHOT_INVALID = ''APPROVAL_SNAPSHOT_INVALID_DENIED''"
definition SNAPSHOT_SOURCE_INVALID :: string where
  "SNAPSHOT_SOURCE_INVALID = ''APPROVAL_SNAPSHOT_SOURCE_INVALID_DENIED''"

text \<open>A property of a property, as \<open>v?.k?.l\<close> reads it.\<close>

definition fld2 :: "js \<Rightarrow> string \<Rightarrow> string \<Rightarrow> js" where
  "fld2 v k l = getf (fields_of (getf (fields_of v) k)) l"

definition assertAction :: "js \<Rightarrow> bool" where
  "assertAction action \<longleftrightarrow>
     (let f = getf (fields_of action); scope = fld2 action ''scope''; payload = fld2 action ''payload'';
          body = getf (fields_of (payload ''body'')) in
      f ''actionType'' = JStr ''PROVIDER_MUTATION'' \<and> f ''actor'' = JStr AGENT
      \<and> scope ''provider'' = JStr ''dolibarr'' \<and> scope ''tenant'' = JStr RUNTIME_TENANT
      \<and> scope ''entity'' = JStr ''Order'' \<and> scope ''operation'' = JStr ''CREATE_IF_ABSENT''
      \<and> payload ''method'' = JStr ''POST'' \<and> payload ''path'' = JStr ''/orders''
      \<and> body ''ref_client'' = JStr ORDER_REFERENCE \<and> body ''socid'' = jint ORDER_CUSTOMER
      \<and> body ''date'' = jint ORDER_DATE)"

text \<open>
  \<open>Number(v)\<close>, given the number \<open>number_text\<close> reads from a text. The text of an object is no numeral (or its
  conversion throws); both are refused by every comparison with a number.
\<close>

definition js_number :: "(string \<Rightarrow> jsnum) \<Rightarrow> js \<Rightarrow> jsnum" where
  "js_number number_text v =
     (case v of
        JUndef \<Rightarrow> NNonFinite
      | JNull \<Rightarrow> NInt 0
      | JBool b \<Rightarrow> NInt (if b then 1 else 0)
      | JNum n \<Rightarrow> n
      | JObj i kvs \<Rightarrow> NNonFinite
      | JOdd i \<Rightarrow> NNonFinite
      | _ \<Rightarrow> number_text (to_string v))"

definition isRecordId :: "js \<Rightarrow> bool" where
  "isRecordId v \<longleftrightarrow> is_safe_integer v \<and> \<not> int_of_js v < 1"

definition normalizeMatch :: "(string \<Rightarrow> jsnum) \<Rightarrow> js \<Rightarrow> js res" where
  "normalizeMatch number_text record =
     (let f = getf (fields_of record) in
      if \<not> gateKeys record [''date'', ''id'', ''ref_client'', ''socid''] then Inl SNAPSHOT_SOURCE_INVALID
      else if \<not> isRecordId (f ''id'') \<or> f ''ref_client'' \<noteq> JStr ORDER_REFERENCE
        \<or> js_number number_text (f ''socid'') \<noteq> NInt ORDER_CUSTOMER
        \<or> js_number number_text (f ''date'') \<noteq> NInt ORDER_DATE then Inl SNAPSHOT_SOURCE_INVALID
      else Inr (obj [(''id'', f ''id''), (''customerReference'', f ''ref_client''),
             (''customerId'', JNum (js_number number_text (f ''socid''))),
             (''orderDateEpoch'', JNum (js_number number_text (f ''date'')))]))"

definition match_id :: "js \<Rightarrow> js" where
  "match_id m = getf (fields_of m) ''id''"

definition sort_matches :: "js list \<Rightarrow> js list" where
  "sort_matches = sort_key (int_of_js \<circ> match_id)"

definition version_core :: "js \<Rightarrow> js \<Rightarrow> js \<Rightarrow> js \<Rightarrow> js \<Rightarrow> js \<Rightarrow> js" where
  "version_core provider tenant entity query materialFields matches =
     obj [(''provider'', provider), (''tenant'', tenant), (''entity'', entity), (''query'', query),
       (''materialFields'', materialFields), (''matches'', matches)]"

definition createAuthoritativeApprovalSnapshot :: "'a runtime_scheme \<Rightarrow> (string \<Rightarrow> jsnum) \<Rightarrow> js \<Rightarrow> js \<Rightarrow> js res" where
  "createAuthoritativeApprovalSnapshot rt number_text action records =
     (let scope = fld2 action ''scope''; body = getf (fields_of (fld2 action ''payload'' ''body'')) in
      if \<not> assertAction action then Inl ''APPROVAL_SNAPSHOT_ACTION_INVALID_DENIED''
      else if \<not> is_array records \<or> length (elems_of records) > 2 then Inl SNAPSHOT_SOURCE_INVALID
      else
        res_bind (map_res (normalizeMatch number_text) (elems_of records)) (\<lambda>normalized.
          let matches = sort_matches normalized in
          if length (uniq (map match_id matches)) \<noteq> length matches then Inl SNAPSHOT_SOURCE_INVALID
          else
            (let query = obj [(''field'', JStr ''customerReference''), (''operator'', JStr ''EXACT''),
                   (''value'', body ''ref_client''), (''limit'', jint 2)];
                 versionCore = version_core (scope ''provider'') (scope ''tenant'') (scope ''entity'') query
                   (strs_js MATERIAL_FIELDS) (arr matches);
                 core = [(''schemaVersion'', JStr APPROVAL_SNAPSHOT_SCHEMA), (''provider'', scope ''provider''),
                   (''tenant'', scope ''tenant''), (''entity'', scope ''entity''),
                   (''requester'', JStr APPROVAL_REQUESTER), (''purpose'', JStr APPROVAL_PURPOSE),
                   (''query'', query), (''complete'', JBool True), (''truncated'', JBool False),
                   (''materialFields'', strs_js MATERIAL_FIELDS), (''matches'', arr matches),
                   (''version'', JStr (json_digest rt versionCore))]
             in Inr (obj (core @ [(''snapshotDigest'', JStr (json_digest rt (obj core)))])))))"

definition SNAPSHOT_KEYS :: "string list" where
  "SNAPSHOT_KEYS = [''complete'', ''entity'', ''matches'', ''materialFields'', ''provider'', ''purpose'',
     ''query'', ''requester'', ''schemaVersion'', ''snapshotDigest'', ''tenant'', ''truncated'', ''version'']"

definition validMatch :: "js \<Rightarrow> js \<Rightarrow> bool" where
  "validMatch action match \<longleftrightarrow>
     (let m = getf (fields_of match); body = getf (fields_of (fld2 action ''payload'' ''body'')) in
      gateKeys match [''customerId'', ''customerReference'', ''id'', ''orderDateEpoch'']
      \<and> isRecordId (m ''id'') \<and> m ''customerReference'' = body ''ref_client''
      \<and> m ''customerId'' = body ''socid'' \<and> m ''orderDateEpoch'' = body ''date'')"

text \<open>\<open>validateAuthoritativeApprovalSnapshot\<close>: true where the code returns the snapshot.\<close>

definition validSnapshot :: "'a runtime_scheme \<Rightarrow> js \<Rightarrow> js \<Rightarrow> bool" where
  "validSnapshot rt snapshot action =
     (let f = getf (fields_of snapshot); scope = fld2 action ''scope''; q = fld2 snapshot ''query'';
          body = getf (fields_of (fld2 action ''payload'' ''body'')); matches = elems_of (f ''matches'') in
      if \<not> assertAction action then False
      else if \<not> gateKeys snapshot SNAPSHOT_KEYS then False
      else if \<not> gateKeys (f ''query'') [''field'', ''limit'', ''operator'', ''value''] then False
      else if f ''schemaVersion'' \<noteq> JStr APPROVAL_SNAPSHOT_SCHEMA \<or> f ''provider'' \<noteq> scope ''provider''
        \<or> f ''tenant'' \<noteq> scope ''tenant'' \<or> f ''entity'' \<noteq> scope ''entity''
        \<or> f ''requester'' \<noteq> JStr APPROVAL_REQUESTER \<or> f ''purpose'' \<noteq> JStr APPROVAL_PURPOSE
        \<or> f ''complete'' \<noteq> JBool True \<or> f ''truncated'' \<noteq> JBool False
        \<or> gateJson (f ''materialFields'') \<noteq> gateJson (strs_js MATERIAL_FIELDS)
        \<or> q ''field'' \<noteq> JStr ''customerReference'' \<or> q ''operator'' \<noteq> JStr ''EXACT''
        \<or> q ''value'' \<noteq> body ''ref_client'' \<or> q ''limit'' \<noteq> jint 2
        \<or> \<not> is_array (f ''matches'') \<or> length matches > 2 then False
      else if \<not> list_all (validMatch action) matches then False
      else if length (uniq (map match_id matches)) \<noteq> length matches
        \<or> gateJson (f ''matches'') \<noteq> gateJson (arr (sort_matches matches)) then False
      else if \<not> str_test hex64 (f ''version'') \<or> \<not> str_test hex64 (f ''snapshotDigest'') then False
      else
        (let core = without ''snapshotDigest'' (fields_of snapshot);
             versionCore = version_core (f ''provider'') (f ''tenant'') (f ''entity'') (f ''query'')
               (f ''materialFields'') (f ''matches'')
         in JStr (json_digest rt versionCore) = f ''version''
            \<and> JStr (json_digest rt (obj core)) = f ''snapshotDigest''))"

text \<open>The two fields that name a state of the provider.\<close>

definition sameSnapshot :: "js \<Rightarrow> js \<Rightarrow> bool" where
  "sameSnapshot a b \<longleftrightarrow> getf (fields_of a) ''version'' = getf (fields_of b) ''version''
     \<and> getf (fields_of a) ''snapshotDigest'' = getf (fields_of b) ''snapshotDigest''"

definition assertApprovalSnapshotFresh :: "'a runtime_scheme \<Rightarrow> js \<Rightarrow> js \<Rightarrow> js \<Rightarrow> unit res" where
  "assertApprovalSnapshotFresh rt expected current action =
     (if \<not> validSnapshot rt expected action \<or> \<not> validSnapshot rt current action then Inl SNAPSHOT_INVALID
      else if \<not> sameSnapshot current expected then Inl ''APPROVAL_SNAPSHOT_STALE_DENIED''
      else Inr ())"

definition coalesce :: "js \<Rightarrow> js \<Rightarrow> js" where
  "coalesce a b = (if a = JUndef \<or> a = JNull then b else a)"

definition DIFF_POLICY_INVALID :: string where
  "DIFF_POLICY_INVALID = ''APPROVAL_DIFF_POLICY_INVALID_DENIED''"

definition deriveAuthoritativeBusinessDiff :: "'a runtime_scheme \<Rightarrow> js \<Rightarrow> js \<Rightarrow> js \<Rightarrow> js res" where
  "deriveAuthoritativeBusinessDiff rt action snapshot policy =
     (let f = getf (fields_of snapshot); p = getf (fields_of policy); scope = fld2 action ''scope'';
          body = getf (fields_of (fld2 action ''payload'' ''body'')); matches = elems_of (f ''matches'');
          before = (\<lambda>k. coalesce (if matches = [] then JUndef else getf (fields_of (hd matches)) k) JNull);
          change = (\<lambda>field after. obj [(''field'', JStr field), (''before'', before field), (''after'', after)]) in
      if \<not> validSnapshot rt snapshot action then Inl SNAPSHOT_INVALID
      else if \<not> gateKeys policy [''digest'', ''generation'', ''id''] then Inl DIFF_POLICY_INVALID
      else if p ''id'' \<noteq> JStr ''admin-ai-poc-policy-v1'' \<or> \<not> isGeneration (p ''generation'') then Inl DIFF_POLICY_INVALID
      else if \<not> str_test hex64 (p ''digest'') then Inl DIFF_POLICY_INVALID
      else Inr (obj
        [(''schemaVersion'', JStr BUSINESS_DIFF_SCHEMA),
         (''summary'', JStr ''Create one synthetic Dolibarr sales order if absent.''),
         (''target'', obj [(''provider'', scope ''provider''), (''tenant'', scope ''tenant''), (''entity'', scope ''entity'')]),
         (''requester'', f ''requester''), (''purpose'', f ''purpose''),
         (''priorState'', obj [(''matchCount'', jnat (length matches)), (''complete'', f ''complete''),
            (''snapshotVersion'', f ''version''), (''snapshotDigest'', f ''snapshotDigest'')]),
         (''materialFields'', f ''materialFields''),
         (''changes'', arr [change ''customerReference'' (body ''ref_client''),
            change ''customerId'' (body ''socid''), change ''orderDateEpoch'' (body ''date'')]),
         (''impacts'', obj [(''data'', JStr ''One fictional local ERP order record.''),
            (''budget'', obj [(''currency'', JStr ''EUR''), (''upperBound'', JStr ''0.00'')]),
            (''sideEffects'', strs_js [''CREATE_LOCAL_ORDER_RECORD''])]),
         (''rollback'', obj [(''mode'', JStr ''SEPARATE_APPROVAL_REQUIRED''),
            (''description'', JStr ''Any compensating delete or cancellation requires a new fresh-state Plan and approval.'')]),
         (''policy'', policy)]))"

end
