(* ===== verification/GateGuards.thy ===== *)
theory GateGuards
  imports ApprovalSnapshot PolicyFence
begin

text \<open>
  The synchronous guards of \<open>demo/runtime/enforcement-gate.mjs\<close>: the local request, the shape and scope of
  an action, the two actions an agent may ask for, and the three kinds of authority. Beside the runtime
  bundle a guard takes three functions of the platform: \<open>buffer_text\<close>, the bytes \<open>Buffer.from\<close> makes of a value that
  is neither a text nor missing (\<open>None\<close> where it throws), \<open>number_text\<close>, the number a text converts to, and
  \<open>url_host\<close>, the host of a URL. Where a conversion throws inside a guard, the guard denies; the
  denial then carries the text of that exception in place of the guard's code.
\<close>

record gate_runtime = runtime +
  buffer_text :: "js \<Rightarrow> string option"
  number_text :: "string \<Rightarrow> jsnum"
  url_host :: "string \<Rightarrow> string"

text \<open>What the constructor fixes. The policy identifier and the profile it insists on are constants.\<close>

record gate_config =
  gc_apiToken :: string
  gc_controlToken :: string
  gc_ownerAuthorityToken :: string
  gc_expectedOrigin :: string
  gc_policyDigest :: "string option"
  gc_profileGeneration :: string
  gc_policyGeneration :: int
  gc_readsSnapshots :: bool

definition GATE_PROFILE :: string where
  "GATE_PROFILE = ''SAFE_GUIDED''"

definition gate_config_valid :: "gate_config \<Rightarrow> unit res" where
  "gate_config_valid cfg =
     (if length (gc_apiToken cfg) < 32 \<or> length (gc_controlToken cfg) < 32
        \<or> length (gc_ownerAuthorityToken cfg) < 32 then Inl ''GATE_SECRET_INVALID''
      else if length (gc_profileGeneration cfg) < 8 \<or> \<not> isGeneration (jint (gc_policyGeneration cfg))
        \<or> (case gc_policyDigest cfg of None \<Rightarrow> False | Some d \<Rightarrow> \<not> hex64 d) then Inl ''AUTHORITY_CONTEXT_INVALID_DENIED''
      else Inr ())"

subsection \<open>Local requests\<close>

text \<open>The four headers the gate reads, where they are present.\<close>

record http_request =
  rq_authorization :: "string option"
  rq_origin :: "string option"
  rq_host :: "string option"
  rq_csrf :: "string option"

definition BEARER :: string where
  "BEARER = ''Bearer ''"

definition bearer :: "http_request \<Rightarrow> string" where
  "bearer request =
     (case rq_authorization request of
        None \<Rightarrow> []
      | Some s \<Rightarrow> if take (length BEARER) s = BEARER then drop (length BEARER) s else s)"

definition authorizeLocalRequest :: "gate_runtime \<Rightarrow> string \<Rightarrow> string \<Rightarrow> bool \<Rightarrow> http_request \<Rightarrow> unit res" where
  "authorizeLocalRequest rt apiToken expectedOrigin requireCsrf request =
     (if bearer request \<noteq> apiToken then Inl ''AUTHENTICATION_REQUIRED''
      else if rq_origin request \<noteq> Some expectedOrigin then Inl ''SAME_ORIGIN_REQUIRED''
      else if rq_host request \<noteq> Some (url_host rt expectedOrigin) then Inl ''CANONICAL_HOST_REQUIRED''
      else if requireCsrf \<and> rq_csrf request \<noteq> Some ''chimpmaera-local-v1'' then Inl ''CSRF_TOKEN_REQUIRED''
      else Inr ())"

subsection \<open>Conversions\<close>

definition GATE_TYPE_ERROR :: string where
  "GATE_TYPE_ERROR = ''TypeError''"

text \<open>\<open>String(v)\<close> throws where an object hides the inherited \<open>toString\<close>.\<close>

fun stringifiable :: "js \<Rightarrow> bool" where
  "stringifiable (JObj i kvs) = (''toString'' \<notin> set (map fst kvs))"
| "stringifiable (JArr i vs) = list_all stringifiable vs"
| "stringifiable _ = True"

text \<open>\<open>equalSecret\<close> of the gate, on a presented value of any type.\<close>

definition secretEquals :: "gate_runtime \<Rightarrow> js \<Rightarrow> string \<Rightarrow> bool" where
  "secretEquals rt presented expected =
     (case presented of
        JStr s \<Rightarrow> s = expected
      | JUndef \<Rightarrow> expected = []
      | JNull \<Rightarrow> expected = []
      | v \<Rightarrow> buffer_text rt v = Some expected)"

text \<open>\<open>sha256(canonicalJson(v)) === d\<close>, which throws where \<open>v\<close> is missing.\<close>

definition digest_is :: "'a runtime_scheme \<Rightarrow> js \<Rightarrow> js \<Rightarrow> bool" where
  "digest_is rt v d \<longleftrightarrow> v \<noteq> JUndef \<and> JStr (json_digest rt v) = d"

text \<open>\<open>/^[a-f0-9]{64}$/.test(v ?? "")\<close>, which sees the text of a value.\<close>

definition hexTest :: "js \<Rightarrow> bool" where
  "hexTest v \<longleftrightarrow> stringifiable v \<and> digest_like (coalesce v (JStr []))"

subsection \<open>Properties of ordinary objects\<close>

text \<open>
  A property of an object that inherits from \<open>Object.prototype\<close>: its own, or one of the members every object
  inherits, or none.
\<close>

definition OBJECT_MEMBERS :: "string list" where
  "OBJECT_MEMBERS = [''constructor'', ''__defineGetter__'', ''__defineSetter__'', ''hasOwnProperty'',
     ''__lookupGetter__'', ''__lookupSetter__'', ''isPrototypeOf'', ''propertyIsEnumerable'', ''toString'',
     ''valueOf'', ''__proto__'', ''toLocaleString'']"

datatype 'a slot = Absent | Inherited | Own 'a

definition slot :: "(string \<times> 'a) list \<Rightarrow> string \<Rightarrow> 'a slot" where
  "slot m k = (case map_of m k of Some x \<Rightarrow> Own x
     | None \<Rightarrow> if k \<in> set OBJECT_MEMBERS then Inherited else Absent)"

lemma slot_Own_iff: "slot m k = Own x \<longleftrightarrow> map_of m k = Some x"
  by (simp add: slot_def split: option.splits)

lemma slot_Absent: "slot m k = Absent \<Longrightarrow> map_of m k = None"
  by (simp add: slot_def split: option.splits)

subsection \<open>Actions\<close>

definition INSTALLER :: string where
  "INSTALLER = ''installer:seed-and-flow''"
definition OWNER :: string where
  "OWNER = ''owner:local-demo''"
definition AGENT_KIND :: string where
  "AGENT_KIND = ''ADMIN_AI_POC_HMAC_V1''"
definition OWNER_KIND :: string where
  "OWNER_KIND = ''OWNER_ESCALATION_LEASE_HMAC_V1''"

definition REPLAY_KEY_PATTERN :: rx where
  "REPLAY_KEY_PATTERN = Rep (Cls ([a_z, A_Z, d0_9] @ chars '':._-'')) 8 (Some 180)"
definition AGENT_REPLAY_KEY :: rx where
  "AGENT_REPLAY_KEY = Seq (lit ''admin-ai:poc:'') (Rep (Cls ([a_z, A_Z, d0_9] @ chars '':._-'')) 8 (Some 140))"

definition UNKNOWN_ACTION :: string where
  "UNKNOWN_ACTION = ''UNKNOWN_ACTION_DENIED''"
definition SCOPE_MISMATCH :: string where
  "SCOPE_MISMATCH = ''SCOPE_MISMATCH_DENIED''"

definition ACTION_KEYS :: "string list" where
  "ACTION_KEYS = [''actionType'', ''actor'', ''payload'', ''replayKey'', ''scope'']"

definition validateActionShape :: "js \<Rightarrow> unit res" where
  "validateActionShape action =
     (let f = getf (fields_of action) in
      if \<not> is_record action then Inl ''ACTION_INVALID''
      else if \<not> gateKeys action ACTION_KEYS \<or> f ''actionType'' \<noteq> JStr ''PROVIDER_MUTATION''
        \<or> f ''actor'' \<notin> {JStr INSTALLER, JStr AGENT}
        \<or> \<not> str_test (rx_test REPLAY_KEY_PATTERN) (f ''replayKey'')
        \<or> \<not> is_record (f ''scope'') \<or> \<not> is_record (f ''payload'') then Inl UNKNOWN_ACTION
      else Inr ())"

text \<open>The one contact and the one order an agent may ask for.\<close>

definition contactAction :: "js \<Rightarrow> js" where
  "contactAction replayKey = obj
     [(''actionType'', JStr ''PROVIDER_MUTATION''), (''actor'', JStr AGENT),
      (''payload'', obj
        [(''body'', obj [(''description'', JStr ''PanSphaira Admin AI deterministic PoC contact''),
            (''emailAddress'', JStr ''admin-ai-poc@example.invalid''), (''firstName'', JStr ''Avery''),
            (''lastName'', JStr ''Admin AI PoC'')]),
         (''method'', JStr ''POST''), (''path'', JStr ''/Contact'')]),
      (''replayKey'', replayKey),
      (''scope'', obj [(''actor'', JStr AGENT), (''entity'', JStr ''Contact''), (''operation'', JStr ''CREATE_IF_ABSENT''),
         (''provider'', JStr ''espocrm''), (''tenant'', JStr RUNTIME_TENANT)])]"

definition orderAction :: "js \<Rightarrow> js" where
  "orderAction replayKey = obj
     [(''actionType'', JStr ''PROVIDER_MUTATION''), (''actor'', JStr AGENT),
      (''payload'', obj
        [(''body'', obj [(''date'', jint ORDER_DATE), (''ref_client'', JStr ORDER_REFERENCE),
            (''socid'', jint ORDER_CUSTOMER)]),
         (''method'', JStr ''POST''), (''path'', JStr ''/orders'')]),
      (''replayKey'', replayKey),
      (''scope'', obj [(''actor'', JStr AGENT), (''entity'', JStr ''Order''), (''operation'', JStr ''CREATE_IF_ABSENT''),
         (''provider'', JStr ''dolibarr''), (''tenant'', JStr RUNTIME_TENANT)])]"

definition validateAdminAiAction :: "js \<Rightarrow> string \<Rightarrow> bool" where
  "validateAdminAiAction action authorityKind \<longleftrightarrow>
     (let key = getf (fields_of action) ''replayKey'' in
      (stringifiable key \<and> rx_test AGENT_REPLAY_KEY (to_string key))
      \<and> (if authorityKind = AGENT_KIND then gateJson action = gateJson (contactAction key)
         else if authorityKind = OWNER_KIND then gateJson action = gateJson (orderAction key)
         else False))"

text \<open>The paths by entity; an entity is any value, converted to a property key.\<close>

definition provider_paths :: "js \<Rightarrow> (string \<times> rx) list option" where
  "provider_paths provider =
     (if provider = JStr ''espocrm'' then Some
        [(''Account'', lit ''/Account''), (''Contact'', lit ''/Contact''), (''Opportunity'', lit ''/Opportunity'')]
      else if provider = JStr ''dolibarr'' then Some
        [(''ThirdParty'', lit ''/thirdparties''), (''Order'', lit ''/orders''),
         (''OrderLine'', Seq (lit ''/orders/'') (Seq (Cls [(CHR ''1'', CHR ''9'')])
            (Seq (Rep (Cls [d0_9]) 0 None) (lit ''/lines''))))]
      else None)"

definition validateMutationScope :: "js \<Rightarrow> unit res" where
  "validateMutationScope action =
     (let scope = fld2 action ''scope''; payload = fld2 action ''payload''; entity = scope ''entity'' in
      if scope ''tenant'' \<noteq> JStr RUNTIME_TENANT \<or> payload ''method'' \<noteq> JStr ''POST''
        \<or> \<not> is_string (payload ''path'') \<or> \<not> is_record (payload ''body'') then Inl SCOPE_MISMATCH
      else
        (case provider_paths (scope ''provider'') of
           None \<Rightarrow> Inl SCOPE_MISMATCH
         | Some paths \<Rightarrow>
             if \<not> stringifiable entity then Inl GATE_TYPE_ERROR
             else
               (let allowed = slot paths (to_string entity) in
                if allowed = Absent \<or> scope ''operation'' \<noteq> JStr ''CREATE_IF_ABSENT'' then Inl SCOPE_MISMATCH
                else
                  (case allowed of
                     Own pattern \<Rightarrow> if rx_test pattern (str_of (payload ''path'')) then Inr () else Inl SCOPE_MISMATCH
                   | _ \<Rightarrow> Inl GATE_TYPE_ERROR))))"

subsection \<open>Authorities\<close>

text \<open>The approval of the installer's actions.\<close>

definition approvalBinding :: "gate_runtime \<Rightarrow> gate_config \<Rightarrow> string \<Rightarrow> js \<Rightarrow> string" where
  "approvalBinding rt cfg actionDigest action =
     (let f = getf (fields_of action) in
      hmac rt (gc_controlToken cfg)
        (actionDigest @ newline @ str_of (f ''actor'') @ newline @ json_digest rt (f ''scope'') @ newline
          @ str_of (f ''replayKey'')))"

definition approved :: "gate_runtime \<Rightarrow> gate_config \<Rightarrow> js \<Rightarrow> js \<Rightarrow> string \<Rightarrow> bool" where
  "approved rt cfg approval action computedDigest \<longleftrightarrow>
     (let a = getf (fields_of approval) in
      a ''decision'' = JStr ''APPROVE'' \<and> a ''approver'' = JStr OWNER
      \<and> secretEquals rt (a ''actionDigest'') computedDigest
      \<and> secretEquals rt (a ''binding'') (approvalBinding rt cfg computedDigest action))"

text \<open>The authority the gate signs for an agent.\<close>

record agent_fields =
  af_actor :: js
  af_scope :: js
  af_actionDigest :: js
  af_replayKey :: js
  af_policyId :: js
  af_policyGeneration :: js
  af_policyDigest :: js
  af_decisionDigest :: js

definition agent_core :: "agent_fields \<Rightarrow> fields" where
  "agent_core a =
     [(''kind'', JStr AGENT_KIND), (''actor'', af_actor a), (''scope'', af_scope a),
      (''actionDigest'', af_actionDigest a), (''replayKey'', af_replayKey a), (''policyId'', af_policyId a),
      (''policyGeneration'', af_policyGeneration a), (''policyDigest'', af_policyDigest a),
      (''decisionDigest'', af_decisionDigest a)]"

definition agent_binding :: "gate_runtime \<Rightarrow> gate_config \<Rightarrow> agent_fields \<Rightarrow> string" where
  "agent_binding rt cfg a = hmac rt (gc_controlToken cfg)
     (''admin-ai-poc-authority-v1'' @ newline @ gateJson (obj (agent_core a)))"

definition agentAuthority :: "gate_runtime \<Rightarrow> gate_config \<Rightarrow> agent_fields \<Rightarrow> js" where
  "agentAuthority rt cfg a = obj (agent_core a @ [(''binding'', JStr (agent_binding rt cfg a))])"

definition AGENT_AUTHORITY_KEYS :: "string list" where
  "AGENT_AUTHORITY_KEYS = [''actionDigest'', ''actor'', ''binding'', ''decisionDigest'', ''kind'', ''policyDigest'',
     ''policyGeneration'', ''policyId'', ''replayKey'', ''scope'']"

definition the_text :: "string option \<Rightarrow> string" where
  "the_text x = (case x of None \<Rightarrow> [] | Some s \<Rightarrow> s)"

text \<open>What an authority of the agent says, over the action it is presented with.\<close>

definition agent_claims :: "js \<Rightarrow> js \<Rightarrow> string \<Rightarrow> agent_fields" where
  "agent_claims authority action computedDigest =
     (let f = getf (fields_of authority); a = getf (fields_of action) in
      \<lparr>af_actor = a ''actor'', af_scope = a ''scope'', af_actionDigest = JStr computedDigest,
       af_replayKey = a ''replayKey'', af_policyId = f ''policyId'', af_policyGeneration = f ''policyGeneration'',
       af_policyDigest = f ''policyDigest'', af_decisionDigest = f ''decisionDigest''\<rparr>)"

definition validateAgentAuthority :: "gate_runtime \<Rightarrow> gate_config \<Rightarrow> js \<Rightarrow> js \<Rightarrow> string \<Rightarrow> bool" where
  "validateAgentAuthority rt cfg authority action computedDigest \<longleftrightarrow>
     (let f = getf (fields_of authority); a = getf (fields_of action) in
      gateKeys authority AGENT_AUTHORITY_KEYS \<and> f ''kind'' = JStr AGENT_KIND
      \<and> is_string (f ''actor'') \<and> is_string (f ''actionDigest'') \<and> is_string (f ''replayKey'')
      \<and> f ''policyId'' = JStr POC_POLICY_ID \<and> f ''policyGeneration'' = jint (gc_policyGeneration cfg)
      \<and> is_string (f ''policyDigest'') \<and> is_string (f ''decisionDigest'') \<and> is_string (f ''binding'')
      \<and> is_record (f ''scope'')
      \<and> hexTest (f ''actionDigest'') \<and> hexTest (f ''decisionDigest'') \<and> hexTest (f ''policyDigest'')
      \<and> hexTest (f ''binding'')
      \<and> secretEquals rt (f ''policyDigest'') (the_text (gc_policyDigest cfg))
      \<and> secretEquals rt (f ''actor'') (str_of (a ''actor''))
      \<and> gateJson (f ''scope'') = gateJson (a ''scope'')
      \<and> secretEquals rt (f ''actionDigest'') computedDigest
      \<and> secretEquals rt (f ''replayKey'') (str_of (a ''replayKey''))
      \<and> secretEquals rt (f ''binding'') (agent_binding rt cfg (agent_claims authority action computedDigest)))"

end
