(* ===== verification/PolicyDecision.thy ===== *)
theory PolicyDecision
  imports GateGuards
begin

text \<open>
  \<open>demo/runtime/policy-evaluator.mjs\<close> and \<open>demo/runtime/admin-ai-poc.mjs\<close>: the policy decision over a closed
  input, the static evaluator, and the agent's request handler, which trusts any evaluator only up to a ceiling.
  An evaluator is a function from the input and the trusted context; \<open>signAuthority\<close> is a parameter as well
  (\<open>server.mjs\<close> wires it to the gate).
\<close>

subsection \<open>Inputs and contexts\<close>

definition POLICY_EVALUATION_INPUT_SCHEMA :: string where
  "POLICY_EVALUATION_INPUT_SCHEMA = ''chimpmaera.demo/policy-evaluation-input/v1''"
definition TRUSTED_POLICY_CONTEXT_SCHEMA :: string where
  "TRUSTED_POLICY_CONTEXT_SCHEMA = ''chimpmaera.demo/trusted-policy-context/v1''"
definition POLICY_DECISION_SCHEMA :: string where
  "POLICY_DECISION_SCHEMA = ''chimpmaera.demo/policy-decision/v1''"

definition POLICY_OUTCOMES :: "string list" where
  "POLICY_OUTCOMES = [''AUTO_GRANT'', ''OWNER_ESCALATION'', ''DENY'']"
definition POLICY_REASONS :: "string list" where
  "POLICY_REASONS = [''POLICY_SYNTHETIC_CONTACT_AUTO_GRANTED'', ''POLICY_ORDER_REQUIRES_OWNER'',
     ''POLICY_REQUEST_NOT_ALLOWED'']"

definition LOWER_NAME :: rx where
  "LOWER_NAME = Seq (Cls [a_z]) (Rep (Cls ([a_z, d0_9] @ chars ''.-'')) 2 (Some 80))"
definition UPPER_NAME :: rx where
  "UPPER_NAME = Seq (Cls [A_Z]) (Rep (Cls ([A_Z, d0_9] @ chars ''_'')) 2 (Some 80))"
definition RESOURCE_NAME :: rx where
  "RESOURCE_NAME = Seq (Cls [A_Z, a_z]) (Rep (Cls [A_Z, a_z, d0_9]) 2 (Some 80))"
definition VERSION_TEXT :: rx where
  "VERSION_TEXT = Seq (Rep (Cls [d0_9]) 1 None) (Seq (lit ''.'') (Seq (Rep (Cls [d0_9]) 1 None)
     (Seq (lit ''.'') (Rep (Cls [d0_9]) 1 None))))"

text \<open>\<open>pattern.test(v)\<close> on a value of any type.\<close>

definition rxTest :: "rx \<Rightarrow> js \<Rightarrow> bool" where
  "rxTest pattern v \<longleftrightarrow> stringifiable v \<and> rx_test pattern (to_string v)"

definition oneOf :: "string list \<Rightarrow> js \<Rightarrow> bool" where
  "oneOf members v = str_test (\<lambda>s. s \<in> set members) v"

definition EVALUATION_INPUT_KEYS :: "string list" where
  "EVALUATION_INPUT_KEYS = [''actionDigest'', ''actor'', ''adapter'', ''capability'', ''materiality'', ''operation'',
     ''replayKey'', ''requestDigest'', ''resource'', ''schemaVersion'', ''scopeDigest'', ''tenant'']"

definition validatePolicyEvaluationInput :: "js \<Rightarrow> bool" where
  "validatePolicyEvaluationInput input \<longleftrightarrow>
     (let f = getf (fields_of input); adapter = fld2 input ''adapter'' in
      gateKeys input EVALUATION_INPUT_KEYS \<and> gateKeys (f ''adapter'') [''adapterId'', ''adapterVersion'']
      \<and> f ''schemaVersion'' = JStr POLICY_EVALUATION_INPUT_SCHEMA \<and> f ''actor'' = JStr AGENT
      \<and> rxTest LOWER_NAME (f ''capability'') \<and> rxTest UPPER_NAME (f ''operation'')
      \<and> rxTest RESOURCE_NAME (f ''resource'') \<and> f ''tenant'' = JStr RUNTIME_TENANT
      \<and> oneOf [''LOW_SYNTHETIC'', ''MATERIAL_SYNTHETIC'', ''UNDECLARED''] (f ''materiality'')
      \<and> rxTest LOWER_NAME (adapter ''adapterId'') \<and> rxTest VERSION_TEXT (adapter ''adapterVersion'')
      \<and> rxTest AGENT_REPLAY_KEY (f ''replayKey'') \<and> str_test hex64 (f ''requestDigest'')
      \<and> (f ''actionDigest'' = JNull \<or> str_test hex64 (f ''actionDigest''))
      \<and> (f ''scopeDigest'' = JNull \<or> str_test hex64 (f ''scopeDigest''))
      \<and> (f ''actionDigest'' = JNull \<longleftrightarrow> f ''scopeDigest'' = JNull))"

definition POLICY_CONTEXT_KEYS :: "string list" where
  "POLICY_CONTEXT_KEYS = [''policyGeneration'', ''policyId'', ''policySemanticDigest'', ''policySourceDigest'',
     ''profileGeneration'', ''profileId'', ''schemaVersion'']"

definition validateTrustedPolicyContext :: "js \<Rightarrow> bool" where
  "validateTrustedPolicyContext context \<longleftrightarrow>
     (let f = getf (fields_of context) in
      gateKeys context POLICY_CONTEXT_KEYS \<and> f ''schemaVersion'' = JStr TRUSTED_POLICY_CONTEXT_SCHEMA
      \<and> f ''profileId'' = JStr GATE_PROFILE \<and> str_test (\<lambda>s. \<not> length s < 8) (f ''profileGeneration'')
      \<and> f ''policyId'' = JStr POC_POLICY_ID \<and> isGeneration (f ''policyGeneration'')
      \<and> str_test hex64 (f ''policySourceDigest'') \<and> str_test hex64 (f ''policySemanticDigest''))"

subsection \<open>Decisions\<close>

definition decisionCore :: "'a runtime_scheme \<Rightarrow> js \<Rightarrow> js \<Rightarrow> string \<Rightarrow> string \<Rightarrow> js \<Rightarrow> js \<Rightarrow> fields" where
  "decisionCore rt input context providerId providerVersion outcome reasonCodes =
     [(''schemaVersion'', JStr POLICY_DECISION_SCHEMA), (''inputDigest'', JStr (json_digest rt input)),
      (''contextDigest'', JStr (json_digest rt context)),
      (''evaluator'', obj [(''providerId'', JStr providerId), (''providerVersion'', JStr providerVersion)]),
      (''outcome'', outcome), (''reasonCodes'', reasonCodes),
      (''constraints'', obj [(''authorityIssuer'', JStr ''CHIMPMAERA_GATE_ONLY''),
         (''maximumEffects'', jint (if outcome = JStr ''DENY'' then 0 else 1)), (''exactInputRequired'', JBool True)])]"

definition DECISION_KEYS :: "string list" where
  "DECISION_KEYS = [''constraints'', ''contextDigest'', ''decisionDigest'', ''evaluator'', ''inputDigest'', ''outcome'',
     ''reasonCodes'', ''schemaVersion'']"

definition POLICY_DECISION_INVALID :: string where
  "POLICY_DECISION_INVALID = ''POLICY_DECISION_INVALID_DENIED''"

definition decision_valid :: "'a runtime_scheme \<Rightarrow> js \<Rightarrow> js \<Rightarrow> js \<Rightarrow> bool" where
  "decision_valid rt decision input context \<longleftrightarrow>
     (let f = getf (fields_of decision); c = fld2 decision ''constraints''; e = fld2 decision ''evaluator'' in
      gateKeys decision DECISION_KEYS \<and> gateKeys (f ''evaluator'') [''providerId'', ''providerVersion'']
      \<and> gateKeys (f ''constraints'') [''authorityIssuer'', ''exactInputRequired'', ''maximumEffects'']
      \<and> f ''schemaVersion'' = JStr POLICY_DECISION_SCHEMA \<and> rxTest LOWER_NAME (e ''providerId'')
      \<and> rxTest VERSION_TEXT (e ''providerVersion'') \<and> oneOf POLICY_OUTCOMES (f ''outcome'')
      \<and> is_array (f ''reasonCodes'') \<and> length (elems_of (f ''reasonCodes'')) = 1
      \<and> oneOf POLICY_REASONS (hd (elems_of (f ''reasonCodes'')))
      \<and> c ''authorityIssuer'' = JStr ''CHIMPMAERA_GATE_ONLY'' \<and> c ''exactInputRequired'' = JBool True
      \<and> c ''maximumEffects'' = jint (if f ''outcome'' = JStr ''DENY'' then 0 else 1)
      \<and> str_test hex64 (f ''inputDigest'') \<and> str_test hex64 (f ''contextDigest'') \<and> str_test hex64 (f ''decisionDigest'')
      \<and> f ''inputDigest'' = JStr (json_digest rt input) \<and> f ''contextDigest'' = JStr (json_digest rt context)
      \<and> f ''decisionDigest'' = JStr (json_digest rt (obj (without ''decisionDigest'' (fields_of decision)))))"

definition EVALUATION_INPUT_INVALID :: string where
  "EVALUATION_INPUT_INVALID = ''POLICY_EVALUATION_INPUT_INVALID_DENIED''"
definition TRUSTED_CONTEXT_INVALID :: string where
  "TRUSTED_CONTEXT_INVALID = ''TRUSTED_POLICY_CONTEXT_INVALID_DENIED''"

definition validatePolicyDecision :: "'a runtime_scheme \<Rightarrow> js \<Rightarrow> js \<Rightarrow> js \<Rightarrow> js res" where
  "validatePolicyDecision rt decision input context =
     (if \<not> validatePolicyEvaluationInput input then Inl EVALUATION_INPUT_INVALID
      else if \<not> validateTrustedPolicyContext context then Inl TRUSTED_CONTEXT_INVALID
      else if \<not> decision_valid rt decision input context then Inl POLICY_DECISION_INVALID
      else Inr decision)"

subsection \<open>The static evaluator\<close>

definition policy_rule :: "js \<Rightarrow> nat \<Rightarrow> js" where
  "policy_rule policy i = elems_of (getf (fields_of policy) ''rules'') ! i"

text \<open>\<open>createInternalStaticPolicyEvaluator\<close> returns where the two parts of its configuration are valid; it is named by them.\<close>

definition static_evaluator_valid :: "js \<Rightarrow> string \<Rightarrow> unit res" where
  "static_evaluator_valid policy policySourceDigest =
     (if \<not> validateAdminAiPocPolicy policy then Inl ''ADMIN_AI_POLICY_INVALID_DENIED''
      else if \<not> hex64 policySourceDigest then Inl ''POLICY_PROVIDER_CONFIG_INVALID_DENIED''
      else Inr ())"

definition static_evaluate :: "'a runtime_scheme \<Rightarrow> js \<Rightarrow> string \<Rightarrow> js \<Rightarrow> js \<Rightarrow> js res" where
  "static_evaluate rt policy policySourceDigest input context =
     (let c = getf (fields_of context); capability = getf (fields_of input) ''capability'' in
      if \<not> validatePolicyEvaluationInput input then Inl EVALUATION_INPUT_INVALID
      else if \<not> validateTrustedPolicyContext context then Inl TRUSTED_CONTEXT_INVALID
      else if c ''policyId'' \<noteq> getf (fields_of policy) ''policyId'' \<or> c ''policySourceDigest'' \<noteq> JStr policySourceDigest
        \<or> c ''policySemanticDigest'' \<noteq> JStr (json_digest rt policy) then Inl ''POLICY_PROVIDER_CONTEXT_MISMATCH_DENIED''
      else
        (let rule = (if capability = JStr ''customer.contact.create'' then policy_rule policy 0
               else if capability = JStr ''sales.order.create'' then policy_rule policy 1
               else policy_rule policy 2);
             core = decisionCore rt input context ''internal-static'' ''1.0.0'' (getf (fields_of rule) ''outcome'')
               (arr [getf (fields_of rule) ''reasonCode''])
         in Inr (obj (core @ [(''decisionDigest'', JStr (json_digest rt (obj core)))]))))"

subsection \<open>Requests of the agent\<close>

definition AI_REQUEST_SCHEMA :: string where
  "AI_REQUEST_SCHEMA = ''chimpmaera.demo/admin-ai-request/v1''"
definition AI_DECISION_SCHEMA :: string where
  "AI_DECISION_SCHEMA = ''chimpmaera.demo/admin-ai-decision/v4''"
definition CONTACT_KIND :: string where
  "CONTACT_KIND = ''SYNTHETIC_ESPOCRM_CONTACT_CREATE''"
definition ORDER_KIND :: string where
  "ORDER_KIND = ''SYNTHETIC_DOLIBARR_ORDER_CREATE''"

definition validateRequest :: "js \<Rightarrow> bool" where
  "validateRequest request \<longleftrightarrow>
     (let f = getf (fields_of request) in
      gateKeys request [''actor'', ''replayKey'', ''requestKind'', ''schemaVersion'']
      \<and> f ''schemaVersion'' = JStr AI_REQUEST_SCHEMA \<and> f ''actor'' = JStr AGENT
      \<and> str_test (\<lambda>s. \<not> length s < 1 \<and> \<not> length s > 100) (f ''requestKind'')
      \<and> str_test (rx_test AGENT_REPLAY_KEY) (f ''replayKey''))"

definition plannedAction :: "js \<Rightarrow> js" where
  "plannedAction request =
     (let f = getf (fields_of request) in
      if f ''requestKind'' = JStr CONTACT_KIND then contactAction (f ''replayKey'')
      else if f ''requestKind'' = JStr ORDER_KIND then orderAction (f ''replayKey'')
      else JNull)"

definition intent :: "js \<Rightarrow> string \<Rightarrow> string \<Rightarrow> string \<Rightarrow> string \<Rightarrow> string \<Rightarrow> js \<Rightarrow> js \<Rightarrow> js \<Rightarrow> js \<Rightarrow> js" where
  "intent actor capability operation resource materiality adapterId actionDigest scopeDigest replayKey requestDigest = obj
     [(''schemaVersion'', JStr POLICY_EVALUATION_INPUT_SCHEMA), (''actor'', actor), (''capability'', JStr capability),
      (''operation'', JStr operation), (''resource'', JStr resource), (''tenant'', JStr RUNTIME_TENANT),
      (''materiality'', JStr materiality),
      (''adapter'', obj [(''adapterId'', JStr adapterId), (''adapterVersion'', JStr ''1.0.0'')]),
      (''actionDigest'', actionDigest), (''scopeDigest'', scopeDigest), (''replayKey'', replayKey),
      (''requestDigest'', requestDigest)]"

definition intentFor :: "'a runtime_scheme \<Rightarrow> js \<Rightarrow> js \<Rightarrow> js" where
  "intentFor rt request action =
     (let f = getf (fields_of request); requestDigest = JStr (json_digest rt request);
          actionDigest = JStr (json_digest rt action);
          scopeDigest = JStr (json_digest rt (getf (fields_of action) ''scope'')) in
      if f ''requestKind'' = JStr CONTACT_KIND then
        intent (f ''actor'') ''customer.contact.create'' ''CREATE_IF_ABSENT'' ''CustomerContact'' ''LOW_SYNTHETIC''
          ''espocrm-contact'' actionDigest scopeDigest (f ''replayKey'') requestDigest
      else if f ''requestKind'' = JStr ORDER_KIND then
        intent (f ''actor'') ''sales.order.create'' ''CREATE_IF_ABSENT'' ''SalesOrder'' ''MATERIAL_SYNTHETIC''
          ''dolibarr-order'' actionDigest scopeDigest (f ''replayKey'') requestDigest
      else
        intent (f ''actor'') ''request.undeclared'' ''UNDECLARED_REQUEST'' ''UndeclaredRequest'' ''UNDECLARED''
          ''deny-only'' JNull JNull (f ''replayKey'') requestDigest)"

record admin_ai =
  aa_policyDigest :: string
  aa_context :: js
  aa_evaluate :: "js \<Rightarrow> js \<Rightarrow> js res"
  aa_sign :: "agent_fields \<Rightarrow> js"

definition ai_core :: "'a runtime_scheme \<Rightarrow> admin_ai \<Rightarrow> js \<Rightarrow> js \<Rightarrow> js \<Rightarrow> fields" where
  "ai_core rt ai request policyDecision actionDigest =
     (let f = getf (fields_of request); d = getf (fields_of policyDecision); c = getf (fields_of (aa_context ai)) in
      [(''schemaVersion'', JStr AI_DECISION_SCHEMA), (''requestId'', JStr (json_digest rt request)),
       (''actor'', f ''actor''), (''requestKind'', f ''requestKind''), (''outcome'', d ''outcome''),
       (''reasonCodes'', d ''reasonCodes''), (''actionDigest'', actionDigest), (''policyId'', c ''policyId''),
       (''policyGeneration'', c ''policyGeneration''), (''policyDigest'', JStr (aa_policyDigest ai)),
       (''replayKey'', f ''replayKey'')])"

text \<open>The ceiling: nothing undeclared is answered but with a denial, no order is granted without the owner.\<close>

definition exceeds_ceiling :: "js \<Rightarrow> js \<Rightarrow> bool" where
  "exceeds_ceiling capability outcome \<longleftrightarrow>
     (capability = JStr ''request.undeclared'' \<and> outcome \<noteq> JStr ''DENY'')
     \<or> (capability = JStr ''sales.order.create'' \<and> outcome = JStr ''AUTO_GRANT'')"

definition authority_request :: "admin_ai \<Rightarrow> js \<Rightarrow> js \<Rightarrow> js \<Rightarrow> agent_fields" where
  "authority_request ai action actionDigest decisionDigest =
     (let a = getf (fields_of action); c = getf (fields_of (aa_context ai)) in
      \<lparr>af_actor = a ''actor'', af_scope = a ''scope'', af_actionDigest = actionDigest,
       af_replayKey = a ''replayKey'', af_policyId = c ''policyId'',
       af_policyGeneration = c ''policyGeneration'', af_policyDigest = JStr (aa_policyDigest ai),
       af_decisionDigest = decisionDigest\<rparr>)"

definition ai_answer :: "'a runtime_scheme \<Rightarrow> admin_ai \<Rightarrow> js \<Rightarrow> js \<Rightarrow> js" where
  "ai_answer rt ai request policyDecision =
     (let outcome = getf (fields_of policyDecision) ''outcome'';
          action = (if outcome = JStr ''DENY'' then JNull else plannedAction request);
          actionDigest = (if action = JNull then JNull else JStr (json_digest rt action));
          core = ai_core rt ai request policyDecision actionDigest;
          decisionDigest = JStr (json_digest rt (obj core));
          authority = (if outcome = JStr ''AUTO_GRANT''
            then aa_sign ai (authority_request ai action actionDigest decisionDigest) else JNull)
      in obj (core @ [(''decisionDigest'', decisionDigest), (''action'', action), (''authority'', authority)]))"

text \<open>\<open>decide\<close>: the decision it returns with status \<open>PASS\<close>.\<close>

definition ai_decide :: "'a runtime_scheme \<Rightarrow> admin_ai \<Rightarrow> js \<Rightarrow> js res" where
  "ai_decide rt ai request =
     (if \<not> validateRequest request then Inl ''ADMIN_AI_REQUEST_INVALID_DENIED''
      else
        (let input = intentFor rt request (plannedAction request) in
         res_bind (aa_evaluate ai input (aa_context ai)) (\<lambda>answer.
         res_bind (validatePolicyDecision rt answer input (aa_context ai)) (\<lambda>policyDecision.
           if exceeds_ceiling (getf (fields_of input) ''capability'') (getf (fields_of policyDecision) ''outcome'')
           then Inl ''POLICY_DECISION_EXCEEDS_ADAPTER_CEILING_DENIED''
           else Inr (ai_answer rt ai request policyDecision)))))"

text \<open>
  The constructor's defaults: the static evaluator over the validated policy and a context of its own. A context may be
  given, as \<open>server.mjs\<close> does.
\<close>

definition new_admin_ai ::
  "'a runtime_scheme \<Rightarrow> js \<Rightarrow> string \<Rightarrow> (agent_fields \<Rightarrow> js) \<Rightarrow> js option \<Rightarrow> admin_ai res" where
  "new_admin_ai rt policy policyDigest signAuthority trustedContext =
     (if \<not> validateAdminAiPocPolicy policy then Inl ''ADMIN_AI_POLICY_INVALID_DENIED''
      else if \<not> hex64 policyDigest then Inl ''ADMIN_AI_POLICY_DIGEST_INVALID_DENIED''
      else Inr \<lparr>aa_policyDigest = policyDigest,
        aa_context = (case trustedContext of
             Some context \<Rightarrow> context
           | None \<Rightarrow> obj [(''schemaVersion'', JStr TRUSTED_POLICY_CONTEXT_SCHEMA), (''profileId'', JStr GATE_PROFILE),
               (''profileGeneration'', JStr ''standalone-test-v1''), (''policyId'', getf (fields_of policy) ''policyId''),
               (''policyGeneration'', jint 1), (''policySourceDigest'', JStr policyDigest),
               (''policySemanticDigest'', JStr (json_digest rt policy))]),
        aa_evaluate = static_evaluate rt policy policyDigest, aa_sign = signAuthority\<rparr>)"

end
