(* ===== verification/MutationGate.thy ===== *)
theory MutationGate
  imports GateGuards
begin

text \<open>
  The state and the operations of \<open>DemoMutationGate\<close> (\<open>demo/runtime/enforcement-gate.mjs\<close>): owner
  authorities, the effect store with its file, and \<open>execute\<close>, cut at its three \<open>await\<close>s into the parts that run without
  interruption. A write either replaces the file or leaves it alone and throws.
\<close>

subsection \<open>Owner authorities\<close>

definition OWNER_AUTHORITY_INPUT_INVALID :: string where
  "OWNER_AUTHORITY_INPUT_INVALID = ''OWNER_AUTHORITY_INPUT_INVALID_DENIED''"
definition OWNER_AUTHORITY_INVALID :: string where
  "OWNER_AUTHORITY_INVALID = ''OWNER_AUTHORITY_INVALID_DENIED''"
definition MAX_LEASE_MS :: int where
  "MAX_LEASE_MS = 300000"

text \<open>A period of validity: safe integers, the end after the start, at most five minutes.\<close>

definition lease_period :: "js \<Rightarrow> js \<Rightarrow> bool" where
  "lease_period from until \<longleftrightarrow> is_safe_integer from \<and> is_safe_integer until
     \<and> \<not> int_of_js until \<le> int_of_js from \<and> \<not> int_of_js until - int_of_js from > MAX_LEASE_MS"

definition owner_unsigned :: "js \<Rightarrow> js \<Rightarrow> js \<Rightarrow> js \<Rightarrow> fields" where
  "owner_unsigned proposal ownerDecisionReceiptDigest issuedAtMs expiresAtMs =
     (let p = getf (fields_of proposal) in
      [(''kind'', JStr OWNER_KIND), (''actor'', p ''actor''), (''scope'', fld2 proposal ''action'' ''scope''),
       (''actionDigest'', p ''actionDigest''), (''businessDiffDigest'', p ''businessDiffDigest''),
       (''snapshotDigest'', p ''snapshotDigest''), (''snapshotVersion'', p ''snapshotVersion''),
       (''requester'', p ''requester''), (''purpose'', p ''purpose''), (''replayKey'', p ''replayKey''),
       (''policyId'', p ''policyId''), (''policyDigest'', p ''policyDigest''),
       (''policyGeneration'', p ''policyGeneration''), (''decisionDigest'', p ''decisionDigest''),
       (''proposalDigest'', p ''proposalDigest''), (''ownerDecisionReceiptDigest'', ownerDecisionReceiptDigest),
       (''approver'', JStr OWNER), (''profileId'', p ''profileId''), (''profileGeneration'', p ''profileGeneration''),
       (''issuedAtMs'', issuedAtMs), (''notBeforeMs'', issuedAtMs), (''expiresAtMs'', expiresAtMs),
       (''maxUses'', jint 1)])"

definition lease_id :: "'a runtime_scheme \<Rightarrow> gate_config \<Rightarrow> fields \<Rightarrow> string" where
  "lease_id rt cfg unsigned = hmac rt (gc_ownerAuthorityToken cfg)
     (''owner-escalation-lease-id-v1'' @ newline @ gateJson (obj unsigned))"

definition owner_binding :: "'a runtime_scheme \<Rightarrow> gate_config \<Rightarrow> fields \<Rightarrow> string" where
  "owner_binding rt cfg core = hmac rt (gc_ownerAuthorityToken cfg)
     (''owner-escalation-authority-v1'' @ newline @ gateJson (obj core))"

definition ownerAuthority :: "gate_runtime \<Rightarrow> gate_config \<Rightarrow> js \<Rightarrow> js \<Rightarrow> js \<Rightarrow> js \<Rightarrow> js res" where
  "ownerAuthority rt cfg proposal ownerDecisionReceiptDigest issuedAtMs expiresAtMs =
     (let p = getf (fields_of proposal); action = p ''action''; snapshot = getf (fields_of (p ''snapshot'')) in
      if p ''outcome'' \<noteq> JStr ''OWNER_ESCALATION'' \<or> p ''profileId'' \<noteq> JStr GATE_PROFILE
        \<or> p ''profileGeneration'' \<noteq> JStr (gc_profileGeneration cfg) \<or> p ''policyId'' \<noteq> JStr POC_POLICY_ID
        \<or> p ''policyGeneration'' \<noteq> jint (gc_policyGeneration cfg)
        \<or> p ''policyDigest'' \<noteq> (case gc_policyDigest cfg of None \<Rightarrow> JUndef | Some d \<Rightarrow> JStr d)
        \<or> \<not> digest_is rt action (p ''actionDigest'') \<or> \<not> digest_is rt (p ''businessDiff'') (p ''businessDiffDigest'')
        \<or> \<not> validSnapshot rt (p ''snapshot'') action
        \<or> p ''snapshotDigest'' \<noteq> snapshot ''snapshotDigest'' \<or> p ''snapshotVersion'' \<noteq> snapshot ''version''
        \<or> p ''requester'' \<noteq> JStr APPROVAL_REQUESTER \<or> p ''purpose'' \<noteq> JStr APPROVAL_PURPOSE
        \<or> \<not> hexTest (p ''decisionDigest'') \<or> \<not> hexTest (p ''proposalDigest'')
        \<or> \<not> digest_is rt (obj (without ''proposalDigest'' (fields_of proposal))) (p ''proposalDigest'')
        \<or> \<not> hexTest ownerDecisionReceiptDigest \<or> \<not> lease_period issuedAtMs expiresAtMs
      then Inl OWNER_AUTHORITY_INPUT_INVALID
      else if \<not> validateAdminAiAction action OWNER_KIND then Inl ''AGENT_ACTION_SCOPE_DENIED''
      else
        (let unsigned = owner_unsigned proposal ownerDecisionReceiptDigest issuedAtMs expiresAtMs;
             core = unsigned @ [(''leaseId'', JStr (lease_id rt cfg unsigned))]
         in Inr (obj (core @ [(''binding'', JStr (owner_binding rt cfg core))]))))"

definition OWNER_AUTHORITY_KEYS :: "string list" where
  "OWNER_AUTHORITY_KEYS = [''actionDigest'', ''actor'', ''approver'', ''binding'', ''businessDiffDigest'',
     ''decisionDigest'', ''expiresAtMs'', ''issuedAtMs'', ''kind'', ''leaseId'', ''maxUses'', ''notBeforeMs'',
     ''ownerDecisionReceiptDigest'', ''policyDigest'', ''policyGeneration'', ''policyId'', ''profileGeneration'',
     ''profileId'', ''proposalDigest'', ''purpose'', ''replayKey'', ''requester'', ''scope'', ''snapshotDigest'',
     ''snapshotVersion'']"

definition owner_claims_valid ::
  "gate_runtime \<Rightarrow> gate_config \<Rightarrow> js \<Rightarrow> js \<Rightarrow> string \<Rightarrow> js \<Rightarrow> js \<Rightarrow> bool" where
  "owner_claims_valid rt cfg authority action computedDigest businessDiff businessDiffDigest \<longleftrightarrow>
     (let f = getf (fields_of authority); a = getf (fields_of action) in
      gateKeys authority OWNER_AUTHORITY_KEYS \<and> f ''kind'' = JStr OWNER_KIND \<and> f ''approver'' = JStr OWNER
      \<and> f ''maxUses'' = jint 1 \<and> f ''profileId'' = JStr GATE_PROFILE
      \<and> f ''profileGeneration'' = JStr (gc_profileGeneration cfg) \<and> f ''policyId'' = JStr POC_POLICY_ID
      \<and> f ''policyGeneration'' = jint (gc_policyGeneration cfg)
      \<and> secretEquals rt (f ''policyDigest'') (the_text (gc_policyDigest cfg))
      \<and> secretEquals rt (f ''actor'') (str_of (a ''actor''))
      \<and> gateJson (f ''scope'') = gateJson (a ''scope'')
      \<and> secretEquals rt (f ''actionDigest'') computedDigest
      \<and> (is_string businessDiffDigest \<and> secretEquals rt (f ''businessDiffDigest'') (str_of businessDiffDigest))
      \<and> digest_is rt businessDiff businessDiffDigest
      \<and> f ''requester'' = JStr APPROVAL_REQUESTER \<and> f ''purpose'' = JStr APPROVAL_PURPOSE
      \<and> hexTest (f ''snapshotDigest'') \<and> hexTest (f ''snapshotVersion'')
      \<and> secretEquals rt (f ''replayKey'') (str_of (a ''replayKey''))
      \<and> hexTest (f ''decisionDigest'') \<and> hexTest (f ''proposalDigest'')
      \<and> hexTest (f ''ownerDecisionReceiptDigest'') \<and> hexTest (f ''leaseId'') \<and> hexTest (f ''binding'')
      \<and> is_safe_integer (f ''notBeforeMs'') \<and> f ''notBeforeMs'' = f ''issuedAtMs''
      \<and> lease_period (f ''issuedAtMs'') (f ''expiresAtMs''))"

text \<open>
  The comparison of \<open>businessDiffDigest\<close> takes that value as the expected secret; where it is not a text, the next
  test, which compares it with a digest, fails. \<open>now\<close> is the one clock reading of the guard.
\<close>

definition validateOwnerAuthority ::
  "gate_runtime \<Rightarrow> gate_config \<Rightarrow> js \<Rightarrow> js \<Rightarrow> js \<Rightarrow> string \<Rightarrow> js \<Rightarrow> js \<Rightarrow> unit res" where
  "validateOwnerAuthority rt cfg now authority action computedDigest businessDiff businessDiffDigest =
     (let f = getf (fields_of authority) in
      if \<not> owner_claims_valid rt cfg authority action computedDigest businessDiff businessDiffDigest
      then Inl OWNER_AUTHORITY_INVALID
      else if \<not> secretEquals rt (f ''binding'') (owner_binding rt cfg (without ''binding'' (fields_of authority)))
      then Inl OWNER_AUTHORITY_INVALID
      else if \<not> is_safe_integer now then Inl ''AUTHORITY_CLOCK_INVALID_DENIED''
      else if int_of_js now < int_of_js (f ''notBeforeMs'') then Inl ''AUTHORITY_NOT_YET_VALID_DENIED''
      else if int_of_js now \<ge> int_of_js (f ''expiresAtMs'') then Inl ''AUTHORITY_EXPIRED_DENIED''
      else Inr ())"

subsection \<open>The effect store\<close>

datatype reservation_status = EXECUTING | APPLIED | AMBIGUOUS

definition reservation_status_text :: "reservation_status \<Rightarrow> string" where
  "reservation_status_text s = (case s of EXECUTING \<Rightarrow> ''EXECUTING'' | APPLIED \<Rightarrow> ''APPLIED'' | AMBIGUOUS \<Rightarrow> ''AMBIGUOUS'')"

record effect =
  ef_actionDigest :: js
  ef_providerResult :: js
  ef_readback :: js
  ef_receipt :: js

record reservation =
  rv_actionDigest :: js
  rv_leaseId :: js
  rv_reservedAtMs :: js
  rv_status :: reservation_status

record consumed_lease =
  cl_actionDigest :: js
  cl_replayKey :: js
  cl_reservedAtMs :: js

text \<open>Objects used as maps: own properties in the order of their creation.\<close>

record effect_store =
  st_effects :: "(string \<times> effect) list"
  st_reservations :: "(string \<times> reservation) list"
  st_leases :: "(string \<times> consumed_lease) list"

definition EMPTY_STORE :: effect_store where
  "EMPTY_STORE = \<lparr>st_effects = [], st_reservations = [], st_leases = []\<rparr>"

definition effect_js :: "effect \<Rightarrow> js" where
  "effect_js e = obj [(''actionDigest'', ef_actionDigest e), (''providerResult'', ef_providerResult e),
     (''readback'', ef_readback e), (''receipt'', ef_receipt e)]"

definition reservation_js :: "reservation \<Rightarrow> js" where
  "reservation_js r = obj [(''actionDigest'', rv_actionDigest r), (''leaseId'', rv_leaseId r),
     (''reservedAtMs'', rv_reservedAtMs r), (''status'', JStr (reservation_status_text (rv_status r)))]"

definition consumed_lease_js :: "consumed_lease \<Rightarrow> js" where
  "consumed_lease_js c = obj [(''actionDigest'', cl_actionDigest c), (''replayKey'', cl_replayKey c),
     (''reservedAtMs'', cl_reservedAtMs c)]"

definition map_js :: "('a \<Rightarrow> js) \<Rightarrow> (string \<times> 'a) list \<Rightarrow> js" where
  "map_js enc m = obj (map (\<lambda>(k, x). (k, enc x)) m)"

definition STORE_V1 :: string where "STORE_V1 = ''chimpmaera.demo/effect-store/v1''"
definition STORE_V2 :: string where "STORE_V2 = ''chimpmaera.demo/effect-store/v2''"

definition effect_store_js :: "effect_store \<Rightarrow> js" where
  "effect_store_js st = obj [(''schemaVersion'', JStr STORE_V2), (''effects'', map_js effect_js (st_effects st)),
     (''reservations'', map_js reservation_js (st_reservations st)),
     (''consumedAuthorityLeases'', map_js consumed_lease_js (st_leases st))]"

text \<open>
  \<open>JSON.parse(JSON.stringify(v))\<close>: missing values disappear from objects and become \<open>null\<close> in arrays, a
  non-finite number becomes \<open>null\<close>; \<open>None\<close> where the value itself disappears. Opaque values count as functions.
\<close>

fun json_trip :: "js \<Rightarrow> js option" where
  "json_trip JUndef = None"
| "json_trip (JOdd i) = None"
| "json_trip (JNum n) = Some (if n = NNonFinite then JNull else JNum n)"
| "json_trip (JArr i vs) = Some (arr (map (\<lambda>v. case json_trip v of None \<Rightarrow> JNull | Some w \<Rightarrow> w) vs))"
| "json_trip (JObj i kvs) = Some (obj (concat (map (\<lambda>(k, v). case json_trip v of None \<Rightarrow> [] | Some w \<Rightarrow> [(k, w)]) kvs)))"
| "json_trip v = Some v"

text \<open>Strict equality of two values of a parsed file: two objects are never the same.\<close>

definition same_primitive :: "js \<Rightarrow> js \<Rightarrow> bool" where
  "same_primitive a b \<longleftrightarrow> a = b \<and> \<not> is_record a \<and> \<not> is_array a"

definition EFFECT_STORE_INVALID :: string where
  "EFFECT_STORE_INVALID = ''EFFECT_STORE_INVALID_DENIED''"

definition effect_valid :: "gate_runtime \<Rightarrow> string \<Rightarrow> js \<Rightarrow> bool" where
  "effect_valid rt replayKey v \<longleftrightarrow>
     (let f = getf (fields_of v); r = getf (fields_of (f ''receipt'')) in
      gateKeys v [''actionDigest'', ''providerResult'', ''readback'', ''receipt'']
      \<and> r ''replayKey'' = JStr replayKey \<and> same_primitive (r ''actionDigest'') (f ''actionDigest'')
      \<and> hexTest (r ''receiptDigest'')
      \<and> JStr (json_digest rt (obj (without ''receiptDigest'' (fields_of (f ''receipt''))))) = r ''receiptDigest'')"

definition reservation_valid :: "fields \<Rightarrow> fields \<Rightarrow> string \<Rightarrow> js \<Rightarrow> bool" where
  "reservation_valid effects leases replayKey v \<longleftrightarrow>
     (let f = getf (fields_of v) in
      gateKeys v [''actionDigest'', ''leaseId'', ''reservedAtMs'', ''status'']
      \<and> f ''status'' \<in> {JStr ''EXECUTING'', JStr ''APPLIED'', JStr ''AMBIGUOUS''}
      \<and> hexTest (f ''actionDigest'') \<and> hexTest (f ''leaseId'') \<and> is_safe_integer (f ''reservedAtMs'')
      \<and> (case slot leases (to_string (f ''leaseId'')) of
           Own c \<Rightarrow> getf (fields_of c) ''replayKey'' = JStr replayKey
         | _ \<Rightarrow> False)
      \<and> (f ''status'' = JStr ''APPLIED'' \<longleftrightarrow> slot effects replayKey \<noteq> Absent))"

definition lease_valid :: "string \<Rightarrow> js \<Rightarrow> bool" where
  "lease_valid leaseId v \<longleftrightarrow>
     (let f = getf (fields_of v) in
      gateKeys v [''actionDigest'', ''replayKey'', ''reservedAtMs'']
      \<and> hex64 leaseId \<and> hexTest (f ''actionDigest'') \<and> is_safe_integer (f ''reservedAtMs''))"

definition read_effect :: "js \<Rightarrow> effect" where
  "read_effect v = (let f = getf (fields_of v) in
     \<lparr>ef_actionDigest = f ''actionDigest'', ef_providerResult = f ''providerResult'',
      ef_readback = f ''readback'', ef_receipt = f ''receipt''\<rparr>)"

definition read_reservation :: "js \<Rightarrow> reservation" where
  "read_reservation v = (let f = getf (fields_of v) in
     \<lparr>rv_actionDigest = f ''actionDigest'', rv_leaseId = f ''leaseId'', rv_reservedAtMs = f ''reservedAtMs'',
      rv_status = (if f ''status'' = JStr ''EXECUTING'' then EXECUTING
        else if f ''status'' = JStr ''APPLIED'' then APPLIED else AMBIGUOUS)\<rparr>)"

definition read_lease :: "js \<Rightarrow> consumed_lease" where
  "read_lease v = (let f = getf (fields_of v) in
     \<lparr>cl_actionDigest = f ''actionDigest'', cl_replayKey = f ''replayKey'', cl_reservedAtMs = f ''reservedAtMs''\<rparr>)"

definition read_map :: "(js \<Rightarrow> 'a) \<Rightarrow> js \<Rightarrow> (string \<times> 'a) list" where
  "read_map dec v = map (\<lambda>(k, x). (k, dec x)) (fields_of v)"

definition normalizeEffectStore :: "gate_runtime \<Rightarrow> js \<Rightarrow> effect_store res" where
  "normalizeEffectStore rt v =
     (let f = getf (fields_of v);
          isV1 = (f ''schemaVersion'' = JStr STORE_V1 \<and> gateKeys v [''effects'', ''schemaVersion'']);
          isV2 = (f ''schemaVersion'' = JStr STORE_V2
            \<and> gateKeys v [''consumedAuthorityLeases'', ''effects'', ''reservations'', ''schemaVersion'']);
          effects = fields_of (f ''effects''); reservations = fields_of (f ''reservations'');
          leases = fields_of (f ''consumedAuthorityLeases'') in
      if \<not> is_record v \<or> (\<not> isV1 \<and> \<not> isV2) then Inl EFFECT_STORE_INVALID
      else if \<not> is_record (f ''effects'')
        \<or> (isV2 \<and> (\<not> is_record (f ''reservations'') \<or> \<not> is_record (f ''consumedAuthorityLeases'')))
      then Inl EFFECT_STORE_INVALID
      else if \<not> list_all (\<lambda>(k, x). effect_valid rt k x) effects then Inl EFFECT_STORE_INVALID
      else if isV2 \<and> (\<not> list_all (\<lambda>(k, x). reservation_valid effects leases k x) reservations
        \<or> \<not> list_all (\<lambda>(k, x). lease_valid k x) leases) then Inl EFFECT_STORE_INVALID
      else Inr \<lparr>st_effects = read_map read_effect (f ''effects''),
             st_reservations = (if isV2 then read_map read_reservation (f ''reservations'') else []),
             st_leases = (if isV2 then read_map read_lease (f ''consumedAuthorityLeases'') else [])\<rparr>)"

end
