(* ===== verification/GateExecute.thy ===== *)
theory GateExecute
  imports MutationGate
begin

text \<open>
  \<open>DemoMutationGate.execute\<close>. The part before the first \<open>await\<close> is \<open>execute_begin\<close>; \<open>execute_reserve\<close> runs when the
  provider has shown its snapshot (owner leases only), \<open>execute_failed\<close> when the mutation or the readback threw and
  \<open>execute_finish\<close> when the readback has arrived. The policy fence answers \<open>assertPolicyUse\<close>, as
  \<open>demo/runtime/server.mjs\<close> wires it.
\<close>

record gate =
  gate_store :: effect_store
  gate_file :: json_file

definition new_gate :: "gate_runtime \<Rightarrow> gate_config \<Rightarrow> json_file \<Rightarrow> gate res" where
  "new_gate rt cfg file = res_bind (gate_config_valid cfg) (\<lambda>_.
     (case file of
        NoFile \<Rightarrow> Inr \<lparr>gate_store = EMPTY_STORE, gate_file = file\<rparr>
      | Unparsable \<Rightarrow> Inl ''SyntaxError''
      | Json v \<Rightarrow> res_bind (normalizeEffectStore rt v) (\<lambda>st. Inr \<lparr>gate_store = st, gate_file = file\<rparr>)))"

definition gate_persist :: "bool \<Rightarrow> gate \<Rightarrow> gate res" where
  "gate_persist writes g =
     (if writes then Inr (g\<lparr>gate_file := Json (the (json_trip (effect_store_js (gate_store g))))\<rparr>)
      else Inl WRITE_ERROR)"

definition put_key :: "string \<Rightarrow> 'a \<Rightarrow> (string \<times> 'a) list \<Rightarrow> (string \<times> 'a) list" where
  "put_key k x m = (if k \<in> set (map fst m) then map (\<lambda>(k', y). (k', if k' = k then x else y)) m else m @ [(k, x)])"

text \<open>
  The constants of an \<open>execute\<close> that outlive its guards: the action, its digest, the approval and the authority presented
  with it (the one is for the installer's actions, the other for the agent's) and whether that is an owner lease.
\<close>

record effect_call =
  ec_action :: js
  ec_digest :: string
  ec_approval :: js
  ec_authority :: js
  ec_ownerLease :: bool

definition ec_key :: "effect_call \<Rightarrow> string" where
  "ec_key c = str_of (getf (fields_of (ec_action c)) ''replayKey'')"

definition ec_lease :: "effect_call \<Rightarrow> string" where
  "ec_lease c = to_string (getf (fields_of (ec_authority c)) ''leaseId'')"

definition ec_agent :: "effect_call \<Rightarrow> bool" where
  "ec_agent c \<longleftrightarrow> getf (fields_of (ec_action c)) ''actor'' = JStr AGENT"

definition OWNER_ENVELOPE_KEYS :: "string list" where
  "OWNER_ENVELOPE_KEYS = [''action'', ''actionDigest'', ''authority'', ''businessDiff'', ''businessDiffDigest'']"

text \<open>
  The guards up to \<open>assertPolicyUse\<close>. \<open>ownerLease\<close> looks at the kind of the authority alone; an installer action
  presented with one of that kind is denied, since its envelope has no room for an approval.
\<close>

definition execute_guard ::
  "gate_runtime \<Rightarrow> gate_config \<Rightarrow> js \<Rightarrow> http_request \<Rightarrow> js \<Rightarrow> effect_call res" where
  "execute_guard rt cfg now request envelope =
     res_bind (authorizeLocalRequest rt (gc_apiToken cfg) (gc_expectedOrigin cfg) True request) (\<lambda>_.
     let e = getf (fields_of envelope); action = e ''action''; authority = e ''authority'';
         ownerLease = (getf (fields_of authority) ''kind'' = JStr OWNER_KIND);
         a = getf (fields_of action); agent = (a ''actor'' = JStr AGENT) in
     if ownerLease \<and> \<not> gateKeys envelope OWNER_ENVELOPE_KEYS then Inl ''OWNER_EFFECT_ENVELOPE_INVALID_DENIED''
     else
       res_bind (validateActionShape action) (\<lambda>_.
       if fld2 action ''scope'' ''actor'' \<noteq> a ''actor'' then Inl ''IDENTITY_MISMATCH_DENIED''
       else
         res_bind (validateMutationScope action) (\<lambda>_.
         let computedDigest = json_digest rt action;
             call = \<lparr>ec_action = action, ec_digest = computedDigest, ec_approval = e ''approval'',
               ec_authority = authority, ec_ownerLease = ownerLease\<rparr> in
         if \<not> secretEquals rt (e ''actionDigest'') computedDigest then Inl ''ACTION_DIGEST_MISMATCH_DENIED''
         else if agent \<and> ownerLease then
           (if \<not> validateAdminAiAction action OWNER_KIND then Inl ''AGENT_ACTION_SCOPE_DENIED''
            else res_bind (validateOwnerAuthority rt cfg now authority action computedDigest
                (e ''businessDiff'') (e ''businessDiffDigest'')) (\<lambda>_. Inr call))
         else if agent then
           (if \<not> validateAdminAiAction action AGENT_KIND then Inl ''AGENT_ACTION_SCOPE_DENIED''
            else if \<not> validateAgentAuthority rt cfg authority action computedDigest
            then Inl ''AGENT_AUTHORITY_INVALID_DENIED''
            else Inr call)
         else if \<not> approved rt cfg (e ''approval'') action computedDigest then Inl ''APPROVAL_BINDING_INVALID_DENIED''
         else Inr call)))"

definition use_of :: "effect_call \<Rightarrow> use_binding" where
  "use_of c = (let f = getf (fields_of (ec_authority c)) in
     \<lparr>ub_tenant = fld2 (ec_action c) ''scope'' ''tenant'', ub_policyId = f ''policyId'',
      ub_policyGeneration = f ''policyGeneration'', ub_policySourceDigest = f ''policyDigest''\<rparr>)"

text \<open>Only the actions of the agent are uses of the policy.\<close>

definition policy_use :: "runtime \<Rightarrow> string \<Rightarrow> fence \<Rightarrow> effect_call \<Rightarrow> fence \<times> unit res" where
  "policy_use rt token w c = (if ec_agent c then fence_assertUseBinding rt token w (use_of c) else (w, Inr ()))"

text \<open>What the first part comes to: a denial, the stored answer, or a call of the provider.\<close>

datatype begun_effect = Denied string | Replayed effect | AwaitSnapshot | AwaitMutation

definition LEASE_REPLAY :: string where
  "LEASE_REPLAY = ''AUTHORITY_LEASE_REPLAY_DENIED''"
definition EFFECT_REPLAY :: string where
  "EFFECT_REPLAY = ''EFFECT_REPLAY_OR_AMBIGUOUS_DENIED''"

text \<open>The durable replay checks of an owner lease, made before and after the snapshot is read.\<close>

definition replay_checks :: "effect_store \<Rightarrow> effect_call \<Rightarrow> unit res" where
  "replay_checks st c =
     (if slot (st_leases st) (ec_lease c) \<noteq> Absent then Inl LEASE_REPLAY
      else if slot (st_effects st) (ec_key c) \<noteq> Absent \<or> slot (st_reservations st) (ec_key c) \<noteq> Absent
      then Inl EFFECT_REPLAY
      else Inr ())"

text \<open>The expected secrets are texts: the guards of the agent's authority have made sure of that.\<close>

definition same_authority :: "gate_runtime \<Rightarrow> effect \<Rightarrow> js \<Rightarrow> bool" where
  "same_authority rt prior authority \<longleftrightarrow>
     (let r = getf (fields_of (ef_receipt prior)); f = getf (fields_of authority) in
      secretEquals rt (r ''decisionDigest'') (str_of (f ''decisionDigest''))
      \<and> r ''policyId'' = f ''policyId'' \<and> r ''policyGeneration'' = f ''policyGeneration''
      \<and> secretEquals rt (r ''policyDigest'') (str_of (f ''policyDigest'')))"

definition execute_branch :: "gate_runtime \<Rightarrow> gate_config \<Rightarrow> effect_store \<Rightarrow> effect_call \<Rightarrow> begun_effect" where
  "execute_branch rt cfg st c =
     (if ec_ownerLease c then
        (case replay_checks st c of
           Inl e \<Rightarrow> Denied e
         | Inr _ \<Rightarrow> if gc_readsSnapshots cfg then AwaitSnapshot else Denied ''APPROVAL_SNAPSHOT_UNAVAILABLE_DENIED'')
      else
        (case slot (st_effects st) (ec_key c) of
           Absent \<Rightarrow> AwaitMutation
         | Inherited \<Rightarrow> Denied ''REPLAY_KEY_CONFLICT_DENIED''
         | Own prior \<Rightarrow>
             if ef_actionDigest prior \<noteq> JStr (ec_digest c) then Denied ''REPLAY_KEY_CONFLICT_DENIED''
             else if ec_agent c \<and> \<not> same_authority rt prior (ec_authority c)
             then Denied ''REPLAY_AUTHORITY_CONFLICT_DENIED''
             else Replayed prior))"

definition execute_begin ::
  "gate_runtime \<Rightarrow> gate_config \<Rightarrow> string \<Rightarrow> js \<Rightarrow> http_request \<Rightarrow> js \<Rightarrow> effect_store \<Rightarrow> fence
    \<Rightarrow> fence \<times> (effect_call \<times> begun_effect) res" where
  "execute_begin rt cfg token now request envelope st w =
     (case execute_guard rt cfg now request envelope of
        Inl e \<Rightarrow> (w, Inl e)
      | Inr c \<Rightarrow>
          (case policy_use (runtime.truncate rt) token w c of
             (w', Inl e) \<Rightarrow> (w', Inl e)
           | (w', Inr _) \<Rightarrow> (w', Inr (c, execute_branch rt cfg st c))))"

subsection \<open>After the snapshot\<close>

text \<open>An answer of the provider: it threw, or it gave a value.\<close>

datatype reply = Threw string | Gave js

definition reserved_store :: "effect_store \<Rightarrow> effect_call \<Rightarrow> js \<Rightarrow> effect_store" where
  "reserved_store st c reservedAtMs = st
     \<lparr>st_leases := put_key (ec_lease c) \<lparr>cl_actionDigest = JStr (ec_digest c), cl_replayKey = JStr (ec_key c),
          cl_reservedAtMs = reservedAtMs\<rparr> (st_leases st),
      st_reservations := put_key (ec_key c) \<lparr>rv_actionDigest = JStr (ec_digest c),
          rv_leaseId = getf (fields_of (ec_authority c)) ''leaseId'', rv_reservedAtMs = reservedAtMs,
          rv_status = EXECUTING\<rparr> (st_reservations st)\<rparr>"

text \<open>
  The part between the snapshot and the mutation. When it returns, the gate calls \<open>mutate\<close> in the same part: the
  effect of the same key, which the code looks for once more, is still absent.
\<close>

definition execute_reserve :: "gate_runtime \<Rightarrow> bool \<Rightarrow> js \<Rightarrow> gate \<Rightarrow> effect_call \<Rightarrow> reply \<Rightarrow> gate \<times> unit res" where
  "execute_reserve rt writes now g c answer =
     (case answer of
        Threw e \<Rightarrow> (g, Inl e)
      | Gave snapshot \<Rightarrow>
          (let s = getf (fields_of snapshot); f = getf (fields_of (ec_authority c)) in
           if \<not> validSnapshot rt snapshot (ec_action c) then (g, Inl SNAPSHOT_INVALID)
           else if s ''snapshotDigest'' \<noteq> f ''snapshotDigest'' \<or> s ''version'' \<noteq> f ''snapshotVersion''
           then (g, Inl ''APPROVAL_SNAPSHOT_STALE_DENIED'')
           else
             (case replay_checks (gate_store g) c of
                Inl e \<Rightarrow> (g, Inl e)
              | Inr _ \<Rightarrow>
                  (let g' = g\<lparr>gate_store := reserved_store (gate_store g) c now\<rparr> in
                   case gate_persist writes g' of
                     Inl e \<Rightarrow> (g', Inl e)
                   | Inr g'' \<Rightarrow> (g'', Inr ())))))"

subsection \<open>After the mutation\<close>

definition marked :: "string \<Rightarrow> reservation_status \<Rightarrow> effect_store \<Rightarrow> effect_store option" where
  "marked k s st =
     (case map_of (st_reservations st) k of
        None \<Rightarrow> None
      | Some r \<Rightarrow> Some (st\<lparr>st_reservations := put_key k (r\<lparr>rv_status := s\<rparr>) (st_reservations st)\<rparr>))"

text \<open>The \<open>catch\<close> block: a reserved key becomes ambiguous; the exception is thrown on.\<close>

definition execute_failed :: "bool \<Rightarrow> gate \<Rightarrow> effect_call \<Rightarrow> string \<Rightarrow> gate \<times> js res" where
  "execute_failed writes g c e =
     (if \<not> ec_ownerLease c then (g, Inl e)
      else
        (case marked (ec_key c) AMBIGUOUS (gate_store g) of
           None \<Rightarrow> (g, Inl GATE_TYPE_ERROR)
         | Some st \<Rightarrow>
             (let g' = g\<lparr>gate_store := st\<rparr> in
              case gate_persist writes g' of
                Inl e' \<Rightarrow> (g', Inl e')
              | Inr g'' \<Rightarrow> (g'', Inl e))))"

definition CONTACT_FIELDS :: "string list" where
  "CONTACT_FIELDS = [''description'', ''emailAddress'', ''firstName'', ''lastName'']"

definition validateSemanticReadback :: "gate_runtime \<Rightarrow> js \<Rightarrow> js \<Rightarrow> bool" where
  "validateSemanticReadback rt action readback \<longleftrightarrow>
     (let r = getf (fields_of readback); body = getf (fields_of (fld2 action ''payload'' ''body'')) in
      if getf (fields_of action) ''actor'' \<noteq> JStr AGENT then True
      else if fld2 action ''scope'' ''provider'' = JStr ''espocrm'' then
        list_all (\<lambda>field. r field = body field) CONTACT_FIELDS
      else
        stringifiable (r ''ref_client'') \<and> JStr (to_string (coalesce (r ''ref_client'') (JStr []))) = body ''ref_client''
        \<and> JNum (js_number (number_text rt) (r ''socid'')) = body ''socid''
        \<and> JNum (js_number (number_text rt) (r ''date'')) = body ''date'')"

definition reference_of :: "js \<Rightarrow> js \<Rightarrow> js" where
  "reference_of readback providerResult =
     coalesce (getf (fields_of readback) ''id'')
       (coalesce (getf (fields_of providerResult) ''id'') providerResult)"

text \<open>The part of a receipt an authority adds; a property that is missing in the authority is left out.\<close>

definition authority_fields :: "js \<Rightarrow> fields" where
  "authority_fields authority =
     (let f = getf (fields_of authority) in
      [(''authority'', obj
          ([(''kind'', f ''kind''), (''policyId'', f ''policyId''), (''policyGeneration'', f ''policyGeneration'')]
           @ (if f ''leaseId'' = JUndef then []
              else [(''leaseId'', f ''leaseId''), (''expiresAtMs'', f ''expiresAtMs''), (''maxUses'', f ''maxUses'')]))),
       (''decisionDigest'', f ''decisionDigest''), (''policyId'', f ''policyId''),
       (''policyGeneration'', f ''policyGeneration''), (''policyDigest'', f ''policyDigest'')]
      @ (if f ''ownerDecisionReceiptDigest'' = JUndef then []
         else map (\<lambda>k. (k, f k)) [''ownerDecisionReceiptDigest'', ''businessDiffDigest'', ''snapshotDigest'',
           ''snapshotVersion'', ''requester'', ''purpose'', ''profileId'', ''profileGeneration'']))"

definition receiptCore :: "'a runtime_scheme \<Rightarrow> effect_call \<Rightarrow> js \<Rightarrow> js \<Rightarrow> fields" where
  "receiptCore rt c providerResult readback =
     (let a = getf (fields_of (ec_action c)) in
      [(''schemaVersion'', JStr
          (if ec_agent c \<and> getf (fields_of (ec_authority c)) ''kind'' = JStr OWNER_KIND then ''chimpmaera.demo/effect-receipt/v3''
           else if \<not> ec_agent c then ''chimpmaera.demo/effect-receipt/v1''
           else ''chimpmaera.demo/effect-receipt/v2'')),
       (''actionDigest'', JStr (ec_digest c)), (''actor'', a ''actor''), (''scope'', a ''scope''),
       (''replayKey'', a ''replayKey''),
       (''provider'', obj [(''objectType'', fld2 (ec_action c) ''scope'' ''entity''),
          (''objectReference'', JStr (to_string (reference_of readback providerResult)))]),
       (''outcome'', JStr ''PROVIDER_MUTATION_READBACK_VERIFIED''), (''replayState'', JStr ''FIRST_EXECUTION''),
       (''readbackDigest'', JStr (json_digest rt readback))]
      @ (if ec_agent c then authority_fields (ec_authority c) else []))"

definition effect_of :: "gate_runtime \<Rightarrow> effect_call \<Rightarrow> js \<Rightarrow> js \<Rightarrow> effect res" where
  "effect_of rt c providerResult readback =
     (if \<not> is_record readback then Inl ''PROVIDER_READBACK_REQUIRED''
      else if \<not> validateSemanticReadback rt (ec_action c) readback then Inl ''PROVIDER_READBACK_MISMATCH_DENIED''
      else if \<not> stringifiable (reference_of readback providerResult) then Inl GATE_TYPE_ERROR
      else
        (let core = receiptCore rt c providerResult readback in
         Inr \<lparr>ef_actionDigest = JStr (ec_digest c), ef_providerResult = providerResult, ef_readback = readback,
              ef_receipt = obj (core @ [(''receiptDigest'', JStr (json_digest rt (obj core)))])\<rparr>))"

definition answer_js :: "bool \<Rightarrow> effect \<Rightarrow> js" where
  "answer_js replayed e = obj
     ([(''status'', JStr ''PASS''), (''replayed'', JBool replayed)]
      @ (if replayed then [(''replayState'', JStr ''REPLAY_NO_DUPLICATE'')] else [])
      @ [(''providerResult'', ef_providerResult e), (''readback'', ef_readback e), (''receipt'', ef_receipt e)])"

text \<open>The two flags are the writes of the \<open>try\<close> block and of the \<open>catch\<close> block.\<close>

definition execute_finish ::
  "gate_runtime \<Rightarrow> bool \<Rightarrow> bool \<Rightarrow> gate \<Rightarrow> effect_call \<Rightarrow> js \<Rightarrow> reply \<Rightarrow> gate \<times> js res" where
  "execute_finish rt writes1 writes2 g c providerResult answer =
     (case answer of
        Threw e \<Rightarrow> execute_failed writes2 g c e
      | Gave readback \<Rightarrow>
          (case effect_of rt c providerResult readback of
             Inl e \<Rightarrow> execute_failed writes2 g c e
           | Inr x \<Rightarrow>
               (let st = (gate_store g)\<lparr>st_effects := put_key (ec_key c) x (st_effects (gate_store g))\<rparr>;
                    applied = (if ec_ownerLease c then marked (ec_key c) APPLIED st else Some st) in
                case applied of
                  None \<Rightarrow> execute_failed writes2 (g\<lparr>gate_store := st\<rparr>) c GATE_TYPE_ERROR
                | Some st' \<Rightarrow>
                    (let g' = g\<lparr>gate_store := st'\<rparr> in
                     case gate_persist writes1 g' of
                       Inl e \<Rightarrow> execute_failed writes2 g' c e
                     | Inr g'' \<Rightarrow> (g'', Inr (answer_js False x))))))"

end
