(* ===== verification/GateRuns.thy ===== *)
theory GateRuns
  imports GateExecute FenceLaws
begin

text \<open>
  The gate in operation: calls of \<open>execute\<close> that interleave at their \<open>await\<close>s in any order, a provider that answers
  anything, writes that may fail, restarts from the file at any moment, and a policy fence that is activated and
  frozen in between. The log holds the mutations the provider was asked for, in order, each with the configuration of
  the gate and the snapshot that released it (none for a direct action).
\<close>

datatype stage = Reading | Mutating | ReadingBack js | Over

record gate_system =
  gs_cfg :: gate_config
  gs_gate :: gate
  gs_fence :: fence
  gs_calls :: "(effect_call \<times> stage) list"
  gs_log :: "(gate_config \<times> effect_call \<times> js) list"

text \<open>A call starts: it may be over at once, wait for its snapshot, or have asked for its mutation.\<close>

definition launch :: "gate_system \<Rightarrow> fence \<Rightarrow> (effect_call \<times> begun_effect) res \<Rightarrow> gate_system" where
  "launch s w r =
     (case r of
        Inr (c, AwaitSnapshot) \<Rightarrow> s\<lparr>gs_fence := w, gs_calls := gs_calls s @ [(c, Reading)]\<rparr>
      | Inr (c, AwaitMutation) \<Rightarrow> s\<lparr>gs_fence := w, gs_calls := gs_calls s @ [(c, Mutating)],
          gs_log := gs_log s @ [(gs_cfg s, c, JUndef)]\<rparr>
      | _ \<Rightarrow> s\<lparr>gs_fence := w\<rparr>)"

definition snapshot_of_reply :: "reply \<Rightarrow> js" where
  "snapshot_of_reply a = (case a of Threw e \<Rightarrow> JUndef | Gave v \<Rightarrow> v)"

definition released :: "gate_system \<Rightarrow> nat \<Rightarrow> effect_call \<Rightarrow> reply \<Rightarrow> gate \<Rightarrow> unit res \<Rightarrow> gate_system" where
  "released s i c answer g r =
     (case r of
        Inl e \<Rightarrow> s\<lparr>gs_gate := g, gs_calls := (gs_calls s)[i := (c, Over)]\<rparr>
      | Inr _ \<Rightarrow> s\<lparr>gs_gate := g, gs_calls := (gs_calls s)[i := (c, Mutating)],
          gs_log := gs_log s @ [(gs_cfg s, c, snapshot_of_reply answer)]\<rparr>)"

inductive gate_step :: "gate_runtime \<Rightarrow> string \<Rightarrow> gate_system \<Rightarrow> gate_system \<Rightarrow> bool"
  for rt :: gate_runtime and token :: string where
  step_begin: "execute_begin rt (gs_cfg s) token now request envelope (gate_store (gs_gate s)) (gs_fence s) = (w, r)
    \<Longrightarrow> gate_step rt token s (launch s w r)"
| step_reserve: "i < length (gs_calls s) \<Longrightarrow> gs_calls s ! i = (c, Reading)
    \<Longrightarrow> execute_reserve rt writes now (gs_gate s) c answer = (g, r)
    \<Longrightarrow> gate_step rt token s (released s i c answer g r)"
| step_mutated: "i < length (gs_calls s) \<Longrightarrow> gs_calls s ! i = (c, Mutating)
    \<Longrightarrow> gate_step rt token s (s\<lparr>gs_calls := (gs_calls s)[i := (c, ReadingBack v)]\<rparr>)"
| step_failed: "i < length (gs_calls s) \<Longrightarrow> gs_calls s ! i = (c, Mutating)
    \<Longrightarrow> execute_failed writes (gs_gate s) c e = (g, r)
    \<Longrightarrow> gate_step rt token s (s\<lparr>gs_gate := g, gs_calls := (gs_calls s)[i := (c, Over)]\<rparr>)"
| step_finish: "i < length (gs_calls s) \<Longrightarrow> gs_calls s ! i = (c, ReadingBack v)
    \<Longrightarrow> execute_finish rt writes1 writes2 (gs_gate s) c v answer = (g, r)
    \<Longrightarrow> gate_step rt token s (s\<lparr>gs_gate := g, gs_calls := (gs_calls s)[i := (c, Over)]\<rparr>)"
| step_fence_activate: "fence_activate (runtime.truncate rt) token writes now (gs_fence s) cand auth = (w, x)
    \<Longrightarrow> gate_step rt token s (s\<lparr>gs_fence := w\<rparr>)"
| step_fence_freeze: "freezeDispatch (runtime.truncate rt) token writes now (gs_fence s) reason = (w, x)
    \<Longrightarrow> gate_step rt token s (s\<lparr>gs_fence := w\<rparr>)"
| step_restart: "new_gate rt cfg (gate_file (gs_gate s)) = Inr g
    \<Longrightarrow> gate_step rt token s (s\<lparr>gs_cfg := cfg, gs_gate := g, gs_calls := []\<rparr>)"
| step_killed: "i < length (gs_calls s) \<Longrightarrow> gs_calls s ! i = (c, Reading)
    \<Longrightarrow> execute_reserve rt writes now (gs_gate s) c answer = (g', Inr ())
    \<Longrightarrow> new_gate rt cfg (gate_file g') = Inr g
    \<Longrightarrow> gate_step rt token s (s\<lparr>gs_cfg := cfg, gs_gate := g, gs_calls := []\<rparr>)"

text \<open>\<open>step_killed\<close>: the process stops after the reservation was written and before the mutation was asked for.\<close>

definition gate_reach :: "gate_runtime \<Rightarrow> string \<Rightarrow> gate_system \<Rightarrow> bool" where
  "gate_reach rt token s \<longleftrightarrow> (\<exists>cfg w ss g. fence_run (runtime.truncate rt) token w ss \<and> new_gate rt cfg NoFile = Inr g
     \<and> (gate_step rt token)\<^sup>*\<^sup>* \<lparr>gs_cfg = cfg, gs_gate = g, gs_fence = w, gs_calls = [], gs_log = []\<rparr> s)"

subsection \<open>The parts case by case\<close>

lemma persist_store: "gate_persist writes g = Inr g' \<Longrightarrow> gate_store g' = gate_store g"
  by (auto simp: gate_persist_def split: if_splits)

lemma execute_reserve_cases:
  assumes "execute_reserve rt writes now g c answer = (g', r)"
  obtains (denied) e where "r = Inl e" "g' = g"
  | (unwritten) v where "answer = Gave v" "r = Inl WRITE_ERROR" "replay_checks (gate_store g) c = Inr ()"
      "g' = g\<lparr>gate_store := reserved_store (gate_store g) c now\<rparr>"
  | (reserved) v where "answer = Gave v" "r = Inr ()" "replay_checks (gate_store g) c = Inr ()"
      "validSnapshot rt v (ec_action c)"
      "getf (fields_of v) ''snapshotDigest'' = getf (fields_of (ec_authority c)) ''snapshotDigest''"
      "getf (fields_of v) ''version'' = getf (fields_of (ec_authority c)) ''snapshotVersion''"
      "gate_store g' = reserved_store (gate_store g) c now"
      "gate_file g' = Json (the (json_trip (effect_store_js (gate_store g'))))"
proof (cases answer)
  case (Threw e)
  show thesis by (rule denied [of e]) (use assms Threw in \<open>simp_all add: execute_reserve_def\<close>)
next
  case (Gave v)
  show thesis
  proof (cases "replay_checks (gate_store g) c")
    case (Inl e)
    have "isl r \<and> g' = g"
      using assms Gave by (simp add: execute_reserve_def Let_def Inl split: if_splits) (metis sum.disc(1))+
    with denied show thesis by (auto simp: isl_def)
  next
    case (Inr u)
    define ok where "ok \<longleftrightarrow> validSnapshot rt v (ec_action c)
      \<and> getf (fields_of v) ''snapshotDigest'' = getf (fields_of (ec_authority c)) ''snapshotDigest''
      \<and> getf (fields_of v) ''version'' = getf (fields_of (ec_authority c)) ''snapshotVersion''"
    show thesis
    proof (cases ok)
      case False
      with assms Gave Inr have "\<exists>e. r = Inl e \<and> g' = g"
        by (auto simp: execute_reserve_def Let_def ok_def split: if_splits)
      with denied show thesis by blast
    next
      case True
      note e = assms [unfolded execute_reserve_def Let_def Gave reply.case, simplified, unfolded Inr, simplified]
      show thesis
      proof (cases writes)
        case True
        show thesis by (rule reserved [OF Gave]) (use True \<open>ok\<close> e Inr in \<open>auto simp: ok_def gate_persist_def\<close>)
      next
        case False
        show thesis by (rule unwritten [OF Gave]) (use False \<open>ok\<close> e Inr in \<open>auto simp: ok_def gate_persist_def\<close>)
      qed
    qed
  qed
qed

text \<open>
  What every operation does to the leases and replay keys that are used up: none is forgotten, and the
  file is left alone or holds the new store.
\<close>

definition used_leases :: "gate \<Rightarrow> string set" where
  "used_leases g = set (map fst (st_leases (gate_store g)))"

definition used_keys :: "gate \<Rightarrow> string set" where
  "used_keys g = set (map fst (st_reservations (gate_store g)))"

definition store_file :: "effect_store \<Rightarrow> json_file" where
  "store_file st = Json (the (json_trip (effect_store_js st)))"

definition gate_later :: "gate \<Rightarrow> gate \<Rightarrow> bool" where
  "gate_later g g' \<longleftrightarrow> used_leases g \<subseteq> used_leases g' \<and> used_keys g \<subseteq> used_keys g'
     \<and> (gate_file g' = gate_file g \<or> gate_file g' = store_file (gate_store g'))"

lemma gate_later_refl [simp]: "gate_later g g"
  by (simp add: gate_later_def)

lemma gate_later_trans: "gate_later g g' \<Longrightarrow> gate_later g' g'' \<Longrightarrow> gate_file g' = gate_file g \<Longrightarrow> gate_later g g''"
  by (auto simp: gate_later_def)

lemma set_put [simp]: "fst ` set (put_key k x m) = insert k (fst ` set m)"
  by (force simp: put_key_def)

lemma map_of_replace: "map_of (map (\<lambda>(k', y). (k', if k' = k then x else y)) m) k' =
    (if k' = k then map_option (\<lambda>_. x) (map_of m k) else map_of m k')"
  by (induction m) auto

lemma map_of_put [simp]: "map_of (put_key k x m) k' = (if k' = k then Some x else map_of m k')"
proof (cases "k \<in> set (map fst m)")
  case True
  then obtain y where "map_of m k = Some y" by (metis map_of_eq_None_iff not_Some_eq set_map)
  with True show ?thesis by (simp add: put_key_def map_of_replace)
next
  case False
  then have "map_of m k = None" by (simp add: map_of_eq_None_iff)
  with False show ?thesis by (auto simp: put_key_def map_add_def split: option.splits)
qed

lemma marked_keys:
  assumes "marked k s st = Some st'"
  shows "st_leases st' = st_leases st" "set (map fst (st_reservations st')) = set (map fst (st_reservations st))"
    "st_effects st' = st_effects st"
proof -
  obtain r where r: "map_of (st_reservations st) k = Some r"
    and st': "st' = st\<lparr>st_reservations := put_key k (r\<lparr>rv_status := s\<rparr>) (st_reservations st)\<rparr>"
    using assms by (auto simp: marked_def split: option.splits)
  show "st_leases st' = st_leases st" "st_effects st' = st_effects st" by (simp_all add: st')
  have "k \<in> set (map fst (st_reservations st))" using r by (metis map_of_eq_None_iff option.distinct(1) set_map)
  then show "set (map fst (st_reservations st')) = set (map fst (st_reservations st))"
    by (simp add: st' insert_absorb)
qed

lemma persist_later:
  assumes "gate_later g (g\<lparr>gate_store := st\<rparr>)"
  shows "case gate_persist writes (g\<lparr>gate_store := st\<rparr>) of
    Inl e \<Rightarrow> True | Inr g' \<Rightarrow> gate_later g g'"
  using assms by (simp add: gate_persist_def gate_later_def used_leases_def used_keys_def store_file_def)

lemma marked_later: "marked k s (gate_store g) = Some st \<Longrightarrow> gate_later g (g\<lparr>gate_store := st\<rparr>)"
  by (simp only: gate_later_def used_leases_def used_keys_def) (simp add: marked_keys del: set_map)

lemma execute_failed_later:
  assumes "execute_failed writes g c e = (g', r)"
  shows "gate_later g g'"
proof (cases "ec_ownerLease c")
  case True
  show ?thesis
  proof (cases "marked (ec_key c) AMBIGUOUS (gate_store g)")
    case None
    with assms True show ?thesis by (simp add: execute_failed_def)
  next
    case (Some st)
    note l = marked_later [OF Some]
    from assms True Some persist_later [OF l, of writes] l show ?thesis
      by (simp add: execute_failed_def Let_def split: sum.splits)
  qed
qed (use assms in \<open>simp add: execute_failed_def\<close>)

lemma execute_finish_later:
  assumes "execute_finish rt writes1 writes2 g c v answer = (g', r)"
  shows "gate_later g g'"
proof (cases answer)
  case (Threw e)
  with assms show ?thesis by (simp add: execute_finish_def execute_failed_later)
next
  case (Gave rb)
  show ?thesis
  proof (cases "effect_of rt c v rb")
    case (Inl e)
    with assms Gave show ?thesis by (simp add: execute_finish_def execute_failed_later)
  next
    case (Inr x)
    define st where "st = (gate_store g)\<lparr>st_effects := put_key (ec_key c) x (st_effects (gate_store g))\<rparr>"
    have l: "gate_later g (g\<lparr>gate_store := st\<rparr>)" by (simp add: gate_later_def used_leases_def used_keys_def st_def)
    define applied where "applied = (if ec_ownerLease c then marked (ec_key c) APPLIED st else Some st)"
    have e: "execute_finish rt writes1 writes2 g c v answer = (case applied of
        None \<Rightarrow> execute_failed writes2 (g\<lparr>gate_store := st\<rparr>) c GATE_TYPE_ERROR
      | Some st' \<Rightarrow> (case gate_persist writes1 (g\<lparr>gate_store := st'\<rparr>) of
             Inl e \<Rightarrow> execute_failed writes2 (g\<lparr>gate_store := st'\<rparr>) c e
           | Inr g'' \<Rightarrow> (g'', Inr (answer_js False x))))"
      unfolding applied_def st_def by (simp add: execute_finish_def Gave Inr Let_def)
    show ?thesis
    proof (cases applied)
      case None
      from assms [unfolded e None] have "gate_later (g\<lparr>gate_store := st\<rparr>) g'"
        by (auto intro: execute_failed_later)
      from gate_later_trans [OF l this] show ?thesis by simp
    next
      case (Some st')
      have "gate_later (g\<lparr>gate_store := st\<rparr>) (g\<lparr>gate_store := st'\<rparr>)"
      proof (cases "ec_ownerLease c")
        case True
        then have "marked (ec_key c) APPLIED (gate_store (g\<lparr>gate_store := st\<rparr>)) = Some st'"
          using Some by (simp add: applied_def)
        from marked_later [OF this] show ?thesis by simp
      qed (use Some in \<open>simp add: applied_def\<close>)
      from gate_later_trans [OF l this] have l': "gate_later g (g\<lparr>gate_store := st'\<rparr>)" by simp
      show ?thesis
      proof (cases "gate_persist writes1 (g\<lparr>gate_store := st'\<rparr>)")
        case (Inl y)
        from assms [unfolded e Some] Inl have "gate_later (g\<lparr>gate_store := st'\<rparr>) g'"
          by (auto intro: execute_failed_later)
        from gate_later_trans [OF l' this] show ?thesis by simp
      next
        case (Inr g'')
        from assms [unfolded e Some] Inr have "g'' = g'" by simp
        with persist_later [OF l', of writes1] Inr show ?thesis by simp
      qed
    qed
  qed
qed

end
