(* ===== verification/Journal.thy ===== *)
theory Journal
  imports RuntimeGate
begin

text \<open>
  The contract between a store that is kept in a file and the operations that must happen once: the store knows a
  set of keys, none of which it forgets, and reading the file back gives the keys of the store that was written. The
  log is the list of keys of what has happened.
\<close>

locale journal =
  fixes keys_of :: "'s \<Rightarrow> string set"
    and encode :: "'s \<Rightarrow> json_file"
    and load :: "json_file \<Rightarrow> 's option"
  assumes load_keys: "load (encode s) = Some s' \<Longrightarrow> keys_of s' = keys_of s"
begin

definition journalled :: "json_file \<Rightarrow> string set \<Rightarrow> bool" where
  "journalled file K \<longleftrightarrow> (file = NoFile \<and> K = {}) \<or> (\<exists>s. file = encode s \<and> K \<subseteq> keys_of s)"

definition holds :: "string list \<Rightarrow> 's \<Rightarrow> json_file \<Rightarrow> bool" where
  "holds log s file \<longleftrightarrow> distinct log \<and> set log \<subseteq> keys_of s \<and> journalled file (set log)"

lemma holds_empty: "holds [] s NoFile"
  by (simp add: holds_def journalled_def)

lemma holds_later:
  assumes "holds log s file" "keys_of s \<subseteq> keys_of s'" "file' = file \<or> file' = encode s'"
  shows "holds log s' file'"
  using assms unfolding holds_def journalled_def by blast

lemma holds_restart: "holds log s file \<Longrightarrow> load file = Some s' \<Longrightarrow> holds log s' file"
  unfolding holds_def journalled_def using load_keys by (metis empty_subsetI)

lemma holds_add:
  assumes "holds log s file" "k \<notin> keys_of s" "insert k (keys_of s) \<subseteq> keys_of s'"
  shows "holds (log @ [k]) s' (encode s')"
  using assms unfolding holds_def journalled_def by auto

lemma holds_distinct: "holds log s file \<Longrightarrow> distinct log"
  by (simp add: holds_def)

lemma holds_known: "holds log s file \<Longrightarrow> k \<in> set log \<Longrightarrow> k \<in> keys_of s"
  unfolding holds_def by blast

end

end
