(* ===== verification/GateReach.thy ===== *)
theory GateReach
  imports GateRuns Journal
begin

text \<open>
  The invariants of the gate in operation: which leases and replay keys are used up in memory and on file, what the
  restart reads back, and what each mutation that was asked for had passed.
\<close>

subsection \<open>The file read back\<close>

definition trip :: "js \<Rightarrow> js" where
  "trip v = the (json_trip v)"

definition encodes_records :: "('a \<Rightarrow> js) \<Rightarrow> bool" where
  "encodes_records enc \<longleftrightarrow> (\<forall>x. is_record (enc x))"

lemma trip_record: "is_record v \<Longrightarrow> json_trip v = Some (trip v) \<and> is_record (trip v)"
  by (cases v) (simp_all add: trip_def)

lemma trip_map_js:
  assumes "encodes_records enc"
  shows "json_trip (map_js enc m) = Some (obj (map (\<lambda>(k, x). (k, trip (enc x))) m))"
proof -
  have "json_trip (enc x) = Some (trip (enc x))" for x
    using assms trip_record by (simp add: encodes_records_def)
  then show ?thesis by (induction m) (auto simp: map_js_def)
qed

lemma record_encodings [simp]:
  "encodes_records effect_js" "encodes_records reservation_js" "encodes_records consumed_lease_js"
  by (simp_all add: encodes_records_def effect_js_def reservation_js_def consumed_lease_js_def)

lemma trip_store:
  "trip (effect_store_js st) = obj [(''schemaVersion'', JStr STORE_V2),
     (''effects'', obj (map (\<lambda>(k, x). (k, trip (effect_js x))) (st_effects st))),
     (''reservations'', obj (map (\<lambda>(k, x). (k, trip (reservation_js x))) (st_reservations st))),
     (''consumedAuthorityLeases'', obj (map (\<lambda>(k, x). (k, trip (consumed_lease_js x))) (st_leases st)))]"
  by (simp add: trip_def effect_store_js_def trip_map_js)

lemma read_map_keys [simp]: "map fst (read_map dec v) = map fst (fields_of v)"
  by (induction "fields_of v") (auto simp: read_map_def)

lemma store_versions [simp]: "STORE_V2 \<noteq> STORE_V1"
  by (simp add: STORE_V1_def STORE_V2_def)

lemma store_keys_exact:
  "gateKeys (trip (effect_store_js st)) [''consumedAuthorityLeases'', ''effects'', ''reservations'', ''schemaVersion'']"
  unfolding gateKeys_exact trip_store by (rule exactKeys_mset) simp

lemma normalize_own:
  "normalizeEffectStore rt (trip (effect_store_js st)) =
    (let effects = map (\<lambda>(k, x). (k, trip (effect_js x))) (st_effects st);
         reservations = map (\<lambda>(k, x). (k, trip (reservation_js x))) (st_reservations st);
         leases = map (\<lambda>(k, x). (k, trip (consumed_lease_js x))) (st_leases st) in
     if list_all (\<lambda>(k, x). effect_valid rt k x) effects
       \<and> list_all (\<lambda>(k, x). reservation_valid effects leases k x) reservations
       \<and> list_all (\<lambda>(k, x). lease_valid k x) leases
     then Inr \<lparr>st_effects = read_map read_effect (obj effects),
       st_reservations = read_map read_reservation (obj reservations),
       st_leases = read_map read_lease (obj leases)\<rparr>
     else Inl EFFECT_STORE_INVALID)"
  unfolding normalizeEffectStore_def Let_def
  by (simp add: store_keys_exact) (simp add: trip_store)

lemma normalize_own_keys:
  assumes "normalizeEffectStore rt (trip (effect_store_js st)) = Inr st'"
  shows "map fst (st_leases st') = map fst (st_leases st)"
    "map fst (st_reservations st') = map fst (st_reservations st)" "map fst (st_effects st') = map fst (st_effects st)"
proof -
  have k: "map fst (map (\<lambda>(k, x). (k, f x)) m) = map fst m" for f :: "'b \<Rightarrow> js" and m :: "(string \<times> 'b) list"
    by (induction m) auto
  show "map fst (st_leases st') = map fst (st_leases st)"
    "map fst (st_reservations st') = map fst (st_reservations st)" "map fst (st_effects st') = map fst (st_effects st)"
    using assms by (auto simp: normalize_own Let_def k simp del: map_map split: if_splits)
qed

subsection \<open>What is used up\<close>

text \<open>The calls whose mutation was asked for under an owner lease; direct calls, which take none, are not among them.\<close>

definition owner_calls :: "(gate_config \<times> effect_call \<times> js) list \<Rightarrow> effect_call list" where
  "owner_calls log = filter ec_ownerLease (map (fst \<circ> snd) log)"

lemma owner_calls_simps [simp]:
  "owner_calls [] = []"
  "owner_calls (log @ [(cfg, c, v)]) = owner_calls log @ (if ec_ownerLease c then [c] else [])"
  by (simp_all add: owner_calls_def)

text \<open>The store as the journal of the leases, and of the replay keys, that are used up.\<close>

definition load_store :: "gate_runtime \<Rightarrow> json_file \<Rightarrow> effect_store option" where
  "load_store rt file =
     (case file of
        Json v \<Rightarrow> (case normalizeEffectStore rt v of Inr st \<Rightarrow> Some st | Inl _ \<Rightarrow> None)
      | NoFile \<Rightarrow> Some EMPTY_STORE
      | Unparsable \<Rightarrow> None)"

lemma new_gate_load: "new_gate rt cfg file = Inr g \<Longrightarrow> load_store rt file = Some (gate_store g) \<and> gate_file g = file"
  by (auto simp: new_gate_def load_store_def res_bind_Inr_iff split: json_file.splits)

lemma load_store_keys:
  assumes "load_store rt (store_file st) = Some st'"
  shows "map fst (st_leases st') = map fst (st_leases st) \<and> map fst (st_reservations st') = map fst (st_reservations st)"
proof -
  have "normalizeEffectStore rt (trip (effect_store_js st)) = Inr st'"
    using assms by (simp add: load_store_def store_file_def trip_def split: sum.splits)
  from normalize_own_keys [OF this] show ?thesis by blast
qed

definition lease_keys :: "effect_store \<Rightarrow> string set" where
  "lease_keys st = set (map fst (st_leases st))"

definition reservation_keys :: "effect_store \<Rightarrow> string set" where
  "reservation_keys st = set (map fst (st_reservations st))"

interpretation lease_journal: journal lease_keys store_file "load_store rt" for rt
  by unfold_locales (simp only: lease_keys_def load_store_keys)

interpretation key_journal: journal reservation_keys store_file "load_store rt" for rt
  by unfold_locales (simp only: reservation_keys_def load_store_keys)

definition lease_ok :: "gate \<Rightarrow> string list \<Rightarrow> string list \<Rightarrow> bool" where
  "lease_ok g L K \<longleftrightarrow> lease_journal.holds L (gate_store g) (gate_file g) \<and> key_journal.holds K (gate_store g) (gate_file g)"

definition lease_inv :: "gate_system \<Rightarrow> bool" where
  "lease_inv s \<longleftrightarrow>
     lease_ok (gs_gate s) (map ec_lease (owner_calls (gs_log s))) (map ec_key (owner_calls (gs_log s)))"

lemma used_simps: "used_leases g = lease_keys (gate_store g)" "used_keys g = reservation_keys (gate_store g)"
  by (simp_all add: used_leases_def used_keys_def lease_keys_def reservation_keys_def)

lemma lease_ok_later: "lease_ok g L K \<Longrightarrow> gate_later g g' \<Longrightarrow> lease_ok g' L K"
  unfolding lease_ok_def gate_later_def used_simps
  using lease_journal.holds_later key_journal.holds_later by blast

lemma lease_ok_restart: "lease_ok g L K \<Longrightarrow> new_gate rt cfg (gate_file g) = Inr g' \<Longrightarrow> lease_ok g' L K"
  unfolding lease_ok_def using new_gate_load lease_journal.holds_restart key_journal.holds_restart by metis

lemma lease_ok_add:
  assumes "lease_ok g L K" "l \<notin> used_leases g" "k \<notin> used_keys g" "gate_later g g'"
    "l \<in> used_leases g'" "k \<in> used_keys g'" "gate_file g' = store_file (gate_store g')"
  shows "lease_ok g' (L @ [l]) (K @ [k])"
  using assms(1-6) unfolding lease_ok_def gate_later_def used_simps assms(7)
  using lease_journal.holds_add key_journal.holds_add by (metis insert_subset)

lemma replay_checks_fresh:
  assumes "replay_checks (gate_store g) c = Inr ()"
  shows "ec_lease c \<notin> used_leases g" "ec_key c \<notin> used_keys g" "map_of (st_effects (gate_store g)) (ec_key c) = None"
proof -
  have a: "slot (st_leases (gate_store g)) (ec_lease c) = Absent" "slot (st_reservations (gate_store g)) (ec_key c) = Absent"
    "slot (st_effects (gate_store g)) (ec_key c) = Absent"
    using assms by (auto simp: replay_checks_def split: if_splits)
  show "ec_lease c \<notin> used_leases g" "ec_key c \<notin> used_keys g" "map_of (st_effects (gate_store g)) (ec_key c) = None"
    using a [THEN slot_Absent] by (simp_all add: used_leases_def used_keys_def map_of_eq_None_iff)
qed

lemma reserved_later:
  assumes "gate_store g' = reserved_store (gate_store g) c now" "gate_file g' = gate_file g \<or> gate_file g' = store_file (gate_store g')"
  shows "gate_later g g'" "ec_lease c \<in> used_leases g'" "ec_key c \<in> used_keys g'"
  using assms by (auto simp: gate_later_def used_leases_def used_keys_def reserved_store_def)

lemma execute_reserve_later:
  assumes "execute_reserve rt writes now g c answer = (g', r)"
  shows "gate_later g g'"
  using assms
proof (cases rule: execute_reserve_cases)
  case (unwritten v)
  then show ?thesis using reserved_later(1) [of g' g c now] by simp
next
  case (reserved v)
  then show ?thesis using reserved_later(1) [of g' g c now] by (simp add: store_file_def)
qed simp

lemma lease_inv_later:
  assumes "lease_inv s" "gate_later (gs_gate s) g" "gs_gate s' = g" "gs_log s' = gs_log s"
  shows "lease_inv s'"
  using lease_ok_later [OF _ assms(2)] assms(1,3,4) by (simp add: lease_inv_def)

lemma lease_inv_same: "lease_inv s \<Longrightarrow> gs_gate s' = gs_gate s \<Longrightarrow> owner_calls (gs_log s') = owner_calls (gs_log s) \<Longrightarrow> lease_inv s'"
  by (simp add: lease_inv_def)

lemma lease_inv_restart:
  assumes "lease_inv s" "new_gate rt cfg (gate_file g) = Inr g'" "gate_later (gs_gate s) g"
    "gs_gate s' = g'" "gs_log s' = gs_log s"
  shows "lease_inv s'"
  using lease_ok_restart [OF lease_ok_later [OF _ assms(3)] assms(2)] assms(1,4,5) by (simp add: lease_inv_def)

lemma lease_inv_launch:
  assumes "lease_inv s" "execute_begin rt cfg token now request envelope st w0 = (w, r)"
  shows "lease_inv (launch s w r)"
proof (cases r)
  case (Inr p)
  obtain c b where p: "p = (c, b)" by (cases p)
  have "b = AwaitMutation \<Longrightarrow> \<not> ec_ownerLease c"
    using assms(2) Inr p
    by (auto simp: execute_begin_def execute_branch_def split: sum.splits prod.splits if_splits)
  with Inr p show ?thesis by (cases b) (auto simp: launch_def intro: lease_inv_same [OF assms(1)])
qed (auto simp: launch_def intro: lease_inv_same [OF assms(1)])

lemma lease_inv_released:
  assumes "lease_inv s" "execute_reserve rt writes now (gs_gate s) c answer = (g, r)"
  shows "lease_inv (released s i c answer g r)"
  using assms(2)
proof (cases rule: execute_reserve_cases)
  case (reserved v)
  have f: "gate_file g = store_file (gate_store g)" using reserved(8) by (simp add: store_file_def)
  note l = reserved_later [OF reserved(7) disjI2 [OF f]]
  let ?log = "owner_calls (gs_log s)"
  have a: "lease_ok (gs_gate s) (map ec_lease ?log) (map ec_key ?log)" using assms(1) by (simp add: lease_inv_def)
  have "lease_ok g (map ec_lease ?log @ [ec_lease c]) (map ec_key ?log @ [ec_key c])"
    by (rule lease_ok_add [OF a replay_checks_fresh(1,2) [OF reserved(3)] l f])
  moreover have "lease_ok g (map ec_lease ?log) (map ec_key ?log)" by (rule lease_ok_later [OF a l(1)])
  ultimately show ?thesis using reserved(2) by (simp add: lease_inv_def released_def)
next
  case (denied e)
  then show ?thesis by (auto simp: released_def intro: lease_inv_same [OF assms(1)])
next
  case (unwritten v)
  have "gate_later (gs_gate s) g" by (rule execute_reserve_later [OF assms(2)])
  with unwritten show ?thesis by (auto simp: released_def intro: lease_inv_later [OF assms(1)])
qed

lemma lease_inv_step: "gate_step rt token s s' \<Longrightarrow> lease_inv s \<Longrightarrow> lease_inv s'"
proof (induction rule: gate_step.induct)
  case (step_begin s now request envelope w r)
  then show ?case by (metis lease_inv_launch)
next
  case (step_reserve i s c writes now answer g r)
  then show ?case by (metis lease_inv_released)
next
  case (step_failed i s c writes e g r)
  from execute_failed_later [OF step_failed.hyps(3)] show ?case
    by (auto intro: lease_inv_later [OF step_failed.prems])
next
  case (step_finish i s c v writes1 writes2 answer g r)
  from execute_finish_later [OF step_finish.hyps(3)] show ?case
    by (auto intro: lease_inv_later [OF step_finish.prems])
next
  case (step_restart cfg s g)
  show ?case by (rule lease_inv_restart [OF step_restart.prems step_restart.hyps gate_later_refl]) simp_all
next
  case (step_killed i s c writes now answer g' cfg g)
  show ?case
    by (rule lease_inv_restart [OF step_killed.prems step_killed.hyps(4) execute_reserve_later [OF step_killed.hyps(3)]]) simp_all
qed (auto intro: lease_inv_same)

lemma new_gate_empty: "new_gate rt cfg NoFile = Inr g \<Longrightarrow> g = \<lparr>gate_store = EMPTY_STORE, gate_file = NoFile\<rparr>"
  by (auto simp: new_gate_def res_bind_Inr_iff)

lemma gate_reach_lease_inv:
  assumes "gate_reach rt token s"
  shows "lease_inv s"
proof -
  obtain cfg w g where g: "new_gate rt cfg NoFile = Inr g"
    and r: "(gate_step rt token)\<^sup>*\<^sup>* \<lparr>gs_cfg = cfg, gs_gate = g, gs_fence = w, gs_calls = [], gs_log = []\<rparr> s"
    using assms unfolding gate_reach_def by blast
  have "lease_inv \<lparr>gs_cfg = cfg, gs_gate = g, gs_fence = w, gs_calls = [], gs_log = []\<rparr>"
    by (simp add: lease_inv_def lease_ok_def new_gate_empty [OF g] lease_journal.holds_empty key_journal.holds_empty)
  with r show ?thesis by (induction rule: rtranclp_induct) (auto intro: lease_inv_step)
qed

end
