(* ===== verification/GatePassed.thy ===== *)
theory GatePassed
  imports GateReach
begin

text \<open>
  What a call has passed when it asks for its mutation, as the log of the gate in operation shows it.
\<close>

lemma unit_res_cases: "(r :: unit res) = Inr x \<longleftrightarrow> r = Inr ()"
  by simp

lemma gateKeys_own:
  assumes "gateKeys v ks" "k \<notin> set ks"
  shows "getf (fields_of v) k = JUndef"
proof -
  obtain i kvs where "v = JObj i kvs" "set (map fst kvs) = set ks"
    using assms(1) unfolding gateKeys_exact by (rule exactKeysE)
  with assms(2) show ?thesis by (metis fields_of.simps(1) getf_not_own)
qed

lemma execute_guard_cases:
  assumes "execute_guard rt cfg now request envelope = Inr c"
  obtains (installer) "\<not> ec_agent c" "\<not> ec_ownerLease c" "getf (fields_of (ec_action c)) ''actor'' = JStr INSTALLER"
      "approved rt cfg (ec_approval c) (ec_action c) (ec_digest c)"
  | (contact) "ec_agent c" "\<not> ec_ownerLease c" "validateAdminAiAction (ec_action c) AGENT_KIND"
      "validateAgentAuthority rt cfg (ec_authority c) (ec_action c) (ec_digest c)"
  | (order) "ec_agent c" "ec_ownerLease c" "validateAdminAiAction (ec_action c) OWNER_KIND"
      "validateOwnerAuthority rt cfg now (ec_authority c) (ec_action c) (ec_digest c)
        (getf (fields_of envelope) ''businessDiff'') (getf (fields_of envelope) ''businessDiffDigest'') = Inr ()"
proof -
  note g = assms [unfolded execute_guard_def Let_def]
  have shape: "getf (fields_of (ec_action c)) ''actor'' \<in> {JStr INSTALLER, JStr AGENT}"
    using g by (auto simp: res_simps validateActionShape_def Let_def split: if_splits)
  show thesis
  proof (cases "ec_agent c")
    case False
    have a: "approved rt cfg (ec_approval c) (ec_action c) (ec_digest c)"
      using g False by (auto simp: res_simps ec_agent_def split: if_splits)
    have "\<not> ec_ownerLease c"
    proof
      assume "ec_ownerLease c"
      then have "gateKeys envelope OWNER_ENVELOPE_KEYS" "ec_approval c = getf (fields_of envelope) ''approval''"
        using g by (auto simp: res_simps split: if_splits)
      with gateKeys_own have "ec_approval c = JUndef" by (simp add: OWNER_ENVELOPE_KEYS_def)
      with a show False by (simp add: approved_def)
    qed
    with a False shape show thesis by (intro installer) (auto simp: ec_agent_def)
  next
    case True
    show thesis
    proof (cases "ec_ownerLease c")
      case False
      show thesis by (rule contact [OF True False]) (use g True False in \<open>auto simp: res_simps ec_agent_def split: if_splits\<close>)
    next
      case owner: True
      show thesis by (rule order [OF True owner]) (use g True owner in \<open>auto simp: res_simps ec_agent_def split: if_splits\<close>)
    qed
  qed
qed

lemma execute_guard_common:
  assumes "execute_guard rt cfg now request envelope = Inr c"
  shows "validateActionShape (ec_action c) = Inr ()" "validateMutationScope (ec_action c) = Inr ()"
    "fld2 (ec_action c) ''scope'' ''actor'' = getf (fields_of (ec_action c)) ''actor''"
    "ec_digest c = json_digest rt (ec_action c)"
    "authorizeLocalRequest rt (gc_apiToken cfg) (gc_expectedOrigin cfg) True request = Inr ()"
  using assms [unfolded execute_guard_def Let_def] by (auto simp: res_simps split: if_splits)

text \<open>
  What releases a mutation: the installer needs the owner's approval of this action; the agent its one contact with an
  authority of the gate, or its one order with an owner lease; both authorities bind the action and its replay key.
\<close>

definition authorised :: "gate_runtime \<Rightarrow> gate_config \<Rightarrow> effect_call \<Rightarrow> bool" where
  "authorised rt cfg c \<longleftrightarrow>
     (let f = getf (fields_of (ec_authority c)); key = getf (fields_of (ec_action c)) ''replayKey'' in
      ec_digest c = json_digest rt (ec_action c) \<and> fld2 (ec_action c) ''scope'' ''tenant'' = JStr RUNTIME_TENANT
      \<and> (if \<not> ec_agent c then \<not> ec_ownerLease c \<and> approved rt cfg (ec_approval c) (ec_action c) (ec_digest c)
         else if \<not> ec_ownerLease c then
           gateJson (ec_action c) = gateJson (contactAction key)
           \<and> f ''binding'' = JStr (agent_binding rt cfg (agent_claims (ec_authority c) (ec_action c) (ec_digest c)))
         else
           gateJson (ec_action c) = gateJson (orderAction key) \<and> secretEquals rt (f ''actionDigest'') (ec_digest c)
           \<and> secretEquals rt (f ''replayKey'') (ec_key c)
           \<and> secretEquals rt (f ''binding'') (owner_binding rt cfg (without ''binding'' (fields_of (ec_authority c)))))
      \<and> (ec_agent c \<longrightarrow> f ''policyGeneration'' = jint (gc_policyGeneration cfg)))"

lemma validateMutationScope_tenant:
  "validateMutationScope action = Inr () \<Longrightarrow> fld2 action ''scope'' ''tenant'' = JStr RUNTIME_TENANT"
  by (auto simp: validateMutationScope_def Let_def split: if_splits)

lemma kinds_differ [simp]: "AGENT_KIND \<noteq> OWNER_KIND" "OWNER_KIND \<noteq> AGENT_KIND"
  by (simp_all add: AGENT_KIND_def OWNER_KIND_def)

lemma guard_authorised:
  assumes "execute_guard rt cfg now request envelope = Inr c"
  shows "authorised rt cfg c"
proof -
  note k = execute_guard_common [OF assms]
  note t = validateMutationScope_tenant [OF k(2)]
  from assms show ?thesis
  proof (cases rule: execute_guard_cases)
    case installer
    with k(4) t show ?thesis by (simp add: authorised_def Let_def)
  next
    case contact
    have "is_string (getf (fields_of (ec_authority c)) ''binding'')"
      "secretEquals rt (getf (fields_of (ec_authority c)) ''binding'')
        (agent_binding rt cfg (agent_claims (ec_authority c) (ec_action c) (ec_digest c)))"
      "getf (fields_of (ec_authority c)) ''policyGeneration'' = jint (gc_policyGeneration cfg)"
      using contact(4) by (simp_all only: validateAgentAuthority_def Let_def)
    with contact(1-3) k(4) t show ?thesis
      by (auto simp: authorised_def Let_def validateAdminAiAction_def is_string_iff secretEquals_def)
  next
    case order
    from order(4) have "owner_claims_valid rt cfg (ec_authority c) (ec_action c) (ec_digest c)
        (getf (fields_of envelope) ''businessDiff'') (getf (fields_of envelope) ''businessDiffDigest'')"
      "secretEquals rt (getf (fields_of (ec_authority c)) ''binding'')
        (owner_binding rt cfg (without ''binding'' (fields_of (ec_authority c))))"
      by (auto simp: validateOwnerAuthority_def Let_def split: if_splits)
    with order(1-3) k(4) t show ?thesis
      by (simp add: authorised_def Let_def validateAdminAiAction_def owner_claims_valid_def ec_key_def)
  qed
qed

subsection \<open>The policy in force\<close>

text \<open>An agent's call presents the generation and the policy text of a snapshot the fence has activated.\<close>

definition presents :: "effect_call \<Rightarrow> fence_snapshot \<Rightarrow> bool" where
  "presents c x \<longleftrightarrow> ub_policyGeneration (use_of c) = jint (fc_generation x)
     \<and> equalPresented (ub_policySourceDigest (use_of c)) (fc_sourceDigest x)"

lemma policy_use_in_force:
  assumes "policy_use rt token w c = (w', Inr ())" "fence_run rt token w ss" "ec_agent c"
  shows "ss \<noteq> [] \<and> presents c (last ss)"
proof -
  have u: "fence_assertUseBinding rt token w (use_of c) = (w', Inr ())" using assms(1,3) by (simp add: policy_use_def)
  from fence_run_inv [OF assms(2)] show ?thesis unfolding fence_inv_def
  proof
    assume "w = empty_fence \<and> ss = []"
    with u show ?thesis by (simp add: fence_assertUseBinding_def empty_fence_def)
  next
    assume "\<exists>r. fence_holds rt token w r \<and> fence_history r ss"
    then obtain r where r: "fence_holds rt token w r" "fence_history r ss" by blast
    from fence_use_cases(2) [OF u r(1)] r(2) show ?thesis by (simp add: presents_def fence_history_def)
  qed
qed

lemma policy_use_run:
  assumes "policy_use rt token w c = (w', x)" "fence_run rt token w ss"
  shows "fence_run rt token w' ss"
  using assms fence_used by (auto simp: policy_use_def split: if_splits)

text \<open>What holds of the calls and of the log, with the snapshots the fence has activated so far.\<close>

definition call_passed :: "gate_runtime \<Rightarrow> gate_config \<Rightarrow> fence_snapshot list \<Rightarrow> effect_call \<Rightarrow> bool" where
  "call_passed rt cfg ss c \<longleftrightarrow> authorised rt cfg c \<and> (ec_agent c \<longrightarrow> (\<exists>x \<in> set ss. presents c x))"

definition snapshot_fresh :: "gate_runtime \<Rightarrow> effect_call \<Rightarrow> js \<Rightarrow> bool" where
  "snapshot_fresh rt c v \<longleftrightarrow> validSnapshot rt v (ec_action c)
     \<and> getf (fields_of v) ''snapshotDigest'' = getf (fields_of (ec_authority c)) ''snapshotDigest''
     \<and> getf (fields_of v) ''version'' = getf (fields_of (ec_authority c)) ''snapshotVersion''"

definition passed_inv :: "gate_runtime \<Rightarrow> string \<Rightarrow> gate_system \<Rightarrow> bool" where
  "passed_inv rt token s \<longleftrightarrow> (\<exists>ss. fence_run (runtime.truncate rt) token (gs_fence s) ss
     \<and> (\<forall>(c, st) \<in> set (gs_calls s). call_passed rt (gs_cfg s) ss c)
     \<and> (\<forall>(cfg, c, v) \<in> set (gs_log s). call_passed rt cfg ss c \<and> (ec_ownerLease c \<longrightarrow> snapshot_fresh rt c v)))"

lemma call_passed_mono: "call_passed rt cfg ss c \<Longrightarrow> set ss \<subseteq> set ss' \<Longrightarrow> call_passed rt cfg ss' c"
  unfolding call_passed_def by blast

lemma passed_inv_fence:
  assumes "passed_inv rt token s" "\<And>ss. fence_run (runtime.truncate rt) token (gs_fence s) ss \<Longrightarrow>
    \<exists>ss'. fence_run (runtime.truncate rt) token w ss' \<and> set ss \<subseteq> set ss'"
  shows "passed_inv rt token (s\<lparr>gs_fence := w\<rparr>)"
proof -
  obtain ss where ss: "fence_run (runtime.truncate rt) token (gs_fence s) ss"
    "\<forall>(c, st) \<in> set (gs_calls s). call_passed rt (gs_cfg s) ss c"
    "\<forall>(cfg, c, v) \<in> set (gs_log s). call_passed rt cfg ss c \<and> (ec_ownerLease c \<longrightarrow> snapshot_fresh rt c v)"
    using assms(1) unfolding passed_inv_def by blast
  obtain ss' where ss': "fence_run (runtime.truncate rt) token w ss'" "set ss \<subseteq> set ss'" using assms(2) [OF ss(1)] by blast
  from ss(2,3) call_passed_mono [OF _ ss'(2)]
  have "\<forall>(c, st) \<in> set (gs_calls s). call_passed rt (gs_cfg s) ss' c"
    "\<forall>(cfg, c, v) \<in> set (gs_log s). call_passed rt cfg ss' c \<and> (ec_ownerLease c \<longrightarrow> snapshot_fresh rt c v)" by fast+
  with ss'(1) show ?thesis unfolding passed_inv_def by auto
qed

lemma passed_inv_call:
  assumes "passed_inv rt token s" "i < length (gs_calls s)" "gs_calls s ! i = (c, st)"
  shows "passed_inv rt token (s\<lparr>gs_gate := g, gs_calls := (gs_calls s)[i := (c, st')]\<rparr>)"
    "ec_ownerLease c \<longrightarrow> snapshot_fresh rt c v \<Longrightarrow>
      passed_inv rt token (s\<lparr>gs_gate := g, gs_calls := (gs_calls s)[i := (c, st')], gs_log := gs_log s @ [(gs_cfg s, c, v)]\<rparr>)"
proof -
  obtain ss where ss: "fence_run (runtime.truncate rt) token (gs_fence s) ss"
    "\<forall>(c, st) \<in> set (gs_calls s). call_passed rt (gs_cfg s) ss c"
    "\<forall>(cfg, c, v) \<in> set (gs_log s). call_passed rt cfg ss c \<and> (ec_ownerLease c \<longrightarrow> snapshot_fresh rt c v)"
    using assms(1) unfolding passed_inv_def by blast
  have c: "call_passed rt (gs_cfg s) ss c" using ss(2) assms(2,3) by (metis (mono_tags, lifting) case_prodD nth_mem)
  have u: "set ((gs_calls s)[i := (c, st')]) \<subseteq> insert (c, st') (set (gs_calls s))" by (rule set_update_subset_insert)
  have calls: "\<forall>(c, st) \<in> set ((gs_calls s)[i := (c, st')]). call_passed rt (gs_cfg s) ss c"
    using u c ss(2) by blast
  show "passed_inv rt token (s\<lparr>gs_gate := g, gs_calls := (gs_calls s)[i := (c, st')]\<rparr>)"
    unfolding passed_inv_def by (intro exI [of _ ss]) (use ss(1,3) calls in simp)
  show "passed_inv rt token (s\<lparr>gs_gate := g, gs_calls := (gs_calls s)[i := (c, st')], gs_log := gs_log s @ [(gs_cfg s, c, v)]\<rparr>)"
    if "ec_ownerLease c \<longrightarrow> snapshot_fresh rt c v"
    unfolding passed_inv_def by (intro exI [of _ ss]) (use ss(1,3) calls c that in simp)
qed

lemma execute_begin_cases:
  assumes "execute_begin rt cfg token now request envelope st w0 = (w, r)"
  obtains (denied) e where "r = Inl e" "w = w0 \<or> (\<exists>c x. policy_use (runtime.truncate rt) token w0 c = (w, x))"
  | (begun) c where "execute_guard rt cfg now request envelope = Inr c"
      "policy_use (runtime.truncate rt) token w0 c = (w, Inr ())" "r = Inr (c, execute_branch rt cfg st c)"
proof (cases "execute_guard rt cfg now request envelope")
  case (Inl e)
  show thesis by (rule denied [of e]) (use assms Inl in \<open>simp_all add: execute_begin_def\<close>)
next
  case (Inr c)
  obtain w' x where u: "policy_use (runtime.truncate rt) token w0 c = (w', x)" by fastforce
  show thesis
  proof (cases x)
    case e: (Inl e)
    have w: "w' = w" "r = Inl e" using assms Inr u e by (simp_all add: execute_begin_def)
    show thesis by (rule denied [OF w(2)]) (use u w(1) in blast)
  next
    case y: (Inr y)
    have w: "w' = w" "r = Inr (c, execute_branch rt cfg st c)" using assms Inr u y by (simp_all add: execute_begin_def)
    show thesis by (rule begun [OF Inr _ w(2)]) (use u w(1) y in simp)
  qed
qed

lemma launch_cases:
  "launch s w r = s\<lparr>gs_fence := w\<rparr>
   \<or> (\<exists>c. r = Inr (c, AwaitSnapshot) \<and> launch s w r = s\<lparr>gs_fence := w, gs_calls := gs_calls s @ [(c, Reading)]\<rparr>)
   \<or> (\<exists>c. r = Inr (c, AwaitMutation) \<and> launch s w r = s\<lparr>gs_fence := w, gs_calls := gs_calls s @ [(c, Mutating)],
        gs_log := gs_log s @ [(gs_cfg s, c, JUndef)]\<rparr>)"
  by (auto simp: launch_def split: sum.splits begun_effect.splits)

lemma mutation_not_leased: "execute_branch rt cfg st c = AwaitMutation \<Longrightarrow> \<not> ec_ownerLease c"
  by (auto simp: execute_branch_def split: if_splits sum.splits)

lemma passed_inv_launch:
  assumes "passed_inv rt token s"
    "execute_begin rt (gs_cfg s) token now request envelope st (gs_fence s) = (w, r)"
  shows "passed_inv rt token (launch s w r)"
  using assms(2)
proof (cases rule: execute_begin_cases)
  case (denied e)
  have "passed_inv rt token (s\<lparr>gs_fence := w\<rparr>)"
    by (rule passed_inv_fence [OF assms(1)]) (use denied(2) policy_use_run in blast)
  with denied(1) show ?thesis by (simp add: launch_def)
next
  case (begun c)
  obtain ss where ss: "fence_run (runtime.truncate rt) token (gs_fence s) ss"
    "\<forall>(c, st) \<in> set (gs_calls s). call_passed rt (gs_cfg s) ss c"
    "\<forall>(cfg, c, v) \<in> set (gs_log s). call_passed rt cfg ss c \<and> (ec_ownerLease c \<longrightarrow> snapshot_fresh rt c v)"
    using assms(1) unfolding passed_inv_def by blast
  note w = policy_use_run [OF begun(2) ss(1)]
  have c: "call_passed rt (gs_cfg s) ss c"
    using guard_authorised [OF begun(1)] policy_use_in_force [OF begun(2) ss(1)] by (auto simp: call_passed_def)
  have "passed_inv rt token (s\<lparr>gs_fence := w\<rparr>)"
    unfolding passed_inv_def by (intro exI [of _ ss]) (use w ss in simp)
  moreover have "passed_inv rt token (s\<lparr>gs_fence := w, gs_calls := gs_calls s @ [(c, Reading)]\<rparr>)"
    unfolding passed_inv_def by (intro exI [of _ ss]) (use w ss c in simp)
  moreover have "passed_inv rt token (s\<lparr>gs_fence := w, gs_calls := gs_calls s @ [(c, Mutating)],
      gs_log := gs_log s @ [(gs_cfg s, c, JUndef)]\<rparr>)" if "\<not> ec_ownerLease c"
    unfolding passed_inv_def by (intro exI [of _ ss]) (use w ss c that in simp)
  ultimately show ?thesis
    using launch_cases [of s w r] begun(3) mutation_not_leased [of rt "gs_cfg s" st c] by auto
qed

lemma fence_moves_run:
  assumes "fence_activate rt token wr now w cand auth = (w', x)" "fence_run rt token w ss"
  shows "\<exists>ss'. fence_run rt token w' ss' \<and> set ss \<subseteq> set ss'"
proof (cases x)
  case (Inl e)
  with assms fence_not_activated show ?thesis by blast
next
  case (Inr p)
  with assms fence_activated have "fence_run rt token w' (ss @ [ap_snapshot p])" by blast
  then show ?thesis by (intro exI [of _ "ss @ [ap_snapshot p]"]) auto
qed

lemma passed_inv_restart: "passed_inv rt token s \<Longrightarrow> passed_inv rt token (s\<lparr>gs_cfg := cfg, gs_gate := g, gs_calls := []\<rparr>)"
  by (auto simp: passed_inv_def)

lemma passed_inv_step: "gate_step rt token s s' \<Longrightarrow> passed_inv rt token s \<Longrightarrow> passed_inv rt token s'"
proof (induction rule: gate_step.induct)
  case (step_begin s now request envelope w r)
  show ?case by (rule passed_inv_launch [OF step_begin.prems step_begin.hyps])
next
  case (step_reserve i s c writes now answer g r)
  from step_reserve.hyps(3) show ?case
  proof (cases rule: execute_reserve_cases)
    case (reserved v)
    have "ec_ownerLease c \<longrightarrow> snapshot_fresh rt c v" using reserved by (simp add: snapshot_fresh_def)
    from passed_inv_call(2) [OF step_reserve.prems step_reserve.hyps(1,2) this] reserved(1,2) show ?thesis
      by (simp add: released_def snapshot_of_reply_def)
  next
    case (denied e)
    from passed_inv_call(1) [OF step_reserve.prems step_reserve.hyps(1,2), where g = g] denied show ?thesis
      by (simp add: released_def)
  next
    case (unwritten v)
    from passed_inv_call(1) [OF step_reserve.prems step_reserve.hyps(1,2), where g = g] unwritten(2) show ?thesis
      by (simp add: released_def)
  qed
next
  case (step_mutated i s c v)
  from passed_inv_call(1) [OF step_mutated.prems step_mutated.hyps, where g = "gs_gate s"] show ?case by simp
next
  case (step_failed i s c writes e g r)
  show ?case by (rule passed_inv_call(1) [OF step_failed.prems step_failed.hyps(1,2)])
next
  case (step_finish i s c v writes1 writes2 answer g r)
  show ?case by (rule passed_inv_call(1) [OF step_finish.prems step_finish.hyps(1,2)])
next
  case (step_fence_activate writes now s cand auth w x)
  show ?case by (rule passed_inv_fence [OF step_fence_activate.prems fence_moves_run [OF step_fence_activate.hyps]])
next
  case (step_fence_freeze writes now s reason w x)
  show ?case by (rule passed_inv_fence [OF step_fence_freeze.prems]) (use fence_frozen step_fence_freeze.hyps in blast)
qed (rule passed_inv_restart, assumption)+

lemma gate_reach_passed:
  assumes "gate_reach rt token s"
  shows "passed_inv rt token s"
proof -
  obtain cfg w ss g where w: "fence_run (runtime.truncate rt) token w ss"
    and r: "(gate_step rt token)\<^sup>*\<^sup>* \<lparr>gs_cfg = cfg, gs_gate = g, gs_fence = w, gs_calls = [], gs_log = []\<rparr> s"
    using assms unfolding gate_reach_def by blast
  have "passed_inv rt token \<lparr>gs_cfg = cfg, gs_gate = g, gs_fence = w, gs_calls = [], gs_log = []\<rparr>"
    using w by (auto simp: passed_inv_def)
  with r show ?thesis by (induction rule: rtranclp_induct) (auto intro: passed_inv_step)
qed

end
