(* ===== verification/GateStore.thy ===== *)
theory GateStore
  imports GateReach
begin

text \<open>
  Which stores the gate can read back from its own file, and what the end of an \<open>execute\<close> under an owner lease does to
  that.
\<close>

definition loadable :: "gate_runtime \<Rightarrow> effect_store \<Rightarrow> bool" where
  "loadable rt st \<longleftrightarrow> (\<exists>st'. normalizeEffectStore rt (trip (effect_store_js st)) = Inr st')"

lemma new_gate_own:
  assumes "gate_config_valid cfg = Inr ()"
  shows "(\<exists>g. new_gate rt cfg (store_file st) = Inr g) \<longleftrightarrow> loadable rt st"
  using assms by (auto simp: new_gate_def store_file_def loadable_def res_bind_Inr_iff trip_def)

subsection \<open>Values that survive\<close>

lemma concat_trip:
  "\<forall>(k, v) \<in> set kvs. json_trip v = Some (trip v) \<Longrightarrow>
    concat (map (\<lambda>(k, v). case json_trip v of None \<Rightarrow> [] | Some w \<Rightarrow> [(k, w)]) kvs) = map (\<lambda>(k, v). (k, trip v)) kvs"
  by (induction kvs) auto

lemma json_trip_plain:
  assumes "plain v"
  shows "json_trip v = Some (trip v)" "gateJson (trip v) = gateJson v" "trip v \<noteq> JUndef"
proof -
  have "json_trip v \<noteq> None \<and> gateJson (trip v) = gateJson v \<and> trip v \<noteq> JUndef"
    using assms
  proof (induction v rule: json_trip.induct)
    case (4 i vs)
    have s: "json_trip x = Some (trip x)" "gateJson (trip x) = gateJson x" "trip x \<noteq> JUndef" if "x \<in> set vs" for x
      using 4 that by (auto simp: list_all_iff trip_def)
    have "(case json_trip x of None \<Rightarrow> JNull | Some w \<Rightarrow> w) = trip x" if "x \<in> set vs" for x
      by (subst s(1) [OF that]) simp
    then have t: "trip (JArr i vs) = arr (map trip vs)" by (simp add: trip_def [of "JArr i vs"])
    have "x \<noteq> JUndef" if "x \<in> set vs" for x using 4(2) that by (auto simp: list_all_iff)
    then have "map (\<lambda>v. if v = JUndef then [] else gateJson v) (map trip vs)
        = map (\<lambda>v. if v = JUndef then [] else gateJson v) vs" using s(2,3) by auto
    then show ?case by (simp add: t del: map_map)
  next
    case (5 i kvs)
    have s: "json_trip x = Some (trip x)" "gateJson (trip x) = gateJson x" if "(k, x) \<in> set kvs" for k x
      using 5(1) [OF that refl] 5(2) that by (auto simp: list_all_iff trip_def)
    have t: "trip (JObj i kvs) = obj (map (\<lambda>(k, v). (k, trip v)) kvs)"
      using concat_trip [of kvs] s(1) by (auto simp: trip_def [of "JObj i kvs"])
    have "map (\<lambda>(k, v). quote k @ '':'' @ gateJson v) (sort_key fst (map (\<lambda>(k, v). (k, trip v)) kvs))
        = map (\<lambda>(k, v). quote k @ '':'' @ gateJson v) (sort_key fst kvs)"
    proof -
      have "sort_key fst (map (\<lambda>(k, v). (k, trip v)) kvs) = map (\<lambda>(k, v). (k, trip v)) (sort_key fst kvs)"
      proof -
        have i: "insort_key fst (k, trip v) (map (\<lambda>(k, v). (k, trip v)) xs) = map (\<lambda>(k, v). (k, trip v)) (insort_key fst (k, v) xs)"
          for k v and xs :: fields by (induction xs) auto
        show ?thesis by (induction kvs) (auto simp: i)
      qed
      moreover have "set (sort_key fst kvs) = set kvs" by simp
      ultimately show ?thesis using s(2) by auto
    qed
    then show ?case by (simp add: t)
  qed (auto simp: trip_def)
  then show "json_trip v = Some (trip v)" "gateJson (trip v) = gateJson v" "trip v \<noteq> JUndef" by (auto simp: trip_def)
qed

lemma trip_fields:
  assumes "plain (JObj i kvs)"
  shows "trip (JObj i kvs) = obj (map (\<lambda>(k, v). (k, trip v)) kvs)"
proof -
  have "json_trip x = Some (trip x)" if "(k, x) \<in> set kvs" for k x
    using assms that json_trip_plain(1) by (auto simp: list_all_iff)
  with concat_trip [of kvs] show ?thesis by (auto simp: trip_def [of "JObj i kvs"])
qed

lemma trip_basic [simp]: "trip (JStr s) = JStr s" "trip (jint i) = jint i"
  by (simp_all add: trip_def)

lemma getf_trip: "k \<in> set (map fst kvs) \<Longrightarrow> getf (map (\<lambda>(k, v). (k, trip v)) kvs) k = trip (getf kvs k)"
proof (induction kvs)
  case (Cons p kvs)
  then show ?case by (cases p; cases "k = fst p"; simp)
qed simp

lemma without_trip: "without k (map (\<lambda>(k, v). (k, trip v)) kvs) = map (\<lambda>(k, v). (k, trip v)) (without k kvs)"
  by (induction kvs) (auto simp: without_def)

lemma getf_snoc: "k \<notin> set (map fst kvs) \<Longrightarrow> getf (kvs @ [(k, v)]) k = v"
  by (induction kvs) auto

subsection \<open>Effects\<close>

lemma sealed_effect_valid:
  assumes x: "ef_actionDigest x = JStr d" "ef_receipt x = obj (core @ [(''receiptDigest'', JStr (json_digest rt (obj core)))])"
    and p: "plain (ef_receipt x)" "plain (ef_providerResult x)" "plain (ef_readback x)"
    and c: "getf core ''replayKey'' = JStr k" "getf core ''actionDigest'' = JStr d" "''receiptDigest'' \<notin> set (map fst core)"
    and h: "hex64 (json_digest rt (obj core))"
  shows "effect_valid rt k (trip (effect_js x))"
proof -
  let ?m = "map (\<lambda>(k, v). (k, trip v))"
  let ?seal = "(''receiptDigest'', JStr (json_digest rt (obj core)))"
  have "plain (effect_js x)" using p x(1) by (simp add: effect_js_def)
  then have t: "trip (effect_js x) = obj [(''actionDigest'', JStr d), (''providerResult'', trip (ef_providerResult x)),
      (''readback'', trip (ef_readback x)), (''receipt'', trip (ef_receipt x))]"
    unfolding effect_js_def by (subst trip_fields) (simp_all add: x(1))
  have r: "trip (ef_receipt x) = obj (?m core @ [?seal])"
    using trip_fields [of 0 "core @ [?seal]"] p(1) x(2) by simp
  have pc: "plain (obj core)" using p(1) x(2) by simp
  have "json_digest rt (obj (?m core)) = json_digest rt (obj core)"
    using json_trip_plain(2) [OF pc] trip_fields [OF pc] by (simp add: json_digest_def)
  moreover have "without ''receiptDigest'' core = core"
    using c(3) by (induction core) (auto simp: without_def)
  moreover have "without ''receiptDigest'' (?m core @ [?seal]) = ?m (without ''receiptDigest'' core)"
    using without_trip [of "''receiptDigest''" core] by (simp add: without_def)
  ultimately have w: "json_digest rt (obj (without ''receiptDigest'' (?m core @ [?seal]))) = json_digest rt (obj core)" by simp
  have g: "getf (xs @ [?seal]) l = getf xs l" if "l \<noteq> ''receiptDigest''" for xs l using that by (induction xs) auto
  have keys: "l \<in> set (map fst core)" if "getf core l \<noteq> JUndef" for l using that getf_not_own by blast
  have s: "getf (?m core @ [?seal]) ''receiptDigest'' = JStr (json_digest rt (obj core))"
    using c(3) by (intro getf_snoc) force
  have "getf (?m core @ [?seal]) ''replayKey'' = JStr k" "getf (?m core @ [?seal]) ''actionDigest'' = JStr d"
    using c(1,2) keys [of "''replayKey''"] keys [of "''actionDigest''"] by (simp_all add: g getf_trip)
  moreover have "gateKeys (trip (effect_js x)) [''actionDigest'', ''providerResult'', ''readback'', ''receipt'']"
    unfolding gateKeys_exact t by (rule exactKeys_mset) simp
  ultimately show ?thesis
    unfolding effect_valid_def Let_def using h
    by (simp add: t r s w same_primitive_def hexTest_def digest_like_def coalesce_def)
qed

lemma effect_of_sealed:
  assumes "effect_of rt c v rb = Inr x"
  obtains core where "ef_actionDigest x = JStr (ec_digest c)" "ef_providerResult x = v" "ef_readback x = rb"
    "ef_receipt x = obj (core @ [(''receiptDigest'', JStr (json_digest rt (obj core)))])"
    "getf core ''replayKey'' = getf (fields_of (ec_action c)) ''replayKey''" "getf core ''actionDigest'' = JStr (ec_digest c)"
    "''receiptDigest'' \<notin> set (map fst core)"
proof (rule that [of "receiptCore rt c v rb"])
  show "getf (receiptCore rt c v rb) ''replayKey'' = getf (fields_of (ec_action c)) ''replayKey''"
    "getf (receiptCore rt c v rb) ''actionDigest'' = JStr (ec_digest c)"
    by (simp_all add: receiptCore_def Let_def)
  have "list_all (\<lambda>p. fst p \<noteq> ''receiptDigest'') (receiptCore rt c v rb)"
    by (simp add: receiptCore_def Let_def authority_fields_def)
  then show "''receiptDigest'' \<notin> set (map fst (receiptCore rt c v rb))" by (auto simp: list_all_iff)
qed (use assms in \<open>auto simp: effect_of_def Let_def split: if_splits\<close>)

subsection \<open>Reservations\<close>

definition reservation_rest :: "(string \<times> consumed_lease) list \<Rightarrow> string \<Rightarrow> reservation \<Rightarrow> bool" where
  "reservation_rest leases k r \<longleftrightarrow>
     json_trip (rv_actionDigest r) \<noteq> None \<and> json_trip (rv_leaseId r) \<noteq> None \<and> json_trip (rv_reservedAtMs r) \<noteq> None
     \<and> hexTest (trip (rv_actionDigest r)) \<and> hexTest (trip (rv_leaseId r)) \<and> is_safe_integer (trip (rv_reservedAtMs r))
     \<and> (case map_of leases (to_string (trip (rv_leaseId r))) of
          Some l \<Rightarrow> getf (fields_of (trip (consumed_lease_js l))) ''replayKey'' = JStr k
        | None \<Rightarrow> False)"

lemma slot_mapped:
  "slot (map (\<lambda>(k, x). (k, f x)) m) k = (case slot m k of Own x \<Rightarrow> Own (f x) | Inherited \<Rightarrow> Inherited | Absent \<Rightarrow> Absent)"
  by (induction m) (auto simp: slot_def)

lemma reservation_valid_iff:
  "reservation_valid (map (\<lambda>(k, x). (k, trip (effect_js x))) effects)
      (map (\<lambda>(k, x). (k, trip (consumed_lease_js x))) leases) k (trip (reservation_js r))
   \<longleftrightarrow> reservation_rest leases k r \<and> (rv_status r = APPLIED \<longleftrightarrow> slot effects k \<noteq> Absent)"
proof -
  define opt where "opt = (\<lambda>(k :: string) v. case json_trip v of None \<Rightarrow> [] | Some w \<Rightarrow> [(k, w)])"
  have t: "trip (reservation_js r) = obj (opt ''actionDigest'' (rv_actionDigest r) @ opt ''leaseId'' (rv_leaseId r)
      @ opt ''reservedAtMs'' (rv_reservedAtMs r) @ [(''status'', JStr (reservation_status_text (rv_status r)))])"
    by (simp add: trip_def reservation_js_def opt_def)
  have s: "JStr (reservation_status_text (rv_status r)) \<in> {JStr ''EXECUTING'', JStr ''APPLIED'', JStr ''AMBIGUOUS''}"
    "JStr (reservation_status_text (rv_status r)) = JStr ''APPLIED'' \<longleftrightarrow> rv_status r = APPLIED"
    by (cases "rv_status r"; simp add: reservation_status_text_def)+
  have o: "opt k v = (if json_trip v = None then [] else [(k, trip v)])" for k v
    by (auto simp: opt_def trip_def split: option.splits)
  have keys: "gateKeys (trip (reservation_js r)) [''actionDigest'', ''leaseId'', ''reservedAtMs'', ''status''] \<longleftrightarrow>
    json_trip (rv_actionDigest r) \<noteq> None \<and> json_trip (rv_leaseId r) \<noteq> None \<and> json_trip (rv_reservedAtMs r) \<noteq> None"
  proof
    assume "gateKeys (trip (reservation_js r)) [''actionDigest'', ''leaseId'', ''reservedAtMs'', ''status'']"
    then obtain i kvs where "trip (reservation_js r) = JObj i kvs"
      "set (map fst kvs) = set [''actionDigest'', ''leaseId'', ''reservedAtMs'', ''status'']"
      unfolding gateKeys_exact by (rule exactKeysE)
    then have k: "l \<in> set (map fst (fields_of (trip (reservation_js r))))"
      if "l \<in> set [''actionDigest'', ''leaseId'', ''reservedAtMs'', ''status'']" for l using that by simp
    from k [of "''actionDigest''"] k [of "''leaseId''"] k [of "''reservedAtMs''"]
    show "json_trip (rv_actionDigest r) \<noteq> None \<and> json_trip (rv_leaseId r) \<noteq> None \<and> json_trip (rv_reservedAtMs r) \<noteq> None"
      unfolding t o fields_of.simps map_append set_append by (simp split: if_splits)
  qed (unfold gateKeys_exact t o, rule exactKeys_mset, simp)
  have sl: "(case slot (map (\<lambda>(k, x). (k, trip (consumed_lease_js x))) leases) l of
        Own c \<Rightarrow> getf (fields_of c) ''replayKey'' = JStr k | _ \<Rightarrow> False)
    \<longleftrightarrow> (case map_of leases l of Some c \<Rightarrow> getf (fields_of (trip (consumed_lease_js c))) ''replayKey'' = JStr k | None \<Rightarrow> False)"
    for l unfolding slot_mapped by (simp add: slot_def split: option.splits)
  have e: "slot (map (\<lambda>(k, x). (k, trip (effect_js x))) effects) k \<noteq> Absent \<longleftrightarrow> slot effects k \<noteq> Absent"
    unfolding slot_mapped by (simp split: slot.splits)
  show ?thesis
  proof (cases "json_trip (rv_actionDigest r) \<noteq> None \<and> json_trip (rv_leaseId r) \<noteq> None \<and> json_trip (rv_reservedAtMs r) \<noteq> None")
    case True
    then have v: "trip (reservation_js r) = obj [(''actionDigest'', trip (rv_actionDigest r)), (''leaseId'', trip (rv_leaseId r)),
        (''reservedAtMs'', trip (rv_reservedAtMs r)), (''status'', JStr (reservation_status_text (rv_status r)))]"
      unfolding t o by simp
    show ?thesis
      unfolding reservation_valid_def Let_def reservation_rest_def keys e
      using s(1) s(2) [unfolded js.inject] by (simp add: v sl True)
  next
    case False
    then show ?thesis unfolding reservation_valid_def Let_def reservation_rest_def keys by blast
  qed
qed

definition lease_fine :: "string \<times> consumed_lease \<Rightarrow> bool" where
  "lease_fine p = lease_valid (fst p) (trip (consumed_lease_js (snd p)))"

lemma loadable_iff:
  "loadable rt st \<longleftrightarrow> (\<forall>(k, x) \<in> set (st_effects st). effect_valid rt k (trip (effect_js x)))
     \<and> (\<forall>(k, r) \<in> set (st_reservations st). reservation_rest (st_leases st) k r
          \<and> (rv_status r = APPLIED \<longleftrightarrow> slot (st_effects st) k \<noteq> Absent))
     \<and> (\<forall>p \<in> set (st_leases st). lease_fine p)"
proof -
  have "loadable rt st \<longleftrightarrow>
      list_all (\<lambda>(k, x). effect_valid rt k x) (map (\<lambda>(k, x). (k, trip (effect_js x))) (st_effects st))
      \<and> list_all (\<lambda>(k, x). reservation_valid (map (\<lambda>(k, x). (k, trip (effect_js x))) (st_effects st))
          (map (\<lambda>(k, x). (k, trip (consumed_lease_js x))) (st_leases st)) k x)
        (map (\<lambda>(k, x). (k, trip (reservation_js x))) (st_reservations st))
      \<and> list_all (\<lambda>(k, x). lease_valid k x) (map (\<lambda>(k, x). (k, trip (consumed_lease_js x))) (st_leases st))"
    unfolding loadable_def normalize_own Let_def by simp
  then show ?thesis
    by (simp add: list_all_iff reservation_valid_iff lease_fine_def case_prod_beta del: map_map)
qed

end
