(* ===== verification/GateIssue.thy ===== *)
theory GateIssue
  imports GatePassed GateStore
begin

text \<open>
  What an issued owner authority says, and that its own claims pass the guard that reads them.
\<close>

subsection \<open>Owner authorities\<close>

lemma owner_authority_fields:
  assumes "ownerAuthority rt cfg proposal rd t u = Inr v"
  defines "unsigned \<equiv> owner_unsigned proposal rd t u"
  defines "core \<equiv> unsigned @ [(''leaseId'', JStr (lease_id rt cfg unsigned))]"
  shows "v = obj (core @ [(''binding'', JStr (owner_binding rt cfg core))])"
    "without ''binding'' (fields_of v) = core" "gateKeys v OWNER_AUTHORITY_KEYS"
proof -
  show v: "v = obj (core @ [(''binding'', JStr (owner_binding rt cfg core))])"
    using assms(1) by (auto simp: ownerAuthority_def Let_def core_def unsigned_def split: if_splits)
  show "without ''binding'' (fields_of v) = core"
    by (simp add: v without_def core_def unsigned_def owner_unsigned_def Let_def)
  show "gateKeys v OWNER_AUTHORITY_KEYS"
    unfolding gateKeys_exact v
    by (rule exactKeys_mset) (simp add: core_def unsigned_def owner_unsigned_def Let_def OWNER_AUTHORITY_KEYS_def)
qed

lemma hexTest_JStr [simp]: "hexTest (JStr s) = hex64 s"
  by (simp add: hexTest_def digest_like_def coalesce_def)

lemma secretEquals_JStr [simp]: "secretEquals rt (JStr s) t \<longleftrightarrow> s = t"
  by (simp add: secretEquals_def)

lemma valid_snapshot_digests:
  assumes "validSnapshot rt v action"
  obtains d e where "getf (fields_of v) ''snapshotDigest'' = JStr d" "hex64 d"
    "getf (fields_of v) ''version'' = JStr e" "hex64 e"
proof -
  have "str_test hex64 (getf (fields_of v) ''version'')" "str_test hex64 (getf (fields_of v) ''snapshotDigest'')"
    using assms by (auto simp: validSnapshot_def Let_def split: if_splits)
  with that show thesis by (auto simp: str_test_iff)
qed

lemma issued_fields:
  assumes "ownerAuthority rt cfg proposal rd t u = Inr v"
  defines "f \<equiv> getf (fields_of proposal)"
  shows "getf (fields_of v) ''kind'' = JStr OWNER_KIND" "getf (fields_of v) ''actor'' = f ''actor''"
    "getf (fields_of v) ''scope'' = fld2 proposal ''action'' ''scope''"
    "getf (fields_of v) ''actionDigest'' = f ''actionDigest''"
    "getf (fields_of v) ''businessDiffDigest'' = f ''businessDiffDigest''"
    "getf (fields_of v) ''snapshotDigest'' = f ''snapshotDigest''"
    "getf (fields_of v) ''snapshotVersion'' = f ''snapshotVersion''"
    "getf (fields_of v) ''requester'' = f ''requester''" "getf (fields_of v) ''purpose'' = f ''purpose''"
    "getf (fields_of v) ''replayKey'' = f ''replayKey''" "getf (fields_of v) ''policyId'' = f ''policyId''"
    "getf (fields_of v) ''policyDigest'' = f ''policyDigest''"
    "getf (fields_of v) ''policyGeneration'' = f ''policyGeneration''"
    "getf (fields_of v) ''decisionDigest'' = f ''decisionDigest''"
    "getf (fields_of v) ''proposalDigest'' = f ''proposalDigest''"
    "getf (fields_of v) ''ownerDecisionReceiptDigest'' = rd"
    "getf (fields_of v) ''approver'' = JStr OWNER" "getf (fields_of v) ''profileId'' = f ''profileId''"
    "getf (fields_of v) ''profileGeneration'' = f ''profileGeneration''"
    "getf (fields_of v) ''issuedAtMs'' = t" "getf (fields_of v) ''notBeforeMs'' = t"
    "getf (fields_of v) ''expiresAtMs'' = u" "getf (fields_of v) ''maxUses'' = jint 1"
    "getf (fields_of v) ''leaseId'' = JStr (lease_id rt cfg (owner_unsigned proposal rd t u))"
    "getf (fields_of v) ''binding'' = JStr (owner_binding rt cfg (owner_unsigned proposal rd t u
       @ [(''leaseId'', JStr (lease_id rt cfg (owner_unsigned proposal rd t u)))]))"
  unfolding owner_authority_fields(1) [OF assms(1)] f_def owner_unsigned_def Let_def by simp_all

lemma issued_claims:
  assumes v: "ownerAuthority rt cfg proposal rd t u = Inr v"
    and p: "getf (fields_of proposal) ''actor'' = JStr AGENT"
      "getf (fields_of proposal) ''replayKey'' = JStr k" "fld2 proposal ''action'' ''replayKey'' = JStr k"
    and h: "\<And>k t. hex64 (hmac rt k t)"
  shows "owner_claims_valid rt cfg v (getf (fields_of proposal) ''action'')
      (json_digest rt (getf (fields_of proposal) ''action'')) (getf (fields_of proposal) ''businessDiff'')
      (getf (fields_of proposal) ''businessDiffDigest'')"
proof -
  define f where "f = getf (fields_of proposal)"
  note i = v [unfolded ownerAuthority_def Let_def, folded f_def]
  have s: "validSnapshot rt (f ''snapshot'') (f ''action'')"
    and d: "f ''profileId'' = JStr GATE_PROFILE" "f ''profileGeneration'' = JStr (gc_profileGeneration cfg)"
      "f ''policyId'' = JStr POC_POLICY_ID" "f ''policyGeneration'' = jint (gc_policyGeneration cfg)"
      "f ''policyDigest'' = (case gc_policyDigest cfg of None \<Rightarrow> JUndef | Some d \<Rightarrow> JStr d)"
      "digest_is rt (f ''action'') (f ''actionDigest'')" "digest_is rt (f ''businessDiff'') (f ''businessDiffDigest'')"
      "f ''snapshotDigest'' = getf (fields_of (f ''snapshot'')) ''snapshotDigest''"
      "f ''snapshotVersion'' = getf (fields_of (f ''snapshot'')) ''version''"
      "f ''requester'' = JStr APPROVAL_REQUESTER" "f ''purpose'' = JStr APPROVAL_PURPOSE"
      "hexTest (f ''decisionDigest'')" "hexTest (f ''proposalDigest'')" "hexTest rd" "lease_period t u"
    using i by (auto split: if_splits)
  obtain d1 d2 where sd: "f ''snapshotDigest'' = JStr d1" "hex64 d1" "f ''snapshotVersion'' = JStr d2" "hex64 d2"
    using valid_snapshot_digests [OF s] d(8,9) by metis
  have ad: "f ''actionDigest'' = JStr (json_digest rt (f ''action''))"
    "f ''businessDiffDigest'' = JStr (json_digest rt (f ''businessDiff''))" "f ''businessDiff'' \<noteq> JUndef"
    using d(6,7) by (simp_all add: digest_is_def)
  have a: "assertAction (f ''action'')" using s by (auto simp: validSnapshot_def Let_def split: if_splits)
  then have actor: "getf (fields_of (f ''action'')) ''actor'' = JStr AGENT" by (simp add: assertAction_def Let_def)
  have key: "getf (fields_of (f ''action'')) ''replayKey'' = JStr k" using p(3) by (simp add: fld2_def f_def)
  have pd: "secretEquals rt (f ''policyDigest'') (the_text (gc_policyDigest cfg))"
    unfolding d(5) by (cases "gc_policyDigest cfg") (simp_all add: the_text_def secretEquals_def)
  have lease: "hex64 (lease_id rt cfg x)" "hex64 (owner_binding rt cfg x)" for x
    using h by (simp_all add: lease_id_def owner_binding_def)
  have period: "is_safe_integer t" using d(15) by (simp add: lease_period_def)
  have scope: "fld2 proposal ''action'' ''scope'' = getf (fields_of (f ''action'')) ''scope''" by (simp add: fld2_def f_def)
  note o = owner_authority_fields [OF v]
  note g = issued_fields [OF v, folded f_def]
  note q = p(1,2) [folded f_def]
  show ?thesis
    unfolding owner_claims_valid_def Let_def f_def [symmetric] g actor key scope ad(1,2) sd(1,3) q d(1-4,10,11)
    by (intro conjI) (use o(3) pd ad(3) sd(2,4) lease period d(12-15) in
      \<open>simp_all add: digest_is_def is_string_iff\<close>)
qed

end
