(* ===== verification/PolicyAnswers.thy ===== *)
theory PolicyAnswers
  imports PolicyDecision GateIssue
begin

text \<open>
  What the static evaluator and the agent's handler answer: inputs the handler builds are valid, decisions the
  evaluator builds are valid, and the closed policy leaves one outcome per kind of request.
\<close>

subsection \<open>The closed policy\<close>

lemma closed_rule:
  assumes "gateJson (arr [a, b, c]) = gateJson (strs_js [x, y, z])" "plain a" "plain b" "plain c" "js_wf a" "js_wf b" "js_wf c"
  shows "a = JStr x \<and> b = JStr y \<and> c = JStr z"
proof -
  have "js_norm (arr [a, b, c]) = js_norm (strs_js [x, y, z])"
    by (rule gateJson_norm) (use assms in \<open>simp_all add: strs_js_def\<close>)
  then have "js_norm a = JStr x" "js_norm b = JStr y" "js_norm c = JStr z" by (simp_all add: strs_js_def)
  then show ?thesis by (cases a; cases b; cases c; simp)
qed

lemma plain_getf: "plain v \<Longrightarrow> getf (fields_of v) k = JUndef \<or> plain (getf (fields_of v) k)"
proof (cases v)
  case (JObj i kvs)
  assume "plain v"
  then have "\<forall>(k, x) \<in> set kvs. plain x" using JObj by (auto simp: list_all_iff)
  then show ?thesis unfolding JObj fields_of.simps by (induction kvs) auto
qed simp_all

lemma js_wf_getf: "js_wf v \<Longrightarrow> js_wf (getf (fields_of v) k)"
proof (cases v)
  case (JObj i kvs)
  assume "js_wf v"
  then have "\<forall>(k, x) \<in> set kvs. js_wf x" using JObj by (auto simp: list_all_iff)
  then show ?thesis unfolding JObj fields_of.simps by (induction kvs) auto
qed simp_all

lemma gateKeys_own_field:
  assumes "gateKeys v ks" "k \<in> set ks" "plain v"
  shows "plain (getf (fields_of v) k)"
proof -
  obtain i kvs where v: "v = JObj i kvs" "set (map fst kvs) = set ks"
    using assms(1) unfolding gateKeys_exact by (rule exactKeysE)
  then obtain x where "map_of kvs k = Some x" using assms(2) by (metis map_of_eq_None_iff not_Some_eq set_map)
  then show ?thesis using v(1) assms(3) map_of_SomeD [of kvs k x] by (auto simp: getf_def list_all_iff)
qed

lemma closed_policy_rule:
  assumes v: "validateAdminAiPocPolicy policy" "plain policy" "js_wf policy" and i: "i < 3"
  shows "getf (fields_of (policy_rule policy i)) ''outcome'' = JStr (CLOSED_RULES ! i ! 1)"
    "getf (fields_of (policy_rule policy i)) ''reasonCode'' = JStr (CLOSED_RULES ! i ! 2)"
proof -
  let ?rules = "elems_of (getf (fields_of policy) ''rules'')" and ?r = "policy_rule policy i"
  have l: "length ?rules = 3" "is_array (getf (fields_of policy) ''rules'')"
    "list_all (\<lambda>(rule, expected). gateKeys rule [''outcome'', ''reasonCode'', ''requestKind'']
          \<and> gateJson (arr [getf (fields_of rule) ''requestKind'', getf (fields_of rule) ''outcome'',
                getf (fields_of rule) ''reasonCode'']) = gateJson (strs_js expected)) (zip ?rules CLOSED_RULES)"
    and k: "gateKeys policy [''policyId'', ''rules'', ''schemaVersion'']"
    using v(1) by (auto simp: validateAdminAiPocPolicy_def Let_def split: if_splits)
  have c: "length CLOSED_RULES = 3" by (simp add: CLOSED_RULES_def)
  have "(?r, CLOSED_RULES ! i) \<in> set (zip ?rules CLOSED_RULES)"
    using i l(1) c by (auto simp: policy_rule_def set_zip)
  with l(3) have g: "gateKeys ?r [''outcome'', ''reasonCode'', ''requestKind'']"
    "gateJson (arr [getf (fields_of ?r) ''requestKind'', getf (fields_of ?r) ''outcome'', getf (fields_of ?r) ''reasonCode''])
      = gateJson (strs_js (CLOSED_RULES ! i))" by (auto simp: list_all_iff)
  have m: "?r \<in> set ?rules" using i l(1) by (simp add: policy_rule_def)
  have "plain (getf (fields_of policy) ''rules'')" by (rule gateKeys_own_field [OF k _ v(2)]) simp
  moreover have "js_wf (getf (fields_of policy) ''rules'')" by (rule js_wf_getf [OF v(3)])
  ultimately have p: "plain ?r" "js_wf ?r" using m l(2) by (auto simp: is_array_iff list_all_iff)
  obtain x y z where e: "CLOSED_RULES ! i = [x, y, z]"
    using i by (auto simp: CLOSED_RULES_def numeral_3_eq_3 less_Suc_eq)
  from closed_rule [OF g(2) [unfolded e]] gateKeys_own_field [OF g(1) _ p(1)] js_wf_getf [OF p(2)]
  show "getf (fields_of ?r) ''outcome'' = JStr (CLOSED_RULES ! i ! 1)"
    "getf (fields_of ?r) ''reasonCode'' = JStr (CLOSED_RULES ! i ! 2)" by (simp_all add: e)
qed

subsection \<open>Inputs\<close>

definition good_sha :: "'a runtime_scheme \<Rightarrow> bool" where
  "good_sha rt \<longleftrightarrow> (\<forall>t. hex64 (sha rt t))"

lemma good_digest: "good_sha rt \<Longrightarrow> hex64 (json_digest rt v)"
  by (simp add: good_sha_def json_digest_def)

lemma valid_request:
  assumes "validateRequest request"
  obtains kind key where "getf (fields_of request) ''actor'' = JStr AGENT"
    "getf (fields_of request) ''requestKind'' = JStr kind" "getf (fields_of request) ''replayKey'' = JStr key"
    "rx_test AGENT_REPLAY_KEY key"
  using assms by (auto simp: validateRequest_def Let_def str_test_iff)

lemma names_ok:
  "rx_test LOWER_NAME ''customer.contact.create''" "rx_test LOWER_NAME ''sales.order.create''"
  "rx_test LOWER_NAME ''request.undeclared''" "rx_test LOWER_NAME ''espocrm-contact''"
  "rx_test LOWER_NAME ''dolibarr-order''" "rx_test LOWER_NAME ''deny-only''" "rx_test LOWER_NAME ''internal-static''"
  "rx_test UPPER_NAME ''CREATE_IF_ABSENT''" "rx_test UPPER_NAME ''UNDECLARED_REQUEST''"
  "rx_test RESOURCE_NAME ''CustomerContact''" "rx_test RESOURCE_NAME ''SalesOrder''"
  "rx_test RESOURCE_NAME ''UndeclaredRequest''" "rx_test VERSION_TEXT ''1.0.0''"
  by code_simp+

lemma rxTest_JStr [simp]: "rxTest r (JStr s) = rx_test r s"
  by (simp add: rxTest_def)

lemma oneOf_JStr [simp]: "oneOf xs (JStr s) \<longleftrightarrow> s \<in> set xs"
  by (simp add: oneOf_def)

lemma intent_valid:
  assumes "actor = JStr AGENT" "replayKey = JStr key" "rx_test AGENT_REPLAY_KEY key" "requestDigest = JStr d" "hex64 d"
    "rx_test LOWER_NAME capability" "rx_test UPPER_NAME operation" "rx_test RESOURCE_NAME resource"
    "rx_test LOWER_NAME adapterId" "materiality \<in> set [''LOW_SYNTHETIC'', ''MATERIAL_SYNTHETIC'', ''UNDECLARED'']"
    "(actionDigest = JNull \<and> scopeDigest = JNull) \<or> (\<exists>a s. actionDigest = JStr a \<and> scopeDigest = JStr s \<and> hex64 a \<and> hex64 s)"
  shows "validatePolicyEvaluationInput
    (intent actor capability operation resource materiality adapterId actionDigest scopeDigest replayKey requestDigest)"
proof -
  have k: "gateKeys (intent actor capability operation resource materiality adapterId actionDigest scopeDigest replayKey requestDigest)
      EVALUATION_INPUT_KEYS"
    unfolding gateKeys_exact intent_def by (rule exactKeys_mset) (simp add: EVALUATION_INPUT_KEYS_def)
  have a: "gateKeys (obj [(''adapterId'', JStr adapterId), (''adapterVersion'', JStr ''1.0.0'')]) [''adapterId'', ''adapterVersion'']"
    unfolding gateKeys_exact by (rule exactKeys_mset) simp
  show ?thesis
    unfolding validatePolicyEvaluationInput_def Let_def
    using k assms a names_ok(13) by (auto simp: intent_def fld2_def)
qed

lemma intentFor_valid:
  assumes "validateRequest request" "good_sha rt"
  shows "validatePolicyEvaluationInput (intentFor rt request (plannedAction request))"
proof -
  obtain kind key where f: "getf (fields_of request) ''actor'' = JStr AGENT"
    "getf (fields_of request) ''requestKind'' = JStr kind" "getf (fields_of request) ''replayKey'' = JStr key"
    "rx_test AGENT_REPLAY_KEY key" using valid_request [OF assms(1)] by metis
  show ?thesis
    unfolding intentFor_def Let_def f(2)
    by (auto intro!: intent_valid [where key = key] simp: f(1,3,4) names_ok good_digest [OF assms(2)] simp del: rx_test.simps)
qed

lemma intent_capability:
  "getf (fields_of (intentFor rt request action)) ''capability'' = JStr
     (if getf (fields_of request) ''requestKind'' = JStr CONTACT_KIND then ''customer.contact.create''
      else if getf (fields_of request) ''requestKind'' = JStr ORDER_KIND then ''sales.order.create''
      else ''request.undeclared'')"
  by (simp add: intentFor_def intent_def Let_def)

subsection \<open>Decisions of the static evaluator\<close>

definition sealed_decision :: "'a runtime_scheme \<Rightarrow> js \<Rightarrow> js \<Rightarrow> string \<Rightarrow> string \<Rightarrow> js" where
  "sealed_decision rt input context outcome reason =
     (let core = decisionCore rt input context ''internal-static'' ''1.0.0'' (JStr outcome) (arr [JStr reason])
      in obj (core @ [(''decisionDigest'', JStr (json_digest rt (obj core)))]))"

lemma sealed_decision_fields:
  "getf (fields_of (sealed_decision rt input context outcome reason)) ''outcome'' = JStr outcome"
  "getf (fields_of (sealed_decision rt input context outcome reason)) ''reasonCodes'' = arr [JStr reason]"
  by (simp_all add: sealed_decision_def decisionCore_def Let_def)

lemma sealed_decision_valid:
  assumes "good_sha rt" "outcome \<in> set POLICY_OUTCOMES" "reason \<in> set POLICY_REASONS"
  shows "decision_valid rt (sealed_decision rt input context outcome reason) input context"
proof -
  let ?d = "sealed_decision rt input context outcome reason"
  define core where "core = decisionCore rt input context ''internal-static'' ''1.0.0'' (JStr outcome) (arr [JStr reason])"
  have d: "?d = obj (core @ [(''decisionDigest'', JStr (json_digest rt (obj core)))])"
    by (simp add: sealed_decision_def core_def Let_def)
  have w: "without ''decisionDigest'' (fields_of ?d) = core"
    unfolding d by (simp add: without_def core_def decisionCore_def)
  have k: "gateKeys ?d DECISION_KEYS"
    unfolding gateKeys_exact d by (rule exactKeys_mset) (simp add: core_def decisionCore_def DECISION_KEYS_def)
  have e: "gateKeys (obj [(''providerId'', x), (''providerVersion'', y)]) [''providerId'', ''providerVersion'']"
    "gateKeys (obj [(''authorityIssuer'', x), (''maximumEffects'', y), (''exactInputRequired'', z)])
      [''authorityIssuer'', ''exactInputRequired'', ''maximumEffects'']" for x y z
    unfolding gateKeys_exact by (rule exactKeys_mset, simp)+
  have f: "getf (fields_of ?d) ''schemaVersion'' = JStr POLICY_DECISION_SCHEMA"
    "getf (fields_of ?d) ''inputDigest'' = JStr (json_digest rt input)"
    "getf (fields_of ?d) ''contextDigest'' = JStr (json_digest rt context)"
    "getf (fields_of ?d) ''evaluator'' = obj [(''providerId'', JStr ''internal-static''), (''providerVersion'', JStr ''1.0.0'')]"
    "getf (fields_of ?d) ''constraints'' = obj [(''authorityIssuer'', JStr ''CHIMPMAERA_GATE_ONLY''),
         (''maximumEffects'', jint (if outcome = ''DENY'' then 0 else 1)), (''exactInputRequired'', JBool True)]"
    "getf (fields_of ?d) ''decisionDigest'' = JStr (json_digest rt (obj core))"
    unfolding d by (simp_all add: core_def decisionCore_def)
  show ?thesis
    unfolding decision_valid_def Let_def w fld2_def f sealed_decision_fields
    using assms(2,3) k by (simp add: e names_ok good_digest [OF assms(1)] del: rx_test.simps)
qed

text \<open>The rule that answers a kind of request.\<close>

definition rule_of :: "js \<Rightarrow> nat" where
  "rule_of request = (let k = getf (fields_of request) ''requestKind'' in
     if k = JStr CONTACT_KIND then 0 else if k = JStr ORDER_KIND then 1 else 2)"

definition context_matches :: "'a runtime_scheme \<Rightarrow> js \<Rightarrow> string \<Rightarrow> js \<Rightarrow> bool" where
  "context_matches rt policy policySourceDigest context \<longleftrightarrow>
     (let c = getf (fields_of context) in validateTrustedPolicyContext context
      \<and> c ''policyId'' = getf (fields_of policy) ''policyId'' \<and> c ''policySourceDigest'' = JStr policySourceDigest
      \<and> c ''policySemanticDigest'' = JStr (json_digest rt policy))"

lemma rule_of_less: "rule_of request < 3"
  by (simp add: rule_of_def Let_def)

lemma static_answer:
  assumes "validateAdminAiPocPolicy policy" "plain policy" "js_wf policy" "validateRequest request" "good_sha rt"
    "context_matches rt policy digest context"
  defines "input \<equiv> intentFor rt request (plannedAction request)"
  shows "static_evaluate rt policy digest input context = Inr (sealed_decision rt input context
      (CLOSED_RULES ! rule_of request ! 1) (CLOSED_RULES ! rule_of request ! 2))"
proof -
  have c: "validateTrustedPolicyContext context"
    "getf (fields_of context) ''policyId'' = getf (fields_of policy) ''policyId''"
    "getf (fields_of context) ''policySourceDigest'' = JStr digest"
    "getf (fields_of context) ''policySemanticDigest'' = JStr (json_digest rt policy)"
    using assms(6) by (simp_all add: context_matches_def Let_def)
  have r: "(if getf (fields_of input) ''capability'' = JStr ''customer.contact.create'' then policy_rule policy 0
      else if getf (fields_of input) ''capability'' = JStr ''sales.order.create'' then policy_rule policy 1
      else policy_rule policy 2) = policy_rule policy (rule_of request)"
    unfolding input_def intent_capability by (simp add: rule_of_def Let_def)
  note p = closed_policy_rule [OF assms(1-3) rule_of_less]
  show ?thesis
    using intentFor_valid [OF assms(4,5)] c
    unfolding static_evaluate_def Let_def r p input_def [symmetric] by (simp add: sealed_decision_def Let_def)
qed

lemma closed_rules_listed:
  "i < 3 \<Longrightarrow> CLOSED_RULES ! i ! 1 \<in> set POLICY_OUTCOMES \<and> CLOSED_RULES ! i ! 2 \<in> set POLICY_REASONS"
  by (auto simp: CLOSED_RULES_def POLICY_OUTCOMES_def POLICY_REASONS_def numeral_3_eq_3 less_Suc_eq)

subsection \<open>Answers of the handler\<close>

lemma planned_cases:
  "(plannedAction request = contactAction (getf (fields_of request) ''replayKey'') \<and> rule_of request = 0)
   \<or> (plannedAction request = orderAction (getf (fields_of request) ''replayKey'') \<and> rule_of request = 1)
   \<or> (plannedAction request = JNull \<and> rule_of request = 2)"
  by (simp add: plannedAction_def rule_of_def Let_def)

lemma capability_of_rule:
  "getf (fields_of (intentFor rt request action)) ''capability''
    = JStr ([''customer.contact.create'', ''sales.order.create'', ''request.undeclared''] ! rule_of request)"
  unfolding intent_capability by (simp add: rule_of_def Let_def)

text \<open>
  Whatever the evaluator: the decision carries an outcome within the ceiling, an action exactly where it is no denial,
  and an authority exactly where it is a grant, signed over the planned action.
\<close>

lemma denied_res: "(if b then Inl e else x) = Inr p \<longleftrightarrow> \<not> b \<and> x = Inr p"
  by simp

lemma validatePolicyDecision_Inr:
  "validatePolicyDecision rt answer input context = Inr d \<longleftrightarrow>
     validatePolicyEvaluationInput input \<and> validateTrustedPolicyContext context
     \<and> decision_valid rt answer input context \<and> d = answer"
  by (auto simp: validatePolicyDecision_def)

lemma ai_decide_Inr_iff:
  "ai_decide rt ai request = Inr d \<longleftrightarrow> (\<exists>answer.
     let input = intentFor rt request (plannedAction request) in
     validateRequest request \<and> aa_evaluate ai input (aa_context ai) = Inr answer
     \<and> validatePolicyEvaluationInput input \<and> validateTrustedPolicyContext (aa_context ai)
     \<and> decision_valid rt answer input (aa_context ai)
     \<and> \<not> exceeds_ceiling (getf (fields_of input) ''capability'') (getf (fields_of answer) ''outcome'')
     \<and> d = ai_answer rt ai request answer)"
proof -
  let ?i = "intentFor rt request (plannedAction request)"
  show ?thesis
    unfolding ai_decide_def Let_def denied_res
    by (cases "aa_evaluate ai ?i (aa_context ai)")
       (auto simp: validatePolicyDecision_def)
qed

lemma ai_answer_fields:
  assumes "getf (fields_of answer) ''outcome'' = JStr outcome" "outcome = ''DENY'' \<or> plannedAction request \<noteq> JNull"
  shows "getf (fields_of (ai_answer rt ai request answer)) ''outcome'' = JStr outcome"
    "getf (fields_of (ai_answer rt ai request answer)) ''action''
      = (if outcome = ''DENY'' then JNull else plannedAction request)"
    "getf (fields_of (ai_answer rt ai request answer)) ''authority'' = (if outcome = ''AUTO_GRANT''
       then aa_sign ai (authority_request ai (plannedAction request) (JStr (json_digest rt (plannedAction request)))
         (getf (fields_of (ai_answer rt ai request answer)) ''decisionDigest'')) else JNull)"
  using assms unfolding ai_answer_def Let_def ai_core_def by (cases "outcome = ''DENY''", simp_all)+

lemma exceeds_ceiling_rule:
  "exceeds_ceiling (getf (fields_of (intentFor rt request action)) ''capability'') (JStr outcome) \<longleftrightarrow>
     (rule_of request = 2 \<and> outcome \<noteq> ''DENY'') \<or> (rule_of request = 1 \<and> outcome = ''AUTO_GRANT'')"
  unfolding capability_of_rule exceeds_ceiling_def
  using planned_cases [of request] by auto

lemma decision_valid_outcome:
  assumes "decision_valid rt answer input context"
  obtains outcome where "getf (fields_of answer) ''outcome'' = JStr outcome" "outcome \<in> set POLICY_OUTCOMES"
proof -
  have "oneOf POLICY_OUTCOMES (getf (fields_of answer) ''outcome'')"
    using assms unfolding decision_valid_def Let_def by blast
  then show thesis using that by (auto simp: oneOf_def str_test_iff)
qed

lemma ai_decide_Inr:
  assumes "ai_decide rt ai request = Inr d"
  obtains outcome where
    "validateRequest request" "getf (fields_of d) ''outcome'' = JStr outcome" "outcome \<in> set POLICY_OUTCOMES"
    "rule_of request = 2 \<longrightarrow> outcome = ''DENY''" "rule_of request = 1 \<longrightarrow> outcome \<noteq> ''AUTO_GRANT''"
    "getf (fields_of d) ''action'' = (if outcome = ''DENY'' then JNull else plannedAction request)"
    "getf (fields_of d) ''authority'' = (if outcome = ''AUTO_GRANT''
       then aa_sign ai (authority_request ai (plannedAction request) (JStr (json_digest rt (plannedAction request)))
         (getf (fields_of d) ''decisionDigest'')) else JNull)"
proof -
  obtain answer where r: "validateRequest request" and v: "decision_valid rt answer (intentFor rt request (plannedAction request)) (aa_context ai)"
    and x: "\<not> exceeds_ceiling (getf (fields_of (intentFor rt request (plannedAction request))) ''capability'')
      (getf (fields_of answer) ''outcome'')"
    and d: "d = ai_answer rt ai request answer"
    using assms unfolding ai_decide_Inr_iff Let_def by blast
  obtain outcome where o: "getf (fields_of answer) ''outcome'' = JStr outcome" "outcome \<in> set POLICY_OUTCOMES"
    by (rule decision_valid_outcome [OF v])
  have c: "rule_of request = 2 \<longrightarrow> outcome = ''DENY''" "rule_of request = 1 \<longrightarrow> outcome \<noteq> ''AUTO_GRANT''"
    using x unfolding o(1) exceeds_ceiling_rule by simp_all
  have n: "outcome = ''DENY'' \<or> plannedAction request \<noteq> JNull"
    using planned_cases [of request] c(1) by (auto simp: contactAction_def orderAction_def)
  show thesis
    by (rule that [OF r ai_answer_fields(1) [OF o(1) n, of rt ai, folded d] o(2) c
          ai_answer_fields(2,3) [OF o(1) n, of rt ai, folded d]])
qed

end
