(* ===== verification/ApprovalWorkbench.thy ===== *)
theory ApprovalWorkbench
  imports GateExecute
begin

text \<open>
  \<open>demo/runtime/approval-workbench.mjs\<close>: escalated decisions become proposals over a fresh snapshot of the provider,
  and the owner decides each of them once. \<open>register\<close> and \<open>decide\<close> are cut at their one \<open>await\<close>, the read of the
  snapshot. \<open>issueAuthority\<close> is a parameter (the gate, in \<open>server.mjs\<close>).
\<close>

definition WORKBENCH_STORE_SCHEMA :: string where
  "WORKBENCH_STORE_SCHEMA = ''chimpmaera.demo/approval-workbench-store/v2''"
definition PROPOSAL_SCHEMA :: string where
  "PROPOSAL_SCHEMA = ''chimpmaera.demo/approval-proposal/v2''"
definition OWNER_RECEIPT_SCHEMA :: string where
  "OWNER_RECEIPT_SCHEMA = ''chimpmaera.demo/owner-decision-receipt/v2''"

definition ESCALATION_INVALID :: string where
  "ESCALATION_INVALID = ''OWNER_ESCALATION_DECISION_INVALID_DENIED''"
definition PROPOSAL_INVALID :: string where
  "PROPOSAL_INVALID = ''APPROVAL_PROPOSAL_INVALID_DENIED''"
definition OWNER_RECEIPT_INVALID :: string where
  "OWNER_RECEIPT_INVALID = ''OWNER_DECISION_RECEIPT_INVALID_DENIED''"
definition APPROVAL_STORE_INVALID :: string where
  "APPROVAL_STORE_INVALID = ''APPROVAL_STORE_INVALID_DENIED''"

subsection \<open>Escalated decisions\<close>

definition ESCALATION_KEYS :: "string list" where
  "ESCALATION_KEYS = [''action'', ''actionDigest'', ''actor'', ''authority'', ''decisionDigest'', ''outcome'',
     ''policyDigest'', ''policyGeneration'', ''policyId'', ''reasonCodes'', ''replayKey'', ''requestId'',
     ''requestKind'', ''schemaVersion'']"

text \<open>The decision without its action, its authority and its own digest.\<close>

definition escalation_core :: "js \<Rightarrow> js" where
  "escalation_core decision = obj (without ''decisionDigest'' (without ''authority'' (without ''action'' (fields_of decision))))"

definition validateEscalationDecision :: "'a runtime_scheme \<Rightarrow> js \<Rightarrow> bool" where
  "validateEscalationDecision rt decision \<longleftrightarrow>
     (let f = getf (fields_of decision); scope = getf (fields_of (fld2 decision ''action'' ''scope'')) in
      gateKeys decision ESCALATION_KEYS \<and> f ''schemaVersion'' = JStr ''chimpmaera.demo/admin-ai-decision/v4''
      \<and> f ''actor'' = JStr AGENT \<and> f ''requestKind'' = JStr ''SYNTHETIC_DOLIBARR_ORDER_CREATE''
      \<and> f ''outcome'' = JStr ''OWNER_ESCALATION''
      \<and> gateJson (f ''reasonCodes'') = gateJson (strs_js [''POLICY_ORDER_REQUIRES_OWNER''])
      \<and> f ''authority'' = JNull \<and> scope ''provider'' = JStr ''dolibarr'' \<and> scope ''entity'' = JStr ''Order''
      \<and> f ''policyId'' = JStr POC_POLICY_ID \<and> isGeneration (f ''policyGeneration'')
      \<and> str_test hex64 (f ''requestId'') \<and> str_test hex64 (f ''actionDigest'') \<and> str_test hex64 (f ''policyDigest'')
      \<and> str_test hex64 (f ''decisionDigest'')
      \<and> digest_is rt (f ''action'') (f ''actionDigest'') \<and> digest_is rt (escalation_core decision) (f ''decisionDigest''))"

record workbench_config =
  wc_policyDigest :: string
  wc_policyGeneration :: int
  wc_profileGeneration :: string
  wc_leaseTtlMs :: int

definition workbench_config_valid :: "workbench_config \<Rightarrow> bool" where
  "workbench_config_valid cfg \<longleftrightarrow>
     is_safe_integer (jint (wc_leaseTtlMs cfg)) \<and> \<not> wc_leaseTtlMs cfg < 1000 \<and> \<not> wc_leaseTtlMs cfg > 300000
     \<and> isGeneration (jint (wc_policyGeneration cfg)) \<and> \<not> length (wc_profileGeneration cfg) < 8
     \<and> hex64 (wc_policyDigest cfg)"

subsection \<open>Proposals\<close>

definition diff_policy :: "js \<Rightarrow> js" where
  "diff_policy v = (let f = getf (fields_of v) in
     obj [(''id'', f ''policyId''), (''generation'', f ''policyGeneration''), (''digest'', f ''policyDigest'')])"

definition proposalCore :: "'a runtime_scheme \<Rightarrow> workbench_config \<Rightarrow> js \<Rightarrow> js \<Rightarrow> fields res" where
  "proposalCore rt cfg decision snapshot =
     (let f = getf (fields_of decision); s = getf (fields_of snapshot) in
      res_bind (deriveAuthoritativeBusinessDiff rt (f ''action'') snapshot (diff_policy decision)) (\<lambda>businessDiff.
        Inr [(''schemaVersion'', JStr PROPOSAL_SCHEMA), (''decisionDigest'', f ''decisionDigest''),
          (''requestId'', f ''requestId''), (''actor'', f ''actor''), (''requestKind'', f ''requestKind''),
          (''outcome'', f ''outcome''), (''reasonCodes'', f ''reasonCodes''), (''action'', f ''action''),
          (''actionDigest'', f ''actionDigest''), (''businessDiff'', businessDiff),
          (''businessDiffDigest'', JStr (json_digest rt businessDiff)), (''snapshot'', snapshot),
          (''snapshotDigest'', s ''snapshotDigest''), (''snapshotVersion'', s ''version''),
          (''requester'', s ''requester''), (''purpose'', s ''purpose''), (''replayKey'', f ''replayKey''),
          (''policyDigest'', f ''policyDigest''), (''policyGeneration'', f ''policyGeneration''),
          (''policyId'', f ''policyId''), (''profileId'', JStr GATE_PROFILE),
          (''profileGeneration'', JStr (wc_profileGeneration cfg))]))"

definition PROPOSAL_KEYS :: "string list" where
  "PROPOSAL_KEYS = [''action'', ''actionDigest'', ''actor'', ''businessDiff'', ''businessDiffDigest'', ''decisionDigest'',
     ''outcome'', ''policyDigest'', ''policyGeneration'', ''policyId'', ''profileGeneration'', ''profileId'',
     ''proposalDigest'', ''purpose'', ''reasonCodes'', ''replayKey'', ''requester'', ''requestId'', ''requestKind'',
     ''schemaVersion'', ''snapshot'', ''snapshotDigest'', ''snapshotVersion'']"

definition validateProposal :: "'a runtime_scheme \<Rightarrow> js \<Rightarrow> bool" where
  "validateProposal rt proposal \<longleftrightarrow>
     (let f = getf (fields_of proposal) in
      gateKeys proposal PROPOSAL_KEYS \<and> f ''schemaVersion'' = JStr PROPOSAL_SCHEMA
      \<and> f ''outcome'' = JStr ''OWNER_ESCALATION'' \<and> f ''profileId'' = JStr GATE_PROFILE
      \<and> f ''policyId'' = JStr POC_POLICY_ID \<and> f ''requester'' = JStr APPROVAL_REQUESTER
      \<and> f ''purpose'' = JStr APPROVAL_PURPOSE \<and> isGeneration (f ''policyGeneration'')
      \<and> str_test (\<lambda>s. \<not> length s < 8) (f ''profileGeneration'')
      \<and> str_test hex64 (f ''actionDigest'') \<and> str_test hex64 (f ''businessDiffDigest'')
      \<and> str_test hex64 (f ''decisionDigest'') \<and> str_test hex64 (f ''policyDigest'')
      \<and> str_test hex64 (f ''proposalDigest'') \<and> str_test hex64 (f ''snapshotDigest'')
      \<and> str_test hex64 (f ''snapshotVersion'')
      \<and> (case deriveAuthoritativeBusinessDiff rt (f ''action'') (f ''snapshot'') (diff_policy proposal) of
           Inl e \<Rightarrow> False
         | Inr expectedDiff \<Rightarrow>
             digest_is rt (f ''action'') (f ''actionDigest'')
             \<and> f ''snapshotDigest'' = fld2 proposal ''snapshot'' ''snapshotDigest''
             \<and> f ''snapshotVersion'' = fld2 proposal ''snapshot'' ''version''
             \<and> gateJson (f ''businessDiff'') = gateJson expectedDiff
             \<and> digest_is rt (f ''businessDiff'') (f ''businessDiffDigest'')
             \<and> digest_is rt (obj (without ''proposalDigest'' (fields_of proposal))) (f ''proposalDigest'')))"

subsection \<open>Owner decisions\<close>

definition OWNER_DECISIONS :: "string list" where
  "OWNER_DECISIONS = [''APPROVE'', ''REJECT'']"

definition outcome_of :: "js \<Rightarrow> js" where
  "outcome_of ownerDecision =
     JStr (if ownerDecision = JStr ''APPROVE'' then ''OWNER_APPROVED_AUTHORITY_ISSUED'' else ''OWNER_REJECTED_NO_AUTHORITY'')"

text \<open>What a receipt repeats from its proposal.\<close>

definition RECEIPT_BOUND :: "string list" where
  "RECEIPT_BOUND = [''proposalDigest'', ''decisionDigest'', ''actionDigest'', ''businessDiffDigest'', ''policyDigest'',
     ''policyGeneration'', ''policyId'', ''profileId'', ''profileGeneration'', ''requester'', ''purpose'',
     ''snapshotDigest'', ''snapshotVersion'']"

definition OWNER_RECEIPT_KEYS :: "string list" where
  "OWNER_RECEIPT_KEYS = [''actionDigest'', ''businessDiffDigest'', ''decidedAtMs'', ''decisionDigest'', ''outcome'',
     ''ownerActor'', ''ownerDecision'', ''policyDigest'', ''policyGeneration'', ''policyId'', ''profileGeneration'',
     ''profileId'', ''proposalDigest'', ''purpose'', ''receiptDigest'', ''requester'', ''schemaVersion'',
     ''snapshotDigest'', ''snapshotVersion'']"

definition validateDecisionReceipt :: "'a runtime_scheme \<Rightarrow> js \<Rightarrow> js \<Rightarrow> bool" where
  "validateDecisionReceipt rt receipt proposal \<longleftrightarrow>
     (let f = getf (fields_of receipt); p = getf (fields_of proposal) in
      gateKeys receipt OWNER_RECEIPT_KEYS \<and> f ''schemaVersion'' = JStr OWNER_RECEIPT_SCHEMA
      \<and> f ''ownerActor'' = JStr OWNER \<and> str_test (\<lambda>s. s \<in> set OWNER_DECISIONS) (f ''ownerDecision'')
      \<and> f ''outcome'' = outcome_of (f ''ownerDecision'') \<and> isTime (f ''decidedAtMs'')
      \<and> list_all (\<lambda>k. f k = p k) RECEIPT_BOUND
      \<and> JStr (json_digest rt (obj (without ''receiptDigest'' (fields_of receipt)))) = f ''receiptDigest'')"

definition owner_receipt_core :: "js \<Rightarrow> js \<Rightarrow> js \<Rightarrow> js \<Rightarrow> fields" where
  "owner_receipt_core proposal decisionDigest ownerDecision decidedAtMs =
     (let p = getf (fields_of proposal) in
      [(''schemaVersion'', JStr OWNER_RECEIPT_SCHEMA), (''proposalDigest'', p ''proposalDigest''),
       (''decisionDigest'', decisionDigest), (''ownerActor'', JStr OWNER), (''ownerDecision'', ownerDecision),
       (''outcome'', outcome_of ownerDecision), (''decidedAtMs'', decidedAtMs), (''actionDigest'', p ''actionDigest''),
       (''businessDiffDigest'', p ''businessDiffDigest''), (''policyDigest'', p ''policyDigest''),
       (''policyGeneration'', p ''policyGeneration''), (''policyId'', p ''policyId''), (''profileId'', p ''profileId''),
       (''profileGeneration'', p ''profileGeneration''), (''requester'', p ''requester''), (''purpose'', p ''purpose''),
       (''snapshotDigest'', p ''snapshotDigest''), (''snapshotVersion'', p ''snapshotVersion'')])"

subsection \<open>The store\<close>

record owner_record =
  or_receipt :: js
  or_authority :: js

record workbench_store =
  ws_proposals :: "(string \<times> js) list"
  ws_decisions :: "(string \<times> owner_record) list"

definition owner_record_js :: "owner_record \<Rightarrow> js" where
  "owner_record_js r = obj [(''receipt'', or_receipt r), (''authority'', or_authority r)]"

definition workbench_store_js :: "workbench_store \<Rightarrow> js" where
  "workbench_store_js st = obj [(''schemaVersion'', JStr WORKBENCH_STORE_SCHEMA), (''proposals'', obj (ws_proposals st)),
     (''decisions'', map_js owner_record_js (ws_decisions st))]"

definition read_owner_record :: "js \<Rightarrow> owner_record" where
  "read_owner_record v = \<lparr>or_receipt = getf (fields_of v) ''receipt'', or_authority = getf (fields_of v) ''authority''\<rparr>"

definition decided_valid :: "'a runtime_scheme \<Rightarrow> fields \<Rightarrow> string \<Rightarrow> js \<Rightarrow> unit res" where
  "decided_valid rt proposals digest v =
     (let f = getf (fields_of v); ownerDecision = fld2 v ''receipt'' ''ownerDecision'' in
      if \<not> gateKeys v [''authority'', ''receipt''] then Inl APPROVAL_STORE_INVALID
      else
        (case slot proposals digest of
           Absent \<Rightarrow> Inl APPROVAL_STORE_INVALID
         | Inherited \<Rightarrow> Inl OWNER_RECEIPT_INVALID
         | Own proposal \<Rightarrow>
             if \<not> validateDecisionReceipt rt (f ''receipt'') proposal then Inl OWNER_RECEIPT_INVALID
             else if (ownerDecision = JStr ''REJECT'' \<and> f ''authority'' \<noteq> JNull)
               \<or> (ownerDecision = JStr ''APPROVE'' \<and> \<not> is_record (f ''authority'') \<and> \<not> is_array (f ''authority''))
             then Inl APPROVAL_STORE_INVALID
             else Inr ()))"

text \<open>An inherited member is no proposal either: a receipt cannot repeat its digests.\<close>

definition proposed_valid :: "'a runtime_scheme \<Rightarrow> string \<Rightarrow> js \<Rightarrow> unit res" where
  "proposed_valid rt digest proposal =
     (if \<not> validateProposal rt proposal then Inl PROPOSAL_INVALID
      else if getf (fields_of proposal) ''decisionDigest'' \<noteq> JStr digest then Inl APPROVAL_STORE_INVALID
      else Inr ())"

definition normalizeStore :: "'a runtime_scheme \<Rightarrow> js \<Rightarrow> workbench_store res" where
  "normalizeStore rt v =
     (let f = getf (fields_of v); proposals = fields_of (f ''proposals''); decisions = fields_of (f ''decisions'') in
      if \<not> gateKeys v [''decisions'', ''proposals'', ''schemaVersion''] then Inl APPROVAL_STORE_INVALID
      else if f ''schemaVersion'' \<noteq> JStr WORKBENCH_STORE_SCHEMA \<or> \<not> is_record (f ''proposals'') \<or> \<not> is_record (f ''decisions'')
      then Inl APPROVAL_STORE_INVALID
      else
        res_bind (map_res (\<lambda>(k, p). proposed_valid rt k p) proposals) (\<lambda>_.
        res_bind (map_res (\<lambda>(k, d). decided_valid rt proposals k d) decisions) (\<lambda>_.
          Inr \<lparr>ws_proposals = proposals, ws_decisions = read_map read_owner_record (f ''decisions'')\<rparr>)))"

record workbench =
  wb_store :: workbench_store
  wb_pending :: "string list"
  wb_file :: json_file

definition new_workbench :: "'a runtime_scheme \<Rightarrow> workbench_config \<Rightarrow> json_file \<Rightarrow> workbench res" where
  "new_workbench rt cfg file =
     (if \<not> workbench_config_valid cfg then Inl ''APPROVAL_WORKBENCH_CONFIG_INVALID_DENIED''
      else
        (case file of
           NoFile \<Rightarrow> Inr \<lparr>wb_store = \<lparr>ws_proposals = [], ws_decisions = []\<rparr>, wb_pending = [], wb_file = file\<rparr>
         | Unparsable \<Rightarrow> Inl ''SyntaxError''
         | Json v \<Rightarrow> res_bind (normalizeStore rt v) (\<lambda>st. Inr \<lparr>wb_store = st, wb_pending = [], wb_file = file\<rparr>)))"

text \<open>\<open>persist\<close>: a write that fails leaves the changed store in memory and the file alone.\<close>

definition wb_persist :: "bool \<Rightarrow> workbench \<Rightarrow> workbench res" where
  "wb_persist writes w =
     (if writes then Inr (w\<lparr>wb_file := Json (the (json_trip (workbench_store_js (wb_store w))))\<rparr>) else Inl WRITE_ERROR)"

subsection \<open>Operations\<close>

text \<open>Before the snapshot is read.\<close>

definition register_begin :: "'a runtime_scheme \<Rightarrow> workbench_config \<Rightarrow> js \<Rightarrow> unit res" where
  "register_begin rt cfg decision =
     (let f = getf (fields_of decision) in
      if \<not> validateEscalationDecision rt decision then Inl ESCALATION_INVALID
      else if f ''policyDigest'' \<noteq> JStr (wc_policyDigest cfg) \<or> f ''policyGeneration'' \<noteq> jint (wc_policyGeneration cfg)
        \<or> f ''policyId'' \<noteq> JStr POC_POLICY_ID then Inl ''APPROVAL_POLICY_CONTEXT_MISMATCH_DENIED''
      else Inr ())"

definition digest_key :: "js \<Rightarrow> string" where
  "digest_key decision = str_of (getf (fields_of decision) ''decisionDigest'')"

definition register_end ::
  "'a runtime_scheme \<Rightarrow> workbench_config \<Rightarrow> bool \<Rightarrow> workbench \<Rightarrow> js \<Rightarrow> js res \<Rightarrow> workbench \<times> js res" where
  "register_end rt cfg writes w decision reading =
     (case reading of
        Inl e \<Rightarrow> (w, Inl e)
      | Inr snapshot \<Rightarrow>
      if \<not> validSnapshot rt snapshot (getf (fields_of decision) ''action'') then (w, Inl SNAPSHOT_INVALID)
      else if length (elems_of (getf (fields_of snapshot) ''matches'')) \<noteq> 0
      then (w, Inl ''APPROVAL_TARGET_ALREADY_EXISTS_DENIED'')
      else
        (case proposalCore rt cfg decision snapshot of
           Inl e \<Rightarrow> (w, Inl e)
         | Inr core \<Rightarrow>
             (let proposal = obj (core @ [(''proposalDigest'', JStr (json_digest rt (obj core)))]);
                  k = digest_key decision in
              case slot (ws_proposals (wb_store w)) k of
                Own prior \<Rightarrow>
                  (w, if gateJson prior \<noteq> gateJson proposal then Inl ''APPROVAL_PROPOSAL_CONFLICT_DENIED'' else Inr prior)
              | Inherited \<Rightarrow> (w, Inl ''APPROVAL_PROPOSAL_CONFLICT_DENIED'')
              | Absent \<Rightarrow>
                  (let w' = w\<lparr>wb_store := (wb_store w)\<lparr>ws_proposals := ws_proposals (wb_store w) @ [(k, proposal)]\<rparr>\<rparr> in
                   case wb_persist writes w' of
                     Inl e \<Rightarrow> (w', Inl e)
                   | Inr w'' \<Rightarrow> (w'', Inr proposal)))))"

record owner_request =
  oq_decisionDigest :: js
  oq_ownerDecision :: js
  oq_ownerActor :: js

definition contextStale :: "workbench_config \<Rightarrow> js \<Rightarrow> bool" where
  "contextStale cfg proposal \<longleftrightarrow>
     (let p = getf (fields_of proposal) in
      p ''policyDigest'' \<noteq> JStr (wc_policyDigest cfg) \<or> p ''policyGeneration'' \<noteq> jint (wc_policyGeneration cfg)
      \<or> p ''policyId'' \<noteq> JStr POC_POLICY_ID \<or> p ''profileId'' \<noteq> JStr GATE_PROFILE
      \<or> p ''profileGeneration'' \<noteq> JStr (wc_profileGeneration cfg))"

text \<open>
  Before the snapshot is read: the proposal, and the workbench in which its decision is pending. Where one of the
  checks inside the \<open>try\<close> fails the \<open>finally\<close> block has already taken the mark away.
\<close>

definition decide_begin :: "'a runtime_scheme \<Rightarrow> workbench_config \<Rightarrow> workbench \<Rightarrow> owner_request \<Rightarrow> workbench \<times> js res" where
  "decide_begin rt cfg w q =
     (let k = str_of (oq_decisionDigest q) in
      if \<not> str_test hex64 (oq_decisionDigest q) \<or> oq_ownerActor q \<noteq> JStr OWNER
        \<or> \<not> str_test (\<lambda>s. s \<in> set OWNER_DECISIONS) (oq_ownerDecision q) then (w, Inl ''OWNER_DECISION_INVALID_DENIED'')
      else
        (case slot (ws_proposals (wb_store w)) k of
           Absent \<Rightarrow> (w, Inl ''APPROVAL_PROPOSAL_NOT_FOUND'')
         | Inherited \<Rightarrow> (w, Inl PROPOSAL_INVALID)
         | Own proposal \<Rightarrow>
             if slot (ws_decisions (wb_store w)) k \<noteq> Absent then (w, Inl ''OWNER_DECISION_ALREADY_FINAL_DENIED'')
             else if k \<in> set (wb_pending w) then (w, Inl ''OWNER_DECISION_IN_PROGRESS_DENIED'')
             else if \<not> validateProposal rt proposal then (w, Inl PROPOSAL_INVALID)
             else if oq_ownerActor q = getf (fields_of proposal) ''actor''
               \<or> oq_ownerActor q = getf (fields_of proposal) ''requester'' then (w, Inl ''APPROVAL_SAME_ACTOR_DENIED'')
             else if contextStale cfg proposal then (w, Inl ''APPROVAL_CONTEXT_STALE_DENIED'')
             else (w\<lparr>wb_pending := k # wb_pending w\<rparr>, Inr proposal)))"

definition unpend :: "string \<Rightarrow> workbench \<Rightarrow> workbench" where
  "unpend k w = w\<lparr>wb_pending := removeAll k (wb_pending w)\<rparr>"

text \<open>
  After the snapshot was read (or its read threw); \<open>now\<close> is the one clock reading. \<open>issueAuthority\<close> takes the proposal,
  the receipt digest and the period.
\<close>

definition decide_end ::
  "'a runtime_scheme \<Rightarrow> workbench_config \<Rightarrow> (js \<Rightarrow> js \<Rightarrow> js \<Rightarrow> js \<Rightarrow> js res) \<Rightarrow> bool \<Rightarrow> js \<Rightarrow> workbench
    \<Rightarrow> owner_request \<Rightarrow> js \<Rightarrow> js res \<Rightarrow> workbench \<times> owner_record res" where
  "decide_end rt cfg issueAuthority writes now w0 q proposal snapshot =
     (let k = str_of (oq_decisionDigest q); w = unpend k w0 in
      case res_bind snapshot (\<lambda>current. assertApprovalSnapshotFresh rt (getf (fields_of proposal) ''snapshot'') current
          (getf (fields_of proposal) ''action'')) of
        Inl e \<Rightarrow> (w, Inl e)
      | Inr _ \<Rightarrow>
          if \<not> isTime now then (w, Inl ''APPROVAL_CLOCK_INVALID_DENIED'')
          else
            (let core = owner_receipt_core proposal (oq_decisionDigest q) (oq_ownerDecision q) now;
                 receiptDigest = JStr (json_digest rt (obj core));
                 receipt = obj (core @ [(''receiptDigest'', receiptDigest)]) in
             case (if oq_ownerDecision q = JStr ''APPROVE''
                 then issueAuthority proposal receiptDigest now (jint (int_of_js now + wc_leaseTtlMs cfg)) else Inr JNull) of
               Inl e \<Rightarrow> (w, Inl e)
             | Inr authority \<Rightarrow>
                 (let record = \<lparr>or_receipt = receipt, or_authority = authority\<rparr>;
                      w' = w\<lparr>wb_store := (wb_store w)\<lparr>ws_decisions := put_key k record (ws_decisions (wb_store w))\<rparr>\<rparr> in
                  case wb_persist writes w' of
                    Inl e \<Rightarrow> (w', Inl e)
                  | Inr w'' \<Rightarrow> (w'', Inr record))))"

definition readDecision :: "workbench \<Rightarrow> js \<Rightarrow> owner_record res" where
  "readDecision w decisionDigest =
     (if \<not> str_test hex64 decisionDigest then Inl ''OWNER_DECISION_INVALID_DENIED''
      else
        (case slot (ws_decisions (wb_store w)) (str_of decisionDigest) of
           Own r \<Rightarrow> Inr r
         | _ \<Rightarrow> Inl ''OWNER_DECISION_RECEIPT_NOT_FOUND''))"

end
