(* ===== verification/OrderPath.thy ===== *)
theory OrderPath
  imports PolicyAnswers ApprovalWorkbench
begin

text \<open>
  The parts together: what the handler of the agent grants or escalates, what the workbench makes of an
  escalation, and what the gate lets pass in the end.
\<close>

subsection \<open>The two actions of the agent\<close>

lemma agent_key_shape:
  assumes "rx_test AGENT_REPLAY_KEY k"
  shows "rx_test REPLAY_KEY_PATTERN k"
proof -
  obtain v where v: "k = ''admin-ai:poc:'' @ v" "rx_test (Rep (Cls ([a_z, A_Z, d0_9] @ chars '':._-'')) 8 (Some 140)) v"
    using assms unfolding AGENT_REPLAY_KEY_def rx_test_lang rx_lang.simps(5) lang_lit by auto
  have "list_all (in_class ([a_z, A_Z, d0_9] @ chars '':._-'')) ''admin-ai:poc:''" by code_simp
  with v(2) show ?thesis
    unfolding v(1) REPLAY_KEY_PATTERN_def rx_test_class_rep list_all_append length_append by simp
qed

lemma agent_action_fields:
  "getf (fields_of (contactAction key)) ''actor'' = JStr AGENT" "getf (fields_of (orderAction key)) ''actor'' = JStr AGENT"
  "getf (fields_of (contactAction key)) ''replayKey'' = key" "getf (fields_of (orderAction key)) ''replayKey'' = key"
  "fld2 (contactAction key) ''scope'' ''actor'' = JStr AGENT" "fld2 (orderAction key) ''scope'' ''actor'' = JStr AGENT"
  "is_record (getf (fields_of (contactAction key)) ''scope'')" "contactAction key \<noteq> JUndef" "orderAction key \<noteq> JUndef"
  by (simp_all add: contactAction_def orderAction_def fld2_def)

lemma agent_action_shape:
  assumes "rx_test AGENT_REPLAY_KEY k"
  shows "validateActionShape (contactAction (JStr k)) = Inr ()" "validateActionShape (orderAction (JStr k)) = Inr ()"
proof -
  have k: "gateKeys (contactAction (JStr k)) ACTION_KEYS" "gateKeys (orderAction (JStr k)) ACTION_KEYS"
    unfolding gateKeys_exact contactAction_def orderAction_def by (rule exactKeys_mset, simp add: ACTION_KEYS_def)+
  show "validateActionShape (contactAction (JStr k)) = Inr ()" "validateActionShape (orderAction (JStr k)) = Inr ()"
    using k agent_key_shape [OF assms]
    by (simp_all add: validateActionShape_def contactAction_def orderAction_def del: rx_test.simps)
qed

lemma agent_action_scope:
  "validateMutationScope (contactAction key) = Inr ()" "validateMutationScope (orderAction key) = Inr ()"
proof -
  have p: "rx_test (lit ''/Contact'') ''/Contact''" "rx_test (lit ''/orders'') ''/orders''"
    by (simp_all add: rx_test_lang del: rx_test.simps lit_simps)
  have o: "slot [(''Account'', a), (''Contact'', b), (''Opportunity'', c)] ''Contact'' = Own b"
    "slot [(''ThirdParty'', a), (''Order'', b), (''OrderLine'', c)] ''Order'' = Own b" for a b c :: rx
    by (simp_all add: slot_def)
  show "validateMutationScope (contactAction key) = Inr ()" "validateMutationScope (orderAction key) = Inr ()"
    unfolding validateMutationScope_def Let_def
    by (simp_all add: contactAction_def orderAction_def fld2_def provider_paths_def is_string_iff o p del: rx_test.simps lit_simps)
qed

lemma agent_action_admitted:
  assumes "rx_test AGENT_REPLAY_KEY k"
  shows "validateAdminAiAction (contactAction (JStr k)) AGENT_KIND" "validateAdminAiAction (orderAction (JStr k)) OWNER_KIND"
  using assms by (simp_all add: validateAdminAiAction_def agent_action_fields del: rx_test.simps gateJson.simps)

subsection \<open>A granted contact\<close>

definition contact_envelope :: "'a runtime_scheme \<Rightarrow> js \<Rightarrow> js \<Rightarrow> js" where
  "contact_envelope rt action authority =
     obj [(''action'', action), (''actionDigest'', JStr (json_digest rt action)), (''authority'', authority)]"

lemma agent_authority_fields:
  "getf (fields_of (agentAuthority rt cfg a)) ''kind'' = JStr AGENT_KIND"
  "getf (fields_of (agentAuthority rt cfg a)) ''actor'' = af_actor a"
  "getf (fields_of (agentAuthority rt cfg a)) ''scope'' = af_scope a"
  "getf (fields_of (agentAuthority rt cfg a)) ''actionDigest'' = af_actionDigest a"
  "getf (fields_of (agentAuthority rt cfg a)) ''replayKey'' = af_replayKey a"
  "getf (fields_of (agentAuthority rt cfg a)) ''policyId'' = af_policyId a"
  "getf (fields_of (agentAuthority rt cfg a)) ''policyGeneration'' = af_policyGeneration a"
  "getf (fields_of (agentAuthority rt cfg a)) ''policyDigest'' = af_policyDigest a"
  "getf (fields_of (agentAuthority rt cfg a)) ''decisionDigest'' = af_decisionDigest a"
  "getf (fields_of (agentAuthority rt cfg a)) ''binding'' = JStr (agent_binding rt cfg a)"
  "gateKeys (agentAuthority rt cfg a) AGENT_AUTHORITY_KEYS"
proof -
  show "gateKeys (agentAuthority rt cfg a) AGENT_AUTHORITY_KEYS"
    unfolding gateKeys_exact agentAuthority_def
    by (rule exactKeys_mset) (simp add: agent_core_def AGENT_AUTHORITY_KEYS_def)
qed (simp_all add: agentAuthority_def agent_core_def)

lemma agent_authority_valid:
  assumes "a = authority_request ai (contactAction (JStr k)) (JStr (json_digest rt (contactAction (JStr k)))) (JStr dd)"
    "good_sha rt" "\<And>k t. hex64 (hmac rt k t)" "hex64 dd"
    "getf (fields_of (aa_context ai)) ''policyId'' = JStr POC_POLICY_ID"
    "getf (fields_of (aa_context ai)) ''policyGeneration'' = jint (gc_policyGeneration cfg)"
    "gc_policyDigest cfg = Some (aa_policyDigest ai)" "hex64 (aa_policyDigest ai)"
  shows "validateAgentAuthority rt cfg (agentAuthority rt cfg a) (contactAction (JStr k))
    (json_digest rt (contactAction (JStr k)))"
proof -
  let ?x = "contactAction (JStr k)"
  have f: "af_actor a = JStr AGENT" "af_scope a = getf (fields_of ?x) ''scope''" "af_actionDigest a = JStr (json_digest rt ?x)"
    "af_replayKey a = JStr k" "af_policyId a = JStr POC_POLICY_ID"
    "af_policyGeneration a = jint (gc_policyGeneration cfg)" "af_policyDigest a = JStr (aa_policyDigest ai)"
    "af_decisionDigest a = JStr dd"
    by (simp_all add: assms(1) authority_request_def Let_def agent_action_fields assms(5,6))
  have c: "agent_claims (agentAuthority rt cfg a) ?x (json_digest rt ?x) = a"
    unfolding agent_claims_def Let_def agent_authority_fields agent_action_fields f
    by (simp add: assms(1) authority_request_def Let_def agent_action_fields assms(5,6))
  have h: "hex64 (agent_binding rt cfg a)" using assms(3) by (simp add: agent_binding_def)
  show ?thesis
    unfolding validateAgentAuthority_def Let_def agent_authority_fields c f agent_action_fields
    using agent_authority_fields(11) [of rt cfg a] h assms(4,7,8) good_digest [OF assms(2), of ?x]
      agent_action_fields(7) [of "JStr k"]
    by (simp add: the_text_def is_string_iff del: gateJson.simps)
qed

text \<open>The guards of \<open>execute\<close> over one of the two actions, presented with a matching authority.\<close>

lemma agent_guard:
  assumes "authorizeLocalRequest rt (gc_apiToken cfg) (gc_expectedOrigin cfg) True request = Inr ()"
    "rx_test AGENT_REPLAY_KEY k" "action = (if owner then orderAction (JStr k) else contactAction (JStr k))"
    "getf (fields_of envelope) ''action'' = action" "getf (fields_of envelope) ''actionDigest'' = JStr (json_digest rt action)"
    "getf (fields_of envelope) ''authority'' = authority"
    "getf (fields_of authority) ''kind'' = JStr (if owner then OWNER_KIND else AGENT_KIND)"
    "owner \<Longrightarrow> gateKeys envelope OWNER_ENVELOPE_KEYS"
    "owner \<Longrightarrow> validateOwnerAuthority rt cfg now authority action (json_digest rt action)
      (getf (fields_of envelope) ''businessDiff'') (getf (fields_of envelope) ''businessDiffDigest'') = Inr ()"
    "\<not> owner \<Longrightarrow> validateAgentAuthority rt cfg authority action (json_digest rt action)"
  shows "execute_guard rt cfg now request envelope = Inr \<lparr>ec_action = action, ec_digest = json_digest rt action,
    ec_approval = getf (fields_of envelope) ''approval'', ec_authority = authority, ec_ownerLease = owner\<rparr>"
proof -
  have s: "validateActionShape action = Inr ()" "validateMutationScope action = Inr ()"
    "getf (fields_of action) ''actor'' = JStr AGENT" "fld2 action ''scope'' ''actor'' = JStr AGENT"
    "validateAdminAiAction action (if owner then OWNER_KIND else AGENT_KIND)"
    using agent_action_shape [OF assms(2)] agent_action_scope agent_action_fields agent_action_admitted [OF assms(2)]
    by (simp_all add: assms(3) del: rx_test.simps)
  show ?thesis
  proof (cases owner)
    case True
    note v = assms(9) [OF True]
    show ?thesis
      unfolding execute_guard_def Let_def assms(1,4-7) s(1-4) v
      using assms(8) s(5) True by simp
  next
    case False
    show ?thesis
      unfolding execute_guard_def Let_def assms(1,4-7) s(1-4)
      using assms(10) s(5) False by simp
  qed
qed

subsection \<open>An escalated order\<close>

lemma ai_answer_echo:
  "getf (fields_of (ai_answer rt ai request answer)) ''replayKey'' = getf (fields_of request) ''replayKey''"
  "getf (fields_of (ai_answer rt ai request answer)) ''requestKind'' = getf (fields_of request) ''requestKind''"
  "getf (fields_of (ai_answer rt ai request answer)) ''decisionDigest''
    = JStr (json_digest rt (escalation_core (ai_answer rt ai request answer)))"
  by (simp_all add: ai_answer_def ai_core_def Let_def escalation_core_def without_def)

lemma decided_answer: "ai_decide rt ai request = Inr d \<Longrightarrow> \<exists>answer. d = ai_answer rt ai request answer"
  unfolding ai_decide_Inr_iff Let_def by blast

lemma escalated_order:
  assumes "ai_decide rt ai request = Inr d" "validateEscalationDecision rt d"
  obtains k where "getf (fields_of d) ''action'' = orderAction (JStr k)" "getf (fields_of d) ''replayKey'' = JStr k"
    "rx_test AGENT_REPLAY_KEY k"
proof -
  have e: "getf (fields_of d) ''requestKind'' = JStr ORDER_KIND" "getf (fields_of d) ''outcome'' = JStr ''OWNER_ESCALATION''"
    using assms(2) by (simp_all only: validateEscalationDecision_def Let_def ORDER_KIND_def)
  obtain answer where d: "d = ai_answer rt ai request answer" using decided_answer [OF assms(1)] by blast
  obtain outcome where a: "validateRequest request" "getf (fields_of d) ''outcome'' = JStr outcome"
    "getf (fields_of d) ''action'' = (if outcome = ''DENY'' then JNull else plannedAction request)"
    using ai_decide_Inr [OF assms(1)] by metis
  obtain kind k where k: "getf (fields_of request) ''replayKey'' = JStr k" "rx_test AGENT_REPLAY_KEY k"
    using valid_request [OF a(1)] by metis
  have r: "getf (fields_of request) ''requestKind'' = JStr ORDER_KIND" using e(1) unfolding d ai_answer_echo .
  have "plannedAction request = orderAction (JStr k)"
    unfolding plannedAction_def Let_def r k by (simp add: CONTACT_KIND_def ORDER_KIND_def)
  moreover have "outcome = ''OWNER_ESCALATION''" using a(2) e(2) by simp
  ultimately have "getf (fields_of d) ''action'' = orderAction (JStr k)" using a(3) by simp
  moreover have "getf (fields_of d) ''replayKey'' = JStr k" using k(1) unfolding d ai_answer_echo .
  ultimately show thesis using k(2) by (rule that)
qed

text \<open>What the workbench keeps of it.\<close>

definition proposal_of :: "'a runtime_scheme \<Rightarrow> fields \<Rightarrow> js" where
  "proposal_of rt core = obj (core @ [(''proposalDigest'', JStr (json_digest rt (obj core)))])"

lemma proposal_fields:
  assumes "proposalCore rt wcfg d v = Inr core"
  defines "p \<equiv> getf (fields_of (proposal_of rt core))" and "f \<equiv> getf (fields_of d)" and "s \<equiv> getf (fields_of v)"
  shows "p ''outcome'' = f ''outcome''" "p ''profileId'' = JStr GATE_PROFILE"
    "p ''profileGeneration'' = JStr (wc_profileGeneration wcfg)" "p ''policyId'' = f ''policyId''"
    "p ''policyGeneration'' = f ''policyGeneration''" "p ''policyDigest'' = f ''policyDigest''"
    "p ''action'' = f ''action''" "p ''actionDigest'' = f ''actionDigest''" "p ''snapshot'' = v"
    "p ''snapshotDigest'' = s ''snapshotDigest''" "p ''snapshotVersion'' = s ''version''"
    "p ''requester'' = s ''requester''" "p ''purpose'' = s ''purpose''" "p ''decisionDigest'' = f ''decisionDigest''"
    "p ''actor'' = f ''actor''" "p ''replayKey'' = f ''replayKey''"
    "p ''proposalDigest'' = JStr (json_digest rt (obj core))"
    "digest_is rt (p ''businessDiff'') (p ''businessDiffDigest'')"
    "p ''businessDiffDigest'' = JStr (json_digest rt (p ''businessDiff''))"
    "without ''proposalDigest'' (fields_of (proposal_of rt core)) = core"
proof -
  obtain b where b: "deriveAuthoritativeBusinessDiff rt (f ''action'') v (diff_policy d) = Inr b"
    using assms(1) by (auto simp: proposalCore_def Let_def res_bind_Inr_iff f_def)
  note c = assms(1) [unfolded proposalCore_def Let_def, folded f_def s_def, unfolded b, simplified, symmetric]
  have n: "b \<noteq> JUndef"
    using b by (auto simp: deriveAuthoritativeBusinessDiff_def Let_def split: if_splits)
  show "p ''outcome'' = f ''outcome''" "p ''profileId'' = JStr GATE_PROFILE"
    "p ''profileGeneration'' = JStr (wc_profileGeneration wcfg)" "p ''policyId'' = f ''policyId''"
    "p ''policyGeneration'' = f ''policyGeneration''" "p ''policyDigest'' = f ''policyDigest''"
    "p ''action'' = f ''action''" "p ''actionDigest'' = f ''actionDigest''" "p ''snapshot'' = v"
    "p ''snapshotDigest'' = s ''snapshotDigest''" "p ''snapshotVersion'' = s ''version''"
    "p ''requester'' = s ''requester''" "p ''purpose'' = s ''purpose''" "p ''decisionDigest'' = f ''decisionDigest''"
    "p ''actor'' = f ''actor''" "p ''replayKey'' = f ''replayKey''"
    "p ''proposalDigest'' = JStr (json_digest rt (obj core))"
    "digest_is rt (p ''businessDiff'') (p ''businessDiffDigest'')"
    "p ''businessDiffDigest'' = JStr (json_digest rt (p ''businessDiff''))"
    "without ''proposalDigest'' (fields_of (proposal_of rt core)) = core"
    unfolding p_def proposal_of_def c by (simp_all add: n digest_is_def without_def)
qed

text \<open>The gate and the workbench as \<open>demo/runtime/server.mjs\<close> builds them: over one policy and one profile.\<close>

definition wired :: "gate_config \<Rightarrow> workbench_config \<Rightarrow> bool" where
  "wired gcfg wcfg \<longleftrightarrow> workbench_config_valid wcfg \<and> gc_policyDigest gcfg = Some (wc_policyDigest wcfg)
     \<and> gc_policyGeneration gcfg = wc_policyGeneration wcfg \<and> gc_profileGeneration gcfg = wc_profileGeneration wcfg"

lemma valid_snapshot_origin:
  assumes "validSnapshot rt v action"
  shows "getf (fields_of v) ''requester'' = JStr APPROVAL_REQUESTER" "getf (fields_of v) ''purpose'' = JStr APPROVAL_PURPOSE"
  using assms unfolding validSnapshot_def Let_def by metis+

lemma registered_context:
  assumes "register_begin rt wcfg d = Inr ()"
  shows "validateEscalationDecision rt d" "getf (fields_of d) ''policyDigest'' = JStr (wc_policyDigest wcfg)"
    "getf (fields_of d) ''policyGeneration'' = jint (wc_policyGeneration wcfg)"
    "getf (fields_of d) ''policyId'' = JStr POC_POLICY_ID"
  using assms by (simp_all add: register_begin_def Let_def split: if_splits)

lemma escalation_facts:
  assumes "validateEscalationDecision rt d"
  shows "getf (fields_of d) ''outcome'' = JStr ''OWNER_ESCALATION''" "getf (fields_of d) ''actor'' = JStr AGENT"
    "digest_is rt (getf (fields_of d) ''action'') (getf (fields_of d) ''actionDigest'')"
    "\<exists>s. getf (fields_of d) ''decisionDigest'' = JStr s \<and> hex64 s"
  using assms unfolding validateEscalationDecision_def Let_def str_test_iff by blast+

lemma order_issued:
  assumes d: "ai_decide rt ai request = Inr d" "register_begin rt wcfg d = Inr ()"
    and v: "validSnapshot rt v (getf (fields_of d) ''action'')" "proposalCore rt wcfg d v = Inr core"
    and w: "wired gcfg wcfg" "good_sha rt" "hex64 receipt" "lease_period t u"
  shows "\<exists>a. ownerAuthority rt gcfg (proposal_of rt core) (JStr receipt) t u = Inr a"
proof -
  note r = registered_context [OF d(2)]
  note e = escalation_facts [OF r(1)]
  obtain k where k: "getf (fields_of d) ''action'' = orderAction (JStr k)" "rx_test AGENT_REPLAY_KEY k"
    using escalated_order [OF d(1) r(1)] by metis
  obtain s where s: "getf (fields_of d) ''decisionDigest'' = JStr s" "hex64 s" using e(4) by blast
  note p = proposal_fields [OF v(2)]
  have seal: "digest_is rt (obj core) (JStr (json_digest rt (obj core)))" by (simp add: digest_is_def)
  have c: "gc_policyDigest gcfg = Some (wc_policyDigest wcfg)" "gc_policyGeneration gcfg = wc_policyGeneration wcfg"
    "gc_profileGeneration gcfg = wc_profileGeneration wcfg" using w(1) by (simp_all add: wired_def)
  have digests: "digest_is rt (getf (fields_of (proposal_of rt core)) ''businessDiff'')
      (getf (fields_of (proposal_of rt core)) ''businessDiffDigest'')"
    "digest_is rt (orderAction (JStr k)) (getf (fields_of d) ''actionDigest'')"
    using p(18) e(3) by (simp_all only: k(1))
  show ?thesis
    unfolding ownerAuthority_def Let_def p(1-7,8-14,17,20) c r e(1) s(1) k(1) valid_snapshot_origin [OF v(1)]
    using digests seal v(1) [unfolded k(1)] s(2) w(3,4) good_digest [OF w(2)] agent_action_admitted(2) [OF k(2)]
    by (simp del: gateJson.simps)
qed

subsection \<open>Presented to the gate\<close>

lemma issued_in_window:
  assumes "ownerAuthority rt cfg proposal rd t u = Inr v" "getf (fields_of proposal) ''actor'' = JStr AGENT"
    "getf (fields_of proposal) ''replayKey'' = JStr k" "fld2 proposal ''action'' ''replayKey'' = JStr k"
    "\<And>k t. hex64 (hmac rt k t)" "is_safe_integer now"
  shows "validateOwnerAuthority rt cfg now v (getf (fields_of proposal) ''action'')
      (json_digest rt (getf (fields_of proposal) ''action'')) (getf (fields_of proposal) ''businessDiff'')
      (getf (fields_of proposal) ''businessDiffDigest'') = Inr ()
    \<longleftrightarrow> int_of_js t \<le> int_of_js now \<and> int_of_js now < int_of_js u"
proof -
  have b: "secretEquals rt (getf (fields_of v) ''binding'') (owner_binding rt cfg (without ''binding'' (fields_of v)))"
    unfolding owner_authority_fields(2) [OF assms(1)] issued_fields(25) [OF assms(1)] by simp
  have w: "getf (fields_of v) ''notBeforeMs'' = t" "getf (fields_of v) ''expiresAtMs'' = u"
    by (simp_all only: issued_fields [OF assms(1)])
  show ?thesis
    unfolding validateOwnerAuthority_def Let_def w
    using issued_claims [OF assms(1-5)] b assms(6) by auto
qed

lemma execute_guard_presented:
  assumes "execute_guard rt cfg now request envelope = Inr c"
  shows "ec_action c = getf (fields_of envelope) ''action''" "ec_authority c = getf (fields_of envelope) ''authority''"
    "ec_ownerLease c \<longleftrightarrow> getf (fields_of (getf (fields_of envelope) ''authority'')) ''kind'' = JStr OWNER_KIND"
  using assms [unfolded execute_guard_def Let_def] by (auto simp: res_simps split: if_splits)

definition order_envelope :: "js \<Rightarrow> js \<Rightarrow> js" where
  "order_envelope proposal authority =
     (let p = getf (fields_of proposal) in
      obj [(''action'', p ''action''), (''actionDigest'', p ''actionDigest''), (''authority'', authority),
        (''businessDiff'', p ''businessDiff''), (''businessDiffDigest'', p ''businessDiffDigest'')])"

lemma order_envelope_fields:
  "getf (fields_of (order_envelope p a)) ''action'' = getf (fields_of p) ''action''"
  "getf (fields_of (order_envelope p a)) ''actionDigest'' = getf (fields_of p) ''actionDigest''"
  "getf (fields_of (order_envelope p a)) ''authority'' = a"
  "getf (fields_of (order_envelope p a)) ''businessDiff'' = getf (fields_of p) ''businessDiff''"
  "getf (fields_of (order_envelope p a)) ''businessDiffDigest'' = getf (fields_of p) ''businessDiffDigest''"
  "gateKeys (order_envelope p a) OWNER_ENVELOPE_KEYS"
proof -
  show "gateKeys (order_envelope p a) OWNER_ENVELOPE_KEYS"
    unfolding gateKeys_exact order_envelope_def Let_def by (rule exactKeys_mset) (simp add: OWNER_ENVELOPE_KEYS_def)
qed (simp_all add: order_envelope_def Let_def)

lemma order_guarded:
  assumes a: "ownerAuthority rt gcfg p rd t u = Inr a" and p: "getf (fields_of p) ''action'' = orderAction (JStr k)"
      "getf (fields_of p) ''actor'' = JStr AGENT" "getf (fields_of p) ''replayKey'' = JStr k"
      "getf (fields_of p) ''actionDigest'' = JStr (json_digest rt (orderAction (JStr k)))" "rx_test AGENT_REPLAY_KEY k"
    and h: "\<And>k t. hex64 (hmac rt k t)" and n: "is_safe_integer now"
    and q: "authorizeLocalRequest rt (gc_apiToken gcfg) (gc_expectedOrigin gcfg) True request = Inr ()"
  shows "(\<exists>c. execute_guard rt gcfg now request (order_envelope p a) = Inr c)
    \<longleftrightarrow> int_of_js t \<le> int_of_js now \<and> int_of_js now < int_of_js u"
proof -
  let ?x = "orderAction (JStr k)"
  have key: "fld2 p ''action'' ''replayKey'' = JStr k" by (simp add: fld2_def p(1) agent_action_fields)
  note i = issued_in_window [OF a p(2,3) key h n, unfolded p(1)]
  note f = order_envelope_fields
  have kind: "getf (fields_of a) ''kind'' = JStr OWNER_KIND" by (rule issued_fields(1) [OF a])
  show ?thesis
  proof
    assume "\<exists>c. execute_guard rt gcfg now request (order_envelope p a) = Inr c"
    then obtain c where c: "execute_guard rt gcfg now request (order_envelope p a) = Inr c" by blast
    note e = execute_guard_presented [OF c, unfolded f p(1) kind, simplified]
    from c have "validateOwnerAuthority rt gcfg now (ec_authority c) (ec_action c) (ec_digest c)
        (getf (fields_of (order_envelope p a)) ''businessDiff'') (getf (fields_of (order_envelope p a)) ''businessDiffDigest'') = Inr ()"
      by (cases rule: execute_guard_cases) (use e in simp_all)
    then show "int_of_js t \<le> int_of_js now \<and> int_of_js now < int_of_js u"
      unfolding f e execute_guard_common(4) [OF c] using i by blast
  next
    assume w: "int_of_js t \<le> int_of_js now \<and> int_of_js now < int_of_js u"
    have "execute_guard rt gcfg now request (order_envelope p a) = Inr \<lparr>ec_action = ?x, ec_digest = json_digest rt ?x,
        ec_approval = getf (fields_of (order_envelope p a)) ''approval'', ec_authority = a, ec_ownerLease = True\<rparr>"
      by (rule agent_guard [OF q p(5)]) (use w i p(1,4) kind f in \<open>simp_all\<close>)
    then show "\<exists>c. execute_guard rt gcfg now request (order_envelope p a) = Inr c" by blast
  qed
qed

subsection \<open>Through the workbench\<close>

lemma registered_fresh:
  assumes "register_end rt wcfg writes w d (Inr v) = (w', Inr p)" "slot (ws_proposals (wb_store w)) (digest_key d) = Absent"
  obtains core where "proposalCore rt wcfg d v = Inr core" "p = proposal_of rt core"
    "validSnapshot rt v (getf (fields_of d) ''action'')"
proof (cases "proposalCore rt wcfg d v")
  case (Inl e)
  with assms(1) show thesis by (auto simp: register_end_def split: if_splits)
next
  case (Inr core)
  have "validSnapshot rt v (getf (fields_of d) ''action'')" "p = proposal_of rt core"
    using assms(1) unfolding register_end_def sum.case Inr assms(2) slot.case Let_def proposal_of_def
    by (auto split: if_splits sum.splits)
  with Inr that show thesis by blast
qed

lemma approval_issued:
  assumes "validSnapshot rt (getf (fields_of p) ''snapshot'') (getf (fields_of p) ''action'')"
    "validSnapshot rt v (getf (fields_of p) ''action'')" "sameSnapshot v (getf (fields_of p) ''snapshot'')"
    "oq_ownerDecision q = JStr ''APPROVE''" "isTime now"
    "\<forall>receipt. hex64 receipt \<longrightarrow> (\<exists>a. issue p (JStr receipt) now (jint (int_of_js now + wc_leaseTtlMs wcfg)) = Inr a)"
    "good_sha rt"
  shows "\<exists>x rd. snd (decide_end rt wcfg issue True now w q p (Inr v)) = Inr x
    \<and> issue p (JStr rd) now (jint (int_of_js now + wc_leaseTtlMs wcfg)) = Inr (or_authority x)"
proof -
  define rd where "rd = json_digest rt (obj (owner_receipt_core p (oq_decisionDigest q) (JStr ''APPROVE'') now))"
  have "hex64 rd" unfolding rd_def by (rule good_digest [OF assms(7)])
  then obtain a where a: "issue p (JStr rd) now (jint (int_of_js now + wc_leaseTtlMs wcfg)) = Inr a" using assms(6) by blast
  have f: "res_bind (Inr v) (\<lambda>current. assertApprovalSnapshotFresh rt (getf (fields_of p) ''snapshot'') current
      (getf (fields_of p) ''action'')) = Inr ()"
    using assms(1-3) by (simp add: assertApprovalSnapshotFresh_def)
  show ?thesis
    unfolding decide_end_def Let_def f sum.case assms(4) rd_def [symmetric]
    by (rule exI [of _ "\<lparr>or_receipt = obj (owner_receipt_core p (oq_decisionDigest q) (JStr ''APPROVE'') now
        @ [(''receiptDigest'', JStr rd)]), or_authority = a\<rparr>"], rule exI [of _ rd]) (use assms(5) a in \<open>simp add: wb_persist_def\<close>)
qed

lemma wired_period:
  assumes "wired gcfg wcfg" "isTime (jint t)" "t + wc_leaseTtlMs wcfg \<le> max_safe"
  shows "lease_period (jint t) (jint (t + wc_leaseTtlMs wcfg))"
  using assms by (simp add: wired_def workbench_config_valid_def lease_period_def isTime_def MAX_LEASE_MS_def)

subsection \<open>The static handler\<close>

text \<open>
  The handler with the static evaluator, from its construction to the decision: one answer for each kind of request,
  and the escalation of an order is what the workbench registers.
\<close>

definition static_reason :: "js \<Rightarrow> string" where
  "static_reason request = CLOSED_RULES ! rule_of request ! 2"

definition static_outcome :: "js \<Rightarrow> string" where
  "static_outcome request = CLOSED_RULES ! rule_of request ! 1"

definition static_decision :: "'a runtime_scheme \<Rightarrow> admin_ai \<Rightarrow> js \<Rightarrow> js" where
  "static_decision rt ai request =
     sealed_decision rt (intentFor rt request (plannedAction request)) (aa_context ai) (static_outcome request) (static_reason request)"

lemma new_admin_ai_context:
  assumes "new_admin_ai rt policy digest sign trusted = Inr ai" "good_sha rt"
    "pred_option (context_matches rt policy digest) trusted"
  shows "context_matches rt policy digest (aa_context ai)" "aa_evaluate ai = static_evaluate rt policy digest"
    "aa_sign ai = sign" "aa_policyDigest ai = digest" "hex64 digest" "validateAdminAiPocPolicy policy"
proof -
  show k: "aa_evaluate ai = static_evaluate rt policy digest" "aa_sign ai = sign" "aa_policyDigest ai = digest"
    "hex64 digest" "validateAdminAiPocPolicy policy"
    using assms(1) by (auto simp: new_admin_ai_def split: if_splits)
  show "context_matches rt policy digest (aa_context ai)"
  proof (cases trusted)
    case (Some ctx)
    then have "aa_context ai = ctx" using assms(1) by (auto simp: new_admin_ai_def split: if_splits)
    with assms(3) Some show ?thesis by simp
  next
    case None
    define c where "c = obj [(''schemaVersion'', JStr TRUSTED_POLICY_CONTEXT_SCHEMA), (''profileId'', JStr GATE_PROFILE),
      (''profileGeneration'', JStr ''standalone-test-v1''), (''policyId'', getf (fields_of policy) ''policyId''),
      (''policyGeneration'', jint 1), (''policySourceDigest'', JStr digest),
      (''policySemanticDigest'', JStr (json_digest rt policy))]"
    have a: "aa_context ai = c" using assms(1) None by (auto simp: new_admin_ai_def c_def split: if_splits)
    have p: "getf (fields_of policy) ''policyId'' = JStr POC_POLICY_ID"
      using k(5) by (auto simp: validateAdminAiPocPolicy_def Let_def split: if_splits)
    have g: "gateKeys c POLICY_CONTEXT_KEYS"
      unfolding gateKeys_exact c_def by (rule exactKeys_mset) (simp add: POLICY_CONTEXT_KEYS_def)
    show ?thesis
      unfolding context_matches_def validateTrustedPolicyContext_def Let_def a
      using g k(4) good_digest [OF assms(2), of policy]
      by (simp add: c_def p isGeneration_def max_safe_def)
  qed
qed

lemma static_handler:
  assumes "new_admin_ai rt policy digest sign trusted = Inr ai" "good_sha rt"
    "pred_option (context_matches rt policy digest) trusted"
    "plain policy" "js_wf policy" "validateRequest request"
  shows "ai_decide rt ai request = Inr (ai_answer rt ai request (static_decision rt ai request))"
proof -
  note c = new_admin_ai_context [OF assms(1-3)]
  let ?i = "intentFor rt request (plannedAction request)"
  have e: "aa_evaluate ai ?i (aa_context ai) = Inr (static_decision rt ai request)"
    unfolding c(2) static_decision_def static_outcome_def static_reason_def
    by (rule static_answer [OF c(6) assms(4,5,6,2) c(1)])
  have v: "decision_valid rt (static_decision rt ai request) ?i (aa_context ai)"
    unfolding static_decision_def static_outcome_def static_reason_def
    by (rule sealed_decision_valid [OF assms(2)]) (use closed_rules_listed [OF rule_of_less] in simp_all)
  have o: "getf (fields_of (static_decision rt ai request)) ''outcome'' = JStr (static_outcome request)"
    unfolding static_decision_def by (rule sealed_decision_fields)
  have x: "\<not> exceeds_ceiling (getf (fields_of ?i) ''capability'') (JStr (static_outcome request))"
    unfolding exceeds_ceiling_rule static_outcome_def
    using planned_cases [of request] by (auto simp: CLOSED_RULES_def)
  show ?thesis
    unfolding ai_decide_Inr_iff Let_def
    by (rule exI [of _ "static_decision rt ai request"])
       (use e v x o assms(6) c(1) intentFor_valid [OF assms(6,2)] in \<open>simp add: context_matches_def Let_def\<close>)
qed

lemma static_escalates:
  assumes "new_admin_ai rt policy digest sign trusted = Inr ai" "good_sha rt"
    "pred_option (context_matches rt policy digest) trusted"
    "validateRequest request" "rule_of request = 1"
  shows "validateEscalationDecision rt (ai_answer rt ai request (static_decision rt ai request))"
proof -
  note c = new_admin_ai_context [OF assms(1-3)]
  let ?d = "ai_answer rt ai request (static_decision rt ai request)"
  obtain kind key where q: "getf (fields_of request) ''actor'' = JStr AGENT"
    "getf (fields_of request) ''replayKey'' = JStr key" using valid_request [OF assms(4)] by metis
  have r: "getf (fields_of request) ''requestKind'' = JStr ORDER_KIND" "CONTACT_KIND \<noteq> ORDER_KIND"
    using assms(5) by (auto simp: rule_of_def Let_def CONTACT_KIND_def ORDER_KIND_def split: if_splits)
  have p: "plannedAction request = orderAction (JStr key)"
    unfolding plannedAction_def Let_def r(1) q by (simp add: r(2) [symmetric])
  have n: "orderAction (JStr key) \<noteq> JNull" by (simp add: orderAction_def)
  have s: "getf (fields_of (static_decision rt ai request)) ''outcome'' = JStr ''OWNER_ESCALATION''"
    "getf (fields_of (static_decision rt ai request)) ''reasonCodes'' = arr [JStr ''POLICY_ORDER_REQUIRES_OWNER'']"
    unfolding static_decision_def static_outcome_def static_reason_def assms(5)
    by (simp_all add: sealed_decision_fields CLOSED_RULES_def)
  have x: "getf (fields_of (aa_context ai)) ''policyId'' = JStr POC_POLICY_ID"
    "isGeneration (getf (fields_of (aa_context ai)) ''policyGeneration'')"
    using c(1) by (simp_all add: context_matches_def validateTrustedPolicyContext_def Let_def)
  define core where "core = ai_core rt ai request (static_decision rt ai request) (JStr (json_digest rt (orderAction (JStr key))))"
  have d: "?d = obj (core @ [(''decisionDigest'', JStr (json_digest rt (obj core))), (''action'', orderAction (JStr key)),
      (''authority'', JNull)])"
    by (simp add: ai_answer_def Let_def s p n core_def)
  have core: "core = [(''schemaVersion'', JStr AI_DECISION_SCHEMA), (''requestId'', JStr (json_digest rt request)),
       (''actor'', JStr AGENT), (''requestKind'', JStr ORDER_KIND), (''outcome'', JStr ''OWNER_ESCALATION''),
       (''reasonCodes'', arr [JStr ''POLICY_ORDER_REQUIRES_OWNER'']),
       (''actionDigest'', JStr (json_digest rt (orderAction (JStr key)))), (''policyId'', JStr POC_POLICY_ID),
       (''policyGeneration'', getf (fields_of (aa_context ai)) ''policyGeneration''), (''policyDigest'', JStr digest),
       (''replayKey'', JStr key)]"
    by (simp add: core_def ai_core_def Let_def q r s x c(4))
  have k: "gateKeys ?d ESCALATION_KEYS"
    unfolding gateKeys_exact d core by (rule exactKeys_mset) (simp add: ESCALATION_KEYS_def)
  have e: "escalation_core ?d = obj core" unfolding d core by (simp add: escalation_core_def without_def)
  have f: "getf (fields_of ?d) ''schemaVersion'' = JStr AI_DECISION_SCHEMA" "getf (fields_of ?d) ''actor'' = JStr AGENT"
    "getf (fields_of ?d) ''requestKind'' = JStr ORDER_KIND" "getf (fields_of ?d) ''outcome'' = JStr ''OWNER_ESCALATION''"
    "getf (fields_of ?d) ''reasonCodes'' = arr [JStr ''POLICY_ORDER_REQUIRES_OWNER'']"
    "getf (fields_of ?d) ''authority'' = JNull" "getf (fields_of ?d) ''action'' = orderAction (JStr key)"
    "getf (fields_of ?d) ''policyId'' = JStr POC_POLICY_ID"
    "getf (fields_of ?d) ''policyGeneration'' = getf (fields_of (aa_context ai)) ''policyGeneration''"
    "getf (fields_of ?d) ''requestId'' = JStr (json_digest rt request)"
    "getf (fields_of ?d) ''actionDigest'' = JStr (json_digest rt (orderAction (JStr key)))"
    "getf (fields_of ?d) ''policyDigest'' = JStr digest" "getf (fields_of ?d) ''decisionDigest'' = JStr (json_digest rt (obj core))"
    unfolding d by (simp_all add: core)
  have scope: "getf (fields_of (fld2 ?d ''action'' ''scope'')) ''provider'' = JStr ''dolibarr''"
    "getf (fields_of (fld2 ?d ''action'' ''scope'')) ''entity'' = JStr ''Order''"
    by (simp_all add: fld2_def f orderAction_def)
  show ?thesis
    unfolding validateEscalationDecision_def Let_def f e scope
    by (simp add: k x(2) c(5) good_digest [OF assms(2)] strs_js_def digest_is_def AI_DECISION_SCHEMA_def ORDER_KIND_def
      agent_action_fields del: gateJson.simps)
qed

end
