(* ===== verification/WorkbenchRuns.thy ===== *)
theory WorkbenchRuns
  imports ApprovalWorkbench GateReach
begin

text \<open>
  The workbench in operation: registrations and decisions that interleave at the read of the snapshot, a provider that
  answers anything, writes that may fail, and restarts from the file. The log holds the decisions the owner got
  an answer for, in order. With that every decision is made once.
\<close>

datatype wb_call = Registering js | Deciding owner_request js | Done

record wb_system =
  wy_cfg :: workbench_config
  wy_workbench :: workbench
  wy_calls :: "wb_call list"
  wy_log :: "(string \<times> owner_record) list"

definition decision_key :: "owner_request \<Rightarrow> string" where
  "decision_key q = str_of (oq_decisionDigest q)"

definition answered :: "string \<Rightarrow> owner_record res \<Rightarrow> (string \<times> owner_record) list" where
  "answered k r = (case r of Inl e \<Rightarrow> [] | Inr x \<Rightarrow> [(k, x)])"

inductive wb_step :: "'a runtime_scheme \<Rightarrow> (js \<Rightarrow> js \<Rightarrow> js \<Rightarrow> js \<Rightarrow> js res) \<Rightarrow> wb_system \<Rightarrow> wb_system \<Rightarrow> bool"
  for rt issue where
  step_register: "register_begin rt (wy_cfg s) d = Inr ()
    \<Longrightarrow> wb_step rt issue s (s\<lparr>wy_calls := wy_calls s @ [Registering d]\<rparr>)"
| step_registered: "i < length (wy_calls s) \<Longrightarrow> wy_calls s ! i = Registering d
    \<Longrightarrow> register_end rt (wy_cfg s) writes (wy_workbench s) d reading = (w, r)
    \<Longrightarrow> wb_step rt issue s (s\<lparr>wy_workbench := w, wy_calls := (wy_calls s)[i := Done]\<rparr>)"
| step_decide: "decide_begin rt (wy_cfg s) (wy_workbench s) q = (w, Inr p)
    \<Longrightarrow> wb_step rt issue s (s\<lparr>wy_workbench := w, wy_calls := wy_calls s @ [Deciding q p]\<rparr>)"
| step_decided: "i < length (wy_calls s) \<Longrightarrow> wy_calls s ! i = Deciding q p
    \<Longrightarrow> decide_end rt (wy_cfg s) issue writes now (wy_workbench s) q p reading = (w, r)
    \<Longrightarrow> wb_step rt issue s (s\<lparr>wy_workbench := w, wy_calls := (wy_calls s)[i := Done],
          wy_log := wy_log s @ answered (decision_key q) r\<rparr>)"
| step_wb_restart: "new_workbench rt cfg (wb_file (wy_workbench s)) = Inr w
    \<Longrightarrow> wb_step rt issue s (s\<lparr>wy_cfg := cfg, wy_workbench := w, wy_calls := []\<rparr>)"

definition wb_reach :: "'a runtime_scheme \<Rightarrow> (js \<Rightarrow> js \<Rightarrow> js \<Rightarrow> js \<Rightarrow> js res) \<Rightarrow> wb_system \<Rightarrow> bool" where
  "wb_reach rt issue s \<longleftrightarrow> (\<exists>cfg w. new_workbench rt cfg NoFile = Inr w
     \<and> (wb_step rt issue)\<^sup>*\<^sup>* \<lparr>wy_cfg = cfg, wy_workbench = w, wy_calls = [], wy_log = []\<rparr> s)"

subsection \<open>The store as a journal of decisions\<close>

definition decided_keys :: "workbench_store \<Rightarrow> string set" where
  "decided_keys st = set (map fst (ws_decisions st))"

definition wb_store_file :: "workbench_store \<Rightarrow> json_file" where
  "wb_store_file st = Json (trip (workbench_store_js st))"

definition load_workbench :: "'a runtime_scheme \<Rightarrow> json_file \<Rightarrow> workbench_store option" where
  "load_workbench rt file =
     (case file of
        Json v \<Rightarrow> (case normalizeStore rt v of Inr st \<Rightarrow> Some st | Inl _ \<Rightarrow> None)
      | NoFile \<Rightarrow> Some \<lparr>ws_proposals = [], ws_decisions = []\<rparr>
      | Unparsable \<Rightarrow> None)"

lemma owner_records_encoded [simp]: "encodes_records owner_record_js"
  by (simp add: encodes_records_def owner_record_js_def)

lemma trip_workbench:
  "fields_of (getf (fields_of (trip (workbench_store_js st))) ''decisions'')
    = map (\<lambda>(k, x). (k, trip (owner_record_js x))) (ws_decisions st)"
  by (simp add: trip_def workbench_store_js_def trip_map_js split: option.splits)

lemma load_workbench_keys:
  assumes "load_workbench rt (wb_store_file st) = Some st'"
  shows "decided_keys st' = decided_keys st"
proof -
  have n: "normalizeStore rt (trip (workbench_store_js st)) = Inr st'"
    using assms by (simp add: load_workbench_def wb_store_file_def split: sum.splits)
  then have "ws_decisions st' = read_map read_owner_record (getf (fields_of (trip (workbench_store_js st))) ''decisions'')"
    by (auto simp: normalizeStore_def Let_def res_bind_Inr_iff split: if_splits)
  then have "map fst (ws_decisions st') = map fst (map (\<lambda>(k, x). (k, trip (owner_record_js x))) (ws_decisions st))"
    by (simp only: read_map_keys trip_workbench)
  also have "\<dots> = map fst (ws_decisions st)" by (induction "ws_decisions st") auto
  finally show ?thesis by (simp only: decided_keys_def)
qed

interpretation decision_journal: journal decided_keys wb_store_file "load_workbench rt" for rt
  by unfold_locales (rule load_workbench_keys)

lemma new_workbench_load:
  "new_workbench rt cfg file = Inr w \<Longrightarrow> load_workbench rt file = Some (wb_store w) \<and> wb_file w = file \<and> wb_pending w = []"
  by (auto simp: new_workbench_def load_workbench_def res_bind_Inr_iff split: json_file.splits if_splits)

lemma wb_persist_cases:
  "wb_persist writes w = Inr w' \<Longrightarrow> wb_store w' = wb_store w \<and> wb_pending w' = wb_pending w \<and> wb_file w' = wb_store_file (wb_store w)"
  by (auto simp: wb_persist_def wb_store_file_def trip_def split: if_splits)

subsection \<open>The operations case by case\<close>

lemma register_end_keeps:
  assumes "register_end rt cfg writes w d reading = (w', r)"
  shows "ws_decisions (wb_store w') = ws_decisions (wb_store w)" "wb_pending w' = wb_pending w"
    "wb_file w' = wb_file w \<or> wb_file w' = wb_store_file (wb_store w')"
proof -
  have "ws_decisions (wb_store w') = ws_decisions (wb_store w) \<and> wb_pending w' = wb_pending w
    \<and> (wb_file w' = wb_file w \<or> wb_file w' = wb_store_file (wb_store w'))"
    using assms
    by (auto simp: register_end_def Let_def split: sum.splits if_splits slot.splits dest: wb_persist_cases)
  then show "ws_decisions (wb_store w') = ws_decisions (wb_store w)" "wb_pending w' = wb_pending w"
    "wb_file w' = wb_file w \<or> wb_file w' = wb_store_file (wb_store w')" by blast+
qed

lemma denied_if: "(if b then (w, Inl e) else x) = (w', Inr p) \<longleftrightarrow> \<not> b \<and> x = (w', Inr p)"
  by simp

lemma decide_begin_cases:
  assumes "decide_begin rt cfg w q = (w', Inr p)"
  shows "w' = w\<lparr>wb_pending := decision_key q # wb_pending w\<rparr>" "decision_key q \<notin> decided_keys (wb_store w)"
    "decision_key q \<notin> set (wb_pending w)" "map_of (ws_proposals (wb_store w)) (decision_key q) = Some p"
    "validateProposal rt p" "\<not> contextStale cfg p"
proof -
  let ?k = "decision_key q"
  note a = assms [unfolded decide_begin_def Let_def decision_key_def [symmetric] denied_if]
  have "slot (ws_proposals (wb_store w)) ?k = Own p \<and> slot (ws_decisions (wb_store w)) ?k = Absent
    \<and> ?k \<notin> set (wb_pending w) \<and> validateProposal rt p \<and> \<not> contextStale cfg p
    \<and> w' = w\<lparr>wb_pending := ?k # wb_pending w\<rparr>"
  proof (cases "slot (ws_proposals (wb_store w)) ?k")
    case (Own p')
    from a [unfolded Own slot.case denied_if] Own show ?thesis by (simp only: prod.inject sum.inject) blast
  qed (use a in simp_all)
  then show "w' = w\<lparr>wb_pending := ?k # wb_pending w\<rparr>" "?k \<notin> decided_keys (wb_store w)" "?k \<notin> set (wb_pending w)"
    "map_of (ws_proposals (wb_store w)) ?k = Some p" "validateProposal rt p" "\<not> contextStale cfg p"
    using slot_Absent [of "ws_decisions (wb_store w)" ?k]
    by (simp_all add: decided_keys_def map_of_eq_None_iff slot_Own_iff)
qed

lemma decide_end_cases:
  assumes "decide_end rt cfg issue writes now w q p reading = (w', r)"
  obtains (denied) e where "r = Inl e" "w' = unpend (decision_key q) w"
  | (decided) x where "ws_decisions (wb_store w') = put_key (decision_key q) x (ws_decisions (wb_store w))"
      "wb_pending w' = removeAll (decision_key q) (wb_pending w)"
      "(r = Inl WRITE_ERROR \<and> wb_file w' = wb_file w) \<or> (r = Inr x \<and> wb_file w' = wb_store_file (wb_store w'))"
proof -
  note a = assms [unfolded decide_end_def Let_def, folded decision_key_def]
  show thesis
  proof (cases "res_bind reading (\<lambda>current. assertApprovalSnapshotFresh rt (getf (fields_of p) ''snapshot'') current
      (getf (fields_of p) ''action''))")
    case (Inl e)
    show thesis by (rule denied [of e]) (use a [unfolded Inl sum.case] in simp_all)
  next
    case (Inr u)
    define core where "core = owner_receipt_core p (oq_decisionDigest q) (oq_ownerDecision q) now"
    define auth where "auth = (if oq_ownerDecision q = JStr ''APPROVE''
      then issue p (JStr (json_digest rt (obj core))) now (jint (int_of_js now + wc_leaseTtlMs cfg)) else Inr JNull)"
    note b = a [unfolded Inr sum.case, folded core_def, folded auth_def]
    show thesis
    proof (cases "isTime now")
      case False
      show thesis by (rule denied) (use b False in \<open>simp_all add: eq_commute [of _ r]\<close>)
    next
      case True
      show thesis
      proof (cases auth)
        case (Inl e)
        show thesis by (rule denied [of e]) (use b True Inl in simp_all)
      next
        case auth: (Inr authority)
        define x where "x = \<lparr>or_receipt = obj (core @ [(''receiptDigest'', JStr (json_digest rt (obj core)))]),
          or_authority = authority\<rparr>"
        define w1 where "w1 = unpend (decision_key q) w"
        define w2 where "w2 = w1\<lparr>wb_store := (wb_store w1)\<lparr>ws_decisions := put_key (decision_key q) x (ws_decisions (wb_store w1))\<rparr>\<rparr>"
        have s: "ws_decisions (wb_store w2) = put_key (decision_key q) x (ws_decisions (wb_store w))"
          "wb_pending w2 = removeAll (decision_key q) (wb_pending w)" "wb_file w2 = wb_file w"
          by (simp_all add: w2_def w1_def unpend_def)
        have e: "(case wb_persist writes w2 of Inl e \<Rightarrow> (w2, Inl e) | Inr w'' \<Rightarrow> (w'', Inr x)) = (w', r)"
          unfolding w2_def w1_def x_def using b True auth by simp
        show thesis
        proof (cases writes)
          case True
          with e s show thesis by (intro decided [of x]) (auto simp: wb_persist_def wb_store_file_def trip_def)
        next
          case False
          with e s show thesis by (intro decided [of x]) (auto simp: wb_persist_def)
        qed
      qed
    qed
  qed
qed

subsection \<open>The invariant\<close>

fun deciding :: "wb_call \<Rightarrow> string list" where
  "deciding (Deciding q p) = [decision_key q]"
| "deciding _ = []"

definition wb_inv :: "wb_system \<Rightarrow> bool" where
  "wb_inv s \<longleftrightarrow>
     (let w = wy_workbench s; D = concat (map deciding (wy_calls s)) in
      decision_journal.holds (map fst (wy_log s)) (wb_store w) (wb_file w)
      \<and> distinct D \<and> set D \<inter> decided_keys (wb_store w) = {} \<and> set (wb_pending w) = set D)"

lemma decided_keys_put: "ws_decisions (wb_store w') = put_key k x (ws_decisions (wb_store w)) \<Longrightarrow>
    decided_keys (wb_store w') = insert k (decided_keys (wb_store w))"
  by (simp add: decided_keys_def)

lemma wb_inv_call:
  assumes "i < length cs" "cs ! i = c" "distinct (concat (map deciding cs))"
  shows "distinct (concat (map deciding (cs[i := Done])))"
    "set (concat (map deciding (cs[i := Done]))) = set (concat (map deciding cs)) - set (deciding c)"
proof -
  obtain xs ys where cs: "cs = xs @ c # ys" "length xs = i"
    using assms(1,2) by (metis id_take_nth_drop length_take min.absorb4)
  have u: "cs[i := Done] = xs @ Done # ys" using cs by (simp add: list_update_append)
  show "distinct (concat (map deciding (cs[i := Done])))" unfolding u using assms(3) by (auto simp: cs(1))
  show "set (concat (map deciding (cs[i := Done]))) = set (concat (map deciding cs)) - set (deciding c)"
    unfolding u using assms(3) by (simp add: cs(1) set_eq_iff disjoint_iff) metis
qed

lemma wb_inv_register:
  assumes "wb_inv s" "i < length (wy_calls s)" "wy_calls s ! i = Registering d"
    "ws_decisions (wb_store w) = ws_decisions (wb_store (wy_workbench s))" "wb_pending w = wb_pending (wy_workbench s)"
    "wb_file w = wb_file (wy_workbench s) \<or> wb_file w = wb_store_file (wb_store w)"
  shows "wb_inv (s\<lparr>wy_workbench := w, wy_calls := (wy_calls s)[i := Done]\<rparr>)"
proof -
  have k: "decided_keys (wb_store w) = decided_keys (wb_store (wy_workbench s))" using assms(4) by (simp add: decided_keys_def)
  have i: "decision_journal.holds (map fst (wy_log s)) (wb_store (wy_workbench s)) (wb_file (wy_workbench s))"
    "distinct (concat (map deciding (wy_calls s)))"
    "set (concat (map deciding (wy_calls s))) \<inter> decided_keys (wb_store (wy_workbench s)) = {}"
    "set (wb_pending (wy_workbench s)) = set (concat (map deciding (wy_calls s)))"
    using assms(1) by (simp_all only: wb_inv_def Let_def)
  note c = wb_inv_call [OF assms(2,3) i(2)]
  have "decision_journal.holds (map fst (wy_log s)) (wb_store w) (wb_file w)"
    by (rule decision_journal.holds_later [OF i(1) _ assms(6)]) (simp add: k)
  moreover have "set (concat (map deciding ((wy_calls s)[i := Done]))) = set (concat (map deciding (wy_calls s)))"
    using c(2) by simp
  ultimately show ?thesis using c(1) i(3,4) assms(5) k by (simp add: wb_inv_def Let_def)
qed

lemma wb_inv_decide:
  assumes "wb_inv s" "decide_begin rt (wy_cfg s) (wy_workbench s) q = (w, Inr p)"
  shows "wb_inv (s\<lparr>wy_workbench := w, wy_calls := wy_calls s @ [Deciding q p]\<rparr>)"
proof -
  note b = decide_begin_cases [OF assms(2)]
  from assms(1) b(2,3) show ?thesis by (auto simp: wb_inv_def Let_def b(1))
qed

lemma wb_inv_decided:
  assumes "wb_inv s" "i < length (wy_calls s)" "wy_calls s ! i = Deciding q p"
    "decide_end rt (wy_cfg s) issue writes now (wy_workbench s) q p reading = (w, r)"
  shows "wb_inv (s\<lparr>wy_workbench := w, wy_calls := (wy_calls s)[i := Done],
    wy_log := wy_log s @ answered (decision_key q) r\<rparr>)"
proof -
  let ?w = "wy_workbench s" and ?D = "concat (map deciding (wy_calls s))" and ?k = "decision_key q"
  have i: "decision_journal.holds (map fst (wy_log s)) (wb_store ?w) (wb_file ?w)" "distinct ?D"
    "set ?D \<inter> decided_keys (wb_store ?w) = {}" "set (wb_pending ?w) = set ?D"
    using assms(1) by (simp_all only: wb_inv_def Let_def)
  have c: "distinct (concat (map deciding ((wy_calls s)[i := Done])))"
    "set (concat (map deciding ((wy_calls s)[i := Done]))) = set ?D - {?k}"
    using wb_inv_call [OF assms(2,3) i(2)] by simp_all
  have "Deciding q p \<in> set (wy_calls s)" using assms(2,3) by (metis nth_mem)
  then have k: "?k \<in> set ?D" by force
  with i(3) have f: "?k \<notin> decided_keys (wb_store ?w)" by blast
  from assms(4) show ?thesis
  proof (cases rule: decide_end_cases)
    case (denied e)
    then show ?thesis using i c by (auto simp: wb_inv_def Let_def answered_def unpend_def)
  next
    case (decided x)
    note p = decided_keys_put [OF decided(1)]
    have "decision_journal.holds (map fst (wy_log s @ answered ?k r)) (wb_store w) (wb_file w)"
      using decided(3)
    proof
      assume a: "r = Inl WRITE_ERROR \<and> wb_file w = wb_file ?w"
      from decision_journal.holds_later [OF i(1), of "wb_store w" "wb_file w"] a p show ?thesis
        by (auto simp: answered_def)
    next
      assume a: "r = Inr x \<and> wb_file w = wb_store_file (wb_store w)"
      from decision_journal.holds_add [OF i(1) f, of "wb_store w"] a p show ?thesis by (simp add: answered_def)
    qed
    moreover have "(set ?D - {?k}) \<inter> decided_keys (wb_store w) = {}" using i(3) p by blast
    moreover have "set (wb_pending w) = set ?D - {?k}" using decided(2) i(4) by simp
    ultimately show ?thesis using c by (simp add: wb_inv_def Let_def)
  qed
qed

lemma wb_inv_step: "wb_step rt issue s s' \<Longrightarrow> wb_inv s \<Longrightarrow> wb_inv s'"
proof (induction rule: wb_step.induct)
  case (step_register s d)
  then show ?case by (simp add: wb_inv_def Let_def)
next
  case (step_registered i s d writes reading w r)
  show ?case
    by (rule wb_inv_register [OF step_registered.prems step_registered.hyps(1,2) register_end_keeps [OF step_registered.hyps(3)]])
next
  case (step_decide s q w p)
  show ?case by (rule wb_inv_decide [OF step_decide.prems step_decide.hyps])
next
  case (step_decided i s q p writes now reading w r)
  show ?case by (rule wb_inv_decided [OF step_decided.prems step_decided.hyps])
next
  case (step_wb_restart cfg s w)
  note l = new_workbench_load [OF step_wb_restart.hyps]
  from step_wb_restart.prems decision_journal.holds_restart [OF _ conjunct1 [OF l]] l show ?case
    by (auto simp: wb_inv_def Let_def)
qed

lemma wb_reach_inv:
  assumes "wb_reach rt issue s"
  shows "wb_inv s"
proof -
  obtain cfg w where w: "new_workbench rt cfg NoFile = Inr w"
    and r: "(wb_step rt issue)\<^sup>*\<^sup>* \<lparr>wy_cfg = cfg, wy_workbench = w, wy_calls = [], wy_log = []\<rparr> s"
    using assms unfolding wb_reach_def by blast
  have "wb_inv \<lparr>wy_cfg = cfg, wy_workbench = w, wy_calls = [], wy_log = []\<rparr>"
    using new_workbench_load [OF w] by (simp add: wb_inv_def Let_def decision_journal.holds_empty)
  with r show ?thesis by (induction rule: rtranclp_induct) (auto intro: wb_inv_step)
qed

end
