(* ===== verification/WorkbenchValid.thy ===== *)
theory WorkbenchValid
  imports OrderPath WorkbenchRuns
begin

text \<open>
  What is created is what the checks accept: a snapshot passes its validation, and a registered proposal the check the
  workbench makes of it at every decision and at every start.
\<close>

subsection \<open>Snapshots\<close>

lemma normalized_match:
  assumes "normalizeMatch nt r = Inr m" "assertAction action"
  shows "validMatch action m"
proof -
  have m: "isRecordId (getf (fields_of r) ''id'')" "js_number nt (getf (fields_of r) ''socid'') = NInt ORDER_CUSTOMER"
    "js_number nt (getf (fields_of r) ''date'') = NInt ORDER_DATE"
    "m = obj [(''id'', getf (fields_of r) ''id''), (''customerReference'', JStr ORDER_REFERENCE),
      (''customerId'', jint ORDER_CUSTOMER), (''orderDateEpoch'', jint ORDER_DATE)]"
    using assms(1) unfolding normalizeMatch_def Let_def denied_res by auto
  have k: "gateKeys m [''customerId'', ''customerReference'', ''id'', ''orderDateEpoch'']"
    unfolding gateKeys_exact m(4) by (rule exactKeys_mset) simp
  have b: "getf (fields_of (fld2 action ''payload'' ''body'')) ''ref_client'' = JStr ORDER_REFERENCE"
    "getf (fields_of (fld2 action ''payload'' ''body'')) ''socid'' = jint ORDER_CUSTOMER"
    "getf (fields_of (fld2 action ''payload'' ''body'')) ''date'' = jint ORDER_DATE"
    using assms(2) by (simp_all add: assertAction_def Let_def)
  show ?thesis
    unfolding validMatch_def Let_def b using k m(1) by (simp add: m(4))
qed

lemma sorted_matches [simp]: "sort_matches (sort_matches ms) = sort_matches ms"
  unfolding sort_matches_def by (rule sort_key_id_if_sorted) (rule sorted_sort_key)

lemma map_res_length: "map_res f xs = Inr ys \<Longrightarrow> length ys = length xs"
  by (induction xs arbitrary: ys) (auto simp: res_simps)

lemma map_res_all: "map_res f xs = Inr ys \<Longrightarrow> \<forall>y \<in> set ys. \<exists>x \<in> set xs. f x = Inr y"
proof (induction xs arbitrary: ys)
  case (Cons x xs)
  then show ?case by (fastforce simp: res_simps)
qed simp

lemma created_snapshot_valid:
  assumes "createAuthoritativeApprovalSnapshot rt nt action records = Inr v" "good_sha rt"
  shows "validSnapshot rt v action"
proof -
  let ?scope = "fld2 action ''scope''" and ?body = "getf (fields_of (fld2 action ''payload'' ''body''))"
  obtain normalized where a: "assertAction action" and n: "map_res (normalizeMatch nt) (elems_of records) = Inr normalized"
    and l: "\<not> length (elems_of records) > 2"
    using assms(1) by (auto simp: createAuthoritativeApprovalSnapshot_def Let_def res_bind_Inr_iff split: if_splits)
  define matches where "matches = sort_matches normalized"
  define query where "query = obj [(''field'', JStr ''customerReference''), (''operator'', JStr ''EXACT''),
    (''value'', ?body ''ref_client''), (''limit'', jint 2)]"
  define version where "version = json_digest rt (version_core (?scope ''provider'') (?scope ''tenant'') (?scope ''entity'') query
    (strs_js MATERIAL_FIELDS) (arr matches))"
  define core where "core = [(''schemaVersion'', JStr APPROVAL_SNAPSHOT_SCHEMA), (''provider'', ?scope ''provider''),
     (''tenant'', ?scope ''tenant''), (''entity'', ?scope ''entity''),
     (''requester'', JStr APPROVAL_REQUESTER), (''purpose'', JStr APPROVAL_PURPOSE),
     (''query'', query), (''complete'', JBool True), (''truncated'', JBool False),
     (''materialFields'', strs_js MATERIAL_FIELDS), (''matches'', arr matches), (''version'', JStr version)]"
  have u: "length (uniq (map match_id matches)) = length matches"
    and v: "v = obj (core @ [(''snapshotDigest'', JStr (json_digest rt (obj core)))])"
    using assms(1) a n l unfolding createAuthoritativeApprovalSnapshot_def Let_def
    by (auto simp: core_def version_def query_def matches_def split: if_splits)
  have k: "gateKeys v SNAPSHOT_KEYS" "gateKeys query [''field'', ''limit'', ''operator'', ''value'']"
    unfolding gateKeys_exact v query_def by (rule exactKeys_mset, simp add: core_def SNAPSHOT_KEYS_def)+
  have f: "getf (fields_of v) ''schemaVersion'' = JStr APPROVAL_SNAPSHOT_SCHEMA"
    "getf (fields_of v) ''provider'' = ?scope ''provider''" "getf (fields_of v) ''tenant'' = ?scope ''tenant''"
    "getf (fields_of v) ''entity'' = ?scope ''entity''" "getf (fields_of v) ''requester'' = JStr APPROVAL_REQUESTER"
    "getf (fields_of v) ''purpose'' = JStr APPROVAL_PURPOSE" "getf (fields_of v) ''query'' = query"
    "getf (fields_of v) ''complete'' = JBool True" "getf (fields_of v) ''truncated'' = JBool False"
    "getf (fields_of v) ''materialFields'' = strs_js MATERIAL_FIELDS" "getf (fields_of v) ''matches'' = arr matches"
    "getf (fields_of v) ''version'' = JStr version" "getf (fields_of v) ''snapshotDigest'' = JStr (json_digest rt (obj core))"
    "without ''snapshotDigest'' (fields_of v) = core"
    unfolding v by (simp_all add: core_def without_def)
  have q: "fld2 v ''query'' ''field'' = JStr ''customerReference''" "fld2 v ''query'' ''operator'' = JStr ''EXACT''"
    "fld2 v ''query'' ''value'' = ?body ''ref_client''" "fld2 v ''query'' ''limit'' = jint 2"
    by (simp_all add: fld2_def f(7) query_def)
  have "length matches = length (elems_of records)"
    using map_res_length [OF n] by (simp add: matches_def sort_matches_def)
  moreover have "list_all (validMatch action) matches"
    using map_res_all [OF n] normalized_match [OF _ a] by (auto simp: list_all_iff matches_def sort_matches_def)
  moreover have "sort_matches matches = matches" by (simp add: matches_def)
  moreover have "hex64 version" unfolding version_def by (rule good_digest [OF assms(2)])
  ultimately show ?thesis
    unfolding validSnapshot_def Let_def f q
    using a k l u good_digest [OF assms(2), of "obj core"]
    by (simp add: version_def [symmetric] del: gateJson.simps)
qed

subsection \<open>Proposals\<close>

lemma diff_policy_echo:
  assumes "getf (fields_of p) ''policyId'' = getf (fields_of d) ''policyId''"
    "getf (fields_of p) ''policyGeneration'' = getf (fields_of d) ''policyGeneration''"
    "getf (fields_of p) ''policyDigest'' = getf (fields_of d) ''policyDigest''"
  shows "diff_policy p = diff_policy d"
  by (simp add: diff_policy_def Let_def assms)

lemma proposal_rest:
  assumes "proposalCore rt wcfg d v = Inr core"
  shows "getf (fields_of (proposal_of rt core)) ''schemaVersion'' = JStr PROPOSAL_SCHEMA"
    "gateKeys (proposal_of rt core) PROPOSAL_KEYS"
    "deriveAuthoritativeBusinessDiff rt (getf (fields_of d) ''action'') v (diff_policy d)
      = Inr (getf (fields_of (proposal_of rt core)) ''businessDiff'')"
proof -
  obtain b where b: "deriveAuthoritativeBusinessDiff rt (getf (fields_of d) ''action'') v (diff_policy d) = Inr b"
    using assms by (auto simp: proposalCore_def Let_def res_bind_Inr_iff)
  note c = assms [unfolded proposalCore_def Let_def, unfolded b, simplified, symmetric]
  show "getf (fields_of (proposal_of rt core)) ''schemaVersion'' = JStr PROPOSAL_SCHEMA"
    "deriveAuthoritativeBusinessDiff rt (getf (fields_of d) ''action'') v (diff_policy d)
      = Inr (getf (fields_of (proposal_of rt core)) ''businessDiff'')"
    unfolding proposal_of_def b by (simp_all add: c)
  show "gateKeys (proposal_of rt core) PROPOSAL_KEYS"
    unfolding gateKeys_exact proposal_of_def by (rule exactKeys_mset) (simp add: c PROPOSAL_KEYS_def)
qed

lemma registered_valid:
  assumes d: "register_begin rt wcfg d = Inr ()" and v: "validSnapshot rt v (getf (fields_of d) ''action'')"
    "proposalCore rt wcfg d v = Inr core" and c: "workbench_config_valid wcfg" "good_sha rt"
  shows "validateProposal rt (proposal_of rt core)" "\<not> contextStale wcfg (proposal_of rt core)"
proof -
  let ?p = "proposal_of rt core"
  note r = registered_context [OF d]
  note e = escalation_facts [OF r(1)]
  note p = proposal_fields [OF v(2)]
  note q = proposal_rest [OF v(2)]
  obtain s where s: "getf (fields_of d) ''decisionDigest'' = JStr s" "hex64 s" using e(4) by blast
  obtain a where a: "getf (fields_of d) ''actionDigest'' = JStr a" "hex64 a"
    using r(1) unfolding validateEscalationDecision_def Let_def str_test_iff by blast
  obtain d1 d2 where sd: "getf (fields_of v) ''snapshotDigest'' = JStr d1" "hex64 d1"
    "getf (fields_of v) ''version'' = JStr d2" "hex64 d2" using valid_snapshot_digests [OF v(1)] by metis
  have g: "isGeneration (jint (wc_policyGeneration wcfg))" "\<not> length (wc_profileGeneration wcfg) < 8" "hex64 (wc_policyDigest wcfg)"
    using c(1) by (simp_all add: workbench_config_valid_def)
  have dp: "diff_policy ?p = diff_policy d" by (rule diff_policy_echo) (simp_all only: p)
  have fs: "fld2 ?p ''snapshot'' ''snapshotDigest'' = getf (fields_of v) ''snapshotDigest''"
    "fld2 ?p ''snapshot'' ''version'' = getf (fields_of v) ''version''" by (simp_all only: fld2_def p(9))
  have seal: "digest_is rt (obj core) (JStr (json_digest rt (obj core)))" by (simp add: digest_is_def)
  have bd: "digest_is rt (getf (fields_of ?p) ''businessDiff'') (JStr (json_digest rt (getf (fields_of ?p) ''businessDiff'')))"
    using p(18) unfolding p(19) .
  show "validateProposal rt ?p"
    unfolding validateProposal_def Let_def dp fs q(3) sum.case p(1-14,17,19,20) q(1) r(2-4) e(1) s(1) a(1) sd(1,3)
      valid_snapshot_origin [OF v(1)]
    using q(2) g s(2) a(2) sd(2,4) seal bd e(3) [unfolded a(1)] good_digest [OF c(2)] by (simp del: gateJson.simps)
  show "\<not> contextStale wcfg ?p"
    unfolding contextStale_def Let_def p(2-6) r(2-4) by simp
qed

end
