(* ===== verification/GateFinish.thy ===== *)
theory GateFinish
  imports PolicyAnswers
begin

text \<open>
  The end of an \<open>execute\<close>: under an owner lease, which stores its writes leave behind and which of them the gate reads
  at its next start; and that an effect once written stays in memory and on file, whatever the gate does later.
\<close>

definition completed :: "effect_store \<Rightarrow> effect_call \<Rightarrow> effect \<Rightarrow> reservation_status \<Rightarrow> effect_store" where
  "completed st c x s = st\<lparr>st_effects := put_key (ec_key c) x (st_effects st),
     st_reservations := put_key (ec_key c) ((the (map_of (st_reservations st) (ec_key c)))\<lparr>rv_status := s\<rparr>) (st_reservations st)\<rparr>"

lemma put_twice: "put_key k x (put_key k y m) = put_key k x m"
proof (cases "k \<in> set (map fst m)")
  case True
  then have "k \<in> set (map fst (put_key k y m))" by simp
  with True show ?thesis by (simp add: put_key_def del: set_map) (auto simp: comp_def)
next
  case False
  then have "map (\<lambda>(k', y). (k', if k' = k then x else y)) m = m" by (induction m) auto
  with False show ?thesis by (simp add: put_key_def)
qed

lemma in_put:
  "(k', z) \<in> set (put_key k x m) \<longleftrightarrow> (if k' = k then z = x else (k', z) \<in> set m)"
proof (cases "k \<in> set (map fst m)")
  case True
  then obtain y where "(k, y) \<in> set m" by auto
  with True show ?thesis by (force simp: put_key_def)
next
  case False
  then have "(k, z) \<notin> set m" by force
  with False show ?thesis by (auto simp: put_key_def)
qed

lemma marked_completed:
  assumes "map_of (st_reservations st) (ec_key c) = Some r"
  shows "marked (ec_key c) s (st\<lparr>st_effects := put_key (ec_key c) x (st_effects st)\<rparr>) = Some (completed st c x s)"
    "marked (ec_key c) s' (completed st c x s) = Some (completed st c x s')"
  using assms by (simp_all add: marked_def completed_def put_twice)

lemma slot_put: "slot (put_key k x m) k' = (if k' = k then Own x else slot m k')"
  by (simp add: slot_def)

lemma completed_loadable:
  assumes "loadable rt st" "map_of (st_reservations st) (ec_key c) = Some r"
    "effect_valid rt (ec_key c) (trip (effect_js x))"
  shows "loadable rt (completed st c x s) \<longleftrightarrow> s = APPLIED"
proof -
  note l = assms(1) [unfolded loadable_iff]
  have r: "reservation_rest (st_leases st) (ec_key c) r" using l map_of_SomeD [OF assms(2)] by fastforce
  then have rest: "reservation_rest (st_leases st) (ec_key c) (r\<lparr>rv_status := s\<rparr>)" by (simp add: reservation_rest_def)
  have e: "\<forall>(k, y) \<in> set (put_key (ec_key c) x (st_effects st)). effect_valid rt k (trip (effect_js y))"
    using l assms(3) by (force simp: in_put split: if_splits)
  have "(\<forall>(k, q) \<in> set (put_key (ec_key c) (r\<lparr>rv_status := s\<rparr>) (st_reservations st)). reservation_rest (st_leases st) k q
      \<and> (rv_status q = APPLIED \<longleftrightarrow> slot (put_key (ec_key c) x (st_effects st)) k \<noteq> Absent)) \<longleftrightarrow> s = APPLIED"
    (is "?L \<longleftrightarrow> _")
  proof
    assume ?L
    moreover have "(ec_key c, r\<lparr>rv_status := s\<rparr>) \<in> set (put_key (ec_key c) (r\<lparr>rv_status := s\<rparr>) (st_reservations st))"
      by (simp add: in_put)
    ultimately show "s = APPLIED" by (fastforce simp: slot_put)
  next
    assume "s = APPLIED"
    with l rest show ?L by (fastforce simp: in_put slot_put split: if_splits)
  qed
  with l e show ?thesis
    unfolding loadable_iff by (simp add: completed_def assms(2))
qed

lemma finish_writes:
  assumes "ec_ownerLease c" "map_of (st_reservations (gate_store g)) (ec_key c) = Some r" "effect_of rt c v rb = Inr x"
  shows "execute_finish rt True w2 g c v (Gave rb)
      = (\<lparr>gate_store = completed (gate_store g) c x APPLIED, gate_file = store_file (completed (gate_store g) c x APPLIED)\<rparr>,
         Inr (answer_js False x))"
    "execute_finish rt False True g c v (Gave rb)
      = (\<lparr>gate_store = completed (gate_store g) c x AMBIGUOUS, gate_file = store_file (completed (gate_store g) c x AMBIGUOUS)\<rparr>,
         Inl WRITE_ERROR)"
    "execute_finish rt False False g c v (Gave rb)
      = (\<lparr>gate_store = completed (gate_store g) c x AMBIGUOUS, gate_file = gate_file g\<rparr>, Inl WRITE_ERROR)"
  using assms
  by (simp_all add: execute_finish_def execute_failed_def Let_def marked_completed [OF assms(2)] gate_persist_def store_file_def)

lemma effect_sealed:
  assumes "effect_of rt c v rb = Inr x" "plain (ef_receipt x)" "plain v" "plain rb"
    "getf (fields_of (ec_action c)) ''replayKey'' = JStr k" "\<And>t. hex64 (sha rt t)"
  shows "effect_valid rt (ec_key c) (trip (effect_js x))"
proof -
  from assms(1) show ?thesis
  proof (rule effect_of_sealed)
    fix core
    assume e: "ef_actionDigest x = JStr (ec_digest c)" "ef_providerResult x = v" "ef_readback x = rb"
      "ef_receipt x = obj (core @ [(''receiptDigest'', JStr (json_digest rt (obj core)))])"
      "getf core ''replayKey'' = getf (fields_of (ec_action c)) ''replayKey''"
      "getf core ''actionDigest'' = JStr (ec_digest c)" "''receiptDigest'' \<notin> set (map fst core)"
    have k: "ec_key c = k" by (simp add: ec_key_def assms(5))
    show ?thesis
      by (rule sealed_effect_valid [OF e(1,4)]) (use assms e k in \<open>simp_all add: json_digest_def\<close>)
  qed
qed

subsection \<open>The receipt of a lease\<close>

lemma scope_entity_named:
  assumes "validateMutationScope action = Inr ()"
  shows "fld2 action ''scope'' ''entity'' \<noteq> JUndef"
proof
  assume u: "fld2 action ''scope'' ''entity'' = JUndef"
  have "slot paths ''undefined'' = Absent" if "provider_paths p = Some paths" for p paths
    using that by (auto simp: provider_paths_def slot_def OBJECT_MEMBERS_def split: if_splits)
  with assms u show False
    unfolding validateMutationScope_def Let_def by (auto split: if_splits option.splits)
qed

lemma lease_receipt_plain:
  assumes g: "execute_guard rt cfg now request envelope = Inr c" "ec_ownerLease c"
    and p: "plain (ec_action c)" "plain (ec_authority c)" and x: "effect_of rt c v rb = Inr x"
  shows "plain (ef_receipt x)" "\<exists>k. getf (fields_of (ec_action c)) ''replayKey'' = JStr k"
proof -
  note k = execute_guard_common [OF g(1)]
  have a: "gateKeys (ec_action c) ACTION_KEYS" "\<exists>k. getf (fields_of (ec_action c)) ''replayKey'' = JStr k"
    using k(1) by (auto simp: validateActionShape_def Let_def str_test_iff split: if_splits)
  have o: "gateKeys (ec_authority c) OWNER_AUTHORITY_KEYS"
    using g(1) by (cases rule: execute_guard_cases)
      (use g(2) in \<open>auto simp: validateOwnerAuthority_def owner_claims_valid_def Let_def split: if_splits\<close>)
  have f: "plain (getf (fields_of (ec_authority c)) l)" if "l \<in> set OWNER_AUTHORITY_KEYS" for l
    by (rule gateKeys_own_field [OF o that p(2)])
  have b: "plain (getf (fields_of (ec_action c)) l)" if "l \<in> set ACTION_KEYS" for l
    by (rule gateKeys_own_field [OF a(1) that p(1)])
  have "plain (getf (fields_of (ec_action c)) ''scope'')" by (rule b) (simp add: ACTION_KEYS_def)
  then have e: "plain (fld2 (ec_action c) ''scope'' ''entity'')"
    using plain_getf scope_entity_named [OF k(2)] by (auto simp: fld2_def)
  have core: "plain (obj (receiptCore rt c v rb))"
    unfolding receiptCore_def Let_def authority_fields_def
    using e by (auto simp: b f ACTION_KEYS_def OWNER_AUTHORITY_KEYS_def)
  then show "plain (ef_receipt x)" using x by (auto simp: effect_of_def Let_def split: if_splits)
  show "\<exists>k. getf (fields_of (ec_action c)) ''replayKey'' = JStr k" by (rule a(2))
qed

subsection \<open>Effects stay\<close>

text \<open>An effect as the gate reads it back from its own file, which changes it no further.\<close>

definition reread :: "effect \<Rightarrow> effect" where
  "reread x = read_effect (trip (effect_js x))"

lemma json_trip_twice: "json_trip v = Some w \<Longrightarrow> json_trip w = Some w"
proof (induction v arbitrary: w rule: json_trip.induct)
  case (4 i vs)
  have "(case json_trip (case json_trip x of None \<Rightarrow> JNull | Some y \<Rightarrow> y) of None \<Rightarrow> JNull | Some y \<Rightarrow> y)
      = (case json_trip x of None \<Rightarrow> JNull | Some y \<Rightarrow> y)" if "x \<in> set vs" for x
    using 4(1) [OF that] by (cases "json_trip x") auto
  with 4(2) show ?case by auto
next
  case (5 i kvs)
  let ?opt = "\<lambda>(k :: string, v). case json_trip v of None \<Rightarrow> [] | Some w \<Rightarrow> [(k, w)]"
  have "concat (map ?opt (concat (map ?opt xs))) = concat (map ?opt xs)" if "set xs \<subseteq> set kvs" for xs
    using that
  proof (induction xs)
    case (Cons p xs)
    obtain k x where p: "p = (k, x)" by fastforce
    have "json_trip y = Some y" if "json_trip x = Some y" for y
      using 5(1) [OF _ refl that] Cons.prems p by auto
    with Cons show ?case by (auto simp: p split: option.split)
  qed simp
  with 5(2) show ?case by auto
qed (auto split: if_splits)

definition opt_of :: "js \<Rightarrow> js" where
  "opt_of v = (case json_trip v of None \<Rightarrow> JUndef | Some w \<Rightarrow> w)"

lemma opt_of_twice [simp]: "opt_of (opt_of v) = opt_of v"
  using json_trip_twice [of v] by (auto simp: opt_of_def split: option.split)

lemma opt_of_basic [simp]: "opt_of (JStr s) = JStr s" "opt_of (jint i) = jint i"
  by (simp_all add: opt_of_def)

lemma reread_fields:
  "ef_actionDigest (reread x) = opt_of (ef_actionDigest x)" "ef_providerResult (reread x) = opt_of (ef_providerResult x)"
  "ef_readback (reread x) = opt_of (ef_readback x)" "ef_receipt (reread x) = opt_of (ef_receipt x)"
  by (auto simp: reread_def read_effect_def Let_def effect_js_def trip_def opt_of_def split: option.splits)

lemma reread_twice [simp]: "reread (reread x) = reread x"
  by (rule effect.equality) (simp_all add: reread_fields)

lemma getf_opt:
  assumes "getf kvs k = v" "opt_of v \<noteq> JUndef"
  shows "getf (fields_of (opt_of (JObj i kvs))) k = opt_of v"
proof -
  have "getf (concat (map (\<lambda>(k, v). case json_trip v of None \<Rightarrow> [] | Some w \<Rightarrow> [(k, w)]) kvs)) k = opt_of v"
    using assms
  proof (induction kvs)
    case (Cons p kvs)
    then show ?case by (cases p; cases "k = fst p") (auto simp: opt_of_def split: option.splits)
  qed (simp add: opt_of_def)
  then show ?thesis by (simp add: opt_of_def [of "JObj i kvs"])
qed

text \<open>
  Memory and file hold an effect of the set \<open>X\<close> under the replay key \<open>k\<close>. What an operation keeps of the effects in
  memory, and writes to the file when it writes, it keeps of this.
\<close>

definition stored_effect :: "effect set \<Rightarrow> string \<Rightarrow> effect_store \<Rightarrow> bool" where
  "stored_effect X k st \<longleftrightarrow> (\<exists>y \<in> X. map_of (st_effects st) k = Some y)"

definition kept_effect :: "effect set \<Rightarrow> string \<Rightarrow> gate \<Rightarrow> bool" where
  "kept_effect X k g \<longleftrightarrow> stored_effect X k (gate_store g) \<and> (\<exists>st. gate_file g = store_file st \<and> stored_effect X k st)"

lemma kept_effect_later:
  "kept_effect X k g \<Longrightarrow> gate_later g g' \<Longrightarrow> stored_effect X k (gate_store g') \<Longrightarrow> kept_effect X k g'"
  unfolding kept_effect_def gate_later_def by metis

lemma read_map_of: "map_of (read_map dec (obj (map (\<lambda>(k, x). (k, f x)) m))) k = map_option (\<lambda>x. dec (f x)) (map_of m k)"
  by (induction m) (auto simp: read_map_def)

lemma restart_effects:
  assumes "new_gate rt cfg (store_file st) = Inr g"
  shows "map_of (st_effects (gate_store g)) k = map_option reread (map_of (st_effects st) k)"
proof -
  have "normalizeEffectStore rt (trip (effect_store_js st)) = Inr (gate_store g)"
    using assms by (auto simp: new_gate_def store_file_def trip_def res_bind_Inr_iff)
  then have "st_effects (gate_store g)
      = read_map read_effect (obj (map (\<lambda>(k, x). (k, trip (effect_js x))) (st_effects st)))"
    unfolding normalize_own Let_def by (metis effect_store.select_convs(1) sum.distinct(1) sum.inject(2))
  then show ?thesis by (simp only: read_map_of reread_def [abs_def])
qed

lemma kept_effect_restart:
  assumes "kept_effect X k g" "reread ` X \<subseteq> X" "new_gate rt cfg (gate_file g) = Inr g'"
  shows "kept_effect X k g'"
proof -
  obtain st where st: "gate_file g = store_file st" "stored_effect X k st" using assms(1) by (auto simp: kept_effect_def)
  have f: "gate_file g' = store_file st" using new_gate_load [OF assms(3)] st(1) by simp
  have "stored_effect X k (gate_store g')"
    using st(2) assms(2) restart_effects [OF assms(3) [unfolded st(1)]] by (auto simp: stored_effect_def)
  with f st(2) show ?thesis by (auto simp: kept_effect_def)
qed

lemma execute_failed_effects:
  "execute_failed writes g c e = (g', r) \<Longrightarrow> st_effects (gate_store g') = st_effects (gate_store g)"
  by (auto simp: execute_failed_def Let_def gate_persist_def marked_keys(3) split: if_splits option.splits sum.splits)

lemma execute_reserve_effects:
  assumes "execute_reserve rt writes now g c answer = (g', r)"
  shows "st_effects (gate_store g') = st_effects (gate_store g)"
  using assms by (cases rule: execute_reserve_cases) (simp_all add: reserved_store_def)

lemma execute_finish_effects:
  assumes "execute_finish rt writes1 writes2 g c v answer = (g', r)"
  shows "st_effects (gate_store g') = st_effects (gate_store g)
    \<or> (\<exists>x. st_effects (gate_store g') = put_key (ec_key c) x (st_effects (gate_store g)))"
proof (cases answer)
  case (Threw e)
  with assms show ?thesis by (auto simp: execute_finish_def dest: execute_failed_effects)
next
  case (Gave rb)
  show ?thesis
  proof (cases "effect_of rt c v rb")
    case (Inl e)
    with assms Gave show ?thesis by (auto simp: execute_finish_def dest: execute_failed_effects)
  next
    case (Inr x)
    with assms Gave have "st_effects (gate_store g') = put_key (ec_key c) x (st_effects (gate_store g))"
      by (auto simp: execute_finish_def Let_def gate_persist_def marked_keys(3) dest!: execute_failed_effects
          split: option.splits if_splits)
    then show ?thesis by blast
  qed
qed

text \<open>
  The gate in operation. The effect stays the same when nobody else is about to complete one under its replay key: no
  call in flight has asked for a mutation under it. An effect under the key there is in any case.
\<close>

definition effect_inv :: "effect set \<Rightarrow> string \<Rightarrow> gate_system \<Rightarrow> bool" where
  "effect_inv X k s \<longleftrightarrow> kept_effect X k (gs_gate s)
     \<and> (X = UNIV \<or> (\<forall>(c, st) \<in> set (gs_calls s). ec_key c = k \<longrightarrow> st = Reading \<or> st = Over))"

definition no_mutation :: "string \<Rightarrow> (gate_config \<times> effect_call \<times> js) list \<Rightarrow> bool" where
  "no_mutation k log \<longleftrightarrow> list_all (\<lambda>(cfg, c, v). ec_key c \<noteq> k) log"

lemma no_mutation_simps [simp]: "no_mutation k []" "no_mutation k [(cfg, c, v)] \<longleftrightarrow> ec_key c \<noteq> k"
  "no_mutation k (l @ l') \<longleftrightarrow> no_mutation k l \<and> no_mutation k l'"
  by (simp_all add: no_mutation_def)

lemma stored_effect_slot: "stored_effect X k st \<Longrightarrow> \<exists>y \<in> X. slot (st_effects st) k = Own y"
  by (auto simp: stored_effect_def slot_def)

lemma stored_effect_denies:
  assumes "stored_effect X (ec_key c) st"
  shows "\<exists>e. replay_checks st c = Inl e" "execute_branch rt cfg st c \<noteq> AwaitMutation" "execute_branch rt cfg st c \<noteq> AwaitSnapshot"
  using stored_effect_slot [OF assms]
  by (auto simp: replay_checks_def execute_branch_def split: sum.splits if_splits)

lemma effect_inv_gate:
  assumes "effect_inv X k s" "gate_later (gs_gate s) g" "stored_effect X k (gate_store g)"
    and "set cs \<subseteq> insert (c, st) (set (gs_calls s))" "X = UNIV \<or> ec_key c \<noteq> k \<or> st = Reading \<or> st = Over"
  shows "effect_inv X k (s\<lparr>gs_gate := g, gs_calls := cs\<rparr>)"
  using kept_effect_later [OF _ assms(2,3)] assms(1,4,5) unfolding effect_inv_def by fastforce

lemma effect_inv_same_effects:
  assumes "effect_inv X k s" "st_effects st = st_effects (gate_store (gs_gate s))"
  shows "stored_effect X k st"
  using assms by (simp add: effect_inv_def kept_effect_def stored_effect_def)

lemma effect_inv_launch:
  assumes "effect_inv X k s"
    and "execute_begin rt cfg token now request envelope (gate_store (gs_gate s)) (gs_fence s) = (w, r)"
  shows "effect_inv X k (launch s w r) \<and> (\<exists>more. gs_log (launch s w r) = gs_log s @ more \<and> no_mutation k more)"
proof (cases r)
  case (Inr p)
  obtain c b where p: "p = (c, b)" by fastforce
  have "b = execute_branch rt cfg (gate_store (gs_gate s)) c"
    using assms(2) Inr p by (auto simp: execute_begin_def split: sum.splits prod.splits)
  moreover have "stored_effect X k (gate_store (gs_gate s))" using assms(1) by (simp add: effect_inv_def kept_effect_def)
  ultimately have "ec_key c = k \<longrightarrow> b \<noteq> AwaitMutation \<and> b \<noteq> AwaitSnapshot"
    using stored_effect_denies(2,3) [of X c "gate_store (gs_gate s)" rt cfg] by metis
  with assms(1) show ?thesis by (cases b) (auto simp: Inr p launch_def effect_inv_def)
qed (use assms(1) in \<open>simp add: launch_def effect_inv_def\<close>)

lemma effect_inv_released:
  assumes i: "effect_inv X k s" "i < length (gs_calls s)" "gs_calls s ! i = (c, Reading)"
    and r: "execute_reserve rt writes now (gs_gate s) c answer = (g, r)"
  shows "effect_inv X k (released s i c answer g r)
    \<and> (\<exists>more. gs_log (released s i c answer g r) = gs_log s @ more \<and> no_mutation k more)"
proof -
  note l = execute_reserve_later [OF r]
  note e = effect_inv_same_effects [OF i(1) execute_reserve_effects [OF r]]
  have calls: "set ((gs_calls s)[i := (c, st)]) \<subseteq> insert (c, st) (set (gs_calls s))" for st
    by (rule set_update_subset_insert)
  show ?thesis
  proof (cases r)
    case (Inl x)
    with effect_inv_gate [OF i(1) l e calls, of Over] show ?thesis by (simp add: released_def)
  next
    case (Inr x)
    with r have "replay_checks (gate_store (gs_gate s)) c = Inr ()" by (cases rule: execute_reserve_cases) auto
    moreover have "stored_effect X k (gate_store (gs_gate s))" using i(1) by (simp add: effect_inv_def kept_effect_def)
    ultimately have k: "ec_key c \<noteq> k" using stored_effect_denies(1) by fastforce
    with Inr effect_inv_gate [OF i(1) l e calls, of Mutating] show ?thesis by (simp add: released_def effect_inv_def)
  qed
qed

lemma effect_inv_finish:
  assumes i: "effect_inv X k s" "i < length (gs_calls s)" "gs_calls s ! i = (c, ReadingBack v)"
    and f: "execute_finish rt writes1 writes2 (gs_gate s) c v answer = (g, r)"
  shows "effect_inv X k (s\<lparr>gs_gate := g, gs_calls := (gs_calls s)[i := (c, Over)]\<rparr>)"
proof (rule effect_inv_gate [OF i(1) execute_finish_later [OF f] _ set_update_subset_insert])
  have "(c, ReadingBack v) \<in> set (gs_calls s)" using i(2,3) nth_mem by metis
  then have k: "X = UNIV \<or> ec_key c \<noteq> k" using i(1) by (fastforce simp: effect_inv_def)
  have "stored_effect X k (gate_store (gs_gate s))" using i(1) by (simp add: effect_inv_def kept_effect_def)
  with execute_finish_effects [OF f] k show "stored_effect X k (gate_store g)" by (auto simp: stored_effect_def)
qed simp

lemma effect_inv_mutated:
  assumes "effect_inv X k s" "i < length (gs_calls s)" "gs_calls s ! i = (c, Mutating)"
  shows "effect_inv X k (s\<lparr>gs_calls := (gs_calls s)[i := (c, ReadingBack v)]\<rparr>)"
proof -
  have "(c, Mutating) \<in> set (gs_calls s)" using assms(2,3) nth_mem by metis
  then have "X = UNIV \<or> ec_key c \<noteq> k \<or> ReadingBack v = Reading \<or> ReadingBack v = Over"
    using assms(1) by (fastforce simp: effect_inv_def)
  moreover have "stored_effect X k (gate_store (gs_gate s))" using assms(1) by (simp add: effect_inv_def kept_effect_def)
  ultimately have "effect_inv X k (s\<lparr>gs_gate := gs_gate s, gs_calls := (gs_calls s)[i := (c, ReadingBack v)]\<rparr>)"
    by (intro effect_inv_gate [OF assms(1) gate_later_refl _ set_update_subset_insert])
  then show ?thesis by simp
qed

lemma effect_inv_restart:
  assumes "effect_inv X k s" "reread ` X \<subseteq> X" "gate_later (gs_gate s) g'" "stored_effect X k (gate_store g')"
    and "new_gate rt cfg (gate_file g') = Inr g"
  shows "effect_inv X k (s\<lparr>gs_cfg := cfg', gs_gate := g, gs_calls := []\<rparr>)"
  using kept_effect_restart [OF kept_effect_later [OF _ assms(3,4)] assms(2,5)] assms(1)
  by (simp add: effect_inv_def)

lemma effect_inv_step:
  assumes "gate_step rt token s s'" "effect_inv X k s" "reread ` X \<subseteq> X"
  shows "effect_inv X k s' \<and> (\<exists>more. gs_log s' = gs_log s @ more \<and> no_mutation k more)"
  using assms(1)
proof (cases rule: gate_step.cases)
  case (step_begin now request envelope w r)
  from effect_inv_launch [OF assms(2) step_begin(2)] show ?thesis by (simp add: step_begin(1))
next
  case (step_reserve i c writes now answer g r)
  from effect_inv_released [OF assms(2) step_reserve(2-4)] show ?thesis by (simp add: step_reserve(1))
next
  case (step_mutated i c v)
  from effect_inv_mutated [OF assms(2) step_mutated(2,3)] show ?thesis by (simp add: step_mutated(1))
next
  case (step_failed i c writes e g r)
  from effect_inv_gate [OF assms(2) execute_failed_later [OF step_failed(4)]
      effect_inv_same_effects [OF assms(2) execute_failed_effects [OF step_failed(4)]] set_update_subset_insert]
  show ?thesis by (simp add: step_failed(1))
next
  case (step_finish i c v writes1 writes2 answer g r)
  from effect_inv_finish [OF assms(2) step_finish(2-4)] show ?thesis by (simp add: step_finish(1))
next
  case (step_restart cfg g)
  have "stored_effect X k (gate_store (gs_gate s))" using assms(2) by (simp add: effect_inv_def kept_effect_def)
  from effect_inv_restart [OF assms(2,3) gate_later_refl this step_restart(2)] show ?thesis by (simp add: step_restart(1))
next
  case (step_killed i c writes now answer g' cfg g)
  from effect_inv_restart [OF assms(2,3) execute_reserve_later [OF step_killed(4)]
      effect_inv_same_effects [OF assms(2) execute_reserve_effects [OF step_killed(4)]] step_killed(5)]
  show ?thesis by (simp add: step_killed(1))
qed (use assms(2) in \<open>simp_all add: effect_inv_def\<close>)

lemma effect_inv_steps:
  assumes "(gate_step rt token)\<^sup>*\<^sup>* s s'" "effect_inv X k s" "reread ` X \<subseteq> X"
  shows "effect_inv X k s' \<and> (\<exists>more. gs_log s' = gs_log s @ more \<and> no_mutation k more)"
  using assms(1)
proof (induction rule: rtranclp_induct)
  case base
  show ?case using assms(2) by auto
next
  case (step s1 s2)
  from step.IH obtain more where m: "effect_inv X k s1" "gs_log s1 = gs_log s @ more" "no_mutation k more" by blast
  from effect_inv_step [OF step.hyps(2) m(1) assms(3)] obtain more' where
    "effect_inv X k s2" "gs_log s2 = gs_log s1 @ more'" "no_mutation k more'" by blast
  with m show ?case by (intro conjI exI [of _ "more @ more'"]) simp_all
qed

end
