(* ===== verification/GateSamples.thy ===== *)
theory GateSamples
  imports WorkbenchValid GateFinish LifecycleSamples
begin

text \<open>
  One contact and one order on their way through the handler, the workbench and the gate, over the active policy of
  the sample life of the manager: its fence, and its digests, which are constant.
\<close>

subsection \<open>The configurations\<close>

definition sample_rt :: gate_runtime where
  "sample_rt = runtime.extend (base_rt lc_rt) (gate_runtime.fields (\<lambda>_. None) (\<lambda>_. NNonFinite) (\<lambda>_. ''gate.local''))"

lemma sample_rt_simps [simp]:
  "sha sample_rt t = zeros" "hmac sample_rt k t = zeros" "json_digest sample_rt v = zeros"
  "url_host sample_rt u = ''gate.local''" "runtime.truncate sample_rt = base_rt lc_rt"
  by (simp_all add: sample_rt_def runtime.defs gate_runtime.defs lc_rt_def json_digest_def)

lemma sample_sha: "good_sha sample_rt"
  by (simp add: good_sha_def)

definition sample_gate :: gate_config where
  "sample_gate = \<lparr>gc_apiToken = replicate 32 (CHR ''a''), gc_controlToken = replicate 32 (CHR ''c''),
     gc_ownerAuthorityToken = replicate 32 (CHR ''o''), gc_expectedOrigin = ''http://gate.local'',
     gc_policyDigest = Some zeros, gc_profileGeneration = ''standalone-test-v1'', gc_policyGeneration = 1,
     gc_readsSnapshots = True\<rparr>"

definition sample_workbench :: workbench_config where
  "sample_workbench = \<lparr>wc_policyDigest = zeros, wc_policyGeneration = 1, wc_profileGeneration = ''standalone-test-v1'',
     wc_leaseTtlMs = 60000\<rparr>"

lemma sample_configs: "gate_config_valid sample_gate = Inr ()" "workbench_config_valid sample_workbench"
    "wired sample_gate sample_workbench"
  by (simp_all add: wired_def gate_config_valid_def workbench_config_valid_def sample_gate_def sample_workbench_def
    isGeneration_def max_safe_def)

definition sample_http :: http_request where
  "sample_http = \<lparr>rq_authorization = Some (BEARER @ replicate 32 (CHR ''a'')), rq_origin = Some ''http://gate.local'',
     rq_host = Some ''gate.local'', rq_csrf = Some ''chimpmaera-local-v1''\<rparr>"

lemma sample_authorized:
  "authorizeLocalRequest sample_rt (gc_apiToken sample_gate) (gc_expectedOrigin sample_gate) True sample_http = Inr ()"
  by (simp add: authorizeLocalRequest_def sample_http_def sample_gate_def bearer_def)

subsection \<open>Requests and decisions\<close>

definition sample_key :: string where
  "sample_key = ''admin-ai:poc:sample-001''"

lemma sample_key_ok: "rx_test AGENT_REPLAY_KEY sample_key"
  by code_simp

definition poc_request :: "string \<Rightarrow> js" where
  "poc_request kind = obj [(''schemaVersion'', JStr AI_REQUEST_SCHEMA), (''actor'', JStr AGENT),
     (''requestKind'', JStr kind), (''replayKey'', JStr sample_key)]"

lemma poc_request_valid:
  assumes "kind \<noteq> []" "length kind \<le> 100"
  shows "validateRequest (poc_request kind)"
proof -
  have "gateKeys (poc_request kind) [''actor'', ''replayKey'', ''requestKind'', ''schemaVersion'']"
    unfolding gateKeys_exact poc_request_def by (rule exactKeys_mset) simp
  then show ?thesis
    unfolding validateRequest_def Let_def
    using assms sample_key_ok by (simp add: poc_request_def del: rx_test.simps)
qed

lemma sample_kinds:
  "rule_of (poc_request CONTACT_KIND) = 0" "rule_of (poc_request ORDER_KIND) = 1"
  "rule_of (poc_request ''delete everything'') = 2" "CONTACT_KIND \<noteq> ORDER_KIND"
  "validateRequest (poc_request CONTACT_KIND)" "validateRequest (poc_request ORDER_KIND)"
  "validateRequest (poc_request ''delete everything'')"
proof -
  show "rule_of (poc_request CONTACT_KIND) = 0" "rule_of (poc_request ORDER_KIND) = 1"
    "rule_of (poc_request ''delete everything'') = 2" "CONTACT_KIND \<noteq> ORDER_KIND"
    by (simp_all add: rule_of_def poc_request_def CONTACT_KIND_def ORDER_KIND_def)
  show "validateRequest (poc_request CONTACT_KIND)" "validateRequest (poc_request ORDER_KIND)"
    "validateRequest (poc_request ''delete everything'')"
    by (rule poc_request_valid; simp add: CONTACT_KIND_def ORDER_KIND_def)+
qed

definition sample_ai :: admin_ai where
  "sample_ai = (case new_admin_ai sample_rt demo_policy zeros (agentAuthority sample_rt sample_gate) None of
     Inr ai \<Rightarrow> ai | Inl e \<Rightarrow> undefined)"

lemma sample_ai_built: "new_admin_ai sample_rt demo_policy zeros (agentAuthority sample_rt sample_gate) None = Inr sample_ai"
  by (simp add: sample_ai_def new_admin_ai_def demo_policy_closed)

lemma demo_policy_plain: "plain demo_policy" "js_wf demo_policy"
  by (simp_all add: demo_policy_def closed_rule_def)

lemmas sample_handler = static_handler [OF sample_ai_built sample_sha option.pred_inject(1) demo_policy_plain]

lemma sample_context:
  "getf (fields_of (aa_context sample_ai)) ''policyGeneration'' = jint 1"
  "getf (fields_of (aa_context sample_ai)) ''policyId'' = JStr POC_POLICY_ID" "aa_policyDigest sample_ai = zeros"
  "aa_sign sample_ai = agentAuthority sample_rt sample_gate"
  by (simp_all add: sample_ai_def new_admin_ai_def demo_policy_closed)

definition sample_decision :: "string \<Rightarrow> js" where
  "sample_decision kind = ai_answer sample_rt sample_ai (poc_request kind) (static_decision sample_rt sample_ai (poc_request kind))"

lemma sample_decided:
  "ai_decide sample_rt sample_ai (poc_request CONTACT_KIND) = Inr (sample_decision CONTACT_KIND)"
  "ai_decide sample_rt sample_ai (poc_request ORDER_KIND) = Inr (sample_decision ORDER_KIND)"
  unfolding sample_decision_def by (rule sample_handler, rule sample_kinds)+

lemma sample_escalated: "register_begin sample_rt sample_workbench (sample_decision ORDER_KIND) = Inr ()"
proof -
  have "validateEscalationDecision sample_rt (sample_decision ORDER_KIND)"
    unfolding sample_decision_def
    by (rule static_escalates [OF sample_ai_built sample_sha option.pred_inject(1) sample_kinds(6,2)])
  moreover have "getf (fields_of (sample_decision ORDER_KIND)) ''policyDigest'' = JStr zeros"
    "getf (fields_of (sample_decision ORDER_KIND)) ''policyGeneration'' = jint 1"
    "getf (fields_of (sample_decision ORDER_KIND)) ''policyId'' = JStr POC_POLICY_ID"
    by (simp_all add: sample_decision_def ai_answer_def ai_core_def Let_def sample_context)
  ultimately show ?thesis by (simp add: register_begin_def sample_workbench_def)
qed

subsection \<open>The order in the workbench\<close>

definition sample_order :: js where
  "sample_order = orderAction (JStr sample_key)"

lemma sample_order_planned: "getf (fields_of (sample_decision ORDER_KIND)) ''action'' = sample_order"
proof -
  obtain k where k: "getf (fields_of (sample_decision ORDER_KIND)) ''action'' = orderAction (JStr k)"
    "getf (fields_of (sample_decision ORDER_KIND)) ''replayKey'' = JStr k"
    using escalated_order [OF sample_decided(2)] registered_context(1) [OF sample_escalated] by metis
  have "getf (fields_of (sample_decision ORDER_KIND)) ''replayKey'' = JStr sample_key"
    unfolding sample_decision_def ai_answer_echo by (simp add: poc_request_def)
  with k show ?thesis by (simp add: sample_order_def)
qed

lemma sample_order_asserted: "assertAction sample_order"
  by (simp add: assertAction_def Let_def sample_order_def orderAction_def fld2_def)

definition sample_snapshot :: js where
  "sample_snapshot = (case createAuthoritativeApprovalSnapshot sample_rt (\<lambda>_. NNonFinite) sample_order (arr []) of
     Inr v \<Rightarrow> v | Inl e \<Rightarrow> undefined)"

lemma sample_snapshot_made:
  "createAuthoritativeApprovalSnapshot sample_rt (\<lambda>_. NNonFinite) sample_order (arr []) = Inr sample_snapshot"
  "getf (fields_of sample_snapshot) ''matches'' = arr []"
  by (simp_all add: sample_snapshot_def createAuthoritativeApprovalSnapshot_def sample_order_asserted Let_def sort_matches_def
    res_simps del: gateJson.simps)

lemma sample_snapshot_valid: "validSnapshot sample_rt sample_snapshot sample_order"
  by (rule created_snapshot_valid [OF sample_snapshot_made(1) sample_sha])

definition sample_core :: fields where
  "sample_core = (case proposalCore sample_rt sample_workbench (sample_decision ORDER_KIND) sample_snapshot of
     Inr core \<Rightarrow> core | Inl e \<Rightarrow> undefined)"

lemma sample_core_made:
  "proposalCore sample_rt sample_workbench (sample_decision ORDER_KIND) sample_snapshot = Inr sample_core"
proof -
  let ?p = "diff_policy (sample_decision ORDER_KIND)"
  have k: "gateKeys ?p [''digest'', ''generation'', ''id'']"
    unfolding gateKeys_exact diff_policy_def Let_def by (rule exactKeys_mset) simp
  have f: "getf (fields_of ?p) ''id'' = JStr POC_POLICY_ID" "getf (fields_of ?p) ''generation'' = jint 1"
    "getf (fields_of ?p) ''digest'' = JStr zeros"
    using registered_context [OF sample_escalated] by (simp_all add: diff_policy_def Let_def sample_workbench_def)
  have "\<exists>b. deriveAuthoritativeBusinessDiff sample_rt sample_order sample_snapshot ?p = Inr b"
    unfolding deriveAuthoritativeBusinessDiff_def Let_def f
    using sample_snapshot_valid k by (simp add: isGeneration_def max_safe_def POC_POLICY_ID_def)
  then obtain core where "proposalCore sample_rt sample_workbench (sample_decision ORDER_KIND) sample_snapshot = Inr core"
    unfolding proposalCore_def Let_def sample_order_planned by auto
  then show ?thesis by (simp add: sample_core_def)
qed

definition sample_proposal :: js where
  "sample_proposal = proposal_of sample_rt sample_core"

lemmas sample_proposal_fields = proposal_fields [OF sample_core_made, folded sample_proposal_def]

lemma sample_proposal_facts:
  "getf (fields_of sample_proposal) ''action'' = sample_order" "getf (fields_of sample_proposal) ''actor'' = JStr AGENT"
  "getf (fields_of sample_proposal) ''replayKey'' = JStr sample_key"
  "getf (fields_of sample_proposal) ''actionDigest'' = JStr zeros" "digest_key (sample_decision ORDER_KIND) = zeros"
  "getf (fields_of sample_proposal) ''requester'' = JStr APPROVAL_REQUESTER"
proof -
  note e = escalation_facts [OF registered_context(1) [OF sample_escalated]]
  show "getf (fields_of sample_proposal) ''action'' = sample_order" "getf (fields_of sample_proposal) ''actor'' = JStr AGENT"
    unfolding sample_proposal_fields sample_order_planned e(2) by simp_all
  show "getf (fields_of sample_proposal) ''replayKey'' = JStr sample_key"
    unfolding sample_proposal_fields sample_decision_def ai_answer_echo by (simp add: poc_request_def)
  show "getf (fields_of sample_proposal) ''actionDigest'' = JStr zeros"
    unfolding sample_proposal_fields using e(3) by (simp add: digest_is_def)
  show "digest_key (sample_decision ORDER_KIND) = zeros"
    unfolding digest_key_def sample_decision_def ai_answer_echo by simp
  show "getf (fields_of sample_proposal) ''requester'' = JStr APPROVAL_REQUESTER"
    unfolding sample_proposal_fields by (rule valid_snapshot_origin [OF sample_snapshot_valid])
qed

lemmas sample_proposal_valid = registered_valid [OF sample_escalated sample_snapshot_valid [folded sample_order_planned]
  sample_core_made sample_configs(2) sample_sha, folded sample_proposal_def]

definition workbench_of :: "workbench_store \<Rightarrow> string list \<Rightarrow> workbench" where
  "workbench_of st pending = \<lparr>wb_store = st, wb_pending = pending, wb_file = wb_store_file st\<rparr>"

definition empty_workbench :: workbench where
  "empty_workbench = \<lparr>wb_store = \<lparr>ws_proposals = [], ws_decisions = []\<rparr>, wb_pending = [], wb_file = NoFile\<rparr>"

definition proposed_store :: workbench_store where
  "proposed_store = \<lparr>ws_proposals = [(zeros, sample_proposal)], ws_decisions = []\<rparr>"

lemma zeros_own [simp]: "zeros \<notin> set OBJECT_MEMBERS"
proof
  assume "zeros \<in> set OBJECT_MEMBERS"
  then have "length zeros \<in> length ` set OBJECT_MEMBERS" by blast
  then show False by (simp add: zeros_def OBJECT_MEMBERS_def)
qed

lemma sample_registered:
  "register_end sample_rt sample_workbench True empty_workbench (sample_decision ORDER_KIND) (Inr sample_snapshot)
    = (workbench_of proposed_store [], Inr sample_proposal)"
  unfolding register_end_def sum.case sample_core_made sample_proposal_facts(5) sample_order_planned
  by (simp add: sample_snapshot_valid sample_snapshot_made(2) empty_workbench_def slot_def wb_persist_def workbench_of_def
    proposed_store_def wb_store_file_def trip_def sample_proposal_def proposal_of_def Let_def)

definition owner_yes :: owner_request where
  "owner_yes = \<lparr>oq_decisionDigest = JStr zeros, oq_ownerDecision = JStr ''APPROVE'', oq_ownerActor = JStr OWNER\<rparr>"

lemma sample_deciding:
  "decide_begin sample_rt sample_workbench (workbench_of proposed_store []) owner_yes
    = (workbench_of proposed_store [zeros], Inr sample_proposal)"
proof -
  have a: "OWNER \<noteq> AGENT" "OWNER \<noteq> APPROVAL_REQUESTER" by (simp_all add: OWNER_def AGENT_def APPROVAL_REQUESTER_def)
  show ?thesis
    unfolding decide_begin_def Let_def
    by (simp add: owner_yes_def OWNER_DECISIONS_def slot_def workbench_of_def proposed_store_def sample_proposal_valid
      sample_proposal_facts a)
qed

definition sample_owner :: owner_record where
  "sample_owner = (case snd (decide_end sample_rt sample_workbench (ownerAuthority sample_rt sample_gate) True (jint 1000)
     (workbench_of proposed_store [zeros]) owner_yes sample_proposal (Inr sample_snapshot)) of
       Inr x \<Rightarrow> x | Inl e \<Rightarrow> undefined)"

definition decided_store :: workbench_store where
  "decided_store = proposed_store\<lparr>ws_decisions := [(zeros, sample_owner)]\<rparr>"

lemma sample_snapshot_kept:
  "validSnapshot sample_rt (getf (fields_of sample_proposal) ''snapshot'') (getf (fields_of sample_proposal) ''action'')"
  "validSnapshot sample_rt sample_snapshot (getf (fields_of sample_proposal) ''action'')"
  "sameSnapshot sample_snapshot (getf (fields_of sample_proposal) ''snapshot'')"
  unfolding sample_proposal_fields sample_order_planned
  by (simp_all add: sample_snapshot_valid sameSnapshot_def)

lemma sample_period: "lease_period (jint 1000) (jint 61000)"
  by (simp add: lease_period_def MAX_LEASE_MS_def max_safe_def)

lemma sample_issued:
  "\<exists>rd. ownerAuthority sample_rt sample_gate sample_proposal (JStr rd) (jint 1000) (jint 61000) = Inr (or_authority sample_owner)"
  "decide_end sample_rt sample_workbench (ownerAuthority sample_rt sample_gate) True (jint 1000)
     (workbench_of proposed_store [zeros]) owner_yes sample_proposal (Inr sample_snapshot)
   = (workbench_of decided_store [], Inr sample_owner)"
proof -
  let ?e = "decide_end sample_rt sample_workbench (ownerAuthority sample_rt sample_gate) True (jint 1000)
     (workbench_of proposed_store [zeros]) owner_yes sample_proposal (Inr sample_snapshot)"
  have i: "\<forall>receipt. hex64 receipt \<longrightarrow> (\<exists>a. ownerAuthority sample_rt sample_gate sample_proposal (JStr receipt) (jint 1000)
      (jint (int_of_js (jint 1000) + wc_leaseTtlMs sample_workbench)) = Inr a)"
    using order_issued [OF sample_decided(2) sample_escalated sample_snapshot_valid [folded sample_order_planned]
      sample_core_made sample_configs(3) sample_sha _ sample_period]
    by (simp add: sample_proposal_def sample_workbench_def)
  have t: "isTime (jint 1000)" by (simp add: isTime_def max_safe_def)
  have a: "oq_ownerDecision owner_yes = JStr ''APPROVE''" by (simp add: owner_yes_def)
  obtain x rd where x: "snd ?e = Inr x" "ownerAuthority sample_rt sample_gate sample_proposal (JStr rd) (jint 1000)
      (jint (int_of_js (jint 1000) + wc_leaseTtlMs sample_workbench)) = Inr (or_authority x)"
    using approval_issued [where issue = "ownerAuthority sample_rt sample_gate" and now = "jint 1000"
      and wcfg = sample_workbench and q = owner_yes, OF sample_snapshot_kept a t i sample_sha] by blast
  have o: "sample_owner = x" by (simp add: sample_owner_def x(1))
  show "\<exists>rd. ownerAuthority sample_rt sample_gate sample_proposal (JStr rd) (jint 1000) (jint 61000) = Inr (or_authority sample_owner)"
    using x(2) unfolding o by (auto simp: sample_workbench_def)
  obtain w where w: "?e = (w, Inr x)" using x(1) by (metis prod.collapse)
  have "w = workbench_of decided_store []"
    using w unfolding decide_end_def Let_def
    by (auto simp: unpend_def workbench_of_def proposed_store_def decided_store_def o owner_yes_def wb_persist_def put_key_def
      wb_store_file_def trip_def split: sum.splits if_splits)
  then show "?e = (workbench_of decided_store [], Inr sample_owner)" using w o by simp
qed

lemma sample_workbench_reach:
  "wb_reach sample_rt (ownerAuthority sample_rt sample_gate) \<lparr>wy_cfg = sample_workbench,
     wy_workbench = workbench_of decided_store [], wy_calls = [Done, Done], wy_log = [(zeros, sample_owner)]\<rparr>"
proof -
  let ?i = "ownerAuthority sample_rt sample_gate" and ?d = "sample_decision ORDER_KIND"
  let ?s = "\<lambda>w cs log. \<lparr>wy_cfg = sample_workbench, wy_workbench = w, wy_calls = cs, wy_log = log\<rparr>"
  have n: "new_workbench sample_rt sample_workbench NoFile = Inr empty_workbench"
    using sample_configs(2) by (simp add: new_workbench_def empty_workbench_def)
  have a: "wb_step sample_rt ?i (?s empty_workbench [] []) (?s empty_workbench [Registering ?d] [])"
    using step_register [of sample_rt "?s empty_workbench [] []" ?d ?i] sample_escalated by simp
  have b: "wb_step sample_rt ?i (?s empty_workbench [Registering ?d] []) (?s (workbench_of proposed_store []) [Done] [])"
    using step_registered [of 0 "?s empty_workbench [Registering ?d] []" ?d sample_rt True "Inr sample_snapshot"]
      sample_registered by simp
  have c: "wb_step sample_rt ?i (?s (workbench_of proposed_store []) [Done] [])
      (?s (workbench_of proposed_store [zeros]) [Done, Deciding owner_yes sample_proposal] [])"
    using step_decide [of sample_rt "?s (workbench_of proposed_store []) [Done] []" owner_yes _ sample_proposal ?i]
      sample_deciding by simp
  have d: "wb_step sample_rt ?i (?s (workbench_of proposed_store [zeros]) [Done, Deciding owner_yes sample_proposal] [])
      (?s (workbench_of decided_store []) [Done, Done] [(zeros, sample_owner)])"
    using step_decided [of 1 "?s (workbench_of proposed_store [zeros]) [Done, Deciding owner_yes sample_proposal] []"
      owner_yes sample_proposal sample_rt ?i True "jint 1000" "Inr sample_snapshot"] sample_issued(2)
    by (simp add: answered_def decision_key_def owner_yes_def)
  note r = rtranclp.rtrancl_into_rtrancl [of "wb_step sample_rt ?i"]
  have "(wb_step sample_rt ?i)\<^sup>*\<^sup>* (?s empty_workbench [] [])
      (?s (workbench_of decided_store []) [Done, Done] [(zeros, sample_owner)])"
    by (rule r [OF r [OF r [OF r [OF rtranclp.rtrancl_refl a] b] c] d])
  with n show ?thesis unfolding wb_reach_def by blast
qed

subsection \<open>The order at the gate\<close>

definition order_call :: effect_call where
  "order_call = \<lparr>ec_action = sample_order, ec_digest = zeros, ec_approval = JUndef,
     ec_authority = or_authority sample_owner, ec_ownerLease = True\<rparr>"

definition sample_envelope :: js where
  "sample_envelope = order_envelope sample_proposal (or_authority sample_owner)"

lemma sample_authority_fields:
  "getf (fields_of (or_authority sample_owner)) ''kind'' = JStr OWNER_KIND"
  "getf (fields_of (or_authority sample_owner)) ''policyId'' = JStr POC_POLICY_ID"
  "getf (fields_of (or_authority sample_owner)) ''policyGeneration'' = jint 1"
  "getf (fields_of (or_authority sample_owner)) ''policyDigest'' = JStr zeros"
  "getf (fields_of (or_authority sample_owner)) ''leaseId'' = JStr zeros"
  "getf (fields_of (or_authority sample_owner)) ''snapshotDigest'' = getf (fields_of sample_snapshot) ''snapshotDigest''"
  "getf (fields_of (or_authority sample_owner)) ''snapshotVersion'' = getf (fields_of sample_snapshot) ''version''"
proof -
  obtain rd where a: "ownerAuthority sample_rt sample_gate sample_proposal (JStr rd) (jint 1000) (jint 61000) = Inr (or_authority sample_owner)"
    using sample_issued(1) by blast
  have c: "getf (fields_of (sample_decision ORDER_KIND)) ''policyDigest'' = JStr zeros"
    "getf (fields_of (sample_decision ORDER_KIND)) ''policyGeneration'' = jint 1"
    "getf (fields_of (sample_decision ORDER_KIND)) ''policyId'' = JStr POC_POLICY_ID"
    using registered_context [OF sample_escalated] by (simp_all add: sample_workbench_def)
  show "getf (fields_of (or_authority sample_owner)) ''kind'' = JStr OWNER_KIND"
    "getf (fields_of (or_authority sample_owner)) ''policyId'' = JStr POC_POLICY_ID"
    "getf (fields_of (or_authority sample_owner)) ''policyGeneration'' = jint 1"
    "getf (fields_of (or_authority sample_owner)) ''policyDigest'' = JStr zeros"
    "getf (fields_of (or_authority sample_owner)) ''leaseId'' = JStr zeros"
    "getf (fields_of (or_authority sample_owner)) ''snapshotDigest'' = getf (fields_of sample_snapshot) ''snapshotDigest''"
    "getf (fields_of (or_authority sample_owner)) ''snapshotVersion'' = getf (fields_of sample_snapshot) ''version''"
    unfolding issued_fields [OF a] sample_proposal_fields c by (simp_all add: lease_id_def)
qed

lemma sample_hmac: "hex64 (hmac sample_rt k t)"
  by simp

lemma sample_guarded:
  assumes "1000 \<le> now" "now < 61000"
  shows "execute_guard sample_rt sample_gate (jint now) sample_http sample_envelope = Inr order_call"
proof -
  obtain rd where a: "ownerAuthority sample_rt sample_gate sample_proposal (JStr rd) (jint 1000) (jint 61000) = Inr (or_authority sample_owner)"
    using sample_issued(1) by blast
  have n: "is_safe_integer (jint now)" using assms by (simp add: max_safe_def)
  have "\<exists>c. execute_guard sample_rt sample_gate (jint now) sample_http sample_envelope = Inr c"
    unfolding sample_envelope_def
    using order_guarded [OF a sample_proposal_facts(1) [unfolded sample_order_def] sample_proposal_facts(2,3) _ sample_key_ok
      sample_hmac n sample_authorized] sample_proposal_facts(4) assms by simp
  then obtain c where c: "execute_guard sample_rt sample_gate (jint now) sample_http sample_envelope = Inr c" by blast
  note p = execute_guard_presented [OF c, unfolded sample_envelope_def order_envelope_fields sample_proposal_facts(1)
    sample_authority_fields(1), simplified]
  have u: "getf (fields_of (order_envelope sample_proposal x)) ''approval'' = JUndef" for x
    by (simp add: order_envelope_def Let_def)
  have "ec_approval c = getf (fields_of sample_envelope) ''approval''"
    using c [unfolded execute_guard_def Let_def] by (auto simp: res_simps split: if_splits)
  with p execute_guard_common(4) [OF c] u have "c = order_call"
    by (simp add: order_call_def sample_envelope_def)
  with c show ?thesis by simp
qed

lemma order_call_simps:
  "ec_key order_call = sample_key" "ec_lease order_call = zeros" "ec_agent order_call" "ec_ownerLease order_call"
  "use_of order_call = demo_use"
proof -
  show "ec_key order_call = sample_key" "ec_agent order_call" "ec_ownerLease order_call"
    by (simp_all add: ec_key_def ec_agent_def order_call_def sample_order_def agent_action_fields)
  show "ec_lease order_call = zeros"
    by (simp add: ec_lease_def order_call_def sample_authority_fields)
  show "use_of order_call = demo_use"
    by (simp add: use_of_def Let_def order_call_def sample_authority_fields demo_use_def sample_order_def orderAction_def fld2_def
      POC_TENANT_def RUNTIME_TENANT_def)
qed

lemma sample_key_own [simp]: "sample_key \<notin> set OBJECT_MEMBERS"
  by (simp add: sample_key_def OBJECT_MEMBERS_def)

definition sample_file :: json_file where
  "sample_file = store_file (reserved_store EMPTY_STORE order_call (jint 2000))"

definition reserved_gate :: gate where
  "reserved_gate = \<lparr>gate_store = reserved_store EMPTY_STORE order_call (jint 2000), gate_file = sample_file\<rparr>"

definition fresh_gate :: gate where
  "fresh_gate = \<lparr>gate_store = EMPTY_STORE, gate_file = NoFile\<rparr>"

lemma sample_begun:
  "execute_begin sample_rt sample_gate (fenceToken demo_cfg) (jint 1500) sample_http sample_envelope EMPTY_STORE (fst demo_switch)
    = (fst demo_switch, Inr (order_call, AwaitSnapshot))"
proof -
  have "policy_use (base_rt lc_rt) (fenceToken demo_cfg) (fst demo_switch) order_call = (fst demo_switch, Inr ())"
    by (simp add: policy_use_def order_call_simps demo_fence_use)
  moreover have "execute_branch sample_rt sample_gate EMPTY_STORE order_call = AwaitSnapshot"
    by (simp add: execute_branch_def replay_checks_def order_call_simps EMPTY_STORE_def slot_def sample_gate_def)
  ultimately show ?thesis by (simp add: execute_begin_def sample_guarded)
qed

lemma sample_reserved:
  "execute_reserve sample_rt True (jint 2000) fresh_gate order_call (Gave sample_snapshot) = (reserved_gate, Inr ())"
proof -
  have c: "ec_action order_call = sample_order" "ec_authority order_call = or_authority sample_owner"
    by (simp_all add: order_call_def)
  have r: "replay_checks EMPTY_STORE order_call = Inr ()"
    by (simp add: replay_checks_def order_call_simps EMPTY_STORE_def slot_def)
  show ?thesis
    unfolding execute_reserve_def Let_def reply.case c sample_authority_fields
    by (simp add: sample_snapshot_valid fresh_gate_def r gate_persist_def reserved_gate_def sample_file_def store_file_def)
qed

definition sample_system :: "gate \<Rightarrow> (effect_call \<times> stage) list \<Rightarrow> (gate_config \<times> effect_call \<times> js) list \<Rightarrow> gate_system" where
  "sample_system g calls log = \<lparr>gs_cfg = sample_gate, gs_gate = g, gs_fence = fst demo_switch, gs_calls = calls, gs_log = log\<rparr>"

lemma sample_fence_run: "fence_run (base_rt lc_rt) (fenceToken demo_cfg) (fst demo_switch) [ap_snapshot demo_active]"
proof -
  have "fence_activate (base_rt lc_rt) (fenceToken demo_cfg) True 1000 empty_fence
     (fence_candidate_js demo_candidate) demo_authorization = (fst demo_switch, Inr demo_active)"
    by (metis demo_switch_def demo_switch_pair)
  from fence_activated [OF fence_start this] show ?thesis by simp
qed

lemma sample_gate_reach:
  "gate_reach sample_rt (fenceToken demo_cfg)
    (sample_system reserved_gate [(order_call, Mutating)] [(sample_gate, order_call, sample_snapshot)])"
proof -
  let ?t = "fenceToken demo_cfg"
  have n: "new_gate sample_rt sample_gate NoFile = Inr fresh_gate"
    by (simp add: new_gate_def sample_configs(1) fresh_gate_def res_simps)
  have a: "gate_step sample_rt ?t (sample_system fresh_gate [] []) (sample_system fresh_gate [(order_call, Reading)] [])"
    using step_begin [of sample_rt "sample_system fresh_gate [] []" ?t "jint 1500" sample_http sample_envelope] sample_begun
    by (simp add: sample_system_def launch_def fresh_gate_def)
  have b: "gate_step sample_rt ?t (sample_system fresh_gate [(order_call, Reading)] [])
      (sample_system reserved_gate [(order_call, Mutating)] [(sample_gate, order_call, sample_snapshot)])"
    using step_reserve [of 0 "sample_system fresh_gate [(order_call, Reading)] []" order_call sample_rt True "jint 2000"
      "Gave sample_snapshot"] sample_reserved
    by (simp add: sample_system_def released_def snapshot_of_reply_def)
  note r = rtranclp.rtrancl_into_rtrancl [of "gate_step sample_rt ?t"]
  have "(gate_step sample_rt ?t)\<^sup>*\<^sup>* (sample_system fresh_gate [] [])
      (sample_system reserved_gate [(order_call, Mutating)] [(sample_gate, order_call, sample_snapshot)])"
    by (rule r [OF r [OF rtranclp.rtrancl_refl a] b])
  then show ?thesis
    unfolding gate_reach_def using n sample_fence_run by (auto simp: sample_system_def)
qed

end
