(* ===== verification/GateLaws.thy ===== *)
theory GateLaws
  imports GateSamples
begin

text \<open>
  The properties of the gate, of the handler of the agent and of the approval workbench.
\<close>

lemma used_lease_denied:
  assumes "ec_ownerLease c" "replay_checks (gate_store g) c = Inl e"
  shows "execute_branch rt cfg (gate_store g) c = Denied e" "\<exists>e. execute_reserve rt wr now g c a = (g, Inl e)"
proof -
  show "execute_branch rt cfg (gate_store g) c = Denied e" using assms by (simp add: execute_branch_def)
  obtain g' r where e: "execute_reserve rt wr now g c a = (g', r)" by fastforce
  then show "\<exists>e. execute_reserve rt wr now g c a = (g, Inl e)"
    by (cases rule: execute_reserve_cases) (use assms(2) e in auto)
qed

lemma replay_checks_used:
  assumes "ec_lease c \<in> used_leases g \<or> ec_key c \<in> used_keys g"
  shows "\<exists>e. replay_checks (gate_store g) c = Inl e"
proof -
  have "slot (st_leases (gate_store g)) (ec_lease c) \<noteq> Absent \<or> slot (st_reservations (gate_store g)) (ec_key c) \<noteq> Absent"
  proof (rule ccontr)
    assume "\<not> ?thesis"
    then have "map_of (st_leases (gate_store g)) (ec_lease c) = None" "map_of (st_reservations (gate_store g)) (ec_key c) = None"
      using slot_Absent by metis+
    with assms show False by (simp add: used_leases_def used_keys_def map_of_eq_None_iff)
  qed
  then show ?thesis by (auto simp: replay_checks_def)
qed

text \<open>
  C5: Over any interleaving of calls, failed writes, kills and restarts, no owner lease is used for two mutations, and no
  two mutations under owner leases have the same replay key. A later call under an owner lease, whose lease or replay key
  a mutation under an owner lease has used, is denied before and after the snapshot is read, and nothing changes. (Direct
  calls, the installer's and the contacts, take no lease and make no reservation: two that overlap can both mutate
  under one replay key, as \<open>direct_calls_race\<close> shows. What protects their keys is the subject of C23.)
\<close>

theorem leases_used_once:
  assumes "gate_reach rt token s"
  shows "distinct (map ec_lease (owner_calls (gs_log s))) \<and> distinct (map ec_key (owner_calls (gs_log s)))
    \<and> (\<forall>c \<in> set (owner_calls (gs_log s)). \<forall>c'. ec_ownerLease c' \<and> (ec_lease c' = ec_lease c \<or> ec_key c' = ec_key c) \<longrightarrow>
         (\<exists>e. execute_branch rt cfg (gate_store (gs_gate s)) c' = Denied e)
         \<and> (\<exists>e. execute_reserve rt wr now (gs_gate s) c' a = (gs_gate s, Inl e)))"
proof -
  let ?g = "gs_gate s" and ?o = "owner_calls (gs_log s)"
  have h: "lease_journal.holds (map ec_lease ?o) (gate_store ?g) (gate_file ?g)"
    "key_journal.holds (map ec_key ?o) (gate_store ?g) (gate_file ?g)"
    using gate_reach_lease_inv [OF assms] by (simp_all add: lease_inv_def lease_ok_def)
  note d = lease_journal.holds_distinct [OF h(1)] key_journal.holds_distinct [OF h(2)]
  have "(\<exists>e. execute_branch rt cfg (gate_store ?g) c' = Denied e) \<and> (\<exists>e. execute_reserve rt wr now ?g c' a = (?g, Inl e))"
    if "c \<in> set ?o" "ec_ownerLease c'" "ec_lease c' = ec_lease c \<or> ec_key c' = ec_key c" for c c'
  proof -
    have "ec_lease c' \<in> used_leases ?g \<or> ec_key c' \<in> used_keys ?g"
      using that(1,3) lease_journal.holds_known [OF h(1)] key_journal.holds_known [OF h(2)] by (auto simp: used_simps)
    from replay_checks_used [OF this] used_lease_denied [OF that(2)] show ?thesis by blast
  qed
  with d show ?thesis by blast
qed

theorem leases_used_once_witness:
  "gate_reach sample_rt (fenceToken demo_cfg)
     (sample_system reserved_gate [(order_call, Mutating)] [(sample_gate, order_call, sample_snapshot)])
   \<and> (\<exists>e. execute_branch sample_rt sample_gate (gate_store reserved_gate) order_call = Denied e)"
  using leases_used_once [OF sample_gate_reach, of sample_gate] sample_gate_reach order_call_simps(4)
  by (auto simp: sample_system_def owner_calls_def)

text \<open>
  C7: Whatever mutation the gate asks a provider for was authorised: the installer's by an approval that binds it, the
  agent's contact by an authority of the gate, its order by an owner lease; each binds the action and its replay key.
  An agent's action presented the policy generation of a snapshot the fence activated, and an order was released
  over a valid snapshot of the provider that is the one its owner saw.
\<close>

theorem mutations_authorised:
  assumes "gate_reach rt token s"
  shows "\<exists>ss. fence_run (runtime.truncate rt) token (gs_fence s) ss
    \<and> (\<forall>(cfg, c, v) \<in> set (gs_log s). authorised rt cfg c \<and> (ec_agent c \<longrightarrow> (\<exists>x \<in> set ss. presents c x))
         \<and> (ec_ownerLease c \<longrightarrow> snapshot_fresh rt c v))"
  using gate_reach_passed [OF assms] unfolding passed_inv_def call_passed_def by fast

theorem mutations_authorised_witness:
  "gate_reach sample_rt (fenceToken demo_cfg)
     (sample_system reserved_gate [(order_call, Mutating)] [(sample_gate, order_call, sample_snapshot)])
   \<and> authorised sample_rt sample_gate order_call \<and> snapshot_fresh sample_rt order_call sample_snapshot"
  using mutations_authorised [OF sample_gate_reach] sample_gate_reach order_call_simps(4)
  by (auto simp: sample_system_def)

text \<open>
  C10: Where a lease's mutation succeeded, its readback is accepted and the gate's store was one it can read: if the
  result can be written, it is answered and the gate can be started from the file. If that write fails and the next,
  which marks the key as ambiguous, succeeds, no gate starts from the file again. If both fail, the file is as it was.
\<close>

theorem completion_and_restart:
  assumes "execute_guard rt cfg now request envelope = Inr c" "ec_ownerLease c" "plain (ec_action c)" "plain (ec_authority c)"
    "loadable rt (gate_store g)" "map_of (st_reservations (gate_store g)) (ec_key c) = Some r"
    "effect_of rt c v readback = Inr x" "plain v" "plain readback" "\<And>t. hex64 (sha rt t)" "gate_config_valid cfg' = Inr ()"
  shows "(\<exists>g'. execute_finish rt True w2 g c v (Gave readback) = (g', Inr (answer_js False x))
      \<and> (\<exists>g2. new_gate rt cfg' (gate_file g') = Inr g2))
    \<and> (\<exists>g'. execute_finish rt False True g c v (Gave readback) = (g', Inl WRITE_ERROR)
      \<and> \<not> (\<exists>g2. new_gate rt cfg' (gate_file g') = Inr g2))
    \<and> (\<exists>g'. execute_finish rt False False g c v (Gave readback) = (g', Inl WRITE_ERROR) \<and> gate_file g' = gate_file g)"
proof -
  note p = lease_receipt_plain [OF assms(1-4,7)]
  obtain k where k: "getf (fields_of (ec_action c)) ''replayKey'' = JStr k" using p(2) by blast
  have v: "effect_valid rt (ec_key c) (trip (effect_js x))"
    by (rule effect_sealed [OF assms(7) p(1) assms(8,9) k assms(10)])
  have n: "(\<exists>g2. new_gate rt cfg' (store_file (completed (gate_store g) c x s)) = Inr g2) \<longleftrightarrow> s = APPLIED" for s
    by (simp only: new_gate_own [OF assms(11)] completed_loadable [OF assms(5,6) v])
  show ?thesis
    unfolding finish_writes [OF assms(2,6,7)] using n [of APPLIED] n [of AMBIGUOUS] by simp
qed

definition order_readback :: js where
  "order_readback = obj [(''id'', jint 41), (''ref_client'', JStr ORDER_REFERENCE), (''socid'', jint ORDER_CUSTOMER),
     (''date'', jint ORDER_DATE)]"

lemma order_completed: "\<exists>x. effect_of sample_rt order_call (jint 41) order_readback = Inr x"
proof -
  have "validateSemanticReadback sample_rt (ec_action order_call) order_readback"
    by (simp add: validateSemanticReadback_def Let_def order_call_def sample_order_def orderAction_def fld2_def
      order_readback_def js_number_def coalesce_def)
  then show ?thesis
    by (simp add: effect_of_def Let_def) (simp add: order_readback_def reference_of_def coalesce_def)
qed

lemma order_plain: "plain (ec_action order_call)" "plain (ec_authority order_call)"
proof -
  show a: "plain (ec_action order_call)" by (simp add: order_call_def sample_order_def orderAction_def)
  obtain rd where i: "ownerAuthority sample_rt sample_gate sample_proposal (JStr rd) (jint 1000) (jint 61000) = Inr (or_authority sample_owner)"
    using sample_issued(1) by blast
  have s: "plain (fld2 sample_proposal ''action'' ''scope'')"
    by (simp add: fld2_def sample_proposal_facts(1) sample_order_def orderAction_def)
  obtain d1 d2 where d: "getf (fields_of sample_snapshot) ''snapshotDigest'' = JStr d1"
    "getf (fields_of sample_snapshot) ''version'' = JStr d2" using valid_snapshot_digests [OF sample_snapshot_valid] by metis
  obtain t where t: "getf (fields_of (sample_decision ORDER_KIND)) ''decisionDigest'' = JStr t"
    using escalation_facts(4) [OF registered_context(1) [OF sample_escalated]] by blast
  note c = registered_context(2-4) [OF sample_escalated]
  have "plain (obj (owner_unsigned sample_proposal (JStr rd) (jint 1000) (jint 61000)))"
    unfolding owner_unsigned_def Let_def sample_proposal_facts(2-4,6)
    unfolding sample_proposal_fields c d t valid_snapshot_origin [OF sample_snapshot_valid]
    using s by simp
  then show "plain (ec_authority order_call)"
    using owner_authority_fields(1) [OF i] by (simp add: order_call_def)
qed

lemma reserved_loadable: "loadable sample_rt (gate_store reserved_gate)"
proof -
  let ?st = "gate_store reserved_gate"
  let ?l = "\<lparr>cl_actionDigest = JStr zeros, cl_replayKey = JStr sample_key, cl_reservedAtMs = jint 2000\<rparr>"
  have c: "ec_digest order_call = zeros" "getf (fields_of (ec_authority order_call)) ''leaseId'' = JStr zeros"
    by (simp_all add: order_call_def sample_authority_fields)
  have e: "st_effects ?st = []" "st_leases ?st = [(zeros, ?l)]"
    "st_reservations ?st = [(sample_key, \<lparr>rv_actionDigest = JStr zeros, rv_leaseId = JStr zeros, rv_reservedAtMs = jint 2000,
       rv_status = EXECUTING\<rparr>)]"
    by (simp_all add: reserved_gate_def reserved_store_def EMPTY_STORE_def put_key_def order_call_simps c)
  have t: "trip (consumed_lease_js ?l) = obj [(''actionDigest'', JStr zeros), (''replayKey'', JStr sample_key), (''reservedAtMs'', jint 2000)]"
    by (simp add: trip_def consumed_lease_js_def)
  have k: "gateKeys (obj [(''actionDigest'', JStr zeros), (''replayKey'', JStr sample_key), (''reservedAtMs'', jint 2000)])
      [''actionDigest'', ''replayKey'', ''reservedAtMs'']"
    unfolding gateKeys_exact by (rule exactKeys_mset) simp
  have s: "slot ([] :: (string \<times> effect) list) sample_key = Absent" by (simp add: slot_def)
  show ?thesis
    unfolding loadable_iff e
    by (simp add: reservation_rest_def lease_fine_def lease_valid_def t k s max_safe_def)
qed

theorem completion_and_restart_witness:
  "\<exists>x g'. effect_of sample_rt order_call (jint 41) order_readback = Inr x
     \<and> execute_finish sample_rt True True reserved_gate order_call (jint 41) (Gave order_readback) = (g', Inr (answer_js False x))
     \<and> (\<exists>g2. new_gate sample_rt sample_gate (gate_file g') = Inr g2)"
proof -
  obtain x where x: "effect_of sample_rt order_call (jint 41) order_readback = Inr x" using order_completed by blast
  have g: "execute_guard sample_rt sample_gate (jint 1500) sample_http sample_envelope = Inr order_call"
    by (rule sample_guarded) simp_all
  have r: "map_of (st_reservations (gate_store reserved_gate)) (ec_key order_call) =
      Some \<lparr>rv_actionDigest = JStr zeros, rv_leaseId = JStr zeros, rv_reservedAtMs = jint 2000, rv_status = EXECUTING\<rparr>"
    by (simp add: reserved_gate_def reserved_store_def EMPTY_STORE_def put_key_def order_call_simps order_call_def
      sample_authority_fields)
  have p: "plain (jint 41)" "plain order_readback" by (simp_all add: order_readback_def)
  from completion_and_restart [OF g order_call_simps(4) order_plain reserved_loadable r x p _ sample_configs(1)] x
  show ?thesis by auto
qed

lemma granted_contact_guarded:
  assumes "ai_decide rt ai request = Inr d" "getf (fields_of d) ''outcome'' = JStr ''AUTO_GRANT''"
    "aa_sign ai = agentAuthority rt cfg" "getf (fields_of (aa_context ai)) ''policyId'' = JStr POC_POLICY_ID"
    "getf (fields_of (aa_context ai)) ''policyGeneration'' = jint (gc_policyGeneration cfg)"
    "gc_policyDigest cfg = Some (aa_policyDigest ai)" "hex64 (aa_policyDigest ai)"
    "\<And>t. hex64 (sha rt t)" "\<And>k t. hex64 (hmac rt k t)"
    "authorizeLocalRequest rt (gc_apiToken cfg) (gc_expectedOrigin cfg) True http = Inr ()"
  shows "\<exists>c. execute_guard rt cfg now http (contact_envelope rt (getf (fields_of d) ''action'') (getf (fields_of d) ''authority'')) = Inr c
    \<and> ec_action c = contactAction (getf (fields_of request) ''replayKey'') \<and> \<not> ec_ownerLease c
    \<and> ub_policyGeneration (use_of c) = jint (gc_policyGeneration cfg)"
proof -
  have g: "good_sha rt" using assms(8) by (simp add: good_sha_def)
  obtain answer where a: "d = ai_answer rt ai request answer" using decided_answer [OF assms(1)] by blast
  obtain dd where dd: "getf (fields_of d) ''decisionDigest'' = JStr dd" "hex64 dd"
    unfolding a ai_answer_echo using good_digest [OF g] by blast
  obtain outcome where o: "validateRequest request" "getf (fields_of d) ''outcome'' = JStr outcome"
    "outcome \<in> set POLICY_OUTCOMES" "rule_of request = 2 \<longrightarrow> outcome = ''DENY''" "rule_of request = 1 \<longrightarrow> outcome \<noteq> ''AUTO_GRANT''"
    "getf (fields_of d) ''action'' = (if outcome = ''DENY'' then JNull else plannedAction request)"
    "getf (fields_of d) ''authority'' = (if outcome = ''AUTO_GRANT''
       then aa_sign ai (authority_request ai (plannedAction request) (JStr (json_digest rt (plannedAction request)))
         (getf (fields_of d) ''decisionDigest'')) else JNull)"
    by (rule ai_decide_Inr [OF assms(1)]) (rule that)
  obtain kind k where k: "getf (fields_of request) ''replayKey'' = JStr k" "rx_test AGENT_REPLAY_KEY k"
    using valid_request [OF o(1)] by metis
  have out: "outcome = ''AUTO_GRANT''" using o(2) assms(2) by simp
  then have p: "plannedAction request = contactAction (JStr k)" using planned_cases [of request] o(4,5) k(1) by auto
  define f where "f = authority_request ai (contactAction (JStr k)) (JStr (json_digest rt (contactAction (JStr k)))) (JStr dd)"
  have d: "getf (fields_of d) ''action'' = contactAction (JStr k)" "getf (fields_of d) ''authority'' = agentAuthority rt cfg f"
    using o(6,7) by (simp_all add: out p dd assms(3) f_def)
  let ?env = "contact_envelope rt (contactAction (JStr k)) (agentAuthority rt cfg f)"
  have v: "validateAgentAuthority rt cfg (agentAuthority rt cfg f) (contactAction (JStr k)) (json_digest rt (contactAction (JStr k)))"
    by (rule agent_authority_valid [OF f_def g assms(9) dd(2) assms(4-7)])
  have e: "execute_guard rt cfg now http ?env = Inr \<lparr>ec_action = contactAction (JStr k),
      ec_digest = json_digest rt (contactAction (JStr k)), ec_approval = getf (fields_of ?env) ''approval'',
      ec_authority = agentAuthority rt cfg f, ec_ownerLease = False\<rparr>"
    by (rule agent_guard [OF assms(10) k(2)]) (use v in \<open>simp_all add: contact_envelope_def agent_authority_fields\<close>)
  have u: "af_policyGeneration f = jint (gc_policyGeneration cfg)" by (simp add: f_def authority_request_def Let_def assms(5))
  show ?thesis
    unfolding d e by (simp add: k(1) use_of_def Let_def agent_authority_fields u)
qed

lemma contact_granted: "getf (fields_of (sample_decision CONTACT_KIND)) ''outcome'' = JStr ''AUTO_GRANT''"
  by (simp add: sample_decision_def ai_answer_def ai_core_def Let_def static_decision_def sealed_decision_fields
    static_outcome_def sample_kinds(1) CLOSED_RULES_def)

lemma sample_wiring:
  "getf (fields_of (aa_context sample_ai)) ''policyGeneration'' = jint (gc_policyGeneration sample_gate)"
  "gc_policyDigest sample_gate = Some (aa_policyDigest sample_ai)" "hex64 (aa_policyDigest sample_ai)"
  by (simp_all add: sample_context sample_gate_def)

lemma sample_digests: "hex64 (sha sample_rt t)"
  by simp

lemmas sample_granted = granted_contact_guarded [OF sample_decided(1) contact_granted sample_context(4,2) sample_wiring
  sample_digests sample_hmac sample_authorized]

definition contact_readback :: js where
  "contact_readback = obj ((''id'', JStr ''c1'') # fields_of (fld2 (contactAction (JStr sample_key)) ''payload'' ''body''))"

lemma contact_completed:
  assumes "ec_action c = contactAction (JStr sample_key)" "\<not> ec_ownerLease c"
  shows "\<exists>g' a. execute_finish sample_rt True True fresh_gate c (jint 7) (Gave contact_readback) = (g', Inr a)"
proof -
  have "validateSemanticReadback sample_rt (ec_action c) contact_readback"
    by (simp add: assms(1) validateSemanticReadback_def Let_def contact_readback_def contactAction_def fld2_def CONTACT_FIELDS_def)
  moreover have "is_record contact_readback" "stringifiable (reference_of contact_readback (jint 7))"
    by (simp_all add: contact_readback_def reference_of_def coalesce_def)
  ultimately have "\<exists>x. effect_of sample_rt c (jint 7) contact_readback = Inr x" by (simp add: effect_of_def Let_def)
  then show ?thesis using assms(2) by (auto simp: execute_finish_def Let_def gate_persist_def)
qed

text \<open>
  Direct effects have no reservation: two overlapping calls with one replay key both ask for the mutation.
\<close>

lemma contact_use: "\<exists>c. execute_guard sample_rt sample_gate (jint 1500) sample_http (contact_envelope sample_rt
    (getf (fields_of (sample_decision CONTACT_KIND)) ''action'') (getf (fields_of (sample_decision CONTACT_KIND)) ''authority'')) = Inr c
  \<and> ec_agent c \<and> \<not> ec_ownerLease c \<and> ec_key c = sample_key \<and> use_of c = demo_use
  \<and> ec_action c = contactAction (JStr sample_key)"
proof -
  let ?d = "sample_decision CONTACT_KIND" and ?r = "poc_request CONTACT_KIND"
  have k: "getf (fields_of ?r) ''replayKey'' = JStr sample_key" by (simp add: poc_request_def)
  obtain c where c: "execute_guard sample_rt sample_gate (jint 1500) sample_http (contact_envelope sample_rt
       (getf (fields_of ?d) ''action'') (getf (fields_of ?d) ''authority'')) = Inr c"
    "ec_action c = contactAction (JStr sample_key)" "\<not> ec_ownerLease c"
    using sample_granted [of "jint 1500"] k by auto
  have e: "ec_authority c = getf (fields_of ?d) ''authority''"
    using execute_guard_presented(2) [OF c(1)] by (simp add: contact_envelope_def)
  have o: "getf (fields_of (static_decision sample_rt sample_ai ?r)) ''outcome'' = JStr ''AUTO_GRANT''"
    by (simp add: static_decision_def sealed_decision_fields static_outcome_def sample_kinds(1) CLOSED_RULES_def)
  have p: "plannedAction ?r = contactAction (JStr sample_key)" by (simp add: plannedAction_def poc_request_def)
  have n: "''AUTO_GRANT'' = ''DENY'' \<or> plannedAction ?r \<noteq> JNull" by (simp add: p contactAction_def)
  have a: "\<exists>x y. getf (fields_of ?d) ''authority'' = agentAuthority sample_rt sample_gate (authority_request sample_ai x y
      (getf (fields_of ?d) ''decisionDigest''))"
    unfolding sample_decision_def ai_answer_fields(3) [OF o n] sample_context by auto
  have t: "fld2 (contactAction (JStr sample_key)) ''scope'' ''tenant'' = JStr POC_TENANT"
    by (simp add: contactAction_def fld2_def POC_TENANT_def RUNTIME_TENANT_def)
  have "use_of c = demo_use"
    using a unfolding use_of_def Let_def e c(2) t
    by (auto simp: agent_authority_fields authority_request_def Let_def sample_context demo_use_def)
  moreover have "ec_agent c" "ec_key c = sample_key" by (simp_all add: ec_agent_def ec_key_def c(2) agent_action_fields)
  ultimately show ?thesis using c by blast
qed

lemma contact_starts:
  obtains c where "ec_action c = contactAction (JStr sample_key)" "ec_agent c" "\<not> ec_ownerLease c" "ec_key c = sample_key"
    "\<exists>now request envelope. execute_guard sample_rt sample_gate now request envelope = Inr c"
    "\<And>cs log. gate_step sample_rt (fenceToken demo_cfg) (sample_system fresh_gate cs log)
      (sample_system fresh_gate (cs @ [(c, Mutating)]) (log @ [(sample_gate, c, JUndef)]))"
proof -
  let ?t = "fenceToken demo_cfg"
  let ?env = "contact_envelope sample_rt (getf (fields_of (sample_decision CONTACT_KIND)) ''action'')
    (getf (fields_of (sample_decision CONTACT_KIND)) ''authority'')"
  obtain c where c: "execute_guard sample_rt sample_gate (jint 1500) sample_http ?env = Inr c" "ec_agent c" "\<not> ec_ownerLease c"
    "ec_key c = sample_key" "use_of c = demo_use" "ec_action c = contactAction (JStr sample_key)" using contact_use by blast
  have "policy_use (base_rt lc_rt) ?t (fst demo_switch) c = (fst demo_switch, Inr ())"
    using c(2,5) by (simp add: policy_use_def demo_fence_use)
  moreover have "execute_branch sample_rt sample_gate EMPTY_STORE c = AwaitMutation"
    using c(3,4) by (simp add: execute_branch_def EMPTY_STORE_def slot_def)
  ultimately have b: "execute_begin sample_rt sample_gate ?t (jint 1500) sample_http ?env EMPTY_STORE (fst demo_switch)
      = (fst demo_switch, Inr (c, AwaitMutation))"
    using c(1) by (simp add: execute_begin_def)
  have s: "gate_step sample_rt ?t (sample_system fresh_gate cs log)
      (sample_system fresh_gate (cs @ [(c, Mutating)]) (log @ [(sample_gate, c, JUndef)]))" for cs log
    using step_begin [of sample_rt "sample_system fresh_gate cs log" ?t "jint 1500" sample_http ?env] b
    by (simp add: sample_system_def launch_def fresh_gate_def)
  show thesis by (rule that [OF c(6,2-4) _ s]) (use c(1) in blast)
qed

lemma sample_reach_start: "gate_reach sample_rt (fenceToken demo_cfg) (sample_system fresh_gate [] [])"
proof -
  have "new_gate sample_rt sample_gate NoFile = Inr fresh_gate"
    by (simp add: new_gate_def sample_configs(1) fresh_gate_def res_simps)
  then show ?thesis unfolding gate_reach_def using sample_fence_run by (auto simp: sample_system_def)
qed

lemma gate_reach_step: "gate_reach rt token s \<Longrightarrow> gate_step rt token s s' \<Longrightarrow> gate_reach rt token s'"
  unfolding gate_reach_def by (meson rtranclp.rtrancl_into_rtrancl)

lemma direct_calls_race:
  "\<exists>s c. gate_reach sample_rt (fenceToken demo_cfg) s \<and> map (fst \<circ> snd) (gs_log s) = [c, c] \<and> ec_key c = sample_key"
proof (rule contact_starts)
  fix c
  assume k: "ec_key c = sample_key"
    and s: "\<And>cs log. gate_step sample_rt (fenceToken demo_cfg) (sample_system fresh_gate cs log)
      (sample_system fresh_gate (cs @ [(c, Mutating)]) (log @ [(sample_gate, c, JUndef)]))"
  from gate_reach_step [OF gate_reach_step [OF sample_reach_start s] s] k show ?thesis
    by (intro exI conjI) (auto simp: sample_system_def)
qed

text \<open>Every call in flight passed the guards of the gate it runs in.\<close>

definition guarded :: "gate_runtime \<Rightarrow> gate_system \<Rightarrow> bool" where
  "guarded rt s \<longleftrightarrow> (\<forall>(c, st) \<in> set (gs_calls s). \<exists>now request envelope. execute_guard rt (gs_cfg s) now request envelope = Inr c)"

lemma guarded_call: "guarded rt s \<Longrightarrow> i < length (gs_calls s) \<Longrightarrow> gs_calls s ! i = (c, st) \<Longrightarrow>
    \<exists>now request envelope. execute_guard rt (gs_cfg s) now request envelope = Inr c"
  unfolding guarded_def using nth_mem by fastforce

lemma guarded_update:
  assumes "guarded rt s" "i < length (gs_calls s)" "gs_calls s ! i = (c, st)"
    and "gs_cfg s' = gs_cfg s" "gs_calls s' = (gs_calls s)[i := (c, st')]"
  shows "guarded rt s'"
proof -
  have "set (gs_calls s') \<subseteq> insert (c, st') (set (gs_calls s))" unfolding assms(5) by (rule set_update_subset_insert)
  with guarded_call [OF assms(1-3)] assms(1,4) show ?thesis unfolding guarded_def by fastforce
qed

lemma guarded_launch:
  assumes "guarded rt s" "execute_begin rt (gs_cfg s) token now request envelope st w0 = (w, r)"
  shows "guarded rt (launch s w r)"
  using assms(2)
proof (cases rule: execute_begin_cases)
  case (begun c)
  then show ?thesis
    using assms(1) by (cases "execute_branch rt (gs_cfg s) st c") (auto simp: launch_def guarded_def)
qed (use assms(1) in \<open>simp add: launch_def guarded_def\<close>)

lemma guarded_step: "gate_step rt token s s' \<Longrightarrow> guarded rt s \<Longrightarrow> guarded rt s'"
proof (induction rule: gate_step.induct)
  case (step_begin s now request envelope w r)
  then show ?case by (blast intro: guarded_launch)
next
  case (step_reserve i s c writes now answer g r)
  show ?case
    by (cases r) (auto simp: released_def intro: guarded_update [OF step_reserve.prems step_reserve.hyps(1,2)])
next
  case (step_mutated i s c v)
  show ?case by (rule guarded_update [OF step_mutated.prems step_mutated.hyps(1,2)]) simp_all
next
  case (step_failed i s c writes e g r)
  show ?case by (rule guarded_update [OF step_failed.prems step_failed.hyps(1,2)]) simp_all
next
  case (step_finish i s c v writes1 writes2 answer g r)
  show ?case by (rule guarded_update [OF step_finish.prems step_finish.hyps(1,2)]) simp_all
qed (simp_all add: guarded_def)

lemma gate_reach_guarded:
  assumes "gate_reach rt token s"
  shows "guarded rt s"
proof -
  obtain s0 where "gs_calls s0 = []" "(gate_step rt token)\<^sup>*\<^sup>* s0 s"
    using assms unfolding gate_reach_def by (metis gate_system.select_convs(4))
  from this(2,1) show ?thesis by (induction rule: rtranclp_induct) (auto intro: guarded_step simp: guarded_def [of rt s0])
qed

text \<open>The receipt of an agent's direct call repeats its authority; what is read back from the file still does.\<close>

lemma agent_receipt_authority:
  assumes "effect_of rt c v readback = Inr x" "ec_agent c" "\<not> ec_ownerLease c"
    "validateAgentAuthority rt cfg (ec_authority c) (ec_action c) (ec_digest c)"
  shows "same_authority rt x (ec_authority c)" "same_authority rt (reread x) (ec_authority c)"
proof -
  let ?f = "getf (fields_of (ec_authority c))" and ?core = "receiptCore rt c v readback"
  let ?seal = "[(''receiptDigest'', JStr (json_digest rt (obj ?core)))]"
  have r: "ef_receipt x = obj (?core @ ?seal)"
    using assms(1) by (auto simp: effect_of_def Let_def split: if_splits)
  have "is_string (?f ''decisionDigest'')" "is_string (?f ''policyDigest'')" "?f ''policyId'' = JStr POC_POLICY_ID"
    "?f ''policyGeneration'' = jint (gc_policyGeneration cfg)"
    using assms(4) by (simp_all only: validateAgentAuthority_def Let_def)
  then obtain d e where s: "?f ''decisionDigest'' = JStr d" "?f ''policyDigest'' = JStr e" "?f ''policyId'' = JStr POC_POLICY_ID"
    "?f ''policyGeneration'' = jint (gc_policyGeneration cfg)" by (auto simp: is_string_iff)
  have g: "getf (?core @ ?seal) ''decisionDigest'' = JStr d" "getf (?core @ ?seal) ''policyDigest'' = JStr e"
    "getf (?core @ ?seal) ''policyId'' = JStr POC_POLICY_ID"
    "getf (?core @ ?seal) ''policyGeneration'' = jint (gc_policyGeneration cfg)"
    using assms(2) by (simp_all add: receiptCore_def authority_fields_def Let_def s)
  show "same_authority rt x (ec_authority c)" by (simp add: same_authority_def Let_def s r g)
  show "same_authority rt (reread x) (ec_authority c)"
    by (simp add: same_authority_def Let_def s reread_fields r getf_opt [OF g(1)] getf_opt [OF g(2)]
        getf_opt [OF g(3)] getf_opt [OF g(4)])
qed

lemma direct_finish:
  assumes "\<not> ec_ownerLease c" "execute_finish rt wr wr' g c v (Gave readback) = (g', Inr a)"
  obtains x where "effect_of rt c v readback = Inr x" "a = answer_js False x" "ef_actionDigest x = JStr (ec_digest c)"
    "map_of (st_effects (gate_store g')) (ec_key c) = Some x" "gate_file g' = store_file (gate_store g')"
proof -
  obtain x where x: "effect_of rt c v readback = Inr x"
    using assms by (cases "effect_of rt c v readback") (auto simp: execute_finish_def execute_failed_def)
  define g1 where "g1 = g\<lparr>gate_store := (gate_store g)\<lparr>st_effects := put_key (ec_key c) x (st_effects (gate_store g))\<rparr>\<rparr>"
  have f: "(case gate_persist wr g1 of Inl e \<Rightarrow> execute_failed wr' g1 c e | Inr g'' \<Rightarrow> (g'', Inr (answer_js False x))) = (g', Inr a)"
    unfolding g1_def using assms x by (simp add: execute_finish_def Let_def)
  have "wr" using f assms(1) by (cases wr) (simp_all add: gate_persist_def execute_failed_def)
  with f have a: "a = answer_js False x" "g' = g1\<lparr>gate_file := store_file (gate_store g1)\<rparr>"
    by (auto simp: gate_persist_def store_file_def)
  show thesis
    by (rule that [OF x a(1)]) (use x in \<open>auto simp: a(2) g1_def effect_of_def Let_def split: if_splits\<close>)
qed

lemma reads_the_effect:
  assumes "map_of (st_effects st) (ec_key c) = Some y" "ef_actionDigest y = JStr (ec_digest c)"
    and "ec_agent c \<longrightarrow> same_authority rt y (ec_authority c)"
  shows "ec_action c' = ec_action c \<Longrightarrow> ec_digest c' = ec_digest c \<Longrightarrow> ec_authority c' = ec_authority c \<Longrightarrow>
      \<not> ec_ownerLease c' \<Longrightarrow> execute_branch rt cfg st c' = Replayed y"
    "ec_key c' = ec_key c \<Longrightarrow> ec_digest c' \<noteq> ec_digest c \<or> ec_ownerLease c' \<Longrightarrow>
      \<exists>e. execute_branch rt cfg st c' = Denied e"
proof -
  have k: "slot (st_effects st) (ec_key c) = Own y" using assms(1) by (simp add: slot_def)
  show "execute_branch rt cfg st c' = Replayed y"
    if "ec_action c' = ec_action c" "ec_digest c' = ec_digest c" "ec_authority c' = ec_authority c" "\<not> ec_ownerLease c'"
  proof -
    have "ec_key c' = ec_key c" "ec_agent c' = ec_agent c" by (simp_all add: ec_key_def ec_agent_def that(1))
    with that(2-4) k assms(2,3) show ?thesis by (simp add: execute_branch_def)
  qed
  show "\<exists>e. execute_branch rt cfg st c' = Denied e"
    if "ec_key c' = ec_key c" "ec_digest c' \<noteq> ec_digest c \<or> ec_ownerLease c'"
    using k assms(2) that by (auto simp: execute_branch_def replay_checks_def split: sum.splits)
qed

text \<open>
  C23: A direct effect that was completed, its result written, is answered from the store from then on. Whatever steps
  follow (calls, failed writes, kills, restarts from the file, changes of the policy) no further mutation is asked for
  under its replay key, and no call under that key gets as far. If at the completion no other call was about to complete an
  effect under the same key (direct calls make no reservation, so one that overlaps may replace the effect), every
  later call of the same action with the same authority gets the stored result, as it was or as read back from the file,
  and every call under the key with another digest or with an owner lease is denied.
\<close>

theorem direct_effect_replayed:
  assumes "gate_reach rt token s" "i < length (gs_calls s)" "gs_calls s ! i = (c, ReadingBack v)" "\<not> ec_ownerLease c"
    "execute_finish rt wr wr' (gs_gate s) c v (Gave readback) = (g', Inr a)"
    "(gate_step rt token)\<^sup>*\<^sup>* (s\<lparr>gs_gate := g', gs_calls := (gs_calls s)[i := (c, Over)]\<rparr>) s'"
  shows "\<exists>x. effect_of rt c v readback = Inr x \<and> a = answer_js False x
    \<and> (\<exists>more. gs_log s' = gs_log s @ more \<and> no_mutation (ec_key c) more)
    \<and> (\<forall>cfg c'. ec_key c' = ec_key c \<longrightarrow>
         execute_branch rt cfg (gate_store (gs_gate s')) c' \<notin> {AwaitMutation, AwaitSnapshot})
    \<and> ((\<forall>j c' st. j < length (gs_calls s) \<and> j \<noteq> i \<and> gs_calls s ! j = (c', st) \<and> ec_key c' = ec_key c \<longrightarrow>
          st = Reading \<or> st = Over) \<longrightarrow>
        (\<exists>y \<in> {x, reread x}. \<forall>cfg c'.
           (ec_action c' = ec_action c \<and> ec_digest c' = ec_digest c \<and> ec_authority c' = ec_authority c \<and> \<not> ec_ownerLease c'
              \<longrightarrow> execute_branch rt cfg (gate_store (gs_gate s')) c' = Replayed y)
           \<and> (ec_key c' = ec_key c \<and> (ec_digest c' \<noteq> ec_digest c \<or> ec_ownerLease c') \<longrightarrow>
                (\<exists>e. execute_branch rt cfg (gate_store (gs_gate s')) c' = Denied e))))"
proof -
  let ?s = "s\<lparr>gs_gate := g', gs_calls := (gs_calls s)[i := (c, Over)]\<rparr>" and ?k = "ec_key c"
  obtain x where x: "effect_of rt c v readback = Inr x" "a = answer_js False x" "ef_actionDigest x = JStr (ec_digest c)"
    and st: "map_of (st_effects (gate_store g')) ?k = Some x" "gate_file g' = store_file (gate_store g')"
    by (rule direct_finish [OF assms(4,5)])
  have inv: "effect_inv X ?k ?s" if "x \<in> X" "X = UNIV \<or> (\<forall>(c', st) \<in> set (gs_calls ?s). ec_key c' = ?k \<longrightarrow> st = Reading \<or> st = Over)" for X
    using that st unfolding effect_inv_def kept_effect_def stored_effect_def by auto
  from effect_inv_steps [OF assms(6) inv [of UNIV]] obtain more
    where any: "effect_inv UNIV ?k s'" "gs_log s' = gs_log s @ more" "no_mutation ?k more" by auto
  have never: "execute_branch rt cfg (gate_store (gs_gate s')) c' \<notin> {AwaitMutation, AwaitSnapshot}" if "ec_key c' = ?k" for cfg c'
    using any(1) stored_effect_denies(2,3) that by (auto simp: effect_inv_def kept_effect_def)
  have same: "\<exists>y \<in> {x, reread x}. \<forall>cfg c'.
      (ec_action c' = ec_action c \<and> ec_digest c' = ec_digest c \<and> ec_authority c' = ec_authority c \<and> \<not> ec_ownerLease c'
         \<longrightarrow> execute_branch rt cfg (gate_store (gs_gate s')) c' = Replayed y)
      \<and> (ec_key c' = ?k \<and> (ec_digest c' \<noteq> ec_digest c \<or> ec_ownerLease c') \<longrightarrow>
           (\<exists>e. execute_branch rt cfg (gate_store (gs_gate s')) c' = Denied e))"
    if alone: "\<forall>j c' st. j < length (gs_calls s) \<and> j \<noteq> i \<and> gs_calls s ! j = (c', st) \<and> ec_key c' = ?k \<longrightarrow> st = Reading \<or> st = Over"
  proof -
    have "\<forall>(c', st) \<in> set (gs_calls ?s). ec_key c' = ?k \<longrightarrow> st = Reading \<or> st = Over"
      using alone assms(2) by (fastforce simp: in_set_conv_nth nth_list_update split: if_splits)
    with effect_inv_steps [OF assms(6) inv [of "{x, reread x}"]] have "effect_inv {x, reread x} ?k s'" by simp
    then obtain y where y: "y \<in> {x, reread x}" "map_of (st_effects (gate_store (gs_gate s'))) ?k = Some y"
      by (auto simp: effect_inv_def kept_effect_def stored_effect_def)
    have d: "ef_actionDigest y = JStr (ec_digest c)" using y(1) x(3) by (auto simp: reread_fields)
    obtain now request envelope where "execute_guard rt (gs_cfg s) now request envelope = Inr c"
      using guarded_call [OF gate_reach_guarded [OF assms(1)] assms(2,3)] by blast
    then have "ec_agent c \<longrightarrow> same_authority rt y (ec_authority c)"
      by (cases rule: execute_guard_cases) (use assms(4) y(1) agent_receipt_authority [OF x(1)] in auto)
    from y(1) reads_the_effect [OF y(2) d this] show ?thesis by blast
  qed
  show ?thesis using x(1,2) any(2,3) never same by blast
qed

lemma agent_receipt_plain:
  assumes "execute_guard rt cfg now request envelope = Inr c" "ec_agent c" "\<not> ec_ownerLease c" "plain (ec_action c)"
    and "effect_of rt c v rb = Inr x"
  shows "plain (ef_receipt x)"
proof -
  let ?f = "getf (fields_of (ec_authority c))"
  have a: "gateKeys (ec_action c) ACTION_KEYS"
    using execute_guard_common(1) [OF assms(1)] by (auto simp: validateActionShape_def Let_def split: if_splits)
  have "validateAgentAuthority rt cfg (ec_authority c) (ec_action c) (ec_digest c)"
    using assms(1) by (cases rule: execute_guard_cases) (use assms(2,3) in auto)
  then have v: "gateKeys (ec_authority c) AGENT_AUTHORITY_KEYS" "?f ''kind'' = JStr AGENT_KIND" "?f ''policyId'' = JStr POC_POLICY_ID"
    "?f ''policyGeneration'' = jint (gc_policyGeneration cfg)" "is_string (?f ''policyDigest'')" "is_string (?f ''decisionDigest'')"
    by (simp_all only: validateAgentAuthority_def Let_def)
  have own: "?f ''leaseId'' = JUndef" "?f ''ownerDecisionReceiptDigest'' = JUndef"
    using gateKeys_own [OF v(1)] by (simp_all add: AGENT_AUTHORITY_KEYS_def)
  have f: "plain (getf (fields_of (ec_action c)) l)" if "l \<in> set ACTION_KEYS" for l
    by (rule gateKeys_own_field [OF a that assms(4)])
  have "plain (getf (fields_of (ec_action c)) ''scope'')" by (rule f) (simp add: ACTION_KEYS_def)
  then have e: "plain (fld2 (ec_action c) ''scope'' ''entity'')"
    using plain_getf scope_entity_named [OF execute_guard_common(2) [OF assms(1)]] by (auto simp: fld2_def)
  have "plain (obj (receiptCore rt c v rb))"
    unfolding receiptCore_def Let_def authority_fields_def
    using e v(2-6) own by (auto simp: f ACTION_KEYS_def is_string_iff)
  then show ?thesis using assms(5) by (auto simp: effect_of_def Let_def split: if_splits)
qed

text \<open>The contact of the samples, completed; the gate is then started again from its file.\<close>

lemma contact_restarts:
  assumes c: "ec_action c = contactAction (JStr sample_key)" "ec_agent c" "\<not> ec_ownerLease c" "ec_key c = sample_key"
    and g: "execute_guard sample_rt sample_gate now request envelope = Inr c"
    and f: "execute_finish sample_rt True True fresh_gate c (jint 7) (Gave contact_readback) = (g', Inr a)"
  shows "\<exists>g2. new_gate sample_rt sample_gate (gate_file g') = Inr g2"
proof -
  obtain x where x: "effect_of sample_rt c (jint 7) contact_readback = Inr x" using f c(3)
    by (rule_tac direct_finish)
  have st: "gate_store g' = \<lparr>st_effects = [(sample_key, x)], st_reservations = [], st_leases = []\<rparr>"
    using f c(3,4) x by (auto simp: execute_finish_def gate_persist_def fresh_gate_def EMPTY_STORE_def put_key_def Let_def)
  have fl: "gate_file g' = store_file (gate_store g')" by (rule direct_finish [OF c(3) f])
  have p: "plain (ec_action c)" "plain contact_readback"
    by (simp_all add: c(1) contactAction_def contact_readback_def fld2_def)
  have k: "getf (fields_of (ec_action c)) ''replayKey'' = JStr sample_key" by (simp add: c(1) agent_action_fields)
  have "effect_valid sample_rt (ec_key c) (trip (effect_js x))"
    by (rule effect_sealed [OF x agent_receipt_plain [OF g c(2,3) p(1) x] _ p(2) k]) simp_all
  then have "loadable sample_rt (gate_store g')" by (simp add: loadable_iff st c(4))
  then show ?thesis using new_gate_own sample_configs(1) unfolding fl by blast
qed

theorem direct_effect_replayed_witness:
  "\<exists>s c x y. gate_reach sample_rt (fenceToken demo_cfg) s \<and> gs_calls s = [] \<and> map (fst \<circ> snd) (gs_log s) = [c]
     \<and> (y = x \<or> y = reread x) \<and> execute_branch sample_rt sample_gate (gate_store (gs_gate s)) c = Replayed y"
proof (rule contact_starts)
  fix c
  assume c: "ec_action c = contactAction (JStr sample_key)" "ec_agent c" "\<not> ec_ownerLease c" "ec_key c = sample_key"
    and g: "\<exists>now request envelope. execute_guard sample_rt sample_gate now request envelope = Inr c"
    and b: "\<And>cs log. gate_step sample_rt (fenceToken demo_cfg) (sample_system fresh_gate cs log)
      (sample_system fresh_gate (cs @ [(c, Mutating)]) (log @ [(sample_gate, c, JUndef)]))"
  let ?t = "fenceToken demo_cfg" and ?s = "sample_system fresh_gate [(c, ReadingBack (jint 7))] [(sample_gate, c, JUndef)]"
  have "gate_step sample_rt ?t (sample_system fresh_gate ([] @ [(c, Mutating)]) ([] @ [(sample_gate, c, JUndef)])) ?s"
    using step_mutated [of 0 "sample_system fresh_gate [(c, Mutating)] [(sample_gate, c, JUndef)]" c sample_rt ?t "jint 7"]
    by (simp add: sample_system_def)
  from gate_reach_step [OF gate_reach_step [OF sample_reach_start b] this] have s: "gate_reach sample_rt ?t ?s" .
  obtain g' a where f: "execute_finish sample_rt True True fresh_gate c (jint 7) (Gave contact_readback) = (g', Inr a)"
    using contact_completed [OF c(1,3)] by blast
  obtain g2 where g2: "new_gate sample_rt sample_gate (gate_file g') = Inr g2" using contact_restarts [OF c _ f] g by blast
  let ?done = "?s\<lparr>gs_gate := g', gs_calls := (gs_calls ?s)[0 := (c, Over)]\<rparr>"
  let ?s' = "?done\<lparr>gs_cfg := sample_gate, gs_gate := g2, gs_calls := []\<rparr>"
  have i: "0 < length (gs_calls ?s)" "gs_calls ?s ! 0 = (c, ReadingBack (jint 7))"
    "execute_finish sample_rt True True (gs_gate ?s) c (jint 7) (Gave contact_readback) = (g', Inr a)"
    using f by (simp_all add: sample_system_def)
  have d: "gate_step sample_rt ?t ?s ?done" by (rule gate_step.step_finish [OF i])
  have r: "gate_step sample_rt ?t ?done ?s'" using gate_step.step_restart [of sample_rt sample_gate ?done g2 ?t] g2 by simp
  from direct_effect_replayed [OF s i(1,2) c(3) i(3) r_into_rtranclp [of "gate_step sample_rt ?t", OF r]]
  obtain x y where y: "y = x \<or> y = reread x" "execute_branch sample_rt sample_gate (gate_store (gs_gate ?s')) c = Replayed y"
    using c(3) by (auto simp: sample_system_def) blast+
  have "gate_reach sample_rt ?t ?s'" by (rule gate_reach_step [OF gate_reach_step [OF s d] r])
  moreover have "gs_calls ?s' = []" "map (fst \<circ> snd) (gs_log ?s') = [c]" by (simp_all add: sample_system_def)
  ultimately show ?thesis using y by (intro exI [of _ ?s'] exI [of _ c] exI [of _ x] exI [of _ y] conjI)
qed

text \<open>
  C17: Whatever the evaluator answers, the handler grants an authority for nothing but the one contact, and escalates or
  grants nothing undeclared: a decision carries the planned action exactly where it is no denial, and an authority
  exactly where it is a grant, signed over the planned action and the digest of the decision.
\<close>

theorem ceiling_holds:
  assumes "ai_decide rt ai request = Inr d"
  shows "\<exists>outcome \<in> set POLICY_OUTCOMES. getf (fields_of d) ''outcome'' = JStr outcome
    \<and> (getf (fields_of request) ''requestKind'' \<notin> {JStr CONTACT_KIND, JStr ORDER_KIND} \<longrightarrow> outcome = ''DENY'')
    \<and> (outcome = ''AUTO_GRANT'' \<longrightarrow> plannedAction request = contactAction (getf (fields_of request) ''replayKey''))
    \<and> getf (fields_of d) ''action'' = (if outcome = ''DENY'' then JNull else plannedAction request)
    \<and> getf (fields_of d) ''authority'' = (if outcome = ''AUTO_GRANT''
         then aa_sign ai (authority_request ai (plannedAction request) (JStr (json_digest rt (plannedAction request)))
           (getf (fields_of d) ''decisionDigest'')) else JNull)"
proof -
  from assms show ?thesis
  proof (rule ai_decide_Inr)
    fix outcome
    assume o: "getf (fields_of d) ''outcome'' = JStr outcome" "outcome \<in> set POLICY_OUTCOMES"
      "rule_of request = 2 \<longrightarrow> outcome = ''DENY''" "rule_of request = 1 \<longrightarrow> outcome \<noteq> ''AUTO_GRANT''"
      "getf (fields_of d) ''action'' = (if outcome = ''DENY'' then JNull else plannedAction request)"
      "getf (fields_of d) ''authority'' = (if outcome = ''AUTO_GRANT''
       then aa_sign ai (authority_request ai (plannedAction request) (JStr (json_digest rt (plannedAction request)))
         (getf (fields_of d) ''decisionDigest'')) else JNull)"
    have "getf (fields_of request) ''requestKind'' \<notin> {JStr CONTACT_KIND, JStr ORDER_KIND} \<longrightarrow> outcome = ''DENY''"
      using o(3) by (auto simp: rule_of_def Let_def)
    moreover have "outcome = ''AUTO_GRANT'' \<longrightarrow> plannedAction request = contactAction (getf (fields_of request) ''replayKey'')"
      using o(3,4) planned_cases [of request] by auto
    ultimately show ?thesis using o by blast
  qed
qed

theorem ceiling_holds_witness:
  "ai_decide sample_rt sample_ai (poc_request CONTACT_KIND) = Inr (sample_decision CONTACT_KIND)
   \<and> (\<exists>outcome \<in> set POLICY_OUTCOMES. getf (fields_of (sample_decision CONTACT_KIND)) ''outcome'' = JStr outcome)"
  using ceiling_holds [OF sample_decided(1)] sample_decided(1) by blast

text \<open>
  C28: Over the closed policy the handler decides every request that is well formed, and no other: the contact is granted,
  the order is escalated, and everything else is denied, each with the reason of its rule.
\<close>

theorem handler_outcome:
  assumes "new_admin_ai rt policy digest sign given = Inr ai" "pred_option (context_matches rt policy digest) given"
    "plain policy" "js_wf policy" "\<And>t. hex64 (sha rt t)"
  shows "((\<exists>d. ai_decide rt ai request = Inr d) \<longleftrightarrow> validateRequest request)
    \<and> (\<forall>d. ai_decide rt ai request = Inr d \<longrightarrow> (let kind = getf (fields_of request) ''requestKind'' in
         [getf (fields_of d) ''outcome'', getf (fields_of d) ''reasonCodes''] =
         (if kind = JStr CONTACT_KIND then [JStr ''AUTO_GRANT'', arr [JStr ''POLICY_SYNTHETIC_CONTACT_AUTO_GRANTED'']]
          else if kind = JStr ORDER_KIND then [JStr ''OWNER_ESCALATION'', arr [JStr ''POLICY_ORDER_REQUIRES_OWNER'']]
          else [JStr ''DENY'', arr [JStr ''POLICY_REQUEST_NOT_ALLOWED''] ])))"
proof -
  have g: "good_sha rt" using assms(5) by (simp add: good_sha_def)
  have v: "validateRequest request" if "ai_decide rt ai request = Inr d" for d
    using that unfolding ai_decide_Inr_iff Let_def by blast
  note h = static_handler [OF assms(1) g assms(2-4)]
  let ?d = "ai_answer rt ai request (static_decision rt ai request)"
  have f: "getf (fields_of ?d) ''outcome'' = JStr (static_outcome request)"
    "getf (fields_of ?d) ''reasonCodes'' = arr [JStr (static_reason request)]"
    by (simp_all add: ai_answer_def ai_core_def Let_def static_decision_def sealed_decision_fields)
  have "[getf (fields_of ?d) ''outcome'', getf (fields_of ?d) ''reasonCodes''] =
      (if getf (fields_of request) ''requestKind'' = JStr CONTACT_KIND
       then [JStr ''AUTO_GRANT'', arr [JStr ''POLICY_SYNTHETIC_CONTACT_AUTO_GRANTED'']]
       else if getf (fields_of request) ''requestKind'' = JStr ORDER_KIND
       then [JStr ''OWNER_ESCALATION'', arr [JStr ''POLICY_ORDER_REQUIRES_OWNER'']]
       else [JStr ''DENY'', arr [JStr ''POLICY_REQUEST_NOT_ALLOWED''] ])"
    unfolding f static_outcome_def static_reason_def rule_of_def Let_def by (simp add: CLOSED_RULES_def)
  note o = this
  have e: "(\<exists>d. ai_decide rt ai request = Inr d) \<longleftrightarrow> validateRequest request" using v h by blast
  have u: "d = ?d" if "ai_decide rt ai request = Inr d" for d using h [OF v [OF that]] that by simp
  show ?thesis unfolding Let_def using e u o by blast
qed

theorem handler_outcome_witness:
  "new_admin_ai sample_rt demo_policy zeros (agentAuthority sample_rt sample_gate) None = Inr sample_ai
   \<and> getf (fields_of (sample_decision ORDER_KIND)) ''outcome'' = JStr ''OWNER_ESCALATION''"
proof -
  have k: "getf (fields_of (poc_request ORDER_KIND)) ''requestKind'' = JStr ORDER_KIND" by (simp add: poc_request_def)
  have h: "hex64 (sha sample_rt t)" for t by simp
  from handler_outcome [OF sample_ai_built option.pred_inject(1) demo_policy_plain h, of "poc_request ORDER_KIND"]
    sample_decided(2) sample_ai_built show ?thesis
    unfolding Let_def k by (simp add: sample_kinds(4) [symmetric])
qed

text \<open>
  C30: A granted contact is accepted by the gate whose key signed the grant: presented with its action, the authority of
  the decision passes every guard of \<open>execute\<close>, as a direct use of the policy generation of the handler.
\<close>

theorem granted_contact_passes_gate:
  assumes "ai_decide rt ai request = Inr d" "getf (fields_of d) ''outcome'' = JStr ''AUTO_GRANT''"
    "aa_sign ai = agentAuthority rt cfg" "getf (fields_of (aa_context ai)) ''policyId'' = JStr POC_POLICY_ID"
    "getf (fields_of (aa_context ai)) ''policyGeneration'' = jint (gc_policyGeneration cfg)"
    "gc_policyDigest cfg = Some (aa_policyDigest ai)" "hex64 (aa_policyDigest ai)"
    "\<And>t. hex64 (sha rt t)" "\<And>k t. hex64 (hmac rt k t)"
    "authorizeLocalRequest rt (gc_apiToken cfg) (gc_expectedOrigin cfg) True http = Inr ()"
  shows "\<exists>c. execute_guard rt cfg now http (contact_envelope rt (getf (fields_of d) ''action'') (getf (fields_of d) ''authority'')) = Inr c
    \<and> ec_action c = contactAction (getf (fields_of request) ''replayKey'') \<and> \<not> ec_ownerLease c
    \<and> ub_policyGeneration (use_of c) = jint (gc_policyGeneration cfg)"
  by (rule granted_contact_guarded [OF assms])

theorem granted_contact_witness:
  "\<exists>c. execute_guard sample_rt sample_gate (jint 1500) sample_http (contact_envelope sample_rt
       (getf (fields_of (sample_decision CONTACT_KIND)) ''action'') (getf (fields_of (sample_decision CONTACT_KIND)) ''authority'')) = Inr c
     \<and> \<not> ec_ownerLease c"
  using granted_contact_passes_gate [OF sample_decided(1) contact_granted sample_context(4,2) sample_wiring sample_digests
    sample_hmac sample_authorized] by blast

lemma registered_state:
  assumes "register_end rt wcfg wr w d (Inr v) = (w', Inr p)" "slot (ws_proposals (wb_store w)) (digest_key d) = Absent"
  shows "ws_proposals (wb_store w') = ws_proposals (wb_store w) @ [(digest_key d, p)]"
    "ws_decisions (wb_store w') = ws_decisions (wb_store w)" "wb_pending w' = wb_pending w"
proof -
  obtain core where core: "proposalCore rt wcfg d v = Inr core" using registered_fresh [OF assms] by metis
  show "ws_proposals (wb_store w') = ws_proposals (wb_store w) @ [(digest_key d, p)]"
    using assms(1) unfolding register_end_def sum.case core assms(2) slot.case Let_def
    by (auto simp: wb_persist_def split: if_splits)
  show "ws_decisions (wb_store w') = ws_decisions (wb_store w)" "wb_pending w' = wb_pending w"
    by (rule register_end_keeps [OF assms(1)])+
qed

lemma owner_names: "OWNER \<noteq> AGENT" "OWNER \<noteq> APPROVAL_REQUESTER"
  by (simp_all add: OWNER_def AGENT_def APPROVAL_REQUESTER_def)

lemma registered_decidable:
  assumes "register_begin rt wcfg d = Inr ()" "register_end rt wcfg wr w d (Inr v) = (w1, Inr p)"
    "slot (ws_proposals (wb_store w)) (digest_key d) = Absent" "slot (ws_decisions (wb_store w)) (digest_key d) = Absent"
    "digest_key d \<notin> set (wb_pending w)" "workbench_config_valid wcfg" "good_sha rt"
    "oq_decisionDigest q = getf (fields_of d) ''decisionDigest''" "oq_ownerDecision q = JStr ''APPROVE''"
    "oq_ownerActor q = JStr OWNER"
  shows "decide_begin rt wcfg w1 q = (w1\<lparr>wb_pending := digest_key d # wb_pending w1\<rparr>, Inr p)"
proof -
  obtain core where core: "proposalCore rt wcfg d v = Inr core" "p = proposal_of rt core"
    "validSnapshot rt v (getf (fields_of d) ''action'')" using registered_fresh [OF assms(2,3)] by metis
  note s = registered_state [OF assms(2,3)]
  note e = escalation_facts [OF registered_context(1) [OF assms(1)]]
  obtain x where x: "getf (fields_of d) ''decisionDigest'' = JStr x" "hex64 x" using e(4) by blast
  then have k: "digest_key d = x" by (simp add: digest_key_def)
  have p: "slot (ws_proposals (wb_store w1)) x = Own p"
    using slot_Absent [OF assms(3)] by (simp add: slot_def s(1) k map_add_def)
  have d: "slot (ws_decisions (wb_store w1)) x = Absent" "x \<notin> set (wb_pending w1)" using assms(4,5) by (simp_all add: s(2,3) k)
  have a: "getf (fields_of p) ''actor'' = JStr AGENT" "getf (fields_of p) ''requester'' = JStr APPROVAL_REQUESTER"
    unfolding core(2) proposal_fields [OF core(1)] by (rule e(2), rule valid_snapshot_origin(1) [OF core(3)])
  show ?thesis
    unfolding decide_begin_def Let_def assms(8-10) x(1) str_of.simps p slot.case k
    using d x(2) a registered_valid [OF assms(1) core(3,1) assms(6,7)] owner_names
    by (simp add: OWNER_DECISIONS_def core(2))
qed

text \<open>
  C11: From the request to the mutation: an order the handler escalated and the workbench registered can be decided; where
  the owner approves it while the provider shows the same state, the decision is issued and written, and the gate
  accepts its authority with the proposal from the moment of the decision until the lease expires, and at no other
  time.
\<close>

theorem approved_order_passes_gate:
  assumes "\<And>t. hex64 (sha rt t)" "\<And>k t. hex64 (hmac rt k t)" "wired gcfg wcfg"
    "ai_decide rt ai request = Inr d" "register_begin rt wcfg d = Inr ()"
    "register_end rt wcfg wr w d (Inr v) = (w1, Inr p)" "slot (ws_proposals (wb_store w)) (digest_key d) = Absent"
    "slot (ws_decisions (wb_store w)) (digest_key d) = Absent" "digest_key d \<notin> set (wb_pending w)"
    "oq_decisionDigest q = getf (fields_of d) ''decisionDigest''" "oq_ownerDecision q = JStr ''APPROVE''"
    "oq_ownerActor q = JStr OWNER"
    "validSnapshot rt v' (getf (fields_of d) ''action'')" "sameSnapshot v' v"
    "isTime (jint t)" "t + wc_leaseTtlMs wcfg \<le> max_safe"
    "authorizeLocalRequest rt (gc_apiToken gcfg) (gc_expectedOrigin gcfg) True http = Inr ()"
  shows "\<exists>w2 w3 x. decide_begin rt wcfg w1 q = (w2, Inr p)
    \<and> decide_end rt wcfg (ownerAuthority rt gcfg) True (jint t) w2 q p (Inr v') = (w3, Inr x)
    \<and> (\<forall>now. is_safe_integer now \<longrightarrow>
         ((\<exists>c. execute_guard rt gcfg now http (order_envelope p (or_authority x)) = Inr c)
          \<longleftrightarrow> t \<le> int_of_js now \<and> int_of_js now < t + wc_leaseTtlMs wcfg))"
proof -
  have g: "good_sha rt" using assms(1) by (simp add: good_sha_def)
  have wv: "workbench_config_valid wcfg" using assms(3) by (simp add: wired_def)
  obtain core where core: "proposalCore rt wcfg d v = Inr core" "p = proposal_of rt core"
    "validSnapshot rt v (getf (fields_of d) ''action'')" using registered_fresh [OF assms(6,7)] by metis
  note f = proposal_fields [OF core(1), folded core(2)]
  note r = registered_context [OF assms(5)]
  note e = escalation_facts [OF r(1)]
  obtain k where k: "getf (fields_of d) ''action'' = orderAction (JStr k)" "getf (fields_of d) ''replayKey'' = JStr k"
    "rx_test AGENT_REPLAY_KEY k" using escalated_order [OF assms(4) r(1)] by metis
  note start = registered_decidable [OF assms(5-9) wv g assms(10-12)]
  note period = wired_period [OF assms(3,15,16)]
  have issue: "\<forall>receipt. hex64 receipt \<longrightarrow> (\<exists>a. ownerAuthority rt gcfg p (JStr receipt) (jint t)
      (jint (int_of_js (jint t) + wc_leaseTtlMs wcfg)) = Inr a)"
    using order_issued [OF assms(4,5) core(3,1) assms(3) g _ period] core(2) by simp
  let ?w2 = "w1\<lparr>wb_pending := digest_key d # wb_pending w1\<rparr>"
  have snap: "validSnapshot rt (getf (fields_of p) ''snapshot'') (getf (fields_of p) ''action'')"
    "validSnapshot rt v' (getf (fields_of p) ''action'')" "sameSnapshot v' (getf (fields_of p) ''snapshot'')"
    unfolding f by (rule core(3), rule assms(13), rule assms(14))
  obtain x rd where x: "snd (decide_end rt wcfg (ownerAuthority rt gcfg) True (jint t) ?w2 q p (Inr v')) = Inr x"
    "ownerAuthority rt gcfg p (JStr rd) (jint t) (jint (t + wc_leaseTtlMs wcfg)) = Inr (or_authority x)"
    using approval_issued [where issue = "ownerAuthority rt gcfg" and now = "jint t" and wcfg = wcfg and q = q and w = ?w2,
      OF snap assms(11,15) issue g] by auto
  obtain w3 where w3: "decide_end rt wcfg (ownerAuthority rt gcfg) True (jint t) ?w2 q p (Inr v') = (w3, Inr x)"
    using x(1) by (metis prod.collapse)
  have digest: "getf (fields_of p) ''actionDigest'' = JStr (json_digest rt (orderAction (JStr k)))"
    unfolding f using e(3) by (simp add: digest_is_def k(1))
  have p: "getf (fields_of p) ''action'' = orderAction (JStr k)" "getf (fields_of p) ''actor'' = JStr AGENT"
    "getf (fields_of p) ''replayKey'' = JStr k" unfolding f by (rule k(1), rule e(2), rule k(2))
  have "(\<exists>c. execute_guard rt gcfg now http (order_envelope p (or_authority x)) = Inr c)
      \<longleftrightarrow> t \<le> int_of_js now \<and> int_of_js now < t + wc_leaseTtlMs wcfg" if "is_safe_integer now" for now
    using order_guarded [OF x(2) p digest k(3) assms(2) that assms(17)] by simp
  with start w3 show ?thesis by blast
qed

theorem approved_order_witness:
  "\<exists>x. decide_end sample_rt sample_workbench (ownerAuthority sample_rt sample_gate) True (jint 1000)
      (workbench_of proposed_store [zeros]) owner_yes sample_proposal (Inr sample_snapshot) = (workbench_of decided_store [], Inr x)
    \<and> (\<exists>c. execute_guard sample_rt sample_gate (jint 60999) sample_http (order_envelope sample_proposal (or_authority x)) = Inr c)
    \<and> \<not> (\<exists>c. execute_guard sample_rt sample_gate (jint 61000) sample_http (order_envelope sample_proposal (or_authority x)) = Inr c)"
proof -
  have s: "slot (ws_proposals (wb_store empty_workbench)) (digest_key (sample_decision ORDER_KIND)) = Absent"
    "slot (ws_decisions (wb_store empty_workbench)) (digest_key (sample_decision ORDER_KIND)) = Absent"
    "digest_key (sample_decision ORDER_KIND) \<notin> set (wb_pending empty_workbench)"
    by (simp_all add: sample_proposal_facts(5) empty_workbench_def slot_def)
  have dd: "getf (fields_of (sample_decision ORDER_KIND)) ''decisionDigest'' = JStr zeros"
    unfolding sample_decision_def ai_answer_echo by simp
  have q: "oq_decisionDigest owner_yes = getf (fields_of (sample_decision ORDER_KIND)) ''decisionDigest''"
    "oq_ownerDecision owner_yes = JStr ''APPROVE''" "oq_ownerActor owner_yes = JStr OWNER"
    unfolding dd by (simp_all add: owner_yes_def)
  have v: "sameSnapshot sample_snapshot sample_snapshot" by (simp add: sameSnapshot_def)
  have t: "isTime (jint 1000)" "1000 + wc_leaseTtlMs sample_workbench \<le> max_safe"
    by (simp_all add: isTime_def max_safe_def sample_workbench_def)
  have h: "hex64 (sha sample_rt t)" for t by simp
  have n: "is_safe_integer (jint 60999)" "is_safe_integer (jint 61000)" by (simp_all add: max_safe_def)
  from approved_order_passes_gate [OF h sample_hmac sample_configs(3) sample_decided(2) sample_escalated sample_registered s q
      sample_snapshot_valid [folded sample_order_planned] v t sample_authorized]
  obtain w2 w3 x where x: "decide_begin sample_rt sample_workbench (workbench_of proposed_store []) owner_yes = (w2, Inr sample_proposal)"
    "decide_end sample_rt sample_workbench (ownerAuthority sample_rt sample_gate) True (jint 1000) w2 owner_yes sample_proposal
      (Inr sample_snapshot) = (w3, Inr x)"
    "\<forall>now. is_safe_integer now \<longrightarrow>
      ((\<exists>c. execute_guard sample_rt sample_gate now sample_http (order_envelope sample_proposal (or_authority x)) = Inr c)
       \<longleftrightarrow> 1000 \<le> int_of_js now \<and> int_of_js now < 1000 + wc_leaseTtlMs sample_workbench)" by blast
  have "w2 = workbench_of proposed_store [zeros]" using x(1) sample_deciding by simp
  then have "w3 = workbench_of decided_store []" "x = sample_owner" using x(2) sample_issued(2) by simp_all
  then show ?thesis
    using sample_issued(2) x(3) [rule_format, OF n(1)] x(3) [rule_format, OF n(2)]
    by (simp add: sample_workbench_def)
qed

lemma decide_begin_denied: "decide_begin rt cfg w q = (w', Inl e) \<Longrightarrow> w' = w"
  by (auto simp: decide_begin_def Let_def split: if_splits slot.splits)

lemma wb_reach_denies:
  assumes "wb_reach rt issue s"
    "decision_key q \<in> set (map fst (wy_log s)) \<or> decision_key q \<in> set (concat (map deciding (wy_calls s)))"
  shows "\<exists>e. decide_begin rt cfg (wy_workbench s) q = (wy_workbench s, Inl e)"
proof -
  have i: "decision_journal.holds (map fst (wy_log s)) (wb_store (wy_workbench s)) (wb_file (wy_workbench s))"
    "set (wb_pending (wy_workbench s)) = set (concat (map deciding (wy_calls s)))"
    using wb_reach_inv [OF assms(1)] by (simp_all add: wb_inv_def Let_def)
  have k: "decision_key q \<in> decided_keys (wb_store (wy_workbench s)) \<or> decision_key q \<in> set (wb_pending (wy_workbench s))"
    using assms(2) decision_journal.holds_known [OF i(1)] i(2) by blast
  obtain w r where d: "decide_begin rt cfg (wy_workbench s) q = (w, r)" by fastforce
  show ?thesis
  proof (cases r)
    case (Inl e)
    with d decide_begin_denied show ?thesis by blast
  next
    case (Inr p)
    with decide_begin_cases(2,3) [of rt cfg "wy_workbench s" q w p] d k show ?thesis by blast
  qed
qed

text \<open>
  C16: Over any interleaving of registrations and decisions, failed writes and restarts, an owner gets at most one answer
  for a proposal; while a decision is under way, and after one was answered, every further one on the same proposal is
  denied and changes nothing.
\<close>

theorem owner_decides_once:
  assumes "wb_reach rt issue s"
  shows "distinct (map fst (wy_log s))
    \<and> (\<forall>q. decision_key q \<in> set (map fst (wy_log s)) \<or> (\<exists>q' p. Deciding q' p \<in> set (wy_calls s) \<and> decision_key q' = decision_key q)
         \<longrightarrow> (\<exists>e. decide_begin rt cfg (wy_workbench s) q = (wy_workbench s, Inl e)))"
proof (intro conjI allI impI)
  have "decision_journal.holds (map fst (wy_log s)) (wb_store (wy_workbench s)) (wb_file (wy_workbench s))"
    using wb_reach_inv [OF assms] by (simp add: wb_inv_def Let_def)
  then show "distinct (map fst (wy_log s))" by (rule decision_journal.holds_distinct)
  fix q
  assume "decision_key q \<in> set (map fst (wy_log s)) \<or> (\<exists>q' p. Deciding q' p \<in> set (wy_calls s) \<and> decision_key q' = decision_key q)"
  then have "decision_key q \<in> set (map fst (wy_log s)) \<or> decision_key q \<in> set (concat (map deciding (wy_calls s)))"
    by force
  then show "\<exists>e. decide_begin rt cfg (wy_workbench s) q = (wy_workbench s, Inl e)" by (rule wb_reach_denies [OF assms])
qed

theorem owner_decides_once_witness:
  "\<exists>e. decide_begin sample_rt sample_workbench (workbench_of decided_store []) owner_yes = (workbench_of decided_store [], Inl e)"
  using owner_decides_once [OF sample_workbench_reach, of sample_workbench] by (simp add: decision_key_def owner_yes_def)

end
