(* ===== verification/AdaptiveGates.thy ===== *)
theory AdaptiveGates
  imports Fabric
begin

text \<open>
  \<open>packages/contracts/src/adaptive-evidence-gates.ts\<close>: which profiles a slice of work needs, the admission of
  a specification, the run of its gates with one receipt each, the verifier of a receipt, the history of a delivery and
  the projection of completion.

  The checks are run by the caller: \<open>ga_execute n c\<close> is what its \<open>n\<close>-th call gives for check \<open>c\<close>, two results or
  whatever else it is, or what it throws. The hash \<open>H\<close> and the collation \<open>le\<close> are parameters, as in the fabric.
\<close>

subsection \<open>Data\<close>

definition ADAPTIVE_GATE_SPEC_SCHEMA_V1 :: string where
  "ADAPTIVE_GATE_SPEC_SCHEMA_V1 = ''chimpmaera.verification/adaptive-gate-spec/v1''"
definition ADAPTIVE_GATE_RECEIPT_SCHEMA_V1 :: string where
  "ADAPTIVE_GATE_RECEIPT_SCHEMA_V1 = ''chimpmaera.verification/adaptive-gate-receipt/v1''"
definition ADAPTIVE_GATE_VERIFIER_VERSION_V1 :: string where
  "ADAPTIVE_GATE_VERIFIER_VERSION_V1 = ''pansphaira-adaptive-gates/1''"

datatype slice_type = DocsOnly | RuntimeSlice | UiSlice | TrustSlice | IntegrationSlice

definition ADAPTIVE_SLICE_TYPES_V1 :: "slice_type list" where
  "ADAPTIVE_SLICE_TYPES_V1 = [DocsOnly, RuntimeSlice, UiSlice, TrustSlice, IntegrationSlice]"

fun slice_type_text :: "slice_type \<Rightarrow> string" where
  "slice_type_text DocsOnly = ''docs-only''"
| "slice_type_text RuntimeSlice = ''code-runtime''"
| "slice_type_text UiSlice = ''ui-presentation''"
| "slice_type_text TrustSlice = ''security-trust-boundary''"
| "slice_type_text IntegrationSlice = ''external-integration''"

definition ADAPTIVE_RISKS_V1 :: "string list" where
  "ADAPTIVE_RISKS_V1 = [''security'', ''trust'', ''external'']"

datatype adaptive_profile = DocsMinimal | CodeRuntime | UiPresentation | SecurityTrustBoundary
  | ExternalIntegration | ReleaseRequired

definition ADAPTIVE_PROFILES_V1 :: "adaptive_profile list" where
  "ADAPTIVE_PROFILES_V1 = [DocsMinimal, CodeRuntime, UiPresentation, SecurityTrustBoundary, ExternalIntegration,
     ReleaseRequired]"

fun profile_text :: "adaptive_profile \<Rightarrow> string" where
  "profile_text DocsMinimal = ''docs-minimal''"
| "profile_text CodeRuntime = ''code-runtime''"
| "profile_text UiPresentation = ''ui-presentation''"
| "profile_text SecurityTrustBoundary = ''security-trust-boundary''"
| "profile_text ExternalIntegration = ''external-integration''"
| "profile_text ReleaseRequired = ''release-required''"

definition ADAPTIVE_CHECK_IDS_V1 :: "string list" where
  "ADAPTIVE_CHECK_IDS_V1 =
     [''docs-build'', ''docs-spelling'', ''build'', ''lint'', ''focused-test'', ''ui-accessibility'',
      ''ui-interaction'', ''security-negative'', ''unsafe-input'', ''authority-secret'', ''remote-readback'',
      ''timeout-recovery'', ''idempotency'', ''delivery-readback'']"

datatype adaptive_denial = INVALID_SPEC | MISSING_CHECK_EXPECT | UNKNOWN_PROFILE | UNKNOWN_RISK_ATTRIBUTE
  | INVALID_DEPENDENCIES | CYCLIC_DEPENDENCIES | UNSAFE_EVALUATOR_INPUT | CHECK_FAILED | CHECK_TIMEOUT
  | FLAKY_RESULT | STALE_RECEIPT | FORGED_COUNT_OR_DIGEST | DELEGATED_NOT_REVERIFIED | SILENT_SCOPE_SHRINK
  | INVALID_STATE_JUMP | CLAIM_MISMATCH | EXTERNAL_WAIT_MISREPORTED

record adaptive_gate =
  ag_id :: string
  ag_checkId :: string
  ag_expect :: js
  ag_dependsOn :: "string list"
  ag_delegated :: bool

record check_result =
  cr_exitCode :: "int option"
  cr_stdout :: string
  cr_stderr :: string
  cr_timedOut :: bool

definition check_result_js :: "check_result \<Rightarrow> js" where
  "check_result_js r = obj [(''exitCode'', int_or_null (cr_exitCode r)), (''stdout'', JStr (cr_stdout r)),
     (''stderr'', JStr (cr_stderr r)), (''timedOut'', JBool (cr_timedOut r))]"

record gate_args =
  ga_spec :: js
  ga_nowMs :: int
  ga_expectedScope :: "string list option"
  ga_claimedCount :: "int option"
  ga_claimedSelectionDigest :: "string option"
  ga_delegatedReceipts :: fields
  ga_execute :: "nat \<Rightarrow> string \<Rightarrow> check_result list res"

record adaptive_report =
  rp_selectedProfiles :: "adaptive_profile list"
  rp_receipts :: "js list"
  rp_selectedCount :: nat
  rp_selectionDigest :: string
  rp_parentReverifications :: nat

datatype adaptive_result = Passed adaptive_report | GateDenied adaptive_denial string

subsection \<open>Profiles\<close>

fun PROFILE_BY_TYPE :: "slice_type \<Rightarrow> adaptive_profile" where
  "PROFILE_BY_TYPE DocsOnly = DocsMinimal"
| "PROFILE_BY_TYPE RuntimeSlice = CodeRuntime"
| "PROFILE_BY_TYPE UiSlice = UiPresentation"
| "PROFILE_BY_TYPE TrustSlice = SecurityTrustBoundary"
| "PROFILE_BY_TYPE IntegrationSlice = ExternalIntegration"

fun PROFILE_ORDER :: "adaptive_profile \<Rightarrow> nat" where
  "PROFILE_ORDER DocsMinimal = 0"
| "PROFILE_ORDER CodeRuntime = 1"
| "PROFILE_ORDER UiPresentation = 2"
| "PROFILE_ORDER SecurityTrustBoundary = 3"
| "PROFILE_ORDER ExternalIntegration = 4"
| "PROFILE_ORDER ReleaseRequired = 5"

fun REQUIRED_CHECKS :: "adaptive_profile \<Rightarrow> string list" where
  "REQUIRED_CHECKS DocsMinimal = [''docs-build'', ''docs-spelling'']"
| "REQUIRED_CHECKS CodeRuntime = [''build'', ''lint'', ''focused-test'']"
| "REQUIRED_CHECKS UiPresentation = [''ui-accessibility'', ''ui-interaction'']"
| "REQUIRED_CHECKS SecurityTrustBoundary = [''security-negative'', ''unsafe-input'', ''authority-secret'']"
| "REQUIRED_CHECKS ExternalIntegration = [''remote-readback'', ''timeout-recovery'', ''idempotency'']"
| "REQUIRED_CHECKS ReleaseRequired = [''delivery-readback'']"

definition selectAdaptiveProfilesV1 ::
  "js \<Rightarrow> js list \<Rightarrow> js list \<Rightarrow> bool \<Rightarrow> adaptive_denial + adaptive_profile list" where
  "selectAdaptiveProfilesV1 sliceType risks requested releaseRequired =
     (case memberOf slice_type_text ADAPTIVE_SLICE_TYPES_V1 sliceType of
        None \<Rightarrow> Inl UNKNOWN_PROFILE
      | Some t \<Rightarrow>
          if list_ex (\<lambda>r. r \<notin> set (map JStr ADAPTIVE_RISKS_V1)) risks then Inl UNKNOWN_RISK_ATTRIBUTE
          else if list_ex (\<lambda>p. memberOf profile_text ADAPTIVE_PROFILES_V1 p = None) requested
          then Inl UNKNOWN_PROFILE
          else
            (let chosen = uniq (PROFILE_BY_TYPE t # map (\<lambda>p. the (memberOf profile_text ADAPTIVE_PROFILES_V1 p)) requested);
                 secured = set_add_if (JStr ''security'' \<in> set risks \<or> JStr ''trust'' \<in> set risks) SecurityTrustBoundary chosen;
                 connected = set_add_if (JStr ''external'' \<in> set risks) ExternalIntegration secured;
                 profiles = set_add_if releaseRequired ReleaseRequired connected
             in Inr (sort_key PROFILE_ORDER profiles)))"

subsection \<open>Guards\<close>

text \<open>The record and identifier guards are those of the fabric, written out again in the module.\<close>

definition adaptive_path :: "string \<Rightarrow> bool" where
  "adaptive_path s \<longleftrightarrow> length s > 0 \<and> length s \<le> 512
     \<and> hd s \<noteq> CHR ''/'' \<and> backslash \<notin> set s \<and> CHR 0x00 \<notin> set s \<and> s = normalize_NFC s
     \<and> list_all (\<lambda>part. length part > 0 \<and> part \<noteq> ''.'' \<and> part \<noteq> ''..'') (split_on (CHR ''/'') s)"

definition isSafeAdaptivePathV1 :: "js \<Rightarrow> bool" where
  "isSafeAdaptivePathV1 v = str_test adaptive_path v"

definition adaptiveScopeDigestV1 :: "hash \<Rightarrow> (string \<Rightarrow> string \<Rightarrow> bool) \<Rightarrow> string list \<Rightarrow> string" where
  "adaptiveScopeDigestV1 H le scope = digest_of H (strs_js (sort_by le scope))"

definition adaptiveSpecDigestV1 :: "hash \<Rightarrow> js \<Rightarrow> string res" where
  "adaptiveSpecDigestV1 H spec = digest_js H spec"

definition registered_check :: "js \<Rightarrow> bool" where
  "registered_check v \<longleftrightarrow> v \<in> set (map JStr ADAPTIVE_CHECK_IDS_V1)"

definition readGate :: "js \<Rightarrow> adaptive_gate" where
  "readGate v =
     (let f = getf (fields_of v) in
      \<lparr>ag_id = str_of (f ''id''), ag_checkId = str_of (f ''checkId''), ag_expect = f ''expect'',
       ag_dependsOn = map str_of (elems_of (f ''dependsOn'')), ag_delegated = (f ''delegated'' = JBool True)\<rparr>)"

subsection \<open>Dependencies\<close>

text \<open>\<open>byId.get(id)\<close>: the last gate of an identifier.\<close>

definition gateById :: "adaptive_gate list \<Rightarrow> string \<Rightarrow> adaptive_gate option" where
  "gateById gates i = find_last (\<lambda>g. ag_id g = i) gates"

text \<open>The closure \<open>visit\<close>; its fuel bounds the depth of the recursion.\<close>

primrec gateVisit :: "nat \<Rightarrow> adaptive_gate list \<Rightarrow> string \<Rightarrow> dfs \<Rightarrow> (bool \<times> dfs) option" where
  "gateVisit 0 gates i s = None"
| "gateVisit (Suc fuel) gates i s =
     (if i \<in> set (visiting s) then Some (True, s)
      else if i \<in> set (visited s) then Some (False, s)
      else
        (case gateById gates i of
           None \<Rightarrow> Some (True, s)
         | Some gate \<Rightarrow>
             (case some_st (gateVisit fuel gates) (ag_dependsOn gate) (s\<lparr>visiting := set_add i (visiting s)\<rparr>) of
                None \<Rightarrow> None
              | Some (True, s') \<Rightarrow> Some (True, s')
              | Some (False, s') \<Rightarrow>
                  Some (False, s'\<lparr>visiting := removeAll i (visiting s'), visited := set_add i (visited s')\<rparr>))))"

definition validateDependencies :: "adaptive_gate list \<Rightarrow> adaptive_denial option" where
  "validateDependencies gates =
     (if length (uniq (map ag_id gates)) \<noteq> length gates
        \<or> list_ex (\<lambda>g. list_ex (\<lambda>i. gateById gates i = None) (ag_dependsOn g)) gates
      then Some INVALID_DEPENDENCIES
      else
        (case some_st (\<lambda>g s. gateVisit (Suc (length gates)) gates (ag_id g) s) gates dfs_start of
           Some (False, s) \<Rightarrow> None
         | _ \<Rightarrow> Some CYCLIC_DEPENDENCIES))"

subsection \<open>The specification\<close>

definition SPEC_KEYS :: "string list" where
  "SPEC_KEYS = [''schemaVersion'', ''sliceId'', ''rootGoal'', ''subjectDigest'', ''scope'', ''scopeDigest'',
     ''sliceType'', ''risks'', ''requestedProfiles'', ''releaseRequired'', ''productEvidenceRequired'',
     ''evidenceMaxAgeMs'', ''gates'']"

definition validAdaptiveGate :: "js \<Rightarrow> bool" where
  "validAdaptiveGate g \<longleftrightarrow>
     (let f = getf (fields_of g); e = getf (fields_of (f ''expect'')) in
      exactKeysOpt g [''id'', ''checkId'', ''expect'', ''dependsOn''] [''delegated'']
      \<and> isIdentifier (f ''id'') \<and> registered_check (f ''checkId'')
      \<and> exactKeysOpt (f ''expect'') [''exitCode'', ''stdout''] []
      \<and> is_safe_integer (e ''exitCode'') \<and> str_test (\<lambda>s. length s \<le> 16384) (e ''stdout'')
      \<and> is_array (f ''dependsOn'') \<and> list_all isIdentifier (elems_of (f ''dependsOn''))
      \<and> (\<not> hasOwn g ''delegated'' \<or> is_bool (f ''delegated'')))"

definition distinct_elems :: "js \<Rightarrow> bool" where
  "distinct_elems v \<longleftrightarrow> is_array v \<and> length (uniq (elems_of v)) = length (elems_of v)"

definition validateAdaptiveGateSpecV1 :: "hash \<Rightarrow> (string \<Rightarrow> string \<Rightarrow> bool) \<Rightarrow> js \<Rightarrow> bool" where
  "validateAdaptiveGateSpecV1 H le v =
     (let f = getf (fields_of v) in
      if \<not> exactKeysOpt v SPEC_KEYS [] then False
      else if f ''schemaVersion'' \<noteq> JStr ADAPTIVE_GATE_SPEC_SCHEMA_V1 \<or> \<not> isIdentifier (f ''sliceId'')
        \<or> \<not> str_test (\<lambda>s. 3 \<le> length s \<and> length s \<le> 512) (f ''rootGoal'')
        \<or> \<not> isDigest (f ''subjectDigest'') \<or> \<not> is_array (f ''scope'') \<or> elems_of (f ''scope'') = []
        \<or> \<not> list_all isSafeAdaptivePathV1 (elems_of (f ''scope'')) \<or> \<not> distinct_elems (f ''scope'')
        \<or> f ''scopeDigest'' \<noteq> JStr (adaptiveScopeDigestV1 H le (map str_of (elems_of (f ''scope''))))
        \<or> memberOf slice_type_text ADAPTIVE_SLICE_TYPES_V1 (f ''sliceType'') = None
        \<or> \<not> distinct_elems (f ''risks'') \<or> \<not> distinct_elems (f ''requestedProfiles'')
        \<or> \<not> is_bool (f ''releaseRequired'') \<or> \<not> is_bool (f ''productEvidenceRequired'')
        \<or> \<not> is_safe_integer (f ''evidenceMaxAgeMs'') \<or> int_of_js (f ''evidenceMaxAgeMs'') \<le> 0
        \<or> \<not> is_array (f ''gates'') \<or> elems_of (f ''gates'') = [] then False
      else
        (case selectAdaptiveProfilesV1 (f ''sliceType'') (elems_of (f ''risks'')) (elems_of (f ''requestedProfiles''))
            (f ''releaseRequired'' = JBool True) of
           Inl e \<Rightarrow> False
         | Inr profiles \<Rightarrow>
             list_all validAdaptiveGate (elems_of (f ''gates''))
             \<and> validateDependencies (map readGate (elems_of (f ''gates''))) = None))"

subsection \<open>Receipts\<close>

definition receipt_core ::
  "hash \<Rightarrow> string \<Rightarrow> string \<Rightarrow> int \<Rightarrow> int \<Rightarrow> adaptive_gate \<Rightarrow> check_result \<Rightarrow> fields" where
  "receipt_core H subjectDigest specDigest nowMs maxAge gate result =
     [(''schemaVersion'', JStr ADAPTIVE_GATE_RECEIPT_SCHEMA_V1), (''gateId'', JStr (ag_id gate)),
      (''checkId'', JStr (ag_checkId gate)), (''subjectDigest'', JStr subjectDigest), (''specDigest'', JStr specDigest),
      (''expectationDigest'', JStr (digest_of H (ag_expect gate))),
      (''verifierVersion'', JStr ADAPTIVE_GATE_VERIFIER_VERSION_V1),
      (''resultDigest'', JStr (digest_of H (check_result_js result))),
      (''observedAtMs'', jint nowMs), (''expiresAtMs'', jint (nowMs + maxAge))]"

definition gate_receipt ::
  "hash \<Rightarrow> string \<Rightarrow> string \<Rightarrow> int \<Rightarrow> int \<Rightarrow> adaptive_gate \<Rightarrow> check_result \<Rightarrow> js" where
  "gate_receipt H subjectDigest specDigest nowMs maxAge gate result =
     (let unsigned = receipt_core H subjectDigest specDigest nowMs maxAge gate result in
      obj (unsigned @ [(''receiptDigest'', JStr (digest_of H (obj unsigned)))]))"

definition RECEIPT_GATE_KEYS :: "string list" where
  "RECEIPT_GATE_KEYS = [''schemaVersion'', ''gateId'', ''checkId'', ''subjectDigest'', ''specDigest'',
     ''expectationDigest'', ''verifierVersion'', ''resultDigest'', ''observedAtMs'', ''expiresAtMs'', ''receiptDigest'']"

text \<open>Where the digest of a receipt is taken, every property of it has been found to be a text or an integer.\<close>

definition verifyAdaptiveReceiptV1 :: "hash \<Rightarrow> js \<Rightarrow> int \<Rightarrow> adaptive_result" where
  "verifyAdaptiveReceiptV1 H receipt nowMs =
     (let f = getf (fields_of receipt) in
      if \<not> exactKeysOpt receipt RECEIPT_GATE_KEYS [] \<or> f ''schemaVersion'' \<noteq> JStr ADAPTIVE_GATE_RECEIPT_SCHEMA_V1
        \<or> \<not> isIdentifier (f ''gateId'') \<or> \<not> registered_check (f ''checkId'')
        \<or> \<not> isDigest (f ''subjectDigest'') \<or> \<not> isDigest (f ''specDigest'') \<or> \<not> isDigest (f ''expectationDigest'')
        \<or> f ''verifierVersion'' \<noteq> JStr ADAPTIVE_GATE_VERIFIER_VERSION_V1 \<or> \<not> isDigest (f ''resultDigest'')
        \<or> \<not> is_safe_integer (f ''observedAtMs'') \<or> int_of_js (f ''observedAtMs'') < 0
        \<or> \<not> is_safe_integer (f ''expiresAtMs'') \<or> int_of_js (f ''expiresAtMs'') \<le> int_of_js (f ''observedAtMs'')
        \<or> \<not> isDigest (f ''receiptDigest'')
      then GateDenied FORGED_COUNT_OR_DIGEST ''receipt schema denied''
      else if JStr (digest_of H (obj (without ''receiptDigest'' (fields_of receipt)))) \<noteq> f ''receiptDigest''
      then GateDenied FORGED_COUNT_OR_DIGEST (str_of (f ''gateId''))
      else if int_of_js (f ''expiresAtMs'') < nowMs then GateDenied STALE_RECEIPT (str_of (f ''gateId''))
      else Passed \<lparr>rp_selectedProfiles = [], rp_receipts = [receipt], rp_selectedCount = 0,
             rp_selectionDigest = digest_of H (arr []), rp_parentReverifications = 0\<rparr>)"

subsection \<open>The run of the gates\<close>

text \<open>
  The explanations given before the specification is validated as a whole. \<open>available\<close> has whatever the gates name as
  their check.
\<close>

definition available_checks :: "js list \<Rightarrow> js list" where
  "available_checks gates = map (\<lambda>g. getf (fields_of g) ''checkId'') (filter is_record gates)"

definition missing_checks :: "adaptive_profile list \<Rightarrow> js list \<Rightarrow> string list" where
  "missing_checks profiles gates =
     filter (\<lambda>c. JStr c \<notin> set (available_checks gates)) (concat (map REQUIRED_CHECKS profiles))"

definition dependency_shaped :: "js \<Rightarrow> bool" where
  "dependency_shaped g \<longleftrightarrow> is_record g \<and> isIdentifier (getf (fields_of g) ''id'')
     \<and> is_array (getf (fields_of g) ''dependsOn'') \<and> list_all isIdentifier (elems_of (getf (fields_of g) ''dependsOn''))"

definition preliminary_denial :: "js \<Rightarrow> (adaptive_denial \<times> string) option" where
  "preliminary_denial spec =
     (let f = getf (fields_of spec); listed = is_array (f ''gates''); gates = elems_of (f ''gates'') in
      if \<not> is_record spec then None
      else if listed \<and> list_ex (\<lambda>g. \<not> is_record g \<or> \<not> hasOwn g ''checkId'' \<or> \<not> hasOwn g ''expect'') gates
      then Some (MISSING_CHECK_EXPECT, ''every mechanical gate requires CHECK and EXPECT'')
      else if is_array (f ''scope'') \<and> list_ex (\<lambda>p. \<not> isSafeAdaptivePathV1 p) (elems_of (f ''scope''))
      then Some (UNSAFE_EVALUATOR_INPUT, ''unsafe scope path'')
      else if listed \<and> list_ex (\<lambda>g. is_record g \<and> \<not> registered_check (getf (fields_of g) ''checkId'')) gates
      then Some (UNSAFE_EVALUATOR_INPUT, ''check is not registered'')
      else
        (case (if listed \<and> list_all dependency_shaped gates then validateDependencies (map readGate gates) else None) of
           Some reason \<Rightarrow> Some (reason, ''dependency graph denied'')
         | None \<Rightarrow>
             if is_array (f ''risks'') \<and> is_array (f ''requestedProfiles'')
             then
               (case selectAdaptiveProfilesV1 (f ''sliceType'') (elems_of (f ''risks'')) (elems_of (f ''requestedProfiles''))
                   (f ''releaseRequired'' = JBool True) of
                  Inl reason \<Rightarrow> Some (reason, ''unknown adaptive selector input'')
                | Inr profiles \<Rightarrow>
                    if listed \<and> missing_checks profiles gates \<noteq> []
                    then Some (MISSING_CHECK_EXPECT, join '','' (missing_checks profiles gates))
                    else None)
             else None))"

text \<open>What the loop over the gates knows: digests, clock and lifetime, and the receipts of children.\<close>

record gate_context =
  gx_subjectDigest :: string
  gx_specDigest :: string
  gx_maxAge :: int

definition delegated_denied :: "hash \<Rightarrow> int \<Rightarrow> js \<Rightarrow> js \<Rightarrow> bool" where
  "delegated_denied H nowMs delegated receipt \<longleftrightarrow>
     (let d = getf (fields_of delegated); r = getf (fields_of receipt) in
      (case verifyAdaptiveReceiptV1 H delegated nowMs of GateDenied e t \<Rightarrow> True | Passed p \<Rightarrow> False)
      \<or> d ''subjectDigest'' \<noteq> r ''subjectDigest'' \<or> d ''specDigest'' \<noteq> r ''specDigest''
      \<or> d ''checkId'' \<noteq> r ''checkId'' \<or> d ''resultDigest'' \<noteq> r ''resultDigest'')"

definition check_gate ::
  "hash \<Rightarrow> gate_args \<Rightarrow> gate_context \<Rightarrow> adaptive_gate \<Rightarrow> check_result list \<Rightarrow> adaptive_denial + js" where
  "check_gate H a x gate runs =
     (case runs of
        [first, second] \<Rightarrow>
          if cr_timedOut first \<or> cr_timedOut second then Inl CHECK_TIMEOUT
          else if canonicalJson (check_result_js first) \<noteq> canonicalJson (check_result_js second) then Inl FLAKY_RESULT
          else if int_or_null (cr_exitCode first) \<noteq> getf (fields_of (ag_expect gate)) ''exitCode''
            \<or> JStr (cr_stdout first) \<noteq> getf (fields_of (ag_expect gate)) ''stdout'' then Inl CHECK_FAILED
          else
            (let receipt = gate_receipt H (gx_subjectDigest x) (gx_specDigest x) (ga_nowMs a) (gx_maxAge x) gate first in
             if ag_delegated gate
               \<and> delegated_denied H (ga_nowMs a) (getf (ga_delegatedReceipts a) (ag_id gate)) receipt
             then Inl DELEGATED_NOT_REVERIFIED
             else Inr receipt)
      | _ \<Rightarrow> Inl CHECK_TIMEOUT)"

fun runGates ::
  "hash \<Rightarrow> gate_args \<Rightarrow> gate_context \<Rightarrow> nat \<Rightarrow> adaptive_gate list \<Rightarrow> (adaptive_denial \<times> string + js list) res" where
  "runGates H a x n [] = Inr (Inr [])"
| "runGates H a x n (gate # gates) =
     res_bind (ga_execute a n (ag_checkId gate)) (\<lambda>runs.
       (case check_gate H a x gate runs of
          Inl e \<Rightarrow> Inr (Inl (e, ag_id gate))
        | Inr receipt \<Rightarrow>
            res_bind (runGates H a x (Suc n) gates) (\<lambda>rest.
              Inr (case rest of Inl e \<Rightarrow> Inl e | Inr receipts \<Rightarrow> Inr (receipt # receipts)))))"

definition profiles_js :: "adaptive_profile list \<Rightarrow> js" where
  "profiles_js ps = strs_js (map profile_text ps)"

text \<open>The specification has passed: its gates are run. An exception of a check is thrown on.\<close>

definition verifyAdmitted ::
  "hash \<Rightarrow> (string \<Rightarrow> string \<Rightarrow> bool) \<Rightarrow> gate_args \<Rightarrow> adaptive_result res" where
  "verifyAdmitted H le a =
     (let spec = ga_spec a; f = getf (fields_of spec) in
      if \<not> pred_option (\<lambda>scope. JStr (adaptiveScopeDigestV1 H le scope) = f ''scopeDigest'') (ga_expectedScope a)
      then Inr (GateDenied SILENT_SCOPE_SHRINK ''expected scope digest differs'')
      else
        (case selectAdaptiveProfilesV1 (f ''sliceType'') (elems_of (f ''risks'')) (elems_of (f ''requestedProfiles''))
            (f ''releaseRequired'' = JBool True) of
           Inl reason \<Rightarrow> Inr (GateDenied reason ''profile selection denied'')
         | Inr profiles \<Rightarrow>
             (let selectionDigest = digest_of H (profiles_js profiles);
                  gates = map readGate (elems_of (f ''gates'')) in
              if \<not> pred_option (\<lambda>n. n = int (length profiles)) (ga_claimedCount a)
                \<or> \<not> pred_option (\<lambda>d. d = selectionDigest) (ga_claimedSelectionDigest a)
              then Inr (GateDenied FORGED_COUNT_OR_DIGEST ''selection claim differs from recompute'')
              else
                res_bind (adaptiveSpecDigestV1 H spec) (\<lambda>specDigest.
                res_bind (runGates H a \<lparr>gx_subjectDigest = str_of (f ''subjectDigest''), gx_specDigest = specDigest,
                    gx_maxAge = int_of_js (f ''evidenceMaxAgeMs'')\<rparr> 0 gates) (\<lambda>outcome.
                  Inr (case outcome of
                         Inl (e, gate) \<Rightarrow> GateDenied e gate
                       | Inr receipts \<Rightarrow> Passed
                           \<lparr>rp_selectedProfiles = profiles, rp_receipts = receipts,
                            rp_selectedCount = length profiles, rp_selectionDigest = selectionDigest,
                            rp_parentReverifications = length (filter ag_delegated gates)\<rparr>))))))"

definition verifyAdaptiveGatesV1 ::
  "hash \<Rightarrow> (string \<Rightarrow> string \<Rightarrow> bool) \<Rightarrow> gate_args \<Rightarrow> adaptive_result res" where
  "verifyAdaptiveGatesV1 H le a =
     (case preliminary_denial (ga_spec a) of
        Some (reason, detail) \<Rightarrow> Inr (GateDenied reason detail)
      | None \<Rightarrow>
          if \<not> validateAdaptiveGateSpecV1 H le (ga_spec a)
          then Inr (GateDenied INVALID_SPEC ''closed schema or invariant denied'')
          else verifyAdmitted H le a)"

subsection \<open>Delivery and completion\<close>

datatype delivery_state = PR_READY | PR_OPEN | CI_GREEN | MERGED | RELEASE_DECISION | RELEASED | CLOSED_NO_RELEASE

fun delivery_text :: "delivery_state \<Rightarrow> string" where
  "delivery_text PR_READY = ''PR_READY''"
| "delivery_text PR_OPEN = ''PR_OPEN''"
| "delivery_text CI_GREEN = ''CI_GREEN''"
| "delivery_text MERGED = ''MERGED''"
| "delivery_text RELEASE_DECISION = ''RELEASE_DECISION''"
| "delivery_text RELEASED = ''RELEASED''"
| "delivery_text CLOSED_NO_RELEASE = ''CLOSED_NO_RELEASE''"

fun DELIVERY_TRANSITIONS :: "delivery_state \<Rightarrow> delivery_state list" where
  "DELIVERY_TRANSITIONS PR_READY = [PR_OPEN]"
| "DELIVERY_TRANSITIONS PR_OPEN = [CI_GREEN]"
| "DELIVERY_TRANSITIONS CI_GREEN = [MERGED]"
| "DELIVERY_TRANSITIONS MERGED = [RELEASE_DECISION]"
| "DELIVERY_TRANSITIONS RELEASE_DECISION = [RELEASED, CLOSED_NO_RELEASE]"
| "DELIVERY_TRANSITIONS RELEASED = []"
| "DELIVERY_TRANSITIONS CLOSED_NO_RELEASE = []"

definition DELIVERY_STATES :: "delivery_state list" where
  "DELIVERY_STATES = [PR_READY, PR_OPEN, CI_GREEN, MERGED, RELEASE_DECISION, RELEASED, CLOSED_NO_RELEASE]"

text \<open>The loop compares each state with the one before it.\<close>

fun delivery_steps :: "delivery_state \<Rightarrow> delivery_state list \<Rightarrow> adaptive_denial option" where
  "delivery_steps previous [] = None"
| "delivery_steps previous (current # rest) =
     (if current \<notin> set (DELIVERY_TRANSITIONS previous) then Some INVALID_STATE_JUMP else delivery_steps current rest)"

fun validateAdaptiveDeliveryHistoryV1 :: "delivery_state list \<Rightarrow> adaptive_denial option" where
  "validateAdaptiveDeliveryHistoryV1 [] = Some INVALID_STATE_JUMP"
| "validateAdaptiveDeliveryHistoryV1 (first # rest) =
     (if first \<noteq> PR_READY then Some INVALID_STATE_JUMP else delivery_steps first rest)"

datatype progress_state = OpenWork | WaitingExternal | StaleAttention | CompleteWork
datatype product_evidence = NotRequired | EvidenceOpen | EvidenceComplete
datatype next_action = AdvancePhase | ContinueInternalWork | Attention

record completion_args =
  ca_verificationPassed :: bool
  ca_waitingExternal :: bool
  ca_activeSinceMs :: int
  ca_nowMs :: int
  ca_deadmanMs :: int
  ca_deliveryHistory :: "delivery_state list"
  ca_releaseRequired :: bool
  ca_productEvidenceRequired :: bool
  ca_productEvidenceComplete :: bool

record completion =
  cp_localState :: progress_state
  cp_deliveryState :: delivery_state
  cp_deliveryTerminal :: bool
  cp_productEvidenceState :: product_evidence
  cp_rootState :: progress_state
  cp_nextAction :: next_action
  cp_nonClaims :: "string list"

definition projectAdaptiveCompletionV1 :: "completion_args \<Rightarrow> adaptive_denial + completion" where
  "projectAdaptiveCompletionV1 a =
     (if ca_waitingExternal a \<and> ca_verificationPassed a then Inl EXTERNAL_WAIT_MISREPORTED
      else
        (case validateAdaptiveDeliveryHistoryV1 (ca_deliveryHistory a) of
           Some e \<Rightarrow> Inl e
         | None \<Rightarrow>
             (let deliveryState = last (ca_deliveryHistory a);
                  deliveryTerminal = (deliveryState = RELEASED
                    \<or> \<not> ca_releaseRequired a \<and> deliveryState = CLOSED_NO_RELEASE);
                  productEvidenceState = (if \<not> ca_productEvidenceRequired a then NotRequired
                    else if ca_productEvidenceComplete a then EvidenceComplete else EvidenceOpen);
                  stale = (\<not> ca_verificationPassed a \<and> \<not> ca_waitingExternal a
                    \<and> ca_nowMs a - ca_activeSinceMs a > ca_deadmanMs a);
                  localState = (if stale then StaleAttention else if ca_waitingExternal a then WaitingExternal
                    else if ca_verificationPassed a then CompleteWork else OpenWork);
                  complete = (localState = CompleteWork \<and> deliveryTerminal \<and> productEvidenceState \<noteq> EvidenceOpen);
                  rootState = (if complete then CompleteWork else if stale then StaleAttention
                    else if ca_waitingExternal a then WaitingExternal else OpenWork)
              in Inr \<lparr>cp_localState = localState, cp_deliveryState = deliveryState,
                   cp_deliveryTerminal = deliveryTerminal, cp_productEvidenceState = productEvidenceState,
                   cp_rootState = rootState,
                   cp_nextAction = (if complete then AdvancePhase else if stale then Attention
                     else if ca_waitingExternal a then ContinueInternalWork else AdvancePhase),
                   cp_nonClaims = (if complete then []
                     else [''Local evidence does not imply terminal delivery or product evidence.''])\<rparr>)))"

text \<open>
  \<open>Object.hasOwn(DELIVERY_TRANSITIONS, state)\<close> converts the state to a property key, so an array of one state's name
  counts as that state here, and an object with a \<open>toString\<close> of its own makes the conversion throw. The comparisons of
  the history are by identity: an array in it is refused there.
\<close>

fun key_throws :: "js \<Rightarrow> bool" where
  "key_throws (JObj i kvs) = (''toString'' \<in> set (map fst kvs))"
| "key_throws (JArr i vs) = list_ex key_throws vs"
| "key_throws v = False"

fun unknown_state :: "js list \<Rightarrow> bool res" where
  "unknown_state [] = Inr False"
| "unknown_state (v # vs) =
     (if key_throws v then Inl ''TypeError''
      else if to_string v \<notin> set (map delivery_text DELIVERY_STATES) then Inr True
      else unknown_state vs)"

definition adaptDeliveryConveyorReadbackV1 :: "js \<Rightarrow> (adaptive_denial + delivery_state list) res" where
  "adaptDeliveryConveyorReadbackV1 v =
     (let f = getf (fields_of v) in
      if \<not> exactKeysOpt v [''schemaVersion'', ''history'', ''terminal''] []
        \<or> f ''schemaVersion'' \<noteq> JStr ''pansphaira.delivery/readback/v1'' \<or> \<not> is_array (f ''history'')
      then Inr (Inl CLAIM_MISMATCH)
      else
        res_bind (unknown_state (elems_of (f ''history''))) (\<lambda>unknown.
          if unknown \<or> \<not> is_bool (f ''terminal'') then Inr (Inl CLAIM_MISMATCH)
          else
            (let read = map (memberOf delivery_text DELIVERY_STATES) (elems_of (f ''history''));
                 history = map the read in
             if None \<in> set read \<or> validateAdaptiveDeliveryHistoryV1 history \<noteq> None then Inr (Inl CLAIM_MISMATCH)
             else if JBool (last history \<in> set [RELEASED, CLOSED_NO_RELEASE]) = f ''terminal''
             then Inr (Inr history)
             else Inr (Inl CLAIM_MISMATCH))))"

end
