(* ===== verification/AdaptiveFacts.thy ===== *)
theory AdaptiveFacts
  imports AdaptiveGates FabricGraph
begin

text \<open>
  What the adaptive gates compute: their dependency search is that of the fabric, the preliminary denials refuse no
  admitted specification but for missing checks, and the run of the gates is a list of evidence, gate by gate.
\<close>

subsection \<open>The search is that of the fabric\<close>

definition as_node :: "adaptive_gate \<Rightarrow> dag_node" where
  "as_node g = \<lparr>nd_id = ag_id g, dependsOn = ag_dependsOn g, nd_inputs = [], ownedTests = [], nd_invariants = [],
     riskClass = LOW, globalInvalidation = False, evidenceTtlMs = None, ttlJustification = None\<rparr>"

lemma as_node_simps [simp]: "nd_id (as_node g) = ag_id g" "dependsOn (as_node g) = ag_dependsOn g"
  by (simp_all add: as_node_def)

lemma byId_as_node: "byId (map as_node gates) i = map_option as_node (gateById gates i)"
  by (induction gates rule: rev_induct) (simp_all add: byId_def gateById_def)

lemma some_st_cong: "(\<And>x s. x \<in> set xs \<Longrightarrow> f x s = g x s) \<Longrightarrow> some_st f xs s = some_st g xs s"
  by (induction xs arbitrary: s) (auto split: option.splits bool.splits)

definition known_dependencies :: "adaptive_gate list \<Rightarrow> bool" where
  "known_dependencies gates \<longleftrightarrow> (\<forall>g \<in> set gates. \<forall>i \<in> set (ag_dependsOn g). gateById gates i \<noteq> None)"

lemma gateVisit_visit:
  assumes "known_dependencies gates"
  shows "gateVisit fuel gates i s = visit fuel (map as_node gates) i s"
proof (induction fuel arbitrary: i s)
  case (Suc fuel)
  have "some_st (gateVisit fuel gates) (ag_dependsOn g) s' =
      some_st (\<lambda>d t. if byId (map as_node gates) d = None then Some (True, t) else visit fuel (map as_node gates) d t)
        (ag_dependsOn g) s'" if "gateById gates i = Some g" for g s'
  proof (rule some_st_cong)
    fix d t assume d: "d \<in> set (ag_dependsOn g)"
    have "g \<in> set gates" using that find_last_Some unfolding gateById_def by metis
    with d assms obtain g' where "gateById gates d = Some g'" unfolding known_dependencies_def by blast
    then show "gateVisit fuel gates d t = (if byId (map as_node gates) d = None then Some (True, t)
        else visit fuel (map as_node gates) d t)"
      using Suc.IH by (simp add: byId_as_node)
  qed
  then show ?case by (simp add: byId_as_node split: option.split)
qed simp

definition gate_order :: "adaptive_gate list \<Rightarrow> (string \<times> string) set" where
  "gate_order gates = {(ag_id g, i) | g i. g \<in> set gates \<and> i \<in> set (ag_dependsOn g)}"

definition gates_ok :: "adaptive_gate list \<Rightarrow> bool" where
  "gates_ok gates \<longleftrightarrow> distinct (map ag_id gates) \<and> Range (gate_order gates) \<subseteq> ag_id ` set gates
     \<and> acyclic (gate_order gates)"

lemma gates_ok_dag: "gates_ok gates \<longleftrightarrow> dag_ok (map as_node gates)"
proof -
  have "gate_order gates = dep_rel (map as_node gates)"
    by (force simp: gate_order_def dep_rel_def)
  moreover have "ag_id ` set gates = node_ids (map as_node gates)" by (simp add: node_ids_def image_image)
  ultimately show ?thesis by (simp add: gates_ok_def dag_ok_def comp_def)
qed

lemma known_dependencies_iff: "known_dependencies gates \<longleftrightarrow> Range (gate_order gates) \<subseteq> ag_id ` set gates"
proof -
  have "gateById gates i \<noteq> None \<longleftrightarrow> i \<in> ag_id ` set gates" for i
    unfolding gateById_def find_last_None by auto
  then show ?thesis unfolding known_dependencies_def gate_order_def by blast
qed

theorem validateDependencies_iff: "validateDependencies gates = None \<longleftrightarrow> gates_ok gates"
proof (cases "distinct (map ag_id gates) \<and> known_dependencies gates")
  case True
  let ?nodes = "map as_node gates"
  have l: "length (uniq (map ag_id gates)) = length gates"
    using True length_uniq_iff [of "map ag_id gates"] by simp
  then have d: "dagSearch ?nodes = map_option fst
      (some_st (\<lambda>n s. visit (Suc (length gates)) ?nodes (nd_id n) s) ?nodes dfs_start)"
    by (simp add: dagSearch_def comp_def del: visit.simps)
  have "some_st (\<lambda>n s. visit k ?nodes (nd_id n) s) (map as_node gs) t
      = some_st (\<lambda>g s. gateVisit k gates (ag_id g) s) gs t" for gs t k
    using True by (induction gs arbitrary: t) (auto simp: gateVisit_visit split: option.split bool.split)
  note m = this
  have n: "\<not> list_ex (\<lambda>g. list_ex (\<lambda>i. gateById gates i = None) (ag_dependsOn g)) gates"
    using True by (auto simp: list_ex_iff known_dependencies_def)
  have "validateDependencies gates = None \<longleftrightarrow> dagSearch ?nodes = Some False"
    unfolding validateDependencies_def d m using l n
    by (auto simp del: gateVisit.simps split: option.splits bool.splits)
  also have "\<dots> \<longleftrightarrow> gates_ok gates" by (simp add: dagSearch_iff gates_ok_dag)
  finally show ?thesis .
next
  case False
  then have "validateDependencies gates \<noteq> None"
    using length_uniq_iff [of "map ag_id gates"]
    by (auto simp: validateDependencies_def list_ex_iff known_dependencies_def)
  moreover have "\<not> gates_ok gates" using False by (auto simp: gates_ok_def known_dependencies_iff)
  ultimately show ?thesis by blast
qed

subsection \<open>Admitted specifications\<close>

definition spec_field :: "gate_args \<Rightarrow> string \<Rightarrow> js" where
  "spec_field a k = getf (fields_of (ga_spec a)) k"

definition spec_gates :: "gate_args \<Rightarrow> adaptive_gate list" where
  "spec_gates a = map readGate (elems_of (spec_field a ''gates''))"

definition spec_profiles :: "gate_args \<Rightarrow> adaptive_denial + adaptive_profile list" where
  "spec_profiles a = selectAdaptiveProfilesV1 (spec_field a ''sliceType'') (elems_of (spec_field a ''risks''))
     (elems_of (spec_field a ''requestedProfiles'')) (spec_field a ''releaseRequired'' = JBool True)"

lemma valid_spec:
  assumes "validateAdaptiveGateSpecV1 H le (ga_spec a)"
  shows "exactKeysOpt (ga_spec a) SPEC_KEYS []"
    "is_array (spec_field a ''scope'')" "list_all isSafeAdaptivePathV1 (elems_of (spec_field a ''scope''))"
    "is_array (spec_field a ''gates'')" "list_all validAdaptiveGate (elems_of (spec_field a ''gates''))"
    "\<exists>profiles. spec_profiles a = Inr profiles" "gates_ok (spec_gates a)"
    "is_array (spec_field a ''risks'')" "is_array (spec_field a ''requestedProfiles'')"
    "isDigest (spec_field a ''subjectDigest'')" "is_safe_integer (spec_field a ''evidenceMaxAgeMs'')"
    "0 < int_of_js (spec_field a ''evidenceMaxAgeMs'')"
  using assms unfolding validateAdaptiveGateSpecV1_def Let_def spec_profiles_def spec_gates_def spec_field_def
  by (auto simp: validateDependencies_iff distinct_elems_def split: if_splits sum.splits)

text \<open>The checks some profile of a selection requires and some gate of the specification makes.\<close>

definition covered :: "adaptive_profile list \<Rightarrow> adaptive_gate list \<Rightarrow> bool" where
  "covered profiles gates \<longleftrightarrow> (\<forall>p \<in> set profiles. set (REQUIRED_CHECKS p) \<subseteq> ag_checkId ` set gates)"

lemma valid_gate_check:
  assumes "validAdaptiveGate g"
  shows "is_record g" "getf (fields_of g) ''checkId'' = JStr (ag_checkId (readGate g))"
    "registered_check (getf (fields_of g) ''checkId'')" "dependency_shaped g"
    "hasOwn g ''checkId''" "hasOwn g ''expect''"
  using assms exactKeysOpt_record
  by (auto simp: validAdaptiveGate_def Let_def readGate_def registered_check_def dependency_shaped_def exactKeysOpt_def hasOwn_def)

lemma missing_Nil:
  assumes "list_all validAdaptiveGate gates"
  shows "missing_checks profiles gates = [] \<longleftrightarrow> covered profiles (map readGate gates)"
proof -
  have "set (available_checks gates) = JStr ` ag_checkId ` set (map readGate gates)"
    using assms valid_gate_check(1,2) by (force simp: available_checks_def list_all_iff image_image)
  then have "JStr c \<notin> set (available_checks gates) \<longleftrightarrow> c \<notin> ag_checkId ` set (map readGate gates)" for c by auto
  then show ?thesis by (auto simp: missing_checks_def covered_def filter_empty_conv)
qed

text \<open>The preliminary denials refuse nothing that is admitted, but for checks that are missing.\<close>

lemma preliminary_admitted:
  assumes v: "validateAdaptiveGateSpecV1 H le (ga_spec a)" and p: "spec_profiles a = Inr profiles"
  shows "preliminary_denial (ga_spec a) = None \<longleftrightarrow> covered profiles (spec_gates a)"
proof -
  note f = valid_spec [OF v]
  let ?gates = "elems_of (spec_field a ''gates'')"
  have r: "is_record (ga_spec a)" by (rule exactKeysOpt_record [OF f(1)])
  have g: "validAdaptiveGate g" if "g \<in> set ?gates" for g using f(5) that by (simp add: list_all_iff)
  have n: "\<not> list_ex (\<lambda>g. \<not> is_record g \<or> \<not> hasOwn g ''checkId'' \<or> \<not> hasOwn g ''expect'') ?gates"
    "\<not> list_ex (\<lambda>g. is_record g \<and> \<not> registered_check (getf (fields_of g) ''checkId'')) ?gates"
    using valid_gate_check(1,3,5,6) [OF g] by (auto simp: list_ex_iff)
  have s: "\<not> list_ex (\<lambda>p. \<not> isSafeAdaptivePathV1 p) (elems_of (spec_field a ''scope''))"
    using f(3) by (auto simp: list_ex_iff list_all_iff)
  have d: "validateDependencies (map readGate ?gates) = None"
    using f(7) by (simp add: validateDependencies_iff spec_gates_def)
  show ?thesis
    unfolding preliminary_denial_def Let_def spec_field_def [symmetric] p [unfolded spec_profiles_def] sum.case
    using r n s d f(4,8,9) missing_Nil [OF f(5), of profiles] by (simp add: spec_gates_def)
qed

subsection \<open>The evidence of a gate\<close>

text \<open>The check of a gate ran twice with the same result, the expected one.\<close>

definition expected_result :: "adaptive_gate \<Rightarrow> check_result \<Rightarrow> bool" where
  "expected_result gate r \<longleftrightarrow> \<not> cr_timedOut r
     \<and> cr_exitCode r = Some (int_of_js (getf (fields_of (ag_expect gate)) ''exitCode''))
     \<and> cr_stdout r = str_of (getf (fields_of (ag_expect gate)) ''stdout'')"

lemma check_result_js_inj: "canonicalJson (check_result_js r) = canonicalJson (check_result_js r') \<longleftrightarrow> r = r'"
proof
  assume e: "canonicalJson (check_result_js r) = canonicalJson (check_result_js r')"
  have p: "plain (check_result_js x)" "js_wf (check_result_js x)" for x by (simp_all add: check_result_js_def)
  have "canonText (check_result_js r) = canonText (check_result_js r')" using e by (simp add: canonText_def)
  then have n: "js_norm (check_result_js r) = js_norm (check_result_js r')" by (intro canonText_norm p)
  have "js_norm (getf (fields_of (check_result_js r)) k) = js_norm (getf (fields_of (check_result_js r')) k)" for k
    using js_norm_obj_getf [of 0 "fields_of (check_result_js r)" 0 "fields_of (check_result_js r')" k] n
    by (simp add: check_result_js_def)
  note k = this [of "''exitCode''"] this [of "''stdout''"] this [of "''stderr''"] this [of "''timedOut''"]
  show "r = r'"
    using k by (intro check_result.equality)
      (auto simp: check_result_js_def int_or_null_def split: option.splits)
qed simp

definition gate_evidence :: "hash \<Rightarrow> gate_args \<Rightarrow> gate_context \<Rightarrow> nat \<Rightarrow> adaptive_gate \<Rightarrow> js \<Rightarrow> bool" where
  "gate_evidence H a x n gate receipt \<longleftrightarrow>
     (\<exists>r. ga_execute a n (ag_checkId gate) = Inr [r, r] \<and> expected_result gate r
        \<and> receipt = gate_receipt H (gx_subjectDigest x) (gx_specDigest x) (ga_nowMs a) (gx_maxAge x) gate r
        \<and> (ag_delegated gate \<longrightarrow>
             \<not> delegated_denied H (ga_nowMs a) (getf (ga_delegatedReceipts a) (ag_id gate)) receipt))"

definition typed_expectation :: "adaptive_gate \<Rightarrow> bool" where
  "typed_expectation gate \<longleftrightarrow> is_safe_integer (getf (fields_of (ag_expect gate)) ''exitCode'')
     \<and> is_string (getf (fields_of (ag_expect gate)) ''stdout'')"

lemma valid_gate_typed: "validAdaptiveGate g \<Longrightarrow> typed_expectation (readGate g)"
  by (auto simp: validAdaptiveGate_def Let_def typed_expectation_def readGate_def is_string_def str_test_iff)

lemma check_gate_Inr_iff:
  assumes "typed_expectation gate"
  shows "check_gate H a x gate runs = Inr receipt \<longleftrightarrow>
    (\<exists>r. runs = [r, r] \<and> expected_result gate r
        \<and> receipt = gate_receipt H (gx_subjectDigest x) (gx_specDigest x) (ga_nowMs a) (gx_maxAge x) gate r
        \<and> (ag_delegated gate \<longrightarrow>
             \<not> delegated_denied H (ga_nowMs a) (getf (ga_delegatedReceipts a) (ag_id gate)) receipt))"
proof -
  obtain e t where e: "getf (fields_of (ag_expect gate)) ''exitCode'' = jint e"
    "getf (fields_of (ag_expect gate)) ''stdout'' = JStr t"
    using assms by (auto simp: typed_expectation_def is_string_iff elim: is_safe_integerE)
  have "int_or_null c = jint e \<longleftrightarrow> c = Some e" for c by (cases c) (simp_all add: int_or_null_def)
  then have x: "expected_result gate r \<longleftrightarrow> \<not> cr_timedOut r
      \<and> \<not> (int_or_null (cr_exitCode r) \<noteq> getf (fields_of (ag_expect gate)) ''exitCode''
        \<or> JStr (cr_stdout r) \<noteq> getf (fields_of (ag_expect gate)) ''stdout'')" for r
    by (simp add: expected_result_def e)
  consider r r' where "runs = [r, r']" | "\<forall>r r'. runs \<noteq> [r, r']" by blast
  then show ?thesis
  proof cases
    case 1
    then show ?thesis
      unfolding check_gate_def Let_def check_result_js_inj x by auto
  next
    case 2
    then have "check_gate H a x gate runs = Inl CHECK_TIMEOUT"
      by (auto simp: check_gate_def split: list.split)
    with 2 show ?thesis by auto
  qed
qed

lemma runGates_Inr_iff:
  assumes "list_all typed_expectation gates"
  shows "runGates H a x n gates = Inr (Inr receipts) \<longleftrightarrow>
    length receipts = length gates \<and> (\<forall>k < length gates. gate_evidence H a x (n + k) (gates ! k) (receipts ! k))"
  using assms
proof (induction gates arbitrary: n receipts)
  case (Cons gate gates)
  have t: "typed_expectation gate" "list_all typed_expectation gates" using Cons.prems by simp_all
  have "runGates H a x n (gate # gates) = Inr (Inr receipts) \<longleftrightarrow>
      (\<exists>receipt rest. receipts = receipt # rest \<and> gate_evidence H a x n gate receipt
        \<and> runGates H a x (Suc n) gates = Inr (Inr rest))"
  proof (cases "ga_execute a n (ag_checkId gate)")
    case (Inr runs)
    have "gate_evidence H a x n gate receipt \<longleftrightarrow> check_gate H a x gate runs = Inr receipt" for receipt
      by (simp add: gate_evidence_def Inr check_gate_Inr_iff [OF t(1)])
    with Inr show ?thesis
      by (cases "check_gate H a x gate runs"; cases "runGates H a x (Suc n) gates" rule: sum.exhaust)
        (auto simp: res_simps split: sum.split sum.split_asm)
  qed (simp add: gate_evidence_def)
  also have "\<dots> \<longleftrightarrow> length receipts = length (gate # gates)
      \<and> (\<forall>k < length (gate # gates). gate_evidence H a x (n + k) ((gate # gates) ! k) (receipts ! k))"
    unfolding Cons.IH [OF t(2)] by (cases receipts) (auto simp: All_less_Suc2)
  finally show ?case .
qed auto

subsection \<open>An admitted specification has a canonical text\<close>

lemma plain_by_keys:
  assumes "is_record v" "js_wf v" "\<And>k. k \<in> set (map fst (fields_of v)) \<Longrightarrow> plain (getf (fields_of v) k)"
  shows "plain v"
proof -
  obtain i kvs where v: "v = JObj i kvs" using assms(1) by (auto simp: is_record_iff)
  have "plain x" if "(k, x) \<in> set kvs" for k x
    using assms(3) [of k] assms(2) that getf_own [of kvs k x] by (force simp: v)
  then show ?thesis by (auto simp: v list_all_iff)
qed

lemma keys_opt: "exactKeysOpt v required optional \<Longrightarrow> k \<in> set (map fst (fields_of v)) \<Longrightarrow> k \<in> set required \<union> set optional"
  by (auto simp: exactKeysOpt_def list_all_iff)

lemma wf_field: "js_wf v \<Longrightarrow> js_wf (getf (fields_of v) k)"
  by (cases v) (auto simp: getf_def list_all_iff split: option.split dest!: map_of_SomeD)

lemma wf_elem: "js_wf v \<Longrightarrow> x \<in> set (elems_of v) \<Longrightarrow> js_wf x"
  by (cases v) (auto simp: list_all_iff)

lemma plain_elems: "is_array v \<Longrightarrow> (\<And>x. x \<in> set (elems_of v) \<Longrightarrow> plain x) \<Longrightarrow> plain v"
  by (cases v) (auto simp: list_all_iff)

lemma plain_tests: "str_test P v \<Longrightarrow> plain v" "is_safe_integer v \<Longrightarrow> plain v" "is_bool v \<Longrightarrow> plain v"
  by (auto simp: str_test_iff elim: is_safe_integerE) (cases v; simp)+

lemma valid_gate_plain:
  assumes v: "validAdaptiveGate g" and w: "js_wf g"
  shows "plain g"
proof (rule plain_by_keys [OF _ w])
  note d = v [unfolded validAdaptiveGate_def Let_def]
  let ?f = "getf (fields_of g)"
  show "is_record g" by (rule valid_gate_check(1) [OF v])
  have e: "plain (?f ''expect'')"
  proof (rule plain_by_keys)
    show "is_record (?f ''expect'')" using d exactKeysOpt_record by blast
    show "js_wf (?f ''expect'')" by (rule wf_field [OF w])
    fix k assume "k \<in> set (map fst (fields_of (?f ''expect'')))"
    then have "k \<in> set [''exitCode'', ''stdout''] \<union> set []" using keys_opt d by blast
    then show "plain (getf (fields_of (?f ''expect'')) k)" using d plain_tests(1,2) by auto
  qed
  have i: "plain x" if "isIdentifier x" for x using that plain_tests(1) by (simp add: isIdentifier_def)
  have a: "is_array (?f ''dependsOn'')" "list_all isIdentifier (elems_of (?f ''dependsOn''))" "isIdentifier (?f ''id'')"
    using d by blast+
  have p: "plain (?f ''dependsOn'')"
  proof (rule plain_elems [OF a(1)])
    fix x assume "x \<in> set (elems_of (?f ''dependsOn''))"
    then have "isIdentifier x" using a(2) unfolding list_all_iff by blast
    then show "plain x" by (rule i)
  qed
  fix k assume k: "k \<in> set (map fst (fields_of g))"
  then have "k \<in> set [''id'', ''checkId'', ''expect'', ''dependsOn''] \<union> set [''delegated'']" using keys_opt d by blast
  moreover have "plain (?f ''delegated'')" if "k = ''delegated''"
  proof -
    have "is_bool (?f ''delegated'')" using d k that unfolding hasOwn_def by blast
    then show ?thesis by (rule plain_tests(3))
  qed
  moreover have "plain (?f ''id'')" by (rule i [OF a(3)])
  moreover have "plain (?f ''checkId'')" using valid_gate_check(2) [OF v] by simp
  ultimately show "plain (?f k)" using e p by (elim UnE) auto
qed

text \<open>What a selection accepts, and what it selects.\<close>

lemma memberOf_None_iff: "memberOf text members v = None \<longleftrightarrow> v \<notin> JStr ` text ` set members"
  by (auto simp: memberOf_def find_None_all)

lemma profiles_Inr_iff:
  "selectAdaptiveProfilesV1 t risks requested release = Inr profiles \<longleftrightarrow>
    (\<exists>slice. memberOf slice_type_text ADAPTIVE_SLICE_TYPES_V1 t = Some slice
       \<and> set risks \<subseteq> JStr ` set ADAPTIVE_RISKS_V1 \<and> set requested \<subseteq> JStr ` profile_text ` set ADAPTIVE_PROFILES_V1
       \<and> profiles = sort_key PROFILE_ORDER
           (set_add_if release ReleaseRequired
             (set_add_if (JStr ''external'' \<in> set risks) ExternalIntegration
               (set_add_if (JStr ''security'' \<in> set risks \<or> JStr ''trust'' \<in> set risks) SecurityTrustBoundary
                 (uniq (PROFILE_BY_TYPE slice # map (\<lambda>p. the (memberOf profile_text ADAPTIVE_PROFILES_V1 p)) requested))))))"
  unfolding selectAdaptiveProfilesV1_def Let_def memberOf_None_iff list_ex_iff
  by (auto split: option.split)

lemma profile_text_inj [simp]: "profile_text p = profile_text q \<longleftrightarrow> p = q"
  by (cases p; cases q) simp_all

lemma all_profiles [simp]: "p \<in> set ADAPTIVE_PROFILES_V1"
  by (cases p) (simp_all add: ADAPTIVE_PROFILES_V1_def)

lemma memberOf_profile [simp]: "memberOf profile_text ADAPTIVE_PROFILES_V1 (JStr (profile_text p)) = Some p"
proof (cases "memberOf profile_text ADAPTIVE_PROFILES_V1 (JStr (profile_text p))")
  case None
  then show ?thesis by (auto simp: memberOf_None_iff)
next
  case (Some q)
  then show ?thesis using memberOf_JStr by fastforce
qed

lemma selected_profiles:
  assumes "selectAdaptiveProfilesV1 t risks requested release = Inr profiles"
  obtains slice where "t = JStr (slice_type_text slice)" "distinct profiles" "sorted (map PROFILE_ORDER profiles)"
    "set profiles = {PROFILE_BY_TYPE slice} \<union> {p. JStr (profile_text p) \<in> set requested}
       \<union> (if JStr ''security'' \<in> set risks \<or> JStr ''trust'' \<in> set risks then {SecurityTrustBoundary} else {})
       \<union> (if JStr ''external'' \<in> set risks then {ExternalIntegration} else {})
       \<union> (if release then {ReleaseRequired} else {})"
proof -
  obtain slice where s: "memberOf slice_type_text ADAPTIVE_SLICE_TYPES_V1 t = Some slice"
    "set requested \<subseteq> JStr ` profile_text ` set ADAPTIVE_PROFILES_V1"
    "profiles = sort_key PROFILE_ORDER
           (set_add_if release ReleaseRequired
             (set_add_if (JStr ''external'' \<in> set risks) ExternalIntegration
               (set_add_if (JStr ''security'' \<in> set risks \<or> JStr ''trust'' \<in> set risks) SecurityTrustBoundary
                 (uniq (PROFILE_BY_TYPE slice # map (\<lambda>p. the (memberOf profile_text ADAPTIVE_PROFILES_V1 p)) requested)))))"
    using assms unfolding profiles_Inr_iff by blast
  have r: "(\<lambda>p. the (memberOf profile_text ADAPTIVE_PROFILES_V1 p)) ` set requested = {p. JStr (profile_text p) \<in> set requested}"
    using s(2) by (force simp: image_iff)
  show ?thesis
  proof (rule that [of slice])
    show "t = JStr (slice_type_text slice)" using memberOf_JStr [OF s(1)] by blast
    show "distinct profiles" unfolding s(3) by (simp add: distinct_set_add_if)
    show "sorted (map PROFILE_ORDER profiles)" unfolding s(3) by simp
    show "set profiles = {PROFILE_BY_TYPE slice} \<union> {p. JStr (profile_text p) \<in> set requested}
       \<union> (if JStr ''security'' \<in> set risks \<or> JStr ''trust'' \<in> set risks then {SecurityTrustBoundary} else {})
       \<union> (if JStr ''external'' \<in> set risks then {ExternalIntegration} else {})
       \<union> (if release then {ReleaseRequired} else {})"
      unfolding s(3) by (auto simp: r [symmetric])
  qed
qed

lemma strings_plain: "is_array v \<Longrightarrow> set (elems_of v) \<subseteq> JStr ` A \<Longrightarrow> plain v"
  by (rule plain_elems) auto

lemma profiles_read:
  assumes "selectAdaptiveProfilesV1 t risks requested release = Inr profiles"
  shows "t \<in> JStr ` slice_type_text ` set ADAPTIVE_SLICE_TYPES_V1" "set risks \<subseteq> JStr ` set ADAPTIVE_RISKS_V1"
    "set requested \<subseteq> JStr ` profile_text ` set ADAPTIVE_PROFILES_V1"
  using assms memberOf_JStr by (fastforce simp: profiles_Inr_iff)+

lemma valid_spec_plain:
  fixes a :: gate_args
  assumes v: "validateAdaptiveGateSpecV1 H le (ga_spec a)" and w: "js_wf (ga_spec a)"
  shows "plain (ga_spec a)"
proof (rule plain_by_keys [OF _ w])
  let ?f = "spec_field a"
  note f = valid_spec [OF v]
  show "is_record (ga_spec a)" by (rule exactKeysOpt_record [OF f(1)])
  have e: "?f ''schemaVersion'' = JStr ADAPTIVE_GATE_SPEC_SCHEMA_V1" "isIdentifier (?f ''sliceId'')"
    "str_test (\<lambda>s. 3 \<le> length s \<and> length s \<le> 512) (?f ''rootGoal'')"
    "?f ''scopeDigest'' = JStr (adaptiveScopeDigestV1 H le (map str_of (elems_of (?f ''scope''))))"
    "is_bool (?f ''releaseRequired'')" "is_bool (?f ''productEvidenceRequired'')"
    using v unfolding validateAdaptiveGateSpecV1_def Let_def spec_field_def by (auto split: if_splits)
  obtain profiles where p: "spec_profiles a = Inr profiles" using f(6) by blast
  note q = profiles_read [OF p [unfolded spec_profiles_def]]
  have "plain (?f ''sliceType'')" using q(1) by auto
  moreover have "plain (?f ''risks'')" by (rule strings_plain [OF f(8) q(2)])
  moreover have "plain (?f ''requestedProfiles'')" by (rule strings_plain [OF f(9) q(3)])
  moreover have "plain (?f ''scope'')"
  proof (rule plain_elems [OF f(2)])
    fix x assume "x \<in> set (elems_of (?f ''scope''))"
    then have "isSafeAdaptivePathV1 x" using f(3) unfolding list_all_iff by blast
    then show "plain x" unfolding isSafeAdaptivePathV1_def by (rule plain_tests(1))
  qed
  moreover have "plain (?f ''gates'')"
  proof (rule plain_elems [OF f(4)])
    fix x assume x: "x \<in> set (elems_of (?f ''gates''))"
    then have "validAdaptiveGate x" using f(5) unfolding list_all_iff by blast
    moreover have "js_wf x" using wf_elem [OF wf_field [OF w]] x unfolding spec_field_def by blast
    ultimately show "plain x" by (rule valid_gate_plain)
  qed
  moreover note plain_tests(1) [OF e(2) [unfolded isIdentifier_def]] plain_tests(1) [OF e(3)] plain_tests(3) [OF e(5)]
    plain_tests(3) [OF e(6)] plain_tests(1) [OF f(10) [unfolded isDigest_def]] plain_tests(2) [OF f(11)]
  moreover have "plain (?f ''schemaVersion'')" "plain (?f ''scopeDigest'')" by (simp_all only: e(1,4) plain.simps)
  moreover fix k assume "k \<in> set (map fst (fields_of (ga_spec a)))"
  then have "k \<in> set SPEC_KEYS" using keys_opt [OF f(1)] by simp
  ultimately show "plain (getf (fields_of (ga_spec a)) k)"
    unfolding spec_field_def SPEC_KEYS_def by (simp, elim disjE; simp)
qed

end
