(* ===== verification/AdaptiveLaws.thy ===== *)
theory AdaptiveLaws
  imports AdaptiveFacts "HOL-Library.Sublist"
begin

text \<open>
  The properties of the adaptive gates: what a passed verification stands for, how long its receipts are accepted, and
  which histories and completions there are.
\<close>

definition spec_context :: "hash \<Rightarrow> gate_args \<Rightarrow> gate_context" where
  "spec_context H a = \<lparr>gx_subjectDigest = str_of (spec_field a ''subjectDigest''),
     gx_specDigest = digest_of H (ga_spec a), gx_maxAge = int_of_js (spec_field a ''evidenceMaxAgeMs'')\<rparr>"

definition claims_hold :: "hash \<Rightarrow> (string \<Rightarrow> string \<Rightarrow> bool) \<Rightarrow> gate_args \<Rightarrow> adaptive_profile list \<Rightarrow> bool" where
  "claims_hold H le a profiles \<longleftrightarrow>
     pred_option (\<lambda>scope. JStr (adaptiveScopeDigestV1 H le scope) = spec_field a ''scopeDigest'') (ga_expectedScope a)
     \<and> pred_option (\<lambda>n. n = int (length profiles)) (ga_claimedCount a)
     \<and> pred_option (\<lambda>d. d = digest_of H (profiles_js profiles)) (ga_claimedSelectionDigest a)"

lemma outcome_passed:
  "(case outcome of Inl (e, gate) \<Rightarrow> GateDenied e gate | Inr receipts \<Rightarrow> Passed (report receipts)) = Passed r
    \<longleftrightarrow> (\<exists>receipts. outcome = Inr receipts \<and> r = report receipts)"
  by (cases outcome) auto

lemma verifyAdmitted_iff:
  assumes v: "validateAdaptiveGateSpecV1 H le (ga_spec a)" and w: "js_wf (ga_spec a)" and p: "spec_profiles a = Inr profiles"
  shows "verifyAdmitted H le a = Inr (Passed r) \<longleftrightarrow> claims_hold H le a profiles
    \<and> (\<exists>receipts. runGates H a (spec_context H a) 0 (spec_gates a) = Inr (Inr receipts)
        \<and> r = \<lparr>rp_selectedProfiles = profiles, rp_receipts = receipts, rp_selectedCount = length profiles,
             rp_selectionDigest = digest_of H (profiles_js profiles),
             rp_parentReverifications = length (filter ag_delegated (spec_gates a))\<rparr>)"
proof -
  have d: "adaptiveSpecDigestV1 H (ga_spec a) = Inr (digest_of H (ga_spec a))"
    unfolding adaptiveSpecDigestV1_def by (rule digest_js_plain [OF valid_spec_plain [OF v w]])
  show ?thesis
    unfolding verifyAdmitted_def Let_def spec_field_def [symmetric] p [unfolded spec_profiles_def] sum.case d
    unfolding claims_hold_def spec_context_def spec_gates_def
    by (auto simp: res_bind_Inr_iff outcome_passed)
qed

lemma adaptive_pass_iff:
  assumes "js_wf (ga_spec a)"
  shows "verifyAdaptiveGatesV1 H le a = Inr (Passed r) \<longleftrightarrow>
    validateAdaptiveGateSpecV1 H le (ga_spec a) \<and> gates_ok (spec_gates a)
    \<and> (\<exists>profiles. spec_profiles a = Inr profiles \<and> covered profiles (spec_gates a) \<and> claims_hold H le a profiles
        \<and> length (rp_receipts r) = length (spec_gates a)
        \<and> (\<forall>k < length (spec_gates a).
              gate_evidence H a (spec_context H a) k (spec_gates a ! k) (rp_receipts r ! k))
        \<and> r = \<lparr>rp_selectedProfiles = profiles, rp_receipts = rp_receipts r, rp_selectedCount = length profiles,
               rp_selectionDigest = digest_of H (profiles_js profiles),
               rp_parentReverifications = length (filter ag_delegated (spec_gates a))\<rparr>)"
proof (cases "validateAdaptiveGateSpecV1 H le (ga_spec a)")
  case True
  obtain profiles where p: "spec_profiles a = Inr profiles" using valid_spec(6) [OF True] by blast
  have t: "list_all typed_expectation (spec_gates a)"
    using valid_spec(5) [OF True] valid_gate_typed by (auto simp: spec_gates_def list_all_iff)
  have "verifyAdaptiveGatesV1 H le a = Inr (Passed r) \<longleftrightarrow>
      preliminary_denial (ga_spec a) = None \<and> verifyAdmitted H le a = Inr (Passed r)"
    unfolding verifyAdaptiveGatesV1_def using True by (auto split: option.split)
  also have "\<dots> \<longleftrightarrow> covered profiles (spec_gates a) \<and> verifyAdmitted H le a = Inr (Passed r)"
    by (simp add: preliminary_admitted [OF True p])
  finally show ?thesis
    unfolding verifyAdmitted_iff [OF True assms p] runGates_Inr_iff [OF t] using True p valid_spec(7) [OF True]
    by (cases r) auto
next
  case False
  then show ?thesis by (auto simp: verifyAdaptiveGatesV1_def split: option.splits)
qed

subsection \<open>Receipts\<close>

lemma identifier_valid:
  assumes "validAdaptiveGate g"
  shows "isIdentifier (JStr (ag_id (readGate g)))" "registered_check (JStr (ag_checkId (readGate g)))"
proof -
  have i: "isIdentifier (getf (fields_of g) ''id'')" using assms unfolding validAdaptiveGate_def Let_def by blast
  then obtain s where "getf (fields_of g) ''id'' = JStr s" unfolding isIdentifier_def str_test_iff by blast
  with i show "isIdentifier (JStr (ag_id (readGate g)))" by (simp add: readGate_def Let_def)
  show "registered_check (JStr (ag_checkId (readGate g)))"
    using valid_gate_check(2,3) [OF assms] by simp
qed

lemma gate_receipt_verifies:
  assumes "isIdentifier (JStr (ag_id gate))" "registered_check (JStr (ag_checkId gate))" "hex64 subject" "hex64 spec"
    "\<And>t. hex64 (H t)" "0 \<le> now" "0 < age" "now + age \<le> max_safe"
  shows "(\<exists>p. verifyAdaptiveReceiptV1 H (gate_receipt H subject spec now age gate r) t = Passed p) \<longleftrightarrow> t \<le> now + age"
proof -
  let ?core = "receipt_core H subject spec now age gate r"
  have w: "without ''receiptDigest'' (?core @ [(''receiptDigest'', x)]) = ?core" for x
    by (simp add: without_def receipt_core_def)
  have k: "exactKeysOpt (gate_receipt H subject spec now age gate r) RECEIPT_GATE_KEYS []"
    by (simp add: exactKeysOpt_def gate_receipt_def receipt_core_def RECEIPT_GATE_KEYS_def Let_def)
  have d: "hex64 (digest_of H v)" for v by (simp add: digest_of_def assms(5))
  note f = receipt_core_def [of H subject spec now age gate r]
  show ?thesis
    unfolding verifyAdaptiveReceiptV1_def Let_def
    using k assms(1-4,6-8) d
    by (simp add: gate_receipt_def Let_def w isDigest_def) (simp add: f isDigest_def)
qed

lemma receipt_passed:
  assumes "verifyAdaptiveReceiptV1 H v t = Passed p"
  shows "exactKeysOpt v RECEIPT_GATE_KEYS []"
    "getf (fields_of v) ''receiptDigest'' = JStr (digest_of H (obj (without ''receiptDigest'' (fields_of v))))"
    "\<And>k. k \<in> set RECEIPT_GATE_KEYS \<Longrightarrow> plain (getf (fields_of v) k)"
proof -
  let ?f = "getf (fields_of v)"
  have a: "exactKeysOpt v RECEIPT_GATE_KEYS []" "?f ''schemaVersion'' = JStr ADAPTIVE_GATE_RECEIPT_SCHEMA_V1"
    "isIdentifier (?f ''gateId'')" "registered_check (?f ''checkId'')" "isDigest (?f ''subjectDigest'')"
    "isDigest (?f ''specDigest'')" "isDigest (?f ''expectationDigest'')"
    "?f ''verifierVersion'' = JStr ADAPTIVE_GATE_VERIFIER_VERSION_V1" "isDigest (?f ''resultDigest'')"
    "is_safe_integer (?f ''observedAtMs'')" "is_safe_integer (?f ''expiresAtMs'')"
    "JStr (digest_of H (obj (without ''receiptDigest'' (fields_of v)))) = ?f ''receiptDigest''"
    using assms unfolding verifyAdaptiveReceiptV1_def Let_def by (auto split: if_splits)
  show "exactKeysOpt v RECEIPT_GATE_KEYS []" by (rule a(1))
  show d: "?f ''receiptDigest'' = JStr (digest_of H (obj (without ''receiptDigest'' (fields_of v))))" by (rule a(12) [symmetric])
  have t: "plain x" if "isIdentifier x \<or> isDigest x \<or> registered_check x" for x
    using that plain_tests(1) by (auto simp: isIdentifier_def isDigest_def registered_check_def)
  have q: "plain (?f ''schemaVersion'')" "plain (?f ''verifierVersion'')" "plain (?f ''receiptDigest'')"
    by (simp_all only: a(2,8) d plain.simps)
  note p = q t [OF disjI1 [OF a(3)]] t [OF disjI2 [OF disjI2 [OF a(4)]]] t [OF disjI2 [OF disjI1 [OF a(5)]]]
    t [OF disjI2 [OF disjI1 [OF a(6)]]] t [OF disjI2 [OF disjI1 [OF a(7)]]] t [OF disjI2 [OF disjI1 [OF a(9)]]]
    plain_tests(2) [OF a(10)] plain_tests(2) [OF a(11)]
  show "plain (?f k)" if "k \<in> set RECEIPT_GATE_KEYS" for k
    using that p unfolding RECEIPT_GATE_KEYS_def by (simp, elim disjE; simp)
qed

lemma receipt_sealed:
  assumes "verifyAdaptiveReceiptV1 H v t = Passed p" "verifyAdaptiveReceiptV1 H v' t' = Passed p'" "js_wf v" "js_wf v'"
    "getf (fields_of v) ''receiptDigest'' = getf (fields_of v') ''receiptDigest''"
    "inj_on H {canonText (obj (without ''receiptDigest'' (fields_of v))), canonText (obj (without ''receiptDigest'' (fields_of v')))}"
  shows "js_norm v = js_norm v'"
proof -
  obtain i kvs j lws where o: "v = JObj i kvs" "v' = JObj j lws"
    using exactKeysOpt_record [OF receipt_passed(1) [OF assms(1)]] exactKeysOpt_record [OF receipt_passed(1) [OF assms(2)]]
    by (auto simp: is_record_iff)
  have k: "set (map fst kvs) = set RECEIPT_GATE_KEYS" "set (map fst lws) = set RECEIPT_GATE_KEYS"
    using exactKeysOpt_keys [OF receipt_passed(1) [OF assms(1)]] exactKeysOpt_keys [OF receipt_passed(1) [OF assms(2)]]
    by (simp_all add: o)
  have "plain v" "plain v'"
    by (rule plain_by_keys; use assms(3,4) receipt_passed(3) [OF assms(1)] receipt_passed(3) [OF assms(2)] k o in simp)+
  then have p: "plain (obj (without ''receiptDigest'' kvs))" "plain (obj (without ''receiptDigest'' lws))"
    by (auto simp: o without_def list_all_iff)
  have "digest_of H (obj (without ''receiptDigest'' kvs)) = digest_of H (obj (without ''receiptDigest'' lws))"
    using receipt_passed(2) [OF assms(1)] receipt_passed(2) [OF assms(2)] assms(5) by (simp add: o)
  then show ?thesis
    unfolding o using assms(3-6) k p
    by (intro sealed_documents [where d = "digest_of H (obj (without ''receiptDigest'' kvs))" and k = "''receiptDigest''" and H = H])
      (simp_all add: o digest_js_Inr_iff)
qed

lemma adaptive_receipts:
  assumes "verifyAdaptiveGatesV1 H le a = Inr (Passed r)" "js_wf (ga_spec a)" "\<And>t. hex64 (H t)" "0 \<le> ga_nowMs a"
    "ga_nowMs a + int_of_js (spec_field a ''evidenceMaxAgeMs'') \<le> max_safe" "receipt \<in> set (rp_receipts r)"
  shows "(\<exists>p. verifyAdaptiveReceiptV1 H receipt t = Passed p)
      \<longleftrightarrow> t \<le> ga_nowMs a + int_of_js (spec_field a ''evidenceMaxAgeMs'')"
    and "verifyAdaptiveReceiptV1 H receipt' t' = Passed p' \<Longrightarrow> js_wf receipt'
      \<Longrightarrow> getf (fields_of receipt') ''receiptDigest'' = getf (fields_of receipt) ''receiptDigest''
      \<Longrightarrow> inj_on H {canonText (obj (without ''receiptDigest'' (fields_of receipt'))),
           canonText (obj (without ''receiptDigest'' (fields_of receipt)))}
      \<Longrightarrow> js_norm receipt' = js_norm receipt"
proof -
  have v: "validateAdaptiveGateSpecV1 H le (ga_spec a)" and l: "length (rp_receipts r) = length (spec_gates a)"
    and e: "\<forall>k < length (spec_gates a). gate_evidence H a (spec_context H a) k (spec_gates a ! k) (rp_receipts r ! k)"
    using assms(1) unfolding adaptive_pass_iff [OF assms(2)] by blast+
  note f = valid_spec [OF v]
  obtain k where k: "k < length (spec_gates a)" "receipt = rp_receipts r ! k"
    using assms(6) l by (metis in_set_conv_nth)
  then obtain x where x: "receipt = gate_receipt H (gx_subjectDigest (spec_context H a)) (gx_specDigest (spec_context H a))
      (ga_nowMs a) (gx_maxAge (spec_context H a)) (spec_gates a ! k) x"
    using e unfolding gate_evidence_def by blast
  obtain g where g: "spec_gates a ! k = readGate g" "validAdaptiveGate g"
    using f(5) k(1) by (force simp: spec_gates_def list_all_iff)
  have s: "hex64 (gx_subjectDigest (spec_context H a))" "hex64 (gx_specDigest (spec_context H a))"
    using f(10) assms(3) by (auto simp: spec_context_def isDigest_def str_test_iff digest_of_def)
  have m: "gx_maxAge (spec_context H a) = int_of_js (spec_field a ''evidenceMaxAgeMs'')" by (simp add: spec_context_def)
  show i: "(\<exists>p. verifyAdaptiveReceiptV1 H receipt t = Passed p)
      \<longleftrightarrow> t \<le> ga_nowMs a + int_of_js (spec_field a ''evidenceMaxAgeMs'')" for t
    unfolding x g(1) m using identifier_valid [OF g(2)] s assms(3-5) f(12)
    by (intro gate_receipt_verifies) simp_all
  assume r: "verifyAdaptiveReceiptV1 H receipt' t' = Passed p'" "js_wf receipt'"
    "getf (fields_of receipt') ''receiptDigest'' = getf (fields_of receipt) ''receiptDigest''"
    "inj_on H {canonText (obj (without ''receiptDigest'' (fields_of receipt'))),
       canonText (obj (without ''receiptDigest'' (fields_of receipt)))}"
  have w: "js_wf receipt" by (simp add: x gate_receipt_def receipt_core_def Let_def)
  obtain p where "verifyAdaptiveReceiptV1 H receipt 0 = Passed p"
    using i [of 0] assms(4) f(12) by auto
  from receipt_sealed [OF r(1) this r(2) w r(3,4)] show "js_norm receipt' = js_norm receipt" .
qed

subsection \<open>Delivery\<close>

definition BEFORE_DECISION :: "delivery_state list" where
  "BEFORE_DECISION = [PR_READY, PR_OPEN, CI_GREEN, MERGED, RELEASE_DECISION]"

lemma delivery_steps_cases:
  "delivery_steps RELEASED rest = None \<longleftrightarrow> rest = []"
  "delivery_steps CLOSED_NO_RELEASE rest = None \<longleftrightarrow> rest = []"
  "delivery_steps RELEASE_DECISION rest = None \<longleftrightarrow> rest = [] \<or> rest = [RELEASED] \<or> rest = [CLOSED_NO_RELEASE]"
  "delivery_steps MERGED rest = None \<longleftrightarrow> prefix rest [RELEASE_DECISION, RELEASED] \<or> prefix rest [RELEASE_DECISION, CLOSED_NO_RELEASE]"
  "delivery_steps CI_GREEN rest = None \<longleftrightarrow>
     prefix rest [MERGED, RELEASE_DECISION, RELEASED] \<or> prefix rest [MERGED, RELEASE_DECISION, CLOSED_NO_RELEASE]"
proof -
  show a: "delivery_steps RELEASED rest = None \<longleftrightarrow> rest = []" "delivery_steps CLOSED_NO_RELEASE rest = None \<longleftrightarrow> rest = []"
    for rest by (cases rest; simp)+
  show b: "delivery_steps RELEASE_DECISION rest = None \<longleftrightarrow> rest = [] \<or> rest = [RELEASED] \<or> rest = [CLOSED_NO_RELEASE]" for rest
    by (cases rest) (auto simp: a)
  show c: "delivery_steps MERGED rest = None \<longleftrightarrow> prefix rest [RELEASE_DECISION, RELEASED] \<or> prefix rest [RELEASE_DECISION, CLOSED_NO_RELEASE]" for rest
    by (cases rest) (auto simp: b prefix_Cons)
  show "delivery_steps CI_GREEN rest = None \<longleftrightarrow>
     prefix rest [MERGED, RELEASE_DECISION, RELEASED] \<or> prefix rest [MERGED, RELEASE_DECISION, CLOSED_NO_RELEASE]"
    by (cases rest) (auto simp: c prefix_Cons)
qed

lemma delivery_history_iff:
  "validateAdaptiveDeliveryHistoryV1 h = None \<longleftrightarrow>
    h \<noteq> [] \<and> (prefix h (BEFORE_DECISION @ [RELEASED]) \<or> prefix h (BEFORE_DECISION @ [CLOSED_NO_RELEASE]))"
proof -
  have o: "delivery_steps PR_OPEN rest = None \<longleftrightarrow> prefix rest [CI_GREEN, MERGED, RELEASE_DECISION, RELEASED]
      \<or> prefix rest [CI_GREEN, MERGED, RELEASE_DECISION, CLOSED_NO_RELEASE]" for rest
    by (cases rest) (auto simp: delivery_steps_cases prefix_Cons)
  have r: "delivery_steps PR_READY rest = None \<longleftrightarrow> prefix rest [PR_OPEN, CI_GREEN, MERGED, RELEASE_DECISION, RELEASED]
      \<or> prefix rest [PR_OPEN, CI_GREEN, MERGED, RELEASE_DECISION, CLOSED_NO_RELEASE]" for rest
    by (cases rest) (auto simp: o prefix_Cons)
  show ?thesis by (cases h) (auto simp: r BEFORE_DECISION_def)
qed

lemma delivery_end:
  assumes "validateAdaptiveDeliveryHistoryV1 h = None"
  shows "last h = RELEASED \<longleftrightarrow> h = BEFORE_DECISION @ [RELEASED]"
    "last h = CLOSED_NO_RELEASE \<longleftrightarrow> h = BEFORE_DECISION @ [CLOSED_NO_RELEASE]"
  using assms unfolding delivery_history_iff BEFORE_DECISION_def by (auto simp: prefix_Cons)

lemma completion_root:
  assumes "projectAdaptiveCompletionV1 a = Inr c"
    and "validateAdaptiveDeliveryHistoryV1 (ca_deliveryHistory a) = None \<Longrightarrow>
      last (ca_deliveryHistory a) = RELEASED \<longleftrightarrow> ca_deliveryHistory a = BEFORE_DECISION @ [RELEASED]"
    and "validateAdaptiveDeliveryHistoryV1 (ca_deliveryHistory a) = None \<Longrightarrow>
      last (ca_deliveryHistory a) = CLOSED_NO_RELEASE \<longleftrightarrow> ca_deliveryHistory a = BEFORE_DECISION @ [CLOSED_NO_RELEASE]"
  shows "cp_rootState c = CompleteWork \<longleftrightarrow> ca_verificationPassed a
         \<and> (ca_deliveryHistory a = BEFORE_DECISION @ [RELEASED]
            \<or> \<not> ca_releaseRequired a \<and> ca_deliveryHistory a = BEFORE_DECISION @ [CLOSED_NO_RELEASE])
         \<and> (ca_productEvidenceRequired a \<longrightarrow> ca_productEvidenceComplete a)"
proof -
  have v: "validateAdaptiveDeliveryHistoryV1 (ca_deliveryHistory a) = None" "\<not> (ca_waitingExternal a \<and> ca_verificationPassed a)"
    using assms(1) by (auto simp: projectAdaptiveCompletionV1_def split: if_splits option.splits)
  show ?thesis
    using assms(1) v(2) unfolding projectAdaptiveCompletionV1_def v(1) Let_def assms(2,3) [OF v(1)] option.case
    by (cases "ca_verificationPassed a"; cases "ca_waitingExternal a"; cases "ca_productEvidenceRequired a";
        cases "ca_productEvidenceComplete a") (auto split: if_splits)
qed

lemma conveyor_accepts:
  assumes "adaptDeliveryConveyorReadbackV1 v = Inr (Inr h)"
  shows "validateAdaptiveDeliveryHistoryV1 h = None"
    "getf (fields_of v) ''terminal'' = JBool (h \<in> {BEFORE_DECISION @ [RELEASED], BEFORE_DECISION @ [CLOSED_NO_RELEASE]})"
proof -
  have a: "validateAdaptiveDeliveryHistoryV1 h = None"
    "JBool (last h \<in> set [RELEASED, CLOSED_NO_RELEASE]) = getf (fields_of v) ''terminal''"
    using assms unfolding adaptDeliveryConveyorReadbackV1_def Let_def
    by (auto simp: res_bind_Inr_iff split: if_splits)
  show "validateAdaptiveDeliveryHistoryV1 h = None" by (rule a(1))
  show "getf (fields_of v) ''terminal'' = JBool (h \<in> {BEFORE_DECISION @ [RELEASED], BEFORE_DECISION @ [CLOSED_NO_RELEASE]})"
    using a(2) delivery_end [OF a(1)] by simp
qed

subsection \<open>A sample\<close>

definition zero_hash :: hash where
  "zero_hash t = replicate 64 (CHR ''0'')"

lemma zero_hash_simps [simp]: "hex64 (zero_hash t)" "digest_of zero_hash v = zero_hash []"
  by (simp_all add: zero_hash_def digest_of_def hex64_iff in_class_def d0_9_def list_all_iff)

definition sample_expectation :: js where
  "sample_expectation = obj [(''exitCode'', jint 0), (''stdout'', JStr ''PASS'')]"

definition sample_gates :: "js list" where
  "sample_gates =
     [obj [(''id'', JStr ''gate-build''), (''checkId'', JStr ''docs-build''), (''expect'', sample_expectation),
        (''dependsOn'', arr [])],
      obj [(''id'', JStr ''gate-spelling''), (''checkId'', JStr ''docs-spelling''), (''expect'', sample_expectation),
        (''dependsOn'', arr [JStr ''gate-build'']), (''delegated'', JBool True)]]"

definition sample_spec :: js where
  "sample_spec = obj
     [(''schemaVersion'', JStr ADAPTIVE_GATE_SPEC_SCHEMA_V1), (''sliceId'', JStr ''adaptive-docs''),
      (''rootGoal'', JStr ''Prove adaptive evidence''), (''subjectDigest'', JStr (zero_hash [])),
      (''scope'', arr [JStr ''docs/GATES.md'']), (''scopeDigest'', JStr (zero_hash [])), (''sliceType'', JStr ''docs-only''),
      (''risks'', arr []), (''requestedProfiles'', arr []), (''releaseRequired'', JBool False),
      (''productEvidenceRequired'', JBool False), (''evidenceMaxAgeMs'', jint 10000), (''gates'', arr sample_gates)]"

definition sample_result :: check_result where
  "sample_result = \<lparr>cr_exitCode = Some 0, cr_stdout = ''PASS'', cr_stderr = [], cr_timedOut = False\<rparr>"

definition docs_receipt :: "nat \<Rightarrow> js" where
  "docs_receipt n = gate_receipt zero_hash (zero_hash []) (zero_hash []) 1000 10000 (readGate (sample_gates ! n)) sample_result"

definition docs_args :: gate_args where
  "docs_args = \<lparr>ga_spec = sample_spec, ga_nowMs = 1000, ga_expectedScope = Some [''docs/GATES.md''], ga_claimedCount = Some 1,
     ga_claimedSelectionDigest = None, ga_delegatedReceipts = [(''gate-spelling'', docs_receipt 1)],
     ga_execute = (\<lambda>n c. Inr [sample_result, sample_result])\<rparr>"

lemma sample_readings:
  "map readGate sample_gates =
     [\<lparr>ag_id = ''gate-build'', ag_checkId = ''docs-build'', ag_expect = sample_expectation, ag_dependsOn = [], ag_delegated = False\<rparr>,
      \<lparr>ag_id = ''gate-spelling'', ag_checkId = ''docs-spelling'', ag_expect = sample_expectation,
        ag_dependsOn = [''gate-build''], ag_delegated = True\<rparr>]"
  by (simp add: sample_gates_def readGate_def)

lemma sample_fields:
  "spec_field docs_args ''gates'' = arr sample_gates" "spec_field docs_args ''risks'' = arr []"
  "spec_field docs_args ''requestedProfiles'' = arr []" "spec_field docs_args ''sliceType'' = JStr ''docs-only''"
  "spec_field docs_args ''releaseRequired'' = JBool False" "spec_field docs_args ''scopeDigest'' = JStr (zero_hash [])"
  "spec_field docs_args ''subjectDigest'' = JStr (zero_hash [])" "spec_field docs_args ''evidenceMaxAgeMs'' = jint 10000"
  by (simp_all add: spec_field_def docs_args_def sample_spec_def)

lemma sample_spec_gates: "spec_gates docs_args = map readGate sample_gates"
  by (simp add: spec_gates_def sample_fields)

lemma sample_gates_valid: "list_all validAdaptiveGate sample_gates"
proof -
  have i: "isIdentifier (JStr ''gate-build'')" "isIdentifier (JStr ''gate-spelling'')"
    by code_simp+
  then show ?thesis
    by (simp add: sample_gates_def sample_expectation_def validAdaptiveGate_def Let_def exactKeysOpt_def registered_check_def
      ADAPTIVE_CHECK_IDS_V1_def max_safe_def hasOwn_def)
qed

lemma sample_gates_ok: "gates_ok (map readGate sample_gates)"
proof -
  have "validateDependencies (map readGate sample_gates) = None"
    unfolding sample_readings by code_simp
  then show ?thesis by (simp add: validateDependencies_iff)
qed

lemma sample_profiles: "spec_profiles docs_args = Inr [DocsMinimal]"
proof -
  have "selectAdaptiveProfilesV1 (JStr ''docs-only'') [] [] False = Inr [DocsMinimal]" by code_simp
  then show ?thesis by (simp add: spec_profiles_def sample_fields)
qed

lemma sample_spec_valid: "validateAdaptiveGateSpecV1 zero_hash (\<lambda>_ _. True) sample_spec"
proof -
  have i: "isIdentifier (JStr ''adaptive-docs'')" "isSafeAdaptivePathV1 (JStr ''docs/GATES.md'')"
    "length (''Prove adaptive evidence'') = 23" by code_simp+
  have d: "isDigest (JStr (zero_hash []))" by (simp add: isDigest_def)
  have t: "memberOf slice_type_text ADAPTIVE_SLICE_TYPES_V1 (JStr ''docs-only'') = Some DocsOnly" by code_simp
  have f: "getf (fields_of sample_spec) k = spec_field docs_args k" for k by (simp add: spec_field_def docs_args_def)
  have k: "exactKeysOpt sample_spec SPEC_KEYS []" by (simp add: exactKeysOpt_def sample_spec_def SPEC_KEYS_def)
  have p: "selectAdaptiveProfilesV1 (JStr ''docs-only'') [] [] False = Inr [DocsMinimal]" by code_simp
  have g: "validateDependencies (map readGate sample_gates) = None" "sample_gates \<noteq> []"
    using sample_gates_ok by (simp_all add: validateDependencies_iff sample_gates_def)
  show ?thesis
    unfolding validateAdaptiveGateSpecV1_def Let_def
    using i d t k p g sample_gates_valid
    by (simp add: f sample_fields adaptiveScopeDigestV1_def distinct_elems_def)
      (simp add: spec_field_def docs_args_def sample_spec_def max_safe_def distinct_elems_def)
qed

lemma sample_wf: "js_wf sample_spec"
  by (simp add: sample_spec_def sample_gates_def sample_expectation_def)

lemma sample_evidence:
  assumes "k < length (map readGate sample_gates)"
  shows "gate_evidence zero_hash docs_args (spec_context zero_hash docs_args) k (map readGate sample_gates ! k) (docs_receipt k)"
proof -
  have x: "spec_context zero_hash docs_args = \<lparr>gx_subjectDigest = zero_hash [], gx_specDigest = zero_hash [], gx_maxAge = 10000\<rparr>"
    by (simp add: spec_context_def sample_fields)
  have k: "map readGate sample_gates ! k = readGate (sample_gates ! k)" using assms by simp
  have g: "validAdaptiveGate (sample_gates ! k)" using assms sample_gates_valid by (simp add: list_all_length)
  have e: "expected_result (readGate (sample_gates ! k)) sample_result"
    using assms by (cases k) (auto simp: sample_gates_def readGate_def expected_result_def sample_expectation_def sample_result_def)
  have d: "\<not> delegated_denied zero_hash 1000 (docs_receipt k) (docs_receipt k)"
  proof -
    have "\<exists>p. verifyAdaptiveReceiptV1 zero_hash (docs_receipt k) 1000 = Passed p"
      unfolding docs_receipt_def using identifier_valid [OF g]
      by (subst gate_receipt_verifies) (simp_all add: max_safe_def)
    then show ?thesis by (auto simp: delegated_denied_def)
  qed
  have c: "ag_delegated (readGate (sample_gates ! k)) \<longrightarrow> k = 1 \<and> ag_id (readGate (sample_gates ! k)) = ''gate-spelling''"
    using assms by (cases k) (auto simp: sample_gates_def readGate_def)
  show ?thesis
    unfolding gate_evidence_def x k
    by (rule exI [of _ sample_result]) (use e d c in \<open>auto simp: docs_args_def docs_receipt_def\<close>)
qed

lemma docs_verified:
  "\<exists>r. verifyAdaptiveGatesV1 zero_hash (\<lambda>_ _. True) docs_args = Inr (Passed r)
     \<and> rp_receipts r = [docs_receipt 0, docs_receipt 1] \<and> rp_parentReverifications r = 1"
proof -
  have s: "ga_spec docs_args = sample_spec" by (simp add: docs_args_def)
  have c: "covered [DocsMinimal] (spec_gates docs_args)" unfolding sample_spec_gates sample_readings by (simp add: covered_def)
  have h: "claims_hold zero_hash (\<lambda>_ _. True) docs_args [DocsMinimal]"
    unfolding claims_hold_def sample_fields by (simp add: docs_args_def adaptiveScopeDigestV1_def)
  let ?r = "\<lparr>rp_selectedProfiles = [DocsMinimal], rp_receipts = [docs_receipt 0, docs_receipt 1], rp_selectedCount = 1,
    rp_selectionDigest = digest_of zero_hash (profiles_js [DocsMinimal]), rp_parentReverifications = 1\<rparr>"
  have e: "gate_evidence zero_hash docs_args (spec_context zero_hash docs_args) k (spec_gates docs_args ! k) (rp_receipts ?r ! k)"
    if "k < length (spec_gates docs_args)" for k
    using sample_evidence [of k] that by (cases k) (auto simp: sample_spec_gates sample_gates_def)
  have "length (filter ag_delegated (spec_gates docs_args)) = 1" "length (spec_gates docs_args) = 2"
    unfolding sample_spec_gates sample_readings by simp_all
  then have "verifyAdaptiveGatesV1 zero_hash (\<lambda>_ _. True) docs_args = Inr (Passed ?r)"
    unfolding adaptive_pass_iff [OF sample_wf [folded s]] unfolding s
    using sample_spec_valid sample_gates_ok sample_profiles c h e by (auto simp: sample_spec_gates)
  then show ?thesis by (intro exI [of _ ?r]) simp
qed

text \<open>
  C25: A verification passes exactly where the specification is admitted, so that its gates depend on each other without a
  cycle, the expected scope, count and selection digest are its own, every check a selected profile requires is made by
  some gate, and every gate has its evidence: its check ran twice with one result, the expected one, and a receipt
  of a child, where it is delegated, agrees. The report holds one receipt for each gate, in order, and nothing else.
\<close>

theorem adaptive_pass_exact:
  assumes "js_wf (ga_spec a)"
  shows "verifyAdaptiveGatesV1 H le a = Inr (Passed r) \<longleftrightarrow>
    validateAdaptiveGateSpecV1 H le (ga_spec a) \<and> gates_ok (spec_gates a)
    \<and> (\<exists>profiles. spec_profiles a = Inr profiles \<and> covered profiles (spec_gates a) \<and> claims_hold H le a profiles
        \<and> length (rp_receipts r) = length (spec_gates a)
        \<and> (\<forall>k < length (spec_gates a).
              gate_evidence H a (spec_context H a) k (spec_gates a ! k) (rp_receipts r ! k))
        \<and> r = \<lparr>rp_selectedProfiles = profiles, rp_receipts = rp_receipts r, rp_selectedCount = length profiles,
               rp_selectionDigest = digest_of H (profiles_js profiles),
               rp_parentReverifications = length (filter ag_delegated (spec_gates a))\<rparr>)"
  by (rule adaptive_pass_iff [OF assms])


theorem adaptive_pass_witness:
  "\<exists>r :: adaptive_report. gates_ok (spec_gates docs_args) \<and> length (rp_receipts r) = length (spec_gates docs_args)
     \<and> rp_selectedProfiles r = [DocsMinimal]
     \<and> (\<forall>k < length (spec_gates docs_args). gate_evidence zero_hash docs_args (spec_context zero_hash docs_args) k
          (spec_gates docs_args ! k) (rp_receipts r ! k))"
proof -
  have w: "js_wf (ga_spec docs_args)" using sample_wf by (simp add: docs_args_def)
  obtain r where "verifyAdaptiveGatesV1 zero_hash (\<lambda>_ _. True) docs_args = Inr (Passed r)" using docs_verified by blast
  note c = this [unfolded adaptive_pass_exact [OF w] sample_profiles]
  then have "r = \<lparr>rp_selectedProfiles = [DocsMinimal], rp_receipts = rp_receipts r, rp_selectedCount = length [DocsMinimal],
      rp_selectionDigest = digest_of zero_hash (profiles_js [DocsMinimal]),
      rp_parentReverifications = length (filter ag_delegated (spec_gates docs_args))\<rparr>" by auto
  from arg_cong [OF this, of rp_selectedProfiles] have p: "rp_selectedProfiles r = [DocsMinimal]" by simp
  from c have "gates_ok (spec_gates docs_args)" by (elim conjE)
  moreover from c have "length (rp_receipts r) = length (spec_gates docs_args)" by (elim conjE exE)
  moreover from c have "\<forall>k < length (spec_gates docs_args). gate_evidence zero_hash docs_args
      (spec_context zero_hash docs_args) k (spec_gates docs_args ! k) (rp_receipts r ! k)" by (elim conjE exE)
  ultimately show ?thesis using p by blast
qed

text \<open>
  C39: The receipts of a passed verification are accepted until the age the specification allows and not after it, and
  they cannot be altered: whatever receipt is accepted under the same digest has the same content, unless the hash
  collides on the two.
\<close>

theorem adaptive_receipts_expire:
  assumes "verifyAdaptiveGatesV1 H le a = Inr (Passed r)" "js_wf (ga_spec a)" "\<And>t. hex64 (H t)" "0 \<le> ga_nowMs a"
    "ga_nowMs a + int_of_js (spec_field a ''evidenceMaxAgeMs'') \<le> max_safe" "receipt \<in> set (rp_receipts r)"
  shows "(\<forall>t. (\<exists>p. verifyAdaptiveReceiptV1 H receipt t = Passed p)
        \<longleftrightarrow> t \<le> ga_nowMs a + int_of_js (spec_field a ''evidenceMaxAgeMs''))
    \<and> (\<forall>receipt' t' p'. verifyAdaptiveReceiptV1 H receipt' t' = Passed p' \<and> js_wf receipt'
        \<and> getf (fields_of receipt') ''receiptDigest'' = getf (fields_of receipt) ''receiptDigest''
        \<and> inj_on H {canonText (obj (without ''receiptDigest'' (fields_of receipt'))),
             canonText (obj (without ''receiptDigest'' (fields_of receipt)))}
        \<longrightarrow> js_norm receipt' = js_norm receipt)"
  using adaptive_receipts [OF assms] by blast

theorem adaptive_receipts_witness:
  "\<exists>r. verifyAdaptiveGatesV1 zero_hash (\<lambda>_ _. True) docs_args = Inr (Passed r) \<and> docs_receipt 0 \<in> set (rp_receipts r)
     \<and> (\<exists>p. verifyAdaptiveReceiptV1 zero_hash (docs_receipt 0) 11000 = Passed p)
     \<and> \<not> (\<exists>p. verifyAdaptiveReceiptV1 zero_hash (docs_receipt 0) 11001 = Passed p)"
proof -
  obtain r where r: "verifyAdaptiveGatesV1 zero_hash (\<lambda>_ _. True) docs_args = Inr (Passed r)" "docs_receipt 0 \<in> set (rp_receipts r)"
    using docs_verified by auto
  have n: "ga_nowMs docs_args = 1000" "js_wf (ga_spec docs_args)" using sample_wf by (simp_all add: docs_args_def)
  have m: "0 \<le> ga_nowMs docs_args" "ga_nowMs docs_args + int_of_js (spec_field docs_args ''evidenceMaxAgeMs'') \<le> max_safe"
    by (simp_all add: n(1) sample_fields max_safe_def)
  from adaptive_receipts_expire [OF r(1) n(2) zero_hash_simps(1) m r(2)] r show ?thesis
    by (simp add: n(1) sample_fields)
qed

text \<open>
  C40: A delivery history is accepted exactly where it is a non-empty beginning of one of the two ways to the end. The
  projection refuses the others and a verification that passed while waiting, and it declares the root complete
  exactly where the verification passed, the delivery is at an end that counts, released or, where no release is
  required, closed without one, and the product evidence is complete where it is required. The adapter accepts only such
  histories, and only with the truth about whether they have ended.
\<close>

theorem completion_is_honest:
  "(validateAdaptiveDeliveryHistoryV1 h = None \<longleftrightarrow>
      h \<noteq> [] \<and> (prefix h (BEFORE_DECISION @ [RELEASED]) \<or> prefix h (BEFORE_DECISION @ [CLOSED_NO_RELEASE])))
   \<and> ((\<exists>c. projectAdaptiveCompletionV1 a = Inr c) \<longleftrightarrow>
      \<not> (ca_waitingExternal a \<and> ca_verificationPassed a) \<and> validateAdaptiveDeliveryHistoryV1 (ca_deliveryHistory a) = None)
   \<and> (\<forall>c. projectAdaptiveCompletionV1 a = Inr c \<longrightarrow>
      (cp_rootState c = CompleteWork \<longleftrightarrow> ca_verificationPassed a
         \<and> (ca_deliveryHistory a = BEFORE_DECISION @ [RELEASED]
            \<or> \<not> ca_releaseRequired a \<and> ca_deliveryHistory a = BEFORE_DECISION @ [CLOSED_NO_RELEASE])
         \<and> (ca_productEvidenceRequired a \<longrightarrow> ca_productEvidenceComplete a)))
   \<and> (\<forall>v. adaptDeliveryConveyorReadbackV1 v = Inr (Inr h) \<longrightarrow> validateAdaptiveDeliveryHistoryV1 h = None
      \<and> getf (fields_of v) ''terminal''
          = JBool (h \<in> {BEFORE_DECISION @ [RELEASED], BEFORE_DECISION @ [CLOSED_NO_RELEASE]}))"
proof (intro conjI allI impI)
  show "validateAdaptiveDeliveryHistoryV1 h = None \<longleftrightarrow>
      h \<noteq> [] \<and> (prefix h (BEFORE_DECISION @ [RELEASED]) \<or> prefix h (BEFORE_DECISION @ [CLOSED_NO_RELEASE]))"
    by (rule delivery_history_iff)
  show "(\<exists>c. projectAdaptiveCompletionV1 a = Inr c) \<longleftrightarrow>
      \<not> (ca_waitingExternal a \<and> ca_verificationPassed a) \<and> validateAdaptiveDeliveryHistoryV1 (ca_deliveryHistory a) = None"
    by (auto simp: projectAdaptiveCompletionV1_def Let_def split: option.split)
  show "cp_rootState c = CompleteWork \<longleftrightarrow> ca_verificationPassed a
         \<and> (ca_deliveryHistory a = BEFORE_DECISION @ [RELEASED]
            \<or> \<not> ca_releaseRequired a \<and> ca_deliveryHistory a = BEFORE_DECISION @ [CLOSED_NO_RELEASE])
         \<and> (ca_productEvidenceRequired a \<longrightarrow> ca_productEvidenceComplete a)"
    if "projectAdaptiveCompletionV1 a = Inr c" for c
    using that delivery_end [of "ca_deliveryHistory a"] by (rule completion_root)
  show "validateAdaptiveDeliveryHistoryV1 h = None"
    "getf (fields_of v) ''terminal'' = JBool (h \<in> {BEFORE_DECISION @ [RELEASED], BEFORE_DECISION @ [CLOSED_NO_RELEASE]})"
    if "adaptDeliveryConveyorReadbackV1 v = Inr (Inr h)" for v
    using conveyor_accepts [OF that] by simp_all
qed

theorem completion_witness:
  "\<exists>c. projectAdaptiveCompletionV1 \<lparr>ca_verificationPassed = True, ca_waitingExternal = False, ca_activeSinceMs = 0, ca_nowMs = 5,
        ca_deadmanMs = 1, ca_deliveryHistory = BEFORE_DECISION @ [RELEASED], ca_releaseRequired = True,
        ca_productEvidenceRequired = True, ca_productEvidenceComplete = True\<rparr> = Inr c \<and> cp_rootState c = CompleteWork"
proof -
  let ?a = "\<lparr>ca_verificationPassed = True, ca_waitingExternal = False, ca_activeSinceMs = 0, ca_nowMs = 5, ca_deadmanMs = 1,
    ca_deliveryHistory = BEFORE_DECISION @ [RELEASED], ca_releaseRequired = True, ca_productEvidenceRequired = True,
    ca_productEvidenceComplete = True\<rparr>"
  have "validateAdaptiveDeliveryHistoryV1 (BEFORE_DECISION @ [RELEASED]) = None" by (simp add: BEFORE_DECISION_def)
  with completion_is_honest [of "[]" ?a] show ?thesis by auto
qed

end
