(* ===== verification/Spec2Isabelle.thy ===== *)
theory Spec2Isabelle
  imports IntakeLaws RightsLaws BoundaryLaws AuditLaws ModelLaws FabricLaws LifecycleLaws GateLaws AdaptiveLaws
begin

text \<open>
  A verification development for ChimpMaera, an administration system in which language models propose
  and typed contracts decide. The contracts are TypeScript modules under
  \<open>src/packages/contracts/src\<close>: each reads \<open>unknown\<close> values, decides, and seals what it produced with a
  digest over canonical text. The demonstration under \<open>src/demo\<close> runs a policy under a fence and a
  lifecycle manager, lets a handler decide what an agent asks for, an owner decide what the handler escalates, and a
  gate perform what was authorised. Modelled here, in the order of the development:

  \<^item> \<^bold>\<open>Canonical JSON\<close> (\<open>canonical-json.ts\<close>). \<open>JsValue\<close> is the value model: numbers, strings, arrays
    and records as JavaScript hands them to a contract. \<open>CanonicalJson\<close> is the serialiser, with a decoder
    argument showing that two plain values with the same text are the same up to the order of
    properties. Every digest law below rests on it. \<open>Digests\<close> has the locale \<open>codec\<close>, an encoding into plain
    values that loses nothing, with the digest laws proved once; the components interpret it on their own
    encodings. \<open>HashChain\<close> has the locale of chained digests, interpreted on the ledger, on the audit
    timeline and on the receipts of the lifecycle manager. \<open>Guards\<close> holds the checks several contracts
    share; \<open>Patterns\<close> the regular expressions with an executable matcher proved against their language;
    \<open>Base64\<close> the decoder of canonical base64, proved to be the inverse of the encoder; \<open>Listings\<close> the
    locale of listings of a set (by insertion or sorted) and the early-exit loop; \<open>Prelude\<close> results, sets
    and decimal texts.
  \<^item> \<^bold>\<open>Contribution intake ledger\<close> (\<open>contribution-intake-ledger.ts\<close>). \<open>IntakeTypes\<close>, \<open>IntakeReaders\<close>,
    \<open>IntakeLedger\<close> (classification, ingestion, queries, replay) and \<open>IntakeVerify\<close> (both verifiers) are the
    code; \<open>IntakeCodec\<close> to \<open>IntakeReplay\<close> its laws: reachable ledgers by rule induction (\<open>IntakeSteps\<close>,
    \<open>IntakeHistory\<close>), the line of heads (\<open>IntakeHeads\<close>), receipts and replay. \<open>IntakeLaws\<close> states C1 to C4,
    C15, C34 and C35: the verifier accepts exactly the ledgers the module can produce, heads succeed
    each other in order, foreign identities are powerless, replay is faithful. It also proves
    that ingestion is total, that a delivery sent again is recognised, that issued receipts verify and that
    digests pin ledgers and histories.
  \<^item> \<^bold>\<open>Effective rights\<close> (\<open>effective-rights.ts\<close>). \<open>EffectiveRights\<close> is the compiler of four operands, the
    result verifier and the permission X-ray; \<open>RightsLaws\<close> states C18 to C20: the compiler permits exactly
    coherent inputs, rights only shrink, the verifier's exact domain. It also proves that the order of the operands
    is irrelevant.
  \<^item> \<^bold>\<open>Injection trust boundary\<close> (\<open>injection-trust-boundary.ts\<close>). \<open>TrustBoundary\<close> parses content
    envelopes, a context and a candidate, and rebuilds the action from the catalogue; \<open>BoundaryLaws\<close> states
    C24 and C26: content never reaches the action, the evidence is one row for each envelope the context was
    given; it also proves that actions come from the catalogue and that the boundary fails closed.
  \<^item> \<^bold>\<open>Protected audit timeline\<close> (\<open>protected-audit-timeline.ts\<close>). \<open>AuditTypes\<close> has the events, envelopes and
    checkpoints with their validation, \<open>AuditTimeline\<close> signing, verification, explanation and the writer.
    \<open>AuditReading\<close> shows that validated values are encodings, \<open>AuditLog\<close> is the abstract log the code
    promises, \<open>AuditWriter\<close> the refinement by the writer, \<open>AuditSynthetic\<close> the synthetic operation.
    \<open>AuditLaws\<close> states C29, C31 and C32: appending refines the log, the verifier accepts exactly signed
    logs under a sealing checkpoint, verified facts are causal; it also proves that a written timeline verifies and
    that a success needs an approved effect.
  \<^item> \<^bold>\<open>Model access broker\<close> (\<open>model-access-broker.ts\<close>). \<open>Redaction\<close> is global replacement of a pattern,
    \<open>ModelAccess\<close> the guards of requests, responses and streams and the provider adapters, \<open>ModelBroker\<close> the
    broker. \<open>invoke\<close> is asynchronous and is modelled as the part before its \<open>await\<close> and the part after
    it; \<open>broker_runs\<close> are all interleavings. \<open>ModelRuns\<close> has their invariants, \<open>ModelReading\<close> and \<open>ModelStreams\<close>
    what the guards establish, \<open>ModelSamples\<close> a concrete run; \<open>ModelLaws\<close> states C36 to C38: calls stay within
    the budget, a success is final, only admitted and redacted requests reach the provider; it also proves that
    accepted streams are consistent and that responses are confined.
  \<^item> \<^bold>\<open>Verification fabric\<close> (\<open>verification-fabric-v2.ts\<close>). \<open>Fabric\<close> admits the evidence graph, plans what a
    change has to run again, checks attestations and compares in shadow. \<open>FabricGraph\<close> proves the
    depth-first search and the closure of the selection, \<open>FabricPlans\<close> what a plan selects and what an
    attestation binds. \<open>FabricLaws\<close> states C8, C12 and C21: the search terminates and decides acyclicity,
    a plan selects exactly the owners of the changed paths and what depends on them, a re-used
    attestation is bound to its node; it also proves that a throwing classifier falls back to everything.
  \<^item> \<^bold>\<open>Adaptive evidence gates\<close> (\<open>adaptive-evidence-gates.ts\<close>). \<open>AdaptiveGates\<close> selects the profiles of a slice
    of work, admits a specification, runs its gates, verifies receipts and judges delivery histories and
    completion. \<open>AdaptiveFacts\<close> shows that its search for cycles is that of the fabric and that the denials given
    before the validation refuse nothing it admits. \<open>AdaptiveLaws\<close> states C25, C39 and C40: a passed verification is
    evidence for every gate and every required check, receipts expire exactly and cannot be altered, and the
    root is complete only where verification, delivery and product evidence are.
  \<^item> \<^bold>\<open>Policy generation fence\<close> (\<open>demo/runtime/policy-generation-fence.mjs\<close>, \<open>admin-ai-policy.mjs\<close>).
    \<open>RuntimeGate\<close> has what the demonstration runtime shares, \<open>PolicyFence\<close> the fence: candidates, owner
    authorisations, the signed record, activation, freezing and use. \<open>FenceLaws\<close> follows a fence over its
    whole life, \<open>FenceValid\<close> shows that it accepts the records it builds.
  \<^item> \<^bold>\<open>Policy lifecycle\<close> (\<open>demo/management/policy-lifecycle.mjs\<close>). \<open>LifecycleTypes\<close> has artifacts,
    signatures, semantic differences, approvals and the encodings, \<open>Lifecycle\<close> the manager: \<open>draft\<close>,
    \<open>validate\<close>, \<open>simulate\<close>, \<open>approve\<close>, \<open>stage\<close>, \<open>activate\<close>, \<open>retire\<close>, \<open>revoke\<close>, \<open>reportRollout\<close> and
    \<open>assertUseBinding\<close>, each on the state of record, file and fence. \<open>LifecycleSteps\<close> and \<open>LifecycleActs\<close>
    refine every operation to a move of an abstract record (\<open>lc_move\<close>), \<open>LifecycleRuns\<close> has the invariant
    of the moves and \<open>LifecycleReach\<close> of the managers that arise by any sequence of operations and restarts;
    \<open>LifecycleValid\<close> shows that the manager accepts what it writes, \<open>LifecycleSamples\<close> runs a
    generation from draft to activation. \<open>LifecycleLaws\<close> states, of the fence, C14 and C27, and of the manager
    C6, C9, C13, C22 and C33: an accepted use is of a policy that is approved, closed, active and
    signed under a key of a trust store the manager was configured with, a failed activation fails closed, revoked generations stay so, revocation works, the record is a chain of
    receipts that tells the life of each generation. It also proves that issued artifacts verify.
  \<^item> \<^bold>\<open>Approval snapshot\<close> (\<open>demo/runtime/authoritative-approval-snapshot.mjs\<close>). \<open>ApprovalSnapshot\<close> is the
    snapshot of the provider's state an owner approves an order against: its builder, the catalogue of the closed
    order, validation and freshness.
  \<^item> \<^bold>\<open>Mutation gate\<close> (\<open>demo/runtime/enforcement-gate.mjs\<close>). \<open>GateGuards\<close> has the local request, the closed
    actions and the approvals, \<open>MutationGate\<close> the agent's authority, the owner lease, the effect store and its
    normaliser, \<open>GateExecute\<close> the class with \<open>execute\<close> in the parts between its \<open>await\<close>s. \<open>GateRuns\<close> is the
    step relation of overlapping calls, failed writes, kills and restarts. \<open>Journal\<close> is the locale of keys that are
    used once and survive restarts; \<open>GateReach\<close> interprets it for leases and for replay keys, \<open>WorkbenchRuns\<close> for
    decisions. \<open>GatePassed\<close> shows what every mutation was authorised by, \<open>GateStore\<close> and \<open>GateFinish\<close> which stores
    the gate can start from and that an effect once written stays, \<open>GateIssue\<close> that it accepts the authorities it issues.
  \<^item> \<^bold>\<open>Policy decision and handler\<close> (\<open>demo/runtime/policy-evaluator.mjs\<close>, \<open>admin-ai-poc.mjs\<close>).
    \<open>PolicyDecision\<close> has the decision contract, the static evaluator, the closed policy and \<open>decide\<close>;
    \<open>PolicyAnswers\<close> what any evaluator can make it answer and that the static one is always accepted.
  \<^item> \<^bold>\<open>Approval workbench\<close> (\<open>demo/runtime/approval-workbench.mjs\<close>). \<open>ApprovalWorkbench\<close> registers escalated
    orders as proposals and has the owner's decision, again in the parts around its \<open>await\<close>s, with both stores and
    their normaliser. \<open>WorkbenchRuns\<close> is its step relation, \<open>WorkbenchValid\<close> shows that a registered proposal is valid.
    \<open>OrderPath\<close> connects the handler, the workbench and the gate; \<open>GateSamples\<close> runs all
    three on a concrete contact and a concrete order. \<open>GateLaws\<close> states C5, C7, C10, C11, C16, C17, C23, C28 and C30:
    no owner lease and no replay key of one is used for two mutations, every mutation was authorised, what a
    restart finds after each failed write, an approved order passes exactly in its period, an owner decides once,
    the ceiling of the handler and its outcomes, that a completed direct effect is replayed ever after and not
    mutated for again, and that a granted contact passes.

  The parts interact through values: the broker, the boundary and the rights compiler each produce or
  check candidates, the audit timeline records what was done, and all of them name each other's documents
  by digest. So the laws that connect them are those of canonical text and of digests. The lifecycle manager
  drives the fence by its operations, and its invariant speaks of both. The gate asks the fence about every action of
  the agent (C7), the handler signs its grants with the gate's key (C30), and the workbench has the gate issue the
  lease of an approved order (C11).

  \<^bold>\<open>How the code is represented.\<close> An exception is the left value of a result and an early return a branch.
  Classes with private maps are records passed through their operations. Integers are \<open>int\<close>, with
  \<open>Number.isSafeInteger\<close> written out where the code checks it. Strings are lists of code units below 256. An
  object carries its identity where the code keeps it in a \<open>WeakSet\<close> (the verified ledgers and receipts);
  elsewhere objects are values, so sharing and later mutation of an argument are not represented, and
  freezing and cloning are the identity. A file that holds one JSON text is absent, unparsable or the value
  its text parses to (\<open>json_file\<close>); writing and reading it back is the identity, so values handed to the
  fence and the manager are taken to be JSON values; a write either replaces the file or leaves it alone.

  \<^bold>\<open>Parameters.\<close> \<open>H\<close> stands for the SHA-256 digest of a text, \<open>sig_of\<close> and \<open>vrf\<close> for signing and
  verifying with Ed25519 keys in PEM form, \<open>le\<close> for the order of \<open>localeCompare\<close>, \<open>parse\<close> for \<open>JSON.parse\<close>,
  and the answers of a model provider are arbitrary. The records \<open>runtime\<close> and \<open>lc_runtime\<close> bundle
  SHA-256, HMAC, \<open>JSON.parse\<close>, the export of a public key, signing and verifying for the fence and the
  lifecycle manager, whose clocks and the success of whose writes are arbitrary in every call, and whose
  \<open>trustStore()\<close> answers in every call with any of the trust stores of its configuration (\<open>trustStores\<close>). \<open>gate_runtime\<close> adds what the gate needs of the platform: the text of a buffer's bytes, the number a
  text denotes and the host of a URL. The HTTP provider, the reader of snapshots, the policy evaluator and the issuer of
  authorities are functions given to the gate, the handler and the workbench in the code and are arbitrary here. What a
  theorem needs of them is among its hypotheses: digests are 64 hexadecimal digits, the hash
  does not collide on the finite set of texts named, signatures are canonical base64 and verify under their
  own key.

  \<^bold>\<open>Bounds and recursion.\<close> Every loop of the code runs over a list and is structural recursion, the pattern
  matcher recurses on the text, and the replacement on what is left of it after a match. Two loops of
  the fabric are not structural: the depth-first search takes as fuel one more than the number of nodes,
  which is enough because the path being visited has no repetition (C8), and the closure of a selection
  decreases the number of nodes not yet selected. The search of the adaptive gates takes the same fuel and is proved
  equal to that of the fabric.

  \<^bold>\<open>Not modelled.\<close> The other contracts (the policy kernel, capability catalogue, update planning,
  builder, learning, interface payloads, connectors, demonstrations) are of the same kind and are not
  modelled yet; the development worker, usage insights, the gate's HTTP provider, the wiring of
  \<open>server.mjs\<close> and the rest of the demonstration, adapters, scripts and tools are processes, servers and
  glue around files and containers. Of the modules modelled, key
  generation and PEM parsing, timers, accessor properties, proxies and symbol keys are left out, and of the
  constructors of the fence and the manager the checks on their own configuration other than the keys.
\<close>

end
